(* ===== verification/Emu_Prelude.thy ===== *)
theory Emu_Prelude
  imports Main "HOL-Library.Word"
begin

text \<open>
  Shared vocabulary of the development: the fixed-width integer types of
  \<^verbatim>\<open>src/src/emu/include/emu/types.h\<close>, the early-return combinators that the
  instruction handlers are written with, the fact collections, and the generic
  lemmas on words, bits and byte lists that the component theories rely on.
\<close>

unbundle bit_operations_syntax

section \<open>Integer types\<close>

type_synonym u8 = "8 word"
type_synonym u16 = "16 word"
type_synonym u32 = "32 word"
type_synonym u64 = "64 word"
type_synonym GuestAddr = u64

text \<open>Doubles are carried as their 64-bit patterns; the arithmetic on them is in the theory \<open>Host_Float\<close>.\<close>

type_synonym f64_bits = "64 word"

section \<open>Fact collections\<close>

named_theorems handler_defs \<open>definitions of instruction handlers\<close>
named_theorems flag_simps \<open>how the accessors of the flag register behave\<close>
named_theorems frame_simps \<open>which parts of the state an operation leaves alone\<close>

section \<open>Early-return combinators\<close>

text \<open>
  A helper of the source that returns \<open>bool\<close> and writes an out-parameter becomes a
  function returning an optional value and the new state.  \<open>read_then r k\<close> is
  \<open>if (!helper(..., v)) return; k\<close>, and \<open>ok_then r k\<close> is \<open>if (!helper(...)) return; k\<close>.
\<close>

definition read_then :: "'a option \<times> 's \<Rightarrow> ('a \<Rightarrow> 's \<Rightarrow> 's) \<Rightarrow> 's" where
  "read_then r k = (case r of (None, s) \<Rightarrow> s | (Some v, s) \<Rightarrow> k v s)"

definition ok_then :: "bool \<times> 's \<Rightarrow> ('s \<Rightarrow> 's) \<Rightarrow> 's" where
  "ok_then r k = (case r of (ok, s) \<Rightarrow> if ok then k s else s)"

lemma read_then_simps [simp]:
  "read_then (None, s) k = s"
  "read_then (Some v, s) k = k v s"
  by (simp_all add: read_then_def)

lemma ok_then_simps [simp]:
  "ok_then (True, s) k = k s"
  "ok_then (False, s) k = s"
  by (simp_all add: ok_then_def)

section \<open>Operand widths\<close>

text \<open>The operand sizes that instruction handlers are reached with, and their width in bits.\<close>

definition valid_size :: "u8 \<Rightarrow> bool" where
  "valid_size sz \<longleftrightarrow> sz = 1 \<or> sz = 2 \<or> sz = 4 \<or> sz = 8"

definition width_of :: "u8 \<Rightarrow> nat" where
  "width_of sz = 8 * unat sz"

lemma valid_size_cases [consumes 1, case_names s1 s2 s4 s8]:
  assumes "valid_size sz"
    and "sz = 1 \<Longrightarrow> P" and "sz = 2 \<Longrightarrow> P" and "sz = 4 \<Longrightarrow> P" and "sz = 8 \<Longrightarrow> P"
  shows P
  using assms by (auto simp: valid_size_def)

lemma valid_size_consts [simp]: "valid_size 1" "valid_size 2" "valid_size 4" "valid_size 8"
  by (simp_all add: valid_size_def)

lemma width_of_consts [simp]:
  "width_of 1 = 8" "width_of 2 = 16" "width_of 4 = 32" "width_of 8 = 64"
  by (simp_all add: width_of_def)

lemma width_of_range: "valid_size sz \<Longrightarrow> 8 \<le> width_of sz \<and> width_of sz \<le> 64"
  by (auto simp: valid_size_def)

section \<open>Words and bits\<close>

lemma and_exp_neq_0_iff:
  fixes x :: "'a::len word"
  assumes "n < LENGTH('a)"
  shows "x AND 2 ^ n \<noteq> 0 \<longleftrightarrow> bit x n"
proof -
  have "x AND 2 ^ n = (if bit x n then 2 ^ n else 0)"
    using assms by (intro bit_word_eqI) (auto simp: bit_simps)
  moreover have "(2 :: 'a word) ^ n \<noteq> 0"
    using assms by simp
  ultimately show ?thesis by simp
qed

lemma bit_uint_ge_half:
  fixes x :: "'a::len word"
  assumes "uint x < 2 ^ Suc n"
  shows "bit x n \<longleftrightarrow> 2 ^ n \<le> uint x"
proof -
  have "bit x n \<longleftrightarrow> bit (uint x) n"
    by (auto simp: bit_uint_iff dest: bit_imp_le_length)
  then have "bit x n \<longleftrightarrow> odd (uint x div 2 ^ n)"
    by (simp only: bit_iff_odd [of "uint x"])
  moreover have "uint x div 2 ^ n = (if 2 ^ n \<le> uint x then 1 else 0)"
  proof (cases "2 ^ n \<le> uint x")
    case True
    have "uint x div 2 ^ n = ((uint x - 2 ^ n) + 2 ^ n) div 2 ^ n" by simp
    also have "\<dots> = (uint x - 2 ^ n) div 2 ^ n + 1"
      using div_add_self2 [of "2 ^ n" "uint x - 2 ^ n"] by simp
    also have "(uint x - 2 ^ n) div 2 ^ n = 0"
      using assms True by (intro div_pos_pos_trivial) auto
    finally show ?thesis using True by simp
  next
    case False
    then show ?thesis by (simp add: div_pos_pos_trivial)
  qed
  ultimately show ?thesis by simp
qed

end
