(* ===== verification/Status_Fault.thy ===== *)
theory Status_Fault
  imports Emu_Prelude
begin

text \<open>
  Status codes (\<^verbatim>\<open>emu/error.h\<close>), the fault model (\<^verbatim>\<open>emu/fault.h\<close>) and the mapping
  from one to the other (\<^verbatim>\<open>src/emu/cpu/fault.cpp\<close>).  A fault's diagnostic note is a
  static string of the code and is carried as a HOL string, \<open>[]\<close> standing for the null pointer.
\<close>

section \<open>Status codes\<close>

datatype Status =
    St_Ok
  | St_InvalidArgument | St_OutOfMemory | St_NotImplemented | St_Internal
  | St_UnmappedRead | St_UnmappedWrite | St_ProtectionViolation | St_ProviderFailure
  | St_InvalidInstruction | St_TruncatedInstruction | St_UnsupportedPrefix | St_UnsupportedOpcode
  | St_HostOpenFailed | St_HostQueryFailed | St_HostReadFailed
  | St_ProcessNotFound | St_FunctionNotFound

definition fail :: "Status \<Rightarrow> bool" where
  "fail s \<longleftrightarrow> s \<noteq> St_Ok"

lemma fail_simps [simp]: "\<not> fail St_Ok" "fail s \<longleftrightarrow> s \<noteq> St_Ok"
  by (simp_all add: fail_def)

text \<open>\<^verbatim>\<open>src/emu/error.cpp\<close>: the name of a status.\<close>

fun status_to_string :: "Status \<Rightarrow> string" where
  "status_to_string St_Ok = ''Ok''"
| "status_to_string St_InvalidArgument = ''InvalidArgument''"
| "status_to_string St_OutOfMemory = ''OutOfMemory''"
| "status_to_string St_NotImplemented = ''NotImplemented''"
| "status_to_string St_Internal = ''Internal''"
| "status_to_string St_UnmappedRead = ''UnmappedRead''"
| "status_to_string St_UnmappedWrite = ''UnmappedWrite''"
| "status_to_string St_ProtectionViolation = ''ProtectionViolation''"
| "status_to_string St_ProviderFailure = ''ProviderFailure''"
| "status_to_string St_InvalidInstruction = ''InvalidInstruction''"
| "status_to_string St_TruncatedInstruction = ''TruncatedInstruction''"
| "status_to_string St_UnsupportedPrefix = ''UnsupportedPrefix''"
| "status_to_string St_UnsupportedOpcode = ''UnsupportedOpcode''"
| "status_to_string St_HostOpenFailed = ''HostOpenFailed''"
| "status_to_string St_HostQueryFailed = ''HostQueryFailed''"
| "status_to_string St_HostReadFailed = ''HostReadFailed''"
| "status_to_string St_ProcessNotFound = ''ProcessNotFound''"
| "status_to_string St_FunctionNotFound = ''FunctionNotFound''"

section \<open>Faults\<close>

datatype FaultKind =
    FK_None
  | FK_PageFault | FK_GeneralProtection | FK_InvalidOpcode | FK_DivideError | FK_Breakpoint
  | FK_Overflow | FK_BoundRange | FK_DeviceNotAvailable | FK_DoubleFault | FK_InvalidTss
  | FK_SegmentNotPresent | FK_StackFault | FK_AlignmentCheck
  | FK_ProviderFailure | FK_NotImplemented | FK_InternalError

record fault =
  f_kind :: FaultKind
  f_rip :: GuestAddr
  f_addr :: GuestAddr
  f_reason :: Status
  f_note :: string

definition no_fault :: fault where
  "no_fault = \<lparr>f_kind = FK_None, f_rip = 0, f_addr = 0, f_reason = St_Ok, f_note = []\<rparr>"

definition is_set :: "fault \<Rightarrow> bool" where
  "is_set f \<longleftrightarrow> f_kind f \<noteq> FK_None"

fun fault_kind_name :: "FaultKind \<Rightarrow> string" where
  "fault_kind_name FK_None = ''None''"
| "fault_kind_name FK_PageFault = ''#PF''"
| "fault_kind_name FK_GeneralProtection = ''#GP''"
| "fault_kind_name FK_InvalidOpcode = ''#UD''"
| "fault_kind_name FK_DivideError = ''#DE''"
| "fault_kind_name FK_Breakpoint = ''#BP''"
| "fault_kind_name FK_Overflow = ''#OF''"
| "fault_kind_name FK_BoundRange = ''#BR''"
| "fault_kind_name FK_DeviceNotAvailable = ''#NM''"
| "fault_kind_name FK_DoubleFault = ''#DF''"
| "fault_kind_name FK_InvalidTss = ''#TS''"
| "fault_kind_name FK_SegmentNotPresent = ''#NP''"
| "fault_kind_name FK_StackFault = ''#SS''"
| "fault_kind_name FK_AlignmentCheck = ''#AC''"
| "fault_kind_name FK_ProviderFailure = ''ProviderFailure''"
| "fault_kind_name FK_NotImplemented = ''NotImplemented''"
| "fault_kind_name FK_InternalError = ''InternalError''"

fun kind_from_status :: "Status \<Rightarrow> FaultKind" where
  "kind_from_status St_UnmappedRead = FK_PageFault"
| "kind_from_status St_UnmappedWrite = FK_PageFault"
| "kind_from_status St_HostReadFailed = FK_PageFault"
| "kind_from_status St_ProtectionViolation = FK_GeneralProtection"
| "kind_from_status St_InvalidInstruction = FK_InvalidOpcode"
| "kind_from_status St_UnsupportedOpcode = FK_InvalidOpcode"
| "kind_from_status St_UnsupportedPrefix = FK_InvalidOpcode"
| "kind_from_status St_ProviderFailure = FK_ProviderFailure"
| "kind_from_status St_NotImplemented = FK_NotImplemented"
| "kind_from_status St_Internal = FK_InternalError"
| "kind_from_status St_TruncatedInstruction = FK_InvalidOpcode"
| "kind_from_status _ = FK_InternalError"

lemma kind_from_status_set [simp]: "kind_from_status s \<noteq> FK_None"
  by (cases s) simp_all

end
