(* ===== verification/IR.thy ===== *)
theory IR
  imports Status_Fault
begin

text \<open>
  The instruction representation of \<^verbatim>\<open>emu/ir.h\<close>: operands, condition codes, decoded
  instructions and basic blocks.  \<open>OpKind\<close> is the 16-bit enumeration of the source; the
  kinds that modelled code inspects are named here with their enumerator's value.  The
  handler pointer of an instruction is defunctionalised: a constructor per modelled
  handler, and \<open>H_other name\<close> for the handlers of the vector, floating-point and miscellaneous files, by the name of the function.
\<close>

section \<open>Registers, segments, condition codes\<close>

abbreviation (input) RAX :: u8 where "RAX \<equiv> 0"
abbreviation (input) RCX :: u8 where "RCX \<equiv> 1"
abbreviation (input) RDX :: u8 where "RDX \<equiv> 2"
abbreviation (input) RBX :: u8 where "RBX \<equiv> 3"
abbreviation (input) RSP :: u8 where "RSP \<equiv> 4"
abbreviation (input) RBP :: u8 where "RBP \<equiv> 5"
abbreviation (input) RSI :: u8 where "RSI \<equiv> 6"
abbreviation (input) RDI :: u8 where "RDI \<equiv> 7"
abbreviation (input) REG_NONE :: u8 where "REG_NONE \<equiv> 0xFF"

datatype Seg = Seg_DS | Seg_CS | Seg_SS | Seg_ES | Seg_FS | Seg_GS

datatype Cc =
    Cc_O | Cc_NO | Cc_B | Cc_NB | Cc_Z | Cc_NZ | Cc_BE | Cc_NBE
  | Cc_S | Cc_NS | Cc_P | Cc_NP | Cc_L | Cc_NL | Cc_LE | Cc_NLE
  | Cc_None

section \<open>Operands\<close>

datatype OperandKind =
    OK_None | OK_Reg | OK_Imm | OK_Mem | OK_RipRelMem | OK_Rel | OK_Xmm

text \<open>The numeric values of the enumerators, where the code casts them.\<close>

fun operand_kind_value :: "OperandKind \<Rightarrow> u64" where
  "operand_kind_value OK_None = 0"
| "operand_kind_value OK_Reg = 1"
| "operand_kind_value OK_Imm = 2"
| "operand_kind_value OK_Mem = 3"
| "operand_kind_value OK_RipRelMem = 4"
| "operand_kind_value OK_Rel = 5"
| "operand_kind_value OK_Xmm = 6"

record operand =
  o_kind :: OperandKind
  o_reg :: u8
  o_index :: u8
  o_scale :: u8
  o_seg :: Seg
  o_imm :: u64  \<comment> \<open>the 64-bit pattern of the signed field\<close>

text \<open>A value-initialised operand, \<open>Operand op{}\<close>.\<close>

definition zero_operand :: operand where
  "zero_operand = \<lparr>o_kind = OK_None, o_reg = 0, o_index = 0, o_scale = 0, o_seg = Seg_DS, o_imm = 0\<rparr>"

section \<open>Instructions\<close>

type_synonym OpKind = u16

abbreviation (input) Op_Invalid :: OpKind where "Op_Invalid \<equiv> 0"
abbreviation (input) Op_Nop :: OpKind where "Op_Nop \<equiv> 1"
abbreviation (input) Op_Mov :: OpKind where "Op_Mov \<equiv> 2"
abbreviation (input) Op_Lea :: OpKind where "Op_Lea \<equiv> 6"
abbreviation (input) Op_Xchg :: OpKind where "Op_Xchg \<equiv> 9"
abbreviation (input) Op_Imul :: OpKind where "Op_Imul \<equiv> 20"
abbreviation Op_Imul3 :: OpKind where "Op_Imul3 \<equiv> 21"
abbreviation (input) Op_Xor :: OpKind where "Op_Xor \<equiv> 26"
abbreviation (input) Op_Jmp :: OpKind where "Op_Jmp \<equiv> 39"
abbreviation (input) Op_Jcc :: OpKind where "Op_Jcc \<equiv> 40"

text \<open>The handlers by translation unit: \<^verbatim>\<open>data_mov.cpp\<close>, \<^verbatim>\<open>arithmetic.cpp\<close>, \<^verbatim>\<open>logical.cpp\<close>,
  \<^verbatim>\<open>shift_rotate.cpp\<close>, \<^verbatim>\<open>control_flow.cpp\<close>, \<^verbatim>\<open>string_ops.cpp\<close>, \<^verbatim>\<open>bit_manip.cpp\<close>, \<^verbatim>\<open>bmi.cpp\<close>.\<close>

datatype move_handler =
    H_invalid | H_nop | H_mov | H_movzx | H_movsx | H_movsxd | H_lea | H_push | H_pop
  | H_cmov | H_xchg | H_bswap | H_cwde | H_cdq

datatype arith_handler =
    H_add | H_adc | H_sub | H_sbb | H_inc | H_dec | H_neg
  | H_imul | H_mul | H_imul1 | H_div | H_idiv

datatype logic_handler = H_and | H_or | H_xor | H_not | H_test | H_cmp

datatype shift_handler =
    H_shl | H_shr | H_sar | H_rol | H_ror | H_rcl | H_rcr | H_shld | H_shrd

datatype flow_handler =
    H_jmp | H_jcc | H_call | H_ret | H_loop | H_jcxz
  | H_cpuid | H_rdtsc | H_rdrand | H_hlt | H_syscall

datatype string_handler = H_movs | H_stos | H_lods | H_scas | H_cmps

datatype bits_handler =
    H_bsf | H_bsr | H_bt | H_bts | H_btr | H_btc | H_popcnt | H_lzcnt | H_tzcnt

datatype bmi_handler =
    H_andn | H_bextr | H_blsi | H_blsr | H_blsmsk | H_bzhi | H_mulx | H_pdep | H_pext
  | H_rorx | H_sarx | H_shlx | H_shrx

datatype handler =
    HMove move_handler | HArith arith_handler | HLogic logic_handler | HShift shift_handler
  | HFlow flow_handler | HString string_handler | HBits bits_handler | HBmi bmi_handler
  | H_other string

text \<open>The bits of \<open>Insn::flags\<close>.\<close>

abbreviation (input) INSN_FLAG_CONTROL_FLOW :: u8 where "INSN_FLAG_CONTROL_FLOW \<equiv> 1"
abbreviation (input) INSN_FLAG_LOCK :: u8 where "INSN_FLAG_LOCK \<equiv> 2"
abbreviation (input) INSN_FLAG_REP :: u8 where "INSN_FLAG_REP \<equiv> 4"
abbreviation (input) INSN_FLAG_REPNE :: u8 where "INSN_FLAG_REPNE \<equiv> 8"
abbreviation (input) INSN_FLAG_HAS_SEG :: u8 where "INSN_FLAG_HAS_SEG \<equiv> 16"
abbreviation (input) INSN_FLAG_OPSIZE_PFX :: u8 where "INSN_FLAG_OPSIZE_PFX \<equiv> 32"
abbreviation (input) INSN_FLAG_ADDRSIZE_PFX :: u8 where "INSN_FLAG_ADDRSIZE_PFX \<equiv> 64"
abbreviation (input) INSN_FLAG_VEX :: u8 where "INSN_FLAG_VEX \<equiv> 128"

record insn =
  i_handler :: handler
  i_kind :: OpKind
  i_op_size :: u8
  i_len :: u8
  i_cond :: Cc
  i_flags :: u8
  i_pad :: u16
  i_rip :: GuestAddr
  i_dst :: operand
  i_src :: operand
  i_imm_extra :: u64

text \<open>A basic block; \<open>byte_size\<close> is a 32-bit counter.\<close>

record decoded_block =
  b_pc :: GuestAddr
  b_byte_size :: u32
  b_insns :: "insn list"

end
