(* ===== verification/Cpu_State.thy ===== *)
theory Cpu_State
  imports IR
begin

text \<open>
  The CPU state of \<^verbatim>\<open>emu/cpu.h\<close>: the record of the members of class \<open>Cpu\<close>, the sized register
  accessors, the x87 stack, the debug registers, the vector registers, the CPUID override
  table, fault latching, run-state flags, and the width helpers at the end of the header.

  The register arrays are functions of the index.  The C++ arrays have 16 general
  registers, and indexing past them is undefined; theorems about registers are
  stated for any index, and the ones the code reaches are the array's.
  \<open>c_mem\<close> is the state behind the attached memory providers; \<open>c_tsc\<close> and \<open>c_rdrand\<close> are the
  function-local statics of \<open>op_rdtsc\<close> and \<open>op_rdrand\<close>.
\<close>

section \<open>The state\<close>

datatype CcOp =
    CC_Eflags | CC_Add | CC_Adc | CC_Sub | CC_Sbb | CC_Inc | CC_Dec | CC_Neg | CC_Logic
  | CC_Shl | CC_Shr | CC_Sar | CC_Rol | CC_Ror | CC_MulOv

record cpuid_leaf =
  cl_leaf :: u32
  cl_subleaf :: u32
  cl_eax :: u32
  cl_ebx :: u32
  cl_ecx :: u32
  cl_edx :: u32

record 'm cpu =
  c_gpr :: "u8 \<Rightarrow> u64"
  c_dr :: "u8 \<Rightarrow> u64"
  c_zmm :: "u8 \<Rightarrow> nat \<Rightarrow> u8"
  c_k :: "u8 \<Rightarrow> u64"
  c_fpu_st :: "u8 \<Rightarrow> f64_bits"
  c_fpu_cw :: u16
  c_fpu_sw :: u16
  c_fpu_top :: u8
  c_rip :: GuestAddr
  c_rflags :: u64
  c_fs_base :: u64
  c_gs_base :: u64
  c_fault :: fault
  c_cc_op :: CcOp
  c_cc_size :: u8
  c_cc_dst :: u64
  c_cc_src :: u64
  c_cc_src2 :: u64
  c_halted :: bool
  c_branch_taken :: bool
  c_cpuid :: "cpuid_leaf list"
  c_tsc :: u64
  c_rdrand :: u64
  c_mem :: 'm

section \<open>Flag bits\<close>

abbreviation (input) FLAG_CF :: u64 where "FLAG_CF \<equiv> 1"
abbreviation (input) FLAG_PF :: u64 where "FLAG_PF \<equiv> 4"
abbreviation (input) FLAG_AF :: u64 where "FLAG_AF \<equiv> 16"
abbreviation (input) FLAG_ZF :: u64 where "FLAG_ZF \<equiv> 64"
abbreviation (input) FLAG_SF :: u64 where "FLAG_SF \<equiv> 128"
abbreviation (input) FLAG_DF :: u64 where "FLAG_DF \<equiv> 1024"
abbreviation (input) FLAG_OF :: u64 where "FLAG_OF \<equiv> 2048"

abbreviation (input) ALWAYS_ONE :: u64 where "ALWAYS_ONE \<equiv> 2"

text \<open>\<open>CF | PF | AF | ZF | SF | OF\<close>.\<close>

definition ARITH_MASK :: u64 where
  "ARITH_MASK = FLAG_CF OR FLAG_PF OR FLAG_AF OR FLAG_ZF OR FLAG_SF OR FLAG_OF"

section \<open>A fresh CPU\<close>

text \<open>The in-class member initialisers, over the initial state of the attached memory.\<close>

definition initial_cpu :: "'m \<Rightarrow> 'm cpu" where
  "initial_cpu m = \<lparr>
     c_gpr = (\<lambda>_. 0), c_dr = (\<lambda>_. 0), c_zmm = (\<lambda>_ _. 0), c_k = (\<lambda>_. 0), c_fpu_st = (\<lambda>_. 0),
     c_fpu_cw = 0x037F, c_fpu_sw = 0, c_fpu_top = 0,
     c_rip = 0, c_rflags = ALWAYS_ONE, c_fs_base = 0, c_gs_base = 0, c_fault = no_fault,
     c_cc_op = CC_Eflags, c_cc_size = 4, c_cc_dst = 0, c_cc_src = 0, c_cc_src2 = 0,
     c_halted = False, c_branch_taken = False, c_cpuid = [],
     c_tsc = 0, c_rdrand = 0x12345678ABCDEF01, c_mem = m\<rparr>"

section \<open>General registers\<close>

definition reg :: "'m cpu \<Rightarrow> u8 \<Rightarrow> u64" where
  "reg c idx = c_gpr c idx"

definition reg8 :: "'m cpu \<Rightarrow> u8 \<Rightarrow> u8" where
  "reg8 c idx =
     (if 16 \<le> idx \<and> idx < 20 then ucast (drop_bit 8 (c_gpr c (idx - 16)) AND 0xFF)
      else ucast (c_gpr c idx AND 0xFF))"

definition reg16 :: "'m cpu \<Rightarrow> u8 \<Rightarrow> u16" where
  "reg16 c idx = ucast (c_gpr c idx AND 0xFFFF)"

definition reg32 :: "'m cpu \<Rightarrow> u8 \<Rightarrow> u32" where
  "reg32 c idx = ucast (c_gpr c idx AND 0xFFFFFFFF)"

definition set_r64 :: "u8 \<Rightarrow> u64 \<Rightarrow> 'm cpu \<Rightarrow> 'm cpu" where
  "set_r64 idx v c = c\<lparr>c_gpr := (c_gpr c)(idx := v)\<rparr>"

definition set_r8 :: "u8 \<Rightarrow> u8 \<Rightarrow> 'm cpu \<Rightarrow> 'm cpu" where
  "set_r8 idx v c =
     (if 16 \<le> idx \<and> idx < 20 then
        (let base = idx - 16
         in set_r64 base ((c_gpr c base AND NOT 0xFF00) OR push_bit 8 (ucast v)) c)
      else set_r64 idx ((c_gpr c idx AND NOT 0xFF) OR ucast v) c)"

definition set_r16 :: "u8 \<Rightarrow> u16 \<Rightarrow> 'm cpu \<Rightarrow> 'm cpu" where
  "set_r16 idx v c = set_r64 idx ((c_gpr c idx AND NOT 0xFFFF) OR ucast v) c"

definition set_r32 :: "u8 \<Rightarrow> u32 \<Rightarrow> 'm cpu \<Rightarrow> 'm cpu" where
  "set_r32 idx v c = set_r64 idx (ucast v) c"

definition set_rip :: "GuestAddr \<Rightarrow> 'm cpu \<Rightarrow> 'm cpu" where
  "set_rip v c = c\<lparr>c_rip := v\<rparr>"

section \<open>x87 stack\<close>

definition fpu_top :: "'m cpu \<Rightarrow> u8" where
  "fpu_top c = c_fpu_top c AND 7"

definition fpu_sw :: "'m cpu \<Rightarrow> u16" where
  "fpu_sw c = (c_fpu_sw c AND NOT 0x3800) OR push_bit 11 (ucast (c_fpu_top c AND 7))"

definition set_fpu_cw :: "u16 \<Rightarrow> 'm cpu \<Rightarrow> 'm cpu" where
  "set_fpu_cw v c = c\<lparr>c_fpu_cw := v\<rparr>"

definition set_fpu_sw :: "u16 \<Rightarrow> 'm cpu \<Rightarrow> 'm cpu" where
  "set_fpu_sw v c = c\<lparr>c_fpu_sw := v AND NOT 0x3800, c_fpu_top := ucast (drop_bit 11 v AND 7)\<rparr>"

definition st :: "'m cpu \<Rightarrow> u8 \<Rightarrow> f64_bits" where
  "st c i = c_fpu_st c ((c_fpu_top c + i) AND 7)"

definition set_st :: "u8 \<Rightarrow> f64_bits \<Rightarrow> 'm cpu \<Rightarrow> 'm cpu" where
  "set_st i v c = c\<lparr>c_fpu_st := (c_fpu_st c)((c_fpu_top c + i) AND 7 := v)\<rparr>"

definition fpu_push :: "f64_bits \<Rightarrow> 'm cpu \<Rightarrow> 'm cpu" where
  "fpu_push v c =
     (let t = (c_fpu_top c - 1) AND 7
      in c\<lparr>c_fpu_top := t, c_fpu_st := (c_fpu_st c)(t := v)\<rparr>)"

definition fpu_pop :: "'m cpu \<Rightarrow> f64_bits \<times> 'm cpu" where
  "fpu_pop c = (c_fpu_st c (c_fpu_top c), c\<lparr>c_fpu_top := (c_fpu_top c + 1) AND 7\<rparr>)"

section \<open>Debug registers\<close>

definition dr :: "'m cpu \<Rightarrow> u8 \<Rightarrow> u64" where
  "dr c idx = c_dr c (idx AND 7)"

definition set_dr :: "u8 \<Rightarrow> u64 \<Rightarrow> 'm cpu \<Rightarrow> 'm cpu" where
  "set_dr idx v c = c\<lparr>c_dr := (c_dr c)(idx AND 7 := v)\<rparr>"

text \<open>The two loops over the breakpoints 0 to 3; a match sets bit \<open>n\<close> of DR6 and stops.\<close>

definition mark_dr6 :: "nat \<Rightarrow> 'm cpu \<Rightarrow> 'm cpu" where
  "mark_dr6 n c = c\<lparr>c_dr := (c_dr c)(6 := c_dr c 6 OR push_bit n 1)\<rparr>"

definition dr_enabled :: "'m cpu \<Rightarrow> nat \<Rightarrow> bool" where
  "dr_enabled c n \<longleftrightarrow> drop_bit (2 * n) (c_dr c 7) AND 3 \<noteq> 0"

definition dr_cond :: "'m cpu \<Rightarrow> nat \<Rightarrow> u64" where
  "dr_cond c n = drop_bit (16 + 4 * n) (c_dr c 7) AND 3"

definition exec_breakpoint_matches :: "'m cpu \<Rightarrow> GuestAddr \<Rightarrow> nat \<Rightarrow> bool" where
  "exec_breakpoint_matches c rip n \<longleftrightarrow>
     dr_enabled c n \<and> dr_cond c n = 0 \<and> c_dr c (of_nat n) = rip"

definition bp_length :: "u64 \<Rightarrow> u64" where
  "bp_length field = (if field = 0 then 1 else if field = 1 then 2 else if field = 2 then 8 else 4)"

definition data_breakpoint_matches :: "'m cpu \<Rightarrow> GuestAddr \<Rightarrow> bool \<Rightarrow> u8 \<Rightarrow> nat \<Rightarrow> bool" where
  "data_breakpoint_matches c addr is_write sz n \<longleftrightarrow>
     dr_enabled c n \<and>
     (dr_cond c n = 1 \<and> is_write \<or> dr_cond c n = 3) \<and>
     (let bp_lo = c_dr c (of_nat n);
          bp_hi = bp_lo + bp_length (drop_bit (18 + 4 * n) (c_dr c 7) AND 3);
          ac_lo = addr; ac_hi = addr + ucast sz
      in ac_lo < bp_hi \<and> bp_lo < ac_hi)"

fun first_match :: "(nat \<Rightarrow> bool) \<Rightarrow> nat list \<Rightarrow> nat option" where
  "first_match P [] = None"
| "first_match P (n # ns) = (if P n then Some n else first_match P ns)"

definition exec_breakpoint_at :: "GuestAddr \<Rightarrow> 'm cpu \<Rightarrow> bool \<times> 'm cpu" where
  "exec_breakpoint_at rip c =
     (case first_match (exec_breakpoint_matches c rip) [0, 1, 2, 3] of
        None \<Rightarrow> (False, c)
      | Some n \<Rightarrow> (True, mark_dr6 n c))"

definition data_breakpoint_at :: "GuestAddr \<Rightarrow> bool \<Rightarrow> u8 \<Rightarrow> 'm cpu \<Rightarrow> bool \<times> 'm cpu" where
  "data_breakpoint_at addr is_write sz c =
     (case first_match (data_breakpoint_matches c addr is_write sz) [0, 1, 2, 3] of
        None \<Rightarrow> (False, c)
      | Some n \<Rightarrow> (True, mark_dr6 n c))"

section \<open>Vector registers and opmasks\<close>

definition zero_ymm_upper :: "u8 \<Rightarrow> 'm cpu \<Rightarrow> 'm cpu" where
  "zero_ymm_upper idx c =
     c\<lparr>c_zmm := (c_zmm c)(idx := (\<lambda>i. if 16 \<le> i \<and> i < 64 then 0 else c_zmm c idx i))\<rparr>"

definition zero_zmm_upper :: "u8 \<Rightarrow> u8 \<Rightarrow> 'm cpu \<Rightarrow> 'm cpu" where
  "zero_zmm_upper idx width_bytes c =
     c\<lparr>c_zmm := (c_zmm c)(idx :=
        (\<lambda>i. if unat width_bytes \<le> i \<and> i < 64 then 0 else c_zmm c idx i))\<rparr>"

text \<open>Little-endian assembly of \<open>n\<close> bytes into a 64-bit value, and back.\<close>

fun le_value :: "u8 list \<Rightarrow> u64" where
  "le_value [] = 0"
| "le_value (b # bs) = ucast b OR push_bit 8 (le_value bs)"

definition le_bytes :: "nat \<Rightarrow> u64 \<Rightarrow> u8 list" where
  "le_bytes n v = map (\<lambda>i. ucast (drop_bit (8 * i) v AND 0xFF)) [0..<n]"

definition xmm_qword :: "'m cpu \<Rightarrow> u8 \<Rightarrow> u8 \<Rightarrow> u64" where
  "xmm_qword c idx lane = le_value (map (\<lambda>i. c_zmm c idx (8 * unat lane + i)) [0..<8])"

definition set_xmm_qword :: "u8 \<Rightarrow> u8 \<Rightarrow> u64 \<Rightarrow> 'm cpu \<Rightarrow> 'm cpu" where
  "set_xmm_qword idx lane v c =
     c\<lparr>c_zmm := (c_zmm c)(idx :=
        (\<lambda>i. if 8 * unat lane \<le> i \<and> i < 8 * unat lane + 8
             then le_bytes 8 v ! (i - 8 * unat lane) else c_zmm c idx i))\<rparr>"

definition kreg :: "'m cpu \<Rightarrow> u8 \<Rightarrow> u64" where
  "kreg c idx = c_k c (idx AND 7)"

definition set_k :: "u8 \<Rightarrow> u64 \<Rightarrow> 'm cpu \<Rightarrow> 'm cpu" where
  "set_k idx v c = c\<lparr>c_k := (c_k c)(idx AND 7 := v)\<rparr>"

section \<open>CPUID overrides\<close>

definition leaf_matches :: "u32 \<Rightarrow> u32 \<Rightarrow> cpuid_leaf \<Rightarrow> bool" where
  "leaf_matches leaf subleaf e \<longleftrightarrow> cl_leaf e = leaf \<and> cl_subleaf e = subleaf"

fun cpuid_set_in :: "cpuid_leaf \<Rightarrow> cpuid_leaf list \<Rightarrow> cpuid_leaf list" where
  "cpuid_set_in new [] = [new]"
| "cpuid_set_in new (e # es) =
     (if leaf_matches (cl_leaf new) (cl_subleaf new) e then new # es
      else e # cpuid_set_in new es)"

definition set_cpuid :: "cpuid_leaf \<Rightarrow> 'm cpu \<Rightarrow> 'm cpu" where
  "set_cpuid new c = c\<lparr>c_cpuid := cpuid_set_in new (c_cpuid c)\<rparr>"

definition cpuid_lookup :: "'m cpu \<Rightarrow> u32 \<Rightarrow> u32 \<Rightarrow> cpuid_leaf option" where
  "cpuid_lookup c leaf subleaf = List.find (leaf_matches leaf subleaf) (c_cpuid c)"

definition clear_cpuid_overrides :: "'m cpu \<Rightarrow> 'm cpu" where
  "clear_cpuid_overrides c = c\<lparr>c_cpuid := []\<rparr>"

section \<open>Faults and run state\<close>

definition set_fault :: "FaultKind \<Rightarrow> GuestAddr \<Rightarrow> Status \<Rightarrow> string \<Rightarrow> 'm cpu \<Rightarrow> 'm cpu" where
  "set_fault kind addr reason note c =
     c\<lparr>c_fault := \<lparr>f_kind = kind, f_rip = c_rip c, f_addr = addr, f_reason = reason, f_note = note\<rparr>,
       c_halted := True\<rparr>"

definition set_fault_status :: "GuestAddr \<Rightarrow> Status \<Rightarrow> 'm cpu \<Rightarrow> 'm cpu" where
  "set_fault_status addr reason c = set_fault (kind_from_status reason) addr reason [] c"

definition clear_fault :: "'m cpu \<Rightarrow> 'm cpu" where
  "clear_fault c = c\<lparr>c_fault := no_fault\<rparr>"

definition halt :: "'m cpu \<Rightarrow> 'm cpu" where
  "halt c = c\<lparr>c_halted := True\<rparr>"

definition unhalt :: "'m cpu \<Rightarrow> 'm cpu" where
  "unhalt c = c\<lparr>c_halted := False\<rparr>"

definition clear_branch :: "'m cpu \<Rightarrow> 'm cpu" where
  "clear_branch c = c\<lparr>c_branch_taken := False\<rparr>"

definition take_branch :: "GuestAddr \<Rightarrow> 'm cpu \<Rightarrow> 'm cpu" where
  "take_branch target c = c\<lparr>c_rip := target, c_branch_taken := True\<rparr>"

section \<open>Width helpers\<close>

definition mask_for :: "u8 \<Rightarrow> u64" where
  "mask_for sz =
     (if sz = 1 then 0xFF else if sz = 2 then 0xFFFF else if sz = 4 then 0xFFFFFFFF
      else if sz = 8 then 0xFFFFFFFFFFFFFFFF else 0)"

definition sign_bit_pos :: "u8 \<Rightarrow> u8" where
  "sign_bit_pos sz = ucast (ucast sz * 8 - 1 :: u32)"

definition sign_mask :: "u8 \<Rightarrow> u64" where
  "sign_mask sz = push_bit (unat (sign_bit_pos sz)) 1"

text \<open>From \<^verbatim>\<open>handler_util.h\<close>: sign extension (as the 64-bit pattern) and the shift-count mask.\<close>

definition sign_extend :: "u64 \<Rightarrow> u8 \<Rightarrow> u64" where
  "sign_extend v sz =
     (let m = mask_for sz; sb = sign_mask sz
      in if v AND sb \<noteq> 0 then (v AND m) OR NOT m else v AND m)"

definition shift_count_mask :: "u8 \<Rightarrow> u8" where
  "shift_count_mask sz = (if sz = 8 then 0x3F else 0x1F)"

section \<open>Facts about the width helpers\<close>

lemma mask_for_eq: "valid_size sz \<Longrightarrow> mask_for sz = mask (width_of sz)"
  by (erule valid_size_cases) (simp_all add: mask_for_def mask_eq_exp_minus_1)

lemma sign_mask_eq: "valid_size sz \<Longrightarrow> sign_mask sz = 2 ^ (width_of sz - 1)"
  by (erule valid_size_cases) (simp_all add: sign_mask_def sign_bit_pos_def push_bit_eq_mult)

lemma and_mask_for: "valid_size sz \<Longrightarrow> x AND mask_for sz = take_bit (width_of sz) x"
  by (simp add: mask_for_eq take_bit_eq_mask)

lemma uint_and_mask_for: "valid_size sz \<Longrightarrow> uint (x AND mask_for sz) = uint x mod 2 ^ width_of sz"
  by (simp add: and_mask_for unsigned_take_bit_eq flip: take_bit_eq_mod)

lemma unat_and_mask_for: "valid_size sz \<Longrightarrow> unat (x AND mask_for sz) = unat x mod 2 ^ width_of sz"
  by (simp add: and_mask_for unsigned_take_bit_eq flip: take_bit_eq_mod)

lemma test_sign_mask: "valid_size sz \<Longrightarrow> x AND sign_mask sz \<noteq> 0 \<longleftrightarrow> bit x (width_of sz - 1)"
proof -
  assume v: "valid_size sz"
  from width_of_range [OF v] have "width_of sz - 1 < LENGTH(64)" by (simp, linarith)
  then show ?thesis
    unfolding sign_mask_eq [OF v] by (rule and_exp_neq_0_iff)
qed

lemma bit_mask_for: "valid_size sz \<Longrightarrow> bit (mask_for sz) n \<longleftrightarrow> n < width_of sz"
  using width_of_range [of sz] by (auto simp: mask_for_eq bit_mask_iff)

lemma sign_extend_eq:
  assumes v: "valid_size sz"
  shows "sign_extend v sz = signed_take_bit (width_of sz - 1) v"
proof (rule bit_word_eqI)
  fix n assume "n < LENGTH(64)"
  then show "bit (sign_extend v sz) n = bit (signed_take_bit (width_of sz - 1) v) n"
    using width_of_range[OF v] test_sign_mask[OF v, of v]
    by (cases "n = width_of sz - 1")
       (auto simp: sign_extend_def Let_def bit_simps bit_mask_for[OF v] min_def)
qed

section \<open>Facts about byte sequences\<close>
lemma mask_literals:
  "(x :: u64) AND 0xFF = take_bit 8 x"
  "x AND 0xFFFF = take_bit 16 x"
  "x AND 0xFFFFFFFF = take_bit 32 x"
  by (simp_all add: take_bit_eq_mask mask_eq_exp_minus_1)

lemma length_le_bytes [simp]: "length (le_bytes n v) = n"
  by (simp add: le_bytes_def)

lemma bit_le_value: "length bs \<le> 8 \<Longrightarrow> bit (le_value bs) n \<longleftrightarrow> n < 8 * length bs \<and> bit (bs ! (n div 8)) (n mod 8)"
proof (induction bs arbitrary: n)
  case Nil then show ?case by simp
next
  case (Cons b bs)
  show ?case
  proof (cases "n < 8")
    case True
    then show ?thesis by (auto simp: bit_simps)
  next
    case False
    then obtain k where n: "n = k + 8" by (metis le_add_diff_inverse2 not_less)
    have "n < 8 * length (b # bs) \<Longrightarrow> n < 64" using Cons.prems by simp
    moreover have "n div 8 = Suc (k div 8)" "n mod 8 = k mod 8" unfolding n by simp_all
    moreover have "\<not> bit b n" using False by (auto dest: bit_imp_le_length)
    ultimately show ?thesis using False Cons.IH[of k] Cons.prems by (simp add: bit_simps) (auto simp: n)
  qed
qed

lemma le_value_le_bytes: "n \<le> 8 \<Longrightarrow> le_value (le_bytes n v) = take_bit (8 * n) v"
proof (rule bit_word_eqI)
  fix i assume "n \<le> 8" "i < LENGTH(64)"
  moreover have "i < 8 * n \<Longrightarrow> i div 8 < n" by (simp add: less_mult_imp_div_less mult.commute)
  ultimately show "bit (le_value (le_bytes n v)) i = bit (take_bit (8 * n) v) i"
    by (auto simp: bit_le_value le_bytes_def bit_simps mask_literals)
qed

lemma le_bytes_le_value:
  assumes "length bs \<le> 8" shows "le_bytes (length bs) (le_value bs) = bs"
proof (rule nth_equalityI)
  fix i assume i: "i < length (le_bytes (length bs) (le_value bs))"
  show "le_bytes (length bs) (le_value bs) ! i = bs ! i"
  proof (rule bit_word_eqI)
    fix n assume "n < LENGTH(8)"
    with i assms show "bit (le_bytes (length bs) (le_value bs) ! i) n = bit (bs ! i) n"
      by (simp add: le_bytes_def bit_simps bit_le_value mask_literals)
  qed
qed simp

section \<open>Facts about the register accessors\<close>

lemma reg_set_r64 [simp]: "reg (set_r64 i v c) j = (if j = i then v else reg c j)"
  by (simp add: reg_def set_r64_def)

lemma reg_set_r32 [simp]: "reg (set_r32 i v c) j = (if j = i then ucast v else reg c j)"
  by (simp add: set_r32_def)

lemma reg_set_r16 [simp]:
  "reg (set_r16 i v c) j = (if j = i then (reg c i AND NOT 0xFFFF) OR ucast v else reg c j)"
  by (simp add: set_r16_def reg_def set_r64_def)

lemma c_gpr_reg: "c_gpr c i = reg c i"
  by (simp add: reg_def)

lemma set_gpr_frame [simp]:
  "c_mem (set_r64 i v c) = c_mem c" "c_mem (set_r32 i v32 c) = c_mem c"
  "c_mem (set_r16 i v16 c) = c_mem c" "c_mem (set_r8 i v8 c) = c_mem c"
  "c_rip (set_r64 i v c) = c_rip c" "c_halted (set_r64 i v c) = c_halted c"
  "c_fault (set_r64 i v c) = c_fault c" "c_rflags (set_r64 i v c) = c_rflags c"
  "c_cc_op (set_r64 i v c) = c_cc_op c" "c_dr (set_r64 i v c) = c_dr c"
  by (simp_all add: set_r64_def set_r32_def set_r16_def set_r8_def Let_def)

end
