(* ===== verification/Flags.thy ===== *)
theory Flags
  imports Cpu_State
begin

text \<open>
  The flag machinery of \<^verbatim>\<open>src/emu/cpu/flags.cpp\<close> and the flag accessors of \<^verbatim>\<open>emu/cpu.h\<close>:
  the parity table, the \<open>compute_*\<close> functions of the lazy path, \<open>sync_flags_\<close>, the
  \<open>stash_*\<close> entry points, the eager reference implementation, and the condition codes
  of \<^verbatim>\<open>src/emu/cpu/cpu.cpp\<close>.

  A flag reader of the source synchronises the flags as a side effect (the member is
  mutable).  Here a reader such as \<open>get_cf\<close> returns the value only, and a definition that
  models code reading a flag also applies \<open>sync_flags\<close> to the state it returns.
\<close>

section \<open>Parity, ZF/SF/PF\<close>

definition PARITY_TABLE :: "nat list" where
  "PARITY_TABLE = [
    1,0,0,1,0,1,1,0,0,1,1,0,1,0,0,1,
    0,1,1,0,1,0,0,1,1,0,0,1,0,1,1,0,
    0,1,1,0,1,0,0,1,1,0,0,1,0,1,1,0,
    1,0,0,1,0,1,1,0,0,1,1,0,1,0,0,1,
    0,1,1,0,1,0,0,1,1,0,0,1,0,1,1,0,
    1,0,0,1,0,1,1,0,0,1,1,0,1,0,0,1,
    1,0,0,1,0,1,1,0,0,1,1,0,1,0,0,1,
    0,1,1,0,1,0,0,1,1,0,0,1,0,1,1,0,
    0,1,1,0,1,0,0,1,1,0,0,1,0,1,1,0,
    1,0,0,1,0,1,1,0,0,1,1,0,1,0,0,1,
    1,0,0,1,0,1,1,0,0,1,1,0,1,0,0,1,
    0,1,1,0,1,0,0,1,1,0,0,1,0,1,1,0,
    1,0,0,1,0,1,1,0,0,1,1,0,1,0,0,1,
    0,1,1,0,1,0,0,1,1,0,0,1,0,1,1,0,
    0,1,1,0,1,0,0,1,1,0,0,1,0,1,1,0,
    1,0,0,1,0,1,1,0,0,1,1,0,1,0,0,1]"

definition parity8 :: "u8 \<Rightarrow> bool" where
  "parity8 v \<longleftrightarrow> PARITY_TABLE ! unat v \<noteq> 0"

definition apply_zsp :: "u64 \<Rightarrow> u8 \<Rightarrow> u64 \<Rightarrow> u64" where
  "apply_zsp bits sz result =
     (let mr = result AND mask_for sz;
          bits = bits AND NOT (FLAG_ZF OR FLAG_SF OR FLAG_PF);
          bits = (if mr = 0 then bits OR FLAG_ZF else bits);
          bits = (if mr AND sign_mask sz \<noteq> 0 then bits OR FLAG_SF else bits)
      in if parity8 (ucast mr) then bits OR FLAG_PF else bits)"

definition with_bit :: "u64 \<Rightarrow> u64 \<Rightarrow> bool \<Rightarrow> u64" where
  "with_bit bits m on =
     (let bits = bits AND NOT m in if on then bits OR m else bits)"

section \<open>Computing the flags of a stashed operation\<close>

definition compute_logic :: "u8 \<Rightarrow> u64 \<Rightarrow> u64" where
  "compute_logic sz dst = apply_zsp ALWAYS_ONE sz dst"

definition compute_add :: "u8 \<Rightarrow> u64 \<Rightarrow> u64 \<Rightarrow> u64" where
  "compute_add sz src dst =
     (let m = mask_for sz; sb = sign_mask sz;
          b = src AND m; r = dst AND m; a = (r - b) AND m;
          bits = apply_zsp ALWAYS_ONE sz r;
          bits = with_bit bits FLAG_CF (r < b);
          bits = with_bit bits FLAG_OF (((a XOR r) AND (b XOR r)) AND sb \<noteq> 0)
      in with_bit bits FLAG_AF ((a XOR b XOR r) AND 0x10 \<noteq> 0))"

definition compute_adc :: "u8 \<Rightarrow> u64 \<Rightarrow> u64 \<Rightarrow> bool \<Rightarrow> u64" where
  "compute_adc sz src dst cin =
     (let m = mask_for sz; sb = sign_mask sz;
          b = src AND m; r = dst AND m; a = (r - b - of_bool cin) AND m;
          bits = apply_zsp ALWAYS_ONE sz r;
          bits = with_bit bits FLAG_CF (if cin then r \<le> b else r < b);
          bits = with_bit bits FLAG_OF (((a XOR r) AND (b XOR r)) AND sb \<noteq> 0)
      in with_bit bits FLAG_AF ((a XOR b XOR r) AND 0x10 \<noteq> 0))"

definition compute_sub :: "u8 \<Rightarrow> u64 \<Rightarrow> u64 \<Rightarrow> u64" where
  "compute_sub sz src dst =
     (let m = mask_for sz; sb = sign_mask sz;
          b = src AND m; r = dst AND m; a = (r + b) AND m;
          bits = apply_zsp ALWAYS_ONE sz r;
          bits = with_bit bits FLAG_CF (a < b);
          bits = with_bit bits FLAG_OF (((a XOR b) AND (a XOR r)) AND sb \<noteq> 0)
      in with_bit bits FLAG_AF ((a XOR b XOR r) AND 0x10 \<noteq> 0))"

definition compute_sbb :: "u8 \<Rightarrow> u64 \<Rightarrow> u64 \<Rightarrow> bool \<Rightarrow> u64" where
  "compute_sbb sz src dst bin =
     (let m = mask_for sz; sb = sign_mask sz;
          b = src AND m; r = dst AND m; a = (r + b + of_bool bin) AND m;
          bits = apply_zsp ALWAYS_ONE sz r;
          bits = with_bit bits FLAG_CF (if bin then a \<le> b else a < b);
          bits = with_bit bits FLAG_OF (((a XOR b) AND (a XOR r)) AND sb \<noteq> 0)
      in with_bit bits FLAG_AF ((a XOR b XOR r) AND 0x10 \<noteq> 0))"

definition compute_inc :: "u8 \<Rightarrow> bool \<Rightarrow> u64 \<Rightarrow> u64" where
  "compute_inc sz saved_cf dst =
     (let m = mask_for sz; sb = sign_mask sz;
          r = dst AND m; prev = (r - 1) AND m;
          bits = apply_zsp ALWAYS_ONE sz r;
          bits = with_bit bits FLAG_CF saved_cf;
          bits = with_bit bits FLAG_OF (prev = sb - 1 \<and> r AND sb \<noteq> 0)
      in with_bit bits FLAG_AF ((prev XOR r) AND 0x10 \<noteq> 0))"

definition compute_dec :: "u8 \<Rightarrow> bool \<Rightarrow> u64 \<Rightarrow> u64" where
  "compute_dec sz saved_cf dst =
     (let m = mask_for sz; sb = sign_mask sz;
          r = dst AND m; prev = (r + 1) AND m;
          bits = apply_zsp ALWAYS_ONE sz r;
          bits = with_bit bits FLAG_CF saved_cf;
          bits = with_bit bits FLAG_OF (prev = sb \<and> r AND sb = 0)
      in with_bit bits FLAG_AF ((prev XOR r) AND 0x10 \<noteq> 0))"

definition compute_neg :: "u8 \<Rightarrow> u64 \<Rightarrow> u64 \<Rightarrow> u64" where
  "compute_neg sz src dst =
     (let m = mask_for sz; sb = sign_mask sz;
          a = src AND m; r = dst AND m;
          bits = apply_zsp ALWAYS_ONE sz r;
          bits = with_bit bits FLAG_CF (a \<noteq> 0);
          bits = with_bit bits FLAG_OF (a = sb)
      in with_bit bits FLAG_AF ((a OR r) AND 0x10 \<noteq> 0))"

definition compute_shl :: "u8 \<Rightarrow> u64 \<Rightarrow> u64 \<Rightarrow> u8 \<Rightarrow> u64" where
  "compute_shl sz original dst count =
     (if count = 0 then apply_zsp ALWAYS_ONE sz dst
      else
        (let width = sz * 8; sb = sign_mask sz;
             bits = apply_zsp ALWAYS_ONE sz dst;
             cf = (if count \<le> width
                   then drop_bit (unat width - unat count) original AND 1 \<noteq> 0 else False);
             bits = with_bit bits FLAG_CF cf
         in if count = 1 then with_bit bits FLAG_OF ((dst AND sb \<noteq> 0) \<noteq> cf) else bits))"

definition compute_shr :: "u8 \<Rightarrow> u64 \<Rightarrow> u64 \<Rightarrow> u8 \<Rightarrow> u64" where
  "compute_shr sz original dst count =
     (if count = 0 then apply_zsp ALWAYS_ONE sz dst
      else
        (let width = sz * 8;
             bits = apply_zsp ALWAYS_ONE sz dst;
             cf = (if count \<le> width
                   then drop_bit (unat count - 1) original AND 1 \<noteq> 0 else False);
             bits = with_bit bits FLAG_CF cf
         in if count = 1 then with_bit bits FLAG_OF (original AND sign_mask sz \<noteq> 0) else bits))"

definition compute_sar :: "u8 \<Rightarrow> u64 \<Rightarrow> u64 \<Rightarrow> u8 \<Rightarrow> u64" where
  "compute_sar sz original dst count =
     (if count = 0 then apply_zsp ALWAYS_ONE sz dst
      else
        (let width = sz * 8;
             bits = apply_zsp ALWAYS_ONE sz dst;
             cf = (if count \<le> width then drop_bit (unat count - 1) original AND 1 \<noteq> 0
                   else original AND sign_mask sz \<noteq> 0);
             bits = with_bit bits FLAG_CF cf
         in if count = 1 then with_bit bits FLAG_OF False else bits))"

definition compute_rol :: "u8 \<Rightarrow> u64 \<Rightarrow> u8 \<Rightarrow> u64 \<Rightarrow> u64" where
  "compute_rol sz dst effective_count preserved =
     (if effective_count = 0 then preserved OR ALWAYS_ONE
      else
        (let sb = sign_mask sz; cf = (dst AND 1 \<noteq> 0);
             bits = with_bit preserved FLAG_CF cf;
             bits = (if effective_count = 1
                     then with_bit bits FLAG_OF ((dst AND sb \<noteq> 0) \<noteq> cf) else bits)
         in bits OR ALWAYS_ONE))"

definition compute_ror :: "u8 \<Rightarrow> u64 \<Rightarrow> u8 \<Rightarrow> u64 \<Rightarrow> u64" where
  "compute_ror sz dst effective_count preserved =
     (if effective_count = 0 then preserved OR ALWAYS_ONE
      else
        (let sb = sign_mask sz; sb2 = drop_bit 1 sb; cf = (dst AND sb \<noteq> 0);
             bits = with_bit preserved FLAG_CF cf;
             bits = (if effective_count = 1
                     then with_bit bits FLAG_OF ((dst AND sb \<noteq> 0) \<noteq> (dst AND sb2 \<noteq> 0)) else bits)
         in bits OR ALWAYS_ONE))"

definition compute_mul_ov :: "u64 \<Rightarrow> bool \<Rightarrow> u64" where
  "compute_mul_ov preserved overflow =
     (let bits = with_bit preserved FLAG_CF overflow;
          bits = with_bit bits FLAG_OF overflow
      in bits OR ALWAYS_ONE)"

section \<open>Synchronisation\<close>

fun computed_bits :: "CcOp \<Rightarrow> u8 \<Rightarrow> u64 \<Rightarrow> u64 \<Rightarrow> u64 \<Rightarrow> u64 \<Rightarrow> u64" where
  "computed_bits CC_Eflags sz dst src src2 preserved = preserved"
| "computed_bits CC_Logic sz dst src src2 preserved = compute_logic sz dst"
| "computed_bits CC_Add sz dst src src2 preserved = compute_add sz src dst"
| "computed_bits CC_Adc sz dst src src2 preserved = compute_adc sz src dst (src2 \<noteq> 0)"
| "computed_bits CC_Sub sz dst src src2 preserved = compute_sub sz src dst"
| "computed_bits CC_Sbb sz dst src src2 preserved = compute_sbb sz src dst (src2 \<noteq> 0)"
| "computed_bits CC_Inc sz dst src src2 preserved = compute_inc sz (src \<noteq> 0) dst"
| "computed_bits CC_Dec sz dst src src2 preserved = compute_dec sz (src \<noteq> 0) dst"
| "computed_bits CC_Neg sz dst src src2 preserved = compute_neg sz src dst"
| "computed_bits CC_Shl sz dst src src2 preserved = compute_shl sz src dst (ucast src2)"
| "computed_bits CC_Shr sz dst src src2 preserved = compute_shr sz src dst (ucast src2)"
| "computed_bits CC_Sar sz dst src src2 preserved = compute_sar sz src dst (ucast src2)"
| "computed_bits CC_Rol sz dst src src2 preserved = compute_rol sz dst (ucast src2) preserved"
| "computed_bits CC_Ror sz dst src src2 preserved = compute_ror sz dst (ucast src2) preserved"
| "computed_bits CC_MulOv sz dst src src2 preserved = compute_mul_ov preserved (src \<noteq> 0)"

definition sync_flags :: "'m cpu \<Rightarrow> 'm cpu" where
  "sync_flags c =
     (if c_cc_op c = CC_Eflags then c
      else
        (let preserved = c_rflags c;
             bits = computed_bits (c_cc_op c) (c_cc_size c) (c_cc_dst c) (c_cc_src c)
                      (c_cc_src2 c) preserved;
             m = ARITH_MASK OR ALWAYS_ONE
         in c\<lparr>c_rflags := (preserved AND NOT m) OR (bits AND m), c_cc_op := CC_Eflags\<rparr>))"

section \<open>Flag accessors\<close>

definition rflags :: "'m cpu \<Rightarrow> u64" where
  "rflags c = c_rflags (sync_flags c) OR ALWAYS_ONE"

definition set_rflags :: "u64 \<Rightarrow> 'm cpu \<Rightarrow> 'm cpu" where
  "set_rflags v c = c\<lparr>c_rflags := v, c_cc_op := CC_Eflags\<rparr>"

definition get_cf :: "'m cpu \<Rightarrow> bool" where
  "get_cf c \<longleftrightarrow> c_rflags (sync_flags c) AND FLAG_CF \<noteq> 0"
definition get_pf :: "'m cpu \<Rightarrow> bool" where
  "get_pf c \<longleftrightarrow> c_rflags (sync_flags c) AND FLAG_PF \<noteq> 0"
definition get_af :: "'m cpu \<Rightarrow> bool" where
  "get_af c \<longleftrightarrow> c_rflags (sync_flags c) AND FLAG_AF \<noteq> 0"
definition get_zf :: "'m cpu \<Rightarrow> bool" where
  "get_zf c \<longleftrightarrow> c_rflags (sync_flags c) AND FLAG_ZF \<noteq> 0"
definition get_sf :: "'m cpu \<Rightarrow> bool" where
  "get_sf c \<longleftrightarrow> c_rflags (sync_flags c) AND FLAG_SF \<noteq> 0"
definition get_of :: "'m cpu \<Rightarrow> bool" where
  "get_of c \<longleftrightarrow> c_rflags (sync_flags c) AND FLAG_OF \<noteq> 0"
definition get_df :: "'m cpu \<Rightarrow> bool" where
  "get_df c \<longleftrightarrow> c_rflags c AND FLAG_DF \<noteq> 0"

definition set_flag_bit :: "u64 \<Rightarrow> bool \<Rightarrow> 'm cpu \<Rightarrow> 'm cpu" where
  "set_flag_bit m v c = c\<lparr>c_rflags := (if v then c_rflags c OR m else c_rflags c AND NOT m)\<rparr>"

definition set_cf :: "bool \<Rightarrow> 'm cpu \<Rightarrow> 'm cpu" where
  "set_cf v c = set_flag_bit FLAG_CF v (sync_flags c)"
definition set_pf :: "bool \<Rightarrow> 'm cpu \<Rightarrow> 'm cpu" where
  "set_pf v c = set_flag_bit FLAG_PF v (sync_flags c)"
definition set_af :: "bool \<Rightarrow> 'm cpu \<Rightarrow> 'm cpu" where
  "set_af v c = set_flag_bit FLAG_AF v (sync_flags c)"
definition set_zf :: "bool \<Rightarrow> 'm cpu \<Rightarrow> 'm cpu" where
  "set_zf v c = set_flag_bit FLAG_ZF v (sync_flags c)"
definition set_sf :: "bool \<Rightarrow> 'm cpu \<Rightarrow> 'm cpu" where
  "set_sf v c = set_flag_bit FLAG_SF v (sync_flags c)"
definition set_of :: "bool \<Rightarrow> 'm cpu \<Rightarrow> 'm cpu" where
  "set_of v c = set_flag_bit FLAG_OF v (sync_flags c)"
definition set_df :: "bool \<Rightarrow> 'm cpu \<Rightarrow> 'm cpu" where
  "set_df v c = set_flag_bit FLAG_DF v c"

definition force_sync_flags :: "'m cpu \<Rightarrow> 'm cpu" where
  "force_sync_flags c = sync_flags c"

section \<open>Stashing\<close>

definition stash :: "CcOp \<Rightarrow> u8 \<Rightarrow> u64 \<Rightarrow> u64 \<Rightarrow> u64 \<Rightarrow> 'm cpu \<Rightarrow> 'm cpu" where
  "stash op sz src dst src2 c =
     c\<lparr>c_cc_op := op, c_cc_size := sz, c_cc_src := src, c_cc_dst := dst, c_cc_src2 := src2\<rparr>"

definition stash_logic :: "u8 \<Rightarrow> u64 \<Rightarrow> 'm cpu \<Rightarrow> 'm cpu" where
  "stash_logic sz r c = stash CC_Logic sz 0 r 0 c"

definition stash_add :: "u8 \<Rightarrow> u64 \<Rightarrow> u64 \<Rightarrow> 'm cpu \<Rightarrow> 'm cpu" where
  "stash_add sz b r c = stash CC_Add sz b r 0 c"

definition stash_adc :: "u8 \<Rightarrow> u64 \<Rightarrow> bool \<Rightarrow> u64 \<Rightarrow> 'm cpu \<Rightarrow> 'm cpu" where
  "stash_adc sz b cin r c = stash CC_Adc sz b r (if cin then 1 else 0) c"

definition stash_sub :: "u8 \<Rightarrow> u64 \<Rightarrow> u64 \<Rightarrow> 'm cpu \<Rightarrow> 'm cpu" where
  "stash_sub sz b r c = stash CC_Sub sz b r 0 c"

definition stash_sbb :: "u8 \<Rightarrow> u64 \<Rightarrow> bool \<Rightarrow> u64 \<Rightarrow> 'm cpu \<Rightarrow> 'm cpu" where
  "stash_sbb sz b bin r c = stash CC_Sbb sz b r (if bin then 1 else 0) c"

definition stash_inc :: "u8 \<Rightarrow> u64 \<Rightarrow> 'm cpu \<Rightarrow> 'm cpu" where
  "stash_inc sz r c =
     (let c = sync_flags c; saved = (c_rflags c AND FLAG_CF \<noteq> 0)
      in stash CC_Inc sz (if saved then 1 else 0) r 0 c)"

definition stash_dec :: "u8 \<Rightarrow> u64 \<Rightarrow> 'm cpu \<Rightarrow> 'm cpu" where
  "stash_dec sz r c =
     (let c = sync_flags c; saved = (c_rflags c AND FLAG_CF \<noteq> 0)
      in stash CC_Dec sz (if saved then 1 else 0) r 0 c)"

definition stash_neg :: "u8 \<Rightarrow> u64 \<Rightarrow> u64 \<Rightarrow> 'm cpu \<Rightarrow> 'm cpu" where
  "stash_neg sz a r c = stash CC_Neg sz a r 0 c"

definition stash_shl :: "u8 \<Rightarrow> u64 \<Rightarrow> u8 \<Rightarrow> u64 \<Rightarrow> 'm cpu \<Rightarrow> 'm cpu" where
  "stash_shl sz original count r c =
     (if count = 0 then c else stash CC_Shl sz original r (ucast count) c)"

definition stash_shr :: "u8 \<Rightarrow> u64 \<Rightarrow> u8 \<Rightarrow> u64 \<Rightarrow> 'm cpu \<Rightarrow> 'm cpu" where
  "stash_shr sz original count r c =
     (if count = 0 then c else stash CC_Shr sz original r (ucast count) c)"

definition stash_sar :: "u8 \<Rightarrow> u64 \<Rightarrow> u8 \<Rightarrow> u64 \<Rightarrow> 'm cpu \<Rightarrow> 'm cpu" where
  "stash_sar sz original count r c =
     (if count = 0 then c else stash CC_Sar sz original r (ucast count) c)"

definition stash_rol :: "u8 \<Rightarrow> u64 \<Rightarrow> u8 \<Rightarrow> u64 \<Rightarrow> 'm cpu \<Rightarrow> 'm cpu" where
  "stash_rol sz original count r c =
     (let width = sz * 8; modc = count AND (width - 1)
      in if modc = 0 \<and> count = 0 then c
         else stash CC_Rol sz original r (ucast count) (sync_flags c))"

definition stash_ror :: "u8 \<Rightarrow> u64 \<Rightarrow> u8 \<Rightarrow> u64 \<Rightarrow> 'm cpu \<Rightarrow> 'm cpu" where
  "stash_ror sz original count r c =
     (let width = sz * 8; modc = count AND (width - 1)
      in if modc = 0 \<and> count = 0 then c
         else stash CC_Ror sz original r (ucast count) (sync_flags c))"

definition stash_mul_ov :: "bool \<Rightarrow> 'm cpu \<Rightarrow> 'm cpu" where
  "stash_mul_ov overflow c =
     stash CC_MulOv 8 (if overflow then 1 else 0) 0 0 (sync_flags c)"

section \<open>The eager reference implementation\<close>

definition eager_write :: "u64 \<Rightarrow> 'm cpu \<Rightarrow> 'm cpu" where
  "eager_write bits c = c\<lparr>c_cc_op := CC_Eflags, c_rflags := bits OR ALWAYS_ONE\<rparr>"

definition set_flags_logical_eager :: "u8 \<Rightarrow> u64 \<Rightarrow> 'm cpu \<Rightarrow> 'm cpu" where
  "set_flags_logical_eager sz r c =
     eager_write (apply_zsp (c_rflags c AND NOT ARITH_MASK) sz r) c"

definition set_flags_add_eager :: "u8 \<Rightarrow> u64 \<Rightarrow> u64 \<Rightarrow> u64 \<Rightarrow> 'm cpu \<Rightarrow> 'm cpu" where
  "set_flags_add_eager sz a b r c =
     (let sb = sign_mask sz; m = mask_for sz;
          ma = a AND m; mb = b AND m; mr = r AND m;
          f = apply_zsp (c_rflags c) sz r;
          f = with_bit f FLAG_CF (mr < ma);
          f = with_bit f FLAG_OF (((ma XOR mr) AND (mb XOR mr)) AND sb \<noteq> 0);
          f = with_bit f FLAG_AF ((ma XOR mb XOR mr) AND 0x10 \<noteq> 0)
      in eager_write f c)"

definition set_flags_adc_eager :: "u8 \<Rightarrow> u64 \<Rightarrow> u64 \<Rightarrow> bool \<Rightarrow> u64 \<Rightarrow> 'm cpu \<Rightarrow> 'm cpu" where
  "set_flags_adc_eager sz a b cin r c =
     (let sb = sign_mask sz; m = mask_for sz;
          ma = a AND m; mb = b AND m; mr = r AND m;
          f = apply_zsp (c_rflags c) sz r;
          f = with_bit f FLAG_CF (if cin then mr \<le> ma else mr < ma);
          f = with_bit f FLAG_OF (((ma XOR mr) AND (mb XOR mr)) AND sb \<noteq> 0);
          f = with_bit f FLAG_AF ((ma XOR mb XOR mr) AND 0x10 \<noteq> 0)
      in eager_write f c)"

definition set_flags_sub_eager :: "u8 \<Rightarrow> u64 \<Rightarrow> u64 \<Rightarrow> u64 \<Rightarrow> 'm cpu \<Rightarrow> 'm cpu" where
  "set_flags_sub_eager sz a b r c =
     (let sb = sign_mask sz; m = mask_for sz;
          ma = a AND m; mb = b AND m; mr = r AND m;
          f = apply_zsp (c_rflags c) sz r;
          f = with_bit f FLAG_CF (ma < mb);
          f = with_bit f FLAG_OF (((ma XOR mb) AND (ma XOR mr)) AND sb \<noteq> 0);
          f = with_bit f FLAG_AF ((ma XOR mb XOR mr) AND 0x10 \<noteq> 0)
      in eager_write f c)"

definition set_flags_sbb_eager :: "u8 \<Rightarrow> u64 \<Rightarrow> u64 \<Rightarrow> bool \<Rightarrow> u64 \<Rightarrow> 'm cpu \<Rightarrow> 'm cpu" where
  "set_flags_sbb_eager sz a b bin r c =
     (let sb = sign_mask sz; m = mask_for sz;
          ma = a AND m; mb = b AND m; mr = r AND m;
          f = apply_zsp (c_rflags c) sz r;
          f = with_bit f FLAG_CF (if bin then ma \<le> mb else ma < mb);
          f = with_bit f FLAG_OF (((ma XOR mb) AND (ma XOR mr)) AND sb \<noteq> 0);
          f = with_bit f FLAG_AF ((ma XOR mb XOR mr) AND 0x10 \<noteq> 0)
      in eager_write f c)"

definition set_flags_inc_eager :: "u8 \<Rightarrow> u64 \<Rightarrow> u64 \<Rightarrow> 'm cpu \<Rightarrow> 'm cpu" where
  "set_flags_inc_eager sz prev r c =
     (let sb = sign_mask sz; m = mask_for sz; mp = prev AND m; mr = r AND m;
          f = apply_zsp (c_rflags c) sz r;
          f = with_bit f FLAG_OF (mp = sb - 1 \<and> mr AND sb \<noteq> 0);
          f = with_bit f FLAG_AF ((mp XOR mr) AND 0x10 \<noteq> 0)
      in eager_write f c)"

definition set_flags_dec_eager :: "u8 \<Rightarrow> u64 \<Rightarrow> u64 \<Rightarrow> 'm cpu \<Rightarrow> 'm cpu" where
  "set_flags_dec_eager sz prev r c =
     (let sb = sign_mask sz; m = mask_for sz; mp = prev AND m; mr = r AND m;
          f = apply_zsp (c_rflags c) sz r;
          f = with_bit f FLAG_OF (mp = sb \<and> mr AND sb = 0);
          f = with_bit f FLAG_AF ((mp XOR mr) AND 0x10 \<noteq> 0)
      in eager_write f c)"

definition set_flags_neg_eager :: "u8 \<Rightarrow> u64 \<Rightarrow> u64 \<Rightarrow> 'm cpu \<Rightarrow> 'm cpu" where
  "set_flags_neg_eager sz src r c =
     (let sb = sign_mask sz; m = mask_for sz; ms = src AND m; mr = r AND m;
          f = apply_zsp (c_rflags c) sz r;
          f = with_bit f FLAG_CF (ms \<noteq> 0);
          f = with_bit f FLAG_OF (ms = sb);
          f = with_bit f FLAG_AF ((ms OR mr) AND 0x10 \<noteq> 0)
      in eager_write f c)"

definition set_flags_shl_eager :: "u8 \<Rightarrow> u64 \<Rightarrow> u8 \<Rightarrow> u64 \<Rightarrow> 'm cpu \<Rightarrow> 'm cpu" where
  "set_flags_shl_eager sz src count r c =
     (if count = 0 then c
      else
        (let width = sz * 8; sb = sign_mask sz;
             f = apply_zsp (c_rflags c) sz r;
             cf = (if count \<le> width
                   then drop_bit (unat width - unat count) src AND 1 \<noteq> 0 else False);
             f = with_bit f FLAG_CF cf;
             f = (if count = 1 then with_bit f FLAG_OF ((r AND sb \<noteq> 0) \<noteq> cf) else f);
             f = with_bit f FLAG_AF False
         in eager_write f c))"

definition set_flags_shr_eager :: "u8 \<Rightarrow> u64 \<Rightarrow> u8 \<Rightarrow> u64 \<Rightarrow> 'm cpu \<Rightarrow> 'm cpu" where
  "set_flags_shr_eager sz src count r c =
     (if count = 0 then c
      else
        (let width = sz * 8;
             f = apply_zsp (c_rflags c) sz r;
             cf = (if count \<le> width then drop_bit (unat count - 1) src AND 1 \<noteq> 0 else False);
             f = with_bit f FLAG_CF cf;
             f = (if count = 1 then with_bit f FLAG_OF (src AND sign_mask sz \<noteq> 0) else f);
             f = with_bit f FLAG_AF False
         in eager_write f c))"

definition set_flags_sar_eager :: "u8 \<Rightarrow> u64 \<Rightarrow> u8 \<Rightarrow> u64 \<Rightarrow> 'm cpu \<Rightarrow> 'm cpu" where
  "set_flags_sar_eager sz src count r c =
     (if count = 0 then c
      else
        (let width = sz * 8;
             f = apply_zsp (c_rflags c) sz r;
             cf = (if count \<le> width then drop_bit (unat count - 1) src AND 1 \<noteq> 0
                   else src AND sign_mask sz \<noteq> 0);
             f = with_bit f FLAG_CF cf;
             f = (if count = 1 then with_bit f FLAG_OF False else f);
             f = with_bit f FLAG_AF False
         in eager_write f c))"

definition set_flags_rol_eager :: "u8 \<Rightarrow> u8 \<Rightarrow> u64 \<Rightarrow> 'm cpu \<Rightarrow> 'm cpu" where
  "set_flags_rol_eager sz count r c =
     (let width = sz * 8; modc = count AND (width - 1)
      in if modc = 0 then c
         else
           (let cf = (r AND 1 \<noteq> 0);
                f = with_bit (c_rflags c) FLAG_CF cf;
                f = (if count = 1
                     then with_bit f FLAG_OF ((r AND sign_mask sz \<noteq> 0) \<noteq> cf) else f)
            in eager_write f c))"

definition set_flags_ror_eager :: "u8 \<Rightarrow> u8 \<Rightarrow> u64 \<Rightarrow> 'm cpu \<Rightarrow> 'm cpu" where
  "set_flags_ror_eager sz count r c =
     (let width = sz * 8; modc = count AND (width - 1)
      in if modc = 0 then c
         else
           (let sb = sign_mask sz; sb2 = drop_bit 1 sb; cf = (r AND sb \<noteq> 0);
                f = with_bit (c_rflags c) FLAG_CF cf;
                f = (if count = 1
                     then with_bit f FLAG_OF ((r AND sb \<noteq> 0) \<noteq> (r AND sb2 \<noteq> 0)) else f)
            in eager_write f c))"

section \<open>Condition codes\<close>

fun cond_holds :: "'m cpu \<Rightarrow> Cc \<Rightarrow> bool" where
  "cond_holds c Cc_O = get_of c"
| "cond_holds c Cc_NO = (\<not> get_of c)"
| "cond_holds c Cc_B = get_cf c"
| "cond_holds c Cc_NB = (\<not> get_cf c)"
| "cond_holds c Cc_Z = get_zf c"
| "cond_holds c Cc_NZ = (\<not> get_zf c)"
| "cond_holds c Cc_BE = (get_cf c \<or> get_zf c)"
| "cond_holds c Cc_NBE = (\<not> get_cf c \<and> \<not> get_zf c)"
| "cond_holds c Cc_S = get_sf c"
| "cond_holds c Cc_NS = (\<not> get_sf c)"
| "cond_holds c Cc_P = get_pf c"
| "cond_holds c Cc_NP = (\<not> get_pf c)"
| "cond_holds c Cc_L = (get_sf c \<noteq> get_of c)"
| "cond_holds c Cc_NL = (get_sf c = get_of c)"
| "cond_holds c Cc_LE = (get_zf c \<or> get_sf c \<noteq> get_of c)"
| "cond_holds c Cc_NLE = (\<not> get_zf c \<and> get_sf c = get_of c)"
| "cond_holds c Cc_None = True"

section \<open>Snapshot, restore, reset\<close>

record snapshot =
  s_gpr :: "u8 \<Rightarrow> u64"
  s_dr :: "u8 \<Rightarrow> u64"
  s_zmm :: "u8 \<Rightarrow> nat \<Rightarrow> u8"
  s_k :: "u8 \<Rightarrow> u64"
  s_fpu_st :: "u8 \<Rightarrow> f64_bits"
  s_fpu_cw :: u16
  s_fpu_sw :: u16
  s_fpu_top :: u8
  s_rip :: GuestAddr
  s_rflags :: u64
  s_fs_base :: u64
  s_gs_base :: u64
  s_cc_op :: CcOp
  s_cc_size :: u8
  s_cc_dst :: u64
  s_cc_src :: u64
  s_cc_src2 :: u64
  s_fault :: fault
  s_halted :: bool
  s_branch_taken :: bool

text \<open>Taking a snapshot synchronises the flags of the CPU it is taken of.\<close>

definition take_snapshot :: "'m cpu \<Rightarrow> snapshot \<times> 'm cpu" where
  "take_snapshot c =
     (let c = sync_flags c
      in (\<lparr>s_gpr = c_gpr c, s_dr = c_dr c, s_zmm = c_zmm c, s_k = c_k c, s_fpu_st = c_fpu_st c,
           s_fpu_cw = c_fpu_cw c, s_fpu_sw = c_fpu_sw c, s_fpu_top = c_fpu_top c,
           s_rip = c_rip c, s_rflags = c_rflags c, s_fs_base = c_fs_base c,
           s_gs_base = c_gs_base c, s_cc_op = c_cc_op c, s_cc_size = c_cc_size c,
           s_cc_dst = c_cc_dst c, s_cc_src = c_cc_src c, s_cc_src2 = c_cc_src2 c,
           s_fault = c_fault c, s_halted = c_halted c, s_branch_taken = c_branch_taken c\<rparr>, c))"

definition restore :: "snapshot \<Rightarrow> 'm cpu \<Rightarrow> 'm cpu" where
  "restore s c = c\<lparr>
     c_gpr := s_gpr s, c_dr := s_dr s, c_zmm := s_zmm s, c_k := s_k s, c_fpu_st := s_fpu_st s,
     c_fpu_cw := s_fpu_cw s, c_fpu_sw := s_fpu_sw s, c_fpu_top := s_fpu_top s,
     c_rip := s_rip s, c_rflags := s_rflags s, c_fs_base := s_fs_base s, c_gs_base := s_gs_base s,
     c_cc_op := s_cc_op s, c_cc_size := s_cc_size s, c_cc_dst := s_cc_dst s,
     c_cc_src := s_cc_src s, c_cc_src2 := s_cc_src2 s,
     c_fault := s_fault s, c_halted := s_halted s, c_branch_taken := s_branch_taken s\<rparr>"

definition reset :: "'m cpu \<Rightarrow> 'm cpu" where
  "reset c = c\<lparr>
     c_gpr := (\<lambda>i. if i < 16 then 0 else c_gpr c i), c_rip := 0, c_rflags := ALWAYS_ONE,
     c_fs_base := 0, c_gs_base := 0, c_halted := False, c_branch_taken := False\<rparr>"

end
