(* ===== verification/Flag_Facts.thy ===== *)
theory Flag_Facts
  imports Flags
begin

text \<open>
  The meaning of the flag machinery.  The six arithmetic flags of a CPU are abstracted to a
  record (\<open>flags_of\<close>), the architectural meaning of addition and subtraction flags is
  stated over integers (\<open>add_spec\<close>, \<open>sub_spec\<close>), and the lazy computation is proved to
  implement it for every operand width; the eager reference implementation is compared
  with the lazy one.
\<close>

section \<open>Single bits of the flag register\<close>

lemma bit_with_bit:
  assumes "k < 64"
  shows "bit (with_bit b (2 ^ k) on) n = (if n = k then on else bit b n)"
  using assms by (cases "n < 64") (auto simp: with_bit_def Let_def bit_simps dest: bit_imp_le_length)

lemmas bit_with_flag [flag_simps] =
  bit_with_bit [of 0, simplified] bit_with_bit [of 2, simplified] bit_with_bit [of 4, simplified]
  bit_with_bit [of 6, simplified] bit_with_bit [of 7, simplified] bit_with_bit [of 11, simplified]

lemma bit_power_u64: "k < 64 \<Longrightarrow> bit (2 ^ k :: u64) n \<longleftrightarrow> n = k"
  by (auto simp: bit_simps)

text \<open>The simplifier reads a bit of a word literal as a bit of the integer literal.\<close>

lemma bit_int_literals:
  "bit (2 :: int) n \<longleftrightarrow> n = 1" "bit (4 :: int) n \<longleftrightarrow> n = 2" "bit (16 :: int) n \<longleftrightarrow> n = 4"
  "bit (64 :: int) n \<longleftrightarrow> n = 6" "bit (128 :: int) n \<longleftrightarrow> n = 7" "bit (2048 :: int) n \<longleftrightarrow> n = 11"
  using bit_exp_iff [where ?'a = int, of 1 n] bit_exp_iff [where ?'a = int, of 2 n]
    bit_exp_iff [where ?'a = int, of 4 n] bit_exp_iff [where ?'a = int, of 6 n]
    bit_exp_iff [where ?'a = int, of 7 n] bit_exp_iff [where ?'a = int, of 11 n] by auto

lemma bit_int_complements:
  "bit (- 197 :: int) n \<longleftrightarrow> n \<noteq> 2 \<and> n \<noteq> 6 \<and> n \<noteq> 7"
  "bit (- 3 :: int) n \<longleftrightarrow> n \<noteq> 1"
proof -
  have "(- 197 :: int) = NOT (64 OR 128 OR 4)" "(- 3 :: int) = NOT 2" by simp_all
  then show "bit (- 197 :: int) n \<longleftrightarrow> n \<noteq> 2 \<and> n \<noteq> 6 \<and> n \<noteq> 7" "bit (- 3 :: int) n \<longleftrightarrow> n \<noteq> 1"
    by (auto simp only: bit_not_iff bit_or_iff bit_int_literals possible_bit_int)
qed

lemmas test_literals =
  and_exp_neq_0_iff [where ?'a = 64, of 0, simplified]
  and_exp_neq_0_iff [where ?'a = 64, of 2, simplified]
  and_exp_neq_0_iff [where ?'a = 64, of 4, simplified]
  and_exp_neq_0_iff [where ?'a = 64, of 6, simplified]
  and_exp_neq_0_iff [where ?'a = 64, of 7, simplified]
  and_exp_neq_0_iff [where ?'a = 64, of 10, simplified]
  and_exp_neq_0_iff [where ?'a = 64, of 11, simplified]

lemma bit_ARITH_MASK:
  "bit ARITH_MASK n \<longleftrightarrow> n = 0 \<or> n = 2 \<or> n = 4 \<or> n = 6 \<or> n = 7 \<or> n = 11"
  by (simp only: ARITH_MASK_def bit_or_iff) (auto simp: bit_int_literals bit_1_iff)

lemma bit_apply_zsp:
  assumes "valid_size sz"
  shows "bit (apply_zsp b sz r) n =
    (if n = 6 then r AND mask_for sz = 0 else if n = 7 then bit r (width_of sz - 1)
     else if n = 2 then parity8 (ucast (r AND mask_for sz)) else bit b n)"
proof -
  have "bit (r AND mask_for sz) (width_of sz - 1) = bit r (width_of sz - 1)"
    using width_of_range [OF assms] by (auto simp: bit_simps bit_mask_for [OF assms])
  with test_sign_mask [OF assms]
  have sign: "(r AND mask_for sz) AND sign_mask sz \<noteq> 0 \<longleftrightarrow> bit r (width_of sz - 1)" by blast
  have "n < 64 \<or> \<not> bit b n"
    by (auto dest: bit_imp_le_length)
  then show ?thesis
    by (simp add: apply_zsp_def Let_def sign bit_or_iff bit_and_iff bit_int_complements bit_int_literals) auto
qed

lemma bit_sync_flags:
  "bit (c_rflags (sync_flags c)) n =
     (if c_cc_op c \<noteq> CC_Eflags \<and> (n = 0 \<or> n = 1 \<or> n = 2 \<or> n = 4 \<or> n = 6 \<or> n = 7 \<or> n = 11)
      then bit (computed_bits (c_cc_op c) (c_cc_size c) (c_cc_dst c) (c_cc_src c) (c_cc_src2 c)
                  (c_rflags c)) n
      else bit (c_rflags c) n)"
proof -
  have "n < 64 \<or> \<not> bit (c_rflags c) n"
    by (auto dest: bit_imp_le_length)
  then show ?thesis
    by (auto simp: sync_flags_def Let_def bit_or_iff bit_and_iff bit_not_iff bit_ARITH_MASK bit_int_literals bit_int_complements)
qed

section \<open>Abstract flags\<close>

record aflags =
  fl_cf :: bool
  fl_pf :: bool
  fl_af :: bool
  fl_zf :: bool
  fl_sf :: bool
  fl_of :: bool

definition flags_of :: "'m cpu \<Rightarrow> aflags" where
  "flags_of c = \<lparr>fl_cf = get_cf c, fl_pf = get_pf c, fl_af = get_af c, fl_zf = get_zf c,
     fl_sf = get_sf c, fl_of = get_of c\<rparr>"

definition bits_flags :: "u64 \<Rightarrow> aflags" where
  "bits_flags x = \<lparr>fl_cf = bit x 0, fl_pf = bit x 2, fl_af = bit x 4, fl_zf = bit x 6,
     fl_sf = bit x 7, fl_of = bit x 11\<rparr>"

lemma flags_of_bits: "flags_of c = bits_flags (c_rflags (sync_flags c))"
  by (simp only: flags_of_def bits_flags_def get_cf_def get_pf_def get_af_def get_zf_def get_sf_def
      get_of_def test_literals)

lemma flags_of_computed:
  "flags_of c = bits_flags (computed_bits (c_cc_op c) (c_cc_size c) (c_cc_dst c) (c_cc_src c)
                  (c_cc_src2 c) (c_rflags c))"
  by (cases "c_cc_op c = CC_Eflags") (simp_all add: flags_of_bits bits_flags_def bit_sync_flags)

definition even_parity :: "int \<Rightarrow> bool" where
  "even_parity x \<longleftrightarrow> even (length (filter (bit x) [0..<8]))"

definition sval :: "nat \<Rightarrow> int \<Rightarrow> int" where
  "sval w x = (if x < 2 ^ (w - 1) then x else x - 2 ^ w)"

definition in_signed_range :: "nat \<Rightarrow> int \<Rightarrow> bool" where
  "in_signed_range w x \<longleftrightarrow> - (2 ^ (w - 1)) \<le> x \<and> x < 2 ^ (w - 1)"

definition add_spec :: "nat \<Rightarrow> int \<Rightarrow> int \<Rightarrow> bool \<Rightarrow> aflags" where
  "add_spec w a b cin =
     (let s = a + b + of_bool cin; r = s mod 2 ^ w
      in \<lparr>fl_cf = 2 ^ w \<le> s, fl_pf = even_parity r,
          fl_af = 16 \<le> a mod 16 + b mod 16 + of_bool cin,
          fl_zf = r = 0, fl_sf = 2 ^ (w - 1) \<le> r,
          fl_of = \<not> in_signed_range w (sval w a + sval w b + of_bool cin)\<rparr>)"

definition sub_spec :: "nat \<Rightarrow> int \<Rightarrow> int \<Rightarrow> bool \<Rightarrow> aflags" where
  "sub_spec w a b bin =
     (let s = a - b - of_bool bin; r = s mod 2 ^ w
      in \<lparr>fl_cf = s < 0, fl_pf = even_parity r,
          fl_af = a mod 16 < b mod 16 + of_bool bin,
          fl_zf = r = 0, fl_sf = 2 ^ (w - 1) \<le> r,
          fl_of = \<not> in_signed_range w (sval w a - sval w b - of_bool bin)\<rparr>)"

text \<open>The table is the eightfold doubling of \<open>[1]\<close>: setting one more bit flips the parity.\<close>

fun parity_rows :: "nat \<Rightarrow> nat list" where
  "parity_rows 0 = [1]"
| "parity_rows (Suc k) = parity_rows k @ map (\<lambda>x. 1 - x) (parity_rows k)"

lemma length_parity_rows [simp]: "length (parity_rows k) = 2 ^ k"
  by (induction k) simp_all

lemma parity_rows_nth:
  "v < 2 ^ k \<Longrightarrow> parity_rows k ! v = (if even (length (filter (bit v) [0..<k])) then 1 else 0)"
proof (induction k arbitrary: v)
  case 0
  then show ?case by simp
next
  case (Suc k)
  show ?case
  proof (cases "v < 2 ^ k")
    case True
    then have "\<not> bit v k" by (simp add: bit_iff_odd)
    with True Suc.IH [OF True] show ?thesis by (simp add: nth_append)
  next
    case False
    define u where "u = v - 2 ^ k"
    have v: "v = u + 2 ^ k" and u: "u < 2 ^ k" using False Suc.prems by (simp_all add: u_def)
    have "bit v k" using u div_add_self2 [of "2 ^ k" u] by (simp add: v bit_iff_odd)
    moreover have "filter (bit v) [0..<k] = filter (bit u) [0..<k]"
    proof (rule filter_cong)
      fix i assume "i \<in> set [0..<k]"
      then have "take_bit k v = take_bit k u" "i < k" by (simp_all add: v take_bit_eq_mod)
      then show "bit v i = bit u i" by (metis bit_take_bit_iff)
    qed simp
    ultimately show ?thesis using False u Suc.IH [OF u] by (simp add: nth_append u_def)
  qed
qed

lemma PARITY_TABLE_rows: "PARITY_TABLE = parity_rows 8"
  by (simp add: PARITY_TABLE_def eval_nat_numeral)

lemma parity8_eq: "parity8 v = even_parity (uint v)"
proof -
  have "unat v < 2 ^ 8" using unsigned_less [of v, where ?'a = nat] by simp
  moreover have "bit (unat v) = bit (uint v)"
    by (rule ext) (simp add: bit_unsigned_iff)
  ultimately show ?thesis
    by (simp add: parity8_def even_parity_def PARITY_TABLE_rows parity_rows_nth)
qed

lemma even_parity_take_bit: "even_parity (take_bit 8 x) = even_parity x"
proof -
  have "filter (bit (take_bit 8 x)) [0..<8] = filter (bit x) [0..<8]"
    by (rule filter_cong) (auto simp: bit_take_bit_iff)
  then show ?thesis by (simp only: even_parity_def)
qed

lemma parity8_ucast: "parity8 (ucast (x :: u64)) = even_parity (uint x)"
proof -
  have "uint (ucast x :: u8) = take_bit 8 (uint x)" by (simp add: unsigned_ucast_eq)
  then show ?thesis by (simp only: parity8_eq even_parity_take_bit)
qed

section \<open>Widths, modular arithmetic\<close>

lemma uint_masked:
  assumes "valid_size sz"
  shows "uint ((x + y) AND mask_for sz) = (uint x + uint y) mod 2 ^ width_of sz"
    and "uint ((x - y) AND mask_for sz) = (uint x - uint y) mod 2 ^ width_of sz"
    and "uint ((x + y + of_bool c) AND mask_for sz) = (uint x + uint y + of_bool c) mod 2 ^ width_of sz"
    and "uint ((x - y - of_bool c) AND mask_for sz) = (uint x - uint y - of_bool c) mod 2 ^ width_of sz"
proof -
  have dvd: "(2 :: int) ^ width_of sz dvd 18446744073709551616"
    using le_imp_power_dvd [of "width_of sz" 64 "2 :: int"] width_of_range [OF assms] by simp
  show "uint ((x + y) AND mask_for sz) = (uint x + uint y) mod 2 ^ width_of sz"
    "uint ((x - y) AND mask_for sz) = (uint x - uint y) mod 2 ^ width_of sz"
    by (simp_all add: uint_and_mask_for [OF assms] uint_word_ariths mod_mod_cancel [OF dvd])
  show "uint ((x + y + of_bool c) AND mask_for sz) = (uint x + uint y + of_bool c) mod 2 ^ width_of sz"
    "uint ((x - y - of_bool c) AND mask_for sz) = (uint x - uint y - of_bool c) mod 2 ^ width_of sz"
    by (cases c; simp add: uint_and_mask_for [OF assms] uint_word_ariths mod_mod_cancel [OF dvd] mod_simps)+
qed

definition fits :: "u8 \<Rightarrow> u64 \<Rightarrow> bool" where
  "fits sz x \<longleftrightarrow> x AND mask_for sz = x"

lemma fits_uint: "valid_size sz \<Longrightarrow> fits sz x \<longleftrightarrow> uint x < 2 ^ width_of sz"
  by (simp add: fits_def word_uint_eq_iff uint_and_mask_for) (metis mod_pos_pos_trivial pos_mod_bound uint_ge_0 zero_less_numeral zero_less_power)

lemma fits_and_mask [simp]: "fits sz (x AND mask_for sz)"
  by (simp add: fits_def)

lemma msb_uint:
  assumes "valid_size sz" "fits sz x"
  shows "bit x (width_of sz - 1) \<longleftrightarrow> 2 ^ (width_of sz - 1) \<le> uint x"
  using assms width_of_range [OF assms(1)] by (intro bit_uint_ge_half) (simp add: fits_uint)

lemma bit4_uint: "bit (x :: u64) 4 \<longleftrightarrow> odd (uint x div 16)"
proof -
  have "bit x 4 = bit (uint x) 4" by (simp add: bit_uint_iff)
  then show ?thesis by (simp add: bit_iff_odd)
qed

section \<open>Carry, borrow and overflow\<close>

lemma add_wrap:
  fixes A B H :: int
  assumes "0 \<le> A" "A < 2 * H" "0 \<le> B" "B < 2 * H"
  shows "(A + B + of_bool c) mod (2 * H) =
     (if 2 * H \<le> A + B + of_bool c then A + B + of_bool c - 2 * H else A + B + of_bool c)"
proof (cases "2 * H \<le> A + B + of_bool c")
  case True
  have "(A + B + of_bool c) mod (2 * H) = (A + B + of_bool c - 2 * H) mod (2 * H)"
    by (metis mod_add_self2 diff_add_cancel)
  also have "\<dots> = A + B + of_bool c - 2 * H"
    using assms True by (intro mod_pos_pos_trivial) (auto simp: of_bool_def split: if_splits)
  finally show ?thesis using True by simp
next
  case False
  then show ?thesis using assms by (auto intro!: mod_pos_pos_trivial)
qed

lemma sub_wrap:
  fixes A B H :: int
  assumes "0 \<le> A" "A < 2 * H" "0 \<le> B" "B < 2 * H"
  shows "(A - B - of_bool c) mod (2 * H) =
     (if A - B - of_bool c < 0 then A - B - of_bool c + 2 * H else A - B - of_bool c)"
proof (cases "A - B - of_bool c < 0")
  case True
  have "(A - B - of_bool c) mod (2 * H) = (A - B - of_bool c + 2 * H) mod (2 * H)"
    by (metis mod_add_self2)
  also have "\<dots> = A - B - of_bool c + 2 * H"
    using assms True by (intro mod_pos_pos_trivial) (auto simp: of_bool_def split: if_splits)
  finally show ?thesis using True by simp
next
  case False
  then show ?thesis using assms by (auto intro!: mod_pos_pos_trivial)
qed

lemma add_half_carry:
  fixes A B :: int
  shows "(odd (A div 16) \<noteq> odd (B div 16)) \<noteq> odd ((A + B + of_bool c) div 16)
     \<longleftrightarrow> 16 \<le> A mod 16 + B mod 16 + of_bool c"
proof -
  let ?s = "A mod 16 + B mod 16 + of_bool c :: int"
  have "A + B + of_bool c = ?s + (A div 16 + B div 16) * 16"
    using div_mult_mod_eq [of A 16] div_mult_mod_eq [of B 16] by (simp add: algebra_simps)
  then have "(A + B + of_bool c) div 16 = ?s div 16 + (A div 16 + B div 16)"
    by (simp only: div_mult_self1 [of 16 ?s])
  moreover have "?s div 16 = (if 16 \<le> ?s then 1 else 0)"
  proof -
    have "0 \<le> ?s" "?s < 32"
      using pos_mod_bound [of 16 A] pos_mod_bound [of 16 B] pos_mod_sign [of 16 A] pos_mod_sign [of 16 B]
      by (auto simp: of_bool_def)
    then show ?thesis by auto
  qed
  ultimately show ?thesis by auto
qed

lemma sub_half_borrow:
  fixes A B :: int
  shows "(odd (A div 16) \<noteq> odd (B div 16)) \<noteq> odd ((A - B - of_bool c) div 16)
     \<longleftrightarrow> A mod 16 < B mod 16 + of_bool c"
proof -
  let ?s = "A mod 16 - B mod 16 - of_bool c :: int"
  have "A - B - of_bool c = ?s + (A div 16 - B div 16) * 16"
    using div_mult_mod_eq [of A 16] div_mult_mod_eq [of B 16] by (simp add: algebra_simps)
  then have "(A - B - of_bool c) div 16 = ?s div 16 + (A div 16 - B div 16)"
    by (simp only: div_mult_self1 [of 16 ?s])
  moreover have "?s div 16 = (if ?s < 0 then - 1 else 0)"
  proof -
    have "- 16 \<le> ?s" "?s < 16"
      using pos_mod_bound [of 16 A] pos_mod_bound [of 16 B] pos_mod_sign [of 16 A] pos_mod_sign [of 16 B]
      by (auto simp: of_bool_def)
    then show ?thesis by auto
  qed
  ultimately show ?thesis by auto
qed

lemma odd_div16_mod:
  fixes x :: int
  assumes "valid_size sz"
  shows "odd (x mod 2 ^ width_of sz div 16) \<longleftrightarrow> odd (x div 16)"
proof -
  have "bit (take_bit (width_of sz) x) 4 = bit x 4"
    using width_of_range [OF assms] by (simp add: bit_take_bit_iff)
  then show ?thesis by (simp add: bit_iff_odd take_bit_eq_mod)
qed

lemma overflow_add:
  fixes A B H :: int
  assumes "0 \<le> A" "A < 2 ^ w" "0 \<le> B" "B < 2 ^ w" "1 \<le> w"
  shows "((2 ^ (w - 1) \<le> A) \<noteq> (2 ^ (w - 1) \<le> (A + B + of_bool c) mod 2 ^ w)) \<and>
         ((2 ^ (w - 1) \<le> B) \<noteq> (2 ^ (w - 1) \<le> (A + B + of_bool c) mod 2 ^ w))
     \<longleftrightarrow> \<not> in_signed_range w (sval w A + sval w B + of_bool c)"
proof -
  have H: "(2 :: int) ^ w = 2 * 2 ^ (w - 1)" using assms(5) by (cases w) auto
  show ?thesis
    using assms(1-4) add_wrap [of A "2 ^ (w - 1)" B c]
    by (cases c) (auto simp: H sval_def in_signed_range_def)
qed

lemma overflow_sub:
  fixes A B H :: int
  assumes "0 \<le> A" "A < 2 ^ w" "0 \<le> B" "B < 2 ^ w" "1 \<le> w"
  shows "((2 ^ (w - 1) \<le> A) \<noteq> (2 ^ (w - 1) \<le> B)) \<and>
         ((2 ^ (w - 1) \<le> A) \<noteq> (2 ^ (w - 1) \<le> (A - B - of_bool c) mod 2 ^ w))
     \<longleftrightarrow> \<not> in_signed_range w (sval w A - sval w B - of_bool c)"
proof -
  have H: "(2 :: int) ^ w = 2 * 2 ^ (w - 1)" using assms(5) by (cases w) auto
  show ?thesis
    using assms(1-4) sub_wrap [of A "2 ^ (w - 1)" B c]
    by (cases c) (auto simp: H sval_def in_signed_range_def)
qed

lemma carry_add:
  fixes A B H :: int
  assumes "0 \<le> A" "A < 2 ^ w" "0 \<le> B" "B < 2 ^ w" "1 \<le> w"
  shows "(if c then (A + B + of_bool c) mod 2 ^ w \<le> B else (A + B + of_bool c) mod 2 ^ w < B)
    \<longleftrightarrow> 2 ^ w \<le> A + B + of_bool c"
proof -
  have H: "(2 :: int) ^ w = 2 * 2 ^ (w - 1)" using assms(5) by (cases w) auto
  show ?thesis
    using assms(1-4) add_wrap [of A "2 ^ (w - 1)" B c] by (cases c) (auto simp: H)
qed

section \<open>The computed flags\<close>

lemma bit_sign_and_xor:
  "valid_size sz \<Longrightarrow> ((x XOR y) AND (z XOR v)) AND sign_mask sz \<noteq> 0 \<longleftrightarrow>
     (bit x (width_of sz - 1) \<noteq> bit y (width_of sz - 1)) \<and>
     (bit z (width_of sz - 1) \<noteq> bit v (width_of sz - 1))"
  by (simp only: test_sign_mask bit_and_iff bit_xor_iff)

lemma uint_fits_bounds: "valid_size sz \<Longrightarrow> fits sz x \<Longrightarrow> 0 \<le> uint x \<and> uint x < 2 ^ width_of sz"
  by (simp add: fits_uint)

lemma mod_cancel_shift:
  fixes A Y W :: int
  assumes "0 \<le> A" "A < W"
  shows "((A + Y) mod W - Y) mod W = A" "((A - Y) mod W + Y) mod W = A"
  using assms by (simp_all add: mod_diff_left_eq mod_add_left_eq mod_pos_pos_trivial)

lemma recover_add:
  assumes "valid_size sz" "fits sz a" "fits sz b"
  shows "((a + b + of_bool c) AND mask_for sz) - b - of_bool c AND mask_for sz = a"
proof -
  have A: "0 \<le> uint a" "uint a < 2 ^ width_of sz" using uint_fits_bounds [OF assms(1,2)] by auto
  show ?thesis
    unfolding word_uint_eq_iff uint_masked(3,4) [OF assms(1)]
    using mod_cancel_shift(1) [OF A, of "uint b + of_bool c"] by (simp only: diff_diff_eq add.assoc)
qed

lemma recover_sub:
  assumes "valid_size sz" "fits sz a" "fits sz b"
  shows "((a - b - of_bool c) AND mask_for sz) + b + of_bool c AND mask_for sz = a"
proof -
  have A: "0 \<le> uint a" "uint a < 2 ^ width_of sz" using uint_fits_bounds [OF assms(1,2)] by auto
  show ?thesis
    unfolding word_uint_eq_iff uint_masked(3,4) [OF assms(1)]
    using mod_cancel_shift(2) [OF A, of "uint b + of_bool c"] by (simp only: diff_diff_eq add.assoc)
qed

lemma compute_adc_flags:
  assumes sz: "valid_size sz" and a: "fits sz a" and b: "fits sz b"
  shows "bits_flags (compute_adc sz b ((a + b + of_bool c) AND mask_for sz) c) =
    add_spec (width_of sz) (uint a) (uint b) c"
proof -
  define r where "r = (a + b + of_bool c) AND mask_for sz"
  have w: "1 \<le> width_of sz" "8 \<le> width_of sz" using width_of_range [OF sz] by auto
  have masks: "b AND mask_for sz = b" "r AND mask_for sz = r" "(r - b - of_bool c) AND mask_for sz = a"
    using b recover_add [OF sz a b] by (simp_all add: fits_def r_def)
  have r: "uint r = (uint a + uint b + of_bool c) mod 2 ^ width_of sz"
    unfolding r_def by (rule uint_masked(3) [OF sz])
  note bounds = uint_fits_bounds [OF sz a] uint_fits_bounds [OF sz b]
  have "fits sz r" by (simp add: r_def)
  note msb = msb_uint [OF sz a] msb_uint [OF sz b] msb_uint [OF sz this]
  have zf: "r = 0 \<longleftrightarrow> (uint a + uint b + of_bool c) mod 2 ^ width_of sz = 0"
    by (simp add: word_uint_eq_iff r)
  have cf: "(if c then r \<le> b else r < b) \<longleftrightarrow> 2 ^ width_of sz \<le> uint a + uint b + of_bool c"
    using bounds carry_add [of "uint a" "width_of sz" "uint b" c] w
    by (cases c) (simp_all add: word_le_def word_less_def r)
  have af: "(a XOR b XOR r) AND 16 \<noteq> 0 \<longleftrightarrow> 16 \<le> uint a mod 16 + uint b mod 16 + of_bool c"
    unfolding test_literals bit_xor_iff
    unfolding bit4_uint r odd_div16_mod [OF sz]
    using add_half_carry [of "uint a" "uint b" c] by blast
  have "bits_flags (compute_adc sz b r c) = add_spec (width_of sz) (uint a) (uint b) c"
    using bounds w overflow_add [of "uint a" "width_of sz" "uint b" c]
    by (simp only: compute_adc_def Let_def masks bits_flags_def bit_with_flag bit_apply_zsp [OF sz]
          bit_sign_and_xor [OF sz] af cf zf msb add_spec_def parity8_ucast) (simp add: r)
  then show ?thesis by (simp only: r_def)
qed

lemma compute_sbb_flags:
  assumes sz: "valid_size sz" and a: "fits sz a" and b: "fits sz b"
  shows "bits_flags (compute_sbb sz b ((a - b - of_bool c) AND mask_for sz) c) =
    sub_spec (width_of sz) (uint a) (uint b) c"
proof -
  define r where "r = (a - b - of_bool c) AND mask_for sz"
  have w: "1 \<le> width_of sz" "8 \<le> width_of sz" using width_of_range [OF sz] by auto
  have masks: "b AND mask_for sz = b" "r AND mask_for sz = r" "(r + b + of_bool c) AND mask_for sz = a"
    using b recover_sub [OF sz a b] by (simp_all add: fits_def r_def)
  have r: "uint r = (uint a - uint b - of_bool c) mod 2 ^ width_of sz"
    unfolding r_def by (rule uint_masked(4) [OF sz])
  note bounds = uint_fits_bounds [OF sz a] uint_fits_bounds [OF sz b]
  have "fits sz r" by (simp add: r_def)
  note msb = msb_uint [OF sz a] msb_uint [OF sz b] msb_uint [OF sz this]
  have zf: "r = 0 \<longleftrightarrow> (uint a - uint b - of_bool c) mod 2 ^ width_of sz = 0"
    by (simp add: word_uint_eq_iff r)
  have cf: "(if c then a \<le> b else a < b) \<longleftrightarrow> uint a - uint b - of_bool c < 0"
    by (cases c) (auto simp: word_le_def word_less_def)
  have af: "(a XOR b XOR r) AND 16 \<noteq> 0 \<longleftrightarrow> uint a mod 16 < uint b mod 16 + of_bool c"
    unfolding test_literals bit_xor_iff
    unfolding bit4_uint r odd_div16_mod [OF sz]
    using sub_half_borrow [of "uint a" "uint b" c] by blast
  have "bits_flags (compute_sbb sz b r c) = sub_spec (width_of sz) (uint a) (uint b) c"
    using bounds w overflow_sub [of "uint a" "width_of sz" "uint b" c]
    by (simp only: compute_sbb_def Let_def masks bits_flags_def bit_with_flag bit_apply_zsp [OF sz]
          bit_sign_and_xor [OF sz] af cf zf msb sub_spec_def parity8_ucast) (simp add: r)
  then show ?thesis by (simp only: r_def)
qed

lemma compute_add_adc: "compute_add sz b r = compute_adc sz b r False"
  by (simp add: compute_add_def compute_adc_def)

lemma compute_sub_sbb: "compute_sub sz b r = compute_sbb sz b r False"
  by (simp add: compute_sub_def compute_sbb_def)

lemma flags_of_stash:
  "flags_of (stash op sz src dst src2 c) = bits_flags (computed_bits op sz dst src src2 (c_rflags c))"
  by (simp add: flags_of_computed stash_def)

lemma flags_of_stash_adc:
  assumes "valid_size sz" "fits sz a" "fits sz b"
  shows "flags_of (stash_adc sz b cin ((a + b + of_bool cin) AND mask_for sz) c) =
    add_spec (width_of sz) (uint a) (uint b) cin"
  using compute_adc_flags [OF assms, of cin] by (cases cin) (simp_all add: stash_adc_def flags_of_stash)

lemma flags_of_stash_add:
  assumes "valid_size sz" "fits sz a" "fits sz b"
  shows "flags_of (stash_add sz b ((a + b) AND mask_for sz) c) =
    add_spec (width_of sz) (uint a) (uint b) False"
  using compute_adc_flags [OF assms, of False] by (simp add: stash_add_def flags_of_stash compute_add_adc)

lemma flags_of_stash_sbb:
  assumes "valid_size sz" "fits sz a" "fits sz b"
  shows "flags_of (stash_sbb sz b bin ((a - b - of_bool bin) AND mask_for sz) c) =
    sub_spec (width_of sz) (uint a) (uint b) bin"
  using compute_sbb_flags [OF assms, of bin] by (cases bin) (simp_all add: stash_sbb_def flags_of_stash)

lemma flags_of_stash_sub:
  assumes "valid_size sz" "fits sz a" "fits sz b"
  shows "flags_of (stash_sub sz b ((a - b) AND mask_for sz) c) =
    sub_spec (width_of sz) (uint a) (uint b) False"
  using compute_sbb_flags [OF assms, of False] by (simp add: stash_sub_def flags_of_stash compute_sub_sbb)

text \<open>The condition codes read off the abstract flags.\<close>

fun cond_of :: "aflags \<Rightarrow> Cc \<Rightarrow> bool" where
  "cond_of f Cc_O = fl_of f"
| "cond_of f Cc_NO = (\<not> fl_of f)"
| "cond_of f Cc_B = fl_cf f"
| "cond_of f Cc_NB = (\<not> fl_cf f)"
| "cond_of f Cc_Z = fl_zf f"
| "cond_of f Cc_NZ = (\<not> fl_zf f)"
| "cond_of f Cc_BE = (fl_cf f \<or> fl_zf f)"
| "cond_of f Cc_NBE = (\<not> (fl_cf f \<or> fl_zf f))"
| "cond_of f Cc_S = fl_sf f"
| "cond_of f Cc_NS = (\<not> fl_sf f)"
| "cond_of f Cc_P = fl_pf f"
| "cond_of f Cc_NP = (\<not> fl_pf f)"
| "cond_of f Cc_L = (fl_sf f \<noteq> fl_of f)"
| "cond_of f Cc_NL = (fl_sf f = fl_of f)"
| "cond_of f Cc_LE = (fl_zf f \<or> fl_sf f \<noteq> fl_of f)"
| "cond_of f Cc_NLE = (\<not> (fl_zf f \<or> fl_sf f \<noteq> fl_of f))"
| "cond_of f Cc_None = True"

lemma cond_holds_flags_of: "cond_holds c cc = cond_of (flags_of c) cc"
  by (cases cc) (simp_all add: flags_of_def)

text \<open>What the conditions say after a comparison.\<close>

lemma cond_of_sub_spec:
  assumes "0 \<le> A" "A < 2 ^ w" "0 \<le> B" "B < 2 ^ w" "1 \<le> w"
  shows "cond_of (sub_spec w A B False) Cc_Z \<longleftrightarrow> A = B"
    and "cond_of (sub_spec w A B False) Cc_B \<longleftrightarrow> A < B"
    and "cond_of (sub_spec w A B False) Cc_BE \<longleftrightarrow> A \<le> B"
    and "cond_of (sub_spec w A B False) Cc_L \<longleftrightarrow> sval w A < sval w B"
    and "cond_of (sub_spec w A B False) Cc_LE \<longleftrightarrow> sval w A \<le> sval w B"
proof -
  have H: "(2 :: int) ^ w = 2 * 2 ^ (w - 1)" using assms(5) by (cases w) auto
  note wrap = sub_wrap [of A "2 ^ (w - 1)" B False, simplified]
  show "cond_of (sub_spec w A B False) Cc_Z \<longleftrightarrow> A = B"
    using assms wrap by (auto simp: sub_spec_def Let_def H)
  show "cond_of (sub_spec w A B False) Cc_B \<longleftrightarrow> A < B"
    by (auto simp: sub_spec_def Let_def)
  show "cond_of (sub_spec w A B False) Cc_BE \<longleftrightarrow> A \<le> B"
    using assms wrap by (auto simp: sub_spec_def Let_def H)
  show "cond_of (sub_spec w A B False) Cc_L \<longleftrightarrow> sval w A < sval w B"
    using assms wrap by (auto simp: sub_spec_def Let_def H sval_def in_signed_range_def)
  show "cond_of (sub_spec w A B False) Cc_LE \<longleftrightarrow> sval w A \<le> sval w B"
    using assms wrap by (auto simp: sub_spec_def Let_def H sval_def in_signed_range_def)
qed

section \<open>The remaining stashes\<close>

definition logic_spec :: "nat \<Rightarrow> int \<Rightarrow> aflags" where
  "logic_spec w r =
     \<lparr>fl_cf = False, fl_pf = even_parity r, fl_af = False, fl_zf = r = 0,
      fl_sf = 2 ^ (w - 1) \<le> r, fl_of = False\<rparr>"

lemma compute_logic_flags:
  assumes sz: "valid_size sz" and r: "fits sz r"
  shows "bits_flags (compute_logic sz r) = logic_spec (width_of sz) (uint r)"
proof -
  have "r AND mask_for sz = r" using r by (simp add: fits_def)
  then show ?thesis
    by (simp add: compute_logic_def bits_flags_def bit_apply_zsp [OF sz] logic_spec_def parity8_ucast
        msb_uint [OF sz r, simplified] bit_int_literals bit_1_iff unsigned_eq_0_iff)
qed

lemma flags_of_stash_logic:
  "valid_size sz \<Longrightarrow> fits sz r \<Longrightarrow> flags_of (stash_logic sz r c) = logic_spec (width_of sz) (uint r)"
  by (simp add: stash_logic_def flags_of_stash compute_logic_flags)

lemma uint_sign_mask: "valid_size sz \<Longrightarrow> uint (sign_mask sz) = 2 ^ (width_of sz - 1)"
  by (erule valid_size_cases) (simp_all add: sign_mask_def sign_bit_pos_def push_bit_eq_mult)

lemma overflow_inc:
  fixes A :: int
  assumes "0 \<le> A" "A < 2 ^ w" "2 \<le> w"
  shows "A = 2 ^ (w - 1) - 1 \<and> 2 ^ (w - 1) \<le> (A + 1) mod 2 ^ w
    \<longleftrightarrow> \<not> in_signed_range w (sval w A + 1)"
proof -
  obtain H :: int where H: "(2 :: int) ^ (w - 1) = H" "(2 :: int) ^ w = 2 * H" "2 \<le> H"
    using assms(3) by (cases w; cases "w - 1") (auto simp: self_le_power)
  show ?thesis
    unfolding sval_def in_signed_range_def H(1,2)
    using assms(1,2) add_wrap [of A H 1 False] H(3) by (auto simp: H(2))
qed

lemma overflow_dec:
  fixes A :: int
  assumes "0 \<le> A" "A < 2 ^ w" "2 \<le> w"
  shows "A = 2 ^ (w - 1) \<and> \<not> 2 ^ (w - 1) \<le> (A - 1) mod 2 ^ w
    \<longleftrightarrow> \<not> in_signed_range w (sval w A - 1)"
proof -
  obtain H :: int where H: "(2 :: int) ^ (w - 1) = H" "(2 :: int) ^ w = 2 * H" "2 \<le> H"
    using assms(3) by (cases w; cases "w - 1") (auto simp: self_le_power)
  show ?thesis
    unfolding sval_def in_signed_range_def H(1,2)
    using assms(1,2) sub_wrap [of A H 1 False] H(3) by (auto simp: H(2))
qed

lemma overflow_neg:
  fixes A :: int
  assumes "0 \<le> A" "A < 2 ^ w" "2 \<le> w"
  shows "A = 2 ^ (w - 1) \<longleftrightarrow> \<not> in_signed_range w (sval w 0 - sval w A)"
proof -
  obtain H :: int where H: "(2 :: int) ^ (w - 1) = H" "(2 :: int) ^ w = 2 * H" "2 \<le> H"
    using assms(3) by (cases w; cases "w - 1") (auto simp: self_le_power)
  show ?thesis
    unfolding sval_def in_signed_range_def H(1,2) using assms(1,2) H(3) by (auto simp: H(2))
qed

lemma compute_inc_flags:
  assumes sz: "valid_size sz" and a: "fits sz a"
  shows "bits_flags (compute_inc sz s ((a + 1) AND mask_for sz)) =
    (add_spec (width_of sz) (uint a) 1 False)\<lparr>fl_cf := s\<rparr>"
proof -
  define r where "r = (a + 1) AND mask_for sz"
  have one: "fits sz 1" using sz width_of_range [OF sz] by (simp add: fits_uint one_less_power)
  have w: "8 \<le> width_of sz" using width_of_range [OF sz] by auto
  have masks: "r AND mask_for sz = r" "(r - 1) AND mask_for sz = a"
    using recover_add [OF sz a one, of False] by (simp_all add: r_def)
  have r: "uint r = (uint a + 1) mod 2 ^ width_of sz"
    using uint_masked(1) [OF sz, of a 1] by (simp add: r_def)
  note bounds = uint_fits_bounds [OF sz a]
  have fr: "fits sz r" by (simp add: r_def)
  have zf: "r = 0 \<longleftrightarrow> (uint a + 1) mod 2 ^ width_of sz = 0"
    by (simp add: word_uint_eq_iff r)
  have af: "(a XOR r) AND 16 \<noteq> 0 \<longleftrightarrow> 16 \<le> uint a mod 16 + 1"
    unfolding test_literals bit_xor_iff
    unfolding bit4_uint r odd_div16_mod [OF sz]
    using add_half_carry [of "uint a" 1 False] by auto
  have H: "(2 :: int) ^ width_of sz = 2 * 2 ^ (width_of sz - 1)" using w by (cases "width_of sz") auto
  have "uint (sign_mask sz - 1) = 2 ^ (width_of sz - 1) - 1"
    by (rule valid_size_cases [OF sz]) (simp_all add: sign_mask_def sign_bit_pos_def push_bit_eq_mult)
  then have prev: "a = sign_mask sz - 1 \<longleftrightarrow> uint a = 2 ^ (width_of sz - 1) - 1"
    by (simp add: word_uint_eq_iff)
  have sv1: "sval (width_of sz) 1 = 1"
    by (rule valid_size_cases [OF sz]) (simp_all add: sval_def)
  have ovf: "a = sign_mask sz - 1 \<and> r AND sign_mask sz \<noteq> 0 \<longleftrightarrow>
      \<not> in_signed_range (width_of sz) (sval (width_of sz) (uint a) + sval (width_of sz) 1)"
    unfolding prev test_sign_mask [OF sz] msb_uint [OF sz fr] r sv1
    using bounds w by (intro overflow_inc) auto
  have "bits_flags (compute_inc sz s r) = (add_spec (width_of sz) (uint a) 1 False)\<lparr>fl_cf := s\<rparr>"
    using w by (simp only: compute_inc_def Let_def masks bits_flags_def bit_with_flag bit_apply_zsp [OF sz]
          ovf af zf msb_uint [OF sz fr] add_spec_def parity8_ucast) (simp add: r)
  then show ?thesis by (simp only: r_def)
qed

lemma compute_dec_flags:
  assumes sz: "valid_size sz" and a: "fits sz a"
  shows "bits_flags (compute_dec sz s ((a - 1) AND mask_for sz)) =
    (sub_spec (width_of sz) (uint a) 1 False)\<lparr>fl_cf := s\<rparr>"
proof -
  define r where "r = (a - 1) AND mask_for sz"
  have one: "fits sz 1" using sz width_of_range [OF sz] by (simp add: fits_uint one_less_power)
  have w: "8 \<le> width_of sz" using width_of_range [OF sz] by auto
  have masks: "r AND mask_for sz = r" "(r + 1) AND mask_for sz = a"
    using recover_sub [OF sz a one, of False] by (simp_all add: r_def)
  have r: "uint r = (uint a - 1) mod 2 ^ width_of sz"
    using uint_masked(2) [OF sz, of a 1] by (simp add: r_def)
  note bounds = uint_fits_bounds [OF sz a]
  have fr: "fits sz r" by (simp add: r_def)
  have zf: "r = 0 \<longleftrightarrow> (uint a - 1) mod 2 ^ width_of sz = 0"
    by (simp add: word_uint_eq_iff r)
  have af: "(a XOR r) AND 16 \<noteq> 0 \<longleftrightarrow> uint a mod 16 < 1"
    unfolding test_literals bit_xor_iff
    unfolding bit4_uint r odd_div16_mod [OF sz]
    using sub_half_borrow [of "uint a" 1 False] by auto
  have H: "(2 :: int) ^ width_of sz = 2 * 2 ^ (width_of sz - 1)" using w by (cases "width_of sz") auto
  have big: "(2 :: int) \<le> 2 ^ (width_of sz - 1)"
    by (rule valid_size_cases [OF sz]) simp_all
  have prev: "a = sign_mask sz \<longleftrightarrow> uint a = 2 ^ (width_of sz - 1)"
    by (simp add: word_uint_eq_iff uint_sign_mask [OF sz])
  have sv1: "sval (width_of sz) 1 = 1"
    by (rule valid_size_cases [OF sz]) (simp_all add: sval_def)
  have sign0: "r AND sign_mask sz = 0 \<longleftrightarrow> \<not> 2 ^ (width_of sz - 1) \<le> uint r"
    using test_sign_mask [OF sz, of r] msb_uint [OF sz fr] by blast
  have ovf: "a = sign_mask sz \<and> r AND sign_mask sz = 0 \<longleftrightarrow>
      \<not> in_signed_range (width_of sz) (sval (width_of sz) (uint a) - sval (width_of sz) 1)"
    unfolding prev sign0 r sv1
    using bounds w by (intro overflow_dec) auto
  have "bits_flags (compute_dec sz s r) = (sub_spec (width_of sz) (uint a) 1 False)\<lparr>fl_cf := s\<rparr>"
    using w by (simp only: compute_dec_def Let_def masks bits_flags_def bit_with_flag bit_apply_zsp [OF sz]
          ovf af zf msb_uint [OF sz fr] sub_spec_def parity8_ucast) (simp add: r)
  then show ?thesis by (simp only: r_def)
qed

lemma compute_neg_flags:
  assumes sz: "valid_size sz" and a: "fits sz a"
  shows "bits_flags (compute_neg sz a ((NOT a + 1) AND mask_for sz)) =
    (sub_spec (width_of sz) 0 (uint a) False)
      \<lparr>fl_af := uint a mod 16 \<noteq> 0 \<or> odd (uint a div 16)\<rparr>"
proof -
  define r where "r = (0 - a) AND mask_for sz"
  have req: "(NOT a + 1) AND mask_for sz = r" by (simp add: r_def minus_eq_not_plus_1)
  have w: "8 \<le> width_of sz" using width_of_range [OF sz] by auto
  have masks: "r AND mask_for sz = r" "a AND mask_for sz = a" using a by (simp_all add: r_def fits_def)
  have r: "uint r = (0 - uint a) mod 2 ^ width_of sz"
    using uint_masked(2) [OF sz, of 0 a] by (simp add: r_def)
  note bounds = uint_fits_bounds [OF sz a]
  have fr: "fits sz r" by (simp add: r_def)
  have zf: "r = 0 \<longleftrightarrow> (0 - uint a) mod 2 ^ width_of sz = 0"
    by (simp add: word_uint_eq_iff r)
  have af: "(a OR r) AND 16 \<noteq> 0 \<longleftrightarrow> uint a mod 16 \<noteq> 0 \<or> odd (uint a div 16)"
    unfolding test_literals bit_or_iff
    unfolding bit4_uint r odd_div16_mod [OF sz]
    using sub_half_borrow [of 0 "uint a" False] by auto
  have H: "(2 :: int) ^ width_of sz = 2 * 2 ^ (width_of sz - 1)" using w by (cases "width_of sz") auto
  have cf: "a \<noteq> 0 \<longleftrightarrow> 0 - uint a < 0" by (simp add: word_uint_eq_iff) (use bounds in linarith)
  have ovf: "a = sign_mask sz \<longleftrightarrow>
      \<not> in_signed_range (width_of sz) (sval (width_of sz) 0 - sval (width_of sz) (uint a))"
    unfolding word_uint_eq_iff uint_sign_mask [OF sz]
    using bounds w by (intro overflow_neg) auto
  have "bits_flags (compute_neg sz a r) = (sub_spec (width_of sz) 0 (uint a) False)
      \<lparr>fl_af := uint a mod 16 \<noteq> 0 \<or> odd (uint a div 16)\<rparr>"
    using w by (simp only: compute_neg_def Let_def masks bits_flags_def bit_with_flag bit_apply_zsp [OF sz]
          ovf af zf cf msb_uint [OF sz fr] sub_spec_def parity8_ucast) (simp add: r)
  then show ?thesis by (simp only: req)
qed

lemma flags_of_stash_neg:
  "valid_size sz \<Longrightarrow> fits sz a \<Longrightarrow>
   flags_of (stash_neg sz a ((NOT a + 1) AND mask_for sz) c) =
     (sub_spec (width_of sz) 0 (uint a) False)
       \<lparr>fl_af := uint a mod 16 \<noteq> 0 \<or> odd (uint a div 16)\<rparr>"
  by (simp add: stash_neg_def flags_of_stash compute_neg_flags)

lemma fl_cf_flags_of: "fl_cf (flags_of c) \<longleftrightarrow> c_rflags (sync_flags c) AND 1 \<noteq> 0"
  by (simp add: flags_of_def get_cf_def)

lemma flags_of_stash_inc:
  "valid_size sz \<Longrightarrow> fits sz a \<Longrightarrow>
   flags_of (stash_inc sz ((a + 1) AND mask_for sz) c) =
     (add_spec (width_of sz) (uint a) 1 False)\<lparr>fl_cf := fl_cf (flags_of c)\<rparr>"
  by (simp add: stash_inc_def Let_def flags_of_stash compute_inc_flags fl_cf_flags_of)

lemma flags_of_stash_dec:
  "valid_size sz \<Longrightarrow> fits sz a \<Longrightarrow>
   flags_of (stash_dec sz ((a - 1) AND mask_for sz) c) =
     (sub_spec (width_of sz) (uint a) 1 False)\<lparr>fl_cf := fl_cf (flags_of c)\<rparr>"
  by (simp add: stash_dec_def Let_def flags_of_stash compute_dec_flags fl_cf_flags_of)

section \<open>Shifts\<close>

definition shl_spec :: "nat \<Rightarrow> int \<Rightarrow> nat \<Rightarrow> aflags" where
  "shl_spec w a n =
     (let s = a * 2 ^ n; r = s mod 2 ^ w; cf = odd (s div 2 ^ w)
      in \<lparr>fl_cf = cf, fl_pf = even_parity r, fl_af = False, fl_zf = r = 0,
          fl_sf = 2 ^ (w - 1) \<le> r, fl_of = n = 1 \<and> (2 ^ (w - 1) \<le> r) \<noteq> cf\<rparr>)"

definition shr_spec :: "nat \<Rightarrow> int \<Rightarrow> nat \<Rightarrow> aflags" where
  "shr_spec w a n =
     (let r = a div 2 ^ n
      in \<lparr>fl_cf = odd (a div 2 ^ (n - 1)), fl_pf = even_parity r, fl_af = False, fl_zf = r = 0,
          fl_sf = 2 ^ (w - 1) \<le> r, fl_of = n = 1 \<and> 2 ^ (w - 1) \<le> a\<rparr>)"

definition sar_spec :: "nat \<Rightarrow> int \<Rightarrow> nat \<Rightarrow> aflags" where
  "sar_spec w a n =
     (let r = (sval w a div 2 ^ n) mod 2 ^ w
      in \<lparr>fl_cf = odd (sval w a div 2 ^ (n - 1)), fl_pf = even_parity r, fl_af = False, fl_zf = r = 0,
          fl_sf = 2 ^ (w - 1) \<le> r, fl_of = False\<rparr>)"

lemma size_times_8:
  assumes "valid_size sz"
  shows "unat (sz * 8) = width_of sz"
  by (rule valid_size_cases [OF assms]) simp_all

lemma count_le_width: "valid_size sz \<Longrightarrow> count \<le> sz * 8 \<longleftrightarrow> unat count \<le> width_of sz"
  by (simp add: word_le_nat_alt size_times_8)

lemma odd_shl_div:
  fixes a :: int
  shows "odd (a * 2 ^ n div 2 ^ w) \<longleftrightarrow> n \<le> w \<and> odd (a div 2 ^ (w - n))"
proof (cases "n \<le> w")
  case True
  then have "(2 :: int) ^ w = 2 ^ n * 2 ^ (w - n)" by (simp flip: power_add)
  then have "a * 2 ^ n div 2 ^ w = a div 2 ^ (w - n)"
    by (simp add: mult.commute [of a] div_mult2_eq)
  with True show ?thesis by simp
next
  case False
  then have "(2 :: int) ^ n = 2 ^ (n - w) * 2 ^ w" by (simp flip: power_add)
  then have "a * 2 ^ n div 2 ^ w = a * 2 ^ (n - w)"
    by (simp flip: mult.assoc)
  with False show ?thesis by simp
qed

lemma test_shifted: "drop_bit k (x :: u64) AND 1 \<noteq> 0 \<longleftrightarrow> odd (uint x div 2 ^ k)"
proof -
  have "drop_bit k x AND 1 \<noteq> 0 \<longleftrightarrow> bit x k" by (simp only: test_literals bit_drop_bit_eq add_0_right o_apply)
  also have "\<dots> \<longleftrightarrow> bit (uint x) k" by (auto simp: bit_uint_iff dest: bit_imp_le_length)
  finally show ?thesis by (simp add: bit_iff_odd)
qed

lemma compute_shl_flags:
  assumes sz: "valid_size sz" and a: "fits sz a" and r: "fits sz r" and n: "count \<noteq> 0"
    and ur: "uint r = (uint a * 2 ^ unat count) mod 2 ^ width_of sz"
  shows "bits_flags (compute_shl sz a r count) = shl_spec (width_of sz) (uint a) (unat count)"
proof -
  have masks: "r AND mask_for sz = r" using r by (simp add: fits_def)
  define w where "w = width_of sz"
  have msb: "bit r (w - Suc 0) \<longleftrightarrow> 2 ^ (w - Suc 0) \<le> uint r" using msb_uint [OF sz r] by (simp add: w_def)
  have w: "8 \<le> w" using width_of_range [OF sz] by (simp add: w_def)
  have cf: "(if count \<le> sz * 8 then drop_bit (unat (sz * 8) - unat count) a AND 1 \<noteq> 0 else False)
      \<longleftrightarrow> odd (uint a * 2 ^ unat count div 2 ^ w)"
    unfolding test_shifted odd_shl_div by (simp add: count_le_width [OF sz] size_times_8 [OF sz] w_def)
  have zf: "r = 0 \<longleftrightarrow> uint r = 0" by (simp add: word_uint_eq_iff)
  have one: "count = 1 \<longleftrightarrow> unat count = 1" by (simp add: word_unat_eq_iff)
  have "compute_shl sz a r count =
    (let b = with_bit (apply_zsp ALWAYS_ONE sz r) FLAG_CF (odd (uint a * 2 ^ unat count div 2 ^ w))
     in if unat count = 1
        then with_bit b FLAG_OF ((2 ^ (w - 1) \<le> uint r) \<noteq> odd (uint a * 2 ^ unat count div 2 ^ w))
        else b)"
    using n unfolding compute_shl_def Let_def cf test_sign_mask [OF sz] msb_uint [OF sz r] one w_def by simp
  then show ?thesis
    by (simp add: Let_def bits_flags_def bit_with_flag bit_apply_zsp [OF sz] masks msb parity8_ucast shl_spec_def zf ur bit_int_literals flip: w_def)
qed

lemma compute_shr_flags:
  assumes sz: "valid_size sz" and a: "fits sz a" and r: "fits sz r" and n: "count \<noteq> 0"
    and ur: "uint r = uint a div 2 ^ unat count"
  shows "bits_flags (compute_shr sz a r count) = shr_spec (width_of sz) (uint a) (unat count)"
proof -
  have masks: "r AND mask_for sz = r" using r by (simp add: fits_def)
  define w where "w = width_of sz"
  have msb: "bit r (w - Suc 0) \<longleftrightarrow> 2 ^ (w - Suc 0) \<le> uint r" using msb_uint [OF sz r] by (simp add: w_def)
  have "\<not> unat count \<le> w \<Longrightarrow> (2 :: int) ^ w \<le> 2 ^ (unat count - 1)"
    by (intro power_increasing) auto
  moreover have "0 \<le> uint a" "uint a < 2 ^ w" using uint_fits_bounds [OF sz a] by (auto simp: w_def)
  ultimately have "\<not> unat count \<le> w \<Longrightarrow> uint a div 2 ^ (unat count - 1) = 0"
    by (intro div_pos_pos_trivial) linarith+
  then have cf: "(if count \<le> sz * 8 then drop_bit (unat count - 1) a AND 1 \<noteq> 0 else False)
      \<longleftrightarrow> odd (uint a div 2 ^ (unat count - 1))"
    unfolding test_shifted count_le_width [OF sz] w_def by auto
  have zf: "r = 0 \<longleftrightarrow> uint r = 0" by (simp add: word_uint_eq_iff)
  have one: "count = 1 \<longleftrightarrow> unat count = 1" by (simp add: word_unat_eq_iff)
  have "compute_shr sz a r count =
    (let b = with_bit (apply_zsp ALWAYS_ONE sz r) FLAG_CF (odd (uint a div 2 ^ (unat count - 1)))
     in if unat count = 1 then with_bit b FLAG_OF (2 ^ (w - 1) \<le> uint a) else b)"
    using n unfolding compute_shr_def Let_def cf test_sign_mask [OF sz] msb_uint [OF sz a] one w_def by simp
  then show ?thesis
    by (simp add: Let_def bits_flags_def bit_with_flag bit_apply_zsp [OF sz] masks msb parity8_ucast shr_spec_def zf ur bit_int_literals flip: w_def)
qed

lemma sval_bits:
  assumes "0 \<le> A" "A < 2 ^ w" "k < w"
  shows "odd (sval w A div 2 ^ k) \<longleftrightarrow> odd (A div 2 ^ k)"
proof (cases "A < 2 ^ (w - 1)")
  case False
  have "(2 :: int) ^ w = 2 ^ (w - k) * 2 ^ k" using assms(3) by (simp flip: power_add)
  then have "(A - 2 ^ w) div 2 ^ k = (A + (- (2 ^ (w - k))) * 2 ^ k) div 2 ^ k" by simp
  also have "\<dots> = A div 2 ^ k - 2 ^ (w - k)"
    by (subst div_mult_self1) simp_all
  finally have "(A - 2 ^ w) div 2 ^ k = A div 2 ^ k - 2 ^ (w - k)" .
  with False assms(3) show ?thesis by (simp add: sval_def)
qed (simp add: sval_def)

lemma sval_deep_shift:
  assumes "0 \<le> A" "A < 2 ^ w" "w \<le> Suc k" "1 \<le> w"
  shows "sval w A div 2 ^ k = (if 2 ^ (w - 1) \<le> A then - 1 else 0)"
proof -
  have H: "(2 :: int) ^ w = 2 * 2 ^ (w - 1)" using assms(4) by (cases w) auto
  have k: "(2 :: int) ^ (w - 1) \<le> 2 ^ k" using assms(3) by (intro power_increasing) auto
  show ?thesis
  proof (cases "2 ^ (w - 1) \<le> A")
    case True
    then have "sval w A = A - 2 ^ w" by (simp add: sval_def)
    moreover have "- (2 ^ k) \<le> A - 2 ^ w" using True H k by linarith
    moreover have "A - 2 ^ w < 0" using assms(2) by simp
    ultimately have "sval w A div 2 ^ k = - 1"
      using div_pos_neg_trivial [of "A - 2 ^ w" "2 ^ k"] by (simp add: int_div_pos_eq [of _ "2 ^ k" "- 1" "A - 2 ^ w + 2 ^ k"])
    with True show ?thesis by simp
  next
    case False
    then have "A < 2 ^ k" using k by linarith
    then show ?thesis using assms(1) False by (simp add: sval_def div_pos_pos_trivial)
  qed
qed

lemma compute_sar_flags:
  assumes sz: "valid_size sz" and a: "fits sz a" and r: "fits sz r" and n: "count \<noteq> 0"
    and ur: "uint r = (sval (width_of sz) (uint a) div 2 ^ unat count) mod 2 ^ width_of sz"
  shows "bits_flags (compute_sar sz a r count) = sar_spec (width_of sz) (uint a) (unat count)"
proof -
  have masks: "r AND mask_for sz = r" using r by (simp add: fits_def)
  define w where "w = width_of sz"
  have msb: "bit r (w - Suc 0) \<longleftrightarrow> 2 ^ (w - Suc 0) \<le> uint r" using msb_uint [OF sz r] by (simp add: w_def)
  have w: "1 \<le> w" using width_of_range [OF sz] by (simp add: w_def)
  have n': "1 \<le> unat count" using n by (simp add: Suc_le_eq unat_gt_0)
  have bounds: "0 \<le> uint a" "uint a < 2 ^ w" using uint_fits_bounds [OF sz a] by (auto simp: w_def)
  have cf: "(if count \<le> sz * 8 then drop_bit (unat count - 1) a AND 1 \<noteq> 0 else a AND sign_mask sz \<noteq> 0)
      \<longleftrightarrow> odd (sval w (uint a) div 2 ^ (unat count - 1))"
  proof (cases "unat count \<le> w")
    case True
    then have "unat count - 1 < w" using n' by simp
    from sval_bits [OF bounds this] True show ?thesis
      unfolding test_shifted count_le_width [OF sz] by (simp add: w_def)
  next
    case False
    then have "w \<le> Suc (unat count - 1)" by simp
    from sval_deep_shift [OF bounds this w] False show ?thesis
      unfolding test_sign_mask [OF sz] msb_uint [OF sz a] count_le_width [OF sz] by (simp add: w_def)
  qed
  have zf: "r = 0 \<longleftrightarrow> uint r = 0" by (simp add: word_uint_eq_iff)
  have one: "count = 1 \<longleftrightarrow> unat count = 1" by (simp add: word_unat_eq_iff)
  have "compute_sar sz a r count =
    (let b = with_bit (apply_zsp ALWAYS_ONE sz r) FLAG_CF (odd (sval w (uint a) div 2 ^ (unat count - 1)))
     in if unat count = 1 then with_bit b FLAG_OF False else b)"
    using n unfolding compute_sar_def Let_def cf one w_def by simp
  then show ?thesis
    by (simp add: Let_def bits_flags_def bit_with_flag bit_apply_zsp [OF sz] masks msb parity8_ucast sar_spec_def zf ur bit_int_literals flip: w_def)
qed

section \<open>The eager reference\<close>

lemma flags_of_eager_write: "flags_of (eager_write f c) = bits_flags f"
  by (simp add: flags_of_bits eager_write_def sync_flags_def bits_flags_def bit_or_iff bit_int_literals)

lemma flag_chain:
  assumes "valid_size sz"
  shows "bits_flags (with_bit (with_bit (with_bit (apply_zsp base sz r) FLAG_CF cf) FLAG_OF ov) FLAG_AF af) =
    \<lparr>fl_cf = cf, fl_pf = parity8 (ucast (r AND mask_for sz)), fl_af = af,
     fl_zf = r AND mask_for sz = 0, fl_sf = bit r (width_of sz - 1), fl_of = ov\<rparr>"
  by (simp add: bits_flags_def bit_with_flag bit_apply_zsp [OF assms])

lemma eager_adc_flags:
  assumes sz: "valid_size sz" and a: "fits sz a" and b: "fits sz b"
  shows "flags_of (set_flags_adc_eager sz a b cin ((a + b + of_bool cin) AND mask_for sz) c) =
    add_spec (width_of sz) (uint a) (uint b) cin"
proof -
  define r where "r = (a + b + of_bool cin) AND mask_for sz"
  have masks: "a AND mask_for sz = a" "b AND mask_for sz = b" "r AND mask_for sz = r"
    "(r - b - of_bool cin) AND mask_for sz = a"
    using a b recover_add [OF sz a b] by (simp_all add: fits_def r_def)
  have r: "uint r = (uint a + uint b + of_bool cin) mod 2 ^ width_of sz"
    unfolding r_def by (rule uint_masked(3) [OF sz])
  have r': "uint r = (uint b + uint a + of_bool cin) mod 2 ^ width_of sz"
    by (simp add: r add.commute)
  note bounds = uint_fits_bounds [OF sz a] uint_fits_bounds [OF sz b]
  have w: "1 \<le> width_of sz" using width_of_range [OF sz] by simp
  have "(if cin then r \<le> b else r < b) \<longleftrightarrow> 2 ^ width_of sz \<le> uint a + uint b + of_bool cin"
    using bounds w carry_add [of "uint a" "width_of sz" "uint b" cin]
    by (cases cin) (simp_all add: word_le_def word_less_def r)
  moreover have "(if cin then r \<le> a else r < a) \<longleftrightarrow> 2 ^ width_of sz \<le> uint b + uint a + of_bool cin"
    using bounds w carry_add [of "uint b" "width_of sz" "uint a" cin]
    by (cases cin) (simp_all add: word_le_def word_less_def r')
  ultimately have cf: "(if cin then r \<le> a else r < a) \<longleftrightarrow> (if cin then r \<le> b else r < b)"
    by (simp add: add.commute)
  have "flags_of (set_flags_adc_eager sz a b cin r c) = bits_flags (compute_adc sz b r cin)"
    by (simp only: set_flags_adc_eager_def compute_adc_def Let_def flags_of_eager_write flag_chain [OF sz] masks cf)
  then show ?thesis using compute_adc_flags [OF sz a b, of cin] by (simp only: r_def)
qed

lemma eager_sbb_flags:
  assumes sz: "valid_size sz" and a: "fits sz a" and b: "fits sz b"
  shows "flags_of (set_flags_sbb_eager sz a b bin ((a - b - of_bool bin) AND mask_for sz) c) =
    sub_spec (width_of sz) (uint a) (uint b) bin"
proof -
  define r where "r = (a - b - of_bool bin) AND mask_for sz"
  have masks: "a AND mask_for sz = a" "b AND mask_for sz = b" "r AND mask_for sz = r"
    "(r + b + of_bool bin) AND mask_for sz = a"
    using a b recover_sub [OF sz a b] by (simp_all add: fits_def r_def)
  have "flags_of (set_flags_sbb_eager sz a b bin r c) = bits_flags (compute_sbb sz b r bin)"
    by (simp only: set_flags_sbb_eager_def compute_sbb_def Let_def flags_of_eager_write flag_chain [OF sz] masks)
  then show ?thesis using compute_sbb_flags [OF sz a b, of bin] by (simp only: r_def)
qed

lemma eager_add_adc: "set_flags_add_eager sz a b r c = set_flags_adc_eager sz a b False r c"
  by (simp add: set_flags_add_eager_def set_flags_adc_eager_def)

lemma eager_sub_sbb: "set_flags_sub_eager sz a b r c = set_flags_sbb_eager sz a b False r c"
  by (simp add: set_flags_sub_eager_def set_flags_sbb_eager_def)

lemma eager_logical_flags:
  assumes "valid_size sz" "fits sz r"
  shows "flags_of (set_flags_logical_eager sz r c) = logic_spec (width_of sz) (uint r)"
proof -
  have "r AND mask_for sz = r" using assms(2) by (simp add: fits_def)
  then show ?thesis
    by (simp add: set_flags_logical_eager_def flags_of_eager_write bits_flags_def bit_apply_zsp [OF assms(1)]
        logic_spec_def parity8_ucast msb_uint [OF assms, simplified] bit_and_iff bit_not_iff bit_ARITH_MASK
        unsigned_eq_0_iff)
qed

lemma eager_neg_flags:
  assumes sz: "valid_size sz" and a: "fits sz a"
  shows "flags_of (set_flags_neg_eager sz a r c) = bits_flags (compute_neg sz a r)"
proof -
  have masks: "a AND mask_for sz = a" using a by (simp add: fits_def)
  have "width_of sz - Suc 0 < width_of sz" using width_of_range [OF sz] by simp
  then show ?thesis
    by (simp add: set_flags_neg_eager_def compute_neg_def Let_def flags_of_eager_write flag_chain [OF sz] masks
        bit_apply_zsp [OF sz]) (simp add: bit_and_iff bit_mask_for [OF sz])
qed

lemma eager_inc_flags:
  assumes sz: "valid_size sz" and a: "fits sz a" and synced: "c_cc_op c = CC_Eflags"
  shows "flags_of (set_flags_inc_eager sz a ((a + 1) AND mask_for sz) c) =
    (add_spec (width_of sz) (uint a) 1 False)\<lparr>fl_cf := fl_cf (flags_of c)\<rparr>"
proof -
  define r where "r = (a + 1) AND mask_for sz"
  have one: "fits sz 1" using sz width_of_range [OF sz] by (simp add: fits_uint one_less_power)
  have masks: "a AND mask_for sz = a" "r AND mask_for sz = r" "(r - 1) AND mask_for sz = a"
    using a recover_add [OF sz a one, of False] by (simp_all add: fits_def r_def)
  have "fl_cf (flags_of c) \<longleftrightarrow> bit (c_rflags c) 0"
    by (simp add: flags_of_bits bits_flags_def sync_flags_def synced)
  then have "flags_of (set_flags_inc_eager sz a r c) = bits_flags (compute_inc sz (fl_cf (flags_of c)) r)"
    by (simp only: set_flags_inc_eager_def compute_inc_def Let_def flags_of_eager_write masks)
      (simp add: bits_flags_def bit_with_flag bit_apply_zsp [OF sz])
  then show ?thesis using compute_inc_flags [OF sz a] by (simp add: r_def)
qed

lemma eager_dec_flags:
  assumes sz: "valid_size sz" and a: "fits sz a" and synced: "c_cc_op c = CC_Eflags"
  shows "flags_of (set_flags_dec_eager sz a ((a - 1) AND mask_for sz) c) =
    (sub_spec (width_of sz) (uint a) 1 False)\<lparr>fl_cf := fl_cf (flags_of c)\<rparr>"
proof -
  define r where "r = (a - 1) AND mask_for sz"
  have one: "fits sz 1" using sz width_of_range [OF sz] by (simp add: fits_uint one_less_power)
  have masks: "a AND mask_for sz = a" "r AND mask_for sz = r" "(r + 1) AND mask_for sz = a"
    using a recover_sub [OF sz a one, of False] by (simp_all add: fits_def r_def)
  have "fl_cf (flags_of c) \<longleftrightarrow> bit (c_rflags c) 0"
    by (simp add: flags_of_bits bits_flags_def sync_flags_def synced)
  then have "flags_of (set_flags_dec_eager sz a r c) = bits_flags (compute_dec sz (fl_cf (flags_of c)) r)"
    by (simp only: set_flags_dec_eager_def compute_dec_def Let_def flags_of_eager_write masks)
      (simp add: bits_flags_def bit_with_flag bit_apply_zsp [OF sz])
  then show ?thesis using compute_dec_flags [OF sz a] by (simp add: r_def)
qed

text \<open>The eager shifts keep OF when the count is not 1; the lazy ones clear it.\<close>

lemma eager_shift_flags:
  assumes sz: "valid_size sz" and n: "count \<noteq> 0"
  shows "flags_of (set_flags_shl_eager sz a count r c) =
      (let f = bits_flags (compute_shl sz a r count)
       in if count = 1 then f else f\<lparr>fl_of := bit (c_rflags c) 11\<rparr>)"
    and "flags_of (set_flags_shr_eager sz a count r c) =
      (let f = bits_flags (compute_shr sz a r count)
       in if count = 1 then f else f\<lparr>fl_of := bit (c_rflags c) 11\<rparr>)"
    and "flags_of (set_flags_sar_eager sz a count r c) =
      (let f = bits_flags (compute_sar sz a r count)
       in if count = 1 then f else f\<lparr>fl_of := bit (c_rflags c) 11\<rparr>)"
  using n
  by (simp_all add: set_flags_shl_eager_def compute_shl_def set_flags_shr_eager_def compute_shr_def
      set_flags_sar_eager_def compute_sar_def Let_def flags_of_eager_write
      bits_flags_def bit_with_flag bit_apply_zsp [OF sz] bit_int_literals)

section \<open>The whole flag register\<close>

lemma bit_rflags: "bit (rflags c) n \<longleftrightarrow> n = 1 \<or> bit (c_rflags (sync_flags c)) n"
  by (auto simp: rflags_def bit_or_iff bit_int_literals)

lemma rflags_eqI:
  assumes "flags_of c = flags_of d"
    and "\<And>n. n \<notin> {0, 1, 2, 4, 6, 7, 11} \<Longrightarrow>
           bit (c_rflags (sync_flags c)) n = bit (c_rflags (sync_flags d)) n"
  shows "rflags c = rflags d"
proof (rule bit_word_eqI)
  fix n assume "n < LENGTH(64)"
  have six: "bit (c_rflags (sync_flags c)) n = bit (c_rflags (sync_flags d)) n"
    if "n \<in> {0, 2, 4, 6, 7, 11}"
    using that assms(1) by (auto simp: flags_of_bits bits_flags_def)
  show "bit (rflags c) n = bit (rflags d) n"
  proof (cases "n = 1 \<or> n \<in> {0, 2, 4, 6, 7, 11}")
    case True
    with six show ?thesis by (auto simp only: bit_rflags)
  next
    case False
    with assms(2) [of n] show ?thesis by (simp add: bit_rflags)
  qed
qed

lemma other_bits_stash:
  "n \<notin> {0, 1, 2, 4, 6, 7, 11} \<Longrightarrow>
   bit (c_rflags (sync_flags (stash op sz src dst src2 c))) n = bit (c_rflags c) n"
  by (simp add: bit_sync_flags stash_def)

lemma other_bits_eager:
  "n \<notin> {0, 1, 2, 4, 6, 7, 11} \<Longrightarrow>
   bit (c_rflags (sync_flags (eager_write f c))) n = bit f n"
  by (simp add: sync_flags_def eager_write_def bit_or_iff bit_int_literals)

lemma other_bits_sync:
  "n \<notin> {0, 1, 2, 4, 6, 7, 11} \<Longrightarrow> bit (c_rflags (sync_flags c)) n = bit (c_rflags c) n"
  by (simp add: bit_sync_flags)

lemma sync_flags_idem [simp]: "sync_flags (sync_flags c) = sync_flags c"
  by (simp add: sync_flags_def Let_def)

lemma sync_flags_frame [simp]:
  "c_gpr (sync_flags c) = c_gpr c" "c_mem (sync_flags c) = c_mem c" "c_rip (sync_flags c) = c_rip c"
  "c_halted (sync_flags c) = c_halted c" "c_fault (sync_flags c) = c_fault c"
  "c_branch_taken (sync_flags c) = c_branch_taken c" "c_dr (sync_flags c) = c_dr c"
  "reg (sync_flags c) = reg c"
  by (simp_all add: sync_flags_def Let_def reg_def fun_eq_iff)

lemma flags_of_sync [simp]: "flags_of (sync_flags c) = flags_of c"
  by (simp add: flags_of_bits)

lemma cc_op_sync [simp]: "c_cc_op (sync_flags c) = CC_Eflags"
  by (simp add: sync_flags_def Let_def)

end
