(* ===== verification/Lazy_Flags.thy ===== *)
theory Lazy_Flags
  imports Flag_Facts
begin

text \<open>
  The lazy flag computation against its eager reference, and the remaining promises of the flag and
  state accessors of \<^verbatim>\<open>src/emu/cpu/flags.cpp\<close> and \<^verbatim>\<open>src/emu/cpu/cpu.cpp\<close>: stashing an operation and reading
  the flag register later gives the register that the eager setter writes at once.
\<close>

section \<open>Whole-register equality\<close>

lemma other_bits_apply:
  "n \<notin> {0, 1, 2, 4, 6, 7, 11} \<Longrightarrow> valid_size sz \<Longrightarrow> bit (apply_zsp f sz r) n = bit f n"
  by (simp add: bit_apply_zsp)

lemma other_bits_chain:
  assumes "n \<notin> {0, 1, 2, 4, 6, 7, 11}"
  shows "bit (with_bit f FLAG_CF a) n = bit f n" "bit (with_bit f FLAG_OF a) n = bit f n"
    "bit (with_bit f FLAG_AF a) n = bit f n"
  using assms by (simp_all add: bit_with_flag)

lemma lazy_eq_eager:
  assumes flags: "flags_of (stash op sz s d s2 c') = flags_of (eager_write f c)"
    and base: "\<And>n. n \<notin> {0, 1, 2, 4, 6, 7, 11} \<Longrightarrow> bit f n = bit (c_rflags c') n"
  shows "rflags (stash op sz s d s2 c') = rflags (eager_write f c)"
proof (rule rflags_eqI [OF flags])
  fix n assume n: "(n :: nat) \<notin> {0, 1, 2, 4, 6, 7, 11}"
  show "bit (c_rflags (sync_flags (stash op sz s d s2 c'))) n = bit (c_rflags (sync_flags (eager_write f c))) n"
    unfolding other_bits_stash [OF n] other_bits_eager [OF n] base [OF n] ..
qed

lemma fits_mask: "fits sz a \<Longrightarrow> a AND mask_for sz = a"
  by (simp add: fits_def)

lemma adc_lazy_eager:
  assumes sz: "valid_size sz" and a: "fits sz a" and b: "fits sz b"
  shows "rflags (stash_adc sz b k ((a + b + of_bool k) AND mask_for sz) c) =
    rflags (set_flags_adc_eager sz a b k ((a + b + of_bool k) AND mask_for sz) c)"
proof -
  have "flags_of (stash_adc sz b k ((a + b + of_bool k) AND mask_for sz) c) =
      flags_of (set_flags_adc_eager sz a b k ((a + b + of_bool k) AND mask_for sz) c)"
    unfolding flags_of_stash_adc [OF sz a b] eager_adc_flags [OF sz a b] ..
  then show ?thesis
    unfolding stash_adc_def set_flags_adc_eager_def Let_def
    by (rule lazy_eq_eager) (simp add: other_bits_chain other_bits_apply sz)
qed

lemma sbb_lazy_eager:
  assumes sz: "valid_size sz" and a: "fits sz a" and b: "fits sz b"
  shows "rflags (stash_sbb sz b k ((a - b - of_bool k) AND mask_for sz) c) =
    rflags (set_flags_sbb_eager sz a b k ((a - b - of_bool k) AND mask_for sz) c)"
proof -
  have "flags_of (stash_sbb sz b k ((a - b - of_bool k) AND mask_for sz) c) =
      flags_of (set_flags_sbb_eager sz a b k ((a - b - of_bool k) AND mask_for sz) c)"
    unfolding flags_of_stash_sbb [OF sz a b] eager_sbb_flags [OF sz a b] ..
  then show ?thesis
    unfolding stash_sbb_def set_flags_sbb_eager_def Let_def
    by (rule lazy_eq_eager) (simp add: other_bits_chain other_bits_apply sz)
qed

lemma add_lazy_eager:
  assumes sz: "valid_size sz" and a: "fits sz a" and b: "fits sz b"
  shows "rflags (stash_add sz b ((a + b) AND mask_for sz) c) =
    rflags (set_flags_add_eager sz a b ((a + b) AND mask_for sz) c)"
proof -
  have "flags_of (stash_add sz b ((a + b) AND mask_for sz) c) =
      flags_of (set_flags_add_eager sz a b ((a + b) AND mask_for sz) c)"
    using eager_adc_flags [OF sz a b, of False c]
    by (simp add: flags_of_stash_add [OF sz a b] eager_add_adc)
  then show ?thesis
    unfolding stash_add_def set_flags_add_eager_def Let_def
    by (rule lazy_eq_eager) (simp add: other_bits_chain other_bits_apply sz)
qed

lemma sub_lazy_eager:
  assumes sz: "valid_size sz" and a: "fits sz a" and b: "fits sz b"
  shows "rflags (stash_sub sz b ((a - b) AND mask_for sz) c) =
    rflags (set_flags_sub_eager sz a b ((a - b) AND mask_for sz) c)"
proof -
  have "flags_of (stash_sub sz b ((a - b) AND mask_for sz) c) =
      flags_of (set_flags_sub_eager sz a b ((a - b) AND mask_for sz) c)"
    using eager_sbb_flags [OF sz a b, of False c]
    by (simp add: flags_of_stash_sub [OF sz a b] eager_sub_sbb)
  then show ?thesis
    unfolding stash_sub_def set_flags_sub_eager_def Let_def
    by (rule lazy_eq_eager) (simp add: other_bits_chain other_bits_apply sz)
qed

lemma neg_lazy_eager:
  assumes sz: "valid_size sz" and a: "fits sz a"
  shows "rflags (stash_neg sz a r c) = rflags (set_flags_neg_eager sz a r c)"
proof -
  have "flags_of (stash_neg sz a r c) = flags_of (set_flags_neg_eager sz a r c)"
    by (simp add: eager_neg_flags [OF sz a] stash_neg_def flags_of_stash)
  then show ?thesis
    unfolding stash_neg_def set_flags_neg_eager_def Let_def
    by (rule lazy_eq_eager) (simp add: other_bits_chain other_bits_apply sz)
qed

lemma logic_lazy_eager:
  assumes sz: "valid_size sz" and a: "fits sz a"
  shows "rflags (stash_logic sz a c) = rflags (set_flags_logical_eager sz a c)"
proof -
  have "flags_of (stash_logic sz a c) = flags_of (set_flags_logical_eager sz a c)"
    by (simp add: eager_logical_flags [OF sz a] flags_of_stash_logic [OF sz a])
  then show ?thesis
    unfolding stash_logic_def set_flags_logical_eager_def
    by (rule lazy_eq_eager)
      (auto simp: other_bits_apply sz bit_and_iff bit_not_iff bit_ARITH_MASK dest: bit_imp_le_length)
qed

lemma inc_lazy_eager:
  assumes sz: "valid_size sz" and a: "fits sz a"
  shows "rflags (stash_inc sz ((a + 1) AND mask_for sz) c) =
    rflags (set_flags_inc_eager sz a ((a + 1) AND mask_for sz) (sync_flags c))"
proof -
  have "flags_of (stash_inc sz ((a + 1) AND mask_for sz) c) =
      flags_of (set_flags_inc_eager sz a ((a + 1) AND mask_for sz) (sync_flags c))"
    unfolding flags_of_stash_inc [OF sz a] eager_inc_flags [OF sz a cc_op_sync] flags_of_sync ..
  then show ?thesis
    unfolding stash_inc_def set_flags_inc_eager_def Let_def
    by (rule lazy_eq_eager) (simp add: other_bits_chain other_bits_apply sz)
qed

lemma dec_lazy_eager:
  assumes sz: "valid_size sz" and a: "fits sz a"
  shows "rflags (stash_dec sz ((a - 1) AND mask_for sz) c) =
    rflags (set_flags_dec_eager sz a ((a - 1) AND mask_for sz) (sync_flags c))"
proof -
  have "flags_of (stash_dec sz ((a - 1) AND mask_for sz) c) =
      flags_of (set_flags_dec_eager sz a ((a - 1) AND mask_for sz) (sync_flags c))"
    unfolding flags_of_stash_dec [OF sz a] eager_dec_flags [OF sz a cc_op_sync] flags_of_sync ..
  then show ?thesis
    unfolding stash_dec_def set_flags_dec_eager_def Let_def
    by (rule lazy_eq_eager) (simp add: other_bits_chain other_bits_apply sz)
qed

text \<open>C6: Reading the flag register after a stashed ADD, ADC, SUB, SBB, INC, DEC, NEG or logical operation gives exactly
  the register that the eager setter computes, for any operands of the size and any
  earlier flag state; INC and DEC, whose eager setter keeps the stored CF, from the synchronised one.\<close>

theorem lazy_flags_are_eager:
  assumes sz: "valid_size sz" and a: "fits sz a" and b: "fits sz b"
  shows "rflags (stash_add sz b ((a + b) AND mask_for sz) c) =
      rflags (set_flags_add_eager sz a b ((a + b) AND mask_for sz) c) \<and>
    rflags (stash_adc sz b cin ((a + b + of_bool cin) AND mask_for sz) c) =
      rflags (set_flags_adc_eager sz a b cin ((a + b + of_bool cin) AND mask_for sz) c) \<and>
    rflags (stash_sub sz b ((a - b) AND mask_for sz) c) =
      rflags (set_flags_sub_eager sz a b ((a - b) AND mask_for sz) c) \<and>
    rflags (stash_sbb sz b cin ((a - b - of_bool cin) AND mask_for sz) c) =
      rflags (set_flags_sbb_eager sz a b cin ((a - b - of_bool cin) AND mask_for sz) c) \<and>
    rflags (stash_neg sz a ((NOT a + 1) AND mask_for sz) c) =
      rflags (set_flags_neg_eager sz a ((NOT a + 1) AND mask_for sz) c) \<and>
    rflags (stash_logic sz a c) = rflags (set_flags_logical_eager sz a c) \<and>
    rflags (stash_inc sz ((a + 1) AND mask_for sz) c) =
      rflags (set_flags_inc_eager sz a ((a + 1) AND mask_for sz) (sync_flags c)) \<and>
    rflags (stash_dec sz ((a - 1) AND mask_for sz) c) =
      rflags (set_flags_dec_eager sz a ((a - 1) AND mask_for sz) (sync_flags c))"
  using add_lazy_eager [OF assms] adc_lazy_eager [OF assms] sub_lazy_eager [OF assms] sbb_lazy_eager [OF assms]
    neg_lazy_eager [OF sz a] logic_lazy_eager [OF sz a] inc_lazy_eager [OF sz a] dec_lazy_eager [OF sz a]
  by blast

theorem lazy_flags_are_eager_witness:
  "rflags (stash_sub 2 0x8001 ((5 - 0x8001) AND mask_for 2) (initial_cpu ())) =
     rflags (set_flags_sub_eager 2 5 0x8001 ((5 - 0x8001) AND mask_for 2) (initial_cpu ()))"
  using lazy_flags_are_eager [of 2 5 "0x8001" "initial_cpu ()"] by (simp add: fits_uint)

lemma flags_initial [simp]:
  "flags_of (initial_cpu m) = \<lparr>fl_cf = False, fl_pf = False, fl_af = False, fl_zf = False,
     fl_sf = False, fl_of = False\<rparr>"
  by (simp add: flags_of_bits sync_flags_def initial_cpu_def bits_flags_def bit_int_literals)

lemma shift_vs_eager:
  assumes sz: "valid_size sz"
  defines "keep \<equiv> \<lambda>n c f. if n = 0 \<or> n = 1 then f else f\<lparr>fl_of := bit (c_rflags c) 11\<rparr>"
  shows "flags_of (set_flags_shl_eager sz a n r c) = keep n c (flags_of (stash_shl sz a n r c))"
    and "flags_of (set_flags_shr_eager sz a n r c) = keep n c (flags_of (stash_shr sz a n r c))"
    and "flags_of (set_flags_sar_eager sz a n r c) = keep n c (flags_of (stash_sar sz a n r c))"
proof -
  have u: "ucast (ucast n :: u64) = n" by (rule bit_word_eqI) (auto simp: bit_simps)
  show "flags_of (set_flags_shl_eager sz a n r c) = keep n c (flags_of (stash_shl sz a n r c))"
    "flags_of (set_flags_shr_eager sz a n r c) = keep n c (flags_of (stash_shr sz a n r c))"
    "flags_of (set_flags_sar_eager sz a n r c) = keep n c (flags_of (stash_sar sz a n r c))"
    using eager_shift_flags [OF sz, of n a r c]
    by (cases "n = 0"; simp add: keep_def stash_shl_def stash_shr_def stash_sar_def set_flags_shl_eager_def
        set_flags_shr_eager_def set_flags_sar_eager_def; simp add: flags_of_stash u Let_def)+
qed

lemma rotate_vs_eager:
  assumes n: "n AND (sz * 8 - 1) \<noteq> 0"
  shows "flags_of (set_flags_rol_eager sz n r (sync_flags c)) = flags_of (stash_rol sz a n r c)"
    and "flags_of (set_flags_ror_eager sz n r (sync_flags c)) = flags_of (stash_ror sz a n r c)"
proof -
  have u: "ucast (ucast n :: u64) = n" by (rule bit_word_eqI) (auto simp: bit_simps)
  have n0: "n \<noteq> 0" using n by auto
  show "flags_of (set_flags_rol_eager sz n r (sync_flags c)) = flags_of (stash_rol sz a n r c)"
    "flags_of (set_flags_ror_eager sz n r (sync_flags c)) = flags_of (stash_ror sz a n r c)"
    using n n0
    by (simp_all add: set_flags_rol_eager_def stash_rol_def compute_rol_def set_flags_ror_eager_def stash_ror_def
        compute_ror_def Let_def flags_of_eager_write flags_of_stash u bits_flags_def bit_or_iff bit_int_literals)
qed

text \<open>The eager shift setters agree with the stashed shifts except that they keep the stored OF when
  the count is neither 0 nor 1, where the stashed shift clears it.  The eager rotate setters agree
  with the stashed rotates when the count is not a multiple of the width, and change nothing
  otherwise.\<close>

theorem lazy_shifts_vs_eager:
  assumes "valid_size sz"
  shows "let keep = (\<lambda>f. if n = 0 \<or> n = 1 then f else f\<lparr>fl_of := bit (c_rflags c) 11\<rparr>);
             whole = (n AND (sz * 8 - 1) = 0); c0 = sync_flags c
    in flags_of (set_flags_shl_eager sz a n r c) = keep (flags_of (stash_shl sz a n r c)) \<and>
       flags_of (set_flags_shr_eager sz a n r c) = keep (flags_of (stash_shr sz a n r c)) \<and>
       flags_of (set_flags_sar_eager sz a n r c) = keep (flags_of (stash_sar sz a n r c)) \<and>
       flags_of (set_flags_rol_eager sz n r c0) = flags_of (if whole then c else stash_rol sz a n r c) \<and>
       flags_of (set_flags_ror_eager sz n r c0) = flags_of (if whole then c else stash_ror sz a n r c)"
  using shift_vs_eager [OF assms, of a n r c] rotate_vs_eager [of n sz r c a]
  by (simp add: Let_def set_flags_rol_eager_def set_flags_ror_eager_def)

text \<open>A rotation of a byte by 8 tells the two apart.\<close>

theorem lazy_shifts_vs_eager_witness:
  "flags_of (set_flags_rol_eager 1 8 1 (sync_flags (initial_cpu ()))) = flags_of (initial_cpu ()) \<and>
   fl_cf (flags_of (stash_rol 1 1 8 1 (initial_cpu ()))) \<and> \<not> fl_cf (flags_of (initial_cpu ()))"
  using lazy_shifts_vs_eager [of 1 8 "initial_cpu ()" 1 1]
  by (simp add: stash_rol_def flags_of_stash compute_rol_def Let_def)
    (simp add: bits_flags_def bit_or_iff bit_with_flag bit_int_literals)

section \<open>Snapshots\<close>

text \<open>Restoring a snapshot brings back the flags, registers, instruction pointer, fault and run state of
  the CPU it was taken of, whatever happened to it meanwhile; only the memory, the CPUID
  table and the counters behind RDTSC and RDRAND are those of the later state.\<close>

theorem snapshot_restore:
  "let s = fst (take_snapshot c); r = restore s d
   in rflags r = rflags c \<and> flags_of r = flags_of c \<and> reg r = reg c \<and> c_rip r = c_rip c \<and>
      c_fault r = c_fault c \<and> c_halted r = c_halted c \<and> c_branch_taken r = c_branch_taken c \<and>
      c_dr r = c_dr c \<and> c_zmm r = c_zmm c \<and> c_k r = c_k c \<and> c_fpu_st r = c_fpu_st c \<and>
      c_fpu_top r = c_fpu_top c \<and> c_fs_base r = c_fs_base c \<and> c_gs_base r = c_gs_base c \<and>
      c_mem r = c_mem d \<and> c_cpuid r = c_cpuid d \<and> c_tsc r = c_tsc d \<and> c_rdrand r = c_rdrand d"
proof -
  have "sync_flags (restore (fst (take_snapshot c)) d) = restore (fst (take_snapshot c)) d"
    by (simp add: sync_flags_def [of "restore s d" for s])
      (simp add: restore_def take_snapshot_def Let_def)
  then have "rflags (restore (fst (take_snapshot c)) d) = rflags c"
    "flags_of (restore (fst (take_snapshot c)) d) = flags_of c"
    by (simp_all add: rflags_def flags_of_bits)
      (simp_all add: restore_def take_snapshot_def Let_def)
  then show ?thesis
    by (simp add: Let_def) (simp add: restore_def take_snapshot_def Let_def reg_def fun_eq_iff sync_flags_def)
qed

text \<open>
  \<open>reset\<close> leaves the pending lazy operation in place, so the flags read after it are those of the
  operation before it, although the register itself was cleared.
\<close>

theorem reset_keeps_stale_flags:
  "fl_zf (flags_of (reset (stash_logic 4 0 c)))"
  by (simp add: flags_of_computed reset_def stash_logic_def stash_def bits_flags_def compute_logic_def
      bit_apply_zsp)

end
