(* ===== verification/Hooks.thy ===== *)
theory Hooks
  imports Flag_Facts "HOL-Library.Multiset"
begin

text \<open>
  The hook manager of \<^verbatim>\<open>emu/hooks.h\<close>.  A callback is a function on the CPU state, one constructor
  per callback signature; the \<open>user_data\<close> pointer of the C interface is part of the function.
  The lists are kept per kind in registration order.
\<close>

section \<open>Kinds, callbacks, hooks\<close>

datatype HookKind = HK_Block | HK_Code | HK_MemRead | HK_MemWrite | HK_Insn | HK_Fault

datatype 'm callback =
    CodeCb "GuestAddr \<Rightarrow> u32 \<Rightarrow> 'm cpu \<Rightarrow> 'm cpu"
  | BlockCb "GuestAddr \<Rightarrow> u32 \<Rightarrow> 'm cpu \<Rightarrow> 'm cpu"
  | MemCb "GuestAddr \<Rightarrow> u32 \<Rightarrow> u64 \<Rightarrow> bool \<Rightarrow> 'm cpu \<Rightarrow> 'm cpu"
  | InsnCb "insn \<Rightarrow> 'm cpu \<Rightarrow> 'm cpu"
  | FaultCb "fault \<Rightarrow> 'm cpu \<Rightarrow> 'm cpu"

record 'm hook =
  h_kind :: HookKind
  h_callback :: "'m callback"
  h_begin :: GuestAddr
  h_end :: GuestAddr
  h_filter_op :: OpKind

text \<open>
  Each call site casts the erased pointer to the signature of its own list.  A callback of
  another signature would be undefined behaviour there; it is the identity here.
\<close>

fun call_code :: "'m callback \<Rightarrow> GuestAddr \<Rightarrow> u32 \<Rightarrow> 'm cpu \<Rightarrow> 'm cpu" where
  "call_code (CodeCb f) rip len c = f rip len c"
| "call_code _ rip len c = c"

fun call_block :: "'m callback \<Rightarrow> GuestAddr \<Rightarrow> u32 \<Rightarrow> 'm cpu \<Rightarrow> 'm cpu" where
  "call_block (BlockCb f) pc n c = f pc n c"
| "call_block _ pc n c = c"

fun call_mem :: "'m callback \<Rightarrow> GuestAddr \<Rightarrow> u32 \<Rightarrow> u64 \<Rightarrow> bool \<Rightarrow> 'm cpu \<Rightarrow> 'm cpu" where
  "call_mem (MemCb f) a n v w c = f a n v w c"
| "call_mem _ a n v w c = c"

fun call_insn :: "'m callback \<Rightarrow> insn \<Rightarrow> 'm cpu \<Rightarrow> 'm cpu" where
  "call_insn (InsnCb f) i c = f i c"
| "call_insn _ i c = c"

fun call_fault :: "'m callback \<Rightarrow> fault \<Rightarrow> 'm cpu \<Rightarrow> 'm cpu" where
  "call_fault (FaultCb f) e c = f e c"
| "call_fault _ e c = c"

section \<open>The manager\<close>

type_synonym HookId = u32

abbreviation (input) INVALID_ID :: HookId where "INVALID_ID \<equiv> 0xFFFFFFFF"

record 'm hook_manager =
  hm_lists :: "HookKind \<Rightarrow> (HookId \<times> 'm hook) list"
  hm_next_id :: HookId

definition new_hook_manager :: "'m hook_manager" where
  "new_hook_manager = \<lparr>hm_lists = (\<lambda>_. []), hm_next_id = 1\<rparr>"

definition hook_add :: "'m hook \<Rightarrow> 'm hook_manager \<Rightarrow> HookId \<times> 'm hook_manager" where
  "hook_add h hm =
     (let k = h_kind h; hid = hm_next_id hm
      in (hid, hm\<lparr>hm_lists := (hm_lists hm)(k := hm_lists hm k @ [(hid, h)]), hm_next_id := hid + 1\<rparr>))"

fun erase_first :: "HookId \<Rightarrow> (HookId \<times> 'm hook) list \<Rightarrow> (HookId \<times> 'm hook) list" where
  "erase_first hid [] = []"
| "erase_first hid (e # es) = (if fst e = hid then es else e # erase_first hid es)"

text \<open>The lists are scanned in the order of the kinds; the first entry with the id goes.\<close>

fun remove_scan :: "HookKind list \<Rightarrow> HookId \<Rightarrow> 'm hook_manager \<Rightarrow> 'm hook_manager" where
  "remove_scan [] hid hm = hm"
| "remove_scan (k # ks) hid hm =
     (if hid \<in> fst ` set (hm_lists hm k)
      then hm\<lparr>hm_lists := (hm_lists hm)(k := erase_first hid (hm_lists hm k))\<rparr>
      else remove_scan ks hid hm)"

definition all_kinds :: "HookKind list" where
  "all_kinds = [HK_Block, HK_Code, HK_MemRead, HK_MemWrite, HK_Insn, HK_Fault]"

definition hook_remove :: "HookId \<Rightarrow> 'm hook_manager \<Rightarrow> 'm hook_manager" where
  "hook_remove hid hm = remove_scan all_kinds hid hm"

definition hook_clear :: "'m hook_manager \<Rightarrow> 'm hook_manager" where
  "hook_clear hm = hm\<lparr>hm_lists := (\<lambda>_. [])\<rparr>"

definition hook_any :: "HookKind \<Rightarrow> 'm hook_manager \<Rightarrow> bool" where
  "hook_any k hm \<longleftrightarrow> hm_lists hm k \<noteq> []"

text \<open>\<open>for_each\<close>: the function is applied to the hooks in list order, the state threaded through.\<close>

definition for_each :: "HookKind \<Rightarrow> ('m hook \<Rightarrow> 's \<Rightarrow> 's) \<Rightarrow> 'm hook_manager \<Rightarrow> 's \<Rightarrow> 's" where
  "for_each k fn hm s = fold (\<lambda>e. fn (snd e)) (hm_lists hm k) s"

definition hook_in_range :: "'m hook \<Rightarrow> GuestAddr \<Rightarrow> bool" where
  "hook_in_range h addr \<longleftrightarrow> (if h_end h < h_begin h then True else h_begin h \<le> addr \<and> addr \<le> h_end h)"

section \<open>Identifiers are unique\<close>

text \<open>Every id in the lists lies below the next one, and no id occurs twice.\<close>

definition all_entries :: "'m hook_manager \<Rightarrow> (HookId \<times> 'm hook) list" where
  "all_entries hm = concat (map (hm_lists hm) all_kinds)"

definition hooks_wf :: "'m hook_manager \<Rightarrow> bool" where
  "hooks_wf hm \<longleftrightarrow>
     (\<forall>e \<in> set (all_entries hm). fst e < hm_next_id hm) \<and> distinct (map fst (all_entries hm)) \<and>
     (\<forall>k. \<forall>e \<in> set (hm_lists hm k). h_kind (snd e) = k)"

lemma set_all_kinds [simp]: "set all_kinds = UNIV" "distinct all_kinds"
proof -
  have "k \<in> set all_kinds" for k by (cases k) (simp_all add: all_kinds_def)
  then show "set all_kinds = UNIV" by blast
  show "distinct all_kinds" by (simp add: all_kinds_def)
qed

lemma set_all_entries: "set (all_entries hm) = (\<Union>k. set (hm_lists hm k))"
  by (simp add: all_entries_def)

lemma hooks_wf_new: "hooks_wf new_hook_manager"
  by (simp add: hooks_wf_def new_hook_manager_def set_all_entries) (simp add: all_entries_def all_kinds_def)

lemma erase_first_append_last:
  "hid \<notin> fst ` set es \<Longrightarrow> erase_first hid (es @ [(hid, h)]) = es"
  by (induction es) auto

lemma erase_first_id: "hid \<notin> fst ` set es \<Longrightarrow> erase_first hid es = es"
  by (induction es) auto

lemma erase_first_filter:
  "distinct (map fst es) \<Longrightarrow> erase_first hid es = filter (\<lambda>e. fst e \<noteq> hid) es"
  by (induction es) (force intro: filter_True [symmetric])+

lemma remove_scan_lists:
  assumes "distinct (map fst (concat (map (hm_lists hm) ks)))" "distinct ks"
  shows "remove_scan ks hid hm =
    hm\<lparr>hm_lists := (\<lambda>k. if k \<in> set ks then filter (\<lambda>e. fst e \<noteq> hid) (hm_lists hm k) else hm_lists hm k)\<rparr>"
  using assms
proof (induction ks)
  case Nil then show ?case by simp
next
  case (Cons k ks)
  show ?case
  proof (cases "hid \<in> fst ` set (hm_lists hm k)")
    case True
    have "filter (\<lambda>e. fst e \<noteq> hid) (hm_lists hm j) = hm_lists hm j" if "j \<in> set ks" for j
    proof (rule filter_True, rule ballI)
      fix e assume e: "e \<in> set (hm_lists hm j)"
      then have "fst e \<in> fst ` (\<Union>x\<in>set ks. set (hm_lists hm x))" using that by blast
      then show "fst e \<noteq> hid" using True Cons.prems(1) by (simp add: image_UN) blast
    qed
    then show ?thesis
      using True Cons.prems by (simp add: erase_first_filter fun_eq_iff)
  next
    case False
    then have "filter (\<lambda>e. fst e \<noteq> hid) (hm_lists hm k) = hm_lists hm k"
      by (intro filter_True ballI) auto
    then show ?thesis using False Cons by (auto simp: fun_eq_iff)
  qed
qed

lemma hook_remove_filter:
  assumes "hooks_wf hm"
  shows "hook_remove hid hm = hm\<lparr>hm_lists := (\<lambda>k. filter (\<lambda>e. fst e \<noteq> hid) (hm_lists hm k))\<rparr>"
  using assms remove_scan_lists [of hm all_kinds hid]
  by (simp add: hook_remove_def hooks_wf_def all_entries_def)

lemma hooks_wf_fresh: "hooks_wf hm \<Longrightarrow> hm_next_id hm \<le> hid \<Longrightarrow> hid \<notin> fst ` set (hm_lists hm k)"
  unfolding hooks_wf_def set_all_entries by fastforce

lemma map_fst_entries_add:
  assumes "k \<in> set ks" "distinct ks"
  shows "mset (map fst (concat (map (ls(k := ls k @ [(hid, h)])) ks))) =
    add_mset hid (mset (map fst (concat (map ls ks))))"
  using assms
proof (induction ks)
  case Nil then show ?case by simp
next
  case (Cons j js)
  then show ?case
  proof (cases "j = k")
    case True
    then have "concat (map (ls(k := ls k @ [(hid, h)])) js) = concat (map ls js)"
      using Cons.prems by (intro arg_cong [where f = concat] map_cong) auto
    then show ?thesis using True by (simp only: list.map concat.simps map_append mset_append) simp
  next
    case False
    then show ?thesis using Cons by auto
  qed
qed

lemma hooks_wf_add:
  assumes wf: "hooks_wf hm" and room: "hm_next_id hm \<noteq> INVALID_ID"
  shows "hooks_wf (snd (hook_add h hm))"
proof -
  let ?hid = "hm_next_id hm"
  let ?hm = "snd (hook_add h hm)"
  have nxt: "hm_next_id ?hm = ?hid + 1" and
    lists: "hm_lists ?hm = (hm_lists hm)(h_kind h := hm_lists hm (h_kind h) @ [(?hid, h)])"
    by (simp_all add: hook_add_def Let_def)
  have "1 + ?hid \<noteq> 0"
  proof
    assume "1 + ?hid = 0"
    then have "?hid = - 1" by (simp add: eq_neg_iff_add_eq_0 add.commute)
    with room show False by simp
  qed
  then have lt: "?hid < ?hid + 1"
    using unatSuc [of ?hid] by (simp add: word_less_nat_alt add.commute)
  have "mset (map fst (all_entries ?hm)) = add_mset ?hid (mset (map fst (all_entries hm)))"
    unfolding all_entries_def lists by (rule map_fst_entries_add) simp_all
  then have "mset (map fst (all_entries ?hm)) = mset (?hid # map fst (all_entries hm))" by simp
  then have "distinct (map fst (all_entries ?hm)) \<longleftrightarrow> distinct (?hid # map fst (all_entries hm))"
    by (rule mset_eq_imp_distinct_iff)
  moreover have "?hid \<notin> fst ` set (all_entries hm)" using wf by (auto simp: hooks_wf_def)
  moreover have "\<forall>e \<in> set (all_entries ?hm). fst e < ?hid + 1"
    using wf lt unfolding hooks_wf_def set_all_entries lists by (force split: if_splits)
  ultimately show ?thesis
    using wf by (auto simp: hooks_wf_def nxt lists)
qed

end
