(* ===== verification/Memory_Interface.thy ===== *)
theory Memory_Interface
  imports Hooks
begin

text \<open>
  The provider interface of \<^verbatim>\<open>emu/memory.h\<close>.  A provider acts on a memory state \<open>'m\<close>.  A read
  returns its status, the bytes it stored into \<open>out\<close> (all of them when it succeeds, possibly
  a prefix when it fails) and the new state; a write takes the bytes of its buffer.
  The contract a client may rely on is the locale \<open>memory\<close>: an abstract view of the state as a
  partial map from addresses to bytes, which successful reads return and writes update.
\<close>

section \<open>Providers\<close>

record 'm provider =
  prov_read :: "GuestAddr \<Rightarrow> nat \<Rightarrow> 'm \<Rightarrow> Status \<times> u8 list \<times> 'm"
  prov_write :: "GuestAddr \<Rightarrow> u8 list \<Rightarrow> 'm \<Rightarrow> Status \<times> 'm"

text \<open>The default \<open>write\<close> of the base class.\<close>

definition default_write :: "GuestAddr \<Rightarrow> u8 list \<Rightarrow> 'm \<Rightarrow> Status \<times> 'm" where
  "default_write addr bs m = (St_ProtectionViolation, m)"

section \<open>Address ranges\<close>

text \<open>\<open>x\<close> is one of the \<open>n\<close> addresses from \<open>a\<close> on, modulo \<open>2 ^ 64\<close>.\<close>

definition in_span :: "GuestAddr \<Rightarrow> nat \<Rightarrow> GuestAddr \<Rightarrow> bool" where
  "in_span a n x \<longleftrightarrow> unat (x - a) < n"

definition patch_view :: "GuestAddr \<Rightarrow> u8 list \<Rightarrow> (GuestAddr \<Rightarrow> u8 option) \<Rightarrow> GuestAddr \<Rightarrow> u8 option" where
  "patch_view a bs v = (\<lambda>x. if in_span a (length bs) x then Some (bs ! unat (x - a)) else v x)"

lemma unat_offset: "i < 2 ^ 64 \<Longrightarrow> unat ((a + of_nat i) - a :: u64) = i"
  by (simp add: unat_of_nat)

lemma in_span_offset: "i < 2 ^ 64 \<Longrightarrow> in_span a n (a + of_nat i) \<longleftrightarrow> i < n"
  unfolding in_span_def unat_offset ..

lemma in_span_0 [simp]: "\<not> in_span a 0 x"
  by (simp add: in_span_def)

lemma patch_view_Nil [simp]: "patch_view a [] v = v"
  by (simp add: patch_view_def)

lemma in_spanE:
  assumes "in_span a n x"
  obtains i where "i < n" "i < 2 ^ 64" "x = a + of_nat i"
proof
  show "unat (x - a) < n" using assms by (simp add: in_span_def)
  show "unat (x - a) < 2 ^ 64" using unsigned_less [of "x - a", where ?'a = nat] by simp
  show "x = a + of_nat (unat (x - a))" by simp
qed

section \<open>The contract\<close>

locale memory =
  fixes rd :: "GuestAddr \<Rightarrow> nat \<Rightarrow> 'm \<Rightarrow> Status \<times> u8 list \<times> 'm"
    and wr :: "GuestAddr \<Rightarrow> u8 list \<Rightarrow> 'm \<Rightarrow> Status \<times> 'm"
    and view :: "'m \<Rightarrow> GuestAddr \<Rightarrow> u8 option"
    and inv :: "'m \<Rightarrow> bool"
  assumes rd_keeps: "inv m \<Longrightarrow> rd a n m = (s, bs, m') \<Longrightarrow> inv m' \<and> view m' = view m"
    and rd_length: "inv m \<Longrightarrow> rd a n m = (s, bs, m') \<Longrightarrow> length bs \<le> n"
    and rd_ok: "inv m \<Longrightarrow> rd a n m = (St_Ok, bs, m') \<Longrightarrow>
      length bs = n \<and> (\<forall>i < n. view m (a + of_nat i) = Some (bs ! i))"
    and wr_inv: "inv m \<Longrightarrow> wr a bs m = (s, m') \<Longrightarrow> length bs \<le> 2 ^ 32 \<Longrightarrow> inv m'"
    and wr_fail: "inv m \<Longrightarrow> wr a bs m = (s, m') \<Longrightarrow> s \<noteq> St_Ok \<Longrightarrow> view m' = view m"
    and wr_ok: "inv m \<Longrightarrow> wr a bs m = (St_Ok, m') \<Longrightarrow> length bs \<le> 2 ^ 32 \<Longrightarrow>
      patch_view a bs (view m) \<subseteq>\<^sub>m view m'"
begin

lemma wr_in:
  assumes "inv m" "wr a bs m = (St_Ok, m')" "length bs \<le> 2 ^ 32" "i < length bs"
  shows "view m' (a + of_nat i) = Some (bs ! i)"
proof -
  have "patch_view a bs (view m) (a + of_nat i) = Some (bs ! i)"
    using assms(3,4) by (simp add: patch_view_def in_span_offset unat_of_nat)
  then show ?thesis using wr_ok [OF assms(1-3)] by (metis domI map_le_def)
qed

lemma wr_out:
  assumes "inv m" "wr a bs m = (St_Ok, m')" "length bs \<le> 2 ^ 32" "\<not> in_span a (length bs) x" "view m x = Some b"
  shows "view m' x = Some b"
proof -
  have "patch_view a bs (view m) x = Some b" using assms(4,5) by (simp add: patch_view_def)
  then show ?thesis using wr_ok [OF assms(1-3)] by (metis domI map_le_def)
qed

lemma read_after_write:
  assumes "inv m" "wr a bs m = (St_Ok, m')" "length bs \<le> 2 ^ 32" "rd a (length bs) m' = (St_Ok, cs, m'')"
  shows "cs = bs"
proof (rule nth_equalityI)
  from rd_ok [OF wr_inv [OF assms(1-3)] assms(4)]
  have len: "length cs = length bs" and "\<forall>i < length bs. view m' (a + of_nat i) = Some (cs ! i)" by auto
  with wr_in [OF assms(1-3)] show "cs ! i = bs ! i" if "i < length cs" for i using that by simp
  show "length cs = length bs" by (rule len)
qed

lemma read_unchanged:
  assumes "inv m" "wr a bs m = (St_Ok, m')" "length bs \<le> 2 ^ 32"
    and "rd x n m = (St_Ok, cs, m1)" "rd x n m' = (St_Ok, ds, m2)"
    and "\<forall>i < n. \<not> in_span a (length bs) (x + of_nat i)"
  shows "ds = cs"
proof (rule nth_equalityI)
  from rd_ok [OF assms(1,4)] have 1: "length cs = n" "\<forall>i < n. view m (x + of_nat i) = Some (cs ! i)" by auto
  from rd_ok [OF wr_inv [OF assms(1-3)] assms(5)]
  have 2: "length ds = n" "\<forall>i < n. view m' (x + of_nat i) = Some (ds ! i)" by auto
  show "length ds = length cs" using 1 2 by simp
  show "ds ! i = cs ! i" if i: "i < length ds" for i
    using wr_out [OF assms(1-3), of "x + of_nat i" "cs ! i"] 1 2 i assms(6) by simp
qed

end

text \<open>
  A memory whose mapping is page-granular, and where an access inside mapped pages succeeds.
\<close>

definition same_page :: "GuestAddr \<Rightarrow> GuestAddr \<Rightarrow> bool" where
  "same_page x y \<longleftrightarrow> drop_bit 12 x = drop_bit 12 y"

locale paged_memory = memory +
  assumes granular: "inv m \<Longrightarrow> same_page x y \<Longrightarrow> view m x \<noteq> None \<Longrightarrow> view m y \<noteq> None"
    and rd_mapped: "inv m \<Longrightarrow> (\<forall>i < n. view m (a + of_nat i) \<noteq> None) \<Longrightarrow>
      \<exists>bs m'. rd a n m = (St_Ok, bs, m')"
begin

lemma read_write_total:
  assumes "inv m" "wr a bs m = (St_Ok, m')" "length bs \<le> 2 ^ 32"
  shows "\<exists>m''. rd a (length bs) m' = (St_Ok, bs, m'')"
proof -
  have "\<forall>i < length bs. view m' (a + of_nat i) \<noteq> None" using wr_in [OF assms] by simp
  from rd_mapped [OF wr_inv [OF assms] this] obtain cs m'' where r: "rd a (length bs) m' = (St_Ok, cs, m'')"
    by blast
  with read_after_write [OF assms r] show ?thesis by blast
qed

end

end
