(* ===== verification/Memory_Spans.thy ===== *)
theory Memory_Spans
  imports Memory_Interface
begin

text \<open>
  The memory layers all walk an access in the same way: the loop takes the address \<open>cur\<close>, the aligned
  granule (cache line, page or region of \<open>2 ^ s\<close> bytes) that holds it, and as many of the remaining bytes
  as lie in that granule.  \<open>spans\<close> lists the pairs \<open>(cur, n)\<close> of these turns; \<open>each_read\<close> and
  \<open>each_write\<close> are the loop with its early return.
\<close>

section \<open>Turns of the loop\<close>

definition base_of :: "nat \<Rightarrow> GuestAddr \<Rightarrow> GuestAddr" where
  "base_of s a = a AND NOT (mask s)"

definition offset_in :: "nat \<Rightarrow> GuestAddr \<Rightarrow> nat" where
  "offset_in s a = unat (a - base_of s a)"

definition span_length :: "nat \<Rightarrow> GuestAddr \<Rightarrow> nat \<Rightarrow> nat" where
  "span_length s a n = (if 2 ^ s - offset_in s a < n then 2 ^ s - offset_in s a else n)"

lemma offset_in_take_bit: "offset_in s a = unat (take_bit s a)"
proof -
  have "base_of s a + take_bit s a = base_of s a OR take_bit s a"
    by (rule disjunctive_add_eq_or, rule bit_word_eqI) (simp add: base_of_def bit_simps)
  also have "\<dots> = a"
    by (rule bit_word_eqI) (auto simp: base_of_def bit_simps)
  finally have "a - base_of s a = take_bit s a" by (metis add_diff_cancel_left')
  then show ?thesis by (simp add: offset_in_def)
qed

lemma offset_in_less: "offset_in s a < 2 ^ s"
  by (simp add: offset_in_take_bit unsigned_take_bit_eq take_bit_nat_less_exp)

function spans :: "nat \<Rightarrow> GuestAddr \<Rightarrow> nat \<Rightarrow> (GuestAddr \<times> nat) list" where
  "spans s a n =
     (if n = 0 then []
      else (let k = span_length s a n in (a, k) # spans s (a + of_nat k) (n - k)))"
  by pat_completeness auto
termination
  by (relation "measure (\<lambda>(s, a, n). n)") (auto simp: span_length_def offset_in_less Let_def)

declare spans.simps [simp del]

fun each_read :: "(GuestAddr \<Rightarrow> nat \<Rightarrow> 's \<Rightarrow> Status \<times> u8 list \<times> 's) \<Rightarrow> (GuestAddr \<times> nat) list \<Rightarrow> 's \<Rightarrow>
    Status \<times> u8 list \<times> 's" where
  "each_read f [] m = (St_Ok, [], m)"
| "each_read f ((a, k) # sps) m =
     (case f a k m of
        (s, bs, m) \<Rightarrow>
          if fail s then (s, bs, m)
          else (case each_read f sps m of (s, cs, m) \<Rightarrow> (s, bs @ cs, m)))"

fun each_write :: "(GuestAddr \<Rightarrow> u8 list \<Rightarrow> 's \<Rightarrow> 's) \<Rightarrow> (GuestAddr \<times> nat) list \<Rightarrow> u8 list \<Rightarrow> 's \<Rightarrow> 's" where
  "each_write f [] bs m = m"
| "each_write f ((a, k) # sps) bs m = each_write f sps (drop k bs) (f a (take k bs) m)"

text \<open>\<open>memcpy(d + off, bs, |bs|)\<close>.\<close>

definition overlay :: "nat \<Rightarrow> u8 list \<Rightarrow> u8 list \<Rightarrow> u8 list" where
  "overlay off bs d = take off d @ bs @ drop (off + length bs) d"

lemma length_overlay [simp]: "off + length bs \<le> length d \<Longrightarrow> length (overlay off bs d) = length d"
  by (simp add: overlay_def)

lemma nth_overlay:
  "off + length bs \<le> length d \<Longrightarrow> i < length d \<Longrightarrow>
   overlay off bs d ! i = (if off \<le> i \<and> i < off + length bs then bs ! (i - off) else d ! i)"
  by (auto simp: overlay_def nth_append)

section \<open>Granules\<close>

lemma base_plus_offset: "base_of s a + of_nat (offset_in s a) = a"
  by (simp add: offset_in_def)

text \<open>Inside a granule the base is shared and offsets count up.\<close>

lemma within_granule:
  assumes "offset_in s a + i < 2 ^ s" "s < 64"
  shows "base_of s (a + of_nat i) = base_of s a" "offset_in s (a + of_nat i) = offset_in s a + i"
proof -
  define k where "k = (of_nat (offset_in s a + i) :: u64)"
  have small: "offset_in s a + i < 2 ^ 64"
    using assms power_strict_increasing [of s 64 "2 :: nat"] by linarith
  have kt: "take_bit s k = k"
    unfolding k_def take_bit_of_nat take_bit_nat_eq_self [OF assms(1)] ..
  then have kb: "bit k n \<Longrightarrow> n < s" for n by (metis bit_take_bit_iff)
  have a: "a + of_nat i = base_of s a + k"
    using base_plus_offset [of s a] by (simp add: k_def algebra_simps)
  also have "\<dots> = base_of s a OR k"
    by (rule disjunctive_add_eq_or, rule bit_word_eqI) (auto simp: base_of_def bit_simps dest: kb)
  finally have "take_bit s (a + of_nat i) = take_bit s (base_of s a OR k)" by simp
  also have "\<dots> = k"
    unfolding take_bit_or kt by (rule bit_word_eqI) (auto simp: base_of_def bit_simps)
  finally have t: "take_bit s (a + of_nat i) = of_nat (offset_in s a + i)" by (simp add: k_def)
  then show o: "offset_in s (a + of_nat i) = offset_in s a + i"
    using small by (simp add: offset_in_take_bit unat_of_nat del: of_nat_add)
  show "base_of s (a + of_nat i) = base_of s a"
    using base_plus_offset [of s "a + of_nat i"] a unfolding o k_def by (metis add_right_cancel)
qed

lemma base_of_idem [simp]: "base_of s (base_of s a) = base_of s a"
  by (rule bit_word_eqI) (auto simp: base_of_def bit_simps)

lemma in_span_same_base:
  assumes "base_of s x = base_of s a" "s < 64" "offset_in s a + n \<le> 2 ^ s"
  shows "in_span a n x \<longleftrightarrow> offset_in s a \<le> offset_in s x \<and> offset_in s x < offset_in s a + n"
    and "offset_in s a \<le> offset_in s x \<Longrightarrow> unat (x - a) = offset_in s x - offset_in s a"
proof -
  have d: "x - a = of_nat (offset_in s x) - of_nat (offset_in s a)"
    using base_plus_offset [of s x] base_plus_offset [of s a] assms(1)
    by (metis add_diff_cancel_left)
  have lt: "(2 :: nat) ^ s < 2 ^ 64" using assms(2) by (rule power_strict_increasing) simp
  have ox: "offset_in s x < 2 ^ s" and oa: "offset_in s a < 2 ^ s" by (rule offset_in_less)+
  have up: "unat (x - a) = offset_in s x - offset_in s a" if "offset_in s a \<le> offset_in s x"
  proof -
    have "x - a = of_nat (offset_in s x - offset_in s a)" unfolding d using that by (simp add: of_nat_diff)
    moreover have "offset_in s x - offset_in s a < 2 ^ 64" using ox lt by linarith
    ultimately show ?thesis by (simp add: unat_of_nat)
  qed
  then show "offset_in s a \<le> offset_in s x \<Longrightarrow> unat (x - a) = offset_in s x - offset_in s a" .
  have down: "\<not> unat (x - a) < n" if "offset_in s x < offset_in s a"
  proof -
    have "x - a = of_nat (2 ^ 64 - (offset_in s a - offset_in s x))"
      unfolding d using that oa lt by (simp add: of_nat_diff)
    moreover have "(2 :: nat) ^ 64 - (offset_in s a - offset_in s x) < 2 ^ 64" using that by simp
    ultimately have "unat (x - a) = 2 ^ 64 - (offset_in s a - offset_in s x)" by (simp add: unat_of_nat)
    moreover have "n \<le> 2 ^ s - offset_in s a" using assms(3) by simp
    ultimately show ?thesis using oa lt by linarith
  qed
  show "in_span a n x \<longleftrightarrow> offset_in s a \<le> offset_in s x \<and> offset_in s x < offset_in s a + n"
    unfolding in_span_def using up down by (cases "offset_in s a \<le> offset_in s x") auto
qed

lemma in_span_base:
  assumes "in_span a n x" "s < 64" "offset_in s a + n \<le> 2 ^ s"
  shows "base_of s x = base_of s a"
proof -
  obtain i where "i < n" "x = a + of_nat i" using assms(1) by (auto elim: in_spanE)
  then show ?thesis using within_granule(1) [of s a i] assms(2,3) by simp
qed

lemma same_page_base: "same_page x y \<longleftrightarrow> base_of 12 x = base_of 12 y"
proof -
  have "base_of 12 x = push_bit 12 (drop_bit 12 x)" for x :: GuestAddr
    by (rule bit_word_eqI) (auto simp: base_of_def bit_simps)
  moreover have "drop_bit 12 (push_bit 12 (drop_bit 12 x)) = drop_bit 12 x" for x :: GuestAddr
    by (rule bit_word_eqI) (auto simp: bit_simps dest: bit_imp_le_length)
  ultimately show ?thesis unfolding same_page_def by metis
qed

lemma span_length_bounds:
  "0 < n \<Longrightarrow> 0 < span_length s a n" "span_length s a n \<le> n" "offset_in s a + span_length s a n \<le> 2 ^ s"
  using offset_in_less [of s a] by (auto simp: span_length_def)

section \<open>The addresses that the turns cover\<close>

definition addrs :: "GuestAddr \<Rightarrow> nat \<Rightarrow> GuestAddr list" where
  "addrs a n = map (\<lambda>i. a + of_nat i) [0..<n]"

lemma length_addrs [simp]: "length (addrs a n) = n"
  by (simp add: addrs_def)

lemma nth_addrs [simp]: "i < n \<Longrightarrow> addrs a n ! i = a + of_nat i"
  by (simp add: addrs_def)

lemma addrs_append: "addrs a (m + n) = addrs a m @ addrs (a + of_nat m) n"
  by (rule nth_equalityI) (auto simp: nth_append)

lemma set_addrs: "x \<in> set (addrs a n) \<longleftrightarrow> (\<exists>i < n. x = a + of_nat i)"
  by (auto simp: addrs_def)

text \<open>Reading a view over a list of addresses.\<close>

definition shows_bytes :: "(GuestAddr \<Rightarrow> u8 option) \<Rightarrow> GuestAddr list \<Rightarrow> u8 list \<Rightarrow> bool" where
  "shows_bytes v as bs \<longleftrightarrow> map Some bs = map v as"

lemma shows_bytes_append:
  "shows_bytes v as bs \<Longrightarrow> shows_bytes v as' bs' \<Longrightarrow> shows_bytes v (as @ as') (bs @ bs')"
  by (simp add: shows_bytes_def)

lemma shows_bytes_iff:
  "shows_bytes v (addrs a n) bs \<longleftrightarrow> length bs = n \<and> (\<forall>i < n. v (a + of_nat i) = Some (bs ! i))"
proof -
  have "shows_bytes v (addrs a n) bs \<longleftrightarrow> length bs = n \<and> (\<forall>i < n. Some (bs ! i) = v (a + of_nat i))"
    unfolding shows_bytes_def list_eq_iff_nth_eq by auto
  then show ?thesis by (auto simp: eq_commute)
qed

text \<open>The bytes of a granule under a write inside it, and under a write elsewhere.\<close>

lemma base_of_granule:
  assumes "base_of s b = b" "i < 2 ^ s" "s < 64"
  shows "base_of s (b + of_nat i) = b" "offset_in s (b + of_nat i) = i"
proof -
  have "offset_in s b = 0" using assms(1) by (simp add: offset_in_def)
  then show "base_of s (b + of_nat i) = b" "offset_in s (b + of_nat i) = i"
    using within_granule [of s b i] assms by simp_all
qed

lemma granule_patch:
  assumes sh: "shows_bytes v (addrs (base_of s a) (2 ^ s)) d" and s: "s < 64"
    and fit: "offset_in s a + length bs \<le> 2 ^ s"
  shows "shows_bytes (patch_view a bs v) (addrs (base_of s a) (2 ^ s)) (overlay (offset_in s a) bs d)"
proof -
  have len: "length d = 2 ^ s" and old: "v (base_of s a + of_nat i) = Some (d ! i)" if "i < 2 ^ s" for i
    using sh that by (simp_all add: shows_bytes_iff)
  have "patch_view a bs v (base_of s a + of_nat i) = Some (overlay (offset_in s a) bs d ! i)" if i: "i < 2 ^ s" for i
  proof -
    note x = base_of_granule [OF base_of_idem i s, of a]
    show ?thesis
      using in_span_same_base [OF x(1) s fit] old [OF i] i len [OF i] fit unfolding x(2)
      by (auto simp: patch_view_def nth_overlay)
  qed
  then show ?thesis using sh fit by (simp add: shows_bytes_iff)
qed

lemma granule_elsewhere:
  assumes sh: "shows_bytes v (addrs b (2 ^ s)) d" and s: "s < 64" and fit: "offset_in s a + length bs \<le> 2 ^ s"
    and b: "base_of s b = b" "b \<noteq> base_of s a"
  shows "shows_bytes (patch_view a bs v) (addrs b (2 ^ s)) d"
proof -
  have "\<not> in_span a (length bs) (b + of_nat i)" if i: "i < 2 ^ s" for i
    using in_span_base [OF _ s fit] base_of_granule(1) [OF b(1) i s] b(2) by metis
  then show ?thesis using sh by (simp add: shows_bytes_iff patch_view_def)
qed

section \<open>The reading loop\<close>

text \<open>
  If a turn inside a granule keeps \<open>P\<close> and returns the bytes of the view \<open>v\<close> when it succeeds, then so
  does the whole loop; if turns over mapped bytes succeed, so does the loop.
\<close>

lemma each_read_keeps:
  assumes "\<And>a k m s bs m'. P m \<Longrightarrow> f a k m = (s, bs, m') \<Longrightarrow> P m'"
  shows "P m \<Longrightarrow> each_read f sps m = (s, bs, m') \<Longrightarrow> P m'"
proof (induction sps arbitrary: m s bs m')
  case (Cons sp sps)
  obtain a k where sp: "sp = (a, k)" by fastforce
  obtain s1 bs1 m1 where 1: "f a k m = (s1, bs1, m1)" by (metis prod_cases3)
  then have "P m1" using assms Cons.prems(1) by blast
  then show ?case using Cons.prems(2) Cons.IH by (auto simp: sp 1 split: if_splits prod.splits)
qed simp

lemma each_read_shows:
  assumes "\<And>a k m s bs m'. P m \<Longrightarrow> f a k m = (s, bs, m') \<Longrightarrow> P m'"
    and "\<And>a k m bs m'. P m \<Longrightarrow> offset_in s a + k \<le> 2 ^ s \<Longrightarrow> 0 < k \<Longrightarrow> f a k m = (St_Ok, bs, m') \<Longrightarrow>
      shows_bytes v (addrs a k) bs"
  shows "P m \<Longrightarrow> each_read f (spans s a n) m = (St_Ok, bs, m') \<Longrightarrow> shows_bytes v (addrs a n) bs"
proof (induction n arbitrary: a m bs m' rule: less_induct)
  case (less n)
  show ?case
  proof (cases "n = 0")
    case True
    then show ?thesis using less.prems by (simp add: spans.simps [of _ _ 0] shows_bytes_def addrs_def)
  next
    case False
    define k where "k = span_length s a n"
    have k: "0 < k" "k \<le> n" "offset_in s a + k \<le> 2 ^ s"
      using span_length_bounds [where n = n and s = s and a = a] False by (simp_all add: k_def)
    have sp: "spans s a n = (a, k) # spans s (a + of_nat k) (n - k)"
      using False by (subst spans.simps) (simp add: k_def Let_def)
    obtain bs1 m1 bs2 where 1: "f a k m = (St_Ok, bs1, m1)"
        "each_read f (spans s (a + of_nat k) (n - k)) m1 = (St_Ok, bs2, m')" "bs = bs1 @ bs2"
      using less.prems(2) unfolding sp by (auto split: prod.splits if_splits)
    have "n - k < n" using k False by simp
    from less.IH [OF this assms(1) [OF less.prems(1) 1(1)] 1(2)] assms(2) [OF less.prems(1) k(3,1) 1(1)]
    show ?thesis using addrs_append [of a k "n - k"] k(2) by (simp add: 1(3) shows_bytes_append)
  qed
qed

lemma each_read_length:
  assumes "\<And>a k m s bs m'. P m \<Longrightarrow> f a k m = (s, bs, m') \<Longrightarrow> P m'"
    and "\<And>a k m r bs m'. P m \<Longrightarrow> offset_in s a + k \<le> 2 ^ s \<Longrightarrow> f a k m = (r, bs, m') \<Longrightarrow> length bs \<le> k"
  shows "P m \<Longrightarrow> each_read f (spans s a n) m = (r, bs, m') \<Longrightarrow> length bs \<le> n"
proof (induction n arbitrary: a m r bs m' rule: less_induct)
  case (less n)
  show ?case
  proof (cases "n = 0")
    case True
    then show ?thesis using less.prems by (simp add: spans.simps [of _ _ 0])
  next
    case False
    define k where "k = span_length s a n"
    have k: "0 < k" "k \<le> n" "offset_in s a + k \<le> 2 ^ s"
      using span_length_bounds [where n = n and s = s and a = a] False by (simp_all add: k_def)
    have sp: "spans s a n = (a, k) # spans s (a + of_nat k) (n - k)"
      using False by (subst spans.simps) (simp add: k_def Let_def)
    obtain r1 bs1 m1 where 1: "f a k m = (r1, bs1, m1)" by (metis prod_cases3)
    obtain r2 bs2 m2 where 2: "each_read f (spans s (a + of_nat k) (n - k)) m1 = (r2, bs2, m2)" by (metis prod_cases3)
    have "length bs1 \<le> k" by (rule assms(2) [OF less.prems(1) k(3) 1])
    moreover have "length bs2 \<le> n - k"
      using less.IH [OF _ assms(1) [OF less.prems(1) 1] 2] k False by simp
    ultimately show ?thesis using less.prems(2) k(2) by (auto simp: sp 1 2 split: if_splits)
  qed
qed

lemma each_read_total:
  assumes "\<And>a k m s bs m'. P m \<Longrightarrow> f a k m = (s, bs, m') \<Longrightarrow> P m'"
    and "\<And>a k m. P m \<Longrightarrow> offset_in s a + k \<le> 2 ^ s \<Longrightarrow> 0 < k \<Longrightarrow> (\<forall>x \<in> set (addrs a k). v x \<noteq> None) \<Longrightarrow>
      \<exists>bs m'. f a k m = (St_Ok, bs, m')"
  shows "P m \<Longrightarrow> (\<forall>x \<in> set (addrs a n). v x \<noteq> None) \<Longrightarrow> \<exists>bs m'. each_read f (spans s a n) m = (St_Ok, bs, m')"
proof (induction n arbitrary: a m rule: less_induct)
  case (less n)
  show ?case
  proof (cases "n = 0")
    case True
    then show ?thesis by (simp add: spans.simps)
  next
    case False
    define k where "k = span_length s a n"
    have k: "0 < k" "k \<le> n" "offset_in s a + k \<le> 2 ^ s"
      using span_length_bounds [where n = n and s = s and a = a] False by (simp_all add: k_def)
    have sp: "spans s a n = (a, k) # spans s (a + of_nat k) (n - k)"
      using False by (subst spans.simps) (simp add: k_def Let_def)
    have parts: "\<forall>x \<in> set (addrs a k). v x \<noteq> None" "\<forall>x \<in> set (addrs (a + of_nat k) (n - k)). v x \<noteq> None"
      using less.prems(2) addrs_append [of a k "n - k"] k(2) by auto
    from assms(2) [OF less.prems(1) k(3,1) parts(1)] obtain bs1 m1 where 1: "f a k m = (St_Ok, bs1, m1)" by blast
    have "n - k < n" using k False by simp
    from less.IH [OF this assms(1) [OF less.prems(1) 1] parts(2)] show ?thesis
      unfolding sp by (auto simp: 1)
  qed
qed

section \<open>The writing loop\<close>

lemma patch_view_append:
  assumes "length bs + length cs \<le> 2 ^ 64"
  shows "patch_view (a + of_nat (length bs)) cs (patch_view a bs v) = patch_view a (bs @ cs) v"
proof
  fix x
  define d where "d = unat (x - a)"
  have x: "x = a + of_nat d" by (simp add: d_def)
  have d: "d < 2 ^ 64" using unsigned_less [of "x - a", where ?'a = nat] by (simp add: d_def)
  have e: "x - (a + of_nat (length bs)) = of_nat d - of_nat (length bs)" unfolding x by simp
  show "patch_view (a + of_nat (length bs)) cs (patch_view a bs v) x = patch_view a (bs @ cs) v x"
  proof (cases "length bs \<le> d")
    case True
    then have "x - (a + of_nat (length bs)) = of_nat (d - length bs)" unfolding e by (simp add: of_nat_diff)
    then have "unat (x - (a + of_nat (length bs))) = d - length bs"
      using d by (simp add: unat_of_nat)
    then show ?thesis using True by (auto simp: patch_view_def in_span_def d_def [symmetric] nth_append)
  next
    case False
    then have "x - (a + of_nat (length bs)) = of_nat (2 ^ 64 - (length bs - d))"
      unfolding e using assms by (simp add: of_nat_diff)
    moreover have "2 ^ 64 - (length bs - d) < (2 :: nat) ^ 64" using False by simp
    ultimately have "unat (x - (a + of_nat (length bs))) = 2 ^ 64 - (length bs - d)"
      by (simp add: unat_of_nat)
    then have "\<not> in_span (a + of_nat (length bs)) (length cs) x"
      using assms False by (simp add: in_span_def)
    then show ?thesis using False by (simp add: patch_view_def in_span_def d_def [symmetric] nth_append)
  qed
qed

lemma each_write_patches:
  assumes "\<And>a bs m v. R m v \<Longrightarrow> bs \<noteq> [] \<Longrightarrow> offset_in s a + length bs \<le> 2 ^ s \<Longrightarrow> R (f a bs m) (patch_view a bs v)"
  shows "R m v \<Longrightarrow> length bs \<le> 2 ^ 64 \<Longrightarrow> R (each_write f (spans s a (length bs)) bs m) (patch_view a bs v)"
proof (induction "length bs" arbitrary: a bs m v rule: less_induct)
  case less
  show ?case
  proof (cases "bs = []")
    case True
    then show ?thesis using less.prems by (simp add: spans.simps)
  next
    case False
    define k where "k = span_length s a (length bs)"
    have k: "0 < k" "k \<le> length bs" "offset_in s a + k \<le> 2 ^ s"
      using span_length_bounds [where n = "length bs" and s = s and a = a] False by (simp_all add: k_def)
    have sp: "spans s a (length bs) = (a, k) # spans s (a + of_nat k) (length (drop k bs))"
      using False by (subst spans.simps) (simp add: k_def Let_def)
    have "R (f a (take k bs) m) (patch_view a (take k bs) v)"
      using k False by (intro assms less.prems) auto
    with less.hyps [of "drop k bs" "f a (take k bs) m" "patch_view a (take k bs) v" "a + of_nat k"] k less.prems(2)
    have "R (each_write f (spans s (a + of_nat k) (length (drop k bs))) (drop k bs) (f a (take k bs) m))
        (patch_view (a + of_nat k) (drop k bs) (patch_view a (take k bs) v))" by simp
    moreover have "patch_view (a + of_nat k) (drop k bs) (patch_view a (take k bs) v) = patch_view a bs v"
      using patch_view_append [of "take k bs" "drop k bs" a v] k(2) less.prems(2) by simp
    ultimately show ?thesis by (simp add: sp)
  qed
qed

end
