(* ===== verification/Fake_Provider.thy ===== *)
theory Fake_Provider
  imports Memory_Spans
begin

text \<open>
  The provider of the unit tests, \<open>FakeMemoryProvider\<close> of \<^verbatim>\<open>emu/memory.h\<close> and \<^verbatim>\<open>src/emu/memory/provider.cpp\<close>: a list
  of regions, sorted by base.  Ends of regions are sums modulo \<open>2 ^ 64\<close>, as in the code.
\<close>

section \<open>State and operations\<close>

record fake_region =
  fr_base :: GuestAddr
  fr_bytes :: "u8 list"

type_synonym fake_provider = "fake_region list"

definition region_end :: "fake_region \<Rightarrow> GuestAddr" where
  "region_end r = fr_base r + of_nat (length (fr_bytes r))"

definition ranges_overlap :: "GuestAddr \<Rightarrow> nat \<Rightarrow> GuestAddr \<Rightarrow> nat \<Rightarrow> bool" where
  "ranges_overlap a la b lb \<longleftrightarrow> \<not> (a + of_nat la \<le> b \<or> b + of_nat lb \<le> a)"

definition add_region :: "GuestAddr \<Rightarrow> u8 list \<Rightarrow> fake_provider \<Rightarrow> Status \<times> fake_provider" where
  "add_region base bytes rs =
     (if bytes = [] then (St_InvalidArgument, rs)
      else if list_ex (\<lambda>r. ranges_overlap base (length bytes) (fr_base r) (length (fr_bytes r))) rs
      then (St_InvalidArgument, rs)
      else (St_Ok, sort_key fr_base (rs @ [\<lparr>fr_base = base, fr_bytes = bytes\<rparr>])))"

definition holds_addr :: "GuestAddr \<Rightarrow> fake_region \<Rightarrow> bool" where
  "holds_addr cur r \<longleftrightarrow> fr_base r \<le> cur \<and> cur < region_end r"

definition fake_find :: "fake_provider \<Rightarrow> GuestAddr \<Rightarrow> fake_region option" where
  "fake_find rs cur = List.find (holds_addr cur) rs"

lemma holds_addr_offset:
  assumes "holds_addr cur r" "length (fr_bytes r) < 2 ^ 64"
  shows "unat (cur - fr_base r) < length (fr_bytes r)"
proof -
  have le: "fr_base r \<le> cur" and lt: "unat cur < unat (fr_base r + of_nat (length (fr_bytes r)))"
    using assms(1) by (simp_all add: holds_addr_def region_end_def word_less_nat_alt)
  have "unat (fr_base r + of_nat (length (fr_bytes r))) \<le> unat (fr_base r) + length (fr_bytes r)"
    using assms(2) by (simp add: unat_word_ariths unat_of_nat)
  then show ?thesis using le lt by (simp add: unat_sub word_le_nat_alt)
qed

text \<open>The copy loop.  A vector is shorter than \<open>2 ^ 64\<close> bytes, so every turn copies at least one byte.\<close>

function fake_loop :: "fake_provider \<Rightarrow> GuestAddr \<Rightarrow> nat \<Rightarrow> Status \<times> u8 list" where
  "fake_loop rs cur remaining =
     (if remaining = 0 then (St_Ok, [])
      else (case fake_find rs cur of
              None \<Rightarrow> (St_UnmappedRead, [])
            | Some r \<Rightarrow>
                (let off = unat (cur - fr_base r); n = min remaining (length (fr_bytes r) - off)
                 in if n = 0 then (St_UnmappedRead, [])
                    else (case fake_loop rs (cur + of_nat n) (remaining - n) of
                            (s, bs) \<Rightarrow> (s, take n (drop off (fr_bytes r)) @ bs)))))"
  by pat_completeness auto
termination
  by (relation "measure (\<lambda>(rs, cur, remaining). remaining)") auto

declare fake_loop.simps [simp del]

definition fake_read :: "GuestAddr \<Rightarrow> nat \<Rightarrow> fake_provider \<Rightarrow> Status \<times> u8 list \<times> fake_provider" where
  "fake_read addr n rs = (case fake_loop rs addr n of (s, bs) \<Rightarrow> (s, bs, rs))"

definition fake_is_mapped :: "fake_provider \<Rightarrow> GuestAddr \<Rightarrow> bool" where
  "fake_is_mapped rs addr = list_ex (holds_addr addr) rs"

section \<open>The contract\<close>

definition fake_view :: "fake_provider \<Rightarrow> GuestAddr \<Rightarrow> u8 option" where
  "fake_view rs x = map_option (\<lambda>r. fr_bytes r ! unat (x - fr_base r)) (fake_find rs x)"

definition fake_ok :: "fake_provider \<Rightarrow> bool" where
  "fake_ok rs \<longleftrightarrow> (\<forall>r \<in> set rs. fr_bytes r \<noteq> [] \<and> length (fr_bytes r) < 2 ^ 64) \<and>
     (\<forall>r \<in> set rs. \<forall>q \<in> set rs. r \<noteq> q \<longrightarrow>
        \<not> ranges_overlap (fr_base r) (length (fr_bytes r)) (fr_base q) (length (fr_bytes q)))"

lemma shared_addr_overlaps:
  assumes "holds_addr x r" "holds_addr x q"
  shows "ranges_overlap (fr_base r) (length (fr_bytes r)) (fr_base q) (length (fr_bytes q))"
proof -
  have "fr_base q < region_end r" "fr_base r < region_end q"
    using assms le_less_trans by (auto simp: holds_addr_def)
  then show ?thesis by (simp add: ranges_overlap_def region_end_def not_le)
qed

lemma fake_find_unique:
  assumes "fake_ok rs" "r \<in> set rs" "holds_addr x r"
  shows "fake_find rs x = Some r"
proof -
  obtain q where q: "fake_find rs x = Some q"
    using assms(2,3) by (cases "fake_find rs x") (auto simp: fake_find_def find_None_iff)
  then have h: "q \<in> set rs" "holds_addr x q" by (auto simp: fake_find_def find_Some_iff)
  have "r \<noteq> q \<longrightarrow> \<not> ranges_overlap (fr_base r) (length (fr_bytes r)) (fr_base q) (length (fr_bytes q))"
    using assms(1,2) h(1) by (simp add: fake_ok_def)
  then show ?thesis using q shared_addr_overlaps [OF assms(3) h(2)] by auto
qed

text \<open>A region that holds an address does not wrap, and holds all its bytes.\<close>

lemma holds_addr_nat:
  assumes "length (fr_bytes r) < 2 ^ 64"
  shows "holds_addr x r \<longleftrightarrow> unat (fr_base r) + length (fr_bytes r) < 2 ^ 64 \<and> unat (fr_base r) \<le> unat x \<and>
    unat x < unat (fr_base r) + length (fr_bytes r)"
proof (cases "unat (fr_base r) + length (fr_bytes r) < 2 ^ 64")
  case True
  then have "unat (region_end r) = unat (fr_base r) + length (fr_bytes r)"
    using assms by (simp add: region_end_def unat_word_ariths unat_of_nat)
  then show ?thesis using True by (simp add: holds_addr_def word_less_nat_alt word_le_nat_alt)
next
  case False
  then have "unat (region_end r) = unat (fr_base r) + length (fr_bytes r) - 2 ^ 64"
    using assms unsigned_less [of "fr_base r", where ?'a = nat]
    by (simp add: region_end_def unat_word_ariths unat_of_nat mod_if)
  then have "unat (region_end r) < unat (fr_base r)" using False assms by linarith
  then show ?thesis using False by (auto simp: holds_addr_def word_less_nat_alt word_le_nat_alt)
qed

lemma region_bytes:
  assumes "fake_ok rs" "fake_find rs a = Some r" "i < length (fr_bytes r) - unat (a - fr_base r)"
  shows "fake_view rs (a + of_nat i) = Some (fr_bytes r ! (unat (a - fr_base r) + i))"
proof -
  have r: "r \<in> set rs" "holds_addr a r" using assms(2) by (auto simp: fake_find_def find_Some_iff)
  then have len: "length (fr_bytes r) < 2 ^ 64" using assms(1) by (simp add: fake_ok_def)
  note h = r(2) [unfolded holds_addr_nat [OF len]]
  have off: "unat (a - fr_base r) = unat a - unat (fr_base r)" using h by (simp add: unat_sub word_le_nat_alt)
  then have "unat a + i < 2 ^ 64" using h assms(3) by linarith
  then have ai: "unat (a + of_nat i) = unat a + i" by (simp add: unat_word_ariths unat_of_nat)
  then have hi: "holds_addr (a + of_nat i) r" using h assms(3) off by (simp add: holds_addr_nat [OF len])
  have "unat (a + of_nat i - fr_base r) = unat a + i - unat (fr_base r)"
    using ai h by (simp add: unat_sub word_le_nat_alt)
  then show ?thesis using fake_find_unique [OF assms(1) r(1) hi] off h by (simp add: fake_view_def)
qed

lemma fake_loop_Some:
  assumes "n \<noteq> 0" "fake_find rs a = Some r" "off = unat (a - fr_base r)" "k = min n (length (fr_bytes r) - off)" "k \<noteq> 0"
  shows "fake_loop rs a n =
    (case fake_loop rs (a + of_nat k) (n - k) of (s, bs) \<Rightarrow> (s, take k (drop off (fr_bytes r)) @ bs))"
  using assms(1,2,5) unfolding fake_loop.simps [of rs a n] Let_def assms(3) [symmetric] assms(4) [symmetric]
  by (simp add: assms(3,4) [symmetric])

lemma fake_loop_view:
  assumes "fake_ok rs" "fake_loop rs a n = (s, bs)"
  shows "length bs \<le> n \<and> (\<forall>i < length bs. fake_view rs (a + of_nat i) = Some (bs ! i)) \<and> (s = St_Ok \<longrightarrow> length bs = n)"
  using assms
proof (induction rs a n arbitrary: s bs rule: fake_loop.induct)
  case (1 rs a n)
  show ?case
  proof (cases "n = 0 \<or> fake_find rs a = None")
    case True
    then show ?thesis using 1(3) by (subst (asm) fake_loop.simps) (auto split: if_splits)
  next
    case False
    then obtain r where n: "n \<noteq> 0" and r: "fake_find rs a = Some r" by auto
    define off where "off = unat (a - fr_base r)"
    define k where "k = min n (length (fr_bytes r) - off)"
    have len: "length (fr_bytes r) < 2 ^ 64" "holds_addr a r"
      using r 1(2) by (auto simp: fake_find_def find_Some_iff fake_ok_def)
    then have offl: "off < length (fr_bytes r)" using holds_addr_offset by (simp add: off_def)
    then have k: "k \<noteq> 0" using n by (simp add: k_def)
    obtain t cs where t: "fake_loop rs (a + of_nat k) (n - k) = (t, cs)" by fastforce
    have eq: "s = t" "bs = take k (drop off (fr_bytes r)) @ cs"
      using 1(3) t unfolding fake_loop_Some [OF n r off_def k_def k] by simp_all
    have ih: "length cs \<le> n - k \<and> (\<forall>i < length cs. fake_view rs (a + of_nat k + of_nat i) = Some (cs ! i)) \<and> (t = St_Ok \<longrightarrow> length cs = n - k)"
      using 1(1) [OF n r off_def k_def k 1(2) t] by simp
    have l: "length bs = k + length cs" by (simp add: eq k_def)
    have "fake_view rs (a + of_nat i) = Some (bs ! i)" if i: "i < length bs" for i
    proof (cases "i < k")
      case True
      then show ?thesis
        using region_bytes [OF 1(2) r, of i] offl by (simp add: eq nth_append k_def) (simp add: off_def)
    next
      case False
      then have "i - k < length cs" using i l by linarith
      then have "fake_view rs (a + of_nat k + of_nat (i - k)) = Some (cs ! (i - k))" using ih by blast
      moreover have "a + of_nat k + of_nat (i - k) = a + of_nat i"
        using False unfolding add.assoc of_nat_add [symmetric] by simp
      moreover have "bs ! i = cs ! (i - k)" using False l i by (simp add: eq nth_append)
      ultimately show ?thesis by simp
    qed
    moreover have "k \<le> n" by (simp add: k_def)
    ultimately show ?thesis using ih l eq(1) by auto
  qed
qed


lemma fake_loop_total:
  assumes "\<forall>i < n. fake_view rs (a + of_nat i) \<noteq> None" "fake_ok rs"
  shows "fst (fake_loop rs a n) = St_Ok"
  using assms
proof (induction rs a n rule: fake_loop.induct)
  case (1 rs a n)
  show ?case
  proof (cases "n = 0")
    case True
    then show ?thesis by (subst fake_loop.simps) simp
  next
    case False
    then have "fake_view rs a \<noteq> None" using 1(2) [rule_format, of 0] by simp
    then obtain r where r: "fake_find rs a = Some r" by (auto simp: fake_view_def)
    define off where "off = unat (a - fr_base r)"
    define k where "k = min n (length (fr_bytes r) - off)"
    have "length (fr_bytes r) < 2 ^ 64" "holds_addr a r"
      using r 1(3) by (auto simp: fake_find_def find_Some_iff fake_ok_def)
    then have k: "k \<noteq> 0" using holds_addr_offset False by (simp add: k_def off_def)
    have m: "\<forall>i < n - k. fake_view rs (a + of_nat k + of_nat i) \<noteq> None"
    proof (intro allI impI)
      fix i assume "i < n - k"
      then have "fake_view rs (a + of_nat (k + i)) \<noteq> None" using 1(2) [rule_format, of "k + i"] by simp
      then show "fake_view rs (a + of_nat k + of_nat i) \<noteq> None" unfolding of_nat_add add.assoc .
    qed
    have "fst (fake_loop rs a n) = fst (fake_loop rs (a + of_nat k) (n - k))"
      unfolding fake_loop_Some [OF False r off_def k_def k] by (simp add: split_beta)
    then show ?thesis using 1(1) [OF False r off_def k_def k m 1(3)] by simp
  qed
qed

interpretation fake: memory fake_read default_write fake_view fake_ok
proof
  fix m m' :: fake_provider and a :: GuestAddr and n s and bs :: "u8 list"
  assume ok: "fake_ok m"
  show "fake_ok m' \<and> fake_view m' = fake_view m" if "fake_read a n m = (s, bs, m')"
    using that ok by (simp add: fake_read_def split: prod.splits)
  show "length bs \<le> n" if "fake_read a n m = (s, bs, m')"
    using that fake_loop_view [OF ok, of a n] by (auto simp: fake_read_def split: prod.splits)
  show "length bs = n \<and> (\<forall>i < n. fake_view m (a + of_nat i) = Some (bs ! i))" if "fake_read a n m = (St_Ok, bs, m')"
    using that fake_loop_view [OF ok, of a n] by (auto simp: fake_read_def split: prod.splits)
qed (simp_all add: default_write_def)

lemma fake_ok_add:
  assumes "fake_ok rs" "add_region base bytes rs = (St_Ok, rs')" "length bytes < 2 ^ 64"
  shows "fake_ok rs'" "set rs' = insert \<lparr>fr_base = base, fr_bytes = bytes\<rparr> (set rs)" "bytes \<noteq> []"
proof -
  let ?r = "\<lparr>fr_base = base, fr_bytes = bytes\<rparr>"
  show ne: "bytes \<noteq> []" using assms(2) by (auto simp: add_region_def split: if_splits)
  have apart: "\<forall>q \<in> set rs. \<not> ranges_overlap base (length bytes) (fr_base q) (length (fr_bytes q))"
    using assms(2) by (auto simp: add_region_def list_ex_iff split: if_splits)
  have sym: "ranges_overlap a la b lb \<longleftrightarrow> ranges_overlap b lb a la" for a la b lb by (auto simp: ranges_overlap_def)
  show rs': "set rs' = insert ?r (set rs)" using assms(2) by (auto simp: add_region_def split: if_splits)
  show "fake_ok rs'"
    unfolding fake_ok_def
  proof (intro conjI ballI impI)
    fix q assume "q \<in> set rs'"
    then show "fr_bytes q \<noteq> []" "length (fr_bytes q) < 2 ^ 64" using rs' ne assms(1,3) by (auto simp: fake_ok_def)
  next
    fix q t assume qt: "q \<in> set rs'" "t \<in> set rs'" "q \<noteq> t"
    consider "q = ?r" "t \<in> set rs" | "t = ?r" "q \<in> set rs" | "q \<in> set rs" "t \<in> set rs" using qt rs' by auto
    then show "\<not> ranges_overlap (fr_base q) (length (fr_bytes q)) (fr_base t) (length (fr_bytes t))"
    proof cases
      case 1 then show ?thesis using apart by simp
    next
      case 2 then show ?thesis using apart sym by simp
    next
      case 3 then show ?thesis using assms(1) qt(3) by (simp add: fake_ok_def)
    qed
  qed
qed

text \<open>A region that was added is read back as it was given, also across neighbouring regions' ends, and
  adding it does not disturb what other regions hold; a region that ends at or beyond \<open>2 ^ 64\<close> is accepted
  but none of its bytes can ever be read.\<close>

theorem fake_add_read:
  assumes "fake_ok rs" "add_region base bytes rs = (St_Ok, rs')" "length bytes < 2 ^ 64"
  shows "(unat base + length bytes < 2 ^ 64 \<longrightarrow> fake_read base (length bytes) rs' = (St_Ok, bytes, rs')) \<and>
    (\<forall>x b. fake_view rs x = Some b \<longrightarrow> fake_view rs' x = Some b) \<and>
    (2 ^ 64 \<le> unat base + length bytes \<longrightarrow> fake_view rs' = fake_view rs)"
proof (intro conjI allI impI)
  let ?r = "\<lparr>fr_base = base, fr_bytes = bytes\<rparr>"
  note add = fake_ok_add [OF assms]
  have old: "fake_find rs' x = Some r" if "fake_find rs x = Some r" for x r
    using that add(2) by (intro fake_find_unique [OF add(1)]) (auto simp: fake_find_def find_Some_iff)
  then show "fake_view rs' x = Some b" if "fake_view rs x = Some b" for x b using that by (auto simp: fake_view_def)
  show "fake_read base (length bytes) rs' = (St_Ok, bytes, rs')" if fit: "unat base + length bytes < 2 ^ 64"
  proof -
    have "holds_addr base ?r" using assms(3) add(3) fit by (simp add: holds_addr_nat)
    then have f: "fake_find rs' base = Some ?r" by (intro fake_find_unique [OF add(1)]) (simp_all add: add(2))
    have v: "fake_view rs' (base + of_nat i) = Some (bytes ! i)" if "i < length bytes" for i
      using region_bytes [OF add(1) f, of i] that by simp
    obtain s bs where l: "fake_loop rs' base (length bytes) = (s, bs)" by fastforce
    then have "s = St_Ok" using fake_loop_total [OF _ add(1), of "length bytes" base] v by simp
    then show ?thesis
      using fake_loop_view [OF add(1) l] v l by (simp add: fake_read_def list_eq_iff_nth_eq)
  qed
  show "fake_view rs' = fake_view rs" if wrap: "2 ^ 64 \<le> unat base + length bytes"
  proof
    fix x
    have "\<not> holds_addr x ?r" using wrap assms(3) by (simp add: holds_addr_nat)
    then have "fake_find rs' x = None" if "fake_find rs x = None"
      using that add(2) by (auto simp: fake_find_def find_None_iff)
    then show "fake_view rs' x = fake_view rs x" using old by (cases "fake_find rs x") (simp_all add: fake_view_def)
  qed
qed

theorem fake_add_read_witness: "fake_read 0x1000 3 (snd (add_region 0x1000 [7, 8, 9] [])) = (St_Ok, [7, 8, 9], snd (add_region 0x1000 [7, 8, 9] []))"
proof -
  have l: "length [7, 8, 9 :: u8] = 3" by simp
  have ok: "fake_ok []" by (simp add: fake_ok_def)
  have a: "add_region 0x1000 [7, 8, 9] [] = (St_Ok, snd (add_region 0x1000 [7, 8, 9] []))" by (simp add: add_region_def)
  show ?thesis using fake_add_read [OF ok a] unfolding l by simp
qed

end
