(* ===== verification/Shadow_Pages.thy ===== *)
theory Shadow_Pages
  imports Memory_Spans
begin

text \<open>
  The copy-on-write memory of \<^verbatim>\<open>emu/shadow_pages.h\<close> and \<^verbatim>\<open>src/emu/memory/shadow_pages.cpp\<close>.  The backing
  provider (in the program: reads of another process) is a parameter, a field of the state; the
  reads of a backing do not change it.  The write listener is a callback that invalidates decoded
  blocks: its calls are recorded in order in \<open>sp_notified\<close>, and the block cache replays them.
\<close>

section \<open>State\<close>

record backing =
  bk_read :: "GuestAddr \<Rightarrow> nat \<Rightarrow> Status \<times> u8 list"
  bk_mapped :: "GuestAddr \<Rightarrow> bool"

record shadow =
  sp_backing :: "backing option"
  sp_pages :: "GuestAddr \<Rightarrow> u8 list option"
  sp_private :: "(GuestAddr \<times> u64) list"
  sp_code :: "(GuestAddr \<times> u64) list"
  sp_prot :: "(GuestAddr \<times> u64 \<times> u8) list"
  sp_listener :: bool
  sp_notified :: "(GuestAddr \<times> nat) list"

definition new_shadow :: "backing option \<Rightarrow> shadow" where
  "new_shadow b = \<lparr>sp_backing = b, sp_pages = (\<lambda>_. None), sp_private = [], sp_code = [], sp_prot = [],
     sp_listener = False, sp_notified = []\<rparr>"

abbreviation (input) PROT_R :: u8 where "PROT_R \<equiv> 1"
abbreviation (input) PROT_W :: u8 where "PROT_W \<equiv> 2"
abbreviation (input) PROT_X :: u8 where "PROT_X \<equiv> 4"

section \<open>Configuration\<close>

definition add_private_region :: "GuestAddr \<Rightarrow> u64 \<Rightarrow> shadow \<Rightarrow> shadow" where
  "add_private_region base len m = m\<lparr>sp_private := sp_private m @ [(base, len)]\<rparr>"

definition add_code_range :: "GuestAddr \<Rightarrow> u64 \<Rightarrow> shadow \<Rightarrow> shadow" where
  "add_code_range base len m = m\<lparr>sp_code := sp_code m @ [(base, len)]\<rparr>"

definition protect :: "GuestAddr \<Rightarrow> u64 \<Rightarrow> u8 \<Rightarrow> shadow \<Rightarrow> shadow" where
  "protect base len prot m = m\<lparr>sp_prot := sp_prot m @ [(base, len, prot)]\<rparr>"

definition set_write_listener :: "bool \<Rightarrow> shadow \<Rightarrow> shadow" where
  "set_write_listener on m = m\<lparr>sp_listener := on\<rparr>"

definition range_is_private :: "shadow \<Rightarrow> GuestAddr \<Rightarrow> u64 \<Rightarrow> bool" where
  "range_is_private m addr len = list_ex (\<lambda>(b, sz). b \<le> addr \<and> addr + len \<le> b + sz) (sp_private m)"

text \<open>The most recent matching range wins.\<close>

definition perm_of :: "shadow \<Rightarrow> GuestAddr \<Rightarrow> u8" where
  "perm_of m addr =
     (case List.find (\<lambda>(b, sz, p). b \<le> addr \<and> addr < b + sz) (rev (sp_prot m)) of
        Some (b, sz, p) \<Rightarrow> p
      | None \<Rightarrow> if range_is_private m addr 1 then PROT_R OR PROT_W else PROT_R)"

section \<open>Accesses\<close>

definition shadow_read_turn :: "GuestAddr \<Rightarrow> nat \<Rightarrow> shadow \<Rightarrow> Status \<times> u8 list \<times> shadow" where
  "shadow_read_turn cur n m =
     (let page_addr = base_of 12 cur; page_off = offset_in 12 cur
      in case sp_pages m page_addr of
           Some d \<Rightarrow> (St_Ok, take n (drop page_off d), m)
         | None \<Rightarrow>
             if range_is_private m page_addr 4096 then (St_Ok, replicate n 0, m)
             else (case sp_backing m of
                     Some b \<Rightarrow> (case bk_read b cur n of (s, bs) \<Rightarrow> (s, bs, m))
                   | None \<Rightarrow> (St_UnmappedRead, [], m)))"

definition shadow_read :: "GuestAddr \<Rightarrow> nat \<Rightarrow> shadow \<Rightarrow> Status \<times> u8 list \<times> shadow" where
  "shadow_read addr len m = each_read shadow_read_turn (spans 12 addr len) m"

text \<open>A new page holds the bytes that the backing stored, also when its read fails, over zeros.\<close>

definition get_or_make_page :: "GuestAddr \<Rightarrow> shadow \<Rightarrow> u8 list \<times> shadow" where
  "get_or_make_page page_addr m =
     (case sp_pages m page_addr of
        Some d \<Rightarrow> (d, m)
      | None \<Rightarrow>
          (let zero = replicate 4096 0;
               d = (if range_is_private m page_addr 4096 then zero
                    else (case sp_backing m of
                            None \<Rightarrow> zero
                          | Some b \<Rightarrow> overlay 0 (snd (bk_read b page_addr 4096)) zero))
           in (d, m\<lparr>sp_pages := (sp_pages m)(page_addr \<mapsto> d)\<rparr>)))"

definition shadow_write_turn :: "GuestAddr \<Rightarrow> u8 list \<Rightarrow> shadow \<Rightarrow> shadow" where
  "shadow_write_turn cur src m =
     (let page_addr = base_of 12 cur
      in case get_or_make_page page_addr m of
           (d, m) \<Rightarrow> m\<lparr>sp_pages := (sp_pages m)(page_addr \<mapsto> overlay (offset_in 12 cur) src d)\<rparr>)"

text \<open>The check runs over \<open>cur < addr + len\<close>, so not at all when that sum wraps.\<close>

definition write_allowed :: "shadow \<Rightarrow> GuestAddr \<Rightarrow> nat \<Rightarrow> bool" where
  "write_allowed m addr len =
     (sp_prot m = [] \<or> \<not> addr < addr + of_nat len \<or>
      list_all (\<lambda>i. perm_of m (addr + of_nat i) AND PROT_W \<noteq> 0) [0..<len])"

definition overlaps_code :: "shadow \<Rightarrow> GuestAddr \<Rightarrow> nat \<Rightarrow> bool" where
  "overlaps_code m addr len =
     list_ex (\<lambda>(b, sz). addr < b + sz \<and> b < addr + of_nat len) (sp_code m)"

definition shadow_write :: "GuestAddr \<Rightarrow> u8 list \<Rightarrow> shadow \<Rightarrow> Status \<times> shadow" where
  "shadow_write addr src m =
     (if src = [] then (St_Ok, m)
      else if \<not> write_allowed m addr (length src) then (St_ProtectionViolation, m)
      else
        (let m = each_write shadow_write_turn (spans 12 addr (length src)) src m
         in (St_Ok, if sp_listener m \<and> overlaps_code m addr (length src)
                    then m\<lparr>sp_notified := sp_notified m @ [(addr, length src)]\<rparr> else m)))"

definition shadow_is_mapped :: "shadow \<Rightarrow> GuestAddr \<Rightarrow> bool" where
  "shadow_is_mapped m addr =
     (sp_pages m (base_of 12 addr) \<noteq> None \<or> range_is_private m addr 1 \<or>
      (case sp_backing m of None \<Rightarrow> False | Some b \<Rightarrow> bk_mapped b addr))"

section \<open>What the memory holds\<close>

definition bk_view :: "backing \<Rightarrow> GuestAddr \<Rightarrow> u8 option" where
  "bk_view b x = (case bk_read b x 1 of (s, bs) \<Rightarrow> if s = St_Ok \<and> length bs = 1 then Some (hd bs) else None)"

text \<open>
  The documented behaviour of reading another process's memory: a read succeeds and returns the
  bytes exactly when every byte of the range is mapped, mappings are whole pages, and no more than
  the requested bytes are stored.
\<close>

definition backing_ok :: "backing \<Rightarrow> bool" where
  "backing_ok b \<longleftrightarrow>
     (\<forall>a n bs. bk_read b a n = (St_Ok, bs) \<longrightarrow> shows_bytes (bk_view b) (addrs a n) bs) \<and>
     (\<forall>a n. (\<forall>x \<in> set (addrs a n). bk_view b x \<noteq> None) \<longrightarrow> fst (bk_read b a n) = St_Ok) \<and>
     (\<forall>x y. same_page x y \<longrightarrow> bk_view b x \<noteq> None \<longrightarrow> bk_view b y \<noteq> None) \<and>
     (\<forall>a n. length (snd (bk_read b a n)) \<le> n)"

definition shadow_view :: "shadow \<Rightarrow> GuestAddr \<Rightarrow> u8 option" where
  "shadow_view m x =
     (case sp_pages m (base_of 12 x) of
        Some d \<Rightarrow> Some (d ! offset_in 12 x)
      | None \<Rightarrow>
          if range_is_private m (base_of 12 x) 4096 then Some 0
          else (case sp_backing m of None \<Rightarrow> None | Some b \<Rightarrow> bk_view b x))"

definition shadow_inv :: "shadow \<Rightarrow> bool" where
  "shadow_inv m \<longleftrightarrow>
     (\<forall>p d. sp_pages m p = Some d \<longrightarrow> length d = 4096) \<and>
     (\<forall>b. sp_backing m = Some b \<longrightarrow> backing_ok b)"

section \<open>Reads\<close>

lemma shadow_read_turn_state: "shadow_read_turn a n m = (s, bs, m') \<Longrightarrow> m' = m"
  by (auto simp: shadow_read_turn_def Let_def split: option.splits if_splits prod.splits)

lemma page_bytes:
  assumes "offset_in 12 a + i < 4096"
  shows "base_of 12 (a + of_nat i) = base_of 12 a" "offset_in 12 (a + of_nat i) = offset_in 12 a + i"
  using within_granule [of 12 a i] assms by simp_all

lemma shadow_read_turn_shows:
  assumes inv: "shadow_inv m" and fit: "offset_in 12 a + n \<le> 4096"
    and rd: "shadow_read_turn a n m = (St_Ok, bs, m')"
  shows "shows_bytes (shadow_view m) (addrs a n) bs"
proof -
  have in_page: "base_of 12 (a + of_nat i) = base_of 12 a" "offset_in 12 (a + of_nat i) = offset_in 12 a + i"
    if "i < n" for i
    using page_bytes [of a i] fit that by simp_all
  show ?thesis
  proof (cases "sp_pages m (base_of 12 a)")
    case (Some d)
    then have "length d = 4096" "bs = take n (drop (offset_in 12 a) d)"
      using inv rd by (auto simp: shadow_inv_def shadow_read_turn_def Let_def)
    then show ?thesis
      using fit Some by (simp add: shows_bytes_iff shadow_view_def in_page)
  next
    case None
    show ?thesis
    proof (cases "range_is_private m (base_of 12 a) 4096")
      case True
      then show ?thesis
        using None rd by (auto simp: shows_bytes_iff shadow_view_def in_page shadow_read_turn_def Let_def)
    next
      case False
      then obtain b where b: "sp_backing m = Some b" "bk_read b a n = (St_Ok, bs)"
        using None rd by (auto simp: shadow_read_turn_def Let_def split: option.splits prod.splits)
      then have "shows_bytes (bk_view b) (addrs a n) bs"
        using inv by (simp add: shadow_inv_def backing_ok_def)
      then show ?thesis using None False b(1) by (simp add: shows_bytes_iff shadow_view_def in_page)
    qed
  qed
qed

lemma shadow_read_turn_total:
  assumes inv: "shadow_inv m" and fit: "offset_in 12 a + n \<le> 4096" "0 < n"
    and mapped: "\<forall>x \<in> set (addrs a n). shadow_view m x \<noteq> None"
  shows "\<exists>bs. shadow_read_turn a n m = (St_Ok, bs, m)"
proof (cases "sp_pages m (base_of 12 a) = None \<and> \<not> range_is_private m (base_of 12 a) 4096")
  case True
  have in_page: "base_of 12 x = base_of 12 a" if "x \<in> set (addrs a n)" for x
    using that page_bytes(1) [of a] fit by (auto simp: set_addrs)
  have "a \<in> set (addrs a n)" using fit(2) by (auto simp: set_addrs intro: exI [of _ 0])
  then obtain b where b: "sp_backing m = Some b"
    using mapped True by (auto simp: shadow_view_def split: option.splits)
  then have "\<forall>x \<in> set (addrs a n). bk_view b x \<noteq> None"
    using mapped True in_page by (auto simp: shadow_view_def)
  then have "fst (bk_read b a n) = St_Ok" using inv b by (simp add: shadow_inv_def backing_ok_def)
  then show ?thesis using True b by (cases "bk_read b a n") (simp add: shadow_read_turn_def Let_def)
next
  case False
  then show ?thesis by (auto simp: shadow_read_turn_def Let_def split: option.splits)
qed

lemma shadow_read_turn_length:
  assumes "shadow_inv m" "offset_in 12 a + n \<le> 4096" "shadow_read_turn a n m = (s, bs, m')"
  shows "length bs \<le> n"
proof -
  have "length (snd (bk_read b a n)) \<le> n" if "sp_backing m = Some b" for b
    using assms(1) that by (simp add: shadow_inv_def backing_ok_def)
  then show ?thesis
    using assms(3) by (auto simp: shadow_read_turn_def Let_def split: option.splits if_splits prod.splits)
qed

lemma shadow_read_state: "shadow_read a n m = (s, bs, m') \<Longrightarrow> m' = m"
  unfolding shadow_read_def
  by (rule each_read_keeps [where P = "\<lambda>x. x = m", rotated 2]) (auto dest: shadow_read_turn_state)

section \<open>Writes\<close>

text \<open>The page that a write starts from holds what the memory showed.\<close>

lemma get_or_make_page_shows:
  assumes inv: "shadow_inv m" and p: "base_of 12 p = p" and new: "get_or_make_page p m = (d, m')"
  shows "length d = 4096" "shadow_inv m'" "sp_pages m' = (sp_pages m)(p \<mapsto> d)" "sp_backing m' = sp_backing m"
    "sp_private m' = sp_private m" "sp_listener m' = sp_listener m" "sp_code m' = sp_code m"
    "sp_notified m' = sp_notified m" "sp_prot m' = sp_prot m"
    "base_of 12 x = p \<Longrightarrow> shadow_view m x = Some y \<Longrightarrow> d ! offset_in 12 x = y"
proof -
  define zero where "zero = (replicate 4096 0 :: u8 list)"
  have zero: "length zero = 4096" "k < 4096 \<Longrightarrow> zero ! k = 0" for k
    unfolding zero_def by (simp_all only: length_replicate nth_replicate)
  define fill where "fill = (if range_is_private m p 4096 then zero else (case sp_backing m of None \<Rightarrow> zero
          | Some b \<Rightarrow> overlay 0 (snd (bk_read b p 4096)) zero))"
  have gm: "get_or_make_page p m =
      (case sp_pages m p of Some d \<Rightarrow> (d, m) | None \<Rightarrow> (fill, m\<lparr>sp_pages := (sp_pages m)(p \<mapsto> fill)\<rparr>))"
    unfolding get_or_make_page_def Let_def fill_def zero_def ..
  consider (old) "sp_pages m p = Some d" "m' = m"
    | (fresh) "sp_pages m p = None" "m' = m\<lparr>sp_pages := (sp_pages m)(p \<mapsto> d)\<rparr>" "d = fill"
  proof (cases "sp_pages m p")
    case None
    have "(d, m') = (fill, m\<lparr>sp_pages := (sp_pages m)(p \<mapsto> fill)\<rparr>)"
      unfolding new [symmetric] gm None by simp
    then have "d = fill" "m' = m\<lparr>sp_pages := (sp_pages m)(p \<mapsto> fill)\<rparr>" unfolding prod.inject by blast+
    then show ?thesis using fresh None by blast
  next
    case (Some e)
    then have "d = e" "m' = m" using new gm by simp_all
    then show ?thesis using old Some by blast
  qed
  note cases = this
  show len: "length d = 4096"
    using cases
  proof cases
    case old
    then show ?thesis using inv by (simp add: shadow_inv_def)
  next
    case fresh
    have "length (snd (bk_read b p 4096)) \<le> 4096" if "sp_backing m = Some b" for b
      using inv that by (simp add: shadow_inv_def backing_ok_def)
    then show ?thesis using fresh(3) zero(1) unfolding fill_def by (auto split: option.splits)
  qed
  show m': "sp_pages m' = (sp_pages m)(p \<mapsto> d)" "sp_backing m' = sp_backing m"
    "sp_private m' = sp_private m" "sp_listener m' = sp_listener m" "sp_code m' = sp_code m"
    "sp_notified m' = sp_notified m" "sp_prot m' = sp_prot m"
    using cases by (cases; auto)+
  show "shadow_inv m'"
    using inv len by (simp add: shadow_inv_def m')
  assume x: "base_of 12 x = p" "shadow_view m x = Some y"
  show "d ! offset_in 12 x = y"
    using cases
  proof cases
    case old
    then show ?thesis using x by (simp add: shadow_view_def)
  next
    case fresh
    have ox: "offset_in 12 x < 4096" using offset_in_less [of 12 x] by simp
    show ?thesis
    proof (cases "range_is_private m p 4096")
      case True
      then show ?thesis using fresh x ox zero(2) by (simp add: shadow_view_def fill_def)
    next
      case False
      then obtain b where b: "sp_backing m = Some b" "bk_view b x = Some y"
        using fresh x by (auto simp: shadow_view_def split: option.splits)
      have bk: "backing_ok b" using inv b by (simp add: shadow_inv_def)
      have "bk_view b z \<noteq> None" if "z \<in> set (addrs p 4096)" for z
      proof -
        from that obtain i where i: "i < 4096" "z = p + of_nat i" by (auto simp: set_addrs)
        have "offset_in 12 p = 0" using p by (simp add: offset_in_def)
        then have "base_of 12 z = p" using page_bytes(1) [of p i] i p by simp
        then have "same_page x z" using x by (simp add: same_page_base)
        then show ?thesis using bk b(2) by (auto simp: backing_ok_def)
      qed
      then have "fst (bk_read b p 4096) = St_Ok" using bk unfolding backing_ok_def by blast
      then obtain bs where bs: "bk_read b p 4096 = (St_Ok, bs)" by (metis prod.collapse)
      then have sb: "shows_bytes (bk_view b) (addrs p 4096) bs" using bk by (simp add: backing_ok_def)
      then have lb: "length bs = 4096" by (simp add: shows_bytes_iff)
      then have "d = bs" using fresh(3) False b(1) bs zero(1) by (simp add: overlay_def fill_def)
      moreover have "x = p + of_nat (offset_in 12 x)" using base_plus_offset [of 12 x] x(1) by simp
      ultimately show ?thesis using sb ox b(2) by (metis shows_bytes_iff option.inject)
    qed
  qed
qed

lemma shadow_write_turn_inv:
  assumes "shadow_inv m" "offset_in 12 a + length bs \<le> 4096"
  shows "shadow_inv (shadow_write_turn a bs m)"
proof -
  obtain d m' where g: "get_or_make_page (base_of 12 a) m = (d, m')" by fastforce
  note G = get_or_make_page_shows [OF assms(1) base_of_idem g]
  show ?thesis
    using G(1,2) assms(2) by (auto simp: shadow_write_turn_def g shadow_inv_def)
qed

lemma shadow_write_turn_view:
  assumes "shadow_inv m" "offset_in 12 a + length bs \<le> 4096" "v \<subseteq>\<^sub>m shadow_view m"
  shows "patch_view a bs v \<subseteq>\<^sub>m shadow_view (shadow_write_turn a bs m)"
proof -
  obtain d m' where g: "get_or_make_page (base_of 12 a) m = (d, m')" by fastforce
  note G = get_or_make_page_shows [OF assms(1) base_of_idem g]
  let ?new = "shadow_write_turn a bs m"
  have new: "?new = m'\<lparr>sp_pages := (sp_pages m')(base_of 12 a \<mapsto> overlay (offset_in 12 a) bs d)\<rparr>"
    by (simp add: shadow_write_turn_def g)
  have other: "shadow_view ?new x = shadow_view m x" if "base_of 12 x \<noteq> base_of 12 a" for x
    using that by (simp add: new shadow_view_def G range_is_private_def cong: option.case_cong)
  have same: "shadow_view ?new x = Some (overlay (offset_in 12 a) bs d ! offset_in 12 x)"
    if "base_of 12 x = base_of 12 a" for x
    using that by (simp add: new shadow_view_def)
  show ?thesis
  proof (unfold map_le_def, intro ballI)
    fix x assume "x \<in> dom (patch_view a bs v)"
    then obtain y where y: "patch_view a bs v x = Some y" by blast
    have fit: "offset_in 12 a + length bs \<le> 2 ^ 12" using assms(2) by simp
    have vx: "v x = Some z \<Longrightarrow> shadow_view m x = Some z" for z
      using assms(3) by (metis domI map_le_def)
    have ox: "offset_in 12 x < length d" using offset_in_less [of 12 x] by (simp add: G(1))
    show "patch_view a bs v x = shadow_view ?new x"
    proof (cases "base_of 12 x = base_of 12 a")
      case True
      note sp = in_span_same_base [OF True _ fit, simplified]
      show ?thesis
        using y vx ox assms(2) same [OF True] G(10) [of x, OF True]
        by (auto simp: patch_view_def sp nth_overlay G(1) split: if_splits)
    next
      case False
      then have "\<not> in_span a (length bs) x" using in_span_base [OF _ _ fit, of x] by auto
      then show ?thesis using y vx other [OF False] by (simp add: patch_view_def)
    qed
  qed
qed

text \<open>The whole write loop, and what surrounds it.\<close>

lemma shadow_write_turn_rest:
  "sp_backing (shadow_write_turn a bs m) = sp_backing m" "sp_private (shadow_write_turn a bs m) = sp_private m"
  "sp_code (shadow_write_turn a bs m) = sp_code m" "sp_prot (shadow_write_turn a bs m) = sp_prot m"
  "sp_listener (shadow_write_turn a bs m) = sp_listener m" "sp_notified (shadow_write_turn a bs m) = sp_notified m"
  by (auto simp: shadow_write_turn_def get_or_make_page_def Let_def split: option.split prod.splits)

lemma shadow_write_loop:
  fixes a :: GuestAddr
  assumes "shadow_inv m" "length bs \<le> 2 ^ 32"
  defines "m' \<equiv> each_write shadow_write_turn (spans 12 a (length bs)) bs m"
  shows "shadow_inv m'" "patch_view a bs (shadow_view m) \<subseteq>\<^sub>m shadow_view m'"
    "sp_backing m' = sp_backing m" "sp_private m' = sp_private m" "sp_prot m' = sp_prot m"
    "sp_listener m' = sp_listener m" "sp_code m' = sp_code m" "sp_notified m' = sp_notified m"
proof -
  define R where "R n v \<longleftrightarrow> shadow_inv n \<and> v \<subseteq>\<^sub>m shadow_view n \<and> sp_backing n = sp_backing m \<and>
    sp_private n = sp_private m \<and> sp_prot n = sp_prot m \<and> sp_listener n = sp_listener m \<and>
    sp_code n = sp_code m \<and> sp_notified n = sp_notified m" for n v
  have "R m' (patch_view a bs (shadow_view m))"
    unfolding m'_def
  proof (rule each_write_patches)
    show "R m (shadow_view m)" using assms(1) by (simp add: R_def)
    show "length bs \<le> 2 ^ 64" using assms(2) by simp
    show "R (shadow_write_turn b cs n) (patch_view b cs v)"
      if "R n v" "cs \<noteq> []" "offset_in 12 b + length cs \<le> 2 ^ 12" for b cs n v
      using that shadow_write_turn_inv [of n b cs] shadow_write_turn_view [of n b cs v]
      by (simp add: R_def shadow_write_turn_rest)
  qed
  then show "shadow_inv m'" "patch_view a bs (shadow_view m) \<subseteq>\<^sub>m shadow_view m'"
    "sp_backing m' = sp_backing m" "sp_private m' = sp_private m" "sp_prot m' = sp_prot m"
    "sp_listener m' = sp_listener m" "sp_code m' = sp_code m" "sp_notified m' = sp_notified m"
    by (simp_all add: R_def)
qed

lemma shadow_view_notified [simp]: "shadow_view (m\<lparr>sp_notified := l\<rparr>) = shadow_view m"
  by (simp add: shadow_view_def range_is_private_def fun_eq_iff cong: option.case_cong)

lemma shadow_inv_notified [simp]: "shadow_inv (m\<lparr>sp_notified := l\<rparr>) = shadow_inv m"
  by (simp add: shadow_inv_def)

lemma shadow_write_cases:
  assumes "shadow_write a bs m = (s, m')"
  obtains (empty) "bs = []" "s = St_Ok" "m' = m"
    | (denied) "bs \<noteq> []" "s = St_ProtectionViolation" "m' = m" "\<not> write_allowed m a (length bs)"
    | (written) l where "bs \<noteq> []" "s = St_Ok" "write_allowed m a (length bs)"
        "m' = (each_write shadow_write_turn (spans 12 a (length bs)) bs m)\<lparr>sp_notified := l\<rparr>"
proof -
  let ?w = "each_write shadow_write_turn (spans 12 a (length bs)) bs m"
  have "?w = ?w\<lparr>sp_notified := sp_notified ?w\<rparr>" by simp
  then have "\<exists>l. (if P then ?w\<lparr>sp_notified := k\<rparr> else ?w) = ?w\<lparr>sp_notified := l\<rparr>" for P k by (cases P) metis+
  moreover have "bs \<noteq> [] \<Longrightarrow> write_allowed m a (length bs) \<Longrightarrow> s = St_Ok \<and>
      m' = (if sp_listener ?w \<and> overlaps_code ?w a (length bs) then ?w\<lparr>sp_notified := sp_notified ?w @ [(a, length bs)]\<rparr> else ?w)"
    using assms unfolding shadow_write_def Let_def by simp
  moreover have "bs = [] \<Longrightarrow> s = St_Ok \<and> m' = m"
    "bs \<noteq> [] \<Longrightarrow> \<not> write_allowed m a (length bs) \<Longrightarrow> s = St_ProtectionViolation \<and> m' = m"
    using assms unfolding shadow_write_def Let_def by simp_all
  ultimately show ?thesis using empty denied written by metis
qed

lemma shadow_granular:
  assumes "shadow_inv m" "same_page x y" "shadow_view m x \<noteq> None"
  shows "shadow_view m y \<noteq> None"
proof (cases "sp_pages m (base_of 12 x) = None \<and> \<not> range_is_private m (base_of 12 x) 4096")
  case True
  then obtain b where b: "sp_backing m = Some b" "bk_view b x \<noteq> None"
    using assms(3) by (auto simp: shadow_view_def split: option.splits)
  then have "bk_view b y \<noteq> None"
    using assms(1,2) unfolding shadow_inv_def backing_ok_def by blast
  then show ?thesis using True b(1) assms(2) by (simp add: shadow_view_def same_page_base)
next
  case False
  then show ?thesis using assms(2) by (auto simp: shadow_view_def same_page_base split: option.splits)
qed

interpretation shadow: paged_memory shadow_read shadow_write shadow_view shadow_inv
proof
  fix m m' :: shadow and a x y :: GuestAddr and n s and bs :: "u8 list"
  assume inv: "shadow_inv m"
  show "shadow_inv m' \<and> shadow_view m' = shadow_view m" if "shadow_read a n m = (s, bs, m')"
    using inv shadow_read_state [OF that] by simp
  show "length bs \<le> n" if "shadow_read a n m = (s, bs, m')"
    using each_read_length [where P = "\<lambda>x. x = m" and f = shadow_read_turn and s = 12, OF _ _ refl that [unfolded shadow_read_def]]
      shadow_read_turn_state shadow_read_turn_length [OF inv] by simp
  show "length bs = n \<and> (\<forall>i < n. shadow_view m (a + of_nat i) = Some (bs ! i))"
    if "shadow_read a n m = (St_Ok, bs, m')"
    using each_read_shows [where P = "\<lambda>x. x = m" and f = shadow_read_turn and s = 12 and v = "shadow_view m", OF _ _ refl
        that [unfolded shadow_read_def]] shadow_read_turn_state shadow_read_turn_shows [OF inv]
    by (force simp: shows_bytes_iff [symmetric])
  show "shadow_inv m'" if "shadow_write a bs m = (s, m')" "length bs \<le> 2 ^ 32"
    using that(1) inv shadow_write_loop(1) [OF inv that(2)] by (cases rule: shadow_write_cases) simp_all
  show "shadow_view m' = shadow_view m" if "shadow_write a bs m = (s, m')" "s \<noteq> St_Ok"
    using that by (cases rule: shadow_write_cases) simp_all
  show "patch_view a bs (shadow_view m) \<subseteq>\<^sub>m shadow_view m'"
    if "shadow_write a bs m = (St_Ok, m')" "length bs \<le> 2 ^ 32"
    using that(1) shadow_write_loop(2) [OF inv that(2)] by (cases rule: shadow_write_cases) simp_all
  show "shadow_view m y \<noteq> None" if "same_page x y" "shadow_view m x \<noteq> None"
    by (rule shadow_granular [OF inv that])
  show "\<exists>bs m'. shadow_read a n m = (St_Ok, bs, m')" if "\<forall>i < n. shadow_view m (a + of_nat i) \<noteq> None"
    unfolding shadow_read_def
  proof (rule each_read_total [where P = "\<lambda>x. x = m" and v = "shadow_view m"])
    show "\<exists>bs m'. shadow_read_turn b k x = (St_Ok, bs, m')"
      if "x = m" "offset_in 12 b + k \<le> 2 ^ 12" "0 < k" "\<forall>x \<in> set (addrs b k). shadow_view m x \<noteq> None" for b k x
      using shadow_read_turn_total [OF inv _ that(3,4)] that(1,2) by simp blast
  qed (use that shadow_read_turn_state in \<open>auto simp: set_addrs\<close>)
qed

end
