(* ===== verification/Guest_Heap.thy ===== *)
theory Guest_Heap
  imports Shadow_Pages
begin

text \<open>
  The guest heap of \<^verbatim>\<open>emu/heap.h\<close> and \<^verbatim>\<open>src/emu/memory/heap.cpp\<close>: a bump allocator with one free list for each
  of 16 size classes.  The nodes of a free list are in guest memory, in the first eight bytes of the
  freed blocks, so allocation reads and freeing writes the copy-on-write pages.
\<close>

section \<open>State and operations\<close>

record heap =
  hp_base :: GuestAddr
  hp_size :: u64
  hp_bump :: u64
  hp_free :: "GuestAddr list"

abbreviation (input) HEAP_ALIGN :: u64 where "HEAP_ALIGN \<equiv> 16"

definition round_up :: "u64 \<Rightarrow> u64 \<Rightarrow> u64" where
  "round_up v to = (v + (to - 1)) AND NOT (to - 1)"

function class_loop :: "u64 \<Rightarrow> u64 \<Rightarrow> nat \<Rightarrow> nat" where
  "class_loop sz cap cls = (if cap < sz \<and> cls < 15 then class_loop sz (push_bit 1 cap) (Suc cls) else cls)"
  by pat_completeness auto
termination
  by (relation "measure (\<lambda>(sz, cap, cls). 15 - cls)") auto

declare class_loop.simps [simp del]

definition class_for :: "u64 \<Rightarrow> nat" where
  "class_for bytes = class_loop (round_up (if bytes < HEAP_ALIGN then HEAP_ALIGN else bytes) HEAP_ALIGN) HEAP_ALIGN 0"

definition block_bytes :: "nat \<Rightarrow> u64" where
  "block_bytes cls = push_bit cls HEAP_ALIGN"

definition new_heap :: "GuestAddr \<Rightarrow> u64 \<Rightarrow> shadow \<Rightarrow> heap \<times> shadow" where
  "new_heap base sz m =
     (\<lparr>hp_base = base, hp_size = sz, hp_bump = 0, hp_free = replicate 16 0\<rparr>, add_private_region base sz m)"

definition bump_alloc :: "u64 \<Rightarrow> heap \<Rightarrow> GuestAddr \<times> heap" where
  "bump_alloc block_sz h =
     (if hp_bump h + block_sz > hp_size h then (0, h)
      else (hp_base h + hp_bump h, h\<lparr>hp_bump := hp_bump h + block_sz\<rparr>))"

definition heap_alloc :: "u64 \<Rightarrow> heap \<Rightarrow> shadow \<Rightarrow> GuestAddr \<times> heap \<times> shadow" where
  "heap_alloc bytes h m =
     (if bytes = 0 then (0, h, m)
      else
        (let cls = class_for bytes; block_sz = block_bytes cls; head = hp_free h ! cls
         in if head \<noteq> 0 then
              (case shadow_read head 8 m of
                 (s, bs, m) \<Rightarrow>
                   if fail s
                   then (case bump_alloc block_sz (h\<lparr>hp_free := (hp_free h)[cls := 0]\<rparr>) of (a, h) \<Rightarrow> (a, h, m))
                   else (head, h\<lparr>hp_free := (hp_free h)[cls := le_value bs]\<rparr>, m))
            else (case bump_alloc block_sz h of (a, h) \<Rightarrow> (a, h, m))))"

text \<open>The status of the write that links the block is ignored.\<close>

definition heap_free :: "GuestAddr \<Rightarrow> u64 \<Rightarrow> heap \<Rightarrow> shadow \<Rightarrow> heap \<times> shadow" where
  "heap_free addr bytes h m =
     (if addr = 0 \<or> bytes = 0 then (h, m)
      else if addr < hp_base h \<or> addr \<ge> hp_base h + hp_size h then (h, m)
      else
        (let cls = class_for bytes
         in (h\<lparr>hp_free := (hp_free h)[cls := addr]\<rparr>, snd (shadow_write addr (le_bytes 8 (hp_free h ! cls)) m))))"

section \<open>Size classes\<close>

lemma class_loop_spec:
  assumes "unat cap = 16 * 2 ^ cls" "cls \<le> 15"
  shows "cls \<le> class_loop sz cap cls \<and> class_loop sz cap cls \<le> 15 \<and>
    (class_loop sz cap cls < 15 \<longrightarrow> unat sz \<le> 16 * 2 ^ class_loop sz cap cls) \<and>
    (\<forall>k. cls \<le> k \<longrightarrow> k < class_loop sz cap cls \<longrightarrow> 16 * 2 ^ k < unat sz)"
  using assms
proof (induction sz cap cls rule: class_loop.induct)
  case (1 sz cap cls)
  show ?case
  proof (cases "cap < sz \<and> cls < 15")
    case True
    have "(2 :: nat) ^ cls \<le> 2 ^ 15" using 1(3) by (intro power_increasing) simp_all
    then have "unat (push_bit 1 cap) = 16 * 2 ^ Suc cls"
      using 1(2) by (simp add: push_bit_eq_mult unat_word_ariths)
    from 1(1) [OF True this] True
    have h: "Suc cls \<le> class_loop sz (push_bit 1 cap) (Suc cls)" "class_loop sz (push_bit 1 cap) (Suc cls) \<le> 15"
      "class_loop sz (push_bit 1 cap) (Suc cls) < 15 \<longrightarrow> unat sz \<le> 16 * 2 ^ class_loop sz (push_bit 1 cap) (Suc cls)"
      "\<forall>k. Suc cls \<le> k \<longrightarrow> k < class_loop sz (push_bit 1 cap) (Suc cls) \<longrightarrow> 16 * 2 ^ k < unat sz"
      by (metis Suc_leI)+
    have eq: "class_loop sz cap cls = class_loop sz (push_bit 1 cap) (Suc cls)"
      using True by (subst class_loop.simps) simp
    have "16 * 2 ^ cls < unat sz" using True 1(2) by (simp add: word_less_nat_alt)
    with h(4) have "16 * 2 ^ k < unat sz" if "cls \<le> k" "k < class_loop sz (push_bit 1 cap) (Suc cls)" for k
      using that by (cases "k = cls") simp_all
    then show ?thesis unfolding eq using h(1-3) by simp
  next
    case False
    have eq: "class_loop sz cap cls = cls"
      using class_loop.simps [of sz cap cls] unfolding if_not_P [OF False] .
    show ?thesis unfolding eq using False 1(2,3) by (auto simp: word_less_nat_alt)
  qed
qed

lemma class_for_less: "class_for b < 16"
proof -
  have "unat (16 :: u64) = 16 * 2 ^ 0" by simp
  from class_loop_spec [OF this] have "class_loop s 16 0 \<le> 15" for s by simp
  then have "class_loop s 16 0 < 16" for s by (rule le_less_trans) simp
  then show ?thesis by (simp only: class_for_def)
qed

lemma block_bytes_nat: "k < 16 \<Longrightarrow> unat (block_bytes k) = 16 * 2 ^ k"
proof -
  assume "k < 16"
  then have "(2 :: nat) ^ k \<le> 2 ^ 15" by (intro power_increasing) simp_all
  moreover have "block_bytes k = of_nat (16 * 2 ^ k)" by (simp add: block_bytes_def push_bit_eq_mult)
  ultimately show "unat (block_bytes k) = 16 * 2 ^ k" by (simp only: unat_of_nat) simp
qed


text \<open>A block is as large as the request, and no class below it would do; the largest class holds 512 KiB.\<close>

lemma round_up_16:
  assumes "unat b \<le> 2 ^ 63"
  shows "unat b \<le> unat (round_up b 16)" "unat (round_up b 16) < unat b + 16"
proof -
  define x where "x = b + 15"
  have u: "unat x = unat b + 15" using assms by (simp add: x_def unat_word_ariths)
  have "mask 4 = (15 :: u64)" by (simp add: mask_eq_exp_minus_1)
  then have r: "round_up b 16 = base_of 4 x" by (simp add: round_up_def base_of_def x_def)
  have off: "offset_in 4 x = unat x mod 16" by (simp add: offset_in_take_bit take_bit_eq_mod unat_mod)
  have bo: "base_of 4 x = x - of_nat (unat x mod 16)" using base_plus_offset [of 4 x] by (simp add: off eq_diff_eq)
  have o: "unat (of_nat (unat x mod 16) :: u64) = unat x mod 16"
    using le_less_trans [OF mod_less_eq_dividend unsigned_less [of x]] by (simp add: unat_of_nat)
  then have "of_nat (unat x mod 16) \<le> x" by (simp add: word_le_nat_alt)
  from unat_sub [OF this] have "unat (base_of 4 x) = unat x - unat x mod 16" unfolding bo o .
  moreover have "unat x mod 16 < 16" by simp
  ultimately show "unat b \<le> unat (round_up b 16)" "unat (round_up b 16) < unat b + 16"
    unfolding r u by linarith+
qed

text \<open>A heap block of at most 512 KiB is at least as large as the request and less than twice the
  rounded request; every larger request gets a block of 512 KiB only.\<close>

theorem heap_block_size:
  assumes "0 < unat bytes" "unat bytes \<le> 2 ^ 63"
  shows "(unat bytes \<le> 2 ^ 19 \<longrightarrow> unat bytes \<le> unat (block_bytes (class_for bytes)) \<and>
      (16 < unat bytes \<longrightarrow> unat (block_bytes (class_for bytes)) < 2 * (unat bytes + 16))) \<and>
    (2 ^ 19 < unat bytes \<longrightarrow> unat (block_bytes (class_for bytes)) = 2 ^ 19 \<and> unat (block_bytes (class_for bytes)) < unat bytes)"
proof -
  define r where "r = (if bytes < 16 then 16 else bytes)"
  define k where "k = class_for bytes"
  have k: "k = class_loop (round_up r 16) 16 0" by (simp add: k_def class_for_def r_def)
  have ur: "unat r = max 16 (unat bytes)" by (auto simp: r_def word_less_nat_alt)
  then have rb: "unat r \<le> 2 ^ 63" using assms(2) by simp
  note ru = round_up_16 [OF rb]
  have "unat (16 :: u64) = 16 * 2 ^ 0" by simp
  from class_loop_spec [OF this, of "round_up r 16"]
  have c: "k \<le> 15" "k < 15 \<longrightarrow> unat (round_up r 16) \<le> 16 * 2 ^ k" "\<forall>j < k. 16 * 2 ^ j < unat (round_up r 16)"
    by (simp_all add: k)
  have bb: "unat (block_bytes k) = 16 * 2 ^ k" using c(1) by (intro block_bytes_nat) simp
  show ?thesis
  proof (cases "unat bytes \<le> 2 ^ 19")
    case True
    have "unat bytes \<le> 16 * 2 ^ k"
      using c(1,2) ru(1) ur True by (cases "k = 15") auto
    moreover have "16 * 2 ^ k < 2 * (unat bytes + 16)" if "16 < unat bytes"
    proof (cases k)
      case (Suc j)
      then have "16 * 2 ^ j < unat (round_up r 16)" using c(3) by simp
      then show ?thesis using ru(2) ur that Suc by simp
    qed (use that in simp)
    ultimately show ?thesis using True bb by (simp add: k_def)
  next
    case False
    have "k = 15"
    proof (rule ccontr)
      assume "k \<noteq> 15"
      then have k14: "k \<le> 14" and "unat (round_up r 16) \<le> 16 * 2 ^ k" using c(1,2) by auto
      moreover have "(2 :: nat) ^ k \<le> 2 ^ 14" by (rule power_increasing [OF k14]) simp
      ultimately have "unat (round_up r 16) \<le> 16 * 2 ^ 14" by linarith
      then show False using ru(1) ur False by simp
    qed
    then show ?thesis using False bb by (simp add: k_def)
  qed
qed

theorem heap_block_size_witness: "unat (block_bytes (class_for 0x100000)) = 2 ^ 19"
  using heap_block_size [where bytes = "0x100000"] by simp

section \<open>What the heap keeps\<close>

text \<open>A block is its address and its class.  \<open>free_chain v a xs\<close>: the list that starts at \<open>a\<close> runs through \<open>xs\<close>.\<close>

definition extent :: "GuestAddr \<times> nat \<Rightarrow> nat set" where
  "extent b = {unat (fst b)..<unat (fst b) + 16 * 2 ^ snd b}"

definition apart :: "(GuestAddr \<times> nat) set \<Rightarrow> bool" where
  "apart B \<longleftrightarrow> (\<forall>x \<in> B. \<forall>y \<in> B. x \<noteq> y \<longrightarrow> extent x \<inter> extent y = {})"

lemma apartD: "apart B \<Longrightarrow> x \<in> B \<Longrightarrow> y \<in> B \<Longrightarrow> x \<noteq> y \<Longrightarrow> extent x \<inter> extent y = {}"
  by (simp add: apart_def)

fun free_chain :: "(GuestAddr \<Rightarrow> u8 option) \<Rightarrow> GuestAddr \<Rightarrow> GuestAddr list \<Rightarrow> bool" where
  "free_chain v a [] \<longleftrightarrow> a = 0"
| "free_chain v a (x # xs) \<longleftrightarrow> a = x \<and> a \<noteq> 0 \<and> (\<exists>bs. shows_bytes v (addrs a 8) bs \<and> free_chain v (le_value bs) xs)"

definition heap_place :: "heap \<Rightarrow> shadow \<Rightarrow> bool" where
  "heap_place h m \<longleftrightarrow> shadow_inv m \<and> sp_prot m = [] \<and> hp_base h \<noteq> 0 \<and> length (hp_free h) = 16 \<and>
     hp_bump h \<le> hp_size h \<and> unat (hp_base h) + unat (hp_size h) + 2 ^ 20 < 2 ^ 64"

definition in_heap :: "heap \<Rightarrow> (GuestAddr \<times> nat) set \<Rightarrow> bool" where
  "in_heap h B \<longleftrightarrow> (\<forall>(a, k) \<in> B. k < 16 \<and> unat (hp_base h) \<le> unat a \<and>
     unat a + 16 * 2 ^ k \<le> unat (hp_base h) + unat (hp_bump h) \<and> 16 dvd unat a - unat (hp_base h))"

definition chains_ok ::
  "GuestAddr list \<Rightarrow> (GuestAddr \<Rightarrow> u8 option) \<Rightarrow> (GuestAddr \<times> nat) set \<Rightarrow> (nat \<Rightarrow> GuestAddr list) \<Rightarrow> bool" where
  "chains_ok heads v F ch \<longleftrightarrow> (\<forall>k < 16. free_chain v (heads ! k) (ch k) \<and> distinct (ch k) \<and> (\<forall>a \<in> set (ch k). (a, k) \<in> F))"

definition heap_inv :: "heap \<Rightarrow> shadow \<Rightarrow> (GuestAddr \<times> nat) set \<Rightarrow> bool" where
  "heap_inv h m L \<longleftrightarrow> heap_place h m \<and>
     (\<exists>B ch. in_heap h B \<and> apart B \<and> L \<subseteq> B \<and> 16 dvd unat (hp_bump h) \<and> chains_ok (hp_free h) (shadow_view m) (B - L) ch)"

inductive heap_step :: "heap \<times> shadow \<times> (GuestAddr \<times> nat) set \<Rightarrow> heap \<times> shadow \<times> (GuestAddr \<times> nat) set \<Rightarrow> bool" where
  Alloc: "bytes \<noteq> 0 \<Longrightarrow> heap_alloc bytes h m = (a, h', m') \<Longrightarrow>
    heap_step (h, m, L) (h', m', if a = 0 then L else insert (a, class_for bytes) L)"
| Free: "bytes \<noteq> 0 \<Longrightarrow> (a, class_for bytes) \<in> L \<Longrightarrow> heap_free a bytes h m = (h', m') \<Longrightarrow>
    heap_step (h, m, L) (h', m', L - {(a, class_for bytes)})"
| Store: "(b, k) \<in> L \<Longrightarrow> unat b \<le> unat a \<Longrightarrow> unat a + length bs \<le> unat b + 16 * 2 ^ k \<Longrightarrow>
    shadow_write a bs m = (s, m') \<Longrightarrow> heap_step (h, m, L) (h, m', L)"

lemma in_span_nat:
  assumes "unat a + n \<le> 2 ^ 64"
  shows "in_span a n y \<longleftrightarrow> unat a \<le> unat y \<and> unat y < unat a + n"
proof
  assume "in_span a n y"
  then obtain i where "i < n" "y = a + of_nat i" by (rule in_spanE)
  moreover from this have "unat y = unat a + i" using assms by (simp add: unat_word_ariths unat_of_nat)
  ultimately show "unat a \<le> unat y \<and> unat y < unat a + n" by simp
next
  assume "unat a \<le> unat y \<and> unat y < unat a + n"
  then have "a \<le> y" "unat y - unat a < n" by (simp_all add: word_le_nat_alt less_diff_conv2)
  then show "in_span a n y" by (simp add: in_span_def unat_sub)
qed

lemma free_chain_frame:
  assumes "free_chain v a xs" "\<And>x y. x \<in> set xs \<Longrightarrow> y \<in> set (addrs x 8) \<Longrightarrow> v y \<noteq> None \<Longrightarrow> w y = v y"
  shows "free_chain w a xs"
  using assms
proof (induction xs arbitrary: a)
  case (Cons x xs)
  then obtain bs where bs: "a = x" "a \<noteq> 0" "shows_bytes v (addrs a 8) bs" "free_chain v (le_value bs) xs" by auto
  have "shows_bytes w (addrs a 8) bs"
    unfolding bs(1) shows_bytes_iff
  proof (intro conjI allI impI)
    show "length bs = 8" using bs(3) by (simp add: shows_bytes_iff)
    fix i :: nat assume i: "i < 8"
    then have "v (x + of_nat i) = Some (bs ! i)" using bs(1,3) by (simp add: shows_bytes_iff)
    moreover from i have "x + of_nat i \<in> set (addrs x 8)" by (auto simp: set_addrs)
    ultimately show "w (x + of_nat i) = Some (bs ! i)" using Cons.prems(2) [of x "x + of_nat i"] by simp
  qed
  then show ?case using Cons.IH [OF bs(4)] Cons.prems(2) bs(1,2) by auto
qed simp

lemma map_le_get: "v \<subseteq>\<^sub>m w \<Longrightarrow> v x = Some y \<Longrightarrow> w x = Some y"
  by (auto simp: map_le_def dom_def)

text \<open>A write inside one block leaves the nodes in other blocks alone.\<close>

lemma chains_frame:
  assumes "heap_place h m" "in_heap h B" "apart B" "(b, k) \<in> B" "F \<subseteq> B" "(b, k) \<notin> F"
    and "chains_ok heads (shadow_view m) F ch" "unat b \<le> unat a" "unat a + length bs \<le> unat b + 16 * 2 ^ k"
    and "patch_view a bs (shadow_view m) \<subseteq>\<^sub>m w"
  shows "chains_ok heads w F ch"
proof -
  have "w y = shadow_view m y" if x: "(x, j) \<in> F" and y: "y \<in> set (addrs x 8)" "shadow_view m y \<noteq> None" for x y j
  proof -
    have xB: "(x, j) \<in> B" using x assms(5) by blast
    with assms(2) have xr: "unat x + 16 * 2 ^ j \<le> unat (hp_base h) + unat (hp_bump h)" by (auto simp: in_heap_def)
    have br: "unat b + 16 * 2 ^ k \<le> unat (hp_base h) + unat (hp_bump h)"
      using assms(2,4) by (auto simp: in_heap_def)
    have top: "unat (hp_base h) + unat (hp_bump h) < 2 ^ 64"
      using assms(1) by (simp add: heap_place_def word_le_nat_alt)
    have e8: "8 \<le> 16 * (2 :: nat) ^ j" using one_le_power [of "2 :: nat" j] by simp
    obtain i where i: "i < 8" "y = x + of_nat i" using y(1) by (auto simp: set_addrs)
    have "unat x + i < 2 ^ 64" using xr top e8 i(1) by linarith
    then have uy: "unat y = unat x + i" using i by (simp add: unat_word_ariths unat_of_nat)
    have "(x, j) \<noteq> (b, k)" using x assms(6) by blast
    then have "extent (x, j) \<inter> extent (b, k) = {}" using assms(3,4) xB unfolding apart_def by blast
    moreover have "i < 16 * 2 ^ j" using i(1) e8 by linarith
    then have "unat y \<in> extent (x, j)" using uy by (simp add: extent_def)
    ultimately have "unat y \<notin> extent (b, k)" by blast
    then have "\<not> (unat a \<le> unat y \<and> unat y < unat a + length bs)" using assms(8,9) by (auto simp: extent_def)
    then have "\<not> in_span a (length bs) y" using in_span_nat [of a "length bs" y] assms(9) br top by simp
    then have "patch_view a bs (shadow_view m) y = shadow_view m y" by (simp add: patch_view_def)
    then show ?thesis using map_le_get [OF assms(10), of y] y(2) by fastforce
  qed
  note same = this
  show ?thesis
    unfolding chains_ok_def
  proof (intro allI impI conjI)
    fix j :: nat assume j: "j < 16"
    then have c: "free_chain (shadow_view m) (heads ! j) (ch j)" "distinct (ch j)" "\<forall>a \<in> set (ch j). (a, j) \<in> F"
      using assms(7) by (auto simp: chains_ok_def)
    show "free_chain w (heads ! j) (ch j)" by (rule free_chain_frame [OF c(1)]) (use same c(3) in blast)
    show "distinct (ch j)" "\<forall>a \<in> set (ch j). (a, j) \<in> F" using c by simp_all
  qed
qed


lemma shadow_write_open:
  assumes "shadow_inv m" "sp_prot m = []" "length bs \<le> 2 ^ 32" "shadow_write a bs m = (s, m')"
  shows "s = St_Ok" "shadow_inv m'" "sp_prot m' = []" "patch_view a bs (shadow_view m) \<subseteq>\<^sub>m shadow_view m'"
proof -
  show s: "s = St_Ok" using assms(4) by (cases rule: shadow_write_cases) (simp_all add: write_allowed_def assms(2))
  show "shadow_inv m'" by (rule shadow.wr_inv [OF assms(1,4,3)])
  show "patch_view a bs (shadow_view m) \<subseteq>\<^sub>m shadow_view m'" by (rule shadow.wr_ok [OF assms(1) assms(4) [unfolded s] assms(3)])
  show "sp_prot m' = []"
    using assms(4) shadow_write_loop(5) [OF assms(1,3)] assms(2) by (cases rule: shadow_write_cases) simp_all
qed

lemma block_fits: "k < 16 \<Longrightarrow> 16 * (2 :: nat) ^ k \<le> 2 ^ 19"
  using power_increasing [of k 15 "2 :: nat"] by simp

lemma in_heap_bounds:
  assumes "heap_place h m" "in_heap h B" "(a, k) \<in> B"
  shows "k < 16" "unat a + 16 * 2 ^ k \<le> unat (hp_base h) + unat (hp_size h)" "unat (hp_base h) \<le> unat a" "a \<noteq> 0"
proof -
  show 1: "k < 16" "unat (hp_base h) \<le> unat a" using assms(2,3) by (auto simp: in_heap_def)
  have "unat a + 16 * 2 ^ k \<le> unat (hp_base h) + unat (hp_bump h)" using assms(2,3) by (auto simp: in_heap_def)
  moreover have "unat (hp_bump h) \<le> unat (hp_size h)" using assms(1) by (simp add: heap_place_def word_le_nat_alt)
  ultimately show "unat a + 16 * 2 ^ k \<le> unat (hp_base h) + unat (hp_size h)" by linarith
  have "unat (hp_base h) \<noteq> 0" using assms(1) by (simp add: heap_place_def unat_eq_zero)
  then show "a \<noteq> 0" using 1(2) by auto
qed

lemma heap_store_inv:
  assumes "heap_inv h m L" "(b, k) \<in> L" "unat b \<le> unat a" "unat a + length bs \<le> unat b + 16 * 2 ^ k"
    "shadow_write a bs m = (s, m')"
  shows "heap_inv h m' L"
proof -
  obtain B ch where B: "heap_place h m" "in_heap h B" "apart B" "L \<subseteq> B" "16 dvd unat (hp_bump h)"
    "chains_ok (hp_free h) (shadow_view m) (B - L) ch" using assms(1) by (auto simp: heap_inv_def)
  have bB: "(b, k) \<in> B" using assms(2) B(4) by blast
  have "16 * (2 :: nat) ^ k \<le> 2 ^ 19" by (rule block_fits [OF in_heap_bounds(1) [OF B(1,2) bB]])
  then have "length bs \<le> 2 ^ 32" using assms(3,4) by simp
  note w = shadow_write_open [OF _ _ this assms(5)]
  have m: "shadow_inv m" "sp_prot m = []" using B(1) by (simp_all add: heap_place_def)
  have "chains_ok (hp_free h) (shadow_view m') (B - L) ch"
    by (rule chains_frame [OF B(1-3) bB _ _ B(6) assms(3,4) w(4) [OF m]]) (use assms(2) in auto)
  moreover have "heap_place h m'" using B(1) w(2,3) [OF m] by (simp add: heap_place_def)
  ultimately show ?thesis unfolding heap_inv_def using B by blast
qed

lemma heap_free_inv:
  assumes "heap_inv h m L" "bytes \<noteq> 0" "(a, class_for bytes) \<in> L" "heap_free a bytes h m = (h', m')"
  shows "heap_inv h' m' (L - {(a, class_for bytes)})"
proof -
  define k where "k = class_for bytes"
  obtain B ch where B: "heap_place h m" "in_heap h B" "apart B" "L \<subseteq> B" "16 dvd unat (hp_bump h)"
    "chains_ok (hp_free h) (shadow_view m) (B - L) ch" using assms(1) by (auto simp: heap_inv_def)
  have aB: "(a, k) \<in> B" using assms(3) B(4) by (auto simp: k_def)
  note bd = in_heap_bounds [OF B(1,2) aB]
  have m: "shadow_inv m" "sp_prot m = []" and len: "length (hp_free h) = 16"
    using B(1) by (simp_all add: heap_place_def)
  define old where "old = hp_free h ! k"
  have e16: "16 * 1 \<le> 16 * (2 :: nat) ^ k" by (rule mult_le_mono2) simp
  have "unat (hp_base h + hp_size h) = unat (hp_base h) + unat (hp_size h)"
    using B(1) by (simp add: heap_place_def unat_word_ariths)
  then have "unat a < unat (hp_base h + hp_size h)" "\<not> unat a < unat (hp_base h)"
    using bd(2,3) e16 by linarith+
  then have "\<not> hp_base h + hp_size h \<le> a" "\<not> a < hp_base h" by (simp_all add: word_less_nat_alt not_le)
  then have f: "h' = h\<lparr>hp_free := (hp_free h)[k := a]\<rparr>" "m' = snd (shadow_write a (le_bytes 8 old) m)"
    using assms(2,4) bd(4) by (simp_all add: heap_free_def k_def old_def Let_def)
  obtain s where w: "shadow_write a (le_bytes 8 old) m = (s, m')" using f(2) by (metis prod.collapse)
  have l8: "length (le_bytes 8 old) \<le> 2 ^ 32" by simp
  note w = shadow_write_open [OF m l8 w]
  have c: "chains_ok (hp_free h) (shadow_view m') (B - L) ch"
    by (rule chains_frame [OF B(1-3) aB _ _ B(6), where a = a and bs = "le_bytes 8 old"])
      (use assms(3) e16 w(4) in \<open>auto simp: k_def\<close>)
  have old: "le_value (le_bytes 8 old) = old" by (simp add: le_value_le_bytes take_bit_word_eq_self)
  have "shows_bytes (shadow_view m') (addrs a 8) (le_bytes 8 old)"
    unfolding shows_bytes_iff
  proof (intro conjI allI impI)
    fix i :: nat assume i: "i < 8"
    then have "patch_view a (le_bytes 8 old) (shadow_view m) (a + of_nat i) = Some (le_bytes 8 old ! i)"
      by (simp add: patch_view_def in_span_offset unat_of_nat)
    then show "shadow_view m' (a + of_nat i) = Some (le_bytes 8 old ! i)" by (rule map_le_get [OF w(4)])
  qed simp
  moreover have "free_chain (shadow_view m') old (ch k)" "a \<notin> set (ch k)"
    using c bd(1) assms(3) by (auto simp: chains_ok_def old_def k_def)
  ultimately have new: "free_chain (shadow_view m') a (a # ch k)" "distinct (a # ch k)"
    using bd(4) c bd(1) old by (auto simp: chains_ok_def)
  have "chains_ok (hp_free h') (shadow_view m') (B - (L - {(a, k)})) (ch(k := a # ch k))"
    unfolding chains_ok_def
  proof (intro allI impI)
    fix j :: nat assume j: "j < 16"
    show "free_chain (shadow_view m') (hp_free h' ! j) ((ch(k := a # ch k)) j) \<and> distinct ((ch(k := a # ch k)) j) \<and>
        (\<forall>x \<in> set ((ch(k := a # ch k)) j). (x, j) \<in> B - (L - {(a, k)}))"
    proof (cases "j = k")
      case True
      then show ?thesis using new c bd(1) aB len j by (auto simp: f(1) chains_ok_def)
    next
      case False
      then show ?thesis using c j by (auto simp: f(1) chains_ok_def)
    qed
  qed
  moreover have "heap_place h' m'" using B(1) w(2,3) by (simp add: heap_place_def f(1))
  moreover have "in_heap h' B" using B(2) by (simp add: in_heap_def f(1))
  moreover have "16 dvd unat (hp_bump h')" using B(5) by (simp add: f(1))
  ultimately show ?thesis unfolding heap_inv_def k_def [symmetric] using B(3,4) by blast
qed


lemma bump_alloc_cases:
  assumes "heap_place h m" "k < 16" "bump_alloc (block_bytes k) h = (a, h')"
  obtains (full) "a = 0" "h' = h"
    | (carved) "unat a = unat (hp_base h) + unat (hp_bump h)" "a \<noteq> 0"
      "h' = h\<lparr>hp_bump := hp_bump h + block_bytes k\<rparr>" "unat (hp_bump h + block_bytes k) = unat (hp_bump h) + 16 * 2 ^ k"
      "hp_bump h + block_bytes k \<le> hp_size h"
proof (cases "hp_bump h + block_bytes k > hp_size h")
  case True
  then show ?thesis using full assms(3) by (simp add: bump_alloc_def)
next
  case False
  have place: "unat (hp_base h) + unat (hp_size h) + 2 ^ 20 < 2 ^ 64" "unat (hp_bump h) \<le> unat (hp_size h)" "hp_base h \<noteq> 0"
    using assms(1) by (simp_all add: heap_place_def word_le_nat_alt)
  note k = block_fits [OF assms(2)] block_bytes_nat [OF assms(2)]
  have small: "unat (hp_bump h) + 16 * 2 ^ k < 2 ^ 64" using place k(1) by simp
  have a: "a = hp_base h + hp_bump h" "h' = h\<lparr>hp_bump := hp_bump h + block_bytes k\<rparr>"
    using False assms(3) by (simp_all add: bump_alloc_def)
  have ua: "unat a = unat (hp_base h) + unat (hp_bump h)"
    unfolding a using place by (simp add: unat_word_ariths)
  moreover have "unat (hp_base h) \<noteq> 0" using place(3) by (simp add: unat_eq_zero)
  ultimately have "a \<noteq> 0" by (metis add_is_0 unat_0)
  moreover have "unat (hp_bump h + block_bytes k) = unat (hp_bump h) + 16 * 2 ^ k"
    using small k(2) by (simp add: unat_word_ariths)
  ultimately show ?thesis using carved ua a(2) False by simp
qed

lemma bump_alloc_inv:
  assumes "heap_inv h m L" "k < 16" "bump_alloc (block_bytes k) h = (a, h')"
  shows "heap_inv h' m (if a = 0 then L else insert (a, k) L)"
proof -
  obtain B ch where B: "heap_place h m" "in_heap h B" "apart B" "L \<subseteq> B" "16 dvd unat (hp_bump h)"
    "chains_ok (hp_free h) (shadow_view m) (B - L) ch" using assms(1) by (auto simp: heap_inv_def)
  from B(1) assms(2,3) show ?thesis
  proof (cases rule: bump_alloc_cases)
    case full
    then show ?thesis using assms(1) by simp
  next
    case carved
    let ?x = "(a, k)"
    have below: "extent y \<inter> extent ?x = {}" if "y \<in> B" for y
      using B(2) that carved(1) by (cases y) (auto simp: in_heap_def extent_def)
    have nx: "?x \<notin> B"
    proof
      assume "?x \<in> B"
      from below [OF this] show False by (simp add: extent_def)
    qed
    have "apart (insert ?x B)"
      unfolding apart_def using below B(3) unfolding apart_def by (metis Int_commute insertE)
    moreover have "in_heap h' (insert ?x B)"
      using B(2,5) carved(1,3,4) assms(2) by (auto simp: in_heap_def)
    moreover have "heap_place h' m"
      using B(1) carved(3,5) by (simp add: heap_place_def)
    moreover have "16 dvd unat (hp_bump h')" using B(5) carved(3,4) by simp
    moreover have "insert ?x B - insert ?x L = B - L" using nx by blast
    then have "chains_ok (hp_free h') (shadow_view m) (insert ?x B - insert ?x L) ch" using B(6) carved(3) by simp
    moreover have "insert ?x L \<subseteq> insert ?x B" using B(4) by blast
    ultimately have "heap_inv h' m (insert ?x L)" unfolding heap_inv_def by blast
    then show ?thesis using carved(2) by simp
  qed
qed

lemma heap_alloc_inv:
  assumes "heap_inv h m L" "bytes \<noteq> 0" "heap_alloc bytes h m = (a, h', m')"
  shows "heap_inv h' m' (if a = 0 then L else insert (a, class_for bytes) L) \<and> (a \<noteq> 0 \<longrightarrow> (a, class_for bytes) \<notin> L)"
proof -
  define k where "k = class_for bytes"
  have k: "k < 16" by (simp add: k_def class_for_less)
  obtain B ch where B: "heap_place h m" "in_heap h B" "apart B" "L \<subseteq> B" "16 dvd unat (hp_bump h)"
    "chains_ok (hp_free h) (shadow_view m) (B - L) ch" using assms(1) by (auto simp: heap_inv_def)
  have inv: "shadow_inv m" and len: "length (hp_free h) = 16" using B(1) by (simp_all add: heap_place_def)
  have fc: "free_chain (shadow_view m) (hp_free h ! k) (ch k)" "distinct (ch k)" "\<forall>a \<in> set (ch k). (a, k) \<in> B - L"
    using B(6) k by (auto simp: chains_ok_def)
  show ?thesis
  proof (cases "ch k")
    case Nil
    then have "hp_free h ! k = 0" using fc(1) by simp
    then have b: "bump_alloc (block_bytes k) h = (a, h')" "m' = m"
      using assms(2,3) by (auto simp: heap_alloc_def k_def Let_def split: prod.splits)
    have "(a, k) \<notin> L" if "a \<noteq> 0"
      using B(1) k b(1)
    proof (cases rule: bump_alloc_cases)
      case carved
      have "unat a < unat a + 16 * 2 ^ k" by simp
      then show ?thesis using B(2,4) carved(1) by (fastforce simp: in_heap_def)
    qed (use that in simp)
    then show ?thesis using bump_alloc_inv [OF assms(1) k b(1)] b(2) unfolding k_def by blast
  next
    case (Cons x xs)
    define head where "head = hp_free h ! k"
    obtain bs where x: "head = x" "x \<noteq> 0" "shows_bytes (shadow_view m) (addrs x 8) bs" "free_chain (shadow_view m) (le_value bs) xs"
      using fc(1) Cons by (auto simp: head_def)
    have view: "\<forall>i < 8. shadow_view m (x + of_nat i) = Some (bs ! i)" and lb: "length bs = 8"
      using x(3) by (simp_all add: shows_bytes_iff)
    then obtain cs m1 where r: "shadow_read x 8 m = (St_Ok, cs, m1)"
      using shadow.rd_mapped [OF inv, of 8 x] by auto
    have "cs = bs" using shadow.rd_ok [OF inv r] view lb by (simp add: list_eq_iff_nth_eq)
    then have r: "shadow_read head 8 m = (St_Ok, bs, m)" using r shadow_read_state [OF r] x(1) by simp
    have al: "a = x" "h' = h\<lparr>hp_free := (hp_free h)[k := le_value bs]\<rparr>" "m' = m"
      using assms(2,3) r x(1,2) unfolding head_def by (auto simp: heap_alloc_def k_def Let_def)
    have xk: "(x, k) \<in> B - L" "x \<notin> set xs" "distinct xs" using fc(2,3) Cons by auto
    have "chains_ok (hp_free h') (shadow_view m) (B - insert (x, k) L) (ch(k := xs))"
      unfolding chains_ok_def
    proof (intro allI impI)
      fix j :: nat assume j: "j < 16"
      show "free_chain (shadow_view m) (hp_free h' ! j) ((ch(k := xs)) j) \<and> distinct ((ch(k := xs)) j) \<and>
        (\<forall>y \<in> set ((ch(k := xs)) j). (y, j) \<in> B - insert (x, k) L)"
      proof (cases "j = k")
        case True
        then show ?thesis using x(4) xk fc(3) Cons len j by (auto simp: al(2))
      next
        case False
        then show ?thesis using B(6) j by (auto simp: al(2) chains_ok_def)
      qed
    qed
    moreover have "heap_place h' m" using B(1) by (simp add: heap_place_def al(2))
    moreover have "in_heap h' B" using B(2) by (simp add: in_heap_def al(2))
    moreover have "16 dvd unat (hp_bump h')" using B(5) by (simp add: al(2))
    moreover have "insert (x, k) L \<subseteq> B" using B(4) xk(1) by blast
    ultimately have "heap_inv h' m (insert (x, k) L)" unfolding heap_inv_def using B(3) by blast
    then show ?thesis using al xk(1) x(2) by (simp add: k_def)
  qed
qed

text \<open>Rule induction over the runs of a client.\<close>

definition heap_state_inv :: "GuestAddr \<Rightarrow> u64 \<Rightarrow> heap \<times> shadow \<times> (GuestAddr \<times> nat) set \<Rightarrow> bool" where
  "heap_state_inv base sz s \<longleftrightarrow> (case s of (h, m, L) \<Rightarrow> heap_inv h m L \<and> hp_base h = base \<and> hp_size h = sz)"

lemma heap_step_inv: "heap_step s t \<Longrightarrow> heap_state_inv base sz s \<Longrightarrow> heap_state_inv base sz t"
proof (induction rule: heap_step.induct)
  case (Alloc bytes h m a h' m' L)
  then have i: "heap_inv h m L" "hp_base h = base" "hp_size h = sz" by (simp_all add: heap_state_inv_def)
  have "hp_base h' = hp_base h \<and> hp_size h' = hp_size h"
    using Alloc.hyps(2) by (auto simp: heap_alloc_def bump_alloc_def Let_def split: if_splits prod.splits)
  then show ?case using heap_alloc_inv [OF i(1) Alloc.hyps] i(2,3) unfolding heap_state_inv_def by simp
next
  case (Free bytes a L h m h' m')
  then have i: "heap_inv h m L" "hp_base h = base" "hp_size h = sz" by (simp_all add: heap_state_inv_def)
  have "hp_base h' = hp_base h \<and> hp_size h' = hp_size h"
    using Free.hyps(3) by (auto simp: heap_free_def Let_def split: if_splits)
  then show ?case using heap_free_inv [OF i(1) Free.hyps] i(2,3) by (simp add: heap_state_inv_def)
next
  case (Store b k L a bs m s m' h)
  then show ?case using heap_store_inv [OF _ Store.hyps] by (simp add: heap_state_inv_def)
qed

lemma heap_run_inv: "heap_step\<^sup>*\<^sup>* s t \<Longrightarrow> heap_state_inv base sz s \<Longrightarrow> heap_state_inv base sz t"
  by (induction rule: rtranclp_induct) (auto intro: heap_step_inv)

lemma new_heap_inv:
  assumes "shadow_inv m" "sp_prot m = []" "base \<noteq> 0" "unat base + unat sz + 2 ^ 20 < 2 ^ 64"
    "new_heap base sz m = (h, m')"
  shows "heap_state_inv base sz (h, m', {})"
proof -
  have h: "h = \<lparr>hp_base = base, hp_size = sz, hp_bump = 0, hp_free = replicate 16 0\<rparr>" "m' = add_private_region base sz m"
    using assms(5) by (simp_all add: new_heap_def)
  have "heap_place h m'"
    using assms(1-4) by (simp add: heap_place_def h add_private_region_def shadow_inv_def)
  moreover have "chains_ok (hp_free h) (shadow_view m') ({} - {}) (\<lambda>_. [])" by (simp add: chains_ok_def h)
  moreover have "in_heap h {}" "apart {}" "16 dvd unat (hp_bump h)" by (simp_all add: in_heap_def apart_def h)
  ultimately show ?thesis unfolding heap_state_inv_def heap_inv_def h by auto
qed

text \<open>C12: The heap is safe.  Whatever sequence of allocations, frees of live blocks and writes inside
  live blocks a client performs, all live blocks lie inside the heap, are 16-byte aligned relative
  to its base and do not overlap, and the next allocation returns null or a block that overlaps
  no live one.\<close>

theorem heap_safe:
  assumes "shadow_inv m" "sp_prot m = []" "base \<noteq> 0" "unat base + unat sz + 2 ^ 20 < 2 ^ 64"
    and "heap_step\<^sup>*\<^sup>* (fst (new_heap base sz m), snd (new_heap base sz m), {}) (h, m', L)"
  shows "(\<forall>b \<in> L. extent b \<subseteq> {unat base..<unat base + unat sz} \<and> 16 dvd unat (fst b) - unat base) \<and> apart L \<and>
    (\<forall>bytes a h' m''. bytes \<noteq> 0 \<longrightarrow> heap_alloc bytes h m' = (a, h', m'') \<longrightarrow> a \<noteq> 0 \<longrightarrow>
      (\<forall>b \<in> L. extent (a, class_for bytes) \<inter> extent b = {}))"
proof -
  have facts: "(\<forall>b \<in> M. extent b \<subseteq> {unat base..<unat base + unat sz} \<and> 16 dvd unat (fst b) - unat base) \<and> apart M"
    if i: "heap_state_inv base sz (g, n, M)" for g n M
  proof -
    from i obtain B where B: "heap_place g n" "in_heap g B" "apart B" "M \<subseteq> B" and g: "hp_base g = base" "hp_size g = sz"
      by (auto simp: heap_state_inv_def heap_inv_def)
    have "extent b \<subseteq> {unat base..<unat base + unat sz} \<and> 16 dvd unat (fst b) - unat base" if "b \<in> M" for b
    proof -
      obtain a k where b: "b = (a, k)" by fastforce
      then have "(a, k) \<in> B" using that B(4) by blast
      from in_heap_bounds [OF B(1,2) this] B(2) this show ?thesis by (auto simp: b g extent_def in_heap_def)
    qed
    moreover have "apart M" using B(3,4) unfolding apart_def by blast
    ultimately show ?thesis by blast
  qed
  have i: "heap_state_inv base sz (h, m', L)"
    by (rule heap_run_inv [OF assms(5) new_heap_inv [OF assms(1-4)]]) simp
  have "\<forall>b \<in> L. extent (a, class_for bytes) \<inter> extent b = {}"
    if al: "bytes \<noteq> 0" "heap_alloc bytes h m' = (a, h', m'')" "a \<noteq> 0" for bytes a h' m''
  proof -
    have "heap_inv h m' L" using i by (simp add: heap_state_inv_def)
    from heap_alloc_inv [OF this al(1,2)] al(3) have new: "(a, class_for bytes) \<notin> L" by simp
    have ap: "apart (insert (a, class_for bytes) L)"
      using facts [OF heap_step_inv [OF heap_step.Alloc [OF al(1,2)] i]] al(3) by simp
    show ?thesis
    proof
      fix b assume "b \<in> L"
      then show "extent (a, class_for bytes) \<inter> extent b = {}" using new by (intro apartD [OF ap]) auto
    qed
  qed
  then show ?thesis using facts [OF i] by blast
qed

theorem heap_safe_witness:
  "\<exists>a h m. heap_alloc 24 (fst (new_heap 0x10000 0x1000 (new_shadow None))) (snd (new_heap 0x10000 0x1000 (new_shadow None))) = (a, h, m) \<and>
    extent (a, class_for 24) \<subseteq> {0x10000..<0x11000}"
proof -
  let ?n = "new_heap 0x10000 0x1000 (new_shadow None)"
  obtain a h m where al: "heap_alloc 24 (fst ?n) (snd ?n) = (a, h, m)" by (metis prod_cases3)
  have "class_for 24 = 1" by code_simp
  then have a: "a \<noteq> 0" using al by (simp add: heap_alloc_def new_heap_def bump_alloc_def block_bytes_def)
  have "heap_step (fst ?n, snd ?n, {}) (h, m, {(a, class_for 24)})"
    using heap_step.Alloc [of 24, OF _ al, of "{}"] a by simp
  then have "heap_step\<^sup>*\<^sup>* (fst ?n, snd ?n, {}) (h, m, {(a, class_for 24)})" by blast
  from heap_safe [OF _ _ _ _ this, THEN conjunct1, rule_format, of "(a, class_for 24)", THEN conjunct1]
  have "extent (a, class_for 24) \<subseteq> {0x10000..<0x11000}"
    by (simp add: shadow_inv_def new_shadow_def)
  then show ?thesis using al by blast
qed

end
