(* ===== verification/Operand_Access.thy ===== *)
theory Operand_Access
  imports Memory_Interface
begin

text \<open>
  The operand helpers of \<^verbatim>\<open>src/emu/handlers/handler_util.h\<close> and the byte-level memory helpers
  that \<^verbatim>\<open>data_mov.cpp\<close> and \<^verbatim>\<open>string_ops.cpp\<close> define for themselves.  The objects a CPU points to
  (the two providers, the hook manager) form the environment \<open>'m env\<close>; \<open>None\<close> is the null
  pointer.  \<open>GuestAddr\<close> arithmetic wraps at \<open>2 ^ 64\<close>.
\<close>

section \<open>What a CPU points to\<close>

record 'm env =
  e_mem_read :: "'m provider option"
  e_mem_write :: "'m provider option"
  e_hooks :: "'m hook_manager option"

section \<open>Effective addresses\<close>

definition ea :: "'m cpu \<Rightarrow> insn \<Rightarrow> operand \<Rightarrow> GuestAddr" where
  "ea c i op =
     (if o_kind op = OK_RipRelMem then i_rip i + ucast (i_len i) + o_imm op
      else
        (let addr = (if o_reg op \<noteq> REG_NONE then reg c (o_reg op) else 0);
             addr = (if o_index op \<noteq> REG_NONE
                     then addr + reg c (o_index op) * ucast (o_scale op) else addr);
             addr = addr + o_imm op
         in case o_seg op of
              Seg_FS \<Rightarrow> addr + c_fs_base c
            | Seg_GS \<Rightarrow> addr + c_gs_base c
            | _ \<Rightarrow> addr))"

section \<open>Hooks around memory accesses\<close>

definition fire_mem_hooks ::
  "'m env \<Rightarrow> HookKind \<Rightarrow> GuestAddr \<Rightarrow> u8 \<Rightarrow> u64 \<Rightarrow> bool \<Rightarrow> 'm cpu \<Rightarrow> 'm cpu" where
  "fire_mem_hooks env k addr sz v is_write c =
     (case e_hooks env of
        None \<Rightarrow> c
      | Some hm \<Rightarrow>
          if hook_any k hm
          then for_each k (\<lambda>h c. if hook_in_range h addr
                                 then call_mem (h_callback h) addr (ucast sz) v is_write c else c) hm c
          else c)"

section \<open>Provider calls\<close>

text \<open>
  The calls through the provider pointer; the memory state of the CPU is threaded.  The read
  buffer is zero-initialised, so bytes the provider did not store count as 0.
\<close>

definition call_read :: "'m provider \<Rightarrow> GuestAddr \<Rightarrow> u8 \<Rightarrow> 'm cpu \<Rightarrow> (Status \<times> u64) \<times> 'm cpu" where
  "call_read p addr sz c =
     (case prov_read p addr (unat sz) (c_mem c) of
        (s, bs, m) \<Rightarrow> ((s, le_value (take (unat sz) bs)), c\<lparr>c_mem := m\<rparr>))"

definition call_write :: "'m provider \<Rightarrow> GuestAddr \<Rightarrow> u8 \<Rightarrow> u64 \<Rightarrow> 'm cpu \<Rightarrow> Status \<times> 'm cpu" where
  "call_write p addr sz v c =
     (case prov_write p addr (le_bytes (unat sz) v) (c_mem c) of
        (s, m) \<Rightarrow> (s, c\<lparr>c_mem := m\<rparr>))"

section \<open>Operands\<close>

definition read_operand :: "'m env \<Rightarrow> insn \<Rightarrow> operand \<Rightarrow> u8 \<Rightarrow> 'm cpu \<Rightarrow> u64 option \<times> 'm cpu" where
  "read_operand env i op sz c =
     (case o_kind op of
        OK_None \<Rightarrow> (Some 0, c)
      | OK_Reg \<Rightarrow>
          if sz = 1 \<and> 16 \<le> o_reg op \<and> o_reg op < 20 then (Some (ucast (reg8 c (o_reg op))), c)
          else (Some (reg c (o_reg op) AND mask_for sz), c)
      | OK_Imm \<Rightarrow> (Some (o_imm op AND mask_for sz), c)
      | OK_Rel \<Rightarrow> (Some (o_imm op), c)
      | OK_Xmm \<Rightarrow> (None, c)
      | _ \<Rightarrow>
          (case e_mem_read env of
             None \<Rightarrow> (None, set_fault FK_ProviderFailure (c_rip c) St_ProviderFailure ''no read provider'' c)
           | Some p \<Rightarrow>
               (let addr = ea c i op
                in case data_breakpoint_at addr False sz c of
                     (True, c) \<Rightarrow> (None, set_fault FK_Breakpoint addr St_Ok ''DR data load breakpoint'' c)
                   | (False, c) \<Rightarrow>
                       (let c = fire_mem_hooks env HK_MemRead addr sz 0 False c
                        in case call_read p addr sz c of
                             ((s, v), c) \<Rightarrow>
                               if fail s then (None, set_fault FK_PageFault addr s ''operand read'' c)
                               else (Some v, c)))))"

definition write_reg_operand :: "u8 \<Rightarrow> u8 \<Rightarrow> u64 \<Rightarrow> 'm cpu \<Rightarrow> bool \<times> 'm cpu" where
  "write_reg_operand r sz v c =
     (if sz = 1 then (True, set_r8 r (ucast v) c)
      else if sz = 2 then (True, set_r16 r (ucast v) c)
      else if sz = 4 then (True, set_r32 r (ucast v) c)
      else if sz = 8 then (True, set_r64 r v c)
      else (False, set_fault FK_InternalError (c_rip c) St_Internal ''bad reg width'' c))"

definition write_operand :: "'m env \<Rightarrow> insn \<Rightarrow> operand \<Rightarrow> u8 \<Rightarrow> u64 \<Rightarrow> 'm cpu \<Rightarrow> bool \<times> 'm cpu" where
  "write_operand env i op sz v c =
     (case o_kind op of
        OK_Reg \<Rightarrow> write_reg_operand (o_reg op) sz v c
      | OK_None \<Rightarrow>
          (False, set_fault FK_InternalError (c_rip c) St_Internal ''write to non-writable operand kind'' c)
      | OK_Imm \<Rightarrow>
          (False, set_fault FK_InternalError (c_rip c) St_Internal ''write to non-writable operand kind'' c)
      | OK_Rel \<Rightarrow>
          (False, set_fault FK_InternalError (c_rip c) St_Internal ''write to non-writable operand kind'' c)
      | OK_Xmm \<Rightarrow> (False, c)
      | _ \<Rightarrow>
          (case e_mem_write env of
             None \<Rightarrow> (False, set_fault FK_ProviderFailure (ea c i op) St_ProviderFailure ''no write provider'' c)
           | Some p \<Rightarrow>
               (let addr = ea c i op
                in case data_breakpoint_at addr True sz c of
                     (True, c) \<Rightarrow> (False, set_fault FK_Breakpoint addr St_Ok ''DR data store breakpoint'' c)
                   | (False, c) \<Rightarrow>
                       (let c = fire_mem_hooks env HK_MemWrite addr sz v True c
                        in case call_write p addr sz v c of
                             (s, c) \<Rightarrow>
                               if fail s
                               then (False, set_fault (kind_from_status s) addr s ''operand write'' c)
                               else (True, c)))))"

section \<open>Plain memory accesses of handlers\<close>

text \<open>
  \<open>write_mem_bytes\<close> and \<open>read_mem_bytes\<close> of \<^verbatim>\<open>data_mov.cpp\<close>; \<open>read_bytes\<close> and \<open>write_bytes\<close> of
  \<^verbatim>\<open>string_ops.cpp\<close> differ in the notes of their faults only.
\<close>

definition write_mem_noted ::
  "string \<Rightarrow> string \<Rightarrow> 'm env \<Rightarrow> GuestAddr \<Rightarrow> u8 \<Rightarrow> u64 \<Rightarrow> 'm cpu \<Rightarrow> bool \<times> 'm cpu" where
  "write_mem_noted none_note fail_note env addr sz v c =
     (case e_mem_write env of
        None \<Rightarrow> (False, set_fault FK_ProviderFailure addr St_ProviderFailure none_note c)
      | Some p \<Rightarrow>
          (case call_write p addr sz v c of
             (s, c) \<Rightarrow>
               if fail s then (False, set_fault (kind_from_status s) addr s fail_note c)
               else (True, c)))"

definition read_mem_noted ::
  "string \<Rightarrow> string \<Rightarrow> 'm env \<Rightarrow> GuestAddr \<Rightarrow> u8 \<Rightarrow> 'm cpu \<Rightarrow> u64 option \<times> 'm cpu" where
  "read_mem_noted none_note fail_note env addr sz c =
     (case e_mem_read env of
        None \<Rightarrow> (None, set_fault FK_ProviderFailure addr St_ProviderFailure none_note c)
      | Some p \<Rightarrow>
          (case call_read p addr sz c of
             ((s, v), c) \<Rightarrow>
               if fail s then (None, set_fault FK_PageFault addr s fail_note c)
               else (Some v, c)))"

definition write_mem_bytes :: "'m env \<Rightarrow> GuestAddr \<Rightarrow> u8 \<Rightarrow> u64 \<Rightarrow> 'm cpu \<Rightarrow> bool \<times> 'm cpu" where
  "write_mem_bytes = write_mem_noted ''no write provider'' ''stack/mem write''"

definition read_mem_bytes :: "'m env \<Rightarrow> GuestAddr \<Rightarrow> u8 \<Rightarrow> 'm cpu \<Rightarrow> u64 option \<times> 'm cpu" where
  "read_mem_bytes = read_mem_noted ''no read provider'' ''mem read''"

definition read_bytes :: "'m env \<Rightarrow> GuestAddr \<Rightarrow> u8 \<Rightarrow> 'm cpu \<Rightarrow> u64 option \<times> 'm cpu" where
  "read_bytes = read_mem_noted ''string-op read'' ''string-op read''"

definition write_bytes :: "'m env \<Rightarrow> GuestAddr \<Rightarrow> u8 \<Rightarrow> u64 \<Rightarrow> 'm cpu \<Rightarrow> bool \<times> 'm cpu" where
  "write_bytes = write_mem_noted ''string-op write'' ''string-op write''"

section \<open>What operand reads return\<close>

lemma fits_le_value:
  assumes "valid_size sz" "length bs \<le> unat sz"
  shows "fits sz (le_value bs)"
  unfolding fits_def and_mask_for [OF assms(1)]
proof (rule bit_word_eqI)
  fix n assume "n < LENGTH(64)"
  have "length bs \<le> 8" "8 * length bs \<le> width_of sz"
    using assms by (auto simp: valid_size_def)
  then show "bit (take_bit (width_of sz) (le_value bs)) n = bit (le_value bs) n"
    by (auto simp: bit_simps bit_le_value)
qed

lemma fits_reg8: "fits 1 (ucast (v :: u8))"
proof -
  have "uint v < 2 ^ 8" using uint_lt2p [of v] by simp
  then have "uint (ucast v :: u64) < 2 ^ 8"
    by (simp add: uint_up_ucast is_up)
  then show ?thesis by (simp add: fits_uint)
qed

lemma read_operand_fits:
  assumes "read_operand env i op sz c = (Some v, c')" "valid_size sz" "o_kind op \<noteq> OK_Rel"
  shows "fits sz v"
  using assms fits_le_value [OF assms(2)] fits_reg8
  by (auto simp: read_operand_def Let_def call_read_def split: OperandKind.splits if_splits option.splits
      prod.splits bool.splits) (auto simp: fits_def)

lemma read_operand_reg:
  "o_kind op = OK_Reg \<Longrightarrow> read_operand env i op sz c =
     (Some (if sz = 1 \<and> 16 \<le> o_reg op \<and> o_reg op < 20 then ucast (reg8 c (o_reg op))
            else reg c (o_reg op) AND mask_for sz), c)"
  by (simp add: read_operand_def)

lemma read_operand_imm:
  "o_kind op = OK_Imm \<Longrightarrow> read_operand env i op sz c = (Some (o_imm op AND mask_for sz), c)"
  by (simp add: read_operand_def)

lemma write_operand_reg:
  "o_kind op = OK_Reg \<Longrightarrow> write_operand env i op sz v c = write_reg_operand (o_reg op) sz v c"
  by (simp add: write_operand_def)

section \<open>Register operands\<close>

lemma reg_def': "c_gpr c = reg c"
  by (simp add: reg_def fun_eq_iff)

lemma bit_u64_lt: "bit (x :: u64) n \<Longrightarrow> n < 64"
  by (auto dest: bit_imp_le_length)

lemma bit_not_literals:
  "bit (NOT 0xFF :: u64) n \<longleftrightarrow> 8 \<le> n \<and> n < 64"
  "bit (NOT 0xFF00 :: u64) n \<longleftrightarrow> (n < 8 \<or> 16 \<le> n) \<and> n < 64"
  "bit (NOT 0xFFFF :: u64) n \<longleftrightarrow> 16 \<le> n \<and> n < 64"
proof -
  have e: "(0xFF :: u64) = mask 8" "(0xFFFF :: u64) = mask 16" "(0xFF00 :: u64) = push_bit 8 (mask 8)"
    by (simp_all add: mask_eq_exp_minus_1 push_bit_eq_mult)
  show "bit (NOT 0xFF :: u64) n \<longleftrightarrow> 8 \<le> n \<and> n < 64"
    "bit (NOT 0xFF00 :: u64) n \<longleftrightarrow> (n < 8 \<or> 16 \<le> n) \<and> n < 64"
    "bit (NOT 0xFFFF :: u64) n \<longleftrightarrow> 16 \<le> n \<and> n < 64"
    unfolding e by (auto simp: bit_not_iff bit_mask_iff bit_push_bit_iff)
qed

lemma reg8_eq: "reg8 c i = (if 16 \<le> i \<and> i < 20 then ucast (drop_bit 8 (reg c (i - 16))) else ucast (reg c i))"
  unfolding reg8_def reg_def by (auto intro!: bit_word_eqI simp: bit_simps mask_literals)

lemma high_byte_index: "16 \<le> (i :: u8) \<Longrightarrow> i < 20 \<Longrightarrow> i - 16 < 4"
  by (simp add: word_less_nat_alt word_le_nat_alt unat_sub)

lemma reg_set_r8:
  "reg (set_r8 i v c) j =
     (if 16 \<le> i \<and> i < 20 then
        if j = i - 16 then (reg c j AND NOT 0xFF00) OR push_bit 8 (ucast v) else reg c j
      else if j = i then (reg c j AND NOT 0xFF) OR ucast v else reg c j)"
  by (simp add: set_r8_def Let_def reg_def set_r64_def)

lemma bit_reg8:
  "bit (reg8 c i) n \<longleftrightarrow> n < 8 \<and> (if 16 \<le> i \<and> i < 20 then bit (reg c (i - 16)) (8 + n) else bit (reg c i) n)"
  by (auto simp: reg8_eq bit_simps)

lemma bit_reg_set_r8:
  "bit (reg (set_r8 i v c) j) n \<longleftrightarrow>
     (if 16 \<le> i \<and> i < 20 then
        if j = i - 16 \<and> 8 \<le> n \<and> n < 16 then bit v (n - 8) else bit (reg c j) n
      else if j = i \<and> n < 8 then bit v n else bit (reg c j) n)"
proof -
  note b = bit_u64_lt [of "reg c j" n]
  have v: "bit v n \<Longrightarrow> n < 8" "bit v (n - 8) \<Longrightarrow> n < 16" by (auto dest!: bit_imp_le_length)
  have "bit ((reg c j AND NOT 0xFF00) OR push_bit 8 (ucast v)) n \<longleftrightarrow>
      (if 8 \<le> n \<and> n < 16 then bit v (n - 8) else bit (reg c j) n)"
    unfolding bit_or_iff bit_and_iff bit_not_literals bit_push_bit_iff bit_ucast_iff
    using b v by auto
  moreover have "bit ((reg c j AND NOT 0xFF) OR ucast v) n \<longleftrightarrow> (if n < 8 then bit v n else bit (reg c j) n)"
    unfolding bit_or_iff bit_and_iff bit_not_literals bit_ucast_iff
    using b v by auto
  ultimately show ?thesis
    by (simp only: reg_set_r8) (cases "16 \<le> i \<and> i < 20"; cases "j = i - 16"; cases "j = i"; auto)
qed

text \<open>The byte registers, high ones included, are independent of one another.\<close>

lemma reg8_set_r8:
  assumes "i < 20" "j < 20"
  shows "reg8 (set_r8 i v c) j = (if i = j then v else reg8 c j)"
proof (rule bit_word_eqI)
  fix n assume n: "n < LENGTH(8)"
  have low: "\<not> 16 \<le> x - 16" if "16 \<le> x" "x < 20" for x :: u8
    using high_byte_index [OF that] by (simp add: word_less_nat_alt word_le_nat_alt)
  have inj: "i - 16 = j - 16 \<longleftrightarrow> i = j" by simp
  show "bit (reg8 (set_r8 i v c) j) n = bit (if i = j then v else reg8 c j) n"
    using n assms low [of i] low [of j] inj by (auto simp: bit_reg8 bit_reg_set_r8)
qed


lemma bit_reg_set_r16:
  "bit (reg (set_r16 i v c) j) n \<longleftrightarrow> (if j = i \<and> n < 16 then bit v n else bit (reg c j) n)"
proof -
  note b = bit_u64_lt [of "reg c i" n]
  have v: "bit v n \<Longrightarrow> n < 16" by (auto dest!: bit_imp_le_length)
  have "bit ((reg c i AND NOT 0xFFFF) OR ucast v) n \<longleftrightarrow> (if n < 16 then bit v n else bit (reg c i) n)"
    unfolding bit_or_iff bit_and_iff bit_not_literals bit_ucast_iff
    using b v by auto
  then show ?thesis by (simp only: reg_set_r16) auto
qed

lemma bit_reg_set_r32: "bit (reg (set_r32 i v c) j) n \<longleftrightarrow> (if j = i then bit v n else bit (reg c j) n)"
  by (auto simp: bit_simps dest: bit_imp_le_length)

text \<open>What a register operand of a given size reads.\<close>

definition reg_operand_value :: "'m cpu \<Rightarrow> u8 \<Rightarrow> u8 \<Rightarrow> u64" where
  "reg_operand_value c r sz =
     (if sz = 1 \<and> 16 \<le> r \<and> r < 20 then ucast (reg8 c r) else reg c r AND mask_for sz)"

lemma reg_operand_value_write:
  assumes sz: "valid_size sz" and v: "fits sz v" and r: "r < 16 \<or> sz = 1 \<and> r < 20"
    and w: "write_reg_operand r sz v c = (ok, c')"
  shows "ok \<and> reg_operand_value c' r sz = v"
proof (cases "sz = 1")
  case True
  have r20: "r < 20" using r by (auto simp: word_less_nat_alt)
  have ok: ok and c': "c' = set_r8 r (ucast v) c" using w True by (simp_all add: write_reg_operand_def)
  have v8: "take_bit 8 v = v" using v True by (simp add: fits_def and_mask_for)
  have one: "reg_operand_value d r 1 = ucast (reg8 d r)" for d
    unfolding reg_operand_value_def by (auto simp: reg8_eq and_mask_for bit_simps intro!: bit_word_eqI)
  have "ucast (ucast v :: u8) = v"
    by (subst (2) v8 [symmetric]) (auto intro!: bit_word_eqI simp: bit_simps)
  then show ?thesis using ok c' True by (simp add: one reg8_set_r8 [OF r20 r20])
next
  case False
  then have hi: "\<not> (sz = 1 \<and> 16 \<le> r \<and> r < 20)" by simp
  have "bit (reg c' r AND mask_for sz) n = bit v n" for n
  proof -
    have "bit v n = bit (v AND mask_for sz) n" using v by (simp add: fits_def)
    then have vn: "bit v n \<longleftrightarrow> bit v n \<and> n < width_of sz" by (simp add: bit_and_iff bit_mask_for [OF sz])
    have "bit (reg c' r) n = bit v n" if "n < width_of sz"
      using sz that False w
      by (elim valid_size_cases)
        (auto simp: write_reg_operand_def bit_reg_set_r16 bit_ucast_iff simp del: reg_set_r16)
    with vn show ?thesis by (auto simp: bit_and_iff bit_mask_for [OF sz])
  qed
  moreover have ok using w sz by (auto simp: write_reg_operand_def valid_size_def)
  ultimately show ?thesis using hi by (auto simp: reg_operand_value_def intro: bit_word_eqI)
qed


text \<open>A write leaves the other registers alone: only the base register of the operand changes.\<close>

definition base_reg :: "u8 \<Rightarrow> u8 \<Rightarrow> u8" where
  "base_reg r sz = (if sz = 1 \<and> 16 \<le> r \<and> r < 20 then r - 16 else r)"

lemma write_reg_frame:
  assumes "write_reg_operand r sz v c = (ok, c')" "valid_size sz"
  shows "j \<noteq> base_reg r sz \<Longrightarrow> reg c' j = reg c j"
    and "c' = c\<lparr>c_gpr := c_gpr c'\<rparr>"
    and "ok"
  using assms
  by (auto simp: write_reg_operand_def base_reg_def set_r8_def set_r16_def set_r32_def set_r64_def Let_def
      reg_def split: if_splits elim: valid_size_cases)

lemma write_reg_operand_ok: "valid_size sz \<Longrightarrow> \<exists>c'. write_reg_operand r sz v c = (True, c')"
  by (auto simp: write_reg_operand_def valid_size_def)

lemma read_operand_reg_value:
  "o_kind op = OK_Reg \<Longrightarrow> read_operand env i op sz c = (Some (reg_operand_value c (o_reg op) sz), c)"
  by (auto simp: read_operand_def reg_operand_value_def)

lemma reg_operand_value_cong: "reg c = reg d \<Longrightarrow> reg_operand_value c r sz = reg_operand_value d r sz"
  by (simp add: reg_operand_value_def reg8_eq)

lemma fits_reg_operand_value: "valid_size sz \<Longrightarrow> fits sz (reg_operand_value c r sz)"
  using fits_reg8 by (auto simp: reg_operand_value_def)

text \<open>A source that is a register or an immediate is read without touching the state.\<close>

definition direct_operand :: "operand \<Rightarrow> bool" where
  "direct_operand op \<longleftrightarrow> o_kind op = OK_Reg \<or> o_kind op = OK_Imm"

definition direct_value :: "'m cpu \<Rightarrow> operand \<Rightarrow> u8 \<Rightarrow> u64" where
  "direct_value c op sz =
     (if o_kind op = OK_Reg then reg_operand_value c (o_reg op) sz else o_imm op AND mask_for sz)"

lemma read_direct: "direct_operand op \<Longrightarrow> read_operand env i op sz c = (Some (direct_value c op sz), c)"
  by (auto simp: direct_operand_def direct_value_def read_operand_reg_value read_operand_imm)

lemma fits_direct_value: "valid_size sz \<Longrightarrow> fits sz (direct_value c op sz)"
  by (simp add: direct_value_def fits_reg_operand_value)

section \<open>Example instructions\<close>

text \<open>Witnesses use instructions on the first registers, run on a CPU without memory or hooks.\<close>

definition reg_op :: "u8 \<Rightarrow> operand" where
  "reg_op r = zero_operand\<lparr>o_kind := OK_Reg, o_reg := r\<rparr>"

definition imm_op :: "u64 \<Rightarrow> operand" where
  "imm_op v = zero_operand\<lparr>o_kind := OK_Imm, o_imm := v\<rparr>"

definition plain_insn :: "u8 \<Rightarrow> operand \<Rightarrow> operand \<Rightarrow> insn" where
  "plain_insn sz d s = \<lparr>i_handler = HMove H_nop, i_kind = Op_Nop, i_op_size = sz, i_len = 1,
     i_cond = Cc_None, i_flags = 0, i_pad = 0, i_rip = 0, i_dst = d, i_src = s, i_imm_extra = 0\<rparr>"

definition no_env :: "'m env" where
  "no_env = \<lparr>e_mem_read = None, e_mem_write = None, e_hooks = None\<rparr>"

lemma operand_examples [simp]:
  "o_kind (reg_op r) = OK_Reg" "o_reg (reg_op r) = r" "o_kind (imm_op v) = OK_Imm" "o_imm (imm_op v) = v"
  "i_op_size (plain_insn sz d s) = sz" "i_dst (plain_insn sz d s) = d" "i_src (plain_insn sz d s) = s"
  "i_kind (plain_insn sz d s) = Op_Nop" "i_imm_extra (plain_insn sz d s) = 0" "i_rip (plain_insn sz d s) = 0"
  "i_len (plain_insn sz d s) = 1" "i_flags (plain_insn sz d s) = 0" "i_cond (plain_insn sz d s) = Cc_None"
  by (simp_all add: reg_op_def imm_op_def plain_insn_def)

lemma reg_initial [simp]: "reg (initial_cpu m) r = 0"
  by (simp add: reg_def initial_cpu_def)

end
