(* ===== verification/Arithmetic.thy ===== *)
theory Arithmetic
  imports Operand_Access "HOL-Library.Signed_Division"
begin

text \<open>
  The handlers of \<^verbatim>\<open>src/emu/handlers/arithmetic.cpp\<close> and \<^verbatim>\<open>src/emu/handlers/logical.cpp\<close>.  Each handler is a function
  of the environment, the decoded instruction and the CPU; its early returns are the
  combinators of the prelude.  The 128-bit intrinsics of the MSVC branch are
  modelled by integer arithmetic on the full product or dividend.
\<close>

section \<open>ADD, ADC, SUB, SBB, INC, DEC, NEG\<close>

definition op_add :: "'m env \<Rightarrow> insn \<Rightarrow> 'm cpu \<Rightarrow> 'm cpu" where
  "op_add env i c =
     read_then (read_operand env i (i_dst i) (i_op_size i) c) (\<lambda>a c.
     read_then (read_operand env i (i_src i) (i_op_size i) c) (\<lambda>b c.
       let m = mask_for (i_op_size i); r = (a + b) AND m
       in ok_then (write_operand env i (i_dst i) (i_op_size i) r c) (stash_add (i_op_size i) b r)))"

definition op_adc :: "'m env \<Rightarrow> insn \<Rightarrow> 'm cpu \<Rightarrow> 'm cpu" where
  "op_adc env i c =
     read_then (read_operand env i (i_dst i) (i_op_size i) c) (\<lambda>a c.
     read_then (read_operand env i (i_src i) (i_op_size i) c) (\<lambda>b c.
       let cin = get_cf c; c = sync_flags c;
           m = mask_for (i_op_size i); r = (a + b + of_bool cin) AND m
       in ok_then (write_operand env i (i_dst i) (i_op_size i) r c) (stash_adc (i_op_size i) b cin r)))"

definition op_sub :: "'m env \<Rightarrow> insn \<Rightarrow> 'm cpu \<Rightarrow> 'm cpu" where
  "op_sub env i c =
     read_then (read_operand env i (i_dst i) (i_op_size i) c) (\<lambda>a c.
     read_then (read_operand env i (i_src i) (i_op_size i) c) (\<lambda>b c.
       let m = mask_for (i_op_size i); r = (a - b) AND m
       in ok_then (write_operand env i (i_dst i) (i_op_size i) r c) (stash_sub (i_op_size i) b r)))"

definition op_sbb :: "'m env \<Rightarrow> insn \<Rightarrow> 'm cpu \<Rightarrow> 'm cpu" where
  "op_sbb env i c =
     read_then (read_operand env i (i_dst i) (i_op_size i) c) (\<lambda>a c.
     read_then (read_operand env i (i_src i) (i_op_size i) c) (\<lambda>b c.
       let bin = get_cf c; c = sync_flags c;
           m = mask_for (i_op_size i); r = (a - b - of_bool bin) AND m
       in ok_then (write_operand env i (i_dst i) (i_op_size i) r c) (stash_sbb (i_op_size i) b bin r)))"

definition op_inc :: "'m env \<Rightarrow> insn \<Rightarrow> 'm cpu \<Rightarrow> 'm cpu" where
  "op_inc env i c =
     read_then (read_operand env i (i_dst i) (i_op_size i) c) (\<lambda>a c.
       let m = mask_for (i_op_size i); r = (a + 1) AND m
       in ok_then (write_operand env i (i_dst i) (i_op_size i) r c) (stash_inc (i_op_size i) r))"

definition op_dec :: "'m env \<Rightarrow> insn \<Rightarrow> 'm cpu \<Rightarrow> 'm cpu" where
  "op_dec env i c =
     read_then (read_operand env i (i_dst i) (i_op_size i) c) (\<lambda>a c.
       let m = mask_for (i_op_size i); r = (a - 1) AND m
       in ok_then (write_operand env i (i_dst i) (i_op_size i) r c) (stash_dec (i_op_size i) r))"

definition op_neg :: "'m env \<Rightarrow> insn \<Rightarrow> 'm cpu \<Rightarrow> 'm cpu" where
  "op_neg env i c =
     read_then (read_operand env i (i_dst i) (i_op_size i) c) (\<lambda>a c.
       let m = mask_for (i_op_size i); r = (NOT a + 1) AND m
       in ok_then (write_operand env i (i_dst i) (i_op_size i) r c) (stash_neg (i_op_size i) a r))"

section \<open>Multiplication\<close>

text \<open>\<open>_umul128\<close> and \<open>_mul128\<close>: the low and the high half of the product.\<close>

definition umul128 :: "u64 \<Rightarrow> u64 \<Rightarrow> u64 \<times> u64" where
  "umul128 a b = (let p = uint a * uint b in (word_of_int p, word_of_int (p div 2 ^ 64)))"

definition mul128 :: "u64 \<Rightarrow> u64 \<Rightarrow> u64 \<times> u64" where
  "mul128 a b = (let p = sint a * sint b in (word_of_int p, word_of_int (p div 2 ^ 64)))"

text \<open>\<open>(i64)v >> 63\<close>.\<close>

definition sign_fill :: "u64 \<Rightarrow> u64" where
  "sign_fill v = (if bit v 63 then NOT 0 else 0)"

text \<open>The product of the two- and three-operand forms and its overflow flag.\<close>

definition imul_product :: "u8 \<Rightarrow> u64 \<Rightarrow> u64 \<Rightarrow> u64 \<times> bool" where
  "imul_product sz a b =
     (if sz = 8 then
        (let (lo, high) = mul128 a b in (lo, high \<noteq> sign_fill lo))
      else
        (let full = sign_extend a sz * sign_extend b sz; r = full AND mask_for sz
         in (r, full \<noteq> sign_extend r sz)))"

definition op_imul :: "'m env \<Rightarrow> insn \<Rightarrow> 'm cpu \<Rightarrow> 'm cpu" where
  "op_imul env i c =
     (let sz = i_op_size i;
          finish = (\<lambda>a b c. case imul_product sz a b of
            (r, overflow) \<Rightarrow> stash_mul_ov overflow (snd (write_operand env i (i_dst i) sz r c)))
      in if i_kind i = Op_Imul3
         then read_then (read_operand env i (i_src i) sz c) (\<lambda>a. finish a (i_imm_extra i))
         else read_then (read_operand env i (i_dst i) sz c) (\<lambda>a c.
              read_then (read_operand env i (i_src i) sz c) (\<lambda>b. finish a b)))"

definition mul_parts :: "u8 \<Rightarrow> u64 \<Rightarrow> u64 \<Rightarrow> 'm cpu \<Rightarrow> bool \<times> 'm cpu" where
  "mul_parts sz a b c =
     (if sz = 1 then
        (let full = (ucast a * ucast b :: u16); hi = ucast (drop_bit 8 full AND 0xFF) :: u64
         in (hi \<noteq> 0, set_r16 RAX full c))
      else if sz = 2 then
        (let full = (ucast a * ucast b :: u32);
             lo = ucast (full AND 0xFFFF) :: u64; hi = ucast (drop_bit 16 full AND 0xFFFF) :: u64
         in (hi \<noteq> 0, set_r16 RDX (ucast hi) (set_r16 RAX (ucast lo) c)))
      else if sz = 4 then
        (let full = a * b; lo = full AND 0xFFFFFFFF; hi = drop_bit 32 full AND 0xFFFFFFFF
         in (hi \<noteq> 0, set_r32 RDX (ucast hi) (set_r32 RAX (ucast lo) c)))
      else if sz = 8 then
        (let (lo, hi) = umul128 a b
         in (hi \<noteq> 0, set_r64 RDX hi (set_r64 RAX lo c)))
      else (False, c))"

definition op_mul :: "'m env \<Rightarrow> insn \<Rightarrow> 'm cpu \<Rightarrow> 'm cpu" where
  "op_mul env i c =
     read_then (read_operand env i (i_src i) (i_op_size i) c) (\<lambda>b c.
       let a = reg c RAX AND mask_for (i_op_size i);
           (overflow, c) = mul_parts (i_op_size i) a b c
       in stash_mul_ov overflow c)"

definition imul_parts :: "u8 \<Rightarrow> u64 \<Rightarrow> u64 \<Rightarrow> 'm cpu \<Rightarrow> bool \<times> 'm cpu" where
  "imul_parts sz a b c =
     (if sz = 1 then
        (let sa = scast (ucast a :: u8) :: u16; sb = scast (ucast b :: u8) :: u16;
             full = sa * sb; lo = ucast (full AND 0xFF) :: u64
         in (scast (ucast lo :: u8) \<noteq> full, set_r16 RAX full c))
      else if sz = 2 then
        (let sa = scast (ucast a :: u16) :: u32; sb = scast (ucast b :: u16) :: u32;
             full = sa * sb; lo = ucast (full AND 0xFFFF) :: u64;
             hi = ucast (drop_bit 16 full AND 0xFFFF) :: u64
         in (scast (ucast lo :: u16) \<noteq> full, set_r16 RDX (ucast hi) (set_r16 RAX (ucast lo) c)))
      else if sz = 4 then
        (let sa = scast (ucast a :: u32) :: u64; sb = scast (ucast b :: u32) :: u64;
             full = sa * sb; lo = full AND 0xFFFFFFFF; hi = drop_bit 32 full AND 0xFFFFFFFF
         in (scast (ucast lo :: u32) \<noteq> full, set_r32 RDX (ucast hi) (set_r32 RAX (ucast lo) c)))
      else if sz = 8 then
        (let (lo, hi) = mul128 a b
         in (hi \<noteq> sign_fill lo, set_r64 RDX hi (set_r64 RAX lo c)))
      else (False, c))"

definition op_imul1 :: "'m env \<Rightarrow> insn \<Rightarrow> 'm cpu \<Rightarrow> 'm cpu" where
  "op_imul1 env i c =
     read_then (read_operand env i (i_src i) (i_op_size i) c) (\<lambda>b c.
       let a = reg c RAX AND mask_for (i_op_size i);
           (overflow, c) = imul_parts (i_op_size i) a b c
       in stash_mul_ov overflow c)"

section \<open>Division\<close>

definition divide_error :: "string \<Rightarrow> 'm cpu \<Rightarrow> 'm cpu" where
  "divide_error note c = set_fault FK_DivideError (c_rip c) St_Ok note c"

definition set_ah :: "u64 \<Rightarrow> 'm cpu \<Rightarrow> 'm cpu" where
  "set_ah r c = set_r64 RAX ((reg c RAX AND NOT 0xFF00) OR push_bit 8 (r AND 0xFF)) c"

text \<open>\<open>_udiv128(hi, lo, d, &r)\<close>, called with \<open>hi < d\<close>.\<close>

definition udiv128 :: "u64 \<Rightarrow> u64 \<Rightarrow> u64 \<Rightarrow> u64 \<times> u64" where
  "udiv128 hi lo d =
     (let n = uint hi * 2 ^ 64 + uint lo in (word_of_int (n div uint d), word_of_int (n mod uint d)))"

definition div_switch :: "u8 \<Rightarrow> u64 \<Rightarrow> 'm cpu \<Rightarrow> 'm cpu" where
  "div_switch sz d c =
     (if sz = 1 then
        (let num = reg16 c RAX; q = ucast (ucast num div d) :: u16; r = ucast (ucast num mod d) :: u16
         in if 0xFF < q then divide_error ''DIV overflow'' c
            else set_ah (ucast r) (set_r8 RAX (ucast q) c))
      else if sz = 2 then
        (let num = push_bit 16 (ucast (reg16 c RDX)) OR ucast (reg16 c RAX) :: u32;
             q = ucast (ucast num div d) :: u32; r = ucast (ucast num mod d) :: u32
         in if 0xFFFF < q then divide_error ''DIV overflow'' c
            else set_r16 RDX (ucast r) (set_r16 RAX (ucast q) c))
      else if sz = 4 then
        (let num = push_bit 32 (ucast (reg32 c RDX)) OR ucast (reg32 c RAX) :: u64;
             q = num div d; r = num mod d
         in if 0xFFFFFFFF < q then divide_error ''DIV overflow'' c
            else set_r32 RDX (ucast r) (set_r32 RAX (ucast q) c))
      else if sz = 8 then
        (let hi = reg c RDX; lo = reg c RAX
         in if d \<le> hi then divide_error ''DIV overflow'' c
            else (let (q, r) = udiv128 hi lo d in set_r64 RDX r (set_r64 RAX q c)))
      else c)"

definition op_div :: "'m env \<Rightarrow> insn \<Rightarrow> 'm cpu \<Rightarrow> 'm cpu" where
  "op_div env i c =
     read_then (read_operand env i (i_src i) (i_op_size i) c) (\<lambda>d c.
       if d = 0 then divide_error ''DIV by zero'' c else div_switch (i_op_size i) d c)"

text \<open>
  Signed division truncates towards zero (\<open>sdiv\<close>, \<open>smod\<close>).  The quotient of the minimal dividend by -1
  at sizes 2, 4 and 8 overflows the C++ type, which is undefined there; the model gives it
  the wrapped value of that type.
\<close>

definition idiv_switch :: "u8 \<Rightarrow> u64 \<Rightarrow> 'm cpu \<Rightarrow> 'm cpu" where
  "idiv_switch sz d c =
     (if sz = 1 then
        (let num = sint (reg16 c RAX); dv = sint (ucast d :: u8);
             q = sint (word_of_int (num sdiv dv) :: u16); r = sint (word_of_int (num smod dv) :: u16)
         in if q < - 128 \<or> 127 < q then divide_error ''IDIV overflow'' c
            else set_ah (ucast (word_of_int r :: u8)) (set_r8 RAX (word_of_int q) c))
      else if sz = 2 then
        (let num = sint (push_bit 16 (scast (reg16 c RDX)) OR ucast (reg16 c RAX) :: u32);
             dv = sint (ucast d :: u16);
             q = sint (word_of_int (num sdiv dv) :: u32); r = sint (word_of_int (num smod dv) :: u32)
         in if q < - 32768 \<or> 32767 < q then divide_error ''IDIV overflow'' c
            else set_r16 RDX (word_of_int r) (set_r16 RAX (word_of_int q) c))
      else if sz = 4 then
        (let num = sint (push_bit 32 (scast (reg32 c RDX)) OR ucast (reg32 c RAX) :: u64);
             dv = sint (ucast d :: u32);
             q = sint (word_of_int (num sdiv dv) :: u64); r = sint (word_of_int (num smod dv) :: u64)
         in if q < - 2147483648 \<or> 2147483647 < q then divide_error ''IDIV overflow'' c
            else set_r32 RDX (word_of_int r) (set_r32 RAX (word_of_int q) c))
      else if sz = 8 then
        (let hi = reg c RDX; lo = reg c RAX; dv = sint d
         in if hi = sign_fill lo
            then set_r64 RDX (word_of_int (sint lo smod dv)) (set_r64 RAX (word_of_int (sint lo sdiv dv)) c)
            else divide_error ''IDIV128 unsupported'' c)
      else c)"

definition op_idiv :: "'m env \<Rightarrow> insn \<Rightarrow> 'm cpu \<Rightarrow> 'm cpu" where
  "op_idiv env i c =
     read_then (read_operand env i (i_src i) (i_op_size i) c) (\<lambda>d c.
       if d = 0 then divide_error ''IDIV by zero'' c else idiv_switch (i_op_size i) d c)"

section \<open>AND, OR, XOR, NOT, TEST, CMP\<close>

definition op_and :: "'m env \<Rightarrow> insn \<Rightarrow> 'm cpu \<Rightarrow> 'm cpu" where
  "op_and env i c =
     read_then (read_operand env i (i_dst i) (i_op_size i) c) (\<lambda>a c.
     read_then (read_operand env i (i_src i) (i_op_size i) c) (\<lambda>b c.
       let r = (a AND b) AND mask_for (i_op_size i)
       in ok_then (write_operand env i (i_dst i) (i_op_size i) r c) (stash_logic (i_op_size i) r)))"

definition op_or :: "'m env \<Rightarrow> insn \<Rightarrow> 'm cpu \<Rightarrow> 'm cpu" where
  "op_or env i c =
     read_then (read_operand env i (i_dst i) (i_op_size i) c) (\<lambda>a c.
     read_then (read_operand env i (i_src i) (i_op_size i) c) (\<lambda>b c.
       let r = (a OR b) AND mask_for (i_op_size i)
       in ok_then (write_operand env i (i_dst i) (i_op_size i) r c) (stash_logic (i_op_size i) r)))"

definition op_xor :: "'m env \<Rightarrow> insn \<Rightarrow> 'm cpu \<Rightarrow> 'm cpu" where
  "op_xor env i c =
     read_then (read_operand env i (i_dst i) (i_op_size i) c) (\<lambda>a c.
     read_then (read_operand env i (i_src i) (i_op_size i) c) (\<lambda>b c.
       let r = (a XOR b) AND mask_for (i_op_size i)
       in ok_then (write_operand env i (i_dst i) (i_op_size i) r c) (stash_logic (i_op_size i) r)))"

definition op_not :: "'m env \<Rightarrow> insn \<Rightarrow> 'm cpu \<Rightarrow> 'm cpu" where
  "op_not env i c =
     read_then (read_operand env i (i_dst i) (i_op_size i) c) (\<lambda>a c.
       let r = NOT a AND mask_for (i_op_size i)
       in snd (write_operand env i (i_dst i) (i_op_size i) r c))"

definition op_test :: "'m env \<Rightarrow> insn \<Rightarrow> 'm cpu \<Rightarrow> 'm cpu" where
  "op_test env i c =
     read_then (read_operand env i (i_dst i) (i_op_size i) c) (\<lambda>a c.
     read_then (read_operand env i (i_src i) (i_op_size i) c) (\<lambda>b c.
       stash_logic (i_op_size i) ((a AND b) AND mask_for (i_op_size i)) c))"

definition op_cmp :: "'m env \<Rightarrow> insn \<Rightarrow> 'm cpu \<Rightarrow> 'm cpu" where
  "op_cmp env i c =
     read_then (read_operand env i (i_dst i) (i_op_size i) c) (\<lambda>a c.
     read_then (read_operand env i (i_src i) (i_op_size i) c) (\<lambda>b c.
       stash_sub (i_op_size i) b ((a - b) AND mask_for (i_op_size i)) c))"

lemmas arith_handlers [handler_defs] =
  op_add_def op_adc_def op_sub_def op_sbb_def op_inc_def op_dec_def op_neg_def
  op_and_def op_or_def op_xor_def op_not_def op_test_def op_cmp_def


lemma flags_of_set_flag [simp]:
  "flags_of (set_cf v c) = (flags_of c)\<lparr>fl_cf := v\<rparr>"
  "flags_of (set_pf v c) = (flags_of c)\<lparr>fl_pf := v\<rparr>"
  "flags_of (set_af v c) = (flags_of c)\<lparr>fl_af := v\<rparr>"
  "flags_of (set_zf v c) = (flags_of c)\<lparr>fl_zf := v\<rparr>"
  "flags_of (set_sf v c) = (flags_of c)\<lparr>fl_sf := v\<rparr>"
  "flags_of (set_of v c) = (flags_of c)\<lparr>fl_of := v\<rparr>"
proof -
  have "sync_flags (set_flag_bit m v (sync_flags c)) = set_flag_bit m v (sync_flags c)" for m
    by (simp add: sync_flags_def [of "set_flag_bit m v (sync_flags c)"]) (simp add: set_flag_bit_def)
  then show "flags_of (set_cf v c) = (flags_of c)\<lparr>fl_cf := v\<rparr>"
    "flags_of (set_pf v c) = (flags_of c)\<lparr>fl_pf := v\<rparr>"
    "flags_of (set_af v c) = (flags_of c)\<lparr>fl_af := v\<rparr>"
    "flags_of (set_zf v c) = (flags_of c)\<lparr>fl_zf := v\<rparr>"
    "flags_of (set_sf v c) = (flags_of c)\<lparr>fl_sf := v\<rparr>"
    "flags_of (set_of v c) = (flags_of c)\<lparr>fl_of := v\<rparr>"
    unfolding flags_of_bits
    by (simp_all add: set_cf_def set_pf_def set_af_def set_zf_def set_sf_def set_of_def bits_flags_def)
      (simp_all add: set_flag_bit_def bit_or_iff bit_and_iff bit_not_iff bit_int_literals)
qed

lemma get_flags_of:
  "get_cf c = fl_cf (flags_of c)" "get_pf c = fl_pf (flags_of c)" "get_af c = fl_af (flags_of c)"
  "get_zf c = fl_zf (flags_of c)" "get_sf c = fl_sf (flags_of c)" "get_of c = fl_of (flags_of c)"
  by (simp_all add: flags_of_def)

lemma set_flag_frame [simp]:
  "reg (set_cf v c) = reg c" "c_mem (set_cf v c) = c_mem c" "c_halted (set_cf v c) = c_halted c"
  "reg (set_pf v c) = reg c" "c_mem (set_pf v c) = c_mem c" "c_halted (set_pf v c) = c_halted c"
  "reg (set_af v c) = reg c" "c_mem (set_af v c) = c_mem c" "c_halted (set_af v c) = c_halted c"
  "reg (set_zf v c) = reg c" "c_mem (set_zf v c) = c_mem c" "c_halted (set_zf v c) = c_halted c"
  "reg (set_sf v c) = reg c" "c_mem (set_sf v c) = c_mem c" "c_halted (set_sf v c) = c_halted c"
  "reg (set_of v c) = reg c" "c_mem (set_of v c) = c_mem c" "c_halted (set_of v c) = c_halted c"
  by (simp_all add: set_cf_def set_pf_def set_af_def set_zf_def set_sf_def set_of_def set_flag_bit_def
      reg_def fun_eq_iff sync_flags_def Let_def)

section \<open>Results and flags of the binary operations\<close>

text \<open>
  \<open>binary_reads\<close>: both operands were read, giving \<open>a\<close>, \<open>b\<close> and the state \<open>c2\<close>.
\<close>

definition binary_reads :: "'m env \<Rightarrow> insn \<Rightarrow> 'm cpu \<Rightarrow> u64 \<Rightarrow> u64 \<Rightarrow> 'm cpu \<Rightarrow> bool" where
  "binary_reads env i c a b c2 \<longleftrightarrow>
     valid_size (i_op_size i) \<and> o_kind (i_dst i) \<noteq> OK_Rel \<and> o_kind (i_src i) \<noteq> OK_Rel \<and>
     (\<exists>c1. read_operand env i (i_dst i) (i_op_size i) c = (Some a, c1) \<and>
           read_operand env i (i_src i) (i_op_size i) c1 = (Some b, c2))"

lemma binary_readsD:
  assumes "binary_reads env i c a b c2"
  shows "valid_size (i_op_size i)" "fits (i_op_size i) a" "fits (i_op_size i) b"
  using assms by (auto simp: binary_reads_def intro: read_operand_fits)

lemma uint_of_bool_sum:
  assumes "valid_size sz"
  shows "uint ((a + b + of_bool k) AND mask_for sz) = (uint a + uint b + of_bool k) mod 2 ^ width_of sz"
    and "uint ((a - b - of_bool k) AND mask_for sz) = (uint a - uint b - of_bool k) mod 2 ^ width_of sz"
  using uint_masked(3,4) [OF assms] by auto

lemma stash_frame [simp]:
  "c_gpr (stash op sz s d s2 c) = c_gpr c" "c_mem (stash op sz s d s2 c) = c_mem c"
  "c_rip (stash op sz s d s2 c) = c_rip c" "c_halted (stash op sz s d s2 c) = c_halted c"
  "c_fault (stash op sz s d s2 c) = c_fault c" "reg (stash op sz s d s2 c) = reg c"
  "c_branch_taken (stash op sz s d s2 c) = c_branch_taken c"
  by (simp_all add: stash_def reg_def fun_eq_iff)

lemma stash_kinds_frame [simp]:
  "c_gpr (stash_add sz b r c) = c_gpr c" "c_mem (stash_add sz b r c) = c_mem c"
  "c_halted (stash_add sz b r c) = c_halted c" "reg (stash_add sz b r c) = reg c"
  "c_gpr (stash_adc sz b k r c) = c_gpr c" "c_mem (stash_adc sz b k r c) = c_mem c"
  "c_halted (stash_adc sz b k r c) = c_halted c" "reg (stash_adc sz b k r c) = reg c"
  "c_gpr (stash_sub sz b r c) = c_gpr c" "c_mem (stash_sub sz b r c) = c_mem c"
  "c_halted (stash_sub sz b r c) = c_halted c" "reg (stash_sub sz b r c) = reg c"
  "c_gpr (stash_sbb sz b k r c) = c_gpr c" "c_mem (stash_sbb sz b k r c) = c_mem c"
  "c_halted (stash_sbb sz b k r c) = c_halted c" "reg (stash_sbb sz b k r c) = reg c"
  "c_gpr (stash_logic sz r c) = c_gpr c" "c_mem (stash_logic sz r c) = c_mem c"
  "c_halted (stash_logic sz r c) = c_halted c" "reg (stash_logic sz r c) = reg c"
  "c_gpr (stash_inc sz r c) = c_gpr c" "c_mem (stash_inc sz r c) = c_mem c"
  "c_halted (stash_inc sz r c) = c_halted c" "reg (stash_inc sz r c) = reg c"
  "c_gpr (stash_dec sz r c) = c_gpr c" "c_mem (stash_dec sz r c) = c_mem c"
  "c_halted (stash_dec sz r c) = c_halted c" "reg (stash_dec sz r c) = reg c"
  "c_gpr (stash_neg sz a r c) = c_gpr c" "c_mem (stash_neg sz a r c) = c_mem c"
  "c_halted (stash_neg sz a r c) = c_halted c" "reg (stash_neg sz a r c) = reg c"
  "c_gpr (stash_shl sz a n r c) = c_gpr c" "c_mem (stash_shl sz a n r c) = c_mem c"
  "c_halted (stash_shl sz a n r c) = c_halted c" "reg (stash_shl sz a n r c) = reg c"
  "c_gpr (stash_shr sz a n r c) = c_gpr c" "c_mem (stash_shr sz a n r c) = c_mem c"
  "c_halted (stash_shr sz a n r c) = c_halted c" "reg (stash_shr sz a n r c) = reg c"
  "c_gpr (stash_sar sz a n r c) = c_gpr c" "c_mem (stash_sar sz a n r c) = c_mem c"
  "c_halted (stash_sar sz a n r c) = c_halted c" "reg (stash_sar sz a n r c) = reg c"
  "c_gpr (stash_rol sz a n r c) = c_gpr c" "c_mem (stash_rol sz a n r c) = c_mem c"
  "c_halted (stash_rol sz a n r c) = c_halted c" "reg (stash_rol sz a n r c) = reg c"
  "c_gpr (stash_ror sz a n r c) = c_gpr c" "c_mem (stash_ror sz a n r c) = c_mem c"
  "c_halted (stash_ror sz a n r c) = c_halted c" "reg (stash_ror sz a n r c) = reg c"
  "c_gpr (stash_mul_ov k c) = c_gpr c" "c_mem (stash_mul_ov k c) = c_mem c"
  "c_halted (stash_mul_ov k c) = c_halted c" "reg (stash_mul_ov k c) = reg c"
  by (simp_all add: stash_add_def stash_adc_def stash_sub_def stash_sbb_def stash_logic_def
      stash_inc_def stash_dec_def stash_neg_def stash_shl_def stash_shr_def stash_sar_def stash_rol_def
      stash_ror_def stash_mul_ov_def Let_def)

lemma adc_general:
  assumes rd: "binary_reads env i c a b c2"
    and wr: "write_operand env i (i_dst i) (i_op_size i)
               ((a + b + of_bool (get_cf c2)) AND mask_for (i_op_size i)) (sync_flags c2) = (True, c3)"
  shows "op_adc env i c = stash_adc (i_op_size i) b (get_cf c2)
           ((a + b + of_bool (get_cf c2)) AND mask_for (i_op_size i)) c3"
    and "flags_of (op_adc env i c) = add_spec (width_of (i_op_size i)) (uint a) (uint b) (get_cf c2)"
proof -
  show *: "op_adc env i c = stash_adc (i_op_size i) b (get_cf c2)
           ((a + b + of_bool (get_cf c2)) AND mask_for (i_op_size i)) c3" using rd wr by (auto simp: binary_reads_def op_adc_def Let_def)
  show "flags_of (op_adc env i c) = add_spec (width_of (i_op_size i)) (uint a) (uint b) (get_cf c2)" unfolding * by (rule flags_of_stash_adc [OF binary_readsD [OF rd]])
qed

lemma sbb_general:
  assumes rd: "binary_reads env i c a b c2"
    and wr: "write_operand env i (i_dst i) (i_op_size i)
               ((a - b - of_bool (get_cf c2)) AND mask_for (i_op_size i)) (sync_flags c2) = (True, c3)"
  shows "op_sbb env i c = stash_sbb (i_op_size i) b (get_cf c2)
           ((a - b - of_bool (get_cf c2)) AND mask_for (i_op_size i)) c3"
    and "flags_of (op_sbb env i c) = sub_spec (width_of (i_op_size i)) (uint a) (uint b) (get_cf c2)"
proof -
  show *: "op_sbb env i c = stash_sbb (i_op_size i) b (get_cf c2)
           ((a - b - of_bool (get_cf c2)) AND mask_for (i_op_size i)) c3" using rd wr by (auto simp: binary_reads_def op_sbb_def Let_def)
  show "flags_of (op_sbb env i c) = sub_spec (width_of (i_op_size i)) (uint a) (uint b) (get_cf c2)" unfolding * by (rule flags_of_stash_sbb [OF binary_readsD [OF rd]])
qed

lemma add_general:
  assumes rd: "binary_reads env i c a b c2"
    and wr: "write_operand env i (i_dst i) (i_op_size i) ((a + b) AND mask_for (i_op_size i)) c2 = (True, c3)"
  shows "op_add env i c = stash_add (i_op_size i) b ((a + b) AND mask_for (i_op_size i)) c3"
    and "flags_of (op_add env i c) = add_spec (width_of (i_op_size i)) (uint a) (uint b) False"
proof -
  show *: "op_add env i c = stash_add (i_op_size i) b ((a + b) AND mask_for (i_op_size i)) c3" using rd wr by (auto simp: binary_reads_def op_add_def Let_def)
  show "flags_of (op_add env i c) = add_spec (width_of (i_op_size i)) (uint a) (uint b) False" unfolding * by (rule flags_of_stash_add [OF binary_readsD [OF rd]])
qed

lemma sub_general:
  assumes rd: "binary_reads env i c a b c2"
    and wr: "write_operand env i (i_dst i) (i_op_size i) ((a - b) AND mask_for (i_op_size i)) c2 = (True, c3)"
  shows "op_sub env i c = stash_sub (i_op_size i) b ((a - b) AND mask_for (i_op_size i)) c3"
    and "flags_of (op_sub env i c) = sub_spec (width_of (i_op_size i)) (uint a) (uint b) False"
proof -
  show *: "op_sub env i c = stash_sub (i_op_size i) b ((a - b) AND mask_for (i_op_size i)) c3" using rd wr by (auto simp: binary_reads_def op_sub_def Let_def)
  show "flags_of (op_sub env i c) = sub_spec (width_of (i_op_size i)) (uint a) (uint b) False" unfolding * by (rule flags_of_stash_sub [OF binary_readsD [OF rd]])
qed

lemma cmp_general:
  assumes rd: "binary_reads env i c a b c2"
  shows "op_cmp env i c = stash_sub (i_op_size i) b ((a - b) AND mask_for (i_op_size i)) c2"
    and "flags_of (op_cmp env i c) = sub_spec (width_of (i_op_size i)) (uint a) (uint b) False"
proof -
  show *: "op_cmp env i c = stash_sub (i_op_size i) b ((a - b) AND mask_for (i_op_size i)) c2" using rd by (auto simp: binary_reads_def op_cmp_def)
  show "flags_of (op_cmp env i c) = sub_spec (width_of (i_op_size i)) (uint a) (uint b) False" unfolding * by (rule flags_of_stash_sub [OF binary_readsD [OF rd]])
qed

lemma fits_logic:
  assumes "valid_size sz"
  shows "fits sz ((a AND b) AND mask_for sz)" "fits sz ((a OR b) AND mask_for sz)"
    "fits sz ((a XOR b) AND mask_for sz)"
  by simp_all

lemma logic_general:
  assumes rd: "binary_reads env i c a b c2"
  shows "write_operand env i (i_dst i) (i_op_size i) ((a AND b) AND mask_for (i_op_size i)) c2 = (True, c3) \<Longrightarrow>
      op_and env i c = stash_logic (i_op_size i) ((a AND b) AND mask_for (i_op_size i)) c3"
    and "write_operand env i (i_dst i) (i_op_size i) ((a OR b) AND mask_for (i_op_size i)) c2 = (True, c3) \<Longrightarrow>
      op_or env i c = stash_logic (i_op_size i) ((a OR b) AND mask_for (i_op_size i)) c3"
    and "write_operand env i (i_dst i) (i_op_size i) ((a XOR b) AND mask_for (i_op_size i)) c2 = (True, c3) \<Longrightarrow>
      op_xor env i c = stash_logic (i_op_size i) ((a XOR b) AND mask_for (i_op_size i)) c3"
    and "op_test env i c = stash_logic (i_op_size i) ((a AND b) AND mask_for (i_op_size i)) c2"
  using rd by (auto simp: binary_reads_def op_and_def op_or_def op_xor_def op_test_def Let_def)

section \<open>Register forms\<close>

text \<open>A register destination of the register file, and a register or immediate source.\<close>

definition reg_form :: "insn \<Rightarrow> bool" where
  "reg_form i \<longleftrightarrow> valid_size (i_op_size i) \<and> o_kind (i_dst i) = OK_Reg \<and>
     (o_reg (i_dst i) < 16 \<or> i_op_size i = 1 \<and> o_reg (i_dst i) < 20) \<and> direct_operand (i_src i)"

abbreviation dst_value :: "'m cpu \<Rightarrow> insn \<Rightarrow> u64" where
  "dst_value c i \<equiv> reg_operand_value c (o_reg (i_dst i)) (i_op_size i)"

abbreviation src_value :: "'m cpu \<Rightarrow> insn \<Rightarrow> u64" where
  "src_value c i \<equiv> direct_value c (i_src i) (i_op_size i)"

lemma reg_form_reads: "reg_form i \<Longrightarrow> binary_reads env i c (dst_value c i) (src_value c i) c"
  by (auto simp: reg_form_def binary_reads_def read_operand_reg_value read_direct direct_operand_def)

lemma reg_form_writes:
  assumes "reg_form i" "fits (i_op_size i) v"
  obtains c' where "write_operand env i (i_dst i) (i_op_size i) v c = (True, c')"
    "dst_value c' i = v" "\<And>j. j \<noteq> base_reg (o_reg (i_dst i)) (i_op_size i) \<Longrightarrow> reg c' j = reg c j"
    "c_mem c' = c_mem c" "c_halted c' = c_halted c" "c_rip c' = c_rip c" "c_rflags c' = c_rflags c"
    "flags_of c' = flags_of c"
proof -
  from assms have sz: "valid_size (i_op_size i)" and k: "o_kind (i_dst i) = OK_Reg"
    and r: "o_reg (i_dst i) < 16 \<or> i_op_size i = 1 \<and> o_reg (i_dst i) < 20" by (auto simp: reg_form_def)
  obtain c' where w: "write_reg_operand (o_reg (i_dst i)) (i_op_size i) v c = (True, c')"
    using write_reg_operand_ok [OF sz] by blast
  define g where "g = c_gpr c'"
  have c': "c' = c\<lparr>c_gpr := g\<rparr>" unfolding g_def by (rule write_reg_frame(2) [OF w sz])
  have "flags_of c' = flags_of c" by (simp add: flags_of_computed c')
  then show thesis
    using that [of c'] w k write_reg_frame(1) [OF w sz] reg_operand_value_write [OF sz assms(2) r w]
    by (simp add: write_operand_reg) (simp add: c')
qed

text \<open>
  The outcome of a register-form instruction: the destination holds \<open>r\<close>, the status flags are
  \<open>f\<close>, and no other register and no memory changed.
\<close>

definition alu_outcome :: "insn \<Rightarrow> 'm cpu \<Rightarrow> 'm cpu \<Rightarrow> int \<Rightarrow> aflags \<Rightarrow> bool" where
  "alu_outcome i c c' r f \<longleftrightarrow>
     uint (dst_value c' i) = r \<and> flags_of c' = f \<and>
     (\<forall>j. j \<noteq> base_reg (o_reg (i_dst i)) (i_op_size i) \<longrightarrow> reg c' j = reg c j) \<and>
     c_mem c' = c_mem c \<and> c_halted c' = c_halted c"

lemma alu_outcomeI:
  assumes "reg_form i" "fits (i_op_size i) v" "reg d = reg c" "c_mem d = c_mem c" "c_halted d = c_halted c"
    and "\<And>c1. write_operand env i (i_dst i) (i_op_size i) v d = (True, c1) \<Longrightarrow>
      reg c' = reg c1 \<and> c_mem c' = c_mem c1 \<and> c_halted c' = c_halted c1 \<and> flags_of c' = f"
    and "uint v = r"
  shows "alu_outcome i c c' r f"
proof -
  obtain c1 where w: "write_operand env i (i_dst i) (i_op_size i) v d = (True, c1)"
    "dst_value c1 i = v" "\<And>j. j \<noteq> base_reg (o_reg (i_dst i)) (i_op_size i) \<Longrightarrow> reg c1 j = reg d j"
    "c_mem c1 = c_mem d" "c_halted c1 = c_halted d"
    using reg_form_writes [OF assms(1,2)] by metis
  have "c_mem c1 = c_mem c" "c_halted c1 = c_halted c" using w(4,5) assms(4,5) by simp_all
  moreover have "dst_value c' i = dst_value c1 i"
    using assms(6) [OF w(1)] by (simp add: reg_operand_value_def reg8_eq)
  ultimately show ?thesis
    using assms(6) [OF w(1)] w(2,3) assms(3,7) by (simp add: alu_outcome_def)
qed

lemma op_add_outcome:
  assumes "reg_form i"
  shows "alu_outcome i c (op_add env i c)
      ((uint (dst_value c i) + uint (src_value c i)) mod 2 ^ width_of (i_op_size i))
      (add_spec (width_of (i_op_size i)) (uint (dst_value c i)) (uint (src_value c i)) False)"
proof -
  note rd = reg_form_reads [OF assms, where env = env and c = c]
  note sz = binary_readsD(1) [OF rd]
  show ?thesis
    by (rule alu_outcomeI [OF assms, where d = c and env = env and
          v = "(dst_value c i + src_value c i) AND mask_for (i_op_size i)"])
      (simp_all add: add_general(1) [OF rd] flags_of_stash_add [OF binary_readsD [OF rd]] uint_masked(1) [OF sz])
qed

lemma op_adc_outcome:
  assumes "reg_form i"
  shows "alu_outcome i c (op_adc env i c)
      ((uint (dst_value c i) + uint (src_value c i) + of_bool (get_cf c)) mod 2 ^ width_of (i_op_size i))
      (add_spec (width_of (i_op_size i)) (uint (dst_value c i)) (uint (src_value c i)) (get_cf c))"
proof -
  note rd = reg_form_reads [OF assms, where env = env and c = c]
  note sz = binary_readsD(1) [OF rd]
  show ?thesis
    by (rule alu_outcomeI [OF assms, where d = "sync_flags c" and env = env and
          v = "(dst_value c i + src_value c i + of_bool (get_cf c)) AND mask_for (i_op_size i)"])
      (simp_all only: adc_general(1) [OF rd] flags_of_stash_adc [OF binary_readsD [OF rd]]
        uint_of_bool_sum(1) [OF sz] stash_kinds_frame sync_flags_frame fits_and_mask simp_thms)
qed

lemma op_sub_outcome:
  assumes "reg_form i"
  shows "alu_outcome i c (op_sub env i c)
      ((uint (dst_value c i) - uint (src_value c i)) mod 2 ^ width_of (i_op_size i))
      (sub_spec (width_of (i_op_size i)) (uint (dst_value c i)) (uint (src_value c i)) False)"
proof -
  note rd = reg_form_reads [OF assms, where env = env and c = c]
  note sz = binary_readsD(1) [OF rd]
  show ?thesis
    by (rule alu_outcomeI [OF assms, where d = c and env = env and
          v = "(dst_value c i - src_value c i) AND mask_for (i_op_size i)"])
      (simp_all add: sub_general(1) [OF rd] flags_of_stash_sub [OF binary_readsD [OF rd]] uint_masked(2) [OF sz])
qed

lemma op_sbb_outcome:
  assumes "reg_form i"
  shows "alu_outcome i c (op_sbb env i c)
      ((uint (dst_value c i) - uint (src_value c i) - of_bool (get_cf c)) mod 2 ^ width_of (i_op_size i))
      (sub_spec (width_of (i_op_size i)) (uint (dst_value c i)) (uint (src_value c i)) (get_cf c))"
proof -
  note rd = reg_form_reads [OF assms, where env = env and c = c]
  note sz = binary_readsD(1) [OF rd]
  show ?thesis
    by (rule alu_outcomeI [OF assms, where d = "sync_flags c" and env = env and
          v = "(dst_value c i - src_value c i - of_bool (get_cf c)) AND mask_for (i_op_size i)"])
      (simp_all only: sbb_general(1) [OF rd] flags_of_stash_sbb [OF binary_readsD [OF rd]]
        uint_of_bool_sum(2) [OF sz] stash_kinds_frame sync_flags_frame fits_and_mask simp_thms)
qed

lemma reg_form_dst:
  "reg_form i \<Longrightarrow> read_operand env i (i_dst i) (i_op_size i) c = (Some (dst_value c i), c)"
  "reg_form i \<Longrightarrow> valid_size (i_op_size i)" "reg_form i \<Longrightarrow> fits (i_op_size i) (dst_value c i)"
  by (simp_all add: reg_form_def read_operand_reg_value fits_reg_operand_value)

lemma mod_cong_int: "(b :: int) = a + m \<Longrightarrow> a mod m = b mod m"
  by simp

lemma unary_outcomes:
  assumes form: "reg_form i"
  shows "alu_outcome i c (op_inc env i c)
      ((uint (dst_value c i) + 1) mod 2 ^ width_of (i_op_size i))
      ((add_spec (width_of (i_op_size i)) (uint (dst_value c i)) 1 False)\<lparr>fl_cf := fl_cf (flags_of c)\<rparr>)" (is ?inc)
    and "alu_outcome i c (op_dec env i c)
      ((uint (dst_value c i) - 1) mod 2 ^ width_of (i_op_size i))
      ((sub_spec (width_of (i_op_size i)) (uint (dst_value c i)) 1 False)\<lparr>fl_cf := fl_cf (flags_of c)\<rparr>)" (is ?dec)
    and "alu_outcome i c (op_neg env i c)
      ((0 - uint (dst_value c i)) mod 2 ^ width_of (i_op_size i))
      ((sub_spec (width_of (i_op_size i)) 0 (uint (dst_value c i)) False)
        \<lparr>fl_af := uint (dst_value c i) mod 16 \<noteq> 0 \<or> odd (uint (dst_value c i) div 16)\<rparr>)" (is ?neg)
    and "alu_outcome i c (op_not env i c)
      (2 ^ width_of (i_op_size i) - 1 - uint (dst_value c i)) (flags_of c)" (is ?not)
proof -
  note sz = reg_form_dst(2) [OF form] and fits = reg_form_dst(3) [OF form, where c = c]
  have writes: "flags_of c1 = flags_of c"
    if "write_operand env i (i_dst i) (i_op_size i) v c = (True, c1)" "fits (i_op_size i) v" for v c1
    using that reg_form_writes [OF form that(2), of env c] by (metis prod.inject)
  show ?inc
    by (rule alu_outcomeI [OF form, where d = c and env = env and
          v = "(dst_value c i + 1) AND mask_for (i_op_size i)"])
      (simp_all add: op_inc_def reg_form_dst [OF form] flags_of_stash_inc [OF sz fits] writes
        uint_masked(1) [OF sz, of _ 1, simplified])
  show ?dec
    by (rule alu_outcomeI [OF form, where d = c and env = env and
          v = "(dst_value c i - 1) AND mask_for (i_op_size i)"])
      (simp_all add: op_dec_def reg_form_dst [OF form] flags_of_stash_dec [OF sz fits] writes
        uint_masked(2) [OF sz, of _ 1, simplified])
  have nn: "NOT (dst_value c i) + 1 = 0 - dst_value c i" by (simp add: minus_eq_not_plus_1)
  show ?neg
    by (rule alu_outcomeI [OF form, where d = c and env = env and
          v = "(NOT (dst_value c i) + 1) AND mask_for (i_op_size i)"])
      (simp_all only: op_neg_def reg_form_dst [OF form] flags_of_stash_neg [OF sz fits] Let_def
        uint_masked(2) [OF sz, of 0 "dst_value c i", folded nn, unfolded unsigned_0] read_then_simps ok_then_simps
        stash_kinds_frame fits_and_mask simp_thms)
  have "(- uint (dst_value c i) - 1) mod 2 ^ width_of (i_op_size i) =
      (2 ^ width_of (i_op_size i) - 1 - uint (dst_value c i)) mod 2 ^ width_of (i_op_size i)"
    by (rule mod_cong_int) (simp add: algebra_simps)
  also have "\<dots> = 2 ^ width_of (i_op_size i) - 1 - uint (dst_value c i)"
    using uint_fits_bounds [OF sz fits] unsigned_greater_eq [of "dst_value c i"]
    by (intro mod_pos_pos_trivial) linarith+
  finally have "uint (NOT (dst_value c i) AND mask_for (i_op_size i)) =
      2 ^ width_of (i_op_size i) - 1 - uint (dst_value c i)"
    using uint_of_bool_sum(2) [OF sz, of 0 "dst_value c i" True] by (simp add: not_eq_complement)
  then show ?not
    by (intro alu_outcomeI [OF form, where d = c and env = env and
          v = "NOT (dst_value c i) AND mask_for (i_op_size i)"])
      (simp_all add: op_not_def reg_form_dst [OF form] writes)
qed

lemma logic_outcomes:
  assumes form: "reg_form i"
  shows "alu_outcome i c (op_and env i c) (uint (dst_value c i AND src_value c i))
      (logic_spec (width_of (i_op_size i)) (uint (dst_value c i AND src_value c i)))" (is ?and)
    and "alu_outcome i c (op_or env i c) (uint (dst_value c i OR src_value c i))
      (logic_spec (width_of (i_op_size i)) (uint (dst_value c i OR src_value c i)))" (is ?or)
    and "alu_outcome i c (op_xor env i c) (uint (dst_value c i XOR src_value c i))
      (logic_spec (width_of (i_op_size i)) (uint (dst_value c i XOR src_value c i)))" (is ?xor)
proof -
  note rd = reg_form_reads [OF form, where env = env and c = c]
  note sz = reg_form_dst(2) [OF form]
  have "dst_value c i AND mask_for (i_op_size i) = dst_value c i"
    "src_value c i AND mask_for (i_op_size i) = src_value c i"
    using reg_form_dst(3) [OF form] fits_direct_value [OF sz] by (simp_all add: fits_def)
  then have masks: "(dst_value c i AND src_value c i) AND mask_for (i_op_size i) = dst_value c i AND src_value c i"
    "(dst_value c i OR src_value c i) AND mask_for (i_op_size i) = dst_value c i OR src_value c i"
    "(dst_value c i XOR src_value c i) AND mask_for (i_op_size i) = dst_value c i XOR src_value c i"
    by (simp_all add: and.assoc bit.conj_disj_distrib2 bit.conj_xor_distrib2)
  then have fits: "fits (i_op_size i) (dst_value c i AND src_value c i)"
    "fits (i_op_size i) (dst_value c i OR src_value c i)" "fits (i_op_size i) (dst_value c i XOR src_value c i)"
    by (simp_all only: fits_def)
  note general = logic_general [OF rd, unfolded masks]
  show ?and
    by (rule alu_outcomeI [OF form fits(1), where d = c and env = env])
      (simp_all only: general flags_of_stash_logic [OF sz fits(1)] stash_kinds_frame simp_thms)
  show ?or
    by (rule alu_outcomeI [OF form fits(2), where d = c and env = env])
      (simp_all only: general flags_of_stash_logic [OF sz fits(2)] stash_kinds_frame simp_thms)
  show ?xor
    by (rule alu_outcomeI [OF form fits(3), where d = c and env = env])
      (simp_all only: general flags_of_stash_logic [OF sz fits(3)] stash_kinds_frame simp_thms)
qed

lemma cond_of_negated:
  "cond_of f Cc_NZ \<longleftrightarrow> \<not> cond_of f Cc_Z" "cond_of f Cc_NB \<longleftrightarrow> \<not> cond_of f Cc_B"
  "cond_of f Cc_NBE \<longleftrightarrow> \<not> cond_of f Cc_BE" "cond_of f Cc_NL \<longleftrightarrow> \<not> cond_of f Cc_L"
  "cond_of f Cc_NLE \<longleftrightarrow> \<not> cond_of f Cc_LE"
  by simp_all

lemma half_carry_join:
  fixes m :: int
  assumes "0 \<le> al" "al < m" "0 \<le> bl" "bl < m"
  shows "(al + bl) mod m + m * ((ah + bh + of_bool (m \<le> al + bl)) mod m) = (al + m * ah + (bl + m * bh)) mod (m * m)"
proof -
  have q: "(al + bl) div m = of_bool (m \<le> al + bl)"
  proof (cases "m \<le> al + bl")
    case True
    have "(al + bl) div m = ((al + bl - m) + m) div m" by simp
    also have "\<dots> = (al + bl - m) div m + 1" using assms by (intro div_add_self2) auto
    also have "(al + bl - m) div m = 0" using assms True by (intro div_pos_pos_trivial) auto
    finally show ?thesis using True by simp
  next
    case False
    then show ?thesis using assms by (simp add: div_pos_pos_trivial)
  qed
  have "(al + m * ah + (bl + m * bh)) mod (m * m) =
      m * ((al + m * ah + (bl + m * bh)) div m mod m) + (al + m * ah + (bl + m * bh)) mod m"
    by (rule zmod_zmult2_eq) (use assms in auto)
  moreover have "(al + m * ah + (bl + m * bh)) mod m = (al + bl) mod m"
    by (metis (no_types, opaque_lifting) add.assoc add.commute mod_mult_self2)
  moreover have "al + m * ah + (bl + m * bh) = (al + bl) + (ah + bh) * m" by (simp add: algebra_simps)
  then have "(al + m * ah + (bl + m * bh)) div m = (al + bl) div m + (ah + bh)"
    using assms by (simp only: div_mult_self1)
  ultimately show ?thesis by (simp add: q add.commute)
qed

section \<open>Properties\<close>

text \<open>C1: ADD and ADC with a register destination compute the sum, plus the carry flag for ADC, modulo
  the operand width, set the six status flags as the integer specification says, and
  change no other register and no memory.\<close>

theorem op_add_adc_register:
  assumes "reg_form i"
  shows "let w = width_of (i_op_size i); a = uint (dst_value c i); b = uint (src_value c i); k = of_bool (get_cf c)
    in alu_outcome i c (op_add env i c) ((a + b) mod 2 ^ w) (add_spec w a b False) \<and>
       alu_outcome i c (op_adc env i c) ((a + b + k) mod 2 ^ w) (add_spec w a b (get_cf c))"
  by (simp add: Let_def op_add_outcome [OF assms] op_adc_outcome [OF assms])

theorem op_add_adc_register_witness:
  "alu_outcome (plain_insn 4 (reg_op 0) (imm_op 0xFFFFFFFF)) (set_cf True (set_r64 0 1 (initial_cpu ())))
     (op_adc no_env (plain_insn 4 (reg_op 0) (imm_op 0xFFFFFFFF)) (set_cf True (set_r64 0 1 (initial_cpu ()))))
     1 (add_spec 32 1 0xFFFFFFFF True)"
  using op_add_adc_register [of "plain_insn 4 (reg_op 0) (imm_op 0xFFFFFFFF)"
      "set_cf True (set_r64 0 1 (initial_cpu ()))" no_env]
  by (simp add: reg_form_def direct_operand_def direct_value_def reg_operand_value_def Let_def
      mask_for_def get_flags_of)

text \<open>SUB and SBB with a register destination compute the difference, less the borrow for SBB,
  modulo the operand width, set the six status flags as the integer specification says,
  and change no other register and no memory.\<close>

theorem op_sub_sbb_register:
  assumes "reg_form i"
  shows "let w = width_of (i_op_size i); a = uint (dst_value c i); b = uint (src_value c i); k = of_bool (get_cf c)
    in alu_outcome i c (op_sub env i c) ((a - b) mod 2 ^ w) (sub_spec w a b False) \<and>
       alu_outcome i c (op_sbb env i c) ((a - b - k) mod 2 ^ w) (sub_spec w a b (get_cf c))"
  by (simp add: Let_def op_sub_outcome [OF assms] op_sbb_outcome [OF assms])

theorem op_sub_sbb_register_witness:
  "alu_outcome (plain_insn 1 (reg_op 16) (reg_op 0)) (set_cf True (set_r64 0 0x0105 (initial_cpu ())))
     (op_sbb no_env (plain_insn 1 (reg_op 16) (reg_op 0)) (set_cf True (set_r64 0 0x0105 (initial_cpu ()))))
     251 (sub_spec 8 1 5 True)"
  using op_sub_sbb_register [of "plain_insn 1 (reg_op 16) (reg_op 0)"
      "set_cf True (set_r64 0 0x0105 (initial_cpu ()))" no_env]
  by (simp add: reg_form_def direct_operand_def direct_value_def reg_operand_value_def Let_def
      mask_for_def get_flags_of reg8_eq)

text \<open>C2: After CMP of any two readable operands the conditional jumps decide the unsigned and
  the signed comparison of their values.\<close>

theorem op_cmp_conditions:
  assumes "binary_reads env i c a b c2"
  shows "let c' = op_cmp env i c; w = width_of (i_op_size i)
    in (cond_holds c' Cc_Z \<longleftrightarrow> uint a = uint b) \<and> (cond_holds c' Cc_NZ \<longleftrightarrow> uint a \<noteq> uint b) \<and>
       (cond_holds c' Cc_B \<longleftrightarrow> uint a < uint b) \<and> (cond_holds c' Cc_NB \<longleftrightarrow> uint b \<le> uint a) \<and>
       (cond_holds c' Cc_BE \<longleftrightarrow> uint a \<le> uint b) \<and> (cond_holds c' Cc_NBE \<longleftrightarrow> uint b < uint a) \<and>
       (cond_holds c' Cc_L \<longleftrightarrow> sval w (uint a) < sval w (uint b)) \<and>
       (cond_holds c' Cc_NL \<longleftrightarrow> sval w (uint b) \<le> sval w (uint a)) \<and>
       (cond_holds c' Cc_LE \<longleftrightarrow> sval w (uint a) \<le> sval w (uint b)) \<and>
       (cond_holds c' Cc_NLE \<longleftrightarrow> sval w (uint b) < sval w (uint a))"
proof -
  note sz = binary_readsD(1) [OF assms]
  have "1 \<le> width_of (i_op_size i)" using width_of_range [OF sz] by simp
  note conds = cond_of_sub_spec [OF _ _ _ _ this, of "uint a" "uint b"]
  show ?thesis
    using uint_fits_bounds [OF sz binary_readsD(2) [OF assms]] uint_fits_bounds [OF sz binary_readsD(3) [OF assms]]
    by (auto simp: Let_def cond_holds_flags_of cmp_general(2) [OF assms] cond_of_negated conds simp del: cond_of.simps)
qed

theorem op_cmp_conditions_witness:
  "cond_holds (op_cmp no_env (plain_insn 1 (reg_op 0) (imm_op 1)) (set_r64 0 0xFF (initial_cpu ()))) Cc_L \<and>
   cond_holds (op_cmp no_env (plain_insn 1 (reg_op 0) (imm_op 1)) (set_r64 0 0xFF (initial_cpu ()))) Cc_NBE"
proof -
  have "binary_reads no_env (plain_insn 1 (reg_op 0) (imm_op 1)) (set_r64 0 0xFF (initial_cpu ())) 255 1
      (set_r64 0 0xFF (initial_cpu ()))"
    by (simp add: binary_reads_def read_operand_reg read_operand_imm mask_for_def)
  from op_cmp_conditions [OF this] show ?thesis by (simp add: Let_def sval_def)
qed

text \<open>ADD on the low halves followed by ADC on the high halves is 128-bit addition: the
  destination pair holds the sum of the pairs modulo \<open>2 ^ 128\<close>.\<close>

theorem add_adc_chain:
  assumes "d1 < 16" "d2 < 16" "s2 < 16" "d1 \<noteq> d2" "d1 \<noteq> s2"
  shows "let c1 = op_add env (plain_insn 8 (reg_op d1) (reg_op s1)) c;
             c2 = op_adc env (plain_insn 8 (reg_op d2) (reg_op s2)) c1
    in uint (reg c2 d1) + 2 ^ 64 * uint (reg c2 d2) =
       ((uint (reg c d1) + 2 ^ 64 * uint (reg c d2)) + (uint (reg c s1) + 2 ^ 64 * uint (reg c s2))) mod 2 ^ 128"
proof -
  let ?i1 = "plain_insn 8 (reg_op d1) (reg_op s1)" and ?i2 = "plain_insn 8 (reg_op d2) (reg_op s2)"
  let ?c1 = "op_add env ?i1 c"
  have val: "reg_operand_value x r 8 = reg x r" for x :: "'a cpu" and r
    by (simp add: reg_operand_value_def and_mask_for take_bit_word_eq_self)
  have form: "reg_form ?i1" "reg_form ?i2"
    using assms by (simp_all add: reg_form_def direct_operand_def)
  note 1 = op_add_outcome [OF form(1), of c env, unfolded alu_outcome_def]
  note 2 = op_adc_outcome [OF form(2), of ?c1 env, unfolded alu_outcome_def]
  have cf: "get_cf ?c1 \<longleftrightarrow> 2 ^ 64 \<le> uint (reg c d1) + uint (reg c s1)"
    using 1 by (simp add: get_flags_of direct_value_def val add_spec_def Let_def)
  have same: "reg ?c1 d2 = reg c d2" "reg ?c1 s2 = reg c s2"
    using 1 assms by (simp_all add: base_reg_def)
  have "uint (reg ?c1 d1) = (uint (reg c d1) + uint (reg c s1)) mod 2 ^ 64"
    using 1 by (simp add: direct_value_def val)
  moreover have "reg (op_adc env ?i2 ?c1) d1 = reg ?c1 d1"
    using 2 assms by (simp add: base_reg_def)
  moreover have "uint (reg (op_adc env ?i2 ?c1) d2) =
      (uint (reg c d2) + uint (reg c s2) + of_bool (2 ^ 64 \<le> uint (reg c d1) + uint (reg c s1))) mod 2 ^ 64"
    using 2 by (simp add: direct_value_def val same cf)
  moreover have "uint (reg c d1) < 2 ^ 64" "uint (reg c s1) < 2 ^ 64"
    using uint_lt2p [of "reg c d1"] uint_lt2p [of "reg c s1"] by simp_all
  ultimately show ?thesis
    using half_carry_join [of "uint (reg c d1)" "2 ^ 64" "uint (reg c s1)" "uint (reg c d2)" "uint (reg c s2)"]
    by (simp add: Let_def)
qed

theorem add_adc_chain_witness:
  "let c = set_r64 0 0xFFFFFFFFFFFFFFFF (set_r64 1 1 (initial_cpu ()));
       c1 = op_add no_env (plain_insn 8 (reg_op 0) (reg_op 1)) c;
       c2 = op_adc no_env (plain_insn 8 (reg_op 2) (reg_op 3)) c1
   in uint (reg c2 0) + 2 ^ 64 * uint (reg c2 2) = 2 ^ 64"
  using add_adc_chain [of 0 2 3 no_env 1 "set_r64 0 0xFFFFFFFFFFFFFFFF (set_r64 1 1 (initial_cpu ()))"]
  by (simp add: Let_def)

text \<open>INC, DEC and NEG compute their integer results and flags at every width.  INC and DEC
  keep CF.  NEG sets AF when the low nibble is not zero and also when bit 4 of the operand is set,
  where the borrow out of bit 3 alone would give the first condition only.\<close>

theorem op_inc_dec_neg_register:
  assumes "reg_form i"
  shows "let w = width_of (i_op_size i); a = uint (dst_value c i); cf = get_cf c
    in alu_outcome i c (op_inc env i c) ((a + 1) mod 2 ^ w) ((add_spec w a 1 False)\<lparr>fl_cf := cf\<rparr>) \<and>
       alu_outcome i c (op_dec env i c) ((a - 1) mod 2 ^ w) ((sub_spec w a 1 False)\<lparr>fl_cf := cf\<rparr>) \<and>
       alu_outcome i c (op_neg env i c) ((0 - a) mod 2 ^ w)
         ((sub_spec w 0 a False)\<lparr>fl_af := a mod 16 \<noteq> 0 \<or> odd (a div 16)\<rparr>)"
  using unary_outcomes [OF assms, of c env] by (simp add: Let_def get_flags_of)

text \<open>At 0x10 the flag disagrees with the borrow.\<close>

theorem op_inc_dec_neg_register_witness:
  "alu_outcome (plain_insn 1 (reg_op 0) (reg_op 0)) (set_r64 0 0x10 (initial_cpu ()))
     (op_neg no_env (plain_insn 1 (reg_op 0) (reg_op 0)) (set_r64 0 0x10 (initial_cpu ())))
     0xF0 ((sub_spec 8 0 0x10 False)\<lparr>fl_af := True\<rparr>) \<and> \<not> fl_af (sub_spec 8 0 0x10 False)"
  using op_inc_dec_neg_register [of "plain_insn 1 (reg_op 0) (reg_op 0)" "set_r64 0 0x10 (initial_cpu ())" no_env]
  by (simp add: reg_form_def direct_operand_def reg_operand_value_def Let_def mask_for_def)
    (simp add: sub_spec_def Let_def)

text \<open>AND, OR and XOR of register operands compute the bitwise result, clear CF, AF and OF and set ZF,
  SF and PF from the result; NOT complements its operand and changes no flag.\<close>

theorem op_logic_register:
  assumes "reg_form i"
  shows "let w = width_of (i_op_size i); a = dst_value c i; b = src_value c i
    in alu_outcome i c (op_and env i c) (uint (a AND b)) (logic_spec w (uint (a AND b))) \<and>
       alu_outcome i c (op_or env i c) (uint (a OR b)) (logic_spec w (uint (a OR b))) \<and>
       alu_outcome i c (op_xor env i c) (uint (a XOR b)) (logic_spec w (uint (a XOR b))) \<and>
       alu_outcome i c (op_not env i c) (2 ^ w - 1 - uint a) (flags_of c)"
  using logic_outcomes [OF assms, of c env] unary_outcomes(4) [OF assms, of c env] by (simp add: Let_def)

theorem op_logic_register_witness:
  "alu_outcome (plain_insn 4 (reg_op 3) (reg_op 3)) (set_r64 3 0xDEADBEEF00001234 (initial_cpu ()))
     (op_xor no_env (plain_insn 4 (reg_op 3) (reg_op 3)) (set_r64 3 0xDEADBEEF00001234 (initial_cpu ())))
     0 (logic_spec 32 0)"
  using op_logic_register [of "plain_insn 4 (reg_op 3) (reg_op 3)" "set_r64 3 0xDEADBEEF00001234 (initial_cpu ())" no_env]
  by (simp add: reg_form_def direct_operand_def direct_value_def reg_operand_value_def Let_def mask_for_def)

end
