(* ===== verification/Multiply_Divide.thy ===== *)
theory Multiply_Divide
  imports Arithmetic
begin

text \<open>
  What the multiplication and division handlers of \<^verbatim>\<open>src/emu/handlers/arithmetic.cpp\<close> compute: the
  double-width accumulator \<open>rDX:rAX\<close> holds the full product, CF and OF tell whether the upper half
  matters, and a division yields the exact quotient and remainder or a divide error.
\<close>

section \<open>The double-width accumulator\<close>

text \<open>AX at size 1, and DX:AX, EDX:EAX, RDX:RAX at the other sizes.\<close>

definition acc_pair :: "u8 \<Rightarrow> 'm cpu \<Rightarrow> int" where
  "acc_pair sz c =
     (if sz = 1 then uint (reg16 c RAX)
      else uint (reg_operand_value c RAX sz) + 2 ^ width_of sz * uint (reg_operand_value c RDX sz))"

lemma reg_operand_value_take_bit:
  "reg_operand_value c r 2 = take_bit 16 (reg c r)" "reg_operand_value c r 4 = take_bit 32 (reg c r)"
  "reg_operand_value c r 8 = reg c r"
  by (simp_all add: reg_operand_value_def and_mask_for take_bit_word_eq_self)

lemma reg_operand_value_set:
  "reg_operand_value (set_r16 i v c) j 2 = (if j = i then ucast v else reg_operand_value c j 2)"
  "reg_operand_value (set_r32 i v' c) j 4 = (if j = i then ucast v' else reg_operand_value c j 4)"
  "reg_operand_value (set_r64 i v'' c) j 8 = (if j = i then v'' else reg_operand_value c j 8)"
proof -
  have v: "bit v n \<Longrightarrow> n < 16" "bit v' n \<Longrightarrow> n < 32" for n by (auto dest: bit_imp_le_length)
  show "reg_operand_value (set_r16 i v c) j 2 = (if j = i then ucast v else reg_operand_value c j 2)"
    by (rule bit_word_eqI) (use v in \<open>auto simp: reg_operand_value_take_bit bit_take_bit_iff bit_reg_set_r16
        bit_ucast_iff simp del: reg_set_r16\<close>)
  show "reg_operand_value (set_r32 i v' c) j 4 = (if j = i then ucast v' else reg_operand_value c j 4)"
    by (rule bit_word_eqI) (use v in \<open>auto simp: reg_operand_value_take_bit bit_take_bit_iff bit_ucast_iff\<close>)
  show "reg_operand_value (set_r64 i v'' c) j 8 = (if j = i then v'' else reg_operand_value c j 8)"
    by (simp add: reg_operand_value_take_bit)
qed

lemma reg16_set_r16: "reg16 (set_r16 i v c) j = (if j = i then v else reg16 c j)"
  by (rule bit_word_eqI)
    (simp add: reg16_def c_gpr_reg mask_literals bit_simps bit_reg_set_r16 del: reg_set_r16)

lemma uint_ucast_up: "LENGTH('a::len) \<le> LENGTH('b::len) \<Longrightarrow> uint (ucast (x :: 'a word) :: 'b word) = uint x"
  by (simp add: uint_up_ucast is_up)

lemma uint_ucast_down: "uint (ucast (x :: 'a::len word) :: 'b::len word) = uint x mod 2 ^ LENGTH('b)"
  by (simp add: unsigned_ucast_eq take_bit_eq_mod)

lemma uint_prod_fits:
  assumes "fits sz a" "fits sz b" "valid_size sz" "width_of sz = w"
  shows "uint a * uint b < 2 ^ (2 * w)"
proof -
  have "uint a \<le> 2 ^ w - 1" "uint b \<le> 2 ^ w - 1" using assms by (auto simp: fits_uint)
  then have "uint a * uint b \<le> (2 ^ w - 1) * (2 ^ w - 1)" by (intro mult_mono) auto
  also have "\<dots> < 2 ^ w * 2 ^ w"
  proof -
    have "(2 ^ w - 1) * (2 ^ w - 1) = 2 ^ w * 2 ^ w - 2 * 2 ^ w + (1 :: int)"
      by (simp only: left_diff_distrib right_diff_distrib mult_1_left mult_1_right)
    moreover have "(1 :: int) \<le> 2 ^ w" by simp
    ultimately show ?thesis by linarith
  qed
  also have "\<dots> = 2 ^ (2 * w)" by (simp add: power_add mult_2)
  finally show ?thesis .
qed

lemma mul_ov_flags:
  "get_cf (stash_mul_ov v c) = v" "get_of (stash_mul_ov v c) = v"
  by (simp_all add: get_flags_of flags_of_computed stash_mul_ov_def stash_def bits_flags_def compute_mul_ov_def
      bit_or_iff bit_with_flag bit_int_literals)

lemma acc_pair_mul_ov [simp]: "acc_pair sz (stash_mul_ov v c) = acc_pair sz c"
  by (simp add: acc_pair_def reg16_def c_gpr_reg reg_operand_value_def reg8_eq)

lemma div_less_iff_less_mult_int:
  assumes "(x :: int) < 2 ^ w * 2 ^ w"
  shows "x div 2 ^ w < 2 ^ w"
proof (rule ccontr)
  assume "\<not> x div 2 ^ w < 2 ^ w"
  then have "2 ^ w * 2 ^ w \<le> 2 ^ w * (x div 2 ^ w)" by simp
  also have "\<dots> \<le> x" by (simp add: minus_mod_eq_mult_div [symmetric])
  finally show False using assms by simp
qed

lemma split_halves:
  fixes x :: int
  assumes "0 \<le> x" "x < 2 ^ (2 * w)"
  shows "x mod 2 ^ w + 2 ^ w * (x div 2 ^ w) = x" "0 \<le> x div 2 ^ w" "x div 2 ^ w < 2 ^ w"
    "x div 2 ^ w = 0 \<longleftrightarrow> x < 2 ^ w"
proof -
  show "x mod 2 ^ w + 2 ^ w * (x div 2 ^ w) = x" by simp
  show "0 \<le> x div 2 ^ w" using assms by (simp add: pos_imp_zdiv_nonneg_iff)
  have "x < 2 ^ w * 2 ^ w" using assms by (simp add: power_add mult_2)
  then show "x div 2 ^ w < 2 ^ w" by (intro div_less_iff_less_mult_int) 
  show "x div 2 ^ w = 0 \<longleftrightarrow> x < 2 ^ w"
    using assms by (auto simp: zdiv_eq_0_iff)
qed

text \<open>The accumulator after storing an integer product in it.\<close>

lemma int_halves: "(p :: int) mod 2 ^ w + 2 ^ w * (drop_bit w p mod 2 ^ w) = p mod (2 ^ w * 2 ^ w)"
  using zmod_zmult2_eq [of "2 ^ w" p "2 ^ w"] by (simp add: drop_bit_eq_div)

lemma word_numeral_neqs:
  "(2 :: u8) \<noteq> 1" "(4 :: u8) \<noteq> 1" "(8 :: u8) \<noteq> 1" "(4 :: u8) \<noteq> 2" "(8 :: u8) \<noteq> 2" "(8 :: u8) \<noteq> 4"
  by simp_all

lemma acc_pair_store:
  "acc_pair 1 (set_r16 RAX (word_of_int p) c) = p mod 2 ^ 16"
  "acc_pair 2 (set_r16 RDX (word_of_int (drop_bit 16 p)) (set_r16 RAX (word_of_int p) c)) = p mod 2 ^ 32"
  "acc_pair 4 (set_r32 RDX (word_of_int (drop_bit 32 p)) (set_r32 RAX (word_of_int p) c)) = p mod 2 ^ 64"
  "acc_pair 8 (set_r64 RDX (word_of_int (drop_bit 64 p)) (set_r64 RAX (word_of_int p) c)) = p mod 2 ^ 128"
proof -
  have ne: "RAX \<noteq> RDX" "(2 :: u8) \<noteq> 1" "(4 :: u8) \<noteq> 1" "(8 :: u8) \<noteq> 1" by simp_all
  have up: "uint (ucast (x :: u16) :: u64) = uint x" "uint (ucast (y :: u32) :: u64) = uint y" for x y
    by (rule uint_ucast_up, simp)+
  have w: "(16 :: nat) + 16 = 32" "(32 :: nat) + 32 = 64" "(64 :: nat) + 64 = 128" by simp_all
  note facts = acc_pair_def reg16_set_r16 reg_operand_value_set ne if_True if_False up uint_word_of_int
    width_of_consts len_num1 len_num0 len_bit0
  show "acc_pair 1 (set_r16 RAX (word_of_int p) c) = p mod 2 ^ 16"
    by (simp add: acc_pair_def reg16_set_r16 uint_word_of_int)
  show "acc_pair 2 (set_r16 RDX (word_of_int (drop_bit 16 p)) (set_r16 RAX (word_of_int p) c)) = p mod 2 ^ 32"
    using int_halves [of p 16] by (simp only: facts) (simp add: up uint_word_of_int)
  show "acc_pair 4 (set_r32 RDX (word_of_int (drop_bit 32 p)) (set_r32 RAX (word_of_int p) c)) = p mod 2 ^ 64"
    using int_halves [of p 32] by (simp only: facts) (simp add: up uint_word_of_int)
  show "acc_pair 8 (set_r64 RDX (word_of_int (drop_bit 64 p)) (set_r64 RAX (word_of_int p) c)) = p mod 2 ^ 128"
    using int_halves [of p 64] by (simp only: facts) (simp add: up uint_word_of_int)
qed

lemma sint_eq_sval: "sint (x :: 'a::len word) = sval LENGTH('a) (uint x)"
proof -
  obtain n where n: "LENGTH('a) = Suc n" by (metis not0_implies_Suc len_not_eq_0)
  have "uint x < 2 ^ Suc n" "0 \<le> uint x" using uint_lt2p [of x] by (simp_all add: n)
  then have "bit (uint x) n \<longleftrightarrow> 2 ^ n \<le> uint x"
    using bit_uint_ge_half [of x n] by (simp add: bit_uint_iff n)
  then show ?thesis
    using \<open>uint x < 2 ^ Suc n\<close> \<open>0 \<le> uint x\<close>
    by (auto simp: sint_uint n sval_def signed_take_bit_eq_take_bit_minus take_bit_int_eq_self)
qed

text \<open>Narrow products as words of the integer product, and their halves.\<close>

lemma word_of_int_halves:
  "ucast (ucast (word_of_int p AND 0xFFFF :: u32) :: u64) = (word_of_int p :: u16)"
  "ucast (ucast (drop_bit 16 (word_of_int p) AND 0xFFFF :: u32) :: u64) = (word_of_int (drop_bit 16 p) :: u16)"
  "ucast (word_of_int p AND 0xFFFFFFFF :: u64) = (word_of_int p :: u32)"
  "ucast (drop_bit 32 (word_of_int p) AND 0xFFFFFFFF :: u64) = (word_of_int (drop_bit 32 p) :: u32)"
  "ucast (ucast (word_of_int p AND 0xFF :: u16) :: u64) = (word_of_int p :: u8)"
proof -
  have m: "(0xFFFF :: u32) = mask 16" "(0xFFFFFFFF :: u64) = mask 32" "(0xFF :: u16) = mask 8"
    by (simp_all add: mask_eq_exp_minus_1)
  show "ucast (ucast (word_of_int p AND 0xFFFF :: u32) :: u64) = (word_of_int p :: u16)"
  "ucast (ucast (drop_bit 16 (word_of_int p) AND 0xFFFF :: u32) :: u64) = (word_of_int (drop_bit 16 p) :: u16)"
  "ucast (word_of_int p AND 0xFFFFFFFF :: u64) = (word_of_int p :: u32)"
  "ucast (drop_bit 32 (word_of_int p) AND 0xFFFFFFFF :: u64) = (word_of_int (drop_bit 32 p) :: u32)"
  "ucast (ucast (word_of_int p AND 0xFF :: u16) :: u64) = (word_of_int p :: u8)"
    unfolding m
    by (auto intro!: bit_word_eqI simp: bit_ucast_iff bit_and_iff bit_mask_iff bit_word_of_int_iff bit_drop_bit_eq)
qed

lemma ucast_times: "ucast a * ucast b = (word_of_int (uint a * uint b) :: 'b::len word)"
  by simp

lemma scast_times: "scast a * scast b = (word_of_int (sint a * sint b) :: 'b::len word)"
  by simp

lemma fits_less: "valid_size sz \<Longrightarrow> fits sz a \<Longrightarrow> uint a mod 2 ^ width_of sz = uint a"
  by (simp add: fits_uint)

lemma mul_parts_store:
  assumes "valid_size sz"
  shows "acc_pair sz (snd (mul_parts sz a b c)) = (uint a * uint b) mod 2 ^ (2 * width_of sz)"
proof -
  define P where "P = uint a * uint b"
  have P: "a * b = word_of_int P" "ucast a * ucast b = (word_of_int P :: u16)"
    "ucast a * ucast b = (word_of_int P :: u32)" by (simp_all add: P_def)
  have 8: "umul128 a b = (word_of_int P, word_of_int (drop_bit 64 P))"
    by (simp add: umul128_def P_def drop_bit_eq_div Let_def)
  show ?thesis
    unfolding P_def [symmetric]
    using assms acc_pair_store
    by (cases rule: valid_size_cases)
      (simp_all add: mul_parts_def Let_def P 8 word_of_int_halves acc_pair_store)
qed

lemma word_of_int_high:
  "(ucast (drop_bit 8 (word_of_int p :: u16) AND 0xFF) :: u64) = word_of_int (take_bit 8 (drop_bit 8 p))"
  "(ucast (drop_bit 16 (word_of_int p :: u32) AND 0xFFFF) :: u64) = word_of_int (take_bit 16 (drop_bit 16 p))"
  "drop_bit 32 (word_of_int p :: u64) AND 0xFFFFFFFF = word_of_int (take_bit 32 (drop_bit 32 p))"
  "(word_of_int (drop_bit 64 p) :: u64) = word_of_int (take_bit 64 (drop_bit 64 p))"
proof -
  have m: "(0xFFFF :: u32) = mask 16" "(0xFFFFFFFF :: u64) = mask 32" "(0xFF :: u16) = mask 8"
    by (simp_all add: mask_eq_exp_minus_1)
  show "(ucast (drop_bit 8 (word_of_int p :: u16) AND 0xFF) :: u64) = word_of_int (take_bit 8 (drop_bit 8 p))"
  "(ucast (drop_bit 16 (word_of_int p :: u32) AND 0xFFFF) :: u64) = word_of_int (take_bit 16 (drop_bit 16 p))"
  "drop_bit 32 (word_of_int p :: u64) AND 0xFFFFFFFF = word_of_int (take_bit 32 (drop_bit 32 p))"
  "(word_of_int (drop_bit 64 p) :: u64) = word_of_int (take_bit 64 (drop_bit 64 p))"
    unfolding m
    by (auto intro!: bit_word_eqI simp: bit_ucast_iff bit_and_iff bit_mask_iff bit_word_of_int_iff
        bit_drop_bit_eq bit_take_bit_iff add.commute)
qed

lemma high_zero:
  assumes "0 \<le> p" "p < 2 ^ (2 * w)" "w \<le> 64"
  shows "(word_of_int (take_bit w (drop_bit w p)) :: u64) = 0 \<longleftrightarrow> \<not> 2 ^ w \<le> p"
proof -
  have q: "0 \<le> p div 2 ^ w" "p div 2 ^ w < 2 ^ w" using split_halves(2,3) [OF assms(1,2)] by auto
  have "(2 :: int) ^ w \<le> 2 ^ 64" using assms(3) by (intro power_increasing) auto
  then have "uint (word_of_int (p div 2 ^ w) :: u64) = p div 2 ^ w"
    using q by (simp add: uint_word_of_int mod_pos_pos_trivial)
  moreover have "take_bit w (drop_bit w p) = p div 2 ^ w"
    using q by (simp add: drop_bit_eq_div take_bit_int_eq_self)
  ultimately show ?thesis
    using split_halves(4) [OF assms(1,2)] by (simp add: word_uint_eq_iff not_le)
qed

lemma mul_parts_overflow:
  assumes "valid_size sz" "fits sz a" "fits sz b"
  shows "fst (mul_parts sz a b c) \<longleftrightarrow> 2 ^ width_of sz \<le> uint a * uint b"
proof -
  define P where "P = uint a * uint b"
  have P: "a * b = word_of_int P" "ucast a * ucast b = (word_of_int P :: u16)"
    "ucast a * ucast b = (word_of_int P :: u32)" by (simp_all add: P_def)
  have 8: "umul128 a b = (word_of_int P, word_of_int (drop_bit 64 P))"
    by (simp add: umul128_def P_def drop_bit_eq_div Let_def)
  have range: "0 \<le> P" "P < 2 ^ (2 * width_of sz)"
    using uint_prod_fits [OF assms(2,3,1) refl] by (simp_all add: P_def)
  have "width_of sz \<le> 64" using width_of_range [OF assms(1)] by simp
  note hi = high_zero [OF range this]
  show ?thesis
    unfolding P_def [symmetric]
    using assms(1) hi
    by (cases rule: valid_size_cases)
      (simp_all only: mul_parts_def Let_def P 8 word_of_int_high width_of_consts fst_conv prod.case if_True if_False
        simp_thms word_numeral_neqs)
qed

section \<open>Signed products\<close>

lemma in_signed_range_iff: "in_signed_range (Suc n) p \<longleftrightarrow> signed_take_bit n p = p"
  by (auto simp: in_signed_range_def signed_take_bit_int_eq_self_iff)

lemma scast_word_of_int_eq:
  assumes "LENGTH('a::len) \<le> LENGTH('b::len)" "in_signed_range LENGTH('b) p"
  shows "scast (word_of_int p :: 'a word) = (word_of_int p :: 'b word) \<longleftrightarrow> in_signed_range LENGTH('a) p"
proof -
  obtain n where n: "LENGTH('a) = Suc n" by (metis not0_implies_Suc len_not_eq_0)
  obtain k where k: "LENGTH('b) = Suc k" by (metis not0_implies_Suc len_not_eq_0)
  have "scast (word_of_int p :: 'a word) = (word_of_int p :: 'b word) \<longleftrightarrow>
      sint (scast (word_of_int p :: 'a word) :: 'b word) = sint (word_of_int p :: 'b word)"
    by (simp add: word_eq_iff_signed)
  also have "sint (scast (word_of_int p :: 'a word) :: 'b word) = signed_take_bit n p"
    using assms(1) by (simp add: sint_up_scast is_up signed_of_int n)
  also have "sint (word_of_int p :: 'b word) = p"
    using assms(2) by (simp add: signed_of_int k in_signed_range_iff)
  finally show ?thesis by (simp add: n in_signed_range_iff)
qed

lemma sval_range: "1 \<le> w \<Longrightarrow> 0 \<le> x \<Longrightarrow> x < 2 ^ w \<Longrightarrow> in_signed_range w (sval w x)"
  by (cases w) (auto simp: sval_def in_signed_range_def)

lemma signed_product_range:
  assumes "1 \<le> w" "in_signed_range w x" "in_signed_range w y"
  shows "in_signed_range (2 * w) (x * y)"
proof -
  define m :: int where "m = 2 ^ (w - 1)"
  have m: "1 \<le> m" by (simp add: m_def)
  have "\<bar>x\<bar> \<le> m" "\<bar>y\<bar> \<le> m" using assms by (auto simp: in_signed_range_def m_def)
  then have "\<bar>x * y\<bar> \<le> m * m" unfolding abs_mult by (intro mult_mono) auto
  moreover have "(2 :: int) ^ (2 * w - 1) = 2 * m * m"
  proof -
    have "2 * w - 1 = Suc ((w - 1) + (w - 1))" using assms(1) by simp
    then show ?thesis by (simp only: power_Suc power_add m_def mult.assoc)
  qed
  moreover have "0 < m * m" using m by (simp add: mult_pos_pos)
  ultimately show ?thesis unfolding in_signed_range_def by linarith
qed

lemma sign_fill_high:
  assumes "in_signed_range 128 p"
  shows "word_of_int (drop_bit 64 p) = sign_fill (word_of_int p) \<longleftrightarrow> in_signed_range 64 p"
proof -
  have fill: "sign_fill (word_of_int p) = (word_of_int (- of_bool (bit p 63)) :: u64)"
    by (simp add: sign_fill_def bit_word_of_int_iff)
  have "in_signed_range 64 (drop_bit 64 p)"
    using assms zdiv_mono1 [of "- (2 ^ 127)" p "2 ^ 64"] zdiv_mono1 [of p "2 ^ 127 - 1" "2 ^ 64"]
    by (simp add: in_signed_range_def drop_bit_eq_div)
  then have d: "sint (word_of_int (drop_bit 64 p) :: u64) = drop_bit 64 p"
    using in_signed_range_iff [of 63 "drop_bit 64 p"] by (simp add: signed_of_int)
  have e: "sint (word_of_int (- of_bool (bit p 63)) :: u64) = - of_bool (bit p 63)"
    by (cases "bit p 63") simp_all
  have "word_of_int (drop_bit 64 p) = sign_fill (word_of_int p) \<longleftrightarrow> drop_bit 64 p = - of_bool (bit p 63)"
    unfolding fill by (metis d e)
  also have "\<dots> \<longleftrightarrow> signed_take_bit 63 p = p"
    using bits_ident [of 64 p]
    by (auto simp: signed_take_bit_eq_take_bit_minus push_bit_eq_mult)
  finally show ?thesis using in_signed_range_iff [of 63 p] by simp
qed

lemma sint_ucast_fits:
  assumes "valid_size sz" "fits sz a"
  shows "sz = 1 \<Longrightarrow> sint (ucast a :: u8) = sval (width_of sz) (uint a)"
    and "sz = 2 \<Longrightarrow> sint (ucast a :: u16) = sval (width_of sz) (uint a)"
    and "sz = 4 \<Longrightarrow> sint (ucast a :: u32) = sval (width_of sz) (uint a)"
    and "sz = 8 \<Longrightarrow> sint a = sval (width_of sz) (uint a)"
  using fits_less [OF assms] by (auto simp: sint_eq_sval uint_ucast_down)

lemma imul_parts_store:
  assumes "valid_size sz" "fits sz a" "fits sz b"
  defines "p \<equiv> sval (width_of sz) (uint a) * sval (width_of sz) (uint b)"
  shows "acc_pair sz (snd (imul_parts sz a b c)) = p mod 2 ^ (2 * width_of sz)"
    and "fst (imul_parts sz a b c) \<longleftrightarrow> \<not> in_signed_range (width_of sz) p"
proof -
  note A = sint_ucast_fits [OF assms(1,2)] and B = sint_ucast_fits [OF assms(1,3)]
  have r: "in_signed_range (2 * width_of sz) p"
    unfolding p_def using width_of_range [OF assms(1)] uint_fits_bounds [OF assms(1,2)] uint_fits_bounds [OF assms(1,3)]
    by (intro signed_product_range sval_range) auto
  have 1: "scast (ucast a :: u8) * scast (ucast b :: u8) = (word_of_int p :: u16)" if "sz = 1"
    unfolding scast_times A(1) [OF that] B(1) [OF that] p_def ..
  have 2: "scast (ucast a :: u16) * scast (ucast b :: u16) = (word_of_int p :: u32)" if "sz = 2"
    unfolding scast_times A(2) [OF that] B(2) [OF that] p_def ..
  have 4: "scast (ucast a :: u32) * scast (ucast b :: u32) = (word_of_int p :: u64)" if "sz = 4"
    unfolding scast_times A(3) [OF that] B(3) [OF that] p_def ..
  have 8: "mul128 a b = (word_of_int p, word_of_int (drop_bit 64 p))" if "sz = 8"
    unfolding mul128_def A(4) [OF that] B(4) [OF that] p_def drop_bit_eq_div Let_def ..
  show "acc_pair sz (snd (imul_parts sz a b c)) = p mod 2 ^ (2 * width_of sz)"
    using assms(1)
    by (cases rule: valid_size_cases)
      (simp_all add: imul_parts_def Let_def 1 2 4 8 word_of_int_halves acc_pair_store)
  show "fst (imul_parts sz a b c) \<longleftrightarrow> \<not> in_signed_range (width_of sz) p"
    using assms(1) r
    by (cases rule: valid_size_cases)
      (simp_all add: imul_parts_def Let_def 1 2 4 8 word_of_int_halves scast_word_of_int_eq sign_fill_high)
qed

lemma sval_signed_take_bit:
  assumes "valid_size sz"
  shows "sval (width_of sz) (x mod 2 ^ width_of sz) = signed_take_bit (width_of sz - 1) x"
proof -
  obtain n where n: "width_of sz = Suc n" using width_of_range [OF assms] by (cases "width_of sz") auto
  have "bit x n \<longleftrightarrow> 2 ^ n \<le> take_bit (Suc n) x"
  proof -
    have t: "take_bit (Suc n) x = take_bit n x + 2 ^ n * of_bool (bit x n)"
      by (simp add: take_bit_Suc_from_most mult.commute)
    have "0 \<le> take_bit n x" "take_bit n x < 2 ^ n" by simp_all
    then show ?thesis unfolding t by (cases "bit x n") (simp, simp add: not_le)
  qed
  then show ?thesis
    by (auto simp: n sval_def signed_take_bit_eq_take_bit_minus take_bit_eq_mod)
qed

lemma sign_extend_word_of_int:
  assumes "valid_size sz"
  shows "sign_extend (word_of_int p) sz = word_of_int (signed_take_bit (width_of sz - 1) p)"
    and "sign_extend (word_of_int p AND mask_for sz) sz = word_of_int (signed_take_bit (width_of sz - 1) p)"
    and "sign_extend a sz = word_of_int (sval (width_of sz) (uint a mod 2 ^ width_of sz))"
proof -
  have w: "width_of sz - 1 < 64" "width_of sz - 1 < width_of sz" using width_of_range [OF assms] by (simp, linarith) (use width_of_range [OF assms] in simp)
  then show *: "sign_extend (word_of_int p) sz = word_of_int (signed_take_bit (width_of sz - 1) p)" for p
    unfolding sign_extend_eq [OF assms]
    by (auto intro!: bit_word_eqI simp: bit_signed_take_bit_iff bit_word_of_int_iff min_def)
  show "sign_extend (word_of_int p AND mask_for sz) sz = word_of_int (signed_take_bit (width_of sz - 1) p)"
    unfolding sign_extend_eq [OF assms] and_mask_for [OF assms]
    using w by (auto intro!: bit_word_eqI simp: bit_signed_take_bit_iff bit_word_of_int_iff min_def bit_take_bit_iff)
  have "sign_extend a sz = sign_extend (word_of_int (uint a)) sz" by simp
  also have "\<dots> = word_of_int (signed_take_bit (width_of sz - 1) (uint a))" by (rule *)
  finally show "sign_extend a sz = word_of_int (sval (width_of sz) (uint a mod 2 ^ width_of sz))"
    by (simp only: sval_signed_take_bit [OF assms])
qed

lemma word_of_int_inj_range:
  assumes "in_signed_range 64 p" "in_signed_range 64 q"
  shows "(word_of_int p :: u64) = word_of_int q \<longleftrightarrow> p = q"
proof -
  have "sint (word_of_int x :: u64) = x" if "in_signed_range 64 x" for x
    using that in_signed_range_iff [of 63 x] by (simp add: signed_of_int)
  then show ?thesis using assms by metis
qed

lemma in_signed_range_mono: "in_signed_range w p \<Longrightarrow> 1 \<le> w \<Longrightarrow> w \<le> v \<Longrightarrow> in_signed_range v p"
proof -
  assume "in_signed_range w p" "1 \<le> w" "w \<le> v"
  moreover from this have "(2 :: int) ^ (w - 1) \<le> 2 ^ (v - 1)" by (intro power_increasing) auto
  ultimately show ?thesis unfolding in_signed_range_def by linarith
qed

text \<open>The product modulo the width, and overflow exactly when it leaves the signed range.\<close>

lemma imul_product_correct:
  fixes a b :: u64
  assumes sz: "valid_size sz" and a: "fits sz a"
  defines "p \<equiv> sval (width_of sz) (uint a) * sval (width_of sz) (uint b mod 2 ^ width_of sz)"
  shows "uint (fst (imul_product sz a b)) = p mod 2 ^ width_of sz"
    and "snd (imul_product sz a b) \<longleftrightarrow> \<not> in_signed_range (width_of sz) p"
    and "fits sz (fst (imul_product sz a b))"
proof -
  have w: "1 \<le> width_of sz" using width_of_range [OF sz] by simp
  have r: "in_signed_range (2 * width_of sz) p"
    unfolding p_def using w uint_fits_bounds [OF sz a]
    by (intro signed_product_range sval_range) auto
  show fits: "fits sz (fst (imul_product sz a b))"
  proof (cases "sz = 8")
    case True
    then show ?thesis using uint_lt2p [of "fst (imul_product sz a b)"] by (simp add: fits_uint)
  next
    case False
    then show ?thesis by (simp add: imul_product_def Let_def)
  qed
  have "uint (fst (imul_product sz a b)) = p mod 2 ^ width_of sz \<and>
      (snd (imul_product sz a b) \<longleftrightarrow> \<not> in_signed_range (width_of sz) p)"
  proof (cases "sz = 8")
    case True
    have b: "uint b mod 2 ^ width_of sz = uint b" using uint_lt2p [of b] True by simp
    have "mul128 a b = (word_of_int p, word_of_int (drop_bit 64 p))"
      unfolding mul128_def sint_ucast_fits(4) [OF sz a True] p_def b
      using sint_eq_sval [of b] True by (simp only: Let_def drop_bit_eq_div width_of_consts) simp
    then show ?thesis
      using sign_fill_high [of p] r True
      by (simp add: imul_product_def uint_word_of_int)
  next
    case False
    then have w32: "2 * width_of sz \<le> 64" using sz by (auto simp: valid_size_def)
    have full: "sign_extend a sz * sign_extend b sz = word_of_int p"
      unfolding sign_extend_word_of_int(3) [OF sz] p_def of_int_mult fits_less [OF sz a] ..
    have rp: "in_signed_range 64 p" by (rule in_signed_range_mono [OF r]) (use w w32 in auto)
    have "in_signed_range (width_of sz) (signed_take_bit (width_of sz - 1) p)"
      unfolding sval_signed_take_bit [OF sz, symmetric] by (rule sval_range [OF w]) simp_all
    then have "in_signed_range 64 (signed_take_bit (width_of sz - 1) p)"
      by (rule in_signed_range_mono) (use w w32 in auto)
    note inj = word_of_int_inj_range [OF rp this]
    have "snd (imul_product sz a b) \<longleftrightarrow> p \<noteq> signed_take_bit (width_of sz - 1) p"
      using False by (simp only: imul_product_def Let_def full sign_extend_word_of_int(2) [OF sz] inj if_False snd_conv)
    also have "\<dots> \<longleftrightarrow> \<not> in_signed_range (width_of sz) p"
      using in_signed_range_iff [of "width_of sz - 1" p] w by auto
    finally have ov: "snd (imul_product sz a b) \<longleftrightarrow> \<not> in_signed_range (width_of sz) p" .
    have "uint (fst (imul_product sz a b)) = uint (word_of_int p AND mask_for sz)"
      using False by (simp only: imul_product_def Let_def full if_False fst_conv)
    also have "\<dots> = p mod 2 ^ 64 mod 2 ^ width_of sz"
      by (simp add: uint_and_mask_for [OF sz] uint_word_of_int)
    also have "\<dots> = p mod 2 ^ width_of sz"
      using w32 by (intro mod_mod_cancel le_imp_power_dvd) simp
    finally show ?thesis using ov by simp
  qed
  then show "uint (fst (imul_product sz a b)) = p mod 2 ^ width_of sz"
    "snd (imul_product sz a b) \<longleftrightarrow> \<not> in_signed_range (width_of sz) p" by auto
qed

section \<open>The one-operand forms\<close>

lemma acc_operand: "fits sz a \<Longrightarrow> a = reg c RAX AND mask_for sz \<Longrightarrow> a = reg_operand_value c RAX sz"
  by (simp add: reg_operand_value_def)

lemma rax_value: "reg c RAX AND mask_for sz = reg_operand_value c RAX sz"
  by (simp add: reg_operand_value_def)

text \<open>C3: MUL leaves the full unsigned product of the accumulator and the operand in the double-width
  accumulator, and sets CF and OF exactly when the upper half is not zero.  One-operand IMUL does the
  same for the signed product, with CF and OF telling that it does not fit the lower half.\<close>

theorem op_mul_imul1_product:
  assumes "valid_size (i_op_size i)" "o_kind (i_src i) \<noteq> OK_Rel"
    and "read_operand env i (i_src i) (i_op_size i) c = (Some b, c1)"
  shows "let sz = i_op_size i; w = width_of sz; a = uint (reg_operand_value c1 RAX sz);
             p = a * uint b; sp = sval w a * sval w (uint b)
    in acc_pair sz (op_mul env i c) = p \<and>
       get_cf (op_mul env i c) = (2 ^ w \<le> p) \<and> get_of (op_mul env i c) = (2 ^ w \<le> p) \<and>
       acc_pair sz (op_imul1 env i c) = sp mod 2 ^ (2 * w) \<and>
       get_cf (op_imul1 env i c) = (\<not> in_signed_range w sp) \<and>
       get_of (op_imul1 env i c) = (\<not> in_signed_range w sp)"
proof -
  note sz = assms(1)
  have b: "fits (i_op_size i) b" by (rule read_operand_fits [OF assms(3,1,2)])
  have a: "fits (i_op_size i) (reg_operand_value c1 RAX (i_op_size i))" by (rule fits_reg_operand_value [OF sz])
  have "uint (reg_operand_value c1 RAX (i_op_size i)) * uint b < 2 ^ (2 * width_of (i_op_size i))"
    by (rule uint_prod_fits [OF a b sz refl])
  then have nowrap: "uint (reg_operand_value c1 RAX (i_op_size i)) * uint b mod 2 ^ (2 * width_of (i_op_size i)) =
      uint (reg_operand_value c1 RAX (i_op_size i)) * uint b"
    by (intro mod_pos_pos_trivial) auto
  show ?thesis
    using mul_parts_store [OF sz, of "reg_operand_value c1 RAX (i_op_size i)" b c1]
      mul_parts_overflow [OF sz a b, of c1] imul_parts_store [OF sz a b, of c1]
    by (simp add: Let_def op_mul_def op_imul1_def assms(3) rax_value mul_ov_flags nowrap case_prod_beta)
qed

theorem op_mul_imul1_product_witness:
  "acc_pair 1 (op_mul no_env (plain_insn 1 (reg_op 0) (reg_op 3)) (set_r64 3 0xFF (set_r64 0 0xFF (initial_cpu ())))) = 0xFE01 \<and>
   acc_pair 1 (op_imul1 no_env (plain_insn 1 (reg_op 0) (reg_op 3)) (set_r64 3 0xFF (set_r64 0 0xFF (initial_cpu ())))) = 1"
  using op_mul_imul1_product [of "plain_insn 1 (reg_op 0) (reg_op 3)" no_env
      "set_r64 3 0xFF (set_r64 0 0xFF (initial_cpu ()))" "0xFF" "set_r64 3 0xFF (set_r64 0 0xFF (initial_cpu ()))"]
  by (simp add: Let_def read_operand_reg_value reg_operand_value_def mask_for_def sval_def)

text \<open>Two- and three-operand IMUL write the signed product modulo the width to the destination register
  and set CF and OF exactly when the product leaves the signed range of that width.\<close>

theorem op_imul_product:
  assumes "reg_form i"
  shows "let sz = i_op_size i; w = width_of sz; c' = op_imul env i c;
             x = (if i_kind i = Op_Imul3 then src_value c i else dst_value c i);
             y = (if i_kind i = Op_Imul3 then i_imm_extra i else src_value c i);
             p = sval w (uint x) * sval w (uint y mod 2 ^ w)
    in uint (dst_value c' i) = p mod 2 ^ w \<and> get_cf c' = (\<not> in_signed_range w p) \<and>
       get_of c' = (\<not> in_signed_range w p) \<and> c_mem c' = c_mem c \<and>
       (\<forall>j. j \<noteq> base_reg (o_reg (i_dst i)) sz \<longrightarrow> reg c' j = reg c j)"
proof -
  let ?sz = "i_op_size i"
  define x where "x = (if i_kind i = Op_Imul3 then src_value c i else dst_value c i)"
  define y where "y = (if i_kind i = Op_Imul3 then i_imm_extra i else src_value c i)"
  note sz = reg_form_dst(2) [OF assms]
  have x: "fits ?sz x" by (simp add: x_def reg_form_dst(3) [OF assms] fits_direct_value [OF sz])
  note P = imul_product_correct [OF sz x, where b = y]
  obtain c1 where w: "write_operand env i (i_dst i) ?sz (fst (imul_product ?sz x y)) c = (True, c1)"
    "dst_value c1 i = fst (imul_product ?sz x y)"
    "\<And>j. j \<noteq> base_reg (o_reg (i_dst i)) ?sz \<Longrightarrow> reg c1 j = reg c j" "c_mem c1 = c_mem c"
    by (rule reg_form_writes [OF assms P(3)]) blast
  have "direct_operand (i_src i)" using assms by (simp add: reg_form_def)
  then have "op_imul env i c = stash_mul_ov (snd (imul_product ?sz x y)) c1"
    using w(1)
    by (simp add: op_imul_def Let_def x_def y_def read_direct reg_form_dst(1) [OF assms] case_prod_beta split: if_splits)
  moreover have "dst_value (stash_mul_ov v c1) i = dst_value c1 i" for v
    by (rule reg_operand_value_cong) simp
  ultimately show ?thesis
    using P w by (simp add: Let_def mul_ov_flags flip: x_def y_def)
qed

theorem op_imul_product_witness:
  "uint (dst_value (op_imul no_env (plain_insn 4 (reg_op 0) (imm_op 3)) (set_r64 0 0x80000000 (initial_cpu ())))
      (plain_insn 4 (reg_op 0) (imm_op 3))) = 0x80000000 \<and>
   get_of (op_imul no_env (plain_insn 4 (reg_op 0) (imm_op 3)) (set_r64 0 0x80000000 (initial_cpu ())))"
  using op_imul_product [of "plain_insn 4 (reg_op 0) (imm_op 3)" no_env "set_r64 0 0x80000000 (initial_cpu ())"]
  by (simp add: Let_def reg_form_def direct_operand_def direct_value_def reg_operand_value_def mask_for_def
      sval_def in_signed_range_def)

section \<open>Division\<close>

text \<open>Where a division leaves its quotient and its remainder.\<close>

definition div_results :: "u8 \<Rightarrow> 'm cpu \<Rightarrow> int \<times> int" where
  "div_results sz c =
     (if sz = 1 then (uint (reg8 c RAX), uint (reg8 c 16))
      else (uint (reg_operand_value c RAX sz), uint (reg_operand_value c RDX sz)))"

lemma uint_reg16: "uint (reg16 c r) = uint (reg_operand_value c r 2)"
proof -
  have "reg16 c r = ucast (reg_operand_value c r 2)"
    by (simp add: reg16_def c_gpr_reg mask_literals reg_operand_value_take_bit)
  then show ?thesis
    using uint_lt2p [of "reg16 c r"] fits_reg_operand_value [of 2 c r] by (simp add: uint_ucast_down fits_uint)
qed

lemma uint_reg32: "uint (reg32 c r) = uint (reg_operand_value c r 4)"
proof -
  have "reg32 c r = ucast (reg_operand_value c r 4)"
    by (simp add: reg32_def c_gpr_reg mask_literals reg_operand_value_take_bit)
  then show ?thesis
    using uint_lt2p [of "reg32 c r"] fits_reg_operand_value [of 4 c r] by (simp add: uint_ucast_down fits_uint)
qed

lemma uint_pair32: "uint (push_bit 16 (ucast (x :: u16)) OR ucast (y :: u16) :: u32) = uint y + 2 ^ 16 * uint x"
proof -
  have y: "uint y < 2 ^ 16" "uint x < 2 ^ 16" using uint_lt2p [of y] uint_lt2p [of x] by simp_all
  have "push_bit 16 (ucast x) OR ucast y = (push_bit 16 (ucast x) + ucast y :: u32)"
    by (rule disjunctive_add [symmetric]) (auto simp: bit_simps dest: bit_imp_le_length)
  then show ?thesis
    using y by (simp add: uint_word_ariths push_bit_eq_mult uint_ucast_up)
qed

lemma uint_pair64: "uint (push_bit 32 (ucast (x :: u32)) OR ucast (y :: u32) :: u64) = uint y + 2 ^ 32 * uint x"
proof -
  have y: "uint y < 2 ^ 32" "uint x < 2 ^ 32" using uint_lt2p [of y] uint_lt2p [of x] by simp_all
  have "push_bit 32 (ucast x) OR ucast y = (push_bit 32 (ucast x) + ucast y :: u64)"
    by (rule disjunctive_add [symmetric]) (auto simp: bit_simps dest: bit_imp_le_length)
  then show ?thesis
    using y by (simp add: uint_word_ariths push_bit_eq_mult uint_ucast_up)
qed

lemma reg8_set_ah: "reg8 (set_ah r c) 16 = ucast r" "reg8 (set_ah r c) 0 = reg8 c 0"
proof -
  have e: "set_ah r c = set_r8 16 (ucast r) c"
  proof -
    have "r AND 0xFF = ucast (ucast r :: u8)"
      unfolding mask_literals by (rule bit_word_eqI) (auto simp: bit_simps)
    then show ?thesis by (simp add: set_ah_def set_r8_def Let_def c_gpr_reg)
  qed
  show "reg8 (set_ah r c) 16 = ucast r" "reg8 (set_ah r c) 0 = reg8 c 0"
    unfolding e by (simp_all add: reg8_set_r8)
qed


lemma div_results_store:
  assumes "0 \<le> q" "q < 2 ^ width_of sz" "0 \<le> r" "r < 2 ^ width_of sz"
  shows "sz = 1 \<Longrightarrow> uint qw mod 2 ^ 8 = q \<Longrightarrow> uint rw mod 2 ^ 8 = r \<Longrightarrow>
      div_results sz (set_ah rw (set_r8 RAX (ucast (qw :: u16)) c)) = (q, r)"
    and "sz = 2 \<Longrightarrow> uint q2 mod 2 ^ 16 = q \<Longrightarrow> uint r2 mod 2 ^ 16 = r \<Longrightarrow>
      div_results sz (set_r16 RDX (ucast (r2 :: u32)) (set_r16 RAX (ucast (q2 :: u32)) c)) = (q, r)"
    and "sz = 4 \<Longrightarrow> uint q4 mod 2 ^ 32 = q \<Longrightarrow> uint r4 mod 2 ^ 32 = r \<Longrightarrow>
      div_results sz (set_r32 RDX (ucast (r4 :: u64)) (set_r32 RAX (ucast (q4 :: u64)) c)) = (q, r)"
    and "sz = 8 \<Longrightarrow> uint q8 = q \<Longrightarrow> uint r8 = r \<Longrightarrow>
      div_results sz (set_r64 RDX r8 (set_r64 RAX q8 c)) = (q, r)"
  using assms
  by (auto simp: div_results_def reg8_set_ah reg8_set_r8 reg_operand_value_set uint_ucast_down uint_ucast_up)

lemma quotient_bounds:
  fixes n d :: int
  assumes "0 \<le> n" "0 < d" "d < 2 ^ w"
  shows "0 \<le> n div d" "0 \<le> n mod d" "n mod d < 2 ^ w" "n div d \<le> n"
proof -
  show "0 \<le> n div d" "0 \<le> n mod d" using assms by (auto simp: pos_imp_zdiv_nonneg_iff)
  show "n mod d < 2 ^ w" using pos_mod_bound [of d n] assms by linarith
  have "n div d \<le> n div 1" using assms by (intro zdiv_mono2) auto
  then show "n div d \<le> n" by simp
qed

lemma div_less_mult_pos: "0 < (d :: int) \<Longrightarrow> n div d < k \<longleftrightarrow> n < k * d"
proof -
  assume d: "0 < d"
  have "k \<le> n div d \<longleftrightarrow> k * d \<le> n"
    using d zdiv_mono1 [of "k * d" n d] by (metis mult_le_cancel_right_pos nonzero_mult_div_cancel_right
        not_less order.trans pos_mod_sign minus_mod_eq_div_mult diff_ge_0_iff_ge order_less_irrefl le_diff_eq add.commute le_add_same_cancel1)
  then show ?thesis by linarith
qed

lemma mult_le_mono_pow: "(a :: int) \<le> b \<Longrightarrow> 2 ^ 64 * a \<le> 2 ^ 64 * b"
  by simp

text \<open>A quotient that fits its register is stored with its remainder; the others are divide errors.\<close>

definition divides_exactly :: "u8 \<Rightarrow> u64 \<Rightarrow> 'm cpu \<Rightarrow> bool" where
  "divides_exactly sz d c \<longleftrightarrow>
     (let n = acc_pair sz c
      in if n div uint d < 2 ^ width_of sz
         then div_results sz (div_switch sz d c) = (n div uint d, n mod uint d) \<and>
              c_halted (div_switch sz d c) = c_halted c
         else div_switch sz d c = divide_error ''DIV overflow'' c)"

lemma set_halted [simp]:
  "c_halted (set_r8 i v8 c) = c_halted c" "c_halted (set_r16 i v16 c) = c_halted c"
  "c_halted (set_r32 i v32 c) = c_halted c" "c_halted (set_ah r c) = c_halted c"
  by (simp_all add: set_r8_def set_r16_def set_r32_def set_ah_def Let_def)

lemma div_switch_1:
  assumes d: "0 < uint d" "uint d < 2 ^ 8"
  shows "divides_exactly 1 d c"
proof -
  define n where "n = uint (reg16 c RAX)"
  have nb: "0 \<le> n" "n < 2 ^ 16" using uint_lt2p [of "reg16 c RAX"] by (simp_all add: n_def)
  note b = quotient_bounds [OF nb(1) d]
  define q where "q = (ucast (ucast (reg16 c RAX) div d) :: u16)"
  define r where "r = (ucast (ucast (reg16 c RAX) mod d) :: u16)"
  have q: "uint q = n div uint d" and r: "uint r = n mod uint d"
    using b nb by (simp_all add: q_def r_def uint_ucast_down uint_div uint_mod uint_ucast_up flip: n_def)
  have over: "0xFF < q \<longleftrightarrow> \<not> n div uint d < 2 ^ 8" by (auto simp: word_less_def q)
  have sw: "div_switch 1 d c = (if 0xFF < q then divide_error ''DIV overflow'' c
      else set_ah (ucast r) (set_r8 RAX (ucast q) c))"
    by (simp add: div_switch_def Let_def q_def r_def)
  have acc: "acc_pair 1 c = n" by (simp add: acc_pair_def n_def)
  show ?thesis
    unfolding divides_exactly_def acc Let_def sw over
    using b q r div_results_store(1) [of "n div uint d" 1 "n mod uint d" q "ucast r" c]
    by (auto simp: uint_ucast_up)
qed

lemma div_switch_2:
  assumes d: "0 < uint d" "uint d < 2 ^ 16"
  shows "divides_exactly 2 d c"
proof -
  define num where "num = (push_bit 16 (ucast (reg16 c RDX)) OR ucast (reg16 c RAX) :: u32)"
  define n where "n = uint num"
  have nb: "0 \<le> n" "n < 2 ^ 32" using uint_lt2p [of num] by (simp_all add: n_def)
  note b = quotient_bounds [OF nb(1) d]
  define q where "q = (ucast (ucast num div d) :: u32)"
  define r where "r = (ucast (ucast num mod d) :: u32)"
  have q: "uint q = n div uint d" and r: "uint r = n mod uint d"
    using b nb by (simp_all add: q_def r_def uint_ucast_down uint_div uint_mod uint_ucast_up flip: n_def)
  have over: "0xFFFF < q \<longleftrightarrow> \<not> n div uint d < 2 ^ 16" by (auto simp: word_less_def q)
  have sw: "div_switch 2 d c = (if 0xFFFF < q then divide_error ''DIV overflow'' c
      else set_r16 RDX (ucast r) (set_r16 RAX (ucast q) c))"
    by (simp add: div_switch_def Let_def q_def r_def num_def)
  have acc: "acc_pair 2 c = n" by (simp add: acc_pair_def n_def num_def uint_pair32 uint_reg16)
  show ?thesis
    unfolding divides_exactly_def acc Let_def sw over
    using b q r div_results_store(2) [of "n div uint d" 2 "n mod uint d" q r c]
    by auto
qed

lemma div_switch_4:
  assumes d: "0 < uint d" "uint d < 2 ^ 32"
  shows "divides_exactly 4 d c"
proof -
  define num where "num = (push_bit 32 (ucast (reg32 c RDX)) OR ucast (reg32 c RAX) :: u64)"
  define n where "n = uint num"
  have nb: "0 \<le> n" "n < 2 ^ 64" using uint_lt2p [of num] by (simp_all add: n_def)
  note b = quotient_bounds [OF nb(1) d]
  have q: "uint (num div d) = n div uint d" and r: "uint (num mod d) = n mod uint d"
    by (simp_all add: uint_div uint_mod n_def)
  have over: "0xFFFFFFFF < num div d \<longleftrightarrow> \<not> n div uint d < 2 ^ 32" by (auto simp: word_less_def q)
  have sw: "div_switch 4 d c = (if 0xFFFFFFFF < num div d then divide_error ''DIV overflow'' c
      else set_r32 RDX (ucast (num mod d)) (set_r32 RAX (ucast (num div d)) c))"
    by (simp add: div_switch_def Let_def num_def)
  have acc: "acc_pair 4 c = n" by (simp add: acc_pair_def n_def num_def uint_pair64 uint_reg32)
  show ?thesis
    unfolding divides_exactly_def acc Let_def sw over
    using b q r div_results_store(3) [of "n div uint d" 4 "n mod uint d" "num div d" "num mod d" c]
    by auto
qed

lemma div_switch_8:
  assumes d: "0 < uint d"
  shows "divides_exactly 8 d c"
proof -
  define h where "h = uint (reg c RDX)"
  define l where "l = uint (reg c RAX)"
  define n where "n = h * 2 ^ 64 + l"
  have lb: "0 \<le> l" "l < 2 ^ 64" "0 \<le> h" "uint d < 2 ^ 64"
    using uint_lt2p [of "reg c RAX"] uint_lt2p [of d] by (simp_all add: l_def h_def)
  have nb: "0 \<le> n" using lb by (simp add: n_def)
  note b = quotient_bounds [OF nb d lb(4)]
  have over: "d \<le> reg c RDX \<longleftrightarrow> \<not> n div uint d < 2 ^ 64"
  proof -
    have "n div uint d < 2 ^ 64 \<longleftrightarrow> n < 2 ^ 64 * uint d"
      by (rule div_less_mult_pos [OF d])
    also have "\<dots> \<longleftrightarrow> h < uint d"
      using lb mult_le_mono_pow [of "h + 1" "uint d"] by (auto simp: n_def algebra_simps)
    finally show ?thesis by (simp add: word_le_def h_def not_less)
  qed
  have acc: "acc_pair 8 c = n"
    by (simp only: acc_pair_def word_numeral_neqs if_False n_def h_def l_def reg_operand_value_take_bit
        width_of_consts) simp
  have sw: "div_switch 8 d c = (if d \<le> reg c RDX then divide_error ''DIV overflow'' c
      else set_r64 RDX (word_of_int (n mod uint d)) (set_r64 RAX (word_of_int (n div uint d)) c))"
    by (simp add: div_switch_def Let_def udiv128_def n_def h_def l_def)
  show ?thesis
    unfolding divides_exactly_def acc Let_def sw over
    using b div_results_store(4) [of "n div uint d" 8 "n mod uint d" "word_of_int (n div uint d)"
        "word_of_int (n mod uint d)" c]
    by (auto simp: uint_word_of_int)
qed

lemma div_switch_exact:
  assumes "valid_size sz" "fits sz d" "d \<noteq> 0"
  shows "divides_exactly sz d c"
proof -
  have pos: "0 < uint d" using assms(3) by (simp add: word_uint_eq_iff less_le)
  have "uint d < 2 ^ width_of sz" using assms(1,2) by (simp add: fits_uint)
  with assms(1) pos show ?thesis
    by (cases rule: valid_size_cases) (auto intro: div_switch_1 div_switch_2 div_switch_4 div_switch_8)
qed

section \<open>Signed division\<close>

text \<open>The signed dividend and the signed results.\<close>

definition signed_pair :: "u8 \<Rightarrow> 'm cpu \<Rightarrow> int" where
  "signed_pair sz c = sval (2 * width_of sz) (acc_pair sz c)"

definition signed_results :: "u8 \<Rightarrow> 'm cpu \<Rightarrow> int \<times> int" where
  "signed_results sz c = (case div_results sz c of (q, r) \<Rightarrow> (sval (width_of sz) q, sval (width_of sz) r))"

lemma sint_word_of_int: "LENGTH('a::len) = Suc n \<Longrightarrow> sint (word_of_int x :: 'a word) = signed_take_bit n x"
  by (simp add: signed_of_int)

lemma sdiv_smod_bounds:
  fixes n d :: int
  assumes "d \<noteq> 0"
  shows "\<bar>n sdiv d\<bar> \<le> \<bar>n\<bar>" "\<bar>n smod d\<bar> < \<bar>d\<bar>"
  using sdiv_int_range [of n d] smod_int_range [OF assms, of n] by auto

lemma wrapped_quotient:
  fixes q :: int
  assumes "\<bar>q\<bar> \<le> 2 ^ n" "1 \<le> w" "w \<le> n"
  shows "in_signed_range w (signed_take_bit n q) \<longleftrightarrow> in_signed_range w q"
    and "in_signed_range w q \<Longrightarrow> signed_take_bit n q = q"
proof -
  have less: "(2 :: int) ^ (w - 1) < 2 ^ n" using assms by (intro power_strict_increasing) auto
  have "signed_take_bit n q = q \<or> \<not> in_signed_range w q \<and> \<not> in_signed_range w (signed_take_bit n q)"
  proof (cases "q < 2 ^ n")
    case True
    then have "signed_take_bit n q = q" using assms(1) by (intro signed_take_bit_int_eq_self) auto
    then show ?thesis by simp
  next
    case False
    then have q: "q = 2 ^ n" using assms(1) by simp
    have "take_bit (Suc n) (2 ^ n :: int) = 2 ^ n" by (simp add: take_bit_int_eq_self)
    then have "signed_take_bit n q = - (2 ^ n)"
      unfolding q by (simp add: signed_take_bit_eq_take_bit_minus bit_exp_iff)
    then show ?thesis using less unfolding q in_signed_range_def by linarith
  qed
  then show "in_signed_range w (signed_take_bit n q) \<longleftrightarrow> in_signed_range w q"
    "in_signed_range w q \<Longrightarrow> signed_take_bit n q = q"
    by auto
qed

lemma sval_word_of_int:
  "in_signed_range 8 x \<Longrightarrow> sval 8 (uint (word_of_int x :: u8)) = x"
  "in_signed_range 16 x \<Longrightarrow> sval 16 (uint (word_of_int x :: u16)) = x"
  "in_signed_range 32 x \<Longrightarrow> sval 32 (uint (word_of_int x :: u32)) = x"
  "in_signed_range 64 x \<Longrightarrow> sval 64 (uint (word_of_int x :: u64)) = x"
  using sint_eq_sval [of "word_of_int x :: u8"] sint_eq_sval [of "word_of_int x :: u16"]
    sint_eq_sval [of "word_of_int x :: u32"] sint_eq_sval [of "word_of_int x :: u64"]
    in_signed_range_iff [of 7 x] in_signed_range_iff [of 15 x] in_signed_range_iff [of 31 x]
    in_signed_range_iff [of 63 x]
  by (simp_all add: signed_of_int)

lemma signed_results_store:
  assumes "in_signed_range (width_of sz) q" "in_signed_range (width_of sz) r"
  shows "sz = 1 \<Longrightarrow> signed_results sz (set_ah (ucast (word_of_int r :: u8)) (set_r8 RAX (word_of_int q) c)) = (q, r)"
    and "sz = 2 \<Longrightarrow> signed_results sz (set_r16 RDX (word_of_int r) (set_r16 RAX (word_of_int q) c)) = (q, r)"
    and "sz = 4 \<Longrightarrow> signed_results sz (set_r32 RDX (word_of_int r) (set_r32 RAX (word_of_int q) c)) = (q, r)"
    and "sz = 8 \<Longrightarrow> signed_results sz (set_r64 RDX (word_of_int r) (set_r64 RAX (word_of_int q) c)) = (q, r)"
proof -
  have u: "ucast (ucast (x :: u8) :: u64) = x" for x by (rule bit_word_eqI) (auto simp: bit_simps)
  show "sz = 1 \<Longrightarrow> signed_results sz (set_ah (ucast (word_of_int r :: u8)) (set_r8 RAX (word_of_int q) c)) = (q, r)"
    "sz = 2 \<Longrightarrow> signed_results sz (set_r16 RDX (word_of_int r) (set_r16 RAX (word_of_int q) c)) = (q, r)"
    "sz = 4 \<Longrightarrow> signed_results sz (set_r32 RDX (word_of_int r) (set_r32 RAX (word_of_int q) c)) = (q, r)"
    "sz = 8 \<Longrightarrow> signed_results sz (set_r64 RDX (word_of_int r) (set_r64 RAX (word_of_int q) c)) = (q, r)"
    using assms
    by (simp_all add: signed_results_def div_results_def reg8_set_ah reg8_set_r8 reg_operand_value_set u
        uint_ucast_up sval_word_of_int)
qed

definition divides_signed :: "u8 \<Rightarrow> u64 \<Rightarrow> 'm cpu \<Rightarrow> bool" where
  "divides_signed sz d c \<longleftrightarrow>
     (let n = signed_pair sz c; dv = sval (width_of sz) (uint d)
      in if in_signed_range (width_of sz) (n sdiv dv)
         then signed_results sz (idiv_switch sz d c) = (n sdiv dv, n smod dv) \<and>
              c_halted (idiv_switch sz d c) = c_halted c
         else idiv_switch sz d c = divide_error ''IDIV overflow'' c)"

lemma remainder_range:
  assumes "in_signed_range w d" "d \<noteq> 0"
  shows "in_signed_range w (n smod d)"
  using sdiv_smod_bounds(2) [OF assms(2), of n] assms(1) by (auto simp: in_signed_range_def)

lemma in_range_abs: "in_signed_range (Suc n) x \<Longrightarrow> \<bar>x\<bar> \<le> 2 ^ n"
  by (auto simp: in_signed_range_def)

lemma idiv_switch_1:
  assumes "sval 8 (uint d) \<noteq> 0" "fits 1 d"
  shows "divides_signed 1 d c"
proof -
  define n where "n = sint (reg16 c RAX)"
  have dv: "sint (ucast d :: u8) = sval 8 (uint d)" using sint_ucast_fits(1) [OF _ assms(2)] by simp
  have sp: "signed_pair 1 c = n" by (simp add: signed_pair_def acc_pair_def n_def sint_eq_sval)
  have dr: "in_signed_range 8 (sval 8 (uint d))"
    using assms(2) by (intro sval_range) (auto simp: fits_uint)
  have "in_signed_range 16 n" using sval_range [of 16 "uint (reg16 c RAX)"] uint_lt2p [of "reg16 c RAX"] by (simp add: n_def sint_eq_sval)
  then have "\<bar>n\<bar> \<le> 2 ^ 15" using in_range_abs [of 15] by simp
  then have "\<bar>n sdiv sval 8 (uint d)\<bar> \<le> 2 ^ 15" using sdiv_smod_bounds(1) [OF assms(1), of n] by simp
  note q = wrapped_quotient [OF this, of 8, simplified]
  note r = remainder_range [OF dr assms(1), of n]
  have r': "signed_take_bit 15 (n smod sval 8 (uint d)) = n smod sval 8 (uint d)"
    using in_signed_range_iff [of 15] in_signed_range_mono [OF r, of 16] by simp
  have over: "(x < - 128 \<or> 127 < x) \<longleftrightarrow> \<not> in_signed_range 8 x" for x by (auto simp: in_signed_range_def)
  show ?thesis
    unfolding divides_signed_def idiv_switch_def sp
    using q r signed_results_store(1) [of 1 "n sdiv sval 8 (uint d)" "n smod sval 8 (uint d)" c]
    by (simp add: Let_def dv over sint_word_of_int [where n = 15] r' flip: n_def)
qed

lemma idiv_switch_2:
  assumes "sval 16 (uint d) \<noteq> 0" "fits 2 d"
  shows "divides_signed 2 d c"
proof -
  define num where "num = (push_bit 16 (scast (reg16 c RDX)) OR ucast (reg16 c RAX) :: u32)"
  define n where "n = sint num"
  have scast: "push_bit 16 (scast (reg16 c RDX)) = (push_bit 16 (ucast (reg16 c RDX)) :: u32)"
    by (rule bit_word_eqI) (auto simp: bit_simps)
  have dv: "sint (ucast d :: u16) = sval 16 (uint d)" using sint_ucast_fits(2) [OF _ assms(2)] by simp
  have acc: "acc_pair 2 c = uint num"
    unfolding num_def scast uint_pair32 by (simp add: acc_pair_def uint_reg16)
  have sp: "signed_pair 2 c = n" by (simp add: signed_pair_def acc n_def sint_eq_sval)
  have dr: "in_signed_range 16 (sval 16 (uint d))"
    using assms(2) by (intro sval_range) (auto simp: fits_uint)
  have "in_signed_range 32 n" using sval_range [of 32 "uint num"] uint_lt2p [of num] by (simp add: n_def sint_eq_sval)
  then have "\<bar>n\<bar> \<le> 2 ^ 31" using in_range_abs [of 31] by simp
  then have "\<bar>n sdiv sval 16 (uint d)\<bar> \<le> 2 ^ 31" using sdiv_smod_bounds(1) [OF assms(1), of n] by simp
  note q = wrapped_quotient [OF this, of 16, simplified]
  note r = remainder_range [OF dr assms(1), of n]
  have r': "signed_take_bit 31 (n smod sval 16 (uint d)) = n smod sval 16 (uint d)"
    using in_signed_range_iff [of 31] in_signed_range_mono [OF r, of 32] by simp
  have over: "(x < - 32768 \<or> 32767 < x) \<longleftrightarrow> \<not> in_signed_range 16 x" for x by (auto simp: in_signed_range_def)
  show ?thesis
    unfolding divides_signed_def idiv_switch_def sp
    using q r signed_results_store(2) [of 2 "n sdiv sval 16 (uint d)" "n smod sval 16 (uint d)" c]
    by (simp add: Let_def dv over sint_word_of_int [where n = 31] r' flip: num_def n_def)
qed

lemma idiv_switch_4:
  assumes "sval 32 (uint d) \<noteq> 0" "fits 4 d"
  shows "divides_signed 4 d c"
proof -
  define num where "num = (push_bit 32 (scast (reg32 c RDX)) OR ucast (reg32 c RAX) :: u64)"
  define n where "n = sint num"
  have scast: "push_bit 32 (scast (reg32 c RDX)) = (push_bit 32 (ucast (reg32 c RDX)) :: u64)"
    by (rule bit_word_eqI) (auto simp: bit_simps)
  have dv: "sint (ucast d :: u32) = sval 32 (uint d)" using sint_ucast_fits(3) [OF _ assms(2)] by simp
  have acc: "acc_pair 4 c = uint num"
    unfolding num_def scast uint_pair64 by (simp add: acc_pair_def uint_reg32)
  have sp: "signed_pair 4 c = n" by (simp add: signed_pair_def acc n_def sint_eq_sval)
  have dr: "in_signed_range 32 (sval 32 (uint d))"
    using assms(2) by (intro sval_range) (auto simp: fits_uint)
  have "in_signed_range 64 n" using sval_range [of 64 "uint num"] uint_lt2p [of num] by (simp add: n_def sint_eq_sval)
  then have "\<bar>n\<bar> \<le> 2 ^ 63" using in_range_abs [of 63] by simp
  then have "\<bar>n sdiv sval 32 (uint d)\<bar> \<le> 2 ^ 63" using sdiv_smod_bounds(1) [OF assms(1), of n] by simp
  note q = wrapped_quotient [OF this, of 32, simplified]
  note r = remainder_range [OF dr assms(1), of n]
  have r': "signed_take_bit 63 (n smod sval 32 (uint d)) = n smod sval 32 (uint d)"
    using in_signed_range_iff [of 63] in_signed_range_mono [OF r, of 64] by simp
  have over: "(x < - 2147483648 \<or> 2147483647 < x) \<longleftrightarrow> \<not> in_signed_range 32 x" for x by (auto simp: in_signed_range_def)
  show ?thesis
    unfolding divides_signed_def idiv_switch_def sp
    using q r signed_results_store(3) [of 4 "n sdiv sval 32 (uint d)" "n smod sval 32 (uint d)" c]
    by (simp add: Let_def dv over sint_word_of_int [where n = 63] r' flip: num_def n_def)
qed

text \<open>At size 8 a dividend is accepted only when it is the sign extension of its lower half.\<close>

lemma idiv_switch_8:
  assumes "d \<noteq> 0"
  shows "if in_signed_range 64 (signed_pair 8 c)
    then in_signed_range 64 (signed_pair 8 c sdiv sint d) \<longrightarrow>
      signed_results 8 (idiv_switch 8 d c) = (signed_pair 8 c sdiv sint d, signed_pair 8 c smod sint d) \<and>
      c_halted (idiv_switch 8 d c) = c_halted c
    else idiv_switch 8 d c = divide_error ''IDIV128 unsupported'' c"
proof -
  define h where "h = uint (reg c RDX)"
  define l where "l = uint (reg c RAX)"
  define n where "n = signed_pair 8 c"
  have b: "0 \<le> l" "l < 2 ^ 64" "0 \<le> h" "h < 2 ^ 64"
    using uint_lt2p [of "reg c RAX"] uint_lt2p [of "reg c RDX"] by (simp_all add: l_def h_def)
  have acc: "acc_pair 8 c = l + 2 ^ 64 * h"
    by (simp only: acc_pair_def word_numeral_neqs if_False h_def l_def reg_operand_value_take_bit width_of_consts)
  have bound: "l + 2 ^ 64 * h < 2 ^ 128" using b mult_le_mono_pow [of h "2 ^ 64 - 1"] by simp
  have n: "n = sval 128 (l + 2 ^ 64 * h)" by (simp add: n_def signed_pair_def acc)
  have lo: "reg c RAX = word_of_int n" and hi: "reg c RDX = word_of_int (drop_bit 64 n)"
  proof -
    have "(word_of_int n :: u64) = word_of_int l"
      by (rule word_uint_eqI) (simp add: uint_word_of_int n sval_def mod_diff_eq [symmetric])
    then show "reg c RAX = word_of_int n" by (simp add: l_def)
    have "drop_bit 64 n = h - (if l + 2 ^ 64 * h < 2 ^ 127 then 0 else 2 ^ 64)"
    proof -
      have "n = l + 2 ^ 64 * (h - (if l + 2 ^ 64 * h < 2 ^ 127 then 0 else 2 ^ 64))"
        by (simp add: n sval_def)
      moreover have "(l + 2 ^ 64 * k) div 2 ^ 64 = k" for k :: int
        using b by simp
      ultimately show ?thesis by (metis drop_bit_eq_div)
    qed
    then have "(word_of_int (drop_bit 64 n) :: u64) = word_of_int h"
      by (intro word_uint_eqI) (simp only: uint_word_of_int, simp)
    then show "reg c RDX = word_of_int (drop_bit 64 n)" by (simp add: h_def)
  qed
  have nr: "in_signed_range 128 n" unfolding n by (rule sval_range) (use b bound in auto)
  have fits: "reg c RDX = sign_fill (reg c RAX) \<longleftrightarrow> in_signed_range 64 n"
    unfolding lo hi by (rule sign_fill_high [OF nr])
  have dv: "sint d \<noteq> 0" using assms by (simp add: signed_eq_0_iff)
  have dr: "in_signed_range 64 (sint d)"
    using sval_range [of 64 "uint d"] uint_lt2p [of d] by (simp add: sint_eq_sval)
  have sn: "sint (reg c RAX) = n" if "in_signed_range 64 n"
    unfolding lo using that in_signed_range_iff [of 63 n] by (simp add: signed_of_int)
  show ?thesis
    unfolding n_def [symmetric]
    using fits sn remainder_range [OF dr dv, of n]
      signed_results_store(4) [of 8 "n sdiv sint d" "n smod sint d" c]
    by (simp add: idiv_switch_def Let_def)
qed

lemma idiv_switch_exact:
  assumes "sz = 1 \<or> sz = 2 \<or> sz = 4" "fits sz d" "d \<noteq> 0"
  shows "divides_signed sz d c"
proof -
  have v: "valid_size sz" using assms(1) by auto
  have "sval (width_of sz) (uint d) \<noteq> 0"
    using assms(3) uint_fits_bounds [OF v assms(2)] by (auto simp: sval_def word_uint_eq_iff)
  then show ?thesis
    using assms idiv_switch_1 [of d c] idiv_switch_2 [of d c] idiv_switch_4 [of d c] by auto
qed

section \<open>Properties of the divisions\<close>

text \<open>C4: DIV raises a divide error, leaving the registers alone, when the divisor is zero or the
  quotient does not fit; otherwise it stores the exact quotient and remainder of the double-width
  accumulator.\<close>

theorem op_div_correct:
  assumes "valid_size (i_op_size i)" "o_kind (i_src i) \<noteq> OK_Rel"
    and "read_operand env i (i_src i) (i_op_size i) c = (Some d, c1)"
  shows "let sz = i_op_size i; n = acc_pair sz c1; dv = uint d
    in if dv = 0 \<or> 2 ^ width_of sz \<le> n div dv
       then f_kind (c_fault (op_div env i c)) = FK_DivideError \<and> c_halted (op_div env i c) \<and>
            reg (op_div env i c) = reg c1
       else div_results sz (op_div env i c) = (n div dv, n mod dv) \<and>
            c_halted (op_div env i c) = c_halted c1"
proof -
  have err: "f_kind (c_fault (divide_error s c1)) = FK_DivideError" "c_halted (divide_error s c1)"
    "reg (divide_error s c1) = reg c1" for s
    by (simp_all add: divide_error_def set_fault_def reg_def fun_eq_iff)
  show ?thesis
    using div_switch_exact [OF assms(1) read_operand_fits [OF assms(3,1,2)], of c1]
    by (auto simp: Let_def op_div_def assms(3) divides_exactly_def err word_uint_eq_iff not_le [symmetric])
qed

theorem op_div_correct_witness:
  "div_results 1 (op_div no_env (plain_insn 1 (reg_op 0) (reg_op 3)) (set_r64 3 7 (set_r64 0 100 (initial_cpu ())))) = (14, 2)"
  using op_div_correct [of "plain_insn 1 (reg_op 0) (reg_op 3)" no_env
      "set_r64 3 7 (set_r64 0 100 (initial_cpu ()))" 7 "set_r64 3 7 (set_r64 0 100 (initial_cpu ()))"]
  by (simp add: Let_def read_operand_reg_value reg_operand_value_def mask_for_def acc_pair_def reg16_def c_gpr_reg)

text \<open>C5: IDIV at sizes 1, 2 and 4 raises a divide error when the divisor is zero or the quotient,
  truncated towards zero, does not fit, and otherwise stores that quotient and remainder.
  At size 8 this holds for a dividend that fits 64 bits and a quotient that does; any wider dividend
  is refused with a divide error.\<close>

theorem op_idiv_correct:
  assumes "valid_size (i_op_size i)" "o_kind (i_src i) \<noteq> OK_Rel"
    and "read_operand env i (i_src i) (i_op_size i) c = (Some d, c1)"
  shows "let sz = i_op_size i; w = width_of sz; n = signed_pair sz c1; dv = sval w (uint d);
             c' = op_idiv env i c; de = (f_kind (c_fault c') = FK_DivideError \<and> c_halted c' \<and> reg c' = reg c1);
             exact = (signed_results sz c' = (n sdiv dv, n smod dv) \<and> c_halted c' = c_halted c1)
    in if dv = 0 then de
       else if sz \<noteq> 8 then (if in_signed_range w (n sdiv dv) then exact else de)
       else if in_signed_range 64 n then in_signed_range 64 (n sdiv dv) \<longrightarrow> exact
       else de"
proof -
  have err: "f_kind (c_fault (divide_error s c1)) = FK_DivideError" "c_halted (divide_error s c1)"
    "reg (divide_error s c1) = reg c1" for s
    by (simp_all add: divide_error_def set_fault_def reg_def fun_eq_iff)
  note fits = read_operand_fits [OF assms(3,1,2)]
  have zero: "sval (width_of (i_op_size i)) (uint d) = 0 \<longleftrightarrow> d = 0"
    using uint_fits_bounds [OF assms(1) fits] by (auto simp: sval_def word_uint_eq_iff)
  show ?thesis
  proof (cases "d = 0")
    case True
    then show ?thesis using zero by (simp add: Let_def op_idiv_def assms(3) err)
  next
    case d: False
    then have op: "op_idiv env i c = idiv_switch (i_op_size i) d c1" by (simp add: op_idiv_def assms(3))
    show ?thesis
    proof (cases "i_op_size i = 8")
      case True
      have "sval 64 (uint d) = sint d" by (simp add: sint_eq_sval)
      then show ?thesis
        using idiv_switch_8 [OF d, of c1] zero d True by (simp add: Let_def op err split: if_splits)
    next
      case False
      then have "i_op_size i = 1 \<or> i_op_size i = 2 \<or> i_op_size i = 4" using assms(1) by (simp add: valid_size_def)
      from idiv_switch_exact [OF this fits d, where c = c1] show ?thesis
        using zero d False by (auto simp: Let_def op err divides_signed_def)
    qed
  qed
qed

theorem op_idiv_correct_witness:
  "signed_results 4 (op_idiv no_env (plain_insn 4 (reg_op 0) (reg_op 3))
     (set_r64 3 2 (set_r64 2 0xFFFFFFFF (set_r64 0 0xFFFFFFF9 (initial_cpu ()))))) = (- 3, - 1)"
  using op_idiv_correct [of "plain_insn 4 (reg_op 0) (reg_op 3)" no_env
      "set_r64 3 2 (set_r64 2 0xFFFFFFFF (set_r64 0 0xFFFFFFF9 (initial_cpu ())))" 2
      "set_r64 3 2 (set_r64 2 0xFFFFFFFF (set_r64 0 0xFFFFFFF9 (initial_cpu ())))"]
  by (simp add: Let_def read_operand_reg_value reg_operand_value_def mask_for_def acc_pair_def signed_pair_def
      sval_def signed_divide_int_def signed_modulo_int_def in_signed_range_def)

end
