(* ===== verification/Data_Mov.thy ===== *)
theory Data_Mov
  imports Multiply_Divide
begin

text \<open>The data-movement handlers of \<^verbatim>\<open>src/emu/handlers/data_mov.cpp\<close>.\<close>

section \<open>Handlers\<close>

definition op_invalid :: "'m env \<Rightarrow> insn \<Rightarrow> 'm cpu \<Rightarrow> 'm cpu" where
  "op_invalid env i c =
     set_fault FK_InvalidOpcode (c_rip c) St_InvalidInstruction ''invalid handler bound by decoder'' c"

definition op_nop :: "'m env \<Rightarrow> insn \<Rightarrow> 'm cpu \<Rightarrow> 'm cpu" where
  "op_nop env i c = c"

definition op_mov :: "'m env \<Rightarrow> insn \<Rightarrow> 'm cpu \<Rightarrow> 'm cpu" where
  "op_mov env i c =
     read_then (read_operand env i (i_src i) (i_op_size i) c) (\<lambda>v c.
       snd (write_operand env i (i_dst i) (i_op_size i) v c))"

text \<open>The decoder stores the source size of MOVZX and MOVSX in the scale field.\<close>

definition ext_src_size :: "insn \<Rightarrow> u8" where
  "ext_src_size i = (if o_scale (i_src i) \<noteq> 0 then o_scale (i_src i) else 1)"

definition op_movzx :: "'m env \<Rightarrow> insn \<Rightarrow> 'm cpu \<Rightarrow> 'm cpu" where
  "op_movzx env i c =
     read_then (read_operand env i (i_src i) (ext_src_size i) c) (\<lambda>v c.
       snd (write_operand env i (i_dst i) (i_op_size i) (v AND mask_for (ext_src_size i)) c))"

definition op_movsx :: "'m env \<Rightarrow> insn \<Rightarrow> 'm cpu \<Rightarrow> 'm cpu" where
  "op_movsx env i c =
     read_then (read_operand env i (i_src i) (ext_src_size i) c) (\<lambda>v c.
       snd (write_operand env i (i_dst i) (i_op_size i) (sign_extend v (ext_src_size i)) c))"

definition op_movsxd :: "'m env \<Rightarrow> insn \<Rightarrow> 'm cpu \<Rightarrow> 'm cpu" where
  "op_movsxd env i c =
     read_then (read_operand env i (i_src i) 4 c) (\<lambda>v c.
       snd (write_operand env i (i_dst i) (i_op_size i) (sign_extend v 4) c))"

definition op_lea :: "'m env \<Rightarrow> insn \<Rightarrow> 'm cpu \<Rightarrow> 'm cpu" where
  "op_lea env i c =
     (if o_kind (i_src i) \<noteq> OK_Mem \<and> o_kind (i_src i) \<noteq> OK_RipRelMem
      then set_fault FK_InvalidOpcode (c_rip c) St_InvalidInstruction ''LEA requires memory operand'' c
      else snd (write_operand env i (i_dst i) (i_op_size i) (ea c i (i_src i)) c))"

definition op_push :: "'m env \<Rightarrow> insn \<Rightarrow> 'm cpu \<Rightarrow> 'm cpu" where
  "op_push env i c =
     read_then (read_operand env i (i_dst i) (i_op_size i) c) (\<lambda>v c.
       let new_rsp = reg c RSP - ucast (i_op_size i)
       in ok_then (write_mem_bytes env new_rsp (i_op_size i) v c) (set_r64 RSP new_rsp))"

definition op_pop :: "'m env \<Rightarrow> insn \<Rightarrow> 'm cpu \<Rightarrow> 'm cpu" where
  "op_pop env i c =
     (let rsp = reg c RSP
      in read_then (read_mem_bytes env rsp (i_op_size i) c) (\<lambda>v c.
           set_r64 RSP (rsp + ucast (i_op_size i))
             (snd (write_operand env i (i_dst i) (i_op_size i) v c))))"

text \<open>Evaluating a condition synchronises the flags.\<close>

definition op_cmov :: "'m env \<Rightarrow> insn \<Rightarrow> 'm cpu \<Rightarrow> 'm cpu" where
  "op_cmov env i c =
     (let taken = cond_holds c (i_cond i); c = sync_flags c
      in if taken
         then read_then (read_operand env i (i_src i) (i_op_size i) c) (\<lambda>v c.
                snd (write_operand env i (i_dst i) (i_op_size i) v c))
         else c)"

definition op_xchg :: "'m env \<Rightarrow> insn \<Rightarrow> 'm cpu \<Rightarrow> 'm cpu" where
  "op_xchg env i c =
     read_then (read_operand env i (i_dst i) (i_op_size i) c) (\<lambda>a c.
     read_then (read_operand env i (i_src i) (i_op_size i) c) (\<lambda>b c.
       ok_then (write_operand env i (i_dst i) (i_op_size i) b c) (\<lambda>c.
         snd (write_operand env i (i_src i) (i_op_size i) a c))))"

definition bswap_value :: "u8 \<Rightarrow> u64 \<Rightarrow> u64" where
  "bswap_value sz v =
     (if sz = 8 then
        push_bit 56 (v AND 0x00000000000000FF) OR push_bit 40 (v AND 0x000000000000FF00) OR
        push_bit 24 (v AND 0x0000000000FF0000) OR push_bit 8 (v AND 0x00000000FF000000) OR
        drop_bit 8 (v AND 0x000000FF00000000) OR drop_bit 24 (v AND 0x0000FF0000000000) OR
        drop_bit 40 (v AND 0x00FF000000000000) OR drop_bit 56 (v AND 0xFF00000000000000)
      else
        (let w = ucast v :: u32
         in ucast (push_bit 24 (w AND 0x000000FF) OR push_bit 8 (w AND 0x0000FF00) OR
                   drop_bit 8 (w AND 0x00FF0000) OR drop_bit 24 (w AND 0xFF000000))))"

definition op_bswap :: "'m env \<Rightarrow> insn \<Rightarrow> 'm cpu \<Rightarrow> 'm cpu" where
  "op_bswap env i c =
     read_then (read_operand env i (i_dst i) (i_op_size i) c) (\<lambda>v c.
       snd (write_operand env i (i_dst i) (i_op_size i) (bswap_value (i_op_size i) v) c))"

definition op_cwde :: "'m env \<Rightarrow> insn \<Rightarrow> 'm cpu \<Rightarrow> 'm cpu" where
  "op_cwde env i c =
     (let raw = reg c RAX
      in if i_op_size i = 2 then
           set_r64 RAX ((raw AND NOT 0xFFFF) OR
             (ucast (scast (ucast (raw AND 0xFF) :: u8) :: u16) AND 0xFFFF)) c
         else if i_op_size i = 4 then set_r32 RAX (scast (ucast (raw AND 0xFFFF) :: u16)) c
         else if i_op_size i = 8 then set_r64 RAX (scast (ucast (raw AND 0xFFFFFFFF) :: u32)) c
         else set_r64 RAX raw c)"

definition op_cdq :: "'m env \<Rightarrow> insn \<Rightarrow> 'm cpu \<Rightarrow> 'm cpu" where
  "op_cdq env i c =
     (let a = reg c RAX
      in if i_op_size i = 2 then set_r16 RDX (if a AND 0x8000 \<noteq> 0 then 0xFFFF else 0) c
         else if i_op_size i = 4 then set_r32 RDX (if a AND 0x80000000 \<noteq> 0 then 0xFFFFFFFF else 0) c
         else if i_op_size i = 8 then set_r64 RDX (if a AND push_bit 63 1 \<noteq> 0 then NOT 0 else 0) c
         else c)"

end
