(* ===== verification/Control_Flow.thy ===== *)
theory Control_Flow
  imports Data_Mov
begin

text \<open>
  The control-flow and system handlers of \<^verbatim>\<open>src/emu/handlers/control_flow.cpp\<close>.  The static counters of RDTSC
  and RDRAND are fields of the CPU record.
\<close>

section \<open>Branches\<close>

definition branch_target_from_operand :: "'m env \<Rightarrow> insn \<Rightarrow> 'm cpu \<Rightarrow> GuestAddr \<times> 'm cpu" where
  "branch_target_from_operand env i c =
     (let op = i_dst i
      in case o_kind op of
           OK_Rel \<Rightarrow> (i_rip i + ucast (i_len i) + o_imm op, c)
         | OK_Reg \<Rightarrow> (reg c (o_reg op), c)
         | OK_Mem \<Rightarrow> (case read_operand env i op 8 c of (None, c) \<Rightarrow> (0, c) | (Some v, c) \<Rightarrow> (v, c))
         | OK_RipRelMem \<Rightarrow> (case read_operand env i op 8 c of (None, c) \<Rightarrow> (0, c) | (Some v, c) \<Rightarrow> (v, c))
         | _ \<Rightarrow> (0, set_fault FK_InvalidOpcode (c_rip c) St_InvalidInstruction ''bad branch operand kind'' c))"

definition op_jmp :: "'m env \<Rightarrow> insn \<Rightarrow> 'm cpu \<Rightarrow> 'm cpu" where
  "op_jmp env i c =
     (case branch_target_from_operand env i c of
        (tgt, c) \<Rightarrow> if c_halted c then c else take_branch tgt c)"

definition rel_target :: "insn \<Rightarrow> GuestAddr" where
  "rel_target i = i_rip i + ucast (i_len i) + o_imm (i_dst i)"

definition op_jcc :: "'m env \<Rightarrow> insn \<Rightarrow> 'm cpu \<Rightarrow> 'm cpu" where
  "op_jcc env i c =
     (let taken = cond_holds c (i_cond i); c = sync_flags c
      in if taken then take_branch (rel_target i) c else c)"

definition op_call :: "'m env \<Rightarrow> insn \<Rightarrow> 'm cpu \<Rightarrow> 'm cpu" where
  "op_call env i c =
     (let return_addr = i_rip i + ucast (i_len i)
      in case e_mem_write env of
           None \<Rightarrow> set_fault FK_ProviderFailure (reg c RSP) St_ProviderFailure
                     ''no write provider for CALL push'' c
         | Some p \<Rightarrow>
             (let new_rsp = reg c RSP - 8
              in case call_write p new_rsp 8 return_addr c of
                   (s, c) \<Rightarrow>
                     if fail s then set_fault (kind_from_status s) new_rsp s ''CALL push'' c
                     else
                       (case branch_target_from_operand env i (set_r64 RSP new_rsp c) of
                          (tgt, c) \<Rightarrow> take_branch tgt c)))"

definition op_loop :: "'m env \<Rightarrow> insn \<Rightarrow> 'm cpu \<Rightarrow> 'm cpu" where
  "op_loop env i c =
     (let new_rcx = reg c RCX - 1; c = set_r64 RCX new_rcx c; take = (new_rcx \<noteq> 0);
          (take, c) = (if take \<and> i_cond i \<noteq> Cc_None then (cond_holds c (i_cond i), sync_flags c)
                       else (take, c))
      in if take then take_branch (rel_target i) c else c)"

definition op_jcxz :: "'m env \<Rightarrow> insn \<Rightarrow> 'm cpu \<Rightarrow> 'm cpu" where
  "op_jcxz env i c = (if reg c RCX = 0 then take_branch (rel_target i) c else c)"

definition op_ret :: "'m env \<Rightarrow> insn \<Rightarrow> 'm cpu \<Rightarrow> 'm cpu" where
  "op_ret env i c =
     (case e_mem_read env of
        None \<Rightarrow> set_fault FK_ProviderFailure (reg c RSP) St_ProviderFailure ''no read provider for RET pop'' c
      | Some p \<Rightarrow>
          (let rsp = reg c RSP
           in case call_read p rsp 8 c of
                ((s, ret_addr), c) \<Rightarrow>
                  if fail s then set_fault (kind_from_status s) rsp s ''RET pop'' c
                  else
                    (let imm16_pop = (if o_kind (i_dst i) = OK_Imm then o_imm (i_dst i) AND 0xFFFF else 0)
                     in take_branch ret_addr (set_r64 RSP (rsp + 8 + imm16_pop) c))))"

section \<open>CPUID\<close>

text \<open>The canned answers \<open>(eax, ebx, ecx, edx)\<close>; bits are listed as in the source.\<close>

definition bits_of :: "nat list \<Rightarrow> u32" where
  "bits_of ns = fold (\<lambda>n v. v OR push_bit n 1) ns 0"

definition cpuid_default :: "u32 \<Rightarrow> u32 \<Rightarrow> u32 \<times> u32 \<times> u32 \<times> u32" where
  "cpuid_default leaf subleaf =
     (if leaf = 0x00000000 then (0x0000000D, 0x756E6547, 0x6C65746E, 0x49656E69)
      else if leaf = 0x00000001 then
        (push_bit 8 6 OR push_bit 4 0x05 OR 0x03 OR push_bit 12 0 OR push_bit 16 5,
         push_bit 0 1 OR push_bit 8 8 OR push_bit 16 1 OR push_bit 24 0,
         bits_of [0, 1, 9, 12, 13, 19, 20, 22, 23, 25, 26, 27, 28, 29, 30],
         bits_of [0, 1, 2, 3, 4, 5, 6, 7, 8, 9, 11, 12, 13, 14, 15, 16, 17, 19, 21, 22, 23, 24, 25, 26, 27, 28])
      else if leaf = 0x00000007 then
        (if subleaf = 0 then (0, bits_of [0, 3, 5, 8, 9], 0, 0) else (0, 0, 0, 0))
      else if leaf = 0x80000000 then (0x80000004, 0, 0, 0)
      else if leaf = 0x80000001 then (0, 0, 0, bits_of [29, 27])
      else if leaf = 0x80000002 then (0x6C756D45, 0x726F7461, 0x38782820, 0x34362D36)
      else if leaf = 0x80000003 then (0x55504320, 0x00000029, 0, 0)
      else (0, 0, 0, 0))"

definition set_cpuid_regs :: "u32 \<Rightarrow> u32 \<Rightarrow> u32 \<Rightarrow> u32 \<Rightarrow> 'm cpu \<Rightarrow> 'm cpu" where
  "set_cpuid_regs a b cx d c = set_r32 RDX d (set_r32 RCX cx (set_r32 RBX b (set_r32 RAX a c)))"

definition op_cpuid :: "'m env \<Rightarrow> insn \<Rightarrow> 'm cpu \<Rightarrow> 'm cpu" where
  "op_cpuid env i c =
     (let leaf = reg32 c RAX; subleaf = reg32 c RCX
      in case cpuid_lookup c leaf subleaf of
           Some e \<Rightarrow> set_cpuid_regs (cl_eax e) (cl_ebx e) (cl_ecx e) (cl_edx e) c
         | None \<Rightarrow> (case cpuid_default leaf subleaf of (a, b, cx, d) \<Rightarrow> set_cpuid_regs a b cx d c))"

section \<open>RDTSC, RDRAND, HLT, SYSCALL\<close>

definition op_rdtsc :: "'m env \<Rightarrow> insn \<Rightarrow> 'm cpu \<Rightarrow> 'm cpu" where
  "op_rdtsc env i c =
     (let t = c_tsc c + 1; c = c\<lparr>c_tsc := t\<rparr>
      in set_r32 RDX (ucast (drop_bit 32 t)) (set_r32 RAX (ucast t) c))"

definition xorshift :: "u64 \<Rightarrow> u64" where
  "xorshift s =
     (let s = s XOR drop_bit 12 s; s = s XOR push_bit 25 s
      in s XOR drop_bit 27 s)"

definition op_rdrand :: "'m env \<Rightarrow> insn \<Rightarrow> 'm cpu \<Rightarrow> 'm cpu" where
  "op_rdrand env i c =
     (let s = xorshift (c_rdrand c); c = c\<lparr>c_rdrand := s\<rparr>;
          v = s * 0x2545F4914F6CDD1D;
          c = snd (write_operand env i (i_dst i) (i_op_size i) v c);
          c = force_sync_flags c
      in set_pf False (set_af False (set_sf False (set_zf False (set_of False (set_cf True c))))))"

definition op_hlt :: "'m env \<Rightarrow> insn \<Rightarrow> 'm cpu \<Rightarrow> 'm cpu" where
  "op_hlt env i c = set_fault FK_GeneralProtection (c_rip c) St_Ok ''HLT in user mode'' c"

definition op_syscall :: "'m env \<Rightarrow> insn \<Rightarrow> 'm cpu \<Rightarrow> 'm cpu" where
  "op_syscall env i c =
     set_fault FK_InvalidOpcode (c_rip c) St_Ok
       ''SYSCALL -- install an INSN hook with filter_op=Syscall to service'' c"

end
