(* ===== verification/Peephole.thy ===== *)
theory Peephole
  imports Control_Flow
begin

text \<open>
  The peephole pass of \<^verbatim>\<open>src/emu/ir/peephole.cpp\<close>.  The counter of folded instructions is a global of the
  program; it is passed through.
\<close>

section \<open>The pass\<close>

definition is_self_mov :: "insn \<Rightarrow> bool" where
  "is_self_mov i \<longleftrightarrow> i_kind i = Op_Mov \<and> o_kind (i_dst i) = OK_Reg \<and> o_kind (i_src i) = OK_Reg \<and>
     o_reg (i_dst i) = o_reg (i_src i)"

definition is_self_xchg :: "insn \<Rightarrow> bool" where
  "is_self_xchg i \<longleftrightarrow> i_kind i = Op_Xchg \<and> o_kind (i_dst i) = OK_Reg \<and> o_kind (i_src i) = OK_Reg \<and>
     o_reg (i_dst i) = o_reg (i_src i)"

definition is_self_lea :: "insn \<Rightarrow> bool" where
  "is_self_lea i \<longleftrightarrow> i_kind i = Op_Lea \<and> o_kind (i_dst i) = OK_Reg \<and> o_kind (i_src i) = OK_Mem \<and>
     o_reg (i_src i) = o_reg (i_dst i) \<and> o_index (i_src i) = REG_NONE \<and> o_imm (i_src i) = 0"

definition make_nop :: "insn \<Rightarrow> insn" where
  "make_nop i = i\<lparr>i_kind := Op_Nop, i_handler := HMove H_nop\<rparr>"

definition fold_self :: "insn \<Rightarrow> u64 \<Rightarrow> insn \<times> u64" where
  "fold_self i folded =
     (if is_self_mov i \<or> is_self_xchg i \<or> is_self_lea i then (make_nop i, folded + 1) else (i, folded))"

fun fold_selfs :: "insn list \<Rightarrow> u64 \<Rightarrow> insn list \<times> u64" where
  "fold_selfs [] n = ([], n)"
| "fold_selfs (i # is) n =
     (case fold_self i n of (i, n) \<Rightarrow> (case fold_selfs is n of (is, n) \<Rightarrow> (i # is, n)))"

definition always_taken :: "Cc \<Rightarrow> bool" where
  "always_taken cond \<longleftrightarrow> cond \<in> {Cc_Z, Cc_BE, Cc_LE, Cc_NB, Cc_NS, Cc_NO, Cc_NL}"

definition xor_self :: "insn \<Rightarrow> bool" where
  "xor_self a \<longleftrightarrow> i_kind a = Op_Xor \<and> o_kind (i_dst a) = OK_Reg \<and> o_kind (i_src a) = OK_Reg \<and>
     o_reg (i_dst a) = o_reg (i_src a)"

definition make_jmp :: "insn \<Rightarrow> insn" where
  "make_jmp b = b\<lparr>i_kind := Op_Jmp, i_handler := HFlow H_jmp, i_cond := Cc_None\<rparr>"

text \<open>The loop runs over the pairs of neighbours.\<close>

fun fold_opaque_jcc :: "insn list \<Rightarrow> u64 \<Rightarrow> insn list \<times> u64" where
  "fold_opaque_jcc (a # b # is) n =
     (let (b, n) = (if xor_self a \<and> i_kind b = Op_Jcc \<and> always_taken (i_cond b) then (make_jmp b, n + 1) else (b, n))
      in case fold_opaque_jcc (b # is) n of (is, n) \<Rightarrow> (a # is, n))"
| "fold_opaque_jcc is n = (is, n)"

definition peephole_block :: "decoded_block \<Rightarrow> u64 \<Rightarrow> decoded_block \<times> u64" where
  "peephole_block b n =
     (case fold_selfs (b_insns b) n of (is, n) \<Rightarrow>
        (case fold_opaque_jcc is n of (is, n) \<Rightarrow> (b\<lparr>b_insns := is\<rparr>, n)))"

section \<open>Shape\<close>

lemma fold_selfs_map:
  "fst (fold_selfs is n) = map (\<lambda>i. if is_self_mov i \<or> is_self_xchg i \<or> is_self_lea i then make_nop i else i) is"
  by (induction "is" arbitrary: n) (simp_all add: fold_self_def split_beta)

lemma fold_opaque_jcc_shape:
  "length (fst (fold_opaque_jcc is n)) = length is \<and> map i_rip (fst (fold_opaque_jcc is n)) = map i_rip is \<and>
    map i_len (fst (fold_opaque_jcc is n)) = map i_len is"
  by (induction "is" n rule: fold_opaque_jcc.induct) (auto simp: make_jmp_def split: prod.splits)

lemma peephole_shape:
  assumes "peephole_block b n = (b', n')"
  shows "length (b_insns b') = length (b_insns b)" "map i_rip (b_insns b') = map i_rip (b_insns b)"
    "map i_len (b_insns b') = map i_len (b_insns b)" "b_pc b' = b_pc b" "b_byte_size b' = b_byte_size b"
proof -
  obtain "is" k where s: "fold_selfs (b_insns b) n = (is, k)" by fastforce
  have m: "length is = length (b_insns b)" "map i_rip is = map i_rip (b_insns b)" "map i_len is = map i_len (b_insns b)"
    using fold_selfs_map [of "b_insns b" n] by (auto simp: s make_nop_def)
  show "length (b_insns b') = length (b_insns b)" "map i_rip (b_insns b') = map i_rip (b_insns b)"
    "map i_len (b_insns b') = map i_len (b_insns b)" "b_pc b' = b_pc b" "b_byte_size b' = b_byte_size b"
    using assms s m fold_opaque_jcc_shape [of "is" k] by (auto simp: peephole_block_def split: prod.splits)
qed

section \<open>Folding self moves\<close>

text \<open>What the three folded instructions do to their register.\<close>

lemma same_reg_write:
  assumes "valid_size sz" "r < 16 \<or> sz = 1 \<and> r < 20"
  shows "snd (write_reg_operand r sz (reg_operand_value c r sz) c) =
    (if sz = 4 then set_r64 r (reg c r AND 0xFFFFFFFF) c else c)"
proof -
  obtain c' where w: "write_reg_operand r sz (reg_operand_value c r sz) c = (True, c')"
    using write_reg_operand_ok [OF assms(1)] by blast
  have same: "c' = c" if "sz \<noteq> 4"
  proof -
    have "reg c' j = reg c j" for j
    proof (rule bit_word_eqI)
      fix n assume "n < LENGTH(64)"
      have nhi: "\<not> 16 \<le> r" if "sz \<noteq> 1" using assms(2) that by (simp add: not_le)
      from assms(1) that show "bit (reg c' j) n = bit (reg c j) n"
      proof (elim valid_size_cases)
        assume s: "sz = 1"
        have c': "c' = set_r8 r (ucast (reg_operand_value c r sz)) c" using w s by (simp add: write_reg_operand_def)
        have v: "ucast (reg_operand_value c r sz) = reg8 c r"
          by (rule bit_word_eqI) (auto simp: reg_operand_value_def s reg8_eq bit_simps mask_for_def mask_literals)
        show ?thesis unfolding c' v bit_reg_set_r8 by (auto simp: bit_reg8)
      next
        assume s: "sz = 2"
        have c': "c' = set_r16 r (ucast (reg_operand_value c r sz)) c" using w s by (simp add: write_reg_operand_def)
        show ?thesis unfolding c' bit_reg_set_r16
          by (auto simp: reg_operand_value_def s bit_simps mask_for_def mask_literals)
      next
        assume s: "sz = 8"
        have "c' = set_r64 r (reg c r AND mask_for 8) c" using w s by (simp add: write_reg_operand_def reg_operand_value_def)
        then show ?thesis by (simp add: set_r64_def reg_def and_mask_for take_bit_word_eq_self)
      qed simp
    qed
    then have "c_gpr c' = c_gpr c" by (simp add: reg_def fun_eq_iff)
    then show "c' = c" using write_reg_frame(2) [OF w assms(1)] by simp
  qed
  have four: "c' = set_r64 r (reg c r AND 0xFFFFFFFF) c" if "sz = 4"
  proof -
    have "(ucast (ucast (reg c r AND 0xFFFFFFFF) :: u32) :: u64) = reg c r AND 0xFFFFFFFF"
      by (rule bit_word_eqI) (auto simp: bit_simps mask_literals)
    then show ?thesis using w that by (auto simp: write_reg_operand_def set_r32_def reg_operand_value_def mask_for_def)
  qed
  show ?thesis using w same four by auto
qed


lemma write_reg_masked:
  "valid_size sz \<Longrightarrow> write_reg_operand r sz v c = write_reg_operand r sz (v AND mask_for sz) c"
proof (elim valid_size_cases)
  have 1: "(ucast (v AND 0xFF) :: u8) = ucast v" "(ucast (v AND 0xFFFF) :: u16) = ucast v" "(ucast (v AND 0xFFFFFFFF) :: u32) = ucast v"
    by (auto intro!: bit_word_eqI simp: bit_simps mask_literals)
  show ?thesis if "sz = 1" using that 1 by (simp add: write_reg_operand_def mask_for_def)
  show ?thesis if "sz = 2" using that 1 by (simp add: write_reg_operand_def mask_for_def)
  show ?thesis if "sz = 4" using that 1 by (simp add: write_reg_operand_def mask_for_def)
  show ?thesis if "sz = 8" using that by (simp add: write_reg_operand_def and_mask_for take_bit_word_eq_self)
qed

text \<open>The handler that the decoder binds to the three kinds.\<close>

definition self_handler :: "'m env \<Rightarrow> insn \<Rightarrow> 'm cpu \<Rightarrow> 'm cpu" where
  "self_handler env i = (if i_kind i = Op_Mov then op_mov env i else if i_kind i = Op_Xchg then op_xchg env i else op_lea env i)"

lemma self_handler_effect:
  assumes "valid_size (i_op_size i)" "o_reg (i_dst i) < 16"
    and "is_self_mov i \<or> is_self_xchg i \<or> is_self_lea i \<and> o_seg (i_src i) \<noteq> Seg_FS \<and> o_seg (i_src i) \<noteq> Seg_GS"
  shows "self_handler env i c =
    (if i_op_size i = 4 then set_r64 (o_reg (i_dst i)) (reg c (o_reg (i_dst i)) AND 0xFFFFFFFF) c else c)"
proof -
  let ?r = "o_reg (i_dst i)" and ?sz = "i_op_size i"
  note w = same_reg_write [OF assms(1), of ?r c] same_reg_write [OF assms(1), of ?r "set_r64 ?r (reg c ?r AND 0xFFFFFFFF) c"]
  have nhi: "\<not> 16 \<le> ?r" using assms(2) by (simp add: not_le)
  have val: "reg_operand_value c ?r ?sz = reg c ?r AND mask_for ?sz" by (simp add: reg_operand_value_def nhi)
  consider (mov) "is_self_mov i" | (xchg) "is_self_xchg i"
    | (lea) "is_self_lea i" "o_seg (i_src i) \<noteq> Seg_FS" "o_seg (i_src i) \<noteq> Seg_GS" using assms(3) by blast
  then show ?thesis
  proof cases
    case mov
    then show ?thesis
      using w(1) assms(2) by (simp add: is_self_mov_def self_handler_def op_mov_def read_operand_reg_value write_operand_reg)
  next
    case xchg
    obtain c1 where c1: "write_reg_operand ?r ?sz (reg_operand_value c ?r ?sz) c = (True, c1)"
      using write_reg_operand_ok [OF assms(1)] by blast
    have e: "c1 = (if ?sz = 4 then set_r64 ?r (reg c ?r AND 0xFFFFFFFF) c else c)" using w(1) assms(2) c1 by simp
    have v: "reg_operand_value c1 ?r ?sz = reg_operand_value c ?r ?sz"
      using reg_operand_value_write [OF assms(1) _ _ c1] fits_reg_operand_value [OF assms(1)] assms(2) by blast
    have "self_handler env i c = snd (write_reg_operand ?r ?sz (reg_operand_value c1 ?r ?sz) c1)"
      using xchg c1 v
      by (simp add: is_self_xchg_def self_handler_def op_xchg_def read_operand_reg_value write_operand_reg)
    also have "\<dots> = c1"
      unfolding same_reg_write [OF assms(1) disjI1 [OF assms(2)]] e by (simp add: set_r64_def reg_def and.assoc)
    finally show ?thesis using e by simp
  next
    case lea
    have "ea c i (i_src i) = reg c ?r"
      using lea assms(2) by (auto simp: is_self_lea_def ea_def Let_def split: Seg.splits)
    then have "self_handler env i c = snd (write_reg_operand ?r ?sz (reg c ?r) c)"
      using lea by (simp add: is_self_lea_def self_handler_def op_lea_def write_operand_reg)
    also have "\<dots> = snd (write_reg_operand ?r ?sz (reg_operand_value c ?r ?sz) c)"
      unfolding val by (subst write_reg_masked [OF assms(1)]) simp
    finally show ?thesis using w(1) assms(2) by simp
  qed
qed




section \<open>Folding decided branches\<close>

lemma sync_take_branch: "sync_flags (take_branch t c) = take_branch t (sync_flags c)"
  by (simp add: sync_flags_def take_branch_def Let_def)

lemma xor_self_flags:
  assumes "reg_form a" "xor_self a"
  shows "flags_of (op_xor env a c) = logic_spec (width_of (i_op_size a)) 0" "c_halted (op_xor env a c) = c_halted c"
  using logic_outcomes(3) [OF assms(1), of c env] assms(2)
  by (simp_all add: xor_self_def alu_outcome_def direct_value_def)

text \<open>C17: After XOR of a register with itself the fold replaces exactly conditional branches that are
  taken: the unconditional branch leaves the same CPU as the conditional one, apart from the
  pending flags that only the conditional branch has synchronised.\<close>

theorem jcc_fold_sound:
  assumes "reg_form a" "xor_self a" "always_taken (i_cond b)" "o_kind (i_dst b) = OK_Rel" "\<not> c_halted c"
  shows "let c1 = op_xor env a c in
    sync_flags (op_jmp env (make_jmp b) c1) = op_jcc env b c1 \<and> c_rip (op_jmp env (make_jmp b) c1) = rel_target b"
proof -
  let ?c1 = "op_xor env a c"
  have w: "0 < (2 :: int) ^ (width_of (i_op_size a) - 1)" by simp
  have "cond_holds ?c1 (i_cond b)"
    using assms(3) w unfolding cond_holds_flags_of xor_self_flags(1) [OF assms(1,2)]
    by (auto simp: always_taken_def logic_spec_def)
  then have "op_jcc env b ?c1 = take_branch (rel_target b) (sync_flags ?c1)" by (simp add: op_jcc_def Let_def)
  moreover have "op_jmp env (make_jmp b) ?c1 = take_branch (rel_target b) ?c1"
    using assms(4,5) xor_self_flags(2) [OF assms(1,2), of env c]
    by (simp add: op_jmp_def branch_target_from_operand_def make_jmp_def rel_target_def)
  ultimately show ?thesis by (simp add: Let_def sync_take_branch) (simp add: take_branch_def)
qed

theorem jcc_fold_sound_witness:
  "c_rip (op_jmp no_env (make_jmp (plain_insn 4 (zero_operand\<lparr>o_kind := OK_Rel, o_imm := 9\<rparr>) (imm_op 0)\<lparr>i_cond := Cc_LE\<rparr>))
     (op_xor no_env (plain_insn 4 (reg_op 3) (reg_op 3)\<lparr>i_kind := Op_Xor\<rparr>) (initial_cpu ()))) = 10"
  using jcc_fold_sound [of "plain_insn 4 (reg_op 3) (reg_op 3)\<lparr>i_kind := Op_Xor\<rparr>"
      "plain_insn 4 (zero_operand\<lparr>o_kind := OK_Rel, o_imm := 9\<rparr>) (imm_op 0)\<lparr>i_cond := Cc_LE\<rparr>" "initial_cpu ()" no_env]
  by (simp add: reg_form_def xor_self_def always_taken_def direct_operand_def Let_def rel_target_def)
    (simp add: initial_cpu_def)

end
