(* ===== verification/Line_Caches.thy ===== *)
theory Line_Caches
  imports Memory_Spans
begin

text \<open>
  The two direct-mapped read caches of \<^verbatim>\<open>emu/cache.h\<close>: \<^verbatim>\<open>src/emu/memory/l1_cache.cpp\<close> (64 lines of 64 bytes)
  and \<^verbatim>\<open>src/emu/memory/l2_cache.cpp\<close> (256 pages of 4 KiB, allocated by the first read).  Both files have the
  same loops; the turn of a loop is written once, for slots of \<open>2 ^ s\<close> bytes in a table of
  \<open>2 ^ e\<close> entries.  The cache holds the state of the next provider, whose operations are the
  argument \<open>p\<close> (\<open>None\<close> for a null pointer).
\<close>

section \<open>State\<close>

record line =
  ln_tag :: u64
  ln_valid :: bool
  ln_data :: "u8 list"

record 'n line_cache =
  lc_lines :: "line list"
  lc_hits :: u64
  lc_misses :: u64
  lc_next :: 'n

definition empty_line :: "nat \<Rightarrow> line" where
  "empty_line s = \<lparr>ln_tag = 0, ln_valid = False, ln_data = replicate (2 ^ s) 0\<rparr>"

definition new_l1 :: "'n \<Rightarrow> 'n line_cache" where
  "new_l1 n = \<lparr>lc_lines = replicate 64 (empty_line 6), lc_hits = 0, lc_misses = 0, lc_next = n\<rparr>"

definition new_l2 :: "'n \<Rightarrow> 'n line_cache" where
  "new_l2 n = \<lparr>lc_lines = [], lc_hits = 0, lc_misses = 0, lc_next = n\<rparr>"

section \<open>Turns of the loops\<close>

definition slot_index :: "nat \<Rightarrow> nat \<Rightarrow> GuestAddr \<Rightarrow> nat" where
  "slot_index s e base = unat (drop_bit s base AND mask e)"

definition line_read_turn ::
  "nat \<Rightarrow> nat \<Rightarrow> 'n provider \<Rightarrow> GuestAddr \<Rightarrow> nat \<Rightarrow> 'n line_cache \<Rightarrow> Status \<times> u8 list \<times> 'n line_cache" where
  "line_read_turn s e p cur n c =
     (let line_base = base_of s cur; off = offset_in s cur; idx = slot_index s e line_base;
          slot = lc_lines c ! idx
      in if ln_valid slot \<and> ln_tag slot = line_base
         then (St_Ok, take n (drop off (ln_data slot)), c\<lparr>lc_hits := lc_hits c + 1\<rparr>)
         else
           (case prov_read p line_base (2 ^ s) (lc_next c) of
              (r, bs, nx) \<Rightarrow>
                (let d = overlay 0 bs (ln_data slot);
                     c = c\<lparr>lc_misses := lc_misses c + 1, lc_next := nx\<rparr>
                 in if fail r
                    then (r, [], c\<lparr>lc_lines := (lc_lines c)[idx := slot\<lparr>ln_valid := False, ln_data := d\<rparr>]\<rparr>)
                    else (St_Ok, take n (drop off d),
                          c\<lparr>lc_lines := (lc_lines c)[idx := \<lparr>ln_tag = line_base, ln_valid = True, ln_data = d\<rparr>]\<rparr>))))"

definition line_patch_turn :: "nat \<Rightarrow> nat \<Rightarrow> GuestAddr \<Rightarrow> u8 list \<Rightarrow> line list \<Rightarrow> line list" where
  "line_patch_turn s e cur src ls =
     (let line_base = base_of s cur; idx = slot_index s e line_base; slot = ls ! idx
      in if ln_valid slot \<and> ln_tag slot = line_base
         then ls[idx := slot\<lparr>ln_data := overlay (offset_in s cur) src (ln_data slot)\<rparr>]
         else ls)"

definition line_drop_turn :: "nat \<Rightarrow> nat \<Rightarrow> GuestAddr \<Rightarrow> line list \<Rightarrow> line list" where
  "line_drop_turn s e base ls =
     (let idx = slot_index s e base; slot = ls ! idx
      in if ln_valid slot \<and> ln_tag slot = base then ls[idx := slot\<lparr>ln_valid := False\<rparr>] else ls)"

text \<open>The slot bases from \<open>addr\<close> to the last byte of the range, in steps of the slot size.\<close>

definition bases_between :: "nat \<Rightarrow> GuestAddr \<Rightarrow> nat \<Rightarrow> GuestAddr list" where
  "bases_between s addr n =
     (let start = base_of s addr; stop = base_of s (addr + of_nat n - 1)
      in map (\<lambda>i. start + of_nat (i * 2 ^ s)) [0..<Suc (unat (drop_bit s (stop - start)))])"

section \<open>The first level\<close>

definition l1_read :: "'n provider option \<Rightarrow> GuestAddr \<Rightarrow> nat \<Rightarrow> 'n line_cache \<Rightarrow> Status \<times> u8 list \<times> 'n line_cache" where
  "l1_read nx addr n c =
     (if n = 0 then (St_Ok, [], c)
      else (case nx of
              None \<Rightarrow> (St_ProviderFailure, [], c)
            | Some p \<Rightarrow> each_read (line_read_turn 6 6 p) (spans 6 addr n) c))"

definition l1_write :: "'n provider option \<Rightarrow> GuestAddr \<Rightarrow> u8 list \<Rightarrow> 'n line_cache \<Rightarrow> Status \<times> 'n line_cache" where
  "l1_write nx addr src c =
     (if src = [] then (St_Ok, c)
      else (case nx of
              None \<Rightarrow> (St_ProviderFailure, c)
            | Some p \<Rightarrow>
                (case prov_write p addr src (lc_next c) of
                   (r, n) \<Rightarrow>
                     if fail r then (r, c\<lparr>lc_next := n\<rparr>)
                     else (St_Ok, c\<lparr>lc_next := n,
                            lc_lines := each_write (line_patch_turn 6 6) (spans 6 addr (length src)) src (lc_lines c)\<rparr>))))"

definition l1_invalidate :: "GuestAddr \<Rightarrow> nat \<Rightarrow> 'n line_cache \<Rightarrow> 'n line_cache" where
  "l1_invalidate addr n c =
     (if n = 0 then c else c\<lparr>lc_lines := fold (line_drop_turn 6 6) (bases_between 6 addr n) (lc_lines c)\<rparr>)"

definition flush_lines :: "'n line_cache \<Rightarrow> 'n line_cache" where
  "flush_lines c = c\<lparr>lc_lines := map (\<lambda>l. l\<lparr>ln_valid := False, ln_tag := 0\<rparr>) (lc_lines c)\<rparr>"

definition reset_line_stats :: "'n line_cache \<Rightarrow> 'n line_cache" where
  "reset_line_stats c = c\<lparr>lc_hits := 0, lc_misses := 0\<rparr>"

section \<open>The second level\<close>

definition l2_alloc :: "'n line_cache \<Rightarrow> 'n line_cache" where
  "l2_alloc c = (if lc_lines c = [] then c\<lparr>lc_lines := replicate 256 (empty_line 12)\<rparr> else c)"

definition l2_read :: "'n provider option \<Rightarrow> GuestAddr \<Rightarrow> nat \<Rightarrow> 'n line_cache \<Rightarrow> Status \<times> u8 list \<times> 'n line_cache" where
  "l2_read nx addr n c =
     (if n = 0 then (St_Ok, [], c)
      else (case nx of
              None \<Rightarrow> (St_ProviderFailure, [], c)
            | Some p \<Rightarrow> each_read (line_read_turn 12 8 p) (spans 12 addr n) (l2_alloc c)))"

definition l2_write :: "'n provider option \<Rightarrow> GuestAddr \<Rightarrow> u8 list \<Rightarrow> 'n line_cache \<Rightarrow> Status \<times> 'n line_cache" where
  "l2_write nx addr src c =
     (if src = [] then (St_Ok, c)
      else (case nx of
              None \<Rightarrow> (St_ProviderFailure, c)
            | Some p \<Rightarrow>
                (case prov_write p addr src (lc_next c) of
                   (r, n) \<Rightarrow>
                     if fail r then (r, c\<lparr>lc_next := n\<rparr>)
                     else if lc_lines c = [] then (St_Ok, c\<lparr>lc_next := n\<rparr>)
                     else (St_Ok, c\<lparr>lc_next := n,
                            lc_lines := each_write (line_patch_turn 12 8) (spans 12 addr (length src)) src (lc_lines c)\<rparr>))))"

definition l2_invalidate :: "GuestAddr \<Rightarrow> nat \<Rightarrow> 'n line_cache \<Rightarrow> 'n line_cache" where
  "l2_invalidate addr n c =
     (if lc_lines c = [] \<or> n = 0 then c
      else c\<lparr>lc_lines := fold (line_drop_turn 12 8) (bases_between 12 addr n) (lc_lines c)\<rparr>)"

section \<open>Lines that agree with a memory\<close>

text \<open>\<open>p\<close> is the list index, \<open>v\<close> the view of the next provider.\<close>

definition line_ok :: "nat \<Rightarrow> nat \<Rightarrow> (GuestAddr \<Rightarrow> u8 option) \<Rightarrow> nat \<Rightarrow> line \<Rightarrow> bool" where
  "line_ok s e v j l \<longleftrightarrow> length (ln_data l) = 2 ^ s \<and>
     (ln_valid l \<longrightarrow> base_of s (ln_tag l) = ln_tag l \<and> slot_index s e (ln_tag l) = j \<and>
        shows_bytes v (addrs (ln_tag l) (2 ^ s)) (ln_data l))"

definition lines_ok :: "nat \<Rightarrow> nat \<Rightarrow> (GuestAddr \<Rightarrow> u8 option) \<Rightarrow> line list \<Rightarrow> bool" where
  "lines_ok s e v ls \<longleftrightarrow> length ls = 2 ^ e \<and> (\<forall>j < 2 ^ e. line_ok s e v j (ls ! j))"

lemma slot_index_less: "e < 64 \<Longrightarrow> slot_index s e a < 2 ^ e"
  by (simp add: slot_index_def flip: take_bit_eq_mask) (simp add: unsigned_take_bit_eq take_bit_nat_less_exp)

lemma lines_okD: "lines_ok s e v ls \<Longrightarrow> e < 64 \<Longrightarrow> line_ok s e v (slot_index s e a) (ls ! slot_index s e a)"
  by (simp add: lines_ok_def slot_index_less)

lemma lines_ok_update:
  "lines_ok s e v ls \<Longrightarrow> e < 64 \<Longrightarrow> line_ok s e v (slot_index s e a) l \<Longrightarrow> lines_ok s e v (ls[slot_index s e a := l])"
  using slot_index_less [of e s a] by (simp add: lines_ok_def nth_list_update)

lemma shows_bytes_map_le: "v \<subseteq>\<^sub>m w \<Longrightarrow> shows_bytes v as bs \<Longrightarrow> shows_bytes w as bs"
  by (auto simp: shows_bytes_def map_le_def list_eq_iff_nth_eq dom_def) (metis option.simps(3))

lemma lines_ok_map_le: "v \<subseteq>\<^sub>m w \<Longrightarrow> lines_ok s e v ls \<Longrightarrow> lines_ok s e w ls"
  by (auto simp: lines_ok_def line_ok_def intro: shows_bytes_map_le)

lemma empty_line_ok: "line_ok s e v j (empty_line s)"
  by (simp add: line_ok_def empty_line_def)

lemma empty_lines_ok: "lines_ok s e v (replicate (2 ^ e) (empty_line s))"
  by (simp add: lines_ok_def empty_line_ok)

lemma base_of_coarser: "s \<le> t \<Longrightarrow> base_of t (base_of s a) = base_of t a"
  by (rule bit_word_eqI) (auto simp: base_of_def bit_simps)

text \<open>A slot's bytes from an offset on.\<close>

lemma shows_bytes_inside:
  assumes "shows_bytes v (addrs (base_of s a) (2 ^ s)) d" "offset_in s a + k \<le> 2 ^ s"
  shows "shows_bytes v (addrs a k) (take k (drop (offset_in s a) d))"
proof -
  have "v (a + of_nat i) = Some (d ! (offset_in s a + i))" if "i < k" for i
  proof -
    have "offset_in s a + i < 2 ^ s" using that assms(2) by simp
    then have "v (base_of s a + of_nat (offset_in s a + i)) = Some (d ! (offset_in s a + i))"
      using assms(1) unfolding shows_bytes_iff by blast
    moreover have "base_of s a + of_nat (offset_in s a + i) = a + of_nat i"
      unfolding of_nat_add add.assoc [symmetric] base_plus_offset ..
    ultimately show ?thesis by (simp only:)
  qed
  moreover have "length d = 2 ^ s" using assms(1) by (simp add: shows_bytes_iff)
  ultimately show ?thesis using assms(2) by (simp add: shows_bytes_iff)
qed

text \<open>A patched line agrees with the patched view.\<close>

lemma line_patch_ok:
  assumes ok: "line_ok s e v j l" and s: "s < 64" and fit: "offset_in s a + length bs \<le> 2 ^ s"
    and hit: "ln_valid l" "ln_tag l = base_of s a"
  shows "line_ok s e (patch_view a bs v) j (l\<lparr>ln_data := overlay (offset_in s a) bs (ln_data l)\<rparr>)"
  using granule_patch [of v s a "ln_data l" bs] assms by (auto simp: line_ok_def shows_bytes_iff)

text \<open>Lines outside the granule of a write keep agreeing with the view.\<close>

lemma line_elsewhere_ok:
  assumes ok: "line_ok s e v j l" and s: "s < 64" and fit: "offset_in s a + length bs \<le> 2 ^ s"
    and miss: "\<not> (ln_valid l \<and> ln_tag l = base_of s a)"
  shows "line_ok s e (patch_view a bs v) j l"
  using granule_elsewhere [OF _ s fit, of v "ln_tag l"] ok miss by (auto simp: line_ok_def)

lemma line_patch_turn_ok:
  assumes ls: "lines_ok s e v ls" and "s < 64" "e < 64" and fit: "offset_in s a + length bs \<le> 2 ^ s"
  shows "lines_ok s e (patch_view a bs v) (line_patch_turn s e a bs ls)"
proof -
  let ?idx = "slot_index s e (base_of s a)"
  let ?slot = "ls ! ?idx"
  have slot: "line_ok s e v ?idx ?slot" using lines_okD [OF ls assms(3)] .
  have others: "line_ok s e (patch_view a bs v) j (ls ! j)" if "j < 2 ^ e" "j \<noteq> ?idx \<or> \<not> (ln_valid (ls ! j) \<and> ln_tag (ls ! j) = base_of s a)" for j
  proof (rule line_elsewhere_ok [OF _ assms(2) fit])
    show ok: "line_ok s e v j (ls ! j)" using ls that(1) by (simp add: lines_ok_def)
    show "\<not> (ln_valid (ls ! j) \<and> ln_tag (ls ! j) = base_of s a)"
      using that(2) ok by (auto simp: line_ok_def)
  qed
  show ?thesis
  proof (cases "ln_valid ?slot \<and> ln_tag ?slot = base_of s a")
    case True
    then have "line_ok s e (patch_view a bs v) ?idx (?slot\<lparr>ln_data := overlay (offset_in s a) bs (ln_data ?slot)\<rparr>)"
      using line_patch_ok [OF slot assms(2) fit] by blast
    then show ?thesis
      using True others ls slot_index_less [OF assms(3), of s "base_of s a"]
      by (simp add: line_patch_turn_def Let_def lines_ok_def nth_list_update)
  next
    case False
    then have "line_patch_turn s e a bs ls = ls" by (auto simp: line_patch_turn_def Let_def)
    then show ?thesis using False others ls unfolding lines_ok_def by metis
  qed
qed

section \<open>The caches over any memory\<close>

context memory
begin

lemma line_read_turn_keeps:
  assumes "inv (lc_next c)" "lines_ok s e (view (lc_next c)) (lc_lines c)" "e < 64"
    and "line_read_turn s e \<lparr>prov_read = rd, prov_write = wr\<rparr> a n c = (r, bs, c')"
  shows "inv (lc_next c')" "view (lc_next c') = view (lc_next c)" "lines_ok s e (view (lc_next c)) (lc_lines c')"
    "s < 64 \<Longrightarrow> offset_in s a + n \<le> 2 ^ s \<Longrightarrow> r = St_Ok \<Longrightarrow> shows_bytes (view (lc_next c)) (addrs a n) bs"
    "length bs \<le> n"
proof -
  let ?b = "base_of s a" and ?idx = "slot_index s e (base_of s a)"
  let ?slot = "lc_lines c ! ?idx" and ?v = "view (lc_next c)"
  have slot: "line_ok s e ?v ?idx ?slot" using lines_okD [OF assms(2,3)] .
  obtain r2 bs2 nx where nx: "rd ?b (2 ^ s) (lc_next c) = (r2, bs2, nx)" by (metis prod_cases3)
  note next_keeps = rd_keeps [OF assms(1) nx]
  let ?d = "overlay 0 bs2 (ln_data ?slot)"
  have d: "length ?d = 2 ^ s"
    using rd_length [OF assms(1) nx] slot by (simp add: line_ok_def)
  consider (hit) "ln_valid ?slot" "ln_tag ?slot = ?b" | (bad) "\<not> (ln_valid ?slot \<and> ln_tag ?slot = ?b)" "r2 \<noteq> St_Ok"
    | (fill) "\<not> (ln_valid ?slot \<and> ln_tag ?slot = ?b)" "r2 = St_Ok" by blast
  then have "inv (lc_next c') \<and> view (lc_next c') = ?v \<and> lines_ok s e ?v (lc_lines c') \<and>
      (s < 64 \<longrightarrow> offset_in s a + n \<le> 2 ^ s \<longrightarrow> r = St_Ok \<longrightarrow> shows_bytes ?v (addrs a n) bs) \<and> length bs \<le> n"
  proof cases
    case hit
    then have "c' = c\<lparr>lc_hits := lc_hits c + 1\<rparr>" "bs = take n (drop (offset_in s a) (ln_data ?slot))"
      using assms(4) by (auto simp: line_read_turn_def Let_def)
    moreover have "shows_bytes ?v (addrs ?b (2 ^ s)) (ln_data ?slot)"
      using slot hit by (simp add: line_ok_def)
    ultimately show ?thesis using assms(1,2) shows_bytes_inside by simp
  next
    case bad
    then have "r = r2" "bs = []" "lc_next c' = nx"
      "lc_lines c' = (lc_lines c)[?idx := ?slot\<lparr>ln_valid := False, ln_data := ?d\<rparr>]"
      using assms(4) nx by (auto simp: line_read_turn_def Let_def)
    moreover have "line_ok s e ?v ?idx (?slot\<lparr>ln_valid := False, ln_data := ?d\<rparr>)"
      using d by (simp add: line_ok_def)
    ultimately show ?thesis using next_keeps lines_ok_update [OF assms(2,3)] bad(2) by simp
  next
    case fill
    then have "bs = take n (drop (offset_in s a) ?d)" "lc_next c' = nx"
      "lc_lines c' = (lc_lines c)[?idx := \<lparr>ln_tag = ?b, ln_valid = True, ln_data = ?d\<rparr>]"
      using assms(4) nx by (auto simp: line_read_turn_def Let_def)
    moreover have sh: "shows_bytes ?v (addrs ?b (2 ^ s)) ?d"
    proof -
      from rd_ok [OF assms(1) nx [unfolded fill(2)]]
      have bytes: "shows_bytes ?v (addrs ?b (2 ^ s)) bs2" by (simp add: shows_bytes_iff)
      then have "length bs2 = length (ln_data ?slot)" using slot by (simp add: shows_bytes_iff line_ok_def)
      then have "?d = bs2" by (simp add: overlay_def)
      then show ?thesis using bytes by simp
    qed
    moreover have "line_ok s e ?v ?idx \<lparr>ln_tag = ?b, ln_valid = True, ln_data = ?d\<rparr>"
      using d sh by (simp add: line_ok_def)
    ultimately show ?thesis using next_keeps lines_ok_update [OF assms(2,3)] shows_bytes_inside by simp
  qed
  then show "inv (lc_next c')" "view (lc_next c') = ?v" "lines_ok s e ?v (lc_lines c')"
    "s < 64 \<Longrightarrow> offset_in s a + n \<le> 2 ^ s \<Longrightarrow> r = St_Ok \<Longrightarrow> shows_bytes ?v (addrs a n) bs" "length bs \<le> n"
    by blast+
qed

lemma lines_patched:
  assumes "lines_ok s e (view n) ls" "s < 64" "e < 64" "length src \<le> 2 ^ 32"
    and "inv n" "wr a src n = (St_Ok, n')"
  shows "lines_ok s e (view n') (each_write (line_patch_turn s e) (spans s a (length src)) src ls)"
proof -
  have "lines_ok s e (patch_view a src (view n)) (each_write (line_patch_turn s e) (spans s a (length src)) src ls)"
  proof (rule each_write_patches [where R = "\<lambda>ls v. lines_ok s e v ls"])
    show "length src \<le> 2 ^ 64" using assms(4) by simp
    show "lines_ok s e (patch_view b bs v) (line_patch_turn s e b bs ms)"
      if ms: "lines_ok s e v ms" and fit: "offset_in s b + length bs \<le> 2 ^ s" for b bs ms v
      by (rule line_patch_turn_ok [OF ms assms(2,3) fit])
  qed (rule assms(1))
  then show ?thesis using lines_ok_map_le [OF wr_ok [OF assms(5,6,4)]] by blast
qed

lemma line_read_turn_total:
  assumes "inv (lc_next c)" "e < 64" "s \<le> 12" "0 < n"
    and page: "\<And>m x y. inv m \<Longrightarrow> base_of 12 x = base_of 12 y \<Longrightarrow> view m x \<noteq> None \<Longrightarrow> view m y \<noteq> None"
    and total: "\<And>m a n. inv m \<Longrightarrow> (\<forall>i < n. view m (a + of_nat i) \<noteq> None) \<Longrightarrow> \<exists>bs m'. rd a n m = (St_Ok, bs, m')"
    and mapped: "\<forall>x \<in> set (addrs a n). view (lc_next c) x \<noteq> None"
  shows "\<exists>bs c'. line_read_turn s e \<lparr>prov_read = rd, prov_write = wr\<rparr> a n c = (St_Ok, bs, c')"
proof -
  have "a \<in> set (addrs a n)" using assms(4) by (auto simp: set_addrs intro: exI [of _ 0])
  then have a: "view (lc_next c) a \<noteq> None" using mapped by blast
  have "view (lc_next c) (base_of s a + of_nat i) \<noteq> None" if "i < 2 ^ s" for i
  proof (rule page [OF assms(1) _ a])
    have "base_of s (base_of s a + of_nat i) = base_of s a"
      using within_granule(1) [of s "base_of s a" i] that assms(3) by (simp add: offset_in_def)
    then show "base_of 12 a = base_of 12 (base_of s a + of_nat i)"
      using base_of_coarser [OF assms(3)] by metis
  qed
  from total [OF assms(1), of "2 ^ s" "base_of s a"] this obtain bs nx
    where "rd (base_of s a) (2 ^ s) (lc_next c) = (St_Ok, bs, nx)" by blast
  then show ?thesis by (simp add: line_read_turn_def Let_def)
qed

end

section \<open>Both levels keep the contract\<close>

definition l1_inv :: "('n \<Rightarrow> bool) \<Rightarrow> ('n \<Rightarrow> GuestAddr \<Rightarrow> u8 option) \<Rightarrow> 'n line_cache \<Rightarrow> bool" where
  "l1_inv ok view c \<longleftrightarrow> ok (lc_next c) \<and> lines_ok 6 6 (view (lc_next c)) (lc_lines c)"

definition l2_inv :: "('n \<Rightarrow> bool) \<Rightarrow> ('n \<Rightarrow> GuestAddr \<Rightarrow> u8 option) \<Rightarrow> 'n line_cache \<Rightarrow> bool" where
  "l2_inv ok view c \<longleftrightarrow> ok (lc_next c) \<and> (lc_lines c = [] \<or> lines_ok 12 8 (view (lc_next c)) (lc_lines c))"

context memory
begin

lemma cached_reads:
  assumes "inv (lc_next c)" "lines_ok s e (view (lc_next c)) (lc_lines c)" "e < 64" "s < 64"
    and "each_read (line_read_turn s e \<lparr>prov_read = rd, prov_write = wr\<rparr>) (spans s a n) c = (r, bs, c')"
  shows "inv (lc_next c')" "view (lc_next c') = view (lc_next c)" "lines_ok s e (view (lc_next c)) (lc_lines c')"
    "length bs \<le> n" "r = St_Ok \<Longrightarrow> shows_bytes (view (lc_next c)) (addrs a n) bs"
proof -
  define P where "P d \<longleftrightarrow> inv (lc_next d) \<and> view (lc_next d) = view (lc_next c) \<and>
    lines_ok s e (view (lc_next c)) (lc_lines d)" for d :: "'m line_cache"
  have P0: "P c" using assms by (simp add: P_def)
  have step: "P d'" if "P d" "line_read_turn s e \<lparr>prov_read = rd, prov_write = wr\<rparr> b k d = (q, cs, d')" for b k d q cs d'
    using that line_read_turn_keeps [OF _ _ assms(3) that(2)] by (simp add: P_def)
  have "P c'" by (rule each_read_keeps [where P = P, OF step P0 assms(5)])
  then show "inv (lc_next c')" "view (lc_next c') = view (lc_next c)" "lines_ok s e (view (lc_next c)) (lc_lines c')"
    by (simp_all add: P_def)
  have turn: "length cs \<le> k"
    "offset_in s b + k \<le> 2 ^ s \<Longrightarrow> q = St_Ok \<Longrightarrow> shows_bytes (view (lc_next c)) (addrs b k) cs"
    if "P d" "line_read_turn s e \<lparr>prov_read = rd, prov_write = wr\<rparr> b k d = (q, cs, d')" for b k d q cs d'
    using that line_read_turn_keeps(4,5) [OF _ _ assms(3) that(2)] assms(4) unfolding P_def by metis+
  show "length bs \<le> n"
    by (rule each_read_length [where P = P, OF step turn(1) P0 assms(5)])
  show "shows_bytes (view (lc_next c)) (addrs a n) bs" if "r = St_Ok"
    by (rule each_read_shows [where P = P, OF step turn(2) P0 assms(5) [unfolded that]]) simp_all
qed

lemma l1_memory:
  "memory (l1_read (Some \<lparr>prov_read = rd, prov_write = wr\<rparr>)) (l1_write (Some \<lparr>prov_read = rd, prov_write = wr\<rparr>))
     (\<lambda>c. view (lc_next c)) (l1_inv inv view)"
proof
  fix m m' :: "'m line_cache" and a n r bs
  assume i: "l1_inv inv view m"
  then have i1: "inv (lc_next m)" and i2: "lines_ok 6 6 (view (lc_next m)) (lc_lines m)" by (simp_all add: l1_inv_def)
  note reads = cached_reads [OF i1 i2, simplified]
  show "l1_inv inv view m' \<and> view (lc_next m') = view (lc_next m)"
    if "l1_read (Some \<lparr>prov_read = rd, prov_write = wr\<rparr>) a n m = (r, bs, m')"
    using that i reads by (auto simp: l1_read_def l1_inv_def split: if_splits)
  show "length bs \<le> n" if "l1_read (Some \<lparr>prov_read = rd, prov_write = wr\<rparr>) a n m = (r, bs, m')"
    using that reads(4) by (auto simp: l1_read_def split: if_splits)
  show "length bs = n \<and> (\<forall>i < n. view (lc_next m) (a + of_nat i) = Some (bs ! i))"
    if "l1_read (Some \<lparr>prov_read = rd, prov_write = wr\<rparr>) a n m = (St_Ok, bs, m')"
    using that reads(5) by (auto simp: l1_read_def shows_bytes_iff split: if_splits)
  show "l1_inv inv view m'"
    if "l1_write (Some \<lparr>prov_read = rd, prov_write = wr\<rparr>) a bs m = (r, m')" "length bs \<le> 2 ^ 32"
    using that i wr_inv [OF i1] wr_fail [OF i1] lines_patched [OF i2 _ _ that(2) i1]
    by (auto simp: l1_write_def l1_inv_def split: if_splits prod.splits)
  show "view (lc_next m') = view (lc_next m)"
    if "l1_write (Some \<lparr>prov_read = rd, prov_write = wr\<rparr>) a bs m = (r, m')" "r \<noteq> St_Ok"
    using that wr_fail [OF i1] by (auto simp: l1_write_def split: if_splits prod.splits)
  show "patch_view a bs (view (lc_next m)) \<subseteq>\<^sub>m view (lc_next m')"
    if "l1_write (Some \<lparr>prov_read = rd, prov_write = wr\<rparr>) a bs m = (St_Ok, m')" "length bs \<le> 2 ^ 32"
    using that wr_ok [OF i1] by (auto simp: l1_write_def split: if_splits prod.splits)
qed

lemma l2_alloc_ok:
  assumes "l2_inv inv view m"
  shows "lines_ok 12 8 (view (lc_next m)) (lc_lines (l2_alloc m))" "lc_next (l2_alloc m) = lc_next m"
  using assms empty_lines_ok [of 12 8 "view (lc_next m)"] by (auto simp: l2_alloc_def l2_inv_def)

lemma l2_memory:
  "memory (l2_read (Some \<lparr>prov_read = rd, prov_write = wr\<rparr>)) (l2_write (Some \<lparr>prov_read = rd, prov_write = wr\<rparr>))
     (\<lambda>c. view (lc_next c)) (l2_inv inv view)"
proof
  fix m m' :: "'m line_cache" and a n r bs
  assume i: "l2_inv inv view m"
  then have i1: "inv (lc_next m)" by (simp add: l2_inv_def)
  note al = l2_alloc_ok [OF i]
  have reads: "inv (lc_next m') \<and> view (lc_next m') = view (lc_next m) \<and> lines_ok 12 8 (view (lc_next m)) (lc_lines m') \<and>
      length bs \<le> n \<and> (r = St_Ok \<longrightarrow> shows_bytes (view (lc_next m)) (addrs a n) bs)"
    if "each_read (line_read_turn 12 8 \<lparr>prov_read = rd, prov_write = wr\<rparr>) (spans 12 a n) (l2_alloc m) = (r, bs, m')" for r bs m'
    using cached_reads [of "l2_alloc m" 12 8, OF _ _ _ _ that] i1 al by simp
  show "l2_inv inv view m' \<and> view (lc_next m') = view (lc_next m)"
    if "l2_read (Some \<lparr>prov_read = rd, prov_write = wr\<rparr>) a n m = (r, bs, m')"
    using that i reads by (auto simp: l2_read_def l2_inv_def split: if_splits)
  show "length bs \<le> n" if "l2_read (Some \<lparr>prov_read = rd, prov_write = wr\<rparr>) a n m = (r, bs, m')"
    using that reads by (auto simp: l2_read_def split: if_splits)
  show "length bs = n \<and> (\<forall>i < n. view (lc_next m) (a + of_nat i) = Some (bs ! i))"
    if "l2_read (Some \<lparr>prov_read = rd, prov_write = wr\<rparr>) a n m = (St_Ok, bs, m')"
    using that reads by (auto simp: l2_read_def shows_bytes_iff split: if_splits)
  show "l2_inv inv view m'"
    if "l2_write (Some \<lparr>prov_read = rd, prov_write = wr\<rparr>) a bs m = (r, m')" "length bs \<le> 2 ^ 32"
    using that i wr_inv [OF i1] wr_fail [OF i1] lines_patched [OF _ _ _ that(2) i1, of 12 8 "lc_lines m"]
    by (auto simp: l2_write_def l2_inv_def split: if_splits prod.splits)
  show "view (lc_next m') = view (lc_next m)"
    if "l2_write (Some \<lparr>prov_read = rd, prov_write = wr\<rparr>) a bs m = (r, m')" "r \<noteq> St_Ok"
    using that wr_fail [OF i1] by (auto simp: l2_write_def split: if_splits prod.splits)
  show "patch_view a bs (view (lc_next m)) \<subseteq>\<^sub>m view (lc_next m')"
    if "l2_write (Some \<lparr>prov_read = rd, prov_write = wr\<rparr>) a bs m = (St_Ok, m')" "length bs \<le> 2 ^ 32"
    using that wr_ok [OF i1] by (auto simp: l2_write_def split: if_splits prod.splits)
qed

end

context paged_memory
begin

lemma page_mapped: "inv m \<Longrightarrow> base_of 12 x = base_of 12 y \<Longrightarrow> view m x \<noteq> None \<Longrightarrow> view m y \<noteq> None"
  using granular by (metis same_page_base)

lemma cached_reads_total:
  assumes "inv (lc_next c)" "lines_ok s e (view (lc_next c)) (lc_lines c)" "e < 64" "s \<le> 12"
    and "\<forall>i < n. view (lc_next c) (a + of_nat i) \<noteq> None"
  shows "\<exists>bs c'. each_read (line_read_turn s e \<lparr>prov_read = rd, prov_write = wr\<rparr>) (spans s a n) c = (St_Ok, bs, c')"
proof -
  define P where "P d \<longleftrightarrow> inv (lc_next d) \<and> view (lc_next d) = view (lc_next c) \<and>
    lines_ok s e (view (lc_next c)) (lc_lines d)" for d :: "'a line_cache"
  show ?thesis
  proof (rule each_read_total [where P = P])
  show "P c" using assms by (simp add: P_def)
  show "P d'" if "P d" "line_read_turn s e \<lparr>prov_read = rd, prov_write = wr\<rparr> b k d = (q, cs, d')" for b k d q cs d'
    using that line_read_turn_keeps [OF _ _ assms(3) that(2)] by (simp add: P_def)
  show "\<forall>x \<in> set (addrs a n). view (lc_next c) x \<noteq> None" using assms(5) by (auto simp: set_addrs)
  show "\<exists>bs m'. line_read_turn s e \<lparr>prov_read = rd, prov_write = wr\<rparr> b k d = (St_Ok, bs, m')"
    if "P d" "0 < k" "\<forall>x \<in> set (addrs b k). view (lc_next c) x \<noteq> None" for b k d
  proof (rule line_read_turn_total [OF _ assms(3,4) that(2) page_mapped rd_mapped])
    show "inv (lc_next d)" "\<forall>x \<in> set (addrs b k). view (lc_next d) x \<noteq> None"
      using that unfolding P_def by simp_all
  qed
  qed
qed

lemma l1_paged:
  "paged_memory (l1_read (Some \<lparr>prov_read = rd, prov_write = wr\<rparr>)) (l1_write (Some \<lparr>prov_read = rd, prov_write = wr\<rparr>))
     (\<lambda>c. view (lc_next c)) (l1_inv inv view)"
proof (intro paged_memory.intro l1_memory paged_memory_axioms.intro)
  show "view (lc_next m) y \<noteq> None"
    if "l1_inv inv view m" "same_page x y" "view (lc_next m) x \<noteq> None" for m x y
    using that granular by (auto simp: l1_inv_def)
  show "\<exists>bs m'. l1_read (Some \<lparr>prov_read = rd, prov_write = wr\<rparr>) a n m = (St_Ok, bs, m')"
    if "l1_inv inv view m" "\<forall>i < n. view (lc_next m) (a + of_nat i) \<noteq> None" for m n a
    using that cached_reads_total [of m 6 6 n a] by (auto simp: l1_inv_def l1_read_def)
qed

lemma l2_paged:
  "paged_memory (l2_read (Some \<lparr>prov_read = rd, prov_write = wr\<rparr>)) (l2_write (Some \<lparr>prov_read = rd, prov_write = wr\<rparr>))
     (\<lambda>c. view (lc_next c)) (l2_inv inv view)"
proof (intro paged_memory.intro l2_memory paged_memory_axioms.intro)
  show "view (lc_next m) y \<noteq> None"
    if "l2_inv inv view m" "same_page x y" "view (lc_next m) x \<noteq> None" for m x y
    using that granular by (auto simp: l2_inv_def)
  show "\<exists>bs m'. l2_read (Some \<lparr>prov_read = rd, prov_write = wr\<rparr>) a n m = (St_Ok, bs, m')"
    if i: "l2_inv inv view m" and "\<forall>i < n. view (lc_next m) (a + of_nat i) \<noteq> None" for m n a
  proof -
    have "inv (lc_next (l2_alloc m))" using i l2_alloc_ok(2) [OF i] by (simp add: l2_inv_def)
    then show ?thesis
      using that cached_reads_total [of "l2_alloc m" 12 8 n a] l2_alloc_ok [OF i] by (auto simp: l2_read_def)
  qed
qed

end

section \<open>Dropping cached slots\<close>

text \<open>Invalidation and flushing forget bytes and never invent any.\<close>

lemma line_invalid_ok: "length (ln_data l) = 2 ^ s \<Longrightarrow> \<not> ln_valid l \<Longrightarrow> line_ok s e v j l"
  by (simp add: line_ok_def)

lemma line_drop_turn_ok:
  assumes "lines_ok s e v ls" "e < 64"
  shows "lines_ok s e v (line_drop_turn s e b ls)"
proof -
  have "line_ok s e v (slot_index s e b) ((ls ! slot_index s e b)\<lparr>ln_valid := False\<rparr>)"
    using lines_okD [OF assms, of b] by (simp add: line_ok_def)
  then show ?thesis using assms lines_ok_update by (simp add: line_drop_turn_def Let_def)
qed

lemma fold_drop_ok: "lines_ok s e v ls \<Longrightarrow> e < 64 \<Longrightarrow> lines_ok s e v (fold (line_drop_turn s e) bs ls)"
  by (induction bs arbitrary: ls) (auto intro: line_drop_turn_ok)

lemma flush_ok: "lines_ok s e v ls \<Longrightarrow> lines_ok s e v (map (\<lambda>l. l\<lparr>ln_valid := False, ln_tag := 0\<rparr>) ls)"
  by (auto simp: lines_ok_def line_ok_def)

lemma l1_forget:
  assumes "l1_inv ok view c"
  shows "l1_inv ok view (l1_invalidate a n c)" "l1_inv ok view (flush_lines c)"
    "lc_next (l1_invalidate a n c) = lc_next c" "lc_next (flush_lines c) = lc_next c"
  using assms fold_drop_ok flush_ok by (auto simp: l1_inv_def l1_invalidate_def flush_lines_def)

lemma l2_forget:
  assumes "l2_inv ok view c"
  shows "l2_inv ok view (l2_invalidate a n c)" "l2_inv ok view (flush_lines c)"
    "lc_next (l2_invalidate a n c) = lc_next c" "lc_next (flush_lines c) = lc_next c"
  using assms fold_drop_ok flush_ok by (auto simp: l2_inv_def l2_invalidate_def flush_lines_def)

end
