(* ===== verification/Region_Cache.thy ===== *)
theory Region_Cache
  imports Line_Caches
begin

text \<open>
  The third cache level, \<^verbatim>\<open>L3Cache\<close> of \<^verbatim>\<open>emu/cache.h\<close> and \<^verbatim>\<open>src/emu/memory/l3_cache.cpp\<close>: 16 regions of 2 MiB with
  least-recently-used replacement, filled by one bulk read; when that read fails, the request is passed
  through without caching.  As for the other levels the loops are over granules of \<open>2 ^ s\<close> bytes,
  with \<open>s = 21\<close> in the operations.
\<close>

section \<open>State\<close>

record region =
  rg_base :: u64
  rg_valid :: bool
  rg_data :: "u8 list"
  rg_last_use :: u64

record 'n region_cache =
  rc_regions :: "region list"
  rc_use_counter :: u64
  rc_hits :: u64
  rc_misses :: u64
  rc_fetches :: u64
  rc_next :: 'n

definition new_l3 :: "'n \<Rightarrow> 'n region_cache" where
  "new_l3 n = \<lparr>rc_regions = replicate 16 \<lparr>rg_base = 0, rg_valid = False, rg_data = [], rg_last_use = 0\<rparr>,
     rc_use_counter = 0, rc_hits = 0, rc_misses = 0, rc_fetches = 0, rc_next = n\<rparr>"

section \<open>Lookup and replacement\<close>

definition region_hit :: "u64 \<Rightarrow> region \<Rightarrow> bool" where
  "region_hit base g \<longleftrightarrow> rg_valid g \<and> rg_base g = base"

definition find_region :: "u64 \<Rightarrow> region list \<Rightarrow> nat option" where
  "find_region base gs = List.find (\<lambda>j. region_hit base (gs ! j)) [0..<length gs]"

text \<open>The victim is the first invalid slot, or else the first one with the smallest use count.\<close>

fun scan_victim :: "region list \<Rightarrow> nat list \<Rightarrow> nat \<Rightarrow> nat" where
  "scan_victim gs [] v = v"
| "scan_victim gs (i # js) v =
     (if \<not> rg_valid (gs ! i) then i
      else if rg_last_use (gs ! i) < rg_last_use (gs ! v) then scan_victim gs js i
      else scan_victim gs js v)"

definition pick_victim :: "region list \<Rightarrow> nat" where
  "pick_victim gs = scan_victim gs [0..<length gs] 0"

definition touch_region :: "nat \<Rightarrow> 'n region_cache \<Rightarrow> 'n region_cache" where
  "touch_region j c =
     (let u = rc_use_counter c + 1
      in c\<lparr>rc_use_counter := u, rc_regions := (rc_regions c)[j := (rc_regions c ! j)\<lparr>rg_last_use := u\<rparr>]\<rparr>)"

definition fill_region ::
  "nat \<Rightarrow> 'n provider option \<Rightarrow> u64 \<Rightarrow> 'n region_cache \<Rightarrow> Status \<times> 'n region_cache" where
  "fill_region s nx base c =
     (let v = pick_victim (rc_regions c); g = rc_regions c ! v;
          g = (if length (rg_data g) \<noteq> 2 ^ s then g\<lparr>rg_data := replicate (2 ^ s) 0\<rparr> else g)
      in case nx of
           None \<Rightarrow> (St_ProviderFailure, c\<lparr>rc_regions := (rc_regions c)[v := g]\<rparr>)
         | Some p \<Rightarrow>
             (case prov_read p base (2 ^ s) (rc_next c) of
                (r, bs, n) \<Rightarrow>
                  (let c = c\<lparr>rc_fetches := rc_fetches c + 1, rc_next := n\<rparr>
                   in if fail r
                      then (r, c\<lparr>rc_regions := (rc_regions c)[v := g\<lparr>rg_valid := False, rg_data := []\<rparr>]\<rparr>)
                      else
                        (let u = rc_use_counter c + 1
                         in (St_Ok, c\<lparr>rc_use_counter := u,
                              rc_regions := (rc_regions c)[v := \<lparr>rg_base = base, rg_valid = True,
                                rg_data = overlay 0 bs (rg_data g), rg_last_use = u\<rparr>]\<rparr>)))))"

definition prefetch_turn ::
  "nat \<Rightarrow> 'n provider option \<Rightarrow> u64 \<Rightarrow> 'n region_cache \<Rightarrow> Status \<times> 'n region_cache" where
  "prefetch_turn s nx base c =
     (case find_region base (rc_regions c) of
        Some j \<Rightarrow> (St_Ok, touch_region j c)
      | None \<Rightarrow> fill_region s nx base c)"

section \<open>Turns of the loops\<close>

text \<open>The last branch cannot be reached: a prefetch that succeeds leaves the region valid.\<close>

definition region_read_turn ::
  "nat \<Rightarrow> 'n provider \<Rightarrow> GuestAddr \<Rightarrow> nat \<Rightarrow> 'n region_cache \<Rightarrow> Status \<times> u8 list \<times> 'n region_cache" where
  "region_read_turn s p cur n c =
     (let base = base_of s cur; off = offset_in s cur
      in case find_region base (rc_regions c) of
           Some j \<Rightarrow> (St_Ok, take n (drop off (rg_data (rc_regions c ! j))), touch_region j (c\<lparr>rc_hits := rc_hits c + 1\<rparr>))
         | None \<Rightarrow>
             (case prefetch_turn s (Some p) base (c\<lparr>rc_misses := rc_misses c + 1\<rparr>) of
                (r, c) \<Rightarrow>
                  if fail r
                  then (case prov_read p cur n (rc_next c) of (r, bs, nx) \<Rightarrow> (r, bs, c\<lparr>rc_next := nx\<rparr>))
                  else (case find_region base (rc_regions c) of
                          Some j \<Rightarrow> (St_Ok, take n (drop off (rg_data (rc_regions c ! j))), c)
                        | None \<Rightarrow> (St_Ok, [], c))))"

definition region_patch_turn :: "nat \<Rightarrow> GuestAddr \<Rightarrow> u8 list \<Rightarrow> region list \<Rightarrow> region list" where
  "region_patch_turn s cur src gs =
     (case find_region (base_of s cur) gs of
        Some j \<Rightarrow> gs[j := (gs ! j)\<lparr>rg_data := overlay (offset_in s cur) src (rg_data (gs ! j))\<rparr>]
      | None \<Rightarrow> gs)"

section \<open>Operations\<close>

definition prefetch_region :: "'n provider option \<Rightarrow> GuestAddr \<Rightarrow> 'n region_cache \<Rightarrow> Status \<times> 'n region_cache" where
  "prefetch_region nx addr c = prefetch_turn 21 nx (base_of 21 addr) c"

definition l3_read ::
  "'n provider option \<Rightarrow> GuestAddr \<Rightarrow> nat \<Rightarrow> 'n region_cache \<Rightarrow> Status \<times> u8 list \<times> 'n region_cache" where
  "l3_read nx addr n c =
     (if n = 0 then (St_Ok, [], c)
      else (case nx of
              None \<Rightarrow> (St_ProviderFailure, [], c)
            | Some p \<Rightarrow> each_read (region_read_turn 21 p) (spans 21 addr n) c))"

definition l3_write ::
  "'n provider option \<Rightarrow> GuestAddr \<Rightarrow> u8 list \<Rightarrow> 'n region_cache \<Rightarrow> Status \<times> 'n region_cache" where
  "l3_write nx addr src c =
     (if src = [] then (St_Ok, c)
      else (case nx of
              None \<Rightarrow> (St_ProviderFailure, c)
            | Some p \<Rightarrow>
                (case prov_write p addr src (rc_next c) of
                   (r, n) \<Rightarrow>
                     if fail r then (r, c\<lparr>rc_next := n\<rparr>)
                     else (St_Ok, c\<lparr>rc_next := n,
                            rc_regions := each_write (region_patch_turn 21) (spans 21 addr (length src)) src (rc_regions c)\<rparr>))))"

definition drop_region :: "u64 \<Rightarrow> region \<Rightarrow> region" where
  "drop_region base g = (if region_hit base g then g\<lparr>rg_valid := False, rg_data := []\<rparr> else g)"

definition l3_invalidate :: "GuestAddr \<Rightarrow> nat \<Rightarrow> 'n region_cache \<Rightarrow> 'n region_cache" where
  "l3_invalidate addr n c =
     (if n = 0 then c
      else c\<lparr>rc_regions := fold (\<lambda>b. map (drop_region b)) (bases_between 21 addr n) (rc_regions c)\<rparr>)"

definition l3_flush :: "'n region_cache \<Rightarrow> 'n region_cache" where
  "l3_flush c = c\<lparr>rc_regions := map (\<lambda>g. g\<lparr>rg_valid := False, rg_base := 0, rg_data := []\<rparr>) (rc_regions c),
     rc_use_counter := 0\<rparr>"

definition reset_region_stats :: "'n region_cache \<Rightarrow> 'n region_cache" where
  "reset_region_stats c = c\<lparr>rc_hits := 0, rc_misses := 0, rc_fetches := 0\<rparr>"

section \<open>Regions that agree with a memory\<close>

definition region_ok :: "nat \<Rightarrow> (GuestAddr \<Rightarrow> u8 option) \<Rightarrow> region \<Rightarrow> bool" where
  "region_ok s v g \<longleftrightarrow> (rg_valid g \<longrightarrow>
     base_of s (rg_base g) = rg_base g \<and> shows_bytes v (addrs (rg_base g) (2 ^ s)) (rg_data g))"

definition regions_ok :: "nat \<Rightarrow> (GuestAddr \<Rightarrow> u8 option) \<Rightarrow> region list \<Rightarrow> bool" where
  "regions_ok s v gs \<longleftrightarrow> gs \<noteq> [] \<and> (\<forall>j < length gs. region_ok s v (gs ! j)) \<and>
     (\<forall>i < length gs. \<forall>j < length gs. \<forall>b. region_hit b (gs ! i) \<longrightarrow> region_hit b (gs ! j) \<longrightarrow> i = j)"

definition l3_inv :: "('n \<Rightarrow> bool) \<Rightarrow> ('n \<Rightarrow> GuestAddr \<Rightarrow> u8 option) \<Rightarrow> 'n region_cache \<Rightarrow> bool" where
  "l3_inv ok view c \<longleftrightarrow> ok (rc_next c) \<and> regions_ok 21 (view (rc_next c)) (rc_regions c)"

lemma find_region_Some: "find_region b gs = Some j \<Longrightarrow> j < length gs \<and> region_hit b (gs ! j)"
  by (auto simp: find_region_def find_Some_iff)

lemma find_region_None: "find_region b gs = None \<Longrightarrow> j < length gs \<Longrightarrow> \<not> region_hit b (gs ! j)"
  by (auto simp: find_region_def find_None_iff)

lemma find_region_exists: "j < length gs \<Longrightarrow> region_hit b (gs ! j) \<Longrightarrow> \<exists>k. find_region b gs = Some k"
  using find_region_None by fastforce

lemma scan_victim_less: "v < length gs \<Longrightarrow> \<forall>j \<in> set js. j < length gs \<Longrightarrow> scan_victim gs js v < length gs"
  by (induction gs js v rule: scan_victim.induct) auto

lemma pick_victim_less: "gs \<noteq> [] \<Longrightarrow> pick_victim gs < length gs"
  unfolding pick_victim_def by (rule scan_victim_less) auto

lemma region_ok_map_le: "v \<subseteq>\<^sub>m w \<Longrightarrow> region_ok s v g \<Longrightarrow> region_ok s w g"
  by (auto simp: region_ok_def intro: shows_bytes_map_le)

lemma regions_ok_map_le: "v \<subseteq>\<^sub>m w \<Longrightarrow> regions_ok s v gs \<Longrightarrow> regions_ok s w gs"
  unfolding regions_ok_def using region_ok_map_le by blast

text \<open>Replacing a slot by one that agrees and whose region is cached nowhere else.\<close>

lemma regions_ok_update:
  assumes "regions_ok s v gs" "region_ok s v g"
    and "\<And>b i. i < length gs \<Longrightarrow> i \<noteq> j \<Longrightarrow> region_hit b g \<Longrightarrow> \<not> region_hit b (gs ! i)"
  shows "regions_ok s v (gs[j := g])"
proof (cases "j < length gs")
  case True
  show ?thesis
    unfolding regions_ok_def
  proof (intro conjI allI impI)
    show "gs[j := g] \<noteq> []" using assms(1) by (auto simp: regions_ok_def)
    show "region_ok s v (gs[j := g] ! i)" if "i < length (gs[j := g])" for i
      using that assms(1,2) True by (cases "i = j") (simp_all add: regions_ok_def)
    show "i = k" if lt: "i < length (gs[j := g])" "k < length (gs[j := g])" and hit: "region_hit b (gs[j := g] ! i)"
      "region_hit b (gs[j := g] ! k)" for i k b
    proof -
      consider "i = j" "k = j" | "i = j" "k \<noteq> j" | "i \<noteq> j" "k = j" | "i \<noteq> j" "k \<noteq> j" by blast
      then show ?thesis
      proof cases
        case 4
        then show ?thesis using lt hit assms(1) unfolding regions_ok_def by (metis length_list_update nth_list_update_neq)
      qed (use lt hit assms(3) True in \<open>simp_all\<close>)
    qed
  qed
next
  case False
  then show ?thesis using assms(1) by (simp add: list_update_beyond)
qed

lemma touch_region_ok:
  assumes "regions_ok s v (rc_regions c)"
  shows "regions_ok s v (rc_regions (touch_region j c))"
proof (cases "j < length (rc_regions c)")
  case True
  show ?thesis
    unfolding touch_region_def Let_def
    using assms True
    by (simp, intro regions_ok_update) (auto simp: regions_ok_def region_ok_def region_hit_def)
next
  case False
  then show ?thesis using assms by (simp add: touch_region_def Let_def list_update_beyond)
qed

lemma touch_region_next [simp]: "rc_next (touch_region j c) = rc_next c"
  by (simp add: touch_region_def Let_def)

lemma region_hit_shows:
  assumes "regions_ok s v gs" "find_region (base_of s a) gs = Some j" "offset_in s a + k \<le> 2 ^ s"
  shows "shows_bytes v (addrs a k) (take k (drop (offset_in s a) (rg_data (gs ! j))))"
proof (rule shows_bytes_inside [OF _ assms(3)])
  show "shows_bytes v (addrs (base_of s a) (2 ^ s)) (rg_data (gs ! j))"
  proof -
    note f = find_region_Some [OF assms(2)]
    then have "region_ok s v (gs ! j)" using assms(1) by (simp add: regions_ok_def)
    then show ?thesis using f by (simp add: region_ok_def region_hit_def)
  qed
qed

lemma region_patch_turn_ok:
  assumes gs: "regions_ok s v gs" and s: "s < 64" and fit: "offset_in s a + length bs \<le> 2 ^ s"
  shows "regions_ok s (patch_view a bs v) (region_patch_turn s a bs gs)"
proof -
  have elsewhere: "region_ok s (patch_view a bs v) (gs ! j)" if "j < length gs" "\<not> region_hit (base_of s a) (gs ! j)" for j
    using gs that granule_elsewhere [OF _ s fit, of v "rg_base (gs ! j)"]
    by (auto simp: regions_ok_def region_ok_def region_hit_def)
  show ?thesis
  proof (cases "find_region (base_of s a) gs")
    case None
    then show ?thesis
      using gs elsewhere find_region_None [OF None] by (simp add: region_patch_turn_def regions_ok_def)
  next
    case (Some j)
    let ?g = "(gs ! j)\<lparr>rg_data := overlay (offset_in s a) bs (rg_data (gs ! j))\<rparr>"
    note j = find_region_Some [OF Some]
    have hits: "region_hit b ?g = region_hit b (gs ! j)" for b by (simp add: region_hit_def)
    have unique: "i = j" if "i < length gs" "region_hit b (gs ! i)" "region_hit b (gs ! j)" for i b
      using gs that j unfolding regions_ok_def by blast
    have "region_ok s v (gs ! j)" using gs j by (simp add: regions_ok_def)
    then have new: "region_ok s (patch_view a bs v) ?g"
      using granule_patch [OF _ s fit, of v "rg_data (gs ! j)"] j by (auto simp: region_ok_def region_hit_def)
    have "region_ok s (patch_view a bs v) (gs[j := ?g] ! i)" if "i < length gs" for i
      using that new j elsewhere [OF that] unique [OF that] by (cases "i = j") auto
    moreover have "i = k" if "i < length gs" "k < length gs" "region_hit b (gs[j := ?g] ! i)" "region_hit b (gs[j := ?g] ! k)" for i k b
    proof -
      have "region_hit b (gs ! i)" "region_hit b (gs ! k)"
        using that j hits by (auto simp: nth_list_update region_hit_def split: if_splits)
      then show ?thesis using gs that(1,2) unfolding regions_ok_def by blast
    qed
    moreover have "gs \<noteq> []" using gs by (simp add: regions_ok_def)
    ultimately show ?thesis by (simp add: region_patch_turn_def Some regions_ok_def)
  qed
qed

section \<open>The region cache over any memory\<close>

context memory
begin

lemma fill_region_keeps:
  assumes i: "inv (rc_next c)" and gs: "regions_ok s (view (rc_next c)) (rc_regions c)"
    and b: "base_of s b = b" and miss: "find_region b (rc_regions c) = None"
    and f: "fill_region s (Some \<lparr>prov_read = rd, prov_write = wr\<rparr>) b c = (r, c')"
  shows "inv (rc_next c') \<and> view (rc_next c') = view (rc_next c) \<and>
    regions_ok s (view (rc_next c)) (rc_regions c') \<and> (r = St_Ok \<longrightarrow> find_region b (rc_regions c') \<noteq> None)"
proof -
  let ?v = "pick_victim (rc_regions c)" and ?view = "view (rc_next c)"
  define g where "g = (let g = rc_regions c ! ?v in if length (rg_data g) \<noteq> 2 ^ s then g\<lparr>rg_data := replicate (2 ^ s) 0\<rparr> else g)"
  obtain q bs n where rd: "rd b (2 ^ s) (rc_next c) = (q, bs, n)" by (metis prod_cases3)
  note keeps = rd_keeps [OF i rd]
  have v: "?v < length (rc_regions c)" using gs by (intro pick_victim_less) (simp add: regions_ok_def)
  have len: "length (rg_data g) = 2 ^ s" by (simp add: g_def Let_def)
  note F = f [unfolded fill_region_def, folded g_def, unfolded Let_def, folded g_def [unfolded Let_def]]
  show ?thesis
  proof (cases "q = St_Ok")
    case False
    then have "r = q" "rc_next c' = n" "rc_regions c' = (rc_regions c)[?v := g\<lparr>rg_valid := False, rg_data := []\<rparr>]"
      using F by (auto simp: rd)
    moreover have "regions_ok s ?view ((rc_regions c)[?v := g\<lparr>rg_valid := False, rg_data := []\<rparr>])"
      by (rule regions_ok_update [OF gs]) (simp_all add: region_ok_def region_hit_def)
    ultimately show ?thesis using keeps False by simp
  next
    case True
    let ?new = "\<lparr>rg_base = b, rg_valid = True, rg_data = overlay 0 bs (rg_data g), rg_last_use = rc_use_counter c + 1\<rparr>"
    from True have c': "r = St_Ok" "rc_next c' = n" "rc_regions c' = (rc_regions c)[?v := ?new]"
      using F by (auto simp: rd)
    from rd_ok [OF i rd [unfolded True]] have bytes: "shows_bytes ?view (addrs b (2 ^ s)) bs"
      by (simp add: shows_bytes_iff)
    then have "overlay 0 bs (rg_data g) = bs" using len by (simp add: shows_bytes_iff overlay_def)
    then have "regions_ok s ?view ((rc_regions c)[?v := ?new])"
      using bytes b find_region_None [OF miss] by (intro regions_ok_update [OF gs]) (auto simp: region_ok_def region_hit_def)
    moreover have "find_region b ((rc_regions c)[?v := ?new]) \<noteq> None"
      using find_region_exists [of ?v "(rc_regions c)[?v := ?new]" b] v by (auto simp: region_hit_def)
    ultimately show ?thesis using keeps c' by simp
  qed
qed

lemma prefetch_turn_keeps:
  assumes "inv (rc_next c)" "regions_ok s (view (rc_next c)) (rc_regions c)" "base_of s b = b"
    and "prefetch_turn s (Some \<lparr>prov_read = rd, prov_write = wr\<rparr>) b c = (r, c')"
  shows "inv (rc_next c') \<and> view (rc_next c') = view (rc_next c) \<and> regions_ok s (view (rc_next c)) (rc_regions c')"
proof (cases "find_region b (rc_regions c)")
  case None
  then show ?thesis using fill_region_keeps [OF assms(1-3) None] assms(4) by (simp add: prefetch_turn_def)
next
  case (Some j)
  then show ?thesis using assms touch_region_ok by (auto simp: prefetch_turn_def)
qed

lemma region_read_turn_keeps:
  assumes i: "inv (rc_next c)" and gs: "regions_ok s (view (rc_next c)) (rc_regions c)"
    and f: "region_read_turn s \<lparr>prov_read = rd, prov_write = wr\<rparr> a n c = (r, bs, c')"
  shows "inv (rc_next c')" "view (rc_next c') = view (rc_next c)" "regions_ok s (view (rc_next c)) (rc_regions c')"
    "offset_in s a + n \<le> 2 ^ s \<Longrightarrow> r = St_Ok \<Longrightarrow> shows_bytes (view (rc_next c)) (addrs a n) bs"
    "length bs \<le> n"
proof -
  let ?view = "view (rc_next c)" and ?p = "\<lparr>prov_read = rd, prov_write = wr\<rparr>"
  have "inv (rc_next c') \<and> view (rc_next c') = ?view \<and> regions_ok s ?view (rc_regions c') \<and>
    (offset_in s a + n \<le> 2 ^ s \<longrightarrow> r = St_Ok \<longrightarrow> shows_bytes ?view (addrs a n) bs) \<and> length bs \<le> n"
  proof (cases "find_region (base_of s a) (rc_regions c)")
    case (Some j)
    then have "bs = take n (drop (offset_in s a) (rg_data (rc_regions c ! j)))"
      "c' = touch_region j (c\<lparr>rc_hits := rc_hits c + 1\<rparr>)"
      using f by (auto simp: region_read_turn_def Let_def)
    then show ?thesis
      using i touch_region_ok [of s ?view "c\<lparr>rc_hits := rc_hits c + 1\<rparr>" j] gs region_hit_shows [OF gs Some] by simp
  next
    case None
    let ?c1 = "c\<lparr>rc_misses := rc_misses c + 1\<rparr>"
    obtain q c2 where pf: "prefetch_turn s (Some ?p) (base_of s a) ?c1 = (q, c2)" by fastforce
    have k2: "inv (rc_next c2) \<and> view (rc_next c2) = ?view \<and> regions_ok s ?view (rc_regions c2) \<and>
        (q = St_Ok \<longrightarrow> find_region (base_of s a) (rc_regions c2) \<noteq> None)"
      using fill_region_keeps [of ?c1 s "base_of s a"] i gs None pf by (simp add: prefetch_turn_def)
    show ?thesis
    proof (cases "q = St_Ok")
      case True
      then obtain j where j: "find_region (base_of s a) (rc_regions c2) = Some j" using k2 by blast
      then have "bs = take n (drop (offset_in s a) (rg_data (rc_regions c2 ! j)))" "c' = c2"
        using f None pf True by (auto simp: region_read_turn_def Let_def)
      then show ?thesis using k2 region_hit_shows [OF _ j] by simp
    next
      case False
      obtain q2 bs2 nx where nx: "rd a n (rc_next c2) = (q2, bs2, nx)" by (metis prod_cases3)
      then have "r = q2" "bs = bs2" "c' = c2\<lparr>rc_next := nx\<rparr>"
        using f None pf False by (auto simp: region_read_turn_def Let_def)
      moreover have "inv (rc_next c2)" using k2 by blast
      ultimately show ?thesis
        using rd_keeps [OF _ nx] rd_length [OF _ nx] rd_ok [of "rc_next c2" a n bs2 nx] nx k2
        by (auto simp: shows_bytes_iff)
    qed
  qed
  then show "inv (rc_next c')" "view (rc_next c') = ?view" "regions_ok s ?view (rc_regions c')"
    "offset_in s a + n \<le> 2 ^ s \<Longrightarrow> r = St_Ok \<Longrightarrow> shows_bytes ?view (addrs a n) bs" "length bs \<le> n"
    by blast+
qed

lemma regions_patched:
  assumes "regions_ok s (view n) gs" "s < 64" "length src \<le> 2 ^ 32"
    and "inv n" "wr a src n = (St_Ok, n')"
  shows "regions_ok s (view n') (each_write (region_patch_turn s) (spans s a (length src)) src gs)"
proof -
  have "regions_ok s (patch_view a src (view n)) (each_write (region_patch_turn s) (spans s a (length src)) src gs)"
  proof (rule each_write_patches [where R = "\<lambda>gs v. regions_ok s v gs"])
    show "length src \<le> 2 ^ 64" using assms(3) by simp
    show "regions_ok s (patch_view b bs v) (region_patch_turn s b bs hs)"
      if "regions_ok s v hs" "offset_in s b + length bs \<le> 2 ^ s" for b bs hs v
      by (rule region_patch_turn_ok [OF that(1) assms(2) that(2)])
  qed (rule assms(1))
  then show ?thesis using regions_ok_map_le [OF wr_ok [OF assms(4,5,3)]] by blast
qed

lemma region_reads:
  assumes "inv (rc_next c)" "regions_ok s (view (rc_next c)) (rc_regions c)"
    and "each_read (region_read_turn s \<lparr>prov_read = rd, prov_write = wr\<rparr>) (spans s a n) c = (r, bs, c')"
  shows "inv (rc_next c') \<and> view (rc_next c') = view (rc_next c) \<and> regions_ok s (view (rc_next c)) (rc_regions c') \<and>
    length bs \<le> n \<and> (r = St_Ok \<longrightarrow> shows_bytes (view (rc_next c)) (addrs a n) bs)"
proof -
  define P where "P d \<longleftrightarrow> inv (rc_next d) \<and> view (rc_next d) = view (rc_next c) \<and>
    regions_ok s (view (rc_next c)) (rc_regions d)" for d :: "'m region_cache"
  have P0: "P c" using assms by (simp add: P_def)
  have turn: "P d'" "length cs \<le> k"
    "offset_in s b + k \<le> 2 ^ s \<Longrightarrow> q = St_Ok \<Longrightarrow> shows_bytes (view (rc_next c)) (addrs b k) cs"
    if "P d" "region_read_turn s \<lparr>prov_read = rd, prov_write = wr\<rparr> b k d = (q, cs, d')" for b k d q cs d'
    using that(1) region_read_turn_keeps [OF _ _ that(2)] unfolding P_def by simp_all
  have "P c'" by (rule each_read_keeps [where P = P, OF turn(1) P0 assms(3)])
  moreover have "length bs \<le> n" by (rule each_read_length [where P = P, OF turn(1,2) P0 assms(3)])
  moreover have "shows_bytes (view (rc_next c)) (addrs a n) bs" if "r = St_Ok"
    by (rule each_read_shows [where P = P, OF turn(1,3) P0 assms(3) [unfolded that]]) simp_all
  ultimately show ?thesis by (simp add: P_def)
qed

lemma l3_memory:
  "memory (l3_read (Some \<lparr>prov_read = rd, prov_write = wr\<rparr>)) (l3_write (Some \<lparr>prov_read = rd, prov_write = wr\<rparr>))
     (\<lambda>c. view (rc_next c)) (l3_inv inv view)"
proof
  fix m m' :: "'m region_cache" and a n r bs
  assume i: "l3_inv inv view m"
  then have i1: "inv (rc_next m)" and i2: "regions_ok 21 (view (rc_next m)) (rc_regions m)" by (simp_all add: l3_inv_def)
  note reads = region_reads [OF i1 i2]
  show "l3_inv inv view m' \<and> view (rc_next m') = view (rc_next m)"
    if "l3_read (Some \<lparr>prov_read = rd, prov_write = wr\<rparr>) a n m = (r, bs, m')"
    using that i reads by (auto simp: l3_read_def l3_inv_def split: if_splits)
  show "length bs \<le> n" if "l3_read (Some \<lparr>prov_read = rd, prov_write = wr\<rparr>) a n m = (r, bs, m')"
    using that reads by (auto simp: l3_read_def split: if_splits)
  show "length bs = n \<and> (\<forall>i < n. view (rc_next m) (a + of_nat i) = Some (bs ! i))"
    if "l3_read (Some \<lparr>prov_read = rd, prov_write = wr\<rparr>) a n m = (St_Ok, bs, m')"
    using that reads by (auto simp: l3_read_def shows_bytes_iff split: if_splits)
  show "l3_inv inv view m'"
    if "l3_write (Some \<lparr>prov_read = rd, prov_write = wr\<rparr>) a bs m = (r, m')" "length bs \<le> 2 ^ 32"
    using that i wr_inv [OF i1] wr_fail [OF i1] regions_patched [OF i2 _ that(2) i1]
    by (auto simp: l3_write_def l3_inv_def split: if_splits prod.splits)
  show "view (rc_next m') = view (rc_next m)"
    if "l3_write (Some \<lparr>prov_read = rd, prov_write = wr\<rparr>) a bs m = (r, m')" "r \<noteq> St_Ok"
    using that wr_fail [OF i1] by (auto simp: l3_write_def split: if_splits prod.splits)
  show "patch_view a bs (view (rc_next m)) \<subseteq>\<^sub>m view (rc_next m')"
    if "l3_write (Some \<lparr>prov_read = rd, prov_write = wr\<rparr>) a bs m = (St_Ok, m')" "length bs \<le> 2 ^ 32"
    using that wr_ok [OF i1] by (auto simp: l3_write_def split: if_splits prod.splits)
qed

end

context paged_memory
begin

lemma region_read_turn_total:
  assumes i: "inv (rc_next c)" and gs: "regions_ok s (view (rc_next c)) (rc_regions c)"
    and mapped: "\<forall>x \<in> set (addrs a n). view (rc_next c) x \<noteq> None"
  shows "\<exists>bs c'. region_read_turn s \<lparr>prov_read = rd, prov_write = wr\<rparr> a n c = (St_Ok, bs, c')"
proof (cases "find_region (base_of s a) (rc_regions c)")
  case (Some j)
  then show ?thesis by (simp add: region_read_turn_def Let_def)
next
  case None
  let ?c1 = "c\<lparr>rc_misses := rc_misses c + 1\<rparr>"
  obtain q c2 where pf: "prefetch_turn s (Some \<lparr>prov_read = rd, prov_write = wr\<rparr>) (base_of s a) ?c1 = (q, c2)"
    by fastforce
  have k2: "inv (rc_next c2) \<and> view (rc_next c2) = view (rc_next c)"
    using prefetch_turn_keeps [OF _ _ base_of_idem pf] i gs by simp
  moreover have "\<forall>i < n. view (rc_next c) (a + of_nat i) \<noteq> None"
    using mapped set_addrs by blast
  ultimately obtain bs nx where "rd a n (rc_next c2) = (St_Ok, bs, nx)"
    using rd_mapped [of "rc_next c2" n a] by auto
  then show ?thesis
    using None pf by (cases "q = St_Ok") (auto simp: region_read_turn_def Let_def split: option.split)
qed

lemma l3_paged:
  "paged_memory (l3_read (Some \<lparr>prov_read = rd, prov_write = wr\<rparr>)) (l3_write (Some \<lparr>prov_read = rd, prov_write = wr\<rparr>))
     (\<lambda>c. view (rc_next c)) (l3_inv inv view)"
proof (intro paged_memory.intro l3_memory paged_memory_axioms.intro)
  show "view (rc_next m) y \<noteq> None"
    if "l3_inv inv view m" "same_page x y" "view (rc_next m) x \<noteq> None" for m x y
    using that granular by (auto simp: l3_inv_def)
  show "\<exists>bs m'. l3_read (Some \<lparr>prov_read = rd, prov_write = wr\<rparr>) a n m = (St_Ok, bs, m')"
    if i: "l3_inv inv view m" and mapped: "\<forall>i < n. view (rc_next m) (a + of_nat i) \<noteq> None" for m n a
  proof -
    define P where "P d \<longleftrightarrow> inv (rc_next d) \<and> view (rc_next d) = view (rc_next m) \<and>
      regions_ok 21 (view (rc_next m)) (rc_regions d)" for d :: "'a region_cache"
    have "\<exists>bs m'. each_read (region_read_turn 21 \<lparr>prov_read = rd, prov_write = wr\<rparr>) (spans 21 a n) m = (St_Ok, bs, m')"
    proof (rule each_read_total [where P = P])
      show "P m" using i by (simp add: P_def l3_inv_def)
      show "P d'" if "P d" "region_read_turn 21 \<lparr>prov_read = rd, prov_write = wr\<rparr> b k d = (q, cs, d')" for b k d q cs d'
        using that(1) region_read_turn_keeps [OF _ _ that(2)] unfolding P_def by simp
      show "\<forall>x \<in> set (addrs a n). view (rc_next m) x \<noteq> None" using mapped by (auto simp: set_addrs)
      show "\<exists>bs m'. region_read_turn 21 \<lparr>prov_read = rd, prov_write = wr\<rparr> b k d = (St_Ok, bs, m')"
        if "P d" "\<forall>x \<in> set (addrs b k). view (rc_next m) x \<noteq> None" for b k d
        by (rule region_read_turn_total) (use that in \<open>simp_all add: P_def\<close>)
    qed
    then show ?thesis by (auto simp: l3_read_def)
  qed
qed

end

end
