(* ===== verification/Memory_Chain.thy ===== *)
theory Memory_Chain
  imports Shadow_Pages Region_Cache
begin

text \<open>
  The provider chain of \<^verbatim>\<open>src/tester/tester.cpp\<close>: reads and writes of the emulator enter the first level cache
  and pass through the second and third level to the copy-on-write pages.  Each layer is an
  interpretation of the interface on the interpretation below it, so what the contract gives holds of
  the whole chain.
\<close>

section \<open>The chain\<close>

type_synonym chain = "shadow region_cache line_cache line_cache"

definition shadow_provider :: "shadow provider" where
  "shadow_provider = \<lparr>prov_read = shadow_read, prov_write = shadow_write\<rparr>"

definition l3_provider :: "shadow region_cache provider" where
  "l3_provider = \<lparr>prov_read = l3_read (Some shadow_provider), prov_write = l3_write (Some shadow_provider)\<rparr>"

definition l2_provider :: "shadow region_cache line_cache provider" where
  "l2_provider = \<lparr>prov_read = l2_read (Some l3_provider), prov_write = l2_write (Some l3_provider)\<rparr>"

definition chain_provider :: "chain provider" where
  "chain_provider = \<lparr>prov_read = l1_read (Some l2_provider), prov_write = l1_write (Some l2_provider)\<rparr>"

abbreviation (input) chain_read :: "GuestAddr \<Rightarrow> nat \<Rightarrow> chain \<Rightarrow> Status \<times> u8 list \<times> chain" where
  "chain_read \<equiv> prov_read chain_provider"

abbreviation (input) chain_write :: "GuestAddr \<Rightarrow> u8 list \<Rightarrow> chain \<Rightarrow> Status \<times> chain" where
  "chain_write \<equiv> prov_write chain_provider"

definition new_chain :: "shadow \<Rightarrow> chain" where
  "new_chain m = new_l1 (new_l2 (new_l3 m))"

definition chain_shadow :: "chain \<Rightarrow> shadow" where
  "chain_shadow c = rc_next (lc_next (lc_next c))"

text \<open>Dropping cached bytes at every level.\<close>

definition chain_invalidate :: "GuestAddr \<Rightarrow> nat \<Rightarrow> chain \<Rightarrow> chain" where
  "chain_invalidate a n c = (let d = lc_next c; e = lc_next d
     in l1_invalidate a n (c\<lparr>lc_next := l2_invalidate a n (d\<lparr>lc_next := l3_invalidate a n e\<rparr>)\<rparr>))"

definition chain_flush :: "chain \<Rightarrow> chain" where
  "chain_flush c = (let d = lc_next c; e = lc_next d
     in flush_lines (c\<lparr>lc_next := flush_lines (d\<lparr>lc_next := l3_flush e\<rparr>)\<rparr>))"

section \<open>The contract holds of every layer\<close>

definition l3_view :: "shadow region_cache \<Rightarrow> GuestAddr \<Rightarrow> u8 option" where
  "l3_view c = shadow_view (rc_next c)"

definition l2_view :: "shadow region_cache line_cache \<Rightarrow> GuestAddr \<Rightarrow> u8 option" where
  "l2_view c = l3_view (lc_next c)"

definition chain_view :: "chain \<Rightarrow> GuestAddr \<Rightarrow> u8 option" where
  "chain_view c = l2_view (lc_next c)"

definition chain_l3_ok :: "shadow region_cache \<Rightarrow> bool" where
  "chain_l3_ok = l3_inv shadow_inv shadow_view"

definition chain_l2_ok :: "shadow region_cache line_cache \<Rightarrow> bool" where
  "chain_l2_ok = l2_inv chain_l3_ok l3_view"

definition chain_inv :: "chain \<Rightarrow> bool" where
  "chain_inv = l1_inv chain_l2_ok l2_view"

lemma chain_view_shadow: "chain_view c = shadow_view (chain_shadow c)"
  by (simp add: chain_view_def l2_view_def l3_view_def chain_shadow_def)

lemma prov_eta: "\<lparr>prov_read = prov_read p, prov_write = prov_write p\<rparr> = p"
  by simp

interpretation l3: paged_memory "prov_read l3_provider" "prov_write l3_provider" l3_view chain_l3_ok
  using paged_memory.l3_paged [OF shadow.paged_memory_axioms] unfolding l3_provider_def shadow_provider_def l3_view_def [abs_def] chain_l3_ok_def by simp

interpretation l2: paged_memory "prov_read l2_provider" "prov_write l2_provider" l2_view chain_l2_ok
  using l3.l2_paged unfolding prov_eta l2_view_def [abs_def] chain_l2_ok_def
  by (simp add: l2_provider_def)

interpretation chain: paged_memory chain_read chain_write chain_view chain_inv
  using l2.l1_paged unfolding prov_eta chain_view_def [abs_def] chain_inv_def
  by (simp add: chain_provider_def)

section \<open>A new chain\<close>

lemma new_l3_ok: "shadow_inv m \<Longrightarrow> chain_l3_ok (new_l3 m)"
  by (simp add: chain_l3_ok_def l3_inv_def new_l3_def regions_ok_def region_ok_def region_hit_def)

lemma new_chain_inv: "shadow_inv m \<Longrightarrow> chain_inv (new_chain m)"
  using new_l3_ok [of m] empty_lines_ok [of 6 6 "l2_view (new_l2 (new_l3 m))"]
  by (simp add: chain_inv_def l1_inv_def new_chain_def new_l1_def chain_l2_ok_def l2_inv_def new_l2_def)

lemma new_chain_shadow [simp]: "chain_shadow (new_chain m) = m"
  by (simp add: chain_shadow_def new_chain_def new_l1_def new_l2_def new_l3_def)

lemma new_shadow_inv: "(\<forall>b. bk = Some b \<longrightarrow> backing_ok b) \<Longrightarrow> shadow_inv (new_shadow bk)"
  by (auto simp: shadow_inv_def new_shadow_def)

lemma configure_inv [simp]:
  "shadow_inv (add_private_region b n m) = shadow_inv m" "shadow_inv (add_code_range b n m) = shadow_inv m"
  "shadow_inv (protect b n p m) = shadow_inv m" "shadow_inv (set_write_listener on m) = shadow_inv m"
  by (simp_all add: shadow_inv_def add_private_region_def add_code_range_def protect_def set_write_listener_def)

section \<open>What reaches the pages\<close>

text \<open>A read of a cache changes the next state only by reads.\<close>

lemma line_read_next:
  assumes "\<And>a n m r bs m'. Q m \<Longrightarrow> prov_read p a n m = (r, bs, m') \<Longrightarrow> Q m'"
    and "Q (lc_next c)" "line_read_turn s e p a n c = (r, bs, c')"
  shows "Q (lc_next c')"
  using assms(1) [OF assms(2)] assms(2,3)
  by (auto simp: line_read_turn_def Let_def split: if_splits prod.splits)

lemma l1_read_next:
  assumes "\<And>a n m r bs m'. Q m \<Longrightarrow> prov_read p a n m = (r, bs, m') \<Longrightarrow> Q m'"
    and "Q (lc_next c)" "l1_read (Some p) a n c = (r, bs, c')"
  shows "Q (lc_next c')"
  using assms(2,3) each_read_keeps [where P = "\<lambda>c. Q (lc_next c)" and f = "line_read_turn 6 6 p", OF line_read_next [where Q = Q, OF assms(1)]]
  by (auto simp: l1_read_def split: if_splits)

lemma l2_read_next:
  assumes "\<And>a n m r bs m'. Q m \<Longrightarrow> prov_read p a n m = (r, bs, m') \<Longrightarrow> Q m'"
    and "Q (lc_next c)" "l2_read (Some p) a n c = (r, bs, c')"
  shows "Q (lc_next c')"
proof -
  have "Q (lc_next (l2_alloc c))" using assms(2) by (simp add: l2_alloc_def)
  then show ?thesis
    using assms(2,3) each_read_keeps [where P = "\<lambda>c. Q (lc_next c)" and f = "line_read_turn 12 8 p", OF line_read_next [where Q = Q, OF assms(1)]]
    by (auto simp: l2_read_def split: if_splits)
qed

lemma prefetch_next:
  assumes "\<And>a n m r bs m'. Q m \<Longrightarrow> prov_read p a n m = (r, bs, m') \<Longrightarrow> Q m'"
    and "Q (rc_next c)" "prefetch_turn s (Some p) b c = (r, c')"
  shows "Q (rc_next c')"
  using assms(1) [OF assms(2)] assms(2,3)
  by (auto simp: prefetch_turn_def fill_region_def Let_def split: if_splits prod.splits option.splits)

lemma region_read_next:
  assumes "\<And>a n m r bs m'. Q m \<Longrightarrow> prov_read p a n m = (r, bs, m') \<Longrightarrow> Q m'"
    and "Q (rc_next c)" "region_read_turn s p a n c = (r, bs, c')"
  shows "Q (rc_next c')"
proof -
  obtain q d where pf: "prefetch_turn s (Some p) (base_of s a) (c\<lparr>rc_misses := rc_misses c + 1\<rparr>) = (q, d)" by fastforce
  have "Q (rc_next d)" by (rule prefetch_next [where Q = Q, OF assms(1) _ pf]) (use assms(2) in simp_all)
  then show ?thesis
    using assms(1) [OF \<open>Q (rc_next d)\<close>] assms(2,3) pf
    by (auto simp: region_read_turn_def Let_def split: if_splits prod.splits option.splits)
qed

lemma l3_read_next:
  assumes "\<And>a n m r bs m'. Q m \<Longrightarrow> prov_read p a n m = (r, bs, m') \<Longrightarrow> Q m'"
    and "Q (rc_next c)" "l3_read (Some p) a n c = (r, bs, c')"
  shows "Q (rc_next c')"
  using assms(2,3) each_read_keeps [where P = "\<lambda>c. Q (rc_next c)" and f = "region_read_turn 21 p", OF region_read_next [where Q = Q, OF assms(1)]]
  by (auto simp: l3_read_def split: if_splits)

lemma chain_read_shadow:
  assumes "chain_read a n c = (r, bs, c')"
  shows "chain_shadow c' = chain_shadow c"
proof -
  let ?m = "chain_shadow c"
  have 1: "m' = ?m" if "m = ?m" "prov_read shadow_provider a n m = (r, bs, m')" for a n m r bs m'
    using that shadow_read_state by (simp add: shadow_provider_def)
  have 2: "rc_next d' = ?m" if "rc_next d = ?m" "prov_read l3_provider a n d = (r, bs, d')" for a n d r bs d'
    using l3_read_next [where Q = "\<lambda>m. m = ?m", OF 1 that(1)] that(2) by (simp add: l3_provider_def)
  have 3: "rc_next (lc_next d') = ?m" if "rc_next (lc_next d) = ?m" "prov_read l2_provider a n d = (r, bs, d')" for a n d r bs d'
    using l2_read_next [where Q = "\<lambda>d. rc_next d = ?m", OF 2 that(1)] that(2) by (simp add: l2_provider_def)
  have "rc_next (lc_next (lc_next c')) = ?m"
  proof (rule l1_read_next [where Q = "\<lambda>d. rc_next (lc_next d) = ?m" and p = l2_provider])
    show "l1_read (Some l2_provider) a n c = (r, bs, c')" using assms by (simp only: chain_provider_def provider.simps)
    show "rc_next (lc_next (lc_next c)) = ?m" by (simp only: chain_shadow_def)
  qed (rule 3)
  then show ?thesis by (simp only: chain_shadow_def)
qed

lemma l1_write_next: "bs \<noteq> [] \<Longrightarrow> l1_write (Some p) a bs c = (r, c') \<Longrightarrow> prov_write p a bs (lc_next c) = (r, lc_next c')"
  by (cases "prov_write p a bs (lc_next c)") (auto simp: l1_write_def split: if_splits)

lemma l2_write_next: "bs \<noteq> [] \<Longrightarrow> l2_write (Some p) a bs c = (r, c') \<Longrightarrow> prov_write p a bs (lc_next c) = (r, lc_next c')"
  by (cases "prov_write p a bs (lc_next c)") (auto simp: l2_write_def split: if_splits)

lemma l3_write_next: "bs \<noteq> [] \<Longrightarrow> l3_write (Some p) a bs c = (r, c') \<Longrightarrow> prov_write p a bs (rc_next c) = (r, rc_next c')"
  by (cases "prov_write p a bs (rc_next c)") (auto simp: l3_write_def split: if_splits)

lemma chain_write_shadow:
  assumes "chain_write a bs c = (r, c')"
  shows "shadow_write a bs (chain_shadow c) = (r, chain_shadow c')"
proof (cases "bs = []")
  case True
  then show ?thesis using assms by (simp add: chain_provider_def l1_write_def shadow_write_def)
next
  case False
  show ?thesis
    using l3_write_next [OF False l2_write_next [OF False l1_write_next [OF False assms [unfolded chain_provider_def provider.simps],
            unfolded l2_provider_def provider.simps], unfolded l3_provider_def provider.simps]]
    by (simp add: shadow_provider_def chain_shadow_def)
qed

section \<open>Forgetting\<close>

lemma dropped_regions_ok:
  assumes "regions_ok s v gs" "\<And>g. f g = g \<or> \<not> rg_valid (f g)"
  shows "regions_ok s v (map f gs)"
proof -
  have hit: "region_hit b (f g) \<Longrightarrow> region_hit b g" for b g using assms(2) [of g] by (auto simp: region_hit_def)
  have "region_ok s v (f g)" if "region_ok s v g" for g using assms(2) [of g] that by (auto simp: region_ok_def)
  then show ?thesis using assms(1) hit unfolding regions_ok_def by simp blast
qed

lemma drop_regions_ok: "regions_ok s v gs \<Longrightarrow> regions_ok s v (fold (\<lambda>b. map (drop_region b)) bs gs)"
proof (induction bs arbitrary: gs)
  case (Cons b bs)
  have "regions_ok s v (map (drop_region b) gs)"
    by (rule dropped_regions_ok [OF Cons.prems]) (simp add: drop_region_def)
  then show ?case using Cons.IH by simp
qed simp

lemma l3_forget:
  assumes "l3_inv ok view c"
  shows "l3_inv ok view (l3_invalidate a n c)" "l3_inv ok view (l3_flush c)"
    "rc_next (l3_invalidate a n c) = rc_next c" "rc_next (l3_flush c) = rc_next c"
  using assms drop_regions_ok
    dropped_regions_ok [where f = "\<lambda>g. g\<lparr>rg_valid := False, rg_base := 0, rg_data := []\<rparr>"]
  by (auto simp: l3_inv_def l3_invalidate_def l3_flush_def)

text \<open>Replacing the state of the next level by one that shows the same memory.\<close>

lemma l2_inv_next: "l2_inv ok view d \<Longrightarrow> ok e \<Longrightarrow> view e = view (lc_next d) \<Longrightarrow> l2_inv ok view (d\<lparr>lc_next := e\<rparr>)"
  by (simp add: l2_inv_def)

lemma l1_inv_next: "l1_inv ok view c \<Longrightarrow> ok d \<Longrightarrow> view d = view (lc_next c) \<Longrightarrow> l1_inv ok view (c\<lparr>lc_next := d\<rparr>)"
  by (simp add: l1_inv_def)

lemma chain_levels:
  assumes "chain_inv c"
  shows "l2_inv chain_l3_ok l3_view (lc_next c)" "l3_inv shadow_inv shadow_view (lc_next (lc_next c))"
proof -
  show 1: "l2_inv chain_l3_ok l3_view (lc_next c)" using assms by (simp add: chain_inv_def l1_inv_def chain_l2_ok_def)
  then show "l3_inv shadow_inv shadow_view (lc_next (lc_next c))" by (simp add: l2_inv_def chain_l3_ok_def)
qed

lemma chain_replace:
  assumes "chain_inv c" "l3_inv shadow_inv shadow_view e" "rc_next e = chain_shadow c"
    "\<And>d. l2_inv chain_l3_ok l3_view d \<Longrightarrow> l2_inv chain_l3_ok l3_view (f d) \<and> lc_next (f d) = lc_next d"
    "\<And>b. l1_inv chain_l2_ok l2_view b \<Longrightarrow> l1_inv chain_l2_ok l2_view (g b) \<and> lc_next (g b) = lc_next b"
  shows "chain_inv (g (c\<lparr>lc_next := f ((lc_next c)\<lparr>lc_next := e\<rparr>)\<rparr>)) \<and>
    chain_shadow (g (c\<lparr>lc_next := f ((lc_next c)\<lparr>lc_next := e\<rparr>)\<rparr>)) = chain_shadow c"
proof -
  have e: "l3_view e = l3_view (lc_next (lc_next c))" using assms(3) by (simp add: l3_view_def chain_shadow_def)
  let ?d = "f ((lc_next c)\<lparr>lc_next := e\<rparr>)"
  have "l2_inv chain_l3_ok l3_view ((lc_next c)\<lparr>lc_next := e\<rparr>)"
    by (rule l2_inv_next [OF chain_levels(1) [OF assms(1)] _ e]) (use assms(2) in \<open>simp add: chain_l3_ok_def\<close>)
  from assms(4) [OF this] have d: "l2_inv chain_l3_ok l3_view ?d" "lc_next ?d = e" by simp_all
  then have "l1_inv chain_l2_ok l2_view (c\<lparr>lc_next := ?d\<rparr>)"
    using e by (intro l1_inv_next assms(1) [unfolded chain_inv_def]) (simp_all add: chain_l2_ok_def l2_view_def)
  from assms(5) [OF this] show ?thesis using d(2) assms(3) by (simp add: chain_inv_def chain_shadow_def)
qed

lemma chain_forget:
  assumes "chain_inv c"
  shows "chain_inv (chain_invalidate a n c)" "chain_inv (chain_flush c)"
    "chain_shadow (chain_invalidate a n c) = chain_shadow c" "chain_shadow (chain_flush c) = chain_shadow c"
proof -
  note l3 = l3_forget [OF chain_levels(2) [OF assms]]
  have "rc_next (l3_invalidate a n (lc_next (lc_next c))) = chain_shadow c" "rc_next (l3_flush (lc_next (lc_next c))) = chain_shadow c"
    using l3(3,4) by (simp_all add: chain_shadow_def)
  note r = chain_replace [OF assms l3(1) this(1)] chain_replace [OF assms l3(2) this(2)]
  have 1: "chain_inv (chain_invalidate a n c) \<and> chain_shadow (chain_invalidate a n c) = chain_shadow c"
    unfolding chain_invalidate_def Let_def by (rule r(1)) (simp_all add: l1_forget l2_forget)
  have 2: "chain_inv (chain_flush c) \<and> chain_shadow (chain_flush c) = chain_shadow c"
    unfolding chain_flush_def Let_def by (rule r(2)) (simp_all add: l1_forget l2_forget)
  show "chain_inv (chain_invalidate a n c)" "chain_inv (chain_flush c)"
    "chain_shadow (chain_invalidate a n c) = chain_shadow c" "chain_shadow (chain_flush c) = chain_shadow c"
    using 1 2 by simp_all
qed

section \<open>Runs of accesses\<close>

datatype access = Fetch GuestAddr nat | Store GuestAddr "u8 list" | Drop_Range GuestAddr nat | Drop_All

datatype outcome = Fetched "u8 list option" | Stored Status | Dropped

definition fetched :: "Status \<Rightarrow> u8 list \<Rightarrow> outcome" where
  "fetched r bs = Fetched (if r = St_Ok then Some bs else None)"

fun shadow_access :: "access \<Rightarrow> shadow \<Rightarrow> outcome \<times> shadow" where
  "shadow_access (Fetch a n) m = (case shadow_read a n m of (r, bs, m) \<Rightarrow> (fetched r bs, m))"
| "shadow_access (Store a bs) m = (case shadow_write a bs m of (r, m) \<Rightarrow> (Stored r, m))"
| "shadow_access (Drop_Range a n) m = (Dropped, m)"
| "shadow_access Drop_All m = (Dropped, m)"

fun chain_access :: "access \<Rightarrow> chain \<Rightarrow> outcome \<times> chain" where
  "chain_access (Fetch a n) c = (case chain_read a n c of (r, bs, c) \<Rightarrow> (fetched r bs, c))"
| "chain_access (Store a bs) c = (case chain_write a bs c of (r, c) \<Rightarrow> (Stored r, c))"
| "chain_access (Drop_Range a n) c = (Dropped, chain_invalidate a n c)"
| "chain_access Drop_All c = (Dropped, chain_flush c)"

fun run_accesses :: "(access \<Rightarrow> 's \<Rightarrow> outcome \<times> 's) \<Rightarrow> access list \<Rightarrow> 's \<Rightarrow> outcome list \<times> 's" where
  "run_accesses f [] s = ([], s)"
| "run_accesses f (x # xs) s = (case f x s of (r, s) \<Rightarrow> (case run_accesses f xs s of (rs, s) \<Rightarrow> (r # rs, s)))"

fun small_access :: "access \<Rightarrow> bool" where
  "small_access (Store a bs) = (length bs \<le> 2 ^ 32)"
| "small_access _ = True"

text \<open>Two memories with the same view answer a read in the same way.\<close>

lemma same_fetch:
  assumes "chain_inv c" "chain_read a n c = (r, bs, c')" "shadow_read a n (chain_shadow c) = (q, cs, m')"
  shows "fetched r bs = fetched q cs"
proof -
  have inv: "shadow_inv (chain_shadow c)" using chain_levels(2) [OF assms(1)] by (simp add: l3_inv_def chain_shadow_def)
  have view: "chain_view c = shadow_view (chain_shadow c)" by (rule chain_view_shadow)
  have r: "r = St_Ok \<Longrightarrow> length bs = n \<and> (\<forall>i < n. shadow_view (chain_shadow c) (a + of_nat i) = Some (bs ! i))"
    using chain.rd_ok [OF assms(1)] assms(2) view by simp
  have q: "q = St_Ok \<Longrightarrow> length cs = n \<and> (\<forall>i < n. shadow_view (chain_shadow c) (a + of_nat i) = Some (cs ! i))"
    using shadow.rd_ok [OF inv] assms(3) by simp
  have "r = St_Ok \<Longrightarrow> q = St_Ok"
    using r shadow.rd_mapped [OF inv, of n a] assms(3) by auto
  moreover have "q = St_Ok \<Longrightarrow> r = St_Ok"
    using q chain.rd_mapped [OF assms(1), of n a] assms(2) view by auto
  moreover have "r = St_Ok \<Longrightarrow> q = St_Ok \<Longrightarrow> bs = cs" using r q by (simp add: list_eq_iff_nth_eq)
  ultimately show ?thesis by (auto simp: fetched_def)
qed

lemma chain_access_shadow:
  assumes "chain_inv c" "small_access x" "chain_access x c = (r, c')"
  shows "chain_inv c' \<and> shadow_access x (chain_shadow c) = (r, chain_shadow c')"
proof (cases x)
  case (Fetch a n)
  obtain q bs d where q: "chain_read a n c = (q, bs, d)" by (metis prod_cases3)
  obtain p cs m where p: "shadow_read a n (chain_shadow c) = (p, cs, m)" by (metis prod_cases3)
  from q have "chain_inv d" using chain.rd_keeps [OF assms(1)] by simp
  then show ?thesis
    using Fetch assms(3) q p same_fetch [OF assms(1) q p] chain_read_shadow [OF q] shadow_read_state [OF p] by simp
next
  case (Store a bs)
  obtain q d where q: "chain_write a bs c = (q, d)" by fastforce
  have "chain_inv d" by (rule chain.wr_inv [OF assms(1) q]) (use Store assms(2) in simp)
  then show ?thesis using Store assms(3) q chain_write_shadow [OF q] by simp
qed (use assms chain_forget in auto)

lemma chain_run_shadow:
  assumes "chain_inv c" "list_all small_access xs" "run_accesses chain_access xs c = (rs, c')"
  shows "chain_inv c' \<and> run_accesses shadow_access xs (chain_shadow c) = (rs, chain_shadow c')"
  using assms
proof (induction xs arbitrary: c rs)
  case (Cons x xs)
  obtain r d where r: "chain_access x c = (r, d)" by fastforce
  obtain rs' e where rs': "run_accesses chain_access xs d = (rs', e)" by fastforce
  have "chain_inv d \<and> shadow_access x (chain_shadow c) = (r, chain_shadow d)"
    using chain_access_shadow [OF Cons.prems(1) _ r] Cons.prems(2) by simp
  then show ?case using Cons.IH [of d rs'] Cons.prems r rs' by auto
qed simp


section \<open>Properties of the chain\<close>


definition sample_shadow :: shadow where
  "sample_shadow = add_private_region 0x10000 0x1000 (new_shadow None)"

lemma sample_shadow_inv: "shadow_inv sample_shadow"
  by (simp add: sample_shadow_def new_shadow_inv)

lemma sample_write: "fst (chain_write a bs (new_chain sample_shadow)) = St_Ok"
proof -
  obtain r c where "chain_write a bs (new_chain sample_shadow) = (r, c)" by fastforce
  from chain_write_shadow [OF this] this show ?thesis
    by (auto simp: shadow_write_def write_allowed_def sample_shadow_def add_private_region_def new_shadow_def Let_def split: if_splits)
qed


text \<open>C8: A successful write through the chain is read back: the same range then reads the bytes that
  were written, and every range disjoint from it reads what it read before.\<close>

theorem chain_write_read:
  assumes "chain_inv c" "chain_write a bs c = (St_Ok, c')" "length bs \<le> 2 ^ 32"
  shows "fst (chain_read a (length bs) c') = St_Ok \<and> fst (snd (chain_read a (length bs) c')) = bs \<and>
    (\<forall>x n cs d. chain_read x n c = (St_Ok, cs, d) \<longrightarrow> (\<forall>i < n. \<not> in_span a (length bs) (x + of_nat i)) \<longrightarrow>
      fst (chain_read x n c') = St_Ok \<and> fst (snd (chain_read x n c')) = cs)"
proof (intro conjI allI impI)
  obtain d where "chain_read a (length bs) c' = (St_Ok, bs, d)" using chain.read_write_total [OF assms] by blast
  then show "fst (chain_read a (length bs) c') = St_Ok" "fst (snd (chain_read a (length bs) c')) = bs" by simp_all
  fix x n cs d
  assume r: "chain_read x n c = (St_Ok, cs, d)" and out: "\<forall>i < n. \<not> in_span a (length bs) (x + of_nat i)"
  from chain.rd_ok [OF assms(1) r] chain.wr_out [OF assms] out
  have "\<forall>i < n. chain_view c' (x + of_nat i) \<noteq> None" by fastforce
  from chain.rd_mapped [OF chain.wr_inv [OF assms] this] obtain es d' where e: "chain_read x n c' = (St_Ok, es, d')" by blast
  then show "fst (chain_read x n c') = St_Ok" "fst (snd (chain_read x n c')) = cs"
    using chain.read_unchanged [OF assms r e out] by simp_all
qed

theorem chain_write_read_witness:
  "\<exists>c. chain_write 0x10FFE [1, 2, 3, 4] (new_chain sample_shadow) = (St_Ok, c) \<and>
     fst (snd (chain_read 0x10FFE 4 c)) = [1, 2, 3, 4]"
proof -
  obtain r c where w: "chain_write 0x10FFE [1, 2, 3, 4] (new_chain sample_shadow) = (r, c)" by fastforce
  then have w: "chain_write 0x10FFE [1, 2, 3, 4] (new_chain sample_shadow) = (St_Ok, c)"
    using sample_write [of "0x10FFE" "[1, 2, 3, 4]"] by simp
  have l: "length [1, 2, 3, 4 :: u8] = 4" by simp
  have "fst (snd (chain_read 0x10FFE 4 c)) = [1, 2, 3, 4]"
    using chain_write_read [OF new_chain_inv [OF sample_shadow_inv] w] unfolding l by simp
  then show ?thesis using w by blast
qed

text \<open>A write that the pages refuse without a change passes all levels without a change.\<close>

lemma refused_write_next:
  "bs \<noteq> [] \<Longrightarrow> r \<noteq> St_Ok \<Longrightarrow> prov_write p a bs (lc_next c) = (r, lc_next c) \<Longrightarrow> l1_write (Some p) a bs c = (r, c)"
  "bs \<noteq> [] \<Longrightarrow> r \<noteq> St_Ok \<Longrightarrow> prov_write p a bs (lc_next c) = (r, lc_next c) \<Longrightarrow> l2_write (Some p) a bs c = (r, c)"
  "bs \<noteq> [] \<Longrightarrow> r \<noteq> St_Ok \<Longrightarrow> prov_write q a bs (rc_next d) = (r, rc_next d) \<Longrightarrow> l3_write (Some q) a bs d = (r, d)"
  by (simp_all add: l1_write_def l2_write_def l3_write_def)

lemma chain_refused:
  assumes "bs \<noteq> []" "r \<noteq> St_Ok" "shadow_write a bs (chain_shadow c) = (r, chain_shadow c)"
  shows "chain_write a bs c = (r, c)"
proof -
  note n = refused_write_next [OF assms(1,2)]
  have "prov_write l3_provider a bs (lc_next (lc_next c)) = (r, lc_next (lc_next c))"
    unfolding l3_provider_def provider.simps
    by (rule n(3)) (use assms(3) in \<open>simp add: shadow_provider_def chain_shadow_def\<close>)
  then have "prov_write l2_provider a bs (lc_next c) = (r, lc_next c)"
    unfolding l2_provider_def provider.simps by (rule n(2))
  then show ?thesis unfolding chain_provider_def provider.simps by (rule n(1))
qed



end
