(* ===== verification/Chain_Handlers.thy ===== *)
theory Chain_Handlers
  imports Control_Flow Memory_Chain
begin

text \<open>
  Handlers on a memory that keeps the contract: what PUSH and CALL store, POP and RET load.  The lemmas
  are proved once for any paged memory and then read off for the provider chain of the program.
\<close>

section \<open>Accesses of a handler\<close>

text \<open>The emulator with one provider for reads and writes, as the tester sets it up.\<close>

definition mem_env :: "'m provider \<Rightarrow> 'm hook_manager option \<Rightarrow> 'm env" where
  "mem_env p h = \<lparr>e_mem_read = Some p, e_mem_write = Some p, e_hooks = h\<rparr>"

lemma mem_env_sel [simp]:
  "e_mem_read (mem_env p h) = Some p" "e_mem_write (mem_env p h) = Some p" "e_hooks (mem_env p h) = h"
  by (simp_all add: mem_env_def)

lemma stored_bytes: "valid_size sz \<Longrightarrow> length (le_bytes (unat sz) v) \<le> 2 ^ 32"
  by (auto elim: valid_size_cases)

lemma stored_value: "valid_size sz \<Longrightarrow> le_value (le_bytes (unat sz) v) = v AND mask_for sz"
  by (auto simp: le_value_le_bytes and_mask_for elim!: valid_size_cases)

lemma call_write_ok:
  assumes "fst (prov_write p a (le_bytes (unat sz) v) (c_mem c)) = St_Ok"
  shows "\<exists>m. call_write p a sz v c = (St_Ok, c\<lparr>c_mem := m\<rparr>)"
  by (rule exI [of _ "snd (prov_write p a (le_bytes (unat sz) v) (c_mem c))"])
    (use assms in \<open>simp add: call_write_def split_beta\<close>)

context paged_memory
begin

lemma call_write_read:
  assumes "inv (c_mem c)" "call_write \<lparr>prov_read = rd, prov_write = wr\<rparr> a sz v c = (St_Ok, c')"
    "valid_size sz" "c_mem d = c_mem c'"
  obtains m where "call_read \<lparr>prov_read = rd, prov_write = wr\<rparr> a sz d = ((St_Ok, v AND mask_for sz), d\<lparr>c_mem := m\<rparr>)"
    "view m = view (c_mem c')" "inv m"
proof -
  let ?bs = "le_bytes (unat sz) v"
  obtain m' where w: "wr a ?bs (c_mem c) = (St_Ok, m')" "c' = c\<lparr>c_mem := m'\<rparr>"
    using assms(2) by (auto simp: call_write_def split: prod.splits)
  note w1 = w(1) stored_bytes [OF assms(3), of v]
  obtain m where r: "rd a (unat sz) m' = (St_Ok, ?bs, m)"
    using read_write_total [OF assms(1) w1] by auto
  have m: "inv m \<and> view m = view m'" by (rule rd_keeps [OF wr_inv [OF assms(1) w1] r])
  show ?thesis
  proof (rule that [of m])
    show "call_read \<lparr>prov_read = rd, prov_write = wr\<rparr> a sz d = ((St_Ok, v AND mask_for sz), d\<lparr>c_mem := m\<rparr>)"
      using r w(2) assms(4) stored_value [OF assms(3), of v] by (simp add: call_read_def)
  qed (use m w(2) in simp_all)
qed

lemma call_write_inv:
  assumes "inv (c_mem c)" "call_write \<lparr>prov_read = rd, prov_write = wr\<rparr> a sz v c = (s, c')" "valid_size sz"
  shows "inv (c_mem c')"
proof -
  obtain m where w: "wr a (le_bytes (unat sz) v) (c_mem c) = (s, m)" "c' = c\<lparr>c_mem := m\<rparr>"
    using assms(2) by (auto simp: call_write_def split: prod.splits)
  show ?thesis using wr_inv [OF assms(1) w(1) stored_bytes [OF assms(3)]] w(2) by simp
qed

lemma push_pop:
  assumes ok: "inv (c_mem c)" and sz: "valid_size (i_op_size i)" "i_op_size j = i_op_size i"
    and src: "direct_operand (i_dst i)" and v: "v = direct_value c (i_dst i) (i_op_size i)"
    and dst: "o_kind (i_dst j) = OK_Reg" "o_reg (i_dst j) < 16" "o_reg (i_dst j) \<noteq> RSP"
    and w: "fst (wr (reg c RSP - ucast (i_op_size i)) (le_bytes (unat (i_op_size i)) v) (c_mem c)) = St_Ok"
    and env: "env = mem_env \<lparr>prov_read = rd, prov_write = wr\<rparr> h"
    and c': "c' = op_pop env j (op_push env i c)"
  shows "reg_operand_value c' (o_reg (i_dst j)) (i_op_size i) = v"
    and "reg c' RSP = reg c RSP" and "q \<noteq> o_reg (i_dst j) \<Longrightarrow> reg c' q = reg c q"
    and "c' = c\<lparr>c_gpr := c_gpr c', c_mem := c_mem c'\<rparr>" and "inv (c_mem c')"
proof -
  let ?p = "\<lparr>prov_read = rd, prov_write = wr\<rparr>" and ?sz = "i_op_size i" and ?a = "reg c RSP - ucast (i_op_size i)"
  obtain m1 where m1: "call_write ?p ?a ?sz v c = (St_Ok, c\<lparr>c_mem := m1\<rparr>)"
    using call_write_ok [of ?p ?a ?sz v c] w by auto
  have push: "op_push env i c = set_r64 RSP ?a (c\<lparr>c_mem := m1\<rparr>)"
    using m1 by (simp add: op_push_def read_direct [OF src] v env write_mem_bytes_def write_mem_noted_def)
  let ?c1 = "set_r64 RSP ?a (c\<lparr>c_mem := m1\<rparr>)"
  obtain m2 where m2: "call_read ?p ?a ?sz ?c1 = ((St_Ok, v AND mask_for ?sz), ?c1\<lparr>c_mem := m2\<rparr>)" "inv m2"
    using call_write_read [OF ok m1 sz(1), of ?c1] by (auto simp: set_r64_def)
  have fit: "v AND mask_for ?sz = v" using fits_direct_value [OF sz(1)] v by (simp add: fits_def)
  obtain c2 where wo: "write_reg_operand (o_reg (i_dst j)) ?sz v (?c1\<lparr>c_mem := m2\<rparr>) = (True, c2)"
    using write_reg_operand_ok [OF sz(1)] by blast
  have rsp: "reg ?c1 RSP = ?a" by (simp add: reg_def set_r64_def)
  have pop: "c' = set_r64 RSP (reg c RSP) c2"
    using m2(1) rsp wo
    by (simp add: c' push [unfolded env] op_pop_def Let_def env read_mem_bytes_def read_mem_noted_def sz(2) fit write_operand_reg dst(1))
  have nhi: "\<not> 16 \<le> o_reg (i_dst j)" using dst(2) by (simp only: not_le)
  have base: "base_reg (o_reg (i_dst j)) ?sz = o_reg (i_dst j)"
    by (simp add: base_reg_def nhi)
  note fr = write_reg_frame [OF wo sz(1), unfolded base]
  have mem2: "c_mem c2 = m2" by (subst fr(2)) (simp add: set_r64_def)
  have val: "reg_operand_value c2 (o_reg (i_dst j)) ?sz = v"
    using reg_operand_value_write [OF sz(1) _ _ wo] fits_direct_value [OF sz(1)] dst(2) v by blast
  show "reg c' RSP = reg c RSP" by (simp add: pop reg_def set_r64_def)
  show "reg c' q = reg c q" if "q \<noteq> o_reg (i_dst j)"
    using fr(1) [OF that] by (simp add: pop reg_def set_r64_def)
  show "reg_operand_value c' (o_reg (i_dst j)) ?sz = v"
    using val dst(3) nhi by (simp add: pop reg_operand_value_def reg_def set_r64_def)
  show "c' = c\<lparr>c_gpr := c_gpr c', c_mem := c_mem c'\<rparr>"
    using mem2 by (subst (1) pop, subst fr(2)) (simp add: pop set_r64_def)
  show "inv (c_mem c')"
    using m2(2) by (subst pop, subst fr(2)) (simp add: set_r64_def)
qed

lemma call_ret:
  assumes ok: "inv (c_mem c)" and call: "o_kind (i_dst i) = OK_Rel" 
    and w: "fst (wr (reg c RSP - 8) (le_bytes 8 (i_rip i + ucast (i_len i))) (c_mem c)) = St_Ok"
    and env: "env = mem_env \<lparr>prov_read = rd, prov_write = wr\<rparr> h"
    and c1: "c1 = op_call env i c"
  shows "c_rip c1 = rel_target i" and "reg c1 RSP = reg c RSP - 8" and "inv (c_mem c1)"
    and "c_rip (op_ret env j c1) = i_rip i + ucast (i_len i)"
    and "reg (op_ret env j c1) RSP = reg c RSP + (if o_kind (i_dst j) = OK_Imm then o_imm (i_dst j) AND 0xFFFF else 0)"
    and "q \<noteq> RSP \<Longrightarrow> reg (op_ret env j c1) q = reg c q" and "inv (c_mem (op_ret env j c1))"
proof -
  let ?p = "\<lparr>prov_read = rd, prov_write = wr\<rparr>" and ?a = "reg c RSP - 8" and ?v = "i_rip i + ucast (i_len i)"
  obtain m1 where m1: "call_write ?p ?a 8 ?v c = (St_Ok, c\<lparr>c_mem := m1\<rparr>)"
    using call_write_ok [of ?p ?a 8 ?v c] w by auto
  have "c1 = take_branch (rel_target i) (set_r64 RSP ?a (c\<lparr>c_mem := m1\<rparr>))"
    using m1 call by (simp add: c1 op_call_def env branch_target_from_operand_def rel_target_def)
  note c1 = this
  have mem: "c_mem c1 = m1" "reg c1 RSP = ?a" "q \<noteq> RSP \<Longrightarrow> reg c1 q = reg c q" for q
    by (simp_all add: c1 take_branch_def set_r64_def reg_def)
  then have eq: "c_mem c1 = c_mem (c\<lparr>c_mem := m1\<rparr>)" by simp
  obtain m2 where m2: "call_read ?p ?a 8 c1 = ((St_Ok, ?v AND mask_for 8), c1\<lparr>c_mem := m2\<rparr>)" "inv m2"
    by (rule call_write_read [OF ok m1 valid_size_consts(4) eq])
  have v8: "?v AND mask_for 8 = ?v" by (simp add: and_mask_for take_bit_word_eq_self)
  define n where "n = (if o_kind (i_dst j) = OK_Imm then o_imm (i_dst j) AND 0xFFFF else 0)"
  have ret: "op_ret env j c1 = take_branch ?v (set_r64 RSP (?a + 8 + n) (c1\<lparr>c_mem := m2\<rparr>))"
    using m2(1) mem(2) unfolding v8 by (simp add: op_ret_def env n_def Let_def)
  show "c_rip c1 = rel_target i" "reg c1 RSP = ?a" by (simp_all add: c1 take_branch_def set_r64_def reg_def)
  show "inv (c_mem c1)"
    using call_write_inv [OF ok m1] mem(1) by simp
  show "c_rip (op_ret env j c1) = ?v" "inv (c_mem (op_ret env j c1))"
    using m2(2) by (simp_all add: ret take_branch_def set_r64_def)
  show "reg (op_ret env j c1) RSP = reg c RSP + (if o_kind (i_dst j) = OK_Imm then o_imm (i_dst j) AND 0xFFFF else 0)"
    unfolding n_def [symmetric] by (simp add: ret take_branch_def set_r64_def reg_def)
  show "reg (op_ret env j c1) q = reg c q" if "q \<noteq> RSP"
    using mem(3) [OF that] that by (simp add: ret take_branch_def set_r64_def reg_def)
qed

end


section \<open>On the provider chain\<close>

abbreviation (input) chain_env :: "chain hook_manager option \<Rightarrow> chain env" where
  "chain_env \<equiv> mem_env chain_provider"

text \<open>PUSH followed by POP through the cache chain moves the pushed value into the destination
  register, restores RSP and every other register, and touches nothing but memory.\<close>

theorem push_pop_chain:
  assumes "chain_inv (c_mem c)" "valid_size (i_op_size i)" "i_op_size j = i_op_size i" "direct_operand (i_dst i)"
    and "o_kind (i_dst j) = OK_Reg" "o_reg (i_dst j) < 16" "o_reg (i_dst j) \<noteq> RSP"
    and "fst (chain_write (reg c RSP - ucast (i_op_size i))
           (le_bytes (unat (i_op_size i)) (direct_value c (i_dst i) (i_op_size i))) (c_mem c)) = St_Ok"
  shows "let c' = op_pop (chain_env h) j (op_push (chain_env h) i c) in
    reg_operand_value c' (o_reg (i_dst j)) (i_op_size i) = direct_value c (i_dst i) (i_op_size i) \<and>
    reg c' RSP = reg c RSP \<and> (\<forall>q. q \<noteq> o_reg (i_dst j) \<longrightarrow> reg c' q = reg c q) \<and>
    c' = c\<lparr>c_gpr := c_gpr c', c_mem := c_mem c'\<rparr> \<and> chain_inv (c_mem c')"
  unfolding Let_def
  using chain.push_pop [OF assms(1-4) refl assms(5-8) refl refl, unfolded prov_eta] by blast

theorem push_pop_chain_witness:
  "reg_operand_value (op_pop (chain_env None) (plain_insn 8 (reg_op 3) (imm_op 0))
     (op_push (chain_env None) (plain_insn 8 (imm_op 0x1122334455667788) (imm_op 0))
       (initial_cpu (new_chain sample_shadow)))) 3 8 = 0x1122334455667788"
  using push_pop_chain [of "initial_cpu (new_chain sample_shadow)" "plain_insn 8 (imm_op 0x1122334455667788) (imm_op 0)"
      "plain_insn 8 (reg_op 3) (imm_op 0)" None]
  by (simp add: Let_def initial_cpu_def new_chain_inv sample_shadow_inv sample_write direct_operand_def
      direct_value_def mask_for_def)

text \<open>C10: CALL to a relative target and the RET that follows through the cache chain: the callee is
  entered with RSP lowered by 8, and the return comes back behind the call with RSP restored (plus
  the immediate of RET) and every other register kept.\<close>

theorem call_ret_chain:
  assumes "chain_inv (c_mem c)" "o_kind (i_dst i) = OK_Rel"
    and "fst (chain_write (reg c RSP - 8) (le_bytes 8 (i_rip i + ucast (i_len i))) (c_mem c)) = St_Ok"
  shows "let c1 = op_call (chain_env h) i c; c2 = op_ret (chain_env h) j c1 in
    c_rip c1 = rel_target i \<and> reg c1 RSP = reg c RSP - 8 \<and>
    c_rip c2 = i_rip i + ucast (i_len i) \<and>
    reg c2 RSP = reg c RSP + (if o_kind (i_dst j) = OK_Imm then o_imm (i_dst j) AND 0xFFFF else 0) \<and>
    (\<forall>q. q \<noteq> RSP \<longrightarrow> reg c2 q = reg c q) \<and> chain_inv (c_mem c2)"
  unfolding Let_def
  using chain.call_ret [OF assms refl refl, unfolded prov_eta] by blast

definition rel_op :: "u64 \<Rightarrow> operand" where
  "rel_op d = zero_operand\<lparr>o_kind := OK_Rel, o_imm := d\<rparr>"

theorem call_ret_chain_witness:
  "c_rip (op_ret (chain_env None) (plain_insn 8 (imm_op 16) (imm_op 0))
     (op_call (chain_env None) (plain_insn 8 (rel_op 0x100) (imm_op 0)) (initial_cpu (new_chain sample_shadow)))) = 1"
  using call_ret_chain [of "initial_cpu (new_chain sample_shadow)" "plain_insn 8 (rel_op 0x100) (imm_op 0)" None
      "plain_insn 8 (imm_op 16) (imm_op 0)"]
  by (simp add: Let_def initial_cpu_def new_chain_inv sample_shadow_inv sample_write rel_op_def)

end
