(* ===== verification/Iat_Stubs.thy ===== *)
theory Iat_Stubs
  imports Chain_Handlers
begin

text \<open>
  The import stubs of \<^verbatim>\<open>emu/iat_stubs.h\<close> and \<^verbatim>\<open>src/emu/iat_stubs.cpp\<close>: every import of the guest gets an address
  in a reserved region; when RIP enters it, the function registered for the import runs and the
  return to the caller is carried out.  A stub function is a function on the CPU.
\<close>

section \<open>State\<close>

type_synonym 'm stub_fn = "'m cpu \<Rightarrow> string \<Rightarrow> string \<Rightarrow> 'm cpu"

record 'm iat_stubs =
  st_entries :: "(string \<times> string) list"
  st_stubs :: "string \<Rightarrow> 'm stub_fn option"
  st_default :: "'m stub_fn option"

definition new_iat_stubs :: "'m iat_stubs" where
  "new_iat_stubs = \<lparr>st_entries = [], st_stubs = (\<lambda>_. None), st_default = None\<rparr>"

abbreviation (input) kStubBase :: GuestAddr where "kStubBase \<equiv> 0x00007FFEF0000000"
abbreviation (input) kStubSize :: u64 where "kStubSize \<equiv> 0x10000"
abbreviation (input) kStubStride :: u64 where "kStubStride \<equiv> 8"

section \<open>Operations\<close>

text \<open>\<open>tolower\<close> in the C locale.\<close>

definition lower_char :: "char \<Rightarrow> char" where
  "lower_char c = (let n = of_char c :: nat in if 65 \<le> n \<and> n \<le> 90 then char_of (n + 32) else c)"

definition make_key :: "string \<Rightarrow> string \<Rightarrow> string" where
  "make_key dll name = map lower_char dll @ ''|'' @ name"

definition stub_install :: "shadow \<Rightarrow> shadow" where
  "stub_install m = add_private_region kStubBase kStubSize m"

definition stub_address :: "nat \<Rightarrow> GuestAddr" where
  "stub_address idx = kStubBase + of_nat idx * kStubStride"

text \<open>A full region gives the address 0; a failed patch of the table entry is only logged.\<close>

definition stub_bind ::
  "GuestAddr \<Rightarrow> string \<Rightarrow> string \<Rightarrow> 'm iat_stubs \<Rightarrow> shadow \<Rightarrow> GuestAddr \<times> 'm iat_stubs \<times> shadow" where
  "stub_bind iat_addr dll name tab m =
     (let idx = length (st_entries tab); stub_addr = stub_address idx
      in if stub_addr + kStubStride > kStubBase + kStubSize then (0, tab, m)
         else (stub_addr, tab\<lparr>st_entries := st_entries tab @ [(dll, name)]\<rparr>,
               snd (shadow_write iat_addr (le_bytes 8 stub_addr) m)))"

definition set_stub :: "string \<Rightarrow> string \<Rightarrow> 'm stub_fn \<Rightarrow> 'm iat_stubs \<Rightarrow> 'm iat_stubs" where
  "set_stub dll name fn tab = tab\<lparr>st_stubs := (st_stubs tab)(make_key dll name \<mapsto> fn)\<rparr>"

definition set_default_stub :: "'m stub_fn option \<Rightarrow> 'm iat_stubs \<Rightarrow> 'm iat_stubs" where
  "set_default_stub fn tab = tab\<lparr>st_default := fn\<rparr>"

definition stub_in_region :: "GuestAddr \<Rightarrow> bool" where
  "stub_in_region rip \<longleftrightarrow> kStubBase \<le> rip \<and> rip < kStubBase + kStubSize"

definition find_stub :: "'m iat_stubs \<Rightarrow> string \<Rightarrow> string \<Rightarrow> 'm stub_fn option" where
  "find_stub tab dll name =
     (case st_stubs tab (make_key dll name) of
        Some fn \<Rightarrow> Some fn
      | None \<Rightarrow> (case st_stubs tab (make_key '''' name) of Some fn \<Rightarrow> Some fn | None \<Rightarrow> st_default tab))"

text \<open>The return that follows the stub.\<close>

definition stub_return :: "'m env \<Rightarrow> 'm cpu \<Rightarrow> bool \<times> 'm cpu" where
  "stub_return env c =
     (case e_mem_read env of
        None \<Rightarrow> (False, set_fault FK_ProviderFailure (reg c RSP) St_ProviderFailure ''iat stub: no read provider'' c)
      | Some p \<Rightarrow>
          (let rsp = reg c RSP
           in case call_read p rsp 8 c of
                ((s, ret_addr), c) \<Rightarrow>
                  if fail s then (False, set_fault FK_PageFault rsp s ''iat stub: ret read'' c)
                  else (True, set_rip ret_addr (set_r64 RSP (rsp + 8) c))))"

definition stub_dispatch :: "'m iat_stubs \<Rightarrow> 'm env \<Rightarrow> GuestAddr \<Rightarrow> 'm cpu \<Rightarrow> bool \<times> 'm cpu" where
  "stub_dispatch tab env rip c =
     (if \<not> stub_in_region rip then (False, c)
      else
        (let idx = unat ((rip - kStubBase) div kStubStride)
         in if length (st_entries tab) \<le> idx
            then (False, set_fault FK_InvalidOpcode rip St_UnsupportedOpcode ''iat stub idx out of range'' c)
            else
              (case st_entries tab ! idx of
                 (dll, name) \<Rightarrow>
                   stub_return env (case find_stub tab dll name of
                                      Some fn \<Rightarrow> fn c dll name
                                    | None \<Rightarrow> set_r64 RAX 0 c))))"

section \<open>Binding and dispatch\<close>

definition stubs_wf :: "'m iat_stubs \<Rightarrow> bool" where
  "stubs_wf tab \<longleftrightarrow> length (st_entries tab) \<le> 8192"

lemma stub_addr_fits:
  assumes "k \<le> 8192"
  shows "stub_address k + kStubStride > kStubBase + kStubSize \<longleftrightarrow> k = 8192"
    and "unat (stub_address k) = unat kStubBase + 8 * k"
    and "k < 8192 \<Longrightarrow> stub_in_region (stub_address k)"
    and "unat ((stub_address k - kStubBase) div kStubStride) = k"
proof -
  have m: "unat (of_nat k * kStubStride) = 8 * k" using assms by (simp add: unat_word_ariths unat_of_nat)
  then show u: "unat (stub_address k) = unat kStubBase + 8 * k"
    unfolding stub_address_def using assms by (subst unat_word_ariths(1)) simp
  then have "unat (stub_address k + kStubStride) = unat kStubBase + 8 * k + 8"
    using assms by (subst unat_word_ariths(1)) simp
  then show "stub_address k + kStubStride > kStubBase + kStubSize \<longleftrightarrow> k = 8192"
    using assms unfolding word_less_nat_alt by simp linarith
  show "stub_in_region (stub_address k)" if "k < 8192"
    using u that unfolding stub_in_region_def by (simp add: word_less_nat_alt word_le_nat_alt)
  show "unat ((stub_address k - kStubBase) div kStubStride) = k"
    using m by (simp add: unat_div stub_address_def)
qed

lemma stub_bind_cases:
  assumes "stubs_wf tab" "stub_bind iat dll name tab m = (a, tab', m')"
  obtains (full) "length (st_entries tab) = 8192" "a = 0" "tab' = tab" "m' = m"
    | (bound) "length (st_entries tab) < 8192" "a = stub_address (length (st_entries tab))"
      "tab' = tab\<lparr>st_entries := st_entries tab @ [(dll, name)]\<rparr>" "stubs_wf tab'"
      "m' = snd (shadow_write iat (le_bytes 8 a) m)"
proof (cases "length (st_entries tab) = 8192")
  case True
  then show ?thesis using assms(2) stub_addr_fits(1) [of 8192] full by (simp add: stub_bind_def Let_def)
next
  case False
  have n: "length (st_entries tab) \<le> 8192" using assms(1) by (simp add: stubs_wf_def)
  show ?thesis
    using assms(2) stub_addr_fits(1) [OF n] False n by (intro bound) (auto simp: stub_bind_def Let_def stubs_wf_def)
qed


section \<open>Calling an import\<close>

text \<open>Further imports leave the earlier entries and the registered functions alone.\<close>

fun bind_all :: "(GuestAddr \<times> string \<times> string) list \<Rightarrow> 'm iat_stubs \<Rightarrow> shadow \<Rightarrow> 'm iat_stubs \<times> shadow" where
  "bind_all [] tab m = (tab, m)"
| "bind_all ((iat, dll, name) # bs) tab m =
     (case stub_bind iat dll name tab m of (a, tab, m) \<Rightarrow> bind_all bs tab m)"

lemma bind_all_entries:
  assumes "stubs_wf tab" "bind_all bs tab m = (tab', m')"
  shows "stubs_wf tab' \<and> (\<exists>es. st_entries tab' = st_entries tab @ es) \<and> st_stubs tab' = st_stubs tab \<and> st_default tab' = st_default tab"
  using assms
proof (induction bs arbitrary: tab m)
  case (Cons b bs)
  obtain iat dll name where b: "b = (iat, dll, name)" by (metis prod_cases3)
  obtain a t1 m1 where s: "stub_bind iat dll name tab m = (a, t1, m1)" by (metis prod_cases3)
  then have rest: "bind_all bs t1 m1 = (tab', m')" using Cons.prems(2) by (simp add: b)
  from Cons.prems(1) s show ?case
  proof (cases rule: stub_bind_cases)
    case full
    then show ?thesis using Cons.IH [OF _ rest] Cons.prems(1) by simp
  next
    case bound
    then show ?thesis using Cons.IH [OF bound(4) rest] by auto
  qed
qed simp

lemma dispatch_bound:
  assumes "stubs_wf tab" "stub_bind iat dll name tab m = (a, t1, m1)" "a \<noteq> 0"
    and "map lower_char d = map lower_char dll"
    and "bind_all bs (set_stub d name fn t1) m1 = (t2, m2)"
  shows "stub_in_region a" "stub_dispatch t2 env a c = stub_return env (fn c dll name)"
proof -
  from assms(1,2) have "stub_in_region a \<and> stub_dispatch t2 env a c = stub_return env (fn c dll name)"
  proof (cases rule: stub_bind_cases)
    case full
    then show ?thesis using assms(3) by simp
  next
    case bound
    have wf: "stubs_wf (set_stub d name fn t1)" using bound(4) by (simp add: stubs_wf_def set_stub_def)
    from bind_all_entries [OF wf assms(5)] obtain es where
      t2: "st_entries t2 = st_entries tab @ (dll, name) # es" "st_stubs t2 = (st_stubs tab)(make_key d name \<mapsto> fn)"
      using bound(3) by (auto simp: set_stub_def)
    have n: "length (st_entries tab) \<le> 8192" using assms(1) by (simp add: stubs_wf_def)
    have key: "make_key dll name = make_key d name" using assms(4) by (simp add: make_key_def)
    have idx: "unat ((a - kStubBase) div kStubStride) = length (st_entries tab)"
      using stub_addr_fits(4) [OF n] bound(2) by simp
    have "find_stub t2 dll name = Some fn" by (simp add: find_stub_def t2(2) key)
    moreover have "stub_in_region a" using stub_addr_fits(3) [OF n bound(1)] bound(2) by simp
    ultimately show ?thesis unfolding stub_dispatch_def Let_def idx by (simp add: t2(1))
  qed
  then show "stub_in_region a" "stub_dispatch t2 env a c = stub_return env (fn c dll name)" by blast+
qed

context paged_memory
begin

lemma stub_round:
  assumes ok: "inv (c_mem c)" and call: "o_kind (i_dst i) = OK_Rel"
    and w: "fst (wr (reg c RSP - 8) (le_bytes 8 (i_rip i + ucast (i_len i))) (c_mem c)) = St_Ok"
    and env: "env = mem_env \<lparr>prov_read = rd, prov_write = wr\<rparr> h"
    and c1: "c1 = op_call env i c" and d: "reg d RSP = reg c1 RSP" "c_mem d = c_mem c1"
    and ret: "stub_return env d = (ok, c2)"
  shows "c_rip c1 = rel_target i" and "ok" and "c_rip c2 = i_rip i + ucast (i_len i)"
    and "reg c2 RSP = reg c RSP" and "q \<noteq> RSP \<Longrightarrow> reg c2 q = reg d q" and "inv (c_mem c2)"
proof -
  let ?p = "\<lparr>prov_read = rd, prov_write = wr\<rparr>" and ?a = "reg c RSP - 8" and ?v = "i_rip i + ucast (i_len i)"
  obtain m1 where m1: "call_write ?p ?a 8 ?v c = (St_Ok, c\<lparr>c_mem := m1\<rparr>)"
    using call_write_ok [of ?p ?a 8 ?v c] w by auto
  have c1: "c1 = take_branch (rel_target i) (set_r64 RSP ?a (c\<lparr>c_mem := m1\<rparr>))"
    using m1 call by (simp add: c1 op_call_def env branch_target_from_operand_def rel_target_def)
  then have eq: "c_mem d = c_mem (c\<lparr>c_mem := m1\<rparr>)" "reg d RSP = ?a"
    using d by (simp_all add: take_branch_def set_r64_def reg_def)
  obtain m2 where m2: "call_read ?p ?a 8 d = ((St_Ok, ?v AND mask_for 8), d\<lparr>c_mem := m2\<rparr>)" "inv m2"
    by (rule call_write_read [OF ok m1 valid_size_consts(4) eq(1)])
  have v8: "?v AND mask_for 8 = ?v" by (simp add: and_mask_for take_bit_word_eq_self)
  have r: "ok" "c2 = set_rip ?v (set_r64 RSP (?a + 8) (d\<lparr>c_mem := m2\<rparr>))"
    using ret m2(1) eq(2) unfolding v8 by (simp_all add: stub_return_def env Let_def)
  show "c_rip c1 = rel_target i" by (simp add: c1 take_branch_def)
  show ok by (rule r(1))
  show "c_rip c2 = ?v" "reg c2 RSP = reg c RSP" "q \<noteq> RSP \<Longrightarrow> reg c2 q = reg d q" "inv (c_mem c2)"
    using m2(2) by (simp_all add: r(2) set_rip_def set_r64_def reg_def)
qed

end


definition answer_stub :: "'m stub_fn" where
  "answer_stub c dll name = set_r64 RAX 42 c"


end
