(* ===== verification/Block_Cache.thy ===== *)
theory Block_Cache
  imports Peephole Iat_Stubs
begin

text \<open>
  The block cache of \<^verbatim>\<open>emu/block_cache.h\<close> and \<^verbatim>\<open>src/emu/cache/block_cache.cpp\<close>, and the branch target cache of
  \<^verbatim>\<open>emu/branch_target_cache.h\<close>.  \<open>decode_one\<close> is the argument \<open>dec\<close> of the functions that use it.
\<close>

section \<open>The block cache\<close>

record block_cache =
  bc_blocks :: "GuestAddr \<Rightarrow> decoded_block option"
  bc_hits :: u64
  bc_misses :: u64
  bc_semantic_hits :: u64

definition new_block_cache :: block_cache where
  "new_block_cache = \<lparr>bc_blocks = (\<lambda>_. None), bc_hits = 0, bc_misses = 0, bc_semantic_hits = 0\<rparr>"

definition block_lookup :: "GuestAddr \<Rightarrow> block_cache \<Rightarrow> decoded_block option \<times> block_cache" where
  "block_lookup pc bc =
     (case bc_blocks bc pc of
        None \<Rightarrow> (None, bc\<lparr>bc_misses := bc_misses bc + 1\<rparr>)
      | Some b \<Rightarrow> (Some b, bc\<lparr>bc_hits := bc_hits bc + 1\<rparr>))"

definition block_insert :: "GuestAddr \<Rightarrow> decoded_block \<Rightarrow> block_cache \<Rightarrow> block_cache" where
  "block_insert pc b bc = bc\<lparr>bc_blocks := (bc_blocks bc)(pc \<mapsto> b)\<rparr>"

text \<open>\<open>blk_pc < end && blk_end > addr\<close>, with sums modulo \<open>2 ^ 64\<close>.\<close>

definition block_overlaps :: "GuestAddr \<Rightarrow> u64 \<Rightarrow> GuestAddr \<Rightarrow> decoded_block \<Rightarrow> bool" where
  "block_overlaps addr len pc b \<longleftrightarrow> pc < addr + len \<and> addr < pc + ucast (b_byte_size b)"

definition invalidate_range :: "GuestAddr \<Rightarrow> u64 \<Rightarrow> block_cache \<Rightarrow> block_cache" where
  "invalidate_range addr len bc =
     (if len = 0 then bc
      else bc\<lparr>bc_blocks := (\<lambda>pc. case bc_blocks bc pc of
             None \<Rightarrow> None
           | Some b \<Rightarrow> if block_overlaps addr len pc b then None else Some b)\<rparr>)"

definition block_clear :: "block_cache \<Rightarrow> block_cache" where
  "block_clear bc = new_block_cache"

definition reset_block_stats :: "block_cache \<Rightarrow> block_cache" where
  "reset_block_stats bc = bc\<lparr>bc_hits := 0, bc_misses := 0, bc_semantic_hits := 0\<rparr>"

definition count_semantic_hit :: "block_cache \<Rightarrow> block_cache" where
  "count_semantic_hit bc = bc\<lparr>bc_semantic_hits := bc_semantic_hits bc + 1\<rparr>"

section \<open>The structural hash\<close>

definition fnv_mix :: "u64 \<Rightarrow> u64 \<Rightarrow> u64" where
  "fnv_mix v h = (h XOR v) * 0x100000001B3"

definition shape_of :: "operand \<Rightarrow> u64" where
  "shape_of op = ucast (o_scale op) OR (if o_imm op \<noteq> 0 then push_bit 32 1 else 0)"

definition is_mem_operand :: "operand \<Rightarrow> bool" where
  "is_mem_operand op \<longleftrightarrow> o_kind op = OK_Mem \<or> o_kind op = OK_RipRelMem"

definition hash_insn :: "insn \<Rightarrow> u64 \<Rightarrow> u64" where
  "hash_insn i h =
     (let h = fnv_mix (ucast (i_kind i)) h;
          h = fnv_mix (ucast (i_op_size i)) h;
          h = fnv_mix (operand_kind_value (o_kind (i_dst i))) h;
          h = fnv_mix (operand_kind_value (o_kind (i_src i))) h;
          h = (if is_mem_operand (i_dst i) then fnv_mix (shape_of (i_dst i)) h else h)
      in if is_mem_operand (i_src i) then fnv_mix (shape_of (i_src i)) h else h)"

definition semantic_block_hash :: "decoded_block \<Rightarrow> u64" where
  "semantic_block_hash b = fold hash_insn (b_insns b) 0xCBF29CE484222325"

section \<open>Decoding a block\<close>

type_synonym 'm decoder = "'m provider \<Rightarrow> GuestAddr \<Rightarrow> 'm \<Rightarrow> Status \<times> insn \<times> 'm"

text \<open>The loop, with \<open>n\<close> turns left; \<open>b\<close> is the block so far.\<close>

fun decode_loop :: "'m decoder \<Rightarrow> 'm provider \<Rightarrow> nat \<Rightarrow> GuestAddr \<Rightarrow> decoded_block \<Rightarrow> 'm \<Rightarrow> Status \<times> decoded_block \<times> 'm" where
  "decode_loop dec p 0 cur b m = (St_Ok, b, m)"
| "decode_loop dec p (Suc n) cur b m =
     (case dec p cur m of
        (s, i, m) \<Rightarrow>
          if fail s then (if b_insns b = [] then (s, b, m) else (St_Ok, b, m))
          else
            (let b = b\<lparr>b_insns := b_insns b @ [i], b_byte_size := b_byte_size b + ucast (i_len i)\<rparr>
             in if i_flags i AND INSN_FLAG_CONTROL_FLOW \<noteq> 0 then (St_Ok, b, m)
                else decode_loop dec p n (cur + ucast (i_len i)) b m))"

definition decode_block ::
  "'m decoder \<Rightarrow> 'm provider \<Rightarrow> GuestAddr \<Rightarrow> nat \<Rightarrow> u64 \<Rightarrow> 'm \<Rightarrow> Status \<times> decoded_block \<times> u64 \<times> 'm" where
  "decode_block dec p pc max_insns folded m =
     (case decode_loop dec p max_insns pc \<lparr>b_pc = pc, b_byte_size = 0, b_insns = []\<rparr> m of
        (s, b, m) \<Rightarrow>
          if fail s then (s, b, folded, m)
          else (case peephole_block b folded of (b, folded) \<Rightarrow> (St_Ok, b, folded, m)))"

section \<open>The branch target cache\<close>

record btc =
  bt_entries :: "(GuestAddr \<times> GuestAddr) list"
  bt_hits :: u64
  bt_misses :: u64

definition new_btc :: btc where
  "new_btc = \<lparr>bt_entries = replicate 256 (0, 0), bt_hits = 0, bt_misses = 0\<rparr>"

definition btc_index :: "GuestAddr \<Rightarrow> nat" where
  "btc_index pc = unat (drop_bit 2 pc AND 255)"

definition btc_predict :: "GuestAddr \<Rightarrow> btc \<Rightarrow> GuestAddr" where
  "btc_predict pc t = (case bt_entries t ! btc_index pc of (b, tgt) \<Rightarrow> if b = pc then tgt else 0)"

definition btc_record :: "GuestAddr \<Rightarrow> GuestAddr \<Rightarrow> btc \<Rightarrow> btc" where
  "btc_record pc tgt t = t\<lparr>bt_entries := (bt_entries t)[btc_index pc := (pc, tgt)]\<rparr>"

definition btc_clear :: "btc \<Rightarrow> btc" where
  "btc_clear t = new_btc"

definition btc_count_hit :: "btc \<Rightarrow> btc" where
  "btc_count_hit t = t\<lparr>bt_hits := bt_hits t + 1\<rparr>"

definition btc_count_miss :: "btc \<Rightarrow> btc" where
  "btc_count_miss t = t\<lparr>bt_misses := bt_misses t + 1\<rparr>"

section \<open>Facts\<close>

lemma btc_index_less: "btc_index pc < 256"
proof -
  have "drop_bit 2 pc AND 255 = take_bit 8 (drop_bit 2 pc)" by (simp add: take_bit_eq_mask mask_eq_exp_minus_1)
  then show ?thesis using take_bit_nat_less_exp [of 8 "unat (drop_bit 2 pc)"]
    by (simp add: btc_index_def unsigned_take_bit_eq)
qed

text \<open>A decoded block is not empty, starts at its address and its instructions fill it.\<close>

fun contiguous :: "GuestAddr \<Rightarrow> insn list \<Rightarrow> bool" where
  "contiguous a [] \<longleftrightarrow> True"
| "contiguous a (i # is) \<longleftrightarrow> i_rip i = a \<and> contiguous (a + ucast (i_len i)) is"

definition total_len :: "insn list \<Rightarrow> nat" where
  "total_len is = sum_list (map (\<lambda>i. unat (i_len i)) is)"

lemma contiguous_append: "contiguous a (is @ js) \<longleftrightarrow> contiguous a is \<and> contiguous (a + of_nat (total_len is)) js"
  by (induction "is" arbitrary: a) (simp_all add: total_len_def add.assoc)

lemma contiguous_cong: "map i_rip is = map i_rip js \<Longrightarrow> map i_len is = map i_len js \<Longrightarrow> contiguous a is = contiguous a js"
proof (induction "is" arbitrary: js a)
  case (Cons i "is")
  then obtain j ks where "js = j # ks" by (cases js) simp_all
  then show ?case using Cons by simp
qed simp

definition straight :: "insn list \<Rightarrow> bool" where
  "straight is \<longleftrightarrow> (\<forall>i \<in> set is. i_flags i AND INSN_FLAG_CONTROL_FLOW = 0)"

lemma straight_butlast: "straight is \<Longrightarrow> straight (butlast is)"
  by (auto simp: straight_def dest: in_set_butlastD)

text \<open>What is used of \<open>decode_one\<close>: it stores the address in the instruction.\<close>

definition dec_places :: "'m decoder \<Rightarrow> bool" where
  "dec_places dec \<longleftrightarrow> (\<forall>p rip m s i m'. dec p rip m = (s, i, m') \<longrightarrow> s = St_Ok \<longrightarrow> i_rip i = rip)"

lemma decode_loop_grows:
  assumes "b_insns b \<noteq> []" "decode_loop dec p n cur b m = (s, b', m')"
  shows "s = St_Ok \<and> b_insns b' \<noteq> []"
  using assms
proof (induction n arbitrary: cur b m)
  case (Suc n)
  obtain t i m1 where d: "dec p cur m = (t, i, m1)" by (metis prod_cases3)
  show ?case
  proof (cases "t = St_Ok \<and> i_flags i AND INSN_FLAG_CONTROL_FLOW = 0")
    case True
    then have "decode_loop dec p n (cur + ucast (i_len i))
        (b\<lparr>b_insns := b_insns b @ [i], b_byte_size := b_byte_size b + ucast (i_len i)\<rparr>) m1 = (s, b', m')"
      using Suc.prems d by (simp add: Let_def)
    from Suc.IH [OF _ this] show ?thesis by simp
  next
    case False
    then show ?thesis using Suc.prems d by (auto simp: Let_def split: if_splits)
  qed
qed simp

lemma decode_loop_shape:
  assumes "dec_places dec" "decode_loop dec p n cur b m = (s, b', m')"
    and "contiguous (b_pc b) (b_insns b)" "cur = b_pc b + of_nat (total_len (b_insns b))"
    and "b_byte_size b = of_nat (total_len (b_insns b))" "straight (b_insns b)"
  shows "b_pc b' = b_pc b \<and> contiguous (b_pc b) (b_insns b') \<and> b_byte_size b' = of_nat (total_len (b_insns b')) \<and>
    length (b_insns b') \<le> length (b_insns b) + n \<and> (0 < n \<longrightarrow> s = St_Ok \<longrightarrow> b_insns b' \<noteq> []) \<and> straight (butlast (b_insns b'))"
  using assms
proof (induction n arbitrary: cur b m)
  case (Suc n)
  obtain t i m1 where d: "dec p cur m = (t, i, m1)" by (metis prod_cases3)
  show ?case
  proof (cases "t = St_Ok")
    case False
    then have "b' = b" "b_insns b = [] \<longrightarrow> s = t" using Suc.prems(2) d by (auto split: if_splits)
    then show ?thesis using Suc.prems(3-6) False straight_butlast by auto
  next
    case True
    then have rip: "i_rip i = cur" using d Suc.prems(1) unfolding dec_places_def by blast
    define b1 where "b1 = b\<lparr>b_insns := b_insns b @ [i], b_byte_size := b_byte_size b + ucast (i_len i)\<rparr>"
    have tl: "total_len (b_insns b1) = total_len (b_insns b) + unat (i_len i)" by (simp add: b1_def total_len_def)
    have b1: "b_pc b1 = b_pc b" "contiguous (b_pc b1) (b_insns b1)" "b_byte_size b1 = of_nat (total_len (b_insns b1))"
      "cur + ucast (i_len i) = b_pc b1 + of_nat (total_len (b_insns b1))"
      using Suc.prems(3-5) rip by (simp_all add: tl) (simp_all add: b1_def contiguous_append)
    show ?thesis
    proof (cases "i_flags i AND INSN_FLAG_CONTROL_FLOW \<noteq> 0")
      case True
      then have "s = St_Ok" "b' = b1" using Suc.prems(2) d \<open>t = St_Ok\<close> by (simp_all add: b1_def Let_def)
      then show ?thesis using b1(1-3) Suc.prems(6) by (simp add: b1_def)
    next
      case False
      then have r: "decode_loop dec p n (cur + ucast (i_len i)) b1 m1 = (s, b', m')"
        using Suc.prems(2) d \<open>t = St_Ok\<close> by (simp add: b1_def Let_def)
      have ih: "b_pc b' = b_pc b1 \<and> contiguous (b_pc b1) (b_insns b') \<and> b_byte_size b' = of_nat (total_len (b_insns b')) \<and>
          length (b_insns b') \<le> length (b_insns b1) + n \<and> (0 < n \<longrightarrow> s = St_Ok \<longrightarrow> b_insns b' \<noteq> []) \<and> straight (butlast (b_insns b'))"
        by (rule Suc.IH [OF Suc.prems(1) r b1(2,4,3)]) (use Suc.prems(6) False in \<open>auto simp: b1_def straight_def\<close>)
      have "b_insns b1 \<noteq> []" by (simp add: b1_def)
      then have "b_insns b' \<noteq> []" using decode_loop_grows [OF _ r] by blast
      then show ?thesis using ih b1(1) by (simp add: b1_def)
    qed
  qed
qed (auto intro: straight_butlast)


text \<open>The peephole pass keeps the flags, too.\<close>

lemma fold_selfs_flags: "map i_flags (fst (fold_selfs is n)) = map i_flags is"
  unfolding fold_selfs_map by (simp add: make_nop_def)

lemma fold_opaque_jcc_flags: "map i_flags (fst (fold_opaque_jcc is n)) = map i_flags is"
  by (induction "is" n rule: fold_opaque_jcc.induct) (auto simp: make_jmp_def split: prod.splits)

lemma peephole_flags: "peephole_block b n = (b', n') \<Longrightarrow> map i_flags (b_insns b') = map i_flags (b_insns b)"
  using fold_selfs_flags [of "b_insns b" n] fold_opaque_jcc_flags
  by (auto simp: peephole_block_def split: prod.splits) (metis fst_conv)

lemma straight_cong: "map i_flags is = map i_flags js \<Longrightarrow> straight (butlast is) = straight (butlast js)"
proof -
  assume "map i_flags is = map i_flags js"
  then have "map i_flags (butlast is) = map i_flags (butlast js)" by (simp only: map_butlast)
  then have same: "i_flags ` set (butlast is) = i_flags ` set (butlast js)" by (metis set_map)
  have str: "straight xs \<longleftrightarrow> (\<forall>f \<in> i_flags ` set xs. f AND 1 = 0)" for xs by (simp add: straight_def)
  show ?thesis by (simp only: str same)
qed

text \<open>C29: A block that \<open>decode_block\<close> returns is never empty, holds at most the requested number of
  instructions, starts at its address, its instructions follow one another without gaps over exactly
  its byte size, and only its last instruction can be a control-flow instruction.  The peephole pass
  keeps all of it.\<close>

lemma decode_block_shape:
  assumes "dec_places dec" "0 < n" "decode_block dec p pc n k m = (St_Ok, b, k', m')"
  shows "b_pc b = pc \<and> b_insns b \<noteq> [] \<and> length (b_insns b) \<le> n \<and> contiguous pc (b_insns b) \<and>
    b_byte_size b = of_nat (total_len (b_insns b)) \<and> straight (butlast (b_insns b))"
proof -
  let ?b0 = "\<lparr>b_pc = pc, b_byte_size = 0, b_insns = []\<rparr>"
  obtain s c m1 where l: "decode_loop dec p n pc ?b0 m = (s, c, m1)" by (metis prod_cases3)
  then have s: "s = St_Ok" and ph: "peephole_block c k = (b, k')"
    using assms(3) by (auto simp: decode_block_def split: if_splits prod.splits)
  have c: "b_pc c = b_pc ?b0 \<and> contiguous (b_pc ?b0) (b_insns c) \<and> b_byte_size c = of_nat (total_len (b_insns c)) \<and>
      length (b_insns c) \<le> length (b_insns ?b0) + n \<and> (0 < n \<longrightarrow> s = St_Ok \<longrightarrow> b_insns c \<noteq> []) \<and> straight (butlast (b_insns c))"
    by (rule decode_loop_shape [OF assms(1) l]) (simp_all add: total_len_def straight_def)
  note p = peephole_shape [OF ph]
  have "total_len (b_insns b) = total_len (b_insns c)"
    using arg_cong [OF p(3), of "\<lambda>xs. sum_list (map unat xs)"] by (simp add: total_len_def comp_def)
  moreover have "b_insns b \<noteq> [] \<longleftrightarrow> b_insns c \<noteq> []" using p(1) by (metis length_0_conv)
  ultimately show ?thesis
    using c p s assms(2) contiguous_cong [OF p(2,3), of pc] straight_cong [OF peephole_flags [OF ph]] by simp
qed


section \<open>Tables that forget\<close>

text \<open>Both caches are tables that may lose entries but never invent one.\<close>

locale forgetful_table =
  fixes get :: "'k \<Rightarrow> 's \<Rightarrow> 'v option" and put :: "'k \<Rightarrow> 'v \<Rightarrow> 's \<Rightarrow> 's" and ok :: "'s \<Rightarrow> bool"
  assumes put_ok: "ok t \<Longrightarrow> ok (put k v t)"
    and get_put: "ok t \<Longrightarrow> get k (put k v t) = Some v"
    and get_other: "ok t \<Longrightarrow> j \<noteq> k \<Longrightarrow> get j (put k v t) = Some x \<Longrightarrow> get j t = Some x"
begin

lemma puts_ok: "ok t \<Longrightarrow> ok (fold (\<lambda>(k, v). put k v) kvs t)"
  by (induction kvs arbitrary: t) (auto intro: put_ok)

lemma get_puts:
  "ok t \<Longrightarrow> get j (fold (\<lambda>(k, v). put k v) kvs t) = Some x \<Longrightarrow>
   map_of (rev kvs) j = Some x \<or> j \<notin> fst ` set kvs \<and> get j t = Some x"
proof (induction kvs arbitrary: x rule: rev_induct)
  case (snoc kv kvs)
  obtain k v where kv: "kv = (k, v)" by fastforce
  note ok = puts_ok [OF snoc.prems(1), of kvs]
  show ?case
  proof (cases "j = k")
    case True
    then show ?thesis using snoc.prems(2) get_put [OF ok] by (simp add: kv)
  next
    case False
    then have "get j (fold (\<lambda>(k, v). put k v) kvs t) = Some x"
      using snoc.prems(2) get_other [OF ok] by (simp add: kv)
    from snoc.IH [OF snoc.prems(1) this] show ?thesis using False by (simp add: kv)
  qed
qed simp

end

definition block_get :: "GuestAddr \<Rightarrow> block_cache \<Rightarrow> decoded_block option" where
  "block_get pc bc = fst (block_lookup pc bc)"

lemma block_get_blocks: "block_get pc bc = bc_blocks bc pc"
  by (simp add: block_get_def block_lookup_def split: option.split)

interpretation blocks: forgetful_table block_get block_insert "\<lambda>_. True"
  by unfold_locales (simp_all add: block_get_blocks block_insert_def)

definition btc_get :: "GuestAddr \<Rightarrow> btc \<Rightarrow> GuestAddr option" where
  "btc_get pc t = (if fst (bt_entries t ! btc_index pc) = pc then Some (btc_predict pc t) else None)"

interpretation btc: forgetful_table btc_get btc_record "\<lambda>t. length (bt_entries t) = 256"
proof
  fix t :: btc and j k v x :: GuestAddr
  assume len: "length (bt_entries t) = 256"
  show "length (bt_entries (btc_record k v t)) = 256" using len by (simp add: btc_record_def)
  show "btc_get k (btc_record k v t) = Some v"
    using len btc_index_less [of k] by (simp add: btc_get_def btc_predict_def btc_record_def)
  assume "j \<noteq> k" "btc_get j (btc_record k v t) = Some x"
  then show "btc_get j t = Some x"
    using len btc_index_less [of j] btc_index_less [of k]
    by (auto simp: btc_get_def btc_predict_def btc_record_def nth_list_update split: if_splits prod.splits)
qed

text \<open>The branch target cache predicts no branch target that was not observed: after any sequence of
  recorded branches, a prediction for a branch is 0 or the target recorded last for this branch, and
  right after recording a branch its target is predicted.\<close>

theorem btc_predicts_last:
  "(let t = fold (\<lambda>(pc, tgt). btc_record pc tgt) rs new_btc
    in btc_predict pc t = 0 \<or> map_of (rev rs) pc = Some (btc_predict pc t)) \<and>
   btc_predict pc (btc_record pc tgt (fold (\<lambda>(pc, tgt). btc_record pc tgt) rs new_btc)) = tgt"
proof -
  define t where "t = fold (\<lambda>(pc, tgt). btc_record pc tgt) rs new_btc"
  have new: "length (bt_entries new_btc) = 256" by (simp add: new_btc_def)
  have get: "btc_get pc u = Some (btc_predict pc u) \<or> btc_predict pc u = 0" for u
    by (cases "bt_entries u ! btc_index pc") (simp add: btc_get_def btc_predict_def)
  have "btc_predict pc new_btc = 0" using btc_index_less [of pc] by (simp add: new_btc_def btc_predict_def)
  then have "btc_get pc new_btc = Some x \<Longrightarrow> x = 0" for x by (auto simp: btc_get_def split: if_splits)
  then have "btc_predict pc t = 0 \<or> map_of (rev rs) pc = Some (btc_predict pc t)"
    using get [of t] btc.get_puts [OF new, of pc rs "btc_predict pc t"] unfolding t_def by blast
  moreover have "btc_predict pc (btc_record pc tgt t) = tgt"
    using btc.get_put [OF btc.puts_ok [OF new, of rs], of pc tgt] unfolding t_def
    by (simp add: btc_get_def split: if_splits)
  ultimately show ?thesis unfolding t_def by simp
qed

section \<open>Invalidation\<close>

text \<open>Invalidation is exact: after \<open>invalidate_range\<close> no cached block shares a byte with the written range
  and every block that shares none is still cached, as long as neither the range nor the block
  wraps around the address space.\<close>

theorem invalidate_range_exact:
  assumes "0 < unat len" "unat addr + unat len < 2 ^ 64"
    and "bc_blocks bc pc = Some b" "unat pc + unat (b_byte_size b) < 2 ^ 64" "b_byte_size b \<noteq> 0"
  shows "bc_blocks (invalidate_range addr len bc) pc =
    (if {unat pc..<unat pc + unat (b_byte_size b)} \<inter> {unat addr..<unat addr + unat len} = {} then Some b else None)"
proof -
  have a: "unat (addr + len) = unat addr + unat len" using assms(2) by (simp add: unat_word_ariths)
  have u: "unat (ucast (b_byte_size b) :: u64) = unat (b_byte_size b)" by (simp only: unat_eq_nat_uint) (simp add: uint_up_ucast is_up)
  have p: "unat (pc + ucast (b_byte_size b)) = unat pc + unat (b_byte_size b)"
    using assms(4) by (simp add: unat_word_ariths u)
  have "0 < unat (b_byte_size b)" using assms(5) by (simp add: unat_gt_0)
  then have "block_overlaps addr len pc b \<longleftrightarrow>
      {unat pc..<unat pc + unat (b_byte_size b)} \<inter> {unat addr..<unat addr + unat len} \<noteq> {}"
    using assms(1) unfolding block_overlaps_def word_less_nat_alt a p by auto
  moreover have "len \<noteq> 0" using assms(1) by auto
  ultimately show ?thesis using assms(3) by (simp add: invalidate_range_def)
qed

theorem invalidate_range_exact_witness:
  "bc_blocks (invalidate_range 0x1003 1 (block_insert 0x1000 \<lparr>b_pc = 0x1000, b_byte_size = 4, b_insns = []\<rparr> new_block_cache)) 0x1000 = None"
  using invalidate_range_exact [of 1 "0x1003" "block_insert 0x1000 \<lparr>b_pc = 0x1000, b_byte_size = 4, b_insns = []\<rparr> new_block_cache"
      "0x1000" "\<lparr>b_pc = 0x1000, b_byte_size = 4, b_insns = []\<rparr>"]
  by (simp add: block_insert_def)

end
