(* ===== verification/String_Ops.thy ===== *)
theory String_Ops
  imports Data_Mov
begin

text \<open>
  The string handlers of \<^verbatim>\<open>src/emu/handlers/string_ops.cpp\<close>: one step per instruction, and the driver that
  repeats it under a REP prefix.  A step returns \<open>None\<close> where the lambda of the source returns
  false, and otherwise the value it leaves in \<open>zf_after\<close>, which is false unless the step sets it.
\<close>

section \<open>Steps\<close>

text \<open>The signed step, as the 64-bit pattern that is added to the pointers.\<close>

definition dir_step :: "'m cpu \<Rightarrow> u8 \<Rightarrow> u64" where
  "dir_step c sz = (if get_df c then - ucast sz else ucast sz)"

definition movs_step :: "'m env \<Rightarrow> insn \<Rightarrow> 'm cpu \<Rightarrow> bool option \<times> 'm cpu" where
  "movs_step env i c =
     (let rsi = reg c RSI; rdi = reg c RDI
      in case read_bytes env rsi (i_op_size i) c of
           (None, c) \<Rightarrow> (None, c)
         | (Some v, c) \<Rightarrow>
             (case write_bytes env rdi (i_op_size i) v c of
                (False, c) \<Rightarrow> (None, c)
              | (True, c) \<Rightarrow>
                  (let step = dir_step c (i_op_size i)
                   in (Some False, set_r64 RDI (rdi + step) (set_r64 RSI (rsi + step) c)))))"

definition stos_step :: "'m env \<Rightarrow> insn \<Rightarrow> 'm cpu \<Rightarrow> bool option \<times> 'm cpu" where
  "stos_step env i c =
     (let rdi = reg c RDI; v = reg c RAX AND mask_for (i_op_size i)
      in case write_bytes env rdi (i_op_size i) v c of
           (False, c) \<Rightarrow> (None, c)
         | (True, c) \<Rightarrow> (Some False, set_r64 RDI (rdi + dir_step c (i_op_size i)) c))"

definition lods_step :: "'m env \<Rightarrow> insn \<Rightarrow> 'm cpu \<Rightarrow> bool option \<times> 'm cpu" where
  "lods_step env i c =
     (let rsi = reg c RSI; sz = i_op_size i
      in case read_bytes env rsi sz c of
           (None, c) \<Rightarrow> (None, c)
         | (Some v, c) \<Rightarrow>
             (let c = (if sz = 1 then set_r8 RAX (ucast v) c
                       else if sz = 2 then set_r16 RAX (ucast v) c
                       else if sz = 4 then set_r32 RAX (ucast v) c
                       else if sz = 8 then set_r64 RAX v c else c)
              in (Some False, set_r64 RSI (rsi + dir_step c sz) c)))"

text \<open>Reading \<open>zf()\<close> synchronises the flags.\<close>

definition scas_step :: "'m env \<Rightarrow> insn \<Rightarrow> 'm cpu \<Rightarrow> bool option \<times> 'm cpu" where
  "scas_step env i c =
     (let rdi = reg c RDI; sz = i_op_size i
      in case read_bytes env rdi sz c of
           (None, c) \<Rightarrow> (None, c)
         | (Some v, c) \<Rightarrow>
             (let a = reg c RAX AND mask_for sz; r = (a - v) AND mask_for sz;
                  c = stash_sub sz v r c; zf = get_zf c; c = sync_flags c
              in (Some zf, set_r64 RDI (rdi + dir_step c sz) c)))"

definition cmps_step :: "'m env \<Rightarrow> insn \<Rightarrow> 'm cpu \<Rightarrow> bool option \<times> 'm cpu" where
  "cmps_step env i c =
     (let rsi = reg c RSI; rdi = reg c RDI; sz = i_op_size i
      in case read_bytes env rsi sz c of
           (None, c) \<Rightarrow> (None, c)
         | (Some vs, c) \<Rightarrow>
             (case read_bytes env rdi sz c of
                (None, c) \<Rightarrow> (None, c)
              | (Some vd, c) \<Rightarrow>
                  (let r = (vs - vd) AND mask_for sz;
                       c = stash_sub sz vd r c; zf = get_zf c; c = sync_flags c;
                       step = dir_step c sz
                   in (Some zf, set_r64 RDI (rdi + step) (set_r64 RSI (rsi + step) c)))))"

fun string_step :: "string_handler \<Rightarrow> 'm env \<Rightarrow> insn \<Rightarrow> 'm cpu \<Rightarrow> bool option \<times> 'm cpu" where
  "string_step H_movs = movs_step"
| "string_step H_stos = stos_step"
| "string_step H_lods = lods_step"
| "string_step H_scas = scas_step"
| "string_step H_cmps = cmps_step"

section \<open>The memory helpers change no register\<close>

lemma reg_mem_update [simp]: "reg (c\<lparr>c_mem := m\<rparr>) = reg c" "reg (set_fault k a s n c) = reg c"
  by (simp_all add: reg_def set_fault_def fun_eq_iff)

lemma read_bytes_frame: "read_bytes env a sz c = (r, c') \<Longrightarrow> reg c' = reg c"
  by (auto simp: read_bytes_def read_mem_noted_def call_read_def split: option.splits prod.splits if_splits)

lemma write_bytes_frame: "write_bytes env a sz v c = (r, c') \<Longrightarrow> reg c' = reg c"
  by (auto simp: write_bytes_def write_mem_noted_def call_write_def split: option.splits prod.splits if_splits)

lemma string_step_rcx: "string_step h env i c = (r, c') \<Longrightarrow> reg c' RCX = reg c RCX"
  by (cases h)
    (auto simp: movs_step_def stos_step_def lods_step_def scas_step_def cmps_step_def Let_def reg_set_r8
      dest!: read_bytes_frame write_bytes_frame split: option.splits prod.splits bool.splits if_splits)

section \<open>The driver\<close>

definition has_rep :: "insn \<Rightarrow> bool" where
  "has_rep i \<longleftrightarrow> i_flags i AND (INSN_FLAG_REP OR INSN_FLAG_REPNE) \<noteq> 0"

definition repe :: "insn \<Rightarrow> bool" where
  "repe i \<longleftrightarrow> i_flags i AND INSN_FLAG_REP \<noteq> 0"

definition repne :: "insn \<Rightarrow> bool" where
  "repne i \<longleftrightarrow> i_flags i AND INSN_FLAG_REPNE \<noteq> 0"

text \<open>The loop ends because no step changes RCX, which the driver counts down.\<close>

function rep_loop :: "string_handler \<Rightarrow> 'm env \<Rightarrow> insn \<Rightarrow> 'm cpu \<Rightarrow> 'm cpu" where
  "rep_loop h env i c =
     (if reg c RCX \<noteq> 0 \<and> \<not> c_halted c then
        (case string_step h env i c of
           (None, c') \<Rightarrow> c'
         | (Some zf, c') \<Rightarrow>
             (let c'' = set_r64 RCX (reg c' RCX - 1) c'
              in if repe i \<and> \<not> zf \<or> repne i \<and> zf then c'' else rep_loop h env i c''))
      else c)"
  by pat_completeness auto
termination
  by (relation "measure (\<lambda>(h, env, i, c). unat (reg c RCX))")
    (auto simp: unat_minus_one unat_gt_0 dest!: string_step_rcx [OF sym])

declare rep_loop.simps [simp del]

definition run_string :: "string_handler \<Rightarrow> 'm env \<Rightarrow> insn \<Rightarrow> 'm cpu \<Rightarrow> 'm cpu" where
  "run_string h env i c = (if has_rep i then rep_loop h env i c else snd (string_step h env i c))"

section \<open>Handlers\<close>

definition op_movs :: "'m env \<Rightarrow> insn \<Rightarrow> 'm cpu \<Rightarrow> 'm cpu" where "op_movs = run_string H_movs"

definition op_stos :: "'m env \<Rightarrow> insn \<Rightarrow> 'm cpu \<Rightarrow> 'm cpu" where "op_stos = run_string H_stos"

definition op_lods :: "'m env \<Rightarrow> insn \<Rightarrow> 'm cpu \<Rightarrow> 'm cpu" where "op_lods = run_string H_lods"

definition op_scas :: "'m env \<Rightarrow> insn \<Rightarrow> 'm cpu \<Rightarrow> 'm cpu" where "op_scas = run_string H_scas"

definition op_cmps :: "'m env \<Rightarrow> insn \<Rightarrow> 'm cpu \<Rightarrow> 'm cpu" where "op_cmps = run_string H_cmps"

section \<open>What the steps do to the registers\<close>

lemma read_bytes_keeps:
  "read_bytes env a sz c = (r, c') \<Longrightarrow> c_rflags c' = c_rflags c"
  "read_bytes env a sz c = (None, c') \<Longrightarrow> c_halted c'"
  by (auto simp: read_bytes_def read_mem_noted_def call_read_def set_fault_def split: option.splits prod.splits if_splits)

lemma write_bytes_keeps:
  "write_bytes env a sz v c = (r, c') \<Longrightarrow> c_rflags c' = c_rflags c"
  "write_bytes env a sz v c = (False, c') \<Longrightarrow> c_halted c'"
  by (auto simp: write_bytes_def write_mem_noted_def call_write_def set_fault_def split: option.splits prod.splits if_splits)

lemma dir_step_cong: "c_rflags c = c_rflags d \<Longrightarrow> dir_step c sz = dir_step d sz"
  by (simp add: dir_step_def get_df_def)

lemma rflags_set_gpr [simp]:
  "c_rflags (set_r8 r v8 c) = c_rflags c" "c_rflags (set_r16 r v16 c) = c_rflags c" "c_rflags (set_r32 r v32 c) = c_rflags c"
  by (simp_all add: set_r8_def set_r16_def set_r32_def Let_def)

lemma dir_step_set_gpr [simp]:
  "dir_step (set_r64 r v c) sz = dir_step c sz" "dir_step (set_r8 r v8 c) sz = dir_step c sz"
  "dir_step (set_r16 r v16 c) sz = dir_step c sz" "dir_step (set_r32 r v32 c) sz = dir_step c sz"
  by (rule dir_step_cong; simp)+

definition moves_rsi :: "string_handler \<Rightarrow> bool" where
  "moves_rsi h \<longleftrightarrow> h = H_movs \<or> h = H_lods"

definition moves_rdi :: "string_handler \<Rightarrow> bool" where
  "moves_rdi h \<longleftrightarrow> h = H_movs \<or> h = H_stos"

lemma string_step_fails: "string_step h env i c = (None, c') \<Longrightarrow> c_halted c'"
  by (cases h) (auto simp: movs_step_def stos_step_def lods_step_def scas_step_def cmps_step_def Let_def
      dest: read_bytes_keeps(2) write_bytes_keeps(2) split: option.splits prod.splits bool.splits)

lemma string_access_frame:
  "read_bytes env a sz c = (r, c') \<Longrightarrow> reg c' = reg c \<and> dir_step c' = dir_step c"
  by (metis ext read_bytes_frame dir_step_cong read_bytes_keeps(1))

lemma string_access_frame':
  "write_bytes env a sz v c = (b, c') \<Longrightarrow> reg c' = reg c \<and> dir_step c' = dir_step c"
  by (metis ext write_bytes_frame dir_step_cong write_bytes_keeps(1))

lemma move_step_regs:
  assumes "h = H_movs \<or> h = H_stos \<or> h = H_lods" "string_step h env i c = (Some z, c')"
  shows "\<not> z" "dir_step c' sz = dir_step c sz"
    "reg c' RSI = (if moves_rsi h then reg c RSI + dir_step c (i_op_size i) else reg c RSI)"
    "reg c' RDI = (if moves_rdi h then reg c RDI + dir_step c (i_op_size i) else reg c RDI)"
proof -
  note defs = movs_step_def stos_step_def lods_step_def Let_def moves_rsi_def moves_rdi_def reg_set_r8
  note steps = option.splits prod.splits bool.splits if_splits
  show "\<not> z" using assms by (auto simp: defs split: steps)
  show "dir_step c' sz = dir_step c sz"
    "reg c' RSI = (if moves_rsi h then reg c RSI + dir_step c (i_op_size i) else reg c RSI)"
    "reg c' RDI = (if moves_rdi h then reg c RDI + dir_step c (i_op_size i) else reg c RDI)"
    using assms by (auto simp: defs dest!: string_access_frame string_access_frame' split: steps)
qed

section \<open>The repeated moves\<close>

lemma move_loop_once:
  assumes "h = H_movs \<or> h = H_stos \<or> h = H_lods" "repe i" "reg c RCX \<noteq> 0" "\<not> c_halted c"
  shows "rep_loop h env i c =
    (case string_step h env i c of (None, c') \<Rightarrow> c' | (Some _, c') \<Rightarrow> set_r64 RCX (reg c RCX - 1) c')"
proof -
  obtain r c' where st: "string_step h env i c = (r, c')" by fastforce
  show ?thesis
  proof (cases r)
    case None
    then show ?thesis using assms st by (subst rep_loop.simps) simp
  next
    case (Some z)
    then have "\<not> z" using move_step_regs(1) [OF assms(1)] st by blast
    then show ?thesis using assms st Some string_step_rcx [OF st] by (subst rep_loop.simps) simp
  qed
qed

lemma Suc_unat_minus_one: "x \<noteq> (0 :: u64) \<Longrightarrow> unat (x - 1) = unat x - 1"
  by (simp add: unat_minus_one)

lemma step_sum: "(a :: u64) + d + (k - 1) * d = a + k * d"
  by (simp add: algebra_simps)

lemma move_loop_all:
  assumes "h = H_movs \<or> h = H_stos \<or> h = H_lods" "\<not> repe i" "\<not> c_halted (rep_loop h env i c)"
  shows "reg (rep_loop h env i c) RCX = 0 \<and>
    reg (rep_loop h env i c) RSI = (if moves_rsi h then reg c RSI + reg c RCX * dir_step c (i_op_size i) else reg c RSI) \<and>
    reg (rep_loop h env i c) RDI = (if moves_rdi h then reg c RDI + reg c RCX * dir_step c (i_op_size i) else reg c RDI)"
  using assms(3)
proof (induction "unat (reg c RCX)" arbitrary: c)
  case 0
  then have "reg c RCX = 0" by (simp add: unat_eq_0)
  then show ?case by (simp add: rep_loop.simps)
next
  case (Suc n)
  then have nz: "reg c RCX \<noteq> 0" by auto
  show ?case
  proof (cases "c_halted c")
    case True
    then have "rep_loop h env i c = c" by (simp add: rep_loop.simps)
    then show ?thesis using Suc.prems True by simp
  next
    case False
    obtain r c' where st: "string_step h env i c = (r, c')" by fastforce
    show ?thesis
    proof (cases r)
      case None
      then have "rep_loop h env i c = c'" using st nz False by (simp add: rep_loop.simps)
      then show ?thesis using string_step_fails st None Suc.prems by blast
    next
      case (Some z)
      let ?d = "set_r64 RCX (reg c RCX - 1) c'"
      note rs = move_step_regs [OF assms(1) st [unfolded Some]] string_step_rcx [OF st]
      have lp: "rep_loop h env i c = rep_loop h env i ?d"
        using st nz False Some rs assms(2) by (subst rep_loop.simps) simp
      have "n = unat (reg ?d RCX)" using Suc.hyps(2) nz by (simp add: Suc_unat_minus_one)
      from Suc.hyps(1) [OF this] Suc.prems lp
      show ?thesis by (simp add: rs step_sum)
    qed
  qed
qed

section \<open>The scan\<close>

lemma get_df_sync_stash [simp]: "get_df (sync_flags (stash_sub sz b r c)) = get_df c"
proof -
  have "get_df d \<longleftrightarrow> bit (c_rflags d) 10" for d :: "'a cpu"
    unfolding get_df_def using and_exp_neq_0_iff [of 10 "c_rflags d"] by simp
  then show ?thesis by (simp add: other_bits_sync) (simp add: stash_sub_def stash_def)
qed

lemma zf_after_sub:
  assumes "valid_size sz" "fits sz a" "fits sz b"
  shows "fl_zf (flags_of (stash_sub sz b ((a - b) AND mask_for sz) c)) \<longleftrightarrow> a = b"
proof -
  have "(uint a - uint b) mod 2 ^ width_of sz = 0 \<longleftrightarrow> uint a = uint b"
    using uint_fits_bounds [OF assms(1,2)] uint_fits_bounds [OF assms(1,3)]
    by (metis cancel_comm_monoid_add_class.diff_cancel mod_0_imp_dvd mod_eq_dvd_iff mod_pos_pos_trivial mod_0)
  then show ?thesis
    by (simp add: flags_of_stash_sub [OF assms] sub_spec_def Let_def word_uint_eq_iff)
qed

lemma flags_of_set_r64 [simp]: "flags_of (set_r64 r v c) = flags_of c"
  by (simp add: flags_of_bits set_r64_def sync_flags_def Let_def)

lemma scas_step_pure:
  assumes "valid_size (i_op_size i)" "fits (i_op_size i) v"
    and "read_bytes env (reg c RDI) (i_op_size i) c = (Some v, c)"
  obtains c' where "string_step H_scas env i c = (Some (reg c RAX AND mask_for (i_op_size i) = v), c')"
    "reg c' = (reg c)(RDI := reg c RDI + dir_step c (i_op_size i))" "c_halted c' = c_halted c"
    "dir_step c' = dir_step c" "get_zf c' \<longleftrightarrow> reg c RAX AND mask_for (i_op_size i) = v"
proof
  let ?sz = "i_op_size i"
  let ?a = "reg c RAX AND mask_for ?sz"
  let ?d = "sync_flags (stash_sub ?sz v ((?a - v) AND mask_for ?sz) c)"
  let ?c' = "set_r64 RDI (reg c RDI + dir_step c ?sz) ?d"
  have dir: "dir_step ?d = dir_step c" by (simp add: dir_step_def fun_eq_iff)
  note zf = zf_after_sub [OF assms(1) fits_and_mask assms(2), of "reg c RAX" c]
  show "string_step H_scas env i c = (Some (?a = v), ?c')"
    using zf by (simp add: scas_step_def Let_def assms(3) get_flags_of dir)
  show "reg ?c' = (reg c)(RDI := reg c RDI + dir_step c ?sz)" by (simp add: fun_eq_iff)
  show "c_halted ?c' = c_halted c" by simp
  show "dir_step ?c' = dir_step c" using dir by (simp add: fun_eq_iff)
  show "get_zf ?c' \<longleftrightarrow> ?a = v"
    using zf by (simp add: get_flags_of)
qed

lemma offset_shift: "(a :: u64) + d + of_nat j * d = a + of_nat (Suc j) * d"
  by (simp add: algebra_simps)

lemma of_nat_one: "of_nat (Suc 0) = (1 :: u64)"
  by simp

lemma count_shift: "(a :: u64) - 1 - of_nat k = a - of_nat (Suc k)"
  by simp

text \<open>Whether the scan ends after comparing an element that is (or is not) equal.\<close>

definition scan_stops :: "insn \<Rightarrow> bool \<Rightarrow> bool" where
  "scan_stops i hit \<longleftrightarrow> repe i \<and> \<not> hit \<or> repne i \<and> hit"

lemma scas_loop:
  assumes "valid_size (i_op_size i)" "\<And>a. fits (i_op_size i) (f a)"
    and "\<And>a d. read_bytes env a (i_op_size i) d = (Some (f a), d)"
    and "\<not> c_halted c" "hit = (\<lambda>j. f (reg c RDI + of_nat j * dir_step c (i_op_size i)) = reg c RAX AND mask_for (i_op_size i))"
  shows "\<exists>k \<le> unat (reg c RCX).
    reg (rep_loop H_scas env i c) RCX = reg c RCX - of_nat k \<and>
    reg (rep_loop H_scas env i c) RDI = reg c RDI + of_nat k * dir_step c (i_op_size i) \<and>
    (\<forall>j. j + 1 < k \<longrightarrow> \<not> scan_stops i (hit j)) \<and>
    (k < unat (reg c RCX) \<longrightarrow> 0 < k \<and> scan_stops i (hit (k - 1))) \<and>
    (0 < k \<longrightarrow> get_zf (rep_loop H_scas env i c) = hit (k - 1))"
  using assms(4,5)
proof (induction "unat (reg c RCX)" arbitrary: c hit)
  case 0
  then have "reg c RCX = 0" by (simp add: unat_eq_0)
  then show ?case by (simp add: rep_loop.simps)
next
  case (Suc n)
  let ?sz = "i_op_size i"
  let ?h0 = "reg c RAX AND mask_for ?sz = f (reg c RDI)"
  from Suc.hyps(2) have nz: "reg c RCX \<noteq> 0" by auto
  obtain c1 where st: "string_step H_scas env i c = (Some ?h0, c1)"
      "reg c1 = (reg c)(RDI := reg c RDI + dir_step c ?sz)" "\<not> c_halted c1"
      "dir_step c1 = dir_step c" "get_zf c1 \<longleftrightarrow> ?h0"
    by (rule scas_step_pure [OF assms(1,2,3), of c]) (use Suc.prems in blast)
  let ?d = "set_r64 RCX (reg c RCX - 1) c1"
  have h0: "hit 0 = ?h0" by (auto simp: Suc.prems(2))
  have lp: "rep_loop H_scas env i c = (if scan_stops i (hit 0) then ?d else rep_loop H_scas env i ?d)"
    using st nz Suc.prems(1) unfolding h0 by (subst rep_loop.simps) (auto simp: scan_stops_def Let_def)
  show ?case
  proof (cases "scan_stops i (hit 0)")
    case True
    then show ?thesis using st(2,5) Suc.hyps(2) h0 lp
      by (intro exI [of _ 1]) (simp add: get_flags_of)
  next
    case False
    let ?hit = "\<lambda>j. hit (Suc j)"
    have n: "n = unat (reg ?d RCX)" using Suc.hyps(2) nz by (simp add: Suc_unat_minus_one)
    have "?hit = (\<lambda>j. f (reg ?d RDI + of_nat j * dir_step ?d ?sz) = reg ?d RAX AND mask_for ?sz)"
      by (simp add: Suc.prems(2) st fun_eq_iff offset_shift del: of_nat_Suc)
    from Suc.hyps(1) [OF n _ this] st(3) obtain k where k: "k \<le> n"
      "reg (rep_loop H_scas env i ?d) RCX = reg c RCX - 1 - of_nat k"
      "reg (rep_loop H_scas env i ?d) RDI = reg c RDI + dir_step c ?sz + of_nat k * dir_step c ?sz"
      "\<forall>j. j + 1 < k \<longrightarrow> \<not> scan_stops i (?hit j)"
      "k < n \<longrightarrow> 0 < k \<and> scan_stops i (?hit (k - 1))"
      "0 < k \<longrightarrow> get_zf (rep_loop H_scas env i ?d) = ?hit (k - 1)"
      using n [symmetric] by (auto simp: st)
    have zero: "get_zf (rep_loop H_scas env i ?d) = hit 0" if "k = 0"
    proof -
      from that k(5) have "n = 0" by simp
      with n have "reg ?d RCX = 0" by (simp add: unat_eq_0)
      then have "rep_loop H_scas env i ?d = ?d" by (simp add: rep_loop.simps)
      then show ?thesis using st(5) h0 by (simp add: get_flags_of)
    qed
    have steps: "\<not> scan_stops i (hit j)" if "j < k" for j
      using that False k(4) by (cases j) auto
    show ?thesis
      using k False zero steps Suc.hyps(2) [symmetric] lp
      by (intro exI [of _ "Suc k"]) (cases k; simp add: offset_shift count_shift of_nat_one del: of_nat_Suc)
  qed
qed

section \<open>Properties\<close>

text \<open>An environment for the examples: every byte reads as \<open>b\<close>, and stores vanish.\<close>

definition fill_env :: "u8 \<Rightarrow> 'm env" where
  "fill_env b = no_env\<lparr>
     e_mem_read := Some \<lparr>prov_read = (\<lambda>a n m. (St_Ok, replicate n b, m)), prov_write = (\<lambda>a bs m. (St_Ok, m))\<rparr>,
     e_mem_write := Some \<lparr>prov_read = (\<lambda>a n m. (St_Ok, replicate n b, m)), prov_write = (\<lambda>a bs m. (St_Ok, m))\<rparr>\<rparr>"

lemma fill_env_access [simp]:
  "read_bytes (fill_env b) a sz c = (Some (le_value (replicate (unat sz) b)), c)"
  "write_bytes (fill_env b) a sz v c = (True, c)"
  by (simp_all add: fill_env_def no_env_def read_bytes_def read_mem_noted_def write_bytes_def write_mem_noted_def
      call_read_def call_write_def)

lemma fresh_cpu [simp]: "\<not> c_halted (initial_cpu m)" "get_df (initial_cpu m) \<longleftrightarrow> False"
  "get_df (set_r64 r v c) = get_df c"
  by (simp_all add: initial_cpu_def get_df_def)

text \<open>C11: The F3 prefix makes MOVS, STOS and LODS run a single iteration however large RCX is,
  because the driver leaves its loop when the step did not set the zero flag.  The F2 prefix makes
  them run RCX times: unless an access faults, RCX ends as 0 and the pointers have advanced by
  RCX steps in the direction that DF gives.\<close>

theorem string_moves_under_rep:
  assumes "h = H_movs \<or> h = H_stos \<or> h = H_lods" "has_rep i" "\<not> c_halted c" "reg c RCX \<noteq> 0"
  shows "let c' = run_string h env i c; step = dir_step c (i_op_size i) in
    (repe i \<longrightarrow> c' = (case string_step h env i c of (None, d) \<Rightarrow> d | (Some _, d) \<Rightarrow> set_r64 RCX (reg c RCX - 1) d)) \<and>
    (\<not> repe i \<longrightarrow> c_halted c' \<or>
       reg c' RCX = 0 \<and>
       reg c' RSI = (if moves_rsi h then reg c RSI + reg c RCX * step else reg c RSI) \<and>
       reg c' RDI = (if moves_rdi h then reg c RDI + reg c RCX * step else reg c RDI))"
  using move_loop_once [OF assms(1) _ assms(4,3), of i env] move_loop_all [OF assms(1), of i env c] assms(2)
  by (auto simp: Let_def run_string_def)

theorem string_moves_under_rep_witness:
  "let i = (plain_insn 1 zero_operand zero_operand)\<lparr>i_flags := INSN_FLAG_REP\<rparr>;
       c' = run_string H_stos (fill_env 0) i (set_r64 RCX 100 (initial_cpu ()))
   in reg c' RCX = 99 \<and> reg c' RDI = 1"
  using string_moves_under_rep [of H_stos "(plain_insn 1 zero_operand zero_operand)\<lparr>i_flags := INSN_FLAG_REP\<rparr>"
      "set_r64 RCX 100 (initial_cpu ())" "fill_env 0"]
  by (simp add: Let_def has_rep_def repe_def stos_step_def dir_step_def)

text \<open>A repeated SCAS over readable memory stops after the first element that ends the scan (one
  that differs under F3, one that equals the accumulator under F2), or after RCX elements; RCX, RDI and ZF
  tell how many elements were compared and whether the last one was equal.\<close>

theorem scas_scan:
  assumes "valid_size (i_op_size i)" "has_rep i" "\<not> c_halted c"
    and "\<And>a d. read_bytes env a (i_op_size i) d = (Some (f a), d)" "\<And>a. fits (i_op_size i) (f a)"
  shows "let c' = op_scas env i c; n = unat (reg c RCX); step = dir_step c (i_op_size i);
             hit = (\<lambda>j. f (reg c RDI + of_nat j * step) = reg c RAX AND mask_for (i_op_size i))
    in \<exists>k \<le> n. reg c' RCX = reg c RCX - of_nat k \<and> reg c' RDI = reg c RDI + of_nat k * step \<and>
         (\<forall>j. j + 1 < k \<longrightarrow> \<not> scan_stops i (hit j)) \<and>
         (k < n \<longrightarrow> 0 < k \<and> scan_stops i (hit (k - 1))) \<and>
         (0 < k \<longrightarrow> get_zf c' = hit (k - 1))"
  using scas_loop [OF assms(1,5,4,3) refl] assms(2) by (simp add: op_scas_def run_string_def Let_def)

theorem scas_scan_witness:
  "let i = (plain_insn 1 zero_operand zero_operand)\<lparr>i_flags := INSN_FLAG_REPNE\<rparr>;
       c' = op_scas (fill_env 0) i (set_r64 RCX 7 (initial_cpu ()))
   in reg c' RCX = 6 \<and> reg c' RDI = 1 \<and> get_zf c'"
proof -
  let ?i = "(plain_insn 1 zero_operand zero_operand)\<lparr>i_flags := INSN_FLAG_REPNE\<rparr>"
  obtain k where "reg (op_scas (fill_env 0) ?i (set_r64 RCX 7 (initial_cpu ()))) RCX = 7 - of_nat k"
      "reg (op_scas (fill_env 0) ?i (set_r64 RCX 7 (initial_cpu ()))) RDI = of_nat k"
      "0 < k \<longrightarrow> get_zf (op_scas (fill_env 0) ?i (set_r64 RCX 7 (initial_cpu ())))"
      "k \<le> 7" "k < 7 \<longrightarrow> 0 < k" "\<forall>j. \<not> Suc j < k"
    using scas_scan [of ?i "set_r64 RCX 7 (initial_cpu ())" "fill_env 0" "\<lambda>_. 0"]
    by (auto simp: Let_def has_rep_def repe_def repne_def scan_stops_def dir_step_def fits_def)
  moreover from this(4-5) spec [OF this(6), of 0] have "k = 1" by linarith
  ultimately show ?thesis by (simp add: Let_def)
qed

end
