(* ===== verification/Bit_Manip.thy ===== *)
theory Bit_Manip
  imports Multiply_Divide
begin

text \<open>
  The bit-manipulation handlers of \<^verbatim>\<open>src/emu/handlers/bit_manip.cpp\<close> (BSF to TZCNT) and
  \<^verbatim>\<open>src/emu/handlers/bmi.cpp\<close> (the BMI1 and BMI2 instructions).  The files include \<^verbatim>\<open><intrin.h>\<close> and so are built
  with the compiler whose intrinsics they use: the bit scans and the population count are modelled as
  those intrinsics are documented.
\<close>

section \<open>Intrinsics and counting helpers\<close>

definition set_bits_list :: "u64 \<Rightarrow> nat list" where
  "set_bits_list v = filter (bit v) [0..<64]"

definition BitScanForward64 :: "u64 \<Rightarrow> nat" where
  "BitScanForward64 v = hd (set_bits_list v)"

definition BitScanReverse64 :: "u64 \<Rightarrow> nat" where
  "BitScanReverse64 v = last (set_bits_list v)"

definition popcount_u64 :: "u64 \<Rightarrow> u8" where
  "popcount_u64 v = of_nat (length (set_bits_list v))"

definition tzcount_u64 :: "u64 \<Rightarrow> u8 \<Rightarrow> u8" where
  "tzcount_u64 v width = (if v = 0 then width else of_nat (BitScanForward64 v))"

definition lzcount_u64 :: "u64 \<Rightarrow> u8 \<Rightarrow> u8" where
  "lzcount_u64 v width = (if v = 0 then width else width - 1 - of_nat (BitScanReverse64 v))"

section \<open>Bit scans\<close>

definition op_bsf :: "'m env \<Rightarrow> insn \<Rightarrow> 'm cpu \<Rightarrow> 'm cpu" where
  "op_bsf env i c =
     read_then (read_operand env i (i_src i) (i_op_size i) c) (\<lambda>s c.
       let c = force_sync_flags c
       in if s = 0 then set_zf True c
          else
            (let idx = ucast (tzcount_u64 s (i_op_size i * 8));
                 c = snd (write_operand env i (i_dst i) (i_op_size i) idx c)
             in set_zf False c))"

definition op_bsr :: "'m env \<Rightarrow> insn \<Rightarrow> 'm cpu \<Rightarrow> 'm cpu" where
  "op_bsr env i c =
     read_then (read_operand env i (i_src i) (i_op_size i) c) (\<lambda>s c.
       let c = force_sync_flags c
       in if s = 0 then set_zf True c
          else
            (let w = i_op_size i * 8; lead = lzcount_u64 s w;
                 idx = ucast w - 1 - ucast lead;
                 c = snd (write_operand env i (i_dst i) (i_op_size i) idx c)
             in set_zf False c))"

section \<open>Bit tests\<close>

definition bit_test_get :: "'m env \<Rightarrow> insn \<Rightarrow> 'm cpu \<Rightarrow> (u64 \<times> u64) option \<times> 'm cpu" where
  "bit_test_get env i c =
     (case read_operand env i (i_dst i) (i_op_size i) c of
        (None, c) \<Rightarrow> (None, c)
      | (Some base, c) \<Rightarrow>
          (case read_operand env i (i_src i) (i_op_size i) c of
             (None, c) \<Rightarrow> (None, c)
           | (Some raw, c) \<Rightarrow> (Some (base, raw mod (ucast (i_op_size i) * 8)), c)))"

definition test_bit_into_cf :: "u64 \<Rightarrow> u64 \<Rightarrow> 'm cpu \<Rightarrow> 'm cpu" where
  "test_bit_into_cf v b c = set_cf (drop_bit (unat b) v AND 1 \<noteq> 0) (force_sync_flags c)"

definition op_bt :: "'m env \<Rightarrow> insn \<Rightarrow> 'm cpu \<Rightarrow> 'm cpu" where
  "op_bt env i c = read_then (bit_test_get env i c) (\<lambda>(v, b) c. test_bit_into_cf v b c)"

definition op_bts :: "'m env \<Rightarrow> insn \<Rightarrow> 'm cpu \<Rightarrow> 'm cpu" where
  "op_bts env i c =
     read_then (bit_test_get env i c) (\<lambda>(v, b) c.
       let c = test_bit_into_cf v b c; nv = v OR push_bit (unat b) 1
       in snd (write_operand env i (i_dst i) (i_op_size i) nv c))"

definition op_btr :: "'m env \<Rightarrow> insn \<Rightarrow> 'm cpu \<Rightarrow> 'm cpu" where
  "op_btr env i c =
     read_then (bit_test_get env i c) (\<lambda>(v, b) c.
       let c = test_bit_into_cf v b c; nv = v AND NOT (push_bit (unat b) 1)
       in snd (write_operand env i (i_dst i) (i_op_size i) nv c))"

definition op_btc :: "'m env \<Rightarrow> insn \<Rightarrow> 'm cpu \<Rightarrow> 'm cpu" where
  "op_btc env i c =
     read_then (bit_test_get env i c) (\<lambda>(v, b) c.
       let c = test_bit_into_cf v b c; nv = v XOR push_bit (unat b) 1
       in snd (write_operand env i (i_dst i) (i_op_size i) nv c))"

section \<open>Counts\<close>

definition op_popcnt :: "'m env \<Rightarrow> insn \<Rightarrow> 'm cpu \<Rightarrow> 'm cpu" where
  "op_popcnt env i c =
     read_then (read_operand env i (i_src i) (i_op_size i) c) (\<lambda>v c.
       let r = ucast (popcount_u64 (v AND mask_for (i_op_size i))) :: u64;
           c = snd (write_operand env i (i_dst i) (i_op_size i) r c);
           c = force_sync_flags c
       in set_pf False (set_af False (set_sf False (set_of False (set_cf False (set_zf (r = 0) c))))))"

definition op_lzcnt :: "'m env \<Rightarrow> insn \<Rightarrow> 'm cpu \<Rightarrow> 'm cpu" where
  "op_lzcnt env i c =
     read_then (read_operand env i (i_src i) (i_op_size i) c) (\<lambda>v c.
       let w = i_op_size i * 8; n = lzcount_u64 (v AND mask_for (i_op_size i)) w;
           c = snd (write_operand env i (i_dst i) (i_op_size i) (ucast n) c);
           c = force_sync_flags c
       in set_zf (n = 0) (set_cf (n = w) c))"

definition op_tzcnt :: "'m env \<Rightarrow> insn \<Rightarrow> 'm cpu \<Rightarrow> 'm cpu" where
  "op_tzcnt env i c =
     read_then (read_operand env i (i_src i) (i_op_size i) c) (\<lambda>v c.
       let w = i_op_size i * 8; n = tzcount_u64 (v AND mask_for (i_op_size i)) w;
           c = snd (write_operand env i (i_dst i) (i_op_size i) (ucast n) c);
           c = force_sync_flags c
       in set_zf (n = 0) (set_cf (n = w) c))"

section \<open>BMI: operands\<close>

definition read_vvvv :: "'m cpu \<Rightarrow> insn \<Rightarrow> u64" where
  "read_vvvv c i = reg c (o_index (i_dst i)) AND mask_for (i_op_size i)"

definition read_src_u64 :: "'m env \<Rightarrow> insn \<Rightarrow> 'm cpu \<Rightarrow> u64 option \<times> 'm cpu" where
  "read_src_u64 env i c = read_operand env i (i_src i) (i_op_size i) c"

definition write_dst :: "'m env \<Rightarrow> insn \<Rightarrow> u64 \<Rightarrow> 'm cpu \<Rightarrow> 'm cpu" where
  "write_dst env i r c = snd (write_operand env i (i_dst i) (i_op_size i) r c)"

section \<open>BMI1\<close>

definition op_andn :: "'m env \<Rightarrow> insn \<Rightarrow> 'm cpu \<Rightarrow> 'm cpu" where
  "op_andn env i c =
     read_then (read_src_u64 env i c) (\<lambda>b c.
       let a = read_vvvv c i; r = NOT a AND b AND mask_for (i_op_size i)
       in stash_logic (i_op_size i) r (write_dst env i r c))"

definition bextr_value :: "u8 \<Rightarrow> u64 \<Rightarrow> u64 \<Rightarrow> u64" where
  "bextr_value sz s ctl =
     (let start = ucast (ctl AND 0xFF) :: u8; len = ucast (drop_bit 8 ctl AND 0xFF) :: u8; width = sz * 8
      in if start < width then
           (let eff_len = (if width - start < len then width - start else len);
                m = (if 64 \<le> eff_len then NOT 0 else push_bit (unat eff_len) 1 - 1)
            in drop_bit (unat start) s AND m)
         else 0)"

definition op_bextr :: "'m env \<Rightarrow> insn \<Rightarrow> 'm cpu \<Rightarrow> 'm cpu" where
  "op_bextr env i c =
     read_then (read_src_u64 env i c) (\<lambda>s c.
       let r = bextr_value (i_op_size i) s (read_vvvv c i);
           c = force_sync_flags (write_dst env i r c)
       in set_af False (set_pf False (set_sf False (set_of False (set_cf False (set_zf (r = 0) c))))))"

text \<open>The common end of the four instructions below: CF and ZF are given, SF is the top bit of \<open>r\<close>.\<close>

definition bls_flags :: "u8 \<Rightarrow> bool \<Rightarrow> bool \<Rightarrow> u64 \<Rightarrow> 'm cpu \<Rightarrow> 'm cpu" where
  "bls_flags sz cf zf r c =
     set_af False (set_pf False (set_of False
       (set_sf (r AND sign_mask sz \<noteq> 0) (set_zf zf (set_cf cf (force_sync_flags c))))))"

definition op_blsi :: "'m env \<Rightarrow> insn \<Rightarrow> 'm cpu \<Rightarrow> 'm cpu" where
  "op_blsi env i c =
     read_then (read_src_u64 env i c) (\<lambda>s c.
       let s = s AND mask_for (i_op_size i); r = s AND (0 - s)
       in bls_flags (i_op_size i) (s \<noteq> 0) (r = 0) r (write_dst env i r c))"

definition op_blsr :: "'m env \<Rightarrow> insn \<Rightarrow> 'm cpu \<Rightarrow> 'm cpu" where
  "op_blsr env i c =
     read_then (read_src_u64 env i c) (\<lambda>s c.
       let s = s AND mask_for (i_op_size i); r = s AND (s - 1)
       in bls_flags (i_op_size i) (s = 0) (r = 0) r (write_dst env i r c))"

definition op_blsmsk :: "'m env \<Rightarrow> insn \<Rightarrow> 'm cpu \<Rightarrow> 'm cpu" where
  "op_blsmsk env i c =
     read_then (read_src_u64 env i c) (\<lambda>s c.
       let s = s AND mask_for (i_op_size i); r = s XOR (s - 1)
       in bls_flags (i_op_size i) (s = 0) False r (write_dst env i (r AND mask_for (i_op_size i)) c))"

section \<open>BMI2\<close>

text \<open>BZHI sets ZF before CF; the two writes commute.\<close>

definition op_bzhi :: "'m env \<Rightarrow> insn \<Rightarrow> 'm cpu \<Rightarrow> 'm cpu" where
  "op_bzhi env i c =
     read_then (read_src_u64 env i c) (\<lambda>s c.
       let n = ucast (read_vvvv c i AND 0xFF) :: u8; width = i_op_size i * 8;
           r = (if width \<le> n then s AND mask_for (i_op_size i) else s AND (push_bit (unat n) 1 - 1));
           c = force_sync_flags (write_dst env i r c)
       in set_af False (set_pf False (set_of False
            (set_sf (r AND sign_mask (i_op_size i) \<noteq> 0) (set_cf (width \<le> n) (set_zf (r = 0) c))))))"

definition op_mulx :: "'m env \<Rightarrow> insn \<Rightarrow> 'm cpu \<Rightarrow> 'm cpu" where
  "op_mulx env i c =
     read_then (read_src_u64 env i c) (\<lambda>b c.
       let a = reg c RDX AND mask_for (i_op_size i);
           (lo, hi) = (if i_op_size i = 8 then umul128 a b
                       else (let p = a * b in (p AND 0xFFFFFFFF, drop_bit 32 p AND 0xFFFFFFFF)))
       in set_r64 (o_reg (i_dst i)) hi (set_r64 (o_index (i_dst i)) lo c))"

text \<open>The loops of PDEP and PEXT clear the lowest set bit of the mask in each turn; the first
  argument bounds the turns, of which there are at most 64.\<close>

fun pdep_loop :: "nat \<Rightarrow> u64 \<Rightarrow> u64 \<Rightarrow> u8 \<Rightarrow> u64 \<Rightarrow> u64" where
  "pdep_loop 0 m s b r = r"
| "pdep_loop (Suc k) m s b r =
     (if m = 0 then r
      else pdep_loop k (m AND (m - 1)) s (b + 1)
             (if drop_bit (unat b) s AND 1 \<noteq> 0 then r OR (m AND (0 - m)) else r))"

definition op_pdep :: "'m env \<Rightarrow> insn \<Rightarrow> 'm cpu \<Rightarrow> 'm cpu" where
  "op_pdep env i c =
     read_then (read_src_u64 env i c) (\<lambda>m c. write_dst env i (pdep_loop 64 m (read_vvvv c i) 0 0) c)"

fun pext_loop :: "nat \<Rightarrow> u64 \<Rightarrow> u64 \<Rightarrow> u8 \<Rightarrow> u64 \<Rightarrow> u64" where
  "pext_loop 0 m s b r = r"
| "pext_loop (Suc k) m s b r =
     (if m = 0 then r
      else pext_loop k (m AND (m - 1)) s (b + 1)
             (if s AND (m AND (0 - m)) \<noteq> 0 then r OR push_bit (unat b) 1 else r))"

definition op_pext :: "'m env \<Rightarrow> insn \<Rightarrow> 'm cpu \<Rightarrow> 'm cpu" where
  "op_pext env i c =
     read_then (read_src_u64 env i c) (\<lambda>m c. write_dst env i (pext_loop 64 m (read_vvvv c i) 0 0) c)"

text \<open>For \<open>n = 0\<close> at size 8 the source shifts left by 64; the model's zero leaves the source unchanged,
  as the hardware shift by \<open>64 mod 64\<close> does.\<close>

definition op_rorx :: "'m env \<Rightarrow> insn \<Rightarrow> 'm cpu \<Rightarrow> 'm cpu" where
  "op_rorx env i c =
     read_then (read_src_u64 env i c) (\<lambda>s c.
       let s = s AND mask_for (i_op_size i); width = i_op_size i * 8;
           n = ucast (i_imm_extra i AND (ucast width - 1)) :: u8;
           r = (drop_bit (unat n) s OR push_bit (unat (width - n)) s) AND mask_for (i_op_size i)
       in write_dst env i r c)"

definition vvvv_count :: "'m cpu \<Rightarrow> insn \<Rightarrow> u8" where
  "vvvv_count c i = ucast (read_vvvv c i AND ucast (shift_count_mask (i_op_size i)))"

definition op_sarx :: "'m env \<Rightarrow> insn \<Rightarrow> 'm cpu \<Rightarrow> 'm cpu" where
  "op_sarx env i c =
     read_then (read_src_u64 env i c) (\<lambda>s c.
       let n = vvvv_count c i
       in write_dst env i (signed_drop_bit (unat n) (sign_extend s (i_op_size i)) AND mask_for (i_op_size i)) c)"

definition op_shlx :: "'m env \<Rightarrow> insn \<Rightarrow> 'm cpu \<Rightarrow> 'm cpu" where
  "op_shlx env i c =
     read_then (read_src_u64 env i c) (\<lambda>s c.
       let n = vvvv_count c i in write_dst env i (push_bit (unat n) s AND mask_for (i_op_size i)) c)"

definition op_shrx :: "'m env \<Rightarrow> insn \<Rightarrow> 'm cpu \<Rightarrow> 'm cpu" where
  "op_shrx env i c =
     read_then (read_src_u64 env i c) (\<lambda>s c.
       let n = vvvv_count c i in write_dst env i (drop_bit (unat n) (s AND mask_for (i_op_size i))) c)"

end
