(* ===== verification/Shift_Rotate.thy ===== *)
theory Shift_Rotate
  imports Multiply_Divide
begin

text \<open>
  The shift and rotate handlers of \<^verbatim>\<open>src/emu/handlers/shift_rotate.cpp\<close>.  Counts are 8-bit values masked to
  5 or 6 bits; the loops of RCL and RCR are recursions on their iteration count.
\<close>

section \<open>Handlers\<close>

definition read_count :: "'m env \<Rightarrow> insn \<Rightarrow> 'm cpu \<Rightarrow> u8 option \<times> 'm cpu" where
  "read_count env i c =
     (case read_operand env i (i_src i) 1 c of
        (None, c) \<Rightarrow> (None, c)
      | (Some v, c) \<Rightarrow> (Some (ucast (v AND ucast (shift_count_mask (i_op_size i)))), c))"

definition shl_value :: "u8 \<Rightarrow> u64 \<Rightarrow> u8 \<Rightarrow> u64" where
  "shl_value sz a n = (if sz * 8 \<le> n then 0 else push_bit (unat n) a AND mask_for sz)"

definition op_shl :: "'m env \<Rightarrow> insn \<Rightarrow> 'm cpu \<Rightarrow> 'm cpu" where
  "op_shl env i c =
     read_then (read_operand env i (i_dst i) (i_op_size i) c) (\<lambda>a c.
     read_then (read_count env i c) (\<lambda>n c.
       let r = shl_value (i_op_size i) a n
       in ok_then (write_operand env i (i_dst i) (i_op_size i) r c) (stash_shl (i_op_size i) a n r)))"

definition shr_value :: "u8 \<Rightarrow> u64 \<Rightarrow> u8 \<Rightarrow> u64" where
  "shr_value sz a n = (if sz * 8 \<le> n then 0 else drop_bit (unat n) (a AND mask_for sz))"

definition op_shr :: "'m env \<Rightarrow> insn \<Rightarrow> 'm cpu \<Rightarrow> 'm cpu" where
  "op_shr env i c =
     read_then (read_operand env i (i_dst i) (i_op_size i) c) (\<lambda>a c.
     read_then (read_count env i c) (\<lambda>n c.
       let r = shr_value (i_op_size i) a n
       in ok_then (write_operand env i (i_dst i) (i_op_size i) r c) (stash_shr (i_op_size i) a n r)))"

definition sar_value :: "u8 \<Rightarrow> u64 \<Rightarrow> u8 \<Rightarrow> u64" where
  "sar_value sz a n =
     (let sa = sign_extend a sz;
          sr = (if sz * 8 \<le> n then (if sint sa < 0 then NOT 0 else 0)
                else signed_drop_bit (unat n) sa)
      in sr AND mask_for sz)"

definition op_sar :: "'m env \<Rightarrow> insn \<Rightarrow> 'm cpu \<Rightarrow> 'm cpu" where
  "op_sar env i c =
     read_then (read_operand env i (i_dst i) (i_op_size i) c) (\<lambda>a c.
     read_then (read_count env i c) (\<lambda>n c.
       let r = sar_value (i_op_size i) a n
       in ok_then (write_operand env i (i_dst i) (i_op_size i) r c) (stash_sar (i_op_size i) a n r)))"

definition rol_value :: "u8 \<Rightarrow> u64 \<Rightarrow> u8 \<Rightarrow> u64" where
  "rol_value sz a n =
     (let w = sz * 8; k = n AND (w - 1); m = mask_for sz; av = a AND m
      in if k = 0 then av else (push_bit (unat k) av OR drop_bit (unat (w - k)) av) AND m)"

definition op_rol :: "'m env \<Rightarrow> insn \<Rightarrow> 'm cpu \<Rightarrow> 'm cpu" where
  "op_rol env i c =
     read_then (read_operand env i (i_dst i) (i_op_size i) c) (\<lambda>a c.
     read_then (read_count env i c) (\<lambda>n c.
       let r = rol_value (i_op_size i) a n
       in ok_then (write_operand env i (i_dst i) (i_op_size i) r c) (stash_rol (i_op_size i) a n r)))"

definition ror_value :: "u8 \<Rightarrow> u64 \<Rightarrow> u8 \<Rightarrow> u64" where
  "ror_value sz a n =
     (let w = sz * 8; k = n AND (w - 1); m = mask_for sz; av = a AND m
      in if k = 0 then av else (drop_bit (unat k) av OR push_bit (unat (w - k)) av) AND m)"

definition op_ror :: "'m env \<Rightarrow> insn \<Rightarrow> 'm cpu \<Rightarrow> 'm cpu" where
  "op_ror env i c =
     read_then (read_operand env i (i_dst i) (i_op_size i) c) (\<lambda>a c.
     read_then (read_count env i c) (\<lambda>n c.
       let r = ror_value (i_op_size i) a n
       in ok_then (write_operand env i (i_dst i) (i_op_size i) r c) (stash_ror (i_op_size i) a n r)))"

text \<open>One turn of the loops, iterated \<open>k\<close> times.\<close>

fun rcl_loop :: "nat \<Rightarrow> u8 \<Rightarrow> u64 \<Rightarrow> bool \<Rightarrow> u64 \<times> bool" where
  "rcl_loop 0 sz v cf = (v, cf)"
| "rcl_loop (Suc k) sz v cf =
     rcl_loop k sz ((push_bit 1 v OR of_bool cf) AND mask_for sz) (v AND sign_mask sz \<noteq> 0)"

definition op_rcl :: "'m env \<Rightarrow> insn \<Rightarrow> 'm cpu \<Rightarrow> 'm cpu" where
  "op_rcl env i c =
     read_then (read_operand env i (i_dst i) (i_op_size i) c) (\<lambda>a c.
     read_then (read_count env i c) (\<lambda>n c.
       let sz = i_op_size i; w = sz * 8; k = unat n mod (unat w + 1)
       in if n = 0 \<or> k = 0 then c
          else
            (let c = force_sync_flags c;
                 (v, cf) = rcl_loop k sz (a AND mask_for sz) (get_cf c)
             in ok_then (write_operand env i (i_dst i) sz v c) (\<lambda>c.
                  let c = set_cf cf c
                  in if n = 1 then set_of ((v AND sign_mask sz \<noteq> 0) \<noteq> cf) c else c))))"

fun rcr_loop :: "nat \<Rightarrow> u8 \<Rightarrow> u64 \<Rightarrow> bool \<Rightarrow> u64 \<times> bool" where
  "rcr_loop 0 sz v cf = (v, cf)"
| "rcr_loop (Suc k) sz v cf =
     rcr_loop k sz (drop_bit 1 v OR (if cf then sign_mask sz else 0)) (v AND 1 \<noteq> 0)"

definition op_rcr :: "'m env \<Rightarrow> insn \<Rightarrow> 'm cpu \<Rightarrow> 'm cpu" where
  "op_rcr env i c =
     read_then (read_operand env i (i_dst i) (i_op_size i) c) (\<lambda>a c.
     read_then (read_count env i c) (\<lambda>n c.
       let sz = i_op_size i; w = sz * 8; k = unat n mod (unat w + 1)
       in if n = 0 \<or> k = 0 then c
          else
            (let c = force_sync_flags c; v0 = a AND mask_for sz; cf0 = get_cf c;
                 c = (if n = 1 then set_of ((v0 AND sign_mask sz \<noteq> 0) \<noteq> cf0) c else c);
                 (v, cf) = rcr_loop k sz v0 cf0
             in ok_then (write_operand env i (i_dst i) sz v c) (set_cf cf))))"

text \<open>The count of SHLD and SHRD is CL for a register source and \<open>imm_extra\<close> otherwise.\<close>

definition double_count :: "insn \<Rightarrow> 'm cpu \<Rightarrow> u8" where
  "double_count i c =
     (if o_kind (i_src i) = OK_Reg then reg8 c RCX AND shift_count_mask (i_op_size i)
      else ucast (i_imm_extra i AND ucast (shift_count_mask (i_op_size i))))"

definition op_shld :: "'m env \<Rightarrow> insn \<Rightarrow> 'm cpu \<Rightarrow> 'm cpu" where
  "op_shld env i c =
     read_then (read_operand env i (i_dst i) (i_op_size i) c) (\<lambda>d c.
       let sz = i_op_size i; s = reg c (o_index (i_dst i)) AND mask_for sz;
           n = double_count i c; w = sz * 8
       in if n = 0 then c
          else if w \<le> n then ok_then (write_operand env i (i_dst i) sz 0 c) (stash_logic sz 0)
          else
            (let r = (push_bit (unat n) d OR drop_bit (unat (w - n)) s) AND mask_for sz
             in ok_then (write_operand env i (i_dst i) sz r c) (stash_shl sz d n r)))"

definition op_shrd :: "'m env \<Rightarrow> insn \<Rightarrow> 'm cpu \<Rightarrow> 'm cpu" where
  "op_shrd env i c =
     read_then (read_operand env i (i_dst i) (i_op_size i) c) (\<lambda>d c.
       let sz = i_op_size i; s = reg c (o_index (i_dst i)) AND mask_for sz;
           n = double_count i c; w = sz * 8
       in if n = 0 then c
          else if w \<le> n then ok_then (write_operand env i (i_dst i) sz 0 c) (stash_logic sz 0)
          else
            (let r = (drop_bit (unat n) d OR push_bit (unat (w - n)) s) AND mask_for sz
             in ok_then (write_operand env i (i_dst i) sz r c) (stash_shr sz d n r)))"

end
