(* ===== verification/Dispatcher.thy ===== *)
theory Dispatcher
  imports Block_Cache String_Ops Bit_Manip Shift_Rotate
begin

text \<open>
  The run loop of \<^verbatim>\<open>emu/emu.h\<close> and \<^verbatim>\<open>src/emu/dispatcher/dispatcher.cpp\<close>: decode a block or take it from the cache,
  replay it instruction by instruction with breakpoints, hooks, faults and recovery, and continue at
  the new RIP.  Writes that hit cached code are queued by the memory; the loop drains the queue
  before it looks a block up, which is where a stale block would be used.
\<close>

section \<open>Calling a handler\<close>

text \<open>The call through the handler pointer; the functions behind the names of \<open>H_other\<close> are an argument here and are filled in by
  the theory \<open>Handler_Table\<close>.\<close>

fun run_move :: "move_handler \<Rightarrow> 'm env \<Rightarrow> insn \<Rightarrow> 'm cpu \<Rightarrow> 'm cpu" where
  "run_move H_invalid = op_invalid"
| "run_move H_nop = op_nop"
| "run_move H_mov = op_mov"
| "run_move H_movzx = op_movzx"
| "run_move H_movsx = op_movsx"
| "run_move H_movsxd = op_movsxd"
| "run_move H_lea = op_lea"
| "run_move H_push = op_push"
| "run_move H_pop = op_pop"
| "run_move H_cmov = op_cmov"
| "run_move H_xchg = op_xchg"
| "run_move H_bswap = op_bswap"
| "run_move H_cwde = op_cwde"
| "run_move H_cdq = op_cdq"

fun run_arith :: "arith_handler \<Rightarrow> 'm env \<Rightarrow> insn \<Rightarrow> 'm cpu \<Rightarrow> 'm cpu" where
  "run_arith H_add = op_add"
| "run_arith H_adc = op_adc"
| "run_arith H_sub = op_sub"
| "run_arith H_sbb = op_sbb"
| "run_arith H_inc = op_inc"
| "run_arith H_dec = op_dec"
| "run_arith H_neg = op_neg"
| "run_arith H_imul = op_imul"
| "run_arith H_mul = op_mul"
| "run_arith H_imul1 = op_imul1"
| "run_arith H_div = op_div"
| "run_arith H_idiv = op_idiv"

fun run_logic :: "logic_handler \<Rightarrow> 'm env \<Rightarrow> insn \<Rightarrow> 'm cpu \<Rightarrow> 'm cpu" where
  "run_logic H_and = op_and"
| "run_logic H_or = op_or"
| "run_logic H_xor = op_xor"
| "run_logic H_not = op_not"
| "run_logic H_test = op_test"
| "run_logic H_cmp = op_cmp"

fun run_shift :: "shift_handler \<Rightarrow> 'm env \<Rightarrow> insn \<Rightarrow> 'm cpu \<Rightarrow> 'm cpu" where
  "run_shift H_shl = op_shl"
| "run_shift H_shr = op_shr"
| "run_shift H_sar = op_sar"
| "run_shift H_rol = op_rol"
| "run_shift H_ror = op_ror"
| "run_shift H_rcl = op_rcl"
| "run_shift H_rcr = op_rcr"
| "run_shift H_shld = op_shld"
| "run_shift H_shrd = op_shrd"

fun run_flow :: "flow_handler \<Rightarrow> 'm env \<Rightarrow> insn \<Rightarrow> 'm cpu \<Rightarrow> 'm cpu" where
  "run_flow H_jmp = op_jmp"
| "run_flow H_jcc = op_jcc"
| "run_flow H_call = op_call"
| "run_flow H_ret = op_ret"
| "run_flow H_loop = op_loop"
| "run_flow H_jcxz = op_jcxz"
| "run_flow H_cpuid = op_cpuid"
| "run_flow H_rdtsc = op_rdtsc"
| "run_flow H_rdrand = op_rdrand"
| "run_flow H_hlt = op_hlt"
| "run_flow H_syscall = op_syscall"

fun run_string :: "string_handler \<Rightarrow> 'm env \<Rightarrow> insn \<Rightarrow> 'm cpu \<Rightarrow> 'm cpu" where
  "run_string H_movs = op_movs"
| "run_string H_stos = op_stos"
| "run_string H_lods = op_lods"
| "run_string H_scas = op_scas"
| "run_string H_cmps = op_cmps"

fun run_bits :: "bits_handler \<Rightarrow> 'm env \<Rightarrow> insn \<Rightarrow> 'm cpu \<Rightarrow> 'm cpu" where
  "run_bits H_bsf = op_bsf"
| "run_bits H_bsr = op_bsr"
| "run_bits H_bt = op_bt"
| "run_bits H_bts = op_bts"
| "run_bits H_btr = op_btr"
| "run_bits H_btc = op_btc"
| "run_bits H_popcnt = op_popcnt"
| "run_bits H_lzcnt = op_lzcnt"
| "run_bits H_tzcnt = op_tzcnt"

fun run_bmi :: "bmi_handler \<Rightarrow> 'm env \<Rightarrow> insn \<Rightarrow> 'm cpu \<Rightarrow> 'm cpu" where
  "run_bmi H_andn = op_andn"
| "run_bmi H_bextr = op_bextr"
| "run_bmi H_blsi = op_blsi"
| "run_bmi H_blsr = op_blsr"
| "run_bmi H_blsmsk = op_blsmsk"
| "run_bmi H_bzhi = op_bzhi"
| "run_bmi H_mulx = op_mulx"
| "run_bmi H_pdep = op_pdep"
| "run_bmi H_pext = op_pext"
| "run_bmi H_rorx = op_rorx"
| "run_bmi H_sarx = op_sarx"
| "run_bmi H_shlx = op_shlx"
| "run_bmi H_shrx = op_shrx"

fun run_handler ::
  "(string \<Rightarrow> 'm env \<Rightarrow> insn \<Rightarrow> 'm cpu \<Rightarrow> 'm cpu) \<Rightarrow> handler \<Rightarrow> 'm env \<Rightarrow> insn \<Rightarrow> 'm cpu \<Rightarrow> 'm cpu" where
  "run_handler other (HMove h) = run_move h"
| "run_handler other (HArith h) = run_arith h"
| "run_handler other (HLogic h) = run_logic h"
| "run_handler other (HShift h) = run_shift h"
| "run_handler other (HFlow h) = run_flow h"
| "run_handler other (HString h) = run_string h"
| "run_handler other (HBits h) = run_bits h"
| "run_handler other (HBmi h) = run_bmi h"
| "run_handler other (H_other n) = other n"

section \<open>The emulator\<close>

text \<open>
  The members of \<open>Emulator\<close> and of the CPU's environment.  The trace callback cannot change the CPU, so
  only its presence counts.  \<open>em_drain\<close> takes the queued writes to code out of the memory.
\<close>

record 'm emulator =
  em_read :: "'m provider option"
  em_write :: "'m provider option"
  em_hooks :: "'m hook_manager"
  em_blocks :: block_cache
  em_btc :: btc
  em_trace :: bool
  em_recovery :: "(fault \<Rightarrow> 'm cpu \<Rightarrow> bool \<times> 'm cpu) option"
  em_fault_hook :: "(fault \<Rightarrow> 'm cpu \<Rightarrow> 'm cpu) option"
  em_iat :: "'m iat_stubs option"
  em_stops :: "GuestAddr list"
  em_folded :: u64
  em_dec :: "'m decoder"
  em_other :: "string \<Rightarrow> 'm env \<Rightarrow> insn \<Rightarrow> 'm cpu \<Rightarrow> 'm cpu"
  em_drain :: "'m \<Rightarrow> (GuestAddr \<times> nat) list \<times> 'm"

record run_result =
  rr_status :: Status
  rr_executed :: u64
  rr_rip :: GuestAddr
  rr_rax :: u64

definition em_env :: "'m emulator \<Rightarrow> 'm env" where
  "em_env e = \<lparr>e_mem_read = em_read e, e_mem_write = em_write e, e_hooks = Some (em_hooks e)\<rparr>"

definition add_stop_addr :: "GuestAddr \<Rightarrow> 'm emulator \<Rightarrow> 'm emulator" where
  "add_stop_addr a e = e\<lparr>em_stops := em_stops e @ [a]\<rparr>"

definition clear_stop_addrs :: "'m emulator \<Rightarrow> 'm emulator" where
  "clear_stop_addrs e = e\<lparr>em_stops := []\<rparr>"

definition is_stop :: "'m emulator \<Rightarrow> GuestAddr \<Rightarrow> bool" where
  "is_stop e a = List.member (em_stops e) a"

section \<open>Hooks of the run loop\<close>

definition fire_block_hooks :: "'m emulator \<Rightarrow> GuestAddr \<Rightarrow> u32 \<Rightarrow> 'm cpu \<Rightarrow> 'm cpu" where
  "fire_block_hooks e pc len c =
     (if hook_any HK_Block (em_hooks e)
      then for_each HK_Block (\<lambda>h c. if hook_in_range h pc then call_block (h_callback h) pc len c else c) (em_hooks e) c
      else c)"

definition fire_code_hooks :: "'m emulator \<Rightarrow> insn \<Rightarrow> 'm cpu \<Rightarrow> 'm cpu" where
  "fire_code_hooks e i c =
     (if hook_any HK_Code (em_hooks e)
      then for_each HK_Code (\<lambda>h c. if hook_in_range h (i_rip i)
                                    then call_code (h_callback h) (i_rip i) (ucast (i_len i)) c else c) (em_hooks e) c
      else c)"

definition fire_insn_hooks :: "'m emulator \<Rightarrow> insn \<Rightarrow> 'm cpu \<Rightarrow> 'm cpu" where
  "fire_insn_hooks e i c =
     (if hook_any HK_Insn (em_hooks e)
      then for_each HK_Insn (\<lambda>h c. if (h_filter_op h = Op_Invalid \<or> h_filter_op h = i_kind i) \<and> hook_in_range h (i_rip i)
                                    then call_insn (h_callback h) i c else c) (em_hooks e) c
      else c)"

definition fire_fault_hooks :: "'m emulator \<Rightarrow> 'm cpu \<Rightarrow> 'm cpu" where
  "fire_fault_hooks e c =
     (let c = (case em_fault_hook e of None \<Rightarrow> c | Some cb \<Rightarrow> cb (c_fault c) c)
      in if hook_any HK_Fault (em_hooks e)
         then for_each HK_Fault (\<lambda>h c. call_fault (h_callback h) (c_fault c) c) (em_hooks e) c
         else c)"

section \<open>One instruction\<close>

definition exec_insn :: "'m emulator \<Rightarrow> insn \<Rightarrow> 'm cpu \<Rightarrow> 'm cpu" where
  "exec_insn e i c =
     (let c = fire_insn_hooks e i (fire_code_hooks e i c);
          c = (if em_trace e then set_rip (i_rip i) c else c)
      in run_handler (em_other e) (i_handler i) (em_env e) i c)"

definition result_at :: "Status \<Rightarrow> u64 \<Rightarrow> GuestAddr \<Rightarrow> 'm cpu \<Rightarrow> run_result" where
  "result_at s n rip c = \<lparr>rr_status = s, rr_executed = n, rr_rip = rip, rr_rax = reg c RAX\<rparr>"

datatype block_end = Finished run_result | Leave bool

text \<open>A handler has halted the CPU: recovery, or the end of the run.\<close>

definition after_halt :: "'m emulator \<Rightarrow> u64 \<Rightarrow> 'm cpu \<Rightarrow> block_end \<times> 'm cpu" where
  "after_halt e n c =
     (let (recovered, c) =
            (if is_set (c_fault c) then
               (case em_recovery e of None \<Rightarrow> (False, c) | Some cb \<Rightarrow> cb (c_fault c) c)
             else (False, c))
      in if recovered then (Leave True, unhalt (clear_fault c))
         else if is_set (c_fault c) then
           (let s = (if f_reason (c_fault c) \<noteq> St_Ok then f_reason (c_fault c) else St_Internal)
            in (Finished (result_at s n (c_rip c) c), fire_fault_hooks e c))
         else (Finished (result_at St_Ok n (c_rip c) c), c))"

definition note_branch :: "GuestAddr \<Rightarrow> GuestAddr \<Rightarrow> btc \<Rightarrow> btc" where
  "note_branch pc target t =
     (if btc_predict pc t = target then btc_count_hit t else btc_record pc target (btc_count_miss t))"

fun replay :: "'m emulator \<Rightarrow> u64 \<Rightarrow> insn list \<Rightarrow> u64 \<Rightarrow> btc \<Rightarrow> 'm cpu \<Rightarrow> block_end \<times> u64 \<times> btc \<times> 'm cpu" where
  "replay e max_insns [] n t c = (Leave False, n, t, c)"
| "replay e max_insns (i # is) n t c =
     (if c_halted c then (Leave True, n, t, c)
      else
        (case exec_breakpoint_at (i_rip i) (clear_branch c) of
           (True, c) \<Rightarrow> (Leave True, n, t, set_fault FK_Breakpoint (i_rip i) St_Ok ''DR execute breakpoint'' c)
         | (False, c) \<Rightarrow>
             (let c = exec_insn e i c; n = n + 1
              in if c_halted c then (case after_halt e n c of (r, c) \<Rightarrow> (r, n, t, c))
                 else if c_branch_taken c then (Leave True, n, note_branch (i_rip i) (c_rip c) t, c)
                 else
                   (let c = set_rip (i_rip i + ucast (i_len i)) c
                    in if is_stop e (c_rip c) then (Finished (result_at St_Ok n (c_rip c) c), n, t, c)
                       else if \<not> n < max_insns then (Leave True, n, t, c)
                       else replay e max_insns is n t c))))"

section \<open>The loop\<close>

definition drain_writes :: "'m emulator \<Rightarrow> 'm cpu \<Rightarrow> 'm emulator \<times> 'm cpu" where
  "drain_writes e c =
     (case em_drain e (c_mem c) of
        (ws, m) \<Rightarrow> (e\<lparr>em_blocks := fold (\<lambda>(a, k). invalidate_range a (of_nat k)) ws (em_blocks e)\<rparr>, c\<lparr>c_mem := m\<rparr>))"

text \<open>The block at \<open>pc\<close>, from the cache or decoded and inserted.\<close>

definition fetch_block ::
  "'m emulator \<Rightarrow> 'm provider \<Rightarrow> GuestAddr \<Rightarrow> 'm cpu \<Rightarrow> (Status + decoded_block) \<times> 'm emulator \<times> 'm cpu" where
  "fetch_block e p pc c =
     (case block_lookup pc (em_blocks e) of
        (Some b, bc) \<Rightarrow> (Inr b, e\<lparr>em_blocks := bc\<rparr>, c)
      | (None, bc) \<Rightarrow>
          (case decode_block (em_dec e) p pc 1024 (em_folded e) (c_mem c) of
             (s, b, folded, m) \<Rightarrow>
               if fail s then (Inl s, e\<lparr>em_blocks := bc\<rparr>, c\<lparr>c_mem := m\<rparr>)
               else (Inr b, e\<lparr>em_blocks := block_insert pc b bc, em_folded := folded\<rparr>, c\<lparr>c_mem := m\<rparr>)))"

text \<open>One turn of the outer loop; \<open>None\<close> means that the loop goes on.\<close>

definition block_turn ::
  "'m emulator \<Rightarrow> 'm provider \<Rightarrow> u64 \<Rightarrow> u64 \<Rightarrow> 'm cpu \<Rightarrow> run_result option \<times> u64 \<times> 'm emulator \<times> 'm cpu" where
  "block_turn e p max_insns n c =
     (let pc = c_rip c
      in case drain_writes e c of
           (e, c) \<Rightarrow>
             (case fetch_block e p pc c of
                (Inl s, e, c) \<Rightarrow> (Some (result_at s n pc c), n, e, c)
              | (Inr b, e, c) \<Rightarrow>
                  (case replay e max_insns (b_insns b) n (em_btc e) (fire_block_hooks e pc (b_byte_size b) c) of
                     (r, n, t, c) \<Rightarrow>
                       (let e = e\<lparr>em_btc := t\<rparr>
                        in case r of
                             Finished res \<Rightarrow> (Some res, n, e, c)
                           | Leave out \<Rightarrow>
                               if out \<and> is_stop e (c_rip c) then (Some (result_at St_Ok n (c_rip c) c), n, e, c)
                               else (None, n, e, c)))))"

definition stub_turn ::
  "'m emulator \<Rightarrow> 'm iat_stubs \<Rightarrow> u64 \<Rightarrow> 'm cpu \<Rightarrow> run_result option \<times> u64 \<times> 'm emulator \<times> 'm cpu" where
  "stub_turn e tab n c =
     (let pc = c_rip c
      in case stub_dispatch tab (em_env e) pc c of
           (ok, c) \<Rightarrow>
             if \<not> ok then (Some (result_at (f_reason (c_fault c)) n pc c), n, e, c)
             else if is_stop e (c_rip c) then (Some (result_at St_Ok n (c_rip c) c), n, e, c)
             else (None, n, e, c))"

definition run_turn ::
  "'m emulator \<Rightarrow> 'm provider \<Rightarrow> u64 \<Rightarrow> u64 \<Rightarrow> 'm cpu \<Rightarrow> run_result option \<times> u64 \<times> 'm emulator \<times> 'm cpu" where
  "run_turn e p max_insns n c =
     (if \<not> n < max_insns \<or> c_halted c then (Some (result_at St_Ok n (c_rip c) c), n, e, c)
      else (case em_iat e of
              None \<Rightarrow> block_turn e p max_insns n c
            | Some tab \<Rightarrow> if stub_in_region (c_rip c) then stub_turn e tab n c else block_turn e p max_insns n c))"

text \<open>The loop itself has no bound when import stubs return to import stubs; \<open>None\<close> is running out of fuel.\<close>

fun run_loop ::
  "nat \<Rightarrow> 'm emulator \<Rightarrow> 'm provider \<Rightarrow> u64 \<Rightarrow> u64 \<Rightarrow> 'm cpu \<Rightarrow> (run_result \<times> 'm emulator \<times> 'm cpu) option" where
  "run_loop 0 e p max_insns n c = None"
| "run_loop (Suc fuel) e p max_insns n c =
     (case run_turn e p max_insns n c of
        (Some r, n, e, c) \<Rightarrow> Some (r, e, c)
      | (None, n, e, c) \<Rightarrow> run_loop fuel e p max_insns n c)"

definition run_with_cpu ::
  "nat \<Rightarrow> 'm emulator \<Rightarrow> 'm cpu \<Rightarrow> GuestAddr \<Rightarrow> u64 \<Rightarrow> (run_result \<times> 'm emulator \<times> 'm cpu) option" where
  "run_with_cpu fuel e c entry max_insns =
     (let c = set_rip entry (clear_branch (unhalt c))
      in case em_read e of
           None \<Rightarrow> Some (\<lparr>rr_status = St_ProviderFailure, rr_executed = 0, rr_rip = 0, rr_rax = 0\<rparr>, e, c)
         | Some p \<Rightarrow> run_loop fuel e p max_insns 0 c)"

section \<open>Progress\<close>

definition blocks_ok :: "block_cache \<Rightarrow> bool" where
  "blocks_ok bc \<longleftrightarrow> (\<forall>pc b. bc_blocks bc pc = Some b \<longrightarrow> b_insns b \<noteq> [])"

lemma step_count: "n < m \<Longrightarrow> n < n + 1 \<and> n + 1 \<le> (m :: u64)"
  using word_less_nat_alt [of n m] unsigned_less [of m, where ?'a = nat]
  by (simp add: word_less_nat_alt word_le_nat_alt unat_word_ariths)

lemma after_halt_count: "after_halt e n c = (Finished r, c') \<Longrightarrow> rr_executed r = n"
  by (auto simp: after_halt_def result_at_def Let_def split: if_splits option.splits prod.splits)

lemma replay_progress:
  assumes "replay e m is n t c = (r, n', t', c')" "n < m" "is \<noteq> []"
  shows "n \<le> n' \<and> n' \<le> m \<and> (\<forall>res. r = Finished res \<longrightarrow> rr_executed res = n') \<and>
    (\<forall>out. r = Leave out \<longrightarrow> n < n' \<or> c_halted c')"
  using assms
proof (induction "is" arbitrary: n t c)
  case (Cons i "is")
  note st = step_count [OF Cons.prems(2)]
  obtain hit d where b: "exec_breakpoint_at (i_rip i) (clear_branch c) = (hit, d)" by fastforce
  let ?d = "exec_insn e i d" and ?f = "set_rip (i_rip i + ucast (i_len i)) (exec_insn e i d)"
  show ?case
  proof (cases "c_halted c \<or> hit \<or> c_halted ?d \<or> c_branch_taken ?d \<or> is_stop e (c_rip ?f) \<or> \<not> n + 1 < m")
    case True
    then show ?thesis
      using Cons.prems(1,2) b st
      by (auto simp: Let_def result_at_def set_fault_def less_imp_le order.trans split: if_splits prod.splits bool.splits
          dest: after_halt_count)
  next
    case False
    then have r: "replay e m is (n + 1) t ?f = (r, n', t', c')"
      using Cons.prems(1) b by (simp add: Let_def)
    show ?thesis
    proof (cases "is = []")
      case True
      then show ?thesis using r st by (auto simp: less_imp_le)
    next
      case ne: False
      from False have "n + 1 < m" by blast
      from Cons.IH [OF r this ne] st show ?thesis by (auto intro: order.trans less_le_trans)
    qed
  qed
qed simp


lemma decode_block_nonempty:
  assumes "decode_block dec p pc n k m = (St_Ok, b, k', m')" "0 < n"
  shows "b_insns b \<noteq> []"
proof -
  let ?b0 = "\<lparr>b_pc = pc, b_byte_size = 0, b_insns = []\<rparr>"
  obtain s c m1 where l: "decode_loop dec p n pc ?b0 m = (s, c, m1)" by (metis prod_cases3)
  then have s: "s = St_Ok" and ph: "peephole_block c k = (b, k')"
    using assms(1) by (auto simp: decode_block_def split: if_splits prod.splits)
  obtain j where n: "n = Suc j" using assms(2) by (cases n) simp_all
  obtain t i m2 where d: "dec p pc m = (t, i, m2)" by (metis prod_cases3)
  have t: "t = St_Ok" using l s d by (auto simp: n split: if_splits)
  have "b_insns c \<noteq> []"
  proof (cases "i_flags i AND INSN_FLAG_CONTROL_FLOW = 0")
    case True
    then have "decode_loop dec p j (pc + ucast (i_len i)) (?b0\<lparr>b_insns := [] @ [i], b_byte_size := 0 + ucast (i_len i)\<rparr>) m2 = (s, c, m1)"
      using l d t by (simp add: n Let_def)
    from decode_loop_grows [OF _ this] show ?thesis by simp
  next
    case False
    then show ?thesis using l d t by (auto simp: n Let_def)
  qed
  then show ?thesis using peephole_shape(1) [OF ph] by (metis length_0_conv)
qed

lemma blocks_ok_invalidate: "blocks_ok bc \<Longrightarrow> blocks_ok (invalidate_range a len bc)"
  by (auto simp: blocks_ok_def invalidate_range_def split: option.splits if_splits)

lemma blocks_ok_drain: "blocks_ok bc \<Longrightarrow> blocks_ok (fold (\<lambda>(a, k). invalidate_range a (of_nat k)) ws bc)"
  by (induction ws arbitrary: bc) (auto intro: blocks_ok_invalidate)

lemma fetch_block_ok:
  assumes "fetch_block e p pc c = (r, e', c')" "blocks_ok (em_blocks e)"
  shows "blocks_ok (em_blocks e')" "r = Inr b \<Longrightarrow> b_insns b \<noteq> []" "em_iat e' = em_iat e"
proof -
  have "blocks_ok (em_blocks e') \<and> (\<forall>b. r = Inr b \<longrightarrow> b_insns b \<noteq> []) \<and> em_iat e' = em_iat e"
  proof (cases "bc_blocks (em_blocks e) pc")
    case (Some b)
    then show ?thesis using assms by (auto simp: fetch_block_def block_lookup_def blocks_ok_def)
  next
    case None
    obtain s b k m where d: "decode_block (em_dec e) p pc 1024 (em_folded e) (c_mem c) = (s, b, k, m)" by (metis prod_cases4)
    have "s = St_Ok \<Longrightarrow> b_insns b \<noteq> []" using decode_block_nonempty [of "em_dec e" p pc 1024] d by simp
    then show ?thesis
      using None d assms by (auto simp: fetch_block_def block_lookup_def block_insert_def blocks_ok_def split: if_splits)
  qed
  then show "blocks_ok (em_blocks e')" "r = Inr b \<Longrightarrow> b_insns b \<noteq> []" "em_iat e' = em_iat e" by blast+
qed

text \<open>A turn without import stubs ends the run, executes an instruction, or leaves the CPU halted.\<close>

lemma block_turn_progress:
  assumes "block_turn e p m n c = (r, n', e', c')" "n < m" "blocks_ok (em_blocks e)"
  shows "n \<le> n' \<and> n' \<le> m \<and> (\<forall>res. r = Some res \<longrightarrow> rr_executed res = n') \<and>
    (r = None \<longrightarrow> (n < n' \<or> c_halted c') \<and> blocks_ok (em_blocks e') \<and> em_iat e' = em_iat e)"
proof -
  obtain e1 c1 where d: "drain_writes e c = (e1, c1)" by fastforce
  then have ok1: "blocks_ok (em_blocks e1)" "em_iat e1 = em_iat e"
    using blocks_ok_drain [OF assms(3)] by (auto simp: drain_writes_def split: prod.splits)
  obtain q e2 c2 where f: "fetch_block e1 p (c_rip c) c1 = (q, e2, c2)" by (metis prod_cases3)
  note ok2 = fetch_block_ok [OF f ok1(1)]
  show ?thesis
  proof (cases q)
    case (Inl s)
    then show ?thesis using assms(1,2) d f by (auto simp: block_turn_def result_at_def Let_def less_imp_le)
  next
    case (Inr b)
    obtain x n2 t c3 where rp: "replay e2 m (b_insns b) n (em_btc e2) (fire_block_hooks e2 (c_rip c) (b_byte_size b) c2) = (x, n2, t, c3)"
      by (metis prod_cases4)
    note pr = replay_progress [OF rp assms(2) ok2(2) [OF Inr]]
    show ?thesis
    proof (cases x)
      case (Finished res)
      then show ?thesis using assms(1) d f Inr rp pr by (auto simp: block_turn_def Let_def)
    next
      case (Leave out)
      then show ?thesis
        using assms(1) d f Inr rp pr ok2(1,3) ok1(2)
        by (auto simp: block_turn_def Let_def result_at_def split: if_splits)
    qed
  qed
qed

lemma run_loop_terminates:
  assumes "em_iat e = None" "blocks_ok (em_blocks e)" "n \<le> m"
    and "(if c_halted c \<or> \<not> n < m then 1 else unat (m - n) + 2) \<le> fuel"
  shows "\<exists>r e' c'. run_loop fuel e p m n c = Some (r, e', c') \<and> rr_executed r \<le> m"
  using assms
proof (induction fuel arbitrary: e n c)
  case (Suc fuel)
  show ?case
  proof (cases "c_halted c \<or> \<not> n < m")
    case True
    then show ?thesis using Suc.prems(3) by (auto simp: run_turn_def result_at_def)
  next
    case False
    then have n: "n < m" "\<not> c_halted c" and fu: "unat (m - n) + 1 \<le> fuel" using Suc.prems(4) by auto
    obtain r n' e' c' where t: "block_turn e p m n c = (r, n', e', c')" by (metis prod_cases4)
    note pr = block_turn_progress [OF t n(1) Suc.prems(2)]
    show ?thesis
    proof (cases r)
      case (Some res)
      then show ?thesis using t n Suc.prems(1) pr by (auto simp: run_turn_def)
    next
      case None
      have "(if c_halted c' \<or> \<not> n' < m then 1 else unat (m - n') + 2) \<le> fuel"
      proof (cases "c_halted c' \<or> \<not> n' < m")
        case True
        then show ?thesis using fu by simp
      next
        case False
        then have "n < n'" "n' < m" using pr None by blast+
        then have "unat (m - n') < unat (m - n)"
          by (simp add: word_less_nat_alt unat_sub word_le_nat_alt)
        then show ?thesis using False fu by simp
      qed
      from Suc.IH [OF _ _ _ this, of e'] show ?thesis
        using None t n Suc.prems(1) pr by (auto simp: run_turn_def)
    qed
  qed
qed (simp split: if_splits)



text \<open>An emulator as constructed, with one provider.\<close>

definition fresh_emulator :: "'m provider \<Rightarrow> 'm decoder \<Rightarrow> 'm emulator" where
  "fresh_emulator p dec = \<lparr>em_read = Some p, em_write = Some p, em_hooks = new_hook_manager, em_blocks = new_block_cache,
     em_btc = new_btc, em_trace = False, em_recovery = None, em_fault_hook = None, em_iat = None, em_stops = [],
     em_folded = 0, em_dec = dec, em_other = (\<lambda>_ _ _ c. c), em_drain = (\<lambda>m. ([], m))\<rparr>"

lemma blocks_ok_new: "blocks_ok new_block_cache"
  by (simp add: blocks_ok_def new_block_cache_def)


definition stub_loop_provider :: "unit provider" where
  "stub_loop_provider = \<lparr>prov_read = (\<lambda>a n m. (St_Ok, le_bytes n kStubBase, m)), prov_write = (\<lambda>a bs m. (St_Ok, m))\<rparr>"

definition stub_loop_emulator :: "unit emulator" where
  "stub_loop_emulator = (fresh_emulator stub_loop_provider (\<lambda>p rip m. (St_UnmappedRead, plain_insn 8 (reg_op 0) (reg_op 0), m)))
     \<lparr>em_iat := Some (new_iat_stubs\<lparr>st_entries := [(''k.dll'', ''f'')]\<rparr>)\<rparr>"


section \<open>Breakpoints\<close>

text \<open>An execute breakpoint on the first instruction of a block ends the run before this instruction
  with status \<open>Ok\<close>: the breakpoint fault is latched in the CPU, but neither the recovery callback nor
  the fault hooks are called, because they belong to faults raised by a handler.\<close>

theorem exec_breakpoint_silent:
  assumes "em_iat e = None" "n < max_insns" "\<not> c_halted c" "em_drain e (c_mem c) = ([], c_mem c)"
    and "bc_blocks (em_blocks e) (c_rip c) = Some b" "b_insns b = i # rest" "\<not> hook_any HK_Block (em_hooks e)"
    and "exec_breakpoint_at (i_rip i) (clear_branch c) = (True, d)" "\<not> is_stop e (c_rip c)"
  shows "\<exists>r e' c'. run_loop (Suc (Suc fuel)) e p max_insns n c = Some (r, e', c') \<and> rr_status r = St_Ok \<and>
    rr_executed r = n \<and> f_kind (c_fault c') = FK_Breakpoint \<and> reg c' = reg c \<and> c_rip c' = c_rip c"
proof -
  let ?c = "set_fault FK_Breakpoint (i_rip i) St_Ok ''DR execute breakpoint'' d"
  have d: "c_rip d = c_rip c" "c_gpr d = c_gpr c"
    using assms(8) by (auto simp: exec_breakpoint_at_def mark_dr6_def clear_branch_def split: option.splits)
  have "drain_writes e c = (e, c)" by (simp add: drain_writes_def assms(4))
  then have "\<exists>e'. block_turn e p max_insns n c = (None, n, e', ?c)"
    using assms(3,5-9) d
    by (simp add: block_turn_def fetch_block_def block_lookup_def fire_block_hooks_def is_stop_def Let_def set_fault_def)
  then obtain e' where t: "run_turn e p max_insns n c = (None, n, e', ?c)" using assms(1-3) by (auto simp: run_turn_def)
  have "run_turn e' p max_insns n ?c = (Some (result_at St_Ok n (c_rip ?c) ?c), n, e', ?c)"
    by (simp add: run_turn_def set_fault_def)
  then show ?thesis using t d by (simp add: result_at_def) (simp add: set_fault_def reg_def fun_eq_iff)
qed


definition breakpoint_block :: decoded_block where
  "breakpoint_block = \<lparr>b_pc = 0, b_byte_size = 1, b_insns = [plain_insn 8 (reg_op 0) (imm_op 1)]\<rparr>"

theorem exec_breakpoint_silent_witness:
  "\<exists>r e' c'. run_loop 2 ((fresh_emulator shadow_provider (\<lambda>p rip m. (St_UnmappedRead, plain_insn 8 (reg_op 0) (reg_op 0), m)))
       \<lparr>em_blocks := block_insert 0 breakpoint_block new_block_cache\<rparr>) shadow_provider 5 0
       (set_dr 7 1 (initial_cpu sample_shadow)) = Some (r, e', c') \<and>
     rr_status r = St_Ok \<and> rr_executed r = 0 \<and> f_kind (c_fault c') = FK_Breakpoint"
proof -
  let ?e = "(fresh_emulator shadow_provider (\<lambda>p rip m. (St_UnmappedRead, plain_insn 8 (reg_op 0) (reg_op 0), m)))
       \<lparr>em_blocks := block_insert 0 breakpoint_block new_block_cache\<rparr>"
  let ?c = "set_dr 7 1 (initial_cpu sample_shadow)"
  have "exec_breakpoint_at 0 (clear_branch ?c) = (True, mark_dr6 0 (clear_branch ?c))"
    by (simp add: exec_breakpoint_at_def exec_breakpoint_matches_def dr_enabled_def dr_cond_def clear_branch_def set_dr_def
        initial_cpu_def)
  then have "\<exists>r e' c'. run_loop (Suc (Suc 0)) ?e shadow_provider 5 0 ?c = Some (r, e', c') \<and> rr_status r = St_Ok \<and>
      rr_executed r = 0 \<and> f_kind (c_fault c') = FK_Breakpoint \<and> reg c' = reg ?c \<and> c_rip c' = c_rip ?c"
    by (intro exec_breakpoint_silent [where b = breakpoint_block and i = "plain_insn 8 (reg_op 0) (imm_op 1)" and rest = "[]"])
      (simp_all add: fresh_emulator_def block_insert_def breakpoint_block_def initial_cpu_def set_dr_def hook_any_def
        new_hook_manager_def is_stop_def)
  then show ?thesis by (metis numeral_2_eq_2)
qed

end
