(* ===== verification/Op_Kinds.thy ===== *)
theory Op_Kinds
  imports IR
begin

text \<open>
  The enumerators of \<^verbatim>\<open>OpKind\<close> (\<^verbatim>\<open>emu/ir.h\<close>) that \<^verbatim>\<open>IR\<close> does not name already, with their 16-bit values, and
  the mnemonic of each one, \<open>op_kind_name\<close> of \<^verbatim>\<open>src/emu/ir/insn.cpp\<close>.
\<close>

section \<open>Enumerators\<close>

abbreviation (input) Op_MovZx :: OpKind where "Op_MovZx \<equiv> 3"
abbreviation (input) Op_MovSx :: OpKind where "Op_MovSx \<equiv> 4"
abbreviation (input) Op_MovSxd :: OpKind where "Op_MovSxd \<equiv> 5"
abbreviation (input) Op_Push :: OpKind where "Op_Push \<equiv> 7"
abbreviation (input) Op_Pop :: OpKind where "Op_Pop \<equiv> 8"
abbreviation (input) Op_Bswap :: OpKind where "Op_Bswap \<equiv> 10"
abbreviation (input) Op_Cmov :: OpKind where "Op_Cmov \<equiv> 11"
abbreviation (input) Op_Add :: OpKind where "Op_Add \<equiv> 12"
abbreviation (input) Op_Adc :: OpKind where "Op_Adc \<equiv> 13"
abbreviation (input) Op_Sub :: OpKind where "Op_Sub \<equiv> 14"
abbreviation (input) Op_Sbb :: OpKind where "Op_Sbb \<equiv> 15"
abbreviation (input) Op_Inc :: OpKind where "Op_Inc \<equiv> 16"
abbreviation (input) Op_Dec :: OpKind where "Op_Dec \<equiv> 17"
abbreviation (input) Op_Neg :: OpKind where "Op_Neg \<equiv> 18"
abbreviation (input) Op_Mul :: OpKind where "Op_Mul \<equiv> 19"
abbreviation (input) Op_Div :: OpKind where "Op_Div \<equiv> 22"
abbreviation (input) Op_Idiv :: OpKind where "Op_Idiv \<equiv> 23"
abbreviation (input) Op_And :: OpKind where "Op_And \<equiv> 24"
abbreviation (input) Op_Or :: OpKind where "Op_Or \<equiv> 25"
abbreviation (input) Op_Not :: OpKind where "Op_Not \<equiv> 27"
abbreviation (input) Op_Test :: OpKind where "Op_Test \<equiv> 28"
abbreviation (input) Op_Cmp :: OpKind where "Op_Cmp \<equiv> 29"
abbreviation (input) Op_Shl :: OpKind where "Op_Shl \<equiv> 30"
abbreviation (input) Op_Shr :: OpKind where "Op_Shr \<equiv> 31"
abbreviation (input) Op_Sar :: OpKind where "Op_Sar \<equiv> 32"
abbreviation (input) Op_Rol :: OpKind where "Op_Rol \<equiv> 33"
abbreviation (input) Op_Ror :: OpKind where "Op_Ror \<equiv> 34"
abbreviation (input) Op_Rcl :: OpKind where "Op_Rcl \<equiv> 35"
abbreviation (input) Op_Rcr :: OpKind where "Op_Rcr \<equiv> 36"
abbreviation (input) Op_Shld :: OpKind where "Op_Shld \<equiv> 37"
abbreviation (input) Op_Shrd :: OpKind where "Op_Shrd \<equiv> 38"
abbreviation (input) Op_Call :: OpKind where "Op_Call \<equiv> 41"
abbreviation (input) Op_Ret :: OpKind where "Op_Ret \<equiv> 42"
abbreviation (input) Op_Loop :: OpKind where "Op_Loop \<equiv> 43"
abbreviation (input) Op_LoopE :: OpKind where "Op_LoopE \<equiv> 44"
abbreviation (input) Op_LoopNE :: OpKind where "Op_LoopNE \<equiv> 45"
abbreviation (input) Op_Jcxz :: OpKind where "Op_Jcxz \<equiv> 46"
abbreviation (input) Op_Movs :: OpKind where "Op_Movs \<equiv> 47"
abbreviation (input) Op_Stos :: OpKind where "Op_Stos \<equiv> 48"
abbreviation (input) Op_Lods :: OpKind where "Op_Lods \<equiv> 49"
abbreviation (input) Op_Scas :: OpKind where "Op_Scas \<equiv> 50"
abbreviation (input) Op_Cmps :: OpKind where "Op_Cmps \<equiv> 51"
abbreviation (input) Op_Bsf :: OpKind where "Op_Bsf \<equiv> 52"
abbreviation (input) Op_Bsr :: OpKind where "Op_Bsr \<equiv> 53"
abbreviation (input) Op_Bt :: OpKind where "Op_Bt \<equiv> 54"
abbreviation (input) Op_Bts :: OpKind where "Op_Bts \<equiv> 55"
abbreviation (input) Op_Btr :: OpKind where "Op_Btr \<equiv> 56"
abbreviation (input) Op_Btc :: OpKind where "Op_Btc \<equiv> 57"
abbreviation (input) Op_Popcnt :: OpKind where "Op_Popcnt \<equiv> 58"
abbreviation (input) Op_Lzcnt :: OpKind where "Op_Lzcnt \<equiv> 59"
abbreviation (input) Op_Tzcnt :: OpKind where "Op_Tzcnt \<equiv> 60"
abbreviation (input) Op_Cpuid :: OpKind where "Op_Cpuid \<equiv> 61"
abbreviation (input) Op_Rdtsc :: OpKind where "Op_Rdtsc \<equiv> 62"
abbreviation (input) Op_Rdrand :: OpKind where "Op_Rdrand \<equiv> 63"
abbreviation (input) Op_Rdseed :: OpKind where "Op_Rdseed \<equiv> 64"
abbreviation (input) Op_Hlt :: OpKind where "Op_Hlt \<equiv> 65"
abbreviation (input) Op_Syscall :: OpKind where "Op_Syscall \<equiv> 66"
abbreviation (input) Op_Movdqa :: OpKind where "Op_Movdqa \<equiv> 67"
abbreviation (input) Op_Movdqu :: OpKind where "Op_Movdqu \<equiv> 68"
abbreviation (input) Op_Pxor :: OpKind where "Op_Pxor \<equiv> 69"
abbreviation (input) Op_Pand :: OpKind where "Op_Pand \<equiv> 70"
abbreviation (input) Op_Por :: OpKind where "Op_Por \<equiv> 71"
abbreviation (input) Op_Paddb :: OpKind where "Op_Paddb \<equiv> 72"
abbreviation (input) Op_Paddw :: OpKind where "Op_Paddw \<equiv> 73"
abbreviation (input) Op_Paddd :: OpKind where "Op_Paddd \<equiv> 74"
abbreviation (input) Op_Paddq :: OpKind where "Op_Paddq \<equiv> 75"
abbreviation (input) Op_Psubb :: OpKind where "Op_Psubb \<equiv> 76"
abbreviation (input) Op_Psubw :: OpKind where "Op_Psubw \<equiv> 77"
abbreviation (input) Op_Psubd :: OpKind where "Op_Psubd \<equiv> 78"
abbreviation (input) Op_Psubq :: OpKind where "Op_Psubq \<equiv> 79"
abbreviation (input) Op_Pshufd :: OpKind where "Op_Pshufd \<equiv> 80"
abbreviation (input) Op_Pcmpeqb :: OpKind where "Op_Pcmpeqb \<equiv> 81"
abbreviation (input) Op_Pcmpeqw :: OpKind where "Op_Pcmpeqw \<equiv> 82"
abbreviation (input) Op_Pcmpeqd :: OpKind where "Op_Pcmpeqd \<equiv> 83"
abbreviation (input) Op_Movss :: OpKind where "Op_Movss \<equiv> 84"
abbreviation (input) Op_Movsd :: OpKind where "Op_Movsd \<equiv> 85"
abbreviation (input) Op_Movups :: OpKind where "Op_Movups \<equiv> 86"
abbreviation (input) Op_Movupd :: OpKind where "Op_Movupd \<equiv> 87"
abbreviation (input) Op_Movaps :: OpKind where "Op_Movaps \<equiv> 88"
abbreviation (input) Op_Movapd :: OpKind where "Op_Movapd \<equiv> 89"
abbreviation (input) Op_Addss :: OpKind where "Op_Addss \<equiv> 90"
abbreviation (input) Op_Subss :: OpKind where "Op_Subss \<equiv> 91"
abbreviation (input) Op_Mulss :: OpKind where "Op_Mulss \<equiv> 92"
abbreviation (input) Op_Divss :: OpKind where "Op_Divss \<equiv> 93"
abbreviation (input) Op_Sqrtss :: OpKind where "Op_Sqrtss \<equiv> 94"
abbreviation (input) Op_Minss :: OpKind where "Op_Minss \<equiv> 95"
abbreviation (input) Op_Maxss :: OpKind where "Op_Maxss \<equiv> 96"
abbreviation (input) Op_Addsd :: OpKind where "Op_Addsd \<equiv> 97"
abbreviation (input) Op_Subsd :: OpKind where "Op_Subsd \<equiv> 98"
abbreviation (input) Op_Mulsd :: OpKind where "Op_Mulsd \<equiv> 99"
abbreviation (input) Op_Divsd :: OpKind where "Op_Divsd \<equiv> 100"
abbreviation (input) Op_Sqrtsd :: OpKind where "Op_Sqrtsd \<equiv> 101"
abbreviation (input) Op_Minsd :: OpKind where "Op_Minsd \<equiv> 102"
abbreviation (input) Op_Maxsd :: OpKind where "Op_Maxsd \<equiv> 103"
abbreviation (input) Op_Addps :: OpKind where "Op_Addps \<equiv> 104"
abbreviation (input) Op_Subps :: OpKind where "Op_Subps \<equiv> 105"
abbreviation (input) Op_Mulps :: OpKind where "Op_Mulps \<equiv> 106"
abbreviation (input) Op_Divps :: OpKind where "Op_Divps \<equiv> 107"
abbreviation (input) Op_Sqrtps :: OpKind where "Op_Sqrtps \<equiv> 108"
abbreviation (input) Op_Minps :: OpKind where "Op_Minps \<equiv> 109"
abbreviation (input) Op_Maxps :: OpKind where "Op_Maxps \<equiv> 110"
abbreviation (input) Op_Addpd :: OpKind where "Op_Addpd \<equiv> 111"
abbreviation (input) Op_Subpd :: OpKind where "Op_Subpd \<equiv> 112"
abbreviation (input) Op_Mulpd :: OpKind where "Op_Mulpd \<equiv> 113"
abbreviation (input) Op_Divpd :: OpKind where "Op_Divpd \<equiv> 114"
abbreviation (input) Op_Sqrtpd :: OpKind where "Op_Sqrtpd \<equiv> 115"
abbreviation (input) Op_Minpd :: OpKind where "Op_Minpd \<equiv> 116"
abbreviation (input) Op_Maxpd :: OpKind where "Op_Maxpd \<equiv> 117"
abbreviation (input) Op_Ucomiss :: OpKind where "Op_Ucomiss \<equiv> 118"
abbreviation (input) Op_Ucomisd :: OpKind where "Op_Ucomisd \<equiv> 119"
abbreviation (input) Op_Comiss :: OpKind where "Op_Comiss \<equiv> 120"
abbreviation (input) Op_Comisd :: OpKind where "Op_Comisd \<equiv> 121"
abbreviation (input) Op_Cvtsi2ss :: OpKind where "Op_Cvtsi2ss \<equiv> 122"
abbreviation (input) Op_Cvtsi2sd :: OpKind where "Op_Cvtsi2sd \<equiv> 123"
abbreviation (input) Op_Cvttss2si :: OpKind where "Op_Cvttss2si \<equiv> 124"
abbreviation (input) Op_Cvttsd2si :: OpKind where "Op_Cvttsd2si \<equiv> 125"
abbreviation (input) Op_Cvtss2sd :: OpKind where "Op_Cvtss2sd \<equiv> 126"
abbreviation (input) Op_Cvtsd2ss :: OpKind where "Op_Cvtsd2ss \<equiv> 127"
abbreviation (input) Op_Xorps :: OpKind where "Op_Xorps \<equiv> 128"
abbreviation (input) Op_Xorpd :: OpKind where "Op_Xorpd \<equiv> 129"
abbreviation (input) Op_Andps :: OpKind where "Op_Andps \<equiv> 130"
abbreviation (input) Op_Andpd :: OpKind where "Op_Andpd \<equiv> 131"
abbreviation (input) Op_Orps :: OpKind where "Op_Orps \<equiv> 132"
abbreviation (input) Op_Orpd :: OpKind where "Op_Orpd \<equiv> 133"
abbreviation (input) Op_Fld :: OpKind where "Op_Fld \<equiv> 134"
abbreviation (input) Op_Fst :: OpKind where "Op_Fst \<equiv> 135"
abbreviation (input) Op_Fstp :: OpKind where "Op_Fstp \<equiv> 136"
abbreviation (input) Op_Fild :: OpKind where "Op_Fild \<equiv> 137"
abbreviation (input) Op_Fistp :: OpKind where "Op_Fistp \<equiv> 138"
abbreviation (input) Op_Fadd :: OpKind where "Op_Fadd \<equiv> 139"
abbreviation (input) Op_Fsub :: OpKind where "Op_Fsub \<equiv> 140"
abbreviation (input) Op_Fmul :: OpKind where "Op_Fmul \<equiv> 141"
abbreviation (input) Op_Fdiv :: OpKind where "Op_Fdiv \<equiv> 142"
abbreviation (input) Op_Fchs :: OpKind where "Op_Fchs \<equiv> 143"
abbreviation (input) Op_Fabs :: OpKind where "Op_Fabs \<equiv> 144"
abbreviation (input) Op_Fsqrt :: OpKind where "Op_Fsqrt \<equiv> 145"
abbreviation (input) Op_Faddp :: OpKind where "Op_Faddp \<equiv> 146"
abbreviation (input) Op_Fsubp :: OpKind where "Op_Fsubp \<equiv> 147"
abbreviation (input) Op_Fmulp :: OpKind where "Op_Fmulp \<equiv> 148"
abbreviation (input) Op_Fdivp :: OpKind where "Op_Fdivp \<equiv> 149"
abbreviation (input) Op_Fxch :: OpKind where "Op_Fxch \<equiv> 150"
abbreviation (input) Op_Fcom :: OpKind where "Op_Fcom \<equiv> 151"
abbreviation (input) Op_Fcomp :: OpKind where "Op_Fcomp \<equiv> 152"
abbreviation (input) Op_Fcompp :: OpKind where "Op_Fcompp \<equiv> 153"
abbreviation (input) Op_Fninit :: OpKind where "Op_Fninit \<equiv> 154"
abbreviation (input) Op_Fnstsw :: OpKind where "Op_Fnstsw \<equiv> 155"
abbreviation (input) Op_Fnstcw :: OpKind where "Op_Fnstcw \<equiv> 156"
abbreviation (input) Op_Fldcw :: OpKind where "Op_Fldcw \<equiv> 157"
abbreviation (input) Op_Vmovdqa :: OpKind where "Op_Vmovdqa \<equiv> 158"
abbreviation (input) Op_Vmovdqu :: OpKind where "Op_Vmovdqu \<equiv> 159"
abbreviation (input) Op_Vpxor :: OpKind where "Op_Vpxor \<equiv> 160"
abbreviation (input) Op_Vpand :: OpKind where "Op_Vpand \<equiv> 161"
abbreviation (input) Op_Vpor :: OpKind where "Op_Vpor \<equiv> 162"
abbreviation (input) Op_Vpaddb :: OpKind where "Op_Vpaddb \<equiv> 163"
abbreviation (input) Op_Vpaddw :: OpKind where "Op_Vpaddw \<equiv> 164"
abbreviation (input) Op_Vpaddd :: OpKind where "Op_Vpaddd \<equiv> 165"
abbreviation (input) Op_Vpaddq :: OpKind where "Op_Vpaddq \<equiv> 166"
abbreviation (input) Op_Vpsubb :: OpKind where "Op_Vpsubb \<equiv> 167"
abbreviation (input) Op_Vpsubw :: OpKind where "Op_Vpsubw \<equiv> 168"
abbreviation (input) Op_Vpsubd :: OpKind where "Op_Vpsubd \<equiv> 169"
abbreviation (input) Op_Vpsubq :: OpKind where "Op_Vpsubq \<equiv> 170"
abbreviation (input) Op_Vzeroupper :: OpKind where "Op_Vzeroupper \<equiv> 171"
abbreviation (input) Op_Vzeroall :: OpKind where "Op_Vzeroall \<equiv> 172"
abbreviation (input) Op_Lahf :: OpKind where "Op_Lahf \<equiv> 173"
abbreviation (input) Op_Sahf :: OpKind where "Op_Sahf \<equiv> 174"
abbreviation (input) Op_Pushf :: OpKind where "Op_Pushf \<equiv> 175"
abbreviation (input) Op_Popf :: OpKind where "Op_Popf \<equiv> 176"
abbreviation (input) Op_Int3 :: OpKind where "Op_Int3 \<equiv> 177"
abbreviation (input) Op_Int_n :: OpKind where "Op_Int_n \<equiv> 178"
abbreviation (input) Op_Lfence :: OpKind where "Op_Lfence \<equiv> 179"
abbreviation (input) Op_Mfence :: OpKind where "Op_Mfence \<equiv> 180"
abbreviation (input) Op_Sfence :: OpKind where "Op_Sfence \<equiv> 181"
abbreviation (input) Op_Pause :: OpKind where "Op_Pause \<equiv> 182"
abbreviation (input) Op_Clflush :: OpKind where "Op_Clflush \<equiv> 183"
abbreviation (input) Op_Prefetcht0 :: OpKind where "Op_Prefetcht0 \<equiv> 184"
abbreviation (input) Op_Prefetcht1 :: OpKind where "Op_Prefetcht1 \<equiv> 185"
abbreviation (input) Op_Prefetcht2 :: OpKind where "Op_Prefetcht2 \<equiv> 186"
abbreviation (input) Op_Prefetchnta :: OpKind where "Op_Prefetchnta \<equiv> 187"
abbreviation (input) Op_Movbe :: OpKind where "Op_Movbe \<equiv> 188"
abbreviation (input) Op_Rcpss :: OpKind where "Op_Rcpss \<equiv> 189"
abbreviation (input) Op_Rsqrtss :: OpKind where "Op_Rsqrtss \<equiv> 190"
abbreviation (input) Op_Rcpps :: OpKind where "Op_Rcpps \<equiv> 191"
abbreviation (input) Op_Rsqrtps :: OpKind where "Op_Rsqrtps \<equiv> 192"
abbreviation (input) Op_Pmovmskb :: OpKind where "Op_Pmovmskb \<equiv> 193"
abbreviation (input) Op_Movmskps :: OpKind where "Op_Movmskps \<equiv> 194"
abbreviation (input) Op_Movmskpd :: OpKind where "Op_Movmskpd \<equiv> 195"
abbreviation (input) Op_Shufps :: OpKind where "Op_Shufps \<equiv> 196"
abbreviation (input) Op_Shufpd :: OpKind where "Op_Shufpd \<equiv> 197"
abbreviation (input) Op_Pshufb :: OpKind where "Op_Pshufb \<equiv> 198"
abbreviation (input) Op_Pshufhw :: OpKind where "Op_Pshufhw \<equiv> 199"
abbreviation (input) Op_Pshuflw :: OpKind where "Op_Pshuflw \<equiv> 200"
abbreviation (input) Op_Pmullw :: OpKind where "Op_Pmullw \<equiv> 201"
abbreviation (input) Op_Pmulhw :: OpKind where "Op_Pmulhw \<equiv> 202"
abbreviation (input) Op_Pmulhuw :: OpKind where "Op_Pmulhuw \<equiv> 203"
abbreviation (input) Op_Pmaddwd :: OpKind where "Op_Pmaddwd \<equiv> 204"
abbreviation (input) Op_Psllw :: OpKind where "Op_Psllw \<equiv> 205"
abbreviation (input) Op_Pslld :: OpKind where "Op_Pslld \<equiv> 206"
abbreviation (input) Op_Psllq :: OpKind where "Op_Psllq \<equiv> 207"
abbreviation (input) Op_Psrlw :: OpKind where "Op_Psrlw \<equiv> 208"
abbreviation (input) Op_Psrld :: OpKind where "Op_Psrld \<equiv> 209"
abbreviation (input) Op_Psrlq :: OpKind where "Op_Psrlq \<equiv> 210"
abbreviation (input) Op_Psraw :: OpKind where "Op_Psraw \<equiv> 211"
abbreviation (input) Op_Psrad :: OpKind where "Op_Psrad \<equiv> 212"
abbreviation (input) Op_Punpcklbw :: OpKind where "Op_Punpcklbw \<equiv> 213"
abbreviation (input) Op_Punpcklwd :: OpKind where "Op_Punpcklwd \<equiv> 214"
abbreviation (input) Op_Punpckldq :: OpKind where "Op_Punpckldq \<equiv> 215"
abbreviation (input) Op_Punpcklqdq :: OpKind where "Op_Punpcklqdq \<equiv> 216"
abbreviation (input) Op_Punpckhbw :: OpKind where "Op_Punpckhbw \<equiv> 217"
abbreviation (input) Op_Punpckhwd :: OpKind where "Op_Punpckhwd \<equiv> 218"
abbreviation (input) Op_Punpckhdq :: OpKind where "Op_Punpckhdq \<equiv> 219"
abbreviation (input) Op_Punpckhqdq :: OpKind where "Op_Punpckhqdq \<equiv> 220"
abbreviation (input) Op_Aesenc :: OpKind where "Op_Aesenc \<equiv> 221"
abbreviation (input) Op_Aesenclast :: OpKind where "Op_Aesenclast \<equiv> 222"
abbreviation (input) Op_Aesdec :: OpKind where "Op_Aesdec \<equiv> 223"
abbreviation (input) Op_Aesdeclast :: OpKind where "Op_Aesdeclast \<equiv> 224"
abbreviation (input) Op_Aesimc :: OpKind where "Op_Aesimc \<equiv> 225"
abbreviation (input) Op_Aeskeygenassist :: OpKind where "Op_Aeskeygenassist \<equiv> 226"
abbreviation (input) Op_Pclmulqdq :: OpKind where "Op_Pclmulqdq \<equiv> 227"
abbreviation (input) Op_Crc32 :: OpKind where "Op_Crc32 \<equiv> 228"
abbreviation (input) Op_Roundss :: OpKind where "Op_Roundss \<equiv> 229"
abbreviation (input) Op_Roundsd :: OpKind where "Op_Roundsd \<equiv> 230"
abbreviation (input) Op_Roundps :: OpKind where "Op_Roundps \<equiv> 231"
abbreviation (input) Op_Roundpd :: OpKind where "Op_Roundpd \<equiv> 232"
abbreviation (input) Op_Insertps :: OpKind where "Op_Insertps \<equiv> 233"
abbreviation (input) Op_Pextrb :: OpKind where "Op_Pextrb \<equiv> 234"
abbreviation (input) Op_Pextrw :: OpKind where "Op_Pextrw \<equiv> 235"
abbreviation (input) Op_Pextrd :: OpKind where "Op_Pextrd \<equiv> 236"
abbreviation (input) Op_Pextrq :: OpKind where "Op_Pextrq \<equiv> 237"
abbreviation (input) Op_Pinsrb :: OpKind where "Op_Pinsrb \<equiv> 238"
abbreviation (input) Op_Pinsrw :: OpKind where "Op_Pinsrw \<equiv> 239"
abbreviation (input) Op_Pinsrd :: OpKind where "Op_Pinsrd \<equiv> 240"
abbreviation (input) Op_Pinsrq :: OpKind where "Op_Pinsrq \<equiv> 241"
abbreviation (input) Op_Pcmpgtb :: OpKind where "Op_Pcmpgtb \<equiv> 242"
abbreviation (input) Op_Pcmpgtw :: OpKind where "Op_Pcmpgtw \<equiv> 243"
abbreviation (input) Op_Pcmpgtd :: OpKind where "Op_Pcmpgtd \<equiv> 244"
abbreviation (input) Op_Pcmpgtq :: OpKind where "Op_Pcmpgtq \<equiv> 245"
abbreviation (input) Op_Pmaxub :: OpKind where "Op_Pmaxub \<equiv> 246"
abbreviation (input) Op_Pmaxuw :: OpKind where "Op_Pmaxuw \<equiv> 247"
abbreviation (input) Op_Pmaxud :: OpKind where "Op_Pmaxud \<equiv> 248"
abbreviation (input) Op_Pmaxsb :: OpKind where "Op_Pmaxsb \<equiv> 249"
abbreviation (input) Op_Pmaxsw :: OpKind where "Op_Pmaxsw \<equiv> 250"
abbreviation (input) Op_Pmaxsd :: OpKind where "Op_Pmaxsd \<equiv> 251"
abbreviation (input) Op_Pminub :: OpKind where "Op_Pminub \<equiv> 252"
abbreviation (input) Op_Pminuw :: OpKind where "Op_Pminuw \<equiv> 253"
abbreviation (input) Op_Pminud :: OpKind where "Op_Pminud \<equiv> 254"
abbreviation (input) Op_Pminsb :: OpKind where "Op_Pminsb \<equiv> 255"
abbreviation (input) Op_Pminsw :: OpKind where "Op_Pminsw \<equiv> 256"
abbreviation (input) Op_Pminsd :: OpKind where "Op_Pminsd \<equiv> 257"
abbreviation (input) Op_Pabsb :: OpKind where "Op_Pabsb \<equiv> 258"
abbreviation (input) Op_Pabsw :: OpKind where "Op_Pabsw \<equiv> 259"
abbreviation (input) Op_Pabsd :: OpKind where "Op_Pabsd \<equiv> 260"
abbreviation (input) Op_Psadbw :: OpKind where "Op_Psadbw \<equiv> 261"
abbreviation (input) Op_Pmovsxbw :: OpKind where "Op_Pmovsxbw \<equiv> 262"
abbreviation (input) Op_Pmovsxbd :: OpKind where "Op_Pmovsxbd \<equiv> 263"
abbreviation (input) Op_Pmovsxbq :: OpKind where "Op_Pmovsxbq \<equiv> 264"
abbreviation (input) Op_Pmovsxwd :: OpKind where "Op_Pmovsxwd \<equiv> 265"
abbreviation (input) Op_Pmovsxwq :: OpKind where "Op_Pmovsxwq \<equiv> 266"
abbreviation (input) Op_Pmovsxdq :: OpKind where "Op_Pmovsxdq \<equiv> 267"
abbreviation (input) Op_Pmovzxbw :: OpKind where "Op_Pmovzxbw \<equiv> 268"
abbreviation (input) Op_Pmovzxbd :: OpKind where "Op_Pmovzxbd \<equiv> 269"
abbreviation (input) Op_Pmovzxbq :: OpKind where "Op_Pmovzxbq \<equiv> 270"
abbreviation (input) Op_Pmovzxwd :: OpKind where "Op_Pmovzxwd \<equiv> 271"
abbreviation (input) Op_Pmovzxwq :: OpKind where "Op_Pmovzxwq \<equiv> 272"
abbreviation (input) Op_Pmovzxdq :: OpKind where "Op_Pmovzxdq \<equiv> 273"
abbreviation (input) Op_Fsin :: OpKind where "Op_Fsin \<equiv> 274"
abbreviation (input) Op_Fcos :: OpKind where "Op_Fcos \<equiv> 275"
abbreviation (input) Op_Fsincos :: OpKind where "Op_Fsincos \<equiv> 276"
abbreviation (input) Op_Fpatan :: OpKind where "Op_Fpatan \<equiv> 277"
abbreviation (input) Op_Fptan :: OpKind where "Op_Fptan \<equiv> 278"
abbreviation (input) Op_Fyl2x :: OpKind where "Op_Fyl2x \<equiv> 279"
abbreviation (input) Op_F2xm1 :: OpKind where "Op_F2xm1 \<equiv> 280"
abbreviation (input) Op_Fscale :: OpKind where "Op_Fscale \<equiv> 281"
abbreviation (input) Op_Frndint :: OpKind where "Op_Frndint \<equiv> 282"
abbreviation (input) Op_Ftst :: OpKind where "Op_Ftst \<equiv> 283"
abbreviation (input) Op_Andn :: OpKind where "Op_Andn \<equiv> 284"
abbreviation (input) Op_Bextr :: OpKind where "Op_Bextr \<equiv> 285"
abbreviation (input) Op_Blsi :: OpKind where "Op_Blsi \<equiv> 286"
abbreviation (input) Op_Blsr :: OpKind where "Op_Blsr \<equiv> 287"
abbreviation (input) Op_Blsmsk :: OpKind where "Op_Blsmsk \<equiv> 288"
abbreviation (input) Op_Bzhi :: OpKind where "Op_Bzhi \<equiv> 289"
abbreviation (input) Op_Mulx :: OpKind where "Op_Mulx \<equiv> 290"
abbreviation (input) Op_Pdep :: OpKind where "Op_Pdep \<equiv> 291"
abbreviation (input) Op_Pext :: OpKind where "Op_Pext \<equiv> 292"
abbreviation (input) Op_Rorx :: OpKind where "Op_Rorx \<equiv> 293"
abbreviation (input) Op_Sarx :: OpKind where "Op_Sarx \<equiv> 294"
abbreviation (input) Op_Shlx :: OpKind where "Op_Shlx \<equiv> 295"
abbreviation (input) Op_Shrx :: OpKind where "Op_Shrx \<equiv> 296"
abbreviation (input) Op_Vpshufb :: OpKind where "Op_Vpshufb \<equiv> 297"
abbreviation (input) Op_Vaesenc :: OpKind where "Op_Vaesenc \<equiv> 298"
abbreviation (input) Op_Vaesenclast :: OpKind where "Op_Vaesenclast \<equiv> 299"
abbreviation (input) Op_Vaesdec :: OpKind where "Op_Vaesdec \<equiv> 300"
abbreviation (input) Op_Vaesdeclast :: OpKind where "Op_Vaesdeclast \<equiv> 301"
abbreviation (input) Op_Vpcmpgtq :: OpKind where "Op_Vpcmpgtq \<equiv> 302"
abbreviation (input) Op_Vpclmulqdq :: OpKind where "Op_Vpclmulqdq \<equiv> 303"
abbreviation (input) Op_Sha1rnds4 :: OpKind where "Op_Sha1rnds4 \<equiv> 304"
abbreviation (input) Op_Sha1nexte :: OpKind where "Op_Sha1nexte \<equiv> 305"
abbreviation (input) Op_Sha1msg1 :: OpKind where "Op_Sha1msg1 \<equiv> 306"
abbreviation (input) Op_Sha1msg2 :: OpKind where "Op_Sha1msg2 \<equiv> 307"
abbreviation (input) Op_Sha256rnds2 :: OpKind where "Op_Sha256rnds2 \<equiv> 308"
abbreviation (input) Op_Sha256msg1 :: OpKind where "Op_Sha256msg1 \<equiv> 309"
abbreviation (input) Op_Sha256msg2 :: OpKind where "Op_Sha256msg2 \<equiv> 310"
abbreviation (input) Op_Pcmpestri :: OpKind where "Op_Pcmpestri \<equiv> 311"
abbreviation (input) Op_Pcmpestrm :: OpKind where "Op_Pcmpestrm \<equiv> 312"
abbreviation (input) Op_Pcmpistri :: OpKind where "Op_Pcmpistri \<equiv> 313"
abbreviation (input) Op_Pcmpistrm :: OpKind where "Op_Pcmpistrm \<equiv> 314"
abbreviation (input) Op_Vpxord :: OpKind where "Op_Vpxord \<equiv> 315"
abbreviation (input) Op_Vpxorq :: OpKind where "Op_Vpxorq \<equiv> 316"
abbreviation (input) Op_Vpaddb_evex :: OpKind where "Op_Vpaddb_evex \<equiv> 317"
abbreviation (input) Op_Vpaddw_evex :: OpKind where "Op_Vpaddw_evex \<equiv> 318"
abbreviation (input) Op_Vpaddd_evex :: OpKind where "Op_Vpaddd_evex \<equiv> 319"
abbreviation (input) Op_Vpaddq_evex :: OpKind where "Op_Vpaddq_evex \<equiv> 320"
abbreviation (input) Op_Vpsubb_evex :: OpKind where "Op_Vpsubb_evex \<equiv> 321"
abbreviation (input) Op_Vpsubw_evex :: OpKind where "Op_Vpsubw_evex \<equiv> 322"
abbreviation (input) Op_Vpsubd_evex :: OpKind where "Op_Vpsubd_evex \<equiv> 323"
abbreviation (input) Op_Vpsubq_evex :: OpKind where "Op_Vpsubq_evex \<equiv> 324"
abbreviation (input) Op_Vpandd :: OpKind where "Op_Vpandd \<equiv> 325"
abbreviation (input) Op_Vpandq :: OpKind where "Op_Vpandq \<equiv> 326"
abbreviation (input) Op_Vpord :: OpKind where "Op_Vpord \<equiv> 327"
abbreviation (input) Op_Vporq :: OpKind where "Op_Vporq \<equiv> 328"
abbreviation (input) Op_Vmovdqu32 :: OpKind where "Op_Vmovdqu32 \<equiv> 329"
abbreviation (input) Op_Vmovdqu64 :: OpKind where "Op_Vmovdqu64 \<equiv> 330"
abbreviation (input) Op_Vmovdqa32 :: OpKind where "Op_Vmovdqa32 \<equiv> 331"
abbreviation (input) Op_Vmovdqa64 :: OpKind where "Op_Vmovdqa64 \<equiv> 332"
abbreviation (input) Op_Vaddps_evex :: OpKind where "Op_Vaddps_evex \<equiv> 333"
abbreviation (input) Op_Vaddpd_evex :: OpKind where "Op_Vaddpd_evex \<equiv> 334"
abbreviation (input) Op_Vsubps_evex :: OpKind where "Op_Vsubps_evex \<equiv> 335"
abbreviation (input) Op_Vsubpd_evex :: OpKind where "Op_Vsubpd_evex \<equiv> 336"
abbreviation (input) Op_Vmulps_evex :: OpKind where "Op_Vmulps_evex \<equiv> 337"
abbreviation (input) Op_Vmulpd_evex :: OpKind where "Op_Vmulpd_evex \<equiv> 338"
abbreviation (input) Op_Vdivps_evex :: OpKind where "Op_Vdivps_evex \<equiv> 339"
abbreviation (input) Op_Vdivpd_evex :: OpKind where "Op_Vdivpd_evex \<equiv> 340"
abbreviation (input) Op_Vsqrtps_evex :: OpKind where "Op_Vsqrtps_evex \<equiv> 341"
abbreviation (input) Op_Vsqrtpd_evex :: OpKind where "Op_Vsqrtpd_evex \<equiv> 342"
abbreviation (input) Op_Vminps_evex :: OpKind where "Op_Vminps_evex \<equiv> 343"
abbreviation (input) Op_Vminpd_evex :: OpKind where "Op_Vminpd_evex \<equiv> 344"
abbreviation (input) Op_Vmaxps_evex :: OpKind where "Op_Vmaxps_evex \<equiv> 345"
abbreviation (input) Op_Vmaxpd_evex :: OpKind where "Op_Vmaxpd_evex \<equiv> 346"
abbreviation (input) Op_Vpgatherdd :: OpKind where "Op_Vpgatherdd \<equiv> 347"
abbreviation (input) Op_Vpgatherdq :: OpKind where "Op_Vpgatherdq \<equiv> 348"
abbreviation (input) Op_Vpgatherqd :: OpKind where "Op_Vpgatherqd \<equiv> 349"
abbreviation (input) Op_Vpgatherqq :: OpKind where "Op_Vpgatherqq \<equiv> 350"
abbreviation (input) Op_Vgatherdps :: OpKind where "Op_Vgatherdps \<equiv> 351"
abbreviation (input) Op_Vgatherdpd :: OpKind where "Op_Vgatherdpd \<equiv> 352"
abbreviation (input) Op_Vgatherqps :: OpKind where "Op_Vgatherqps \<equiv> 353"
abbreviation (input) Op_Vgatherqpd :: OpKind where "Op_Vgatherqpd \<equiv> 354"
abbreviation (input) Op_Vpscatterdd :: OpKind where "Op_Vpscatterdd \<equiv> 355"
abbreviation (input) Op_Vpscatterdq :: OpKind where "Op_Vpscatterdq \<equiv> 356"
abbreviation (input) Op_Vpscatterqd :: OpKind where "Op_Vpscatterqd \<equiv> 357"
abbreviation (input) Op_Vpscatterqq :: OpKind where "Op_Vpscatterqq \<equiv> 358"
abbreviation (input) Op_Vscatterdps :: OpKind where "Op_Vscatterdps \<equiv> 359"
abbreviation (input) Op_Vscatterdpd :: OpKind where "Op_Vscatterdpd \<equiv> 360"
abbreviation (input) Op_Vscatterqps :: OpKind where "Op_Vscatterqps \<equiv> 361"
abbreviation (input) Op_Vscatterqpd :: OpKind where "Op_Vscatterqpd \<equiv> 362"
abbreviation (input) Op_Cwde :: OpKind where "Op_Cwde \<equiv> 363"
abbreviation (input) Op_Cdq :: OpKind where "Op_Cdq \<equiv> 364"
abbreviation (input) Op_Movd :: OpKind where "Op_Movd \<equiv> 365"
abbreviation (input) Op_Movq :: OpKind where "Op_Movq \<equiv> 366"
abbreviation (input) Op_Count :: OpKind where "Op_Count \<equiv> 367"

section \<open>Mnemonics\<close>

text \<open>The cases of the switch in its order, in three parts; any other value has the name \<open>?\<close>.\<close>

definition integer_kind_names :: "(OpKind \<times> string) list" where
  "integer_kind_names =
    [(Op_Invalid, ''INVALID''), (Op_Nop, ''NOP''), (Op_Mov, ''MOV''), (Op_MovZx, ''MOVZX''),
     (Op_MovSx, ''MOVSX''), (Op_MovSxd, ''MOVSXD''), (Op_Lea, ''LEA''), (Op_Push, ''PUSH''),
     (Op_Pop, ''POP''), (Op_Xchg, ''XCHG''), (Op_Bswap, ''BSWAP''), (Op_Cmov, ''CMOV''),
     (Op_Add, ''ADD''), (Op_Adc, ''ADC''), (Op_Sub, ''SUB''), (Op_Sbb, ''SBB''),
     (Op_Inc, ''INC''), (Op_Dec, ''DEC''), (Op_Neg, ''NEG''), (Op_Mul, ''MUL''),
     (Op_Imul, ''IMUL''), (Op_Imul3, ''IMUL3''), (Op_Div, ''DIV''), (Op_Idiv, ''IDIV''),
     (Op_And, ''AND''), (Op_Or, ''OR''), (Op_Xor, ''XOR''), (Op_Not, ''NOT''),
     (Op_Test, ''TEST''), (Op_Cmp, ''CMP''), (Op_Shl, ''SHL''), (Op_Shr, ''SHR''),
     (Op_Sar, ''SAR''), (Op_Rol, ''ROL''), (Op_Ror, ''ROR''), (Op_Rcl, ''RCL''),
     (Op_Rcr, ''RCR''), (Op_Shld, ''SHLD''), (Op_Shrd, ''SHRD''), (Op_Jmp, ''JMP''),
     (Op_Jcc, ''Jcc''), (Op_Call, ''CALL''), (Op_Ret, ''RET''), (Op_Loop, ''LOOP''),
     (Op_LoopE, ''LOOPE''), (Op_LoopNE, ''LOOPNE''), (Op_Jcxz, ''JCXZ''), (Op_Movs, ''MOVS''),
     (Op_Stos, ''STOS''), (Op_Lods, ''LODS''), (Op_Scas, ''SCAS''), (Op_Cmps, ''CMPS''),
     (Op_Bsf, ''BSF''), (Op_Bsr, ''BSR''), (Op_Bt, ''BT''), (Op_Bts, ''BTS''),
     (Op_Btr, ''BTR''), (Op_Btc, ''BTC''), (Op_Popcnt, ''POPCNT''), (Op_Lzcnt, ''LZCNT''),
     (Op_Tzcnt, ''TZCNT''), (Op_Cpuid, ''CPUID''), (Op_Rdtsc, ''RDTSC''), (Op_Rdrand, ''RDRAND''),
     (Op_Rdseed, ''RDSEED''), (Op_Hlt, ''HLT''), (Op_Syscall, ''SYSCALL''), (Op_Movdqa, ''MOVDQA''),
     (Op_Movdqu, ''MOVDQU''), (Op_Pxor, ''PXOR''), (Op_Pand, ''PAND''), (Op_Por, ''POR''),
     (Op_Paddb, ''PADDB''), (Op_Paddw, ''PADDW''), (Op_Paddd, ''PADDD''), (Op_Paddq, ''PADDQ''),
     (Op_Psubb, ''PSUBB''), (Op_Psubw, ''PSUBW''), (Op_Psubd, ''PSUBD''), (Op_Psubq, ''PSUBQ''),
     (Op_Pshufd, ''PSHUFD''), (Op_Pcmpeqb, ''PCMPEQB''), (Op_Pcmpeqw, ''PCMPEQW''), (Op_Pcmpeqd, ''PCMPEQD''),
     (Op_Movss, ''MOVSS''), (Op_Movsd, ''MOVSD''), (Op_Movups, ''MOVUPS''), (Op_Movupd, ''MOVUPD''),
     (Op_Movaps, ''MOVAPS''), (Op_Movapd, ''MOVAPD''), (Op_Addss, ''ADDSS''), (Op_Subss, ''SUBSS''),
     (Op_Mulss, ''MULSS''), (Op_Divss, ''DIVSS''), (Op_Sqrtss, ''SQRTSS''), (Op_Minss, ''MINSS''),
     (Op_Maxss, ''MAXSS''), (Op_Addsd, ''ADDSD''), (Op_Subsd, ''SUBSD''), (Op_Mulsd, ''MULSD''),
     (Op_Divsd, ''DIVSD''), (Op_Sqrtsd, ''SQRTSD''), (Op_Minsd, ''MINSD''), (Op_Maxsd, ''MAXSD''),
     (Op_Addps, ''ADDPS''), (Op_Subps, ''SUBPS''), (Op_Mulps, ''MULPS''), (Op_Divps, ''DIVPS''),
     (Op_Sqrtps, ''SQRTPS''), (Op_Minps, ''MINPS''), (Op_Maxps, ''MAXPS''), (Op_Addpd, ''ADDPD''),
     (Op_Subpd, ''SUBPD''), (Op_Mulpd, ''MULPD''), (Op_Divpd, ''DIVPD''), (Op_Sqrtpd, ''SQRTPD''),
     (Op_Minpd, ''MINPD''), (Op_Maxpd, ''MAXPD''), (Op_Ucomiss, ''UCOMISS''), (Op_Ucomisd, ''UCOMISD''),
     (Op_Comiss, ''COMISS''), (Op_Comisd, ''COMISD''), (Op_Cvtsi2ss, ''CVTSI2SS''), (Op_Cvtsi2sd, ''CVTSI2SD''),
     (Op_Cvttss2si, ''CVTTSS2SI''), (Op_Cvttsd2si, ''CVTTSD2SI''), (Op_Cvtss2sd, ''CVTSS2SD''), (Op_Cvtsd2ss, ''CVTSD2SS'')]"

definition float_kind_names :: "(OpKind \<times> string) list" where
  "float_kind_names =
    [(Op_Xorps, ''XORPS''), (Op_Xorpd, ''XORPD''), (Op_Andps, ''ANDPS''), (Op_Andpd, ''ANDPD''),
     (Op_Orps, ''ORPS''), (Op_Orpd, ''ORPD''), (Op_Fld, ''FLD''), (Op_Fst, ''FST''),
     (Op_Fstp, ''FSTP''), (Op_Fild, ''FILD''), (Op_Fistp, ''FISTP''), (Op_Fadd, ''FADD''),
     (Op_Fsub, ''FSUB''), (Op_Fmul, ''FMUL''), (Op_Fdiv, ''FDIV''), (Op_Fchs, ''FCHS''),
     (Op_Fabs, ''FABS''), (Op_Fsqrt, ''FSQRT''), (Op_Faddp, ''FADDP''), (Op_Fsubp, ''FSUBP''),
     (Op_Fmulp, ''FMULP''), (Op_Fdivp, ''FDIVP''), (Op_Fxch, ''FXCH''), (Op_Fcom, ''FCOM''),
     (Op_Fcomp, ''FCOMP''), (Op_Fcompp, ''FCOMPP''), (Op_Fninit, ''FNINIT''), (Op_Fnstsw, ''FNSTSW''),
     (Op_Fnstcw, ''FNSTCW''), (Op_Fldcw, ''FLDCW''), (Op_Vmovdqa, ''VMOVDQA''), (Op_Vmovdqu, ''VMOVDQU''),
     (Op_Vpxor, ''VPXOR''), (Op_Vpand, ''VPAND''), (Op_Vpor, ''VPOR''), (Op_Vpaddb, ''VPADDB''),
     (Op_Vpaddw, ''VPADDW''), (Op_Vpaddd, ''VPADDD''), (Op_Vpaddq, ''VPADDQ''), (Op_Vpsubb, ''VPSUBB''),
     (Op_Vpsubw, ''VPSUBW''), (Op_Vpsubd, ''VPSUBD''), (Op_Vpsubq, ''VPSUBQ''), (Op_Vzeroupper, ''VZEROUPPER''),
     (Op_Vzeroall, ''VZEROALL''), (Op_Lahf, ''LAHF''), (Op_Sahf, ''SAHF''), (Op_Pushf, ''PUSHFQ''),
     (Op_Popf, ''POPFQ''), (Op_Int3, ''INT3''), (Op_Int_n, ''INT''), (Op_Lfence, ''LFENCE''),
     (Op_Mfence, ''MFENCE''), (Op_Sfence, ''SFENCE''), (Op_Pause, ''PAUSE''), (Op_Clflush, ''CLFLUSH''),
     (Op_Prefetcht0, ''PREFETCHT0''), (Op_Prefetcht1, ''PREFETCHT1''), (Op_Prefetcht2, ''PREFETCHT2''), (Op_Prefetchnta, ''PREFETCHNTA''),
     (Op_Movbe, ''MOVBE''), (Op_Rcpss, ''RCPSS''), (Op_Rsqrtss, ''RSQRTSS''), (Op_Rcpps, ''RCPPS''),
     (Op_Rsqrtps, ''RSQRTPS''), (Op_Pmovmskb, ''PMOVMSKB''), (Op_Movmskps, ''MOVMSKPS''), (Op_Movmskpd, ''MOVMSKPD''),
     (Op_Shufps, ''SHUFPS''), (Op_Shufpd, ''SHUFPD''), (Op_Pshufb, ''PSHUFB''), (Op_Pshufhw, ''PSHUFHW''),
     (Op_Pshuflw, ''PSHUFLW''), (Op_Pmullw, ''PMULLW''), (Op_Pmulhw, ''PMULHW''), (Op_Pmulhuw, ''PMULHUW''),
     (Op_Pmaddwd, ''PMADDWD''), (Op_Psllw, ''PSLLW''), (Op_Pslld, ''PSLLD''), (Op_Psllq, ''PSLLQ''),
     (Op_Psrlw, ''PSRLW''), (Op_Psrld, ''PSRLD''), (Op_Psrlq, ''PSRLQ''), (Op_Psraw, ''PSRAW''),
     (Op_Psrad, ''PSRAD''), (Op_Punpcklbw, ''PUNPCKLBW''), (Op_Punpcklwd, ''PUNPCKLWD''), (Op_Punpckldq, ''PUNPCKLDQ''),
     (Op_Punpcklqdq, ''PUNPCKLQDQ''), (Op_Punpckhbw, ''PUNPCKHBW''), (Op_Punpckhwd, ''PUNPCKHWD''), (Op_Punpckhdq, ''PUNPCKHDQ''),
     (Op_Punpckhqdq, ''PUNPCKHQDQ''), (Op_Aesenc, ''AESENC''), (Op_Aesenclast, ''AESENCLAST''), (Op_Aesdec, ''AESDEC''),
     (Op_Aesdeclast, ''AESDECLAST''), (Op_Aesimc, ''AESIMC''), (Op_Aeskeygenassist, ''AESKEYGENASSIST''), (Op_Pclmulqdq, ''PCLMULQDQ''),
     (Op_Crc32, ''CRC32''), (Op_Roundss, ''ROUNDSS''), (Op_Roundsd, ''ROUNDSD''), (Op_Roundps, ''ROUNDPS''),
     (Op_Roundpd, ''ROUNDPD''), (Op_Insertps, ''INSERTPS''), (Op_Pextrb, ''PEXTRB''), (Op_Pextrw, ''PEXTRW''),
     (Op_Pextrd, ''PEXTRD''), (Op_Pextrq, ''PEXTRQ''), (Op_Pinsrb, ''PINSRB''), (Op_Pinsrw, ''PINSRW''),
     (Op_Pinsrd, ''PINSRD''), (Op_Pinsrq, ''PINSRQ''), (Op_Pcmpgtb, ''PCMPGTB''), (Op_Pcmpgtw, ''PCMPGTW''),
     (Op_Pcmpgtd, ''PCMPGTD''), (Op_Pcmpgtq, ''PCMPGTQ''), (Op_Pmaxub, ''PMAXUB''), (Op_Pmaxuw, ''PMAXUW''),
     (Op_Pmaxud, ''PMAXUD''), (Op_Pmaxsb, ''PMAXSB''), (Op_Pmaxsw, ''PMAXSW''), (Op_Pmaxsd, ''PMAXSD''),
     (Op_Pminub, ''PMINUB''), (Op_Pminuw, ''PMINUW''), (Op_Pminud, ''PMINUD''), (Op_Pminsb, ''PMINSB'')]"

definition vector_kind_names :: "(OpKind \<times> string) list" where
  "vector_kind_names =
    [(Op_Pminsw, ''PMINSW''), (Op_Pminsd, ''PMINSD''), (Op_Pabsb, ''PABSB''), (Op_Pabsw, ''PABSW''),
     (Op_Pabsd, ''PABSD''), (Op_Psadbw, ''PSADBW''), (Op_Pmovsxbw, ''PMOVSXBW''), (Op_Pmovsxbd, ''PMOVSXBD''),
     (Op_Pmovsxbq, ''PMOVSXBQ''), (Op_Pmovsxwd, ''PMOVSXWD''), (Op_Pmovsxwq, ''PMOVSXWQ''), (Op_Pmovsxdq, ''PMOVSXDQ''),
     (Op_Pmovzxbw, ''PMOVZXBW''), (Op_Pmovzxbd, ''PMOVZXBD''), (Op_Pmovzxbq, ''PMOVZXBQ''), (Op_Pmovzxwd, ''PMOVZXWD''),
     (Op_Pmovzxwq, ''PMOVZXWQ''), (Op_Pmovzxdq, ''PMOVZXDQ''), (Op_Fsin, ''FSIN''), (Op_Fcos, ''FCOS''),
     (Op_Fsincos, ''FSINCOS''), (Op_Fpatan, ''FPATAN''), (Op_Fptan, ''FPTAN''), (Op_Fyl2x, ''FYL2X''),
     (Op_F2xm1, ''F2XM1''), (Op_Fscale, ''FSCALE''), (Op_Frndint, ''FRNDINT''), (Op_Ftst, ''FTST''),
     (Op_Andn, ''ANDN''), (Op_Bextr, ''BEXTR''), (Op_Blsi, ''BLSI''), (Op_Blsr, ''BLSR''),
     (Op_Blsmsk, ''BLSMSK''), (Op_Bzhi, ''BZHI''), (Op_Mulx, ''MULX''), (Op_Pdep, ''PDEP''),
     (Op_Pext, ''PEXT''), (Op_Rorx, ''RORX''), (Op_Sarx, ''SARX''), (Op_Shlx, ''SHLX''),
     (Op_Shrx, ''SHRX''), (Op_Vpshufb, ''VPSHUFB''), (Op_Vaesenc, ''VAESENC''), (Op_Vaesenclast, ''VAESENCLAST''),
     (Op_Vaesdec, ''VAESDEC''), (Op_Vaesdeclast, ''VAESDECLAST''), (Op_Vpcmpgtq, ''VPCMPGTQ''), (Op_Vpclmulqdq, ''VPCLMULQDQ''),
     (Op_Sha1rnds4, ''SHA1RNDS4''), (Op_Sha1nexte, ''SHA1NEXTE''), (Op_Sha1msg1, ''SHA1MSG1''), (Op_Sha1msg2, ''SHA1MSG2''),
     (Op_Sha256rnds2, ''SHA256RNDS2''), (Op_Sha256msg1, ''SHA256MSG1''), (Op_Sha256msg2, ''SHA256MSG2''), (Op_Pcmpestri, ''PCMPESTRI''),
     (Op_Pcmpestrm, ''PCMPESTRM''), (Op_Pcmpistri, ''PCMPISTRI''), (Op_Pcmpistrm, ''PCMPISTRM''), (Op_Vpxord, ''VPXORD''),
     (Op_Vpxorq, ''VPXORQ''), (Op_Vpaddb_evex, ''VPADDB''), (Op_Vpaddw_evex, ''VPADDW''), (Op_Vpaddd_evex, ''VPADDD''),
     (Op_Vpaddq_evex, ''VPADDQ''), (Op_Vpsubb_evex, ''VPSUBB''), (Op_Vpsubw_evex, ''VPSUBW''), (Op_Vpsubd_evex, ''VPSUBD''),
     (Op_Vpsubq_evex, ''VPSUBQ''), (Op_Vpandd, ''VPANDD''), (Op_Vpandq, ''VPANDQ''), (Op_Vpord, ''VPORD''),
     (Op_Vporq, ''VPORQ''), (Op_Vmovdqu32, ''VMOVDQU32''), (Op_Vmovdqu64, ''VMOVDQU64''), (Op_Vmovdqa32, ''VMOVDQA32''),
     (Op_Vmovdqa64, ''VMOVDQA64''), (Op_Vaddps_evex, ''VADDPS''), (Op_Vaddpd_evex, ''VADDPD''), (Op_Vsubps_evex, ''VSUBPS''),
     (Op_Vsubpd_evex, ''VSUBPD''), (Op_Vmulps_evex, ''VMULPS''), (Op_Vmulpd_evex, ''VMULPD''), (Op_Vdivps_evex, ''VDIVPS''),
     (Op_Vdivpd_evex, ''VDIVPD''), (Op_Vsqrtps_evex, ''VSQRTPS''), (Op_Vsqrtpd_evex, ''VSQRTPD''), (Op_Vminps_evex, ''VMINPS''),
     (Op_Vminpd_evex, ''VMINPD''), (Op_Vmaxps_evex, ''VMAXPS''), (Op_Vmaxpd_evex, ''VMAXPD''), (Op_Vpgatherdd, ''VPGATHERDD''),
     (Op_Vpgatherdq, ''VPGATHERDQ''), (Op_Vpgatherqd, ''VPGATHERQD''), (Op_Vpgatherqq, ''VPGATHERQQ''), (Op_Vgatherdps, ''VGATHERDPS''),
     (Op_Vgatherdpd, ''VGATHERDPD''), (Op_Vgatherqps, ''VGATHERQPS''), (Op_Vgatherqpd, ''VGATHERQPD''), (Op_Vpscatterdd, ''VPSCATTERDD''),
     (Op_Vpscatterdq, ''VPSCATTERDQ''), (Op_Vpscatterqd, ''VPSCATTERQD''), (Op_Vpscatterqq, ''VPSCATTERQQ''), (Op_Vscatterdps, ''VSCATTERDPS''),
     (Op_Vscatterdpd, ''VSCATTERDPD''), (Op_Vscatterqps, ''VSCATTERQPS''), (Op_Vscatterqpd, ''VSCATTERQPD''), (Op_Cwde, ''CWDE''),
     (Op_Cdq, ''CDQ''), (Op_Movd, ''MOVD''), (Op_Movq, ''MOVQ'')]"

definition op_kind_name :: "OpKind \<Rightarrow> string" where
  "op_kind_name k =
     (case map_of (integer_kind_names @ float_kind_names @ vector_kind_names) k of None \<Rightarrow> ''?'' | Some n \<Rightarrow> n)"

end
