(* ===== verification/Decoder_Source.thy ===== *)
theory Decoder_Source
  imports Op_Kinds Memory_Interface Cpu_State
begin

text \<open>
  The byte source, the prefixes and the operand decoding of \<^verbatim>\<open>src/emu/decoder/decoder_internal.h\<close>,
  \<^verbatim>\<open>decoder.cpp\<close> and \<^verbatim>\<open>modrm.cpp\<close>.  Out-parameters of a failed call are not modelled.  The prefix loop is
  a partial function: it need not end.
\<close>

section \<open>Byte sources\<close>

record 'c byte_source =
  bs_fetch :: "u8 \<Rightarrow> 'c \<Rightarrow> Status \<times> u8 \<times> 'c"
  bs_ctx :: 'c
  bs_consumed :: u8

definition buf_fetch :: "u8 list \<Rightarrow> u8 \<Rightarrow> unit \<Rightarrow> Status \<times> u8 \<times> unit" where
  "buf_fetch data off c =
     (if length data \<le> unat off then (St_TruncatedInstruction, 0, c) else (St_Ok, data ! unat off, c))"

definition mem_fetch :: "'m provider \<Rightarrow> GuestAddr \<Rightarrow> u8 \<Rightarrow> 'm \<Rightarrow> Status \<times> u8 \<times> 'm" where
  "mem_fetch p rip off m =
     (case prov_read p (rip + ucast off) 1 m of
        (s, bs, m) \<Rightarrow> if fail s then (s, 0, m) else (St_Ok, (case bs of [] \<Rightarrow> 0 | b # _ \<Rightarrow> b), m))"

definition peek_byte :: "u8 \<Rightarrow> 'c byte_source \<Rightarrow> (Status + u8) \<times> 'c byte_source" where
  "peek_byte off bs =
     (case bs_fetch bs (bs_consumed bs + off) (bs_ctx bs) of
        (s, b, c) \<Rightarrow> (if fail s then Inl s else Inr b, bs\<lparr>bs_ctx := c\<rparr>))"

definition read_byte :: "'c byte_source \<Rightarrow> (Status + u8) \<times> 'c byte_source" where
  "read_byte bs =
     (case bs_fetch bs (bs_consumed bs) (bs_ctx bs) of
        (s, b, c) \<Rightarrow>
          if fail s then (Inl s, bs\<lparr>bs_ctx := c\<rparr>)
          else (Inr b, bs\<lparr>bs_ctx := c, bs_consumed := bs_consumed bs + 1\<rparr>))"

section \<open>Readers\<close>

text \<open>
  A function that returns a \<open>Status\<close>, fills an out-parameter and touches the byte source through \<open>read_byte\<close> only
  is the tree of its reads: it gives the value of the out-parameter, refuses with a status, or reads a byte
  and goes on; a failed read ends it with the status of the read.
\<close>

datatype 'a reader = Give 'a | Refuse Status | Read_Byte "u8 \<Rightarrow> 'a reader"

primrec run_reader :: "'a reader \<Rightarrow> 'c byte_source \<Rightarrow> (Status + 'a) \<times> 'c byte_source" where
  "run_reader (Give a) bs = (Inr a, bs)"
| "run_reader (Refuse s) bs = (Inl s, bs)"
| "run_reader (Read_Byte k) bs =
     (case read_byte bs of (Inl s, bs) \<Rightarrow> (Inl s, bs) | (Inr b, bs) \<Rightarrow> run_reader (k b) bs)"

primrec read_next :: "'a reader \<Rightarrow> ('a \<Rightarrow> 'b reader) \<Rightarrow> 'b reader" where
  "read_next (Give a) f = f a"
| "read_next (Refuse s) f = Refuse s"
| "read_next (Read_Byte k) f = Read_Byte (\<lambda>b. read_next (k b) f)"

text \<open>The loop \<open>for (auto& v : b) read_byte(bs, v)\<close> over a buffer of \<open>n\<close> bytes.\<close>

fun read_buf :: "nat \<Rightarrow> (u8 list) reader" where
  "read_buf 0 = Give []"
| "read_buf (Suc n) = Read_Byte (\<lambda>b. read_next (read_buf n) (\<lambda>bs. Give (b # bs)))"

definition read_u16 :: "u16 reader" where
  "read_u16 = Read_Byte (\<lambda>lo. Read_Byte (\<lambda>hi. Give (ucast lo OR push_bit 8 (ucast hi))))"

definition read_u32 :: "u32 reader" where
  "read_u32 = read_next (read_buf 4) (\<lambda>b. Give
     (ucast (b ! 0) OR push_bit 8 (ucast (b ! 1)) OR push_bit 16 (ucast (b ! 2)) OR push_bit 24 (ucast (b ! 3))))"

definition read_u64 :: "u64 reader" where
  "read_u64 = read_next (read_buf 8) (\<lambda>b. Give (foldr (\<lambda>v out. push_bit 8 out OR ucast v) b 0))"

section \<open>Prefixes\<close>

record prefixes =
  px_opsize :: bool
  px_addrsize :: bool
  px_lock :: bool
  px_rep :: bool
  px_repne :: bool
  px_has_seg :: bool
  px_seg :: Seg
  px_has_rex :: bool
  px_rex :: u8
  px_is_vex :: bool
  px_vex_w :: bool
  px_vex_l :: bool
  px_vex_vvvv :: u8
  px_vex_map :: u8
  px_vex_r :: bool
  px_vex_x :: bool
  px_vex_b :: bool
  px_is_evex :: bool
  px_evex_l2 :: bool
  px_evex_v :: bool
  px_evex_r :: bool
  px_evex_z :: bool
  px_evex_b :: bool
  px_evex_aaa :: u8

definition no_prefixes :: prefixes where
  "no_prefixes = \<lparr>px_opsize = False, px_addrsize = False, px_lock = False, px_rep = False, px_repne = False,
     px_has_seg = False, px_seg = Seg_DS, px_has_rex = False, px_rex = 0,
     px_is_vex = False, px_vex_w = False, px_vex_l = False, px_vex_vvvv = 0, px_vex_map = 0,
     px_vex_r = False, px_vex_x = False, px_vex_b = False,
     px_is_evex = False, px_evex_l2 = False, px_evex_v = False, px_evex_r = False,
     px_evex_z = False, px_evex_b = False, px_evex_aaa = 0\<rparr>"

definition rex_w :: "prefixes \<Rightarrow> bool" where
  "rex_w px = (if px_is_vex px then px_vex_w px else px_rex px AND 0x08 \<noteq> 0)"

definition rex_r :: "prefixes \<Rightarrow> bool" where
  "rex_r px = (if px_is_vex px then px_vex_r px else px_rex px AND 0x04 \<noteq> 0)"

definition rex_x :: "prefixes \<Rightarrow> bool" where
  "rex_x px = (if px_is_vex px then px_vex_x px else px_rex px AND 0x02 \<noteq> 0)"

definition rex_b :: "prefixes \<Rightarrow> bool" where
  "rex_b px = (if px_is_vex px then px_vex_b px else px_rex px AND 0x01 \<noteq> 0)"

definition evex_vector_size :: "prefixes \<Rightarrow> u8" where
  "evex_vector_size px = (if px_evex_l2 px then 64 else if px_vex_l px then 32 else 16)"

definition apply_vex_pp :: "u8 \<Rightarrow> prefixes \<Rightarrow> prefixes" where
  "apply_vex_pp pp px =
     (if pp AND 0x3 = 1 then px\<lparr>px_opsize := True\<rparr>
      else if pp AND 0x3 = 2 then px\<lparr>px_rep := True\<rparr>
      else if pp AND 0x3 = 3 then px\<lparr>px_repne := True\<rparr>
      else px)"

text \<open>The cases of the switch over legacy prefix bytes.\<close>

definition seg_prefix :: "Seg \<Rightarrow> prefixes \<Rightarrow> prefixes" where
  "seg_prefix s px = px\<lparr>px_seg := s, px_has_seg := True\<rparr>"

definition legacy_prefix :: "u8 \<Rightarrow> prefixes \<Rightarrow> prefixes option" where
  "legacy_prefix b px =
     (if b = 0x66 then Some (px\<lparr>px_opsize := True\<rparr>)
      else if b = 0x67 then Some (px\<lparr>px_addrsize := True\<rparr>)
      else if b = 0xF0 then Some (px\<lparr>px_lock := True\<rparr>)
      else if b = 0xF2 then Some (px\<lparr>px_repne := True\<rparr>)
      else if b = 0xF3 then Some (px\<lparr>px_rep := True\<rparr>)
      else if b = 0x26 then Some (seg_prefix Seg_ES px)
      else if b = 0x2E then Some (seg_prefix Seg_CS px)
      else if b = 0x36 then Some (seg_prefix Seg_SS px)
      else if b = 0x3E then Some (seg_prefix Seg_DS px)
      else if b = 0x64 then Some (seg_prefix Seg_FS px)
      else if b = 0x65 then Some (seg_prefix Seg_GS px)
      else None)"

definition vex2_fields :: "u8 \<Rightarrow> prefixes \<Rightarrow> prefixes" where
  "vex2_fields v px = apply_vex_pp (v AND 0x3)
     (px\<lparr>px_is_vex := True, px_vex_map := 1, px_vex_r := (v AND 0x80 = 0), px_vex_x := False, px_vex_b := False,
         px_vex_vvvv := NOT (drop_bit 3 v) AND 0xF, px_vex_l := (v AND 0x04 \<noteq> 0)\<rparr>)"

definition vex3_fields :: "u8 \<Rightarrow> u8 \<Rightarrow> prefixes \<Rightarrow> prefixes" where
  "vex3_fields b1 b2 px = apply_vex_pp (b2 AND 0x3)
     (px\<lparr>px_is_vex := True, px_vex_r := (b1 AND 0x80 = 0), px_vex_x := (b1 AND 0x40 = 0), px_vex_b := (b1 AND 0x20 = 0),
         px_vex_map := b1 AND 0x1F, px_vex_w := (b2 AND 0x80 \<noteq> 0),
         px_vex_vvvv := NOT (drop_bit 3 b2) AND 0xF, px_vex_l := (b2 AND 0x04 \<noteq> 0)\<rparr>)"

definition evex_fields :: "u8 \<Rightarrow> u8 \<Rightarrow> u8 \<Rightarrow> prefixes \<Rightarrow> prefixes" where
  "evex_fields p1 p2 p3 px =
     (let px = px\<lparr>px_is_vex := True, px_is_evex := True,
                  px_vex_r := (p1 AND 0x80 = 0), px_vex_x := (p1 AND 0x40 = 0), px_vex_b := (p1 AND 0x20 = 0),
                  px_evex_r := (p1 AND 0x10 = 0), px_vex_map := p1 AND 0x07,
                  px_vex_w := (p2 AND 0x80 \<noteq> 0), px_vex_vvvv := NOT (drop_bit 3 p2) AND 0x0F\<rparr>;
          px = apply_vex_pp (p2 AND 0x3) px;
          px = px\<lparr>px_evex_z := (p3 AND 0x80 \<noteq> 0), px_evex_l2 := (p3 AND 0x40 \<noteq> 0), px_vex_l := (p3 AND 0x20 \<noteq> 0),
                  px_evex_b := (p3 AND 0x10 \<noteq> 0), px_evex_v := (p3 AND 0x08 = 0), px_evex_aaa := p3 AND 0x07\<rparr>
      in if \<not> px_evex_v px then px\<lparr>px_vex_vvvv := px_vex_vvvv px OR 0x10\<rparr> else px)"

text \<open>
  What follows the legacy prefixes, by the byte \<open>b\<close> that was peeked at: the byte is skipped and the tail is
  read, or it is the opcode and stays.
\<close>

definition vex_or_rex :: "u8 \<Rightarrow> prefixes \<Rightarrow> prefixes reader option" where
  "vex_or_rex b px =
     (if b = 0xC5 then Some (Read_Byte (\<lambda>v. Give (vex2_fields v px)))
      else if b = 0x62 then Some (Read_Byte (\<lambda>p1. Read_Byte (\<lambda>p2. Read_Byte (\<lambda>p3. Give (evex_fields p1 p2 p3 px)))))
      else if b = 0xC4 then Some (Read_Byte (\<lambda>b1. Read_Byte (\<lambda>b2. Give (vex3_fields b1 b2 px))))
      else if 0x40 \<le> b \<and> b \<le> 0x4F then Some (Give (px\<lparr>px_rex := b, px_has_rex := True\<rparr>))
      else None)"

definition scan_tail :: "u8 \<Rightarrow> prefixes \<Rightarrow> 'c byte_source \<Rightarrow> (Status + prefixes) \<times> 'c byte_source" where
  "scan_tail b px bs =
     (case vex_or_rex b px of None \<Rightarrow> (Inr px, bs) | Some r \<Rightarrow> run_reader r (snd (read_byte bs)))"

partial_function (option) scan_loop ::
  "prefixes \<Rightarrow> 'c byte_source \<Rightarrow> ((Status + prefixes) \<times> 'c byte_source) option" where
  "scan_loop px bs =
     (case peek_byte 0 bs of
        (Inl s, bs) \<Rightarrow> Some (Inl s, bs)
      | (Inr b, bs) \<Rightarrow>
          (case legacy_prefix b px of
             Some px \<Rightarrow> scan_loop px (snd (read_byte bs))
           | None \<Rightarrow> Some (scan_tail b px bs)))"

declare scan_loop.simps [code]

definition scan_prefixes :: "'c byte_source \<Rightarrow> ((Status + prefixes) \<times> 'c byte_source) option" where
  "scan_prefixes bs = scan_loop no_prefixes bs"

section \<open>Operands\<close>

record modrm =
  mr_mod :: u8
  mr_reg :: u8
  mr_rm :: u8

definition split_modrm :: "u8 \<Rightarrow> modrm" where
  "split_modrm b = \<lparr>mr_mod = drop_bit 6 b, mr_reg = drop_bit 3 b AND 7, mr_rm = b AND 7\<rparr>"

definition default_gpr_op_size :: "prefixes \<Rightarrow> u8" where
  "default_gpr_op_size px = (if rex_w px then 8 else if px_opsize px then 2 else 4)"

definition combine_reg :: "bool \<Rightarrow> u8 \<Rightarrow> u8" where
  "combine_reg ext r3 = (if ext then 8 else 0) OR (r3 AND 7)"

record sib =
  sib_base :: u8
  sib_index :: u8
  sib_scale :: u8
  sib_needs_disp32 :: bool

definition split_sib :: "u8 \<Rightarrow> u8 \<Rightarrow> bool \<Rightarrow> bool \<Rightarrow> sib" where
  "split_sib b md rx rb =
     (let scale_field = drop_bit 6 b; index_field = drop_bit 3 b AND 7; base_field = b AND 7
      in \<lparr>sib_base = (if base_field = 5 \<and> md = 0 then REG_NONE else combine_reg rb base_field),
          sib_index = (if index_field = 4 \<and> \<not> rx then REG_NONE else combine_reg rx index_field),
          sib_scale = push_bit (unat scale_field) 1,
          sib_needs_disp32 = (base_field = 5 \<and> md = 0)\<rparr>)"

definition reg_operand :: "prefixes \<Rightarrow> modrm \<Rightarrow> u8 \<Rightarrow> operand" where
  "reg_operand px mrm sz = zero_operand\<lparr>o_kind := OK_Reg,
     o_reg := (if sz = 1 \<and> \<not> px_has_rex px \<and> 4 \<le> mr_reg mrm \<and> mr_reg mrm \<le> 7 then 16 + (mr_reg mrm - 4)
               else combine_reg (rex_r px) (mr_reg mrm))\<rparr>"

text \<open>The displacement read that the three forms share: 8 bits, 32 bits or none.\<close>

definition read_disp8 :: "u64 reader" where
  "read_disp8 = Read_Byte (\<lambda>d. Give (scast d))"

definition read_disp32 :: "u64 reader" where
  "read_disp32 = read_next read_u32 (\<lambda>d. Give (scast d))"

definition read_disp :: "bool \<Rightarrow> u8 \<Rightarrow> u64 reader" where
  "read_disp needs32 md =
     (if needs32 then read_disp32 else if md = 1 then read_disp8 else if md = 2 then read_disp32 else Give 0)"

definition decode_rm_operand :: "prefixes \<Rightarrow> modrm \<Rightarrow> u8 \<Rightarrow> operand reader" where
  "decode_rm_operand px mrm sz =
     (if mr_mod mrm = 3 then
        Give (zero_operand\<lparr>o_kind := OK_Reg,
          o_reg := (if sz = 1 \<and> \<not> px_has_rex px \<and> 4 \<le> mr_rm mrm \<and> mr_rm mrm \<le> 7 then 16 + (mr_rm mrm - 4)
                    else combine_reg (rex_b px) (mr_rm mrm))\<rparr>)
      else
        (let out = zero_operand\<lparr>o_seg := (if px_has_seg px then px_seg px else Seg_DS)\<rparr>
         in if mr_mod mrm = 0 \<and> mr_rm mrm = 5 then
              read_next read_disp32 (\<lambda>d. Give (out\<lparr>o_kind := OK_RipRelMem, o_reg := REG_NONE, o_index := REG_NONE,
                o_scale := 0, o_imm := d\<rparr>))
            else if mr_rm mrm = 4 then
              Read_Byte (\<lambda>sb.
                let sib = split_sib sb (mr_mod mrm) (rex_x px) (rex_b px)
                in read_next (read_disp (sib_needs_disp32 sib) (mr_mod mrm)) (\<lambda>d.
                  Give (out\<lparr>o_kind := OK_Mem, o_reg := sib_base sib, o_index := sib_index sib,
                    o_scale := sib_scale sib, o_imm := d\<rparr>)))
            else
              read_next (read_disp False (mr_mod mrm)) (\<lambda>d.
                Give (out\<lparr>o_kind := OK_Mem, o_reg := combine_reg (rex_b px) (mr_rm mrm), o_index := REG_NONE,
                  o_scale := 0, o_imm := d\<rparr>))))"

definition read_imm_sx :: "u8 \<Rightarrow> u64 reader" where
  "read_imm_sx n =
     (if n = 1 then Read_Byte (\<lambda>v. Give (scast v))
      else if n = 2 then read_next read_u16 (\<lambda>v. Give (scast v))
      else if n = 4 then read_next read_u32 (\<lambda>v. Give (scast v))
      else if n = 8 then read_u64
      else Refuse St_InvalidArgument)"

end
