(* ===== verification/Decoder_Groups.thy ===== *)
theory Decoder_Groups
  imports Decoder_Source
begin

text \<open>
  The first part of \<^verbatim>\<open>src/emu/decoder/decoder_opcodes.cpp\<close>: operand constructors, the arithmetic rows, the
  opcode groups 1 to 5, the vector register forms and the x87 escape opcodes.  A decoder function
  takes the prefixes and the instruction filled so far and is a reader of the finished instruction.
\<close>

section \<open>Instructions under construction\<close>

text \<open>The handler of a value-initialised instruction is the null pointer, written as the empty name.\<close>

definition null_handler :: handler where
  "null_handler = H_other []"

definition zero_insn :: insn where
  "zero_insn = \<lparr>i_handler = null_handler, i_kind = Op_Invalid, i_op_size = 0, i_len = 0, i_cond = Cc_O, i_flags = 0,
     i_pad = 0, i_rip = 0, i_dst = zero_operand, i_src = zero_operand, i_imm_extra = 0\<rparr>"

definition bind_op :: "OpKind \<Rightarrow> handler \<Rightarrow> insn \<Rightarrow> insn" where
  "bind_op k h out = out\<lparr>i_kind := k, i_handler := h\<rparr>"

definition mark :: "u8 \<Rightarrow> insn \<Rightarrow> insn" where
  "mark f out = out\<lparr>i_flags := i_flags out OR f\<rparr>"

definition set_operands :: "u8 \<Rightarrow> operand \<Rightarrow> operand \<Rightarrow> insn \<Rightarrow> insn" where
  "set_operands sz dst src out = out\<lparr>i_op_size := sz, i_dst := dst, i_src := src\<rparr>"

definition make_reg :: "u8 \<Rightarrow> operand" where
  "make_reg r = zero_operand\<lparr>o_kind := OK_Reg, o_reg := r\<rparr>"

definition make_imm :: "u64 \<Rightarrow> operand" where
  "make_imm v = zero_operand\<lparr>o_kind := OK_Imm, o_imm := v\<rparr>"

definition make_rel :: "u64 \<Rightarrow> operand" where
  "make_rel v = zero_operand\<lparr>o_kind := OK_Rel, o_imm := v\<rparr>"

text \<open>\<open>static_cast<Cc>(n)\<close> of a low nibble.\<close>

definition cc_of :: "u8 \<Rightarrow> Cc" where
  "cc_of n = [Cc_O, Cc_NO, Cc_B, Cc_NB, Cc_Z, Cc_NZ, Cc_BE, Cc_NBE,
              Cc_S, Cc_NS, Cc_P, Cc_NP, Cc_L, Cc_NL, Cc_LE, Cc_NLE] ! unat n"

definition read_modrm :: "modrm reader" where
  "read_modrm = Read_Byte (\<lambda>mb. Give (split_modrm mb))"

text \<open>A ModRM byte and its r/m operand of \<open>sz\<close> bytes, for the functions that read nothing in between.\<close>

definition read_rm :: "prefixes \<Rightarrow> u8 \<Rightarrow> (modrm \<Rightarrow> operand \<Rightarrow> 'a reader) \<Rightarrow> 'a reader" where
  "read_rm px sz k = read_next read_modrm (\<lambda>m. read_next (decode_rm_operand px m sz) (k m))"

section \<open>The arithmetic rows\<close>

definition alu_kinds :: "(OpKind \<times> handler) list" where
  "alu_kinds =
    [(Op_Add, HArith H_add), (Op_Or, HLogic H_or), (Op_Adc, HArith H_adc), (Op_Sbb, HArith H_sbb),
     (Op_And, HLogic H_and), (Op_Sub, HArith H_sub), (Op_Xor, HLogic H_xor), (Op_Cmp, HLogic H_cmp)]"

definition bind_alu :: "u8 \<Rightarrow> insn \<Rightarrow> insn" where
  "bind_alu n out = (case alu_kinds ! unat n of (k, h) \<Rightarrow> bind_op k h out)"

text \<open>The forms \<open>r/m, r\<close> and \<open>r, r/m\<close>.\<close>

definition decode_mr :: "prefixes \<Rightarrow> u8 \<Rightarrow> insn \<Rightarrow> insn reader" where
  "decode_mr px sz out = read_rm px sz (\<lambda>m rm. Give (set_operands sz rm (reg_operand px m sz) out))"

definition decode_rm :: "prefixes \<Rightarrow> u8 \<Rightarrow> u8 \<Rightarrow> insn \<Rightarrow> insn reader" where
  "decode_rm px sz rm_sz out = read_rm px rm_sz (\<lambda>m rm. Give (set_operands sz (reg_operand px m sz) rm out))"

definition decode_alu_primary :: "prefixes \<Rightarrow> u8 \<Rightarrow> u8 \<Rightarrow> insn \<Rightarrow> insn reader" where
  "decode_alu_primary px family variant out =
     (let out = bind_alu family out; sz = default_gpr_op_size px
      in if variant = 0 then decode_mr px 1 out
         else if variant = 1 then decode_mr px sz out
         else if variant = 2 then decode_rm px 1 1 out
         else if variant = 3 then decode_rm px sz sz out
         else if variant = 4 then read_next (read_imm_sx 1) (\<lambda>imm. Give (set_operands 1 (make_reg RAX) (make_imm imm) out))
         else if variant = 5 then read_next (read_imm_sx (if sz = 2 then 2 else 4)) (\<lambda>imm.
           Give (set_operands sz (make_reg RAX) (make_imm imm) out))
         else Refuse St_UnsupportedOpcode)"

section \<open>Opcode groups\<close>

definition decode_group1 :: "prefixes \<Rightarrow> u8 \<Rightarrow> insn \<Rightarrow> insn reader" where
  "decode_group1 px opc out = read_next read_modrm (\<lambda>m.
     let sz = (if opc = 0x80 then 1 else default_gpr_op_size px)
     in if opc = 0x80 \<or> opc = 0x81 \<or> opc = 0x83 then
          read_next (decode_rm_operand px m sz) (\<lambda>dst.
            read_next (read_imm_sx (if opc = 0x81 then (if sz = 2 then 2 else 4) else 1)) (\<lambda>imm.
              Give (set_operands sz dst (make_imm imm) (bind_alu (mr_reg m) out))))
        else Refuse St_UnsupportedOpcode)"

definition shift_kinds :: "(OpKind \<times> handler) list" where
  "shift_kinds =
    [(Op_Rol, HShift H_rol), (Op_Ror, HShift H_ror), (Op_Rcl, HShift H_rcl), (Op_Rcr, HShift H_rcr),
     (Op_Shl, HShift H_shl), (Op_Shr, HShift H_shr), (Op_Shl, HShift H_shl), (Op_Sar, HShift H_sar)]"

definition bind_shift :: "u8 \<Rightarrow> insn \<Rightarrow> insn" where
  "bind_shift n out = (case shift_kinds ! unat n of (k, h) \<Rightarrow> bind_op k h out)"

definition decode_group2 :: "prefixes \<Rightarrow> u8 \<Rightarrow> insn \<Rightarrow> insn reader" where
  "decode_group2 px opc out =
     (let sz = (if opc = 0xC0 \<or> opc = 0xD0 \<or> opc = 0xD2 then 1 else default_gpr_op_size px)
      in read_rm px sz (\<lambda>m dst.
           let done = (\<lambda>src. Give (set_operands sz dst src (bind_shift (mr_reg m) out)))
           in if opc = 0xC0 \<or> opc = 0xC1 then read_next (read_imm_sx 1) (\<lambda>imm. done (make_imm imm))
              else if opc = 0xD0 \<or> opc = 0xD1 then done (make_imm 1)
              else if opc = 0xD2 \<or> opc = 0xD3 then done (make_reg RCX)
              else Refuse St_UnsupportedOpcode))"

definition decode_group3 :: "prefixes \<Rightarrow> u8 \<Rightarrow> insn \<Rightarrow> insn reader" where
  "decode_group3 px opc out =
     (let sz = (if opc = 0xF6 then 1 else default_gpr_op_size px)
      in read_rm px sz (\<lambda>m rm.
           let unary = (\<lambda>k h. Give (bind_op k h (out\<lparr>i_op_size := sz, i_dst := rm\<rparr>)));
               implicit = (\<lambda>k h. Give (bind_op k h (out\<lparr>i_op_size := sz, i_src := rm\<rparr>)))
           in if mr_reg m = 0 \<or> mr_reg m = 1 then
                read_next (read_imm_sx (if opc = 0xF6 then 1 else if sz = 2 then 2 else 4)) (\<lambda>imm.
                  Give (set_operands sz rm (make_imm imm) (bind_op Op_Test (HLogic H_test) out)))
              else if mr_reg m = 2 then unary Op_Not (HLogic H_not)
              else if mr_reg m = 3 then unary Op_Neg (HArith H_neg)
              else if mr_reg m = 4 then implicit Op_Mul (HArith H_mul)
              else if mr_reg m = 5 then implicit Op_Imul (HArith H_imul1)
              else if mr_reg m = 6 then implicit Op_Div (HArith H_div)
              else if mr_reg m = 7 then implicit Op_Idiv (HArith H_idiv)
              else Refuse St_UnsupportedOpcode))"

definition decode_group4_5 :: "prefixes \<Rightarrow> u8 \<Rightarrow> insn \<Rightarrow> insn reader" where
  "decode_group4_5 px opc out =
     (let sz = (if opc = 0xFE then 1 else default_gpr_op_size px)
      in read_rm px sz (\<lambda>m rm.
           let unary = (\<lambda>n k h. bind_op k h (out\<lparr>i_op_size := n, i_dst := rm\<rparr>))
           in if mr_reg m = 0 then Give (unary sz Op_Inc (HArith H_inc))
              else if mr_reg m = 1 then Give (unary sz Op_Dec (HArith H_dec))
              else if opc \<noteq> 0xFF then Refuse St_UnsupportedOpcode
              else if mr_reg m = 2 then Give (mark INSN_FLAG_CONTROL_FLOW (unary 8 Op_Call (HFlow H_call)))
              else if mr_reg m = 4 then Give (mark INSN_FLAG_CONTROL_FLOW (unary 8 Op_Jmp (HFlow H_jmp)))
              else if mr_reg m = 6 then Give (unary 8 Op_Push (HMove H_push))
              else Refuse St_UnsupportedOpcode))"

section \<open>Vector register forms\<close>

definition xmm_operand :: "bool \<Rightarrow> u8 \<Rightarrow> operand" where
  "xmm_operand ext r3 = zero_operand\<lparr>o_kind := OK_Xmm, o_reg := combine_reg ext r3\<rparr>"

text \<open>A register operand of the vector file when \<open>mod = 3\<close>, else a memory operand.\<close>

definition xmm_rm :: "prefixes \<Rightarrow> modrm \<Rightarrow> u8 \<Rightarrow> operand reader" where
  "xmm_rm px m sz = (if mr_mod m = 3 then Give (xmm_operand (rex_b px) (mr_rm m)) else decode_rm_operand px m sz)"

definition decode_xmm_rm :: "prefixes \<Rightarrow> OpKind \<Rightarrow> handler \<Rightarrow> insn \<Rightarrow> insn reader" where
  "decode_xmm_rm px k h out = read_next read_modrm (\<lambda>m. read_next (xmm_rm px m 16) (\<lambda>src.
     Give (set_operands 16 (xmm_operand (rex_r px) (mr_reg m)) src (bind_op k h out))))"

definition decode_xmm_mr :: "prefixes \<Rightarrow> OpKind \<Rightarrow> handler \<Rightarrow> insn \<Rightarrow> insn reader" where
  "decode_xmm_mr px k h out = read_next read_modrm (\<lambda>m. read_next (xmm_rm px m 16) (\<lambda>dst.
     Give (set_operands 16 dst (xmm_operand (rex_r px) (mr_reg m)) (bind_op k h out))))"

text \<open>The trailing immediate byte that goes to \<open>imm_extra\<close>.\<close>

definition with_imm8 :: "insn reader \<Rightarrow> insn reader" where
  "with_imm8 r = read_next r (\<lambda>out. read_next (read_imm_sx 1) (\<lambda>imm. Give (out\<lparr>i_imm_extra := imm AND 0xFF\<rparr>)))"

section \<open>x87 escape opcodes\<close>

definition x87_mem_size :: "u8 \<Rightarrow> u8" where
  "x87_mem_size opc = (if opc = 0xDC \<or> opc = 0xDD then 8 else if opc = 0xDE \<or> opc = 0xDF then 2 else 4)"

definition x87_arith_table :: "(u8 \<times> OpKind \<times> handler) list" where
  "x87_arith_table = [(0, Op_Fadd, H_other ''op_fadd''), (1, Op_Fmul, H_other ''op_fmul''),
     (4, Op_Fsub, H_other ''op_fsub''), (6, Op_Fdiv, H_other ''op_fdiv'')]"

definition x87_pop_table :: "(u8 \<times> OpKind \<times> handler) list" where
  "x87_pop_table = [(0, Op_Faddp, H_other ''op_faddp''), (1, Op_Fmulp, H_other ''op_fmulp''),
     (4, Op_Fsubp, H_other ''op_fsubp''), (6, Op_Fdivp, H_other ''op_fdivp'')]"

definition x87_d9_table :: "(u8 \<times> OpKind \<times> handler) list" where
  "x87_d9_table =
    [(0xE0, Op_Fchs, H_other ''op_fchs''), (0xE1, Op_Fabs, H_other ''op_fabs''), (0xFA, Op_Fsqrt, H_other ''op_fsqrt''),
     (0xF0, Op_F2xm1, H_other ''op_f2xm1''), (0xF1, Op_Fyl2x, H_other ''op_fyl2x''), (0xF3, Op_Fpatan, H_other ''op_fpatan''),
     (0xFD, Op_Fscale, H_other ''op_fscale''), (0xFC, Op_Frndint, H_other ''op_frndint''),
     (0xFE, Op_Fsin, H_other ''op_fsin''), (0xFF, Op_Fcos, H_other ''op_fcos'')]"

definition look_up :: "(u8 \<times> OpKind \<times> handler) list \<Rightarrow> u8 \<Rightarrow> (OpKind \<Rightarrow> handler \<Rightarrow> insn reader) \<Rightarrow> insn reader" where
  "look_up table op k = (case map_of table op of None \<Rightarrow> Refuse St_UnsupportedOpcode | Some (kd, h) \<Rightarrow> k kd h)"

definition decode_x87_reg :: "u8 \<Rightarrow> u8 \<Rightarrow> modrm \<Rightarrow> insn \<Rightarrow> insn reader" where
  "decode_x87_reg opc mb m out =
     (let done = (\<lambda>k h. Give (bind_op k h out))
      in if opc = 0xD8 then
           (if mr_reg m = 2 \<or> mr_reg m = 3 then done Op_Fcom (H_other ''op_fcom'') else look_up x87_arith_table (mr_reg m) done)
         else if opc = 0xD9 then
           (if mr_reg m = 0 then done Op_Fld (H_other ''op_fld'')
            else if mr_reg m = 1 then done Op_Fxch (H_other ''op_fxch'')
            else look_up x87_d9_table mb done)
         else if opc = 0xDB \<and> mb = 0xE3 then done Op_Fninit (H_other ''op_fninit'')
         else if opc = 0xDC then look_up x87_arith_table (mr_reg m) done
         else if opc = 0xDD then
           (if mr_reg m = 2 then done Op_Fst (H_other ''op_fst'')
            else if mr_reg m = 3 then done Op_Fstp (H_other ''op_fstp'')
            else Refuse St_UnsupportedOpcode)
         else if opc = 0xDE then look_up x87_pop_table (mr_reg m) done
         else if opc = 0xDF \<and> mb = 0xE0 then
           Give (bind_op Op_Fnstsw (H_other ''op_fnstsw'') (out\<lparr>i_dst := make_reg RAX\<rparr>))
         else Refuse St_UnsupportedOpcode)"

definition decode_x87_mem :: "u8 \<Rightarrow> modrm \<Rightarrow> insn \<Rightarrow> insn reader" where
  "decode_x87_mem opc m out =
     (let sized = (\<lambda>sz k h. Give (bind_op k h (out\<lparr>i_op_size := sz\<rparr>))); sz = i_op_size out
      in if opc = 0xD9 then
           (if mr_reg m = 0 then sized sz Op_Fld (H_other ''op_fld'')
            else if mr_reg m = 2 then sized sz Op_Fst (H_other ''op_fst'')
            else if mr_reg m = 3 then sized sz Op_Fstp (H_other ''op_fstp'')
            else if mr_reg m = 5 then sized 2 Op_Fldcw (H_other ''op_fldcw'')
            else if mr_reg m = 7 then Give (bind_op Op_Fnstcw (H_other ''op_fnstcw'') (set_operands 2 (i_src out) zero_operand out))
            else Refuse St_UnsupportedOpcode)
         else if opc = 0xDB then
           (if mr_reg m = 0 then sized 4 Op_Fild (H_other ''op_fild'')
            else if mr_reg m = 3 then sized 4 Op_Fistp (H_other ''op_fistp'')
            else if mr_reg m = 5 then sized 10 Op_Fld (H_other ''op_fld'')
            else if mr_reg m = 7 then sized 10 Op_Fstp (H_other ''op_fstp'')
            else Refuse St_UnsupportedOpcode)
         else if opc = 0xDD then
           (if mr_reg m = 0 then sized sz Op_Fld (H_other ''op_fld'')
            else if mr_reg m = 2 then sized sz Op_Fst (H_other ''op_fst'')
            else if mr_reg m = 3 then sized sz Op_Fstp (H_other ''op_fstp'')
            else Refuse St_UnsupportedOpcode)
         else if opc = 0xDF then
           (if mr_reg m = 0 then sized 2 Op_Fild (H_other ''op_fild'')
            else if mr_reg m = 5 then sized 8 Op_Fild (H_other ''op_fild'')
            else if mr_reg m = 7 then sized 8 Op_Fistp (H_other ''op_fistp'')
            else Refuse St_UnsupportedOpcode)
         else Refuse St_UnsupportedOpcode)"

definition decode_x87 :: "prefixes \<Rightarrow> u8 \<Rightarrow> insn \<Rightarrow> insn reader" where
  "decode_x87 px opc out = Read_Byte (\<lambda>mb.
     let m = split_modrm mb; out = out\<lparr>i_op_size := x87_mem_size opc\<rparr>
     in if mr_mod m = 3 then decode_x87_reg opc mb m (out\<lparr>i_dst := (i_dst out)\<lparr>o_index := mr_rm m\<rparr>\<rparr>)
        else read_next (decode_rm_operand px m (x87_mem_size opc)) (\<lambda>src. decode_x87_mem opc m (out\<lparr>i_src := src\<rparr>)))"

end
