(* ===== verification/Decoder_Vector.thy ===== *)
theory Decoder_Vector
  imports Decoder_Groups
begin

text \<open>
  The vector part of \<^verbatim>\<open>src/emu/decoder/decoder_opcodes.cpp\<close>: the 0F 38 and 0F 3A maps, the SSE sections of
  the two-byte map, and the VEX and EVEX encodings.  The cases of a switch that only name an operation
  are tables; \<open>None\<close> as a section's result is the \<open>break\<close> that falls through to the next one.
  The marker \<open>src.pad[0]\<close> of gathers and scatters is written there and read nowhere; it is left out.
\<close>


definition no_mandatory :: "prefixes \<Rightarrow> bool" where
  "no_mandatory px \<longleftrightarrow> \<not> px_opsize px \<and> \<not> px_rep px \<and> \<not> px_repne px"

definition table_op ::
  "(u8 \<times> OpKind \<times> handler) list \<Rightarrow> u8 \<Rightarrow> (OpKind \<Rightarrow> handler \<Rightarrow> 'r) \<Rightarrow> 'r option" where
  "table_op table op k = (case map_of table op of None \<Rightarrow> None | Some (kd, h) \<Rightarrow> Some (k kd h))"

definition or_try :: "'r option \<Rightarrow> 'r option \<Rightarrow> 'r option" where
  "or_try a b = (case a of None \<Rightarrow> b | Some r \<Rightarrow> Some r)"

definition or_else :: "'r option \<Rightarrow> 'r \<Rightarrow> 'r" where
  "or_else a r = (case a of None \<Rightarrow> r | Some r' \<Rightarrow> r')"

definition in_case :: "bool \<Rightarrow> 'r option \<Rightarrow> 'r option" where
  "in_case b a = (if b then a else None)"

section \<open>The 0F 38 map\<close>

definition sha_table :: "(u8 \<times> OpKind \<times> handler) list" where
  "sha_table =
    [(0xC8, Op_Sha1nexte, H_other ''op_sha1nexte''),
     (0xC9, Op_Sha1msg1, H_other ''op_sha1msg1''),
     (0xCA, Op_Sha1msg2, H_other ''op_sha1msg2''),
     (0xCB, Op_Sha256rnds2, H_other ''op_sha256rnds2''),
     (0xCC, Op_Sha256msg1, H_other ''op_sha256msg1''),
     (0xCD, Op_Sha256msg2, H_other ''op_sha256msg2'')]"

definition ssse_table :: "(u8 \<times> OpKind \<times> handler) list" where
  "ssse_table =
    [(0x00, Op_Pshufb, H_other ''op_pshufb''),
     (0x1C, Op_Pabsb, H_other ''op_pabsb''),
     (0x1D, Op_Pabsw, H_other ''op_pabsw''),
     (0x1E, Op_Pabsd, H_other ''op_pabsd''),
     (0x37, Op_Pcmpgtq, H_other ''op_pcmpgtq''),
     (0x38, Op_Pminsb, H_other ''op_pminsw''),
     (0x39, Op_Pminsd, H_other ''op_pminsw''),
     (0x3A, Op_Pminuw, H_other ''op_pminub''),
     (0x3B, Op_Pminud, H_other ''op_pminub''),
     (0x3C, Op_Pmaxsb, H_other ''op_pmaxsw''),
     (0x3D, Op_Pmaxsd, H_other ''op_pmaxsw''),
     (0x3E, Op_Pmaxuw, H_other ''op_pmaxub''),
     (0x3F, Op_Pmaxud, H_other ''op_pmaxub''),
     (0x20, Op_Pmovsxbw, H_other ''op_pmovmskb''),
     (0xDB, Op_Aesimc, H_other ''op_aesimc''),
     (0xDC, Op_Aesenc, H_other ''op_aesenc''),
     (0xDD, Op_Aesenclast, H_other ''op_aesenclast''),
     (0xDE, Op_Aesdec, H_other ''op_aesdec''),
     (0xDF, Op_Aesdeclast, H_other ''op_aesdeclast'')]"

definition decode_crc32 :: "prefixes \<Rightarrow> u8 \<Rightarrow> insn \<Rightarrow> insn reader" where
  "decode_crc32 px op out =
     (let sz = (if op = 0xF0 then 1 else default_gpr_op_size px)
      in read_rm px sz (\<lambda>m src.
           Give (bind_op Op_Crc32 (H_other ''op_crc32'') (set_operands sz (reg_operand px m 4) src out))))"

definition decode_movbe :: "prefixes \<Rightarrow> u8 \<Rightarrow> insn \<Rightarrow> insn reader" where
  "decode_movbe px op out =
     (let sz = default_gpr_op_size px; out = bind_op Op_Movbe (H_other ''op_movbe'') out
      in if op = 0xF0 then decode_rm px sz sz out else decode_mr px sz out)"

definition decode_0F38 :: "prefixes \<Rightarrow> insn \<Rightarrow> insn reader" where
  "decode_0F38 px out = Read_Byte (\<lambda>op.
     if op = 0xF0 \<or> op = 0xF1 then (if px_repne px then decode_crc32 px op out else decode_movbe px op out)
     else or_else
       (or_try (in_case (no_mandatory px) (table_op sha_table op (\<lambda>k h. decode_xmm_rm px k h out)))
          (in_case (px_opsize px) (table_op ssse_table op (\<lambda>k h. decode_xmm_rm px k h out))))
       (Refuse St_UnsupportedOpcode))"

section \<open>The 0F 3A map\<close>

definition imm_table :: "(u8 \<times> OpKind \<times> handler) list" where
  "imm_table =
    [(0x08, Op_Roundps, H_other ''op_roundps''),
     (0x09, Op_Roundpd, H_other ''op_roundpd''),
     (0x0A, Op_Roundss, H_other ''op_roundss''),
     (0x0B, Op_Roundsd, H_other ''op_roundsd''),
     (0x21, Op_Insertps, H_other ''op_insertps''),
     (0x44, Op_Pclmulqdq, H_other ''op_pclmulqdq''),
     (0x60, Op_Pcmpestrm, H_other ''op_pcmpestrm''),
     (0x61, Op_Pcmpestri, H_other ''op_pcmpestri''),
     (0x62, Op_Pcmpistrm, H_other ''op_pcmpistrm''),
     (0x63, Op_Pcmpistri, H_other ''op_pcmpistri''),
     (0xDF, Op_Aeskeygenassist, H_other ''op_aeskeygen'')]"

text \<open>PEXTR and PINSR: a general register or memory operand of \<open>sz\<close> bytes and a vector register.\<close>

definition decode_pextr :: "prefixes \<Rightarrow> u8 \<Rightarrow> OpKind \<Rightarrow> handler \<Rightarrow> insn \<Rightarrow> insn reader" where
  "decode_pextr px sz k h out = read_rm px sz (\<lambda>m dst.
     Give (bind_op k h (set_operands sz dst (xmm_operand (rex_r px) (mr_reg m)) out)))"

definition decode_pinsr :: "prefixes \<Rightarrow> u8 \<Rightarrow> OpKind \<Rightarrow> handler \<Rightarrow> insn \<Rightarrow> insn reader" where
  "decode_pinsr px sz k h out = read_rm px sz (\<lambda>m src.
     Give (bind_op k h (set_operands sz (xmm_operand (rex_r px) (mr_reg m)) src out)))"

definition decode_0F3A :: "prefixes \<Rightarrow> insn \<Rightarrow> insn reader" where
  "decode_0F3A px out = Read_Byte (\<lambda>op.
     if no_mandatory px \<and> op = 0xCC then with_imm8 (decode_xmm_rm px Op_Sha1rnds4 (H_other ''op_sha1rnds4'') out)
     else if \<not> px_opsize px then Refuse St_UnsupportedOpcode
     else if op = 0x14 then with_imm8 (decode_pextr px 1 Op_Pextrb (H_other ''op_pextrb'') out)
     else if op = 0x15 then with_imm8 (decode_pextr px 2 Op_Pextrw (H_other ''op_pextrw'') out)
     else if op = 0x16 then
       (if rex_w px then with_imm8 (decode_pextr px 8 Op_Pextrq (H_other ''op_pextrq'') out)
        else with_imm8 (decode_pextr px 4 Op_Pextrd (H_other ''op_pextrd'') out))
     else if op = 0x20 then with_imm8 (decode_pinsr px 1 Op_Pinsrb (H_other ''op_pinsrb'') out)
     else if op = 0x22 then
       (if rex_w px then with_imm8 (decode_pinsr px 8 Op_Pinsrq (H_other ''op_pinsrq'') out)
        else with_imm8 (decode_pinsr px 4 Op_Pinsrd (H_other ''op_pinsrd'') out))
     else look_up imm_table op (\<lambda>k h. with_imm8 (decode_xmm_rm px k h out)))"

section \<open>The SSE sections of the two-byte map\<close>

text \<open>Scalar operations: the single and the double variant of an opcode.\<close>

definition scalar_ss_table :: "(u8 \<times> OpKind \<times> handler) list" where
  "scalar_ss_table =
    [(0x10, Op_Movss, H_other ''op_movss''), (0x5A, Op_Cvtss2sd, H_other ''op_cvtss2sd''),
     (0x58, Op_Addss, H_other ''op_addss''), (0x5C, Op_Subss, H_other ''op_subss''), (0x59, Op_Mulss, H_other ''op_mulss''),
     (0x5E, Op_Divss, H_other ''op_divss''), (0x51, Op_Sqrtss, H_other ''op_sqrtss''), (0x5D, Op_Minss, H_other ''op_minss''),
     (0x5F, Op_Maxss, H_other ''op_maxss''), (0x53, Op_Rcpss, H_other ''op_rcpss''), (0x52, Op_Rsqrtss, H_other ''op_rsqrtss'')]"

definition scalar_sd_table :: "(u8 \<times> OpKind \<times> handler) list" where
  "scalar_sd_table =
    [(0x10, Op_Movsd, H_other ''op_movsd_fp''), (0x5A, Op_Cvtsd2ss, H_other ''op_cvtsd2ss''),
     (0x58, Op_Addsd, H_other ''op_addsd''), (0x5C, Op_Subsd, H_other ''op_subsd''), (0x59, Op_Mulsd, H_other ''op_mulsd''),
     (0x5E, Op_Divsd, H_other ''op_divsd''), (0x51, Op_Sqrtsd, H_other ''op_sqrtsd''), (0x5D, Op_Minsd, H_other ''op_minsd''),
     (0x5F, Op_Maxsd, H_other ''op_maxsd'')]"

definition decode_cvt_from_int :: "prefixes \<Rightarrow> OpKind \<Rightarrow> handler \<Rightarrow> insn \<Rightarrow> insn reader" where
  "decode_cvt_from_int px k h out = decode_pinsr px (if rex_w px then 8 else 4) k h out"

definition decode_cvt_to_int :: "prefixes \<Rightarrow> u8 \<Rightarrow> OpKind \<Rightarrow> handler \<Rightarrow> insn \<Rightarrow> insn reader" where
  "decode_cvt_to_int px src_sz k h out = read_next read_modrm (\<lambda>m. read_next (xmm_rm px m src_sz) (\<lambda>src.
     Give (bind_op k h (set_operands (if rex_w px then 8 else 4) (make_reg (combine_reg (rex_r px) (mr_reg m))) src out))))"

definition scalar_section :: "prefixes \<Rightarrow> u8 \<Rightarrow> insn \<Rightarrow> insn reader option" where
  "scalar_section px sec out =
     (let sd = px_repne px
      in if sec = 0x11 then
           Some (if sd then decode_xmm_mr px Op_Movsd (H_other ''op_movsd_fp'') out
                 else decode_xmm_mr px Op_Movss (H_other ''op_movss'') out)
         else if sec = 0x2A then
           Some (if sd then decode_cvt_from_int px Op_Cvtsi2sd (H_other ''op_cvtsi2sd'') out
                 else decode_cvt_from_int px Op_Cvtsi2ss (H_other ''op_cvtsi2ss'') out)
         else if sec = 0x2C then
           Some (if sd then decode_cvt_to_int px 8 Op_Cvttsd2si (H_other ''op_cvttsd2si'') out
                 else decode_cvt_to_int px 4 Op_Cvttss2si (H_other ''op_cvttss2si'') out)
         else if sec = 0x70 then
           Some (with_imm8 (if sd then decode_xmm_rm px Op_Pshuflw (H_other ''op_pshuflw'') out
                            else decode_xmm_rm px Op_Pshufhw (H_other ''op_pshufhw'') out))
         else table_op (if sd then scalar_sd_table else scalar_ss_table) sec (\<lambda>k h. decode_xmm_rm px k h out))"

definition packed_double_table :: "(u8 \<times> OpKind \<times> handler) list" where
  "packed_double_table =
    [(0x2E, Op_Ucomisd, H_other ''op_ucomisd''),
     (0x2F, Op_Ucomisd, H_other ''op_ucomisd''),
     (0x10, Op_Movupd, H_other ''op_movupd''),
     (0x28, Op_Movapd, H_other ''op_movupd''),
     (0x58, Op_Addpd, H_other ''op_addpd''),
     (0x5C, Op_Subpd, H_other ''op_subpd''),
     (0x59, Op_Mulpd, H_other ''op_mulpd''),
     (0x5E, Op_Divpd, H_other ''op_divpd''),
     (0x51, Op_Sqrtpd, H_other ''op_sqrtpd''),
     (0x57, Op_Xorpd, H_other ''op_xorpd''),
     (0x54, Op_Andpd, H_other ''op_andps''),
     (0x56, Op_Orpd, H_other ''op_orps'')]"

definition packed_single_table :: "(u8 \<times> OpKind \<times> handler) list" where
  "packed_single_table =
    [(0x2E, Op_Ucomiss, H_other ''op_ucomiss''),
     (0x2F, Op_Ucomiss, H_other ''op_ucomiss''),
     (0x10, Op_Movups, H_other ''op_movups''),
     (0x28, Op_Movaps, H_other ''op_movups''),
     (0x58, Op_Addps, H_other ''op_addps''),
     (0x5C, Op_Subps, H_other ''op_subps''),
     (0x59, Op_Mulps, H_other ''op_mulps''),
     (0x5E, Op_Divps, H_other ''op_divps''),
     (0x51, Op_Sqrtps, H_other ''op_sqrtps''),
     (0x57, Op_Xorps, H_other ''op_xorps''),
     (0x54, Op_Andps, H_other ''op_andps''),
     (0x56, Op_Orps, H_other ''op_orps''),
     (0x53, Op_Rcpps, H_other ''op_rcpps''),
     (0x52, Op_Rsqrtps, H_other ''op_rsqrtps'')]"

definition sse2_table :: "(u8 \<times> OpKind \<times> handler) list" where
  "sse2_table =
    [(0x6F, Op_Movdqa, H_other ''op_movdqa''),
     (0xEF, Op_Pxor, H_other ''op_pxor''),
     (0xDB, Op_Pand, H_other ''op_pand''),
     (0xEB, Op_Por, H_other ''op_por''),
     (0xFC, Op_Paddb, H_other ''op_paddb''),
     (0xFD, Op_Paddw, H_other ''op_paddw''),
     (0xFE, Op_Paddd, H_other ''op_paddd''),
     (0xD4, Op_Paddq, H_other ''op_paddq''),
     (0xF8, Op_Psubb, H_other ''op_psubb''),
     (0xF9, Op_Psubw, H_other ''op_psubw''),
     (0xFA, Op_Psubd, H_other ''op_psubd''),
     (0xFB, Op_Psubq, H_other ''op_psubq''),
     (0x74, Op_Pcmpeqb, H_other ''op_pcmpeqb''),
     (0x75, Op_Pcmpeqw, H_other ''op_pcmpeqw''),
     (0x76, Op_Pcmpeqd, H_other ''op_pcmpeqd''),
     (0xD5, Op_Pmullw, H_other ''op_pmullw''),
     (0xE5, Op_Pmulhw, H_other ''op_pmulhw''),
     (0xE4, Op_Pmulhuw, H_other ''op_pmulhuw''),
     (0xF5, Op_Pmaddwd, H_other ''op_pmaddwd''),
     (0xF1, Op_Psllw, H_other ''op_psllw''),
     (0xF2, Op_Pslld, H_other ''op_pslld''),
     (0xF3, Op_Psllq, H_other ''op_psllq''),
     (0xD1, Op_Psrlw, H_other ''op_psrlw''),
     (0xD2, Op_Psrld, H_other ''op_psrld''),
     (0xD3, Op_Psrlq, H_other ''op_psrlq''),
     (0xE1, Op_Psraw, H_other ''op_psraw''),
     (0xE2, Op_Psrad, H_other ''op_psrad''),
     (0x60, Op_Punpcklbw, H_other ''op_punpcklbw''),
     (0x61, Op_Punpcklwd, H_other ''op_punpcklwd''),
     (0x62, Op_Punpckldq, H_other ''op_punpckldq''),
     (0x6C, Op_Punpcklqdq, H_other ''op_punpcklqdq''),
     (0x68, Op_Punpckhbw, H_other ''op_punpckhbw''),
     (0x69, Op_Punpckhwd, H_other ''op_punpckhwd''),
     (0x6A, Op_Punpckhdq, H_other ''op_punpckhdq''),
     (0x6D, Op_Punpckhqdq, H_other ''op_punpckhqdq'')]"

definition packed_double_section :: "prefixes \<Rightarrow> u8 \<Rightarrow> insn \<Rightarrow> insn reader option" where
  "packed_double_section px sec out =
     (if sec = 0x11 then Some (decode_xmm_mr px Op_Movupd (H_other ''op_movupd'') out)
      else if sec = 0x29 then Some (decode_xmm_mr px Op_Movapd (H_other ''op_movupd'') out)
      else table_op packed_double_table sec (\<lambda>k h. decode_xmm_rm px k h out))"

text \<open>MOVMSKPS, MOVMSKPD, PMOVMSKB: a general register from a vector register.\<close>

definition decode_movmsk :: "prefixes \<Rightarrow> OpKind \<Rightarrow> handler \<Rightarrow> insn \<Rightarrow> insn reader" where
  "decode_movmsk px k h out = read_next read_modrm (\<lambda>m.
     Give (bind_op k h (set_operands 4 (make_reg (combine_reg (rex_r px) (mr_reg m))) (xmm_operand (rex_b px) (mr_rm m)) out)))"

definition packed_single_section :: "prefixes \<Rightarrow> u8 \<Rightarrow> insn \<Rightarrow> insn reader option" where
  "packed_single_section px sec out =
     (if sec = 0x11 then Some (decode_xmm_mr px Op_Movups (H_other ''op_movups'') out)
      else if sec = 0x29 then Some (decode_xmm_mr px Op_Movaps (H_other ''op_movups'') out)
      else if sec = 0xC6 then Some (with_imm8 (decode_xmm_rm px Op_Shufps (H_other ''op_shufps'') out))
      else if sec = 0x50 then Some (decode_movmsk px Op_Movmskps (H_other ''op_movmskps'') out)
      else table_op packed_single_table sec (\<lambda>k h. decode_xmm_rm px k h out))"

definition decode_mov_to_xmm :: "prefixes \<Rightarrow> insn \<Rightarrow> insn reader" where
  "decode_mov_to_xmm px out =
     (if rex_w px then decode_pinsr px 8 Op_Movq (H_other ''op_movd_to_xmm'') out
      else decode_pinsr px 4 Op_Movd (H_other ''op_movd_to_xmm'') out)"

definition decode_mov_from_xmm :: "prefixes \<Rightarrow> insn \<Rightarrow> insn reader" where
  "decode_mov_from_xmm px out =
     (if rex_w px then decode_pextr px 8 Op_Movq (H_other ''op_movd_from_xmm'') out
      else decode_pextr px 4 Op_Movd (H_other ''op_movd_from_xmm'') out)"

definition sse2_section :: "prefixes \<Rightarrow> u8 \<Rightarrow> insn \<Rightarrow> insn reader option" where
  "sse2_section px sec out =
     (if sec = 0x7F then Some (decode_xmm_mr px Op_Movdqa (H_other ''op_movdqa'') out)
      else if sec = 0x6E then Some (decode_mov_to_xmm px out)
      else if sec = 0x7E then Some (decode_mov_from_xmm px out)
      else if sec = 0xC6 then Some (with_imm8 (decode_xmm_rm px Op_Shufpd (H_other ''op_shufpd'') out))
      else if sec = 0xD7 then Some (decode_movmsk px Op_Pmovmskb (H_other ''op_pmovmskb'') out)
      else if sec = 0x50 then Some (decode_movmsk px Op_Movmskpd (H_other ''op_movmskpd'') out)
      else if sec = 0x70 then Some (with_imm8 (decode_xmm_rm px Op_Pshufd (H_other ''op_pshufd'') out))
      else table_op sse2_table sec (\<lambda>k h. decode_xmm_rm px k h out))"

definition decode_movq_load :: "prefixes \<Rightarrow> insn \<Rightarrow> insn reader" where
  "decode_movq_load px out = read_next read_modrm (\<lambda>m. read_next (xmm_rm px m 8) (\<lambda>src.
     Give (bind_op Op_Movq (H_other ''op_movd_from_xmm'') (set_operands 8 (xmm_operand (rex_r px) (mr_reg m)) src out))))"

definition unaligned_section :: "prefixes \<Rightarrow> u8 \<Rightarrow> insn \<Rightarrow> insn reader option" where
  "unaligned_section px sec out =
     (if sec = 0x6F then Some (decode_xmm_rm px Op_Movdqu (H_other ''op_movdqu'') out)
      else if sec = 0x7F then Some (decode_xmm_mr px Op_Movdqu (H_other ''op_movdqu'') out)
      else if sec = 0x7E then Some (decode_movq_load px out)
      else None)"

text \<open>The five sections in their order.\<close>

definition sse_sections :: "prefixes \<Rightarrow> u8 \<Rightarrow> insn \<Rightarrow> insn reader option" where
  "sse_sections px sec out =
     or_try (in_case (px_rep px \<or> px_repne px) (scalar_section px sec out))
    (or_try (in_case (px_opsize px) (packed_double_section px sec out))
    (or_try (in_case (no_mandatory px) (packed_single_section px sec out))
    (or_try (in_case (px_opsize px) (sse2_section px sec out))
            (in_case (px_rep px) (unaligned_section px sec out)))))"

section \<open>VEX\<close>

definition vex_size :: "prefixes \<Rightarrow> u8" where
  "vex_size px = (if px_vex_l px then 32 else 16)"

definition with_index :: "u8 \<Rightarrow> operand \<Rightarrow> operand" where
  "with_index n op = op\<lparr>o_index := n\<rparr>"

definition decode_vex_op_rmv :: "prefixes \<Rightarrow> OpKind \<Rightarrow> handler \<Rightarrow> insn \<Rightarrow> insn reader" where
  "decode_vex_op_rmv px k h out = read_next read_modrm (\<lambda>m. read_next (xmm_rm px m (vex_size px)) (\<lambda>src.
     Give (set_operands (vex_size px) (with_index (px_vex_vvvv px) (xmm_operand (rex_r px) (mr_reg m))) src
       (mark INSN_FLAG_VEX (bind_op k h out)))))"

definition decode_vex_op_rm :: "prefixes \<Rightarrow> OpKind \<Rightarrow> handler \<Rightarrow> bool \<Rightarrow> insn \<Rightarrow> insn reader" where
  "decode_vex_op_rm px k h reg_to_rm out = read_next read_modrm (\<lambda>m. read_next (xmm_rm px m (vex_size px)) (\<lambda>rm.
     let r = xmm_operand (rex_r px) (mr_reg m); out = mark INSN_FLAG_VEX (bind_op k h out)
     in Give (if reg_to_rm then set_operands (vex_size px) rm r out else set_operands (vex_size px) r rm out)))"

definition vex_gpr_size :: "prefixes \<Rightarrow> u8" where
  "vex_gpr_size px = (if px_vex_w px then 8 else 4)"

definition decode_vex_gpr_rmv :: "prefixes \<Rightarrow> OpKind \<Rightarrow> handler \<Rightarrow> insn \<Rightarrow> insn reader" where
  "decode_vex_gpr_rmv px k h out = read_rm px (vex_gpr_size px) (\<lambda>m src.
     Give (set_operands (vex_gpr_size px) (with_index (px_vex_vvvv px) (make_reg (combine_reg (rex_r px) (mr_reg m)))) src
       (mark INSN_FLAG_VEX (bind_op k h out))))"

text \<open>The lane sizes of a gather or scatter in one immediate.\<close>

definition lane_sizes :: "u8 \<Rightarrow> u8 \<Rightarrow> u64" where
  "lane_sizes data_lane index_lane = ucast data_lane OR push_bit 8 (ucast index_lane)"

definition decode_vgather :: "prefixes \<Rightarrow> OpKind \<Rightarrow> handler \<Rightarrow> u8 \<Rightarrow> u8 \<Rightarrow> insn \<Rightarrow> insn reader" where
  "decode_vgather px k h data_lane index_lane out = read_next read_modrm (\<lambda>m.
     if mr_mod m = 3 then Refuse St_InvalidInstruction
     else read_next (decode_rm_operand px m (vex_size px)) (\<lambda>src.
       Give (set_operands (vex_size px) (with_index (px_vex_vvvv px) (xmm_operand (rex_r px) (mr_reg m))) src
         ((mark INSN_FLAG_VEX (bind_op k h out))\<lparr>i_imm_extra := lane_sizes data_lane index_lane\<rparr>))))"

definition vex38_table :: "(u8 \<times> OpKind \<times> handler) list" where
  "vex38_table =
    [(0x00, Op_Vpshufb, H_other ''op_vpshufb''),
     (0x37, Op_Vpcmpgtq, H_other ''op_vpcmpgtq''),
     (0xDC, Op_Vaesenc, H_other ''op_vaesenc''),
     (0xDD, Op_Vaesenclast, H_other ''op_vaesenclast''),
     (0xDE, Op_Vaesdec, H_other ''op_vaesdec''),
     (0xDF, Op_Vaesdeclast, H_other ''op_vaesdeclast'')]"

definition decode_vex_map2_sse66 :: "prefixes \<Rightarrow> u8 \<Rightarrow> insn \<Rightarrow> insn reader" where
  "decode_vex_map2_sse66 px op out =
     (let w = px_vex_w px
      in if op = 0x90 then
           (if w then decode_vgather px Op_Vpgatherdq (H_other ''op_vpgatherdq'') 8 4 out
            else decode_vgather px Op_Vpgatherdd (H_other ''op_vpgatherdd'') 4 4 out)
         else if op = 0x91 then
           (if w then decode_vgather px Op_Vpgatherqq (H_other ''op_vpgatherqq'') 8 8 out
            else decode_vgather px Op_Vpgatherqd (H_other ''op_vpgatherqd'') 4 8 out)
         else if op = 0x92 then
           (if w then decode_vgather px Op_Vgatherdpd (H_other ''op_vgatherdpd'') 8 4 out
            else decode_vgather px Op_Vgatherdps (H_other ''op_vgatherdps'') 4 4 out)
         else if op = 0x93 then
           (if w then decode_vgather px Op_Vgatherqpd (H_other ''op_vgatherqpd'') 8 8 out
            else decode_vgather px Op_Vgatherqps (H_other ''op_vgatherqps'') 4 8 out)
         else look_up vex38_table op (\<lambda>k h. decode_vex_op_rmv px k h out))"

definition decode_bls :: "prefixes \<Rightarrow> insn \<Rightarrow> insn reader" where
  "decode_bls px out = read_rm px (vex_gpr_size px) (\<lambda>m src.
     let out = mark INSN_FLAG_VEX (set_operands (vex_gpr_size px) (make_reg (px_vex_vvvv px)) src out)
     in if mr_reg m = 1 then Give (bind_op Op_Blsr (HBmi H_blsr) out)
        else if mr_reg m = 2 then Give (bind_op Op_Blsmsk (HBmi H_blsmsk) out)
        else if mr_reg m = 3 then Give (bind_op Op_Blsi (HBmi H_blsi) out)
        else Refuse St_UnsupportedOpcode)"

text \<open>The tests that follow the one for the 66 prefix; where it holds they are not reached.\<close>

definition decode_vex_map2_bmi :: "prefixes \<Rightarrow> insn \<Rightarrow> insn reader" where
  "decode_vex_map2_bmi px out = Read_Byte (\<lambda>op.
     if px_opsize px then decode_vex_map2_sse66 px op out
     else if op = 0xF2 \<and> no_mandatory px then decode_vex_gpr_rmv px Op_Andn (HBmi H_andn) out
     else if op = 0xF7 \<and> no_mandatory px then decode_vex_gpr_rmv px Op_Bextr (HBmi H_bextr) out
     else if op = 0xF7 \<and> px_opsize px then decode_vex_gpr_rmv px Op_Shlx (HBmi H_shlx) out
     else if op = 0xF7 \<and> px_rep px then decode_vex_gpr_rmv px Op_Sarx (HBmi H_sarx) out
     else if op = 0xF7 \<and> px_repne px then decode_vex_gpr_rmv px Op_Shrx (HBmi H_shrx) out
     else if op = 0xF5 \<and> no_mandatory px then decode_vex_gpr_rmv px Op_Bzhi (HBmi H_bzhi) out
     else if op = 0xF5 \<and> px_rep px then decode_vex_gpr_rmv px Op_Pext (HBmi H_pext) out
     else if op = 0xF5 \<and> px_repne px then decode_vex_gpr_rmv px Op_Pdep (HBmi H_pdep) out
     else if op = 0xF6 \<and> px_repne px then decode_vex_gpr_rmv px Op_Mulx (HBmi H_mulx) out
     else if op = 0xF3 then decode_bls px out
     else Refuse St_UnsupportedOpcode)"

definition decode_rorx :: "prefixes \<Rightarrow> insn \<Rightarrow> insn reader" where
  "decode_rorx px out = with_imm8 (read_rm px (vex_gpr_size px) (\<lambda>m src.
     Give (mark INSN_FLAG_VEX (bind_op Op_Rorx (HBmi H_rorx)
       (set_operands (vex_gpr_size px) (make_reg (combine_reg (rex_r px) (mr_reg m))) src out)))))"

definition decode_vex_map3_rorx :: "prefixes \<Rightarrow> insn \<Rightarrow> insn reader" where
  "decode_vex_map3_rorx px out = Read_Byte (\<lambda>op.
     if op = 0x44 \<and> px_opsize px then with_imm8 (decode_vex_op_rmv px Op_Vpclmulqdq (H_other ''op_vpclmulqdq'') out)
     else if op = 0xF0 \<and> px_repne px then decode_rorx px out
     else Refuse St_UnsupportedOpcode)"

section \<open>EVEX\<close>

text \<open>The masking bits that go to \<open>pad\<close>, and the register numbers with the bit \<open>R'\<close>.\<close>

definition evex_pad :: "prefixes \<Rightarrow> u16" where
  "evex_pad px = (ucast (px_evex_aaa px AND 7)) OR (if px_evex_z px then 8 else 0) OR (if px_evex_b px then 0x10 else 0)"

definition rounding_pad :: "prefixes \<Rightarrow> u16" where
  "rounding_pad px = push_bit 5 ((if px_evex_l2 px then 2 else 0) OR (if px_vex_l px then 1 else 0))"

definition evex_reg :: "prefixes \<Rightarrow> modrm \<Rightarrow> operand" where
  "evex_reg px m = zero_operand\<lparr>o_kind := OK_Xmm,
     o_reg := (if px_evex_r px then 16 else 0) OR (if rex_r px then 8 else 0) OR (mr_reg m AND 7)\<rparr>"

definition decode_evex_op_rmv :: "prefixes \<Rightarrow> OpKind \<Rightarrow> handler \<Rightarrow> insn \<Rightarrow> insn reader" where
  "decode_evex_op_rmv px k h out = read_next read_modrm (\<lambda>m. read_next (xmm_rm px m (evex_vector_size px)) (\<lambda>src.
     Give (set_operands (evex_vector_size px) (with_index (px_vex_vvvv px) (evex_reg px m)) src
       ((mark INSN_FLAG_VEX (bind_op k h out))
          \<lparr>i_pad := evex_pad px OR (if mr_mod m = 3 \<and> px_evex_b px then rounding_pad px else 0)\<rparr>))))"

definition decode_evex_op_rm :: "prefixes \<Rightarrow> OpKind \<Rightarrow> handler \<Rightarrow> bool \<Rightarrow> insn \<Rightarrow> insn reader" where
  "decode_evex_op_rm px k h reg_to_rm out =
     read_next read_modrm (\<lambda>m. read_next (xmm_rm px m (evex_vector_size px)) (\<lambda>rm.
       let sz = evex_vector_size px; r = evex_reg px m; out = (mark INSN_FLAG_VEX (bind_op k h out))\<lparr>i_pad := evex_pad px\<rparr>
       in Give (if reg_to_rm then set_operands sz rm r out else set_operands sz r rm out)))"

definition decode_evex_scatter :: "prefixes \<Rightarrow> OpKind \<Rightarrow> handler \<Rightarrow> u8 \<Rightarrow> u8 \<Rightarrow> insn \<Rightarrow> insn reader" where
  "decode_evex_scatter px k h data_lane index_lane out = read_next read_modrm (\<lambda>m.
     if mr_mod m = 3 then Refuse St_InvalidInstruction
     else read_next (decode_rm_operand px m (evex_vector_size px)) (\<lambda>src.
       Give (set_operands (evex_vector_size px) (evex_reg px m) src
         ((mark INSN_FLAG_VEX (bind_op k h out))
            \<lparr>i_pad := ucast (px_evex_aaa px AND 7) OR (if px_evex_z px then 8 else 0),
             i_imm_extra := lane_sizes data_lane index_lane\<rparr>))))"

definition decode_evex_map2 :: "prefixes \<Rightarrow> insn \<Rightarrow> insn reader" where
  "decode_evex_map2 px out = Read_Byte (\<lambda>op.
     let w = px_vex_w px
     in if \<not> px_opsize px then Refuse St_UnsupportedOpcode
        else if op = 0xA0 then
          (if w then decode_evex_scatter px Op_Vpscatterdq (H_other ''op_vpscatterdq'') 8 4 out
           else decode_evex_scatter px Op_Vpscatterdd (H_other ''op_vpscatterdd'') 4 4 out)
        else if op = 0xA1 then
          (if w then decode_evex_scatter px Op_Vpscatterqq (H_other ''op_vpscatterqq'') 8 8 out
           else decode_evex_scatter px Op_Vpscatterqd (H_other ''op_vpscatterqd'') 4 8 out)
        else if op = 0xA2 then
          (if w then decode_evex_scatter px Op_Vscatterdpd (H_other ''op_vscatterdpd'') 8 4 out
           else decode_evex_scatter px Op_Vscatterdps (H_other ''op_vscatterdps'') 4 4 out)
        else if op = 0xA3 then
          (if w then decode_evex_scatter px Op_Vscatterqpd (H_other ''op_vscatterqpd'') 8 8 out
           else decode_evex_scatter px Op_Vscatterqps (H_other ''op_vscatterqps'') 4 8 out)
        else Refuse St_UnsupportedOpcode)"

definition evex66_table :: "(u8 \<times> OpKind \<times> handler) list" where
  "evex66_table =
    [(0xFC, Op_Vpaddb_evex, H_other ''op_vpaddb_evex''),
     (0xFD, Op_Vpaddw_evex, H_other ''op_vpaddw_evex''),
     (0xFE, Op_Vpaddd_evex, H_other ''op_vpaddd_evex''),
     (0xD4, Op_Vpaddq_evex, H_other ''op_vpaddq_evex''),
     (0xF8, Op_Vpsubb_evex, H_other ''op_vpsubb_evex''),
     (0xF9, Op_Vpsubw_evex, H_other ''op_vpsubw_evex''),
     (0xFA, Op_Vpsubd_evex, H_other ''op_vpsubd_evex''),
     (0xFB, Op_Vpsubq_evex, H_other ''op_vpsubq_evex''),
     (0x58, Op_Vaddpd_evex, H_other ''op_vaddpd_evex''),
     (0x59, Op_Vmulpd_evex, H_other ''op_vmulpd_evex''),
     (0x5C, Op_Vsubpd_evex, H_other ''op_vsubpd_evex''),
     (0x5D, Op_Vminpd_evex, H_other ''op_vminpd_evex''),
     (0x5E, Op_Vdivpd_evex, H_other ''op_vdivpd_evex''),
     (0x5F, Op_Vmaxpd_evex, H_other ''op_vmaxpd_evex'')]"

definition evex_ps_table :: "(u8 \<times> OpKind \<times> handler) list" where
  "evex_ps_table =
    [(0x58, Op_Vaddps_evex, H_other ''op_vaddps_evex''),
     (0x59, Op_Vmulps_evex, H_other ''op_vmulps_evex''),
     (0x5C, Op_Vsubps_evex, H_other ''op_vsubps_evex''),
     (0x5D, Op_Vminps_evex, H_other ''op_vminps_evex''),
     (0x5E, Op_Vdivps_evex, H_other ''op_vdivps_evex''),
     (0x5F, Op_Vmaxps_evex, H_other ''op_vmaxps_evex'')]"

text \<open>The operations whose W bit selects the element size.\<close>

definition evex66_section :: "prefixes \<Rightarrow> u8 \<Rightarrow> insn \<Rightarrow> insn reader option" where
  "evex66_section px op out =
     (let w = px_vex_w px
      in if op = 0xEF then
           Some (if w then decode_evex_op_rmv px Op_Vpxorq (H_other ''op_vpxorq'') out
                 else decode_evex_op_rmv px Op_Vpxord (H_other ''op_vpxord'') out)
         else if op = 0xDB then
           Some (if w then decode_evex_op_rmv px Op_Vpandq (H_other ''op_vpandq'') out
                 else decode_evex_op_rmv px Op_Vpandd (H_other ''op_vpandd'') out)
         else if op = 0xEB then
           Some (if w then decode_evex_op_rmv px Op_Vporq (H_other ''op_vporq'') out
                 else decode_evex_op_rmv px Op_Vpord (H_other ''op_vpord'') out)
         else if op = 0x6F \<or> op = 0x7F then
           Some (if w then decode_evex_op_rm px Op_Vmovdqa64 (H_other ''op_vmovdqa64'') (op = 0x7F) out
                 else decode_evex_op_rm px Op_Vmovdqa32 (H_other ''op_vmovdqa32'') (op = 0x7F) out)
         else if op = 0x51 then Some (decode_evex_op_rm px Op_Vsqrtpd_evex (H_other ''op_vsqrtpd_evex'') False out)
         else table_op evex66_table op (\<lambda>k h. decode_evex_op_rmv px k h out))"

definition evex_ps_section :: "prefixes \<Rightarrow> u8 \<Rightarrow> insn \<Rightarrow> insn reader option" where
  "evex_ps_section px op out =
     (if op = 0x51 then Some (decode_evex_op_rm px Op_Vsqrtps_evex (H_other ''op_vsqrtps_evex'') False out)
      else table_op evex_ps_table op (\<lambda>k h. decode_evex_op_rmv px k h out))"

definition evex_movdqu_section :: "prefixes \<Rightarrow> u8 \<Rightarrow> insn \<Rightarrow> insn reader option" where
  "evex_movdqu_section px op out =
     (if op = 0x6F \<or> op = 0x7F then
        Some (if px_vex_w px then decode_evex_op_rm px Op_Vmovdqu64 (H_other ''op_vmovdqu64'') (op = 0x7F) out
              else decode_evex_op_rm px Op_Vmovdqu32 (H_other ''op_vmovdqu32'') (op = 0x7F) out)
      else None)"

definition decode_evex :: "prefixes \<Rightarrow> insn \<Rightarrow> insn reader" where
  "decode_evex px out =
     (if px_vex_map px = 2 then decode_evex_map2 px out
      else if px_vex_map px \<noteq> 1 then Refuse St_UnsupportedOpcode
      else Read_Byte (\<lambda>op. or_else
        (or_try (in_case (px_opsize px) (evex66_section px op out))
        (or_try (in_case (no_mandatory px) (evex_ps_section px op out))
                (in_case (px_rep px) (evex_movdqu_section px op out))))
        (Refuse St_UnsupportedOpcode)))"

section \<open>The VEX entry point\<close>

definition vex66_table :: "(u8 \<times> OpKind \<times> handler) list" where
  "vex66_table =
    [(0xEF, Op_Vpxor, H_other ''op_vpxor''),
     (0xDB, Op_Vpand, H_other ''op_vpand''),
     (0xEB, Op_Vpor, H_other ''op_vpor''),
     (0xFC, Op_Vpaddb, H_other ''op_vpaddb''),
     (0xFD, Op_Vpaddw, H_other ''op_vpaddw''),
     (0xFE, Op_Vpaddd, H_other ''op_vpaddd''),
     (0xD4, Op_Vpaddq, H_other ''op_vpaddq''),
     (0xF8, Op_Vpsubb, H_other ''op_vpsubb''),
     (0xF9, Op_Vpsubw, H_other ''op_vpsubw''),
     (0xFA, Op_Vpsubd, H_other ''op_vpsubd''),
     (0xFB, Op_Vpsubq, H_other ''op_vpsubq'')]"

definition vex66_section :: "prefixes \<Rightarrow> u8 \<Rightarrow> insn \<Rightarrow> insn reader option" where
  "vex66_section px op out =
     (if op = 0x6F \<or> op = 0x7F then Some (decode_vex_op_rm px Op_Vmovdqa (H_other ''op_vmovdqa'') (op = 0x7F) out)
      else table_op vex66_table op (\<lambda>k h. decode_vex_op_rmv px k h out))"

definition vex_movdqu_section :: "prefixes \<Rightarrow> u8 \<Rightarrow> insn \<Rightarrow> insn reader option" where
  "vex_movdqu_section px op out =
     (if op = 0x6F \<or> op = 0x7F then Some (decode_vex_op_rm px Op_Vmovdqu (H_other ''op_vmovdqu'') (op = 0x7F) out)
      else None)"

definition vex_zero_section :: "prefixes \<Rightarrow> u8 \<Rightarrow> insn \<Rightarrow> insn reader option" where
  "vex_zero_section px op out =
     (if op = 0x77 then
        Some (Give (if px_vex_l px then bind_op Op_Vzeroall (H_other ''op_vzeroall'') out
                    else bind_op Op_Vzeroupper (H_other ''op_vzeroupper'') out))
      else None)"

definition decode_vex :: "prefixes \<Rightarrow> insn \<Rightarrow> insn reader" where
  "decode_vex px out =
     (if px_is_evex px then decode_evex px out
      else if px_vex_map px = 2 then decode_vex_map2_bmi px out
      else if px_vex_map px = 3 then decode_vex_map3_rorx px out
      else if px_vex_map px \<noteq> 1 then Refuse St_UnsupportedOpcode
      else Read_Byte (\<lambda>op. or_else
        (or_try (in_case (px_opsize px) (vex66_section px op out))
        (or_try (in_case (px_rep px) (vex_movdqu_section px op out))
                (in_case (no_mandatory px) (vex_zero_section px op out))))
        (Refuse St_UnsupportedOpcode)))"

end
