(* ===== verification/Decoder.thy ===== *)
theory Decoder
  imports Decoder_Vector
begin

text \<open>
  The two-byte map and the primary opcodes of \<^verbatim>\<open>src/emu/decoder/decoder_opcodes.cpp\<close>, and the entry points
  \<open>decode_one\<close> and \<open>decode_bytes\<close> of \<^verbatim>\<open>decoder.cpp\<close>.  \<open>None\<close> as the result of an entry point means that the
  prefix loop does not end.
\<close>

section \<open>The two-byte map\<close>

definition decode_counts :: "prefixes \<Rightarrow> u8 \<Rightarrow> insn \<Rightarrow> insn reader" where
  "decode_counts px sec out =
     (let sz = default_gpr_op_size px
      in decode_rm px sz sz
           (if sec = 0xB8 then bind_op Op_Popcnt (HBits H_popcnt) out
            else if sec = 0xBC then bind_op Op_Tzcnt (HBits H_tzcnt) out
            else bind_op Op_Lzcnt (HBits H_lzcnt) out))"

definition decode_bit_scan :: "prefixes \<Rightarrow> u8 \<Rightarrow> insn \<Rightarrow> insn reader" where
  "decode_bit_scan px sec out =
     (let sz = default_gpr_op_size px
      in decode_rm px sz sz
           (if sec = 0xBC then bind_op Op_Bsf (HBits H_bsf) out else bind_op Op_Bsr (HBits H_bsr) out))"

definition decode_bit_test :: "prefixes \<Rightarrow> u8 \<Rightarrow> insn \<Rightarrow> insn reader" where
  "decode_bit_test px sec out =
     decode_mr px (default_gpr_op_size px)
       (if sec = 0xA3 then bind_op Op_Bt (HBits H_bt) out
        else if sec = 0xAB then bind_op Op_Bts (HBits H_bts) out
        else if sec = 0xB3 then bind_op Op_Btr (HBits H_btr) out
        else bind_op Op_Btc (HBits H_btc) out)"

definition decode_group8 :: "prefixes \<Rightarrow> insn \<Rightarrow> insn reader" where
  "decode_group8 px out =
     (let sz = default_gpr_op_size px
      in read_rm px sz (\<lambda>m dst. read_next (read_imm_sx 1) (\<lambda>imm.
           let out = set_operands sz dst (make_imm imm) out
           in if mr_reg m = 4 then Give (bind_op Op_Bt (HBits H_bt) out)
              else if mr_reg m = 5 then Give (bind_op Op_Bts (HBits H_bts) out)
              else if mr_reg m = 6 then Give (bind_op Op_Btr (HBits H_btr) out)
              else if mr_reg m = 7 then Give (bind_op Op_Btc (HBits H_btc) out)
              else Refuse St_UnsupportedOpcode)))"

definition decode_cmov :: "prefixes \<Rightarrow> u8 \<Rightarrow> insn \<Rightarrow> insn reader" where
  "decode_cmov px sec out =
     (let sz = default_gpr_op_size px
      in decode_rm px sz sz (bind_op Op_Cmov (HMove H_cmov) (out\<lparr>i_cond := cc_of (sec - 0x40)\<rparr>)))"

text \<open>A relative branch: its size, its displacement and the mark that ends a block.\<close>

definition branch_to :: "u8 \<Rightarrow> u64 \<Rightarrow> insn \<Rightarrow> insn" where
  "branch_to sz disp out = mark INSN_FLAG_CONTROL_FLOW (out\<lparr>i_op_size := sz, i_dst := make_rel disp\<rparr>)"

definition decode_jcc_near :: "u8 \<Rightarrow> insn \<Rightarrow> insn reader" where
  "decode_jcc_near sec out = read_next read_u32 (\<lambda>rel.
     Give (branch_to 4 (scast rel) (bind_op Op_Jcc (HFlow H_jcc) (out\<lparr>i_cond := cc_of (sec - 0x80)\<rparr>))))"

definition decode_prefetch :: "prefixes \<Rightarrow> insn \<Rightarrow> insn reader" where
  "decode_prefetch px out = read_rm px 1 (\<lambda>m src.
     let out = out\<lparr>i_op_size := 1, i_src := src\<rparr>; h = H_other ''op_prefetch''
     in Give (if mr_reg m = 1 then bind_op Op_Prefetcht0 h out
              else if mr_reg m = 2 then bind_op Op_Prefetcht1 h out
              else if mr_reg m = 3 then bind_op Op_Prefetcht2 h out
              else bind_op Op_Prefetchnta h out))"

definition decode_group15 :: "prefixes \<Rightarrow> insn \<Rightarrow> insn reader" where
  "decode_group15 px out = read_next read_modrm (\<lambda>m.
     if mr_mod m = 3 then
       (if mr_reg m = 5 then Give (bind_op Op_Lfence (H_other ''op_fence'') out)
        else if mr_reg m = 6 then Give (bind_op Op_Mfence (H_other ''op_fence'') out)
        else if mr_reg m = 7 then Give (bind_op Op_Sfence (H_other ''op_fence'') out)
        else Refuse St_UnsupportedOpcode)
     else if mr_reg m = 7 then
       read_next (decode_rm_operand px m 1) (\<lambda>src.
         Give (bind_op Op_Clflush (H_other ''op_clflush'') (out\<lparr>i_op_size := 1, i_src := src\<rparr>)))
     else Refuse St_UnsupportedOpcode)"

definition decode_long_nop :: "prefixes \<Rightarrow> insn \<Rightarrow> insn reader" where
  "decode_long_nop px out =
     (let done = (\<lambda>out. Give (bind_op Op_Nop (HMove H_nop) (out\<lparr>i_op_size := 1\<rparr>)))
      in read_next read_modrm (\<lambda>m.
           if mr_mod m \<noteq> 3 then read_next (decode_rm_operand px m 1) (\<lambda>src. done (out\<lparr>i_src := src\<rparr>)) else done out))"

definition decode_bswap :: "prefixes \<Rightarrow> u8 \<Rightarrow> insn \<Rightarrow> insn reader" where
  "decode_bswap px sec out =
     Give (bind_op Op_Bswap (HMove H_bswap)
       (out\<lparr>i_op_size := (if rex_w px then 8 else 4),
            i_dst := make_reg ((if rex_b px then 8 else 0) OR (sec - 0xC8))\<rparr>))"

definition decode_group9 :: "prefixes \<Rightarrow> insn \<Rightarrow> insn reader" where
  "decode_group9 px out = read_next read_modrm (\<lambda>m.
     if mr_reg m = 6 \<or> mr_reg m = 7 then
       (let sz = default_gpr_op_size px
        in read_next (decode_rm_operand px m sz) (\<lambda>dst.
             Give (bind_op (if mr_reg m = 6 then Op_Rdrand else Op_Rdseed) (HFlow H_rdrand)
               (out\<lparr>i_op_size := sz, i_dst := dst\<rparr>))))
     else Refuse St_UnsupportedOpcode)"

definition decode_double_shift :: "prefixes \<Rightarrow> u8 \<Rightarrow> insn \<Rightarrow> insn reader" where
  "decode_double_shift px sec out =
     (let sz = default_gpr_op_size px;
          out = (if sec = 0xA4 \<or> sec = 0xA5 then bind_op Op_Shld (HShift H_shld) out else bind_op Op_Shrd (HShift H_shrd) out)
      in read_rm px sz (\<lambda>m dst.
           let dst = dst\<lparr>o_index := combine_reg (rex_r px) (mr_reg m)\<rparr>
           in if sec = 0xA4 \<or> sec = 0xAC then
                read_next (read_imm_sx 1) (\<lambda>imm. Give (set_operands sz dst (make_imm imm) (out\<lparr>i_imm_extra := imm\<rparr>)))
              else Give (set_operands sz dst (make_reg RCX) out)))"

text \<open>MOVZX, MOVSX, MOVSXD: the source size goes to the \<open>scale\<close> field of the source.\<close>

definition decode_extend :: "prefixes \<Rightarrow> u8 \<Rightarrow> OpKind \<Rightarrow> handler \<Rightarrow> insn \<Rightarrow> insn reader" where
  "decode_extend px src_sz k h out =
     (let sz = default_gpr_op_size px
      in read_rm px src_sz (\<lambda>m src.
           Give (set_operands sz (reg_operand px m sz) (src\<lparr>o_scale := src_sz\<rparr>) (bind_op k h out))))"

definition decode_two_byte_gpr :: "prefixes \<Rightarrow> u8 \<Rightarrow> insn \<Rightarrow> insn reader" where
  "decode_two_byte_gpr px sec out =
     (if px_rep px \<and> (sec = 0xBC \<or> sec = 0xBD \<or> sec = 0xB8) then decode_counts px sec out
      else if \<not> px_rep px \<and> (sec = 0xBC \<or> sec = 0xBD) then decode_bit_scan px sec out
      else if sec = 0xA3 \<or> sec = 0xAB \<or> sec = 0xB3 \<or> sec = 0xBB then decode_bit_test px sec out
      else if sec = 0xBA then decode_group8 px out
      else if 0x40 \<le> sec \<and> sec \<le> 0x4F then decode_cmov px sec out
      else if 0x80 \<le> sec \<and> sec \<le> 0x8F then decode_jcc_near sec out
      else if sec = 0x05 then Give (mark INSN_FLAG_CONTROL_FLOW (bind_op Op_Syscall (HFlow H_syscall) out))
      else if sec = 0x0B then Refuse St_InvalidInstruction
      else if sec = 0x18 then decode_prefetch px out
      else if sec = 0xAE then decode_group15 px out
      else if sec = 0x1F then decode_long_nop px out
      else if sec = 0x31 then Give (bind_op Op_Rdtsc (HFlow H_rdtsc) out)
      else if sec = 0xA2 then Give (bind_op Op_Cpuid (HFlow H_cpuid) out)
      else if 0xC8 \<le> sec \<and> sec \<le> 0xCF then decode_bswap px sec out
      else if sec = 0xC7 then decode_group9 px out
      else if sec = 0xA4 \<or> sec = 0xA5 \<or> sec = 0xAC \<or> sec = 0xAD then decode_double_shift px sec out
      else if sec = 0xAF then
        (let sz = default_gpr_op_size px in decode_rm px sz sz (bind_op Op_Imul (HArith H_imul) out))
      else if sec = 0xB6 then decode_extend px 1 Op_MovZx (HMove H_movzx) out
      else if sec = 0xB7 then decode_extend px 2 Op_MovZx (HMove H_movzx) out
      else if sec = 0xBE then decode_extend px 1 Op_MovSx (HMove H_movsx) out
      else if sec = 0xBF then decode_extend px 2 Op_MovSx (HMove H_movsx) out
      else Refuse St_UnsupportedOpcode)"

definition decode_two_byte :: "prefixes \<Rightarrow> insn \<Rightarrow> insn reader" where
  "decode_two_byte px out = Read_Byte (\<lambda>sec.
     if sec = 0x38 then decode_0F38 px out
     else if sec = 0x3A then decode_0F3A px out
     else or_else (sse_sections px sec out) (decode_two_byte_gpr px sec out))"

section \<open>Primary opcodes\<close>

definition decode_push_pop :: "prefixes \<Rightarrow> u8 \<Rightarrow> insn \<Rightarrow> insn reader" where
  "decode_push_pop px opc out =
     (let ext = (if rex_b px then 8 else 0)
      in if opc \<le> 0x57 then
           Give (bind_op Op_Push (HMove H_push) (out\<lparr>i_op_size := 8, i_dst := make_reg (ext OR (opc - 0x50))\<rparr>))
         else Give (bind_op Op_Pop (HMove H_pop) (out\<lparr>i_op_size := 8, i_dst := make_reg (ext OR (opc - 0x58))\<rparr>)))"

definition decode_push_imm :: "u8 \<Rightarrow> insn \<Rightarrow> insn reader" where
  "decode_push_imm n out = read_next (read_imm_sx n) (\<lambda>imm.
     Give (bind_op Op_Push (HMove H_push) (out\<lparr>i_op_size := 8, i_dst := make_imm imm\<rparr>)))"

definition decode_imul3 :: "prefixes \<Rightarrow> u8 \<Rightarrow> insn \<Rightarrow> insn reader" where
  "decode_imul3 px opc out =
     (let sz = default_gpr_op_size px
      in read_rm px sz (\<lambda>m src.
           read_next (read_imm_sx (if opc = 0x6B then 1 else if sz = 2 then 2 else 4)) (\<lambda>imm.
             Give ((set_operands sz (reg_operand px m sz) src (bind_op Op_Imul3 (HArith H_imul) out))\<lparr>i_imm_extra := imm\<rparr>))))"

definition decode_mov :: "prefixes \<Rightarrow> u8 \<Rightarrow> insn \<Rightarrow> insn reader" where
  "decode_mov px opc out =
     (let sz = (if opc AND 1 \<noteq> 0 then default_gpr_op_size px else 1); out = bind_op Op_Mov (HMove H_mov) out
      in if opc = 0x88 \<or> opc = 0x89 then decode_mr px sz out else decode_rm px sz sz out)"

definition decode_lea :: "prefixes \<Rightarrow> insn \<Rightarrow> insn reader" where
  "decode_lea px out =
     (let sz = default_gpr_op_size px
      in read_next read_modrm (\<lambda>m.
           if mr_mod m = 3 then Refuse St_InvalidInstruction
           else read_next (decode_rm_operand px m sz) (\<lambda>src.
             Give (set_operands sz (reg_operand px m sz) src (bind_op Op_Lea (HMove H_lea) out)))))"

definition decode_mov_reg_imm :: "prefixes \<Rightarrow> u8 \<Rightarrow> insn \<Rightarrow> insn reader" where
  "decode_mov_reg_imm px opc out =
     (let ext = (if rex_b px then 8 else 0); sz = (if opc \<le> 0xB7 then 1 else default_gpr_op_size px);
          r = (if opc \<le> 0xB7 then ext OR (opc - 0xB0) else ext OR (opc - 0xB8))
      in read_next (read_imm_sx sz) (\<lambda>imm.
           Give (set_operands sz (make_reg r) (make_imm imm) (bind_op Op_Mov (HMove H_mov) out))))"

definition decode_ret :: "u8 \<Rightarrow> insn \<Rightarrow> insn reader" where
  "decode_ret opc out =
     (let out = mark INSN_FLAG_CONTROL_FLOW (bind_op Op_Ret (HFlow H_ret) (out\<lparr>i_op_size := 8\<rparr>))
      in if opc = 0xC2 then read_next read_u16 (\<lambda>imm. Give (out\<lparr>i_dst := make_imm (ucast imm)\<rparr>)) else Give out)"

definition decode_mov_rm_imm :: "prefixes \<Rightarrow> u8 \<Rightarrow> insn \<Rightarrow> insn reader" where
  "decode_mov_rm_imm px opc out =
     (let sz = (if opc = 0xC6 then 1 else default_gpr_op_size px)
      in read_next read_modrm (\<lambda>m.
           if mr_reg m \<noteq> 0 then Refuse St_UnsupportedOpcode
           else read_next (decode_rm_operand px m sz) (\<lambda>dst.
             read_next (read_imm_sx (if sz = 8 then 4 else sz)) (\<lambda>imm.
               Give (set_operands sz dst (make_imm imm) (bind_op Op_Mov (HMove H_mov) out))))))"

definition decode_test_imm :: "prefixes \<Rightarrow> u8 \<Rightarrow> insn \<Rightarrow> insn reader" where
  "decode_test_imm px opc out =
     (let sz = (if opc = 0xA8 then 1 else default_gpr_op_size px)
      in read_next (read_imm_sx (if sz = 8 then 4 else sz)) (\<lambda>imm.
           Give (set_operands sz (make_reg RAX) (make_imm imm) (bind_op Op_Test (HLogic H_test) out))))"

definition is_string_op :: "u8 \<Rightarrow> bool" where
  "is_string_op opc \<longleftrightarrow> 0xA4 \<le> opc \<and> opc \<le> 0xA7 \<or> 0xAA \<le> opc \<and> opc \<le> 0xAF"

definition decode_string :: "prefixes \<Rightarrow> u8 \<Rightarrow> insn \<Rightarrow> insn reader" where
  "decode_string px opc out =
     (let out = out\<lparr>i_op_size := (if opc AND 1 \<noteq> 0 then default_gpr_op_size px else 1)\<rparr>
      in Give (if opc = 0xA4 \<or> opc = 0xA5 then bind_op Op_Movs (HString H_movs) out
               else if opc = 0xA6 \<or> opc = 0xA7 then bind_op Op_Cmps (HString H_cmps) out
               else if opc = 0xAA \<or> opc = 0xAB then bind_op Op_Stos (HString H_stos) out
               else if opc = 0xAC \<or> opc = 0xAD then bind_op Op_Lods (HString H_lods) out
               else bind_op Op_Scas (HString H_scas) out))"

definition decode_loop_op :: "u8 \<Rightarrow> insn \<Rightarrow> insn reader" where
  "decode_loop_op opc out = Read_Byte (\<lambda>rel.
     let out = branch_to 1 (scast rel) out
     in Give (if opc = 0xE0 then bind_op Op_LoopNE (HFlow H_loop) (out\<lparr>i_cond := Cc_NZ\<rparr>)
              else if opc = 0xE1 then bind_op Op_LoopE (HFlow H_loop) (out\<lparr>i_cond := Cc_Z\<rparr>)
              else if opc = 0xE2 then bind_op Op_Loop (HFlow H_loop) (out\<lparr>i_cond := Cc_None\<rparr>)
              else bind_op Op_Jcxz (HFlow H_jcxz) out))"

definition decode_rel8 :: "OpKind \<Rightarrow> handler \<Rightarrow> insn \<Rightarrow> insn reader" where
  "decode_rel8 k h out = Read_Byte (\<lambda>rel. Give (branch_to 1 (scast rel) (bind_op k h out)))"

definition decode_rel32 :: "OpKind \<Rightarrow> handler \<Rightarrow> insn \<Rightarrow> insn reader" where
  "decode_rel32 k h out = read_next read_u32 (\<lambda>rel. Give (branch_to 4 (scast rel) (bind_op k h out)))"

definition decode_int_n :: "insn \<Rightarrow> insn reader" where
  "decode_int_n out = Read_Byte (\<lambda>n.
     Give (mark INSN_FLAG_CONTROL_FLOW (bind_op Op_Int_n (H_other ''op_int_n'') (out\<lparr>i_dst := make_imm (ucast n)\<rparr>))))"

text \<open>The primary opcodes in the order of the code: below and from 0x98 on.\<close>

definition decode_primary_high :: "prefixes \<Rightarrow> u8 \<Rightarrow> insn \<Rightarrow> insn reader" where
  "decode_primary_high px opc out =
     (if opc = 0x98 then Give (bind_op Op_Cwde (HMove H_cwde) (out\<lparr>i_op_size := default_gpr_op_size px\<rparr>))
      else if opc = 0x99 then Give (bind_op Op_Cdq (HMove H_cdq) (out\<lparr>i_op_size := default_gpr_op_size px\<rparr>))
      else if opc = 0xA8 \<or> opc = 0xA9 then decode_test_imm px opc out
      else if is_string_op opc then decode_string px opc out
      else if 0xE0 \<le> opc \<and> opc \<le> 0xE3 then decode_loop_op opc out
      else if opc = 0xF4 then Give (mark INSN_FLAG_CONTROL_FLOW (bind_op Op_Hlt (HFlow H_hlt) out))
      else if opc = 0x9C then Give (bind_op Op_Pushf (H_other ''op_pushf'') (out\<lparr>i_op_size := 8\<rparr>))
      else if opc = 0x9D then Give (bind_op Op_Popf (H_other ''op_popf'') (out\<lparr>i_op_size := 8\<rparr>))
      else if opc = 0x9E then Give (bind_op Op_Sahf (H_other ''op_sahf'') out)
      else if opc = 0x9F then Give (bind_op Op_Lahf (H_other ''op_lahf'') out)
      else if opc = 0xCC then Give (mark INSN_FLAG_CONTROL_FLOW (bind_op Op_Int3 (H_other ''op_int3'') out))
      else if opc = 0xCD then decode_int_n out
      else if opc = 0xE8 then decode_rel32 Op_Call (HFlow H_call) out
      else if opc = 0xE9 then decode_rel32 Op_Jmp (HFlow H_jmp) out
      else if opc = 0xEB then decode_rel8 Op_Jmp (HFlow H_jmp) out
      else if opc = 0xF6 \<or> opc = 0xF7 then decode_group3 px opc out
      else if opc = 0xFE \<or> opc = 0xFF then decode_group4_5 px opc out
      else if opc = 0x0F then decode_two_byte px out
      else Refuse St_UnsupportedOpcode)"

definition decode_primary :: "prefixes \<Rightarrow> u8 \<Rightarrow> insn \<Rightarrow> insn reader" where
  "decode_primary px opc out =
     (if opc \<le> 0x3D \<and> opc AND 0x06 \<noteq> 0x06 \<and> opc AND 0x07 < 6 then
        decode_alu_primary px (drop_bit 3 opc) (opc AND 0x07) out
      else if 0x50 \<le> opc \<and> opc \<le> 0x5F then decode_push_pop px opc out
      else if opc = 0x68 then decode_push_imm 4 out
      else if opc = 0x6A then decode_push_imm 1 out
      else if opc = 0x63 then decode_extend px 4 Op_MovSxd (HMove H_movsxd) out
      else if opc = 0x69 \<or> opc = 0x6B then decode_imul3 px opc out
      else if 0x70 \<le> opc \<and> opc \<le> 0x7F then
        decode_rel8 Op_Jcc (HFlow H_jcc) (out\<lparr>i_cond := cc_of (opc - 0x70)\<rparr>)
      else if opc = 0x80 \<or> opc = 0x81 \<or> opc = 0x83 then decode_group1 px opc out
      else if opc = 0x84 \<or> opc = 0x85 then
        decode_mr px (if opc = 0x84 then 1 else default_gpr_op_size px) (bind_op Op_Test (HLogic H_test) out)
      else if opc = 0x86 \<or> opc = 0x87 then
        decode_mr px (if opc = 0x86 then 1 else default_gpr_op_size px) (bind_op Op_Xchg (HMove H_xchg) out)
      else if 0x88 \<le> opc \<and> opc \<le> 0x8B then decode_mov px opc out
      else if opc = 0x8D then decode_lea px out
      else if opc = 0x90 then Give (bind_op Op_Nop (HMove H_nop) (out\<lparr>i_op_size := 0\<rparr>))
      else if 0xB0 \<le> opc \<and> opc \<le> 0xBF then decode_mov_reg_imm px opc out
      else if opc = 0xC0 \<or> opc = 0xC1 then decode_group2 px opc out
      else if opc = 0xC2 \<or> opc = 0xC3 then decode_ret opc out
      else if opc = 0xC6 \<or> opc = 0xC7 then decode_mov_rm_imm px opc out
      else if 0xD0 \<le> opc \<and> opc \<le> 0xD3 then decode_group2 px opc out
      else if 0xD8 \<le> opc \<and> opc \<le> 0xDF then decode_x87 px opc out
      else decode_primary_high px opc out)"

definition decode_after_prefixes :: "prefixes \<Rightarrow> insn \<Rightarrow> insn reader" where
  "decode_after_prefixes px out =
     (if px_is_vex px then decode_vex px out else Read_Byte (\<lambda>opc. decode_primary px opc out))"

section \<open>Entry points\<close>

text \<open>The instruction before its opcode is decoded: the address and the flags of the prefixes.\<close>

definition prefix_flags :: "prefixes \<Rightarrow> u8" where
  "prefix_flags px =
     (if px_lock px then INSN_FLAG_LOCK else 0) OR (if px_rep px then INSN_FLAG_REP else 0) OR
     (if px_repne px then INSN_FLAG_REPNE else 0) OR (if px_has_seg px then INSN_FLAG_HAS_SEG else 0) OR
     (if px_opsize px then INSN_FLAG_OPSIZE_PFX else 0) OR (if px_addrsize px then INSN_FLAG_ADDRSIZE_PFX else 0)"

definition start_insn :: "prefixes \<Rightarrow> GuestAddr \<Rightarrow> insn" where
  "start_insn px rip = zero_insn\<lparr>i_rip := rip, i_flags := prefix_flags px, i_cond := Cc_None\<rparr>"

definition decode_with_source :: "'c byte_source \<Rightarrow> GuestAddr \<Rightarrow> ((Status + insn) \<times> 'c byte_source) option" where
  "decode_with_source bs rip =
     (case scan_prefixes bs of
        None \<Rightarrow> None
      | Some (Inl s, bs) \<Rightarrow> Some (Inl s, bs)
      | Some (Inr px, bs) \<Rightarrow>
          Some (case run_reader (decode_after_prefixes px (start_insn px rip)) bs of
                  (Inl s, bs) \<Rightarrow> (Inl s, bs)
                | (Inr out, bs) \<Rightarrow> (Inr (out\<lparr>i_len := bs_consumed bs\<rparr>), bs)))"

definition decode_one :: "'m provider \<Rightarrow> GuestAddr \<Rightarrow> 'm \<Rightarrow> ((Status + insn) \<times> 'm) option" where
  "decode_one p rip m =
     map_option (\<lambda>(r, bs). (r, bs_ctx bs))
       (decode_with_source \<lparr>bs_fetch = mem_fetch p rip, bs_ctx = m, bs_consumed = 0\<rparr> rip)"

text \<open>A null pointer is \<open>None\<close>.\<close>

definition decode_bytes :: "u8 list option \<Rightarrow> GuestAddr \<Rightarrow> (Status + insn) option" where
  "decode_bytes bytes rip =
     (case bytes of
        None \<Rightarrow> Some (Inl St_InvalidArgument)
      | Some [] \<Rightarrow> Some (Inl St_TruncatedInstruction)
      | Some data \<Rightarrow>
          map_option fst (decode_with_source \<lparr>bs_fetch = buf_fetch (take 15 data), bs_ctx = (), bs_consumed = 0\<rparr> rip))"

end
