(* ===== verification/Handler_Names.thy ===== *)
theory Handler_Names
  imports IR
begin

text \<open>
  The handlers of \<^verbatim>\<open>src/emu/handlers/handlers.h\<close> that an instruction refers to by name: those of the vector, floating-point and
  miscellaneous files.  A handler the program has is one of them or one of the integer handlers.
\<close>

definition other_names :: "string list" where
  "other_names =
    [''op_addpd'', ''op_addps'', ''op_addsd'', ''op_addss'', ''op_aesdec'', ''op_aesdeclast'', ''op_aesenc'', ''op_aesenclast'',
     ''op_aesimc'', ''op_aeskeygen'', ''op_andps'', ''op_clflush'', ''op_crc32'', ''op_cvtsd2ss'', ''op_cvtsi2sd'',
     ''op_cvtsi2ss'', ''op_cvtss2sd'', ''op_cvttsd2si'', ''op_cvttss2si'', ''op_divpd'', ''op_divps'', ''op_divsd'',
     ''op_divss'', ''op_f2xm1'', ''op_fabs'', ''op_fadd'', ''op_faddp'', ''op_fchs'', ''op_fcom'', ''op_fcos'', ''op_fdiv'',
     ''op_fdivp'', ''op_fence'', ''op_fild'', ''op_fistp'', ''op_fld'', ''op_fldcw'', ''op_fmul'', ''op_fmulp'', ''op_fninit'',
     ''op_fnstcw'', ''op_fnstsw'', ''op_fpatan'', ''op_frndint'', ''op_fscale'', ''op_fsin'', ''op_fsqrt'', ''op_fst'',
     ''op_fstp'', ''op_fsub'', ''op_fsubp'', ''op_fxch'', ''op_fyl2x'', ''op_insertps'', ''op_int3'', ''op_int_n'', ''op_lahf'',
     ''op_maxsd'', ''op_maxss'', ''op_minsd'', ''op_minss'', ''op_movbe'', ''op_movd_from_xmm'', ''op_movd_to_xmm'',
     ''op_movdqa'', ''op_movdqu'', ''op_movmskpd'', ''op_movmskps'', ''op_movsd_fp'', ''op_movss'', ''op_movupd'',
     ''op_movups'', ''op_mulpd'', ''op_mulps'', ''op_mulsd'', ''op_mulss'', ''op_orps'', ''op_pabsb'', ''op_pabsd'',
     ''op_pabsw'', ''op_paddb'', ''op_paddd'', ''op_paddq'', ''op_paddw'', ''op_pand'', ''op_pclmulqdq'', ''op_pcmpeqb'',
     ''op_pcmpeqd'', ''op_pcmpeqw'', ''op_pcmpestri'', ''op_pcmpestrm'', ''op_pcmpgtq'', ''op_pcmpistri'', ''op_pcmpistrm'',
     ''op_pextrb'', ''op_pextrd'', ''op_pextrq'', ''op_pextrw'', ''op_pinsrb'', ''op_pinsrd'', ''op_pinsrq'', ''op_pmaddwd'',
     ''op_pmaxsw'', ''op_pmaxub'', ''op_pminsw'', ''op_pminub'', ''op_pmovmskb'', ''op_pmulhuw'', ''op_pmulhw'', ''op_pmullw'',
     ''op_popf'', ''op_por'', ''op_prefetch'', ''op_pshufb'', ''op_pshufd'', ''op_pshufhw'', ''op_pshuflw'', ''op_pslld'',
     ''op_psllq'', ''op_psllw'', ''op_psrad'', ''op_psraw'', ''op_psrld'', ''op_psrlq'', ''op_psrlw'', ''op_psubb'',
     ''op_psubd'', ''op_psubq'', ''op_psubw'', ''op_punpckhbw'', ''op_punpckhdq'', ''op_punpckhqdq'', ''op_punpckhwd'',
     ''op_punpcklbw'', ''op_punpckldq'', ''op_punpcklqdq'', ''op_punpcklwd'', ''op_pushf'', ''op_pxor'', ''op_rcpps'',
     ''op_rcpss'', ''op_roundpd'', ''op_roundps'', ''op_roundsd'', ''op_roundss'', ''op_rsqrtps'', ''op_rsqrtss'', ''op_sahf'',
     ''op_sha1msg1'', ''op_sha1msg2'', ''op_sha1nexte'', ''op_sha1rnds4'', ''op_sha256msg1'', ''op_sha256msg2'',
     ''op_sha256rnds2'', ''op_shufpd'', ''op_shufps'', ''op_sqrtpd'', ''op_sqrtps'', ''op_sqrtsd'', ''op_sqrtss'', ''op_subpd'',
     ''op_subps'', ''op_subsd'', ''op_subss'', ''op_ucomisd'', ''op_ucomiss'', ''op_vaddpd_evex'', ''op_vaddps_evex'',
     ''op_vaesdec'', ''op_vaesdeclast'', ''op_vaesenc'', ''op_vaesenclast'', ''op_vdivpd_evex'', ''op_vdivps_evex'',
     ''op_vgatherdpd'', ''op_vgatherdps'', ''op_vgatherqpd'', ''op_vgatherqps'', ''op_vmaxpd_evex'', ''op_vmaxps_evex'',
     ''op_vminpd_evex'', ''op_vminps_evex'', ''op_vmovdqa'', ''op_vmovdqa32'', ''op_vmovdqa64'', ''op_vmovdqu'',
     ''op_vmovdqu32'', ''op_vmovdqu64'', ''op_vmulpd_evex'', ''op_vmulps_evex'', ''op_vpaddb'', ''op_vpaddb_evex'',
     ''op_vpaddd'', ''op_vpaddd_evex'', ''op_vpaddq'', ''op_vpaddq_evex'', ''op_vpaddw'', ''op_vpaddw_evex'', ''op_vpand'',
     ''op_vpandd'', ''op_vpandq'', ''op_vpclmulqdq'', ''op_vpcmpgtq'', ''op_vpgatherdd'', ''op_vpgatherdq'', ''op_vpgatherqd'',
     ''op_vpgatherqq'', ''op_vpor'', ''op_vpord'', ''op_vporq'', ''op_vpscatterdd'', ''op_vpscatterdq'', ''op_vpscatterqd'',
     ''op_vpscatterqq'', ''op_vpshufb'', ''op_vpsubb'', ''op_vpsubb_evex'', ''op_vpsubd'', ''op_vpsubd_evex'', ''op_vpsubq'',
     ''op_vpsubq_evex'', ''op_vpsubw'', ''op_vpsubw_evex'', ''op_vpxor'', ''op_vpxord'', ''op_vpxorq'', ''op_vscatterdpd'',
     ''op_vscatterdps'', ''op_vscatterqpd'', ''op_vscatterqps'', ''op_vsqrtpd_evex'', ''op_vsqrtps_evex'', ''op_vsubpd_evex'',
     ''op_vsubps_evex'', ''op_vzeroall'', ''op_vzeroupper'', ''op_xorpd'', ''op_xorps'']"

fun known_handler :: "handler \<Rightarrow> bool" where
  "known_handler (H_other n) \<longleftrightarrow> n \<in> set other_names"
| "known_handler _ \<longleftrightarrow> True"

lemma known_others: "list_all (\<lambda>n. known_handler (H_other n)) other_names"
  by (simp add: list_all_iff)

lemmas known_names [simp] = known_others [unfolded other_names_def list.pred_inject]

lemma unnamed [simp]: "\<not> known_handler (H_other [])"
  by (simp add: other_names_def)

declare known_handler.simps(1) [simp del]

end
