(* ===== verification/Decoder_Facts.thy ===== *)
theory Decoder_Facts
  imports Decoder Arithmetic Handler_Names
begin

text \<open>
  What every decoded instruction satisfies.  A property of the instructions a reader can give is proved along
  its tree of reads (\<open>always\<close>), and so is a bound on the bytes it reads (\<open>within\<close>); \<open>run_reader\<close> carries both over
  to a run on a byte source.
\<close>

section \<open>Reasoning about readers\<close>

named_theorems reads \<open>introduction rules for \<open>always\<close> and \<open>within\<close>\<close>
named_theorems insn_shape \<open>fields of an instruction under construction\<close>

primrec always :: "('a \<Rightarrow> bool) \<Rightarrow> 'a reader \<Rightarrow> bool" where
  "always P (Give a) \<longleftrightarrow> P a"
| "always P (Refuse s) \<longleftrightarrow> s \<noteq> St_Ok"
| "always P (Read_Byte k) \<longleftrightarrow> (\<forall>b. always P (k b))"

primrec within :: "'a reader \<Rightarrow> nat \<Rightarrow> bool" where
  "within (Give a) n \<longleftrightarrow> True"
| "within (Refuse s) n \<longleftrightarrow> True"
| "within (Read_Byte k) n \<longleftrightarrow> 0 < n \<and> (\<forall>b. within (k b) (n - 1))"

lemma reader_induct [case_names Give Refuse Read_Byte]:
  assumes "\<And>a. P (Give a)" "\<And>s. P (Refuse s)" "\<And>k. (\<And>b. P (k b)) \<Longrightarrow> P (Read_Byte k)"
  shows "P r"
  by (induction r) (auto intro: assms)

lemma always_mono: "always P r \<Longrightarrow> (\<And>a. P a \<Longrightarrow> Q a) \<Longrightarrow> always Q r"
  by (induction r) auto

lemma always_read_next: "always Q r \<Longrightarrow> (\<And>a. Q a \<Longrightarrow> always P (k a)) \<Longrightarrow> always P (read_next r k)"
  by (induction r) auto

lemma within_mono: "within r n \<Longrightarrow> n \<le> m \<Longrightarrow> within r m"
proof (induction r arbitrary: n m rule: reader_induct)
  case (Read_Byte f)
  have "within (f b) (m - 1)" for b
    by (rule Read_Byte.IH [of b "n - 1"]) (use Read_Byte.prems in auto)
  then show ?case using Read_Byte.prems by simp
qed simp_all

lemma within_read_next: "within r n \<Longrightarrow> (\<And>a. within (k a) m) \<Longrightarrow> within (read_next r k) (n + m)"
proof (induction r arbitrary: n rule: reader_induct)
  case (Read_Byte f)
  have "within (read_next (f b) k) (n - 1 + m)" for b
    by (rule Read_Byte.IH) (use Read_Byte.prems in auto)
  moreover have "0 < n" using Read_Byte.prems(1) by simp
  ultimately show ?case by simp
next
  case (Give a)
  show ?case using within_mono [OF Give.prems(2), of "n + m"] by simp
qed simp

lemma run_reader_always: "run_reader r bs = (x, bs') \<Longrightarrow> always P r \<Longrightarrow> (\<forall>a. x = Inr a \<longrightarrow> P a) \<and> x \<noteq> Inl St_Ok"
proof (induction r arbitrary: bs rule: reader_induct)
  case (Read_Byte f)
  obtain y bs1 where r: "read_byte bs = (y, bs1)" by (metis prod.exhaust)
  show ?case
  proof (cases y)
    case (Inl s)
    then have "s \<noteq> St_Ok" using r by (auto simp: read_byte_def split: prod.splits if_splits)
    then show ?thesis using Read_Byte.prems r Inl by auto
  next
    case (Inr b)
    then show ?thesis using Read_Byte.IH [of b bs1] Read_Byte.prems r by simp
  qed
qed auto

lemma always_case_option [reads]:
  "(x = None \<Longrightarrow> always P a) \<Longrightarrow> (\<And>y. x = Some y \<Longrightarrow> always P (f y)) \<Longrightarrow> always P (case x of None \<Rightarrow> a | Some y \<Rightarrow> f y)"
  by (cases x) simp_all

lemma always_look_up [reads]:
  "(\<And>o' k h. (o', k, h) \<in> set t \<Longrightarrow> always P (f k h)) \<Longrightarrow> always P (look_up t op f)"
  by (auto simp: look_up_def split: option.splits dest: map_of_SomeD)

section \<open>Parts of an instruction\<close>

definition marked :: "insn \<Rightarrow> bool" where
  "marked i \<longleftrightarrow> i_flags i AND INSN_FLAG_CONTROL_FLOW \<noteq> 0"

lemma marked_bit: "marked i \<longleftrightarrow> bit (i_flags i) 0"
  by (simp add: marked_def and_one_eq bit_0 odd_iff_mod_2_eq_one)

lemma marked_simps [insn_shape]:
  "marked (bind_op k h i) = marked i" "marked (set_operands sz d s i) = marked i"
  "marked (mark 1 i)" "marked (mark 128 i) = marked i"
  "marked (i\<lparr>i_op_size := sz\<rparr>) = marked i" "marked (i\<lparr>i_dst := d\<rparr>) = marked i" "marked (i\<lparr>i_src := s\<rparr>) = marked i"
  "marked (i\<lparr>i_cond := cc\<rparr>) = marked i" "marked (i\<lparr>i_imm_extra := v\<rparr>) = marked i" "marked (i\<lparr>i_pad := q\<rparr>) = marked i"
  "marked (branch_to sz v i)"
  unfolding marked_bit branch_to_def mark_def bind_op_def set_operands_def by (simp_all add: bit_or_iff del: bit_0)

lemma rip_simps [insn_shape]:
  "i_rip (bind_op k h i) = i_rip i" "i_rip (set_operands sz d s i) = i_rip i" "i_rip (mark f i) = i_rip i"
  "i_rip (branch_to sz v i) = i_rip i"
  by (simp_all add: bind_op_def set_operands_def mark_def branch_to_def)

lemma handler_simps [insn_shape]:
  "i_handler (bind_op k h i) = h" "i_handler (set_operands sz d s i) = i_handler i" "i_handler (mark f i) = i_handler i"
  "i_handler (branch_to sz v i) = i_handler i"
  by (simp_all add: bind_op_def set_operands_def mark_def branch_to_def)

lemma kind_simps [insn_shape]:
  "i_kind (bind_op k h i) = k" "i_kind (set_operands sz d s i) = i_kind i" "i_kind (mark f i) = i_kind i"
  "i_kind (branch_to sz v i) = i_kind i"
  by (simp_all add: bind_op_def set_operands_def mark_def branch_to_def)

lemma operand_simps [insn_shape]:
  "i_op_size (bind_op k h i) = i_op_size i" "i_dst (bind_op k h i) = i_dst i" "i_src (bind_op k h i) = i_src i"
  "i_op_size (mark f i) = i_op_size i" "i_dst (mark f i) = i_dst i" "i_src (mark f i) = i_src i"
  "i_op_size (set_operands sz d s i) = sz" "i_dst (set_operands sz d s i) = d" "i_src (set_operands sz d s i) = s"
  "i_dst (branch_to sz v i) = make_rel v"
  by (simp_all add: bind_op_def set_operands_def mark_def branch_to_def)

section \<open>Operands\<close>

text \<open>A register that exists at the size, or a memory operand.\<close>

definition rm_wf :: "u8 \<Rightarrow> operand \<Rightarrow> bool" where
  "rm_wf sz op \<longleftrightarrow>
     (if o_kind op = OK_Reg then o_reg op < 16 \<or> sz = 1 \<and> o_reg op < 20
      else o_kind op = OK_Mem \<or> o_kind op = OK_RipRelMem)"

lemma low_bits_less: "(b :: u8) AND 7 < 8"
  using word_and_le1 [of b 7] by (simp add: word_le_nat_alt word_less_nat_alt)

lemma combine_reg_less: "combine_reg e r < 16"
proof -
  have "uint (r AND 7) < 8" using low_bits_less [of r] by (simp add: word_less_def)
  then have "uint ((if e then 8 else 0) :: u8) OR uint (r AND 7) < 2 ^ 4" by (intro OR_upper) auto
  then show ?thesis by (simp only: combine_reg_def word_less_def uint_or) simp
qed

lemma valid_gpr_size [simp]: "valid_size (default_gpr_op_size px)"
  by (simp add: default_gpr_op_size_def)

lemma rm_wf_reg_operand [simp]: "rm_wf sz (reg_operand px m sz)"
  using combine_reg_less [of "rex_r px" "mr_reg m"]
  by (auto simp: rm_wf_def reg_operand_def word_less_nat_alt word_le_nat_alt unat_word_ariths)

lemma rm_wf_make_reg [simp]: "r < 16 \<Longrightarrow> rm_wf sz (make_reg r)"
  by (simp add: rm_wf_def make_reg_def)

lemma always_any: "(\<And>a. P a) \<Longrightarrow> (\<And>s. always P (Refuse s)) \<Longrightarrow> always P r"
  by (induction r rule: reader_induct) auto

lemma always_buf: "always (\<lambda>bs. length bs = n) (read_buf n)"
  by (induction n) (auto intro: always_read_next)

lemma always_words: "always (\<lambda>_. True) read_u16" "always (\<lambda>_. True) read_u32" "always (\<lambda>_. True) read_u64"
  by (simp_all add: read_u16_def read_u32_def read_u64_def always_read_next [OF always_buf])

lemma always_disp: "always (\<lambda>_. True) (read_disp b md)"
  by (simp add: read_disp_def read_disp8_def read_disp32_def always_read_next [OF always_words(2)])

lemma always_imm: "always (\<lambda>_. True) (read_imm_sx n)"
  by (simp add: read_imm_sx_def always_words always_read_next [OF always_words(1)] always_read_next [OF always_words(2)])

lemma always_rm_operand: "always (rm_wf sz) (decode_rm_operand px m sz)"
proof -
  have reg: "rm_wf sz (zero_operand\<lparr>o_kind := OK_Reg, o_reg := (if sz = 1 \<and> \<not> px_has_rex px \<and> 4 \<le> mr_rm m \<and> mr_rm m \<le> 7
      then 16 + (mr_rm m - 4) else combine_reg (rex_b px) (mr_rm m))\<rparr>)"
    using combine_reg_less [of "rex_b px" "mr_rm m"]
    by (auto simp: rm_wf_def word_less_nat_alt word_le_nat_alt unat_word_ariths)
  have "always (\<lambda>_. True) read_disp32" by (simp add: read_disp32_def always_read_next [OF always_words(2)])
  then show ?thesis
    using reg by (auto simp: decode_rm_operand_def Let_def rm_wf_def intro!: always_read_next [OF always_disp] always_read_next)
qed

lemma always_modrm: "always (\<lambda>m. mr_reg m < 8) read_modrm"
  by (simp add: read_modrm_def split_modrm_def low_bits_less)

lemmas [reads] = always_read_next [OF always_words(1)] always_read_next [OF always_words(2)] always_read_next [OF always_words(3)]
  always_read_next [OF always_imm] always_read_next [OF always_rm_operand] always_read_next [OF always_modrm]

lemma always_xmm_rm [reads]: "(\<And>op. always P (k op)) \<Longrightarrow> always P (read_next (xmm_rm px m sz) k)"
  by (auto simp: xmm_rm_def intro: always_read_next [OF always_rm_operand])

lemma always_read_rm [reads]:
  "(\<And>m rm. mr_reg m < 8 \<Longrightarrow> rm_wf sz rm \<Longrightarrow> always P (k m rm)) \<Longrightarrow> always P (read_rm px sz k)"
  by (auto simp: read_rm_def intro!: reads)

section \<open>Every decoded instruction\<close>

definition ends_block :: "handler \<Rightarrow> bool" where
  "ends_block h \<longleftrightarrow> h \<in> set [HFlow H_jmp, HFlow H_jcc, HFlow H_call, HFlow H_ret, HFlow H_loop, HFlow H_jcxz,
     HFlow H_syscall, HFlow H_hlt, H_other ''op_int3'', H_other ''op_int_n'']"

definition two_operand :: "handler \<Rightarrow> bool" where
  "two_operand h \<longleftrightarrow> h \<in> set [HArith H_add, HLogic H_or, HArith H_adc, HArith H_sbb, HLogic H_and, HArith H_sub,
     HLogic H_xor, HLogic H_cmp, HLogic H_test]"

definition alu_operands :: "insn \<Rightarrow> bool" where
  "alu_operands i \<longleftrightarrow> valid_size (i_op_size i) \<and> rm_wf (i_op_size i) (i_dst i) \<and>
     (rm_wf (i_op_size i) (i_src i) \<or> o_kind (i_src i) = OK_Imm)"

text \<open>The kinds that the peephole pass inspects determine the handler.\<close>

definition kind_binds :: "OpKind \<Rightarrow> handler \<Rightarrow> bool" where
  "kind_binds k h \<longleftrightarrow> (k = Op_Mov \<longrightarrow> h = HMove H_mov) \<and> (k = Op_Xchg \<longrightarrow> h = HMove H_xchg) \<and>
     (k = Op_Lea \<longrightarrow> h = HMove H_lea) \<and> (k = Op_Xor \<longrightarrow> h = HLogic H_xor) \<and> (k = Op_Jcc \<longrightarrow> h = HFlow H_jcc)"

definition decoded_ok :: "GuestAddr \<Rightarrow> insn \<Rightarrow> bool" where
  "decoded_ok rip i \<longleftrightarrow> i_rip i = rip \<and> known_handler (i_handler i) \<and> (marked i \<longleftrightarrow> ends_block (i_handler i)) \<and>
     kind_binds (i_kind i) (i_handler i) \<and> (two_operand (i_handler i) \<longrightarrow> alu_operands i) \<and>
     (i_handler i = HFlow H_jcc \<longrightarrow> o_kind (i_dst i) = OK_Rel)"

text \<open>An instruction before its handler is bound.\<close>

definition fresh :: "GuestAddr \<Rightarrow> insn \<Rightarrow> bool" where
  "fresh rip i \<longleftrightarrow> i_rip i = rip \<and> \<not> marked i"

lemma decoded_ok_len [simp]: "decoded_ok rip (i\<lparr>i_len := n\<rparr>) = decoded_ok rip i"
  by (simp add: decoded_ok_def marked_def alu_operands_def)

lemmas decoded_simps = insn_shape decoded_ok_def kind_binds_def fresh_def ends_block_def two_operand_def null_handler_def

lemma decode_mr_ok: "kind_binds (i_kind out) (i_handler out) \<Longrightarrow> i_rip out = rip \<Longrightarrow> \<not> marked out \<Longrightarrow> valid_size sz \<Longrightarrow> known_handler (i_handler out) \<Longrightarrow> \<not> ends_block (i_handler out) \<Longrightarrow>
  always (decoded_ok rip) (decode_mr px sz out)"
  by (auto simp: decode_mr_def decoded_ok_def insn_shape ends_block_def alu_operands_def intro!: reads)

lemma decode_rm_ok: "kind_binds (i_kind out) (i_handler out) \<Longrightarrow> i_rip out = rip \<Longrightarrow> \<not> marked out \<Longrightarrow> valid_size sz \<Longrightarrow> known_handler (i_handler out) \<Longrightarrow> \<not> ends_block (i_handler out) \<Longrightarrow>
  sz = rm_sz \<Longrightarrow> always (decoded_ok rip) (decode_rm px sz rm_sz out)"
  by (auto simp: decode_rm_def decoded_ok_def insn_shape ends_block_def alu_operands_def intro!: reads)

lemma alu_nth: "n < 8 \<Longrightarrow> alu_kinds ! unat (n :: u8) \<in> set alu_kinds"
  by (rule nth_mem) (simp add: alu_kinds_def word_less_nat_alt)

lemma bind_alu_ok:
  assumes "fresh rip out" "n < 8"
  shows "i_rip (bind_alu n out) = rip" "\<not> marked (bind_alu n out)" "two_operand (i_handler (bind_alu n out))"
    "known_handler (i_handler (bind_alu n out))" "\<not> ends_block (i_handler (bind_alu n out))"
    "kind_binds (i_kind (bind_alu n out)) (i_handler (bind_alu n out))"
  using assms alu_nth [of n] by (auto simp: bind_alu_def decoded_simps alu_kinds_def split: prod.splits)

lemma decode_alu_primary_ok: "fresh rip out \<Longrightarrow> family < 8 \<Longrightarrow> always (decoded_ok rip) (decode_alu_primary px family variant out)"
  using bind_alu_ok [of rip out family]
  by (auto simp: decode_alu_primary_def Let_def intro!: decode_mr_ok decode_rm_ok reads)
     (auto simp: decoded_ok_def insn_shape ends_block_def alu_operands_def make_imm_def)

lemma decode_group1_ok: "fresh rip out \<Longrightarrow> always (decoded_ok rip) (decode_group1 px opc out)"
  using bind_alu_ok [of rip out]
  by (auto simp: decode_group1_def Let_def intro!: reads)
     (auto simp: decoded_ok_def insn_shape ends_block_def alu_operands_def make_imm_def)

lemma shift_nth: "n < 8 \<Longrightarrow> shift_kinds ! unat (n :: u8) \<in> set shift_kinds"
  by (rule nth_mem) (simp add: shift_kinds_def word_less_nat_alt)

lemma bind_shift_ok: "fresh rip out \<Longrightarrow> n < 8 \<Longrightarrow> decoded_ok rip (set_operands sz d s (bind_shift n out))"
  using shift_nth [of n] by (auto simp: bind_shift_def decoded_simps shift_kinds_def split: prod.splits)

lemma decode_group2_ok: "fresh rip out \<Longrightarrow> always (decoded_ok rip) (decode_group2 px opc out)"
  by (auto simp: decode_group2_def Let_def intro!: reads bind_shift_ok)

lemma decode_group3_ok: "fresh rip out \<Longrightarrow> always (decoded_ok rip) (decode_group3 px opc out)"
  by (auto simp: decode_group3_def Let_def decoded_simps alu_operands_def make_imm_def intro!: reads)

lemma decode_group4_5_ok: "fresh rip out \<Longrightarrow> always (decoded_ok rip) (decode_group4_5 px opc out)"
  by (auto simp: decode_group4_5_def Let_def decoded_simps intro!: reads)

text \<open>A handler of the vector units or of the x87: bound, and none of those the predicate speaks of.\<close>

definition plain_handler :: "handler \<Rightarrow> bool" where
  "plain_handler h \<longleftrightarrow> known_handler h \<and> \<not> ends_block h \<and> \<not> two_operand h"

definition plain_bind :: "OpKind \<Rightarrow> handler \<Rightarrow> bool" where
  "plain_bind k h \<longleftrightarrow> plain_handler h \<and> kind_binds k h"

lemma fresh_simps [simp]:
  "fresh rip (set_operands sz d s out) = fresh rip out" "fresh rip (mark 128 out) = fresh rip out" "fresh rip (bind_op k h out) = fresh rip out"
  "fresh rip (out\<lparr>i_op_size := sz\<rparr>) = fresh rip out" "fresh rip (out\<lparr>i_dst := d\<rparr>) = fresh rip out" "fresh rip (out\<lparr>i_src := s\<rparr>) = fresh rip out"
  "fresh rip (out\<lparr>i_cond := cc\<rparr>) = fresh rip out" "fresh rip (out\<lparr>i_imm_extra := v\<rparr>) = fresh rip out" "fresh rip (out\<lparr>i_pad := q\<rparr>) = fresh rip out"
  by (simp_all add: fresh_def insn_shape)

definition plain_table :: "(u8 \<times> OpKind \<times> handler) list \<Rightarrow> bool" where
  "plain_table t \<longleftrightarrow> (\<forall>(op, k, h) \<in> set t. plain_bind k h)"

lemma plain_tableD: "plain_table t \<Longrightarrow> (op, k, h) \<in> set t \<Longrightarrow> plain_bind k h"
  by (auto simp: plain_table_def)

lemma plain_handlers [simp]: "known_handler (H_other s) \<Longrightarrow> s \<noteq> ''op_int3'' \<Longrightarrow> s \<noteq> ''op_int_n'' \<Longrightarrow> plain_handler (H_other s)"
  "plain_handler (HBmi b)" "plain_handler (HBits t)" "plain_handler (HMove v)" "plain_handler (HString g)" "plain_handler (HShift f)"
  by (auto simp: plain_handler_def null_handler_def ends_block_def two_operand_def)

lemmas kind_binds_numeral [simp] = kind_binds_def [where k = "numeral n" for n]

lemma plain_bind_iff [simp]: "plain_bind (numeral n) h \<longleftrightarrow> plain_handler h \<and> kind_binds (numeral n) h"
  "plain_bind 1 h \<longleftrightarrow> plain_handler h"
  by (simp_all only: plain_bind_def) (simp add: kind_binds_def)

lemma plain_tables [simp]:
  "plain_table x87_arith_table" "plain_table x87_pop_table" "plain_table x87_d9_table" "plain_table sha_table" "plain_table ssse_table"
  "plain_table imm_table" "plain_table scalar_ss_table" "plain_table scalar_sd_table" "plain_table packed_double_table"
  "plain_table packed_single_table" "plain_table sse2_table" "plain_table vex38_table" "plain_table evex66_table"
  "plain_table evex_ps_table" "plain_table vex66_table"
  by (simp_all add: plain_table_def plain_bind_def kind_binds_def x87_arith_table_def x87_pop_table_def x87_d9_table_def sha_table_def ssse_table_def
      imm_table_def scalar_ss_table_def scalar_sd_table_def packed_double_table_def packed_single_table_def sse2_table_def
      vex38_table_def evex66_table_def evex_ps_table_def vex66_table_def)

text \<open>What binds a plain handler and changes the rest of the instruction is well-formed.\<close>

definition plain_insn_of :: "GuestAddr \<Rightarrow> insn \<Rightarrow> bool" where
  "plain_insn_of rip i \<longleftrightarrow> fresh rip i \<and> plain_bind (i_kind i) (i_handler i)"

lemma plain_insn_ok: "plain_insn_of rip i \<Longrightarrow> decoded_ok rip i"
  by (auto simp: plain_insn_of_def plain_bind_def plain_handler_def decoded_ok_def fresh_def ends_block_def)

lemma plain_insn_simps [simp]:
  "plain_insn_of rip (set_operands sz d s out) = plain_insn_of rip out" "plain_insn_of rip (mark 128 out) = plain_insn_of rip out"
  "plain_insn_of rip (out\<lparr>i_op_size := sz\<rparr>) = plain_insn_of rip out" "plain_insn_of rip (out\<lparr>i_dst := d\<rparr>) = plain_insn_of rip out"
  "plain_insn_of rip (out\<lparr>i_src := s\<rparr>) = plain_insn_of rip out" "plain_insn_of rip (out\<lparr>i_cond := cc\<rparr>) = plain_insn_of rip out"
  "plain_insn_of rip (out\<lparr>i_imm_extra := v\<rparr>) = plain_insn_of rip out" "plain_insn_of rip (out\<lparr>i_pad := q\<rparr>) = plain_insn_of rip out"
  "plain_insn_of rip (bind_op k h out) \<longleftrightarrow> fresh rip out \<and> plain_bind k h"
  by (auto simp: plain_insn_of_def insn_shape)

lemma plain_always: "always (plain_insn_of rip) r \<Longrightarrow> always (decoded_ok rip) r"
  by (erule always_mono) (rule plain_insn_ok)

lemma decode_x87_ok: "fresh rip out \<Longrightarrow> always (decoded_ok rip) (decode_x87 px opc out)"
  by (rule plain_always)
     (auto simp: decode_x87_def decode_x87_reg_def decode_x87_mem_def Let_def intro!: reads dest: plain_tableD [rotated])

section \<open>The vector opcodes\<close>

text \<open>A section gives only readers of plain instructions.\<close>

definition plain_section :: "GuestAddr \<Rightarrow> insn reader option \<Rightarrow> bool" where
  "plain_section rip x \<longleftrightarrow> (\<forall>r. x = Some r \<longrightarrow> always (plain_insn_of rip) r)"

lemma plain_section_simps [simp]:
  "plain_section rip None" "plain_section rip (Some r) \<longleftrightarrow> always (plain_insn_of rip) r"
  by (simp_all add: plain_section_def)

lemma plain_section_try [simp]: "plain_section rip a \<Longrightarrow> plain_section rip b \<Longrightarrow> plain_section rip (or_try a b)"
  by (cases a) (simp_all add: or_try_def)

lemma plain_section_case [simp]: "(b \<Longrightarrow> plain_section rip a) \<Longrightarrow> plain_section rip (in_case b a)"
  by (simp add: in_case_def)

lemma plain_section_table [simp]:
  "plain_table t \<Longrightarrow> (\<And>k h. plain_bind k h \<Longrightarrow> always (plain_insn_of rip) (f k h)) \<Longrightarrow> plain_section rip (table_op t op f)"
  by (auto simp: table_op_def split: option.splits dest!: map_of_SomeD plain_tableD)

lemma always_or_else: "plain_section rip a \<Longrightarrow> always (plain_insn_of rip) r \<Longrightarrow> always (plain_insn_of rip) (or_else a r)"
  by (cases a) (simp_all add: or_else_def)

lemma always_plain_look_up:
  "plain_table t \<Longrightarrow> (\<And>k h. plain_bind k h \<Longrightarrow> always P (f k h)) \<Longrightarrow> always P (look_up t op f)"
  by (auto intro!: always_look_up dest: plain_tableD)

text \<open>The operand forms.\<close>

lemma vector_forms [simp]:
  assumes "fresh rip out" "plain_bind k h"
  shows "always (plain_insn_of rip) (decode_xmm_rm px k h out)" "always (plain_insn_of rip) (decode_xmm_mr px k h out)"
    "always (plain_insn_of rip) (decode_pextr px sz k h out)" "always (plain_insn_of rip) (decode_pinsr px sz k h out)"
    "always (plain_insn_of rip) (decode_cvt_to_int px sz k h out)" "always (plain_insn_of rip) (decode_movmsk px k h out)"
    "always (plain_insn_of rip) (decode_vex_op_rmv px k h out)" "always (plain_insn_of rip) (decode_vex_op_rm px k h b out)"
    "always (plain_insn_of rip) (decode_vex_gpr_rmv px k h out)" "always (plain_insn_of rip) (decode_vgather px k h d x out)"
    "always (plain_insn_of rip) (decode_evex_op_rmv px k h out)" "always (plain_insn_of rip) (decode_evex_op_rm px k h b out)"
    "always (plain_insn_of rip) (decode_evex_scatter px k h d x out)"
  using assms
  by (auto simp: decode_xmm_rm_def decode_xmm_mr_def decode_pextr_def decode_pinsr_def decode_cvt_to_int_def decode_movmsk_def
      decode_vex_op_rmv_def decode_vex_op_rm_def decode_vex_gpr_rmv_def decode_vgather_def decode_evex_op_rmv_def
      decode_evex_op_rm_def decode_evex_scatter_def Let_def intro!: reads)

lemma cvt_from_int_form [simp]:
  "fresh rip out \<Longrightarrow> plain_bind k h \<Longrightarrow> always (plain_insn_of rip) (decode_cvt_from_int px k h out)"
  by (simp add: decode_cvt_from_int_def)

lemma with_imm8_form [simp]: "always (plain_insn_of rip) r \<Longrightarrow> always (plain_insn_of rip) (with_imm8 r)"
  by (auto simp: with_imm8_def intro!: always_read_next [of "plain_insn_of rip" r] reads)

lemma decode_0F38_ok: "fresh rip out \<Longrightarrow> always (plain_insn_of rip) (decode_0F38 px out)"
  by (auto simp: decode_0F38_def decode_crc32_def decode_movbe_def decode_rm_def decode_mr_def Let_def
      intro!: reads always_or_else)

lemma decode_0F3A_ok: "fresh rip out \<Longrightarrow> always (plain_insn_of rip) (decode_0F3A px out)"
  by (auto simp: decode_0F3A_def intro!: always_plain_look_up)

lemma movq_load_form [simp]: "fresh rip out \<Longrightarrow> always (plain_insn_of rip) (decode_movq_load px out)"
  by (auto simp: decode_movq_load_def intro!: reads)

lemma sse_section_forms [simp]:
  assumes "fresh rip out"
  shows "plain_section rip (scalar_section px sec out)" "plain_section rip (packed_double_section px sec out)"
    "plain_section rip (packed_single_section px sec out)" "plain_section rip (sse2_section px sec out)"
    "plain_section rip (unaligned_section px sec out)"
proof -
  note f [simp] = assms
  show "plain_section rip (scalar_section px sec out)" by (simp add: scalar_section_def Let_def)
  show "plain_section rip (packed_double_section px sec out)" by (simp add: packed_double_section_def)
  show "plain_section rip (packed_single_section px sec out)" by (simp add: packed_single_section_def)
  show "plain_section rip (sse2_section px sec out)"
    by (simp add: sse2_section_def decode_mov_to_xmm_def decode_mov_from_xmm_def)
  show "plain_section rip (unaligned_section px sec out)" by (simp add: unaligned_section_def)
qed

lemma sse_sections_ok: "fresh rip out \<Longrightarrow> plain_section rip (sse_sections px sec out)"
  by (simp add: sse_sections_def)

lemma vex_section_forms [simp]:
  assumes "fresh rip out"
  shows "plain_section rip (evex66_section px op out)" "plain_section rip (evex_ps_section px op out)"
    "plain_section rip (evex_movdqu_section px op out)" "plain_section rip (vex66_section px op out)"
    "plain_section rip (vex_movdqu_section px op out)" "plain_section rip (vex_zero_section px op out)"
proof -
  note f [simp] = assms
  show "plain_section rip (evex66_section px op out)" by (simp add: evex66_section_def Let_def)
  show "plain_section rip (evex_ps_section px op out)" by (simp add: evex_ps_section_def)
  show "plain_section rip (evex_movdqu_section px op out)" by (simp add: evex_movdqu_section_def)
  show "plain_section rip (vex66_section px op out)" by (simp add: vex66_section_def)
  show "plain_section rip (vex_movdqu_section px op out)" by (simp add: vex_movdqu_section_def)
  show "plain_section rip (vex_zero_section px op out)" by (simp add: vex_zero_section_def)
qed

lemma decode_evex_ok: "fresh rip out \<Longrightarrow> always (plain_insn_of rip) (decode_evex px out)"
  by (auto simp: decode_evex_def decode_evex_map2_def Let_def intro!: always_or_else)

lemma always_if: "(c \<Longrightarrow> always P a) \<Longrightarrow> (\<not> c \<Longrightarrow> always P b) \<Longrightarrow> always P (if c then a else b)"
  by simp

lemma vex_gpr_forms [simp]:
  assumes "fresh rip out"
  shows "always (plain_insn_of rip) (decode_bls px out)" "always (plain_insn_of rip) (decode_rorx px out)"
    "always (plain_insn_of rip) (decode_vex_map2_sse66 px op out)"
  using assms by (auto simp: decode_bls_def decode_rorx_def decode_vex_map2_sse66_def Let_def intro!: with_imm8_form reads
      dest: plain_tableD [OF plain_tables(12)])

lemma decode_vex_map2_ok: "fresh rip out \<Longrightarrow> always (plain_insn_of rip) (decode_vex_map2_bmi px out)"
  unfolding decode_vex_map2_bmi_def always.simps by (intro allI always_if) simp_all

lemma decode_vex_map3_ok: "fresh rip out \<Longrightarrow> always (plain_insn_of rip) (decode_vex_map3_rorx px out)"
  unfolding decode_vex_map3_rorx_def always.simps by (intro allI always_if) simp_all

lemma decode_vex_ok: "fresh rip out \<Longrightarrow> always (decoded_ok rip) (decode_vex px out)"
  by (rule plain_always)
     (auto simp: decode_vex_def decode_evex_ok decode_vex_map2_ok decode_vex_map3_ok intro!: always_or_else)

section \<open>The two-byte and the primary opcodes\<close>

lemma plain_form:
  assumes "fresh rip out" "plain_bind k h"
  shows "always (decoded_ok rip) (decode_rm px sz rm_sz (bind_op k h out))" "always (decoded_ok rip) (decode_mr px sz (bind_op k h out))"
    "always (decoded_ok rip) (decode_extend px sz k h out)" "always (decoded_ok rip) (Give (bind_op k h out))"
  using assms by (auto simp: decode_rm_def decode_mr_def decode_extend_def Let_def plain_insn_ok intro!: plain_always reads)

lemma flow_form:
  assumes "fresh rip out" "ends_block h" "kind_binds k h"
  shows "h \<noteq> HFlow H_jcc \<Longrightarrow> decoded_ok rip (mark INSN_FLAG_CONTROL_FLOW (bind_op k h out))"
    "decoded_ok rip (branch_to sz v (bind_op k h out))"
  using assms
  by (auto simp: decoded_ok_def fresh_def insn_shape ends_block_def two_operand_def null_handler_def make_rel_def)

lemma arith_handler_plain [simp]:
  "plain_handler (HArith H_imul)" "plain_handler (HFlow H_rdtsc)" "plain_handler (HFlow H_cpuid)" "plain_handler (HFlow H_rdrand)"
  by (simp_all add: plain_handler_def null_handler_def ends_block_def two_operand_def)

lemma flow_handlers [simp]:
  "ends_block (HFlow H_jcc)" "ends_block (HFlow H_jmp)" "ends_block (HFlow H_call)" "ends_block (HFlow H_ret)" "ends_block (HFlow H_loop)"
  "ends_block (HFlow H_jcxz)" "ends_block (HFlow H_syscall)" "ends_block (HFlow H_hlt)"
  "ends_block (H_other ''op_int3'')" "ends_block (H_other ''op_int_n'')"
  by (simp_all add: ends_block_def)

lemma gpr_forms:
  assumes "fresh rip out"
  shows "always (decoded_ok rip) (decode_counts px sec out)" "always (decoded_ok rip) (decode_bit_scan px sec out)"
    "always (decoded_ok rip) (decode_bit_test px sec out)" "always (decoded_ok rip) (decode_cmov px sec out)"
    "always (decoded_ok rip) (decode_jcc_near sec out)" "always (decoded_ok rip) (decode_bswap px sec out)"
proof -
  note f [simp] = assms
  show "always (decoded_ok rip) (decode_counts px sec out)" by (simp add: decode_counts_def Let_def plain_form)
  show "always (decoded_ok rip) (decode_bit_scan px sec out)" by (simp add: decode_bit_scan_def Let_def plain_form)
  show "always (decoded_ok rip) (decode_bit_test px sec out)" by (simp add: decode_bit_test_def Let_def plain_form)
  show "always (decoded_ok rip) (decode_cmov px sec out)" by (simp add: decode_cmov_def Let_def plain_form)
  show "always (decoded_ok rip) (decode_jcc_near sec out)" by (auto simp: decode_jcc_near_def intro!: flow_form reads)
  show "always (decoded_ok rip) (decode_bswap px sec out)" by (simp add: decode_bswap_def plain_insn_ok)
qed

lemma group_forms:
  assumes "fresh rip out"
  shows "always (decoded_ok rip) (decode_group8 px out)" "always (decoded_ok rip) (decode_prefetch px out)"
    "always (decoded_ok rip) (decode_group15 px out)" "always (decoded_ok rip) (decode_long_nop px out)"
    "always (decoded_ok rip) (decode_group9 px out)" "always (decoded_ok rip) (decode_double_shift px sec out)"
proof -
  note f [simp] = assms
  show "always (decoded_ok rip) (decode_group8 px out)"
    by (rule plain_always) (auto simp: decode_group8_def Let_def intro!: reads)
  show "always (decoded_ok rip) (decode_prefetch px out)"
    by (rule plain_always) (auto simp: decode_prefetch_def Let_def intro!: reads)
  show "always (decoded_ok rip) (decode_group15 px out)"
    by (rule plain_always) (auto simp: decode_group15_def Let_def intro!: reads)
  show "always (decoded_ok rip) (decode_long_nop px out)"
    by (rule plain_always) (auto simp: decode_long_nop_def Let_def intro!: reads)
  show "always (decoded_ok rip) (decode_group9 px out)"
    by (rule plain_always) (auto simp: decode_group9_def Let_def intro!: reads)
  show "always (decoded_ok rip) (decode_double_shift px sec out)"
    by (rule plain_always) (auto simp: decode_double_shift_def Let_def intro!: reads)
qed

lemma decode_two_byte_gpr_ok: "fresh rip out \<Longrightarrow> always (decoded_ok rip) (decode_two_byte_gpr px sec out)"
  unfolding decode_two_byte_gpr_def Let_def
  by (intro always_if) (simp_all add: gpr_forms group_forms plain_form flow_form plain_insn_ok)

lemma decode_two_byte_ok: "fresh rip out \<Longrightarrow> always (decoded_ok rip) (decode_two_byte px out)"
  using sse_sections_ok [of rip out px] decode_two_byte_gpr_ok [of rip out px]
  by (auto simp: decode_two_byte_def or_else_def decode_0F38_ok decode_0F3A_ok split: option.split intro!: plain_always [of rip "decode_0F38 px out"] plain_always [of rip "decode_0F3A px out"])
     (metis plain_section_simps(2) plain_always)

lemma primary_forms:
  assumes "fresh rip out"
  shows "always (decoded_ok rip) (decode_push_pop px opc out)" "always (decoded_ok rip) (decode_push_imm n out)"
    "always (decoded_ok rip) (decode_imul3 px opc out)" "always (decoded_ok rip) (decode_mov px opc out)"
    "always (decoded_ok rip) (decode_lea px out)" "always (decoded_ok rip) (decode_mov_reg_imm px opc out)"
    "always (decoded_ok rip) (decode_ret opc out)" "always (decoded_ok rip) (decode_mov_rm_imm px opc out)"
    "always (decoded_ok rip) (decode_string px opc out)" "always (decoded_ok rip) (decode_loop_op opc out)"
    "always (decoded_ok rip) (decode_int_n out)"
proof -
  note f [simp] = assms
  show "always (decoded_ok rip) (decode_push_pop px opc out)" by (simp add: decode_push_pop_def Let_def plain_insn_ok)
  show "always (decoded_ok rip) (decode_push_imm n out)" by (auto simp: decode_push_imm_def plain_insn_ok intro!: reads)
  show "always (decoded_ok rip) (decode_imul3 px opc out)" by (auto simp: decode_imul3_def Let_def plain_insn_ok intro!: reads)
  show "always (decoded_ok rip) (decode_mov px opc out)" by (simp add: decode_mov_def Let_def plain_form)
  show "always (decoded_ok rip) (decode_lea px out)"
    by (auto simp: decode_lea_def Let_def plain_insn_ok intro!: reads)
  show "always (decoded_ok rip) (decode_mov_reg_imm px opc out)" by (auto simp: decode_mov_reg_imm_def Let_def plain_insn_ok intro!: reads)
  show "always (decoded_ok rip) (decode_mov_rm_imm px opc out)" by (auto simp: decode_mov_rm_imm_def Let_def plain_insn_ok intro!: reads)
  show "always (decoded_ok rip) (decode_string px opc out)" by (simp add: decode_string_def Let_def plain_insn_ok)
  show "always (decoded_ok rip) (decode_int_n out)" by (simp add: decode_int_n_def flow_form)
  have m: "marked (mark INSN_FLAG_CONTROL_FLOW (out\<lparr>i_op_size := 8\<rparr>))" for out by (simp add: insn_shape)
  show "always (decoded_ok rip) (decode_ret opc out)" using assms
    by (auto simp: decode_ret_def Let_def decoded_simps intro!: reads)
  show "always (decoded_ok rip) (decode_loop_op opc out)" using assms
    by (auto simp: decode_loop_op_def Let_def decoded_simps)
qed

lemma decode_test_imm_ok: "fresh rip out \<Longrightarrow> always (decoded_ok rip) (decode_test_imm px opc out)"
  by (auto simp: decode_test_imm_def Let_def decoded_simps alu_operands_def make_imm_def rm_wf_make_reg [of 0] intro!: reads)

lemma rel_forms:
  assumes "fresh rip out" "ends_block h" "kind_binds k h"
  shows "always (decoded_ok rip) (decode_rel8 k h out)" "always (decoded_ok rip) (decode_rel32 k h out)"
  using assms by (auto simp: decode_rel8_def decode_rel32_def intro!: flow_form reads)

lemma decode_test_ok:
  assumes "fresh rip out" "valid_size sz"
  shows "always (decoded_ok rip) (decode_mr px sz (bind_op Op_Test (HLogic H_test) out))"
  using assms by (intro decode_mr_ok) (auto simp: decoded_simps)

lemma decode_primary_high_ok: "fresh rip out \<Longrightarrow> always (decoded_ok rip) (decode_primary_high px opc out)"
  unfolding decode_primary_high_def
  by (intro always_if) (simp_all add: primary_forms decode_test_imm_ok rel_forms decode_group3_ok decode_group4_5_ok
      decode_two_byte_ok plain_insn_ok flow_form)

lemma alu_family_less: "(opc :: u8) \<le> 0x3D \<Longrightarrow> drop_bit 3 opc < 8"
  by (simp add: word_less_nat_alt word_le_nat_alt unat_drop_bit_eq drop_bit_eq_div unat_div)

lemma decode_primary_ok: "fresh rip out \<Longrightarrow> always (decoded_ok rip) (decode_primary px opc out)"
  unfolding decode_primary_def
  by (intro always_if) (simp_all add: primary_forms rel_forms decode_group1_ok decode_group2_ok decode_x87_ok decode_primary_high_ok
      plain_form plain_insn_ok decode_test_ok decode_alu_primary_ok alu_family_less)

lemma decode_after_prefixes_ok: "fresh rip out \<Longrightarrow> always (decoded_ok rip) (decode_after_prefixes px out)"
  by (simp add: decode_after_prefixes_def decode_vex_ok decode_primary_ok)

lemma fresh_start: "fresh rip (start_insn px rip)"
  unfolding fresh_def marked_bit by (auto simp: start_insn_def prefix_flags_def zero_insn_def bit_or_iff simp del: bit_0)

text \<open>The hypothesis of the theorems on arithmetic holds for what the decoder makes.\<close>

lemma decoded_reg_form:
  assumes "decoded_ok rip i" "two_operand (i_handler i)" "o_kind (i_dst i) = OK_Reg" "direct_operand (i_src i)"
  shows "reg_form i"
  using assms by (auto simp: decoded_ok_def alu_operands_def reg_form_def rm_wf_def)

section \<open>Runs on a buffer\<close>

text \<open>The byte source of \<open>decode_bytes\<close>: at most 15 bytes, read up to a point inside.\<close>

definition on_buffer :: "u8 list \<Rightarrow> unit byte_source \<Rightarrow> bool" where
  "on_buffer data bs \<longleftrightarrow> bs_fetch bs = buf_fetch data \<and> length data \<le> 15 \<and> unat (bs_consumed bs) \<le> length data"

lemma unat_Suc_u8: "unat (n :: u8) < 15 \<Longrightarrow> unat (n + 1) = Suc (unat n)"
  by (simp add: unat_word_ariths)

lemma read_byte_buffer:
  assumes "on_buffer data bs"
  shows "read_byte bs =
    (if unat (bs_consumed bs) < length data
     then (Inr (data ! unat (bs_consumed bs)), bs\<lparr>bs_consumed := bs_consumed bs + 1\<rparr>)
     else (Inl St_TruncatedInstruction, bs))"
  using assms by (auto simp: on_buffer_def read_byte_def buf_fetch_def)

lemma on_buffer_step:
  "on_buffer data bs \<Longrightarrow> unat (bs_consumed bs) < length data \<Longrightarrow>
   on_buffer data (bs\<lparr>bs_consumed := bs_consumed bs + 1\<rparr>) \<and> unat (bs_consumed bs + 1) = Suc (unat (bs_consumed bs))"
  using unat_Suc_u8 [of "bs_consumed bs"] by (simp add: on_buffer_def)

lemma run_reader_buffer:
  "run_reader r bs = (x, bs') \<Longrightarrow> on_buffer data bs \<Longrightarrow> on_buffer data bs' \<and> unat (bs_consumed bs) \<le> unat (bs_consumed bs')"
proof (induction r arbitrary: bs rule: reader_induct)
  case (Read_Byte k)
  show ?case
  proof (cases "unat (bs_consumed bs) < length data")
    case True
    note step = on_buffer_step [OF Read_Byte.prems(2) True]
    show ?thesis
      using Read_Byte.IH [of _ "bs\<lparr>bs_consumed := bs_consumed bs + 1\<rparr>"] Read_Byte.prems read_byte_buffer [OF Read_Byte.prems(2)] True step
      by fastforce
  next
    case False
    then show ?thesis using Read_Byte.prems read_byte_buffer [OF Read_Byte.prems(2)] by simp
  qed
qed auto

definition is_legacy :: "u8 \<Rightarrow> bool" where
  "is_legacy b \<longleftrightarrow> b \<in> set [0x66, 0x67, 0xF0, 0xF2, 0xF3, 0x26, 0x2E, 0x36, 0x3E, 0x64, 0x65]"

lemma legacy_prefix_iff: "legacy_prefix b px = None \<longleftrightarrow> \<not> is_legacy b"
  by (simp add: legacy_prefix_def is_legacy_def)

lemma peek_byte_buffer:
  assumes "on_buffer data bs"
  shows "peek_byte 0 bs =
    (if unat (bs_consumed bs) < length data then (Inr (data ! unat (bs_consumed bs)), bs) else (Inl St_TruncatedInstruction, bs))"
  using assms by (auto simp: on_buffer_def peek_byte_def buf_fetch_def)

lemma vex_or_rex_always: "vex_or_rex b px = Some r \<Longrightarrow> always (\<lambda>_. True) r"
  by (auto simp: vex_or_rex_def split: if_splits)

lemma scan_tail_buffer:
  assumes "scan_tail b px bs = (x, bs')" "on_buffer data bs"
  shows "on_buffer data bs' \<and> x \<noteq> Inl St_Ok"
proof -
  have skip: "on_buffer data (snd (read_byte bs))"
    using read_byte_buffer [OF assms(2)] on_buffer_step [OF assms(2)] assms(2) by auto
  show ?thesis
  proof (cases "vex_or_rex b px")
    case (Some r)
    then have "run_reader r (snd (read_byte bs)) = (x, bs')" using assms(1) by (simp add: scan_tail_def)
    from run_reader_buffer [OF this skip] run_reader_always [OF this vex_or_rex_always [OF Some]] show ?thesis by blast
  qed (use assms in \<open>auto simp: scan_tail_def\<close>)
qed

lemma scan_loop_buffer:
  "on_buffer data bs \<Longrightarrow> \<exists>x bs'. scan_loop px bs = Some (x, bs') \<and> on_buffer data bs' \<and> x \<noteq> Inl St_Ok"
proof (induction "length data - unat (bs_consumed bs)" arbitrary: px bs rule: less_induct)
  case less
  note peek = peek_byte_buffer [OF less.prems] and step = on_buffer_step [OF less.prems]
  show ?case
  proof (cases "unat (bs_consumed bs) < length data")
    case False
    then show ?thesis using peek less.prems by (subst scan_loop.simps) simp
  next
    case True
    let ?b = "data ! unat (bs_consumed bs)"
    show ?thesis
    proof (cases "legacy_prefix ?b px")
      case None
      obtain x bs' where v: "scan_tail ?b px bs = (x, bs')" by (metis prod.exhaust)
      then show ?thesis using scan_tail_buffer [OF v less.prems] True peek None by (subst scan_loop.simps) simp
    next
      case (Some px')
      have "snd (read_byte bs) = bs\<lparr>bs_consumed := bs_consumed bs + 1\<rparr>" using read_byte_buffer [OF less.prems] True by simp
      then show ?thesis
        using less.hyps [of "bs\<lparr>bs_consumed := bs_consumed bs + 1\<rparr>" px'] True step peek Some by (subst scan_loop.simps) simp
    qed
  qed
qed

lemma run_reads_on:
  assumes "run_reader r bs = (Inr a, bs')" "on_buffer data bs" "\<forall>a. r \<noteq> Give a"
  shows "unat (bs_consumed bs) < unat (bs_consumed bs')"
proof (cases r)
  case (Read_Byte k)
  have less: "unat (bs_consumed bs) < length data"
    using assms(1) read_byte_buffer [OF assms(2)] Read_Byte by (auto split: if_splits)
  note step = on_buffer_step [OF assms(2) less]
  have "run_reader (k (data ! unat (bs_consumed bs))) (bs\<lparr>bs_consumed := bs_consumed bs + 1\<rparr>) = (Inr a, bs')"
    using assms(1) read_byte_buffer [OF assms(2)] less Read_Byte by simp
  from run_reader_buffer [OF this conjunct1 [OF step]] step show ?thesis by simp
qed (use assms in auto)

lemma decode_vex_reads: "decode_vex px out \<noteq> Give i"
  by (simp add: decode_vex_def decode_evex_def decode_evex_map2_def decode_vex_map2_bmi_def decode_vex_map3_rorx_def)

lemma decode_after_prefixes_reads: "decode_after_prefixes px out \<noteq> Give i"
  by (simp add: decode_after_prefixes_def decode_vex_reads)

lemma decode_with_source_buffer:
  assumes "on_buffer data bs"
  shows "\<exists>x bs'. decode_with_source bs rip = Some (x, bs') \<and> on_buffer data bs' \<and> x \<noteq> Inl St_Ok \<and>
    (\<forall>i. x = Inr i \<longrightarrow> decoded_ok rip i \<and> 0 < i_len i \<and> i_len i = bs_consumed bs')"
proof -
  obtain x bs1 where s: "scan_prefixes bs = Some (x, bs1)" and b1: "on_buffer data bs1" "x \<noteq> Inl St_Ok"
    using scan_loop_buffer [OF assms, of no_prefixes] by (auto simp: scan_prefixes_def)
  show ?thesis
  proof (cases x)
    case (Inl e)
    then show ?thesis using s b1 by (simp add: decode_with_source_def)
  next
    case (Inr px)
    let ?r = "decode_after_prefixes px (start_insn px rip)"
    obtain y bs2 where r: "run_reader ?r bs1 = (y, bs2)" by (metis prod.exhaust)
    note y = run_reader_always [OF r decode_after_prefixes_ok [OF fresh_start]]
    have b2: "on_buffer data bs2" using run_reader_buffer [OF r b1(1)] by simp
    have len: "0 < bs_consumed bs2" if "y = Inr i" for i
      using run_reads_on [of ?r bs1 i bs2 data] r that b1(1) decode_after_prefixes_reads [of px]
      by (simp add: word_less_nat_alt)
    show ?thesis
      using s Inr r y b2 len by (cases y) (auto simp: decode_with_source_def)
  qed
qed


section \<open>Runs on any byte source\<close>

lemma peek_status: "fst (peek_byte off bs) \<noteq> Inl St_Ok"
  by (simp add: peek_byte_def split: prod.split)

lemma scan_loop_status: "scan_loop px bs = Some y \<Longrightarrow> fst y \<noteq> Inl St_Ok"
proof (rule scan_loop.raw_induct)
  fix scan px bs y
  assume ih: "\<And>px bs y. scan px bs = Some y \<Longrightarrow> fst y \<noteq> Inl St_Ok"
    and body: "(case peek_byte 0 bs of
        (Inl s, bs) \<Rightarrow> Some (Inl s, bs)
      | (Inr b, bs) \<Rightarrow> (case legacy_prefix b px of Some px \<Rightarrow> scan px (snd (read_byte bs)) | None \<Rightarrow> Some (scan_tail b px bs))) = Some y"
  obtain q bs1 where pk: "peek_byte 0 bs = (q, bs1)" "q \<noteq> Inl St_Ok"
    using peek_status [of 0 bs] by (cases "peek_byte 0 bs") auto
  have tail: "fst (scan_tail b px bs1) \<noteq> Inl St_Ok" for b
  proof (cases "vex_or_rex b px")
    case (Some r)
    then show ?thesis using run_reader_always [OF _ vex_or_rex_always [OF Some], of "snd (read_byte bs1)"]
      by (cases "run_reader r (snd (read_byte bs1))") (auto simp: scan_tail_def)
  qed (simp add: scan_tail_def)
  show "fst y \<noteq> Inl St_Ok"
    using body pk tail ih by (cases q) (auto split: option.splits)
qed

lemma decode_with_source_sound:
  assumes "decode_with_source bs rip = Some (x, bs')"
  shows "x \<noteq> Inl St_Ok \<and> (\<forall>i. x = Inr i \<longrightarrow> decoded_ok rip i)"
proof -
  obtain y bs1 where s: "scan_prefixes bs = Some (y, bs1)" "y \<noteq> Inl St_Ok"
    using assms scan_loop_status [of no_prefixes bs] by (auto simp: decode_with_source_def scan_prefixes_def split: option.splits)
  show ?thesis
  proof (cases y)
    case (Inr px)
    obtain z bs2 where r: "run_reader (decode_after_prefixes px (start_insn px rip)) bs1 = (z, bs2)" by (metis prod.exhaust)
    from run_reader_always [OF this decode_after_prefixes_ok [OF fresh_start]] show ?thesis
      using assms s Inr r by (cases z) (auto simp: decode_with_source_def)
  qed (use assms s in \<open>auto simp: decode_with_source_def\<close>)
qed

end
