(* ===== verification/Decoder_Runs.thy ===== *)
theory Decoder_Runs
  imports Decoder_Facts Dispatcher
begin

text \<open>
  The decoder over a memory.  A memory source whose provider satisfies the paged contract reads the bytes of the
  view, so \<open>decode_one\<close> does what \<open>decode_bytes\<close> does on the same bytes; unlike there, the prefix loop need not end,
  because the 8-bit offset comes back to the first byte.
\<close>

section \<open>Byte sources over a memory\<close>

text \<open>A source over \<open>p\<close> at \<open>rip\<close> whose memory satisfies its invariant and shows \<open>v\<close>.\<close>

definition over_memory ::
  "'m provider \<Rightarrow> GuestAddr \<Rightarrow> ('m \<Rightarrow> bool) \<Rightarrow> ('m \<Rightarrow> GuestAddr \<Rightarrow> u8 option) \<Rightarrow> (GuestAddr \<Rightarrow> u8 option) \<Rightarrow> 'm byte_source \<Rightarrow> bool" where
  "over_memory p rip good view v bs \<longleftrightarrow> bs_fetch bs = mem_fetch p rip \<and> good (bs_ctx bs) \<and> view (bs_ctx bs) = v"

lemma over_memory_consumed: "over_memory p rip good view v (bs\<lparr>bs_consumed := n\<rparr>) = over_memory p rip good view v bs"
  by (simp add: over_memory_def)

lemma ucast_unat: "(ucast (w :: u8) :: u64) = of_nat (unat w)"
  by simp

context paged_memory
begin

lemma fetch_view:
  assumes "prov_read p = rd" "inv m"
  obtains s b m' where "mem_fetch p rip off m = (s, b, m')" "inv m'" "view m' = view m"
    "s = St_Ok \<longleftrightarrow> view m (rip + ucast off) = Some b" "view m (rip + ucast off) = None \<longleftrightarrow> s \<noteq> St_Ok"
proof -
  obtain s bs m' where r: "rd (rip + ucast off) 1 m = (s, bs, m')" by (metis prod_cases3)
  note keep = rd_keeps [OF assms(2) r]
  show ?thesis
  proof (cases "s = St_Ok")
    case True
    note ok = rd_ok [OF assms(2) r [unfolded True]]
    then obtain b where "bs = [b]" by (auto simp: length_Suc_conv)
    with ok have "view m (rip + ucast off) = Some b" by (auto dest: spec [of _ 0])
    then show ?thesis using that [of St_Ok b m'] keep r True assms(1) \<open>bs = [b]\<close> by (simp add: mem_fetch_def)
  next
    case False
    have "view m (rip + ucast off) = None"
    proof (rule ccontr)
      assume "view m (rip + ucast off) \<noteq> None"
      then have "\<forall>i < 1. view m (rip + ucast off + of_nat i) \<noteq> None" by simp
      from rd_mapped [OF assms(2) this] r False show False by simp
    qed
    then show ?thesis using that [of s 0 m'] keep r False assms(1) by (simp add: mem_fetch_def)
  qed
qed

text \<open>What a read does is decided by the view.\<close>

lemma read_byte_memory:
  assumes "prov_read p = rd" "over_memory p rip inv view v bs"
  shows "\<exists>x bs'. read_byte bs = (x, bs') \<and> over_memory p rip inv view v bs' \<and>
    (case v (rip + ucast (bs_consumed bs)) of None \<Rightarrow> \<exists>s. x = Inl s \<and> s \<noteq> St_Ok
      | Some b \<Rightarrow> x = Inr b \<and> bs_consumed bs' = bs_consumed bs + 1)"
proof -
  have inv: "inv (bs_ctx bs)" and f: "bs_fetch bs = mem_fetch p rip" and v: "view (bs_ctx bs) = v"
    using assms(2) by (simp_all add: over_memory_def)
  obtain s b m' where "mem_fetch p rip (bs_consumed bs) (bs_ctx bs) = (s, b, m')" "inv m'" "view m' = v"
    "s = St_Ok \<longleftrightarrow> v (rip + ucast (bs_consumed bs)) = Some b" "v (rip + ucast (bs_consumed bs)) = None \<longleftrightarrow> s \<noteq> St_Ok"
    using fetch_view [OF assms(1) inv] unfolding v by metis
  then show ?thesis using f by (cases "s = St_Ok") (auto simp: read_byte_def over_memory_def)
qed

lemma peek_byte_memory:
  assumes "prov_read p = rd" "over_memory p rip inv view v bs"
  shows "\<exists>x bs'. peek_byte 0 bs = (x, bs') \<and> over_memory p rip inv view v bs' \<and> bs_consumed bs' = bs_consumed bs \<and>
    (case v (rip + ucast (bs_consumed bs)) of None \<Rightarrow> \<exists>s. x = Inl s \<and> s \<noteq> St_Ok | Some b \<Rightarrow> x = Inr b)"
proof -
  have inv: "inv (bs_ctx bs)" and f: "bs_fetch bs = mem_fetch p rip" and v: "view (bs_ctx bs) = v"
    using assms(2) by (simp_all add: over_memory_def)
  obtain s b m' where "mem_fetch p rip (bs_consumed bs) (bs_ctx bs) = (s, b, m')" "inv m'" "view m' = v"
    "s = St_Ok \<longleftrightarrow> v (rip + ucast (bs_consumed bs)) = Some b" "v (rip + ucast (bs_consumed bs)) = None \<longleftrightarrow> s \<noteq> St_Ok"
    using fetch_view [OF assms(1) inv] unfolding v by metis
  then show ?thesis using f by (cases "s = St_Ok") (auto simp: peek_byte_def over_memory_def)
qed

lemma run_reader_memory:
  "prov_read p = rd \<Longrightarrow> over_memory p rip inv view v bs \<Longrightarrow>
   \<exists>x bs'. run_reader r bs = (x, bs') \<and> over_memory p rip inv view v bs'"
proof (induction r arbitrary: bs rule: reader_induct)
  case (Read_Byte k)
  obtain x bs' where r: "read_byte bs = (x, bs')" "over_memory p rip inv view v bs'"
    using read_byte_memory [OF Read_Byte.prems] by metis
  then show ?case using Read_Byte.IH [OF Read_Byte.prems(1) r(2)] by (cases x) auto
qed auto

text \<open>A run on a buffer that the memory shows is a run on the memory.\<close>

lemma run_reader_same:
  assumes "prov_read p = rd" "run_reader r bf = (x, bf')" "x \<noteq> Inl St_TruncatedInstruction"
    and "on_buffer data bf" "over_memory p rip inv view v bs" "bs_consumed bs = bs_consumed bf"
    and "\<forall>i < length data. v (rip + of_nat i) = Some (data ! i)"
  shows "\<exists>bs'. run_reader r bs = (x, bs') \<and> over_memory p rip inv view v bs' \<and> bs_consumed bs' = bs_consumed bf'"
  using assms
proof (induction r arbitrary: bf bs rule: reader_induct)
  case (Read_Byte k)
  let ?n = "unat (bs_consumed bf)"
  have less: "?n < length data"
    using Read_Byte.prems read_byte_buffer [OF Read_Byte.prems(4)] by (auto split: if_splits)
  have "v (rip + ucast (bs_consumed bs)) = Some (data ! ?n)"
    using Read_Byte.prems(6,7) less by (metis ucast_unat)
  then obtain bs1 where r: "read_byte bs = (Inr (data ! ?n), bs1)" "over_memory p rip inv view v bs1"
    "bs_consumed bs1 = bs_consumed bf + 1"
    using read_byte_memory [OF Read_Byte.prems(1,5)] Read_Byte.prems(6) by auto
  have b: "run_reader (k (data ! ?n)) (bf\<lparr>bs_consumed := bs_consumed bf + 1\<rparr>) = (x, bf')"
    using Read_Byte.prems(2) read_byte_buffer [OF Read_Byte.prems(4)] less by simp
  have "\<exists>bs'. run_reader (k (data ! ?n)) bs1 = (x, bs') \<and> over_memory p rip inv view v bs' \<and> bs_consumed bs' = bs_consumed bf'"
    by (rule Read_Byte.IH [OF Read_Byte.prems(1) b Read_Byte.prems(3) conjunct1 [OF on_buffer_step [OF Read_Byte.prems(4) less]] r(2)])
      (use r(3) Read_Byte.prems(7) in auto)
  then show ?case using r(1) by simp
qed auto

lemma skip_memory:
  assumes "prov_read p = rd" "over_memory p rip inv view v bs" "v (rip + ucast (bs_consumed bs)) = Some b"
  shows "over_memory p rip inv view v (snd (read_byte bs)) \<and> bs_consumed (snd (read_byte bs)) = bs_consumed bs + 1"
  using read_byte_memory [OF assms(1,2)] assms(3) by auto

lemma scan_loop_same:
  assumes "prov_read p = rd" "scan_loop px bf = Some (x, bf')" "x \<noteq> Inl St_TruncatedInstruction"
    and "on_buffer data bf" "over_memory p rip inv view v bs" "bs_consumed bs = bs_consumed bf"
    and "\<forall>i < length data. v (rip + of_nat i) = Some (data ! i)"
  shows "\<exists>bs'. scan_loop px bs = Some (x, bs') \<and> over_memory p rip inv view v bs' \<and> bs_consumed bs' = bs_consumed bf'"
  using assms
proof (induction "length data - unat (bs_consumed bf)" arbitrary: px bf bs rule: less_induct)
  case less
  let ?n = "unat (bs_consumed bf)"
  have n: "?n < length data"
    using less.prems(2,3) peek_byte_buffer [OF less.prems(4)] by (subst (asm) scan_loop.simps) (auto split: if_splits)
  have vn: "v (rip + ucast (bs_consumed bs)) = Some (data ! ?n)"
    using less.prems(6,7) n by (metis ucast_unat)
  obtain bs1 where pk: "peek_byte 0 bs = (Inr (data ! ?n), bs1)" "over_memory p rip inv view v bs1"
    "bs_consumed bs1 = bs_consumed bf"
    using peek_byte_memory [OF less.prems(1,5)] less.prems(6) vn by auto
  have v1: "v (rip + ucast (bs_consumed bs1)) = Some (data ! ?n)" using vn pk(3) less.prems(6) by simp
  note skip = skip_memory [OF less.prems(1) pk(2) v1]
  let ?bf1 = "bf\<lparr>bs_consumed := bs_consumed bf + 1\<rparr>"
  note step = on_buffer_step [OF less.prems(4) n]
  have rb: "snd (read_byte bf) = ?bf1" using read_byte_buffer [OF less.prems(4)] n by simp
  show ?case
  proof (cases "legacy_prefix (data ! ?n) px")
    case (Some px')
    have go: "scan_loop px' ?bf1 = Some (x, bf')"
      using less.prems(2) peek_byte_buffer [OF less.prems(4)] n Some rb by (subst (asm) scan_loop.simps) simp
    have "\<exists>bs'. scan_loop px' (snd (read_byte bs1)) = Some (x, bs') \<and> over_memory p rip inv view v bs' \<and> bs_consumed bs' = bs_consumed bf'"
      by (rule less.hyps [OF _ less.prems(1) go less.prems(3) conjunct1 [OF step] conjunct1 [OF skip] _ less.prems(7)])
        (use step n skip pk(3) in auto)
    then show ?thesis using pk Some by (subst scan_loop.simps) simp
  next
    case None
    have t: "scan_tail (data ! ?n) px bf = (x, bf')"
      using less.prems(2) peek_byte_buffer [OF less.prems(4)] n None by (subst (asm) scan_loop.simps) simp
    have "\<exists>bs'. scan_tail (data ! ?n) px bs1 = (x, bs') \<and> over_memory p rip inv view v bs' \<and> bs_consumed bs' = bs_consumed bf'"
    proof (cases "vex_or_rex (data ! ?n) px")
      case (Some r)
      have "run_reader r ?bf1 = (x, bf')" using t Some rb by (simp add: scan_tail_def)
      from run_reader_same [OF less.prems(1) this less.prems(3) conjunct1 [OF step] conjunct1 [OF skip] _ less.prems(7)]
      show ?thesis using Some skip pk(3) by (simp add: scan_tail_def)
    qed (use t pk in \<open>auto simp: scan_tail_def\<close>)
    then show ?thesis using pk None by (subst scan_loop.simps) simp
  qed
qed

text \<open>What the decoder of buffers makes of bytes that the memory shows, \<open>decode_one\<close> makes of the memory.\<close>

lemma decode_one_same:
  assumes "prov_read p = rd" "inv m" "length data \<le> 15" "\<forall>i < length data. view m (rip + of_nat i) = Some (data ! i)"
    and "decode_bytes (Some data) rip = Some x" "x \<noteq> Inl St_TruncatedInstruction"
  shows "\<exists>m'. decode_one p rip m = Some (x, m') \<and> inv m' \<and> view m' = view m"
proof -
  let ?bf = "\<lparr>bs_fetch = buf_fetch data, bs_ctx = (), bs_consumed = 0\<rparr>"
  let ?bs = "\<lparr>bs_fetch = mem_fetch p rip, bs_ctx = m, bs_consumed = 0\<rparr>"
  have bf: "on_buffer data ?bf" using assms(3) by (simp add: on_buffer_def)
  have bs: "over_memory p rip inv view (view m) ?bs" using assms(2) by (simp add: over_memory_def)
  have "data \<noteq> []" using assms(5,6) by (auto simp: decode_bytes_def)
  then obtain bf' where d: "decode_with_source ?bf rip = Some (x, bf')"
    using assms(3,5) by (cases data) (auto simp: decode_bytes_def)
  obtain y bf1 where s: "scan_loop no_prefixes ?bf = Some (y, bf1)" "on_buffer data bf1"
    using scan_loop_buffer [OF bf] by blast
  have y: "y \<noteq> Inl St_TruncatedInstruction"
    using d s assms(6) by (auto simp: decode_with_source_def scan_prefixes_def)
  obtain bs1 where m: "scan_loop no_prefixes ?bs = Some (y, bs1)" "over_memory p rip inv view (view m) bs1"
    "bs_consumed bs1 = bs_consumed bf1"
    using scan_loop_same [OF assms(1) s(1) y bf bs _ assms(4)] by auto
  have "\<exists>bs'. decode_with_source ?bs rip = Some (x, bs') \<and> over_memory p rip inv view (view m) bs'"
  proof (cases y)
    case (Inl e)
    then show ?thesis using d s m by (auto simp: decode_with_source_def scan_prefixes_def)
  next
    case (Inr px)
    let ?r = "decode_after_prefixes px (start_insn px rip)"
    obtain z bf2 where r: "run_reader ?r bf1 = (z, bf2)" by (metis prod.exhaust)
    have "z \<noteq> Inl St_TruncatedInstruction"
      using d s Inr r assms(6) by (auto simp: decode_with_source_def scan_prefixes_def)
    from run_reader_same [OF assms(1) r this s(2) m(2,3) assms(4)]
    obtain bs2 where "run_reader ?r bs1 = (z, bs2)" "over_memory p rip inv view (view m) bs2" "bs_consumed bs2 = bs_consumed bf2"
      by blast
    then show ?thesis using d s m Inr r
      by (cases z) (auto simp: decode_with_source_def scan_prefixes_def over_memory_def)
  qed
  then show ?thesis by (auto simp: decode_one_def over_memory_def)
qed

text \<open>Every decoded instruction is well-formed, and the view is left alone.\<close>

lemma scan_tail_memory:
  assumes "prov_read p = rd" "scan_tail b px bs = (x, bs')" "over_memory p rip inv view v bs"
  shows "over_memory p rip inv view v bs' \<and> x \<noteq> Inl St_Ok"
proof (cases "vex_or_rex b px")
  case (Some r)
  have skip: "over_memory p rip inv view v (snd (read_byte bs))" using read_byte_memory [OF assms(1,3)] by auto
  have "run_reader r (snd (read_byte bs)) = (x, bs')" using assms(2) Some by (simp add: scan_tail_def)
  then show ?thesis using run_reader_memory [OF assms(1) skip, of r] run_reader_always vex_or_rex_always [OF Some] by force
qed (use assms in \<open>auto simp: scan_tail_def\<close>)

lemma scan_loop_memory:
  assumes "prov_read p = rd" "scan_loop px bs = Some (x, bs')" "over_memory p rip inv view v bs"
  shows "over_memory p rip inv view v bs' \<and> x \<noteq> Inl St_Ok"
proof -
  have "over_memory p rip inv view v bs \<longrightarrow> (case y of (x, bs') \<Rightarrow> over_memory p rip inv view v bs' \<and> x \<noteq> Inl St_Ok)"
    if "scan_loop px bs = Some y" for y
    using that
  proof (rule scan_loop.raw_induct [rotated])
    fix scan px bs y
    assume ih: "\<And>px bs y. scan px bs = Some y \<Longrightarrow>
        over_memory p rip inv view v bs \<longrightarrow> (case y of (x, bs') \<Rightarrow> over_memory p rip inv view v bs' \<and> x \<noteq> Inl St_Ok)"
      and body: "(case peek_byte 0 bs of
        (Inl s, bs) \<Rightarrow> Some (Inl s, bs)
      | (Inr b, bs) \<Rightarrow> (case legacy_prefix b px of Some px \<Rightarrow> scan px (snd (read_byte bs)) | None \<Rightarrow> Some (scan_tail b px bs))) = Some y"
    show "over_memory p rip inv view v bs \<longrightarrow> (case y of (x, bs') \<Rightarrow> over_memory p rip inv view v bs' \<and> x \<noteq> Inl St_Ok)"
    proof
      assume o: "over_memory p rip inv view v bs"
      obtain q bs1 where pk: "peek_byte 0 bs = (q, bs1)" "over_memory p rip inv view v bs1" "q \<noteq> Inl St_Ok"
        using peek_byte_memory [OF assms(1) o] by (auto split: option.splits)
      have skip: "over_memory p rip inv view v (snd (read_byte bs1))" using read_byte_memory [OF assms(1) pk(2)] by auto
      show "case y of (x, bs') \<Rightarrow> over_memory p rip inv view v bs' \<and> x \<noteq> Inl St_Ok"
        using body pk skip scan_tail_memory [OF assms(1) _ pk(2)] ih [of _ "snd (read_byte bs1)" y]
        by (cases q; cases y) (auto split: option.splits)
    qed
  qed
  from this [OF assms(2)] assms(3) show ?thesis by simp
qed

lemma decode_one_keeps:
  assumes "prov_read p = rd" "inv m" "decode_one p rip m = Some (x, m')"
  shows "inv m' \<and> view m' = view m"
proof -
  let ?bs = "\<lparr>bs_fetch = mem_fetch p rip, bs_ctx = m, bs_consumed = 0\<rparr>"
  have bs: "over_memory p rip inv view (view m) ?bs" using assms(2) by (simp add: over_memory_def)
  obtain bs' where d: "decode_with_source ?bs rip = Some (x, bs')" "m' = bs_ctx bs'"
    using assms(3) by (auto simp: decode_one_def)
  obtain y bs1 where s: "scan_loop no_prefixes ?bs = Some (y, bs1)"
    using d(1) by (auto simp: decode_with_source_def scan_prefixes_def split: option.splits)
  note s1 = scan_loop_memory [OF assms(1) s bs]
  show ?thesis
  proof (cases y)
    case (Inl e)
    then show ?thesis using d s s1 by (auto simp: decode_with_source_def scan_prefixes_def over_memory_def)
  next
    case (Inr px)
    let ?r = "decode_after_prefixes px (start_insn px rip)"
    obtain z bs2 where r: "run_reader ?r bs1 = (z, bs2)" by (metis prod.exhaust)
    have "over_memory p rip inv view (view m) bs2" using run_reader_memory [OF assms(1) conjunct1 [OF s1], of ?r] r by auto
    then show ?thesis
      using d s Inr r by (cases z) (auto simp: decode_with_source_def scan_prefixes_def over_memory_def)
  qed
qed

section \<open>When the prefix loop ends\<close>

lemma all_prefixes_loop:
  assumes "prov_read p = rd" "\<forall>k :: u8. \<exists>b. v (rip + ucast k) = Some b \<and> is_legacy b" "over_memory p rip inv view v bs"
  shows "scan_loop px bs = None"
proof -
  have "\<not> over_memory p rip inv view v bs" if "scan_loop px bs = Some y" for y
    using that
  proof (rule scan_loop.raw_induct [rotated])
    fix scan px bs y
    assume ih: "\<And>px bs y. scan px bs = Some y \<Longrightarrow> \<not> over_memory p rip inv view v bs"
      and body: "(case peek_byte 0 bs of
        (Inl s, bs) \<Rightarrow> Some (Inl s, bs)
      | (Inr b, bs) \<Rightarrow> (case legacy_prefix b px of Some px \<Rightarrow> scan px (snd (read_byte bs)) | None \<Rightarrow> Some (scan_tail b px bs))) = Some y"
    show "\<not> over_memory p rip inv view v bs"
    proof
      assume o: "over_memory p rip inv view v bs"
      obtain b where b: "v (rip + ucast (bs_consumed bs)) = Some b" "is_legacy b" using assms(2) by blast
      obtain bs1 where pk: "peek_byte 0 bs = (Inr b, bs1)" "over_memory p rip inv view v bs1"
        using peek_byte_memory [OF assms(1) o] b by auto
      have skip: "over_memory p rip inv view v (snd (read_byte bs1))" using read_byte_memory [OF assms(1) pk(2)] by auto
      obtain px' where "legacy_prefix b px = Some px'" using b(2) legacy_prefix_iff [of b px] by blast
      then show False using body pk ih skip by auto
    qed
  qed
  then show ?thesis using assms(3) by (cases "scan_loop px bs") auto
qed

lemma other_byte_ends:
  fixes k :: u8
  assumes "prov_read p = rd" "over_memory p rip inv view v bs"
    and "\<forall>b. v (rip + ucast k) = Some b \<longrightarrow> \<not> is_legacy b"
  shows "scan_loop px bs \<noteq> None"
  using assms(2)
proof (induction "unat (k - bs_consumed bs)" arbitrary: px bs rule: less_induct)
  case less
  obtain q bs1 where pk: "peek_byte 0 bs = (q, bs1)" "over_memory p rip inv view v bs1" "bs_consumed bs1 = bs_consumed bs"
    "case v (rip + ucast (bs_consumed bs)) of None \<Rightarrow> \<exists>s. q = Inl s \<and> s \<noteq> St_Ok | Some b \<Rightarrow> q = Inr b"
    using peek_byte_memory [OF assms(1) less.prems] by blast
  show ?case
  proof (cases "\<exists>b px'. v (rip + ucast (bs_consumed bs)) = Some b \<and> legacy_prefix b px = Some px'")
    case False
    then show ?thesis using pk by (subst scan_loop.simps) (auto split: option.splits)
  next
    case True
    then obtain b px' where b: "v (rip + ucast (bs_consumed bs)) = Some b" "legacy_prefix b px = Some px'" by blast
    then have "is_legacy b" using legacy_prefix_iff [of b px] by simp
    then have "bs_consumed bs \<noteq> k" using b(1) assms(3) by auto
    then have "0 < unat (k - bs_consumed bs)" by (simp add: unat_gt_0)
    moreover have "v (rip + ucast (bs_consumed bs1)) = Some b" using b(1) pk(3) by simp
    note skip = skip_memory [OF assms(1) pk(2) this]
    ultimately have "unat (k - bs_consumed (snd (read_byte bs1))) < unat (k - bs_consumed bs)"
      using pk(3) by (metis diff_diff_add measure_unat unat_gt_0)
    from less.hyps [OF this conjunct1 [OF skip], of px'] show ?thesis
      using b pk by (subst scan_loop.simps) auto
  qed
qed

lemma decode_one_hangs_iff:
  assumes "prov_read p = rd" "inv m"
  shows "decode_one p rip m = None \<longleftrightarrow> (\<forall>k :: u8. \<exists>b. view m (rip + ucast k) = Some b \<and> is_legacy b)"
proof -
  let ?bs = "\<lparr>bs_fetch = mem_fetch p rip, bs_ctx = m, bs_consumed = 0\<rparr>"
  have bs: "over_memory p rip inv view (view m) ?bs" using assms(2) by (simp add: over_memory_def)
  have "decode_one p rip m = None \<longleftrightarrow> scan_loop no_prefixes ?bs = None"
    by (auto simp: decode_one_def decode_with_source_def scan_prefixes_def split: option.splits prod.splits sum.splits)
  moreover have "scan_loop no_prefixes ?bs = None \<longleftrightarrow> (\<forall>k :: u8. \<exists>b. view m (rip + ucast k) = Some b \<and> is_legacy b)"
  proof
    assume none: "scan_loop no_prefixes ?bs = None"
    show "\<forall>k :: u8. \<exists>b. view m (rip + ucast k) = Some b \<and> is_legacy b"
    proof (rule ccontr)
      assume "\<not> ?thesis"
      then obtain k :: u8 where "\<forall>b. view m (rip + ucast k) = Some b \<longrightarrow> \<not> is_legacy b" by blast
      from other_byte_ends [OF assms(1) bs this] none show False by (rule notE)
    qed
  next
    assume "\<forall>k :: u8. \<exists>b. view m (rip + ucast k) = Some b \<and> is_legacy b"
    from all_prefixes_loop [OF assms(1) this bs] show "scan_loop no_prefixes ?bs = None" .
  qed
  ultimately show ?thesis by (rule trans)
qed

end

section \<open>The decoder on the provider chain\<close>

text \<open>C20: Over the provider chain, \<open>decode_one\<close> decodes the bytes that the guest sees exactly as \<open>decode_bytes\<close>
  decodes a buffer of them, errors included, and leaves what the guest sees unchanged.\<close>

theorem decode_one_chain:
  assumes "chain_inv m" "length data \<le> 15" "\<forall>i < length data. chain_view m (rip + of_nat i) = Some (data ! i)"
    and "decode_bytes (Some data) rip = Some x" "x \<noteq> Inl St_TruncatedInstruction"
  shows "\<exists>m'. decode_one chain_provider rip m = Some (x, m') \<and> chain_inv m' \<and> chain_view m' = chain_view m"
  by (rule chain.decode_one_same [OF refl assms])

text \<open>A chain over writable memory with the given bytes at an address.\<close>

definition code_at :: "GuestAddr \<Rightarrow> u8 list \<Rightarrow> chain" where
  "code_at a bs = snd (chain_write a bs (new_chain sample_shadow))"

lemma code_at_view:
  assumes "length bs \<le> 2 ^ 32"
  shows "chain_inv (code_at a bs)" "\<forall>i < length bs. chain_view (code_at a bs) (a + of_nat i) = Some (bs ! i)"
proof -
  obtain c where w: "chain_write a bs (new_chain sample_shadow) = (St_Ok, c)"
    using sample_write [of a bs] by (cases "chain_write a bs (new_chain sample_shadow)") simp
  note inv = new_chain_inv [OF sample_shadow_inv]
  show "chain_inv (code_at a bs)" using chain.wr_inv [OF inv w assms] w by (simp add: code_at_def)
  show "\<forall>i < length bs. chain_view (code_at a bs) (a + of_nat i) = Some (bs ! i)"
    using chain.wr_in [OF inv w assms] w by (simp add: code_at_def)
qed

theorem decode_one_chain_witness:
  "\<exists>i m. decode_one chain_provider 0x10000 (code_at 0x10000 [0x48, 0x01, 0xD8]) = Some (Inr i, m) \<and> i_handler i = HArith H_add"
proof -
  define i where "i = zero_insn\<lparr>i_handler := HArith H_add, i_kind := Op_Add, i_op_size := 8, i_len := 3, i_cond := Cc_None,
    i_rip := 0x10000, i_dst := make_reg RAX, i_src := make_reg RBX\<rparr>"
  have "decode_bytes (Some [0x48, 0x01, 0xD8]) 0x10000 = Some (Inr i)" unfolding i_def by code_simp
  note at = code_at_view [of "[0x48, 0x01, 0xD8]" "0x10000"]
  have "\<exists>m'. decode_one chain_provider 0x10000 (code_at 0x10000 [0x48, 0x01, 0xD8]) = Some (Inr i, m')"
    using decode_one_chain [OF at(1) _ at(2) \<open>decode_bytes _ _ = _\<close>] by auto
  then show ?thesis by (auto simp: i_def)
qed

text \<open>C21: Over the provider chain, \<open>decode_one\<close> fails to return exactly when all 256 bytes from the instruction
  address on are mapped and are legacy prefixes: no prefix limit ends the scan, and the 8-bit offset wraps.\<close>

theorem decode_one_hangs:
  assumes "chain_inv m"
  shows "decode_one chain_provider rip m = None \<longleftrightarrow> (\<forall>k :: u8. \<exists>b. chain_view m (rip + ucast k) = Some b \<and> is_legacy b)"
  by (rule chain.decode_one_hangs_iff [OF refl assms])

theorem decode_one_hangs_witness: "decode_one chain_provider 0x10000 (code_at 0x10000 (replicate 256 0x66)) = None"
proof -
  have "\<exists>b. chain_view (code_at 0x10000 (replicate 256 0x66)) (0x10000 + ucast k) = Some b \<and> is_legacy b" for k :: u8
  proof -
    have "unat k < 256" using unsigned_less [of k, where ?'a = nat] by simp
    then have "chain_view (code_at 0x10000 (replicate 256 0x66)) (0x10000 + of_nat (unat k)) = Some (replicate 256 0x66 ! unat k)"
      using code_at_view(2) [of "replicate 256 0x66" "0x10000", THEN spec, of "unat k"] by simp
    then have "chain_view (code_at 0x10000 (replicate 256 0x66)) (0x10000 + ucast k) = Some 0x66"
      using \<open>unat k < 256\<close> unfolding ucast_unat by simp
    then show ?thesis by (simp add: is_legacy_def)
  qed
  then show ?thesis using decode_one_hangs [OF code_at_view(1), of "replicate 256 0x66" "0x10000" "0x10000"] by simp
qed

text \<open>
  The decoder as the total function that block decoding takes; where \<open>decode_one\<close> does not return it is given
  the status \<open>St_Internal\<close>, which the code never returns from a decoder.
\<close>

definition memory_decoder :: "'m decoder" where
  "memory_decoder p rip m =
     (case decode_one p rip m of
        None \<Rightarrow> (St_Internal, zero_insn, m)
      | Some (Inl s, m') \<Rightarrow> (s, zero_insn, m')
      | Some (Inr i, m') \<Rightarrow> (St_Ok, i, m'))"

text \<open>A well-formed instruction at its own address.\<close>

definition decoded :: "insn \<Rightarrow> bool" where
  "decoded i \<longleftrightarrow> decoded_ok (i_rip i) i"

lemma memory_decoder_ok:
  assumes "memory_decoder p rip m = (St_Ok, i, m')"
  shows "decoded i" "i_rip i = rip"
proof -
  obtain x where d: "decode_one p rip m = Some (x, m')" "x = Inr i \<or> x = Inl St_Ok"
    using assms by (auto simp: memory_decoder_def split: option.splits sum.splits)
  then obtain bs' where "decode_with_source \<lparr>bs_fetch = mem_fetch p rip, bs_ctx = m, bs_consumed = 0\<rparr> rip = Some (x, bs')"
    by (auto simp: decode_one_def)
  from decode_with_source_sound [OF this] d(2) have "decoded_ok rip i" by auto
  then show "decoded i" "i_rip i = rip" by (simp_all add: decoded_ok_def decoded_def)
qed

lemma decode_loop_decoded:
  "decode_loop memory_decoder p n cur b m = (s, b', m') \<Longrightarrow> \<forall>i \<in> set (b_insns b). decoded i \<Longrightarrow> \<forall>i \<in> set (b_insns b'). decoded i"
proof (induction n arbitrary: cur b m)
  case (Suc n)
  obtain t i m1 where d: "memory_decoder p cur m = (t, i, m1)" by (metis prod_cases3)
  show ?case
  proof (cases "t = St_Ok")
    case True
    let ?b = "b\<lparr>b_insns := b_insns b @ [i], b_byte_size := b_byte_size b + ucast (i_len i)\<rparr>"
    have ok: "\<forall>i \<in> set (b_insns ?b). decoded i" using Suc.prems(2) memory_decoder_ok(1) [OF d [unfolded True]] by auto
    show ?thesis
    proof (cases "i_flags i AND INSN_FLAG_CONTROL_FLOW \<noteq> 0")
      case True
      then have "b' = ?b" using Suc.prems(1) d \<open>t = St_Ok\<close> by (simp add: Let_def)
      then show ?thesis using ok by simp
    next
      case False
      then have "decode_loop memory_decoder p n (cur + ucast (i_len i)) ?b m1 = (s, b', m')"
        using Suc.prems(1) d \<open>t = St_Ok\<close> by (simp add: Let_def)
      from Suc.IH [OF this ok] show ?thesis .
    qed
  qed (use Suc.prems d in \<open>auto split: if_splits\<close>)
qed simp

lemma marked_folded: "marked (make_nop i) = marked i" "marked (make_jmp i) = marked i"
  by (simp_all add: marked_def make_nop_def make_jmp_def)

lemma decoded_make_nop:
  assumes "decoded i" "is_self_mov i \<or> is_self_xchg i \<or> is_self_lea i"
  shows "decoded (make_nop i)"
proof -
  have "i_kind i = Op_Mov \<or> i_kind i = Op_Xchg \<or> i_kind i = Op_Lea"
    using assms(2) by (auto simp: is_self_mov_def is_self_xchg_def is_self_lea_def)
  then have "i_handler i = HMove H_mov \<or> i_handler i = HMove H_xchg \<or> i_handler i = HMove H_lea"
    using assms(1) by (auto simp: decoded_def decoded_ok_def kind_binds_def)
  then have "\<not> ends_block (i_handler i)" by (auto simp: ends_block_def)
  then have "\<not> marked i" using assms(1) by (simp add: decoded_def decoded_ok_def)
  then show ?thesis
    using marked_folded(1) [of i] by (simp add: decoded_def decoded_ok_def kind_binds_def make_nop_def ends_block_def two_operand_def)
qed

lemma decoded_make_jmp:
  assumes "decoded i" "i_kind i = Op_Jcc"
  shows "decoded (make_jmp i)"
proof -
  have "i_handler i = HFlow H_jcc" using assms by (simp add: decoded_def decoded_ok_def kind_binds_def)
  then have "marked i" using assms(1) by (simp add: decoded_def decoded_ok_def ends_block_def)
  then show ?thesis
    using marked_folded(2) [of i] by (simp add: decoded_def decoded_ok_def kind_binds_def make_jmp_def ends_block_def two_operand_def)
qed

lemma fold_opaque_jcc_decoded: "\<forall>i \<in> set is. decoded i \<Longrightarrow> \<forall>i \<in> set (fst (fold_opaque_jcc is n)). decoded i"
proof (induction "is" n rule: fold_opaque_jcc.induct)
  case (1 a b "is" n)
  let ?c = "xor_self a \<and> i_kind b = Op_Jcc \<and> always_taken (i_cond b)"
  show ?case
  proof (cases ?c)
    case True
    have "\<forall>i \<in> set (make_jmp b # is). decoded i" using 1(2) True decoded_make_jmp [of b] by simp
    from 1(1) [OF _ refl this, of "n + 1"] True 1(2) show ?thesis by (simp add: split_beta)
  next
    case False
    have "\<forall>i \<in> set (b # is). decoded i" using 1(2) by simp
    from 1(1) [OF _ refl this, of n] False 1(2) show ?thesis by (simp add: split_beta) blast
  qed
qed simp_all

lemma peephole_decoded:
  assumes "peephole_block b n = (b', n')" "\<forall>i \<in> set (b_insns b). decoded i"
  shows "\<forall>i \<in> set (b_insns b'). decoded i"
proof -
  have "\<forall>i \<in> set (fst (fold_selfs (b_insns b) n)). decoded i"
    using assms(2) decoded_make_nop by (auto simp: fold_selfs_map)
  from fold_opaque_jcc_decoded [OF this] assms(1) show ?thesis
    by (auto simp: peephole_block_def split_beta)
qed

text \<open>C18: A block decoded from a memory is never empty, holds at most the requested number of instructions, starts
  at its address, its instructions follow one another without gaps over exactly its byte size, each has a
  handler, and only the handler of the last one can leave the block.  The peephole pass keeps all of it.\<close>

theorem code_block_shape:
  assumes "0 < n" "decode_block memory_decoder p pc n k m = (St_Ok, b, k', m')"
  shows "b_pc b = pc \<and> b_insns b \<noteq> [] \<and> length (b_insns b) \<le> n \<and> contiguous pc (b_insns b) \<and>
    b_byte_size b = of_nat (total_len (b_insns b)) \<and> (\<forall>i \<in> set (b_insns b). known_handler (i_handler i)) \<and>
    (\<forall>i \<in> set (butlast (b_insns b)). \<not> ends_block (i_handler i))"
proof -
  have "dec_places memory_decoder" by (auto simp: dec_places_def dest: memory_decoder_ok(2))
  note shape = decode_block_shape [OF this assms]
  let ?b0 = "\<lparr>b_pc = pc, b_byte_size = 0, b_insns = []\<rparr>"
  obtain s c m1 where "decode_loop memory_decoder p n pc ?b0 m = (s, c, m1)" "peephole_block c k = (b, k')"
    using assms(2) by (auto simp: decode_block_def split: if_splits prod.splits)
  then have ok: "\<forall>i \<in> set (b_insns b). decoded i" using decode_loop_decoded peephole_decoded by fastforce
  have "\<not> ends_block (i_handler i)" if "i \<in> set (butlast (b_insns b))" for i
    using that shape ok in_set_butlastD [OF that] by (auto simp: straight_def decoded_def decoded_ok_def marked_def)
  then show ?thesis using shape ok by (auto simp: decoded_def decoded_ok_def)
qed

theorem code_block_shape_witness:
  "\<exists>b k m. decode_block memory_decoder chain_provider 0x10000 3 0 (code_at 0x10000 [0xC3]) = (St_Ok, b, k, m) \<and>
     b_insns b \<noteq> [] \<and> length (b_insns b) \<le> 3"
proof -
  define i where "i = zero_insn\<lparr>i_handler := HFlow H_ret, i_kind := Op_Ret, i_op_size := 8, i_len := 1, i_cond := Cc_None,
    i_flags := 1, i_rip := 0x10000\<rparr>"
  have "decode_bytes (Some [0xC3]) 0x10000 = Some (Inr i)" unfolding i_def by code_simp
  note at = code_at_view [of "[0xC3]" "0x10000"]
  obtain m where "decode_one chain_provider 0x10000 (code_at 0x10000 [0xC3]) = Some (Inr i, m)"
    using chain.decode_one_same [OF refl at(1) _ at(2) \<open>decode_bytes _ _ = _\<close>] by auto
  then have d: "memory_decoder chain_provider 0x10000 (code_at 0x10000 [0xC3]) = (St_Ok, i, m)"
    by (simp add: memory_decoder_def)
  obtain s b k m2 where b: "decode_block memory_decoder chain_provider 0x10000 3 0 (code_at 0x10000 [0xC3]) = (s, b, k, m2)"
    by (metis prod_cases4)
  have "s = St_Ok" using b d by (simp add: decode_block_def eval_nat_numeral i_def Let_def split: prod.splits)
  then show ?thesis using code_block_shape [of 3, OF _ b [unfolded \<open>s = St_Ok\<close>]] b by auto
qed

end
