(* ===== verification/Vector_Access.thy ===== *)
theory Vector_Access
  imports Operand_Access
begin

text \<open>
  Vector registers and vector operands.  The bytes of the ZMM registers are \<^verbatim>\<open>zmm_[32][64]\<close> of the CPU; XMM and
  YMM are their low 16 and 32 bytes.  Each handler file has its own copy of the helpers that read or
  write a vector operand; the copies differ in the notes of their faults and in what they do with an
  operand that is neither a vector register nor memory, which \<open>vec_rules\<close> records.
\<close>

section \<open>Registers as bytes\<close>

text \<open>\<open>memcpy\<close> out of and into a register.\<close>

definition zmm_bytes :: "'m cpu \<Rightarrow> u8 \<Rightarrow> nat \<Rightarrow> u8 list" where
  "zmm_bytes c r n = map (c_zmm c r) [0..<n]"

definition set_zmm_bytes :: "u8 \<Rightarrow> u8 list \<Rightarrow> 'm cpu \<Rightarrow> 'm cpu" where
  "set_zmm_bytes r bs c =
     c\<lparr>c_zmm := (c_zmm c)(r := (\<lambda>i. if i < length bs then bs ! i else c_zmm c r i))\<rparr>"

text \<open>A buffer of \<open>n\<close> bytes that starts out as zeros and receives \<open>bs\<close>.\<close>

definition padded :: "nat \<Rightarrow> u8 list \<Rightarrow> u8 list" where
  "padded n bs = take n bs @ replicate (n - length bs) 0"

section \<open>Vector operands\<close>

record vec_rules =
  vr_read_note :: string
  vr_write_note :: string
  vr_bad_src :: "string option"
  vr_bad_dst :: "string option"

text \<open>
  A provider call for \<open>n\<close> bytes.  The buffer is only used when the call succeeds, and then the provider
  has stored all of it.
\<close>

definition vec_load :: "string \<Rightarrow> 'm env \<Rightarrow> GuestAddr \<Rightarrow> nat \<Rightarrow> 'm cpu \<Rightarrow> u8 list option \<times> 'm cpu" where
  "vec_load note env addr n c =
     (case e_mem_read env of
        None \<Rightarrow> (None, set_fault FK_ProviderFailure (c_rip c) St_ProviderFailure note c)
      | Some p \<Rightarrow>
          (case prov_read p addr n (c_mem c) of
             (s, bs, m) \<Rightarrow>
               (let c = c\<lparr>c_mem := m\<rparr>
                in if fail s then (None, set_fault FK_PageFault addr s note c) else (Some (padded n bs), c))))"

definition vec_store :: "string \<Rightarrow> 'm env \<Rightarrow> GuestAddr \<Rightarrow> u8 list \<Rightarrow> 'm cpu \<Rightarrow> 'm cpu" where
  "vec_store note env addr v c =
     (case e_mem_write env of
        None \<Rightarrow> set_fault FK_ProviderFailure (c_rip c) St_ProviderFailure note c
      | Some p \<Rightarrow>
          (case prov_write p addr v (c_mem c) of
             (s, m) \<Rightarrow>
               (let c = c\<lparr>c_mem := m\<rparr> in if fail s then set_fault (kind_from_status s) addr s note c else c)))"

definition is_mem :: "operand \<Rightarrow> bool" where
  "is_mem op \<longleftrightarrow> o_kind op = OK_Mem \<or> o_kind op = OK_RipRelMem"

definition read_vec_by ::
  "vec_rules \<Rightarrow> 'm env \<Rightarrow> insn \<Rightarrow> operand \<Rightarrow> nat \<Rightarrow> 'm cpu \<Rightarrow> u8 list option \<times> 'm cpu" where
  "read_vec_by vr env i op n c =
     (if o_kind op = OK_Xmm then (Some (zmm_bytes c (o_reg op) n), c)
      else
        (case vr_bad_src vr of
           Some note \<Rightarrow>
             if is_mem op then vec_load (vr_read_note vr) env (ea c i op) n c
             else (None, set_fault FK_InvalidOpcode (c_rip c) St_InvalidInstruction note c)
         | None \<Rightarrow> vec_load (vr_read_note vr) env (ea c i op) n c))"

definition write_vec_by ::
  "vec_rules \<Rightarrow> 'm env \<Rightarrow> insn \<Rightarrow> operand \<Rightarrow> u8 list \<Rightarrow> 'm cpu \<Rightarrow> 'm cpu" where
  "write_vec_by vr env i op v c =
     (if o_kind op = OK_Xmm then set_zmm_bytes (o_reg op) v c
      else
        (case vr_bad_dst vr of
           Some note \<Rightarrow>
             if is_mem op then vec_store (vr_write_note vr) env (ea c i op) v c
             else set_fault FK_InvalidOpcode (c_rip c) St_InvalidInstruction note c
         | None \<Rightarrow> vec_store (vr_write_note vr) env (ea c i op) v c))"

text \<open>Read the destination and the source, combine them, write the destination.\<close>

definition vec_binary ::
  "vec_rules \<Rightarrow> 'm env \<Rightarrow> insn \<Rightarrow> nat \<Rightarrow> (u8 list \<Rightarrow> u8 list \<Rightarrow> u8 list) \<Rightarrow> 'm cpu \<Rightarrow> 'm cpu" where
  "vec_binary vr env i n f c =
     read_then (read_vec_by vr env i (i_dst i) n c) (\<lambda>a c.
     read_then (read_vec_by vr env i (i_src i) n c) (\<lambda>b c.
       write_vec_by vr env i (i_dst i) (f a b) c))"

text \<open>Read the source, map it, write the destination.\<close>

definition vec_unary ::
  "vec_rules \<Rightarrow> 'm env \<Rightarrow> insn \<Rightarrow> nat \<Rightarrow> (u8 list \<Rightarrow> u8 list) \<Rightarrow> 'm cpu \<Rightarrow> 'm cpu" where
  "vec_unary vr env i n f c =
     read_then (read_vec_by vr env i (i_src i) n c) (\<lambda>a c. write_vec_by vr env i (i_dst i) (f a) c)"

section \<open>Elements\<close>

text \<open>
  The \<open>k\<close>-th element of \<open>w\<close> bytes, as bytes, as a number and as a signed number.  The code assembles an
  element into an integer of its width; here it is a 64-bit number, and storing it keeps its \<open>w\<close> low
  bytes, which is the same for sums, differences, products and shifts to the left.
\<close>

definition elem :: "nat \<Rightarrow> nat \<Rightarrow> u8 list \<Rightarrow> u8 list" where
  "elem w k bs = take w (drop (w * k) bs)"

definition lane :: "nat \<Rightarrow> nat \<Rightarrow> u8 list \<Rightarrow> u64" where
  "lane w k bs = le_value (elem w k bs)"

definition signed_of :: "nat \<Rightarrow> u64 \<Rightarrow> int" where
  "signed_of w v = signed_take_bit (8 * w - 1) (uint v)"

definition per_elem1 :: "nat \<Rightarrow> (u8 list \<Rightarrow> u8 list) \<Rightarrow> u8 list \<Rightarrow> u8 list" where
  "per_elem1 w f a = concat (map (\<lambda>k. f (elem w k a)) [0..<length a div w])"

definition per_elem :: "nat \<Rightarrow> (u8 list \<Rightarrow> u8 list \<Rightarrow> u8 list) \<Rightarrow> u8 list \<Rightarrow> u8 list \<Rightarrow> u8 list" where
  "per_elem w f a b = concat (map (\<lambda>k. f (elem w k a) (elem w k b)) [0..<length a div w])"

definition per_lane1 :: "nat \<Rightarrow> (u64 \<Rightarrow> u64) \<Rightarrow> u8 list \<Rightarrow> u8 list" where
  "per_lane1 w f = per_elem1 w (\<lambda>x. le_bytes w (f (le_value x)))"

definition per_lane :: "nat \<Rightarrow> (u64 \<Rightarrow> u64 \<Rightarrow> u64) \<Rightarrow> u8 list \<Rightarrow> u8 list \<Rightarrow> u8 list" where
  "per_lane w f = per_elem w (\<lambda>x y. le_bytes w (f (le_value x) (le_value y)))"

definition per_slane :: "nat \<Rightarrow> (int \<Rightarrow> int \<Rightarrow> int) \<Rightarrow> u8 list \<Rightarrow> u8 list \<Rightarrow> u8 list" where
  "per_slane w f = per_lane w (\<lambda>x y. word_of_int (f (signed_of w x) (signed_of w y)))"

section \<open>Facts\<close>

lemma length_zmm_bytes [simp]: "length (zmm_bytes c r n) = n"
  by (simp add: zmm_bytes_def)

lemma nth_zmm_bytes [simp]: "k < n \<Longrightarrow> zmm_bytes c r n ! k = c_zmm c r k"
  by (simp add: zmm_bytes_def)

lemma length_padded [simp]: "length (padded n bs) = n"
  by (simp add: padded_def)

lemma padded_full: "length bs = n \<Longrightarrow> padded n bs = bs"
  by (simp add: padded_def)

lemma zmm_bytes_set [simp]:
  "zmm_bytes (set_zmm_bytes r bs c) r' n =
     (if r' = r then take n bs @ map (c_zmm c r) [length bs..<n] else zmm_bytes c r' n)"
  by (rule nth_equalityI) (auto simp: zmm_bytes_def set_zmm_bytes_def nth_append)

text \<open>The parts of the CPU that a register write leaves alone.\<close>

lemma set_zmm_bytes_frame [simp]:
  "reg (set_zmm_bytes r bs c) = reg c" "c_rflags (set_zmm_bytes r bs c) = c_rflags c"
  "c_mem (set_zmm_bytes r bs c) = c_mem c" "c_rip (set_zmm_bytes r bs c) = c_rip c"
  "c_fault (set_zmm_bytes r bs c) = c_fault c" "c_cc_op (set_zmm_bytes r bs c) = c_cc_op c"
  by (simp_all add: set_zmm_bytes_def reg_def fun_eq_iff)

lemma length_read_vec: "read_vec_by vr env i op n c = (Some bs, c') \<Longrightarrow> length bs = n"
  by (auto simp: read_vec_by_def vec_load_def Let_def split: if_splits option.splits prod.splits)

lemma read_vec_reg [simp]: "o_kind op = OK_Xmm \<Longrightarrow> read_vec_by vr env i op n c = (Some (zmm_bytes c (o_reg op) n), c)"
  by (simp add: read_vec_by_def)

lemma write_vec_reg [simp]: "o_kind op = OK_Xmm \<Longrightarrow> write_vec_by vr env i op v c = set_zmm_bytes (o_reg op) v c"
  by (simp add: write_vec_by_def)

lemma vec_binary_reg:
  "o_kind (i_dst i) = OK_Xmm \<Longrightarrow> o_kind (i_src i) = OK_Xmm \<Longrightarrow>
   vec_binary vr env i n f c =
     set_zmm_bytes (o_reg (i_dst i)) (f (zmm_bytes c (o_reg (i_dst i)) n) (zmm_bytes c (o_reg (i_src i)) n)) c"
  by (simp add: vec_binary_def)

lemma vec_unary_reg:
  "o_kind (i_dst i) = OK_Xmm \<Longrightarrow> o_kind (i_src i) = OK_Xmm \<Longrightarrow>
   vec_unary vr env i n f c = set_zmm_bytes (o_reg (i_dst i)) (f (zmm_bytes c (o_reg (i_src i)) n)) c"
  by (simp add: vec_unary_def)

lemma length_concat_const: "(\<And>x. x \<in> set xs \<Longrightarrow> length (g x) = w) \<Longrightarrow> length (concat (map g xs)) = w * length xs"
  by (induction xs) auto

lemma nth_concat_const:
  "(\<And>x. x \<in> set xs \<Longrightarrow> length (g x) = w) \<Longrightarrow> j < w * length xs \<Longrightarrow> concat (map g xs) ! j = g (xs ! (j div w)) ! (j mod w)"
proof (induction xs arbitrary: j)
  case (Cons x xs)
  show ?case
  proof (cases "j < w")
    case True
    then show ?thesis using Cons.prems(1) [of x] by (simp add: nth_append)
  next
    case False
    then have w: "w \<noteq> 0" "length (g x) = w" using Cons.prems by (auto intro: gr0I)
    have j: "j = (j - w) + w" using False by simp
    have "concat (map g xs) ! (j - w) = g (xs ! ((j - w) div w)) ! ((j - w) mod w)"
      by (rule Cons.IH) (use Cons.prems False in auto)
    moreover have "j div w = Suc ((j - w) div w)" "j mod w = (j - w) mod w"
      using w False by (simp_all add: le_div_geq le_mod_geq)
    ultimately show ?thesis using False w by (simp add: nth_append)
  qed
qed simp

lemma nth_elem: "j < w \<Longrightarrow> w * k + j < length bs \<Longrightarrow> elem w k bs ! j = bs ! (w * k + j)"
  by (simp add: elem_def nth_drop)

lemma elem_concat:
  assumes "\<And>x. x \<in> set xs \<Longrightarrow> length (g x) = w" "k < length xs"
  shows "elem w k (concat (map g xs)) = g (xs ! k)"
proof (rule nth_equalityI)
  have l: "length (concat (map g xs)) = w * length xs" by (rule length_concat_const) (rule assms(1))
  have "w * k + w \<le> w * length xs"
    using mult_le_mono2 [of "Suc k" "length xs" w] assms(2) by simp
  then show len: "length (elem w k (concat (map g xs))) = length (g (xs ! k))"
    using assms by (simp add: elem_def l)
  fix j assume "j < length (elem w k (concat (map g xs)))"
  then have j: "j < w" using len assms by simp
  then have "w * k + j < w * length xs" using \<open>w * k + w \<le> w * length xs\<close> by linarith
  with nth_concat_const [of xs g w "w * k + j"] assms(1) j
  show "elem w k (concat (map g xs)) ! j = g (xs ! k) ! j" by (simp add: nth_elem l)
qed

lemma elem_per_elem:
  assumes "\<And>x y. length (f x y) = w" "k < length a div w"
  shows "elem w k (per_elem w f a b) = f (elem w k a) (elem w k b)"
  using elem_concat [of "[0..<length a div w]" "\<lambda>k. f (elem w k a) (elem w k b)" w k] assms by (simp add: per_elem_def)

lemma elem_per_elem1:
  assumes "\<And>x. length (f x) = w" "k < length a div w"
  shows "elem w k (per_elem1 w f a) = f (elem w k a)"
  using elem_concat [of "[0..<length a div w]" "\<lambda>k. f (elem w k a)" w k] assms by (simp add: per_elem1_def)

lemma length_per_elem: "(\<And>x y. length (f x y) = w) \<Longrightarrow> length (per_elem w f a b) = w * (length a div w)"
  unfolding per_elem_def by (subst length_concat_const) auto

lemma length_per_elem1: "(\<And>x. length (f x) = w) \<Longrightarrow> length (per_elem1 w f a) = w * (length a div w)"
  unfolding per_elem1_def by (subst length_concat_const) auto

lemma length_per_lane [simp]:
  "length (per_lane w f a b) = w * (length a div w)" "length (per_lane1 w g a) = w * (length a div w)"
  "length (per_slane w h a b) = w * (length a div w)"
  by (simp_all add: per_lane_def per_lane1_def per_slane_def length_per_elem length_per_elem1)

lemma lane_per_lane:
  "w \<le> 8 \<Longrightarrow> k < length a div w \<Longrightarrow> lane w k (per_lane w f a b) = take_bit (8 * w) (f (lane w k a) (lane w k b))"
  by (simp add: lane_def per_lane_def elem_per_elem le_value_le_bytes)

lemma lane_per_lane1:
  "w \<le> 8 \<Longrightarrow> k < length a div w \<Longrightarrow> lane w k (per_lane1 w f a) = take_bit (8 * w) (f (lane w k a))"
  by (simp add: lane_def per_lane1_def elem_per_elem1 le_value_le_bytes)

lemma lane_range: "w \<le> 8 \<Longrightarrow> take_bit (8 * w) (lane w k bs) = lane w k bs"
  by (rule bit_word_eqI) (auto simp: lane_def elem_def bit_simps bit_le_value)

text \<open>Byte sequences are determined by their elements.\<close>

lemma elems_eqI:
  assumes "0 < w" "length a = length b" "w dvd length a" "\<And>k. k < length a div w \<Longrightarrow> elem w k a = elem w k b"
  shows "a = b"
proof (rule nth_equalityI)
  show "length a = length b" by (rule assms(2))
  fix j assume j: "j < length a"
  have nth: "elem w (j div w) xs ! (j mod w) = xs ! j" if "length xs = length a" for xs
    using that j assms(1) by (subst nth_elem) auto
  have "j div w < length a div w"
    using j assms(1,3) by (metis dvd_div_mult_self div_less_iff_less_mult)
  then show "a ! j = b ! j" using nth [of a] nth [of b] assms(2,4) by metis
qed

text \<open>An instruction on two vector registers.\<close>

definition xmm_op :: "u8 \<Rightarrow> operand" where
  "xmm_op r = zero_operand\<lparr>o_kind := OK_Xmm, o_reg := r\<rparr>"

definition xmm_insn :: "u8 \<Rightarrow> u8 \<Rightarrow> insn" where
  "xmm_insn d s = plain_insn 16 (xmm_op d) (xmm_op s)"

lemma xmm_insn_fields [simp]:
  "o_kind (i_dst (xmm_insn d s)) = OK_Xmm" "o_kind (i_src (xmm_insn d s)) = OK_Xmm"
  "o_reg (i_dst (xmm_insn d s)) = d" "o_reg (i_src (xmm_insn d s)) = s"
  by (simp_all add: xmm_insn_def xmm_op_def)

end
