(* ===== verification/Packed_Integer.thy ===== *)
theory Packed_Integer
  imports Vector_Access
begin

text \<open>
  The packed integer handlers: \<^verbatim>\<open>src/emu/handlers/sse.cpp\<close>, the SSE part of \<^verbatim>\<open>src/emu/handlers/misc.cpp\<close> and
  the integer part of \<^verbatim>\<open>src/emu/handlers/sse4_aes.cpp\<close>.  A handler reads 16-byte operands, maps them and
  writes 16 bytes; what it does to the bytes is a function of its own here.
\<close>

section \<open>Operand rules of the files\<close>

definition sse_rules :: vec_rules where
  "sse_rules = \<lparr>vr_read_note = ''xmm read'', vr_write_note = ''xmm write'',
     vr_bad_src = Some ''bad xmm src'', vr_bad_dst = Some ''bad xmm dst''\<rparr>"

definition misc_rules :: vec_rules where
  "misc_rules = \<lparr>vr_read_note = ''xmm read'', vr_write_note = ''xmm write'',
     vr_bad_src = Some ''bad src'', vr_bad_dst = Some ''bad dst''\<rparr>"

definition sse4_rules :: vec_rules where
  "sse4_rules = \<lparr>vr_read_note = ''read16'', vr_write_note = ''write16'', vr_bad_src = None, vr_bad_dst = None\<rparr>"

definition read_xmm16 :: "'m env \<Rightarrow> insn \<Rightarrow> operand \<Rightarrow> 'm cpu \<Rightarrow> u8 list option \<times> 'm cpu" where
  "read_xmm16 env i op c = read_vec_by sse_rules env i op 16 c"

definition write_xmm16 :: "'m env \<Rightarrow> insn \<Rightarrow> operand \<Rightarrow> u8 list \<Rightarrow> 'm cpu \<Rightarrow> 'm cpu" where
  "write_xmm16 env i op v c = write_vec_by sse_rules env i op v c"

definition read_xmm :: "'m env \<Rightarrow> insn \<Rightarrow> operand \<Rightarrow> 'm cpu \<Rightarrow> u8 list option \<times> 'm cpu" where
  "read_xmm env i op c = read_vec_by misc_rules env i op 16 c"

definition write_xmm :: "'m env \<Rightarrow> insn \<Rightarrow> operand \<Rightarrow> u8 list \<Rightarrow> 'm cpu \<Rightarrow> 'm cpu" where
  "write_xmm env i op v c = write_vec_by misc_rules env i op v c"

definition read16 :: "'m env \<Rightarrow> insn \<Rightarrow> operand \<Rightarrow> 'm cpu \<Rightarrow> u8 list option \<times> 'm cpu" where
  "read16 env i op c = read_vec_by sse4_rules env i op 16 c"

definition write16 :: "'m env \<Rightarrow> insn \<Rightarrow> operand \<Rightarrow> u8 list \<Rightarrow> 'm cpu \<Rightarrow> 'm cpu" where
  "write16 env i op v c = write_vec_by sse4_rules env i op v c"

definition binary_xmm :: "'m env \<Rightarrow> insn \<Rightarrow> (u8 list \<Rightarrow> u8 list \<Rightarrow> u8 list) \<Rightarrow> 'm cpu \<Rightarrow> 'm cpu" where
  "binary_xmm env i f c = vec_binary sse_rules env i 16 f c"

lemmas vec_access_defs =
  read_xmm16_def write_xmm16_def read_xmm_def write_xmm_def read16_def write16_def binary_xmm_def

text \<open>The selector byte of an instruction.\<close>

definition imm8 :: "insn \<Rightarrow> u8" where
  "imm8 i = ucast (i_imm_extra i AND 0xFF)"

section \<open>Moves, logic and arithmetic (sse.cpp)\<close>

definition op_movdqa :: "'m env \<Rightarrow> insn \<Rightarrow> 'm cpu \<Rightarrow> 'm cpu" where
  "op_movdqa env i c = read_then (read_xmm16 env i (i_src i) c) (\<lambda>v c. write_xmm16 env i (i_dst i) v c)"

definition op_movdqu :: "'m env \<Rightarrow> insn \<Rightarrow> 'm cpu \<Rightarrow> 'm cpu" where
  "op_movdqu env i c = op_movdqa env i c"

definition op_pxor :: "'m env \<Rightarrow> insn \<Rightarrow> 'm cpu \<Rightarrow> 'm cpu" where
  "op_pxor env i c = binary_xmm env i (map2 (XOR)) c"

definition op_pand :: "'m env \<Rightarrow> insn \<Rightarrow> 'm cpu \<Rightarrow> 'm cpu" where
  "op_pand env i c = binary_xmm env i (map2 (AND)) c"

definition op_por :: "'m env \<Rightarrow> insn \<Rightarrow> 'm cpu \<Rightarrow> 'm cpu" where
  "op_por env i c = binary_xmm env i (map2 (OR)) c"

definition op_paddb :: "'m env \<Rightarrow> insn \<Rightarrow> 'm cpu \<Rightarrow> 'm cpu" where
  "op_paddb env i c = binary_xmm env i (map2 (+)) c"

definition op_paddw :: "'m env \<Rightarrow> insn \<Rightarrow> 'm cpu \<Rightarrow> 'm cpu" where
  "op_paddw env i c = binary_xmm env i (per_lane 2 (+)) c"

definition op_paddd :: "'m env \<Rightarrow> insn \<Rightarrow> 'm cpu \<Rightarrow> 'm cpu" where
  "op_paddd env i c = binary_xmm env i (per_lane 4 (+)) c"

definition op_paddq :: "'m env \<Rightarrow> insn \<Rightarrow> 'm cpu \<Rightarrow> 'm cpu" where
  "op_paddq env i c = binary_xmm env i (per_lane 8 (+)) c"

definition op_psubb :: "'m env \<Rightarrow> insn \<Rightarrow> 'm cpu \<Rightarrow> 'm cpu" where
  "op_psubb env i c = binary_xmm env i (map2 (-)) c"

definition op_psubw :: "'m env \<Rightarrow> insn \<Rightarrow> 'm cpu \<Rightarrow> 'm cpu" where
  "op_psubw env i c = binary_xmm env i (per_lane 2 (-)) c"

definition op_psubd :: "'m env \<Rightarrow> insn \<Rightarrow> 'm cpu \<Rightarrow> 'm cpu" where
  "op_psubd env i c = binary_xmm env i (per_lane 4 (-)) c"

definition op_psubq :: "'m env \<Rightarrow> insn \<Rightarrow> 'm cpu \<Rightarrow> 'm cpu" where
  "op_psubq env i c = binary_xmm env i (per_lane 8 (-)) c"

text \<open>The doubleword of \<open>s\<close> that two bits of the selector pick.\<close>

definition pick32 :: "u8 list \<Rightarrow> u8 \<Rightarrow> u8 list" where
  "pick32 s sel = elem 4 (unat (sel AND 3)) s"

definition op_pshufd :: "'m env \<Rightarrow> insn \<Rightarrow> 'm cpu \<Rightarrow> 'm cpu" where
  "op_pshufd env i c =
     read_then (read_xmm16 env i (i_src i) c) (\<lambda>s c.
       write_xmm16 env i (i_dst i) (concat (map (\<lambda>k. pick32 s (drop_bit (2 * k) (imm8 i))) [0..<4])) c)"

definition all_ones_if :: "nat \<Rightarrow> bool \<Rightarrow> u8 list" where
  "all_ones_if w b = replicate w (if b then 0xFF else 0)"

definition op_pcmpeqb :: "'m env \<Rightarrow> insn \<Rightarrow> 'm cpu \<Rightarrow> 'm cpu" where
  "op_pcmpeqb env i c = binary_xmm env i (per_elem 1 (\<lambda>x y. all_ones_if 1 (x = y))) c"

definition op_pcmpeqw :: "'m env \<Rightarrow> insn \<Rightarrow> 'm cpu \<Rightarrow> 'm cpu" where
  "op_pcmpeqw env i c = binary_xmm env i (per_elem 2 (\<lambda>x y. all_ones_if 2 (x = y))) c"

definition op_pcmpeqd :: "'m env \<Rightarrow> insn \<Rightarrow> 'm cpu \<Rightarrow> 'm cpu" where
  "op_pcmpeqd env i c = binary_xmm env i (per_elem 4 (\<lambda>x y. all_ones_if 4 (x = y))) c"

text \<open>MOVD and MOVQ: the buffer of 16 zero bytes receives the operand.\<close>

definition op_movd_to_xmm :: "'m env \<Rightarrow> insn \<Rightarrow> 'm cpu \<Rightarrow> 'm cpu" where
  "op_movd_to_xmm env i c =
     read_then (read_operand env i (i_src i) (i_op_size i) c) (\<lambda>v c.
       set_zmm_bytes (o_reg (i_dst i)) (padded 16 (le_bytes (unat (i_op_size i)) v)) c)"

definition op_movd_from_xmm :: "'m env \<Rightarrow> insn \<Rightarrow> 'm cpu \<Rightarrow> 'm cpu" where
  "op_movd_from_xmm env i c =
     (if o_kind (i_dst i) = OK_Xmm \<and> o_kind (i_src i) = OK_Xmm \<and> i_op_size i = 8 then
        set_zmm_bytes (o_reg (i_dst i)) (padded 16 (zmm_bytes c (o_reg (i_src i)) 8)) c
      else if o_kind (i_dst i) = OK_Xmm \<and> is_mem (i_src i) \<and> i_op_size i = 8 then
        (let addr = ea c i (i_src i)
         in case e_mem_read env of
              None \<Rightarrow> set_fault FK_PageFault addr St_ProviderFailure ''movq xmm m64'' c
            | Some p \<Rightarrow>
                (case prov_read p addr 8 (c_mem c) of
                   (s, bs, m) \<Rightarrow>
                     (let c = c\<lparr>c_mem := m\<rparr>
                      in if fail s then set_fault FK_PageFault addr St_ProviderFailure ''movq xmm m64'' c
                         else set_zmm_bytes (o_reg (i_dst i)) (padded 16 (take 8 bs)) c)))
      else
        snd (write_operand env i (i_dst i) (i_op_size i) (le_value (zmm_bytes c (o_reg (i_src i)) (unat (i_op_size i)))) c))"

section \<open>Masks, shuffles, products and shifts (misc.cpp)\<close>

text \<open>A number with the given bits, the lowest first.\<close>

definition bits_value :: "bool list \<Rightarrow> u64" where
  "bits_value bs = horner_sum of_bool 2 bs"

definition op_pmovmskb :: "'m env \<Rightarrow> insn \<Rightarrow> 'm cpu \<Rightarrow> 'm cpu" where
  "op_pmovmskb env i c =
     read_then (read_xmm env i (i_src i) c) (\<lambda>s c.
       set_r64 (o_reg (i_dst i)) (bits_value (map (\<lambda>k. s ! k AND 0x80 \<noteq> 0) [0..<16])) c)"

definition op_movmskps :: "'m env \<Rightarrow> insn \<Rightarrow> 'm cpu \<Rightarrow> 'm cpu" where
  "op_movmskps env i c =
     read_then (read_xmm env i (i_src i) c) (\<lambda>s c.
       set_r64 (o_reg (i_dst i)) (bits_value (map (\<lambda>k. s ! (4 * k + 3) AND 0x80 \<noteq> 0) [0..<4])) c)"

definition op_movmskpd :: "'m env \<Rightarrow> insn \<Rightarrow> 'm cpu \<Rightarrow> 'm cpu" where
  "op_movmskpd env i c =
     read_then (read_xmm env i (i_src i) c) (\<lambda>s c.
       set_r64 (o_reg (i_dst i)) (bits_value [s ! 7 AND 0x80 \<noteq> 0, s ! 15 AND 0x80 \<noteq> 0]) c)"

definition op_shufps :: "'m env \<Rightarrow> insn \<Rightarrow> 'm cpu \<Rightarrow> 'm cpu" where
  "op_shufps env i c =
     read_then (read_xmm env i (i_dst i) c) (\<lambda>a c.
     read_then (read_xmm env i (i_src i) c) (\<lambda>b c.
       let imm = imm8 i
       in write_xmm env i (i_dst i)
            (pick32 a imm @ pick32 a (drop_bit 2 imm) @ pick32 b (drop_bit 4 imm) @ pick32 b (drop_bit 6 imm)) c))"

definition op_shufpd :: "'m env \<Rightarrow> insn \<Rightarrow> 'm cpu \<Rightarrow> 'm cpu" where
  "op_shufpd env i c =
     read_then (read_xmm env i (i_dst i) c) (\<lambda>a c.
     read_then (read_xmm env i (i_src i) c) (\<lambda>b c.
       let imm = imm8 i
       in write_xmm env i (i_dst i) (elem 8 (if bit imm 0 then 1 else 0) a @ elem 8 (if bit imm 1 then 1 else 0) b) c))"

definition shuffle_bytes :: "u8 list \<Rightarrow> u8 list \<Rightarrow> u8 list" where
  "shuffle_bytes d s = map (\<lambda>x. if x AND 0x80 \<noteq> 0 then 0 else d ! unat (x AND 0x0F)) s"

definition op_pshufb :: "'m env \<Rightarrow> insn \<Rightarrow> 'm cpu \<Rightarrow> 'm cpu" where
  "op_pshufb env i c =
     read_then (read_xmm env i (i_dst i) c) (\<lambda>d c.
     read_then (read_xmm env i (i_src i) c) (\<lambda>s c. write_xmm env i (i_dst i) (shuffle_bytes d s) c))"

text \<open>Four words of \<open>s\<close> from the offset \<open>off\<close> on, as the selector picks them.\<close>

definition shuffle_words :: "u8 \<Rightarrow> u8 list \<Rightarrow> u8 list" where
  "shuffle_words imm s = concat (map (\<lambda>k. elem 2 (unat (drop_bit (2 * k) imm AND 3)) s) [0..<4])"

definition op_pshufhw :: "'m env \<Rightarrow> insn \<Rightarrow> 'm cpu \<Rightarrow> 'm cpu" where
  "op_pshufhw env i c =
     read_then (read_xmm env i (i_src i) c) (\<lambda>s c.
       write_xmm env i (i_dst i) (take 8 s @ shuffle_words (imm8 i) (drop 8 s)) c)"

definition op_pshuflw :: "'m env \<Rightarrow> insn \<Rightarrow> 'm cpu \<Rightarrow> 'm cpu" where
  "op_pshuflw env i c =
     read_then (read_xmm env i (i_src i) c) (\<lambda>s c.
       write_xmm env i (i_dst i) (shuffle_words (imm8 i) (take 8 s) @ drop 8 s) c)"

definition packed_mul16 :: "'m env \<Rightarrow> insn \<Rightarrow> (u64 \<Rightarrow> u64 \<Rightarrow> u64) \<Rightarrow> 'm cpu \<Rightarrow> 'm cpu" where
  "packed_mul16 env i f c = vec_binary misc_rules env i 16 (per_lane 2 f) c"

definition op_pmullw :: "'m env \<Rightarrow> insn \<Rightarrow> 'm cpu \<Rightarrow> 'm cpu" where
  "op_pmullw env i c = packed_mul16 env i (\<lambda>a b. a * b AND 0xFFFF) c"

definition op_pmulhw :: "'m env \<Rightarrow> insn \<Rightarrow> 'm cpu \<Rightarrow> 'm cpu" where
  "op_pmulhw env i c =
     packed_mul16 env i (\<lambda>a b. ucast (drop_bit 16 (word_of_int (signed_of 2 a * signed_of 2 b) :: u32)) AND 0xFFFF) c"

definition op_pmulhuw :: "'m env \<Rightarrow> insn \<Rightarrow> 'm cpu \<Rightarrow> 'm cpu" where
  "op_pmulhuw env i c = packed_mul16 env i (\<lambda>a b. drop_bit 16 (a * b) AND 0xFFFF) c"

text \<open>The sum of two products is taken in 32 bits; \<open>2 * (-32768)\<^sup>2\<close> does not fit and wraps.\<close>

definition madd_pair :: "u8 list \<Rightarrow> u8 list \<Rightarrow> u8 list" where
  "madd_pair x y =
     le_bytes 4 (word_of_int (signed_of 2 (lane 2 0 x) * signed_of 2 (lane 2 0 y) +
       signed_of 2 (lane 2 1 x) * signed_of 2 (lane 2 1 y)))"

definition op_pmaddwd :: "'m env \<Rightarrow> insn \<Rightarrow> 'm cpu \<Rightarrow> 'm cpu" where
  "op_pmaddwd env i c = vec_binary misc_rules env i 16 (per_elem 4 madd_pair) c"

text \<open>The count: the immediate or the lowest byte of a vector register, and 0 for a memory operand.\<close>

definition shift_count_from :: "'m cpu \<Rightarrow> insn \<Rightarrow> u8" where
  "shift_count_from c i =
     (if o_kind (i_src i) = OK_Imm then imm8 i
      else if o_kind (i_src i) = OK_Xmm then c_zmm c (o_reg (i_src i)) 0 else 0)"

definition packed_shift :: "'m env \<Rightarrow> insn \<Rightarrow> nat \<Rightarrow> (nat \<Rightarrow> u64 \<Rightarrow> u64) \<Rightarrow> 'm cpu \<Rightarrow> 'm cpu" where
  "packed_shift env i w f c =
     read_then (read_xmm env i (i_dst i) c) (\<lambda>d c.
       write_xmm env i (i_dst i) (per_lane1 w (f (unat (shift_count_from c i))) d) c)"

text \<open>Shifts of an element of \<open>w\<close> bytes by \<open>n\<close>.\<close>

definition lane_shl :: "nat \<Rightarrow> nat \<Rightarrow> u64 \<Rightarrow> u64" where
  "lane_shl w n v = (if 8 * w \<le> n then 0 else push_bit n v)"

definition lane_shr :: "nat \<Rightarrow> nat \<Rightarrow> u64 \<Rightarrow> u64" where
  "lane_shr w n v = (if 8 * w \<le> n then 0 else drop_bit n v)"

definition lane_sar :: "nat \<Rightarrow> nat \<Rightarrow> u64 \<Rightarrow> u64" where
  "lane_sar w n v = word_of_int (drop_bit (if 8 * w \<le> n then 8 * w - 1 else n) (signed_of w v))"

definition op_psllw :: "'m env \<Rightarrow> insn \<Rightarrow> 'm cpu \<Rightarrow> 'm cpu" where
  "op_psllw env i c = packed_shift env i 2 (lane_shl 2) c"

definition op_pslld :: "'m env \<Rightarrow> insn \<Rightarrow> 'm cpu \<Rightarrow> 'm cpu" where
  "op_pslld env i c = packed_shift env i 4 (lane_shl 4) c"

definition op_psllq :: "'m env \<Rightarrow> insn \<Rightarrow> 'm cpu \<Rightarrow> 'm cpu" where
  "op_psllq env i c = packed_shift env i 8 (lane_shl 8) c"

definition op_psrlw :: "'m env \<Rightarrow> insn \<Rightarrow> 'm cpu \<Rightarrow> 'm cpu" where
  "op_psrlw env i c = packed_shift env i 2 (lane_shr 2) c"

definition op_psrld :: "'m env \<Rightarrow> insn \<Rightarrow> 'm cpu \<Rightarrow> 'm cpu" where
  "op_psrld env i c = packed_shift env i 4 (lane_shr 4) c"

definition op_psrlq :: "'m env \<Rightarrow> insn \<Rightarrow> 'm cpu \<Rightarrow> 'm cpu" where
  "op_psrlq env i c = packed_shift env i 8 (lane_shr 8) c"

definition op_psraw :: "'m env \<Rightarrow> insn \<Rightarrow> 'm cpu \<Rightarrow> 'm cpu" where
  "op_psraw env i c = packed_shift env i 2 (lane_sar 2) c"

definition op_psrad :: "'m env \<Rightarrow> insn \<Rightarrow> 'm cpu \<Rightarrow> 'm cpu" where
  "op_psrad env i c = packed_shift env i 4 (lane_sar 4) c"

text \<open>Interleaving: elements of \<open>w\<close> bytes from the low or the high halves of both operands.\<close>

definition interleave :: "nat \<Rightarrow> bool \<Rightarrow> u8 list \<Rightarrow> u8 list \<Rightarrow> u8 list" where
  "interleave w hi a b =
     (let start = (if hi then 8 else 0)
      in concat (map (\<lambda>k. elem w k (drop start a) @ elem w k (drop start b)) [0..<8 div w]))"

definition unpck :: "'m env \<Rightarrow> insn \<Rightarrow> nat \<Rightarrow> bool \<Rightarrow> 'm cpu \<Rightarrow> 'm cpu" where
  "unpck env i w hi c = vec_binary misc_rules env i 16 (interleave w hi) c"

definition op_punpcklbw :: "'m env \<Rightarrow> insn \<Rightarrow> 'm cpu \<Rightarrow> 'm cpu" where
  "op_punpcklbw env i c = unpck env i 1 False c"

definition op_punpcklwd :: "'m env \<Rightarrow> insn \<Rightarrow> 'm cpu \<Rightarrow> 'm cpu" where
  "op_punpcklwd env i c = unpck env i 2 False c"

definition op_punpckldq :: "'m env \<Rightarrow> insn \<Rightarrow> 'm cpu \<Rightarrow> 'm cpu" where
  "op_punpckldq env i c = unpck env i 4 False c"

definition op_punpcklqdq :: "'m env \<Rightarrow> insn \<Rightarrow> 'm cpu \<Rightarrow> 'm cpu" where
  "op_punpcklqdq env i c = vec_binary misc_rules env i 16 (\<lambda>a b. take 8 a @ take 8 b) c"

definition op_punpckhbw :: "'m env \<Rightarrow> insn \<Rightarrow> 'm cpu \<Rightarrow> 'm cpu" where
  "op_punpckhbw env i c = unpck env i 1 True c"

definition op_punpckhwd :: "'m env \<Rightarrow> insn \<Rightarrow> 'm cpu \<Rightarrow> 'm cpu" where
  "op_punpckhwd env i c = unpck env i 2 True c"

definition op_punpckhdq :: "'m env \<Rightarrow> insn \<Rightarrow> 'm cpu \<Rightarrow> 'm cpu" where
  "op_punpckhdq env i c = unpck env i 4 True c"

definition op_punpckhqdq :: "'m env \<Rightarrow> insn \<Rightarrow> 'm cpu \<Rightarrow> 'm cpu" where
  "op_punpckhqdq env i c = vec_binary misc_rules env i 16 (\<lambda>a b. drop 8 a @ drop 8 b) c"

section \<open>Extraction, comparison and extrema (sse4_aes.cpp)\<close>

definition op_insertps :: "'m env \<Rightarrow> insn \<Rightarrow> 'm cpu \<Rightarrow> 'm cpu" where
  "op_insertps env i c =
     read_then (read16 env i (i_dst i) c) (\<lambda>d c.
     read_then (read16 env i (i_src i) c) (\<lambda>s c.
       let imm = imm8 i; count_s = unat (drop_bit 6 imm AND 3); count_d = unat (drop_bit 4 imm AND 3);
           put = (\<lambda>k. if k = count_d then elem 4 count_s s else elem 4 k d)
       in write16 env i (i_dst i) (concat (map (\<lambda>k. if bit imm k then replicate 4 0 else put k) [0..<4])) c))"

definition op_pextrb :: "'m env \<Rightarrow> insn \<Rightarrow> 'm cpu \<Rightarrow> 'm cpu" where
  "op_pextrb env i c =
     read_then (read16 env i (i_src i) c) (\<lambda>s c.
       snd (write_operand env i (i_dst i) (i_op_size i) (lane 1 (unat (i_imm_extra i AND 0xF)) s) c))"

definition op_pextrw :: "'m env \<Rightarrow> insn \<Rightarrow> 'm cpu \<Rightarrow> 'm cpu" where
  "op_pextrw env i c =
     read_then (read16 env i (i_src i) c) (\<lambda>s c.
       snd (write_operand env i (i_dst i) (i_op_size i) (lane 2 (unat (i_imm_extra i AND 7)) s) c))"

definition op_pextrd :: "'m env \<Rightarrow> insn \<Rightarrow> 'm cpu \<Rightarrow> 'm cpu" where
  "op_pextrd env i c =
     read_then (read16 env i (i_src i) c) (\<lambda>s c.
       snd (write_operand env i (i_dst i) 4 (lane 4 (unat (i_imm_extra i AND 3)) s) c))"

definition op_pextrq :: "'m env \<Rightarrow> insn \<Rightarrow> 'm cpu \<Rightarrow> 'm cpu" where
  "op_pextrq env i c =
     read_then (read16 env i (i_src i) c) (\<lambda>s c.
       snd (write_operand env i (i_dst i) 8 (lane 8 (unat (i_imm_extra i AND 1)) s) c))"

text \<open>The element \<open>k\<close> of \<open>w\<close> bytes replaced.\<close>

definition put_lane :: "nat \<Rightarrow> nat \<Rightarrow> u64 \<Rightarrow> u8 list \<Rightarrow> u8 list" where
  "put_lane w k v d = take (w * k) d @ le_bytes w v @ drop (w * k + w) d"

definition pinsr :: "'m env \<Rightarrow> insn \<Rightarrow> nat \<Rightarrow> u64 \<Rightarrow> 'm cpu \<Rightarrow> 'm cpu" where
  "pinsr env i w lanes c =
     read_then (read16 env i (i_dst i) c) (\<lambda>d c.
     read_then (read_operand env i (i_src i) (of_nat w) c) (\<lambda>v c.
       write16 env i (i_dst i) (put_lane w (unat (i_imm_extra i AND lanes)) v d) c))"

definition op_pinsrb :: "'m env \<Rightarrow> insn \<Rightarrow> 'm cpu \<Rightarrow> 'm cpu" where
  "op_pinsrb env i c = pinsr env i 1 0xF c"

definition op_pinsrw :: "'m env \<Rightarrow> insn \<Rightarrow> 'm cpu \<Rightarrow> 'm cpu" where
  "op_pinsrw env i c = pinsr env i 2 7 c"

definition op_pinsrd :: "'m env \<Rightarrow> insn \<Rightarrow> 'm cpu \<Rightarrow> 'm cpu" where
  "op_pinsrd env i c = pinsr env i 4 3 c"

definition op_pinsrq :: "'m env \<Rightarrow> insn \<Rightarrow> 'm cpu \<Rightarrow> 'm cpu" where
  "op_pinsrq env i c = pinsr env i 8 1 c"

definition greater_elem :: "nat \<Rightarrow> u8 list \<Rightarrow> u8 list \<Rightarrow> u8 list" where
  "greater_elem w x y = all_ones_if w (signed_of w (le_value x) > signed_of w (le_value y))"

definition cmpgt_pack :: "'m env \<Rightarrow> insn \<Rightarrow> nat \<Rightarrow> 'm cpu \<Rightarrow> 'm cpu" where
  "cmpgt_pack env i w c = vec_binary sse4_rules env i 16 (per_elem w (greater_elem w)) c"

definition op_pcmpgtb :: "'m env \<Rightarrow> insn \<Rightarrow> 'm cpu \<Rightarrow> 'm cpu" where
  "op_pcmpgtb env i c = cmpgt_pack env i 1 c"

definition op_pcmpgtw :: "'m env \<Rightarrow> insn \<Rightarrow> 'm cpu \<Rightarrow> 'm cpu" where
  "op_pcmpgtw env i c = cmpgt_pack env i 2 c"

definition op_pcmpgtd :: "'m env \<Rightarrow> insn \<Rightarrow> 'm cpu \<Rightarrow> 'm cpu" where
  "op_pcmpgtd env i c = cmpgt_pack env i 4 c"

definition op_pcmpgtq :: "'m env \<Rightarrow> insn \<Rightarrow> 'm cpu \<Rightarrow> 'm cpu" where
  "op_pcmpgtq env i c = cmpgt_pack env i 8 c"

definition op_pmaxub :: "'m env \<Rightarrow> insn \<Rightarrow> 'm cpu \<Rightarrow> 'm cpu" where
  "op_pmaxub env i c = vec_binary sse4_rules env i 16 (map2 (\<lambda>x y. if x > y then x else y)) c"

definition op_pmaxsw :: "'m env \<Rightarrow> insn \<Rightarrow> 'm cpu \<Rightarrow> 'm cpu" where
  "op_pmaxsw env i c = vec_binary sse4_rules env i 16 (per_slane 2 (\<lambda>x y. if x > y then x else y)) c"

definition op_pminub :: "'m env \<Rightarrow> insn \<Rightarrow> 'm cpu \<Rightarrow> 'm cpu" where
  "op_pminub env i c = vec_binary sse4_rules env i 16 (map2 (\<lambda>x y. if x < y then x else y)) c"

definition op_pminsw :: "'m env \<Rightarrow> insn \<Rightarrow> 'm cpu \<Rightarrow> 'm cpu" where
  "op_pminsw env i c = vec_binary sse4_rules env i 16 (per_slane 2 (\<lambda>x y. if x < y then x else y)) c"

definition abs_lane :: "nat \<Rightarrow> u64 \<Rightarrow> u64" where
  "abs_lane w v = word_of_int \<bar>signed_of w v\<bar>"

definition op_pabsb :: "'m env \<Rightarrow> insn \<Rightarrow> 'm cpu \<Rightarrow> 'm cpu" where
  "op_pabsb env i c = vec_unary sse4_rules env i 16 (per_lane1 1 (abs_lane 1)) c"

definition op_pabsw :: "'m env \<Rightarrow> insn \<Rightarrow> 'm cpu \<Rightarrow> 'm cpu" where
  "op_pabsw env i c = vec_unary sse4_rules env i 16 (per_lane1 2 (abs_lane 2)) c"

definition op_pabsd :: "'m env \<Rightarrow> insn \<Rightarrow> 'm cpu \<Rightarrow> 'm cpu" where
  "op_pabsd env i c = vec_unary sse4_rules env i 16 (per_lane1 4 (abs_lane 4)) c"

text \<open>The sum of the absolute differences of eight bytes, in 16 bits.\<close>

definition sum_diffs :: "u8 list \<Rightarrow> u8 list \<Rightarrow> u16" where
  "sum_diffs a b = sum_list (map2 (\<lambda>x y. word_of_int \<bar>uint x - uint y\<bar>) a b)"

definition op_psadbw :: "'m env \<Rightarrow> insn \<Rightarrow> 'm cpu \<Rightarrow> 'm cpu" where
  "op_psadbw env i c =
     vec_binary sse4_rules env i 16 (per_elem 8 (\<lambda>x y. padded 8 (le_bytes 2 (ucast (sum_diffs x y))))) c"

section \<open>Elements of the results\<close>

lemma per_lane_bytes:
  assumes "length a = length b" "\<And>x y :: u8. ucast (f (ucast x) (ucast y) :: u64) = g x y"
  shows "map2 g a b = per_lane 1 f a b"
proof (rule nth_equalityI)
  show "length (map2 g a b) = length (per_lane 1 f a b)" using assms(1) by simp
  fix j assume "j < length (map2 g a b)"
  then have j: "j < length a" "j < length b" by simp_all
  have "elem 1 j (per_lane 1 f a b) = [g (a ! j) (b ! j)]"
    using j by (simp add: per_lane_def elem_per_elem) (simp add: elem_def take_Suc_conv_app_nth take_Suc hd_drop_conv_nth le_bytes_def
      assms(2) [symmetric] mask_literals, rule bit_word_eqI, simp add: bit_simps)
  then show "map2 g a b ! j = per_lane 1 f a b ! j"
    using nth_elem [of 0 1 j "per_lane 1 f a b"] j by simp
qed

lemma ucast_add_sub:
  "ucast (ucast x + ucast y :: u64) = (x + y :: u8)" "ucast (ucast x - ucast y :: u64) = (x - y :: u8)"
proof -
  have m: "a mod 18446744073709551616 mod 256 = a mod 256" for a :: int by (rule mod_mod_cancel) simp
  have p: "(a mod 18446744073709551616 + b mod 18446744073709551616) mod 256 = (a + b) mod 256"
    "(a mod 18446744073709551616 - b mod 18446744073709551616) mod 256 = (a - b) mod 256" for a b :: int
    by (metis m mod_add_eq, metis m mod_diff_eq)
  show "ucast (ucast x + ucast y :: u64) = x + y" "ucast (ucast x - ucast y :: u64) = x - y"
    by (simp_all add: word_uint_eq_iff unsigned_ucast_eq uint_word_ariths take_bit_eq_mod m p uint_up_ucast is_up)
qed

lemma map2_lanes:
  assumes "length (a :: u8 list) = length b"
  shows "map2 (+) a b = per_lane 1 (+) a b" "map2 (-) a b = per_lane 1 (-) a b"
  by (rule per_lane_bytes [OF assms], rule ucast_add_sub)+

lemma uint_lanes:
  assumes "w \<le> 8" "k < length a div w"
  shows "uint (lane w k (per_lane w (+) a b)) = (uint (lane w k a) + uint (lane w k b)) mod 2 ^ (8 * w)"
    and "uint (lane w k (per_lane w (-) a b)) = (uint (lane w k a) - uint (lane w k b)) mod 2 ^ (8 * w)"
    and "uint (lane w k a) mod 2 ^ (8 * w) = uint (lane w k a)"
proof -
  have mod: "uint (take_bit (8 * w) (x :: u64)) = uint x mod 2 ^ (8 * w)" for x
    by (simp add: take_bit_eq_mod [symmetric] unsigned_take_bit_eq)
  have "(2 :: int) ^ (8 * w) dvd 2 ^ 64" by (rule le_imp_power_dvd) (use assms(1) in simp)
  then have two: "x mod 18446744073709551616 mod 2 ^ (8 * w) = x mod 2 ^ (8 * w)" for x :: int
    using mod_mod_cancel [of "2 ^ (8 * w)" "2 ^ 64" x] by simp
  show "uint (lane w k (per_lane w (+) a b)) = (uint (lane w k a) + uint (lane w k b)) mod 2 ^ (8 * w)"
    "uint (lane w k (per_lane w (-) a b)) = (uint (lane w k a) - uint (lane w k b)) mod 2 ^ (8 * w)"
    using assms by (simp_all add: lane_per_lane mod uint_word_ariths two)
  show "uint (lane w k a) mod 2 ^ (8 * w) = uint (lane w k a)"
    unfolding mod [symmetric] lane_range [OF assms(1)] ..
qed

lemma elem_eq_lane:
  assumes "w \<le> 8" "length (elem w k a) = w" "length (elem w k b) = w" "lane w k a = lane w k b"
  shows "elem w k a = elem w k b"
  using assms by (metis lane_def le_bytes_le_value)

lemma per_lane_sub_add:
  assumes "0 < w" "w \<le> 8" "w dvd length a"
  shows "per_lane w (-) (per_lane w (+) a b) b = a"
proof (rule elems_eqI [OF assms(1)])
  have len: "w * (length a div w) = length a" using assms(3) by simp
  then show "length (per_lane w (-) (per_lane w (+) a b) b) = length a" by simp
  then show "w dvd length (per_lane w (-) (per_lane w (+) a b) b)" using assms(3) by simp
  fix k assume "k < length (per_lane w (-) (per_lane w (+) a b) b) div w"
  then have k: "k < length a div w" using len by simp
  have "uint (lane w k (per_lane w (-) (per_lane w (+) a b) b)) = uint (lane w k a)"
    using k len assms(2) uint_lanes(3) [OF assms(2) k] by (simp add: uint_lanes mod_diff_left_eq)
  then have "lane w k (per_lane w (-) (per_lane w (+) a b) b) = lane w k a" by (simp add: word_uint_eq_iff)
  then show "elem w k (per_lane w (-) (per_lane w (+) a b) b) = elem w k a"
    using k len assms(2) mult_le_mono2 [of "Suc k" "length a div w" w] by (intro elem_eq_lane) (auto simp: elem_def)
qed

text \<open>The operations with their element sizes.\<close>

definition packed_ops :: "(nat \<times> ('m env \<Rightarrow> insn \<Rightarrow> 'm cpu \<Rightarrow> 'm cpu) \<times> ('m env \<Rightarrow> insn \<Rightarrow> 'm cpu \<Rightarrow> 'm cpu)) set" where
  "packed_ops = {(1, op_paddb, op_psubb), (2, op_paddw, op_psubw), (4, op_paddd, op_psubd), (8, op_paddq, op_psubq)}"

lemma packed_ops_reg:
  assumes "(w, padd, psub) \<in> packed_ops"
  shows "padd env (xmm_insn d s) c = set_zmm_bytes d (per_lane w (+) (zmm_bytes c d 16) (zmm_bytes c s 16)) c"
    and "psub env (xmm_insn d s) c = set_zmm_bytes d (per_lane w (-) (zmm_bytes c d 16) (zmm_bytes c s 16)) c"
    and "0 < w" "w \<le> 8" "w * (16 div w) = 16"
  using assms
  by (auto simp: packed_ops_def op_paddb_def op_paddw_def op_paddd_def op_paddq_def op_psubb_def op_psubw_def op_psubd_def
      op_psubq_def binary_xmm_def vec_binary_reg map2_lanes)

text \<open>PADD and PSUB add and subtract element by element modulo the element width, for all four widths; nothing else
  in the machine changes, and subtracting the same source restores the destination.\<close>

theorem packed_add_sub:
  fixes c :: "'m cpu" and env :: "'m env" and d s :: u8
  assumes "(w, padd, psub) \<in> packed_ops"
  defines "add \<equiv> padd env (xmm_insn d s) c" and "sub \<equiv> psub env (xmm_insn d s) c"
  defines "el \<equiv> \<lambda>r k (c :: 'm cpu). uint (lane w k (zmm_bytes c r 16))"
  shows "(\<forall>k < 16 div w. el d k add = (el d k c + el s k c) mod 2 ^ (8 * w) \<and>
      el d k sub = (el d k c - el s k c) mod 2 ^ (8 * w)) \<and>
    (\<forall>r j. r \<noteq> d \<or> 16 \<le> j \<longrightarrow> c_zmm add r j = c_zmm c r j \<and> c_zmm sub r j = c_zmm c r j) \<and>
    reg add = reg c \<and> reg sub = reg c \<and> c_rflags add = c_rflags c \<and> c_rflags sub = c_rflags c \<and>
    (d \<noteq> s \<longrightarrow> zmm_bytes (psub env (xmm_insn d s) add) d 16 = zmm_bytes c d 16)"
proof (intro conjI allI impI)
  note ops = packed_ops_reg [OF assms(1)]
  let ?a = "zmm_bytes c d 16" and ?b = "zmm_bytes c s 16"
  have bytes: "zmm_bytes add d 16 = per_lane w (+) ?a ?b" "zmm_bytes sub d 16 = per_lane w (-) ?a ?b"
    using ops(5) by (simp_all add: add_def sub_def ops)
  show "reg add = reg c" "reg sub = reg c" "c_rflags add = c_rflags c" "c_rflags sub = c_rflags c"
    by (simp_all add: add_def sub_def ops)
  show "el d k add = (el d k c + el s k c) mod 2 ^ (8 * w)" "el d k sub = (el d k c - el s k c) mod 2 ^ (8 * w)"
    if "k < 16 div w" for k using that ops(4) by (simp_all add: el_def bytes uint_lanes)
  show "c_zmm add r j = c_zmm c r j" "c_zmm sub r j = c_zmm c r j" if "r \<noteq> d \<or> 16 \<le> j" for r j
    using that ops(5) by (auto simp: add_def sub_def ops set_zmm_bytes_def)
  assume "d \<noteq> s"
  then show "zmm_bytes (psub env (xmm_insn d s) add) d 16 = ?a"
    using per_lane_sub_add [OF ops(3,4), of ?a ?b] ops(5) by (simp add: add_def ops dvdI [of _ _ "16 div w"])
qed

theorem packed_add_sub_witness:
  "uint (lane 1 0 (zmm_bytes (op_paddb no_env (xmm_insn 1 2) (set_zmm_bytes 1 [0xFF] (set_zmm_bytes 2 [2] (initial_cpu ())))) 1 16)) = 1"
proof -
  have "(1, op_paddb, op_psubb) \<in> packed_ops" by (simp add: packed_ops_def)
  note p = conjunct1 [OF packed_add_sub [OF this, where d = 1 and s = 2 and env = no_env and c = "set_zmm_bytes 1 [0xFF] (set_zmm_bytes 2 [2] (initial_cpu ()))"]]
  show ?thesis using p [rule_format, of 0] by (simp add: lane_def elem_def zmm_bytes_def set_zmm_bytes_def upt_rec)
qed

end
