(* ===== verification/Crypto.thy ===== *)
theory Crypto
  imports Packed_Integer
begin

text \<open>
  AES, carry-less multiplication, CRC32 and SHA: \<^verbatim>\<open>src/emu/handlers/sse4_aes.cpp\<close> and the SHA part of
  \<^verbatim>\<open>src/emu/handlers/phase10.cpp\<close>.
\<close>

section \<open>AES rounds\<close>

definition SBOX :: "u8 list" where
  "SBOX = [
     0x63, 0x7C, 0x77, 0x7B, 0xF2, 0x6B, 0x6F, 0xC5, 0x30, 0x01, 0x67, 0x2B, 0xFE, 0xD7, 0xAB, 0x76,
     0xCA, 0x82, 0xC9, 0x7D, 0xFA, 0x59, 0x47, 0xF0, 0xAD, 0xD4, 0xA2, 0xAF, 0x9C, 0xA4, 0x72, 0xC0,
     0xB7, 0xFD, 0x93, 0x26, 0x36, 0x3F, 0xF7, 0xCC, 0x34, 0xA5, 0xE5, 0xF1, 0x71, 0xD8, 0x31, 0x15,
     0x04, 0xC7, 0x23, 0xC3, 0x18, 0x96, 0x05, 0x9A, 0x07, 0x12, 0x80, 0xE2, 0xEB, 0x27, 0xB2, 0x75,
     0x09, 0x83, 0x2C, 0x1A, 0x1B, 0x6E, 0x5A, 0xA0, 0x52, 0x3B, 0xD6, 0xB3, 0x29, 0xE3, 0x2F, 0x84,
     0x53, 0xD1, 0x00, 0xED, 0x20, 0xFC, 0xB1, 0x5B, 0x6A, 0xCB, 0xBE, 0x39, 0x4A, 0x4C, 0x58, 0xCF,
     0xD0, 0xEF, 0xAA, 0xFB, 0x43, 0x4D, 0x33, 0x85, 0x45, 0xF9, 0x02, 0x7F, 0x50, 0x3C, 0x9F, 0xA8,
     0x51, 0xA3, 0x40, 0x8F, 0x92, 0x9D, 0x38, 0xF5, 0xBC, 0xB6, 0xDA, 0x21, 0x10, 0xFF, 0xF3, 0xD2,
     0xCD, 0x0C, 0x13, 0xEC, 0x5F, 0x97, 0x44, 0x17, 0xC4, 0xA7, 0x7E, 0x3D, 0x64, 0x5D, 0x19, 0x73,
     0x60, 0x81, 0x4F, 0xDC, 0x22, 0x2A, 0x90, 0x88, 0x46, 0xEE, 0xB8, 0x14, 0xDE, 0x5E, 0x0B, 0xDB,
     0xE0, 0x32, 0x3A, 0x0A, 0x49, 0x06, 0x24, 0x5C, 0xC2, 0xD3, 0xAC, 0x62, 0x91, 0x95, 0xE4, 0x79,
     0xE7, 0xC8, 0x37, 0x6D, 0x8D, 0xD5, 0x4E, 0xA9, 0x6C, 0x56, 0xF4, 0xEA, 0x65, 0x7A, 0xAE, 0x08,
     0xBA, 0x78, 0x25, 0x2E, 0x1C, 0xA6, 0xB4, 0xC6, 0xE8, 0xDD, 0x74, 0x1F, 0x4B, 0xBD, 0x8B, 0x8A,
     0x70, 0x3E, 0xB5, 0x66, 0x48, 0x03, 0xF6, 0x0E, 0x61, 0x35, 0x57, 0xB9, 0x86, 0xC1, 0x1D, 0x9E,
     0xE1, 0xF8, 0x98, 0x11, 0x69, 0xD9, 0x8E, 0x94, 0x9B, 0x1E, 0x87, 0xE9, 0xCE, 0x55, 0x28, 0xDF,
     0x8C, 0xA1, 0x89, 0x0D, 0xBF, 0xE6, 0x42, 0x68, 0x41, 0x99, 0x2D, 0x0F, 0xB0, 0x54, 0xBB, 0x16]"

definition INV_SBOX :: "u8 list" where
  "INV_SBOX = [
     0x52, 0x09, 0x6A, 0xD5, 0x30, 0x36, 0xA5, 0x38, 0xBF, 0x40, 0xA3, 0x9E, 0x81, 0xF3, 0xD7, 0xFB,
     0x7C, 0xE3, 0x39, 0x82, 0x9B, 0x2F, 0xFF, 0x87, 0x34, 0x8E, 0x43, 0x44, 0xC4, 0xDE, 0xE9, 0xCB,
     0x54, 0x7B, 0x94, 0x32, 0xA6, 0xC2, 0x23, 0x3D, 0xEE, 0x4C, 0x95, 0x0B, 0x42, 0xFA, 0xC3, 0x4E,
     0x08, 0x2E, 0xA1, 0x66, 0x28, 0xD9, 0x24, 0xB2, 0x76, 0x5B, 0xA2, 0x49, 0x6D, 0x8B, 0xD1, 0x25,
     0x72, 0xF8, 0xF6, 0x64, 0x86, 0x68, 0x98, 0x16, 0xD4, 0xA4, 0x5C, 0xCC, 0x5D, 0x65, 0xB6, 0x92,
     0x6C, 0x70, 0x48, 0x50, 0xFD, 0xED, 0xB9, 0xDA, 0x5E, 0x15, 0x46, 0x57, 0xA7, 0x8D, 0x9D, 0x84,
     0x90, 0xD8, 0xAB, 0x00, 0x8C, 0xBC, 0xD3, 0x0A, 0xF7, 0xE4, 0x58, 0x05, 0xB8, 0xB3, 0x45, 0x06,
     0xD0, 0x2C, 0x1E, 0x8F, 0xCA, 0x3F, 0x0F, 0x02, 0xC1, 0xAF, 0xBD, 0x03, 0x01, 0x13, 0x8A, 0x6B,
     0x3A, 0x91, 0x11, 0x41, 0x4F, 0x67, 0xDC, 0xEA, 0x97, 0xF2, 0xCF, 0xCE, 0xF0, 0xB4, 0xE6, 0x73,
     0x96, 0xAC, 0x74, 0x22, 0xE7, 0xAD, 0x35, 0x85, 0xE2, 0xF9, 0x37, 0xE8, 0x1C, 0x75, 0xDF, 0x6E,
     0x47, 0xF1, 0x1A, 0x71, 0x1D, 0x29, 0xC5, 0x89, 0x6F, 0xB7, 0x62, 0x0E, 0xAA, 0x18, 0xBE, 0x1B,
     0xFC, 0x56, 0x3E, 0x4B, 0xC6, 0xD2, 0x79, 0x20, 0x9A, 0xDB, 0xC0, 0xFE, 0x78, 0xCD, 0x5A, 0xF4,
     0x1F, 0xDD, 0xA8, 0x33, 0x88, 0x07, 0xC7, 0x31, 0xB1, 0x12, 0x10, 0x59, 0x27, 0x80, 0xEC, 0x5F,
     0x60, 0x51, 0x7F, 0xA9, 0x19, 0xB5, 0x4A, 0x0D, 0x2D, 0xE5, 0x7A, 0x9F, 0x93, 0xC9, 0x9C, 0xEF,
     0xA0, 0xE0, 0x3B, 0x4D, 0xAE, 0x2A, 0xF5, 0xB0, 0xC8, 0xEB, 0xBB, 0x3C, 0x83, 0x53, 0x99, 0x61,
     0x17, 0x2B, 0x04, 0x7E, 0xBA, 0x77, 0xD6, 0x26, 0xE1, 0x69, 0x14, 0x63, 0x55, 0x21, 0x0C, 0x7D]"

text \<open>Multiplication by 2 in the field.\<close>

definition xtime :: "u8 \<Rightarrow> u8" where
  "xtime v = push_bit 1 v XOR (if v AND 0x80 \<noteq> 0 then 0x1B else 0)"

text \<open>The rotations of the rows, as the positions the bytes come from.\<close>

definition shift_rows :: "u8 list \<Rightarrow> u8 list" where
  "shift_rows s = map ((!) s) [0, 5, 10, 15, 4, 9, 14, 3, 8, 13, 2, 7, 12, 1, 6, 11]"

definition inv_shift_rows :: "u8 list \<Rightarrow> u8 list" where
  "inv_shift_rows s = map ((!) s) [0, 13, 10, 7, 4, 1, 14, 11, 8, 5, 2, 15, 12, 9, 6, 3]"

definition sub_bytes :: "u8 list \<Rightarrow> u8 list" where
  "sub_bytes s = map (\<lambda>b. SBOX ! unat b) s"

definition inv_sub_bytes :: "u8 list \<Rightarrow> u8 list" where
  "inv_sub_bytes s = map (\<lambda>b. INV_SBOX ! unat b) s"

definition mix_column :: "u8 list \<Rightarrow> u8 list" where
  "mix_column a =
     (let a0 = a ! 0; a1 = a ! 1; a2 = a ! 2; a3 = a ! 3; x = a0 XOR a1 XOR a2 XOR a3
      in [a0 XOR x XOR xtime (a0 XOR a1), a1 XOR x XOR xtime (a1 XOR a2),
          a2 XOR x XOR xtime (a2 XOR a3), a3 XOR x XOR xtime (a3 XOR a0)])"

definition mix_columns :: "u8 list \<Rightarrow> u8 list" where
  "mix_columns s = per_elem1 4 mix_column s"

definition inv_mix_column :: "u8 list \<Rightarrow> u8 list" where
  "inv_mix_column a =
     (let a0 = a ! 0; a1 = a ! 1; a2 = a ! 2; a3 = a ! 3; x = a0 XOR a1 XOR a2 XOR a3; y = xtime (xtime x);
          t0 = a0 XOR y XOR xtime (a0 XOR a1); t1 = a1 XOR y XOR xtime (a1 XOR a2);
          t2 = a2 XOR y XOR xtime (a2 XOR a3); t3 = a3 XOR y XOR xtime (a3 XOR a0)
      in [t0 XOR xtime (a0 XOR a2) XOR xtime (xtime (a0 XOR a2)), t1 XOR xtime (a1 XOR a3) XOR xtime (xtime (a1 XOR a3)),
          t2 XOR xtime (a0 XOR a2) XOR xtime (xtime (a0 XOR a2)), t3 XOR xtime (a1 XOR a3) XOR xtime (xtime (a1 XOR a3))])"

definition inv_mix_columns :: "u8 list \<Rightarrow> u8 list" where
  "inv_mix_columns s = per_elem1 4 inv_mix_column s"

definition add_round_key :: "u8 list \<Rightarrow> u8 list \<Rightarrow> u8 list" where
  "add_round_key s k = map2 (XOR) s k"

definition aes_round :: "'m env \<Rightarrow> insn \<Rightarrow> (u8 list \<Rightarrow> u8 list) \<Rightarrow> 'm cpu \<Rightarrow> 'm cpu" where
  "aes_round env i f c = vec_binary sse4_rules env i 16 (\<lambda>s k. add_round_key (f s) k) c"

definition op_aesenc :: "'m env \<Rightarrow> insn \<Rightarrow> 'm cpu \<Rightarrow> 'm cpu" where
  "op_aesenc env i c = aes_round env i (\<lambda>s. mix_columns (sub_bytes (shift_rows s))) c"

definition op_aesenclast :: "'m env \<Rightarrow> insn \<Rightarrow> 'm cpu \<Rightarrow> 'm cpu" where
  "op_aesenclast env i c = aes_round env i (\<lambda>s. sub_bytes (shift_rows s)) c"

definition op_aesdec :: "'m env \<Rightarrow> insn \<Rightarrow> 'm cpu \<Rightarrow> 'm cpu" where
  "op_aesdec env i c = aes_round env i (\<lambda>s. inv_mix_columns (inv_sub_bytes (inv_shift_rows s))) c"

definition op_aesdeclast :: "'m env \<Rightarrow> insn \<Rightarrow> 'm cpu \<Rightarrow> 'm cpu" where
  "op_aesdeclast env i c = aes_round env i (\<lambda>s. inv_sub_bytes (inv_shift_rows s)) c"

definition op_aesimc :: "'m env \<Rightarrow> insn \<Rightarrow> 'm cpu \<Rightarrow> 'm cpu" where
  "op_aesimc env i c = vec_unary sse4_rules env i 16 inv_mix_columns c"

definition key_assist :: "u8 \<Rightarrow> u8 list \<Rightarrow> u8 list" where
  "key_assist rcon s =
     (let b = (\<lambda>k. SBOX ! unat (s ! (12 + k)))
      in elem 4 1 s @ [s ! 4 XOR b 1, s ! 5 XOR b 2, s ! 6 XOR b 3, s ! 7 XOR b 0 XOR rcon] @
         elem 4 3 s @ [s ! 12 XOR b 1, s ! 13 XOR b 2, s ! 14 XOR b 3, s ! 15 XOR b 0 XOR rcon])"

definition op_aeskeygen :: "'m env \<Rightarrow> insn \<Rightarrow> 'm cpu \<Rightarrow> 'm cpu" where
  "op_aeskeygen env i c = vec_unary sse4_rules env i 16 (key_assist (imm8 i)) c"

section \<open>Carry-less multiplication\<close>

text \<open>The loop over the bits of \<open>al\<close>, with the two halves of the product.\<close>

definition clmul_step :: "u64 \<Rightarrow> u64 \<Rightarrow> nat \<Rightarrow> u64 \<times> u64 \<Rightarrow> u64 \<times> u64" where
  "clmul_step al bl k acc =
     (case acc of (lo, hi) \<Rightarrow>
        if drop_bit k al AND 1 \<noteq> 0
        then (lo XOR push_bit k bl, if 0 < k then hi XOR drop_bit (64 - k) bl else hi) else (lo, hi))"

definition clmul :: "u64 \<Rightarrow> u64 \<Rightarrow> u64 \<times> u64" where
  "clmul al bl = fold (clmul_step al bl) [0..<64] (0, 0)"

definition clmul_bytes :: "u8 \<Rightarrow> u8 list \<Rightarrow> u8 list \<Rightarrow> u8 list" where
  "clmul_bytes imm a b =
     (case clmul (lane 8 (if bit imm 0 then 1 else 0) a) (lane 8 (if bit imm 4 then 1 else 0) b) of
        (lo, hi) \<Rightarrow> le_bytes 8 lo @ le_bytes 8 hi)"

definition op_pclmulqdq :: "'m env \<Rightarrow> insn \<Rightarrow> 'm cpu \<Rightarrow> 'm cpu" where
  "op_pclmulqdq env i c = vec_binary sse4_rules env i 16 (clmul_bytes (imm8 i)) c"

section \<open>CRC32\<close>

definition crc_bit :: "u32 \<Rightarrow> u32" where
  "crc_bit crc = (if crc AND 1 \<noteq> 0 then drop_bit 1 crc XOR 0x82F63B78 else drop_bit 1 crc)"

definition crc_byte :: "u8 \<Rightarrow> u32 \<Rightarrow> u32" where
  "crc_byte b crc = (crc_bit ^^ 8) (crc XOR ucast b)"

definition op_crc32 :: "'m env \<Rightarrow> insn \<Rightarrow> 'm cpu \<Rightarrow> 'm cpu" where
  "op_crc32 env i c =
     read_then (read_operand env i (i_src i) (i_op_size i) c) (\<lambda>v c.
       set_r32 (o_reg (i_dst i)) (fold crc_byte (le_bytes (unat (i_op_size i)) v) (reg32 c (o_reg (i_dst i)))) c)"

section \<open>SHA\<close>

text \<open>The operand helpers of \<^verbatim>\<open>phase10.cpp\<close>: a register written under a VEX prefix loses its upper bytes.\<close>

definition read_16_from :: "'m env \<Rightarrow> insn \<Rightarrow> operand \<Rightarrow> 'm cpu \<Rightarrow> u8 list option \<times> 'm cpu" where
  "read_16_from env i op c = read_vec_by sse4_rules env i op 16 c"

definition write_16_to :: "'m env \<Rightarrow> insn \<Rightarrow> operand \<Rightarrow> u8 list \<Rightarrow> 'm cpu \<Rightarrow> 'm cpu" where
  "write_16_to env i op v c =
     (let c = write_vec_by sse4_rules env i op v c
      in if o_kind op = OK_Xmm \<and> i_flags i AND INSN_FLAG_VEX \<noteq> 0 then zero_ymm_upper (o_reg op) c else c)"

definition binary_16 :: "'m env \<Rightarrow> insn \<Rightarrow> (u8 list \<Rightarrow> u8 list \<Rightarrow> u8 list) \<Rightarrow> 'm cpu \<Rightarrow> 'm cpu" where
  "binary_16 env i f c =
     read_then (read_16_from env i (i_dst i) c) (\<lambda>a c.
     read_then (read_16_from env i (i_src i) c) (\<lambda>b c. write_16_to env i (i_dst i) (f a b) c))"

definition read_lane32 :: "u8 list \<Rightarrow> nat \<Rightarrow> u32" where
  "read_lane32 p k = ucast (lane 4 k p)"

text \<open>Sixteen bytes from four lanes, the lowest first.\<close>

definition of_lanes :: "u32 list \<Rightarrow> u8 list" where
  "of_lanes ws = concat (map (\<lambda>w. le_bytes 4 (ucast w)) ws)"

definition rotl :: "u32 \<Rightarrow> nat \<Rightarrow> u32" where
  "rotl v n = push_bit n v OR drop_bit (32 - n) v"

definition rotr :: "u32 \<Rightarrow> nat \<Rightarrow> u32" where
  "rotr v n = drop_bit n v OR push_bit (32 - n) v"

definition sha1_f :: "u32 \<Rightarrow> u32 \<Rightarrow> u32 \<Rightarrow> u8 \<Rightarrow> u32" where
  "sha1_f b c d t =
     (if t \<le> 19 then (b AND c) OR (NOT b AND d) else if t \<le> 39 then b XOR c XOR d
      else if t \<le> 59 then (b AND c) OR (b AND d) OR (c AND d) else b XOR c XOR d)"

definition sha1_k :: "u8 \<Rightarrow> u32" where
  "sha1_k t = (if t \<le> 19 then 0x5A827999 else if t \<le> 39 then 0x6ED9EBA1 else if t \<le> 59 then 0x8F1BBCDC else 0xCA62C1D6)"

text \<open>One turn of the loop of SHA1RNDS4: the working words and the next message word.\<close>

definition sha1_turn :: "u8 \<Rightarrow> u32 \<Rightarrow> u32 \<times> u32 \<times> u32 \<times> u32 \<Rightarrow> u32 \<times> u32 \<times> u32 \<times> u32" where
  "sha1_turn t w abcd =
     (case abcd of (a, b, c, d) \<Rightarrow> (rotl a 5 + sha1_f b c d t + sha1_k t + w, a, rotl b 30, c))"

definition sha1_rounds :: "u8 \<Rightarrow> u8 list \<Rightarrow> u8 list \<Rightarrow> u8 list" where
  "sha1_rounds grp dst src =
     (case fold (\<lambda>k. sha1_turn (grp * 20 + of_nat k) (read_lane32 src (3 - k))) [0..<4]
             (read_lane32 dst 3, read_lane32 dst 2, read_lane32 dst 1, read_lane32 dst 0) of
        (a, b, c, d) \<Rightarrow> of_lanes [d, c, b, a])"

definition op_sha1rnds4 :: "'m env \<Rightarrow> insn \<Rightarrow> 'm cpu \<Rightarrow> 'm cpu" where
  "op_sha1rnds4 env i c = binary_16 env i (sha1_rounds (ucast (i_imm_extra i AND 3))) c"

definition op_sha1nexte :: "'m env \<Rightarrow> insn \<Rightarrow> 'm cpu \<Rightarrow> 'm cpu" where
  "op_sha1nexte env i c = binary_16 env i (\<lambda>dst src.
     of_lanes [read_lane32 src 0, read_lane32 src 1, read_lane32 src 2,
               read_lane32 src 3 + rotl (read_lane32 dst 3) 30]) c"

definition op_sha1msg1 :: "'m env \<Rightarrow> insn \<Rightarrow> 'm cpu \<Rightarrow> 'm cpu" where
  "op_sha1msg1 env i c = binary_16 env i (\<lambda>dst src.
     of_lanes [read_lane32 dst 0, read_lane32 dst 1, read_lane32 dst 2 XOR read_lane32 dst 0,
               read_lane32 dst 3 XOR read_lane32 src 3]) c"

definition op_sha1msg2 :: "'m env \<Rightarrow> insn \<Rightarrow> 'm cpu \<Rightarrow> 'm cpu" where
  "op_sha1msg2 env i c = binary_16 env i (\<lambda>dst src.
     let w16 = rotl (read_lane32 dst 3 XOR read_lane32 src 2) 1;
         w17 = rotl (read_lane32 dst 2 XOR read_lane32 src 1) 1;
         w18 = rotl (read_lane32 dst 1 XOR read_lane32 src 0) 1;
         w19 = rotl (read_lane32 dst 0 XOR w16) 1
     in of_lanes [w19, w18, w17, w16]) c"

definition sha_ch :: "u32 \<Rightarrow> u32 \<Rightarrow> u32 \<Rightarrow> u32" where
  "sha_ch x y z = (x AND y) XOR (NOT x AND z)"

definition sha_maj :: "u32 \<Rightarrow> u32 \<Rightarrow> u32 \<Rightarrow> u32" where
  "sha_maj x y z = (x AND y) XOR (x AND z) XOR (y AND z)"

definition Sig0 :: "u32 \<Rightarrow> u32" where
  "Sig0 x = rotr x 2 XOR rotr x 13 XOR rotr x 22"

definition Sig1 :: "u32 \<Rightarrow> u32" where
  "Sig1 x = rotr x 6 XOR rotr x 11 XOR rotr x 25"

definition sig0 :: "u32 \<Rightarrow> u32" where
  "sig0 x = rotr x 7 XOR rotr x 18 XOR drop_bit 3 x"

definition sig1 :: "u32 \<Rightarrow> u32" where
  "sig1 x = rotr x 17 XOR rotr x 19 XOR drop_bit 10 x"

text \<open>A round of SHA-256 on the eight working words, with the sum of message word and constant.\<close>

record sha256_words =
  wa :: u32  wb :: u32  wc :: u32  wd :: u32
  we :: u32  wf :: u32  wg :: u32  wh :: u32

definition sha256_turn :: "u32 \<Rightarrow> sha256_words \<Rightarrow> sha256_words" where
  "sha256_turn wk s =
     (let t1 = wh s + Sig1 (we s) + sha_ch (we s) (wf s) (wg s) + wk; t2 = Sig0 (wa s) + sha_maj (wa s) (wb s) (wc s)
      in \<lparr>wa = t1 + t2, wb = wa s, wc = wb s, wd = wc s, we = wd s + t1, wf = we s, wg = wf s, wh = wg s\<rparr>)"

definition sha256_words_of :: "u8 list \<Rightarrow> u8 list \<Rightarrow> sha256_words" where
  "sha256_words_of dst src =
     \<lparr>wa = read_lane32 src 3, wb = read_lane32 src 2, wc = read_lane32 dst 3, wd = read_lane32 dst 2,
      we = read_lane32 src 1, wf = read_lane32 src 0, wg = read_lane32 dst 1, wh = read_lane32 dst 0\<rparr>"

definition op_sha256rnds2 :: "'m env \<Rightarrow> insn \<Rightarrow> 'm cpu \<Rightarrow> 'm cpu" where
  "op_sha256rnds2 env i c =
     read_then (read_16_from env i (i_dst i) c) (\<lambda>dst c.
     read_then (read_16_from env i (i_src i) c) (\<lambda>src c.
       let xmm0 = zmm_bytes c 0 16;
           s = sha256_turn (read_lane32 xmm0 1) (sha256_turn (read_lane32 xmm0 0) (sha256_words_of dst src))
       in write_16_to env i (i_dst i) (of_lanes [wf s, we s, wb s, wa s]) c))"

text \<open>The loop of SHA256MSG1 reads the lane below the current one after it has been updated.\<close>

definition op_sha256msg1 :: "'m env \<Rightarrow> insn \<Rightarrow> 'm cpu \<Rightarrow> 'm cpu" where
  "op_sha256msg1 env i c = binary_16 env i (\<lambda>dst src.
     let w0 = read_lane32 dst 0 + sig0 (read_lane32 src 3); w1 = read_lane32 dst 1 + sig0 w0;
         w2 = read_lane32 dst 2 + sig0 w1; w3 = read_lane32 dst 3 + sig0 w2
     in of_lanes [w0, w1, w2, w3]) c"

definition op_sha256msg2 :: "'m env \<Rightarrow> insn \<Rightarrow> 'm cpu \<Rightarrow> 'm cpu" where
  "op_sha256msg2 env i c = binary_16 env i (\<lambda>dst src.
     let w16 = read_lane32 dst 0 + sig1 (read_lane32 src 2); w17 = read_lane32 dst 1 + sig1 (read_lane32 src 3);
         w18 = read_lane32 dst 2 + sig1 w16; w19 = read_lane32 dst 3 + sig1 w17
     in of_lanes [w16, w17, w18, w19]) c"

section \<open>AES rounds and their inverses\<close>

text \<open>Checking all bytes.\<close>

definition all_u8 :: "u8 list" where
  "all_u8 = [
     0, 1, 2, 3, 4, 5, 6, 7, 8, 9, 10, 11, 12, 13, 14, 15, 16, 17, 18, 19, 20, 21, 22, 23, 24, 25, 26, 27, 28, 29, 30, 31,
     32, 33, 34, 35, 36, 37, 38, 39, 40, 41, 42, 43, 44, 45, 46, 47, 48, 49, 50, 51, 52, 53, 54, 55, 56, 57, 58, 59, 60, 61, 62, 63,
     64, 65, 66, 67, 68, 69, 70, 71, 72, 73, 74, 75, 76, 77, 78, 79, 80, 81, 82, 83, 84, 85, 86, 87, 88, 89, 90, 91, 92, 93, 94, 95,
     96, 97, 98, 99, 100, 101, 102, 103, 104, 105, 106, 107, 108, 109, 110, 111, 112, 113, 114, 115, 116, 117, 118, 119, 120, 121, 122, 123, 124, 125, 126, 127,
     128, 129, 130, 131, 132, 133, 134, 135, 136, 137, 138, 139, 140, 141, 142, 143, 144, 145, 146, 147, 148, 149, 150, 151, 152, 153, 154, 155, 156, 157, 158, 159,
     160, 161, 162, 163, 164, 165, 166, 167, 168, 169, 170, 171, 172, 173, 174, 175, 176, 177, 178, 179, 180, 181, 182, 183, 184, 185, 186, 187, 188, 189, 190, 191,
     192, 193, 194, 195, 196, 197, 198, 199, 200, 201, 202, 203, 204, 205, 206, 207, 208, 209, 210, 211, 212, 213, 214, 215, 216, 217, 218, 219, 220, 221, 222, 223,
     224, 225, 226, 227, 228, 229, 230, 231, 232, 233, 234, 235, 236, 237, 238, 239, 240, 241, 242, 243, 244, 245, 246, 247, 248, 249, 250, 251, 252, 253, 254, 255]"

lemma all_u8_upt: "map of_nat [0..<256] = all_u8"
proof -
  have "[0..<256] = [
     0, 1, 2, 3, 4, 5, 6, 7, 8, 9, 10, 11, 12, 13, 14, 15, 16, 17, 18, 19, 20, 21, 22, 23, 24, 25, 26, 27, 28, 29, 30, 31,
     32, 33, 34, 35, 36, 37, 38, 39, 40, 41, 42, 43, 44, 45, 46, 47, 48, 49, 50, 51, 52, 53, 54, 55, 56, 57, 58, 59, 60, 61, 62, 63,
     64, 65, 66, 67, 68, 69, 70, 71, 72, 73, 74, 75, 76, 77, 78, 79, 80, 81, 82, 83, 84, 85, 86, 87, 88, 89, 90, 91, 92, 93, 94, 95,
     96, 97, 98, 99, 100, 101, 102, 103, 104, 105, 106, 107, 108, 109, 110, 111, 112, 113, 114, 115, 116, 117, 118, 119, 120, 121, 122, 123, 124, 125, 126, 127,
     128, 129, 130, 131, 132, 133, 134, 135, 136, 137, 138, 139, 140, 141, 142, 143, 144, 145, 146, 147, 148, 149, 150, 151, 152, 153, 154, 155, 156, 157, 158, 159,
     160, 161, 162, 163, 164, 165, 166, 167, 168, 169, 170, 171, 172, 173, 174, 175, 176, 177, 178, 179, 180, 181, 182, 183, 184, 185, 186, 187, 188, 189, 190, 191,
     192, 193, 194, 195, 196, 197, 198, 199, 200, 201, 202, 203, 204, 205, 206, 207, 208, 209, 210, 211, 212, 213, 214, 215, 216, 217, 218, 219, 220, 221, 222, 223,
     224, 225, 226, 227, 228, 229, 230, 231, 232, 233, 234, 235, 236, 237, 238, 239, 240, 241, 242, 243, 244, 245, 246, 247, 248, 249, 250, 251, 252, 253, 254, 255 :: nat]"
    by code_simp
  then show ?thesis unfolding all_u8_def by (simp only: list.map of_nat_numeral) simp
qed

lemma all_bytes:
  assumes "list_all P all_u8" shows "P (b :: u8)"
proof -
  have "unat b < 256" using unsigned_less [of b, where ?'a = nat] by simp
  then have "of_nat (unat b) \<in> set all_u8" unfolding all_u8_upt [symmetric] set_map by (intro imageI) simp
  with assms show ?thesis by (simp add: list_all_iff)
qed

lemma INV_SBOX_SBOX: "INV_SBOX ! unat (SBOX ! unat b) = b"
  by (rule all_bytes) code_simp

lemma xtime_0_iff: "xtime v = 0 \<longleftrightarrow> v = 0"
  by (rule all_bytes) code_simp

lemma xtime_xor: "xtime (a XOR b) = xtime a XOR xtime b"
proof -
  have top: "v AND 0x80 \<noteq> 0 \<longleftrightarrow> bit v 7" for v :: u8 using and_exp_neq_0_iff [of 7 v] by simp
  show ?thesis unfolding xtime_def top push_bit_xor by (simp add: bit_simps ac_simps)
qed

lemma length_16: "length s = 16 \<Longrightarrow> map ((!) s) [0, 1, 2, 3, 4, 5, 6, 7, 8, 9, 10, 11, 12, 13, 14, 15] = s"
proof -
  have "[0..<16] = [0, 1, 2, 3, 4, 5, 6, 7, 8, 9, 10, 11, 12, 13, 14, 15 :: nat]" by code_simp
  then show "length s = 16 \<Longrightarrow> map ((!) s) [0, 1, 2, 3, 4, 5, 6, 7, 8, 9, 10, 11, 12, 13, 14, 15] = s"
    using map_nth [of s] by simp
qed

lemma length_aes [simp]: "length (shift_rows s) = 16" "length (inv_shift_rows s) = 16"
  "length (sub_bytes s) = length s" "length (inv_sub_bytes s) = length s"
  by (simp_all add: shift_rows_def inv_shift_rows_def sub_bytes_def inv_sub_bytes_def)

lemma inv_last_round: "length s = 16 \<Longrightarrow> inv_sub_bytes (inv_shift_rows (sub_bytes (shift_rows s))) = s"
  by (simp add: inv_sub_bytes_def inv_shift_rows_def sub_bytes_def shift_rows_def INV_SBOX_SBOX) (use length_16 [of s] in simp)

lemma add_round_key_cancel:
  "length s = length k \<Longrightarrow> add_round_key (add_round_key s k) k = s"
  "add_round_key s (replicate (length s) 0) = s"
  by (rule nth_equalityI, simp_all add: add_round_key_def xor.assoc)+

text \<open>
  MixColumns multiplies a column by the circulant (2, 3, 1, 1), what InvMixColumns should do by
  (14, 11, 13, 9); the code multiplies by (1, 6, 2, 4).
\<close>

lemma xor_cancel [simp]: "(a :: u8) XOR (a XOR b) = b"
  by (simp flip: xor.assoc)

lemma inv_mix_mix:
  fixes a :: "u8 list"
  assumes "length a = 4"
  defines "p \<equiv> a ! 0 XOR a ! 2" and "q \<equiv> a ! 1 XOR a ! 3"
  defines "u \<equiv> p XOR xtime p XOR xtime (xtime (xtime p)) XOR q XOR xtime (xtime (xtime q))"
    and "v \<equiv> q XOR xtime q XOR xtime (xtime (xtime q)) XOR p XOR xtime (xtime (xtime p))"
  shows "inv_mix_column (mix_column a) = [a ! 0 XOR u, a ! 1 XOR v, a ! 2 XOR u, a ! 3 XOR v]"
  by (simp add: inv_mix_column_def mix_column_def Let_def xtime_xor u_def v_def p_def q_def ac_simps)

lemma inv_mix_mix_iff:
  assumes "length a = 4"
  shows "inv_mix_column (mix_column a) = a \<longleftrightarrow> a ! 0 = a ! 2 \<and> a ! 1 = a ! 3"
proof -
  obtain a0 a1 a2 a3 where a: "a = [a0, a1, a2, a3]" using assms by (auto simp: length_Suc_conv numeral_eq_Suc)
  define p q where "p = a0 XOR a2" and "q = a1 XOR a3"
  define u v where "u = p XOR xtime p XOR xtime (xtime (xtime p)) XOR q XOR xtime (xtime (xtime q))"
    and "v = q XOR xtime q XOR xtime (xtime (xtime q)) XOR p XOR xtime (xtime (xtime p))"
  have "inv_mix_column (mix_column a) = a \<longleftrightarrow> u = 0 \<and> v = 0"
    using inv_mix_mix [OF assms] xor_cancel [of _ 0] by (simp add: a u_def v_def p_def q_def) (metis xor_cancel xor.right_neutral xor_self_eq)
  also have "\<dots> \<longleftrightarrow> p = 0 \<and> q = 0"
  proof
    assume uv: "u = 0 \<and> v = 0"
    then have "u XOR v = 0" by simp
    moreover have "u XOR v = xtime (p XOR q)" by (simp add: u_def v_def xtime_xor ac_simps)
    ultimately have "p = q" by (simp add: xtime_0_iff) (metis xor_cancel xor.right_neutral)
    then have "u = xtime p" by (simp add: u_def ac_simps)
    with uv \<open>p = q\<close> show "p = 0 \<and> q = 0" by (simp add: xtime_0_iff)
  qed (simp add: u_def v_def xtime_def)
  also have "\<dots> \<longleftrightarrow> a0 = a2 \<and> a1 = a3" unfolding p_def q_def by (metis xor_cancel xor.right_neutral xor_self_eq)
  finally show ?thesis by (simp add: a)
qed

lemma SBOX_INV_SBOX: "SBOX ! unat (INV_SBOX ! unat b) = b"
  by (rule all_bytes) code_simp

lemma last_round_inv: "length s = 16 \<Longrightarrow> sub_bytes (shift_rows (inv_sub_bytes (inv_shift_rows s))) = s"
  by (simp add: inv_sub_bytes_def inv_shift_rows_def sub_bytes_def shift_rows_def SBOX_INV_SBOX) (use length_16 [of s] in simp)

lemma length_mix [simp]: "length (mix_column x) = 4" "length (inv_mix_column x) = 4"
  by (simp_all add: mix_column_def inv_mix_column_def Let_def)

lemma length_mix_columns [simp]: "length s = 16 \<Longrightarrow> length (mix_columns s) = 16" "length s = 16 \<Longrightarrow> length (inv_mix_columns s) = 16"
  by (simp_all add: mix_columns_def inv_mix_columns_def length_per_elem1)

lemma inv_mix_columns_iff:
  assumes "length s = 16"
  shows "inv_mix_columns (mix_columns s) = s \<longleftrightarrow>
    (\<forall>j < 4. s ! (4 * j) = s ! (4 * j + 2) \<and> s ! (4 * j + 1) = s ! (4 * j + 3))"
proof -
  have e: "elem 4 j (inv_mix_columns (mix_columns s)) = inv_mix_column (mix_column (elem 4 j s))" if "j < 4" for j
    using that assms by (simp add: inv_mix_columns_def elem_per_elem1 [of inv_mix_column] mix_columns_def elem_per_elem1 [of mix_column]
        length_per_elem1)
  have "inv_mix_columns (mix_columns s) = s \<longleftrightarrow> (\<forall>j < 4. elem 4 j (inv_mix_columns (mix_columns s)) = elem 4 j s)"
    using elems_eqI [of 4 "inv_mix_columns (mix_columns s)" s] assms by auto
  also have "\<dots> \<longleftrightarrow> (\<forall>j < 4. elem 4 j s ! 0 = elem 4 j s ! 2 \<and> elem 4 j s ! 1 = elem 4 j s ! 3)"
  proof -
    have "length (elem 4 j s) = 4" if "j < 4" for j using that assms by (simp add: elem_def)
    then show ?thesis by (simp add: e inv_mix_mix_iff)
  qed
  also have "\<dots> \<longleftrightarrow> (\<forall>j < 4. s ! (4 * j) = s ! (4 * j + 2) \<and> s ! (4 * j + 1) = s ! (4 * j + 3))"
    using assms by (simp add: nth_elem)
  finally show ?thesis .
qed

lemma aes_round_reg:
  "aes_round env (xmm_insn d k) f c = set_zmm_bytes d (add_round_key (f (zmm_bytes c d 16)) (zmm_bytes c k 16)) c"
  by (simp add: aes_round_def vec_binary_reg)

lemma pxor_reg: "op_pxor env (xmm_insn d k) c = set_zmm_bytes d (add_round_key (zmm_bytes c d 16) (zmm_bytes c k 16)) c"
  by (simp add: op_pxor_def binary_xmm_def vec_binary_reg add_round_key_def)

lemma length_add_round_key [simp]: "length (add_round_key s k) = min (length s) (length k)"
  by (simp add: add_round_key_def)

lemmas aes_simps = op_aesenc_def op_aesenclast_def op_aesdec_def op_aesdeclast_def aes_round_reg pxor_reg

text \<open>C22: AESDECLAST with a zero key after adding the key undoes AESENCLAST.  AESIMC is to undo MixColumns, which the
  usual pair of AESDECLAST and AESENC with zero keys computes; it does so only for the states whose columns
  repeat their first two bytes.\<close>

theorem aes_rounds:
  assumes "zmm_bytes c z 16 = replicate 16 0" "d \<noteq> k" "d \<noteq> z"
  shows "zmm_bytes (op_aesdeclast env (xmm_insn d z) (op_pxor env (xmm_insn d k) (op_aesenclast env (xmm_insn d k) c))) d 16
      = zmm_bytes c d 16 \<and>
    (zmm_bytes (op_aesimc env (xmm_insn d d) (op_aesenc env (xmm_insn d z) (op_aesdeclast env (xmm_insn d z) c))) d 16
      = zmm_bytes c d 16 \<longleftrightarrow>
     (\<forall>j < 4. c_zmm c d (4 * j) = c_zmm c d (4 * j + 2) \<and> c_zmm c d (4 * j + 1) = c_zmm c d (4 * j + 3)))"
proof
  let ?s = "zmm_bytes c d 16" and ?k = "zmm_bytes c k 16"
  have zero: "add_round_key t (replicate 16 0) = t" if "length t = 16" for t
    using add_round_key_cancel(2) [of t] that by simp
  show "zmm_bytes (op_aesdeclast env (xmm_insn d z) (op_pxor env (xmm_insn d k) (op_aesenclast env (xmm_insn d k) c))) d 16 = ?s"
    using assms by (simp add: aes_simps zero add_round_key_cancel(1) inv_last_round)
  have "zmm_bytes (op_aesimc env (xmm_insn d d) (op_aesenc env (xmm_insn d z) (op_aesdeclast env (xmm_insn d z) c))) d 16
      = inv_mix_columns (mix_columns ?s)"
    using assms by (simp add: aes_simps op_aesimc_def vec_unary_reg zero last_round_inv)
  then show "zmm_bytes (op_aesimc env (xmm_insn d d) (op_aesenc env (xmm_insn d z) (op_aesdeclast env (xmm_insn d z) c))) d 16 = ?s
      \<longleftrightarrow> (\<forall>j < 4. c_zmm c d (4 * j) = c_zmm c d (4 * j + 2) \<and> c_zmm c d (4 * j + 1) = c_zmm c d (4 * j + 3))"
    using inv_mix_columns_iff [of ?s] by simp
qed

theorem aes_rounds_witness:
  "zmm_bytes (op_aesimc no_env (xmm_insn 1 1) (op_aesenc no_env (xmm_insn 1 2) (op_aesdeclast no_env (xmm_insn 1 2)
      (set_zmm_bytes 1 [1] (initial_cpu ()))))) 1 16 \<noteq> zmm_bytes (set_zmm_bytes 1 [1] (initial_cpu ())) 1 16"
proof -
  let ?c = "set_zmm_bytes 1 [1] (initial_cpu ())"
  have "zmm_bytes ?c 2 16 = replicate 16 0" by (rule nth_equalityI) (simp_all add: set_zmm_bytes_def initial_cpu_def)
  note aes = conjunct2 [OF aes_rounds [OF this, of 1 3 no_env]]
  have "\<not> (\<forall>j < 4. c_zmm ?c 1 (4 * j) = c_zmm ?c 1 (4 * j + 2) \<and> c_zmm ?c 1 (4 * j + 1) = c_zmm ?c 1 (4 * j + 3))"
    by (auto simp: set_zmm_bytes_def initial_cpu_def)
  with aes show ?thesis by simp
qed

section \<open>Carry-less products\<close>

text \<open>Bit \<open>n\<close> of the product is the parity of the pairs of bits whose positions add up to \<open>n\<close>.\<close>

definition clmul_bit :: "u64 \<Rightarrow> u64 \<Rightarrow> nat \<Rightarrow> bool" where
  "clmul_bit a b n = odd (card {k. k \<le> n \<and> bit a k \<and> bit b (n - k)})"

lemma bits_below_64: "bit (a :: u64) k \<Longrightarrow> k < 64"
  using bit_imp_le_length [of a k] by simp

lemma finite_pairs: "finite {k. k \<le> (n :: nat) \<and> P k}"
  by simp

lemma odd_card_add:
  assumes "finite A" "x \<notin> A" shows "odd (card (insert x A)) \<longleftrightarrow> \<not> odd (card A)"
  using assms by simp

definition pairs_below :: "nat \<Rightarrow> u64 \<Rightarrow> u64 \<Rightarrow> nat \<Rightarrow> nat set" where
  "pairs_below m a b n = {k. k < m \<and> k \<le> n \<and> bit a k \<and> bit b (n - k)}"

lemma pairs_below_Suc:
  "pairs_below (Suc m) a b n =
     (if m \<le> n \<and> bit a m \<and> bit b (n - m) then insert m (pairs_below m a b n) else pairs_below m a b n)"
  by (auto simp: pairs_below_def less_Suc_eq)

lemma finite_pairs_below [simp]: "finite (pairs_below m a b n)" "m \<notin> pairs_below m a b n"
  by (simp_all add: pairs_below_def)

lemma clmul_fold:
  "m \<le> 64 \<Longrightarrow> fold (clmul_step a b) [0..<m] (0, 0) = (lo, hi) \<Longrightarrow>
   n < 64 \<Longrightarrow> bit lo n = odd (card (pairs_below m a b n)) \<and> bit hi n = odd (card (pairs_below m a b (n + 64)))"
proof (induction m arbitrary: lo hi)
  case 0
  then show ?case by (simp add: pairs_below_def)
next
  case (Suc m)
  obtain lo1 hi1 where f: "fold (clmul_step a b) [0..<m] (0, 0) = (lo1, hi1)" by (metis prod.exhaust)
  note ih = Suc.IH [OF _ f Suc.prems(3)]
  have am: "drop_bit m a AND 1 \<noteq> 0 \<longleftrightarrow> bit a m" by (simp add: and_one_eq bit_iff_odd_drop_bit odd_iff_mod_2_eq_one)
  have step: "clmul_step a b m (lo1, hi1) = (lo, hi)" using Suc.prems(2) f by simp
  have lo: "bit lo n \<longleftrightarrow> bit lo1 n \<noteq> (bit a m \<and> m \<le> n \<and> bit b (n - m))"
    and hi: "bit hi n \<longleftrightarrow> bit hi1 n \<noteq> (bit a m \<and> bit b (n + 64 - m))"
    using step Suc.prems(1,3) bits_below_64 [of b "n + 64 - m"]
    by (auto simp: clmul_step_def am bit_simps add.commute [of 64] split: if_splits)
  show ?case using ih Suc.prems by (auto simp: lo hi pairs_below_Suc)
qed

lemma clmul_bits:
  assumes "clmul a b = (lo, hi)" "n < 64"
  shows "bit lo n = clmul_bit a b n" "bit hi n = clmul_bit a b (n + 64)"
proof -
  have "pairs_below 64 a b k = {j. j \<le> k \<and> bit a j \<and> bit b (k - j)}" for k
    using bits_below_64 by (auto simp: pairs_below_def)
  with clmul_fold [of 64 a b lo hi n] assms
  show "bit lo n = clmul_bit a b n" "bit hi n = clmul_bit a b (n + 64)" by (simp_all add: clmul_def clmul_bit_def)
qed

lemma clmul_bit_commute: "clmul_bit a b n = clmul_bit b a n"
proof -
  have "bij_betw (\<lambda>k. n - k) {k. k \<le> n \<and> bit a k \<and> bit b (n - k)} {k. k \<le> n \<and> bit b k \<and> bit a (n - k)}"
    by (rule bij_betw_byWitness [where f' = "\<lambda>k. n - k"]) auto
  then show ?thesis by (simp add: clmul_bit_def bij_betw_same_card)
qed

lemma bit_le_bytes:
  assumes "j < 8 * n" shows "bit (le_bytes n v ! (j div 8)) (j mod 8) = bit v j"
proof -
  have "j div 8 < n" using assms by (simp add: less_mult_imp_div_less mult.commute)
  then show ?thesis by (simp add: le_bytes_def bit_simps mask_literals)
qed

lemma bit_clmul_bytes:
  assumes "n < 128"
  shows "bit (clmul_bytes imm x y ! (n div 8)) (n mod 8) =
    clmul_bit (lane 8 (if bit imm 0 then 1 else 0) x) (lane 8 (if bit imm 4 then 1 else 0) y) n"
proof -
  let ?a = "lane 8 (if bit imm 0 then 1 else 0) x" and ?b = "lane 8 (if bit imm 4 then 1 else 0) y"
  obtain lo hi where c: "clmul ?a ?b = (lo, hi)" by (metis prod.exhaust)
  show ?thesis
  proof (cases "n < 64")
    case True
    then have "n div 8 < 8" by (simp add: less_mult_imp_div_less)
    then show ?thesis using True c clmul_bits(1) [OF c True] bit_le_bytes [of n 8 lo]
      by (simp add: clmul_bytes_def nth_append)
  next
    case False
    then obtain m where n: "n = m + 64" by (metis le_add_diff_inverse2 not_less)
    have "m < 64" using assms n by simp
    have "n div 8 = 8 + m div 8" "n mod 8 = m mod 8" using n by presburger+
    then show ?thesis using c clmul_bits(2) [OF c \<open>m < 64\<close>] bit_le_bytes [of m 8 hi] \<open>m < 64\<close>
      by (simp add: clmul_bytes_def nth_append n del: One_nat_def)
  qed
qed


text \<open>PCLMULQDQ writes the 128-bit carry-less product of the two selected quadwords, the product of polynomials over
  the field of two elements, and leaves the rest of the machine alone.\<close>

theorem pclmulqdq_product:
  fixes d s imm :: u8 and c :: "'m cpu" and env :: "'m env"
  defines "i \<equiv> (xmm_insn d s)\<lparr>i_imm_extra := ucast imm\<rparr>"
  defines "a \<equiv> lane 8 (if bit imm 0 then 1 else 0) (zmm_bytes c d 16)"
    and "b \<equiv> lane 8 (if bit imm 4 then 1 else 0) (zmm_bytes c s 16)"
  shows "(\<forall>n < 128. bit (c_zmm (op_pclmulqdq env i c) d (n div 8)) (n mod 8) = odd (card {k. k \<le> n \<and> bit a k \<and> bit b (n - k)})) \<and>
    (\<forall>r j. r \<noteq> d \<or> 16 \<le> j \<longrightarrow> c_zmm (op_pclmulqdq env i c) r j = c_zmm c r j) \<and>
    reg (op_pclmulqdq env i c) = reg c \<and> c_rflags (op_pclmulqdq env i c) = c_rflags c"
proof -
  have imm: "imm8 i = imm" by (simp add: imm8_def i_def) (rule bit_word_eqI, auto simp: bit_simps mask_literals)
  let ?out = "clmul_bytes imm (zmm_bytes c d 16) (zmm_bytes c s 16)"
  have "op_pclmulqdq env i c = set_zmm_bytes d ?out c"
    unfolding op_pclmulqdq_def imm by (subst vec_binary_reg) (simp_all add: i_def)
  moreover have "length ?out = 16" by (simp add: clmul_bytes_def split: prod.splits)
  moreover have "bit (?out ! (n div 8)) (n mod 8) = odd (card {k. k \<le> n \<and> bit a k \<and> bit b (n - k)})" if "n < 128" for n
    using bit_clmul_bytes [OF that] by (simp add: a_def b_def clmul_bit_def)
  ultimately show ?thesis by (auto simp: set_zmm_bytes_def reg_def fun_eq_iff less_mult_imp_div_less)
qed

text \<open>The polynomial \<open>x + 1\<close> squared is \<open>x^2 + 1\<close>: bit 2 of the product is set.\<close>

theorem pclmulqdq_product_witness:
  "bit (c_zmm (op_pclmulqdq no_env (xmm_insn 1 1\<lparr>i_imm_extra := ucast (0 :: u8)\<rparr>) (set_zmm_bytes 1 (3 # replicate 15 0) (initial_cpu ()))) 1 (2 div 8)) (2 mod 8)"
proof -
  let ?c = "set_zmm_bytes 1 (3 # replicate 15 0) (initial_cpu ())"
  have a: "lane 8 0 (zmm_bytes ?c 1 16) = 3"
    by (simp add: lane_def elem_def zmm_bytes_def set_zmm_bytes_def upt_rec)
  have "{k :: nat. k \<le> 2 \<and> bit (3 :: u64) k \<and> bit (3 :: u64) (2 - k)} = {1}"
    by (auto simp: bit_numeral_rec le_Suc_eq numeral_2_eq_2 elim!: le_SucE)
  then show ?thesis
    using pclmulqdq_product [THEN conjunct1, rule_format, where n = 2 and env = no_env and d = 1 and s = 1 and imm = 0 and c = ?c] a by simp
qed

end
