(* ===== verification/Vector_Extended.thy ===== *)
theory Vector_Extended
  imports Crypto
begin

text \<open>
  The VEX and EVEX forms of the packed handlers: \<^verbatim>\<open>src/emu/handlers/avx.cpp\<close>, the VEX part of
  \<^verbatim>\<open>src/emu/handlers/phase10.cpp\<close> and the integer part of \<^verbatim>\<open>src/emu/handlers/avx512.cpp\<close>.  The first source is the
  register in \<open>dst.index\<close>; under EVEX an opmask register selects the elements that are written.
\<close>

section \<open>VEX (avx.cpp)\<close>

definition vex_rules :: vec_rules where
  "vex_rules = \<lparr>vr_read_note = ''vex read'', vr_write_note = ''vex write'',
     vr_bad_src = Some ''bad vex src'', vr_bad_dst = Some ''bad vex dst''\<rparr>"

definition read_vec :: "'m env \<Rightarrow> insn \<Rightarrow> operand \<Rightarrow> u8 \<Rightarrow> 'm cpu \<Rightarrow> u8 list option \<times> 'm cpu" where
  "read_vec env i op sz c = read_vec_by vex_rules env i op (unat sz) c"

text \<open>A 16-byte write to a register clears its upper bytes.\<close>

definition write_vec :: "'m env \<Rightarrow> insn \<Rightarrow> operand \<Rightarrow> u8 \<Rightarrow> u8 list \<Rightarrow> 'm cpu \<Rightarrow> 'm cpu" where
  "write_vec env i op sz v c =
     (let c = write_vec_by vex_rules env i op v c
      in if o_kind op = OK_Xmm \<and> sz = 16 then zero_ymm_upper (o_reg op) c else c)"

definition vex_binop :: "'m env \<Rightarrow> insn \<Rightarrow> (u8 list \<Rightarrow> u8 list \<Rightarrow> u8 list) \<Rightarrow> 'm cpu \<Rightarrow> 'm cpu" where
  "vex_binop env i f c =
     (let sz = i_op_size i; src1 = zmm_bytes c (o_index (i_dst i)) (unat sz)
      in read_then (read_vec env i (i_src i) sz c) (\<lambda>src2 c. write_vec env i (i_dst i) sz (f src1 src2) c))"

definition op_vmovdqa :: "'m env \<Rightarrow> insn \<Rightarrow> 'm cpu \<Rightarrow> 'm cpu" where
  "op_vmovdqa env i c =
     read_then (read_vec env i (i_src i) (i_op_size i) c) (\<lambda>v c. write_vec env i (i_dst i) (i_op_size i) v c)"

definition op_vmovdqu :: "'m env \<Rightarrow> insn \<Rightarrow> 'm cpu \<Rightarrow> 'm cpu" where
  "op_vmovdqu env i c = op_vmovdqa env i c"

definition op_vpxor :: "'m env \<Rightarrow> insn \<Rightarrow> 'm cpu \<Rightarrow> 'm cpu" where
  "op_vpxor env i c = vex_binop env i (map2 (XOR)) c"

definition op_vpand :: "'m env \<Rightarrow> insn \<Rightarrow> 'm cpu \<Rightarrow> 'm cpu" where
  "op_vpand env i c = vex_binop env i (map2 (AND)) c"

definition op_vpor :: "'m env \<Rightarrow> insn \<Rightarrow> 'm cpu \<Rightarrow> 'm cpu" where
  "op_vpor env i c = vex_binop env i (map2 (OR)) c"

definition op_vpaddb :: "'m env \<Rightarrow> insn \<Rightarrow> 'm cpu \<Rightarrow> 'm cpu" where
  "op_vpaddb env i c = vex_binop env i (map2 (+)) c"

definition op_vpaddw :: "'m env \<Rightarrow> insn \<Rightarrow> 'm cpu \<Rightarrow> 'm cpu" where
  "op_vpaddw env i c = vex_binop env i (per_lane 2 (+)) c"

definition op_vpaddd :: "'m env \<Rightarrow> insn \<Rightarrow> 'm cpu \<Rightarrow> 'm cpu" where
  "op_vpaddd env i c = vex_binop env i (per_lane 4 (+)) c"

definition op_vpaddq :: "'m env \<Rightarrow> insn \<Rightarrow> 'm cpu \<Rightarrow> 'm cpu" where
  "op_vpaddq env i c = vex_binop env i (per_lane 8 (+)) c"

definition op_vpsubb :: "'m env \<Rightarrow> insn \<Rightarrow> 'm cpu \<Rightarrow> 'm cpu" where
  "op_vpsubb env i c = vex_binop env i (map2 (-)) c"

definition op_vpsubw :: "'m env \<Rightarrow> insn \<Rightarrow> 'm cpu \<Rightarrow> 'm cpu" where
  "op_vpsubw env i c = vex_binop env i (per_lane 2 (-)) c"

definition op_vpsubd :: "'m env \<Rightarrow> insn \<Rightarrow> 'm cpu \<Rightarrow> 'm cpu" where
  "op_vpsubd env i c = vex_binop env i (per_lane 4 (-)) c"

definition op_vpsubq :: "'m env \<Rightarrow> insn \<Rightarrow> 'm cpu \<Rightarrow> 'm cpu" where
  "op_vpsubq env i c = vex_binop env i (per_lane 8 (-)) c"

definition op_vzeroupper :: "'m env \<Rightarrow> insn \<Rightarrow> 'm cpu \<Rightarrow> 'm cpu" where
  "op_vzeroupper env i c = fold (\<lambda>k. zero_ymm_upper (of_nat k)) [0..<16] c"

definition op_vzeroall :: "'m env \<Rightarrow> insn \<Rightarrow> 'm cpu \<Rightarrow> 'm cpu" where
  "op_vzeroall env i c = fold (\<lambda>k. set_zmm_bytes (of_nat k) (replicate 32 0)) [0..<16] c"

section \<open>VEX (phase10.cpp)\<close>

text \<open>These always work on 16 bytes, also when the instruction asks for 32.\<close>

definition vex_binop_xmm :: "'m env \<Rightarrow> insn \<Rightarrow> (u8 list \<Rightarrow> u8 list \<Rightarrow> u8 list) \<Rightarrow> 'm cpu \<Rightarrow> 'm cpu" where
  "vex_binop_xmm env i f c =
     (let a = zmm_bytes c (o_index (i_dst i)) 16
      in read_then (read_16_from env i (i_src i) c) (\<lambda>b c. write_16_to env i (i_dst i) (f a b) c))"

definition op_vpshufb :: "'m env \<Rightarrow> insn \<Rightarrow> 'm cpu \<Rightarrow> 'm cpu" where
  "op_vpshufb env i c = vex_binop_xmm env i shuffle_bytes c"

definition op_vaesenc :: "'m env \<Rightarrow> insn \<Rightarrow> 'm cpu \<Rightarrow> 'm cpu" where
  "op_vaesenc env i c = vex_binop_xmm env i (\<lambda>s k. add_round_key (mix_columns (sub_bytes (shift_rows s))) k) c"

definition op_vaesenclast :: "'m env \<Rightarrow> insn \<Rightarrow> 'm cpu \<Rightarrow> 'm cpu" where
  "op_vaesenclast env i c = vex_binop_xmm env i (\<lambda>s k. add_round_key (sub_bytes (shift_rows s)) k) c"

definition op_vaesdec :: "'m env \<Rightarrow> insn \<Rightarrow> 'm cpu \<Rightarrow> 'm cpu" where
  "op_vaesdec env i c = vex_binop_xmm env i (\<lambda>s k. add_round_key (inv_mix_columns (inv_sub_bytes (inv_shift_rows s))) k) c"

definition op_vaesdeclast :: "'m env \<Rightarrow> insn \<Rightarrow> 'm cpu \<Rightarrow> 'm cpu" where
  "op_vaesdeclast env i c = vex_binop_xmm env i (\<lambda>s k. add_round_key (inv_sub_bytes (inv_shift_rows s)) k) c"

definition op_vpcmpgtq :: "'m env \<Rightarrow> insn \<Rightarrow> 'm cpu \<Rightarrow> 'm cpu" where
  "op_vpcmpgtq env i c = vex_binop_xmm env i (per_elem 8 (greater_elem 8)) c"

definition op_vpclmulqdq :: "'m env \<Rightarrow> insn \<Rightarrow> 'm cpu \<Rightarrow> 'm cpu" where
  "op_vpclmulqdq env i c = vex_binop_xmm env i (clmul_bytes (imm8 i)) c"

section \<open>EVEX (avx512.cpp)\<close>

definition evex_rules :: vec_rules where
  "evex_rules = \<lparr>vr_read_note = ''evex read'', vr_write_note = '''', vr_bad_src = None, vr_bad_dst = None\<rparr>"

definition evex_read_vec :: "'m env \<Rightarrow> insn \<Rightarrow> operand \<Rightarrow> u8 \<Rightarrow> 'm cpu \<Rightarrow> u8 list option \<times> 'm cpu" where
  "evex_read_vec env i op width c = read_vec_by evex_rules env i op (unat width) c"

text \<open>The destination is always taken as a register.\<close>

definition evex_write_vec :: "u8 \<Rightarrow> u8 \<Rightarrow> u8 list \<Rightarrow> 'm cpu \<Rightarrow> 'm cpu" where
  "evex_write_vec r width v c = zero_zmm_upper r width (set_zmm_bytes r v c)"

definition lane_active :: "u64 \<Rightarrow> nat \<Rightarrow> bool" where
  "lane_active mask_bits k \<longleftrightarrow> drop_bit k mask_bits AND 1 \<noteq> 0"

definition evex_mask :: "insn \<Rightarrow> 'm cpu \<Rightarrow> u64" where
  "evex_mask i c = (let aaa = ucast (i_pad i AND 7) :: u8 in if aaa = 0 then - 1 else kreg c aaa)"

definition evex_zeroing :: "insn \<Rightarrow> bool" where
  "evex_zeroing i \<longleftrightarrow> i_pad i AND 8 \<noteq> 0"

text \<open>Element \<open>k\<close> of the result: the new one where the mask is set, else zero or the previous one.\<close>

definition masked_elem :: "u64 \<Rightarrow> bool \<Rightarrow> nat \<Rightarrow> u8 list \<Rightarrow> u8 list \<Rightarrow> nat \<Rightarrow> u8 list" where
  "masked_elem mask_bits zero w new prev k =
     (if lane_active mask_bits k then new else if zero then replicate w 0 else elem w k prev)"

definition masked_lanes :: "u64 \<Rightarrow> bool \<Rightarrow> nat \<Rightarrow> nat \<Rightarrow> (nat \<Rightarrow> u8 list) \<Rightarrow> u8 list \<Rightarrow> u8 list" where
  "masked_lanes mask_bits zero w width new prev =
     padded width (concat (map (\<lambda>k. masked_elem mask_bits zero w (new k) prev k) [0..<width div w]))"

definition masked_binop :: "'m env \<Rightarrow> insn \<Rightarrow> nat \<Rightarrow> (u8 list \<Rightarrow> u8 list \<Rightarrow> u8 list) \<Rightarrow> 'm cpu \<Rightarrow> 'm cpu" where
  "masked_binop env i w f c =
     (let width = unat (i_op_size i); src1 = zmm_bytes c (o_index (i_dst i)) width; mask_bits = evex_mask i c
      in read_then (evex_read_vec env i (i_src i) (i_op_size i) c) (\<lambda>src2 c.
           let prev = zmm_bytes c (o_reg (i_dst i)) width
           in evex_write_vec (o_reg (i_dst i)) (i_op_size i)
                (masked_lanes mask_bits (evex_zeroing i) w width (\<lambda>k. f (elem w k src1) (elem w k src2)) prev) c))"

definition masked_move :: "'m env \<Rightarrow> insn \<Rightarrow> nat \<Rightarrow> 'm cpu \<Rightarrow> 'm cpu" where
  "masked_move env i w c =
     (let width = unat (i_op_size i); mask_bits = evex_mask i c
      in read_then (evex_read_vec env i (i_src i) (i_op_size i) c) (\<lambda>src c.
           let prev = zmm_bytes c (o_reg (i_dst i)) width
           in evex_write_vec (o_reg (i_dst i)) (i_op_size i)
                (masked_lanes mask_bits (evex_zeroing i) w width (\<lambda>k. elem w k src) prev) c))"

text \<open>An element operation on numbers.\<close>

definition on_lane :: "nat \<Rightarrow> (u64 \<Rightarrow> u64 \<Rightarrow> u64) \<Rightarrow> u8 list \<Rightarrow> u8 list \<Rightarrow> u8 list" where
  "on_lane w f x y = le_bytes w (f (le_value x) (le_value y))"

definition op_vpxord :: "'m env \<Rightarrow> insn \<Rightarrow> 'm cpu \<Rightarrow> 'm cpu" where
  "op_vpxord env i c = masked_binop env i 4 (map2 (XOR)) c"

definition op_vpxorq :: "'m env \<Rightarrow> insn \<Rightarrow> 'm cpu \<Rightarrow> 'm cpu" where
  "op_vpxorq env i c = masked_binop env i 8 (map2 (XOR)) c"

definition op_vpandd :: "'m env \<Rightarrow> insn \<Rightarrow> 'm cpu \<Rightarrow> 'm cpu" where
  "op_vpandd env i c = masked_binop env i 4 (map2 (AND)) c"

definition op_vpandq :: "'m env \<Rightarrow> insn \<Rightarrow> 'm cpu \<Rightarrow> 'm cpu" where
  "op_vpandq env i c = masked_binop env i 8 (map2 (AND)) c"

definition op_vpord :: "'m env \<Rightarrow> insn \<Rightarrow> 'm cpu \<Rightarrow> 'm cpu" where
  "op_vpord env i c = masked_binop env i 4 (map2 (OR)) c"

definition op_vporq :: "'m env \<Rightarrow> insn \<Rightarrow> 'm cpu \<Rightarrow> 'm cpu" where
  "op_vporq env i c = masked_binop env i 8 (map2 (OR)) c"

definition op_vpaddb_evex :: "'m env \<Rightarrow> insn \<Rightarrow> 'm cpu \<Rightarrow> 'm cpu" where
  "op_vpaddb_evex env i c = masked_binop env i 1 (map2 (+)) c"

definition op_vpaddw_evex :: "'m env \<Rightarrow> insn \<Rightarrow> 'm cpu \<Rightarrow> 'm cpu" where
  "op_vpaddw_evex env i c = masked_binop env i 2 (on_lane 2 (+)) c"

definition op_vpaddd_evex :: "'m env \<Rightarrow> insn \<Rightarrow> 'm cpu \<Rightarrow> 'm cpu" where
  "op_vpaddd_evex env i c = masked_binop env i 4 (on_lane 4 (+)) c"

definition op_vpaddq_evex :: "'m env \<Rightarrow> insn \<Rightarrow> 'm cpu \<Rightarrow> 'm cpu" where
  "op_vpaddq_evex env i c = masked_binop env i 8 (on_lane 8 (+)) c"

definition op_vpsubb_evex :: "'m env \<Rightarrow> insn \<Rightarrow> 'm cpu \<Rightarrow> 'm cpu" where
  "op_vpsubb_evex env i c = masked_binop env i 1 (map2 (-)) c"

definition op_vpsubw_evex :: "'m env \<Rightarrow> insn \<Rightarrow> 'm cpu \<Rightarrow> 'm cpu" where
  "op_vpsubw_evex env i c = masked_binop env i 2 (on_lane 2 (-)) c"

definition op_vpsubd_evex :: "'m env \<Rightarrow> insn \<Rightarrow> 'm cpu \<Rightarrow> 'm cpu" where
  "op_vpsubd_evex env i c = masked_binop env i 4 (on_lane 4 (-)) c"

definition op_vpsubq_evex :: "'m env \<Rightarrow> insn \<Rightarrow> 'm cpu \<Rightarrow> 'm cpu" where
  "op_vpsubq_evex env i c = masked_binop env i 8 (on_lane 8 (-)) c"

definition op_vmovdqu32 :: "'m env \<Rightarrow> insn \<Rightarrow> 'm cpu \<Rightarrow> 'm cpu" where
  "op_vmovdqu32 env i c = masked_move env i 4 c"

definition op_vmovdqu64 :: "'m env \<Rightarrow> insn \<Rightarrow> 'm cpu \<Rightarrow> 'm cpu" where
  "op_vmovdqu64 env i c = masked_move env i 8 c"

definition op_vmovdqa32 :: "'m env \<Rightarrow> insn \<Rightarrow> 'm cpu \<Rightarrow> 'm cpu" where
  "op_vmovdqa32 env i c = masked_move env i 4 c"

definition op_vmovdqa64 :: "'m env \<Rightarrow> insn \<Rightarrow> 'm cpu \<Rightarrow> 'm cpu" where
  "op_vmovdqa64 env i c = masked_move env i 8 c"

section \<open>Facts\<close>

lemma lane_active_bit: "lane_active m k = bit m k"
  by (simp add: lane_active_def and_one_eq bit_iff_odd_drop_bit odd_iff_mod_2_eq_one)

lemma length_masked_elem: "length new = w \<Longrightarrow> w * k + w \<le> length prev \<Longrightarrow> length (masked_elem m z w new prev k) = w"
  by (simp add: masked_elem_def elem_def)

lemma elem_masked_lanes:
  assumes "k < width div w" "0 < w" "w dvd width" "length prev = width" "\<And>j. j < width div w \<Longrightarrow> length (new j) = w"
  shows "elem w k (masked_lanes m z w width new prev) = masked_elem m z w (new k) prev k"
proof -
  let ?g = "\<lambda>k. masked_elem m z w (new k) prev k"
  have len: "length (?g j) = w" if "j \<in> set [0..<width div w]" for j
    using that assms(3-5) mult_le_mono2 [of "Suc j" "width div w" w] by (intro length_masked_elem) auto
  have "length (concat (map ?g [0..<width div w])) = width"
    using length_concat_const [of "[0..<width div w]" ?g w, OF len] assms(3) by simp
  then show ?thesis using elem_concat [of "[0..<width div w]" ?g w k, OF len] assms(1) by (simp add: masked_lanes_def padded_full)
qed

end
