(* ===== verification/Gather_Scatter.thy ===== *)
theory Gather_Scatter
  imports Vector_Extended Chain_Handlers
begin

text \<open>
  Gathers and scatters (\<^verbatim>\<open>gather.cpp\<close>): one memory access per active lane, in the order of the lanes.  A gather
  collects into local buffers and stores them at the end, so a lane that faults leaves the registers as they were; a
  scatter has already written the lanes before it.  The index buffer has 32 bytes in a gather and 64 in a scatter, and some
  forms read indices behind its end; those bytes are the parameter \<open>junk\<close>.
\<close>

section \<open>Lanes\<close>

definition buf_byte :: "(nat \<Rightarrow> u8) \<Rightarrow> u8 list \<Rightarrow> nat \<Rightarrow> u8" where
  "buf_byte junk buf i = (if i < length buf then buf ! i else junk i)"

text \<open>An index of 4 bytes is sign-extended, any other has 8 bytes.\<close>

definition index_lane :: "(nat \<Rightarrow> u8) \<Rightarrow> u8 list \<Rightarrow> nat \<Rightarrow> nat \<Rightarrow> u64" where
  "index_lane junk vec off n =
     (if n = 4 then sign_extend (le_value (map (\<lambda>i. buf_byte junk vec (off + i)) [0..<4])) 4
      else le_value (map (\<lambda>i. buf_byte junk vec (off + i)) [0..<8]))"

definition data_lane :: "insn \<Rightarrow> nat" where
  "data_lane i = unat (i_imm_extra i AND 0xFF)"

definition idx_lane :: "insn \<Rightarrow> nat" where
  "idx_lane i = unat (drop_bit 8 (i_imm_extra i) AND 0xFF)"

definition num_lanes :: "insn \<Rightarrow> nat" where
  "num_lanes i = unat (i_op_size i) div data_lane i"

definition seg_base :: "operand \<Rightarrow> 'm cpu \<Rightarrow> GuestAddr" where
  "seg_base op c = (case o_seg op of Seg_FS \<Rightarrow> c_fs_base c | Seg_GS \<Rightarrow> c_gs_base c | _ \<Rightarrow> 0)"

definition base_val :: "operand \<Rightarrow> 'm cpu \<Rightarrow> u64" where
  "base_val op c = (if o_reg op = REG_NONE then 0 else reg c (o_reg op))"

definition lane_addr :: "(nat \<Rightarrow> u8) \<Rightarrow> insn \<Rightarrow> u8 list \<Rightarrow> 'm cpu \<Rightarrow> nat \<Rightarrow> GuestAddr" where
  "lane_addr junk i idx_vec c k =
     seg_base (i_src i) c + base_val (i_src i) c +
     index_lane junk idx_vec (k * idx_lane i) (idx_lane i) * (if o_scale (i_src i) \<noteq> 0 then ucast (o_scale (i_src i)) else 1) +
     o_imm (i_src i)"

section \<open>Gather\<close>

definition patch_bytes :: "nat \<Rightarrow> u8 list \<Rightarrow> u8 list \<Rightarrow> u8 list" where
  "patch_bytes off bs buf = take off buf @ bs @ drop (off + length bs) buf"

text \<open>The high bit of the mask element decides.\<close>

definition gather_active :: "nat \<Rightarrow> u8 list \<Rightarrow> nat \<Rightarrow> bool" where
  "gather_active w mask_vec k \<longleftrightarrow> mask_vec ! (k * w + (w - 1)) AND 0x80 \<noteq> 0"

fun gather_loop ::
  "'m provider \<Rightarrow> (nat \<Rightarrow> GuestAddr) \<Rightarrow> nat \<Rightarrow> nat list \<Rightarrow> u8 list \<Rightarrow> u8 list \<Rightarrow> 'm cpu \<Rightarrow> (u8 list \<times> u8 list) option \<times> 'm cpu" where
  "gather_loop p addr w [] dst_vec mask_vec c = (Some (dst_vec, mask_vec), c)"
| "gather_loop p addr w (k # ks) dst_vec mask_vec c =
     (if \<not> gather_active w mask_vec k then gather_loop p addr w ks dst_vec mask_vec c
      else
        (case prov_read p (addr k) w (c_mem c) of
           (s, bs, m) \<Rightarrow>
             (let c = c\<lparr>c_mem := m\<rparr>
              in if fail s then (None, set_fault FK_PageFault (addr k) s ''vgather lane read'' c)
                 else gather_loop p addr w ks (patch_bytes (k * w) (padded w bs) dst_vec)
                        (patch_bytes (k * w) (replicate w 0) mask_vec) c)))"

definition store_ymm :: "u8 \<Rightarrow> u8 \<Rightarrow> u8 list \<Rightarrow> 'm cpu \<Rightarrow> 'm cpu" where
  "store_ymm r width vec c =
     (let c = set_zmm_bytes r (take (unat width) vec) c in if width = 16 then zero_ymm_upper r c else c)"

definition do_gather :: "(nat \<Rightarrow> u8) \<Rightarrow> 'm env \<Rightarrow> insn \<Rightarrow> 'm cpu \<Rightarrow> 'm cpu" where
  "do_gather junk env i c =
     (case e_mem_read env of
        None \<Rightarrow> set_fault FK_ProviderFailure (c_rip c) St_ProviderFailure ''vgather read'' c
      | Some p \<Rightarrow>
          (let idx_vec = zmm_bytes c (o_index (i_src i)) 32; mask_vec = zmm_bytes c (o_index (i_dst i)) 32;
               dst_vec = zmm_bytes c (o_reg (i_dst i)) 32
           in read_then (gather_loop p (lane_addr junk i idx_vec c) (data_lane i) [0..<num_lanes i] dst_vec mask_vec c)
                (\<lambda>(dst_vec, mask_vec) c.
                   store_ymm (o_index (i_dst i)) (i_op_size i) mask_vec
                     (store_ymm (o_reg (i_dst i)) (i_op_size i) dst_vec c))))"

definition op_vpgatherdd :: "(nat \<Rightarrow> u8) \<Rightarrow> 'm env \<Rightarrow> insn \<Rightarrow> 'm cpu \<Rightarrow> 'm cpu" where "op_vpgatherdd = do_gather"
definition op_vpgatherdq :: "(nat \<Rightarrow> u8) \<Rightarrow> 'm env \<Rightarrow> insn \<Rightarrow> 'm cpu \<Rightarrow> 'm cpu" where "op_vpgatherdq = do_gather"
definition op_vpgatherqd :: "(nat \<Rightarrow> u8) \<Rightarrow> 'm env \<Rightarrow> insn \<Rightarrow> 'm cpu \<Rightarrow> 'm cpu" where "op_vpgatherqd = do_gather"
definition op_vpgatherqq :: "(nat \<Rightarrow> u8) \<Rightarrow> 'm env \<Rightarrow> insn \<Rightarrow> 'm cpu \<Rightarrow> 'm cpu" where "op_vpgatherqq = do_gather"
definition op_vgatherdps :: "(nat \<Rightarrow> u8) \<Rightarrow> 'm env \<Rightarrow> insn \<Rightarrow> 'm cpu \<Rightarrow> 'm cpu" where "op_vgatherdps = do_gather"
definition op_vgatherdpd :: "(nat \<Rightarrow> u8) \<Rightarrow> 'm env \<Rightarrow> insn \<Rightarrow> 'm cpu \<Rightarrow> 'm cpu" where "op_vgatherdpd = do_gather"
definition op_vgatherqps :: "(nat \<Rightarrow> u8) \<Rightarrow> 'm env \<Rightarrow> insn \<Rightarrow> 'm cpu \<Rightarrow> 'm cpu" where "op_vgatherqps = do_gather"
definition op_vgatherqpd :: "(nat \<Rightarrow> u8) \<Rightarrow> 'm env \<Rightarrow> insn \<Rightarrow> 'm cpu \<Rightarrow> 'm cpu" where "op_vgatherqpd = do_gather"

section \<open>Scatter\<close>

fun scatter_loop ::
  "'m provider \<Rightarrow> (nat \<Rightarrow> GuestAddr) \<Rightarrow> nat \<Rightarrow> u8 \<Rightarrow> u64 \<Rightarrow> u8 list \<Rightarrow> nat list \<Rightarrow> 'm cpu \<Rightarrow> 'm cpu" where
  "scatter_loop p addr w aaa mask_bits src_vec [] c = c"
| "scatter_loop p addr w aaa mask_bits src_vec (k # ks) c =
     (if \<not> lane_active mask_bits k then scatter_loop p addr w aaa mask_bits src_vec ks c
      else
        (case prov_write p (addr k) (elem w k src_vec) (c_mem c) of
           (s, m) \<Rightarrow>
             (let c = c\<lparr>c_mem := m\<rparr>
              in if fail s then set_fault FK_PageFault (addr k) s ''vscatter lane write'' c
                 else scatter_loop p addr w aaa mask_bits src_vec ks
                        (if aaa \<noteq> 0 then set_k aaa (kreg c aaa AND NOT (push_bit k 1)) c else c))))"

definition do_scatter :: "(nat \<Rightarrow> u8) \<Rightarrow> 'm env \<Rightarrow> insn \<Rightarrow> 'm cpu \<Rightarrow> 'm cpu" where
  "do_scatter junk env i c =
     (case e_mem_write env of
        None \<Rightarrow> set_fault FK_ProviderFailure (c_rip c) St_ProviderFailure ''vscatter write'' c
      | Some p \<Rightarrow>
          (let width = unat (i_op_size i); aaa = ucast (i_pad i AND 7) :: u8;
               src_vec = padded 64 (zmm_bytes c (o_reg (i_dst i)) width);
               idx_vec = padded 64 (zmm_bytes c (o_index (i_src i)) width)
           in scatter_loop p (lane_addr junk i idx_vec c) (data_lane i) aaa (evex_mask i c) src_vec [0..<num_lanes i] c))"

definition op_vpscatterdd :: "(nat \<Rightarrow> u8) \<Rightarrow> 'm env \<Rightarrow> insn \<Rightarrow> 'm cpu \<Rightarrow> 'm cpu" where "op_vpscatterdd = do_scatter"
definition op_vpscatterdq :: "(nat \<Rightarrow> u8) \<Rightarrow> 'm env \<Rightarrow> insn \<Rightarrow> 'm cpu \<Rightarrow> 'm cpu" where "op_vpscatterdq = do_scatter"
definition op_vpscatterqd :: "(nat \<Rightarrow> u8) \<Rightarrow> 'm env \<Rightarrow> insn \<Rightarrow> 'm cpu \<Rightarrow> 'm cpu" where "op_vpscatterqd = do_scatter"
definition op_vpscatterqq :: "(nat \<Rightarrow> u8) \<Rightarrow> 'm env \<Rightarrow> insn \<Rightarrow> 'm cpu \<Rightarrow> 'm cpu" where "op_vpscatterqq = do_scatter"
definition op_vscatterdps :: "(nat \<Rightarrow> u8) \<Rightarrow> 'm env \<Rightarrow> insn \<Rightarrow> 'm cpu \<Rightarrow> 'm cpu" where "op_vscatterdps = do_scatter"
definition op_vscatterdpd :: "(nat \<Rightarrow> u8) \<Rightarrow> 'm env \<Rightarrow> insn \<Rightarrow> 'm cpu \<Rightarrow> 'm cpu" where "op_vscatterdpd = do_scatter"
definition op_vscatterqps :: "(nat \<Rightarrow> u8) \<Rightarrow> 'm env \<Rightarrow> insn \<Rightarrow> 'm cpu \<Rightarrow> 'm cpu" where "op_vscatterqps = do_scatter"
definition op_vscatterqpd :: "(nat \<Rightarrow> u8) \<Rightarrow> 'm env \<Rightarrow> insn \<Rightarrow> 'm cpu \<Rightarrow> 'm cpu" where "op_vscatterqpd = do_scatter"

section \<open>What a gather leaves\<close>

lemma length_patch_bytes: "off + length bs \<le> length buf \<Longrightarrow> length (patch_bytes off bs buf) = length buf"
  by (simp add: patch_bytes_def)

lemma nth_patch_bytes:
  assumes "off + length bs \<le> length buf" "x < length buf"
  shows "patch_bytes off bs buf ! x = (if off \<le> x \<and> x < off + length bs then bs ! (x - off) else buf ! x)"
  using assms by (auto simp: patch_bytes_def nth_append min_def)

lemma in_lane: "0 < w \<Longrightarrow> k * w \<le> x \<and> x < k * w + w \<longleftrightarrow> x div w = (k :: nat)"
  by (metis add.commute div_nat_eqI dividend_less_times_div mult.commute mult_Suc times_div_less_eq_dividend)

text \<open>The buffers after the lanes of a list, each loaded with the bytes \<open>ld k\<close>.\<close>

definition gathered :: "nat \<Rightarrow> (nat \<Rightarrow> nat \<Rightarrow> u8) \<Rightarrow> (nat \<Rightarrow> bool) \<Rightarrow> u8 list \<Rightarrow> u8 list" where
  "gathered w ld on buf = map (\<lambda>x. if on (x div w) then ld (x div w) (x mod w) else buf ! x) [0..<length buf]"

lemma gathered_none: "(\<And>x. x < length buf \<Longrightarrow> \<not> on (x div w)) \<Longrightarrow> gathered w ld on buf = buf"
  by (rule nth_equalityI) (auto simp: gathered_def)

lemma gathered_step:
  assumes "0 < w" "k * w + w \<le> length buf" "length bs = w" "\<And>j. j < w \<Longrightarrow> bs ! j = ld k j" "\<not> on k"
  shows "gathered w ld on (patch_bytes (k * w) bs buf) = gathered w ld (\<lambda>j. j = k \<or> on j) buf"
proof (rule nth_equalityI)
  have len: "length (patch_bytes (k * w) bs buf) = length buf" using assms by (simp add: length_patch_bytes)
  then show "length (gathered w ld on (patch_bytes (k * w) bs buf)) = length (gathered w ld (\<lambda>j. j = k \<or> on j) buf)"
    by (simp add: gathered_def)
  fix x assume "x < length (gathered w ld on (patch_bytes (k * w) bs buf))"
  then have x: "x < length buf" using len by (simp add: gathered_def)
  have nth: "patch_bytes (k * w) bs buf ! x = (if x div w = k then bs ! (x - k * w) else buf ! x)"
    using nth_patch_bytes [of "k * w" bs buf x] assms x in_lane [of w k x] by simp
  have "x - k * w = x mod w" if "x div w = k" using that by (metis minus_div_mult_eq_mod)
  then show "gathered w ld on (patch_bytes (k * w) bs buf) ! x = gathered w ld (\<lambda>j. j = k \<or> on j) buf ! x"
    using x len nth assms by (auto simp: gathered_def)
qed

lemma first_match_cong: "(\<And>k. k \<in> set ks \<Longrightarrow> P k = Q k) \<Longrightarrow> first_match P ks = first_match Q ks"
  by (induction ks) auto

lemma first_match_upt:
  "first_match P [a..<n] = (if \<exists>k. a \<le> k \<and> k < n \<and> P k then Some (LEAST k. a \<le> k \<and> k < n \<and> P k) else None)"
proof (induction "n - a" arbitrary: a)
  case (Suc d)
  then have u: "[a..<n] = a # [Suc a..<n]" and IH: "first_match P [Suc a..<n] =
      (if \<exists>k. Suc a \<le> k \<and> k < n \<and> P k then Some (LEAST k. Suc a \<le> k \<and> k < n \<and> P k) else None)"
    by (simp_all add: upt_conv_Cons)
  show ?case
  proof (cases "P a")
    case True
    moreover have "a < n" using Suc.hyps(2) by simp
    ultimately have "\<exists>k. a \<le> k \<and> k < n \<and> P k" "(LEAST k. a \<le> k \<and> k < n \<and> P k) = a" by (auto intro: Least_equality)
    then show ?thesis unfolding u using True by simp
  next
    case False
    then have "(Suc a \<le> k \<and> k < n \<and> P k) = (a \<le> k \<and> k < n \<and> P k)" for k by (metis Suc_leD le_antisym not_less_eq_eq)
    then show ?thesis unfolding u using False IH by auto
  qed
qed simp

definition span_mapped :: "(GuestAddr \<Rightarrow> u8 option) \<Rightarrow> GuestAddr \<Rightarrow> nat \<Rightarrow> bool" where
  "span_mapped V a n \<longleftrightarrow> (\<forall>i < n. V (a + of_nat i) \<noteq> None)"

definition byte_at :: "(GuestAddr \<Rightarrow> u8 option) \<Rightarrow> GuestAddr \<Rightarrow> nat \<Rightarrow> u8" where
  "byte_at V a j = the (V (a + of_nat j))"

lemma gather_active_patch:
  assumes "0 < w" "k \<noteq> j" "k * w + w \<le> length mk" "j * w + w \<le> length mk"
  shows "gather_active w (patch_bytes (k * w) (replicate w 0) mk) j = gather_active w mk j"
proof -
  have j: "j * w + (w - 1) < length mk" using assms by linarith
  have "(j * w + (w - 1)) div w = j" using assms(1) by (subst in_lane [symmetric]) linarith+
  then have "\<not> (k * w \<le> j * w + (w - 1) \<and> j * w + (w - 1) < k * w + w)"
    using in_lane [OF assms(1), of k "j * w + (w - 1)"] assms(2) by auto
  then have "patch_bytes (k * w) (replicate w 0) mk ! (j * w + (w - 1)) = mk ! (j * w + (w - 1))"
    using j assms(3) by (subst nth_patch_bytes) auto
  then show ?thesis unfolding gather_active_def by simp
qed

context paged_memory
begin

text \<open>The loop stops at the first active lane that is not fully mapped; without one, all active lanes are loaded.\<close>

lemma gather_loop_result:
  assumes "inv (c_mem c)" "view (c_mem c) = V" "0 < w" "distinct ks"
    and "\<forall>k\<in>set ks. k * w + w \<le> length dst \<and> k * w + w \<le> length mk"
  shows "\<exists>s m. inv m \<and> view m = V \<and> gather_loop \<lparr>prov_read = rd, prov_write = wr\<rparr> addr w ks dst mk c =
    (case first_match (\<lambda>k. gather_active w mk k \<and> \<not> span_mapped V (addr k) w) ks of
       Some k \<Rightarrow> (None, set_fault FK_PageFault (addr k) s ''vgather lane read'' (c\<lparr>c_mem := m\<rparr>))
     | None \<Rightarrow> (Some (gathered w (\<lambda>k. byte_at V (addr k)) (\<lambda>k. k \<in> set ks \<and> gather_active w mk k) dst,
          gathered w (\<lambda>_ _. 0) (\<lambda>k. k \<in> set ks \<and> gather_active w mk k) mk), c\<lparr>c_mem := m\<rparr>))"
  using assms
proof (induction ks arbitrary: dst mk c)
  case Nil
  then show ?case by (intro exI [of _ St_Ok] exI [of _ "c_mem c"]) (simp add: gathered_none)
next
  case (Cons k ks)
  let ?p = "\<lparr>prov_read = rd, prov_write = wr\<rparr>"
  note inv = Cons.prems(1) and V = Cons.prems(2) and w = Cons.prems(3)
  have ks: "distinct ks" "k \<notin> set ks" "k * w + w \<le> length dst" "k * w + w \<le> length mk" using Cons.prems by auto
  show ?case
  proof (cases "gather_active w mk k")
    case False
    then have eq: "(\<lambda>j. j \<in> set (k # ks) \<and> gather_active w mk j) = (\<lambda>j. j \<in> set ks \<and> gather_active w mk j)" by auto
    show ?thesis using Cons.IH [OF inv V w ks(1), of dst mk] Cons.prems(5) False unfolding eq by simp
  next
    case act: True
    obtain s bs m where rd: "rd (addr k) w (c_mem c) = (s, bs, m)" by (metis prod_cases3)
    note keep = rd_keeps [OF inv rd]
    show ?thesis
    proof (cases "s = St_Ok")
      case False
      have "\<not> span_mapped V (addr k) w"
      proof
        assume "span_mapped V (addr k) w"
        then have "\<forall>i < w. view (c_mem c) (addr k + of_nat i) \<noteq> None" using V by (simp add: span_mapped_def)
        from rd_mapped [OF inv this] show False using rd False by auto
      qed
      then show ?thesis using act rd False keep V by (intro exI [of _ s] exI [of _ m]) simp
    next
      case True
      note ok = rd_ok [OF inv rd [unfolded True], unfolded V]
      let ?c = "c\<lparr>c_mem := m\<rparr>" and ?dst = "patch_bytes (k * w) bs dst" and ?mk = "patch_bytes (k * w) (replicate w 0) mk"
      have step: "gather_loop ?p addr w (k # ks) dst mk c = gather_loop ?p addr w ks ?dst ?mk ?c"
        using act rd True ok by (simp add: padded_full)
      have len: "length ?dst = length dst" "length ?mk = length mk" using ks ok by (simp_all add: length_patch_bytes)
      have active: "gather_active w ?mk j = gather_active w mk j" if "j \<in> set ks" for j
        using that ks Cons.prems(5) by (intro gather_active_patch [OF w]) auto
      have act_eq: "(\<lambda>j. j \<in> set ks \<and> gather_active w ?mk j) = (\<lambda>j. j \<in> set ks \<and> gather_active w mk j)" using active by auto
      have eq: "(\<lambda>j. j = k \<or> j \<in> set ks \<and> gather_active w mk j) = (\<lambda>j. j \<in> set (k # ks) \<and> gather_active w mk j)"
        using act by auto
      have d: "gathered w (\<lambda>k. byte_at V (addr k)) (\<lambda>j. j \<in> set ks \<and> gather_active w mk j) ?dst =
          gathered w (\<lambda>k. byte_at V (addr k)) (\<lambda>j. j \<in> set (k # ks) \<and> gather_active w mk j) dst"
        unfolding eq [symmetric] using ok ks w by (intro gathered_step) (auto simp: byte_at_def)
      have m: "gathered w (\<lambda>_ _. 0) (\<lambda>j. j \<in> set ks \<and> gather_active w mk j) ?mk =
          gathered w (\<lambda>_ _. 0) (\<lambda>j. j \<in> set (k # ks) \<and> gather_active w mk j) mk"
        unfolding eq [symmetric] using ks w by (intro gathered_step) auto
      have mapped: "span_mapped V (addr k) w" using ok by (simp add: span_mapped_def)
      have fm: "first_match (\<lambda>j. gather_active w mk j \<and> \<not> span_mapped V (addr j) w) (k # ks) =
          first_match (\<lambda>j. gather_active w ?mk j \<and> \<not> span_mapped V (addr j) w) ks"
        using mapped active by (simp cong: first_match_cong)
      have rest: "\<forall>k\<in>set ks. k * w + w \<le> length ?dst \<and> k * w + w \<le> length ?mk" using Cons.prems(5) len by simp
      have "inv (c_mem ?c)" "view (c_mem ?c) = V" using keep V by simp_all
      have again: "?c\<lparr>c_mem := m'\<rparr> = c\<lparr>c_mem := m'\<rparr>" for m' by simp
      from Cons.IH [OF \<open>inv (c_mem ?c)\<close> \<open>view (c_mem ?c) = V\<close> w ks(1) rest] obtain s' m' where "inv m'" "view m' = V"
        "gather_loop ?p addr w ks ?dst ?mk ?c =
          (case first_match (\<lambda>k. gather_active w ?mk k \<and> \<not> span_mapped V (addr k) w) ks of
             Some k \<Rightarrow> (None, set_fault FK_PageFault (addr k) s' ''vgather lane read'' (c\<lparr>c_mem := m'\<rparr>))
           | None \<Rightarrow> (Some (gathered w (\<lambda>k. byte_at V (addr k)) (\<lambda>j. j \<in> set (k # ks) \<and> gather_active w mk j) dst,
                gathered w (\<lambda>_ _. 0) (\<lambda>j. j \<in> set (k # ks) \<and> gather_active w mk j) mk), c\<lparr>c_mem := m'\<rparr>))"
        unfolding act_eq d m again by (elim exE conjE) (rule that)
      then show ?thesis unfolding step fm by blast
    qed
  qed
qed

end

lemma zmm_store_ymm:
  assumes "unat width \<le> length vec"
  shows "c_zmm (store_ymm r width vec c) r' x =
    (if r' = r then (if x < unat width then vec ! x else if width = 16 \<and> x < 64 then 0 else c_zmm c r x) else c_zmm c r' x)"
  using assms by (auto simp: store_ymm_def set_zmm_bytes_def zero_ymm_upper_def Let_def)

text \<open>Which lanes a gather loads, and from where.\<close>

definition gather_lanes :: "insn \<Rightarrow> 'm cpu \<Rightarrow> nat set" where
  "gather_lanes i c = {k. k < num_lanes i \<and> gather_active (data_lane i) (zmm_bytes c (o_index (i_dst i)) 32) k}"

definition gather_addr :: "(nat \<Rightarrow> u8) \<Rightarrow> insn \<Rightarrow> 'm cpu \<Rightarrow> nat \<Rightarrow> GuestAddr" where
  "gather_addr junk i c = lane_addr junk i (zmm_bytes c (o_index (i_src i)) 32) c"

definition gather_form :: "insn \<Rightarrow> bool" where
  "gather_form i \<longleftrightarrow> i_op_size i \<in> {16, 32} \<and> data_lane i \<in> {4, 8} \<and> o_reg (i_dst i) \<noteq> o_index (i_dst i)"

text \<open>C23: A gather over the provider chain.  Without an unmapped active lane, every active lane of the destination
  receives the bytes the guest sees at its address and its mask lane is cleared, the other lanes keep their bytes, the rest
  of the two 256-bit registers is cleared by the 128-bit form only, and nothing else changes.  Otherwise the first active lane that is not fully mapped faults at its
  address and no register changes.\<close>

theorem gather_chain:
  fixes i :: insn and c :: "chain cpu" and junk :: "nat \<Rightarrow> u8" and h :: "chain hook_manager option"
  defines "V \<equiv> chain_view (c_mem c)" and "d \<equiv> o_reg (i_dst i)" and "mk \<equiv> o_index (i_dst i)" and "w \<equiv> data_lane i"
    and "width \<equiv> unat (i_op_size i)" and "addr \<equiv> gather_addr junk i c" and "on \<equiv> gather_lanes i c"
    and "c' \<equiv> do_gather junk (mem_env chain_provider h) i c"
  assumes "chain_inv (c_mem c)" "gather_form i"
  shows "chain_inv (c_mem c') \<and> chain_view (c_mem c') = V \<and>
    (if \<forall>k\<in>on. span_mapped V (addr k) w then
       (\<forall>x < width. c_zmm c' d x = (if x div w \<in> on then byte_at V (addr (x div w)) (x mod w) else c_zmm c d x) \<and>
          c_zmm c' mk x = (if x div w \<in> on then 0 else c_zmm c mk x)) \<and>
       (\<forall>x \<ge> width. \<forall>r \<in> {d, mk}. c_zmm c' r x = (if width = 16 \<and> x < 64 then 0 else c_zmm c r x)) \<and>
       (\<forall>r x. r \<noteq> d \<and> r \<noteq> mk \<longrightarrow> c_zmm c' r x = c_zmm c r x) \<and> c' = c\<lparr>c_zmm := c_zmm c', c_mem := c_mem c'\<rparr>
     else \<exists>s. c' = set_fault FK_PageFault (addr (LEAST k. k \<in> on \<and> \<not> span_mapped V (addr k) w)) s ''vgather lane read''
         (c\<lparr>c_mem := c_mem c'\<rparr>))"
proof -
  let ?n = "num_lanes i" and ?mv = "zmm_bytes c mk 32" and ?dv = "zmm_bytes c d 32"
  have w: "0 < w" "w \<in> {4, 8}" and width: "width \<in> {16, 32}" and dm: "d \<noteq> mk"
    using assms(10) by (auto simp: gather_form_def w_def width_def d_def mk_def)
  have w16: "i_op_size i = 16 \<longleftrightarrow> width = 16" by (simp add: width_def word_unat_eq_iff)
  have n: "?n * w = width" "width \<le> 32" using w width by (auto simp: num_lanes_def w_def width_def)
  have fit: "k * w + w \<le> 32" if "k < ?n" for k
    using mult_le_mono1 [of "Suc k" ?n w] that n by simp
  have on: "k \<in> on \<longleftrightarrow> k \<in> set [0..<?n] \<and> gather_active w ?mv k" for k
    by (simp add: on_def gather_lanes_def w_def mk_def)
  obtain s m where m: "chain_inv m" "chain_view m = V" and loop: "gather_loop chain_provider addr w [0..<?n] ?dv ?mv c =
    (case first_match (\<lambda>k. gather_active w ?mv k \<and> \<not> span_mapped V (addr k) w) [0..<?n] of
       Some k \<Rightarrow> (None, set_fault FK_PageFault (addr k) s ''vgather lane read'' (c\<lparr>c_mem := m\<rparr>))
     | None \<Rightarrow> (Some (gathered w (\<lambda>k. byte_at V (addr k)) (\<lambda>k. k \<in> set [0..<?n] \<and> gather_active w ?mv k) ?dv,
          gathered w (\<lambda>_ _. 0) (\<lambda>k. k \<in> set [0..<?n] \<and> gather_active w ?mv k) ?mv), c\<lparr>c_mem := m\<rparr>))"
    using chain.gather_loop_result [OF assms(9) _ w(1), of V "[0..<?n]" ?dv ?mv addr] fit
    unfolding prov_eta by (auto simp: V_def)
  have c': "c' = read_then (gather_loop chain_provider addr w [0..<?n] ?dv ?mv c)
      (\<lambda>(dst_vec, mask_vec) c. store_ymm mk (i_op_size i) mask_vec (store_ymm d (i_op_size i) dst_vec c))"
    by (simp add: c'_def do_gather_def addr_def gather_addr_def w_def d_def mk_def Let_def)
  have nth: "c_zmm c r x = zmm_bytes c r 32 ! x" if "x < width" for r x using that n(2) by simp
  show ?thesis
  proof (cases "\<forall>k\<in>on. span_mapped V (addr k) w")
    case True
    then have "first_match (\<lambda>k. gather_active w ?mv k \<and> \<not> span_mapped V (addr k) w) [0..<?n] = None"
      unfolding first_match_upt using on by auto
    then have c'': "c' = store_ymm mk (i_op_size i) (gathered w (\<lambda>_ _. 0) (\<lambda>k. k \<in> on) ?mv)
        (store_ymm d (i_op_size i) (gathered w (\<lambda>k. byte_at V (addr k)) (\<lambda>k. k \<in> on) ?dv) (c\<lparr>c_mem := m\<rparr>))"
      unfolding c' loop on by simp
    have len: "unat (i_op_size i) \<le> length (gathered w ld on' (zmm_bytes c r 32))" for ld on' r
      using n(2) by (simp add: gathered_def width_def)
    have frame: "c' = c\<lparr>c_zmm := c_zmm c', c_mem := m\<rparr>"
      unfolding c'' by (simp add: store_ymm_def set_zmm_bytes_def zero_ymm_upper_def Let_def)
    have g: "gathered w ld on' (zmm_bytes c r 32) ! x = (if on' (x div w) then ld (x div w) (x mod w) else c_zmm c r x)"
      if "x < width" for ld on' r x using that n(2) by (simp add: gathered_def)
    have mem: "c_zmm (c\<lparr>c_mem := m\<rparr>) = c_zmm c" by simp
    have zmm: "c_zmm c' r x = (if r = mk then (if x < width then (if x div w \<in> on then 0 else c_zmm c mk x)
          else if width = 16 \<and> x < 64 then 0 else c_zmm c mk x)
        else if r = d then (if x < width then (if x div w \<in> on then byte_at V (addr (x div w)) (x mod w) else c_zmm c d x)
          else if width = 16 \<and> x < 64 then 0 else c_zmm c d x)
        else c_zmm c r x)" for r x
      unfolding c'' zmm_store_ymm [OF len] w16 width_def [symmetric]
      by (cases "x < width"; cases "r = mk"; cases "r = d")
        (simp_all only: g if_True if_False simp_thms dm mem)
    have memeq: "c_mem c' = m" by (subst frame) simp
    show ?thesis unfolding memeq if_P [OF True]
      by (intro conjI frame m) (simp_all add: zmm dm)
  next
    case False
    then obtain k where "k \<in> on" "\<not> span_mapped V (addr k) w" by blast
    have "first_match (\<lambda>k. gather_active w ?mv k \<and> \<not> span_mapped V (addr k) w) [0..<?n] =
        Some (LEAST k. k \<in> on \<and> \<not> span_mapped V (addr k) w)"
      unfolding first_match_upt using \<open>k \<in> on\<close> \<open>\<not> span_mapped V (addr k) w\<close> by (simp add: on conj_assoc) blast
    then have "c' = set_fault FK_PageFault (addr (LEAST k. k \<in> on \<and> \<not> span_mapped V (addr k) w)) s
        ''vgather lane read'' (c\<lparr>c_mem := m\<rparr>)"
      unfolding c' loop by simp
    moreover from this have "c_mem c' = m" by (simp add: set_fault_def)
    ultimately show ?thesis using False m by auto
  qed
qed

text \<open>VPGATHERDD of one active lane: the three other lanes of the destination keep their bytes.\<close>

definition sample_gather :: insn where
  "sample_gather = (plain_insn 16 ((xmm_op 1)\<lparr>o_index := 2\<rparr>)
     (zero_operand\<lparr>o_kind := OK_Mem, o_reg := 0, o_index := 3, o_scale := 4\<rparr>))\<lparr>i_imm_extra := 0x0404\<rparr>"

definition gather_cpu :: "chain cpu" where
  "gather_cpu = set_zmm_bytes 1 [9, 9, 9, 9, 8, 8, 8, 8] (set_zmm_bytes 2 [0, 0, 0, 0x80] (set_zmm_bytes 3 [1]
     (set_r64 0 0x10000 (initial_cpu (snd (chain_write 0x10004 [1, 2, 3, 4] (new_chain sample_shadow)))))))"

lemma gather_cpu_mem:
  "chain_inv (c_mem gather_cpu)" "\<forall>i < 4. chain_view (c_mem gather_cpu) (0x10004 + of_nat i) = Some ([1, 2, 3, 4] ! i)"
proof -
  let ?m = "new_chain sample_shadow" and ?bs = "[1, 2, 3, 4] :: u8 list"
  have w: "chain_write 0x10004 ?bs ?m = (St_Ok, c_mem gather_cpu)"
    using sample_write [of "0x10004" ?bs] by (cases "chain_write 0x10004 ?bs ?m") (simp add: gather_cpu_def set_r64_def initial_cpu_def)
  have l: "length ?bs \<le> 2 ^ 32" by simp
  show "chain_inv (c_mem gather_cpu)" by (rule chain.wr_inv [OF new_chain_inv [OF sample_shadow_inv] w l])
  show "\<forall>i < 4. chain_view (c_mem gather_cpu) (0x10004 + of_nat i) = Some (?bs ! i)"
    using chain.wr_in [OF new_chain_inv [OF sample_shadow_inv] w l] by simp
qed

lemma sample_gather_fields:
  "data_lane sample_gather = 4" "num_lanes sample_gather = 4" "i_op_size sample_gather = 16" "o_reg (i_dst sample_gather) = 1"
  "o_index (i_dst sample_gather) = 2" "gather_form sample_gather"
  by (simp_all add: sample_gather_def data_lane_def num_lanes_def gather_form_def plain_insn_def xmm_op_def zero_operand_def)

lemma sample_gather_lanes: "gather_lanes sample_gather gather_cpu = {0}"
proof -
  have mk: "c_zmm gather_cpu 2 j = (if j < 4 then [0, 0, 0, 0x80] ! j else 0)" for j
    by (simp add: gather_cpu_def set_zmm_bytes_def set_r64_def initial_cpu_def)
  have act: "gather_active 4 (zmm_bytes gather_cpu 2 32) k \<longleftrightarrow> k = 0" if "k < 4" for k
  proof -
    have "zmm_bytes gather_cpu 2 32 ! (k * 4 + 3) = (if k = 0 then 0x80 else 0)" using that mk by simp
    then show ?thesis by (simp add: gather_active_def)
  qed
  show ?thesis unfolding gather_lanes_def sample_gather_fields using act by auto
qed

lemma sample_gather_addr: "gather_addr junk sample_gather gather_cpu 0 = 0x10004"
proof -
  have "sign_extend 1 4 = 1" by (simp add: sign_extend_def mask_for_def sign_mask_def sign_bit_pos_def)
  then show ?thesis
    by (simp add: gather_addr_def lane_addr_def seg_base_def base_val_def index_lane_def buf_byte_def idx_lane_def sample_gather_def
      plain_insn_def xmm_op_def zero_operand_def gather_cpu_def set_zmm_bytes_def set_r64_def initial_cpu_def reg_def upt_rec)
qed

theorem gather_chain_witness:
  "c_zmm (do_gather (\<lambda>_. 0) (mem_env chain_provider None) sample_gather gather_cpu) 1 3 = 4 \<and>
   c_zmm (do_gather (\<lambda>_. 0) (mem_env chain_provider None) sample_gather gather_cpu) 1 7 = 8 \<and>
   c_zmm (do_gather (\<lambda>_. 0) (mem_env chain_provider None) sample_gather gather_cpu) 2 3 = 0"
proof -
  let ?V = "chain_view (c_mem gather_cpu)"
  have V: "\<forall>i < 4. ?V (0x10004 + of_nat i) = Some ([1, 2, 3, 4] ! i)" by (rule gather_cpu_mem(2))
  then have "span_mapped ?V 0x10004 4" by (simp add: span_mapped_def)
  moreover have "byte_at ?V 0x10004 3 = 4" using V [rule_format, of 3] by (simp add: byte_at_def)
  moreover have "c_zmm gather_cpu 1 7 = 8" by (simp add: gather_cpu_def set_zmm_bytes_def)
  ultimately show ?thesis
    using gather_chain [OF gather_cpu_mem(1) sample_gather_fields(6), of "\<lambda>_. 0" None]
    by (simp add: sample_gather_fields sample_gather_lanes sample_gather_addr)
qed

end
