(* ===== verification/Misc_Handlers.thy ===== *)
theory Misc_Handlers
  imports Gather_Scatter Op_Kinds
begin

text \<open>
  Handlers of \<^verbatim>\<open>misc.cpp\<close> that are not vector instructions, the string comparisons of \<^verbatim>\<open>phase10.cpp\<close>, and the canned system calls
  of \<^verbatim>\<open>syscalls.cpp\<close>.
\<close>

section \<open>Flags to and from AH and the stack\<close>

definition op_lahf :: "'m env \<Rightarrow> insn \<Rightarrow> 'm cpu \<Rightarrow> 'm cpu" where
  "op_lahf env i c =
     (let c = force_sync_flags c; ah = (ucast (rflags c AND 0xD7) :: u8) OR 2; rax = reg c RAX
      in set_r64 RAX ((rax AND NOT 0xFF00) OR push_bit 8 (ucast ah)) c)"

definition op_sahf :: "'m env \<Rightarrow> insn \<Rightarrow> 'm cpu \<Rightarrow> 'm cpu" where
  "op_sahf env i c =
     (let ah = ucast (drop_bit 8 (reg c RAX) AND 0xFF) :: u8; c = force_sync_flags c;
          f = rflags c AND NOT 0xFF
      in set_rflags (f OR (ucast (ah AND 0xD5) OR 2)) c)"

definition op_pushf :: "'m env \<Rightarrow> insn \<Rightarrow> 'm cpu \<Rightarrow> 'm cpu" where
  "op_pushf env i c =
     (let c = force_sync_flags c; v = rflags c; new_rsp = reg c RSP - 8
      in ok_then (write_mem_noted ''pushfq'' ''pushfq'' env new_rsp 8 v c) (set_r64 RSP new_rsp))"

definition op_popf :: "'m env \<Rightarrow> insn \<Rightarrow> 'm cpu \<Rightarrow> 'm cpu" where
  "op_popf env i c =
     (let rsp = reg c RSP
      in case e_mem_read env of
           None \<Rightarrow> set_fault FK_ProviderFailure rsp St_ProviderFailure ''popfq'' c
         | Some p \<Rightarrow>
             (case call_read p rsp 8 c of
                ((s, v), c) \<Rightarrow>
                  if fail s then set_fault (kind_from_status s) rsp s ''popfq'' c
                  else set_r64 RSP (rsp + 8) (set_rflags v c)))"

section \<open>Interrupts, fences, MOVBE\<close>

definition op_int3 :: "'m env \<Rightarrow> insn \<Rightarrow> 'm cpu \<Rightarrow> 'm cpu" where
  "op_int3 env i c = set_fault FK_Breakpoint (c_rip c) St_Ok ''INT3'' c"

text \<open>The vector is formatted into a local buffer that nothing reads.\<close>

definition op_int_n :: "'m env \<Rightarrow> insn \<Rightarrow> 'm cpu \<Rightarrow> 'm cpu" where
  "op_int_n env i c = set_fault FK_Breakpoint (c_rip c) St_Ok ''INT n'' c"

definition op_fence :: "'m env \<Rightarrow> insn \<Rightarrow> 'm cpu \<Rightarrow> 'm cpu" where "op_fence env i c = c"
definition op_pause :: "'m env \<Rightarrow> insn \<Rightarrow> 'm cpu \<Rightarrow> 'm cpu" where "op_pause env i c = c"
definition op_clflush :: "'m env \<Rightarrow> insn \<Rightarrow> 'm cpu \<Rightarrow> 'm cpu" where "op_clflush env i c = c"
definition op_prefetch :: "'m env \<Rightarrow> insn \<Rightarrow> 'm cpu \<Rightarrow> 'm cpu" where "op_prefetch env i c = c"

definition reverse_bytes :: "nat \<Rightarrow> u64 \<Rightarrow> u64" where
  "reverse_bytes n v = foldl (\<lambda>r i. r OR push_bit (8 * (n - 1 - i)) (drop_bit (8 * i) v AND 0xFF)) 0 [0..<n]"

text \<open>Both branches of the source do the same.\<close>

definition op_movbe :: "'m env \<Rightarrow> insn \<Rightarrow> 'm cpu \<Rightarrow> 'm cpu" where
  "op_movbe env i c =
     read_then (read_operand env i (i_src i) (i_op_size i) c) (\<lambda>v c.
       snd (write_operand env i (i_dst i) (i_op_size i) (reverse_bytes (unat (i_op_size i)) v) c))"

section \<open>PCMPESTRx and PCMPISTRx\<close>

definition str_lane_size :: "u8 \<Rightarrow> nat" where
  "str_lane_size ctrl = (if ctrl AND 1 \<noteq> 0 then 2 else 1)"

definition str_lanes :: "u8 \<Rightarrow> nat" where
  "str_lanes ctrl = (if ctrl AND 1 \<noteq> 0 then 8 else 16)"

definition explicit_length :: "nat \<Rightarrow> u32 \<Rightarrow> nat" where
  "explicit_length lanes v = (if unat v < lanes then unat v else lanes)"

definition implicit_length :: "nat \<Rightarrow> nat \<Rightarrow> u8 list \<Rightarrow> nat" where
  "implicit_length w lanes s =
     (case first_match (\<lambda>k. elem w k s = replicate w 0) [0..<lanes] of None \<Rightarrow> lanes | Some k \<Rightarrow> k)"

definition mask_of :: "(nat \<Rightarrow> bool) \<Rightarrow> nat list \<Rightarrow> u16" where
  "mask_of P ks = foldl (\<lambda>m k. if P k then m OR push_bit k 1 else m) 0 ks"

text \<open>Every aggregation other than 1 compares lane by lane; 1 looks for any equal lane.\<close>

definition str_mask :: "u8 \<Rightarrow> nat \<Rightarrow> nat \<Rightarrow> u8 list \<Rightarrow> u8 list \<Rightarrow> u16" where
  "str_mask ctrl la lb a b =
     (let w = str_lane_size ctrl;
          m = (if drop_bit 2 ctrl AND 3 = 1
               then mask_of (\<lambda>j. list_ex (\<lambda>k. elem w k a = elem w j b) [0..<la]) [0..<lb]
               else mask_of (\<lambda>k. k < la \<and> k < lb \<and> elem w k a = elem w k b) [0..<str_lanes ctrl])
      in if drop_bit 4 ctrl AND 3 = 1 then NOT m else m)"

definition mask_hit :: "u16 \<Rightarrow> nat \<Rightarrow> bool" where
  "mask_hit m k \<longleftrightarrow> m AND push_bit k 1 \<noteq> 0"

definition str_index :: "u8 \<Rightarrow> u16 \<Rightarrow> nat" where
  "str_index ctrl m =
     (case first_match (mask_hit m) (if ctrl AND 0x40 \<noteq> 0 then rev [0..<str_lanes ctrl] else [0..<str_lanes ctrl]) of
        None \<Rightarrow> str_lanes ctrl | Some k \<Rightarrow> k)"

definition str_expand :: "u8 \<Rightarrow> u16 \<Rightarrow> u8 list" where
  "str_expand ctrl m =
     (let w = str_lane_size ctrl; n = str_lanes ctrl
      in if ctrl AND 0x40 \<noteq> 0 then concat (map (\<lambda>k. replicate w (if mask_hit m k then 0xFF else 0)) [0..<n])
         else map (\<lambda>j. foldl (\<lambda>b k. if k < n \<and> k div 8 = j \<and> mask_hit m k then b OR push_bit (k mod 8) 1 else b) 0 [0..<16])
                [0..<16])"

definition pcmpstr_core :: "'m env \<Rightarrow> insn \<Rightarrow> bool \<Rightarrow> bool \<Rightarrow> 'm cpu \<Rightarrow> 'm cpu" where
  "pcmpstr_core env i is_explicit index_form c =
     read_then (read_16_from env i (i_dst i) c) (\<lambda>a c.
     read_then (read_16_from env i (i_src i) c) (\<lambda>b c.
       let ctrl = imm8 i; w = str_lane_size ctrl; n = str_lanes ctrl;
           la = (if is_explicit then explicit_length n (reg32 c RAX) else implicit_length w n a);
           lb = (if is_explicit then explicit_length n (reg32 c RDX) else implicit_length w n b);
           m = str_mask ctrl la lb a b;
           c = (if index_form then set_r64 RCX (of_nat (str_index ctrl m)) c
                else set_zmm_bytes 0 (str_expand ctrl m) c);
           c = set_cf (m \<noteq> 0) (force_sync_flags c);
           c = set_of (m AND 1 \<noteq> 0) (set_sf (la < n) (set_zf (lb < n) c))
       in set_af False (set_pf False c)))"

definition op_pcmpestri :: "'m env \<Rightarrow> insn \<Rightarrow> 'm cpu \<Rightarrow> 'm cpu" where
  "op_pcmpestri env i c = pcmpstr_core env i True True c"

definition op_pcmpestrm :: "'m env \<Rightarrow> insn \<Rightarrow> 'm cpu \<Rightarrow> 'm cpu" where
  "op_pcmpestrm env i c = pcmpstr_core env i True False c"

definition op_pcmpistri :: "'m env \<Rightarrow> insn \<Rightarrow> 'm cpu \<Rightarrow> 'm cpu" where
  "op_pcmpistri env i c = pcmpstr_core env i False True c"

definition op_pcmpistrm :: "'m env \<Rightarrow> insn \<Rightarrow> 'm cpu \<Rightarrow> 'm cpu" where
  "op_pcmpistrm env i c = pcmpstr_core env i False False c"

section \<open>Canned system calls\<close>

datatype SyscallEntry =
    NtClose | NtAllocateVirtualMemory | NtFreeVirtualMemory | NtProtectVirtualMemory
  | NtQueryInformationProcess | NtTerminateThread

fun default_syscall_numbers :: "SyscallEntry \<Rightarrow> u32" where
  "default_syscall_numbers NtClose = 0x0F"
| "default_syscall_numbers NtAllocateVirtualMemory = 0x18"
| "default_syscall_numbers NtFreeVirtualMemory = 0x1E"
| "default_syscall_numbers NtProtectVirtualMemory = 0x50"
| "default_syscall_numbers NtQueryInformationProcess = 0x19"
| "default_syscall_numbers NtTerminateThread = 0x24"

definition set_syscall_number :: "SyscallEntry \<Rightarrow> u32 \<Rightarrow> (SyscallEntry \<Rightarrow> u32) \<Rightarrow> SyscallEntry \<Rightarrow> u32" where
  "set_syscall_number e n numbers = numbers(e := n)"

definition STATUS_SUCCESS :: u64 where "STATUS_SUCCESS = 0"

text \<open>The table of numbers is a global of the program; the callback sees the table in force when it is called.\<close>

definition canned_syscall_dispatch :: "(SyscallEntry \<Rightarrow> u32) \<Rightarrow> insn \<Rightarrow> 'm cpu \<Rightarrow> 'm cpu" where
  "canned_syscall_dispatch numbers i c =
     (if i_kind i \<noteq> Op_Syscall then c
      else
        (let sysno = reg32 c RAX; matches = (\<lambda>e. sysno = numbers e); success = halt (set_r64 RAX STATUS_SUCCESS c)
         in if matches NtClose then success
            else if matches NtAllocateVirtualMemory then success
            else if matches NtFreeVirtualMemory \<or> matches NtProtectVirtualMemory then success
            else if matches NtQueryInformationProcess then success
            else if matches NtTerminateThread then success
            else c))"

definition install_default_syscalls :: "(SyscallEntry \<Rightarrow> u32) \<Rightarrow> 'm hook_manager \<Rightarrow> HookId \<times> 'm hook_manager" where
  "install_default_syscalls numbers hm =
     hook_add \<lparr>h_kind = HK_Insn, h_callback = InsnCb (canned_syscall_dispatch numbers), h_begin = 0, h_end = 0,
       h_filter_op = Op_Syscall\<rparr> hm"

section \<open>Facts\<close>

text \<open>A canned call always ends in RAX = 0 and a halted CPU; unknown numbers change nothing.\<close>

lemma canned_syscall_cases:
  "i_kind i = Op_Syscall \<Longrightarrow> canned_syscall_dispatch numbers i c =
     (if \<exists>e. numbers e = reg32 c RAX then halt (set_r64 RAX 0 c) else c)"
  by (auto simp: canned_syscall_dispatch_def STATUS_SUCCESS_def Let_def) (metis SyscallEntry.exhaust)+

lemma implicit_length_le: "implicit_length w n s \<le> n"
  by (auto simp: implicit_length_def first_match_upt split: option.splits)
    (metis (mono_tags, lifting) LeastI_ex less_imp_le)

end
