(* ===== verification/Stub_Heap.thy ===== *)
theory Stub_Heap
  imports Emu_Prelude
begin

text \<open>
  The heap behind the import stubs of \<^verbatim>\<open>HeapAlloc\<close> and \<^verbatim>\<open>HeapFree\<close> (\<^verbatim>\<open>stub_heap.h\<close>): a first-fit list of
  blocks kept on the host.  The blocks tile the region, in the order of their addresses, and neighbouring
  free blocks are merged, which makes first fit complete: an allocation fails only when no run of free
  bytes is long enough.
\<close>

section \<open>Blocks and operations\<close>

record hblock =
  hb_addr :: GuestAddr
  hb_size :: u64
  hb_free :: bool

record stub_heap =
  sh_base :: GuestAddr
  sh_size :: u64
  sh_blocks :: "hblock list"

definition new_stub_heap :: stub_heap where
  "new_stub_heap = \<lparr>sh_base = 0, sh_size = 0, sh_blocks = []\<rparr>"

definition sheap_install :: "GuestAddr \<Rightarrow> u64 \<Rightarrow> stub_heap \<Rightarrow> stub_heap" where
  "sheap_install base sz h =
     h\<lparr>sh_base := base, sh_size := sz, sh_blocks := [\<lparr>hb_addr = base, hb_size = sz, hb_free = True\<rparr>]\<rparr>"

text \<open>The scan for the first free block that is large enough, and its split.\<close>

fun alloc_scan :: "u64 \<Rightarrow> hblock list \<Rightarrow> (GuestAddr \<times> hblock list) option" where
  "alloc_scan n [] = None"
| "alloc_scan n (b # bs) =
     (if \<not> hb_free b \<or> hb_size b < n then
        (case alloc_scan n bs of None \<Rightarrow> None | Some (p, bs') \<Rightarrow> Some (p, b # bs'))
      else if hb_size b = n then Some (hb_addr b, b\<lparr>hb_free := False\<rparr> # bs)
      else Some (hb_addr b,
        b\<lparr>hb_size := n, hb_free := False\<rparr> #
        \<lparr>hb_addr = hb_addr b + n, hb_size = hb_size b - n, hb_free = True\<rparr> # bs))"

definition align16 :: "u64 \<Rightarrow> u64" where
  "align16 sz = (sz + 15) AND NOT 15"

definition sheap_alloc :: "u64 \<Rightarrow> stub_heap \<Rightarrow> GuestAddr \<times> stub_heap" where
  "sheap_alloc sz h =
     (if align16 sz = 0 then (0, h)
      else
        (case alloc_scan (align16 sz) (sh_blocks h) of
           None \<Rightarrow> (0, h)
         | Some (p, bs) \<Rightarrow> (p, h\<lparr>sh_blocks := bs\<rparr>)))"

fun block_index :: "GuestAddr \<Rightarrow> hblock list \<Rightarrow> nat option" where
  "block_index p [] = None"
| "block_index p (b # bs) = (if hb_addr b = p then Some 0 else map_option Suc (block_index p bs))"

text \<open>Block \<open>i\<close> takes over its successor.\<close>

definition absorb :: "nat \<Rightarrow> hblock list \<Rightarrow> hblock list" where
  "absorb i bs = take i bs @ [(bs ! i)\<lparr>hb_size := hb_size (bs ! i) + hb_size (bs ! Suc i)\<rparr>] @ drop (i + 2) bs"

definition release :: "nat \<Rightarrow> hblock list \<Rightarrow> hblock list" where
  "release i bs =
     (let bs = bs[i := (bs ! i)\<lparr>hb_free := True\<rparr>];
          (i, bs) = (if 0 < i \<and> hb_free (bs ! (i - 1)) then (i - 1, absorb (i - 1) bs) else (i, bs))
      in if i + 1 < length bs \<and> hb_free (bs ! (i + 1)) then absorb i bs else bs)"

definition sheap_free :: "GuestAddr \<Rightarrow> stub_heap \<Rightarrow> bool \<times> stub_heap" where
  "sheap_free p h =
     (if p = 0 then (True, h)
      else
        (case block_index p (sh_blocks h) of
           None \<Rightarrow> (False, h)
         | Some i \<Rightarrow>
             if hb_free (sh_blocks h ! i) then (False, h)
             else (True, h\<lparr>sh_blocks := release i (sh_blocks h)\<rparr>)))"

definition sheap_used_bytes :: "stub_heap \<Rightarrow> u64" where
  "sheap_used_bytes h = sum_list (map hb_size (filter (\<lambda>b. \<not> hb_free b) (sh_blocks h)))"

definition sheap_free_bytes :: "stub_heap \<Rightarrow> u64" where
  "sheap_free_bytes h = sum_list (map hb_size (filter hb_free (sh_blocks h)))"

definition sheap_block_count :: "stub_heap \<Rightarrow> nat" where
  "sheap_block_count h = length (sh_blocks h)"

section \<open>The contract\<close>

text \<open>What a client sees: the live blocks with their sizes, and the bytes they occupy.\<close>

definition live_in :: "hblock list \<Rightarrow> GuestAddr \<Rightarrow> nat option" where
  "live_in bs = map_of (map (\<lambda>b. (hb_addr b, unat (hb_size b))) (filter (\<lambda>b. \<not> hb_free b) bs))"

definition live :: "stub_heap \<Rightarrow> GuestAddr \<Rightarrow> nat option" where
  "live h = live_in (sh_blocks h)"

definition span :: "GuestAddr \<Rightarrow> nat \<Rightarrow> nat set" where
  "span p n = {unat p..<unat p + n}"

definition occupied :: "stub_heap \<Rightarrow> nat set" where
  "occupied h = (\<Union>p \<in> dom (live h). span p (the (live h p)))"

text \<open>The blocks tile the addresses from \<open>a\<close> to \<open>e\<close>, none is empty, and no two neighbours are free.\<close>

fun tiles :: "nat \<Rightarrow> hblock list \<Rightarrow> nat \<Rightarrow> bool" where
  "tiles a [] e \<longleftrightarrow> a = e"
| "tiles a (b # bs) e \<longleftrightarrow> unat (hb_addr b) = a \<and> 0 < hb_size b \<and> tiles (a + unat (hb_size b)) bs e"

fun coalesced :: "hblock list \<Rightarrow> bool" where
  "coalesced (b # b' # bs) \<longleftrightarrow> \<not> (hb_free b \<and> hb_free b') \<and> coalesced (b' # bs)"
| "coalesced bs \<longleftrightarrow> True"

definition sheap_wf :: "stub_heap \<Rightarrow> bool" where
  "sheap_wf h \<longleftrightarrow>
     tiles (unat (sh_base h)) (sh_blocks h) (unat (sh_base h) + unat (sh_size h)) \<and> coalesced (sh_blocks h) \<and>
     sh_base h \<noteq> 0 \<and> unat (sh_base h) + unat (sh_size h) \<le> 2 ^ 64"

datatype sheap_op = SH_Alloc u64 | SH_Free GuestAddr

fun sheap_step :: "sheap_op \<Rightarrow> stub_heap \<Rightarrow> stub_heap" where
  "sheap_step (SH_Alloc sz) h = snd (sheap_alloc sz h)"
| "sheap_step (SH_Free p) h = snd (sheap_free p h)"

fun sheap_steps :: "sheap_op list \<Rightarrow> stub_heap \<Rightarrow> stub_heap" where
  "sheap_steps [] h = h"
| "sheap_steps (op # ops) h = sheap_steps ops (sheap_step op h)"

section \<open>Tilings\<close>

lemma tiles_le: "tiles a bs e \<Longrightarrow> a \<le> e"
  by (induction bs arbitrary: a) (auto dest: add_leD1)

lemma tiles_append: "tiles a (xs @ ys) e \<longleftrightarrow> (\<exists>m. tiles a xs m \<and> tiles m ys e)"
  by (induction xs arbitrary: a) auto

lemma tiles_mem: "tiles a bs e \<Longrightarrow> b \<in> set bs \<Longrightarrow> a \<le> unat (hb_addr b) \<and> unat (hb_addr b) + unat (hb_size b) \<le> e \<and> 0 < hb_size b"
  by (induction bs arbitrary: a) (auto dest: tiles_le add_leD1)

lemma tiles_addr_greater: "tiles a (b # bs) e \<Longrightarrow> b' \<in> set bs \<Longrightarrow> unat (hb_addr b) < unat (hb_addr b')"
proof -
  assume t: "tiles a (b # bs) e" and b: "b' \<in> set bs"
  have "0 < unat (hb_size b)" using t by (simp add: word_less_nat_alt)
  moreover have "a + unat (hb_size b) \<le> unat (hb_addr b')" using tiles_mem [OF _ b] t by auto
  ultimately show ?thesis using t by simp
qed

lemma tiles_distinct: "tiles a bs e \<Longrightarrow> distinct (map hb_addr bs)"
proof (induction bs arbitrary: a)
  case (Cons b bs)
  then have "distinct (map hb_addr bs)" using Cons.IH [of "a + unat (hb_size b)"] by simp
  moreover have "hb_addr b \<notin> hb_addr ` set bs" using tiles_addr_greater [OF Cons.prems] by fastforce
  ultimately show ?case by simp
qed simp

lemma tiles_sum: "tiles a bs e \<Longrightarrow> sum_list (map hb_size bs) = (of_nat e :: u64) - of_nat a"
  by (induction bs arbitrary: a) auto

text \<open>A block that swallows its successor.\<close>

definition joined :: "hblock \<Rightarrow> hblock \<Rightarrow> hblock" where
  "joined b b' = b\<lparr>hb_size := hb_size b + hb_size b'\<rparr>"

lemma joined_fields [simp]:
  "hb_addr (joined b b') = hb_addr b" "hb_free (joined b b') = hb_free b" "hb_size (joined b b') = hb_size b + hb_size b'"
  by (simp_all add: joined_def)

lemma tiles_join:
  assumes "tiles a (b # b' # bs) e" "e \<le> 2 ^ 64" "0 < a" shows "tiles a (joined b b' # bs) e"
proof -
  have "unat (hb_size b) + unat (hb_size b') < 2 ^ 64"
    using assms tiles_le [of "a + unat (hb_size b) + unat (hb_size b')" bs e] by auto
  then have u: "unat (hb_size b + hb_size b') = unat (hb_size b) + unat (hb_size b')"
    by (simp add: unat_word_ariths)
  then have "0 < hb_size b + hb_size b'" using assms by (simp add: word_less_nat_alt)
  with u assms show ?thesis by (simp add: add.assoc)
qed

lemma coalesced_Cons: "coalesced (b # bs) \<longleftrightarrow> coalesced bs \<and> (bs \<noteq> [] \<longrightarrow> \<not> (hb_free b \<and> hb_free (hd bs)))"
  by (cases bs) auto

lemma coalesced_append:
  "coalesced (xs @ ys) \<longleftrightarrow>
     coalesced xs \<and> coalesced ys \<and> (xs \<noteq> [] \<and> ys \<noteq> [] \<longrightarrow> \<not> (hb_free (last xs) \<and> hb_free (hd ys)))"
  by (induction xs) (auto simp: coalesced_Cons)

lemma tiles_disjoint:
  "tiles a bs e \<Longrightarrow> b \<in> set bs \<Longrightarrow> c \<in> set bs \<Longrightarrow> x \<in> span (hb_addr b) (unat (hb_size b)) \<Longrightarrow>
   x \<in> span (hb_addr c) (unat (hb_size c)) \<Longrightarrow> b = c"
proof (induction bs arbitrary: a)
  case (Cons d bs)
  have t: "tiles (a + unat (hb_size d)) bs e" "unat (hb_addr d) = a" using Cons.prems(1) by auto
  have later: "x \<notin> span (hb_addr d) (unat (hb_size d))" if "f \<in> set bs" "x \<in> span (hb_addr f) (unat (hb_size f))" for f
    using tiles_mem [OF t(1) that(1)] that(2) t(2) by (auto simp: span_def)
  then show ?case using Cons.IH [OF t(1)] Cons.prems by auto
qed simp

section \<open>Live blocks\<close>

lemma live_in_Nil [simp]: "live_in [] = Map.empty"
  by (simp add: live_in_def)

lemma live_in_Cons [simp]:
  "live_in (b # bs) = (if hb_free b then live_in bs else (live_in bs)(hb_addr b \<mapsto> unat (hb_size b)))"
  by (simp add: live_in_def)

lemma live_in_append: "live_in (xs @ ys) = live_in ys ++ live_in xs"
  by (simp add: live_in_def)

lemma live_in_None: "p \<notin> hb_addr ` set bs \<Longrightarrow> live_in bs p = None"
  by (induction bs) auto

lemma live_in_SomeE:
  assumes "live_in bs p = Some n" obtains b where "b \<in> set bs" "\<not> hb_free b" "hb_addr b = p" "unat (hb_size b) = n"
  using assms by (induction bs) (auto split: if_splits)

lemma live_in_mem: "tiles a bs e \<Longrightarrow> b \<in> set bs \<Longrightarrow> live_in bs (hb_addr b) = (if hb_free b then None else Some (unat (hb_size b)))"
proof (induction bs arbitrary: a)
  case (Cons c bs)
  then consider "b = c" | "b \<in> set bs" by auto
  then show ?case
  proof cases
    case 1
    have "hb_addr c \<notin> hb_addr ` set bs" using tiles_distinct [OF Cons.prems(1)] by simp
    then show ?thesis using 1 by (simp add: live_in_None)
  next
    case 2
    then have "hb_addr b \<noteq> hb_addr c" using tiles_addr_greater [OF Cons.prems(1) 2] by auto
    then show ?thesis using Cons.IH [OF _ 2] Cons.prems(1) by auto
  qed
qed simp

definition occupied_in :: "hblock list \<Rightarrow> nat set" where
  "occupied_in bs = (\<Union>p \<in> dom (live_in bs). span p (the (live_in bs p)))"

lemma occupied_mem:
  assumes "tiles a bs e"
  shows "x \<in> occupied_in bs \<longleftrightarrow> (\<exists>b\<in>set bs. \<not> hb_free b \<and> x \<in> span (hb_addr b) (unat (hb_size b)))"
proof
  assume "x \<in> occupied_in bs"
  then obtain p n where "live_in bs p = Some n" "x \<in> span p n" by (auto simp: occupied_in_def)
  then show "\<exists>b\<in>set bs. \<not> hb_free b \<and> x \<in> span (hb_addr b) (unat (hb_size b))" by (auto elim!: live_in_SomeE)
next
  assume "\<exists>b\<in>set bs. \<not> hb_free b \<and> x \<in> span (hb_addr b) (unat (hb_size b))"
  then show "x \<in> occupied_in bs" using live_in_mem [OF assms] by (fastforce simp: occupied_in_def dom_def)
qed

section \<open>Allocation\<close>

lemma alloc_scan_Some:
  assumes "alloc_scan n bs = Some (p, bs')" "tiles a bs e" "0 < n" "coalesced bs" "e \<le> 2 ^ 64"
  shows "tiles a bs' e \<and> coalesced bs' \<and> (bs' \<noteq> [] \<and> \<not> hb_free (hd bs) \<longrightarrow> \<not> hb_free (hd bs')) \<and>
    live_in bs' = (live_in bs)(p \<mapsto> unat n) \<and> live_in bs p = None \<and>
    (\<exists>b\<in>set bs. hb_free b \<and> hb_addr b = p \<and> n \<le> hb_size b)"
  using assms
proof (induction bs arbitrary: a bs')
  case (Cons b bs)
  have t: "tiles (a + unat (hb_size b)) bs e" and co: "coalesced bs" using Cons.prems by (auto simp: coalesced_Cons)
  show ?case
  proof (cases "\<not> hb_free b \<or> hb_size b < n")
    case True
    then obtain cs where cs: "alloc_scan n bs = Some (p, cs)" "bs' = b # cs" using Cons.prems by (auto split: option.splits)
    note IH = Cons.IH [OF cs(1) t \<open>0 < n\<close> co \<open>e \<le> 2 ^ 64\<close>]
    then obtain c where c: "c \<in> set bs" "hb_addr c = p" by blast
    then have "p \<noteq> hb_addr b" using tiles_addr_greater [OF Cons.prems(2)] by force
    moreover have "coalesced (b # cs)" using IH Cons.prems(4) cs(1) by (cases bs) (auto simp: coalesced_Cons)
    ultimately show ?thesis using IH cs Cons.prems by (auto simp: fun_upd_twist)
  next
    case False
    have none: "live_in bs (hb_addr b) = None"
      using tiles_distinct [OF Cons.prems(2)] by (intro live_in_None) simp
    show ?thesis
    proof (cases "hb_size b = n")
      case True
      then show ?thesis using False Cons.prems none by (auto simp: coalesced_Cons)
    next
      case ne: False
      then have n: "n < hb_size b" "unat (hb_size b - n) = unat (hb_size b) - unat n" "unat n < unat (hb_size b)"
        using False by (auto simp: unat_sub word_less_nat_alt word_le_nat_alt not_less unat_arith_simps)
      have "a + unat n < 2 ^ 64" using tiles_le [OF t] n(3) Cons.prems(5) by linarith
      moreover have "unat (hb_addr b) = a" using Cons.prems(2) by simp
      ultimately have addr: "unat (hb_addr b + n) = a + unat n" by (simp add: unat_word_ariths)
      have "0 < hb_size b - n" using n by (simp add: word_less_nat_alt)
      moreover have "bs \<noteq> [] \<longrightarrow> \<not> hb_free (hd bs)" using Cons.prems(4) False by (simp add: coalesced_Cons)
      ultimately show ?thesis using False ne Cons.prems n addr none co t by (auto simp: coalesced_Cons)
    qed
  qed
qed simp

lemma alloc_scan_None: "alloc_scan n bs = None \<longleftrightarrow> (\<forall>b\<in>set bs. hb_free b \<longrightarrow> hb_size b < n)"
  by (induction bs) (auto split: option.splits)

text \<open>A run of free bytes lies inside one free block, because free neighbours are merged.\<close>

lemma free_run_in_block:
  assumes "tiles a bs e" "coalesced bs" "0 < n" "{x..<x + n} \<subseteq> {a..<e}" "{x..<x + n} \<inter> occupied_in bs = {}"
  shows "\<exists>b\<in>set bs. hb_free b \<and> n \<le> unat (hb_size b)"
  using assms
proof (induction bs arbitrary: a)
  case (Cons b bs)
  have occ: "y \<notin> occupied_in (b # bs)" if "x \<le> y" "y < x + n" for y using Cons.prems(5) that by auto
  note mem = occupied_mem [OF Cons.prems(1)]
  let ?m = "a + unat (hb_size b)"
  have t: "tiles ?m bs e" "unat (hb_addr b) = a" "coalesced bs" using Cons.prems by (auto simp: coalesced_Cons)
  show ?case
  proof (cases "?m \<le> x")
    case True
    have "{x..<x + n} \<inter> occupied_in bs = {}" using occ mem occupied_mem [OF t(1)] by fastforce
    moreover have "{x..<x + n} \<subseteq> {?m..<e}" using Cons.prems(4) True by auto
    ultimately show ?thesis using Cons.IH [OF t(1,3) \<open>0 < n\<close>] by auto
  next
    case False
    have "a \<le> x" using Cons.prems(3,4) by (auto simp: subset_iff)
    then have "x \<in> span (hb_addr b) (unat (hb_size b))" using False t by (auto simp: span_def)
    then have free: "hb_free b" using occ [of x] mem \<open>0 < n\<close> by auto
    show ?thesis
    proof (cases "x + n \<le> ?m")
      case True
      then show ?thesis using free \<open>a \<le> x\<close> by auto
    next
      case short: False
      then have "?m \<in> {x..<x + n}" using False by auto
      then have "?m < e" using Cons.prems(4) by (meson atLeastLessThan_iff subsetD)
      then obtain c cs where bs: "bs = c # cs" using t(1) by (cases bs) auto
      then have "?m \<in> span (hb_addr c) (unat (hb_size c))" using t(1) by (auto simp: span_def word_less_nat_alt)
      then have "hb_free c" using occ [of ?m] mem bs \<open>?m \<in> {x..<x + n}\<close> by auto
      then show ?thesis using free bs Cons.prems(2) by simp
    qed
  qed
qed auto

section \<open>Release\<close>

lemma absorb_append: "absorb (length xs) (xs @ b # b' # ys) = xs @ joined b b' # ys"
  by (simp add: absorb_def joined_def nth_append)

lemma release_append:
  "release (length xs) (xs @ b # ys) =
     (let b = b\<lparr>hb_free := True\<rparr>;
          (xs, b) = (if xs \<noteq> [] \<and> hb_free (last xs) then (butlast xs, joined (last xs) b) else (xs, b));
          (b, ys) = (if ys \<noteq> [] \<and> hb_free (hd ys) then (joined b (hd ys), tl ys) else (b, ys))
      in xs @ b # ys)"
proof -
  let ?b = "b\<lparr>hb_free := True\<rparr>"
  have after: "(if length zs + 1 < length (zs @ c # ys) \<and> hb_free ((zs @ c # ys) ! (length zs + 1))
      then absorb (length zs) (zs @ c # ys) else zs @ c # ys) =
    (let (c, ys) = (if ys \<noteq> [] \<and> hb_free (hd ys) then (joined c (hd ys), tl ys) else (c, ys)) in zs @ c # ys)" for zs c
    by (cases ys) (auto simp: nth_append absorb_append)
  show ?thesis
  proof (cases "xs \<noteq> [] \<and> hb_free (last xs)")
    case True
    then obtain zs q where xs: "xs = zs @ [q]" "hb_free q" by (metis append_butlast_last_id)
    have "absorb (length zs) (zs @ q # ?b # ys) = zs @ joined q ?b # ys" by (rule absorb_append)
    then show ?thesis using after [of zs "joined q ?b"] xs by (simp add: release_def nth_append list_update_append)
  next
    case False
    then have "\<not> (0 < length xs \<and> hb_free ((xs @ ?b # ys) ! (length xs - 1)))" 
      by (cases xs rule: rev_cases) (auto simp: nth_append)
    moreover have "(xs @ b # ys)[length xs := ((xs @ b # ys) ! length xs)\<lparr>hb_free := True\<rparr>] = xs @ ?b # ys" by simp
    ultimately show ?thesis unfolding release_def Let_def
      using after [of xs ?b] False by (simp only: if_False prod.case Let_def)
  qed
qed

lemma tiles_join_inner:
  assumes "tiles a (xs @ b # b' # ys) e" "e \<le> 2 ^ 64" "0 < a" shows "tiles a (xs @ joined b b' # ys) e"
proof -
  obtain m where m: "tiles a xs m" "tiles m (b # b' # ys) e" using assms(1) unfolding tiles_append by blast
  have "0 < m" using tiles_le [OF m(1)] assms(3) by simp
  then show ?thesis using m tiles_join [OF m(2) assms(2)] unfolding tiles_append by blast
qed

lemma live_in_drop_block:
  assumes "tiles a (xs @ b # ys) e" shows "live_in (xs @ ys) = (live_in (xs @ b # ys))(hb_addr b := None)"
proof
  fix p
  have d: "distinct (map hb_addr (xs @ b # ys))" by (rule tiles_distinct [OF assms])
  have "live_in (xs @ ys) (hb_addr b) = None" using d by (intro live_in_None) auto
  then show "live_in (xs @ ys) p = ((live_in (xs @ b # ys))(hb_addr b := None)) p"
    by (auto simp: live_in_append map_add_def split: option.splits)
qed

lemma release_ok:
  assumes t: "tiles a (xs @ b # ys) e" and e: "e \<le> 2 ^ 64" "0 < a" and co: "coalesced (xs @ b # ys)" and b: "\<not> hb_free b"
  shows "tiles a (release (length xs) (xs @ b # ys)) e \<and> coalesced (release (length xs) (xs @ b # ys)) \<and>
    live_in (release (length xs) (xs @ b # ys)) = (live_in (xs @ b # ys))(hb_addr b := None)"
proof -
  let ?b = "b\<lparr>hb_free := True\<rparr>"
  have tb: "tiles a (xs @ ?b # ys) e" using t by (auto simp: tiles_append)
  define zs c where "zs = (if xs \<noteq> [] \<and> hb_free (last xs) then butlast xs else xs)"
    and "c = (if xs \<noteq> [] \<and> hb_free (last xs) then joined (last xs) ?b else ?b)"
  have left: "tiles a (zs @ c # ys) e \<and> hb_free c \<and> live_in (zs @ ys) = live_in (xs @ ys) \<and>
      coalesced zs \<and> coalesced ys \<and> (zs \<noteq> [] \<longrightarrow> \<not> hb_free (last zs))"
  proof (cases "xs \<noteq> [] \<and> hb_free (last xs)")
    case True
    then obtain us q where xs: "xs = us @ [q]" "hb_free q" by (metis append_butlast_last_id)
    then have "tiles a (us @ q # ?b # ys) e" using tb by simp
    from tiles_join_inner [OF this e] show ?thesis
      using xs co by (auto simp: zs_def c_def live_in_append coalesced_append coalesced_Cons)
  next
    case False
    then have "zs = xs" "c = ?b" by (simp_all only: zs_def c_def if_False)
    then show ?thesis using False tb co by (auto simp: coalesced_append coalesced_Cons)
  qed
  define vs d where "vs = (if ys \<noteq> [] \<and> hb_free (hd ys) then tl ys else ys)"
    and "d = (if ys \<noteq> [] \<and> hb_free (hd ys) then joined c (hd ys) else c)"
  have right: "tiles a (zs @ d # vs) e \<and> hb_free d \<and> live_in (zs @ vs) = live_in (zs @ ys) \<and>
      coalesced vs \<and> (vs \<noteq> [] \<longrightarrow> \<not> hb_free (hd vs))"
  proof (cases "ys \<noteq> [] \<and> hb_free (hd ys)")
    case True
    then obtain q us where ys: "ys = q # us" "hb_free q" by (cases ys) auto
    then have "tiles a (zs @ c # q # us) e" using left by simp
    from tiles_join_inner [OF this e] show ?thesis
      using ys left by (auto simp: vs_def d_def live_in_append coalesced_Cons)
  next
    case False
    then have "vs = ys" "d = c" by (simp_all only: vs_def d_def if_False)
    then show ?thesis using False left by auto
  qed
  have "release (length xs) (xs @ b # ys) = zs @ d # vs"
    unfolding release_append by (auto simp: zs_def c_def vs_def d_def Let_def)
  moreover have "live_in (zs @ d # vs) = (live_in (xs @ b # ys))(hb_addr b := None)"
    using left right live_in_drop_block [OF t] by (simp add: live_in_append)
  ultimately show ?thesis using left right by (simp add: coalesced_append coalesced_Cons)
qed

lemma block_index_Some: "block_index p bs = Some i \<Longrightarrow> \<exists>xs b ys. bs = xs @ b # ys \<and> length xs = i \<and> hb_addr b = p"
proof (induction bs arbitrary: i)
  case (Cons c bs)
  show ?case
  proof (cases "hb_addr c = p")
    case True
    then have "c # bs = [] @ c # bs \<and> length ([] :: hblock list) = i \<and> hb_addr c = p" using Cons.prems by simp
    then show ?thesis by blast
  next
    case False
    then obtain j where "block_index p bs = Some j" "i = Suc j" using Cons.prems by auto
    with Cons.IH obtain xs b ys where "c # bs = (c # xs) @ b # ys \<and> length (c # xs) = i \<and> hb_addr b = p" by fastforce
    then show ?thesis by blast
  qed
qed simp

lemma block_index_None: "block_index p bs = None \<longleftrightarrow> p \<notin> hb_addr ` set bs"
  by (induction bs) auto

section \<open>The invariant and the contract\<close>

lemma occupied_eq: "occupied h = occupied_in (sh_blocks h)"
  by (simp add: occupied_def occupied_in_def live_def)

lemma sheap_alloc_ok:
  assumes wf: "sheap_wf h" and al: "sheap_alloc sz h = (p, h')"
  defines "n \<equiv> unat (align16 sz)" and "region \<equiv> {unat (sh_base h)..<unat (sh_base h) + unat (sh_size h)}"
  shows "sheap_wf h' \<and> sh_base h' = sh_base h \<and> sh_size h' = sh_size h \<and>
    (if n = 0 \<or> (\<nexists>x. {x..<x + n} \<subseteq> region \<and> {x..<x + n} \<inter> occupied h = {})
     then p = 0 \<and> h' = h
     else p \<noteq> 0 \<and> span p n \<subseteq> region \<and> span p n \<inter> occupied h = {} \<and> live h' = (live h)(p \<mapsto> n))"
proof -
  let ?bs = "sh_blocks h" and ?a = "unat (sh_base h)"
  let ?e = "?a + unat (sh_size h)"
  have t: "tiles ?a ?bs ?e" and co: "coalesced ?bs" and e: "?e \<le> 2 ^ 64" and a: "0 < ?a"
    using wf by (auto simp: sheap_wf_def unat_gt_0)
  consider (zero) "n = 0" | (full) "n \<noteq> 0" "alloc_scan (align16 sz) ?bs = None"
    | (fit) bs where "n \<noteq> 0" "alloc_scan (align16 sz) ?bs = Some (p, bs)" "h' = h\<lparr>sh_blocks := bs\<rparr>"
    using al by (fastforce simp: n_def sheap_alloc_def unat_eq_0 split: if_splits option.splits)
  then show ?thesis
  proof cases
    case zero
    then show ?thesis using al wf by (simp add: n_def sheap_alloc_def unat_eq_0)
  next
    case full
    have "\<nexists>x. {x..<x + n} \<subseteq> region \<and> {x..<x + n} \<inter> occupied h = {}"
    proof
      assume "\<exists>x. {x..<x + n} \<subseteq> region \<and> {x..<x + n} \<inter> occupied h = {}"
      then obtain b where "b \<in> set ?bs" "hb_free b" "n \<le> unat (hb_size b)"
        using free_run_in_block [OF t co, of n] full by (auto simp: region_def occupied_eq)
      then show False using full alloc_scan_None [of "align16 sz" ?bs] by (auto simp: n_def word_less_nat_alt)
    qed
    moreover have "p = 0 \<and> h' = h" using al full by (simp add: n_def sheap_alloc_def unat_eq_0)
    ultimately show ?thesis using wf by simp
  next
    case fit
    then have n0: "0 < align16 sz" by (simp add: n_def word_less_nat_alt)
    note ok = alloc_scan_Some [OF fit(2) t n0 co e]
    then obtain b where b: "b \<in> set ?bs" "hb_free b" "hb_addr b = p" "n \<le> unat (hb_size b)"
      by (auto simp: n_def word_le_nat_alt)
    note mem = tiles_mem [OF t b(1)]
    have region: "span p n \<subseteq> region" using mem b by (auto simp: span_def region_def)
    have disj: "span p n \<inter> occupied h = {}"
    proof -
      have "False" if x: "x \<in> span p n" and occ: "x \<in> occupied h" for x
      proof -
        obtain c where c: "c \<in> set ?bs" "\<not> hb_free c" "x \<in> span (hb_addr c) (unat (hb_size c))"
          using occ occupied_mem [OF t] by (auto simp: occupied_eq)
        have "x \<in> span (hb_addr b) (unat (hb_size b))" using x b by (auto simp: span_def)
        from tiles_disjoint [OF t b(1) c(1) this c(3)] show False using b c by simp
      qed
      then show ?thesis by auto
    qed
    have "p \<noteq> 0" using mem b a by auto
    moreover have "{unat p..<unat p + n} \<subseteq> region \<and> {unat p..<unat p + n} \<inter> occupied h = {}"
      using region disj by (simp add: span_def)
    moreover have "sheap_wf h'" using ok wf fit by (simp add: sheap_wf_def)
    ultimately show ?thesis using region disj ok fit by (auto simp: live_def n_def)
  qed
qed

lemma sheap_free_ok:
  assumes wf: "sheap_wf h" and fr: "sheap_free p h = (ok, h')"
  shows "sheap_wf h' \<and> sh_base h' = sh_base h \<and> sh_size h' = sh_size h \<and>
    (ok \<longleftrightarrow> p = 0 \<or> p \<in> dom (live h)) \<and> live h' = (live h)(p := None) \<and> (\<not> ok \<longrightarrow> h' = h)"
proof -
  let ?bs = "sh_blocks h" and ?a = "unat (sh_base h)"
  let ?e = "?a + unat (sh_size h)"
  have t: "tiles ?a ?bs ?e" and co: "coalesced ?bs" and e: "?e \<le> 2 ^ 64" and a: "0 < ?a"
    using wf by (auto simp: sheap_wf_def unat_gt_0)
  have zero: "live h 0 = None"
    using tiles_mem [OF t] a by (fastforce simp: live_def intro: live_in_None)
  consider (zero) "p = 0" | (unknown) "p \<noteq> 0" "block_index p ?bs = None"
    | (found) xs b ys where "p \<noteq> 0" "?bs = xs @ b # ys" "hb_addr b = p" "block_index p ?bs = Some (length xs)"
    using block_index_Some [of p ?bs] by (cases "block_index p ?bs") fastforce+
  then show ?thesis
  proof cases
    case zero
    then show ?thesis using fr wf \<open>live h 0 = None\<close> by (auto simp: sheap_free_def)
  next
    case unknown
    then have "live h p = None" unfolding live_def by (intro live_in_None) (simp add: block_index_None)
    then show ?thesis using unknown fr wf by (auto simp: sheap_free_def)
  next
    case found
    have b: "b \<in> set ?bs" using found by simp
    have nth: "?bs ! length xs = b" using found by simp
    show ?thesis
    proof (cases "hb_free b")
      case True
      then have "live h p = None" using live_in_mem [OF t b] found by (simp add: live_def)
      then show ?thesis using True fr found wf nth by (auto simp: sheap_free_def)
    next
      case False
      have l: "p \<in> dom (live h)" using False live_in_mem [OF t b] found by (simp add: live_def dom_def)
      have r: "ok" "h' = h\<lparr>sh_blocks := release (length xs) ?bs\<rparr>" using fr found False nth by (simp_all add: sheap_free_def)
      have "tiles ?a (xs @ b # ys) ?e" "coalesced (xs @ b # ys)" using t co found by simp_all
      note ok = release_ok [OF this(1) e a this(2) False]
      then show ?thesis using r l wf found by (simp add: sheap_wf_def live_def)
    qed
  qed
qed

lemma install_wf:
  assumes "base \<noteq> 0" "0 < sz" "unat base + unat sz \<le> 2 ^ 64" shows "sheap_wf (sheap_install base sz h)"
  using assms by (simp add: sheap_wf_def sheap_install_def)

lemma sheap_steps_ok:
  "sheap_wf h \<Longrightarrow> sheap_wf (sheap_steps ops h) \<and> sh_base (sheap_steps ops h) = sh_base h \<and> sh_size (sheap_steps ops h) = sh_size h"
proof (induction ops arbitrary: h)
  case (Cons op ops)
  have "sheap_wf (sheap_step op h) \<and> sh_base (sheap_step op h) = sh_base h \<and> sh_size (sheap_step op h) = sh_size h"
    using sheap_alloc_ok [OF Cons.prems] sheap_free_ok [OF Cons.prems]
    by (cases op) (metis sheap_step.simps prod.collapse)+
  then show ?case using Cons.IH [of "sheap_step op h"] by simp
qed simp

lemma sheap_bytes:
  assumes "sheap_wf h" shows "sheap_used_bytes h + sheap_free_bytes h = sh_size h"
proof -
  have "sum_list (map hb_size (filter (\<lambda>b. \<not> hb_free b) bs)) + sum_list (map hb_size (filter hb_free bs)) =
      sum_list (map hb_size bs)" for bs :: "hblock list"
    by (induction bs) (simp_all add: algebra_simps)
  moreover have "sum_list (map hb_size (sh_blocks h)) = sh_size h"
    using assms tiles_sum by (fastforce simp: sheap_wf_def)
  ultimately show ?thesis by (simp add: sheap_used_bytes_def sheap_free_bytes_def)
qed

lemma live_disjoint:
  assumes "sheap_wf h" "live h p = Some m" "live h q = Some n" "p \<noteq> q" shows "span p m \<inter> span q n = {}"
proof -
  have t: "tiles (unat (sh_base h)) (sh_blocks h) (unat (sh_base h) + unat (sh_size h))" using assms(1) by (simp add: sheap_wf_def)
  show ?thesis using assms(2-4) tiles_disjoint [OF t] by (fastforce simp: live_def elim!: live_in_SomeE)
qed

text \<open>C24: After any sequence of allocations and frees on an installed heap that does not start at address 0 and does not
  wrap: an allocation returns 0, and changes nothing, exactly when the rounded size is 0 or no run of that many unoccupied
  bytes exists in the region; otherwise it returns a block of unoccupied bytes inside the region and adds it to the live
  blocks.  A free succeeds exactly on 0 and on live blocks, and removes the block.  Live blocks never overlap, and used and
  free bytes add up to the size of the region.\<close>

theorem stub_heap_contract:
  fixes base sz :: u64 and ops :: "sheap_op list"
  defines "h \<equiv> sheap_steps ops (sheap_install base sz new_stub_heap)" and "region \<equiv> {unat base..<unat base + unat sz}"
  assumes "base \<noteq> 0" "0 < sz" "unat base + unat sz \<le> 2 ^ 64"
  shows "(\<forall>req p h'. sheap_alloc req h = (p, h') \<longrightarrow>
      (let n = unat (align16 req)
       in if n = 0 \<or> (\<nexists>x. {x..<x + n} \<subseteq> region \<and> {x..<x + n} \<inter> occupied h = {}) then p = 0 \<and> h' = h
          else p \<noteq> 0 \<and> span p n \<subseteq> region \<and> span p n \<inter> occupied h = {} \<and> live h' = (live h)(p \<mapsto> n))) \<and>
    (\<forall>p ok h'. sheap_free p h = (ok, h') \<longrightarrow>
      (ok \<longleftrightarrow> p = 0 \<or> p \<in> dom (live h)) \<and> live h' = (live h)(p := None)) \<and>
    (\<forall>p q m n. live h p = Some m \<and> live h q = Some n \<and> p \<noteq> q \<longrightarrow> span p m \<inter> span q n = {}) \<and>
    sheap_used_bytes h + sheap_free_bytes h = sz"
proof -
  have wf: "sheap_wf h" "sh_base h = base" "sh_size h = sz"
    using sheap_steps_ok [OF install_wf [of base sz new_stub_heap], of ops] assms by (simp_all add: h_def sheap_install_def)
  have "(\<forall>req p h'. sheap_alloc req h = (p, h') \<longrightarrow>
      (let n = unat (align16 req)
       in if n = 0 \<or> (\<nexists>x. {x..<x + n} \<subseteq> region \<and> {x..<x + n} \<inter> occupied h = {}) then p = 0 \<and> h' = h
          else p \<noteq> 0 \<and> span p n \<subseteq> region \<and> span p n \<inter> occupied h = {} \<and> live h' = (live h)(p \<mapsto> n)))"
    using sheap_alloc_ok [OF wf(1)] unfolding region_def Let_def wf(2,3) by blast
  moreover have "\<forall>p ok h'. sheap_free p h = (ok, h') \<longrightarrow>
      (ok \<longleftrightarrow> p = 0 \<or> p \<in> dom (live h)) \<and> live h' = (live h)(p := None)"
    using sheap_free_ok [OF wf(1)] by blast
  moreover have "\<forall>p q m n. live h p = Some m \<and> live h q = Some n \<and> p \<noteq> q \<longrightarrow> span p m \<inter> span q n = {}"
    using live_disjoint [OF wf(1)] by blast
  ultimately show ?thesis using sheap_bytes [OF wf(1)] wf(3) by blast
qed

text \<open>In a region of 64 bytes: two blocks fit, a third does not, and after the first is freed its bytes are used again.\<close>

theorem stub_heap_contract_witness:
  "fst (sheap_free 0x1000 (sheap_steps [SH_Alloc 20, SH_Alloc 32] (sheap_install 0x1000 64 new_stub_heap))) = True"
proof -
  let ?h = "sheap_steps [SH_Alloc 20, SH_Alloc 32] (sheap_install 0x1000 64 new_stub_heap)"
  have "0x1000 \<in> dom (live ?h)"
    by (simp add: sheap_install_def new_stub_heap_def sheap_alloc_def align16_def live_def)
  moreover have "\<forall>p ok h'. sheap_free p ?h = (ok, h') \<longrightarrow> (ok \<longleftrightarrow> p = 0 \<or> p \<in> dom (live ?h)) \<and> live h' = (live ?h)(p := None)"
    by (rule stub_heap_contract [THEN conjunct2, THEN conjunct1]) simp_all
  moreover obtain ok h' where "sheap_free 0x1000 ?h = (ok, h')" by (metis prod.exhaust)
  ultimately show ?thesis by (metis fst_conv)
qed

end
