(* ===== verification/Host_Float.thy ===== *)
theory Host_Float
  imports Complex_Main Emu_Prelude
begin

text \<open>
  The floating-point arithmetic of the C++ the handlers are written in: \<^verbatim>\<open>float\<close> and \<^verbatim>\<open>double\<close> are the IEEE formats of 32 and 64
  bits, and the operators round the exact result once, in the rounding mode of the environment, which is to nearest unless a
  handler switches it with \<^verbatim>\<open>fesetround\<close>.  A value is its bit pattern, a \<^verbatim>\<open>float\<close> in the low half of the word.  What the
  language leaves open is a parameter: which NaN an operation makes, the result of a conversion to an integer type the value does
  not fit in, and the elementary functions of \<^verbatim>\<open><cmath>\<close>.
\<close>

datatype rounding = To_Nearest | Downward | Upward | Toward_Zero

record fmt =
  fm_exp :: nat
  fm_man :: nat

definition F32 :: fmt where "F32 = \<lparr>fm_exp = 8, fm_man = 23\<rparr>"
definition F64 :: fmt where "F64 = \<lparr>fm_exp = 11, fm_man = 52\<rparr>"

record host_fp =
  hf_nan :: "fmt \<Rightarrow> u64 list \<Rightarrow> u64"
  hf_bad_int :: "nat \<Rightarrow> u64 \<Rightarrow> int"
  hf_sin :: "u64 \<Rightarrow> u64"
  hf_cos :: "u64 \<Rightarrow> u64"
  hf_exp2 :: "u64 \<Rightarrow> u64"
  hf_log2 :: "u64 \<Rightarrow> u64"
  hf_atan2 :: "u64 \<Rightarrow> u64 \<Rightarrow> u64"
  hf_pow :: "u64 \<Rightarrow> u64 \<Rightarrow> u64"

section \<open>Patterns and values\<close>

definition fp_neg :: "fmt \<Rightarrow> u64 \<Rightarrow> bool" where
  "fp_neg f x \<longleftrightarrow> odd (unat x div 2 ^ (fm_exp f + fm_man f))"

definition fp_mag :: "fmt \<Rightarrow> u64 \<Rightarrow> nat" where
  "fp_mag f x = unat x mod 2 ^ (fm_exp f + fm_man f)"

definition fp_pack :: "fmt \<Rightarrow> bool \<Rightarrow> nat \<Rightarrow> u64" where
  "fp_pack f s mag = of_nat (mag + (if s then 2 ^ (fm_exp f + fm_man f) else 0))"

text \<open>The magnitude of infinity, and the exponent of the smallest positive number.\<close>

definition fp_huge :: "fmt \<Rightarrow> nat" where
  "fp_huge f = (2 ^ fm_exp f - 1) * 2 ^ fm_man f"

definition fp_emin :: "fmt \<Rightarrow> int" where
  "fp_emin f = 2 - 2 ^ (fm_exp f - 1) - int (fm_man f)"

datatype host_val = HNaN | HInf bool | HFin bool nat int

definition fp_decode :: "fmt \<Rightarrow> u64 \<Rightarrow> host_val" where
  "fp_decode f x =
     (let s = fp_neg f x; mag = fp_mag f x; E = mag div 2 ^ fm_man f; M = mag mod 2 ^ fm_man f
      in if mag > fp_huge f then HNaN
         else if mag = fp_huge f then HInf s
         else if E = 0 then HFin s M (fp_emin f)
         else HFin s (2 ^ fm_man f + M) (fp_emin f + int E - 1))"

definition fp_isnan :: "fmt \<Rightarrow> u64 \<Rightarrow> bool" where
  "fp_isnan f x \<longleftrightarrow> fp_mag f x > fp_huge f"

section \<open>Rounding\<close>

fun bit_length :: "nat \<Rightarrow> nat" where
  "bit_length n = (if n = 0 then 0 else Suc (bit_length (n div 2)))"

declare bit_length.simps [simp del]

text \<open>\<open>N / D * 2 powi e\<close> in units of \<open>2 powi k\<close>, as a fraction.\<close>

definition unit_num :: "nat \<Rightarrow> int \<Rightarrow> int \<Rightarrow> nat" where
  "unit_num N e k = N * 2 ^ nat (e - k)"

definition unit_den :: "nat \<Rightarrow> int \<Rightarrow> int \<Rightarrow> nat" where
  "unit_den D e k = D * 2 ^ nat (k - e)"

definition round_up :: "rounding \<Rightarrow> bool \<Rightarrow> nat \<Rightarrow> nat \<Rightarrow> nat \<Rightarrow> bool" where
  "round_up mode s q r d =
     (case mode of
        To_Nearest \<Rightarrow> d < 2 * r \<or> d = 2 * r \<and> odd q
      | Downward \<Rightarrow> r \<noteq> 0 \<and> s
      | Upward \<Rightarrow> r \<noteq> 0 \<and> \<not> s
      | Toward_Zero \<Rightarrow> False)"

definition fp_round :: "fmt \<Rightarrow> rounding \<Rightarrow> bool \<Rightarrow> nat \<Rightarrow> nat \<Rightarrow> int \<Rightarrow> u64" where
  "fp_round f mode s N D e =
     (let t = int (bit_length N) - int (bit_length D) + e;
          top = (if unit_den D e t \<le> unit_num N e t then t else t - 1);
          k = max (fp_emin f) (top - int (fm_man f));
          num = unit_num N e k; den = unit_den D e k; q = num div den; r = num mod den;
          mag = nat (k - fp_emin f) * 2 ^ fm_man f + (if round_up mode s q r den then q + 1 else q)
      in if mag < fp_huge f then fp_pack f s mag
         else if mode = To_Nearest \<or> mode = Upward \<and> \<not> s \<or> mode = Downward \<and> s then fp_pack f s (fp_huge f)
         else fp_pack f s (fp_huge f - 1))"

section \<open>Operations\<close>

definition signed_mag :: "bool \<Rightarrow> nat \<Rightarrow> int" where
  "signed_mag s n = (if s then - int n else int n)"

definition fp_of_int :: "fmt \<Rightarrow> rounding \<Rightarrow> int \<Rightarrow> int \<Rightarrow> u64" where
  "fp_of_int f mode z e = fp_round f mode (z < 0) (nat \<bar>z\<bar>) 1 e"

definition fp_negate :: "fmt \<Rightarrow> u64 \<Rightarrow> u64" where
  "fp_negate f x = fp_pack f (\<not> fp_neg f x) (fp_mag f x)"

definition fp_abs :: "fmt \<Rightarrow> u64 \<Rightarrow> u64" where
  "fp_abs f x = fp_pack f False (fp_mag f x)"

definition fp_add :: "host_fp \<Rightarrow> fmt \<Rightarrow> rounding \<Rightarrow> u64 \<Rightarrow> u64 \<Rightarrow> u64" where
  "fp_add h f mode a b =
     (case fp_decode f a of
        HNaN \<Rightarrow> hf_nan h f [a, b]
      | HInf s \<Rightarrow> (case fp_decode f b of HNaN \<Rightarrow> hf_nan h f [a, b] | HInf s' \<Rightarrow> if s = s' then a else hf_nan h f [a, b] | _ \<Rightarrow> a)
      | HFin s m e \<Rightarrow>
          (case fp_decode f b of
             HNaN \<Rightarrow> hf_nan h f [a, b]
           | HInf s' \<Rightarrow> b
           | HFin s' m' e' \<Rightarrow>
               (let k = min e e'; z = signed_mag s (m * 2 ^ nat (e - k)) + signed_mag s' (m' * 2 ^ nat (e' - k))
                in if z = 0 then fp_pack f (if s = s' then s else mode = Downward) 0 else fp_of_int f mode z k)))"

definition fp_sub :: "host_fp \<Rightarrow> fmt \<Rightarrow> rounding \<Rightarrow> u64 \<Rightarrow> u64 \<Rightarrow> u64" where
  "fp_sub h f mode a b = (if fp_isnan f a \<or> fp_isnan f b then hf_nan h f [a, b] else fp_add h f mode a (fp_negate f b))"

definition fp_mul :: "host_fp \<Rightarrow> fmt \<Rightarrow> rounding \<Rightarrow> u64 \<Rightarrow> u64 \<Rightarrow> u64" where
  "fp_mul h f mode a b =
     (let s = (fp_neg f a \<noteq> fp_neg f b)
      in case (fp_decode f a, fp_decode f b) of
           (HFin _ m e, HFin _ m' e') \<Rightarrow> if m = 0 \<or> m' = 0 then fp_pack f s 0 else fp_round f mode s (m * m') 1 (e + e')
         | (HInf _, HFin _ m' _) \<Rightarrow> if m' = 0 then hf_nan h f [a, b] else fp_pack f s (fp_huge f)
         | (HFin _ m _, HInf _) \<Rightarrow> if m = 0 then hf_nan h f [a, b] else fp_pack f s (fp_huge f)
         | (HInf _, HInf _) \<Rightarrow> fp_pack f s (fp_huge f)
         | _ \<Rightarrow> hf_nan h f [a, b])"

definition fp_div :: "host_fp \<Rightarrow> fmt \<Rightarrow> rounding \<Rightarrow> u64 \<Rightarrow> u64 \<Rightarrow> u64" where
  "fp_div h f mode a b =
     (let s = (fp_neg f a \<noteq> fp_neg f b)
      in case (fp_decode f a, fp_decode f b) of
           (HFin _ m e, HFin _ m' e') \<Rightarrow>
             if m' = 0 then (if m = 0 then hf_nan h f [a, b] else fp_pack f s (fp_huge f))
             else if m = 0 then fp_pack f s 0
             else fp_round f mode s m m' (e - e')
         | (HInf _, HFin _ _ _) \<Rightarrow> fp_pack f s (fp_huge f)
         | (HFin _ _ _, HInf _) \<Rightarrow> fp_pack f s 0
         | _ \<Rightarrow> hf_nan h f [a, b])"

text \<open>The integer square root; the exact root lies between it and its successor, so two more bits decide the rounding.\<close>

definition isqrt_digit :: "nat \<Rightarrow> nat \<Rightarrow> nat" where
  "isqrt_digit n r = (if (r + 1) * (r + 1) \<le> n then r + 1 else r)"

fun isqrt :: "nat \<Rightarrow> nat" where
  "isqrt n = (if n = 0 then 0 else isqrt_digit n (2 * isqrt (n div 4)))"

declare isqrt.simps [simp del]

definition fp_sqrt :: "host_fp \<Rightarrow> fmt \<Rightarrow> rounding \<Rightarrow> u64 \<Rightarrow> u64" where
  "fp_sqrt h f mode a =
     (case fp_decode f a of
        HNaN \<Rightarrow> hf_nan h f [a]
      | HInf s \<Rightarrow> if s then hf_nan h f [a] else a
      | HFin s m e \<Rightarrow>
          if m = 0 then a
          else if s then hf_nan h f [a]
          else (let j = 2 * (fm_man f + 2); (n, e) = (if even e then (m * 2 ^ j, e - int j) else (2 * m * 2 ^ j, e - 1 - int j));
                    r = isqrt n
                in fp_round f mode False (2 * r + of_bool (r * r \<noteq> n)) 1 (e div 2 - 1)))"

definition fp_lt :: "fmt \<Rightarrow> u64 \<Rightarrow> u64 \<Rightarrow> bool" where
  "fp_lt f a b \<longleftrightarrow> \<not> fp_isnan f a \<and> \<not> fp_isnan f b \<and> signed_mag (fp_neg f a) (fp_mag f a) < signed_mag (fp_neg f b) (fp_mag f b)"

definition fp_eq :: "fmt \<Rightarrow> u64 \<Rightarrow> u64 \<Rightarrow> bool" where
  "fp_eq f a b \<longleftrightarrow> \<not> fp_isnan f a \<and> \<not> fp_isnan f b \<and> signed_mag (fp_neg f a) (fp_mag f a) = signed_mag (fp_neg f b) (fp_mag f b)"

text \<open>\<open>static_cast\<close> between the formats, from and to integers of \<open>w\<close> bits.\<close>

definition fp_convert :: "host_fp \<Rightarrow> fmt \<Rightarrow> fmt \<Rightarrow> u64 \<Rightarrow> u64" where
  "fp_convert h f g a =
     (case fp_decode f a of
        HNaN \<Rightarrow> hf_nan h g [a]
      | HInf s \<Rightarrow> fp_pack g s (fp_huge g)
      | HFin s m e \<Rightarrow> if m = 0 then fp_pack g s 0 else fp_round g To_Nearest s m 1 e)"

definition int_to_fp :: "fmt \<Rightarrow> int \<Rightarrow> u64" where
  "int_to_fp f z = (if z = 0 then 0 else fp_of_int f To_Nearest z 0)"

definition fp_to_int :: "host_fp \<Rightarrow> nat \<Rightarrow> fmt \<Rightarrow> u64 \<Rightarrow> int" where
  "fp_to_int h w f a =
     (case fp_decode f a of
        HFin s m e \<Rightarrow>
          (let z = signed_mag s (unit_num m e 0 div unit_den 1 e 0)
           in if - (2 ^ (w - 1)) \<le> z \<and> z < 2 ^ (w - 1) then z else hf_bad_int h w a)
      | _ \<Rightarrow> hf_bad_int h w a)"

text \<open>\<open>nearbyint\<close>, \<open>floor\<close>, \<open>ceil\<close> and \<open>trunc\<close>, by mode.\<close>

definition fp_integral :: "host_fp \<Rightarrow> fmt \<Rightarrow> rounding \<Rightarrow> u64 \<Rightarrow> u64" where
  "fp_integral h f mode a =
     (case fp_decode f a of
        HNaN \<Rightarrow> hf_nan h f [a]
      | HInf s \<Rightarrow> a
      | HFin s m e \<Rightarrow>
          if 0 \<le> e then a
          else (let d = 2 ^ nat (- e); q = m div d; r = m mod d; n = (if round_up mode s q r d then q + 1 else q)
                in if n = 0 then fp_pack f s 0 else fp_round f To_Nearest s n 1 0))"

definition fp_ldexp :: "host_fp \<Rightarrow> u64 \<Rightarrow> int \<Rightarrow> u64" where
  "fp_ldexp h a n =
     (case fp_decode F64 a of
        HNaN \<Rightarrow> hf_nan h F64 [a]
      | HInf s \<Rightarrow> a
      | HFin s m e \<Rightarrow> if m = 0 then a else fp_round F64 To_Nearest s m 1 (e + n))"

section \<open>Values\<close>

definition fp_value :: "fmt \<Rightarrow> u64 \<Rightarrow> real" where
  "fp_value f a = (case fp_decode f a of HFin s m e \<Rightarrow> (if s then - 1 else 1) * real m * 2 powi e | _ \<Rightarrow> 0)"

definition fp_finite :: "fmt \<Rightarrow> u64 \<Rightarrow> bool" where
  "fp_finite f a \<longleftrightarrow> fp_mag f a < fp_huge f"

text \<open>An instance: quiet NaNs, and elementary functions that are not used.\<close>

definition plain_host :: host_fp where
  "plain_host =
     \<lparr>hf_nan = (\<lambda>f _. of_nat (fp_huge f + 2 ^ (fm_man f - 1))), hf_bad_int = (\<lambda>w _. - (2 ^ (w - 1))), hf_sin = (\<lambda>x. x), hf_cos = (\<lambda>x. x),
      hf_exp2 = (\<lambda>x. x), hf_log2 = (\<lambda>x. x), hf_atan2 = (\<lambda>x y. x), hf_pow = (\<lambda>x y. x)\<rparr>"

end
