(* ===== verification/Float80.thy ===== *)
theory Float80
  imports Complex_Main Emu_Prelude
begin

text \<open>
  The 80-bit extended-precision soft float of \<^verbatim>\<open>float80.h\<close> and \<^verbatim>\<open>float80.cpp\<close>: storage, conversion from and to doubles, and
  the four arithmetic operations with their 128-bit intermediate results.  Exponents are \<open>int\<close>; those of the source are 32-bit
  and stay below \<open>2 ^ 17\<close> in absolute value.  The two normalisation loops get the width of the value they shift as fuel,
  which is enough for every non-zero value.
\<close>

section \<open>Storage\<close>

record float80 =
  fx_sig :: u64
  fx_signexp :: u16

definition is_sign_negative :: "float80 \<Rightarrow> bool" where
  "is_sign_negative f \<longleftrightarrow> fx_signexp f AND 0x8000 \<noteq> 0"

definition raw_exp :: "float80 \<Rightarrow> u16" where
  "raw_exp f = fx_signexp f AND 0x7FFF"

abbreviation (input) TOP :: u64 where "TOP \<equiv> 0x8000000000000000"

definition is_zero :: "float80 \<Rightarrow> bool" where
  "is_zero f \<longleftrightarrow> raw_exp f = 0 \<and> fx_sig f = 0"

definition is_inf :: "float80 \<Rightarrow> bool" where
  "is_inf f \<longleftrightarrow> raw_exp f = 0x7FFF \<and> push_bit 1 (fx_sig f) = 0 \<and> fx_sig f AND TOP \<noteq> 0"

definition is_nan :: "float80 \<Rightarrow> bool" where
  "is_nan f \<longleftrightarrow> raw_exp f = 0x7FFF \<and> (push_bit 1 (fx_sig f) \<noteq> 0 \<or> fx_sig f AND TOP = 0)"

definition f80_zero :: "bool \<Rightarrow> float80" where
  "f80_zero negative = \<lparr>fx_sig = 0, fx_signexp = if negative then 0x8000 else 0\<rparr>"

definition f80_inf :: "bool \<Rightarrow> float80" where
  "f80_inf negative = \<lparr>fx_sig = TOP, fx_signexp = (if negative then 0x8000 else 0) OR 0x7FFF\<rparr>"

definition f80_qnan :: float80 where
  "f80_qnan = \<lparr>fx_sig = TOP OR 0x4000000000000000, fx_signexp = 0x7FFF\<rparr>"

text \<open>The memory image: eight bytes of significand, two of sign and exponent, both little-endian.\<close>

definition from_bytes :: "u8 list \<Rightarrow> float80" where
  "from_bytes b =
     \<lparr>fx_sig = foldr (\<lambda>k v. push_bit 8 v OR ucast (b ! k)) [0..<8] 0,
      fx_signexp = ucast (b ! 8) OR push_bit 8 (ucast (b ! 9))\<rparr>"

definition to_bytes :: "float80 \<Rightarrow> u8 list" where
  "to_bytes f = map (\<lambda>k. ucast (drop_bit (8 * k) (fx_sig f))) [0..<8] @
     map (\<lambda>k. ucast (drop_bit (8 * k) (fx_signexp f))) [0..<2]"

section \<open>Doubles\<close>

text \<open>A double is its 64-bit pattern.\<close>

definition from_double :: "u64 \<Rightarrow> float80" where
  "from_double db =
     (let sign = drop_bit 63 db \<noteq> 0; dexp = uint (drop_bit 52 db AND 0x7FF) - 1023; dmant = db AND 0xFFFFFFFFFFFFF;
          s = (if sign then 0x8000 else 0)
      in if db AND NOT TOP = 0 then \<lparr>fx_sig = 0, fx_signexp = s\<rparr>
         else if dexp = 1024 then \<lparr>fx_sig = TOP OR push_bit 11 dmant, fx_signexp = s OR 0x7FFF\<rparr>
         else \<lparr>fx_sig = TOP OR push_bit 11 dmant, fx_signexp = s OR word_of_int (dexp + 0x3FFF)\<rparr>)"

definition to_double :: "float80 \<Rightarrow> u64" where
  "to_double f =
     (let sign = fx_signexp f AND 0x8000 \<noteq> 0; ex = uint (fx_signexp f AND 0x7FFF); s = (if sign then TOP else 0)
      in if ex = 0 \<and> fx_sig f = 0 then s
         else if ex = 0x7FFF then
           (if fx_sig f AND TOP \<noteq> 0 \<and> push_bit 1 (fx_sig f) = 0 then s OR 0x7FF0000000000000 else 0x7FF8000000000000)
         else
           (let mant52 = drop_bit 11 (fx_sig f) AND 0xFFFFFFFFFFFFF; dexp = ex - 0x3FFF + 1023
            in if 2047 \<le> dexp then s OR push_bit 52 0x7FF
               else if dexp \<le> 0 then s
               else s OR push_bit 52 (word_of_int dexp) OR mant52))"

section \<open>128-bit helpers\<close>

record u128 =
  u_hi :: u64
  u_lo :: u64

definition shr128_sticky :: "u128 \<Rightarrow> nat \<Rightarrow> u128" where
  "shr128_sticky v n =
     (if n = 0 then v
      else if 128 \<le> n then \<lparr>u_hi = 0, u_lo = if u_hi v \<noteq> 0 \<or> u_lo v \<noteq> 0 then 1 else 0\<rparr>
      else if 64 \<le> n then
        (let k = n - 64; lost_lo = u_lo v; lost_hi = (if k = 0 then 0 else u_hi v AND (push_bit k 1 - 1));
             lo = (if k = 0 then u_hi v else drop_bit k (u_hi v))
         in \<lparr>u_hi = 0, u_lo = if lost_lo \<noteq> 0 \<or> lost_hi \<noteq> 0 then lo OR 1 else lo\<rparr>)
      else
        (let lost_lo = u_lo v AND (push_bit n 1 - 1); lo = drop_bit n (u_lo v) OR push_bit (64 - n) (u_hi v)
         in \<lparr>u_hi = drop_bit n (u_hi v), u_lo = if lost_lo \<noteq> 0 then lo OR 1 else lo\<rparr>))"

definition add128 :: "u128 \<Rightarrow> u128 \<Rightarrow> u128" where
  "add128 a b = (let lo = u_lo a + u_lo b; carry = (if lo < u_lo a then 1 else 0) in \<lparr>u_hi = u_hi a + u_hi b + carry, u_lo = lo\<rparr>)"

definition sub128 :: "u128 \<Rightarrow> u128 \<Rightarrow> u128" where
  "sub128 a b = (let borrow = (if u_lo a < u_lo b then 1 else 0) in \<lparr>u_hi = u_hi a - u_hi b - borrow, u_lo = u_lo a - u_lo b\<rparr>)"

definition cmp128 :: "u128 \<Rightarrow> u128 \<Rightarrow> int" where
  "cmp128 a b =
     (if u_hi a \<noteq> u_hi b then if u_hi a > u_hi b then 1 else - 1
      else if u_lo a \<noteq> u_lo b then if u_lo a > u_lo b then 1 else - 1 else 0)"

definition mul64x64 :: "u64 \<Rightarrow> u64 \<Rightarrow> u128" where
  "mul64x64 a b = (let p = ucast a * ucast b :: 128 word in \<lparr>u_hi = ucast (drop_bit 64 p), u_lo = ucast p\<rparr>)"

text \<open>One bit of the long division; \<open>rem_top\<close> is the bit that leaves the 64-bit remainder.\<close>

definition div_bit :: "u128 \<Rightarrow> u64 \<Rightarrow> nat \<Rightarrow> u64 \<times> u64 \<Rightarrow> u64 \<times> u64" where
  "div_bit num den i = (\<lambda>(q, rem).
     let rem_top = rem AND TOP \<noteq> 0; new_bit = (if 64 \<le> i then drop_bit (i - 64) (u_hi num) else drop_bit i (u_lo num)) AND 1;
         rem = push_bit 1 rem OR new_bit
     in if rem_top \<or> den \<le> rem then (if i < 64 then q OR push_bit i 1 else q, rem - den) else (q, rem))"

definition div128_by_64 :: "u128 \<Rightarrow> u64 \<Rightarrow> u64 \<times> u64" where
  "div128_by_64 num den = fold (div_bit num den) (rev [0..<128]) (0, 0)"

section \<open>Rounding and packing\<close>

definition pack_normal :: "bool \<Rightarrow> u64 \<Rightarrow> int \<Rightarrow> float80" where
  "pack_normal sign mant e =
     (if 0x7FFF \<le> e then f80_inf sign
      else if e \<le> 0 then f80_zero sign
      else \<lparr>fx_sig = mant, fx_signexp = (if sign then 0x8000 else 0) OR (word_of_int e AND 0x7FFF)\<rparr>)"

definition round_to_nearest_even :: "u128 \<Rightarrow> int \<Rightarrow> u64 \<times> int" where
  "round_to_nearest_even m e =
     (let inc = u_hi m + 1; up = (if inc = 0 then (TOP, e + 1) else (inc, e))
      in if u_lo m < TOP then (u_hi m, e)
         else if u_lo m > TOP then up
         else if u_hi m AND 1 = 0 then (u_hi m, e)
         else up)"

fun unpack_loop :: "nat \<Rightarrow> u64 \<Rightarrow> int \<Rightarrow> u64 \<times> int" where
  "unpack_loop 0 m e = (m, e)"
| "unpack_loop (Suc n) m e = (if m AND TOP = 0 then unpack_loop n (push_bit 1 m) (e - 1) else (m, e))"

definition unpack :: "float80 \<Rightarrow> u64 \<times> int" where
  "unpack f =
     (let e = uint (raw_exp f); m = fx_sig f
      in if e = 0 \<and> m \<noteq> 0 then (case unpack_loop 64 m e of (m, e) \<Rightarrow> (m, e + 1)) else (m, e))"

section \<open>Arithmetic\<close>

definition flip_sign :: "float80 \<Rightarrow> float80" where
  "flip_sign f = f\<lparr>fx_signexp := fx_signexp f XOR 0x8000\<rparr>"

text \<open>The two mantissas in a common exponent.\<close>

definition align :: "u64 \<Rightarrow> int \<Rightarrow> u64 \<Rightarrow> int \<Rightarrow> u128 \<times> u128 \<times> int" where
  "align am ae bm be =
     (let A = \<lparr>u_hi = am, u_lo = 0\<rparr>; B = \<lparr>u_hi = bm, u_lo = 0\<rparr>
      in if ae > be then (A, shr128_sticky B (nat (ae - be)), ae)
         else if be > ae then (shr128_sticky A (nat (be - ae)), B, be)
         else (A, B, ae))"

text \<open>The last part of \<open>f80_add\<close>: operands of the same sign, finite and not zero.\<close>

definition add_magnitudes :: "float80 \<Rightarrow> float80 \<Rightarrow> float80" where
  "add_magnitudes a b =
     (case unpack a of (am, ae) \<Rightarrow> case unpack b of (bm, be) \<Rightarrow> case align am ae bm be of (A, B, e) \<Rightarrow>
       (let sum = add128 A B;
            (sum, e) = (if u_hi sum < u_hi A then (let s = shr128_sticky sum 1 in (s\<lparr>u_hi := u_hi s OR TOP\<rparr>, e + 1)) else (sum, e));
            (mant, e) = round_to_nearest_even sum e
        in pack_normal (is_sign_negative a) mant e))"

fun shl_loop :: "nat \<Rightarrow> u128 \<Rightarrow> int \<Rightarrow> u128 \<times> int" where
  "shl_loop 0 d e = (d, e)"
| "shl_loop (Suc n) d e =
     (if u_hi d AND TOP = 0
      then shl_loop n \<lparr>u_hi = push_bit 1 (u_hi d) OR drop_bit 63 (u_lo d), u_lo = push_bit 1 (u_lo d)\<rparr> (e - 1)
      else (d, e))"

definition sub_magnitudes :: "float80 \<Rightarrow> float80 \<Rightarrow> float80" where
  "sub_magnitudes a b =
     (case unpack a of (am, ae) \<Rightarrow> case unpack b of (bm, be) \<Rightarrow> case align am ae bm be of (A, B, e) \<Rightarrow>
       (let (diff, sign) = (if cmp128 A B \<ge> 0 then (sub128 A B, is_sign_negative a) else (sub128 B A, \<not> is_sign_negative a))
        in if u_hi diff = 0 \<and> u_lo diff = 0 then f80_zero False
           else
             (let (diff, e) = shl_loop 128 diff e; (mant, e) = round_to_nearest_even diff e
              in pack_normal sign mant e)))"

lemma flip_sign_negative [simp]: "is_sign_negative (flip_sign f) \<longleftrightarrow> \<not> is_sign_negative f"
proof -
  have b: "bit (0x8000 :: u16) 15" by simp
  have "(w AND 0x8000 \<noteq> 0) \<longleftrightarrow> bit w 15" for w :: u16
  proof -
    have "(0x8000 :: u16) = push_bit 15 1" by simp
    then show ?thesis by (simp only: and_exp_eq_0_iff_not_bit push_bit_eq_mult) (simp add: and_exp_eq_0_iff_not_bit [of w 15, simplified])
  qed
  then show ?thesis using b by (simp add: is_sign_negative_def flip_sign_def bit_xor_iff)
qed

text \<open>Addition of numbers of different signs is the subtraction of the negated second one, and the other way round.\<close>

function (sequential) f80_add :: "float80 \<Rightarrow> float80 \<Rightarrow> float80" and f80_sub :: "float80 \<Rightarrow> float80 \<Rightarrow> float80" where
  "f80_add a b =
     (if is_nan a \<or> is_nan b then f80_qnan
      else if is_inf a \<or> is_inf b then
        (if is_inf a \<and> is_inf b then
           (if is_sign_negative a \<noteq> is_sign_negative b then f80_qnan else f80_inf (is_sign_negative a))
         else if is_inf a then a else b)
      else if is_sign_negative a \<noteq> is_sign_negative b then f80_sub a (flip_sign b)
      else if is_zero a then b
      else if is_zero b then a
      else add_magnitudes a b)"
| "f80_sub a b =
     (if is_nan a \<or> is_nan b then f80_qnan
      else if is_inf a \<and> is_inf b then
        (if is_sign_negative a = is_sign_negative b then f80_qnan else f80_inf (is_sign_negative a))
      else if is_inf a then a
      else if is_inf b then f80_inf (\<not> is_sign_negative b)
      else if is_sign_negative a \<noteq> is_sign_negative b then f80_add a (flip_sign b)
      else if is_zero a \<and> is_zero b then f80_zero False
      else if is_zero b then a
      else if is_zero a then flip_sign b
      else sub_magnitudes a b)"
  by pat_completeness auto

termination
  by (relation "measure (\<lambda>x. case x of Inl (a, b) \<Rightarrow> of_bool (is_sign_negative a \<noteq> is_sign_negative b)
      | Inr (a, b) \<Rightarrow> of_bool (is_sign_negative a \<noteq> is_sign_negative b))") auto

declare f80_add.simps [simp del] f80_sub.simps [simp del]

definition f80_mul :: "float80 \<Rightarrow> float80 \<Rightarrow> float80" where
  "f80_mul a b =
     (let sign = (is_sign_negative a \<noteq> is_sign_negative b)
      in if is_nan a \<or> is_nan b then f80_qnan
         else if is_inf a \<or> is_inf b then (if is_zero a \<or> is_zero b then f80_qnan else f80_inf sign)
         else if is_zero a \<or> is_zero b then f80_zero sign
         else
           (case unpack a of (am, ae) \<Rightarrow> case unpack b of (bm, be) \<Rightarrow>
             (let p = mul64x64 am bm; e = ae + be - 0x3FFF;
                  (p, e) = (if u_hi p AND TOP \<noteq> 0 then (p, e + 1)
                            else (\<lparr>u_hi = push_bit 1 (u_hi p) OR drop_bit 63 (u_lo p), u_lo = push_bit 1 (u_lo p)\<rparr>, e));
                  (mant, e) = round_to_nearest_even p e
              in pack_normal sign mant e)))"

text \<open>The bit behind the quotient, and what remains after it.\<close>

definition next_quotient_bit :: "u64 \<Rightarrow> u64 \<Rightarrow> bool \<times> u64" where
  "next_quotient_bit rem bm =
     (let doubled = push_bit 1 rem
      in if rem AND TOP \<noteq> 0 then (True, doubled + (NOT bm + 1))
         else if bm \<le> doubled then (True, doubled - bm)
         else (False, doubled))"

definition f80_div :: "float80 \<Rightarrow> float80 \<Rightarrow> float80" where
  "f80_div a b =
     (let sign = (is_sign_negative a \<noteq> is_sign_negative b)
      in if is_nan a \<or> is_nan b then f80_qnan
         else if is_inf a \<and> is_inf b then f80_qnan
         else if is_zero b then (if is_zero a then f80_qnan else f80_inf sign)
         else if is_zero a then f80_zero sign
         else if is_inf a then f80_inf sign
         else if is_inf b then f80_zero sign
         else
           (case unpack a of (am, ae) \<Rightarrow> case unpack b of (bm, be) \<Rightarrow>
             (let (num, e) = (if am < bm then (\<lparr>u_hi = am, u_lo = 0\<rparr>, ae - be + 0x3FFF - 1)
                              else (\<lparr>u_hi = drop_bit 1 am, u_lo = push_bit 63 (am AND 1)\<rparr>, ae - be + 0x3FFF));
                  (q, rem) = div128_by_64 num bm;
                  (round_bit, rem_after) = next_quotient_bit rem bm;
                  r = \<lparr>u_hi = q, u_lo = (if round_bit then TOP else 0) OR (if rem_after \<noteq> 0 then 1 else 0)\<rparr>;
                  (mant, e) = round_to_nearest_even r e
              in pack_normal sign mant e)))"

section \<open>Numbers\<close>

text \<open>The value of a 128-bit intermediate result and of a finite number.\<close>

definition val128 :: "u128 \<Rightarrow> nat" where
  "val128 v = unat (u_hi v) * 2 ^ 64 + unat (u_lo v)"

definition magnitude :: "float80 \<Rightarrow> real" where
  "magnitude f = real (unat (fx_sig f)) * 2 powi (max 1 (uint (raw_exp f)) - 16446)"

definition f80_value :: "float80 \<Rightarrow> real" where
  "f80_value f = (if is_sign_negative f then - magnitude f else magnitude f)"

text \<open>Finite, not zero, and with an integer bit unless it is subnormal.\<close>

definition f80_number :: "float80 \<Rightarrow> bool" where
  "f80_number f \<longleftrightarrow> raw_exp f \<noteq> 0x7FFF \<and> fx_sig f \<noteq> 0 \<and> (raw_exp f = 0 \<or> fx_sig f AND TOP \<noteq> 0)"

definition nearest_even :: "real \<Rightarrow> nat" where
  "nearest_even x =
     (let q = nat \<lfloor>x\<rfloor>; d = x - real q
      in if d < 1 / 2 then q else if d > 1 / 2 then q + 1 else if even q then q else q + 1)"

text \<open>\<open>m * 2 powi e\<close> is \<open>x\<close> rounded to 64 significant bits.\<close>

definition rounds_to :: "real \<Rightarrow> nat \<Rightarrow> int \<Rightarrow> bool" where
  "rounds_to x m e \<longleftrightarrow>
     (\<exists>k. 2 ^ 63 * 2 powi k \<le> x \<and> x < 2 ^ 64 * 2 powi k \<and>
        (if nearest_even (x / 2 powi k) = 2 ^ 64 then m = 2 ^ 63 \<and> e = k + 1 else m = nearest_even (x / 2 powi k) \<and> e = k))"

text \<open>The correctly rounded result; too large magnitudes become infinite, too small ones zero.\<close>

definition correct_result :: "real \<Rightarrow> float80 \<Rightarrow> bool" where
  "correct_result x f \<longleftrightarrow>
     (if x = 0 then f = f80_zero False
      else \<exists>m e. rounds_to \<bar>x\<bar> m e \<and> f = pack_normal (x < 0) (of_nat m) (e + 16446))"

end
