(* ===== verification/Float80_Functions.thy ===== *)
theory Float80_Functions
  imports Host_Float Float80
begin

text \<open>
  The elementary functions of \<^verbatim>\<open>float80.cpp\<close>: they go through doubles, reduce the argument and evaluate a polynomial in the
  order the source writes it.  Constants are the bit patterns of the literals.
\<close>

definition dadd :: "host_fp \<Rightarrow> u64 \<Rightarrow> u64 \<Rightarrow> u64" where
  "dadd h = fp_add h F64 To_Nearest"

definition dsub :: "host_fp \<Rightarrow> u64 \<Rightarrow> u64 \<Rightarrow> u64" where
  "dsub h = fp_sub h F64 To_Nearest"

definition dmul :: "host_fp \<Rightarrow> u64 \<Rightarrow> u64 \<Rightarrow> u64" where
  "dmul h = fp_mul h F64 To_Nearest"

definition ddiv :: "host_fp \<Rightarrow> u64 \<Rightarrow> u64 \<Rightarrow> u64" where
  "ddiv h = fp_div h F64 To_Nearest"

definition dneg :: "u64 \<Rightarrow> u64" where
  "dneg = fp_negate F64"

text \<open>A product of several factors, from the left.\<close>

definition dprod :: "host_fp \<Rightarrow> u64 \<Rightarrow> u64 list \<Rightarrow> u64" where
  "dprod h x ys = foldl (dmul h) x ys"

abbreviation (input) half_pi :: u64 where "half_pi \<equiv> 0x3FF921FB54442D18"

definition range_reduce :: "host_fp \<Rightarrow> u64 \<Rightarrow> u64 \<times> int" where
  "range_reduce h x =
     (let q_d = ddiv h x half_pi;
          q_ll = (if fp_lt F64 0 q_d \<or> fp_eq F64 q_d 0 then fp_to_int h 64 F64 (dadd h q_d 0x3FE0000000000000)
                  else fp_to_int h 64 F64 (dsub h q_d 0x3FE0000000000000));
          quadrant = q_ll mod 4
      in (dsub h x (dmul h (int_to_fp F64 q_ll) half_pi), if quadrant < 0 then quadrant + 4 else quadrant))"

definition sin_taylor :: "host_fp \<Rightarrow> u64 \<Rightarrow> u64" where
  "sin_taylor h x =
     (let x2 = dmul h x x;
          t1 = x;
          t3 = ddiv h (dprod h (dneg x) [x2]) 0x4018000000000000;
          t5 = ddiv h (dprod h x [x2, x2]) 0x405E000000000000;
          t7 = ddiv h (dprod h (dneg x) [x2, x2, x2]) 0x40B3B00000000000;
          t9 = ddiv h (dprod h x [x2, x2, x2, x2]) 0x4116260000000000;
          t11 = ddiv h (dprod h (dneg x) [x2, x2, x2, x2, x2]) 0x418308A800000000
      in dadd h (dadd h (dadd h (dadd h (dadd h t11 t9) t7) t5) t3) t1)"

definition cos_taylor :: "host_fp \<Rightarrow> u64 \<Rightarrow> u64" where
  "cos_taylor h x =
     (let x2 = dmul h x x;
          t0 = 0x3FF0000000000000;
          t2 = ddiv h (dneg x2) 0x4000000000000000;
          t4 = ddiv h (dprod h x2 [x2]) 0x4038000000000000;
          t6 = ddiv h (dprod h (dneg x2) [x2, x2]) 0x4086800000000000;
          t8 = ddiv h (dprod h x2 [x2, x2, x2]) 0x40E3B00000000000;
          t10 = ddiv h (dprod h (dneg x2) [x2, x2, x2, x2]) 0x414BAF8000000000
      in dadd h (dadd h (dadd h (dadd h (dadd h t10 t8) t6) t4) t2) t0)"

definition f80_sin :: "host_fp \<Rightarrow> float80 \<Rightarrow> float80" where
  "f80_sin h a =
     (if is_nan a then f80_qnan
      else if is_inf a then f80_qnan
      else (case range_reduce h (to_double a) of (r, q) \<Rightarrow>
        from_double
          (if q = 0 then sin_taylor h r
           else if q = 1 then cos_taylor h r
           else if q = 2 then dneg (sin_taylor h r)
           else if q = 3 then dneg (cos_taylor h r)
           else 0)))"

definition f80_cos :: "host_fp \<Rightarrow> float80 \<Rightarrow> float80" where
  "f80_cos h a =
     (if is_nan a then f80_qnan
      else if is_inf a then f80_qnan
      else (case range_reduce h (to_double a) of (r, q) \<Rightarrow>
        from_double
          (if q = 0 then cos_taylor h r
           else if q = 1 then dneg (sin_taylor h r)
           else if q = 2 then dneg (cos_taylor h r)
           else if q = 3 then sin_taylor h r
           else 0x3FF0000000000000)))"

definition f80_2xm1 :: "host_fp \<Rightarrow> float80 \<Rightarrow> float80" where
  "f80_2xm1 h a = (if is_nan a then f80_qnan else from_double (dsub h (hf_exp2 h (to_double a)) 0x3FF0000000000000))"

text \<open>The polynomial for the logarithm of the significand, \<open>u * (a1 + u * (a2 + \<dots>))\<close>.\<close>

definition log2_poly :: "host_fp \<Rightarrow> u64 \<Rightarrow> u64" where
  "log2_poly h u =
     dmul h u (foldr (\<lambda>a r. dadd h a (dmul h u r))
       [0x3FF71547652B82FE, 0xBFE71547652B82FE, 0x3FDEC709DC3A03FD, 0xBFD71547652B82FE, 0x3FD2776C50EF9BFE, 0xBFCEC709DC3A03FD]
       0x3FCA61762A7A7A53)"

definition f80_yl2x :: "host_fp \<Rightarrow> float80 \<Rightarrow> float80 \<Rightarrow> float80" where
  "f80_yl2x h y x =
     (if is_nan y \<or> is_nan x then f80_qnan
      else if is_zero x then f80_inf True
      else if is_sign_negative x then f80_qnan
      else
        (let xv = to_double x; yv = to_double y
         in if fp_lt F64 xv 0 \<or> fp_eq F64 xv 0 then f80_qnan
            else
              (let exp_bias = uint (drop_bit 52 xv AND 0x7FF) - 1023;
                   m = (xv AND 0xFFFFFFFFFFFFF) OR push_bit 52 1023;
                   u = dsub h m 0x3FF0000000000000;
                   l2 = dadd h (int_to_fp F64 exp_bias) (log2_poly h u)
               in from_double (dmul h yv l2))))"

definition f80_scale :: "host_fp \<Rightarrow> float80 \<Rightarrow> float80 \<Rightarrow> float80" where
  "f80_scale h a s =
     (if is_nan a \<or> is_nan s then f80_qnan
      else if is_zero a \<or> is_inf a then a
      else
        (let k = sint (word_of_int (fp_to_int h 64 F64 (to_double s)) :: u32);
             new_exp = uint (raw_exp a) + k
         in if 0x7FFF \<le> new_exp then f80_inf (is_sign_negative a)
            else if new_exp \<le> 0 then f80_zero (is_sign_negative a)
            else a\<lparr>fx_signexp := (fx_signexp a AND 0x8000) OR (word_of_int new_exp AND 0x7FFF)\<rparr>))"

end
