(* ===== verification/Host_Facts.thy ===== *)
theory Host_Facts
  imports Host_Float
begin

text \<open>
  Facts on the host's floating point: packing and unpacking of patterns, values without rounding error, comparison as comparison
  of real values, and conversions of integers that come back unchanged.
\<close>

section \<open>Packing\<close>

definition fmt_ok :: "fmt \<Rightarrow> bool" where
  "fmt_ok f \<longleftrightarrow> 2 \<le> fm_exp f \<and> fm_exp f + fm_man f < 64"

lemma fmt_ok_F [simp]: "fmt_ok F32" "fmt_ok F64"
  by (simp_all add: fmt_ok_def F32_def F64_def)

lemma fp_huge_less: "fp_huge f < 2 ^ (fm_exp f + fm_man f)"
  by (simp add: fp_huge_def power_add)

lemma unat_fp_pack:
  assumes "fmt_ok f" "mag < 2 ^ (fm_exp f + fm_man f)"
  shows "unat (fp_pack f s mag) = mag + (if s then 2 ^ (fm_exp f + fm_man f) else 0)"
proof -
  let ?w = "fm_exp f + fm_man f"
  have "(2 :: nat) ^ Suc ?w \<le> 2 ^ 64" using assms(1) by (intro power_increasing) (simp_all add: fmt_ok_def)
  then have "mag + (if s then 2 ^ ?w else 0) < 2 ^ 64" using assms(2) by auto
  moreover have "n < 2 ^ 64 \<Longrightarrow> unat (of_nat n :: u64) = n" for n by (simp add: unat_of_nat)
  ultimately show ?thesis unfolding fp_pack_def by blast
qed

lemma fp_pack_parts [simp]:
  assumes "fmt_ok f" "mag < 2 ^ (fm_exp f + fm_man f)"
  shows "fp_neg f (fp_pack f s mag) \<longleftrightarrow> s" "fp_mag f (fp_pack f s mag) = mag"
  unfolding fp_neg_def fp_mag_def unat_fp_pack [OF assms] using assms(2) by simp_all

lemma decode_pack:
  assumes "fmt_ok f" "mag < fp_huge f"
  shows "fp_decode f (fp_pack f s mag) =
    (if mag div 2 ^ fm_man f = 0 then HFin s (mag mod 2 ^ fm_man f) (fp_emin f)
     else HFin s (2 ^ fm_man f + mag mod 2 ^ fm_man f) (fp_emin f + int (mag div 2 ^ fm_man f) - 1))"
proof -
  have "mag < 2 ^ (fm_exp f + fm_man f)" using assms(2) fp_huge_less [of f] by linarith
  note p = fp_pack_parts [OF assms(1) this]
  show ?thesis using assms(2) by (simp add: fp_decode_def Let_def p)
qed

text \<open>The pattern of the normal number \<open>q * 2 powi k\<close>.\<close>

definition normal_mag :: "fmt \<Rightarrow> nat \<Rightarrow> int \<Rightarrow> nat" where
  "normal_mag f q k = nat (k - fp_emin f) * 2 ^ fm_man f + q"

definition normal_range :: "fmt \<Rightarrow> nat \<Rightarrow> int \<Rightarrow> bool" where
  "normal_range f q k \<longleftrightarrow> 2 ^ fm_man f \<le> q \<and> q < 2 ^ (fm_man f + 1) \<and> fp_emin f \<le> k \<and> k < fp_emin f + 2 ^ fm_exp f - 2"

lemma normal_mag_parts:
  assumes "normal_range f q k"
  shows "normal_mag f q k div 2 ^ fm_man f = nat (k - fp_emin f) + 1" "normal_mag f q k mod 2 ^ fm_man f = q - 2 ^ fm_man f"
    "normal_mag f q k < fp_huge f"
proof -
  let ?m = "2 ^ fm_man f :: nat" and ?j = "nat (k - fp_emin f)"
  have q: "q = ?m + (q - ?m)" "q - ?m < ?m" using assms by (auto simp: normal_range_def)
  have e: "normal_mag f q k = (?j + 1) * ?m + (q - ?m)" unfolding normal_mag_def using q(1) by simp
  have parts: "r < m \<Longrightarrow> (a * m + r) div m = a \<and> (a * m + r) mod m = r" for a m r :: nat by simp
  show "normal_mag f q k div ?m = ?j + 1" "normal_mag f q k mod ?m = q - ?m" unfolding e using parts [OF q(2), of "?j + 1"] by blast+
  have "int ?j + 1 < 2 ^ fm_exp f - 1" using assms by (auto simp: normal_range_def)
  then have "int (?j + 2) \<le> int (2 ^ fm_exp f - 1)" by (simp add: of_nat_diff)
  then have "?j + 2 \<le> 2 ^ fm_exp f - 1" by (simp only: of_nat_le_iff)
  then have "(?j + 2) * ?m \<le> fp_huge f" unfolding fp_huge_def by (rule mult_le_mono1)
  then show "normal_mag f q k < fp_huge f" unfolding e using q(2) by simp
qed

lemma decode_normal:
  assumes "fmt_ok f" "normal_range f q k"
  shows "fp_decode f (fp_pack f s (normal_mag f q k)) = HFin s q k"
proof -
  note p = normal_mag_parts [OF assms(2)]
  show ?thesis unfolding decode_pack [OF assms(1) p(3)] p(1,2) using assms(2) by (simp add: normal_range_def)
qed

section \<open>Exact results\<close>

lemma bit_length_bounds: "0 < n \<Longrightarrow> 2 ^ (bit_length n - 1) \<le> n \<and> n < 2 ^ bit_length n \<and> 0 < bit_length n"
proof (induction n rule: less_induct)
  case (less n)
  have b: "bit_length n = Suc (bit_length (n div 2))" using less.prems by (simp add: bit_length.simps [of n])
  show ?case
  proof (cases "n div 2 = 0")
    case True
    then have "n = 1" using less.prems by simp
    then show ?thesis by (simp add: bit_length.simps)
  next
    case False
    then have IH: "2 ^ (bit_length (n div 2) - 1) \<le> n div 2 \<and> n div 2 < 2 ^ bit_length (n div 2) \<and> 0 < bit_length (n div 2)"
      using less.IH [of "n div 2"] less.prems by simp
    then obtain j where j: "bit_length (n div 2) = Suc j" by (cases "bit_length (n div 2)") auto
    then have "2 ^ j \<le> n div 2" "n div 2 < 2 ^ Suc j" using IH by simp_all
    then show ?thesis unfolding b j by simp linarith
  qed
qed

text \<open>The scaled fraction is the value in units of \<open>2 powi k\<close>.\<close>

lemma unit_fraction: "0 < D \<Longrightarrow> real (unit_num N e k) / real (unit_den D e k) = real N / real D * 2 powi (e - k)"
proof (cases "k \<le> e")
  case True
  then show "real (unit_num N e k) / real (unit_den D e k) = real N / real D * 2 powi (e - k)"
    by (simp add: unit_num_def unit_den_def power_int_def)
next
  case False
  assume "0 < D"
  have "e - k = - int (nat (k - e))" using False by simp
  then have "2 powi (e - k) = inverse (2 ^ nat (k - e) :: real)" by (metis power_int_minus power_int_of_nat)
  then show ?thesis using False by (simp add: unit_num_def unit_den_def divide_inverse)
qed

lemma unit_den_pos: "0 < D \<Longrightarrow> 0 < unit_den D e k"
  by (simp add: unit_den_def)

lemma unit_le_iff: "0 < D \<Longrightarrow> unit_den D e k \<le> unit_num N e k \<longleftrightarrow> 2 powi k \<le> real N / real D * 2 powi e"
proof -
  assume D: "0 < D"
  have d: "0 < real (unit_den D e k)" using unit_den_pos [OF D] by simp
  have "unit_den D e k \<le> unit_num N e k \<longleftrightarrow> 1 \<le> real (unit_num N e k) / real (unit_den D e k)"
    using d by (simp add: le_divide_eq)
  also have "\<dots> \<longleftrightarrow> 1 \<le> real N / real D * 2 powi e / 2 powi k" unfolding unit_fraction [OF D] by (simp add: power_int_diff)
  also have "\<dots> \<longleftrightarrow> 2 powi k \<le> real N / real D * 2 powi e" by (rule le_divide_eq_1_pos) simp
  finally show ?thesis .
qed

lemma powi_less_imp: "2 powi a < (2 powi b :: real) \<Longrightarrow> a < b"
  by (metis linorder_not_less not_less power_int_increasing one_le_numeral)

text \<open>A value of as many significant bits as the format has is not changed by rounding, if it is not too large.\<close>

lemma fp_round_mag:
  assumes f: "2 ^ fm_man f \<le> q" "q < 2 ^ (fm_man f + 1)" "fp_emin f \<le> k"
    and N: "0 < N" "0 < D" and x: "real N / real D * 2 powi e = real q * 2 powi k"
  shows "fp_round f mode s N D e =
    (if normal_mag f q k < fp_huge f then fp_pack f s (normal_mag f q k)
     else if mode = To_Nearest \<or> mode = Upward \<and> \<not> s \<or> mode = Downward \<and> s then fp_pack f s (fp_huge f)
     else fp_pack f s (fp_huge f - 1))"
proof -
  let ?x = "real N / real D * 2 powi e" and ?L = "k + int (fm_man f)"
  define t where "t = int (bit_length N) - int (bit_length D) + e"
  define top where "top = (if unit_den D e t \<le> unit_num N e t then t else t - 1)"
  have q: "2 ^ fm_man f \<le> real q" "real q < 2 ^ (fm_man f + 1)"
    using f by (metis of_nat_le_iff of_nat_power of_nat_numeral, metis of_nat_less_iff of_nat_power of_nat_numeral)
  have L: "2 powi ?L \<le> ?x" "?x < 2 powi (?L + 1)"
    unfolding x using q by (simp_all add: power_int_add)
  note bN = bit_length_bounds [OF N(1)] and bD = bit_length_bounds [OF N(2)]
  have rN: "2 ^ (bit_length N - 1) \<le> real N" "real N < 2 ^ bit_length N"
    using bN by (metis of_nat_le_iff of_nat_power of_nat_numeral, metis of_nat_less_iff of_nat_power of_nat_numeral)
  have rD: "2 ^ (bit_length D - 1) \<le> real D" "real D < 2 ^ bit_length D"
    using bD by (metis of_nat_le_iff of_nat_power of_nat_numeral, metis of_nat_less_iff of_nat_power of_nat_numeral)
  have up: "?x < 2 powi (t + 1)"
  proof -
    have "real N / real D < 2 ^ bit_length N / 2 ^ (bit_length D - 1)" using rN rD N by (intro frac_less) simp_all
    also have "\<dots> = 2 powi (int (bit_length N) - int (bit_length D - 1))" by (simp add: power_int_diff)
    also have "\<dots> = 2 powi (t + 1 - e)" using bD by (intro arg_cong [of _ _ "\<lambda>i. 2 powi i"]) (simp add: t_def of_nat_diff)
    finally have "real N / real D * 2 powi e < 2 powi (t + 1 - e) * 2 powi e" by (rule mult_strict_right_mono) simp
    then show ?thesis by (simp add: power_int_diff)
  qed
  have lo: "2 powi (t - 1) < ?x"
  proof -
    have "2 powi (t - 1 - e) = 2 powi (int (bit_length N - 1) - int (bit_length D))"
      using bN by (intro arg_cong [of _ _ "\<lambda>i. 2 powi i"]) (simp add: t_def of_nat_diff)
    also have "\<dots> = 2 ^ (bit_length N - 1) / (2 ^ bit_length D :: real)" by (simp add: power_int_diff)
    also have "\<dots> < real N / real D" using rN rD N by (intro frac_less2) simp_all
    finally have "2 powi (t - 1 - e) * 2 powi e < real N / real D * 2 powi e" by (rule mult_strict_right_mono) simp
    then show ?thesis by (simp add: power_int_diff)
  qed
  have "top = ?L"
  proof (cases "unit_den D e t \<le> unit_num N e t")
    case True
    then have "2 powi t \<le> ?x" using unit_le_iff [OF N(2)] by blast
    then have "2 powi t < (2 powi (?L + 1) :: real)" "2 powi ?L < (2 powi (t + 1) :: real)" using L up by linarith+
    then have "t < ?L + 1" "?L < t + 1" by (blast dest: powi_less_imp)+
    then show ?thesis using True by (simp add: top_def)
  next
    case False
    then have "?x < 2 powi t" using unit_le_iff [OF N(2)] by (metis linorder_not_less)
    then have "2 powi ?L < (2 powi t :: real)" "2 powi (t - 1) < (2 powi (?L + 1) :: real)" using L lo by linarith+
    then have "?L < t" "t - 1 < ?L + 1" by (blast dest: powi_less_imp)+
    then show ?thesis using False by (simp add: top_def)
  qed
  then have k: "max (fp_emin f) (top - int (fm_man f)) = k" using f by simp
  let ?n = "unit_num N e k" and ?d = "unit_den D e k"
  have d: "0 < ?d" using unit_den_pos [OF N(2)] .
  have "real ?n / real ?d = real q" unfolding unit_fraction [OF N(2)] using x by (simp add: power_int_diff field_simps)
  then have "real ?n = real (q * ?d)" using d by (simp add: field_simps)
  then have n: "?n = q * ?d" by (simp only: of_nat_eq_iff)
  have qr: "?n div ?d = q" "?n mod ?d = 0" using d unfolding n by simp_all
  have nu: "\<not> round_up mode s q 0 ?d" using d by (cases mode) (simp_all add: round_up_def)
  show ?thesis
    unfolding fp_round_def Let_def t_def [symmetric] top_def [symmetric] k qr if_not_P [OF nu] normal_mag_def [symmetric] ..
qed

lemma fp_round_exact:
  assumes f: "normal_range f q k" and "0 < N" "0 < D" and "real N / real D * 2 powi e = real q * 2 powi k"
  shows "fp_round f mode s N D e = fp_pack f s (normal_mag f q k)"
proof -
  have "2 ^ fm_man f \<le> q" "q < 2 ^ (fm_man f + 1)" "fp_emin f \<le> k" using f by (simp_all add: normal_range_def)
  from fp_round_mag [OF this assms(2-4)] show ?thesis using normal_mag_parts(3) [OF f] by simp
qed

section \<open>Order\<close>

text \<open>The value of a magnitude; it grows with the magnitude.\<close>

definition mag_value :: "fmt \<Rightarrow> nat \<Rightarrow> real" where
  "mag_value f mag =
     (let E = mag div 2 ^ fm_man f; M = mag mod 2 ^ fm_man f
      in if E = 0 then real M * 2 powi fp_emin f else real (2 ^ fm_man f + M) * 2 powi (fp_emin f + int E - 1))"

lemma mag_value_Suc: "mag_value f mag < mag_value f (Suc mag)"
proof -
  let ?m = "2 ^ fm_man f :: nat"
  define E M where "E = mag div ?m" and "M = mag mod ?m"
  have mag: "mag = E * ?m + M" "M < ?m" unfolding E_def M_def by (simp_all only: div_mult_mod_eq) simp
  have parts: "r < ?m \<Longrightarrow> (a * ?m + r) div ?m = a \<and> (a * ?m + r) mod ?m = r" for a r by simp
  have v: "mag_value f (a * ?m + r) =
      (if a = 0 then real r * 2 powi fp_emin f else real (?m + r) * 2 powi (fp_emin f + int a - 1))" if "r < ?m" for a r
    unfolding mag_value_def Let_def using parts [OF that, of a] by (simp only:)
  have p: "(0 :: real) < 2 powi j" for j by simp
  show ?thesis
  proof (cases "Suc M < ?m")
    case True
    have "Suc mag = E * ?m + Suc M" using mag(1) by simp
    then show ?thesis using v [OF mag(2), of E] v [OF True, of E] p mag(1) by (simp add: distrib_right)
  next
    case False
    then have M: "Suc M = ?m" using mag(2) by simp
    then have S: "Suc mag = Suc E * ?m + 0" using mag(1) by simp
    have "mag_value f (Suc E * ?m + 0) = real ?m * 2 powi (fp_emin f + int E)" using v [of 0 "Suc E"] by simp
    moreover have "mag_value f mag < real ?m * 2 powi (fp_emin f + int E)"
    proof (cases "E = 0")
      case True
      have "real M < real ?m" using mag(2) by (simp only: of_nat_less_iff)
      then show ?thesis using v [OF mag(2), of E] mag(1) True p by simp
    next
      case False
      have "real (?m + M) < 2 * real ?m" using mag(2) by (metis add_strict_left_mono mult_2 of_nat_add of_nat_less_iff)
      then have "real (?m + M) * 2 powi (fp_emin f + int E - 1) < 2 * real ?m * 2 powi (fp_emin f + int E - 1)"
        using p by (rule mult_strict_right_mono)
      also have "\<dots> = real ?m * 2 powi (fp_emin f + int E)" by (simp add: power_int_diff)
      finally show ?thesis using v [OF mag(2), of E] mag(1) False by simp
    qed
    ultimately show ?thesis unfolding S by simp
  qed
qed

lemma mag_value_mono: "strict_mono (mag_value f)"
  by (rule strict_mono_Suc_iff [THEN iffD2]) (simp add: mag_value_Suc)

lemma mag_value_0: "mag_value f 0 = 0"
  by (simp add: mag_value_def)

lemma mag_value_pos: "0 \<le> mag_value f mag" "mag_value f mag = 0 \<longleftrightarrow> mag = 0"
proof -
  show "0 \<le> mag_value f mag" using strict_mono_leD [OF mag_value_mono, of 0 mag f] mag_value_0 [of f] by simp
  show "mag_value f mag = 0 \<longleftrightarrow> mag = 0" using strict_mono_eq [OF mag_value_mono, of f mag 0] mag_value_0 [of f] by simp
qed

lemma finite_value:
  "fp_finite f a \<Longrightarrow> fp_value f a = (if fp_neg f a then - mag_value f (fp_mag f a) else mag_value f (fp_mag f a))"
  by (simp add: fp_finite_def fp_value_def fp_decode_def mag_value_def Let_def)

text \<open>The comparisons of the patterns are the comparisons of the values.\<close>

lemma fp_compare:
  assumes "fp_finite f a" "fp_finite f b"
  shows "fp_lt f a b \<longleftrightarrow> fp_value f a < fp_value f b" "fp_eq f a b \<longleftrightarrow> fp_value f a = fp_value f b"
proof -
  let ?v = "mag_value f" and ?a = "fp_mag f a" and ?b = "fp_mag f b"
  have n: "\<not> fp_isnan f a" "\<not> fp_isnan f b" using assms by (simp_all add: fp_finite_def fp_isnan_def)
  have m: "?v x < ?v y \<longleftrightarrow> x < y" "?v x = ?v y \<longleftrightarrow> x = y" for x y
    by (simp_all add: strict_mono_less [OF mag_value_mono] strict_mono_eq [OF mag_value_mono])
  note pos = mag_value_pos(1) [of f ?a] mag_value_pos(1) [of f ?b] mag_value_pos(2) [of f ?a] mag_value_pos(2) [of f ?b]
  have s: "- ?v ?a < ?v ?b \<longleftrightarrow> \<not> (?a = 0 \<and> ?b = 0)" "\<not> ?v ?a < - ?v ?b" "- ?v ?a = ?v ?b \<longleftrightarrow> ?a = 0 \<and> ?b = 0" "?v ?a = - ?v ?b \<longleftrightarrow> ?a = 0 \<and> ?b = 0"
    using pos by linarith+
  show "fp_lt f a b \<longleftrightarrow> fp_value f a < fp_value f b"
    unfolding fp_lt_def finite_value [OF assms(1)] finite_value [OF assms(2)] signed_mag_def using n s
    by (cases "fp_neg f a"; cases "fp_neg f b") (auto simp: m)
  show "fp_eq f a b \<longleftrightarrow> fp_value f a = fp_value f b"
    unfolding fp_eq_def finite_value [OF assms(1)] finite_value [OF assms(2)] signed_mag_def using n s
    by (cases "fp_neg f a"; cases "fp_neg f b") (auto simp: m)
qed

section \<open>Integers\<close>

text \<open>Up to \<open>2 ^ 53\<close> an integer is a number of the format with 53 significant bits.\<close>

lemma F64_simps [simp]: "fm_man F64 = 52" "fm_exp F64 = 11" "fp_emin F64 = - 1074"
  by (simp_all add: F64_def fp_emin_def)

lemma small_int_normal:
  assumes "0 < n" "n \<le> 2 ^ 53"
  obtains q k where "normal_range F64 q k" "real q * 2 powi k = real n"
proof (cases "n = 2 ^ 53")
  case True
  have "normal_range F64 (2 ^ 52) 1" by (simp add: normal_range_def)
  moreover have "real (2 ^ 52) * 2 powi 1 = real n" using True by simp
  ultimately show ?thesis by (rule that)
next
  case False
  define L where "L = bit_length n - 1"
  note b = bit_length_bounds [OF assms(1)]
  have L: "2 ^ L \<le> n" "n < 2 ^ Suc L" using b by (simp_all add: L_def)
  have "2 ^ L < (2 :: nat) ^ 53" using L(1) assms(2) False by linarith
  then have L53: "L < 53" by (rule power_less_imp_less_exp [rotated]) simp
  define j where "j = 52 - L"
  have "2 ^ L * 2 ^ j = (2 :: nat) ^ 52" "2 ^ Suc L * 2 ^ j = (2 :: nat) ^ 53" using L53 by (simp_all add: j_def flip: power_add power_Suc)
  moreover have "2 ^ L * 2 ^ j \<le> n * 2 ^ j" using L(1) by (rule mult_le_mono1)
  moreover have "n * 2 ^ j < 2 ^ Suc L * 2 ^ j" using L(2) by (rule mult_less_mono1) simp
  ultimately have "2 ^ 52 \<le> n * 2 ^ j" "n * 2 ^ j < 2 ^ 53" by (simp_all only:)
  then have "normal_range F64 (n * 2 ^ j) (- int j)" by (simp add: normal_range_def j_def)
  moreover have "real (n * 2 ^ j) * 2 powi (- int j) = real n" by (simp add: power_int_minus)
  ultimately show ?thesis by (rule that)
qed

lemma decode_int:
  assumes "z \<noteq> 0" "\<bar>z\<bar> \<le> 2 ^ 53"
  obtains q k where "fp_decode F64 (int_to_fp F64 z) = HFin (z < 0) q k" "real q * 2 powi k = real_of_int \<bar>z\<bar>" "normal_range F64 q k"
proof -
  let ?n = "nat \<bar>z\<bar>"
  have n: "0 < ?n" "?n \<le> 2 ^ 53" "real ?n = real_of_int \<bar>z\<bar>" using assms by (auto simp: nat_le_iff)
  obtain q k where q: "normal_range F64 q k" "real q * 2 powi k = real ?n" by (rule small_int_normal [OF n(1,2)])
  have "int_to_fp F64 z = fp_pack F64 (z < 0) (normal_mag F64 q k)"
    unfolding int_to_fp_def fp_of_int_def using assms(1) fp_round_exact [OF q(1) n(1), of 1 0 To_Nearest "z < 0"] q(2) by simp
  then have "fp_decode F64 (int_to_fp F64 z) = HFin (z < 0) q k" using decode_normal [OF fmt_ok_F(2) q(1)] by simp
  then show ?thesis using that q n(3) by metis
qed

lemma int_round_trip:
  assumes "\<bar>z\<bar> \<le> 2 ^ 53" "54 < w"
  shows "fp_to_int h w F64 (int_to_fp F64 z) = z"
proof (cases "z = 0")
  case True
  have "(2 :: int) ^ 0 \<le> 2 ^ (w - 1)" by (rule power_increasing) simp_all
  then show ?thesis using True
    by (simp add: int_to_fp_def fp_to_int_def fp_decode_def fp_neg_def fp_mag_def fp_huge_def Let_def signed_mag_def unit_num_def)
next
  case False
  then obtain q k where d: "fp_decode F64 (int_to_fp F64 z) = HFin (z < 0) q k" "real q * 2 powi k = real_of_int \<bar>z\<bar>"
    by (rule decode_int [OF _ assms(1)])
  let ?n = "unit_num q k 0" and ?d = "unit_den 1 k 0"
  have dp: "0 < ?d" by (rule unit_den_pos) simp
  have "real ?n / real ?d = real (nat \<bar>z\<bar>)" unfolding unit_fraction [OF zero_less_one] using d(2) by simp
  then have "real ?n = real (nat \<bar>z\<bar> * ?d)" using dp by (simp add: field_simps)
  then have "?n = nat \<bar>z\<bar> * ?d" by (simp only: of_nat_eq_iff)
  then have q: "?n div ?d = nat \<bar>z\<bar>" using dp by simp
  have "(2 :: int) ^ 54 \<le> 2 ^ (w - 1)" using assms(2) by (intro power_increasing) simp_all
  then have "- (2 ^ (w - 1)) \<le> z \<and> z < 2 ^ (w - 1)" using assms(1) by (simp add: abs_le_iff)
  then show ?thesis by (simp only: fp_to_int_def d(1) host_val.case Let_def q) (simp add: signed_mag_def)
qed


section \<open>Infinities and NaNs\<close>

lemma host_cases:
  obtains (nan) "fp_isnan f a" "fp_decode f a = HNaN"
  | (inf) "\<not> fp_isnan f a" "fp_mag f a = fp_huge f" "fp_decode f a = HInf (fp_neg f a)"
  | (fin) "\<not> fp_isnan f a" "fp_finite f a" "\<exists>m e. fp_decode f a = HFin (fp_neg f a) m e"
proof -
  consider "fp_mag f a > fp_huge f" | "fp_mag f a = fp_huge f" | "fp_mag f a < fp_huge f" by linarith
  then show ?thesis
    by cases (auto simp: fp_isnan_def fp_finite_def fp_decode_def Let_def intro: nan inf fin)
qed

text \<open>The order of IEEE comparisons: infinities at the ends, NaNs beside it.\<close>

definition fp_less :: "fmt \<Rightarrow> u64 \<Rightarrow> u64 \<Rightarrow> bool" where
  "fp_less f a b =
     (case (fp_decode f a, fp_decode f b) of
        (HNaN, _) \<Rightarrow> False
      | (_, HNaN) \<Rightarrow> False
      | (HInf s, HInf s') \<Rightarrow> s \<and> \<not> s'
      | (HInf s, _) \<Rightarrow> s
      | (_, HInf s') \<Rightarrow> \<not> s'
      | _ \<Rightarrow> fp_value f a < fp_value f b)"

definition fp_same :: "fmt \<Rightarrow> u64 \<Rightarrow> u64 \<Rightarrow> bool" where
  "fp_same f a b =
     (case (fp_decode f a, fp_decode f b) of
        (HInf s, HInf s') \<Rightarrow> s = s'
      | (HFin _ _ _, HFin _ _ _) \<Rightarrow> fp_value f a = fp_value f b
      | _ \<Rightarrow> False)"

lemma fp_huge_pos: "fmt_ok f \<Longrightarrow> 0 < fp_huge f"
proof -
  assume "fmt_ok f"
  then have "(2 :: nat) ^ 1 \<le> 2 ^ fm_exp f" by (intro power_increasing) (simp_all add: fmt_ok_def)
  then show ?thesis by (simp add: fp_huge_def)
qed

lemma fp_order:
  assumes "fmt_ok f" shows "fp_lt f a b = fp_less f a b" "fp_eq f a b = fp_same f a b"
proof -
  note pos = fp_huge_pos [OF assms]
  have "fp_lt f a b = fp_less f a b \<and> fp_eq f a b = fp_same f a b"
  proof (cases rule: host_cases [of f a])
    case nan
    then show ?thesis by (simp add: fp_lt_def fp_eq_def fp_less_def fp_same_def)
  next
    case inf
    then show ?thesis
      by (cases rule: host_cases [of f b])
        (use pos in \<open>auto simp: fp_lt_def fp_eq_def fp_less_def fp_same_def signed_mag_def fp_finite_def\<close>)
  next
    case fin
    show ?thesis
    proof (cases rule: host_cases [of f b])
      case nan
      then show ?thesis using fin(3) by (auto simp: fp_lt_def fp_eq_def fp_less_def fp_same_def)
    next
      case inf
      then show ?thesis using pos fin by (auto simp: fp_lt_def fp_eq_def fp_less_def fp_same_def signed_mag_def fp_finite_def)
    next
      case fin_b: fin
      then show ?thesis using fin fp_compare [OF fin(2) fin_b(2)] by (auto simp: fp_less_def fp_same_def)
    qed
  qed
  then show "fp_lt f a b = fp_less f a b" "fp_eq f a b = fp_same f a b" by blast+
qed

end
