(* ===== verification/Sse_Float.thy ===== *)
theory Sse_Float
  imports Host_Facts Vector_Extended
begin

text \<open>
  The floating-point handlers of \<^verbatim>\<open>sse_fp.cpp\<close>, the approximate reciprocals of \<^verbatim>\<open>misc.cpp\<close>, the ROUND instructions of
  \<^verbatim>\<open>sse4_aes.cpp\<close> and the EVEX arithmetic of \<^verbatim>\<open>avx512.cpp\<close>.  A handler takes the host's floating point as its first
  argument where it computes with it.
\<close>

section \<open>Operands\<close>

definition fp_rules :: vec_rules where
  "fp_rules = \<lparr>vr_read_note = ''fp read'', vr_write_note = ''fp write'', vr_bad_src = Some ''bad fp src'', vr_bad_dst = Some ''bad fp dst''\<rparr>"

definition read_x16 :: "'m env \<Rightarrow> insn \<Rightarrow> operand \<Rightarrow> 'm cpu \<Rightarrow> u8 list option \<times> 'm cpu" where
  "read_x16 env i op c = read_vec_by fp_rules env i op 16 c"

definition write_x16 :: "'m env \<Rightarrow> insn \<Rightarrow> operand \<Rightarrow> u8 list \<Rightarrow> 'm cpu \<Rightarrow> 'm cpu" where
  "write_x16 env i op v c = write_vec_by fp_rules env i op v c"

definition read_scalar :: "'m env \<Rightarrow> insn \<Rightarrow> operand \<Rightarrow> nat \<Rightarrow> 'm cpu \<Rightarrow> u8 list option \<times> 'm cpu" where
  "read_scalar env i op n c =
     (if o_kind op = OK_Xmm then (Some (zmm_bytes c (o_reg op) n), c)
      else if is_mem op then vec_load ''fp scalar read'' env (ea c i op) n c
      else if o_kind op = OK_Reg then (Some (le_bytes n (reg c (o_reg op))), c)
      else (None, set_fault FK_InvalidOpcode (c_rip c) St_InvalidInstruction ''bad scalar src'' c))"

text \<open>The low element of the destination is replaced, the bytes above it stay.\<close>

definition scalar_op :: "'m env \<Rightarrow> insn \<Rightarrow> nat \<Rightarrow> (u64 \<Rightarrow> u64 \<Rightarrow> u64) \<Rightarrow> 'm cpu \<Rightarrow> 'm cpu" where
  "scalar_op env i w f c =
     read_then (read_x16 env i (i_dst i) c) (\<lambda>d c.
     read_then (read_scalar env i (i_src i) w c) (\<lambda>s c.
       write_x16 env i (i_dst i) (le_bytes w (f (le_value (take w d)) (le_value s)) @ drop w d) c))"

definition packed_op :: "'m env \<Rightarrow> insn \<Rightarrow> nat \<Rightarrow> (u64 \<Rightarrow> u64 \<Rightarrow> u64) \<Rightarrow> 'm cpu \<Rightarrow> 'm cpu" where
  "packed_op env i w f c = vec_binary fp_rules env i 16 (per_lane w f) c"

section \<open>Moves\<close>

definition mov_scalar :: "string \<Rightarrow> nat \<Rightarrow> 'm env \<Rightarrow> insn \<Rightarrow> 'm cpu \<Rightarrow> 'm cpu" where
  "mov_scalar note w env i c =
     (if o_kind (i_dst i) = OK_Xmm \<and> o_kind (i_src i) = OK_Xmm
      then set_zmm_bytes (o_reg (i_dst i)) (zmm_bytes c (o_reg (i_src i)) w) c
      else if o_kind (i_dst i) = OK_Xmm
      then read_then (read_scalar env i (i_src i) w c) (\<lambda>s c. write_x16 env i (i_dst i) (padded 16 s) c)
      else read_then (read_x16 env i (i_src i) c) (\<lambda>s c. vec_store note env (ea c i (i_dst i)) (take w s) c))"

definition op_movss :: "'m env \<Rightarrow> insn \<Rightarrow> 'm cpu \<Rightarrow> 'm cpu" where
  "op_movss env i c = mov_scalar ''MOVSS store'' 4 env i c"

definition op_movsd_fp :: "'m env \<Rightarrow> insn \<Rightarrow> 'm cpu \<Rightarrow> 'm cpu" where
  "op_movsd_fp env i c = mov_scalar ''MOVSD store'' 8 env i c"

definition op_movups :: "'m env \<Rightarrow> insn \<Rightarrow> 'm cpu \<Rightarrow> 'm cpu" where
  "op_movups env i c = vec_unary fp_rules env i 16 (\<lambda>v. v) c"

definition op_movupd :: "'m env \<Rightarrow> insn \<Rightarrow> 'm cpu \<Rightarrow> 'm cpu" where
  "op_movupd env i c = op_movups env i c"

section \<open>Scalar and packed arithmetic\<close>

text \<open>\<open>a < b ? a : b\<close> and \<open>a > b ? a : b\<close>.\<close>

definition fp_min :: "fmt \<Rightarrow> u64 \<Rightarrow> u64 \<Rightarrow> u64" where
  "fp_min f a b = (if fp_lt f a b then a else b)"

definition fp_max :: "fmt \<Rightarrow> u64 \<Rightarrow> u64 \<Rightarrow> u64" where
  "fp_max f a b = (if fp_lt f b a then a else b)"

definition op_addss :: "host_fp \<Rightarrow> 'm env \<Rightarrow> insn \<Rightarrow> 'm cpu \<Rightarrow> 'm cpu" where
  "op_addss h env i c = scalar_op env i 4 (fp_add h F32 To_Nearest) c"

definition op_subss :: "host_fp \<Rightarrow> 'm env \<Rightarrow> insn \<Rightarrow> 'm cpu \<Rightarrow> 'm cpu" where
  "op_subss h env i c = scalar_op env i 4 (fp_sub h F32 To_Nearest) c"

definition op_mulss :: "host_fp \<Rightarrow> 'm env \<Rightarrow> insn \<Rightarrow> 'm cpu \<Rightarrow> 'm cpu" where
  "op_mulss h env i c = scalar_op env i 4 (fp_mul h F32 To_Nearest) c"

definition op_divss :: "host_fp \<Rightarrow> 'm env \<Rightarrow> insn \<Rightarrow> 'm cpu \<Rightarrow> 'm cpu" where
  "op_divss h env i c = scalar_op env i 4 (fp_div h F32 To_Nearest) c"

definition op_sqrtss :: "host_fp \<Rightarrow> 'm env \<Rightarrow> insn \<Rightarrow> 'm cpu \<Rightarrow> 'm cpu" where
  "op_sqrtss h env i c = scalar_op env i 4 (\<lambda>_ b. fp_sqrt h F32 To_Nearest b) c"

definition op_minss :: "'m env \<Rightarrow> insn \<Rightarrow> 'm cpu \<Rightarrow> 'm cpu" where
  "op_minss env i c = scalar_op env i 4 (fp_min F32) c"

definition op_maxss :: "'m env \<Rightarrow> insn \<Rightarrow> 'm cpu \<Rightarrow> 'm cpu" where
  "op_maxss env i c = scalar_op env i 4 (fp_max F32) c"

definition op_addsd :: "host_fp \<Rightarrow> 'm env \<Rightarrow> insn \<Rightarrow> 'm cpu \<Rightarrow> 'm cpu" where
  "op_addsd h env i c = scalar_op env i 8 (fp_add h F64 To_Nearest) c"

definition op_subsd :: "host_fp \<Rightarrow> 'm env \<Rightarrow> insn \<Rightarrow> 'm cpu \<Rightarrow> 'm cpu" where
  "op_subsd h env i c = scalar_op env i 8 (fp_sub h F64 To_Nearest) c"

definition op_mulsd :: "host_fp \<Rightarrow> 'm env \<Rightarrow> insn \<Rightarrow> 'm cpu \<Rightarrow> 'm cpu" where
  "op_mulsd h env i c = scalar_op env i 8 (fp_mul h F64 To_Nearest) c"

definition op_divsd :: "host_fp \<Rightarrow> 'm env \<Rightarrow> insn \<Rightarrow> 'm cpu \<Rightarrow> 'm cpu" where
  "op_divsd h env i c = scalar_op env i 8 (fp_div h F64 To_Nearest) c"

definition op_sqrtsd :: "host_fp \<Rightarrow> 'm env \<Rightarrow> insn \<Rightarrow> 'm cpu \<Rightarrow> 'm cpu" where
  "op_sqrtsd h env i c = scalar_op env i 8 (\<lambda>_ b. fp_sqrt h F64 To_Nearest b) c"

definition op_minsd :: "'m env \<Rightarrow> insn \<Rightarrow> 'm cpu \<Rightarrow> 'm cpu" where
  "op_minsd env i c = scalar_op env i 8 (fp_min F64) c"

definition op_maxsd :: "'m env \<Rightarrow> insn \<Rightarrow> 'm cpu \<Rightarrow> 'm cpu" where
  "op_maxsd env i c = scalar_op env i 8 (fp_max F64) c"

definition op_addps :: "host_fp \<Rightarrow> 'm env \<Rightarrow> insn \<Rightarrow> 'm cpu \<Rightarrow> 'm cpu" where
  "op_addps h env i c = packed_op env i 4 (fp_add h F32 To_Nearest) c"

definition op_subps :: "host_fp \<Rightarrow> 'm env \<Rightarrow> insn \<Rightarrow> 'm cpu \<Rightarrow> 'm cpu" where
  "op_subps h env i c = packed_op env i 4 (fp_sub h F32 To_Nearest) c"

definition op_mulps :: "host_fp \<Rightarrow> 'm env \<Rightarrow> insn \<Rightarrow> 'm cpu \<Rightarrow> 'm cpu" where
  "op_mulps h env i c = packed_op env i 4 (fp_mul h F32 To_Nearest) c"

definition op_divps :: "host_fp \<Rightarrow> 'm env \<Rightarrow> insn \<Rightarrow> 'm cpu \<Rightarrow> 'm cpu" where
  "op_divps h env i c = packed_op env i 4 (fp_div h F32 To_Nearest) c"

definition op_sqrtps :: "host_fp \<Rightarrow> 'm env \<Rightarrow> insn \<Rightarrow> 'm cpu \<Rightarrow> 'm cpu" where
  "op_sqrtps h env i c = packed_op env i 4 (\<lambda>_ b. fp_sqrt h F32 To_Nearest b) c"

definition op_addpd :: "host_fp \<Rightarrow> 'm env \<Rightarrow> insn \<Rightarrow> 'm cpu \<Rightarrow> 'm cpu" where
  "op_addpd h env i c = packed_op env i 8 (fp_add h F64 To_Nearest) c"

definition op_subpd :: "host_fp \<Rightarrow> 'm env \<Rightarrow> insn \<Rightarrow> 'm cpu \<Rightarrow> 'm cpu" where
  "op_subpd h env i c = packed_op env i 8 (fp_sub h F64 To_Nearest) c"

definition op_mulpd :: "host_fp \<Rightarrow> 'm env \<Rightarrow> insn \<Rightarrow> 'm cpu \<Rightarrow> 'm cpu" where
  "op_mulpd h env i c = packed_op env i 8 (fp_mul h F64 To_Nearest) c"

definition op_divpd :: "host_fp \<Rightarrow> 'm env \<Rightarrow> insn \<Rightarrow> 'm cpu \<Rightarrow> 'm cpu" where
  "op_divpd h env i c = packed_op env i 8 (fp_div h F64 To_Nearest) c"

definition op_sqrtpd :: "host_fp \<Rightarrow> 'm env \<Rightarrow> insn \<Rightarrow> 'm cpu \<Rightarrow> 'm cpu" where
  "op_sqrtpd h env i c = packed_op env i 8 (\<lambda>_ b. fp_sqrt h F64 To_Nearest b) c"

definition op_xorps :: "'m env \<Rightarrow> insn \<Rightarrow> 'm cpu \<Rightarrow> 'm cpu" where
  "op_xorps env i c = op_pxor env i c"

definition op_xorpd :: "'m env \<Rightarrow> insn \<Rightarrow> 'm cpu \<Rightarrow> 'm cpu" where
  "op_xorpd env i c = op_pxor env i c"

definition op_andps :: "'m env \<Rightarrow> insn \<Rightarrow> 'm cpu \<Rightarrow> 'm cpu" where
  "op_andps env i c = op_pand env i c"

definition op_orps :: "'m env \<Rightarrow> insn \<Rightarrow> 'm cpu \<Rightarrow> 'm cpu" where
  "op_orps env i c = op_por env i c"

section \<open>Comparison\<close>

definition set_compare_flags :: "bool \<Rightarrow> bool \<Rightarrow> bool \<Rightarrow> 'm cpu \<Rightarrow> 'm cpu" where
  "set_compare_flags unordered lt eq c =
     set_of False (set_sf False (set_af False (set_cf (unordered \<or> lt) (set_pf unordered (set_zf (unordered \<or> eq)
       (force_sync_flags c))))))"

definition ucomi :: "fmt \<Rightarrow> nat \<Rightarrow> 'm env \<Rightarrow> insn \<Rightarrow> 'm cpu \<Rightarrow> 'm cpu" where
  "ucomi f w env i c =
     read_then (read_scalar env i (i_dst i) w c) (\<lambda>x c.
     read_then (read_scalar env i (i_src i) w c) (\<lambda>y c.
       let a = le_value x; b = le_value y; unordered = (fp_isnan f a \<or> fp_isnan f b)
       in set_compare_flags unordered (\<not> unordered \<and> fp_lt f a b) (\<not> unordered \<and> fp_eq f a b) c))"

definition op_ucomiss :: "'m env \<Rightarrow> insn \<Rightarrow> 'm cpu \<Rightarrow> 'm cpu" where
  "op_ucomiss env i c = ucomi F32 4 env i c"

definition op_ucomisd :: "'m env \<Rightarrow> insn \<Rightarrow> 'm cpu \<Rightarrow> 'm cpu" where
  "op_ucomisd env i c = ucomi F64 8 env i c"

section \<open>Conversions\<close>

text \<open>The integer source: four bytes as a signed number, or the eight bytes of the buffer.\<close>

definition int_source :: "u8 \<Rightarrow> u8 list \<Rightarrow> int" where
  "int_source sz bs = (if sz = 4 then signed_of 4 (le_value (take 4 bs)) else sint (le_value (padded 8 bs)))"

definition cvt_from_int :: "fmt \<Rightarrow> nat \<Rightarrow> 'm env \<Rightarrow> insn \<Rightarrow> 'm cpu \<Rightarrow> 'm cpu" where
  "cvt_from_int f w env i c =
     read_then (read_scalar env i (i_src i) (unat (i_op_size i)) c) (\<lambda>s c.
     read_then (read_x16 env i (i_dst i) c) (\<lambda>d c.
       write_x16 env i (i_dst i) (le_bytes w (int_to_fp f (int_source (i_op_size i) s)) @ drop w d) c))"

definition op_cvtsi2ss :: "'m env \<Rightarrow> insn \<Rightarrow> 'm cpu \<Rightarrow> 'm cpu" where
  "op_cvtsi2ss env i c = cvt_from_int F32 4 env i c"

definition op_cvtsi2sd :: "'m env \<Rightarrow> insn \<Rightarrow> 'm cpu \<Rightarrow> 'm cpu" where
  "op_cvtsi2sd env i c = cvt_from_int F64 8 env i c"

definition cvt_to_int :: "host_fp \<Rightarrow> fmt \<Rightarrow> nat \<Rightarrow> 'm env \<Rightarrow> insn \<Rightarrow> 'm cpu \<Rightarrow> 'm cpu" where
  "cvt_to_int h f w env i c =
     read_then (read_scalar env i (i_src i) w c) (\<lambda>s c.
       snd (write_operand env i (i_dst i) (i_op_size i) (word_of_int (fp_to_int h 64 f (le_value s))) c))"

definition op_cvttss2si :: "host_fp \<Rightarrow> 'm env \<Rightarrow> insn \<Rightarrow> 'm cpu \<Rightarrow> 'm cpu" where
  "op_cvttss2si h env i c = cvt_to_int h F32 4 env i c"

definition op_cvttsd2si :: "host_fp \<Rightarrow> 'm env \<Rightarrow> insn \<Rightarrow> 'm cpu \<Rightarrow> 'm cpu" where
  "op_cvttsd2si h env i c = cvt_to_int h F64 8 env i c"

definition cvt_format :: "host_fp \<Rightarrow> fmt \<Rightarrow> nat \<Rightarrow> fmt \<Rightarrow> nat \<Rightarrow> 'm env \<Rightarrow> insn \<Rightarrow> 'm cpu \<Rightarrow> 'm cpu" where
  "cvt_format h f w g w' env i c =
     read_then (read_scalar env i (i_src i) w c) (\<lambda>s c.
     read_then (read_x16 env i (i_dst i) c) (\<lambda>d c.
       write_x16 env i (i_dst i) (le_bytes w' (fp_convert h f g (le_value s)) @ drop w' d) c))"

definition op_cvtss2sd :: "host_fp \<Rightarrow> 'm env \<Rightarrow> insn \<Rightarrow> 'm cpu \<Rightarrow> 'm cpu" where
  "op_cvtss2sd h env i c = cvt_format h F32 4 F64 8 env i c"

definition op_cvtsd2ss :: "host_fp \<Rightarrow> 'm env \<Rightarrow> insn \<Rightarrow> 'm cpu \<Rightarrow> 'm cpu" where
  "op_cvtsd2ss h env i c = cvt_format h F64 8 F32 4 env i c"

section \<open>Reciprocals (misc.cpp)\<close>

definition fp_rcp :: "host_fp \<Rightarrow> u64 \<Rightarrow> u64" where
  "fp_rcp h v = fp_div h F32 To_Nearest 0x3F800000 v"

definition fp_rsqrt :: "host_fp \<Rightarrow> u64 \<Rightarrow> u64" where
  "fp_rsqrt h v = fp_div h F32 To_Nearest 0x3F800000 (fp_sqrt h F32 To_Nearest v)"

definition rcp_scalar :: "(u64 \<Rightarrow> u64) \<Rightarrow> u8 list \<Rightarrow> u8 list \<Rightarrow> u8 list" where
  "rcp_scalar f d s = le_bytes 4 (f (le_value (take 4 s))) @ drop 4 d"

definition op_rcpss :: "host_fp \<Rightarrow> 'm env \<Rightarrow> insn \<Rightarrow> 'm cpu \<Rightarrow> 'm cpu" where
  "op_rcpss h env i c = vec_binary misc_rules env i 16 (rcp_scalar (fp_rcp h)) c"

definition op_rsqrtss :: "host_fp \<Rightarrow> 'm env \<Rightarrow> insn \<Rightarrow> 'm cpu \<Rightarrow> 'm cpu" where
  "op_rsqrtss h env i c = vec_binary misc_rules env i 16 (rcp_scalar (fp_rsqrt h)) c"

definition op_rcpps :: "host_fp \<Rightarrow> 'm env \<Rightarrow> insn \<Rightarrow> 'm cpu \<Rightarrow> 'm cpu" where
  "op_rcpps h env i c = vec_unary misc_rules env i 16 (per_lane1 4 (fp_rcp h)) c"

definition op_rsqrtps :: "host_fp \<Rightarrow> 'm env \<Rightarrow> insn \<Rightarrow> 'm cpu \<Rightarrow> 'm cpu" where
  "op_rsqrtps h env i c = vec_unary misc_rules env i 16 (per_lane1 4 (fp_rsqrt h)) c"

section \<open>Rounding to an integer (sse4\_aes.cpp)\<close>

definition round_with_mode :: "host_fp \<Rightarrow> fmt \<Rightarrow> u8 \<Rightarrow> u64 \<Rightarrow> u64" where
  "round_with_mode h f mode v =
     (let m = mode AND 3
      in fp_integral h f (if m = 0 then To_Nearest else if m = 1 then Downward else if m = 2 then Upward else Toward_Zero) v)"

definition round_scalar :: "host_fp \<Rightarrow> fmt \<Rightarrow> nat \<Rightarrow> 'm env \<Rightarrow> insn \<Rightarrow> 'm cpu \<Rightarrow> 'm cpu" where
  "round_scalar h f w env i c =
     vec_binary sse4_rules env i 16
       (\<lambda>d s. le_bytes w (round_with_mode h f (ucast (i_imm_extra i)) (le_value (take w s))) @ drop w d) c"

definition round_packed :: "host_fp \<Rightarrow> fmt \<Rightarrow> nat \<Rightarrow> 'm env \<Rightarrow> insn \<Rightarrow> 'm cpu \<Rightarrow> 'm cpu" where
  "round_packed h f w env i c = vec_unary sse4_rules env i 16 (per_lane1 w (round_with_mode h f (ucast (i_imm_extra i)))) c"

definition op_roundss :: "host_fp \<Rightarrow> 'm env \<Rightarrow> insn \<Rightarrow> 'm cpu \<Rightarrow> 'm cpu" where
  "op_roundss h env i c = round_scalar h F32 4 env i c"

definition op_roundsd :: "host_fp \<Rightarrow> 'm env \<Rightarrow> insn \<Rightarrow> 'm cpu \<Rightarrow> 'm cpu" where
  "op_roundsd h env i c = round_scalar h F64 8 env i c"

definition op_roundps :: "host_fp \<Rightarrow> 'm env \<Rightarrow> insn \<Rightarrow> 'm cpu \<Rightarrow> 'm cpu" where
  "op_roundps h env i c = round_packed h F32 4 env i c"

definition op_roundpd :: "host_fp \<Rightarrow> 'm env \<Rightarrow> insn \<Rightarrow> 'm cpu \<Rightarrow> 'm cpu" where
  "op_roundpd h env i c = round_packed h F64 8 env i c"

section \<open>EVEX arithmetic (avx512.cpp)\<close>

definition evex_bcast :: "insn \<Rightarrow> bool" where
  "evex_bcast i \<longleftrightarrow> i_pad i AND 0x10 \<noteq> 0"

definition read_vec_or_broadcast :: "'m env \<Rightarrow> insn \<Rightarrow> operand \<Rightarrow> nat \<Rightarrow> nat \<Rightarrow> 'm cpu \<Rightarrow> u8 list option \<times> 'm cpu" where
  "read_vec_or_broadcast env i op width w c =
     (if o_kind op = OK_Xmm then (Some (zmm_bytes c (o_reg op) width), c)
      else if evex_bcast i \<and> e_mem_read env \<noteq> None then
        (case vec_load ''evex bcast read'' env (ea c i op) w c of
           (Some b, c) \<Rightarrow> (Some (concat (replicate (width div w) b)), c)
         | (None, c) \<Rightarrow> (None, c))
      else vec_load ''evex fp read'' env (ea c i op) width c)"

text \<open>The rounding mode while the handler runs: EVEX.b on a register form makes L'L the mode.  It is restored at the end.\<close>

definition scoped_rounding :: "insn \<Rightarrow> bool \<Rightarrow> rounding" where
  "scoped_rounding i reg_src =
     (if reg_src \<and> evex_bcast i
      then (let rc = drop_bit 5 (i_pad i) AND 3
            in if rc = 0 then To_Nearest else if rc = 1 then Downward else if rc = 2 then Upward else Toward_Zero)
      else To_Nearest)"

definition evex_fp_binop :: "nat \<Rightarrow> (rounding \<Rightarrow> u64 \<Rightarrow> u64 \<Rightarrow> u64) \<Rightarrow> 'm env \<Rightarrow> insn \<Rightarrow> 'm cpu \<Rightarrow> 'm cpu" where
  "evex_fp_binop w f env i c =
     (let mode = scoped_rounding i (o_kind (i_src i) = OK_Xmm); width = unat (i_op_size i); mask_bits = evex_mask i c;
          src1 = zmm_bytes c (o_index (i_dst i)) width
      in read_then (read_vec_or_broadcast env i (i_src i) width w c) (\<lambda>src2 c.
           let prev = zmm_bytes c (o_reg (i_dst i)) width
           in evex_write_vec (o_reg (i_dst i)) (i_op_size i)
                (masked_lanes mask_bits (evex_zeroing i) w width (\<lambda>k. on_lane w (f mode) (elem w k src1) (elem w k src2)) prev) c))"

definition evex_fp_unop :: "nat \<Rightarrow> (u64 \<Rightarrow> u64) \<Rightarrow> 'm env \<Rightarrow> insn \<Rightarrow> 'm cpu \<Rightarrow> 'm cpu" where
  "evex_fp_unop w f env i c =
     (let width = unat (i_op_size i); mask_bits = evex_mask i c
      in read_then (read_vec_or_broadcast env i (i_src i) width w c) (\<lambda>src c.
           let prev = zmm_bytes c (o_reg (i_dst i)) width
           in evex_write_vec (o_reg (i_dst i)) (i_op_size i)
                (masked_lanes mask_bits (evex_zeroing i) w width (\<lambda>k. le_bytes w (f (le_value (elem w k src)))) prev) c))"

text \<open>MIN and MAX return the second source when either is a NaN or both are zero.\<close>

definition evex_min :: "fmt \<Rightarrow> rounding \<Rightarrow> u64 \<Rightarrow> u64 \<Rightarrow> u64" where
  "evex_min f mode a b =
     (if fp_isnan f a \<or> fp_isnan f b then b
      else if fp_eq f a 0 \<and> fp_eq f b 0 then b
      else if fp_lt f a b then a else b)"

definition evex_max :: "fmt \<Rightarrow> rounding \<Rightarrow> u64 \<Rightarrow> u64 \<Rightarrow> u64" where
  "evex_max f mode a b =
     (if fp_isnan f a \<or> fp_isnan f b then b
      else if fp_eq f a 0 \<and> fp_eq f b 0 then b
      else if fp_lt f b a then a else b)"

definition op_vaddps_evex :: "host_fp \<Rightarrow> 'm env \<Rightarrow> insn \<Rightarrow> 'm cpu \<Rightarrow> 'm cpu" where
  "op_vaddps_evex h env i c = evex_fp_binop 4 (fp_add h F32) env i c"

definition op_vaddpd_evex :: "host_fp \<Rightarrow> 'm env \<Rightarrow> insn \<Rightarrow> 'm cpu \<Rightarrow> 'm cpu" where
  "op_vaddpd_evex h env i c = evex_fp_binop 8 (fp_add h F64) env i c"

definition op_vsubps_evex :: "host_fp \<Rightarrow> 'm env \<Rightarrow> insn \<Rightarrow> 'm cpu \<Rightarrow> 'm cpu" where
  "op_vsubps_evex h env i c = evex_fp_binop 4 (fp_sub h F32) env i c"

definition op_vsubpd_evex :: "host_fp \<Rightarrow> 'm env \<Rightarrow> insn \<Rightarrow> 'm cpu \<Rightarrow> 'm cpu" where
  "op_vsubpd_evex h env i c = evex_fp_binop 8 (fp_sub h F64) env i c"

definition op_vmulps_evex :: "host_fp \<Rightarrow> 'm env \<Rightarrow> insn \<Rightarrow> 'm cpu \<Rightarrow> 'm cpu" where
  "op_vmulps_evex h env i c = evex_fp_binop 4 (fp_mul h F32) env i c"

definition op_vmulpd_evex :: "host_fp \<Rightarrow> 'm env \<Rightarrow> insn \<Rightarrow> 'm cpu \<Rightarrow> 'm cpu" where
  "op_vmulpd_evex h env i c = evex_fp_binop 8 (fp_mul h F64) env i c"

definition op_vdivps_evex :: "host_fp \<Rightarrow> 'm env \<Rightarrow> insn \<Rightarrow> 'm cpu \<Rightarrow> 'm cpu" where
  "op_vdivps_evex h env i c = evex_fp_binop 4 (fp_div h F32) env i c"

definition op_vdivpd_evex :: "host_fp \<Rightarrow> 'm env \<Rightarrow> insn \<Rightarrow> 'm cpu \<Rightarrow> 'm cpu" where
  "op_vdivpd_evex h env i c = evex_fp_binop 8 (fp_div h F64) env i c"

definition op_vminps_evex :: "'m env \<Rightarrow> insn \<Rightarrow> 'm cpu \<Rightarrow> 'm cpu" where
  "op_vminps_evex env i c = evex_fp_binop 4 (evex_min F32) env i c"

definition op_vminpd_evex :: "'m env \<Rightarrow> insn \<Rightarrow> 'm cpu \<Rightarrow> 'm cpu" where
  "op_vminpd_evex env i c = evex_fp_binop 8 (evex_min F64) env i c"

definition op_vmaxps_evex :: "'m env \<Rightarrow> insn \<Rightarrow> 'm cpu \<Rightarrow> 'm cpu" where
  "op_vmaxps_evex env i c = evex_fp_binop 4 (evex_max F32) env i c"

definition op_vmaxpd_evex :: "'m env \<Rightarrow> insn \<Rightarrow> 'm cpu \<Rightarrow> 'm cpu" where
  "op_vmaxpd_evex env i c = evex_fp_binop 8 (evex_max F64) env i c"

definition op_vsqrtps_evex :: "host_fp \<Rightarrow> 'm env \<Rightarrow> insn \<Rightarrow> 'm cpu \<Rightarrow> 'm cpu" where
  "op_vsqrtps_evex h env i c = evex_fp_unop 4 (fp_sqrt h F32 To_Nearest) env i c"

definition op_vsqrtpd_evex :: "host_fp \<Rightarrow> 'm env \<Rightarrow> insn \<Rightarrow> 'm cpu \<Rightarrow> 'm cpu" where
  "op_vsqrtpd_evex h env i c = evex_fp_unop 8 (fp_sqrt h F64 To_Nearest) env i c"

end
