(* ===== verification/Sse_Float_Facts.thy ===== *)
theory Sse_Float_Facts
  imports Sse_Float Flag_Facts
begin

text \<open>What the floating-point handlers do: comparison flags, conversions of integers there and back, masked lanes.\<close>

section \<open>Comparison flags\<close>

lemma sync_settled: "c_cc_op c = CC_Eflags \<Longrightarrow> sync_flags c = c"
  by (simp add: sync_flags_def)

lemma settled_sync: "c_cc_op (sync_flags c) = CC_Eflags"
  by (simp add: sync_flags_def Let_def)

lemma settled_set: "c_cc_op (set_flag_bit m v c) = c_cc_op c"
  by (simp add: set_flag_bit_def)

lemma settled_flags:
  "c_cc_op (set_zf v c) = CC_Eflags" "c_cc_op (set_pf v c) = CC_Eflags" "c_cc_op (set_cf v c) = CC_Eflags"
  "c_cc_op (set_af v c) = CC_Eflags" "c_cc_op (set_sf v c) = CC_Eflags" "c_cc_op (set_of v c) = CC_Eflags"
  by (simp_all add: set_zf_def set_pf_def set_cf_def set_af_def set_sf_def set_of_def settled_set settled_sync)

lemma sync_set_flags:
  "sync_flags (set_zf v c) = set_zf v c" "sync_flags (set_pf v c) = set_pf v c" "sync_flags (set_cf v c) = set_cf v c"
  "sync_flags (set_af v c) = set_af v c" "sync_flags (set_sf v c) = set_sf v c" "sync_flags (set_of v c) = set_of v c"
  "sync_flags (sync_flags c) = sync_flags c"
  by (simp_all add: sync_settled settled_flags settled_sync)

lemma bit_set_flag_bit: "bit (c_rflags (set_flag_bit m v c)) n \<longleftrightarrow> (if bit m n then v else bit (c_rflags c) n)"
  using bit_u64_lt [of "c_rflags c" n] bit_u64_lt [of m n]
  by (auto simp: set_flag_bit_def bit_or_iff bit_and_iff bit_not_iff)

lemma flag_literals:
  "bit (1 :: u64) n \<longleftrightarrow> n = 0" "bit (4 :: u64) n \<longleftrightarrow> n = 2" "bit (0x10 :: u64) n \<longleftrightarrow> n = 4"
  "bit (0x40 :: u64) n \<longleftrightarrow> n = 6" "bit (0x80 :: u64) n \<longleftrightarrow> n = 7" "bit (0x800 :: u64) n \<longleftrightarrow> n = 11"
  using bit_power_u64 [of 0 n] bit_power_u64 [of 2 n] bit_power_u64 [of 4 n] bit_power_u64 [of 6 n] bit_power_u64 [of 7 n]
    bit_power_u64 [of 11 n] by simp_all

lemma bit_set_flags:
  "bit (c_rflags (set_cf v c)) n \<longleftrightarrow> (if n = 0 then v else bit (c_rflags (sync_flags c)) n)"
  "bit (c_rflags (set_pf v c)) n \<longleftrightarrow> (if n = 2 then v else bit (c_rflags (sync_flags c)) n)"
  "bit (c_rflags (set_af v c)) n \<longleftrightarrow> (if n = 4 then v else bit (c_rflags (sync_flags c)) n)"
  "bit (c_rflags (set_zf v c)) n \<longleftrightarrow> (if n = 6 then v else bit (c_rflags (sync_flags c)) n)"
  "bit (c_rflags (set_sf v c)) n \<longleftrightarrow> (if n = 7 then v else bit (c_rflags (sync_flags c)) n)"
  "bit (c_rflags (set_of v c)) n \<longleftrightarrow> (if n = 11 then v else bit (c_rflags (sync_flags c)) n)"
  unfolding set_zf_def set_pf_def set_cf_def set_af_def set_sf_def set_of_def bit_set_flag_bit flag_literals by (rule refl)+

lemma compare_flags:
  "flags_of (set_compare_flags u l e c) = \<lparr>fl_cf = u \<or> l, fl_pf = u, fl_af = False, fl_zf = u \<or> e, fl_sf = False, fl_of = False\<rparr>"
  unfolding set_compare_flags_def force_sync_flags_def flags_of_bits bits_flags_def
  by (simp only: sync_set_flags bit_set_flags) simp

lemma flag_frame:
  "reg (sync_flags c) = reg c" "c_zmm (sync_flags c) = c_zmm c" "c_mem (sync_flags c) = c_mem c" "c_fault (sync_flags c) = c_fault c"
  "reg (set_flag_bit m v c) = reg c" "c_zmm (set_flag_bit m v c) = c_zmm c" "c_mem (set_flag_bit m v c) = c_mem c"
  "c_fault (set_flag_bit m v c) = c_fault c"
  by (simp_all add: sync_flags_def set_flag_bit_def Let_def reg_def fun_eq_iff)

lemma compare_frame:
  "reg (set_compare_flags u l e c) = reg c" "c_zmm (set_compare_flags u l e c) = c_zmm c" "c_mem (set_compare_flags u l e c) = c_mem c"
  "c_fault (set_compare_flags u l e c) = c_fault c"
  unfolding set_compare_flags_def set_of_def set_sf_def set_af_def set_cf_def set_pf_def set_zf_def force_sync_flags_def
  by (simp_all only: flag_frame)

text \<open>The two comparisons with their formats.\<close>

definition fp_compares :: "(('m env \<Rightarrow> insn \<Rightarrow> 'm cpu \<Rightarrow> 'm cpu) \<times> fmt \<times> nat) set" where
  "fp_compares = {(op_ucomiss, F32, 4), (op_ucomisd, F64, 8)}"

text \<open>C27: UCOMISS and UCOMISD of two registers compare the values.  CF and ZF tell less and equal, PF is clear and the other three
  flags are cleared; with a NaN on either side CF, ZF and PF are all set.  Zeros of either sign are equal and the infinities are at
  the ends.  No register, no memory and no fault state changes.\<close>

theorem ucomis_flags:
  fixes c :: "'m cpu" and env :: "'m env" and d s :: u8
  assumes "(comis, f, w) \<in> fp_compares"
  defines "a \<equiv> le_value (zmm_bytes c d w)" and "b \<equiv> le_value (zmm_bytes c s w)" and "c' \<equiv> comis env (xmm_insn d s) c"
  shows "flags_of c' =
      (if fp_isnan f a \<or> fp_isnan f b then \<lparr>fl_cf = True, fl_pf = True, fl_af = False, fl_zf = True, fl_sf = False, fl_of = False\<rparr>
       else \<lparr>fl_cf = fp_less f a b, fl_pf = False, fl_af = False, fl_zf = fp_same f a b, fl_sf = False, fl_of = False\<rparr>) \<and>
    reg c' = reg c \<and> c_zmm c' = c_zmm c \<and> c_mem c' = c_mem c \<and> c_fault c' = c_fault c"
proof -
  have f: "fmt_ok f" and op: "comis env (xmm_insn d s) c = ucomi f w env (xmm_insn d s) c"
    using assms(1) by (auto simp: fp_compares_def op_ucomiss_def op_ucomisd_def)
  define u where "u = (fp_isnan f a \<or> fp_isnan f b)"
  have c': "c' = set_compare_flags u (\<not> u \<and> fp_lt f a b) (\<not> u \<and> fp_eq f a b) c"
    by (simp add: c'_def op ucomi_def read_scalar_def a_def b_def u_def Let_def)
  show ?thesis unfolding c' compare_flags compare_frame fp_order [OF f] u_def by auto
qed

text \<open>-1.0 is less than +0.0.\<close>

theorem ucomis_flags_witness:
  "flags_of (op_ucomisd no_env (xmm_insn 1 2) (set_zmm_bytes 1 [0, 0, 0, 0, 0, 0, 0xF0, 0xBF] (initial_cpu ()))) =
    \<lparr>fl_cf = True, fl_pf = False, fl_af = False, fl_zf = False, fl_sf = False, fl_of = False\<rparr>"
proof -
  let ?c = "set_zmm_bytes 1 [0, 0, 0, 0, 0, 0, 0xF0, 0xBF] (initial_cpu ())"
  have "(op_ucomisd, F64, 8) \<in> fp_compares" by (simp add: fp_compares_def)
  note p = conjunct1 [OF ucomis_flags [OF this, where d = 1 and s = 2 and env = no_env and c = ?c]]
  have "le_value (zmm_bytes ?c 1 8) = 0xBFF0000000000000" "le_value (zmm_bytes ?c 2 8) = 0"
    by (simp_all add: zmm_bytes_def set_zmm_bytes_def initial_cpu_def upt_rec)
  then show ?thesis unfolding p
    by (simp add: fp_isnan_def fp_mag_def fp_huge_def fp_less_def fp_same_def fp_decode_def fp_neg_def fp_value_def Let_def)
qed

section \<open>Integers\<close>

lemma scalar_low: "w \<le> length d \<Longrightarrow> zmm_bytes (set_zmm_bytes r (le_bytes w v @ drop w d) c) r w = le_bytes w v"
  by simp

text \<open>CVTSI2SD followed by CVTTSD2SI gives the integer back: always for the 32-bit form, and for the 64-bit form up to
  \<open>2 ^ 53\<close> in absolute value, whatever the host does with values out of range.  Registers other than the two destinations keep
  their values.\<close>

theorem cvt_int_round_trip:
  fixes c :: "'m cpu" and env :: "'m env" and x r r' sz :: u8 and h :: host_fp
  assumes "sz = 4 \<or> sz = 8 \<and> \<bar>sint (reg c r)\<bar> \<le> 2 ^ 53"
  defines "c' \<equiv> op_cvtsi2sd env (plain_insn sz (xmm_op x) (reg_op r)) c"
  defines "c'' \<equiv> op_cvttsd2si h env (plain_insn sz (reg_op r') (xmm_op x)) c'"
  shows "reg c'' r' = reg c r AND mask_for sz \<and> (\<forall>k. k \<noteq> r' \<longrightarrow> reg c'' k = reg c k) \<and>
    (\<forall>k j. k \<noteq> x \<or> 8 \<le> j \<longrightarrow> c_zmm c'' k j = c_zmm c k j) \<and> c_rflags c'' = c_rflags c \<and> c_fault c'' = c_fault c"
proof -
  define z where "z = int_source sz (le_bytes (unat sz) (reg c r))"
  have zb: "\<bar>z\<bar> \<le> 2 ^ 53" using assms(1)
  proof
    assume "sz = 4"
    then have "z = signed_take_bit 31 (uint (take_bit 32 (reg c r)))"
      by (simp add: z_def int_source_def signed_of_def le_value_le_bytes)
    moreover have "- (2 ^ 31) \<le> signed_take_bit 31 y \<and> signed_take_bit 31 y < 2 ^ 31" for y :: int
      using signed_take_bit_int_greater_eq_minus_exp [of 31 y] signed_take_bit_int_less_exp [of 31 y] by simp
    ultimately have "- (2 ^ 31) \<le> z" "z < 2 ^ 31" by simp_all
    then show ?thesis by simp
  next
    assume "sz = 8 \<and> \<bar>sint (reg c r)\<bar> \<le> 2 ^ 53"
    then show ?thesis by (simp add: z_def int_source_def padded_full le_value_le_bytes take_bit_length_eq [where ?'a = 64, simplified])
  qed
  have c': "c' = set_zmm_bytes x (le_bytes 8 (int_to_fp F64 z) @ drop 8 (zmm_bytes c x 16)) c"
    by (simp add: c'_def op_cvtsi2sd_def cvt_from_int_def read_scalar_def read_x16_def write_x16_def z_def plain_insn_def xmm_op_def reg_op_def is_mem_def)
  have v: "le_value (zmm_bytes c' x 8) = int_to_fp F64 z"
    unfolding c' by (simp add: le_value_le_bytes take_bit_length_eq [where ?'a = 64, simplified])
  have c'': "c'' = snd (write_reg_operand r' sz (word_of_int z) c')"
    unfolding c''_def op_cvttsd2si_def cvt_to_int_def
    by (simp add: read_scalar_def xmm_op_def v int_round_trip [OF zb] write_operand_reg)
  have low: "reg (set_r32 r' (ucast (word_of_int z :: u64)) c') r' = reg c r AND 0xFFFFFFFF" if "sz = 4"
  proof (rule bit_word_eqI)
    fix n assume "n < LENGTH(64)"
    have "z = signed_take_bit 31 (uint (take_bit 32 (reg c r)))" using that
      by (simp add: z_def int_source_def signed_of_def le_value_le_bytes)
    then have "n < 32 \<Longrightarrow> bit z n \<longleftrightarrow> bit (reg c r) n"
      by (cases "n = 31") (simp_all add: bit_signed_take_bit_iff bit_unsigned_iff bit_take_bit_iff min_def)
    then show "bit (reg (set_r32 r' (ucast (word_of_int z :: u64)) c') r') n = bit (reg c r AND 0xFFFFFFFF) n"
      using bit_mask_for [of 4 n] by (auto simp: bit_reg_set_r32 bit_and_iff bit_unsigned_iff bit_word_of_int_iff mask_for_def)
  qed
  have all_ones: "v AND 0xFFFFFFFFFFFFFFFF = v" for v :: u64
  proof -
    have "(0xFFFFFFFFFFFFFFFF :: u64) = - 1" by simp
    then show ?thesis by (simp only: bit.conj_one_right)
  qed
  have z8: "word_of_int z = reg c r" if "sz = 8" using that
    by (simp add: z_def int_source_def padded_full le_value_le_bytes take_bit_length_eq [where ?'a = 64, simplified])
  have "reg c'' r' = reg c r AND mask_for sz" using assms(1) low z8 unfolding c'' write_reg_operand_def
    by (auto simp: mask_for_def all_ones)
  moreover have "c'' = c'\<lparr>c_gpr := c_gpr c''\<rparr>" "\<forall>k. k \<noteq> r' \<longrightarrow> reg c'' k = reg c k"
    using assms(1) unfolding c'' write_reg_operand_def by (auto simp: c' set_r32_def set_r64_def reg_def set_zmm_bytes_def)
  moreover have "\<forall>k j. k \<noteq> x \<or> 8 \<le> j \<longrightarrow> c_zmm c'' k j = c_zmm c k j" "c_rflags c'' = c_rflags c" "c_fault c'' = c_fault c"
    using assms(1) unfolding c'' write_reg_operand_def
    by (auto simp: c' set_r32_def set_r64_def set_zmm_bytes_def nth_append zmm_bytes_def)
  ultimately show ?thesis by blast
qed

text \<open>The largest integers that survive.\<close>

theorem cvt_int_round_trip_witness:
  "reg (op_cvttsd2si plain_host no_env (plain_insn 8 (reg_op 3) (xmm_op 1))
      (op_cvtsi2sd no_env (plain_insn 8 (xmm_op 1) (reg_op 2)) (set_r64 2 0x20000000000000 (initial_cpu ())))) 3 = 0x20000000000000"
proof -
  have "(8 :: u8) = 4 \<or> (8 :: u8) = 8 \<and> \<bar>sint (reg (set_r64 2 0x20000000000000 (initial_cpu ())) 2)\<bar> \<le> 2 ^ 53"
    by (simp add: reg_def set_r64_def)
  from conjunct1 [OF cvt_int_round_trip [OF this, where env = no_env and x = 1 and r' = 3 and h = plain_host]]
  show ?thesis by (simp add: reg_def set_r64_def mask_for_def)
qed

section \<open>Masked lanes\<close>

text \<open>The EVEX operations of two sources, with their lane width and what they do to a pair of lanes.\<close>

definition evex_fp_ops :: "host_fp \<Rightarrow> (('m env \<Rightarrow> insn \<Rightarrow> 'm cpu \<Rightarrow> 'm cpu) \<times> nat \<times> (rounding \<Rightarrow> u64 \<Rightarrow> u64 \<Rightarrow> u64)) set" where
  "evex_fp_ops h =
     {(op_vaddps_evex h, 4, fp_add h F32), (op_vaddpd_evex h, 8, fp_add h F64), (op_vsubps_evex h, 4, fp_sub h F32),
      (op_vsubpd_evex h, 8, fp_sub h F64), (op_vmulps_evex h, 4, fp_mul h F32), (op_vmulpd_evex h, 8, fp_mul h F64),
      (op_vdivps_evex h, 4, fp_div h F32), (op_vdivpd_evex h, 8, fp_div h F64), (op_vminps_evex, 4, evex_min F32),
      (op_vminpd_evex, 8, evex_min F64), (op_vmaxps_evex, 4, evex_max F32), (op_vmaxpd_evex, 8, evex_max F64)}"

lemma take_masked: "length (masked_lanes m z w width new prev) = width" if "w dvd width" "0 < w" "length prev = width" "\<And>j. j < width div w \<Longrightarrow> length (new j) = w"
proof -
  have "length (masked_elem m z w (new j) prev j) = w" if "j \<in> set [0..<width div w]" for j
    using that \<open>w dvd width\<close> \<open>length prev = width\<close> \<open>\<And>j. j < width div w \<Longrightarrow> length (new j) = w\<close> mult_le_mono2 [of "Suc j" "width div w" w]
    by (intro length_masked_elem) auto
  from length_concat_const [of "[0..<width div w]" _ w, OF this] show ?thesis
    using \<open>w dvd width\<close> by (simp add: masked_lanes_def padded_full)
qed

text \<open>C28: an EVEX addition, subtraction, multiplication, division, minimum or maximum of two registers applies the operation to each
  lane whose mask bit is set, in the rounding mode the instruction embeds; a lane whose bit is clear becomes zero or keeps its
  value; the bytes above the vector width become zero, and no other register changes.\<close>

theorem evex_fp_lanes:
  fixes c :: "'m cpu" and env :: "'m env" and i :: insn
  assumes "(evex, w, f) \<in> evex_fp_ops h" "o_kind (i_src i) = OK_Xmm" "i_op_size i \<in> {16, 32, 64}"
  defines "c' \<equiv> evex env i c" and "d \<equiv> o_reg (i_dst i)" and "width \<equiv> unat (i_op_size i)"
  shows "(\<forall>k < width div w. elem w k (zmm_bytes c' d width) =
       (if lane_active (evex_mask i c) k
        then le_bytes w (f (scoped_rounding i True) (lane w k (zmm_bytes c (o_index (i_dst i)) width)) (lane w k (zmm_bytes c (o_reg (i_src i)) width)))
        else if evex_zeroing i then replicate w 0
        else elem w k (zmm_bytes c d width))) \<and>
    (\<forall>j. width \<le> j \<and> j < 64 \<longrightarrow> c_zmm c' d j = 0) \<and> (\<forall>k. k \<noteq> d \<longrightarrow> c_zmm c' k = c_zmm c k) \<and> reg c' = reg c"
proof -
  have w: "w = 4 \<or> w = 8" and op: "evex env i c = evex_fp_binop w f env i c"
    using assms(1)
    by (auto simp: evex_fp_ops_def op_vaddps_evex_def op_vaddpd_evex_def op_vsubps_evex_def op_vsubpd_evex_def op_vmulps_evex_def
        op_vmulpd_evex_def op_vdivps_evex_def op_vdivpd_evex_def op_vminps_evex_def op_vminpd_evex_def op_vmaxps_evex_def op_vmaxpd_evex_def)
  have width: "width = 16 \<or> width = 32 \<or> width = 64" using assms(3) by (auto simp: width_def)
  have dvd: "w dvd width" "0 < w" using w width by auto
  let ?new = "\<lambda>k. on_lane w (f (scoped_rounding i True)) (elem w k (zmm_bytes c (o_index (i_dst i)) width)) (elem w k (zmm_bytes c (o_reg (i_src i)) width))"
  define res where "res = masked_lanes (evex_mask i c) (evex_zeroing i) w width ?new (zmm_bytes c d width)"
  have len: "length (?new k) = w" for k by (simp add: on_lane_def)
  have res: "length res = width" unfolding res_def by (rule take_masked) (use dvd len in simp_all)
  have c': "c' = zero_zmm_upper d (i_op_size i) (set_zmm_bytes d res c)"
    unfolding c'_def op evex_fp_binop_def by (simp add: read_vec_or_broadcast_def assms(2) evex_write_vec_def res_def width_def d_def Let_def)
  have bytes: "zmm_bytes c' d width = res"
    unfolding c' by (rule nth_equalityI) (simp_all add: res zmm_bytes_def zero_zmm_upper_def set_zmm_bytes_def width_def)
  have "elem w k res = masked_elem (evex_mask i c) (evex_zeroing i) w (?new k) (zmm_bytes c d width) k" if "k < width div w" for k
    unfolding res_def by (rule elem_masked_lanes) (use that dvd len in simp_all)
  then have "\<forall>k < width div w. elem w k (zmm_bytes c' d width) =
       (if lane_active (evex_mask i c) k
        then le_bytes w (f (scoped_rounding i True) (lane w k (zmm_bytes c (o_index (i_dst i)) width)) (lane w k (zmm_bytes c (o_reg (i_src i)) width)))
        else if evex_zeroing i then replicate w 0
        else elem w k (zmm_bytes c d width))"
    unfolding bytes by (simp add: masked_elem_def on_lane_def lane_def)
  moreover have "\<forall>j. width \<le> j \<and> j < 64 \<longrightarrow> c_zmm c' d j = 0" "\<forall>k. k \<noteq> d \<longrightarrow> c_zmm c' k = c_zmm c k" "reg c' = reg c"
    unfolding c' by (simp_all add: zero_zmm_upper_def set_zmm_bytes_def width_def reg_def fun_eq_iff)
  ultimately show ?thesis by blast
qed

text \<open>A masked-out lane of a zeroing addition.\<close>

theorem evex_fp_lanes_witness:
  "elem 4 0 (zmm_bytes (op_vaddps_evex plain_host no_env (xmm_insn 1 2\<lparr>i_pad := 0x9\<rparr>) (initial_cpu ())) 1 16) = [0, 0, 0, 0]"
proof -
  have m: "(op_vaddps_evex plain_host, 4, fp_add plain_host F32) \<in> evex_fp_ops plain_host" by (simp add: evex_fp_ops_def)
  have "o_kind (i_src (xmm_insn 1 2\<lparr>i_pad := 0x9\<rparr>)) = OK_Xmm" "i_op_size (xmm_insn 1 2\<lparr>i_pad := 0x9\<rparr>) \<in> {16, 32, 64}"
    by (simp_all add: xmm_insn_def xmm_op_def)
  note p = conjunct1 [OF evex_fp_lanes [OF m this, where env = no_env and c = "initial_cpu ()"]]
  have "\<not> lane_active (evex_mask (xmm_insn 1 2\<lparr>i_pad := 0x9\<rparr>) (initial_cpu ())) 0" "evex_zeroing (xmm_insn 1 2\<lparr>i_pad := 0x9\<rparr>)"
    by (simp_all add: evex_mask_def kreg_def initial_cpu_def lane_active_def evex_zeroing_def Let_def)
  moreover have four: "replicate 4 (0 :: u8) = [0, 0, 0, 0]" by (simp add: eval_nat_numeral)
  ultimately show ?thesis using p [rule_format, of 0] four by (simp add: xmm_insn_def xmm_op_def)
qed

end
