(* ===== verification/X87.thy ===== *)
theory X87
  imports Host_Facts Vector_Access Float80
begin

text \<open>
  The x87 handlers of \<^verbatim>\<open>x87.cpp\<close> and the ones of \<^verbatim>\<open>sse4_aes.cpp\<close> that call the host's elementary functions.  The stack holds
  doubles; the ten-byte memory format is converted on the way.
\<close>

section \<open>Memory operands\<close>

definition st_index_from :: "insn \<Rightarrow> u8" where
  "st_index_from i = o_index (i_dst i)"

text \<open>The ten-byte image as a double, and back.\<close>

definition x87_decode :: "host_fp \<Rightarrow> u8 list \<Rightarrow> f64_bits" where
  "x87_decode h b =
     (let mant = le_value (take 8 b); sign_exp = ucast (le_value (take 2 (drop 8 b))) :: u16; sign = (sign_exp AND 0x8000 \<noteq> 0);
          ex = uint (sign_exp AND 0x7FFF) - 16383
      in if ex = - 16383 then (if sign then TOP else 0)
         else (let m = fp_div h F64 To_Nearest (int_to_fp F64 (uint mant)) (int_to_fp F64 (2 ^ 63)); out = fp_ldexp h m ex
               in if sign then fp_negate F64 out else out))"

definition x87_encode :: "f64_bits \<Rightarrow> u8 list" where
  "x87_encode dv =
     (let sign = drop_bit 63 dv \<noteq> 0; exp_d = uint (drop_bit 52 dv AND 0x7FF) - 1023; mant_d = dv AND 0xFFFFFFFFFFFFF
      in if exp_d = - 1023 \<and> mant_d = 0 then replicate 9 0 @ [if sign then 0x80 else 0]
         else (let mant80 = push_bit 11 mant_d OR TOP;
                   sign_exp = (if sign then 0x8000 else 0) OR (word_of_int (exp_d + 16383) AND 0x7FFF) :: u16
               in le_bytes 8 mant80 @ le_bytes 2 (ucast sign_exp)))"

definition read_mem_f :: "host_fp \<Rightarrow> 'm env \<Rightarrow> insn \<Rightarrow> 'm cpu \<Rightarrow> f64_bits option \<times> 'm cpu" where
  "read_mem_f h env i c =
     (let load = (\<lambda>n f. case vec_load ''x87 read'' env (ea c i (i_src i)) n c of
            (Some b, c) \<Rightarrow> (Some (f b), c) | (None, c) \<Rightarrow> (None, c))
      in if e_mem_read env = None then (None, set_fault FK_ProviderFailure (c_rip c) St_ProviderFailure ''x87 read'' c)
         else if i_op_size i = 4 then load 4 (\<lambda>b. fp_convert h F32 F64 (le_value b))
         else if i_op_size i = 8 then load 8 le_value
         else if i_op_size i = 10 then load 10 (x87_decode h)
         else (None, set_fault FK_InvalidOpcode (c_rip c) St_InvalidInstruction ''x87 size'' c))"

text \<open>A store whose status only decides the result: a failing one latches no fault.\<close>

definition x87_put :: "string \<Rightarrow> 'm env \<Rightarrow> GuestAddr \<Rightarrow> u8 list \<Rightarrow> 'm cpu \<Rightarrow> bool \<times> 'm cpu" where
  "x87_put note env addr v c =
     (case e_mem_write env of
        None \<Rightarrow> (False, set_fault FK_ProviderFailure (c_rip c) St_ProviderFailure note c)
      | Some p \<Rightarrow> (case prov_write p addr v (c_mem c) of (s, m) \<Rightarrow> (\<not> fail s, c\<lparr>c_mem := m\<rparr>)))"

definition x87_bad_size :: "string \<Rightarrow> string \<Rightarrow> 'm env \<Rightarrow> 'm cpu \<Rightarrow> 'm cpu" where
  "x87_bad_size note size_note env c =
     (if e_mem_write env = None then set_fault FK_ProviderFailure (c_rip c) St_ProviderFailure note c
      else set_fault FK_InvalidOpcode (c_rip c) St_InvalidInstruction size_note c)"

definition write_mem_f :: "host_fp \<Rightarrow> 'm env \<Rightarrow> insn \<Rightarrow> f64_bits \<Rightarrow> 'm cpu \<Rightarrow> bool \<times> 'm cpu" where
  "write_mem_f h env i v c =
     (let put = (\<lambda>b. x87_put ''x87 write'' env (ea c i (i_src i)) b c)
      in if i_op_size i = 4 then put (le_bytes 4 (fp_convert h F64 F32 v))
         else if i_op_size i = 8 then put (le_bytes 8 v)
         else if i_op_size i = 10 then put (x87_encode v)
         else (False, x87_bad_size ''x87 write'' ''x87 size'' env c))"

definition read_mem_i :: "'m env \<Rightarrow> insn \<Rightarrow> 'm cpu \<Rightarrow> int option \<times> 'm cpu" where
  "read_mem_i env i c =
     (case vec_load ''fild'' env (ea c i (i_src i)) (unat (i_op_size i)) c of
        (None, c) \<Rightarrow> (None, c)
      | (Some b, c) \<Rightarrow>
          if i_op_size i \<in> {2, 4, 8} then (Some (signed_of (unat (i_op_size i)) (le_value b)), c)
          else (None, set_fault FK_InvalidOpcode (c_rip c) St_InvalidInstruction ''fild size'' c))"

definition write_mem_i :: "'m env \<Rightarrow> insn \<Rightarrow> int \<Rightarrow> 'm cpu \<Rightarrow> bool \<times> 'm cpu" where
  "write_mem_i env i v c =
     (if i_op_size i \<in> {2, 4, 8} then x87_put ''fistp'' env (ea c i (i_src i)) (le_bytes (unat (i_op_size i)) (word_of_int v)) c
      else (False, x87_bad_size ''fistp'' ''fistp size'' env c))"

text \<open>The condition codes C3, C2 and C0.\<close>

definition set_x87_cond :: "bool \<Rightarrow> bool \<Rightarrow> bool \<Rightarrow> 'm cpu \<Rightarrow> 'm cpu" where
  "set_x87_cond gt eq unordered c =
     (let sw = fpu_sw c AND NOT 0x4700;
          sw = (if unordered then sw OR 0x4500 else if eq then sw OR 0x4000 else if gt then sw else sw OR 0x100)
      in set_fpu_sw sw c)"

section \<open>Loads and stores\<close>

definition op_fld :: "host_fp \<Rightarrow> 'm env \<Rightarrow> insn \<Rightarrow> 'm cpu \<Rightarrow> 'm cpu" where
  "op_fld h env i c =
     (if is_mem (i_src i) then read_then (read_mem_f h env i c) fpu_push else fpu_push (st c (st_index_from i)) c)"

definition op_fild :: "'m env \<Rightarrow> insn \<Rightarrow> 'm cpu \<Rightarrow> 'm cpu" where
  "op_fild env i c = read_then (read_mem_i env i c) (\<lambda>v. fpu_push (int_to_fp F64 v))"

definition op_fst :: "host_fp \<Rightarrow> 'm env \<Rightarrow> insn \<Rightarrow> 'm cpu \<Rightarrow> 'm cpu" where
  "op_fst h env i c =
     (if is_mem (i_src i) then snd (write_mem_f h env i (st c 0) c) else set_st (st_index_from i) (st c 0) c)"

definition fpu_drop :: "'m cpu \<Rightarrow> 'm cpu" where
  "fpu_drop c = snd (fpu_pop c)"

definition op_fstp :: "host_fp \<Rightarrow> 'm env \<Rightarrow> insn \<Rightarrow> 'm cpu \<Rightarrow> 'm cpu" where
  "op_fstp h env i c =
     (if is_mem (i_src i) then ok_then (write_mem_f h env i (st c 0) c) fpu_drop
      else fpu_drop (set_st (st_index_from i) (st c 0) c))"

definition op_fistp :: "host_fp \<Rightarrow> 'm env \<Rightarrow> insn \<Rightarrow> 'm cpu \<Rightarrow> 'm cpu" where
  "op_fistp h env i c = ok_then (write_mem_i env i (fp_to_int h 64 F64 (st c 0)) c) fpu_drop"

section \<open>Arithmetic\<close>

definition x87_rhs :: "host_fp \<Rightarrow> 'm env \<Rightarrow> insn \<Rightarrow> 'm cpu \<Rightarrow> f64_bits option \<times> 'm cpu" where
  "x87_rhs h env i c = (if is_mem (i_src i) then read_mem_f h env i c else (Some (st c (st_index_from i)), c))"

definition fp_op_with :: "host_fp \<Rightarrow> (u64 \<Rightarrow> u64 \<Rightarrow> u64) \<Rightarrow> 'm env \<Rightarrow> insn \<Rightarrow> 'm cpu \<Rightarrow> 'm cpu" where
  "fp_op_with h f env i c = read_then (x87_rhs h env i c) (\<lambda>rhs c. set_st 0 (f (st c 0) rhs) c)"

definition fp_op_pop :: "(u64 \<Rightarrow> u64 \<Rightarrow> u64) \<Rightarrow> insn \<Rightarrow> 'm cpu \<Rightarrow> 'm cpu" where
  "fp_op_pop f i c = (let k = st_index_from i in fpu_drop (set_st k (f (st c k) (st c 0)) c))"

definition op_fadd :: "host_fp \<Rightarrow> 'm env \<Rightarrow> insn \<Rightarrow> 'm cpu \<Rightarrow> 'm cpu" where
  "op_fadd h env i c = fp_op_with h (fp_add h F64 To_Nearest) env i c"

definition op_fsub :: "host_fp \<Rightarrow> 'm env \<Rightarrow> insn \<Rightarrow> 'm cpu \<Rightarrow> 'm cpu" where
  "op_fsub h env i c = fp_op_with h (fp_sub h F64 To_Nearest) env i c"

definition op_fmul :: "host_fp \<Rightarrow> 'm env \<Rightarrow> insn \<Rightarrow> 'm cpu \<Rightarrow> 'm cpu" where
  "op_fmul h env i c = fp_op_with h (fp_mul h F64 To_Nearest) env i c"

definition op_fdiv :: "host_fp \<Rightarrow> 'm env \<Rightarrow> insn \<Rightarrow> 'm cpu \<Rightarrow> 'm cpu" where
  "op_fdiv h env i c = fp_op_with h (fp_div h F64 To_Nearest) env i c"

definition op_faddp :: "host_fp \<Rightarrow> insn \<Rightarrow> 'm cpu \<Rightarrow> 'm cpu" where
  "op_faddp h i c = fp_op_pop (fp_add h F64 To_Nearest) i c"

definition op_fsubp :: "host_fp \<Rightarrow> insn \<Rightarrow> 'm cpu \<Rightarrow> 'm cpu" where
  "op_fsubp h i c = fp_op_pop (fp_sub h F64 To_Nearest) i c"

definition op_fmulp :: "host_fp \<Rightarrow> insn \<Rightarrow> 'm cpu \<Rightarrow> 'm cpu" where
  "op_fmulp h i c = fp_op_pop (fp_mul h F64 To_Nearest) i c"

definition op_fdivp :: "host_fp \<Rightarrow> insn \<Rightarrow> 'm cpu \<Rightarrow> 'm cpu" where
  "op_fdivp h i c = fp_op_pop (fp_div h F64 To_Nearest) i c"

definition op_fchs :: "'m cpu \<Rightarrow> 'm cpu" where
  "op_fchs c = set_st 0 (fp_negate F64 (st c 0)) c"

definition op_fabs :: "'m cpu \<Rightarrow> 'm cpu" where
  "op_fabs c = set_st 0 (fp_abs F64 (st c 0)) c"

definition op_fsqrt :: "host_fp \<Rightarrow> 'm cpu \<Rightarrow> 'm cpu" where
  "op_fsqrt h c = set_st 0 (fp_sqrt h F64 To_Nearest (st c 0)) c"

definition op_fxch :: "insn \<Rightarrow> 'm cpu \<Rightarrow> 'm cpu" where
  "op_fxch i c = (let k = st_index_from i; tmp = st c 0; c = set_st 0 (st c k) c in set_st k tmp c)"

definition op_fcom :: "host_fp \<Rightarrow> 'm env \<Rightarrow> insn \<Rightarrow> 'm cpu \<Rightarrow> 'm cpu" where
  "op_fcom h env i c =
     read_then (x87_rhs h env i c) (\<lambda>rhs c.
       let a = st c 0; u = (fp_isnan F64 a \<or> fp_isnan F64 rhs)
       in set_x87_cond (\<not> u \<and> fp_lt F64 rhs a) (\<not> u \<and> fp_eq F64 a rhs) u c)"

definition op_fcomp :: "host_fp \<Rightarrow> 'm env \<Rightarrow> insn \<Rightarrow> 'm cpu \<Rightarrow> 'm cpu" where
  "op_fcomp h env i c = fpu_drop (op_fcom h env i c)"

definition op_fcompp :: "host_fp \<Rightarrow> 'm env \<Rightarrow> insn \<Rightarrow> 'm cpu \<Rightarrow> 'm cpu" where
  "op_fcompp h env i c = fpu_drop (fpu_drop (op_fcom h env i c))"

section \<open>Control\<close>

definition op_fninit :: "'m cpu \<Rightarrow> 'm cpu" where
  "op_fninit c = set_fpu_sw 0 (set_fpu_cw 0x037F (fold (\<lambda>k. set_st (of_nat k) 0) [0..<8] c))"

text \<open>A control or status word goes out without a look at the status of the write.\<close>

definition op_fnstsw :: "'m env \<Rightarrow> insn \<Rightarrow> 'm cpu \<Rightarrow> 'm cpu" where
  "op_fnstsw env i c =
     (if o_kind (i_dst i) = OK_Reg then set_r16 RAX (fpu_sw c) c
      else snd (x87_put ''fnstsw'' env (ea c i (i_dst i)) (le_bytes 2 (ucast (fpu_sw c))) c))"

definition op_fnstcw :: "'m env \<Rightarrow> insn \<Rightarrow> 'm cpu \<Rightarrow> 'm cpu" where
  "op_fnstcw env i c = snd (x87_put ''fnstcw'' env (ea c i (i_src i)) (le_bytes 2 (ucast (c_fpu_cw c))) c)"

definition op_fldcw :: "'m env \<Rightarrow> insn \<Rightarrow> 'm cpu \<Rightarrow> 'm cpu" where
  "op_fldcw env i c =
     (case e_mem_read env of
        None \<Rightarrow> set_fault FK_ProviderFailure (c_rip c) St_ProviderFailure ''fldcw'' c
      | Some p \<Rightarrow>
          (case prov_read p (ea c i (i_src i)) 2 (c_mem c) of
             (s, bs, m) \<Rightarrow>
               (let c = c\<lparr>c_mem := m\<rparr>
                in if fail s then set_fault FK_PageFault (c_rip c) s ''fldcw'' c
                   else set_fpu_cw (ucast (le_value (padded 2 bs))) c)))"

section \<open>Elementary functions (sse4\_aes.cpp)\<close>

definition op_fsin :: "host_fp \<Rightarrow> 'm cpu \<Rightarrow> 'm cpu" where
  "op_fsin h c = set_st 0 (hf_sin h (st c 0)) c"

definition op_fcos :: "host_fp \<Rightarrow> 'm cpu \<Rightarrow> 'm cpu" where
  "op_fcos h c = set_st 0 (hf_cos h (st c 0)) c"

definition op_fpatan :: "host_fp \<Rightarrow> 'm cpu \<Rightarrow> 'm cpu" where
  "op_fpatan h c = (let r = hf_atan2 h (st c 1) (st c 0) in set_st 0 r (fpu_drop c))"

definition op_fyl2x :: "host_fp \<Rightarrow> 'm cpu \<Rightarrow> 'm cpu" where
  "op_fyl2x h c = (let r = fp_mul h F64 To_Nearest (st c 1) (hf_log2 h (st c 0)) in set_st 0 r (fpu_drop c))"

definition op_f2xm1 :: "host_fp \<Rightarrow> 'm cpu \<Rightarrow> 'm cpu" where
  "op_f2xm1 h c = set_st 0 (fp_sub h F64 To_Nearest (hf_pow h 0x4000000000000000 (st c 0)) 0x3FF0000000000000) c"

definition op_fscale :: "host_fp \<Rightarrow> 'm cpu \<Rightarrow> 'm cpu" where
  "op_fscale h c = set_st 0 (fp_ldexp h (st c 0) (fp_to_int h 32 F64 (st c 1))) c"

definition op_frndint :: "host_fp \<Rightarrow> 'm cpu \<Rightarrow> 'm cpu" where
  "op_frndint h c = set_st 0 (fp_integral h F64 To_Nearest (st c 0)) c"

end
