(* ===== verification/Float80_Rounding.thy ===== *)
theory Float80_Rounding
  imports Float80
begin

text \<open>
  Why the significands the soft float rounds are the right ones: sticky shifts and the alignment of two operands keep a value
  on its side of every rounding boundary, normalising keeps it exactly, and \<open>round_to_nearest_even\<close> and \<open>pack_normal\<close> then give
  the nearest number.  The lemmas end with sums and differences of magnitudes.
\<close>

section \<open>Rounding\<close>

text \<open>\<open>N\<close> lies on the same side of every multiple of half a unit as \<open>T\<close>, so it rounds alike.\<close>

definition agrees :: "real \<Rightarrow> nat \<Rightarrow> bool" where
  "agrees t n \<longleftrightarrow> (\<forall>k::nat. (t < real k * 2 ^ 63 \<longleftrightarrow> n < k * 2 ^ 63) \<and> (t = real k * 2 ^ 63 \<longleftrightarrow> n = k * 2 ^ 63))"

lemma agrees_nearest:
  assumes "agrees t n" "0 \<le> t"
  shows "nearest_even (t / 2 ^ 64) =
    (let q = n div 2 ^ 64; d = n mod 2 ^ 64 in if d < 2 ^ 63 then q else if d > 2 ^ 63 then q + 1 else if even q then q else q + 1)"
proof -
  define q d where "q = n div 2 ^ 64" and "d = n mod 2 ^ 64"
  have n: "n = q * 2 ^ 64 + d" "d < 2 ^ 64" by (simp_all add: q_def d_def)
  have ag: "t < real k * 2 ^ 63 \<longleftrightarrow> n < k * 2 ^ 63" "t = real k * 2 ^ 63 \<longleftrightarrow> n = k * 2 ^ 63" for k
    using assms(1) by (auto simp: agrees_def)
  have lo: "real q * 2 ^ 64 \<le> t" using ag(1) [of "2 * q"] n by (simp add: not_less [symmetric] mult.commute)
  have hi: "t < (real q + 1) * 2 ^ 64" using ag(1) [of "2 * q + 2"] n by (simp add: algebra_simps)
  have fl: "nat \<lfloor>t / 2 ^ 64\<rfloor> = q"
  proof -
    have "real q \<le> t / 2 ^ 64" "t / 2 ^ 64 < real q + 1" using lo hi by (simp_all add: field_simps)
    then have "\<lfloor>t / 2 ^ 64\<rfloor> = int q" by (intro floor_unique) simp_all
    then show ?thesis by simp
  qed
  have half: "n < (2 * q + 1) * 2 ^ 63 \<longleftrightarrow> d < 2 ^ 63" "n = (2 * q + 1) * 2 ^ 63 \<longleftrightarrow> d = 2 ^ 63"
    unfolding n(1) by auto
  have mid: "(real q + 1 / 2) * 2 ^ 64 = real (2 * q + 1) * 2 ^ 63" by (simp add: algebra_simps)
  have "t / 2 ^ 64 - real q < 1 / 2 \<longleftrightarrow> t / 2 ^ 64 < real q + 1 / 2" "t / 2 ^ 64 - real q = 1 / 2 \<longleftrightarrow> t / 2 ^ 64 = real q + 1 / 2"
    by linarith+
  then have cmp: "t / 2 ^ 64 - real q < 1 / 2 \<longleftrightarrow> t < real (2 * q + 1) * 2 ^ 63"
    "t / 2 ^ 64 - real q = 1 / 2 \<longleftrightarrow> t = real (2 * q + 1) * 2 ^ 63"
    unfolding mid [symmetric] by (simp_all only: divide_less_eq divide_eq_eq) simp_all
  have below: "t / 2 ^ 64 - real q < 1 / 2 \<longleftrightarrow> d < 2 ^ 63" unfolding cmp ag half ..
  have at: "t / 2 ^ 64 - real q = 1 / 2 \<longleftrightarrow> d = 2 ^ 63" unfolding cmp ag half ..
  show ?thesis unfolding nearest_even_def fl q_def [symmetric] d_def [symmetric] Let_def using below at by auto
qed

lemma top_bit: "w AND TOP \<noteq> 0 \<longleftrightarrow> 2 ^ 63 \<le> unat (w :: u64)"
proof -
  have "w AND TOP \<noteq> 0 \<longleftrightarrow> bit w 63"
    using and_exp_eq_0_iff_not_bit [of w 63] by simp
  also have "\<dots> \<longleftrightarrow> bit (unat w) 63" by (simp add: bit_unsigned_iff)
  also have "\<dots> \<longleftrightarrow> odd (unat w div 2 ^ 63)" by (rule bit_iff_odd)
  also have "\<dots> \<longleftrightarrow> 2 ^ 63 \<le> unat w"
  proof -
    have "unat w < 2 ^ 64" using unsigned_less [of w, where ?'a = nat] by simp
    then have "unat w div 2 ^ 63 < 2" by (simp add: div_less_iff_less_mult)
    then have "unat w div 2 ^ 63 = 0 \<or> unat w div 2 ^ 63 = 1" by arith
    then show ?thesis by (auto simp: div_eq_0_iff)
  qed
  finally show ?thesis .
qed

lemma val128_less: "val128 v < 2 ^ 128"
proof -
  have "unat (u_hi v) \<le> 2 ^ 64 - 1" "unat (u_lo v) < 2 ^ 64"
    using unsigned_less [of "u_hi v", where ?'a = nat] unsigned_less [of "u_lo v", where ?'a = nat] by simp_all
  then show ?thesis unfolding val128_def by simp
qed

lemma val128_parts: "val128 v div 2 ^ 64 = unat (u_hi v)" "val128 v mod 2 ^ 64 = unat (u_lo v)"
proof -
  have "unat (u_lo v) < 2 ^ 64" using unsigned_less [of "u_lo v", where ?'a = nat] by simp
  then show "val128 v div 2 ^ 64 = unat (u_hi v)" "val128 v mod 2 ^ 64 = unat (u_lo v)" by (simp_all add: val128_def)
qed

text \<open>The rounding step on a normalized intermediate result.\<close>

lemma rounding_correct:
  assumes ag: "agrees t (val128 d)" and norm: "u_hi d AND TOP \<noteq> 0" and r: "round_to_nearest_even d e = (mant, e')"
  shows "rounds_to (t / 2 ^ 64 * 2 powi k) (unat mant) (e' - e + k)"
proof -
  let ?hi = "unat (u_hi d)" and ?lo = "unat (u_lo d)"
  have cmp: "t < real j * 2 ^ 63 \<longleftrightarrow> val128 d < j * 2 ^ 63" for j using ag by (simp add: agrees_def)
  have hi: "2 ^ 63 \<le> ?hi" "?hi < 2 ^ 64" using norm top_bit unsigned_less [of "u_hi d", where ?'a = nat] by simp_all
  then have "\<not> val128 d < 2 ^ 64 * 2 ^ 63" by (simp add: val128_def)
  then have lower: "2 ^ 127 \<le> t" using cmp [of "2 ^ 64"] by simp
  have upper: "t < 2 ^ 128" using cmp [of "2 ^ 65"] val128_less [of d] by simp
  have x: "t / 2 ^ 64 * 2 powi k / 2 powi k = t / 2 ^ 64" by simp
  have near: "nearest_even (t / 2 ^ 64) = (if ?lo < 2 ^ 63 then ?hi else if ?lo > 2 ^ 63 then ?hi + 1 else if even ?hi then ?hi else ?hi + 1)"
    using agrees_nearest [OF ag] lower unfolding val128_parts Let_def by simp
  have lo: "u_lo d < TOP \<longleftrightarrow> ?lo < 2 ^ 63" "u_lo d > TOP \<longleftrightarrow> ?lo > 2 ^ 63" by (simp_all add: word_less_nat_alt)
  have even: "u_hi d AND 1 = 0 \<longleftrightarrow> even ?hi"
  proof -
    have "unat (u_hi d AND 1) = ?hi AND 1" by (simp only: unsigned_and_eq unsigned_1)
    then have "unat (u_hi d AND 1) = ?hi mod 2" by (simp only: and_one_eq)
    then show ?thesis by (metis even_iff_mod_2_eq_zero unat_eq_0)
  qed
  have inc: "u_hi d + 1 = 0 \<longleftrightarrow> ?hi + 1 = 2 ^ 64" "?hi + 1 < 2 ^ 64 \<Longrightarrow> unat (u_hi d + 1) = ?hi + 1"
    using hi(2) by (simp_all add: unat_word_ariths word_unat_eq_iff mod_Suc)
  have rng: "2 ^ 63 * 2 powi k \<le> t / 2 ^ 64 * 2 powi k" "t / 2 ^ 64 * 2 powi k < 2 ^ 64 * 2 powi k"
    using lower upper by simp_all
  show ?thesis unfolding rounds_to_def
  proof (intro exI [of _ k] conjI rng)
    show "if nearest_even (t / 2 ^ 64 * 2 powi k / 2 powi k) = 2 ^ 64 then unat mant = 2 ^ 63 \<and> e' - e + k = k + 1
      else unat mant = nearest_even (t / 2 ^ 64 * 2 powi k / 2 powi k) \<and> e' - e + k = k"
      unfolding x near using r hi inc lo even
      by (auto simp: round_to_nearest_even_def Let_def split: if_splits)
  qed
qed

section \<open>Sticky shifts\<close>

text \<open>\<open>n\<close> is \<open>t\<close>, or the odd number next to it.\<close>

definition sticky :: "real \<Rightarrow> nat \<Rightarrow> bool" where
  "sticky t n \<longleftrightarrow> t = real n \<or> odd n \<and> real n - 1 < t \<and> t < real n + 1"

lemma sticky_even:
  assumes "sticky t n" "even c" shows "t < real c \<longleftrightarrow> n < c" "t = real c \<longleftrightarrow> n = c"
proof -
  have "t < real c \<and> n < c \<or> t = real c \<and> n = c \<or> t > real c \<and> n > c"
  proof (cases "t = real n")
    case False
    then have n: "odd n" "real n - 1 < t" "t < real n + 1" using assms(1) by (auto simp: sticky_def)
    then have "n \<noteq> c" using assms(2) by auto
    then consider "n + 1 \<le> c" | "c + 1 \<le> n" by linarith
    then show ?thesis
    proof cases
      case 1
      then have "real n + 1 \<le> real c" by linarith
      then show ?thesis using n 1 by linarith
    next
      case 2
      then have "real c + 1 \<le> real n" by linarith
      then show ?thesis using n 2 by linarith
    qed
  qed auto
  then show "t < real c \<longleftrightarrow> n < c" "t = real c \<longleftrightarrow> n = c" by auto
qed

lemma sticky_agrees:
  assumes "sticky t n" "k \<le> 62" shows "agrees (t * 2 ^ k) (n * 2 ^ k)"
  unfolding agrees_def
proof (intro allI)
  fix j :: nat
  let ?c = "j * 2 ^ (63 - k)"
  have c: "even ?c" using assms(2) by simp
  have "(2 :: nat) ^ 63 = 2 ^ (63 - k) * 2 ^ k" using assms(2) by (simp flip: power_add)
  then have j: "j * 2 ^ 63 = ?c * 2 ^ k" by simp
  then have r: "real j * 2 ^ 63 = real ?c * 2 ^ k" by (metis of_nat_mult of_nat_numeral of_nat_power)
  show "(t * 2 ^ k < real j * 2 ^ 63 \<longleftrightarrow> n * 2 ^ k < j * 2 ^ 63) \<and> (t * 2 ^ k = real j * 2 ^ 63 \<longleftrightarrow> n * 2 ^ k = j * 2 ^ 63)"
    unfolding r j using sticky_even [OF assms(1) c] by simp
qed

lemma agrees_exact: "agrees (real n) n"
proof -
  have r: "real k * 2 ^ 63 = real (k * 2 ^ 63)" for k by simp
  show ?thesis unfolding agrees_def r of_nat_less_iff of_nat_eq_iff by blast
qed

lemma bit_u64: "bit (w :: u64) k \<Longrightarrow> k < 64"
  using bit_imp_le_length [of w k] by simp

lemma bit_val128: "bit (val128 v) j \<longleftrightarrow> (if j < 64 then bit (u_lo v) j else bit (u_hi v) (j - 64))"
proof -
  have "val128 v = push_bit 64 (unat (u_hi v)) OR unat (u_lo v)"
    unfolding val128_def push_bit_eq_mult [symmetric]
    by (rule disjunctive_add) (auto simp: bit_push_bit_iff bit_unsigned_iff dest: bit_u64)
  then show ?thesis by (auto simp: bit_or_iff bit_push_bit_iff bit_unsigned_iff dest: bit_u64)
qed

lemma val128_eq_0: "val128 v = 0 \<longleftrightarrow> u_hi v = 0 \<and> u_lo v = 0"
  by (simp add: val128_def unat_eq_0)

lemma lost_bits: "w AND (push_bit n 1 - 1) \<noteq> 0 \<longleftrightarrow> (\<exists>j < n. bit (w :: u64) j)"
proof -
  have "w AND (push_bit n 1 - 1) = take_bit n w" by (simp add: take_bit_eq_mask mask_eq_exp_minus_1 push_bit_eq_mult)
  moreover have "take_bit n w \<noteq> 0 \<longleftrightarrow> (\<exists>j < n. bit w j)" by (auto simp: bit_eq_iff bit_simps dest: bit_u64)
  ultimately show ?thesis by simp
qed

lemma take_bit_nonzero: "take_bit n (v :: nat) \<noteq> 0 \<longleftrightarrow> (\<exists>j < n. bit v j)"
  by (auto simp: bit_eq_iff bit_simps)

lemma nonzero_bits: "w \<noteq> 0 \<longleftrightarrow> (\<exists>j. bit (w :: u64) j)"
  by (auto simp: bit_eq_iff dest: bit_u64)

lemma shr_value: "val128 (shr128_sticky v n) = drop_bit n (val128 v) OR of_bool (take_bit n (val128 v) \<noteq> 0)"
proof (rule bit_eqI)
  fix j
  consider "n = 0" | "128 \<le> n" | "64 \<le> n" "n < 128" | "0 < n" "n < 64" by linarith
  then show "bit (val128 (shr128_sticky v n)) j \<longleftrightarrow> bit (drop_bit n (val128 v) OR of_bool (take_bit n (val128 v) \<noteq> 0)) j"
  proof cases
    case 1
    then show ?thesis by (simp add: shr128_sticky_def)
  next
    case 2
    have "val128 v < 2 ^ n" using val128_less [of v] power_increasing [OF 2, of "2 :: nat"] by linarith
    then have "take_bit n (val128 v) = val128 v" "drop_bit n (val128 v) = 0"
      by (simp_all add: take_bit_nat_eq_self drop_bit_eq_div)
    then show ?thesis using 2 by (auto simp: shr128_sticky_def bit_val128 val128_eq_0 bit_Suc_0_iff bit_1_iff dest: bit_u64)
  next
    case 3
    let ?k = "n - 64"
    have lost: "take_bit n (val128 v) \<noteq> 0 \<longleftrightarrow> u_lo v \<noteq> 0 \<or> u_hi v AND (push_bit ?k 1 - 1) \<noteq> 0"
    proof
      assume "take_bit n (val128 v) \<noteq> 0"
      then obtain i where "i < n" "bit (val128 v) i" unfolding take_bit_nonzero by blast
      then have "bit (u_lo v) i \<or> (i - 64 < ?k \<and> bit (u_hi v) (i - 64))" using 3 by (auto simp: bit_val128 split: if_splits)
      then show "u_lo v \<noteq> 0 \<or> u_hi v AND (push_bit ?k 1 - 1) \<noteq> 0"
        using lost_bits [of "u_hi v" ?k] nonzero_bits [of "u_lo v"] by blast
    next
      assume "u_lo v \<noteq> 0 \<or> u_hi v AND (push_bit ?k 1 - 1) \<noteq> 0"
      then consider i where "bit (u_lo v) i" | i where "i < ?k" "bit (u_hi v) i"
        using lost_bits [of "u_hi v" ?k] nonzero_bits [of "u_lo v"] by blast
      then show "take_bit n (val128 v) \<noteq> 0"
      proof cases
        case (1 i)
        then have "bit (val128 v) i \<and> i < n" using 3 bit_u64 [of "u_lo v" i] by (simp add: bit_val128)
        then show ?thesis unfolding take_bit_nonzero by blast
      next
        case (2 i)
        then have "bit (val128 v) (i + 64) \<and> i + 64 < n" by (simp add: bit_val128)
        then show ?thesis unfolding take_bit_nonzero by blast
      qed
    qed
    have lo: "(if ?k = 0 then u_hi v else drop_bit ?k (u_hi v)) = drop_bit ?k (u_hi v)"
      "(if ?k = 0 then 0 else u_hi v AND (push_bit ?k 1 - 1)) = u_hi v AND (push_bit ?k 1 - 1)" by simp_all
    have shr: "shr128_sticky v n = \<lparr>u_hi = 0, u_lo = drop_bit ?k (u_hi v) OR (if take_bit n (val128 v) \<noteq> 0 then 1 else 0)\<rparr>"
      unfolding lost using 3 by (simp only: shr128_sticky_def Let_def lo) auto
    have "bit (drop_bit n (val128 v)) j \<longleftrightarrow> bit (u_hi v) (?k + j)" using 3 by (simp add: bit_drop_bit_eq bit_val128)
    then show ?thesis unfolding shr bit_or_iff using bit_u64 [of "u_hi v" "?k + j"]
      by - (cases "j < 64"; cases "take_bit n (val128 v) \<noteq> 0"; auto simp: bit_val128 bit_or_iff bit_drop_bit_eq bit_1_iff bit_Suc_0_iff)
  next
    case 4
    have lost: "(u_lo v AND (push_bit n 1 - 1) \<noteq> 0) \<longleftrightarrow> take_bit n (val128 v) \<noteq> 0"
    proof -
      have "bit (val128 v) i \<longleftrightarrow> bit (u_lo v) i" if "i < n" for i using that 4 by (simp add: bit_val128)
      then show ?thesis unfolding lost_bits take_bit_nonzero by blast
    qed
    show ?thesis using 4 unfolding lost [symmetric]
      by (auto simp: shr128_sticky_def Let_def bit_val128 bit_simps ac_simps dest: bit_u64)
  qed
qed

lemma sticky_shift:
  assumes "sticky t v" shows "sticky (t / 2 ^ n) (drop_bit n v OR of_bool (take_bit n v \<noteq> 0))"
proof (cases "n = 0")
  case n: False
  define d r where "d = v div 2 ^ n" and "r = v mod 2 ^ n"
  have nat: "v = d * 2 ^ n + r" "r < 2 ^ n" unfolding d_def r_def by (simp_all only: div_mult_mod_eq) simp
  have v: "real v = real d * 2 ^ n + real r" using arg_cong [OF nat(1), of real] by simp
  have "real (Suc r) \<le> real (2 ^ n)" using nat(2) by (simp only: of_nat_le_iff Suc_le_eq)
  then have r: "real r + 1 \<le> 2 ^ n" by simp
  have p: "(0 :: real) < 2 ^ n" by simp
  have lsb: "drop_bit n v OR of_bool (take_bit n v \<noteq> 0) = (if r = 0 then d else if even d then d + 1 else d)"
    by (auto simp: d_def r_def drop_bit_eq_div take_bit_eq_mod or_Suc_0_eq)
  have "r = 0 \<and> t = real v \<or> r \<noteq> 0 \<and> real d * 2 ^ n < t \<and> t < (real d + 1) * 2 ^ n"
  proof (cases "t = real v")
    case True
    then show ?thesis using v r nat(2) by (auto simp: algebra_simps)
  next
    case False
    then have o: "odd v" "real v - 1 < t" "t < real v + 1" using assms by (auto simp: sticky_def)
    then have "r \<noteq> 0" using nat(1) n by (auto intro!: gr0I)
    then have "1 \<le> real r" by linarith
    then have "real d * 2 ^ n < t" "t < real d * 2 ^ n + 2 ^ n" using o v r by linarith+
    then show ?thesis using \<open>r \<noteq> 0\<close> by (simp add: algebra_simps)
  qed
  then have "r = 0 \<and> t / 2 ^ n = real d \<or> r \<noteq> 0 \<and> real d < t / 2 ^ n \<and> t / 2 ^ n < real d + 1"
    using v by (auto simp: less_divide_eq divide_less_eq)
  then show ?thesis unfolding lsb by (auto simp: sticky_def)
qed (use assms in simp)

lemma shr_sticky: "sticky (real (val128 v) / 2 ^ n) (val128 (shr128_sticky v n))"
  unfolding shr_value by (rule sticky_shift) (simp add: sticky_def)

section \<open>Unpacking and alignment\<close>

lemma unat_shl1: "unat w < 2 ^ 63 \<Longrightarrow> unat (push_bit 1 (w :: u64)) = 2 * unat w"
  by (simp add: push_bit_eq_mult unat_word_ariths)

lemma unpack_loop_ok:
  "2 ^ 63 \<le> unat m * 2 ^ n \<Longrightarrow> unpack_loop n m e = (m', e') \<Longrightarrow>
   2 ^ 63 \<le> unat m' \<and> real (unat m') * 2 powi e' = real (unat m) * 2 powi e \<and> e' \<le> e"
proof (induction n arbitrary: m e)
  case (Suc n)
  show ?case
  proof (cases "m AND TOP = 0")
    case True
    then have less: "unat m < 2 ^ 63" using top_bit [of m] by simp
    have "real (2 * unat m) * 2 powi (e - 1) = real (unat m) * 2 powi e" by (simp add: power_int_diff)
    then show ?thesis
      using Suc.IH [of "push_bit 1 m" "e - 1"] Suc.prems True unfolding unat_shl1 [OF less] by simp
  next
    case False
    then show ?thesis using Suc.prems top_bit [of m] by simp
  qed
qed simp

lemma unpack_ok:
  assumes f: "f80_number f" and u: "unpack f = (m, e)"
  shows "2 ^ 63 \<le> unat m" "real (unat m) * 2 powi (e - 16446) = magnitude f"
proof -
  have sig: "0 < unat (fx_sig f)" using f by (simp add: f80_number_def unat_gt_0)
  have "2 ^ 63 \<le> unat m \<and> real (unat m) * 2 powi (e - 16446) = magnitude f"
  proof (cases "raw_exp f = 0")
    case True
    obtain m' e' where l: "unpack_loop 64 (fx_sig f) 0 = (m', e')" by fastforce
    have me: "m = m'" "e = e' + 1" using u True l f by (simp_all add: unpack_def f80_number_def)
    have "2 ^ 63 \<le> unat (fx_sig f) * 2 ^ 64" using sig by simp
    note ok = unpack_loop_ok [OF this l]
    have "real (unat m) * 2 powi (e - 16446) = real (unat m') * 2 powi e' * 2 powi (- 16445)"
      by (simp add: me power_int_add power_int_diff power_int_minus)
    also have "\<dots> = magnitude f" using ok True by (simp add: magnitude_def)
    finally show ?thesis using ok me by simp
  next
    case False
    have "0 \<le> uint (raw_exp f)" "uint (raw_exp f) \<noteq> 0" using False by (simp_all add: uint_0_iff)
    then have pos: "1 \<le> uint (raw_exp f)" by linarith
    then have "m = fx_sig f" "e = uint (raw_exp f)" using u by (auto simp: unpack_def Let_def split: if_splits)
    then show ?thesis using pos f False top_bit [of "fx_sig f"] by (simp add: magnitude_def f80_number_def)
  qed
  then show "2 ^ 63 \<le> unat m" "real (unat m) * 2 powi (e - 16446) = magnitude f" by auto
qed

lemma val128_hi: "val128 \<lparr>u_hi = m, u_lo = 0\<rparr> = unat m * 2 ^ 64"
  by (simp add: val128_def)

text \<open>The exact significands in units of the last bit of the low half.\<close>

definition scaled :: "u64 \<Rightarrow> int \<Rightarrow> int \<Rightarrow> real" where
  "scaled m me e = real (unat m) * 2 ^ 64 * 2 powi (me - e)"

lemma scaled_same: "scaled m e e = real (unat m * 2 ^ 64)"
  by (simp add: scaled_def)

lemma scaled_magnitude: "scaled m me e / 2 ^ 64 * 2 powi (e - 16446) = real (unat m) * 2 powi (me - 16446)"
  by (simp add: scaled_def power_int_diff)

lemma shr_scaled: "me < e \<Longrightarrow> sticky (scaled m me e) (val128 (shr128_sticky \<lparr>u_hi = m, u_lo = 0\<rparr> (nat (e - me))))"
proof -
  assume "me < e"
  then have neg: "me - e = - int (nat (e - me))" by simp
  have "2 powi (me - e) = inverse (2 ^ nat (e - me) :: real)" by (subst neg) (simp only: power_int_minus power_int_of_nat)
  then have "scaled m me e = real (unat m * 2 ^ 64) / 2 ^ nat (e - me)"
    by (simp only: scaled_def divide_inverse of_nat_mult of_nat_power of_nat_numeral)
  then have eq: "scaled m me e = real (val128 \<lparr>u_hi = m, u_lo = 0\<rparr>) / 2 ^ nat (e - me)" by (simp only: val128_hi)
  show ?thesis unfolding eq by (rule shr_sticky)
qed

lemma align_cases:
  assumes "align am ae bm be = (A, B, e)"
  obtains (left) "be \<le> ae" "e = ae" "A = \<lparr>u_hi = am, u_lo = 0\<rparr>" "sticky (scaled bm be e) (val128 B)"
      "B = shr128_sticky \<lparr>u_hi = bm, u_lo = 0\<rparr> (nat (ae - be))"
  | (right) "ae < be" "e = be" "B = \<lparr>u_hi = bm, u_lo = 0\<rparr>" "sticky (scaled am ae e) (val128 A)"
      "A = shr128_sticky \<lparr>u_hi = am, u_lo = 0\<rparr> (nat (be - ae))"
proof (cases "ae < be")
  case True
  then show ?thesis using assms shr_scaled [OF True] by (intro right) (auto simp: align_def Let_def)
next
  case False
  show ?thesis
  proof (cases "ae = be")
    case True
    then show ?thesis using assms
      by (intro left) (auto simp: align_def Let_def shr128_sticky_def scaled_same sticky_def val128_hi)
  next
    case ne: False
    then have "be < ae" using False by simp
    from shr_scaled [OF this] show ?thesis using assms \<open>be < ae\<close> by (intro left) (auto simp: align_def Let_def)
  qed
qed

section \<open>Addition of magnitudes\<close>

text \<open>\<open>f\<close> is \<open>x\<close>, which is positive, rounded and packed.\<close>

definition packs :: "real \<Rightarrow> bool \<Rightarrow> float80 \<Rightarrow> bool" where
  "packs x s f \<longleftrightarrow> (\<exists>m e. rounds_to x m e \<and> f = pack_normal s (of_nat m) (e + 16446))"

lemma packs_round:
  assumes "agrees t (val128 d)" "u_hi d AND TOP \<noteq> 0" "round_to_nearest_even d e = (mant, e')"
    and "x = t / 2 ^ 64 * 2 powi (e - 16446)"
  shows "packs x s (pack_normal s mant e')"
proof -
  have "e' - e + (e - 16446) = e' - 16446" by simp
  then have "rounds_to x (unat mant) (e' - 16446)" using rounding_correct [OF assms(1-3), of "e - 16446"] by (simp only: assms(4))
  then show ?thesis unfolding packs_def by (intro exI [of _ "unat mant"] exI [of _ "e' - 16446"]) simp
qed

lemma sticky_exact [intro]: "sticky (real n) n"
  by (simp add: sticky_def)

lemma sticky_add: "sticky t n \<Longrightarrow> even c \<Longrightarrow> sticky (t + real c) (n + c)"
  by (auto simp: sticky_def)

lemma sticky_diff: "sticky t n \<Longrightarrow> even c \<Longrightarrow> c \<le> n \<Longrightarrow> sticky (t - real c) (n - c)"
  by (auto simp: sticky_def of_nat_diff)

lemma sticky_rdiff: "sticky t n \<Longrightarrow> even c \<Longrightarrow> n \<le> c \<Longrightarrow> sticky (real c - t) (c - n)"
  by (auto simp: sticky_def of_nat_diff)

lemma unat64: "unat (w :: u64) < 2 ^ 64"
  using unsigned_less [of w, where ?'a = nat] by simp

lemma mod_carry: "x < n \<Longrightarrow> y < n \<Longrightarrow> (x + y) mod n < x \<longleftrightarrow> n \<le> x + y" for n :: nat
  by (cases "x + y < n") (auto simp: le_mod_geq)

lemma le_high_part: "l < m \<Longrightarrow> m * m \<le> h * m + l \<longleftrightarrow> m \<le> h" for l m h :: nat
  using less_eq_div_iff_mult_less_eq [of m m "h * m + l"] by simp

lemma mod_two_halves: "l < m \<Longrightarrow> (h * m + l) mod (m * m) = h mod m * m + l" for l m h :: nat
  by (simp add: mod_mult2_eq)

text \<open>One of the low halves is zero, so only the high halves can carry.\<close>

lemma add128_value:
  assumes "u_lo a = 0 \<or> u_lo b = 0"
  shows "u_hi (add128 a b) < u_hi a \<longleftrightarrow> 2 ^ 128 \<le> val128 a + val128 b"
    "val128 (add128 a b) = (val128 a + val128 b) mod 2 ^ 128"
proof -
  let ?h = "unat (u_hi a) + unat (u_hi b)" and ?l = "unat (u_lo a) + unat (u_lo b)"
  have l: "?l < 2 ^ 64" using assms unat64 by auto
  have lo: "unat (u_lo (add128 a b)) = ?l" using l by (simp add: add128_def Let_def unat_word_ariths)
  have hi: "u_hi (add128 a b) = u_hi a + u_hi b" using assms by (auto simp: add128_def Let_def)
  have uh: "unat (u_hi (add128 a b)) = ?h mod 2 ^ 64" by (simp add: hi unat_word_ariths)
  have s: "val128 a + val128 b = ?h * 2 ^ 64 + ?l" by (simp add: val128_def algebra_simps)
  have c: "u_hi (add128 a b) < u_hi a \<longleftrightarrow> 2 ^ 64 \<le> ?h"
    unfolding word_less_nat_alt uh by (rule mod_carry [OF unat64 unat64])
  show "u_hi (add128 a b) < u_hi a \<longleftrightarrow> 2 ^ 128 \<le> val128 a + val128 b"
    unfolding c s using le_high_part [OF l, of ?h] by simp
  have "(?h * 2 ^ 64 + ?l) mod (2 ^ 64 * 2 ^ 64) = ?h mod 2 ^ 64 * 2 ^ 64 + ?l"
    by (rule mod_two_halves [OF l])
  then show "val128 (add128 a b) = (val128 a + val128 b) mod 2 ^ 128"
    unfolding s unfolding val128_def uh lo by simp
qed

lemma or_top: "unat (w :: u64) < 2 ^ 63 \<Longrightarrow> unat (w OR TOP) = unat w + 2 ^ 63"
proof -
  assume w: "unat w < 2 ^ 63"
  then have "w AND TOP = 0" using top_bit [of w] by simp
  then have "w OR TOP = w + TOP" using word_plus_and_or [of w TOP] by simp
  then show ?thesis using w by (simp add: unat_word_ariths)
qed

text \<open>The sum shifted back by one place after a carry.\<close>

lemma carry_shift:
  assumes c: "2 ^ 128 \<le> n" "n < 2 ^ 129" and v: "val128 d = n mod 2 ^ 128"
    and s: "s = shr128_sticky d 1"
  shows "val128 (s\<lparr>u_hi := u_hi s OR TOP\<rparr>) = drop_bit 1 n OR of_bool (take_bit 1 n \<noteq> 0)" "(u_hi s OR TOP) AND TOP \<noteq> 0"
proof -
  have "n - 2 ^ 128 < 2 ^ 128" using c by simp
  then have n: "n = val128 d + 2 ^ 128" using c(1) v by (simp only: le_mod_geq mod_less)
  have bits: "drop_bit 1 n = drop_bit 1 (val128 d) + 2 ^ 127" "take_bit 1 n = take_bit 1 (val128 d)"
    unfolding n by (simp_all add: drop_bit_eq_div take_bit_eq_mod) presburger
  have sv: "val128 s = drop_bit 1 (val128 d) OR of_bool (take_bit 1 (val128 d) \<noteq> 0)" unfolding s by (rule shr_value)
  have or1: "(x :: nat) OR of_bool P = (if P \<and> even x then x + 1 else x)" for x P by (simp add: or_Suc_0_eq)
  have lt: "val128 s < 2 ^ 127"
  proof -
    have "drop_bit 1 (val128 d) < 2 ^ 127" using val128_less [of d] by (simp add: drop_bit_eq_div)
    then show ?thesis unfolding sv or1 by (auto elim!: evenE)
  qed
  then have "unat (u_hi s) * 2 ^ 64 < 2 ^ 63 * 2 ^ 64" by (simp add: val128_def)
  then have "unat (u_hi s) < 2 ^ 63" by simp
  note or = or_top [OF this]
  show "(u_hi s OR TOP) AND TOP \<noteq> 0" unfolding top_bit or by simp
  have "val128 (s\<lparr>u_hi := u_hi s OR TOP\<rparr>) = val128 s + 2 ^ 127" using or by (simp add: val128_def)
  also have "\<dots> = drop_bit 1 n OR of_bool (take_bit 1 n \<noteq> 0)" unfolding sv bits or1 by simp
  finally show "val128 (s\<lparr>u_hi := u_hi s OR TOP\<rparr>) = drop_bit 1 n OR of_bool (take_bit 1 n \<noteq> 0)" .
qed

lemma align_sum:
  assumes al: "align am ae bm be = (A, B, e)" and m: "2 ^ 63 \<le> unat am" "2 ^ 63 \<le> unat bm"
  shows "sticky (scaled am ae e + scaled bm be e) (val128 A + val128 B)" "u_lo A = 0 \<or> u_lo B = 0" "2 ^ 127 \<le> val128 A + val128 B"
proof -
  have "sticky (scaled am ae e + scaled bm be e) (val128 A + val128 B) \<and> (u_lo A = 0 \<or> u_lo B = 0) \<and> 2 ^ 127 \<le> val128 A + val128 B"
  using al
  proof (cases rule: align_cases)
    case left
    have "sticky (scaled bm be e + real (unat am * 2 ^ 64)) (val128 B + unat am * 2 ^ 64)" by (rule sticky_add [OF left(4)]) simp
    then show ?thesis using m left(2,3) scaled_same [of am ae] by (simp add: val128_hi add.commute)
  next
    case right
    have "sticky (scaled am ae e + real (unat bm * 2 ^ 64)) (val128 A + unat bm * 2 ^ 64)" by (rule sticky_add [OF right(4)]) simp
    then show ?thesis using m right(2,3) scaled_same [of bm be] by (simp add: val128_hi add.commute)
  qed
  then show "sticky (scaled am ae e + scaled bm be e) (val128 A + val128 B)" "u_lo A = 0 \<or> u_lo B = 0" "2 ^ 127 \<le> val128 A + val128 B"
    by blast+
qed

lemma add_magnitudes_ok:
  assumes a: "f80_number a" and b: "f80_number b"
  shows "packs (magnitude a + magnitude b) (is_sign_negative a) (add_magnitudes a b)"
proof -
  obtain am ae where ua: "unpack a = (am, ae)" by fastforce
  obtain bm be where ub: "unpack b = (bm, be)" by fastforce
  obtain A B e where al: "align am ae bm be = (A, B, e)" by (metis prod_cases3)
  note A = unpack_ok [OF a ua] and B = unpack_ok [OF b ub]
  note sum = align_sum [OF al A(1) B(1)]
  define t where "t = scaled am ae e + scaled bm be e"
  define n where "n = val128 A + val128 B"
  define d where "d = add128 A B"
  note dv = add128_value [OF sum(2), folded n_def d_def]
  have st: "sticky t n" "2 ^ 127 \<le> n" "n < 2 ^ 129" using sum(1,3) val128_less [of A] val128_less [of B] by (simp_all add: t_def n_def)
  have x: "magnitude a + magnitude b = t / 2 ^ 64 * 2 powi (e - 16446)"
    by (simp only: t_def add_divide_distrib distrib_right scaled_magnitude A(2) B(2))
  show ?thesis
  proof (cases "u_hi d < u_hi A")
    case True
    define s where "s = shr128_sticky d 1"
    have c: "2 ^ 128 \<le> n" using True dv(1) by simp
    note cs = carry_shift [OF c st(3) dv(2) s_def]
    have "sticky (t / 2 ^ 1) (drop_bit 1 n OR of_bool (take_bit 1 n \<noteq> 0))" by (rule sticky_shift [OF st(1)])
    then have ag: "agrees (t / 2) (val128 (s\<lparr>u_hi := u_hi s OR TOP\<rparr>))" unfolding cs(1) using sticky_agrees [where k = 0] by fastforce
    obtain mant e' where r: "round_to_nearest_even (s\<lparr>u_hi := u_hi s OR TOP\<rparr>) (e + 1) = (mant, e')" by fastforce
    have x': "magnitude a + magnitude b = t / 2 / 2 ^ 64 * 2 powi (e + 1 - 16446)" by (simp add: x power_int_diff power_int_add)
    have "packs (magnitude a + magnitude b) (is_sign_negative a) (pack_normal (is_sign_negative a) mant e')"
      by (rule packs_round [OF ag _ r x']) (simp add: cs(2))
    then show ?thesis using True r by (simp del: One_nat_def add: add_magnitudes_def ua ub al Let_def d_def [symmetric] s_def [symmetric])
  next
    case False
    then have v: "val128 d = n" using dv by simp
    have ag: "agrees t (val128 d)" unfolding v using sticky_agrees [OF st(1), of 0] by simp
    have "\<not> unat (u_hi d) < 2 ^ 63"
      using st(2) unat64 [of "u_lo d"] unfolding v [symmetric] val128_def by auto
    then have top: "u_hi d AND TOP \<noteq> 0" unfolding top_bit by simp
    obtain mant e' where r: "round_to_nearest_even d e = (mant, e')" by fastforce
    have "packs (magnitude a + magnitude b) (is_sign_negative a) (pack_normal (is_sign_negative a) mant e')"
      by (rule packs_round [OF ag top r x])
    then show ?thesis using False r by (simp add: add_magnitudes_def ua ub al Let_def d_def [symmetric])
  qed
qed

section \<open>Subtraction of magnitudes\<close>

lemma val128_cong: "val128 a = val128 b \<longleftrightarrow> a = b"
proof
  assume "val128 a = val128 b"
  then have "unat (u_hi a) = unat (u_hi b)" "unat (u_lo a) = unat (u_lo b)" by (simp_all flip: val128_parts)
  then show "a = b" by (cases a; cases b) (simp add: word_unat_eq_iff)
qed simp

lemma less_two_halves: "l < m \<Longrightarrow> l' < m \<Longrightarrow> h * m + l < h' * m + l' \<longleftrightarrow> h < h' \<or> h = h' \<and> l < l'" for l m h :: nat
proof -
  assume l: "l < m" "l' < m"
  have "h * m + l < h' * m + l'" if "h < h'"
  proof -
    have "Suc h * m \<le> h' * m" using that by (intro mult_le_mono1) simp
    then show ?thesis using l by simp
  qed
  moreover have "h' * m + l' < h * m + l" if "h' < h"
  proof -
    have "Suc h' * m \<le> h * m" using that by (intro mult_le_mono1) simp
    then show ?thesis using l by simp
  qed
  ultimately show ?thesis by (cases h h' rule: linorder_cases) (auto dest: less_asym)
qed

lemma cmp128_value: "cmp128 a b \<ge> 0 \<longleftrightarrow> val128 b \<le> val128 a"
proof -
  have "val128 a < val128 b \<longleftrightarrow> u_hi a < u_hi b \<or> u_hi a = u_hi b \<and> u_lo a < u_lo b"
    unfolding val128_def word_less_nat_alt word_unat_eq_iff by (rule less_two_halves [OF unat64 unat64])
  then show ?thesis by (auto simp: cmp128_def not_less [symmetric])
qed

lemma sub128_value:
  assumes "val128 b \<le> val128 a" shows "val128 (sub128 a b) = val128 a - val128 b"
proof -
  let ?ah = "unat (u_hi a)" and ?al = "unat (u_lo a)" and ?bh = "unat (u_hi b)" and ?bl = "unat (u_lo b)"
  have le: "\<not> ?ah * 2 ^ 64 + ?al < ?bh * 2 ^ 64 + ?bl" using assms by (simp only: val128_def not_less)
  have rng: "?al < 2 ^ 64" "?bl < 2 ^ 64" "?ah < 2 ^ 64" "?bh < 2 ^ 64" by (rule unat64)+
  note h = le [unfolded less_two_halves [OF rng(1,2)]]
  show ?thesis
  proof (cases "u_lo a < u_lo b")
    case True
    then have l: "?al < ?bl" by (simp add: word_less_nat_alt)
    then have h: "?bh < ?ah" using h by auto
    have "unat (u_lo (sub128 a b)) = ?al + 2 ^ 64 - ?bl" using l by (simp add: sub128_def Let_def unat_sub_if')
    moreover have "unat (u_hi a - u_hi b - 1) = ?ah - ?bh - 1" using h by (simp only: unat_sub_if') simp
    then have "unat (u_hi (sub128 a b)) = ?ah - ?bh - 1" using True by (simp add: sub128_def Let_def)
    ultimately have "unat (u_lo (sub128 a b)) = ?al + 2 ^ 64 - ?bl" "unat (u_hi (sub128 a b)) = ?ah - ?bh - 1" by blast+
    then show ?thesis using l h rng unfolding val128_def by (simp add: diff_mult_distrib)
  next
    case False
    then have l: "?bl \<le> ?al" by (simp add: word_less_nat_alt)
    then have h: "?bh \<le> ?ah" using h by auto
    have "unat (u_lo (sub128 a b)) = ?al - ?bl" "unat (u_hi (sub128 a b)) = ?ah - ?bh"
      using False l h by (simp_all add: sub128_def Let_def unat_sub word_le_nat_alt)
    then show ?thesis using l h unfolding val128_def by (simp add: diff_mult_distrib)
  qed
qed

text \<open>One place to the left, and the loop that normalizes.\<close>

definition shl128 :: "u128 \<Rightarrow> u128" where
  "shl128 d = \<lparr>u_hi = push_bit 1 (u_hi d) OR drop_bit 63 (u_lo d), u_lo = push_bit 1 (u_lo d)\<rparr>"

lemma shl128_value:
  assumes "u_hi d AND TOP = 0" shows "val128 (shl128 d) = 2 * val128 d"
proof -
  have n: "\<not> bit (u_hi d) 63" using assms and_exp_eq_0_iff_not_bit [of "u_hi d" 63] by simp
  have w: "bit (push_bit 1 w) i \<longleftrightarrow> 1 \<le> i \<and> i < 64 \<and> bit w (i - 1)" for w :: u64 and i by (auto simp only: bit_push_bit_iff dest: bit_u64) simp_all
  have v: "bit (push_bit 1 x) i \<longleftrightarrow> 1 \<le> i \<and> bit x (i - 1)" for x i :: nat by (simp only: bit_push_bit_iff) simp
  have "bit (val128 (shl128 d)) j \<longleftrightarrow> bit (push_bit 1 (val128 d)) j" for j
  proof -
    have "j = 0 \<or> j = 64 \<or> 0 < j \<and> j < 64 \<or> 64 < j \<and> j < 128 \<or> j = 128 \<or> 128 < j" by linarith
    then show ?thesis using n
      unfolding shl128_def bit_val128 u128.select_convs bit_or_iff w v bit_drop_bit_eq
      by (elim disjE) (auto simp del: push_bit_numeral dest: bit_u64)
  qed
  then have "val128 (shl128 d) = push_bit 1 (val128 d)" by (rule bit_eqI)
  then show ?thesis by simp
qed

lemma shl_loop_ok:
  "2 ^ 127 \<le> val128 d * 2 ^ n \<Longrightarrow> shl_loop n d e = (d', e') \<Longrightarrow>
   \<exists>k. e' = e - int k \<and> val128 d' = val128 d * 2 ^ k \<and> u_hi d' AND TOP \<noteq> 0"
proof (induction n arbitrary: d e)
  case 0
  have "\<not> unat (u_hi d) < 2 ^ 63" using 0(1) unat64 [of "u_lo d"] unfolding val128_def by auto
  then show ?case using 0 unfolding top_bit by (intro exI [of _ 0]) simp
next
  case (Suc n)
  show ?case
  proof (cases "u_hi d AND TOP = 0")
    case True
    note v = shl128_value [OF True]
    have "2 ^ 127 \<le> val128 (shl128 d) * 2 ^ n" using Suc.prems(1) unfolding v by (simp add: ac_simps)
    moreover have "shl_loop n (shl128 d) (e - 1) = (d', e')" using Suc.prems(2) True by (simp add: shl128_def)
    ultimately obtain k where k: "e' = e - 1 - int k" "val128 d' = val128 (shl128 d) * 2 ^ k" "u_hi d' AND TOP \<noteq> 0"
      using Suc.IH by blast
    then show ?thesis unfolding v by (intro exI [of _ "Suc k"]) simp
  next
    case False
    then show ?thesis using Suc.prems by (intro exI [of _ 0]) simp
  qed
qed

text \<open>What the alignment lost is either nothing or so small that the difference stays large.\<close>

lemma shr_exact:
  assumes "n \<le> 64" shows "real (val128 (shr128_sticky \<lparr>u_hi = m, u_lo = 0\<rparr> n)) = real (unat m * 2 ^ 64) / 2 ^ n"
proof -
  have p: "(2 :: nat) ^ 64 = 2 ^ n * 2 ^ (64 - n)" using assms by (simp flip: power_add)
  have v: "val128 \<lparr>u_hi = m, u_lo = 0\<rparr> = 2 ^ n * (unat m * 2 ^ (64 - n))" unfolding val128_hi p by simp
  have "val128 (shr128_sticky \<lparr>u_hi = m, u_lo = 0\<rparr> n) = unat m * 2 ^ (64 - n)"
    unfolding shr_value v by (simp add: drop_bit_eq_div take_bit_eq_mod)
  then show ?thesis unfolding p by simp
qed

lemma shr_small:
  assumes "64 < n" shows "val128 (shr128_sticky \<lparr>u_hi = m, u_lo = 0\<rparr> n) \<le> 2 ^ 64"
proof -
  have "unat m * 2 ^ 64 div 2 ^ n \<le> unat m * 2 ^ 64 div 2 ^ 64" using assms by (intro div_le_mono2 power_increasing) simp_all
  then have "unat m * 2 ^ 64 div 2 ^ n < 2 ^ 64" using unat64 [of m] by simp
  then have "unat m * 2 ^ 64 div 2 ^ n + 1 \<le> 2 ^ 64" by simp
  moreover have "x OR of_bool P \<le> x + 1" for x :: nat and P by (simp add: or_Suc_0_eq)
  ultimately show ?thesis unfolding shr_value val128_hi drop_bit_eq_div by (rule order_trans [rotated])
qed

definition distance :: "nat \<Rightarrow> nat \<Rightarrow> nat" where
  "distance a b = (if b \<le> a then a - b else b - a)"

lemma distance_agrees:
  assumes st: "sticky t n" and c: "even c" "2 ^ 127 \<le> c" and small: "t = real n \<or> n \<le> 2 ^ 64"
    and k: "distance c n * 2 ^ k < 2 ^ 128"
  shows "agrees (\<bar>real c - t\<bar> * 2 ^ k) (distance c n * 2 ^ k)"
proof (cases "t = real n")
  case True
  then have "\<bar>real c - t\<bar> * 2 ^ k = real (distance c n * 2 ^ k)" by (simp add: distance_def of_nat_diff)
  then show ?thesis by (simp only: agrees_exact)
next
  case False
  then have "n \<le> 2 ^ 64" using small by blast
  then have "2 ^ 126 \<le> distance c n" using c(2) by (simp add: distance_def)
  then have "2 ^ 126 * 2 ^ k \<le> distance c n * 2 ^ k" by (rule mult_le_mono1)
  then have "(2 :: nat) ^ (126 + k) < 2 ^ 128" using k unfolding power_add by (rule le_less_trans)
  then have "126 + k < 128" by (rule power_less_imp_less_exp [rotated]) simp
  then have "k \<le> 62" by simp
  moreover have "sticky \<bar>real c - t\<bar> (distance c n)"
    using sticky_even [OF st c(1)] sticky_diff [OF st c(1)] sticky_rdiff [OF st c(1)]
    by (cases "n \<le> c") (auto simp: distance_def abs_if not_less le_less)
  ultimately show ?thesis by (intro sticky_agrees)
qed

lemma align_difference:
  assumes al: "align am ae bm be = (A, B, e)" and m: "2 ^ 63 \<le> unat am" "2 ^ 63 \<le> unat bm"
  defines "t \<equiv> scaled am ae e - scaled bm be e"
  shows "0 < t \<longleftrightarrow> val128 B < val128 A" "t = 0 \<longleftrightarrow> A = B"
    "distance (val128 A) (val128 B) * 2 ^ k < 2 ^ 128 \<Longrightarrow> agrees (\<bar>t\<bar> * 2 ^ k) (distance (val128 A) (val128 B) * 2 ^ k)"
proof -
  have aligned: "scaled am' ae' e = real (val128 S) \<or> val128 S \<le> 2 ^ 64"
    if "S = shr128_sticky \<lparr>u_hi = am', u_lo = 0\<rparr> (nat (e - ae'))" "ae' \<le> e" for S am' ae'
  proof (cases "nat (e - ae') \<le> 64")
    case True
    have neg: "ae' - e = - int (nat (e - ae'))" using that(2) by simp
    have "2 powi (ae' - e) = inverse (2 ^ nat (e - ae') :: real)" by (subst neg) (simp only: power_int_minus power_int_of_nat)
    then have "scaled am' ae' e = real (unat am' * 2 ^ 64) / 2 ^ nat (e - ae')"
      by (simp only: scaled_def divide_inverse of_nat_mult of_nat_power of_nat_numeral)
    then show ?thesis using shr_exact [OF True, of am'] that(1) by simp
  qed (use that(1) shr_small in simp)
  have dc: "distance x y = distance y x" for x y by (simp add: distance_def)
  have "(0 < t \<longleftrightarrow> val128 B < val128 A) \<and> (t = 0 \<longleftrightarrow> val128 A = val128 B) \<and>
    (distance (val128 A) (val128 B) * 2 ^ k < 2 ^ 128 \<longrightarrow> agrees (\<bar>t\<bar> * 2 ^ k) (distance (val128 A) (val128 B) * 2 ^ k))"
    using al
  proof (cases rule: align_cases)
    case left
    let ?c = "unat am * 2 ^ 64"
    have c: "even ?c" "2 ^ 127 \<le> ?c" using m by simp_all
    have t: "t = real ?c - scaled bm be e" "val128 A = ?c" unfolding t_def left(2,3) val128_hi by (simp_all only: scaled_same)
    have sm: "scaled bm be e = real (val128 B) \<or> val128 B \<le> 2 ^ 64" using left(1,2,5) by (intro aligned) simp_all
    have "0 < t \<longleftrightarrow> scaled bm be e < real ?c" "t = 0 \<longleftrightarrow> scaled bm be e = real ?c" unfolding t by auto
    then have "0 < t \<longleftrightarrow> val128 B < val128 A" "t = 0 \<longleftrightarrow> val128 A = val128 B"
      unfolding t(2) sticky_even [OF left(4) c(1)] eq_commute [of ?c] by blast+
    then show ?thesis using distance_agrees [OF left(4) c sm] unfolding t by blast
  next
    case right
    let ?c = "unat bm * 2 ^ 64"
    have c: "even ?c" "2 ^ 127 \<le> ?c" using m by simp_all
    have t: "t = scaled am ae e - real ?c" "val128 B = ?c" unfolding t_def right(2,3) val128_hi by (simp_all only: scaled_same)
    have sm: "scaled am ae e = real (val128 A) \<or> val128 A \<le> 2 ^ 64" using right(1,2,5) by (intro aligned) simp_all
    have "0 < t \<longleftrightarrow> \<not> (scaled am ae e < real ?c \<or> scaled am ae e = real ?c)" "t = 0 \<longleftrightarrow> scaled am ae e = real ?c" unfolding t by auto
    then have "0 < t \<longleftrightarrow> val128 B < val128 A" "t = 0 \<longleftrightarrow> val128 A = val128 B"
      unfolding t(2) sticky_even [OF right(4) c(1)] by linarith+
    then show ?thesis using distance_agrees [OF right(4) c sm]
      unfolding t abs_minus_commute [of "scaled am ae e"] dc [of _ ?c] by blast
  qed
  then show "0 < t \<longleftrightarrow> val128 B < val128 A" "t = 0 \<longleftrightarrow> A = B"
    "distance (val128 A) (val128 B) * 2 ^ k < 2 ^ 128 \<Longrightarrow> agrees (\<bar>t\<bar> * 2 ^ k) (distance (val128 A) (val128 B) * 2 ^ k)"
    unfolding val128_cong by blast+
qed

lemma sub_magnitudes_ok:
  assumes a: "f80_number a" and b: "f80_number b"
  shows "if magnitude a = magnitude b then sub_magnitudes a b = f80_zero False
    else packs \<bar>magnitude a - magnitude b\<bar> (if magnitude b < magnitude a then is_sign_negative a else \<not> is_sign_negative a) (sub_magnitudes a b)"
proof -
  obtain am ae where ua: "unpack a = (am, ae)" by fastforce
  obtain bm be where ub: "unpack b = (bm, be)" by fastforce
  obtain A B e where al: "align am ae bm be = (A, B, e)" by (metis prod_cases3)
  note A = unpack_ok [OF a ua] and B = unpack_ok [OF b ub]
  define t where "t = scaled am ae e - scaled bm be e"
  note diff = align_difference [OF al A(1) B(1), folded t_def]
  have x: "magnitude a - magnitude b = t / 2 ^ 64 * 2 powi (e - 16446)"
    by (simp only: t_def diff_divide_distrib left_diff_distrib scaled_magnitude A(2) B(2))
  have p: "(0 :: real) < 2 powi (e - 16446)" by simp
  have sgn: "magnitude b < magnitude a \<longleftrightarrow> 0 < t" "magnitude a = magnitude b \<longleftrightarrow> t = 0"
  proof -
    have "magnitude b < magnitude a \<longleftrightarrow> 0 < t / 2 ^ 64 * 2 powi (e - 16446)" "magnitude a = magnitude b \<longleftrightarrow> t / 2 ^ 64 * 2 powi (e - 16446) = 0"
      unfolding x [symmetric] by simp_all
    then show "magnitude b < magnitude a \<longleftrightarrow> 0 < t" "magnitude a = magnitude b \<longleftrightarrow> t = 0" using p by (simp_all add: zero_less_mult_iff zero_less_divide_iff)
  qed
  define d s where "d = (if cmp128 A B \<ge> 0 then sub128 A B else sub128 B A)"
    and "s = (if cmp128 A B \<ge> 0 then is_sign_negative a else \<not> is_sign_negative a)"
  have dv: "val128 d = distance (val128 A) (val128 B)" using sub128_value by (auto simp: d_def distance_def cmp128_value)
  have zero: "u_hi d = 0 \<and> u_lo d = 0 \<longleftrightarrow> A = B"
    unfolding val128_eq_0 [symmetric] dv val128_cong [symmetric] by (simp add: distance_def)
  have def: "sub_magnitudes a b = (if u_hi d = 0 \<and> u_lo d = 0 then f80_zero False
      else (case shl_loop 128 d e of (d', e') \<Rightarrow> case round_to_nearest_even d' e' of (mant, e'') \<Rightarrow> pack_normal s mant e''))"
    by (simp add: sub_magnitudes_def ua ub al Let_def d_def s_def)
  show ?thesis
  proof (cases "A = B")
    case True
    then show ?thesis using sgn(2) diff(2) zero unfolding def by simp
  next
    case False
    obtain d' e' where l: "shl_loop 128 d e = (d', e')" by fastforce
    have "1 \<le> val128 d" using False zero val128_eq_0 [of d] by linarith
    then have "2 ^ 127 \<le> val128 d * 2 ^ 128" by simp
    from shl_loop_ok [OF this l] obtain k
      where k: "e' = e - int k" "val128 d' = val128 d * 2 ^ k" "u_hi d' AND TOP \<noteq> 0" by blast
    have ag: "agrees (\<bar>t\<bar> * 2 ^ k) (val128 d')"
      using diff(3) val128_less [of d'] unfolding k(2) dv by simp
    obtain mant e'' where r: "round_to_nearest_even d' e' = (mant, e'')" by fastforce
    have "\<bar>magnitude a - magnitude b\<bar> = \<bar>t\<bar> * 2 ^ k / 2 ^ 64 * 2 powi (e' - 16446)"
    proof -
      have eq: "e - 16446 = int k + (e' - 16446)" using k(1) by simp
      have "2 powi (e - 16446) = 2 ^ k * (2 powi (e' - 16446) :: real)" by (subst eq, subst power_int_add) simp_all
      then show ?thesis unfolding x abs_mult by simp
    qed
    from packs_round [OF ag k(3) r this]
    have "packs \<bar>magnitude a - magnitude b\<bar> s (pack_normal s mant e'')" .
    moreover have "s = (if magnitude b < magnitude a then is_sign_negative a else \<not> is_sign_negative a)"
      using False diff(1) sgn(1) val128_cong [of A B] unfolding s_def cmp128_value by auto
    moreover have "magnitude a \<noteq> magnitude b" using False diff(2) sgn(2) by simp
    moreover have "\<not> (u_hi d = 0 \<and> u_lo d = 0)" using False zero by simp
    ultimately show ?thesis unfolding def by (simp only: l r if_False case_prod_conv)
  qed
qed

end
