(* ===== verification/Float80_Arith.thy ===== *)
theory Float80_Arith
  imports Float80_Rounding
begin

text \<open>The four arithmetic operations of the soft float return the correctly rounded result.\<close>

section \<open>Multiplication\<close>

lemma mul64x64_value: "val128 (mul64x64 a b) = unat a * unat b"
proof -
  define p :: "128 word" where "p = ucast a * ucast b"
  have "unat a * unat b < 2 ^ 64 * 2 ^ 64" by (rule mult_strict_mono) (use unat64 in auto)
  then have less: "unat a * unat b < 2 ^ LENGTH(128)" by simp
  have up: "unat (ucast w :: 128 word) = unat w" for w :: u64
    using unat64 [of w] by (simp add: unsigned_ucast_eq take_bit_nat_eq_self)
  have p: "unat p = unat a * unat b" using less by (simp only: p_def unat_word_ariths up mod_less)
  then have less: "unat p < 2 ^ 64 * 2 ^ 64" using less by simp
  have "unat (u_lo (mul64x64 a b)) = unat p mod 2 ^ 64"
    by (simp add: mul64x64_def Let_def p_def [symmetric] unsigned_ucast_eq take_bit_eq_mod)
  moreover have "unat (u_hi (mul64x64 a b)) = unat p div 2 ^ 64"
    using less_mult_imp_div_less [OF less]
    by (simp add: mul64x64_def Let_def p_def [symmetric] unsigned_ucast_eq take_bit_eq_mod unsigned_drop_bit_eq drop_bit_eq_div unat_div_distrib)
  ultimately show ?thesis unfolding val128_def p [symmetric] by simp
qed

lemma number_classes:
  assumes "f80_number f" shows "\<not> is_nan f" "\<not> is_inf f" "\<not> is_zero f" "0 < magnitude f"
proof -
  have "0 < real (unat (fx_sig f))" using assms by (simp only: of_nat_0_less_iff unat_gt_0 f80_number_def not_False_eq_True)
  then show "0 < magnitude f" unfolding magnitude_def by (rule mult_pos_pos) simp
qed (use assms in \<open>auto simp: f80_number_def is_nan_def is_inf_def is_zero_def\<close>)

lemma scale64: "v * 2 powi (k - 64) = v / 2 ^ 64 * 2 powi k" for v :: real
  by (simp add: power_int_diff)

lemma scale63: "v * 2 powi (k - 63) = 2 * v / 2 ^ 64 * 2 powi k" for v :: real
  by (simp add: power_int_diff)

lemma bit_push1: "bit (push_bit 1 w) j \<longleftrightarrow> 1 \<le> j \<and> j < 64 \<and> bit (w :: u64) (j - 1)"
  by (auto simp only: bit_push_bit_iff dest: bit_u64) simp_all

lemma f80_mul_ok:
  assumes a: "f80_number a" and b: "f80_number b"
  shows "packs (magnitude a * magnitude b) (is_sign_negative a \<noteq> is_sign_negative b) (f80_mul a b)"
proof -
  obtain am ae where ua: "unpack a = (am, ae)" by fastforce
  obtain bm be where ub: "unpack b = (bm, be)" by fastforce
  note A = unpack_ok [OF a ua] and B = unpack_ok [OF b ub]
  define p where "p = mul64x64 am bm"
  define s where "s = (is_sign_negative a \<noteq> is_sign_negative b)"
  define e where "e = ae + be - 0x3FFF"
  have pv: "val128 p = unat am * unat bm" unfolding p_def by (rule mul64x64_value)
  have x: "magnitude a * magnitude b = real (val128 p) * 2 powi (ae + be - 32892)"
  proof -
    have eq: "ae + be - 32892 = (ae - 16446) + (be - 16446)" by simp
    have "2 powi (ae + be - 32892) = 2 powi (ae - 16446) * (2 powi (be - 16446) :: real)" by (subst eq, subst power_int_add) simp_all
    then show ?thesis unfolding pv A(2) [symmetric] B(2) [symmetric] by simp
  qed
  have big: "2 ^ 126 \<le> val128 p"
  proof -
    have "(2 :: nat) ^ 63 * 2 ^ 63 \<le> unat am * unat bm" using A(1) B(1) by (rule mult_le_mono)
    then show ?thesis unfolding pv by simp
  qed
  have def: "f80_mul a b =
    (case (if u_hi p AND TOP \<noteq> 0 then (p, e + 1) else (shl128 p, e)) of (p, e) \<Rightarrow>
      case round_to_nearest_even p e of (mant, e) \<Rightarrow> pack_normal s mant e)"
    using number_classes [OF a] number_classes [OF b]
    by (simp add: f80_mul_def ua ub Let_def p_def s_def e_def shl128_def)
  show ?thesis
  proof (cases "u_hi p AND TOP = 0")
    case False
    obtain mant e' where r: "round_to_nearest_even p (e + 1) = (mant, e')" by fastforce
    have "magnitude a * magnitude b = real (val128 p) / 2 ^ 64 * 2 powi (e + 1 - 16446)"
      unfolding x scale64 [symmetric] by (simp add: e_def algebra_simps)
    from packs_round [OF agrees_exact False r this]
    show ?thesis using False r unfolding def s_def by simp
  next
    case True
    note v = shl128_value [OF True]
    have "\<not> unat (u_hi (shl128 p)) < 2 ^ 63"
      using big v unat64 [of "u_lo (shl128 p)"] unfolding val128_def [of "shl128 p"] by auto
    then have top: "u_hi (shl128 p) AND TOP \<noteq> 0" unfolding top_bit by simp
    obtain mant e' where r: "round_to_nearest_even (shl128 p) e = (mant, e')" by fastforce
    have "magnitude a * magnitude b = real (val128 (shl128 p)) / 2 ^ 64 * 2 powi (e - 16446)"
      unfolding x v of_nat_mult of_nat_numeral scale63 [symmetric] by (simp add: e_def algebra_simps)
    from packs_round [OF agrees_exact top r this]
    show ?thesis using True r unfolding def s_def by simp
  qed
qed

section \<open>Division\<close>

lemma unat_of_nat64: "n < 2 ^ 64 \<Longrightarrow> unat (of_nat n :: u64) = n"
  by (simp add: unat_of_nat)

text \<open>One step of long division on numbers.\<close>

lemma twice_plus_bit:
  assumes "rem < den" "b < 2"
  shows "rem AND TOP \<noteq> 0 \<or> den \<le> push_bit 1 rem OR b \<longleftrightarrow> unat den \<le> 2 * unat rem + unat b"
    "unat den \<le> 2 * unat rem + unat b \<Longrightarrow> unat ((push_bit 1 rem OR b) - den) = 2 * unat rem + unat b - unat den"
    "\<not> unat den \<le> 2 * unat rem + unat b \<Longrightarrow> unat (push_bit 1 rem OR b) = 2 * unat rem + unat (b :: u64)"
proof -
  let ?n = "2 * unat rem + unat b"
  have b: "unat b < 2" using assms(2) by (simp add: word_less_nat_alt)
  have d: "unat rem < unat den" using assms(1) by (simp add: word_less_nat_alt)
  have o: "push_bit 1 rem OR b = 2 * rem + b"
  proof -
    have "bit b i \<Longrightarrow> i = 0" for i
    proof -
      assume i: "bit b i"
      have "b = 0 \<or> b = 1" using b by (auto simp: less_2_cases_iff word_unat_eq_iff)
      then show "i = 0" using i by (auto simp: bit_1_iff)
    qed
    then have "\<not> (bit (push_bit 1 rem) i \<and> bit b i)" for i unfolding bit_push1 by fastforce
    then have "push_bit 1 rem AND b = 0" by (intro bit_eqI) (simp only: bit_and_iff bit_0_eq bot_apply bot_bool_def)
    then show ?thesis using word_plus_and_or [of "push_bit 1 rem" b] by (simp add: push_bit_eq_mult ac_simps)
  qed
  have w: "push_bit 1 rem OR b = of_nat ?n" unfolding o by simp
  have n: "?n < 2 ^ 65" using b unat64 [of rem] by simp
  have den: "unat den < 2 ^ 64" by (rule unat64)
  have small: "unat (push_bit 1 rem OR b) = ?n" if "?n < 2 ^ 64" unfolding w by (rule unat_of_nat64 [OF that])
  have top: "rem AND TOP \<noteq> 0 \<longleftrightarrow> 2 ^ 64 \<le> ?n" unfolding top_bit using b by auto
  show "rem AND TOP \<noteq> 0 \<or> den \<le> push_bit 1 rem OR b \<longleftrightarrow> unat den \<le> ?n"
    unfolding top word_le_nat_alt using den by (cases "?n < 2 ^ 64") (simp_all only: small, auto)
  show "unat ((push_bit 1 rem OR b) - den) = ?n - unat den" if "unat den \<le> ?n"
  proof -
    have "(push_bit 1 rem OR b) - den = of_nat (?n - unat den)" unfolding w using that by (simp add: of_nat_diff)
    moreover have "?n - unat den < 2 ^ 64" using d b den by simp
    ultimately show ?thesis using unat_of_nat64 by simp
  qed
  show "unat (push_bit 1 rem OR b) = ?n" if "\<not> unat den \<le> ?n" using that small den by simp
qed

lemma num_bit: "(if 64 \<le> i then drop_bit (i - 64) (u_hi v) else drop_bit i (u_lo v)) AND 1 = of_bool (bit (val128 v) i)"
proof -
  have "drop_bit k w AND 1 = of_bool (bit w k)" for w :: u64 and k by (simp add: and_one_eq mod_2_eq_odd bit_iff_odd_drop_bit)
  then show ?thesis by (cases "64 \<le> i") (simp_all only: bit_val128 if_True if_False not_le not_less [symmetric] HOL.simp_thms)
qed

lemma div_bit_step:
  fixes rem den q :: u64 and num :: u128 and i :: nat
  assumes "rem < den"
  defines "n \<equiv> 2 * unat rem + of_bool (bit (val128 num) i)"
  obtains rem' where "div_bit num den i (q, rem) = (if unat den \<le> n \<and> i < 64 then q OR push_bit i 1 else q, rem')"
    "unat rem' = (if unat den \<le> n then n - unat den else n)" "rem' < den"
proof -
  define b :: u64 where "b = of_bool (bit (val128 num) i)"
  have b: "b < 2" "unat b = of_bool (bit (val128 num) i)" by (simp_all add: b_def)
  note step = twice_plus_bit [OF assms(1) b(1), unfolded b(2), folded n_def]
  define rem' where "rem' = (if unat den \<le> n then (push_bit 1 rem OR b) - den else push_bit 1 rem OR b)"
  have r: "unat rem' = (if unat den \<le> n then n - unat den else n)" using step(2,3) by (simp add: rem'_def)
  have "n < 2 * unat den" using assms(1) by (simp add: n_def word_less_nat_alt)
  then have "rem' < den" unfolding word_less_nat_alt r by auto
  moreover have "div_bit num den i (q, rem) = (if unat den \<le> n \<and> i < 64 then q OR push_bit i 1 else q, rem')"
    unfolding div_bit_def case_prod_conv Let_def num_bit b_def [symmetric] step(1) rem'_def by simp
  ultimately show ?thesis using r that by blast
qed

lemma div_loop_ok:
  "rem < den \<Longrightarrow> \<forall>j < k. \<not> bit q j \<Longrightarrow> fold (div_bit num den) (rev [0..<k]) (q, rem) = (q', rem') \<Longrightarrow>
   q' = q + of_nat ((unat rem * 2 ^ k + take_bit k (val128 num)) div unat den) \<and>
   unat rem' = (unat rem * 2 ^ k + take_bit k (val128 num)) mod unat den"
proof (induction k arbitrary: q rem)
  case 0
  then show ?case by (auto simp: word_less_nat_alt)
next
  case (Suc k)
  let ?d = "unat den"
  define n where "n = 2 * unat rem + of_bool (bit (val128 num) k)"
  define c :: nat where "c = of_bool (?d \<le> n)"
  from div_bit_step [OF Suc.prems(1), of num k q, folded n_def] obtain r1
    where s: "div_bit num den k (q, rem) = (if ?d \<le> n \<and> k < 64 then q OR push_bit k 1 else q, r1)"
      "unat r1 = (if ?d \<le> n then n - ?d else n)" "r1 < den" .
  define q1 where "q1 = (if ?d \<le> n \<and> k < 64 then q OR push_bit k 1 else q)"
  have q1: "q1 = q + of_nat (c * 2 ^ k)"
  proof (cases "k < 64")
    case True
    have "\<not> (bit q i \<and> bit (push_bit k 1 :: u64) i)" for i using Suc.prems(2) by (auto simp: bit_exp_iff)
    then have "q AND push_bit k 1 = 0" by (intro bit_eqI) (simp only: bit_and_iff bit_0_eq bot_apply bot_bool_def)
    then have "q OR push_bit k 1 = q + push_bit k 1" using word_plus_and_or [of q "push_bit k 1"] by simp
    then show ?thesis by (simp add: q1_def c_def push_bit_eq_mult True)
  next
    case False
    then have "(2 :: u64) ^ k = 0" by (intro exp_eq_zero_iff [THEN iffD2]) simp
    then show ?thesis using False by (simp add: q1_def c_def)
  qed
  have clear: "\<forall>j < k. \<not> bit q1 j" using Suc.prems(2) by (auto simp: q1_def bit_or_iff bit_exp_iff)
  have rest: "fold (div_bit num den) (rev [0..<k]) (q1, r1) = (q', rem')" using Suc.prems(3) s(1) by (simp add: q1_def)
  let ?m = "unat r1 * 2 ^ k + take_bit k (val128 num)"
  have n: "n = c * ?d + unat r1" using s(2) by (simp add: c_def)
  have "take_bit (Suc k) (val128 num) = of_bool (bit (val128 num) k) * 2 ^ k + take_bit k (val128 num)"
    by (simp add: take_bit_Suc_from_most)
  then have m: "unat rem * 2 ^ Suc k + take_bit (Suc k) (val128 num) = n * 2 ^ k + take_bit k (val128 num)"
    by (simp add: n_def algebra_simps)
  also have "\<dots> = c * 2 ^ k * ?d + ?m" unfolding n by (simp add: algebra_simps)
  finally have m: "unat rem * 2 ^ Suc k + take_bit (Suc k) (val128 num) = c * 2 ^ k * ?d + ?m" .
  have d: "0 < ?d" using Suc.prems(1) by (simp add: word_less_nat_alt)
  have "(c * 2 ^ k * ?d + ?m) div ?d = c * 2 ^ k + ?m div ?d" "(c * 2 ^ k * ?d + ?m) mod ?d = ?m mod ?d"
    using d by (simp_all add: add.commute)
  then show ?case using Suc.IH [OF s(3) clear rest] unfolding m q1 by simp
qed

lemma div128_ok:
  assumes "0 < den" "div128_by_64 num den = (q, rem)" "val128 num div unat den < 2 ^ 64"
  shows "unat q = val128 num div unat den" "unat rem = val128 num mod unat den"
proof -
  have "take_bit 128 (val128 num) = val128 num" using val128_less by (rule take_bit_nat_eq_self)
  then have "q = of_nat (val128 num div unat den) \<and> unat rem = val128 num mod unat den"
    using div_loop_ok [of 0 den 128 0 num q rem] assms(1,2) by (simp add: div128_by_64_def)
  then show "unat q = val128 num div unat den" "unat rem = val128 num mod unat den" using unat_of_nat64 [OF assms(3)] by simp_all
qed

lemma next_quotient_bit_ok:
  assumes "rem < den" "next_quotient_bit rem den = (b, r)"
  shows "2 * unat rem = of_bool b * unat den + unat r" "unat r < unat den"
proof -
  note s = twice_plus_bit [OF assms(1), of 0]
  have "(b, r) = (if rem AND TOP \<noteq> 0 \<or> den \<le> push_bit 1 rem then (True, push_bit 1 rem - den) else (False, push_bit 1 rem))"
    using assms(2) unfolding next_quotient_bit_def Let_def minus_eq_not_plus_1 [symmetric]
    by (cases "rem AND TOP = 0"; cases "den \<le> push_bit 1 rem") simp_all
  then have "b = (unat den \<le> 2 * unat rem) \<and> unat r = (if unat den \<le> 2 * unat rem then 2 * unat rem - unat den else 2 * unat rem)"
    using s by (auto split: if_splits)
  then show "2 * unat rem = of_bool b * unat den + unat r" "unat r < unat den"
    using assms(1) by (auto simp: word_less_nat_alt split: if_splits)
qed

lemma agrees_fraction:
  assumes "0 \<le> f" "f < 2 ^ 63" "s = of_bool (f \<noteq> 0)"
  shows "agrees (real m * 2 ^ 63 + f) (m * 2 ^ 63 + s)"
  unfolding agrees_def
proof (intro allI)
  fix j :: nat
  consider "j \<le> m" | "Suc m \<le> j" by linarith
  then show "(real m * 2 ^ 63 + f < real j * 2 ^ 63 \<longleftrightarrow> m * 2 ^ 63 + s < j * 2 ^ 63) \<and>
    (real m * 2 ^ 63 + f = real j * 2 ^ 63 \<longleftrightarrow> m * 2 ^ 63 + s = j * 2 ^ 63)"
  proof cases
    case 1
    then have "real j * 2 ^ 63 \<le> real m * 2 ^ 63" "j * 2 ^ 63 \<le> m * 2 ^ 63" by simp_all
    then show ?thesis using assms(1,3) 1 by (cases "j = m") auto
  next
    case 2
    then have "real (Suc m) \<le> real j" by (simp only: of_nat_le_iff)
    then have "real (Suc m) * 2 ^ 63 \<le> real j * 2 ^ 63" by simp
    moreover have "Suc m * 2 ^ 63 \<le> j * 2 ^ 63" using 2 by (rule mult_le_mono1)
    ultimately show ?thesis using assms by auto
  qed
qed

lemma quotient_ok:
  assumes b: "0 < bm" and N: "2 ^ 63 * unat bm \<le> val128 num" "val128 num < 2 ^ 64 * unat bm"
    and q: "div128_by_64 num bm = (q, rem)" and nq: "next_quotient_bit rem bm = (rb, ra)"
  defines "d \<equiv> \<lparr>u_hi = q, u_lo = (if rb then TOP else 0) OR (if ra \<noteq> 0 then 1 else 0)\<rparr>"
  shows "agrees (real (val128 num) * 2 ^ 64 / real (unat bm)) (val128 d)" "u_hi d AND TOP \<noteq> 0"
proof -
  let ?b = "unat bm"
  have b: "0 < ?b" "0 < bm" using b by (simp_all add: word_less_nat_alt)
  have Q: "val128 num div ?b < 2 ^ 64" using N(2) by (rule less_mult_imp_div_less)
  note D = div128_ok [OF b(2) q Q]
  have "rem < bm" unfolding word_less_nat_alt D(2) using b(1) by simp
  note R = next_quotient_bit_ok [OF this nq]
  have "val128 num = unat q * ?b + unat rem" unfolding D by simp
  then have n: "real (val128 num) = real (unat q) * real ?b + real (unat rem)" by (metis of_nat_add of_nat_mult)
  have "2 * real (unat rem) = of_bool rb * real ?b + real (unat ra)" using arg_cong [OF R(1), of real] by simp
  then have rem: "real (unat rem) = (of_bool rb * real ?b + real (unat ra)) / 2" by simp
  define f where "f = real (unat ra) * 2 ^ 63 / real ?b"
  define s :: nat where "s = of_bool (f \<noteq> 0)"
  have "0 \<le> x * 2 ^ 63 / y \<and> x * 2 ^ 63 / y < 2 ^ 63" if "0 \<le> x" "x < y" for x y :: real
    using that by (simp add: divide_less_eq)
  moreover have "0 \<le> real (unat ra)" "real (unat ra) < real ?b" using R(2) by (simp_all only: of_nat_0_le_iff of_nat_less_iff)
  ultimately have f: "0 \<le> f" "f < 2 ^ 63" unfolding f_def by blast+
  have eq: "y \<noteq> 0 \<Longrightarrow> (x * y + (c * y + z) / 2) * 2 ^ 64 / y = (2 * x + c) * 2 ^ 63 + z * 2 ^ 63 / y" for x y z c :: real
    by (simp add: field_simps)
  have t: "real (val128 num) * 2 ^ 64 / real ?b = real (2 * unat q + of_bool rb) * 2 ^ 63 + f"
    unfolding n rem f_def using eq [of "real ?b" "real (unat q)" "of_bool rb" "real (unat ra)"] b(1)
    by (simp only: of_nat_add of_nat_mult of_nat_numeral of_nat_of_bool)
  have nz: "real ?b \<noteq> 0" using b(1) by (simp only: of_nat_eq_0_iff)
  have "f \<noteq> 0 \<longleftrightarrow> real (unat ra) \<noteq> 0" unfolding f_def using nz by (simp only: divide_eq_0_iff mult_eq_0_iff power_eq_0_iff) simp
  then have "f \<noteq> 0 \<longleftrightarrow> ra \<noteq> 0" by (simp only: of_nat_eq_0_iff unat_eq_0)
  then have "val128 d = (2 * unat q + of_bool rb) * 2 ^ 63 + s"
    by (cases rb; cases "ra = 0") (simp_all add: d_def val128_def s_def)
  then show "agrees (real (val128 num) * 2 ^ 64 / real ?b) (val128 d)" unfolding t by (simp only: agrees_fraction [OF f s_def])
  have "2 ^ 63 \<le> val128 num div ?b" using N(1) b(1) by (simp add: less_eq_div_iff_mult_less_eq)
  then show "u_hi d AND TOP \<noteq> 0" unfolding top_bit D(1) [symmetric] by (simp add: d_def)
qed

lemma half_value: "val128 \<lparr>u_hi = drop_bit 1 m, u_lo = push_bit 63 (m AND 1)\<rparr> = unat m * 2 ^ 63"
proof -
  have "unat (m AND 1) = unat m AND 1" by (simp only: unsigned_and_eq unsigned_1)
  also have "\<dots> = unat m mod 2" by (rule and_one_eq)
  finally have low: "unat (m AND 1) = unat m mod 2" .
  then have "unat (push_bit 63 (m AND 1)) = unat (m AND 1) * 2 ^ 63"
    by (simp add: push_bit_eq_mult unat_word_ariths)
  moreover have "unat (drop_bit 1 m) = unat m div 2" by (simp add: unsigned_drop_bit_eq drop_bit_eq_div unat_div_distrib)
  ultimately have "val128 \<lparr>u_hi = drop_bit 1 m, u_lo = push_bit 63 (m AND 1)\<rparr> = unat m div 2 * 2 ^ 64 + unat m mod 2 * 2 ^ 63"
    unfolding low by (simp only: val128_def u128.select_convs)
  also have "\<dots> = (unat m div 2 * 2 + unat m mod 2) * 2 ^ 63" by (simp only: distrib_right) simp
  finally show ?thesis by (simp only: div_mult_mod_eq)
qed

lemma f80_div_ok:
  assumes a: "f80_number a" and b: "f80_number b"
  shows "packs (magnitude a / magnitude b) (is_sign_negative a \<noteq> is_sign_negative b) (f80_div a b)"
proof -
  obtain am ae where ua: "unpack a = (am, ae)" by fastforce
  obtain bm be where ub: "unpack b = (bm, be)" by fastforce
  note A = unpack_ok [OF a ua] and B = unpack_ok [OF b ub]
  define s where "s = (is_sign_negative a \<noteq> is_sign_negative b)"
  define num e where "num = (if am < bm then \<lparr>u_hi = am, u_lo = 0\<rparr> else \<lparr>u_hi = drop_bit 1 am, u_lo = push_bit 63 (am AND 1)\<rparr>)"
    and "e = (if am < bm then ae - be + 0x3FFF - 1 else ae - be + 0x3FFF)"
  obtain q rem where q: "div128_by_64 num bm = (q, rem)" by fastforce
  obtain rb ra where nq: "next_quotient_bit rem bm = (rb, ra)" by fastforce
  define d where "d = \<lparr>u_hi = q, u_lo = (if rb then TOP else 0) OR (if ra \<noteq> 0 then 1 else 0)\<rparr>"
  obtain mant e' where r: "round_to_nearest_even d e = (mant, e')" by fastforce
  have bm: "0 < bm" using B(1) by (simp add: word_less_nat_alt)
  have num: "val128 num = (if am < bm then unat am * 2 ^ 64 else unat am * 2 ^ 63)"
    by (cases "am < bm") (simp_all only: num_def half_value val128_hi if_True if_False)
  have x: "magnitude a / magnitude b = real (unat am) / real (unat bm) * 2 powi (ae - be)"
  proof -
    have eq: "ae - be = (ae - 16446) - (be - 16446)" by simp
    have "2 powi (ae - be) = 2 powi (ae - 16446) / (2 powi (be - 16446) :: real)" by (subst eq, subst power_int_diff) simp_all
    then show ?thesis unfolding A(2) [symmetric] B(2) [symmetric] by simp
  qed
  have rng: "2 ^ 63 * unat bm \<le> val128 num" "val128 num < 2 ^ 64 * unat bm"
    using A(1) B(1) unat64 [of am] unat64 [of bm] unfolding num word_less_nat_alt by auto
  note Q = quotient_ok [OF bm rng q nq, folded d_def]
  have "magnitude a / magnitude b = real (val128 num) * 2 ^ 64 / real (unat bm) / 2 ^ 64 * 2 powi (e - 16446)"
    unfolding x using scale64 [of "real (unat am) * 2 ^ 64 / real (unat bm)" "ae - be"] scale63 [of "real (unat am) * 2 ^ 63 / real (unat bm)" "ae - be"]
    by (cases "am < bm") (simp_all add: num e_def eq_commute [of "2 powi (ae - be)"])
  note P = packs_round [OF Q r this, of s]
  have "f80_div a b = (case (num, e) of (num, e) \<Rightarrow>
      (let (q, rem) = div128_by_64 num bm; (round_bit, rem_after) = next_quotient_bit rem bm;
           r = \<lparr>u_hi = q, u_lo = (if round_bit then TOP else 0) OR (if rem_after \<noteq> 0 then 1 else 0)\<rparr>;
           (mant, e) = round_to_nearest_even r e
       in pack_normal s mant e))"
    using number_classes [OF a] number_classes [OF b] by (simp add: f80_div_def ua ub num_def e_def s_def)
  also have "\<dots> = pack_normal s mant e'" by (simp only: case_prod_conv Let_def q nq d_def [symmetric] r)
  finally show ?thesis using P unfolding s_def by simp
qed

text \<open>Arithmetic on numbers: the exact result, rounded to nearest even; too small becomes zero and too large infinite.\<close>

lemma packs_correct:
  assumes "packs \<bar>x\<bar> s f" "x \<noteq> 0" "s \<longleftrightarrow> x < 0" shows "correct_result x f"
  using assms by (auto simp: packs_def correct_result_def)

lemma number_flip [simp]: "f80_number (flip_sign f) = f80_number f" "magnitude (flip_sign f) = magnitude f"
proof -
  have "raw_exp (flip_sign f) = raw_exp f"
    unfolding raw_exp_def flip_sign_def by (simp add: bit.conj_xor_distrib2)
  moreover have "fx_sig (flip_sign f) = fx_sig f" by (simp add: flip_sign_def)
  ultimately show "f80_number (flip_sign f) = f80_number f" "magnitude (flip_sign f) = magnitude f"
    by (simp_all add: f80_number_def magnitude_def)
qed

lemma value_flip [simp]: "f80_value (flip_sign f) = - f80_value f"
  by (simp add: f80_value_def)

lemma f80_mul_correct:
  assumes "f80_number a" "f80_number b" shows "correct_result (f80_value a * f80_value b) (f80_mul a b)"
proof (rule packs_correct)
  note p = number_classes(4) [OF assms(1)] number_classes(4) [OF assms(2)]
  then show "packs \<bar>f80_value a * f80_value b\<bar> (is_sign_negative a \<noteq> is_sign_negative b) (f80_mul a b)"
    using f80_mul_ok [OF assms] by (cases "is_sign_negative a"; cases "is_sign_negative b") (simp_all add: f80_value_def abs_mult)
  show "f80_value a * f80_value b \<noteq> 0" "(is_sign_negative a \<noteq> is_sign_negative b) \<longleftrightarrow> f80_value a * f80_value b < 0"
    using p mult_pos_pos [OF p, THEN less_not_sym] by (auto simp: f80_value_def)
qed

lemma f80_div_correct:
  assumes "f80_number a" "f80_number b" shows "correct_result (f80_value a / f80_value b) (f80_div a b)"
proof (rule packs_correct)
  note p = number_classes(4) [OF assms(1)] number_classes(4) [OF assms(2)]
  then show "packs \<bar>f80_value a / f80_value b\<bar> (is_sign_negative a \<noteq> is_sign_negative b) (f80_div a b)"
    using f80_div_ok [OF assms] by (cases "is_sign_negative a"; cases "is_sign_negative b") (simp_all add: f80_value_def)
  show "f80_value a / f80_value b \<noteq> 0" "(is_sign_negative a \<noteq> is_sign_negative b) \<longleftrightarrow> f80_value a / f80_value b < 0"
    using p divide_pos_pos [OF p, THEN less_not_sym] by (auto simp: f80_value_def)
qed

lemma add_magnitudes_correct:
  assumes "f80_number a" "f80_number b" "is_sign_negative a = is_sign_negative b"
  shows "correct_result (f80_value a + f80_value b) (add_magnitudes a b)"
proof (rule packs_correct)
  note p = number_classes(4) [OF assms(1)] number_classes(4) [OF assms(2)]
  then have "\<bar>f80_value a + f80_value b\<bar> = magnitude a + magnitude b"
    using assms(3) by (cases "is_sign_negative b") (simp_all add: f80_value_def)
  then show "packs \<bar>f80_value a + f80_value b\<bar> (is_sign_negative a) (add_magnitudes a b)"
    using add_magnitudes_ok [OF assms(1,2)] by (simp only:)
  show "f80_value a + f80_value b \<noteq> 0" "is_sign_negative a \<longleftrightarrow> f80_value a + f80_value b < 0"
    using p assms(3) by (auto simp: f80_value_def)
qed

lemma sub_magnitudes_correct:
  assumes "f80_number a" "f80_number b" "is_sign_negative a = is_sign_negative b"
  shows "correct_result (f80_value a - f80_value b) (sub_magnitudes a b)"
proof (cases "magnitude a = magnitude b")
  case True
  then show ?thesis using sub_magnitudes_ok [OF assms(1,2)] assms(3) by (simp add: f80_value_def correct_result_def)
next
  case False
  show ?thesis
  proof (rule packs_correct)
    show "packs \<bar>f80_value a - f80_value b\<bar>
        (if magnitude b < magnitude a then is_sign_negative a else \<not> is_sign_negative a) (sub_magnitudes a b)"
      using sub_magnitudes_ok [OF assms(1,2)] False assms(3) abs_minus_commute [of "magnitude b" "magnitude a"]
      by (cases "is_sign_negative b") (simp_all only: f80_value_def if_True if_False minus_diff_minus abs_minus_cancel)
    show "f80_value a - f80_value b \<noteq> 0"
      "(if magnitude b < magnitude a then is_sign_negative a else \<not> is_sign_negative a) \<longleftrightarrow> f80_value a - f80_value b < 0"
      using False assms(3) by (auto simp: f80_value_def)
  qed
qed

text \<open>C25: on two finite operands that are not zero (subnormal ones included), \<^verbatim>\<open>f80_add\<close>, \<^verbatim>\<open>f80_sub\<close>, \<^verbatim>\<open>f80_mul\<close> and \<^verbatim>\<open>f80_div\<close> return
  the exact sum, difference, product and quotient rounded to 64 significant bits, to nearest and halfway cases to even, with the
  right sign; the only departures from IEEE arithmetic are those of the packing step, which has no subnormal results.\<close>

theorem f80_arith_rounds:
  assumes "f80_number a" "f80_number b"
  shows "correct_result (f80_value a + f80_value b) (f80_add a b) \<and> correct_result (f80_value a - f80_value b) (f80_sub a b) \<and>
    correct_result (f80_value a * f80_value b) (f80_mul a b) \<and> correct_result (f80_value a / f80_value b) (f80_div a b)"
proof (intro conjI f80_mul_correct f80_div_correct assms)
  note c = number_classes [OF assms(1)] number_classes [OF assms(2)]
  have cf: "f80_number (flip_sign b)" using assms(2) by simp
  note cf' = number_classes [OF cf]
  show "correct_result (f80_value a + f80_value b) (f80_add a b)"
    using add_magnitudes_correct [OF assms] sub_magnitudes_correct [OF assms(1) cf] c cf'
    by (subst f80_add.simps) (simp add: f80_sub.simps)
  show "correct_result (f80_value a - f80_value b) (f80_sub a b)"
    using sub_magnitudes_correct [OF assms] add_magnitudes_correct [OF assms(1) cf] c cf'
    by (subst f80_sub.simps) (simp add: f80_add.simps)
qed

theorem f80_arith_rounds_witness:
  "correct_result (f80_value \<lparr>fx_sig = 0xC000000000000000, fx_signexp = 0x3FFF\<rparr> / f80_value \<lparr>fx_sig = 0xA000000000000000, fx_signexp = 0xC000\<rparr>)
     (f80_div \<lparr>fx_sig = 0xC000000000000000, fx_signexp = 0x3FFF\<rparr> \<lparr>fx_sig = 0xA000000000000000, fx_signexp = 0xC000\<rparr>)"
  using f80_arith_rounds [of "\<lparr>fx_sig = 0xC000000000000000, fx_signexp = 0x3FFF\<rparr>" "\<lparr>fx_sig = 0xA000000000000000, fx_signexp = 0xC000\<rparr>"]
  by (simp add: f80_number_def raw_exp_def)

end
