(* ===== verification/Float80_Convert.thy ===== *)
theory Float80_Convert
  imports Float80_Arith
begin

text \<open>Memory images and doubles go into the soft float and come back; what a double is worth before and after.\<close>

section \<open>Doubles and memory images\<close>

lemma signexp_parts:
  assumes "x < 0x8000"
  shows "((if s then 0x8000 else 0) OR x) AND 0x7FFF = (x :: u16)" "((if s then 0x8000 else 0) OR x) AND 0x8000 \<noteq> 0 \<longleftrightarrow> s"
proof -
  have "x = x AND 0x7FFF"
  proof -
    have "x AND mask 15 = take_bit 15 x" by (simp add: take_bit_eq_mask)
    also have "\<dots> = x" using assms by (simp add: word_unat_eq_iff unsigned_take_bit_eq take_bit_nat_eq_self word_less_nat_alt)
    finally show ?thesis by (simp add: mask_eq_exp_minus_1)
  qed
  then have "x AND 0x8000 = (x AND 0x7FFF) AND 0x8000" by simp
  also have "\<dots> = 0" by (simp add: and.assoc)
  finally have z: "x AND 0x8000 = 0" .
  show "((if s then 0x8000 else 0) OR x) AND 0x7FFF = x" using \<open>x = _\<close> by (simp add: bit.conj_disj_distrib2)
  show "((if s then 0x8000 else 0) OR x) AND 0x8000 \<noteq> 0 \<longleftrightarrow> s" using z by (simp add: bit.conj_disj_distrib2)
qed

lemma bit_TOP: "bit TOP k \<longleftrightarrow> k = 63"
proof -
  have "(TOP :: u64) = 2 ^ 63" by simp
  then show ?thesis by (simp only: bit_exp_iff) auto
qed

text \<open>The three fields of a double.\<close>

definition d_exp :: "u64 \<Rightarrow> u64" where
  "d_exp d = drop_bit 52 d AND 0x7FF"

definition d_mant :: "u64 \<Rightarrow> u64" where
  "d_mant d = d AND 0xFFFFFFFFFFFFF"

definition d_neg :: "u64 \<Rightarrow> bool" where
  "d_neg d \<longleftrightarrow> drop_bit 63 d \<noteq> 0"

lemma d_exp_take: "d_exp d = take_bit 11 (drop_bit 52 d)"
  by (simp add: d_exp_def take_bit_eq_mask mask_eq_exp_minus_1)

lemma d_mant_take: "d_mant d = take_bit 52 d"
  by (simp add: d_mant_def take_bit_eq_mask mask_eq_exp_minus_1)

lemma d_neg_bit: "d_neg d \<longleftrightarrow> bit d 63"
proof -
  have "bit d (63 + k) \<longleftrightarrow> k = 0 \<and> bit d 63" for k using bit_u64 [of d "63 + k"] by (cases k) auto
  then show ?thesis unfolding d_neg_def nonzero_bits bit_drop_bit_eq comp_def by simp
qed

lemma d_exp_less: "uint (d_exp d) < 2048"
proof -
  have "uint (d_exp d) = take_bit 11 (uint (drop_bit 52 d))" unfolding d_exp_take by (simp add: unsigned_take_bit_eq)
  then show ?thesis by (simp add: take_bit_int_less_exp [of 11, simplified])
qed

lemma d_exp_2047: "uint (d_exp d) = 2047 \<longleftrightarrow> d_exp d = 0x7FF"
  by (simp add: word_uint_eq_iff)

lemma bit_double: "bit d k \<longleftrightarrow> (if k < 52 then bit (d_mant d) k else if k < 63 then bit (d_exp d) (k - 52) else k = 63 \<and> d_neg d)"
proof -
  have "k < 52 \<or> 52 \<le> k \<and> k < 63 \<or> k = 63 \<or> 64 \<le> k" by linarith
  then show ?thesis unfolding d_exp_take d_mant_take d_neg_bit
    by (elim disjE) (auto simp: bit_take_bit_iff bit_drop_bit_eq dest: bit_u64)
qed

lemma double_eq: "(if d_neg d then TOP else 0) OR push_bit 52 (d_exp d) OR d_mant d = d"
proof (rule bit_word_eqI)
  fix k assume "k < LENGTH(64)"
  have e: "bit (d_exp d) j \<Longrightarrow> j < 11" and m: "bit (d_mant d) j \<Longrightarrow> j < 52" for j
    unfolding d_exp_take d_mant_take by (simp_all add: bit_take_bit_iff)
  have "k < 52 \<or> 52 \<le> k \<and> k < 63 \<or> k = 63" using \<open>k < _\<close> by auto
  then show "bit ((if d_neg d then TOP else 0) OR push_bit 52 (d_exp d) OR d_mant d) k = bit d k"
    unfolding bit_double [of d k] bit_or_iff bit_push_bit_iff using e [of "k - 52"] m [of k] bit_TOP [of k]
    by (elim disjE) auto
qed

lemma sig_parts: "drop_bit 11 (TOP OR push_bit 11 (d_mant d)) AND 0xFFFFFFFFFFFFF = d_mant d"
  "unat (TOP OR push_bit 11 (d_mant d)) = 2 ^ 63 + unat (d_mant d) * 2 ^ 11"
proof -
  have m: "unat (d_mant d) < 2 ^ 52"
  proof -
    have "unat (d_mant d) = take_bit 52 (unat d)" unfolding d_mant_take by (simp add: unsigned_take_bit_eq)
    then show ?thesis by (simp add: take_bit_nat_less_exp [of 52, simplified])
  qed
  have p: "unat (push_bit 11 (d_mant d)) = unat (d_mant d) * 2 ^ 11" using m by (simp add: push_bit_eq_mult unat_word_ariths)
  then have "unat (push_bit 11 (d_mant d)) < 2 ^ 63" using m by simp
  note o = or_top [OF this]
  show "unat (TOP OR push_bit 11 (d_mant d)) = 2 ^ 63 + unat (d_mant d) * 2 ^ 11"
    unfolding or.commute [of TOP] o p by simp
  have "drop_bit 11 (TOP OR push_bit 11 (d_mant d)) AND mask 52 = take_bit 52 (drop_bit 11 (TOP OR push_bit 11 (d_mant d)))"
    by (simp add: take_bit_eq_mask)
  also have "\<dots> = d_mant d"
  proof (rule bit_eqI)
    fix k
    have t: "bit TOP (11 + k) \<Longrightarrow> 52 \<le> k" unfolding bit_TOP by simp
    show "bit (take_bit 52 (drop_bit 11 (TOP OR push_bit 11 (d_mant d)))) k = bit (d_mant d) k"
      using t unfolding d_mant_take by (auto simp: bit_take_bit_iff bit_drop_bit_eq bit_or_iff bit_push_bit_iff)
  qed
  finally show "drop_bit 11 (TOP OR push_bit 11 (d_mant d)) AND 0xFFFFFFFFFFFFF = d_mant d" by (simp add: mask_eq_exp_minus_1)
qed


lemma zero_pattern: "d AND NOT TOP = 0 \<longleftrightarrow> d_exp d = 0 \<and> d_mant d = 0"
proof -
  have b: "bit (d AND NOT TOP) k \<longleftrightarrow> k < 63 \<and> bit d k" for k
    unfolding bit_and_iff bit_not_iff bit_TOP by (auto dest: bit_u64)
  have "d AND NOT TOP = 0 \<longleftrightarrow> (\<forall>k < 63. \<not> bit d k)" using nonzero_bits [of "d AND NOT TOP"] b by blast
  also have "\<dots> \<longleftrightarrow> d_exp d = 0 \<and> d_mant d = 0"
  proof
    assume l: "\<forall>k < 63. \<not> bit d k"
    have "\<not> bit (d_exp d) k" "\<not> bit (d_mant d) k" for k
      using l [rule_format, of "52 + k"] l [rule_format, of k] unfolding d_exp_take d_mant_take
      by (auto simp: bit_take_bit_iff bit_drop_bit_eq)
    then show "d_exp d = 0 \<and> d_mant d = 0" using nonzero_bits by blast
  next
    assume "d_exp d = 0 \<and> d_mant d = 0"
    then show "\<forall>k < 63. \<not> bit d k" using bit_double [of d] by simp
  qed
  finally show ?thesis .
qed

text \<open>The stored form of a double that is neither zero nor infinite nor a NaN.\<close>

lemma from_double_number:
  assumes "\<not> (d_exp d = 0 \<and> d_mant d = 0)" "d_exp d \<noteq> 0x7FF"
  defines "x \<equiv> word_of_int (uint (d_exp d) + 15360) :: u16"
  shows "from_double d = \<lparr>fx_sig = TOP OR push_bit 11 (d_mant d), fx_signexp = (if d_neg d then 0x8000 else 0) OR x\<rparr>"
    "x < 0x8000" "uint x = uint (d_exp d) + 15360"
proof -
  have e: "0 \<le> uint (d_exp d)" "uint (d_exp d) < 2048" using d_exp_less [of d] by simp_all
  have ne: "uint (d_exp d) - 1023 \<noteq> 1024" using assms(2) d_exp_2047 [of d] by simp
  show u: "uint x = uint (d_exp d) + 15360" unfolding x_def by (simp only: uint_word_of_int) (use e in simp)
  then show "x < 0x8000" using e by (simp add: word_less_def)
  show "from_double d = \<lparr>fx_sig = TOP OR push_bit 11 (d_mant d), fx_signexp = (if d_neg d then 0x8000 else 0) OR x\<rparr>"
    unfolding from_double_def Let_def zero_pattern d_exp_def [symmetric] d_mant_def [symmetric] d_neg_def [symmetric] x_def
    using assms(1) ne by (auto simp: algebra_simps)
qed

lemma to_from_double:
  "to_double (from_double d) =
    (if d_exp d = 0x7FF \<and> d_mant d \<noteq> 0 then 0x7FF8000000000000
     else if d_exp d = 0 then (if d_neg d then TOP else 0) else d)"
proof -
  have s: "(if d_neg d then 0x8000 else 0) AND 0x7FFF = (0 :: u16)" "(if d_neg d then 0x8000 else 0 :: u16) AND 0x8000 \<noteq> 0 \<longleftrightarrow> d_neg d" by simp_all
  have sx: "((if d_neg d then 0x8000 else 0) OR 0x7FFF) AND 0x7FFF = (0x7FFF :: u16)"
    "((if d_neg d then 0x8000 else 0 :: u16) OR 0x7FFF) AND 0x8000 \<noteq> 0 \<longleftrightarrow> d_neg d" by simp_all
  have top: "(TOP OR push_bit 11 (d_mant d)) AND TOP \<noteq> 0" unfolding top_bit sig_parts(2) by simp
  consider (zero) "d_exp d = 0 \<and> d_mant d = 0" | (special) "d_exp d = 0x7FF" | (number) "\<not> (d_exp d = 0 \<and> d_mant d = 0)" "d_exp d \<noteq> 0x7FF"
    by blast
  then show ?thesis
  proof cases
    case zero
    then have "from_double d = \<lparr>fx_sig = 0, fx_signexp = if d_neg d then 0x8000 else 0\<rparr>"
      unfolding from_double_def Let_def zero_pattern d_neg_def by simp
    then show ?thesis using zero s by (simp add: to_double_def)
  next
    case special
    have f: "from_double d = \<lparr>fx_sig = TOP OR push_bit 11 (d_mant d), fx_signexp = (if d_neg d then 0x8000 else 0) OR 0x7FFF\<rparr>"
      unfolding from_double_def Let_def zero_pattern d_exp_def [symmetric] d_mant_def [symmetric] d_neg_def [symmetric] special by simp
    have m: "push_bit 1 (TOP OR push_bit 11 (d_mant d)) = 0 \<longleftrightarrow> d_mant d = 0"
    proof -
      have "d_mant d = 0" if p: "push_bit 1 (TOP OR push_bit 11 (d_mant d)) = 0"
      proof -
        have "\<not> bit (d_mant d) k" for k
        proof
          assume k: "bit (d_mant d) k"
          then have "k < 52" unfolding d_mant_take by (simp add: bit_take_bit_iff)
          then have "bit (push_bit 1 (TOP OR push_bit 11 (d_mant d))) (12 + k)"
            using k unfolding bit_push1 bit_or_iff by (simp add: bit_push_bit_iff)
          then show False unfolding p by simp
        qed
        then show ?thesis using nonzero_bits by blast
      qed
      then show ?thesis by auto
    qed
    have "to_double (from_double d) = (if d_mant d = 0 then (if d_neg d then TOP else 0) OR 0x7FF0000000000000 else 0x7FF8000000000000)"
      unfolding to_double_def Let_def f float80.select_convs sx m using top by auto
    moreover have "d = (if d_neg d then TOP else 0) OR 0x7FF0000000000000" if "d_mant d = 0"
      using double_eq [of d] unfolding that special by simp
    ultimately show ?thesis using special by auto
  next
    case number
    note f = from_double_number [OF number]
    note p = signexp_parts [OF f(2), of "d_neg d"]
    have e: "0 \<le> uint (d_exp d)" "uint (d_exp d) < 2048" using d_exp_less [of d] by simp_all
    have ne: "uint (d_exp d) \<noteq> 2047" using number(2) unfolding d_exp_2047 .
    have nz: "uint (d_exp d) + 15360 \<noteq> 0" using e by linarith
    have "to_double (from_double d) = (if uint (d_exp d) \<le> 0 then (if d_neg d then TOP else 0)
        else (if d_neg d then TOP else 0) OR push_bit 52 (d_exp d) OR d_mant d)"
      unfolding to_double_def Let_def f(1) float80.select_convs p f(3) sig_parts(1) using e ne nz by simp
    moreover have "uint (d_exp d) \<le> 0 \<longleftrightarrow> d_exp d = 0" using e by (simp add: word_uint_eq_iff)
    ultimately show ?thesis using number(2) double_eq [of d] by simp
  qed
qed

text \<open>The value of a double, and the one it is converted to.\<close>

definition double_value :: "u64 \<Rightarrow> real" where
  "double_value d = (if d_neg d then - 1 else 1) *
     (if d_exp d = 0 then real (unat (d_mant d)) * 2 powi - 1074
      else (2 ^ 52 + real (unat (d_mant d))) * 2 powi (uint (d_exp d) - 1075))"

lemma from_double_value:
  assumes "\<not> (d_exp d = 0 \<and> d_mant d = 0)" "d_exp d \<noteq> 0x7FF"
  shows "f80_value (from_double d) =
    (if d_neg d then - 1 else 1) * (2 ^ 52 + real (unat (d_mant d))) * 2 powi (uint (d_exp d) - 1075)"
proof -
  note f = from_double_number [OF assms]
  note p = signexp_parts [OF f(2), of "d_neg d"]
  have e: "0 \<le> uint (d_exp d)" by simp
  have sg: "real (unat (TOP OR push_bit 11 (d_mant d))) = (2 ^ 52 + real (unat (d_mant d))) * 2 ^ 11"
    unfolding sig_parts(2) by simp
  have eq: "max 1 (uint (d_exp d) + 15360) - 16446 = (uint (d_exp d) - 1075) - 11" using e by simp
  have "magnitude (from_double d) = (2 ^ 52 + real (unat (d_mant d))) * 2 powi (uint (d_exp d) - 1075)"
    unfolding magnitude_def raw_exp_def f(1) float80.select_convs p f(3) sg eq by (subst power_int_diff) simp_all
  moreover have "is_sign_negative (from_double d) \<longleftrightarrow> d_neg d" unfolding is_sign_negative_def f(1) float80.select_convs p ..
  ultimately show ?thesis unfolding f80_value_def by (simp add: algebra_simps)
qed

lemma little_endian:
  "foldr (\<lambda>k v. push_bit 8 v OR ucast (ucast (drop_bit (8 * k) w) :: u8)) [i..<i + n] 0 = take_bit (8 * n) (drop_bit (8 * i) (w :: u64))"
proof (induction n arbitrary: i)
  case (Suc n)
  have "[i..<i + Suc n] = i # [Suc i..<Suc i + n]" by (simp add: upt_conv_Cons)
  then have "foldr (\<lambda>k v. push_bit 8 v OR ucast (ucast (drop_bit (8 * k) w) :: u8)) [i..<i + Suc n] 0 =
    push_bit 8 (take_bit (8 * n) (drop_bit (8 * Suc i) w)) OR ucast (ucast (drop_bit (8 * i) w) :: u8)"
    by (simp only: foldr_Cons comp_def Suc.IH)
  also have "\<dots> = take_bit (8 * Suc n) (drop_bit (8 * i) w)"
  proof (rule bit_word_eqI)
    fix k assume "k < LENGTH(64)"
    show "bit (push_bit 8 (take_bit (8 * n) (drop_bit (8 * Suc i) w)) OR ucast (ucast (drop_bit (8 * i) w) :: u8)) k =
      bit (take_bit (8 * Suc n) (drop_bit (8 * i) w)) k"
      by (cases "k < 8") (auto simp: bit_or_iff bit_push_bit_iff bit_take_bit_iff bit_drop_bit_eq bit_unsigned_iff algebra_simps dest: bit_u64)
  qed
  finally show ?case .
qed simp

lemma from_to_bytes: "from_bytes (to_bytes f) = f"
proof -
  have nth: "to_bytes f ! k = ucast (drop_bit (8 * k) (fx_sig f))" if "k < 8" for k
    using that by (simp add: to_bytes_def nth_append)
  have "foldr (\<lambda>k v. push_bit 8 v OR ucast (to_bytes f ! k)) [0..<8] 0 =
    foldr (\<lambda>k v. push_bit 8 v OR ucast (ucast (drop_bit (8 * k) (fx_sig f)) :: u8)) [0..<8] 0"
    by (rule foldr_cong) (simp_all add: nth)
  also have "\<dots> = fx_sig f" using little_endian [of "fx_sig f" 0 8] by (simp add: take_bit_length_eq [where ?'a = 64, simplified])
  finally have sig: "foldr (\<lambda>k v. push_bit 8 v OR ucast (to_bytes f ! k)) [0..<8] 0 = fx_sig f" .
  have n: "to_bytes f ! 8 = ucast (fx_signexp f)" "to_bytes f ! 9 = ucast (drop_bit 8 (fx_signexp f))"
    by (simp_all add: to_bytes_def nth_append)
  have "ucast (ucast (fx_signexp f) :: u8) OR push_bit 8 (ucast (ucast (drop_bit 8 (fx_signexp f)) :: u8)) = fx_signexp f"
    by (rule bit_word_eqI) (auto simp: bit_or_iff bit_push_bit_iff bit_drop_bit_eq bit_unsigned_iff)
  then show ?thesis unfolding from_bytes_def sig n by simp
qed

text \<open>C26: moving values in and out of the soft float.  A memory image is read back as it was written.  A double comes back
  unchanged, except that every NaN becomes the default one and a subnormal becomes a zero of its sign; a normal double keeps its
  exact value.  (A subnormal double does not: the conversion gives it an integer bit.)\<close>

theorem f80_conversions:
  "from_bytes (to_bytes f) = f \<and>
   to_double (from_double d) =
     (if d_exp d = 0x7FF \<and> d_mant d \<noteq> 0 then 0x7FF8000000000000
      else if d_exp d = 0 then (if d_neg d then TOP else 0) else d) \<and>
   (if d_exp d = 0 \<or> d_exp d = 0x7FF then True else f80_value (from_double d) = double_value d)"
  using from_to_bytes to_from_double from_double_value [of d] by (simp add: double_value_def)

end
