(* ===== verification/X87_Facts.thy ===== *)
theory X87_Facts
  imports X87 Float80_Convert Host_Facts
begin

text \<open>The ten-byte images the x87 stores write and the loads read, and the discipline of the register stack.\<close>

section \<open>A double by its fields\<close>

lemma d_mant_less: "unat (d_mant d) < 2 ^ 52"
proof -
  have "unat (d_mant d) = take_bit 52 (unat d)" unfolding d_mant_take by (simp add: unsigned_take_bit_eq)
  then show ?thesis by (simp add: take_bit_nat_less_exp [of 52, simplified])
qed

lemma fields_of_mag: "fp_mag F64 d = unat (d_exp d) * 2 ^ 52 + unat (d_mant d)"
proof -
  have "unat (drop_bit 52 d) = unat d div 2 ^ 52" by (simp add: unsigned_drop_bit_eq drop_bit_eq_div unat_div_distrib)
  moreover have "unat (d_exp d) = take_bit 11 (unat (drop_bit 52 d))" by (simp only: d_exp_take unsigned_take_bit_eq)
  ultimately have "unat (d_exp d) = take_bit 11 (unat d div 2 ^ 52)" by (simp only:)
  then have e: "unat (d_exp d) = unat d div 2 ^ 52 mod 2 ^ 11" by (simp only: take_bit_eq_mod)
  have m: "unat (d_mant d) = unat d mod 2 ^ 52" unfolding d_mant_take unsigned_take_bit_eq by (rule take_bit_eq_mod)
  have "unat d mod (2 ^ 52 * 2 ^ 11) = 2 ^ 52 * (unat d div 2 ^ 52 mod 2 ^ 11) + unat d mod 2 ^ 52" by (rule mod_mult2_eq)
  then show ?thesis unfolding fp_mag_def e m by simp
qed

lemma neg_of_fields: "fp_neg F64 d = d_neg d"
proof -
  have "bit d 63 \<longleftrightarrow> bit (unat d) 63" by (simp add: bit_unsigned_iff)
  also have "\<dots> \<longleftrightarrow> odd (unat d div 2 ^ 63)" by (rule bit_iff_odd)
  finally show ?thesis by (simp add: fp_neg_def d_neg_bit)
qed

lemma pack_fields: "fp_pack F64 (d_neg d) (unat (d_exp d) * 2 ^ 52 + unat (d_mant d)) = d"
proof -
  define q r where "q = unat d div 2 ^ 63" and "r = unat d mod 2 ^ 63"
  have d: "unat d = q * 2 ^ 63 + r" unfolding q_def r_def by (rule div_mult_mod_eq [symmetric])
  then have "q * 2 ^ 63 < 2 * 2 ^ 63" using unat64 [of d] by simp
  then have "q < 2" by simp
  then have "unat d = r + (if odd q then 2 ^ 63 else 0)" using d by (auto simp: less_2_cases_iff)
  then have "unat d = fp_mag F64 d + (if fp_neg F64 d then 2 ^ 63 else 0)" by (simp add: fp_mag_def fp_neg_def q_def r_def)
  moreover have "d = of_nat (unat d)" by simp
  ultimately have "d = of_nat (fp_mag F64 d + (if fp_neg F64 d then 2 ^ 63 else 0))" by (simp only:)
  note eq = this [unfolded fields_of_mag neg_of_fields]
  have w: "fm_exp F64 + fm_man F64 = 63" by simp
  show ?thesis unfolding fields_of_mag neg_of_fields fp_pack_def w by (rule eq [symmetric])
qed

section \<open>Images\<close>

lemma int_to_fp_nat: "0 < n \<Longrightarrow> int_to_fp f (int n) = fp_round f To_Nearest False n 1 0"
  by (simp add: int_to_fp_def fp_of_int_def)

text \<open>The significand and exponent the decoder rebuilds.\<close>

lemma decode_significand:
  assumes m: "m < 2 ^ 52" and k: "- 1074 \<le> k"
  shows "fp_ldexp h (fp_div h F64 To_Nearest (int_to_fp F64 (int ((2 ^ 52 + m) * 2 ^ 11))) (int_to_fp F64 (2 ^ 63))) (k + 52) =
    (if k < 972 then fp_pack F64 False (nat (k + 1074) * 2 ^ 52 + 2 ^ 52 + m) else fp_pack F64 False (fp_huge F64))"
proof -
  let ?q = "2 ^ 52 + m"
  have q: "2 ^ fm_man F64 \<le> ?q" "?q < 2 ^ (fm_man F64 + 1)" using m by simp_all
  have r: "normal_range F64 ?q 11" "normal_range F64 (2 ^ 52) 11" "normal_range F64 ?q (- 52)" using m by (simp_all add: normal_range_def)
  have i: "int_to_fp F64 (int ((2 ^ 52 + m) * 2 ^ 11)) = fp_pack F64 False (normal_mag F64 ?q 11)"
    by (subst int_to_fp_nat) (use fp_round_exact [OF r(1), of "?q * 2 ^ 11" 1 0 To_Nearest False] in simp_all)
  have o: "int_to_fp F64 (2 ^ 63) = fp_pack F64 False (normal_mag F64 (2 ^ 52) 11)"
    unfolding int_to_fp_def fp_of_int_def using fp_round_exact [OF r(2), of "2 ^ 63" 1 0 To_Nearest False] by simp
  note dec = decode_normal [OF fmt_ok_F(2)]
  have hm: "normal_range F64 q k \<Longrightarrow> normal_mag F64 q k < 2 ^ (fm_exp F64 + fm_man F64)" for q k
    using normal_mag_parts(3) [of F64 q k] fp_huge_less [of F64] by linarith
  note neg = fp_pack_parts(1) [OF fmt_ok_F(2) hm]
  have "real ?q / real (2 ^ 52) * 2 powi 0 = real ?q * 2 powi - 52" by (simp add: power_int_minus field_simps)
  then have d: "fp_div h F64 To_Nearest (int_to_fp F64 (int ((2 ^ 52 + m) * 2 ^ 11))) (int_to_fp F64 (2 ^ 63)) =
      fp_pack F64 False (normal_mag F64 ?q (- 52))"
    unfolding i o fp_div_def Let_def dec [OF r(1)] dec [OF r(2)] neg [OF r(1)] neg [OF r(2)]
    using fp_round_exact [OF r(3), of ?q "2 ^ 52" 0 To_Nearest False] by simp
  have big: "normal_mag F64 ?q k < fp_huge F64 \<longleftrightarrow> k < 972"
  proof -
    have "fp_huge F64 = 2047 * 2 ^ 52" by (simp add: fp_huge_def)
    moreover have "normal_mag F64 ?q k = (nat (k + 1074) + 1) * 2 ^ 52 + m" by (simp add: normal_mag_def)
    moreover have "(x * 2 ^ 52 + m < 2047 * 2 ^ 52) = (x < 2047)" for x :: nat using m by auto
    ultimately have "normal_mag F64 ?q k < fp_huge F64 \<longleftrightarrow> nat (k + 1074) + 1 < 2047" by (simp only:)
    then show ?thesis using k by auto
  qed
  have "fp_round F64 To_Nearest False ?q 1 (- 52 + (k + 52)) =
      (if k < 972 then fp_pack F64 False (normal_mag F64 ?q k) else fp_pack F64 False (fp_huge F64))"
    using fp_round_mag [OF q, of k ?q 1 "- 52 + (k + 52)" To_Nearest False] k big by simp
  then show ?thesis unfolding d fp_ldexp_def dec [OF r(3)] by (simp add: normal_mag_def add.assoc)
qed


lemma to_bytes_le: "to_bytes f = le_bytes 8 (fx_sig f) @ le_bytes 2 (ucast (fx_signexp f))"
proof -
  have b: "bit (0xFF :: u64) n \<longleftrightarrow> n < 8" for n
  proof -
    have "(0xFF :: u64) = mask 8" by (simp add: mask_eq_exp_minus_1)
    then show ?thesis by (simp only: bit_mask_iff) auto
  qed
  have u: "ucast (w AND 0xFF) = (ucast w :: u8)" for w :: u64
    by (rule bit_word_eqI) (simp only: bit_unsigned_iff bit_and_iff b, auto)
  have v: "ucast (drop_bit n (ucast e :: u64)) = (ucast (drop_bit n e) :: u8)" for e :: u16 and n
    by (rule bit_word_eqI) (auto simp: bit_unsigned_iff bit_drop_bit_eq dest: bit_imp_le_length)
  show ?thesis by (simp add: to_bytes_def le_bytes_def u v)
qed

text \<open>The image of a double that is not a zero.\<close>

lemma encode_image:
  assumes "\<not> (d_exp d = 0 \<and> d_mant d = 0)"
  defines "x \<equiv> word_of_int (uint (d_exp d) + 15360) :: u16"
  shows "x87_encode d = to_bytes \<lparr>fx_sig = TOP OR push_bit 11 (d_mant d), fx_signexp = (if d_neg d then 0x8000 else 0) OR x\<rparr>"
    "x < 0x8000" "uint x = uint (d_exp d) + 15360"
proof -
  have e: "0 \<le> uint (d_exp d)" "uint (d_exp d) < 2048" using d_exp_less [of d] by simp_all
  show u: "uint x = uint (d_exp d) + 15360" unfolding x_def by (simp only: uint_word_of_int) (use e in simp)
  then show x: "x < 0x8000" using e by (simp add: word_less_def)
  have a: "x AND 0x7FFF = x" using signexp_parts(1) [OF x, of False] by simp
  have "uint (d_exp d) = 0 \<longleftrightarrow> d_exp d = 0" by (simp add: uint_0_iff)
  then have n: "\<not> (uint (d_exp d) - 1023 = - 1023 \<and> d_mant d = 0)" using assms(1) by simp
  have w: "word_of_int (uint (d_exp d) - 1023 + 16383) AND 0x7FFF = x" using a by (simp add: x_def algebra_simps)
  show "x87_encode d = to_bytes \<lparr>fx_sig = TOP OR push_bit 11 (d_mant d), fx_signexp = (if d_neg d then 0x8000 else 0) OR x\<rparr>"
    unfolding x87_encode_def Let_def d_exp_def [symmetric] d_mant_def [symmetric] d_neg_def [symmetric] if_not_P [OF n] w to_bytes_le
    by (simp add: or.commute)
qed

lemma image_fields: "le_value (take 8 (to_bytes f)) = fx_sig f" "ucast (le_value (take 2 (drop 8 (to_bytes f)))) = fx_signexp f"
proof -
  have "ucast (take_bit 16 (ucast w :: u64)) = w" for w :: u16 by (rule bit_word_eqI) (simp add: bit_unsigned_iff bit_take_bit_iff)
  then show "le_value (take 8 (to_bytes f)) = fx_sig f" "ucast (le_value (take 2 (drop 8 (to_bytes f)))) = fx_signexp f"
    by (simp_all add: to_bytes_le le_value_le_bytes take_bit_length_eq [where ?'a = 64, simplified])
qed

lemma decode_image:
  "x87_decode h (to_bytes f) =
    (let e = uint (fx_signexp f AND 0x7FFF); sign = (fx_signexp f AND 0x8000 \<noteq> 0);
         out = fp_ldexp h (fp_div h F64 To_Nearest (int_to_fp F64 (uint (fx_sig f))) (int_to_fp F64 (2 ^ 63))) (e - 16383)
     in if e = 0 then (if sign then TOP else 0) else if sign then fp_negate F64 out else out)"
proof -
  have "uint (fx_signexp f AND 0x7FFF) - 16383 = - 16383 \<longleftrightarrow> uint (fx_signexp f AND 0x7FFF) = 0" by linarith
  then show ?thesis unfolding x87_decode_def Let_def image_fields by (simp only:)
qed

lemma negate_pack: "fmt_ok f \<Longrightarrow> mag < 2 ^ (fm_exp f + fm_man f) \<Longrightarrow> fp_negate f (fp_pack f s mag) = fp_pack f (\<not> s) mag"
  by (simp add: fp_negate_def)

lemma zero_image:
  assumes z: "d_exp d = 0" "d_mant d = 0"
  shows "x87_decode h (x87_encode d) = d" "from_bytes (x87_encode d) = from_double d"
proof -
  have e: "x87_encode d = replicate 9 0 @ [if d_neg d then 0x80 else 0]"
    unfolding x87_encode_def Let_def d_exp_def [symmetric] d_mant_def [symmetric] d_neg_def [symmetric] using z by simp
  have d: "d = (if d_neg d then TOP else 0)" using double_eq [of d] z by simp
  have f: "from_double d = \<lparr>fx_sig = 0, fx_signexp = if d_neg d then 0x8000 else 0\<rparr>"
    unfolding from_double_def Let_def zero_pattern d_neg_def using z by simp
  have img: "to_bytes \<lparr>fx_sig = 0, fx_signexp = if d_neg d then 0x8000 else 0\<rparr> = x87_encode d"
  proof -
    have "replicate (8 + 1) (0 :: u8) = replicate 8 0 @ replicate 1 0" by (rule replicate_add)
    then have nine: "replicate 9 (0 :: u8) = replicate 8 0 @ [0]" by simp
    have "le_bytes 8 0 = replicate 8 0" by (simp add: le_bytes_def map_replicate_const)
    then show ?thesis unfolding e nine to_bytes_le by (simp add: le_bytes_def upt_rec)
  qed
  have "x87_decode h (x87_encode d) = (if d_neg d then TOP else 0)"
    unfolding img [symmetric] decode_image Let_def by simp
  then show "x87_decode h (x87_encode d) = d" using d by simp
  show "from_bytes (x87_encode d) = from_double d" unfolding img [symmetric] f by (rule from_to_bytes)
qed

lemma number_image:
  assumes E: "d_exp d \<noteq> 0"
  shows "x87_decode h (x87_encode d) = (if d_exp d = 0x7FF then fp_pack F64 (d_neg d) (fp_huge F64) else d)"
proof -
  have False': "\<not> (d_exp d = 0 \<and> d_mant d = 0)" using E by simp
  define x :: u16 where "x = word_of_int (uint (d_exp d) + 15360)"
  note img = encode_image [OF False', folded x_def]
  note p = signexp_parts [OF img(2), of "d_neg d"]
  let ?f = "\<lparr>fx_sig = TOP OR push_bit 11 (d_mant d), fx_signexp = (if d_neg d then 0x8000 else 0) OR x\<rparr>"
  let ?m = "unat (d_mant d)" and ?k = "uint (d_exp d) - 1075"
  have e: "1 \<le> uint (d_exp d)" "uint (d_exp d) \<le> 2047"
  proof -
    have "0 \<le> uint (d_exp d)" "uint (d_exp d) \<noteq> 0" using E by (simp_all add: uint_0_iff)
    then show "1 \<le> uint (d_exp d)" by linarith
    show "uint (d_exp d) \<le> 2047" using d_exp_less [of d] by simp
  qed
  have sig: "uint (fx_sig ?f) = int ((2 ^ 52 + ?m) * 2 ^ 11)"
  proof -
    have "uint (fx_sig ?f) = int (unat (fx_sig ?f))" by (rule uint_nat)
    then show ?thesis by (simp only: float80.select_convs sig_parts(2)) simp
  qed
  have ex: "uint (fx_signexp ?f AND 0x7FFF) = uint (d_exp d) + 15360" using p(1) img(3) by (simp only: float80.select_convs)
  have ex0: "uint (d_exp d) + 15360 \<noteq> 0" using e by linarith
  have k: "- 1074 \<le> ?k" "uint (d_exp d) + 15360 - 16383 = ?k + 52" using e by simp_all
  have "x87_decode h (x87_encode d) =
     (let out = (if ?k < 972 then fp_pack F64 False (nat (?k + 1074) * 2 ^ 52 + 2 ^ 52 + ?m) else fp_pack F64 False (fp_huge F64))
      in if d_neg d then fp_negate F64 out else out)"
    unfolding img(1) decode_image Let_def sig ex if_not_P [OF ex0] k(2) decode_significand [OF d_mant_less k(1)]
    using p(2) by (simp only: float80.select_convs)
  also have "\<dots> = (if ?k < 972 then fp_pack F64 (d_neg d) (nat (?k + 1074) * 2 ^ 52 + 2 ^ 52 + ?m) else fp_pack F64 (d_neg d) (fp_huge F64))"
  proof -
    have "nat (?k + 1074) * 2 ^ 52 + 2 ^ 52 + ?m < 2 ^ (fm_exp F64 + fm_man F64)" if "?k < 972"
    proof -
      have "nat (?k + 1074) + 2 \<le> 2048" using that by simp
      then have "(nat (?k + 1074) + 2) * 2 ^ 52 \<le> 2048 * 2 ^ 52" by (rule mult_le_mono1)
      then show ?thesis using d_mant_less [of d] by simp
    qed
    then show ?thesis using negate_pack [OF fmt_ok_F(2)] fp_huge_less [of F64] by (auto simp: Let_def)
  qed
  also have "\<dots> = (if d_exp d = 0x7FF then fp_pack F64 (d_neg d) (fp_huge F64) else d)"
  proof (cases "d_exp d = 0x7FF")
    case True
    then have "uint (d_exp d) = 2047" by simp
    then show ?thesis using True by simp
  next
    case False
    then have "?k < 972" using d_exp_2047 [of d] e(2) by linarith
    moreover have "nat (?k + 1074) * 2 ^ 52 + 2 ^ 52 = unat (d_exp d) * 2 ^ 52"
    proof -
      have "nat (u - 1075 + 1074) + 1 = nat u" if "1 \<le> u" for u :: int using that by linarith
      from this [OF e(1)] have "nat (?k + 1074) + 1 = unat (d_exp d)" unfolding unat_eq_nat_uint .
      then have "(nat (?k + 1074) + 1) * 2 ^ 52 = unat (d_exp d) * 2 ^ 52" by simp
      then show ?thesis by simp
    qed
    ultimately show ?thesis using False pack_fields [of d] by simp
  qed
  finally show ?thesis .
qed

text \<open>C29: the ten-byte image that FST and FSTP write reads back as the same double, for every zero and every normal double and
  whatever the host does, and it is the image the soft float has of that double.  An infinity comes back too, but so does a NaN:
  both are read as an infinity, because the exponent field of the image is that of a finite number.\<close>

theorem x87_image_round_trip:
  assumes "d_exp d \<noteq> 0 \<or> d_mant d = 0"
  shows "x87_decode h (x87_encode d) = (if d_exp d = 0x7FF then fp_pack F64 (d_neg d) (fp_huge F64) else d) \<and>
    (if d_exp d = 0x7FF then raw_exp (from_bytes (x87_encode d)) = 0x43FF else from_bytes (x87_encode d) = from_double d)"
proof (cases "d_exp d = 0")
  case True
  then show ?thesis using assms zero_image [of d] by simp
next
  case False
  then have n: "\<not> (d_exp d = 0 \<and> d_mant d = 0)" by simp
  note img = encode_image [OF n]
  note F = trans [OF arg_cong [of _ _ from_bytes, OF img(1)] from_to_bytes]
  have "raw_exp (from_bytes (x87_encode d)) = 0x43FF" if "d_exp d = 0x7FF"
    unfolding F using signexp_parts(1) [OF img(2), of "d_neg d"] that by (simp add: raw_exp_def)
  moreover have "from_bytes (x87_encode d) = from_double d" if "d_exp d \<noteq> 0x7FF"
    unfolding F using from_double_number(1) [OF n that] by simp
  ultimately show ?thesis using number_image [OF False] by simp
qed

theorem x87_image_round_trip_witness: "x87_decode plain_host (x87_encode 0xC00921FB54442D18) = 0xC00921FB54442D18"
proof -
  have e: "d_exp 0xC00921FB54442D18 = 0x400" by (simp add: d_exp_def)
  have "d_exp 0xC00921FB54442D18 \<noteq> 0 \<or> d_mant 0xC00921FB54442D18 = 0" unfolding e by simp
  from conjunct1 [OF x87_image_round_trip [OF this, where h = plain_host]] show ?thesis unfolding e by simp
qed

end
