(* ===== verification/Handler_Table.thy ===== *)
theory Handler_Table
  imports Handler_Names Decoder_Runs Sse_Float X87 Crypto Packed_Integer Vector_Extended Gather_Scatter Misc_Handlers
begin

text \<open>
  The functions behind the handler names: \<^verbatim>\<open>src/emu/handlers/handlers.h\<close> declares them, each is defined in the theory of its
  source file, and the call through \<^verbatim>\<open>Insn::handler\<close> of the run loop reaches them by \<open>run_named\<close>.  The host's floating-point
  unit and the bytes that lie behind an index buffer are the arguments \<open>h\<close> and \<open>junk\<close>.
\<close>

definition other_table :: "host_fp \<Rightarrow> (nat \<Rightarrow> u8) \<Rightarrow> (string \<times> ('m env \<Rightarrow> insn \<Rightarrow> 'm cpu \<Rightarrow> 'm cpu)) list" where
  "other_table h junk =
    [(''op_addpd'', op_addpd h), (''op_addps'', op_addps h), (''op_addsd'', op_addsd h), (''op_addss'', op_addss h),
     (''op_aesdec'', op_aesdec), (''op_aesdeclast'', op_aesdeclast), (''op_aesenc'', op_aesenc),
     (''op_aesenclast'', op_aesenclast), (''op_aesimc'', op_aesimc), (''op_aeskeygen'', op_aeskeygen),
     (''op_andps'', op_andps), (''op_clflush'', op_clflush), (''op_crc32'', op_crc32), (''op_cvtsd2ss'', op_cvtsd2ss h),
     (''op_cvtsi2sd'', op_cvtsi2sd), (''op_cvtsi2ss'', op_cvtsi2ss), (''op_cvtss2sd'', op_cvtss2sd h),
     (''op_cvttsd2si'', op_cvttsd2si h), (''op_cvttss2si'', op_cvttss2si h), (''op_divpd'', op_divpd h),
     (''op_divps'', op_divps h), (''op_divsd'', op_divsd h), (''op_divss'', op_divss h),
     (''op_f2xm1'', \<lambda>_ _. op_f2xm1 h), (''op_fabs'', \<lambda>_ _. op_fabs), (''op_fadd'', op_fadd h),
     (''op_faddp'', \<lambda>_. op_faddp h), (''op_fchs'', \<lambda>_ _. op_fchs), (''op_fcom'', op_fcom h),
     (''op_fcos'', \<lambda>_ _. op_fcos h), (''op_fdiv'', op_fdiv h), (''op_fdivp'', \<lambda>_. op_fdivp h),
     (''op_fence'', op_fence), (''op_fild'', op_fild), (''op_fistp'', op_fistp h), (''op_fld'', op_fld h),
     (''op_fldcw'', op_fldcw), (''op_fmul'', op_fmul h), (''op_fmulp'', \<lambda>_. op_fmulp h),
     (''op_fninit'', \<lambda>_ _. op_fninit), (''op_fnstcw'', op_fnstcw), (''op_fnstsw'', op_fnstsw),
     (''op_fpatan'', \<lambda>_ _. op_fpatan h), (''op_frndint'', \<lambda>_ _. op_frndint h),
     (''op_fscale'', \<lambda>_ _. op_fscale h), (''op_fsin'', \<lambda>_ _. op_fsin h),
     (''op_fsqrt'', \<lambda>_ _. op_fsqrt h), (''op_fst'', op_fst h), (''op_fstp'', op_fstp h), (''op_fsub'', op_fsub h),
     (''op_fsubp'', \<lambda>_. op_fsubp h), (''op_fxch'', \<lambda>_. op_fxch), (''op_fyl2x'', \<lambda>_ _. op_fyl2x h),
     (''op_insertps'', op_insertps), (''op_int3'', op_int3), (''op_int_n'', op_int_n), (''op_lahf'', op_lahf),
     (''op_maxsd'', op_maxsd), (''op_maxss'', op_maxss), (''op_minsd'', op_minsd), (''op_minss'', op_minss),
     (''op_movbe'', op_movbe), (''op_movd_from_xmm'', op_movd_from_xmm), (''op_movd_to_xmm'', op_movd_to_xmm),
     (''op_movdqa'', op_movdqa), (''op_movdqu'', op_movdqu), (''op_movmskpd'', op_movmskpd), (''op_movmskps'', op_movmskps),
     (''op_movsd_fp'', op_movsd_fp), (''op_movss'', op_movss), (''op_movupd'', op_movupd), (''op_movups'', op_movups),
     (''op_mulpd'', op_mulpd h), (''op_mulps'', op_mulps h), (''op_mulsd'', op_mulsd h), (''op_mulss'', op_mulss h),
     (''op_orps'', op_orps), (''op_pabsb'', op_pabsb), (''op_pabsd'', op_pabsd), (''op_pabsw'', op_pabsw),
     (''op_paddb'', op_paddb), (''op_paddd'', op_paddd), (''op_paddq'', op_paddq), (''op_paddw'', op_paddw),
     (''op_pand'', op_pand), (''op_pclmulqdq'', op_pclmulqdq), (''op_pcmpeqb'', op_pcmpeqb), (''op_pcmpeqd'', op_pcmpeqd),
     (''op_pcmpeqw'', op_pcmpeqw), (''op_pcmpestri'', op_pcmpestri), (''op_pcmpestrm'', op_pcmpestrm),
     (''op_pcmpgtq'', op_pcmpgtq), (''op_pcmpistri'', op_pcmpistri), (''op_pcmpistrm'', op_pcmpistrm),
     (''op_pextrb'', op_pextrb), (''op_pextrd'', op_pextrd), (''op_pextrq'', op_pextrq), (''op_pextrw'', op_pextrw),
     (''op_pinsrb'', op_pinsrb), (''op_pinsrd'', op_pinsrd), (''op_pinsrq'', op_pinsrq), (''op_pmaddwd'', op_pmaddwd),
     (''op_pmaxsw'', op_pmaxsw), (''op_pmaxub'', op_pmaxub), (''op_pminsw'', op_pminsw), (''op_pminub'', op_pminub),
     (''op_pmovmskb'', op_pmovmskb), (''op_pmulhuw'', op_pmulhuw), (''op_pmulhw'', op_pmulhw), (''op_pmullw'', op_pmullw),
     (''op_popf'', op_popf), (''op_por'', op_por), (''op_prefetch'', op_prefetch), (''op_pshufb'', op_pshufb),
     (''op_pshufd'', op_pshufd), (''op_pshufhw'', op_pshufhw), (''op_pshuflw'', op_pshuflw), (''op_pslld'', op_pslld),
     (''op_psllq'', op_psllq), (''op_psllw'', op_psllw), (''op_psrad'', op_psrad), (''op_psraw'', op_psraw),
     (''op_psrld'', op_psrld), (''op_psrlq'', op_psrlq), (''op_psrlw'', op_psrlw), (''op_psubb'', op_psubb),
     (''op_psubd'', op_psubd), (''op_psubq'', op_psubq), (''op_psubw'', op_psubw), (''op_punpckhbw'', op_punpckhbw),
     (''op_punpckhdq'', op_punpckhdq), (''op_punpckhqdq'', op_punpckhqdq), (''op_punpckhwd'', op_punpckhwd),
     (''op_punpcklbw'', op_punpcklbw), (''op_punpckldq'', op_punpckldq), (''op_punpcklqdq'', op_punpcklqdq),
     (''op_punpcklwd'', op_punpcklwd), (''op_pushf'', op_pushf), (''op_pxor'', op_pxor), (''op_rcpps'', op_rcpps h),
     (''op_rcpss'', op_rcpss h), (''op_roundpd'', op_roundpd h), (''op_roundps'', op_roundps h),
     (''op_roundsd'', op_roundsd h), (''op_roundss'', op_roundss h), (''op_rsqrtps'', op_rsqrtps h),
     (''op_rsqrtss'', op_rsqrtss h), (''op_sahf'', op_sahf), (''op_sha1msg1'', op_sha1msg1), (''op_sha1msg2'', op_sha1msg2),
     (''op_sha1nexte'', op_sha1nexte), (''op_sha1rnds4'', op_sha1rnds4), (''op_sha256msg1'', op_sha256msg1),
     (''op_sha256msg2'', op_sha256msg2), (''op_sha256rnds2'', op_sha256rnds2), (''op_shufpd'', op_shufpd),
     (''op_shufps'', op_shufps), (''op_sqrtpd'', op_sqrtpd h), (''op_sqrtps'', op_sqrtps h), (''op_sqrtsd'', op_sqrtsd h),
     (''op_sqrtss'', op_sqrtss h), (''op_subpd'', op_subpd h), (''op_subps'', op_subps h), (''op_subsd'', op_subsd h),
     (''op_subss'', op_subss h), (''op_ucomisd'', op_ucomisd), (''op_ucomiss'', op_ucomiss),
     (''op_vaddpd_evex'', op_vaddpd_evex h), (''op_vaddps_evex'', op_vaddps_evex h), (''op_vaesdec'', op_vaesdec),
     (''op_vaesdeclast'', op_vaesdeclast), (''op_vaesenc'', op_vaesenc), (''op_vaesenclast'', op_vaesenclast),
     (''op_vdivpd_evex'', op_vdivpd_evex h), (''op_vdivps_evex'', op_vdivps_evex h),
     (''op_vgatherdpd'', op_vgatherdpd junk), (''op_vgatherdps'', op_vgatherdps junk),
     (''op_vgatherqpd'', op_vgatherqpd junk), (''op_vgatherqps'', op_vgatherqps junk), (''op_vmaxpd_evex'', op_vmaxpd_evex),
     (''op_vmaxps_evex'', op_vmaxps_evex), (''op_vminpd_evex'', op_vminpd_evex), (''op_vminps_evex'', op_vminps_evex),
     (''op_vmovdqa'', op_vmovdqa), (''op_vmovdqa32'', op_vmovdqa32), (''op_vmovdqa64'', op_vmovdqa64),
     (''op_vmovdqu'', op_vmovdqu), (''op_vmovdqu32'', op_vmovdqu32), (''op_vmovdqu64'', op_vmovdqu64),
     (''op_vmulpd_evex'', op_vmulpd_evex h), (''op_vmulps_evex'', op_vmulps_evex h), (''op_vpaddb'', op_vpaddb),
     (''op_vpaddb_evex'', op_vpaddb_evex), (''op_vpaddd'', op_vpaddd), (''op_vpaddd_evex'', op_vpaddd_evex),
     (''op_vpaddq'', op_vpaddq), (''op_vpaddq_evex'', op_vpaddq_evex), (''op_vpaddw'', op_vpaddw),
     (''op_vpaddw_evex'', op_vpaddw_evex), (''op_vpand'', op_vpand), (''op_vpandd'', op_vpandd), (''op_vpandq'', op_vpandq),
     (''op_vpclmulqdq'', op_vpclmulqdq), (''op_vpcmpgtq'', op_vpcmpgtq), (''op_vpgatherdd'', op_vpgatherdd junk),
     (''op_vpgatherdq'', op_vpgatherdq junk), (''op_vpgatherqd'', op_vpgatherqd junk),
     (''op_vpgatherqq'', op_vpgatherqq junk), (''op_vpor'', op_vpor), (''op_vpord'', op_vpord), (''op_vporq'', op_vporq),
     (''op_vpscatterdd'', op_vpscatterdd junk), (''op_vpscatterdq'', op_vpscatterdq junk),
     (''op_vpscatterqd'', op_vpscatterqd junk), (''op_vpscatterqq'', op_vpscatterqq junk), (''op_vpshufb'', op_vpshufb),
     (''op_vpsubb'', op_vpsubb), (''op_vpsubb_evex'', op_vpsubb_evex), (''op_vpsubd'', op_vpsubd),
     (''op_vpsubd_evex'', op_vpsubd_evex), (''op_vpsubq'', op_vpsubq), (''op_vpsubq_evex'', op_vpsubq_evex),
     (''op_vpsubw'', op_vpsubw), (''op_vpsubw_evex'', op_vpsubw_evex), (''op_vpxor'', op_vpxor), (''op_vpxord'', op_vpxord),
     (''op_vpxorq'', op_vpxorq), (''op_vscatterdpd'', op_vscatterdpd junk), (''op_vscatterdps'', op_vscatterdps junk),
     (''op_vscatterqpd'', op_vscatterqpd junk), (''op_vscatterqps'', op_vscatterqps junk),
     (''op_vsqrtpd_evex'', op_vsqrtpd_evex h), (''op_vsqrtps_evex'', op_vsqrtps_evex h),
     (''op_vsubpd_evex'', op_vsubpd_evex h), (''op_vsubps_evex'', op_vsubps_evex h), (''op_vzeroall'', op_vzeroall),
     (''op_vzeroupper'', op_vzeroupper), (''op_xorpd'', op_xorpd), (''op_xorps'', op_xorps)]"

definition run_named :: "host_fp \<Rightarrow> (nat \<Rightarrow> u8) \<Rightarrow> string \<Rightarrow> 'm env \<Rightarrow> insn \<Rightarrow> 'm cpu \<Rightarrow> 'm cpu" where
  "run_named h junk n env i c =
     (case map_of (other_table h junk) n of None \<Rightarrow> c | Some f \<Rightarrow> f env i c)"

lemma table_names: "map fst (other_table h junk) = other_names"
  unfolding other_table_def other_names_def by (simp only: list.map fst_conv)

lemma named_handler:
  assumes "known_handler (H_other n)"
  shows "\<exists>f. map_of (other_table h junk) n = Some f"
proof -
  have "n \<in> fst ` set (other_table h junk)"
    unfolding list.set_map [symmetric] table_names using assms by (simp only: known_handler.simps)
  then show ?thesis by (metis map_of_eq_None_iff not_None_eq)
qed

text \<open>The integer handlers, which the handler datatype names one by one.\<close>

fun integer_handler :: "handler \<Rightarrow> bool" where
  "integer_handler (H_other n) \<longleftrightarrow> False"
| "integer_handler _ \<longleftrightarrow> True"

lemma integer_or_named: "integer_handler h \<or> (\<exists>n. h = H_other n)"
  by (cases h) simp_all

fun is_insn :: "handler \<Rightarrow> (Status + insn) option \<Rightarrow> bool" where
  "is_insn h (Some (Inr i)) \<longleftrightarrow> i_handler i = h"
| "is_insn h _ \<longleftrightarrow> False"



end
