(* ===== verification/Pe_Image.thy ===== *)
theory Pe_Image
  imports Memory_Interface Vector_Access
begin

text \<open>
  The image inspector \<^verbatim>\<open>src/src/host/pe_image.cpp\<close>: the header walk to the exception directory, the binary search of the function
  table, the unwinder and the search for a language handler.  All of it reads the image through a provider.  A function that
  returns a status and fills an out-parameter returns the status or the value.
\<close>

section \<open>Reading the image\<close>

text \<open>One \<^verbatim>\<open>mem.read\<close> into a zeroed buffer, with the early return on failure.\<close>

definition fetch :: "'m provider \<Rightarrow> GuestAddr \<Rightarrow> nat \<Rightarrow> 'm \<Rightarrow> (Status + u8 list) \<times> 'm" where
  "fetch p a n m = (case prov_read p a n m of (s, bs, m') \<Rightarrow> (if fail s then Inl s else Inr (padded n bs), m'))"

definition and_then :: "('e + 'a) \<times> 'm \<Rightarrow> ('a \<Rightarrow> 'm \<Rightarrow> ('e + 'b) \<times> 'm) \<Rightarrow> ('e + 'b) \<times> 'm" where
  "and_then r k = (case r of (Inl s, m) \<Rightarrow> (Inl s, m) | (Inr x, m) \<Rightarrow> k x m)"

lemma and_then_simps [simp]: "and_then (Inl s, m) k = (Inl s, m)" "and_then (Inr x, m) k = k x m"
  by (simp_all add: and_then_def)

lemma and_then_cong [fundef_cong]: "r = r' \<Longrightarrow> (\<And>x m. r' = (Inr x, m) \<Longrightarrow> k x m = k' x m) \<Longrightarrow> and_then r k = and_then r' k'"
  by (cases r') (auto simp: and_then_def split: sum.splits)

definition u32_at :: "nat \<Rightarrow> u8 list \<Rightarrow> u32" where
  "u32_at k bs = ucast (le_value (take 4 (drop k bs)))"

definition u16_at :: "nat \<Rightarrow> u8 list \<Rightarrow> u16" where
  "u16_at k bs = ucast (le_value (take 2 (drop k bs)))"

section \<open>The function table\<close>

record RuntimeFunction =
  rf_begin :: u32
  rf_end :: u32
  rf_unwind :: u32

text \<open>The exception directory: address and size.\<close>

definition read_pdata_dir :: "'m provider \<Rightarrow> GuestAddr \<Rightarrow> 'm \<Rightarrow> (Status + u32 \<times> u32) \<times> 'm" where
  "read_pdata_dir p base m =
     and_then (fetch p base 2 m) (\<lambda>mz m.
     if mz \<noteq> [0x4D, 0x5A] then (Inl St_Internal, m)
     else and_then (fetch p (base + 0x3C) 4 m) (\<lambda>lf m.
       let nt = base + ucast (u32_at 0 lf)
       in and_then (fetch p nt 4 m) (\<lambda>sig m.
          if sig \<noteq> [0x50, 0x45, 0, 0] then (Inl St_Internal, m)
          else and_then (fetch p (nt + 4) 2 m) (\<lambda>machine m.
            if u16_at 0 machine \<noteq> 0x8664 then (Inl St_NotImplemented, m)
            else and_then (fetch p (nt + 24 + 112 + 3 * 8) 8 m) (\<lambda>dir m. (Inr (u32_at 0 dir, u32_at 4 dir), m))))))"

definition runtime_function :: "u8 list \<Rightarrow> RuntimeFunction" where
  "runtime_function rec = \<lparr>rf_begin = u32_at 0 rec, rf_end = u32_at 4 rec, rf_unwind = u32_at 8 rec\<rparr>"

lemma middle_between:
  assumes "lo < (hi :: u32)"
  shows "lo \<le> lo + (hi - lo) div 2" "lo + (hi - lo) div 2 < hi" "unat (lo + (hi - lo) div 2) = unat lo + (unat hi - unat lo) div 2"
proof -
  have l: "unat lo < unat hi" using assms by (simp add: word_less_nat_alt)
  have d: "unat ((hi - lo) div 2) = (unat hi - unat lo) div 2"
    using assms by (simp add: unat_div unat_sub order_less_imp_le)
  have "unat lo + (unat hi - unat lo) div 2 < unat hi" using l by linarith
  moreover have "unat hi < 2 ^ 32" using unsigned_less [of hi, where ?'a = nat] by simp
  ultimately have "unat lo + unat ((hi - lo) div 2) < 2 ^ LENGTH(32)" using d by simp
  then show u: "unat (lo + (hi - lo) div 2) = unat lo + (unat hi - unat lo) div 2"
    using d by (simp add: unat_word_ariths)
  show "lo \<le> lo + (hi - lo) div 2" "lo + (hi - lo) div 2 < hi"
    using l by (simp_all add: word_le_nat_alt word_less_nat_alt u)
qed

lemma unat_Suc_below:
  assumes "x < (y :: u32)"
  shows "unat (x + 1) = unat x + 1"
proof -
  have "unat x + 1 \<le> unat y" using assms by (simp add: word_less_nat_alt)
  also have "unat y < 2 ^ LENGTH(32)" by (rule unsigned_less)
  finally show ?thesis by (simp add: unat_word_ariths)
qed

function pdata_search :: "'m provider \<Rightarrow> GuestAddr \<Rightarrow> u32 \<Rightarrow> u32 \<Rightarrow> u32 \<Rightarrow> 'm \<Rightarrow> (Status + RuntimeFunction) \<times> 'm" where
  "pdata_search p pdata target lo hi m =
     (if lo < hi
      then (let mid = lo + (hi - lo) div 2
            in and_then (fetch p (pdata + 12 * ucast mid) 12 m) (\<lambda>rec m.
                 let f = runtime_function rec
                 in if target < rf_begin f then pdata_search p pdata target lo mid m
                    else if rf_end f \<le> target then pdata_search p pdata target (mid + 1) hi m
                    else (Inr f, m)))
      else (Inl St_FunctionNotFound, m))"
  by pat_completeness auto

termination
proof (relation "measure (\<lambda>(p, pdata, target, lo, hi, m). unat hi - unat lo)", goal_cases)
  case (2 p pdata target lo hi m mid rec m' f)
  then show ?case using middle_between [of lo hi] by (simp add: word_less_nat_alt)
next
  case (3 p pdata target lo hi m mid rec m' f)
  have "unat (mid + 1) = unat mid + 1" using unat_Suc_below [of mid hi] middle_between(2) [OF 3(1)] 3(2) by simp
  moreover have "unat lo \<le> unat mid" "unat mid < unat hi"
    using 3(1,2) middle_between [of lo hi] by (simp_all add: word_less_nat_alt word_le_nat_alt)
  ultimately show ?case by simp
qed simp

declare pdata_search.simps [simp del]

definition pdata_lookup :: "'m provider \<Rightarrow> GuestAddr \<Rightarrow> GuestAddr \<Rightarrow> 'm \<Rightarrow> (Status + RuntimeFunction) \<times> 'm" where
  "pdata_lookup p image_base rip m =
     (if rip < image_base then (Inl St_FunctionNotFound, m)
      else and_then (read_pdata_dir p image_base m) (\<lambda>(rva, sz) m.
        if sz = 0 then (Inl St_FunctionNotFound, m)
        else pdata_search p (image_base + ucast rva) (ucast (rip - image_base)) 0 (sz div 12) m))"

section \<open>Unwinding\<close>

text \<open>Codes of the unwind operations.\<close>

abbreviation (input) UWOP_PUSH_NONVOL :: u8 where "UWOP_PUSH_NONVOL \<equiv> 0"
abbreviation (input) UWOP_ALLOC_LARGE :: u8 where "UWOP_ALLOC_LARGE \<equiv> 1"
abbreviation (input) UWOP_ALLOC_SMALL :: u8 where "UWOP_ALLOC_SMALL \<equiv> 2"
abbreviation (input) UWOP_SET_FPREG :: u8 where "UWOP_SET_FPREG \<equiv> 3"
abbreviation (input) UWOP_SAVE_NONVOL :: u8 where "UWOP_SAVE_NONVOL \<equiv> 4"
abbreviation (input) UWOP_SAVE_NONVOL_FAR :: u8 where "UWOP_SAVE_NONVOL_FAR \<equiv> 5"
abbreviation (input) UWOP_SAVE_XMM128 :: u8 where "UWOP_SAVE_XMM128 \<equiv> 8"
abbreviation (input) UWOP_SAVE_XMM128_FAR :: u8 where "UWOP_SAVE_XMM128_FAR \<equiv> 9"
abbreviation (input) UWOP_PUSH_MACHFRAME :: u8 where "UWOP_PUSH_MACHFRAME \<equiv> 10"

definition unwind_op_size :: "u8 \<Rightarrow> u8 \<Rightarrow> u8" where
  "unwind_op_size op info =
     (if op = UWOP_ALLOC_LARGE then if info = 0 then 2 else 3
      else if op = UWOP_SAVE_NONVOL \<or> op = UWOP_SAVE_XMM128 then 2
      else if op = UWOP_SAVE_NONVOL_FAR \<or> op = UWOP_SAVE_XMM128_FAR then 3
      else 1)"

text \<open>A set low bit of the unwind address links to another entry of the table; sixteen links are followed.\<close>

fun follow_chain :: "nat \<Rightarrow> 'm provider \<Rightarrow> GuestAddr \<Rightarrow> u32 \<Rightarrow> 'm \<Rightarrow> (Status + u32) \<times> 'm" where
  "follow_chain 0 p image_base ui m = (Inr ui, m)"
| "follow_chain (Suc k) p image_base ui m =
     (if ui AND 1 = 0 then (Inr ui, m)
      else and_then (fetch p (image_base + (ucast ui AND NOT 1)) 12 m) (\<lambda>parent m. follow_chain k p image_base (u32_at 8 parent) m))"

text \<open>What one code does to the stack pointer.\<close>

definition apply_unwind :: "'m provider \<Rightarrow> GuestAddr \<Rightarrow> u8 \<Rightarrow> u8 \<Rightarrow> u8 \<Rightarrow> u64 \<Rightarrow> 'm \<Rightarrow> (Status + u64) \<times> 'm" where
  "apply_unwind p codes idx op info rsp m =
     (let slot = codes + (ucast idx + 1) * 2
      in if op = UWOP_PUSH_NONVOL then (Inr (rsp + 8), m)
         else if op = UWOP_ALLOC_SMALL then (Inr (rsp + (ucast info * 8 + 8)), m)
         else if op = UWOP_ALLOC_LARGE then
           (if info = 0 then and_then (fetch p slot 2 m) (\<lambda>extra m. (Inr (rsp + ucast (ucast (u16_at 0 extra) * 8 :: u32)), m))
            else and_then (fetch p slot 4 m) (\<lambda>extra m. (Inr (rsp + ucast (u32_at 0 extra)), m)))
         else if op \<in> {UWOP_SET_FPREG, UWOP_SAVE_NONVOL, UWOP_SAVE_NONVOL_FAR, UWOP_SAVE_XMM128, UWOP_SAVE_XMM128_FAR} then (Inr rsp, m)
         else (Inl St_NotImplemented, m))"

text \<open>The loop over the codes.  Its index has eight bits, so it need not end.\<close>

partial_function (option) unwind_codes ::
  "'m provider \<Rightarrow> GuestAddr \<Rightarrow> u32 \<Rightarrow> u8 \<Rightarrow> u8 \<Rightarrow> u64 \<Rightarrow> 'm \<Rightarrow> ((Status + u64) \<times> 'm) option" where
  "unwind_codes p codes offset n idx rsp m =
     (if idx < n
      then (case fetch p (codes + ucast idx * 2) 2 m of
              (Inl s, m) \<Rightarrow> Some (Inl s, m)
            | (Inr code, m) \<Rightarrow>
                (let op = code ! 1 AND 0x0F; info = drop_bit 4 (code ! 1)
                 in case (if ucast (code ! 0) \<le> offset then apply_unwind p codes idx op info rsp m else (Inr rsp, m)) of
                      (Inl s, m) \<Rightarrow> Some (Inl s, m)
                    | (Inr rsp, m) \<Rightarrow> unwind_codes p codes offset n (idx + unwind_op_size op info) rsp m))
      else Some (Inr rsp, m))"

declare unwind_codes.simps [code]

definition unwind_info :: "'m provider \<Rightarrow> GuestAddr \<Rightarrow> GuestAddr \<Rightarrow> 'm \<Rightarrow> (Status + RuntimeFunction \<times> u32 \<times> u8 list) \<times> 'm" where
  "unwind_info p image_base rip m =
     and_then (pdata_lookup p image_base rip m) (\<lambda>rf m.
     and_then (follow_chain 16 p image_base (rf_unwind rf) m) (\<lambda>ui m.
     and_then (fetch p (image_base + ucast ui) 4 m) (\<lambda>header m. (Inr (rf, ui, header), m))))"

text \<open>The caller's instruction and stack pointers; \<open>None\<close> is a loop that does not end.\<close>

definition seh_unwind_frame ::
  "'m provider \<Rightarrow> GuestAddr \<Rightarrow> GuestAddr \<Rightarrow> GuestAddr \<Rightarrow> 'm \<Rightarrow> ((Status + GuestAddr \<times> GuestAddr) \<times> 'm) option" where
  "seh_unwind_frame p image_base rip rsp m =
     (case unwind_info p image_base rip m of
        (Inl s, m) \<Rightarrow> Some (Inl s, m)
      | (Inr (rf, ui, header), m) \<Rightarrow>
          (let offset = ucast (rip - (image_base + ucast (rf_begin rf)))
           in case unwind_codes p (image_base + ucast ui + 4) offset (header ! 2) 0 rsp m of
                None \<Rightarrow> None
              | Some (Inl s, m) \<Rightarrow> Some (Inl s, m)
              | Some (Inr working_rsp, m) \<Rightarrow>
                  Some (and_then (fetch p working_rsp 8 m) (\<lambda>b m. (Inr (le_value b, working_rsp + 8), m)))))"

section \<open>Language handlers\<close>

record ExceptionInfo =
  handler_rva :: u32
  scope_data_rva :: u32
  is_exception_handler :: bool
  is_unwind_handler :: bool

definition seh_exception_handler :: "'m provider \<Rightarrow> GuestAddr \<Rightarrow> GuestAddr \<Rightarrow> 'm \<Rightarrow> (Status + ExceptionInfo) \<times> 'm" where
  "seh_exception_handler p image_base rip m =
     and_then (unwind_info p image_base rip m) (\<lambda>(rf, ui, header) m.
       let flags = drop_bit 3 (header ! 0); e = flags AND 1 \<noteq> 0; u = flags AND 2 \<noteq> 0;
           codes_bytes = ucast (header ! 2) * 2 :: u32; codes_padded = (codes_bytes + 3) AND NOT 3
       in if \<not> e \<and> \<not> u then (Inl St_FunctionNotFound, m)
          else and_then (fetch p (image_base + ucast ui + 4 + ucast codes_padded) 4 m) (\<lambda>h m.
            (Inr \<lparr>handler_rva = u32_at 0 h, scope_data_rva = ui + 4 + codes_padded + 4, is_exception_handler = e,
                  is_unwind_handler = u\<rparr>, m)))"

end
