(* ===== verification/Pe_Image_Facts.thy ===== *)
theory Pe_Image_Facts
  imports Pe_Image Decoder_Runs
begin

text \<open>
  What the image inspector finds.  On a memory with the paged contract that shows an image with a sorted function table, the
  binary search returns the entry covering an address; a model of prologs and of their unwind codes is undone by the unwinder;
  and the loop over the codes ends or not depending on the number of slots.  The lemmas are proved for any paged memory and read
  off for the provider chain.
\<close>

section \<open>Bytes in a view\<close>

definition shows_at :: "(GuestAddr \<Rightarrow> u8 option) \<Rightarrow> GuestAddr \<Rightarrow> u8 list \<Rightarrow> bool" where
  "shows_at v a bs \<longleftrightarrow> (\<forall>i < length bs. v (a + of_nat i) = Some (bs ! i))"

lemma shows_at_append: "shows_at v a (xs @ ys) \<longleftrightarrow> shows_at v a xs \<and> shows_at v (a + of_nat (length xs)) ys"
proof
  assume l: "shows_at v a (xs @ ys)"
  have "v (a + of_nat (length xs + i)) = Some (ys ! i)" if "i < length ys" for i
    using l [unfolded shows_at_def, rule_format, of "length xs + i"] that by simp
  moreover have "v (a + of_nat i) = Some (xs ! i)" if "i < length xs" for i
    using l [unfolded shows_at_def, rule_format, of i] that by (simp add: nth_append)
  ultimately show "shows_at v a xs \<and> shows_at v (a + of_nat (length xs)) ys" by (simp add: shows_at_def add.assoc)
next
  assume r: "shows_at v a xs \<and> shows_at v (a + of_nat (length xs)) ys"
  have "v (a + of_nat i) = Some ((xs @ ys) ! i)" if "i < length (xs @ ys)" for i
  proof (cases "i < length xs")
    case True
    then show ?thesis using r by (simp add: shows_at_def nth_append)
  next
    case False
    then obtain k where k: "i = length xs + k" using le_Suc_ex not_less by blast
    then have "v (a + of_nat (length xs) + of_nat k) = Some (ys ! k)" using r that by (simp add: shows_at_def)
    then show ?thesis using k by (simp add: add.assoc)
  qed
  then show "shows_at v a (xs @ ys)" by (simp add: shows_at_def)
qed

lemma shows_at_Nil [simp]: "shows_at v a []"
  by (simp add: shows_at_def)

context paged_memory
begin

lemma fetch_shown:
  assumes "inv m" "view m = v" "shows_at v a bs" "length bs = n"
  obtains m' where "fetch \<lparr>prov_read = rd, prov_write = wr\<rparr> a n m = (Inr bs, m')" "inv m'" "view m' = v"
proof -
  have "\<forall>i < n. view m (a + of_nat i) \<noteq> None" using assms(2-4) by (simp add: shows_at_def)
  from rd_mapped [OF assms(1) this] obtain cs m' where r: "rd a n m = (St_Ok, cs, m')" by blast
  from rd_ok [OF assms(1) r] assms(2-4) have "cs = bs" by (auto simp: shows_at_def intro: nth_equalityI)
  then have "fetch \<lparr>prov_read = rd, prov_write = wr\<rparr> a n m = (Inr bs, m')"
    using r padded_full [of bs n] assms(4) by (simp add: fetch_def)
  with rd_keeps [OF assms(1) r] assms(2) show thesis using that by blast
qed

lemma fetch_keeps:
  assumes "inv m" "fetch \<lparr>prov_read = rd, prov_write = wr\<rparr> a n m = (r, m')"
  shows "inv m'" "view m' = view m"
  using assms rd_keeps [OF assms(1), of a n] by (auto simp: fetch_def split: prod.splits)

end

section \<open>The function table\<close>

text \<open>An entry in memory, and a table that is sorted without overlaps.\<close>

definition entry_bytes :: "RuntimeFunction \<Rightarrow> u8 list" where
  "entry_bytes f = le_bytes 4 (ucast (rf_begin f)) @ le_bytes 4 (ucast (rf_end f)) @ le_bytes 4 (ucast (rf_unwind f))"

definition covers :: "u32 \<Rightarrow> RuntimeFunction \<Rightarrow> bool" where
  "covers t f \<longleftrightarrow> rf_begin f \<le> t \<and> t < rf_end f"

definition sorted_table :: "RuntimeFunction list \<Rightarrow> bool" where
  "sorted_table fs \<longleftrightarrow> (\<forall>f \<in> set fs. rf_begin f < rf_end f) \<and> sorted_wrt (\<lambda>f g. rf_end f \<le> rf_begin g) fs"

lemma length_entry [simp]: "length (entry_bytes f) = 12"
  by (simp add: entry_bytes_def)

lemma u32_le [simp]: "u32_at 0 (le_bytes 4 (ucast (x :: u32)) @ bs) = x"
proof -
  have "ucast (take_bit 32 (ucast x :: u64)) = x" by (rule bit_word_eqI) (simp add: bit_unsigned_iff bit_take_bit_iff)
  then show ?thesis by (simp add: u32_at_def le_value_le_bytes)
qed

lemma u32_at_drop: "length as = k \<Longrightarrow> u32_at (k + n) (as @ bs) = u32_at n bs"
  by (simp add: u32_at_def)

lemma runtime_function_entry [simp]: "runtime_function (entry_bytes f) = f"
proof -
  have "u32_at 0 (le_bytes 4 (ucast (rf_unwind f))) = rf_unwind f" using u32_le [of "rf_unwind f" "[]"] by simp
  then show ?thesis
    using u32_at_drop [of "le_bytes 4 (ucast (rf_begin f))" 4 0] u32_at_drop [of "le_bytes 4 (ucast (rf_begin f))" 4 4]
      u32_at_drop [of "le_bytes 4 (ucast (rf_end f))" 4 0]
    by (simp add: runtime_function_def entry_bytes_def)
qed

lemma sorted_table_less:
  assumes "sorted_table fs" "i < j" "j < length fs"
  shows "rf_end (fs ! i) \<le> rf_begin (fs ! j)"
  using assms by (simp add: sorted_table_def sorted_wrt_iff_nth_less)

lemma sorted_table_entry: "sorted_table fs \<Longrightarrow> i < length fs \<Longrightarrow> rf_begin (fs ! i) < rf_end (fs ! i)"
  by (simp add: sorted_table_def)

lemma find_covers:
  assumes "sorted_table fs" "i < length fs" "covers t (fs ! i)"
  shows "List.find (covers t) fs = Some (fs ! i)"
proof -
  have "\<not> covers t (fs ! j)" if "j < i" for j
    using sorted_table_less [OF assms(1) that assms(2)] assms(3) by (auto simp: covers_def)
  with assms show ?thesis unfolding find_Some_iff by blast
qed

context paged_memory
begin

lemma pdata_search_ok:
  assumes srt: "sorted_table fs" and size: "length fs < 2 ^ 32"
    and shown: "\<forall>k < length fs. shows_at v (pdata + 12 * of_nat k) (entry_bytes (fs ! k))"
  shows "inv m \<Longrightarrow> view m = v \<Longrightarrow> unat hi \<le> length fs \<Longrightarrow> (\<forall>k < length fs. k < unat lo \<longrightarrow> rf_end (fs ! k) \<le> t) \<Longrightarrow>
    (\<forall>k < length fs. unat hi \<le> k \<longrightarrow> t < rf_begin (fs ! k)) \<Longrightarrow>
    \<exists>m'. pdata_search \<lparr>prov_read = rd, prov_write = wr\<rparr> pdata t lo hi m =
      (case List.find (covers t) fs of None \<Rightarrow> Inl St_FunctionNotFound | Some f \<Rightarrow> Inr f, m') \<and> inv m' \<and> view m' = v"
proof (induction "unat hi - unat lo" arbitrary: lo hi m rule: less_induct)
  case less
  let ?p = "\<lparr>prov_read = rd, prov_write = wr\<rparr>"
  show ?case
  proof (cases "lo < hi")
    case False
    then have "unat hi \<le> unat lo" by (simp add: word_less_nat_alt)
    then have "\<not> covers t (fs ! k)" if "k < length fs" for k
      using less(5,6) that by (cases "k < unat lo") (auto simp: covers_def not_less)
    then have "List.find (covers t) fs = None" by (auto simp: find_None_iff in_set_conv_nth)
    then show ?thesis using False less(2,3) by (subst pdata_search.simps) auto
  next
    case True
    define mid where "mid = lo + (hi - lo) div 2"
    note mb = middle_between [OF True, folded mid_def]
    have mid: "unat lo \<le> unat mid" "unat mid < unat hi" using mb(1,2) by (simp_all add: word_le_nat_alt word_less_nat_alt)
    then have len: "unat mid < length fs" using less(4) by simp
    let ?f = "fs ! unat mid"
    have "shows_at (view m) (pdata + 12 * ucast mid) (entry_bytes ?f)" using shown [rule_format, OF len] less(3) by simp
    then obtain m' where f: "fetch ?p (pdata + 12 * ucast mid) 12 m = (Inr (entry_bytes ?f), m')" and m': "inv m'" "view m' = v"
      using fetch_shown [OF less(2,3) _ length_entry] less(3) by blast
    consider "t < rf_begin ?f" | "rf_end ?f \<le> t" "\<not> t < rf_begin ?f" | "covers t ?f"
      unfolding covers_def not_less using not_le by blast
    then show ?thesis
    proof cases
      case 1
      have "t < rf_begin (fs ! k)" if "k < length fs" "unat mid \<le> k" for k
        using 1 sorted_table_less [OF srt, of "unat mid" k] sorted_table_entry [OF srt len] that by (cases "k = unat mid") auto
      from less(1) [of mid lo m', OF _ m' _ less(5)] this show ?thesis
        using 1 True mid len by (subst pdata_search.simps) (simp add: mid_def [symmetric] f Let_def)
    next
      case 2
      have "rf_end (fs ! k) \<le> t" if "k < length fs" "k < unat mid + 1" for k
        using 2 sorted_table_less [OF srt, of k "unat mid"] sorted_table_entry [OF srt len] len that
        by (cases "k = unat mid") auto
      from less(1) [of hi "mid + 1" m', OF _ m' less(4) _ less(6)] this show ?thesis
        using 2 True mid unat_Suc_below [OF mb(2)] by (subst pdata_search.simps) (simp add: mid_def [symmetric] f Let_def)
    next
      case 3
      then have "\<not> t < rf_begin ?f" "\<not> rf_end ?f \<le> t" by (simp_all add: covers_def not_less not_le)
      then show ?thesis using find_covers [OF srt len 3] True m'
        by (subst pdata_search.simps) (simp add: mid_def [symmetric] f Let_def)
    qed
  qed
qed

end

text \<open>An image whose headers lead to the table \<open>fs\<close> at \<open>rva\<close>; \<open>lf\<close> is where the second header starts.\<close>

definition image_table :: "(GuestAddr \<Rightarrow> u8 option) \<Rightarrow> GuestAddr \<Rightarrow> u32 \<Rightarrow> u32 \<Rightarrow> RuntimeFunction list \<Rightarrow> bool" where
  "image_table v base lf rva fs \<longleftrightarrow>
     shows_at v base [0x4D, 0x5A] \<and> shows_at v (base + 0x3C) (le_bytes 4 (ucast lf)) \<and>
     (let nt = base + ucast lf
      in shows_at v nt [0x50, 0x45, 0, 0] \<and> shows_at v (nt + 4) [0x64, 0x86] \<and>
         shows_at v (nt + 24 + 112 + 3 * 8) (le_bytes 4 (ucast rva) @ le_bytes 4 (ucast (of_nat (12 * length fs) :: u32)))) \<and>
     shows_at v (base + ucast rva) (concat (map entry_bytes fs)) \<and> sorted_table fs \<and> length fs < 2 ^ 28"

lemma shows_entries:
  "shows_at v a (concat (map entry_bytes fs)) \<Longrightarrow> k < length fs \<Longrightarrow> shows_at v (a + 12 * of_nat k) (entry_bytes (fs ! k))"
proof (induction fs arbitrary: a k)
  case (Cons f fs)
  then have c: "shows_at v a (entry_bytes f)" "shows_at v (a + 12) (concat (map entry_bytes fs))" by (simp_all add: shows_at_append)
  show ?case
  proof (cases k)
    case (Suc j)
    from Cons.IH [OF c(2), of j] show ?thesis using Cons.prems(2) Suc by (simp add: algebra_simps)
  qed (use c in simp)
qed simp

lemma dir_fields:
  "u32_at 4 (le_bytes 4 (ucast (r :: u32)) @ le_bytes 4 (ucast (n :: u32))) = n"
  using u32_at_drop [of "le_bytes 4 (ucast r)" 4 0 "le_bytes 4 (ucast n)"] u32_le [of n "[]"] by simp

context paged_memory
begin

lemma read_dir_ok:
  assumes "image_table v base lf rva fs" "inv m" "view m = v"
  obtains m' where "read_pdata_dir \<lparr>prov_read = rd, prov_write = wr\<rparr> base m = (Inr (rva, of_nat (12 * length fs)), m')" "inv m'" "view m' = v"
proof -
  let ?p = "\<lparr>prov_read = rd, prov_write = wr\<rparr>" and ?nt = "base + ucast lf"
  let ?dir = "le_bytes 4 (ucast rva) @ le_bytes 4 (ucast (of_nat (12 * length fs) :: u32))"
  have t: "shows_at v base [0x4D, 0x5A]" "shows_at v (base + 0x3C) (le_bytes 4 (ucast lf))" "shows_at v ?nt [0x50, 0x45, 0, 0]"
    "shows_at v (?nt + 4) [0x64, 0x86]" "shows_at v (?nt + 24 + 112 + 3 * 8) ?dir"
    using assms(1) unfolding image_table_def Let_def by blast+
  obtain m1 where 1: "fetch ?p base 2 m = (Inr [0x4D, 0x5A], m1)" "inv m1" "view m1 = v"
    by (rule fetch_shown [OF assms(2,3) t(1), of 2]) simp_all
  obtain m2 where 2: "fetch ?p (base + 0x3C) 4 m1 = (Inr (le_bytes 4 (ucast lf)), m2)" "inv m2" "view m2 = v"
    by (rule fetch_shown [OF 1(2,3) t(2), of 4]) simp_all
  obtain m3 where 3: "fetch ?p ?nt 4 m2 = (Inr [0x50, 0x45, 0, 0], m3)" "inv m3" "view m3 = v"
    by (rule fetch_shown [OF 2(2,3) t(3), of 4]) simp_all
  obtain m4 where 4: "fetch ?p (?nt + 4) 2 m3 = (Inr [0x64, 0x86], m4)" "inv m4" "view m4 = v"
    by (rule fetch_shown [OF 3(2,3) t(4), of 2]) simp_all
  obtain m5 where 5: "fetch ?p (?nt + 24 + 112 + 3 * 8) 8 m4 = (Inr ?dir, m5)" "inv m5" "view m5 = v"
    by (rule fetch_shown [OF 4(2,3) t(5), of 8]) simp_all
  have lf: "u32_at 0 (le_bytes 4 (ucast lf)) = lf" using u32_le [of lf "[]"] by simp
  have machine: "u16_at 0 [0x64, 0x86] = 0x8664" by code_simp
  have "read_pdata_dir ?p base m = (Inr (rva, of_nat (12 * length fs)), m5)"
    unfolding read_pdata_dir_def 1(1) and_then_simps Let_def 2(1) lf 3(1) 4(1) machine
    by (simp only: not_True_eq_False if_False 4(1) and_then_simps machine 5(1) u32_le dir_fields simp_thms)
  with 5 show thesis using that by blast
qed

lemma pdata_lookup_ok:
  assumes "image_table v base lf rva fs" "inv m" "view m = v"
  shows "\<exists>m'. pdata_lookup \<lparr>prov_read = rd, prov_write = wr\<rparr> base rip m =
    (if rip < base then Inl St_FunctionNotFound
     else case List.find (covers (ucast (rip - base))) fs of None \<Rightarrow> Inl St_FunctionNotFound | Some f \<Rightarrow> Inr f, m') \<and>
    inv m' \<and> view m' = v"
proof (cases "rip < base")
  case False
  let ?n = "of_nat (12 * length fs) :: u32"
  obtain m1 where d: "read_pdata_dir \<lparr>prov_read = rd, prov_write = wr\<rparr> base m = (Inr (rva, ?n), m1)" "inv m1" "view m1 = v"
    using read_dir_ok [OF assms] .
  note t = assms(1) [unfolded image_table_def Let_def]
  have n: "unat ?n = 12 * length fs" using t by (simp only: unat_of_nat) (simp add: take_bit_nat_eq_self)
  then have z: "?n = 0 \<longleftrightarrow> fs = []" unfolding word_unat_eq_iff by simp
  have q: "unat (?n div 12) = length fs" using n by (simp add: unat_div)
  have e: "\<forall>k < length fs. shows_at v (base + ucast rva + 12 * of_nat k) (entry_bytes (fs ! k))" using t shows_entries by blast
  have "length fs < 2 ^ 32" using t by simp
  from pdata_search_ok [OF _ this e d(2,3), of "?n div 12" 0 "ucast (rip - base)"] q t
  show ?thesis using False d z by (auto simp: pdata_lookup_def)
qed (use assms in \<open>simp add: pdata_lookup_def\<close>)

end

section \<open>Prologs and their unwind codes\<close>

text \<open>The instructions of a prolog that unwind information describes.\<close>

datatype prolog_op = Push u8 | Alloc_small u8 | Alloc_scaled u16 | Alloc_large u32 | Save u8 u16

fun op_code :: "prolog_op \<Rightarrow> u8 \<times> u8" where
  "op_code (Push r) = (0, r)"
| "op_code (Alloc_small k) = (2, k)"
| "op_code (Alloc_scaled w) = (1, 0)"
| "op_code (Alloc_large w) = (1, 1)"
| "op_code (Save r w) = (4, r)"

fun op_extra :: "prolog_op \<Rightarrow> u8 list" where
  "op_extra (Alloc_scaled w) = le_bytes 2 (ucast w)"
| "op_extra (Alloc_large w) = le_bytes 4 (ucast w)"
| "op_extra (Save r w) = le_bytes 2 (ucast w)"
| "op_extra _ = []"

text \<open>By how much the stack pointer goes down.\<close>

fun op_grows :: "prolog_op \<Rightarrow> u64" where
  "op_grows (Push r) = 8"
| "op_grows (Alloc_small k) = 8 * ucast k + 8"
| "op_grows (Alloc_scaled w) = 8 * ucast w"
| "op_grows (Alloc_large w) = ucast w"
| "op_grows (Save r w) = 0"

text \<open>One entry: the offset behind the instruction, the operation, its operands.\<close>

definition code_bytes :: "u8 \<times> prolog_op \<Rightarrow> u8 list" where
  "code_bytes = (\<lambda>(off, op). [off, fst (op_code op) OR push_bit 4 (snd (op_code op))] @ op_extra op)"

definition op_slots :: "prolog_op \<Rightarrow> nat" where
  "op_slots op = 1 + length (op_extra op) div 2"

definition op_wf :: "prolog_op \<Rightarrow> bool" where
  "op_wf op \<longleftrightarrow> snd (op_code op) < 16"

text \<open>The part of the prolog behind which an offset in the function lies, and the room it takes on the stack.\<close>

definition executed :: "u32 \<Rightarrow> (u8 \<times> prolog_op) list \<Rightarrow> (u8 \<times> prolog_op) list" where
  "executed k ops = filter (\<lambda>(off, op). ucast off \<le> k) ops"

definition frame_size :: "(u8 \<times> prolog_op) list \<Rightarrow> u64" where
  "frame_size ops = (\<Sum>(off, op) \<leftarrow> ops. op_grows op)"

lemma length_extra: "length (code_bytes (off, op)) = 2 * op_slots op" "op_slots op \<le> 3"
  by (cases op; simp add: code_bytes_def op_slots_def)+

lemma nibbles:
  assumes "x < (16 :: u8)" "y < 16"
  shows "(x OR push_bit 4 y) AND 0x0F = x" "drop_bit 4 (x OR push_bit 4 y) = y"
proof -
  have b: "bit (0x0F :: u8) n \<longleftrightarrow> n < 4" for n
  proof -
    have "(0x0F :: u8) = mask 4" by (simp add: mask_eq_exp_minus_1)
    then show ?thesis by (simp only: bit_mask_iff) auto
  qed
  have lo: "\<not> bit z n" if "z < 16" "4 \<le> n" for z :: u8 and n
  proof
    assume "bit z n"
    then have "bit (unat z) n" by (simp add: bit_unsigned_iff)
    then have "odd (unat z div 2 ^ n)" by (simp add: bit_iff_odd)
    moreover have "unat z < 2 ^ 4" using that(1) by (simp add: word_less_nat_alt)
    then have "unat z < 2 ^ n" using power_increasing [OF that(2), of "2 :: nat"] by linarith
    ultimately show False by simp
  qed
  show "(x OR push_bit 4 y) AND 0x0F = x"
    by (rule bit_word_eqI) (simp only: bit_and_iff bit_or_iff bit_push_bit_iff b, use lo [OF assms(1)] not_less in blast)
  show "drop_bit 4 (x OR push_bit 4 y) = y"
    by (rule bit_word_eqI)
      (use lo [OF assms(1)] lo [OF assms(2), unfolded not_less [symmetric]] in \<open>auto simp: bit_drop_bit_eq bit_or_iff bit_push_bit_iff not_less [symmetric] dest: bit_imp_le_length\<close>)
qed

lemma op_code_cases: "fst (op_code op) < 16" "op_wf op \<Longrightarrow> unat (unwind_op_size (fst (op_code op)) (snd (op_code op))) = op_slots op"
  by (cases op; simp add: unwind_op_size_def op_slots_def)+

lemma code_parts:
  assumes "op_wf op"
  shows "code_bytes (off, op) = [off, code_bytes (off, op) ! 1] @ op_extra op" "code_bytes (off, op) ! 1 AND 0x0F = fst (op_code op)"
    "drop_bit 4 (code_bytes (off, op) ! 1) = snd (op_code op)"
  using nibbles [OF op_code_cases(1), of "snd (op_code op)" op] assms by (simp_all add: code_bytes_def op_wf_def)

lemma follow_chain_none: "ui AND 1 = 0 \<Longrightarrow> follow_chain k p base ui m = (Inr ui, m)"
  by (cases k) simp_all

text \<open>Unwind information in memory: flags, the length of the prolog, the number of slots, the frame register, the codes.\<close>

definition info_bytes :: "u8 \<Rightarrow> u8 \<Rightarrow> u8 \<Rightarrow> (u8 \<times> prolog_op) list \<Rightarrow> u8 list" where
  "info_bytes flags len frame ops = [flags, len, of_nat (\<Sum>(off, op) \<leftarrow> ops. op_slots op), frame] @ concat (map code_bytes ops)"

context paged_memory
begin

lemma apply_op:
  assumes "inv m" "view m = v" "shows_at v (codes + (ucast idx + 1) * 2) (op_extra op)"
  obtains m' where "apply_unwind \<lparr>prov_read = rd, prov_write = wr\<rparr> codes idx (fst (op_code op)) (snd (op_code op)) rsp m =
      (Inr (rsp + op_grows op), m')" "inv m'" "view m' = v"
proof (cases op)
  let ?p = "\<lparr>prov_read = rd, prov_write = wr\<rparr>"
  case (Alloc_scaled w)
  have u: "u16_at 0 (le_bytes 2 (ucast w)) = w"
  proof -
    have "ucast (take_bit 16 (ucast w :: u64)) = w" by (rule bit_word_eqI) (simp add: bit_unsigned_iff bit_take_bit_iff)
    then show ?thesis by (simp add: u16_at_def le_value_le_bytes)
  qed
  have t: "ucast (ucast w * 8 :: u32) = (8 * ucast w :: u64)"
  proof -
    have "unat w < 65536" using unsigned_less [of w, where ?'a = nat] by simp
    then show ?thesis by (simp add: word_unat_eq_iff unat_word_ariths unsigned_ucast_eq take_bit_eq_mod)
  qed
  obtain m' where f: "fetch ?p (codes + (ucast idx + 1) * 2) 2 m = (Inr (le_bytes 2 (ucast w)), m')" "inv m'" "view m' = v"
    by (rule fetch_shown [OF assms(1,2), of _ "le_bytes 2 (ucast w)" 2]) (use assms(3) Alloc_scaled in simp_all)
  have "apply_unwind ?p codes idx 1 0 rsp m = (Inr (rsp + 8 * ucast w), m')"
    unfolding apply_unwind_def Let_def f(1) and_then_simps u t by simp
  then show thesis using that f Alloc_scaled by simp
next
  let ?p = "\<lparr>prov_read = rd, prov_write = wr\<rparr>"
  case (Alloc_large w)
  have u: "u32_at 0 (le_bytes 4 (ucast w)) = w" using u32_le [of w "[]"] by simp
  obtain m' where f: "fetch ?p (codes + (ucast idx + 1) * 2) 4 m = (Inr (le_bytes 4 (ucast w)), m')" "inv m'" "view m' = v"
    by (rule fetch_shown [OF assms(1,2), of _ "le_bytes 4 (ucast w)" 4]) (use assms(3) Alloc_large in simp_all)
  have "apply_unwind ?p codes idx 1 1 rsp m = (Inr (rsp + ucast w), m')"
    unfolding apply_unwind_def Let_def f(1) and_then_simps u by simp
  then show thesis using that f Alloc_large by simp
next
  case (Alloc_small x)
  then show thesis using that [of m] assms by (simp add: apply_unwind_def mult.commute)
qed (use assms that [of m] in \<open>simp_all add: apply_unwind_def\<close>)

lemma unwind_codes_ok:
  "inv m \<Longrightarrow> view m = v \<Longrightarrow> shows_at v (codes + ucast idx * 2) (concat (map code_bytes ops)) \<Longrightarrow> \<forall>(off, op) \<in> set ops. op_wf op \<Longrightarrow>
   unat idx + (\<Sum>(off, op) \<leftarrow> ops. op_slots op) = unat n \<Longrightarrow>
   \<exists>m'. unwind_codes \<lparr>prov_read = rd, prov_write = wr\<rparr> codes k n idx rsp m = Some (Inr (rsp + frame_size (executed k ops)), m') \<and>
     inv m' \<and> view m' = v"
proof (induction ops arbitrary: idx rsp m)
  case Nil
  then have "idx = n" by (simp add: word_unat_eq_iff)
  then show ?case using Nil by (subst unwind_codes.simps) (simp add: executed_def frame_size_def)
next
  case (Cons e ops)
  obtain off op where e: "e = (off, op)" by (cases e)
  let ?p = "\<lparr>prov_read = rd, prov_write = wr\<rparr>" and ?b = "code_bytes (off, op) ! 1" and ?a = "codes + ucast idx * 2"
  have wf: "op_wf op" using Cons.prems(4) e by simp
  note parts = code_parts [OF wf, of off]
  have c: "shows_at v ?a (code_bytes (off, op))" using Cons.prems(3) e by (simp add: shows_at_append)
  have "shows_at v ?a ([off, ?b] @ op_extra op)" by (rule back_subst [of "shows_at v ?a", OF c parts(1)])
  then have sh: "shows_at v ?a [off, ?b]" "shows_at v (?a + 2) (op_extra op)" unfolding shows_at_append by simp_all
  have rest: "shows_at v (?a + of_nat (2 * op_slots op)) (concat (map code_bytes ops))"
    using Cons.prems(3) e by (simp add: shows_at_append length_extra(1))
  obtain m1 where 1: "fetch ?p ?a 2 m = (Inr [off, ?b], m1)" "inv m1" "view m1 = v"
    by (rule fetch_shown [OF Cons.prems(1,2) sh(1), of 2]) simp_all
  have less: "unat idx + op_slots op \<le> unat n" "unat n < 256" "1 \<le> op_slots op"
    using Cons.prems(5) e unsigned_less [of n, where ?'a = nat] by (simp_all add: op_slots_def)
  then have lt: "idx < n" by (simp add: word_less_nat_alt)
  define idx' where "idx' = idx + unwind_op_size (fst (op_code op)) (snd (op_code op))"
  have i: "unat idx' = unat idx + op_slots op"
    unfolding idx'_def using op_code_cases(2) [OF wf] less by (simp add: unat_word_ariths)
  have "(ucast idx' :: u64) = of_nat (unat idx')" by simp
  also have "\<dots> = ucast idx + of_nat (op_slots op)" unfolding i by simp
  finally have a': "codes + ucast idx' * 2 = ?a + of_nat (2 * op_slots op)" by (simp add: algebra_simps)
  have ext: "shows_at v (codes + (ucast idx + 1) * 2) (op_extra op)" using sh(2) by (simp add: algebra_simps)
  obtain m2 where 2: "(if ucast off \<le> k then apply_unwind ?p codes idx (fst (op_code op)) (snd (op_code op)) rsp m1 else (Inr rsp, m1)) =
      (Inr (rsp + frame_size (executed k [e])), m2)" "inv m2" "view m2 = v"
  proof (cases "ucast off \<le> k")
    case True
    then show thesis using apply_op [OF 1(2,3) ext, of rsp] that e by (auto simp: executed_def frame_size_def)
  next
    case False
    then show thesis using that [of m1] 1 e by (simp add: executed_def frame_size_def)
  qed
  have tot: "unat idx' + (\<Sum>(off, op) \<leftarrow> ops. op_slots op) = unat n" using Cons.prems(5) i e by simp
  obtain m3 where 3: "unwind_codes ?p codes k n idx' (rsp + frame_size (executed k [e])) m2 =
      Some (Inr (rsp + frame_size (executed k [e]) + frame_size (executed k ops)), m3)" "inv m3" "view m3 = v"
    using Cons.IH [OF 2(2,3) _ _ tot] rest a' Cons.prems(4) by auto
  have sum: "frame_size (executed k (e # ops)) = frame_size (executed k [e]) + frame_size (executed k ops)"
    by (simp add: executed_def frame_size_def)
  have at: "[off, ?b] ! 0 = off" "[off, ?b] ! 1 = ?b" by simp_all
  have "unwind_codes ?p codes k n idx rsp m = unwind_codes ?p codes k n idx' (rsp + frame_size (executed k [e])) m2"
    by (subst unwind_codes.simps) (simp only: lt if_True 1(1) prod.case sum.case Let_def at parts(2,3) 2(1) idx'_def [symmetric])
  then show ?case using 3 by (simp add: sum add.assoc)
qed


lemma unwind_info_ok:
  assumes "image_table v base lf rva fs" "inv m" "view m = v" "base \<le> rip" "f \<in> set fs" "covers (ucast (rip - base)) f"
    and "rf_unwind f AND 1 = 0" "shows_at v (base + ucast (rf_unwind f)) [a, b, c, d]"
  obtains m' where "unwind_info \<lparr>prov_read = rd, prov_write = wr\<rparr> base rip m = (Inr (f, rf_unwind f, [a, b, c, d]), m')"
    "inv m'" "view m' = v"
proof -
  have srt: "sorted_table fs" using assms(1) by (simp add: image_table_def Let_def)
  obtain i where i: "i < length fs" "f = fs ! i" using assms(5) by (metis in_set_conv_nth)
  have fnd: "List.find (covers (ucast (rip - base))) fs = Some f" using find_covers [OF srt i(1)] i(2) assms(6) by simp
  obtain m1 where 1: "pdata_lookup \<lparr>prov_read = rd, prov_write = wr\<rparr> base rip m = (Inr f, m1)" "inv m1" "view m1 = v"
    using pdata_lookup_ok [OF assms(1-3), of rip] fnd assms(4) by (auto simp: not_less)
  obtain m2 where 2: "fetch \<lparr>prov_read = rd, prov_write = wr\<rparr> (base + ucast (rf_unwind f)) 4 m1 = (Inr [a, b, c, d], m2)" "inv m2" "view m2 = v"
    by (rule fetch_shown [OF 1(2,3) assms(8), of 4]) simp_all
  have "unwind_info \<lparr>prov_read = rd, prov_write = wr\<rparr> base rip m = (Inr (f, rf_unwind f, [a, b, c, d]), m2)"
    unfolding unwind_info_def 1(1) and_then_simps follow_chain_none [OF assms(7)] 2(1) ..
  with 2 show thesis using that by blast
qed

lemma unwind_frame_ok:
  assumes img: "image_table v base lf rva fs" "inv m" "view m = v" "base \<le> rip" "f \<in> set fs" "covers (ucast (rip - base)) f"
    and unw: "rf_unwind f AND 1 = 0" "shows_at v (base + ucast (rf_unwind f)) (info_bytes flags len frame ops)"
    and ops: "\<forall>(off, op) \<in> set ops. op_wf op" "(\<Sum>(off, op) \<leftarrow> ops. op_slots op) < 256"
    and ret: "shows_at v tos (le_bytes 8 r)"
    and rsp: "rsp + frame_size (executed (ucast (rip - (base + ucast (rf_begin f)))) ops) = tos"
  shows "\<exists>m'. seh_unwind_frame \<lparr>prov_read = rd, prov_write = wr\<rparr> base rip rsp m = Some (Inr (r, tos + 8), m') \<and> inv m' \<and> view m' = v"
proof -
  let ?p = "\<lparr>prov_read = rd, prov_write = wr\<rparr>" and ?n = "\<Sum>(off, op) \<leftarrow> ops. op_slots op"
  let ?ui = "base + ucast (rf_unwind f)" and ?k = "ucast (rip - (base + ucast (rf_begin f))) :: u32"
  have sh: "shows_at v ?ui [flags, len, of_nat ?n, frame]" "shows_at v (?ui + 4) (concat (map code_bytes ops))"
    using unw(2) unfolding info_bytes_def shows_at_append by simp_all
  obtain m1 where 1: "unwind_info ?p base rip m = (Inr (f, rf_unwind f, [flags, len, of_nat ?n, frame]), m1)" "inv m1" "view m1 = v"
    by (rule unwind_info_ok [OF img unw(1) sh(1)])
  have n: "unat (of_nat ?n :: u8) = ?n" using ops(2) by (simp only: unat_of_nat) (simp add: take_bit_nat_eq_self)
  obtain m2 where 2: "unwind_codes ?p (?ui + 4) ?k (of_nat ?n) 0 rsp m1 = Some (Inr tos, m2)" "inv m2" "view m2 = v"
    using unwind_codes_ok [OF 1(2,3), of "?ui + 4" 0 ops "of_nat ?n" ?k rsp] sh(2) ops(1) n rsp by auto
  obtain m3 where 3: "fetch ?p tos 8 m2 = (Inr (le_bytes 8 r), m3)" "inv m3" "view m3 = v"
    by (rule fetch_shown [OF 2(2,3) ret, of 8]) simp_all
  have at: "[flags, len, of_nat ?n, frame] ! 2 = of_nat ?n" by simp
  have le: "le_value (le_bytes 8 r) = r" by (simp add: le_value_le_bytes take_bit_word_eq_self)
  have "seh_unwind_frame ?p base rip rsp m = Some (Inr (r, tos + 8), m3)"
    unfolding seh_unwind_frame_def 1(1) prod.case sum.case Let_def at 2(1) option.case 3(1) and_then_simps le ..
  with 3 show ?thesis by blast
qed

end

section \<open>Ending and not ending\<close>

text \<open>With at most 253 slots the index cannot wrap, whatever the provider returns.\<close>

lemma unwind_codes_returns:
  "unat n \<le> 253 \<Longrightarrow> unwind_codes p codes k n idx rsp m \<noteq> None"
proof (induction "256 - unat idx" arbitrary: idx rsp m rule: less_induct)
  case less
  show ?case
  proof (cases "idx < n")
    case True
    have "unwind_codes p codes k n (idx + unwind_op_size op info) r m' \<noteq> None" for op info r m'
    proof (rule less(1) [OF _ less(2)])
      have "unat (unwind_op_size op info) \<le> 3" "1 \<le> unat (unwind_op_size op info)" by (simp_all add: unwind_op_size_def)
      then show "256 - unat (idx + unwind_op_size op info) < 256 - unat idx"
        using True less(2) by (simp add: unat_word_ariths word_less_nat_alt)
    qed
    then show ?thesis using True
      by (subst unwind_codes.simps) (auto simp: Let_def split: prod.splits sum.splits)
  qed (simp add: unwind_codes.simps)
qed

text \<open>254 codes of one slot before one of three; none of them takes effect in the first 255 bytes of the function.\<close>

definition looping_codes :: "u8 list" where
  "looping_codes = concat (replicate 254 [0xFF, 0x00]) @ [0xFF, 0x11]"

lemma looping_code:
  assumes "shows_at v codes looping_codes" "idx < (255 :: u8)"
  shows "shows_at v (codes + ucast idx * 2) [0xFF, if idx = 254 then 0x11 else 0]"
proof -
  have r: "shows_at v (a + of_nat (2 * i)) e" if "shows_at v a (concat (replicate n e))" "i < n" "length e = 2" for a i n e
    using that
  proof (induction n arbitrary: a i)
    case (Suc n)
    then have s: "shows_at v a e" "shows_at v (a + 2) (concat (replicate n e))" by (simp_all add: shows_at_append)
    show ?case
    proof (cases i)
      case (Suc j)
      from Suc.IH [OF s(2), of j] Suc.prems Suc show ?thesis by (simp add: algebra_simps)
    qed (use s in simp)
  qed simp
  have len: "length (concat (replicate 254 [0xFF, 0x00 :: u8])) = 508" by (simp add: length_concat sum_list_replicate)
  have two: "shows_at v codes (concat (replicate 254 [0xFF, 0x00]))" "shows_at v (codes + 508) [0xFF, 0x11]"
    using assms(1) unfolding looping_codes_def shows_at_append len by simp_all
  show ?thesis
  proof (cases "idx = 254")
    case True
    then show ?thesis using two(2) by simp
  next
    case False
    have "unat idx < 255" using assms(2) by (simp add: word_less_nat_alt)
    moreover have "unat idx \<noteq> 254" using False by (simp add: word_unat_eq_iff)
    ultimately have "unat idx < 254" by linarith
    from r [OF two(1) this] show ?thesis using False by (simp add: mult.commute)
  qed
qed

lemma looping_step:
  assumes "idx < (255 :: u8)"
  defines "b \<equiv> if idx = 254 then 0x11 else 0 :: u8"
  shows "idx + unwind_op_size (b AND 0x0F) (drop_bit 4 b) < 255"
proof (cases "idx = 254")
  case True
  have "254 + unwind_op_size (0x11 AND 0x0F) (drop_bit 4 0x11) < 255" by code_simp
  then show ?thesis using True by (simp add: b_def)
next
  case False
  have "unat idx < 255" using assms(1) by (simp add: word_less_nat_alt)
  moreover have "unat idx \<noteq> 254" using False by (simp add: word_unat_eq_iff)
  ultimately have "unat idx < 254" by linarith
  then show ?thesis using False by (simp add: b_def unwind_op_size_def word_less_nat_alt unat_word_ariths)
qed

context paged_memory
begin

text \<open>The index runs from 254 to 1 and around again.\<close>

lemma unwind_codes_hangs:
  assumes sh: "shows_at v codes looping_codes" and k: "k < 0xFF"
    and start: "idx < 255" "inv m" "view m = v"
  shows "unwind_codes \<lparr>prov_read = rd, prov_write = wr\<rparr> codes k 255 idx rsp m = None"
proof -
  define p where "p = \<lparr>prov_read = rd, prov_write = wr\<rparr>"
  have "\<not> (p' = p \<and> c = codes \<and> q = k \<and> n = 255 \<and> idx < 255 \<and> inv m \<and> view m = v)" if "unwind_codes p' c q n idx rsp m = Some r"
    for p' c q n idx rsp m r
    using that
  proof (rule unwind_codes.raw_induct [rotated])
    fix loop p' c q n idx rsp m r
    assume ih: "\<And>p' c q n idx rsp m r. loop p' c q n idx rsp m = Some r \<Longrightarrow>
        \<not> (p' = p \<and> c = codes \<and> q = k \<and> n = 255 \<and> idx < 255 \<and> inv m \<and> view m = v)"
      and body: "(if idx < n
        then (case fetch p' (c + ucast idx * 2) 2 m of
                (Inl s, m) \<Rightarrow> Some (Inl s, m)
              | (Inr code, m) \<Rightarrow>
                  (let op = code ! 1 AND 0x0F; info = drop_bit 4 (code ! 1)
                   in case (if ucast (code ! 0) \<le> q then apply_unwind p' c idx op info rsp m else (Inr rsp, m)) of
                        (Inl s, m) \<Rightarrow> Some (Inl s, m)
                      | (Inr rsp, m) \<Rightarrow> loop p' c q n (idx + unwind_op_size op info) rsp m))
        else Some (Inr rsp, m)) = Some r"
    show "\<not> (p' = p \<and> c = codes \<and> q = k \<and> n = 255 \<and> idx < 255 \<and> inv m \<and> view m = v)"
    proof
      assume "p' = p \<and> c = codes \<and> q = k \<and> n = 255 \<and> idx < 255 \<and> inv m \<and> view m = v"
      then have z: "p' = p" "c = codes" "q = k" "n = 255" and idx: "idx < 255" and m: "inv m" "view m = v" by simp_all
      let ?b = "if idx = 254 then 0x11 else 0 :: u8"
      have "shows_at v (codes + ucast idx * 2) [0xFF, ?b]" using looping_code [OF sh idx] .
      from fetch_shown [OF m this, of 2] obtain m' where
        f: "fetch p (codes + ucast idx * 2) 2 m = (Inr [0xFF, ?b], m')" "inv m'" "view m' = v"
        unfolding p_def by auto
      have at: "[0xFF, ?b] ! 0 = 0xFF" "[0xFF, ?b] ! 1 = ?b" by simp_all
      have no: "\<not> (ucast (0xFF :: u8) :: u32) \<le> k" using k by simp
      have "loop p codes k 255 (idx + unwind_op_size (?b AND 0x0F) (drop_bit 4 ?b)) rsp m' = Some r"
        using body unfolding z f(1) by (simp only: idx if_True prod.case sum.case Let_def at no if_False)
      moreover have "idx + unwind_op_size (?b AND 0x0F) (drop_bit 4 ?b) < 255" by (rule looping_step [OF idx])
      ultimately show False using ih f(2,3) by blast
    qed
  qed
  from this [of p codes k 255 idx rsp m] show ?thesis using start unfolding p_def
    by (cases "unwind_codes \<lparr>prov_read = rd, prov_write = wr\<rparr> codes k 255 idx rsp m") simp_all
qed

end

section \<open>The inspector on the provider chain\<close>

lemmas chain_lookup = chain.pdata_lookup_ok [unfolded prov_eta]
lemmas chain_unwind = chain.unwind_frame_ok [unfolded prov_eta]
lemmas chain_info = chain.unwind_info_ok [unfolded prov_eta]
lemmas chain_hangs = chain.unwind_codes_hangs [unfolded prov_eta]

text \<open>A small image with one function and its unwind information, for the examples.\<close>

definition sample_function :: RuntimeFunction where
  "sample_function = \<lparr>rf_begin = 0x1000, rf_end = 0x1200, rf_unwind = 0x200\<rparr>"

definition sample_image :: "u8 list \<Rightarrow> u8 list" where
  "sample_image info = [0x4D, 0x5A] @ replicate 58 0 @ le_bytes 4 (ucast (0x40 :: u32)) @ [0x50, 0x45, 0, 0] @ [0x64, 0x86] @
     replicate 154 0 @ (le_bytes 4 (ucast (0x100 :: u32)) @ le_bytes 4 (ucast (of_nat (12 * length [sample_function]) :: u32))) @
     replicate 24 0 @ entry_bytes sample_function @ replicate 244 0 @ info"

lemma sample_image_shown:
  assumes "shows_at v 0x10000 (sample_image info)"
  shows "image_table v 0x10000 0x40 0x100 [sample_function]" "shows_at v 0x10200 info"
proof -
  have s: "sorted_table [sample_function]" by (simp add: sorted_table_def sample_function_def)
  show "image_table v 0x10000 0x40 0x100 [sample_function]" "shows_at v 0x10200 info"
    using assms s unfolding sample_image_def shows_at_append image_table_def Let_def by simp_all
qed

definition image_at :: "u8 list \<Rightarrow> chain" where
  "image_at info = code_at 0x10000 (sample_image info)"

lemma image_at_shows:
  assumes "length info < 2 ^ 16"
  shows "chain_inv (image_at info)" "image_table (chain_view (image_at info)) 0x10000 0x40 0x100 [sample_function]"
    "shows_at (chain_view (image_at info)) 0x10200 info"
proof -
  have "length (sample_image info) \<le> 2 ^ 32" using assms by (simp add: sample_image_def)
  note v = code_at_view [OF this, of "0x10000", folded image_at_def]
  show "chain_inv (image_at info)" by (rule v(1))
  have "shows_at (chain_view (image_at info)) 0x10000 (sample_image info)" using v(2) by (simp add: shows_at_def)
  from sample_image_shown [OF this]
  show "image_table (chain_view (image_at info)) 0x10000 0x40 0x100 [sample_function]" "shows_at (chain_view (image_at info)) 0x10200 info" .
qed

text \<open>C31: on an image whose function table is sorted, the binary search returns the one entry that covers the address (taken
  modulo \<open>2 ^ 32\<close> from the base of the image) and otherwise reports that there is none; nothing the guest sees changes.\<close>

theorem pdata_lookup_exact:
  fixes rip base :: GuestAddr and fs :: "RuntimeFunction list"
  assumes "chain_inv c" "image_table (chain_view c) base lf rva fs"
  defines "hit f \<equiv> base \<le> rip \<and> f \<in> set fs \<and> covers (ucast (rip - base)) f"
  shows "\<exists>r c'. pdata_lookup chain_provider base rip c = (r, c') \<and> chain_inv c' \<and> chain_view c' = chain_view c \<and>
    (case r of Inr f \<Rightarrow> hit f \<and> (\<forall>g. hit g \<longrightarrow> g = f) | Inl s \<Rightarrow> s = St_FunctionNotFound \<and> (\<nexists>f. hit f))"
proof -
  let ?t = "ucast (rip - base) :: u32"
  obtain c' where l: "pdata_lookup chain_provider base rip c =
      (if rip < base then Inl St_FunctionNotFound else case List.find (covers ?t) fs of None \<Rightarrow> Inl St_FunctionNotFound | Some f \<Rightarrow> Inr f, c')"
    "chain_inv c'" "chain_view c' = chain_view c"
    using chain_lookup [OF assms(2,1) refl, of rip] by (elim exE conjE)
  have srt: "sorted_table fs" using assms(2) by (simp add: image_table_def Let_def)
  have hit: "List.find (covers ?t) fs = Some f" if h: "hit f" for f
  proof -
    obtain i where "i < length fs" "f = fs ! i" using h unfolding hit_def in_set_conv_nth by blast
    then show ?thesis using find_covers [OF srt] h by (simp add: hit_def)
  qed
  show ?thesis
  proof (cases "List.find (covers ?t) fs")
    case None
    then have "\<nexists>f. hit f" using hit by force
    then show ?thesis using l None by (intro exI [of _ "Inl St_FunctionNotFound"] exI [of _ c']) simp
  next
    case (Some f)
    then have f: "f \<in> set fs" "covers ?t f" unfolding find_Some_iff by auto
    show ?thesis
    proof (cases "rip < base")
      case True
      then have "\<nexists>f. hit f" by (simp add: hit_def not_le)
      then show ?thesis using l True by (intro exI [of _ "Inl St_FunctionNotFound"] exI [of _ c']) simp
    next
      case False
      then have "hit f" using f by (simp add: hit_def not_less)
      moreover have "\<forall>g. hit g \<longrightarrow> g = f" using hit Some by auto
      ultimately have "case Inr f of Inr f \<Rightarrow> hit f \<and> (\<forall>g. hit g \<longrightarrow> g = f) | Inl s \<Rightarrow> s = St_FunctionNotFound \<and> (\<nexists>f. hit f)"
        unfolding sum.case by (rule conjI)
      moreover have "pdata_lookup chain_provider base rip c = (Inr f, c')" using l(1) Some False by simp
      ultimately show ?thesis using l(2,3) by blast
    qed
  qed
qed

theorem pdata_lookup_exact_witness:
  "\<exists>c'. pdata_lookup chain_provider 0x10000 0x11008 (image_at []) = (Inr sample_function, c')"
proof -
  note i = image_at_shows [of "[]", simplified]
  obtain r c' where r: "pdata_lookup chain_provider 0x10000 0x11008 (image_at []) = (r, c')"
    "case r of Inr f \<Rightarrow> f = sample_function | Inl s \<Rightarrow> \<not> covers 0x1008 sample_function"
    using pdata_lookup_exact [OF i(1,2), of "0x11008"] by (fastforce split: sum.splits)
  have "covers 0x1008 sample_function" by (simp add: covers_def sample_function_def)
  then show ?thesis using r by (cases r) auto
qed

text \<open>C32: unwinding undoes a prolog.  Take a function whose unwind information lists its pushes, allocations and register saves.
  From any address in it, with the stack pointer that the part of the prolog before that address leaves, the unwinder finds the
  return address on top of the caller's stack and the caller's stack pointer; nothing the guest sees changes.\<close>

theorem unwind_undoes_prolog:
  fixes rip base entry_rsp ret :: GuestAddr and f :: RuntimeFunction
  assumes "chain_inv c" "image_table (chain_view c) base lf rva fs" "base \<le> rip" "f \<in> set fs" "covers (ucast (rip - base)) f"
    and "rf_unwind f AND 1 = 0" "shows_at (chain_view c) (base + ucast (rf_unwind f)) (info_bytes flags len frame ops)"
    and "\<forall>(off, op) \<in> set ops. op_wf op" "(\<Sum>(off, op) \<leftarrow> ops. op_slots op) < 256"
    and "shows_at (chain_view c) entry_rsp (le_bytes 8 ret)"
  defines "rsp \<equiv> entry_rsp - frame_size (executed (ucast (rip - (base + ucast (rf_begin f)))) ops)"
  shows "\<exists>c'. seh_unwind_frame chain_provider base rip rsp c = Some (Inr (ret, entry_rsp + 8), c') \<and>
    chain_inv c' \<and> chain_view c' = chain_view c"
  using chain_unwind [OF assms(2,1) refl assms(3-10), of rsp] by (simp add: rsp_def)

theorem unwind_undoes_prolog_witness:
  "\<exists>c'. seh_unwind_frame chain_provider 0x10000 0x11005 0x101FA
      (image_at (info_bytes 1 8 0 [(8, Alloc_small 3), (4, Push 5), (2, Push 3)] @ le_bytes 8 0x401234)) = Some (Inr (0x401234, 0x10212), c')"
proof -
  define ops :: "(u8 \<times> prolog_op) list" where "ops = [(8, Alloc_small 3), (4, Push 5), (2, Push 3)]"
  define info where "info = info_bytes 1 8 0 ops @ le_bytes 8 0x401234"
  have len: "length (info_bytes 1 8 0 ops) = 10" by (simp add: info_bytes_def ops_def code_bytes_def)
  then have "length info < 2 ^ 16" by (simp add: info_def)
  note i = image_at_shows [OF this]
  have sh: "shows_at (chain_view (image_at info)) 0x10200 (info_bytes 1 8 0 ops)"
    "shows_at (chain_view (image_at info)) 0x1020A (le_bytes 8 0x401234)"
    using i(3) len unfolding info_def shows_at_append by simp_all
  have rsp: "frame_size (executed 5 ops) = 16" by (simp add: frame_size_def executed_def ops_def)
  have "\<exists>c'. seh_unwind_frame chain_provider 0x10000 0x11005
      (0x1020A - frame_size (executed (ucast (0x11005 - (0x10000 + ucast (rf_begin sample_function)) :: u64)) ops)) (image_at info) =
      Some (Inr (0x401234, 0x1020A + 8), c') \<and> chain_inv c' \<and> chain_view c' = chain_view (image_at info)"
    by (rule unwind_undoes_prolog [OF i(1,2), where flags = 1 and len = 8 and frame = 0])
      (use sh in \<open>simp_all add: covers_def sample_function_def ops_def op_wf_def op_slots_def\<close>)
  then show ?thesis using rsp by (auto simp: sample_function_def info_def ops_def)
qed

text \<open>the unwinder always returns, whatever the provider does, unless the unwind information claims more than 253 slots.\<close>

theorem unwind_returns:
  "(\<exists>r. seh_unwind_frame p base rip rsp m = Some r) \<or>
   (\<exists>rf ui header m'. unwind_info p base rip m = (Inr (rf, ui, header), m') \<and> 253 < unat (header ! 2))"
proof (cases "unwind_info p base rip m")
  case (Pair r m')
  show ?thesis
  proof (cases r)
    case (Inr x)
    obtain rf ui header where x: "x = (rf, ui, header)" by (cases x) auto
    have "(\<exists>r. seh_unwind_frame p base rip rsp m = Some r)" if "unat (header ! 2) \<le> 253"
      using unwind_codes_returns [OF that] Pair Inr x
      by (auto simp: seh_unwind_frame_def Let_def split: option.splits prod.splits sum.splits)
    then show ?thesis using Pair Inr x by (meson not_le)
  qed (use Pair in \<open>simp add: seh_unwind_frame_def\<close>)
qed



end
