(* ===== verification/Seh.thy ===== *)
theory Seh
  imports Pe_Image_Facts Guest_Heap Chain_Handlers
begin

text \<open>
  Raising an exception in the guest, \<^verbatim>\<open>emu/seh.h\<close> and \<^verbatim>\<open>src/src/host/seh.cpp\<close>: the search for the language handler, the frame
  with the exception record on the guest stack, and the registers the handler starts with.
\<close>

section \<open>Raising an exception\<close>

text \<open>The exception record: code, flags, nested record, address, number of parameters, padding, fifteen parameters.\<close>

definition exception_record :: "u32 \<Rightarrow> GuestAddr \<Rightarrow> u8 list" where
  "exception_record code addr =
     le_bytes 4 (ucast code) @ le_bytes 4 0 @ le_bytes 8 0 @ le_bytes 8 addr @ le_bytes 4 0 @ le_bytes 4 0 @ replicate (8 * 15) 0"

definition reserve :: "u64 \<Rightarrow> u64 \<Rightarrow> u64" where
  "reserve rsp n = (rsp - n) AND NOT 0xF"

abbreviation (input) R8 :: u8 where "R8 \<equiv> 8"
abbreviation (input) R9 :: u8 where "R9 \<equiv> 9"
abbreviation (input) CTX_STUB :: nat where "CTX_STUB \<equiv> 0x4D0"
abbreviation (input) ER_SIZE :: nat where "ER_SIZE \<equiv> 152"
abbreviation (input) DC_SIZE :: nat where "DC_SIZE \<equiv> 0x40"

text \<open>Writes whose status is ignored.\<close>

definition put_all :: "'m provider \<Rightarrow> (GuestAddr \<times> u8 list) list \<Rightarrow> 'm \<Rightarrow> 'm" where
  "put_all w ws m = fold (\<lambda>(a, bs) m. snd (prov_write w a bs m)) ws m"

definition zero_context :: "GuestAddr \<Rightarrow> (GuestAddr \<times> u8 list) list" where
  "zero_context ctx = map (\<lambda>k. (ctx + of_nat (16 * k), replicate 16 0)) [0..<CTX_STUB div 16]"

definition emu_raise_exception :: "'m env \<Rightarrow> GuestAddr \<Rightarrow> u32 \<Rightarrow> GuestAddr \<Rightarrow> 'm cpu \<Rightarrow> Status \<times> 'm cpu" where
  "emu_raise_exception env image_base code addr c =
     (case (e_mem_read env, e_mem_write env) of
        (Some r, Some w) \<Rightarrow>
          (case seh_exception_handler r image_base (c_rip c) (c_mem c) of
             (Inl s, m) \<Rightarrow> (s, c\<lparr>c_mem := m\<rparr>)
           | (Inr info, m) \<Rightarrow>
               if \<not> is_exception_handler info then (St_NotImplemented, c\<lparr>c_mem := m\<rparr>)
               else
                 (let handler_rip = image_base + ucast (handler_rva info);
                      er = exception_record code (if addr \<noteq> 0 then addr else c_rip c);
                      ctx_addr = reserve (reg c RSP) (of_nat CTX_STUB);
                      er_addr = reserve ctx_addr (of_nat ER_SIZE);
                      dc_addr = reserve er_addr (of_nat DC_SIZE);
                      rsp = dc_addr - 8;
                      m = put_all w (zero_context ctx_addr) m;
                      m = put_all w [(er_addr, er), (dc_addr, replicate DC_SIZE 0), (rsp, le_bytes 8 0xDEADBEEFDEADBEEF)] m;
                      rsp = rsp - 32;
                      c = set_r64 RSP rsp (c\<lparr>c_mem := m\<rparr>);
                      c = set_r64 RCX er_addr c;
                      c = set_r64 RDX (reg c RBP) c;
                      c = set_r64 R8 ctx_addr c;
                      c = set_r64 R9 dc_addr c
                  in (St_Ok, set_rip handler_rip c)))
      | _ \<Rightarrow> (St_ProviderFailure, c))"

section \<open>The frame\<close>

lemma length_record [simp]: "length (exception_record code addr) = 152"
  by (simp add: exception_record_def)

lemma reserve_nat:
  assumes "unat n + 16 \<le> unat rsp"
  shows "16 dvd unat (reserve rsp n)" "unat (reserve rsp n) + unat n \<le> unat rsp" "unat rsp < unat (reserve rsp n) + unat n + 16"
proof -
  define x where "x = rsp - n"
  have u: "unat x = unat rsp - unat n" using assms by (simp add: x_def unat_sub word_le_nat_alt)
  have "mask 4 = (15 :: u64)" by (simp add: mask_eq_exp_minus_1)
  then have r: "reserve rsp n = base_of 4 x" by (simp add: reserve_def base_of_def x_def)
  have off: "offset_in 4 x = unat x mod 16" by (simp add: offset_in_take_bit take_bit_eq_mod unat_mod)
  have bo: "base_of 4 x = x - of_nat (unat x mod 16)" using base_plus_offset [of 4 x] by (simp add: off eq_diff_eq)
  have o: "unat (of_nat (unat x mod 16) :: u64) = unat x mod 16"
    using le_less_trans [OF mod_less_eq_dividend unsigned_less [of x]] by (simp add: unat_of_nat)
  then have le: "of_nat (unat x mod 16) \<le> x" by (simp add: word_le_nat_alt)
  have v: "unat (reserve rsp n) = unat x - unat x mod 16" unfolding r bo using le o by (simp add: unat_sub)
  show "16 dvd unat (reserve rsp n)" unfolding v by (simp add: minus_mod_eq_mult_div)
  have "unat x mod 16 \<le> unat x" "unat x mod 16 < 16" by simp_all
  then show "unat (reserve rsp n) + unat n \<le> unat rsp" "unat rsp < unat (reserve rsp n) + unat n + 16"
    using v u assms by linarith+
qed

text \<open>A chain over memory without protected ranges: every write succeeds.\<close>

definition open_chain :: "chain \<Rightarrow> bool" where
  "open_chain c \<longleftrightarrow> chain_inv c \<and> sp_prot (chain_shadow c) = []"

definition patches :: "(GuestAddr \<times> u8 list) list \<Rightarrow> (GuestAddr \<Rightarrow> u8 option) \<Rightarrow> GuestAddr \<Rightarrow> u8 option" where
  "patches ws v = fold (\<lambda>(a, bs) v. patch_view a bs v) ws v"

lemma patch_view_mono: "v \<subseteq>\<^sub>m v' \<Longrightarrow> patch_view a bs v \<subseteq>\<^sub>m patch_view a bs v'"
  by (auto simp: map_le_def patch_view_def dom_def)

lemma patches_mono: "v \<subseteq>\<^sub>m v' \<Longrightarrow> patches ws v \<subseteq>\<^sub>m patches ws v'"
  by (induction ws arbitrary: v v') (auto simp: patches_def patch_view_mono)

lemma open_put:
  fixes a :: GuestAddr
  assumes "open_chain c" "length bs \<le> 2 ^ 32"
  defines "c' \<equiv> snd (chain_write a bs c)"
  shows "open_chain c'" "patch_view a bs (chain_view c) \<subseteq>\<^sub>m chain_view c'"
proof -
  obtain s where w: "chain_write a bs c = (s, c')" unfolding c'_def by (metis prod.collapse)
  have inv: "chain_inv c" and p: "sp_prot (chain_shadow c) = []" using assms(1) by (simp_all add: open_chain_def)
  have sh: "shadow_inv (chain_shadow c)"
    using inv by (simp add: chain_inv_def chain_l2_ok_def chain_l3_ok_def l1_inv_def l2_inv_def l3_inv_def chain_shadow_def)
  note o = shadow_write_open [OF sh p assms(2) chain_write_shadow [OF w]]
  show "open_chain c'" using chain.wr_inv [OF inv w assms(2)] o(3) by (simp add: open_chain_def)
  show "patch_view a bs (chain_view c) \<subseteq>\<^sub>m chain_view c'" using chain.wr_ok [OF inv _ assms(2)] w o(1) by simp
qed

lemma open_puts:
  "open_chain c \<Longrightarrow> \<forall>(a, bs) \<in> set ws. length bs \<le> 2 ^ 32 \<Longrightarrow>
    open_chain (put_all chain_provider ws c) \<and> patches ws (chain_view c) \<subseteq>\<^sub>m chain_view (put_all chain_provider ws c)"
proof (induction ws arbitrary: c)
  case (Cons w ws)
  obtain a bs where w: "w = (a, bs)" by (cases w)
  have l: "length bs \<le> 2 ^ 32" using Cons.prems(2) w by simp
  note o = open_put [OF Cons.prems(1) l, of a]
  have "patches (w # ws) (chain_view c) \<subseteq>\<^sub>m patches ws (chain_view (snd (chain_write a bs c)))"
    using patches_mono [OF o(2), of ws] by (simp add: patches_def w)
  then show ?case using Cons.IH [OF o(1)] Cons.prems(2) w by (auto simp: put_all_def intro: map_le_trans)
qed (simp add: put_all_def patches_def)

text \<open>Bytes below or above all patches stay.\<close>

lemma patches_outside: "\<forall>(a, bs) \<in> set ws. \<not> in_span a (length bs) x \<Longrightarrow> patches ws v x = v x"
  by (induction ws arbitrary: v) (auto simp: patches_def patch_view_def)

lemma patches_append: "patches (ws @ ws') v = patches ws' (patches ws v)"
  by (simp add: patches_def)

lemma patches_shows:
  assumes "\<forall>(b, cs) \<in> set ws'. \<forall>x. in_span a (length bs) x \<longrightarrow> \<not> in_span b (length cs) x" "length bs < 2 ^ 64"
  shows "shows_at (patches (ws @ (a, bs) # ws') v) a bs"
proof -
  have "patches (ws @ (a, bs) # ws') v (a + of_nat i) = Some (bs ! i)" if i: "i < length bs" for i
  proof -
    have s: "in_span a (length bs) (a + of_nat i)" using i assms(2) by (simp add: in_span_offset)
    have e: "patches (ws @ (a, bs) # ws') v = patches ws' (patch_view a bs (patches ws v))"
      by (simp add: patches_append) (simp add: patches_def)
    have "patches ws' (patch_view a bs (patches ws v)) (a + of_nat i) = patch_view a bs (patches ws v) (a + of_nat i)"
      by (rule patches_outside) (use assms(1) s in auto)
    then show ?thesis using i assms(2) s by (simp add: e patch_view_def unat_of_nat)
  qed
  then show ?thesis by (simp add: shows_at_def)
qed

lemma shows_at_mono: "v \<subseteq>\<^sub>m v' \<Longrightarrow> shows_at v a bs \<Longrightarrow> shows_at v' a bs"
  by (fastforce simp: shows_at_def map_le_def dom_def)

section \<open>Finding the handler\<close>

text \<open>Unwind information with a handler: its address follows the codes, padded to a multiple of four bytes.\<close>

definition handler_info :: "u8 \<Rightarrow> u8 \<Rightarrow> u8 \<Rightarrow> (u8 \<times> prolog_op) list \<Rightarrow> u32 \<Rightarrow> u8 list" where
  "handler_info flags len frame ops h =
     info_bytes flags len frame ops @ replicate (2 * ((\<Sum>(off, op) \<leftarrow> ops. op_slots op) mod 2)) 0 @ le_bytes 4 (ucast h)"

lemma codes_padding: "n < 256 \<Longrightarrow> (ucast (of_nat n :: u8) * 2 + 3) AND NOT 3 = (of_nat (2 * n + 2 * (n mod 2)) :: u32)"
proof -
  have "list_all (\<lambda>n. (ucast (of_nat n :: u8) * 2 + 3) AND NOT 3 = (of_nat (2 * n + 2 * (n mod 2)) :: u32)) [0..<256]" by code_simp
  then show "n < 256 \<Longrightarrow> ?thesis" by (simp add: list_all_iff)
qed

lemma length_codes: "length (concat (map code_bytes ops)) = 2 * (\<Sum>(off, op) \<leftarrow> ops. op_slots op)"
  by (induction ops) (auto simp: length_extra(1))

context paged_memory
begin

lemma exception_handler_ok:
  assumes img: "image_table v base lf rva fs" "inv m" "view m = v" "base \<le> rip" "f \<in> set fs" "covers (ucast (rip - base)) f"
    and unw: "rf_unwind f AND 1 = 0" "shows_at v (base + ucast (rf_unwind f)) (handler_info flags len frame ops h)"
    and ops: "(\<Sum>(off, op) \<leftarrow> ops. op_slots op) < 256" and e: "bit flags 3"
  obtains m' info where "seh_exception_handler \<lparr>prov_read = rd, prov_write = wr\<rparr> base rip m = (Inr info, m')"
    "handler_rva info = h" "is_exception_handler info" "inv m'" "view m' = v"
proof -
  let ?p = "\<lparr>prov_read = rd, prov_write = wr\<rparr>" and ?n = "\<Sum>(off, op) \<leftarrow> ops. op_slots op" and ?ui = "base + ucast (rf_unwind f)"
  have i4: "info_bytes flags len frame ops = [flags, len, of_nat ?n, frame] @ concat (map code_bytes ops)" by (simp add: info_bytes_def)
  have sh: "shows_at v ?ui [flags, len, of_nat ?n, frame]" "shows_at v (?ui + 4 + of_nat (2 * ?n + 2 * (?n mod 2))) (le_bytes 4 (ucast h))"
    using unw(2) unfolding handler_info_def i4 shows_at_append by (simp_all add: length_codes add.assoc)
  obtain m1 where 1: "unwind_info ?p base rip m = (Inr (f, rf_unwind f, [flags, len, of_nat ?n, frame]), m1)" "inv m1" "view m1 = v"
    by (rule unwind_info_ok [OF img unw(1) sh(1)])
  have c: "ucast (of_nat (2 * ?n + 2 * (?n mod 2)) :: u32) = (of_nat (2 * ?n + 2 * (?n mod 2)) :: u64)"
  proof -
    have "?n mod 2 < 2" by simp
    then have "2 * ?n + 2 * (?n mod 2) < 2 ^ 32" using ops by simp
    then show ?thesis by (simp only: word_unat_eq_iff unsigned_ucast_eq unat_of_nat) (simp add: take_bit_nat_eq_self)
  qed
  obtain m2 where 2: "fetch ?p (?ui + 4 + of_nat (2 * ?n + 2 * (?n mod 2))) 4 m1 = (Inr (le_bytes 4 (ucast h)), m2)" "inv m2" "view m2 = v"
    by (rule fetch_shown [OF 1(2,3) sh(2), of 4]) simp_all
  have "bit (drop_bit 3 flags AND 1) 0" using e by (simp add: bit_and_iff bit_drop_bit_eq)
  then have fl: "drop_bit 3 flags AND 1 \<noteq> 0" by (metis bit_0_eq bot_apply bot_bool_def)
  have at: "[flags, len, of_nat ?n, frame] ! 0 = flags" "[flags, len, of_nat ?n, frame] ! 2 = of_nat ?n" by simp_all
  have h: "u32_at 0 (le_bytes 4 (ucast h)) = h" using u32_le [of h "[]"] by simp
  obtain info where "seh_exception_handler ?p base rip m = (Inr info, m2)" "handler_rva info = h" "is_exception_handler info"
    unfolding seh_exception_handler_def 1(1) and_then_simps prod.case Let_def at codes_padding [OF ops] c 2(1) h
    using fl by auto
  with 2 show thesis using that by blast
qed

end

text \<open>The contract of the chain holds with the absence of protected ranges as part of the invariant.\<close>

interpretation open_mem: paged_memory chain_read chain_write chain_view open_chain
proof unfold_locales
  show "open_chain m' \<and> chain_view m' = chain_view m" if "open_chain m" "chain_read a n m = (s, bs, m')" for m a n s bs m'
    using that chain.rd_keeps chain_read_shadow [OF that(2)] by (auto simp: open_chain_def)
  show "open_chain m'" if "open_chain m" "chain_write a bs m = (s, m')" "length bs \<le> 2 ^ 32" for m a bs s m'
    using open_put(1) [OF that(1,3), of a] that(2) by simp
qed (use chain.rd_length chain.rd_ok chain.wr_fail chain.wr_ok chain.granular chain.rd_mapped in \<open>auto simp: open_chain_def\<close>)

lemmas open_handler = open_mem.exception_handler_ok [unfolded prov_eta]

section \<open>What the handler starts with\<close>

text \<open>The writes of the frame whose context starts at \<open>ctx\<close>.\<close>

definition frame_writes :: "GuestAddr \<Rightarrow> u8 list \<Rightarrow> (GuestAddr \<times> u8 list) list" where
  "frame_writes ctx er =
     (let er_addr = reserve ctx 152; dc_addr = reserve er_addr 64
      in zero_context ctx @ [(er_addr, er), (dc_addr, replicate 64 0), (dc_addr - 8, le_bytes 8 0xDEADBEEFDEADBEEF)])"

text \<open>Where the parts of the frame lie: the context, the record, the dispatcher context and the return address, downwards.\<close>

lemma frame_layout:
  assumes "0x1000 \<le> unat rsp"
  defines "ctx \<equiv> reserve rsp 0x4D0"
  defines "er \<equiv> reserve ctx 152"
  defines "dc \<equiv> reserve er 64"
  shows "16 dvd unat ctx" "16 dvd unat er" "16 dvd unat dc" "unat ctx + 0x4D0 \<le> unat rsp" "unat er + 152 \<le> unat ctx"
    "unat dc + 64 \<le> unat er" "unat (dc - 8) + 8 = unat dc" "unat (dc - 8 - 32) + 40 = unat dc"
proof -
  note 1 = reserve_nat [of "0x4D0" rsp, folded ctx_def]
  have c: "unat rsp < unat ctx + 0x4E0" using 1(3) assms(1) by simp
  note 2 = reserve_nat [of 152 ctx, folded er_def]
  have e: "unat ctx < unat er + 168" using 2(3) c assms(1) by simp
  note 3 = reserve_nat [of 64 er, folded dc_def]
  have d: "unat er < unat dc + 80" using 3(3) c e assms(1) by simp
  show "16 dvd unat ctx" "16 dvd unat er" "16 dvd unat dc" using 1(1) 2(1) 3(1) c e d assms(1) by simp_all
  show "unat ctx + 0x4D0 \<le> unat rsp" "unat er + 152 \<le> unat ctx" "unat dc + 64 \<le> unat er"
    using 1(2) 2(2) 3(2) c e d assms(1) by simp_all
  have big: "40 \<le> unat dc" using c e d assms(1) by linarith
  then have 8: "unat (dc - 8) = unat dc - 8" by (simp add: unat_sub word_le_nat_alt)
  then show "unat (dc - 8) + 8 = unat dc" using big by simp
  have "unat (dc - 8 - 32) = unat dc - 8 - 32" using 8 big by (simp add: unat_sub word_le_nat_alt)
  then show "unat (dc - 8 - 32) + 40 = unat dc" using big by simp
qed

lemma context_spans:
  assumes "unat ctx + 0x4D0 \<le> 2 ^ 64 - 1" "(a, bs) \<in> set (zero_context ctx)" "in_span a (length bs) x"
  shows "unat ctx \<le> unat x \<and> unat x < unat ctx + 0x4D0"
proof -
  obtain k where k: "k < 77" "a = ctx + of_nat (16 * k)" "bs = replicate 16 0" using assms(2) by (auto simp: zero_context_def)
  have "unat a = unat ctx + 16 * k" using k assms(1) by (simp add: unat_word_ariths unat_of_nat)
  then show ?thesis using in_span_nat [of a 16 x] assms(1,3) k by simp
qed

lemma frame_memory:
  fixes v :: "GuestAddr \<Rightarrow> u8 option"
  assumes "0x1000 \<le> unat rsp" "length rec = 152"
  defines "ctx \<equiv> reserve rsp 0x4D0"
  defines "er \<equiv> reserve ctx 152"
  defines "dc \<equiv> reserve er 64"
  defines "w \<equiv> patches (frame_writes ctx rec) v"
  shows "shows_at w er rec" "shows_at w dc (replicate 64 0)" "shows_at w (dc - 8) (le_bytes 8 0xDEADBEEFDEADBEEF)"
    "unat x < unat (dc - 8) \<or> unat rsp \<le> unat x \<Longrightarrow> w x = v x"
proof -
  note l = frame_layout [OF assms(1), folded ctx_def, folded er_def, folded dc_def]
  have top: "unat rsp \<le> 2 ^ 64 - 1" using unsigned_less [of rsp, where ?'a = nat] by simp
  note s = in_span_nat [of er 152] in_span_nat [of dc 64] in_span_nat [of "dc - 8" 8]
  have n: "unat er + 152 \<le> 2 ^ 64" "unat dc + 64 \<le> 2 ^ 64" "unat (dc - 8) + 8 \<le> 2 ^ 64" using l top by linarith+
  note s = s(1) [OF n(1)] s(2) [OF n(2)] s(3) [OF n(3)]
  have fw: "frame_writes ctx rec = zero_context ctx @ (er, rec) # [(dc, replicate 64 0), (dc - 8, le_bytes 8 0xDEADBEEFDEADBEEF)]"
    "frame_writes ctx rec = (zero_context ctx @ [(er, rec)]) @ (dc, replicate 64 0) # [(dc - 8, le_bytes 8 0xDEADBEEFDEADBEEF)]"
    "frame_writes ctx rec = (zero_context ctx @ [(er, rec), (dc, replicate 64 0)]) @ (dc - 8, le_bytes 8 0xDEADBEEFDEADBEEF) # []"
    by (simp_all add: frame_writes_def Let_def er_def dc_def)
  show "shows_at w er rec" unfolding w_def fw(1)
    by (rule patches_shows) (use assms(2) l in \<open>auto simp: s\<close>)
  show "shows_at w dc (replicate 64 0)" unfolding w_def fw(2)
    by (rule patches_shows) (use l in \<open>auto simp: s\<close>)
  show "shows_at w (dc - 8) (le_bytes 8 0xDEADBEEFDEADBEEF)" unfolding w_def fw(3)
    by (rule patches_shows) auto
  assume x: "unat x < unat (dc - 8) \<or> unat rsp \<le> unat x"
  show "w x = v x" unfolding w_def
  proof (rule patches_outside, clarify)
    fix a bs assume m: "(a, bs) \<in> set (frame_writes ctx rec)" and i: "in_span a (length bs) x"
    show False
    proof (cases "(a, bs) \<in> set (zero_context ctx)")
      case True
      have "unat ctx + 0x4D0 \<le> 2 ^ 64 - 1" using l(4) top by linarith
      from context_spans [OF this True i] show False using x l by linarith
    next
      case False
      then have "a = er \<and> length bs = 152 \<or> a = dc \<and> length bs = 64 \<or> a = dc - 8 \<and> length bs = 8"
        using m assms(2) unfolding fw(1) by auto
      then have "unat (dc - 8) \<le> unat x \<and> unat x < unat rsp" using i s [of x] l by auto
      then show False using x by linarith
    qed
  qed
qed

text \<open>C34: when the function at the instruction pointer has an exception handler, raising an exception enters it: the handler's
  address, a record with the code and the address of the fault, and pointers to the record, the establisher frame and the two
  contexts in the registers of the calling convention.  The parts of the frame are aligned and disjoint and lie below the old
  stack pointer, above which nothing changes.  The return address is written 32 bytes above the stack pointer the handler gets:
  where a RET of the handler looks, the stack still holds what it held before.\<close>

theorem raise_enters_handler:
  fixes c :: "chain cpu" and base addr :: GuestAddr and code h :: u32 and hk :: "chain hook_manager option"
  assumes "open_chain (c_mem c)" "image_table (chain_view (c_mem c)) base lf rva fs" "base \<le> c_rip c" "f \<in> set fs"
    and "covers (ucast (c_rip c - base)) f" "rf_unwind f AND 1 = 0"
    and "shows_at (chain_view (c_mem c)) (base + ucast (rf_unwind f)) (handler_info flags len frame ops h)"
    and "(\<Sum>(off, op) \<leftarrow> ops. op_slots op) < 256" "bit flags 3" "0x1000 \<le> unat (reg c RSP)"
  defines "r \<equiv> emu_raise_exception (mem_env chain_provider hk) base code addr c"
  defines "c' \<equiv> snd r"
  shows "fst r = St_Ok \<and> c_rip c' = base + ucast h \<and> reg c' RDX = reg c RBP \<and>
    16 dvd unat (reg c' RCX) \<and> 16 dvd unat (reg c' R8) \<and> 16 dvd unat (reg c' R9) \<and>
    unat (reg c' R8) + 0x4D0 \<le> unat (reg c RSP) \<and> unat (reg c' RCX) + 152 \<le> unat (reg c' R8) \<and>
    unat (reg c' R9) + 64 \<le> unat (reg c' RCX) \<and> unat (reg c' RSP) + 40 = unat (reg c' R9) \<and>
    shows_at (chain_view (c_mem c')) (reg c' RCX) (exception_record code (if addr \<noteq> 0 then addr else c_rip c)) \<and>
    shows_at (chain_view (c_mem c')) (reg c' RSP + 32) (le_bytes 8 0xDEADBEEFDEADBEEF) \<and>
    (\<forall>x b. unat x < unat (reg c' RSP) + 32 \<or> unat (reg c RSP) \<le> unat x \<longrightarrow>
       chain_view (c_mem c) x = Some b \<longrightarrow> chain_view (c_mem c') x = Some b)"
proof -
  let ?rec = "exception_record code (if addr \<noteq> 0 then addr else c_rip c)" and ?v = "chain_view (c_mem c)"
  define ctx er dc where "ctx = reserve (reg c RSP) 0x4D0" and "er = reserve ctx 152" and "dc = reserve er 64"
  obtain m info where hd: "seh_exception_handler chain_provider base (c_rip c) (c_mem c) = (Inr info, m)"
    "handler_rva info = h" "is_exception_handler info" and om: "open_chain m" and vm: "chain_view m = ?v"
    by (rule open_handler [OF assms(2,1) refl assms(3-9)])
  define m' where "m' = put_all chain_provider (frame_writes ctx ?rec) m"
  have len: "\<forall>(a, bs) \<in> set (frame_writes ctx ?rec). length bs \<le> 2 ^ 32" by (auto simp: frame_writes_def zero_context_def Let_def)
  have le: "patches (frame_writes ctx ?rec) ?v \<subseteq>\<^sub>m chain_view m'" using open_puts [OF om len] vm by (simp add: m'_def)
  have r: "fst r = St_Ok" "c_rip c' = base + ucast h" "reg c' RDX = reg c RBP" "reg c' RCX = er" "reg c' R8 = ctx" "reg c' R9 = dc"
    "reg c' RSP = dc - 8 - 32" "c_mem c' = m'"
    using hd(1-3)
    by (simp_all add: r_def c'_def emu_raise_exception_def Let_def m'_def frame_writes_def put_all_def ctx_def er_def dc_def
      set_rip_def set_r64_def reg_def)
  note l = frame_layout [OF assms(10), folded ctx_def, folded er_def, folded dc_def]
  note w = frame_memory [OF assms(10) length_record [of code "if addr \<noteq> 0 then addr else c_rip c"], where v = ?v, folded ctx_def, folded er_def, folded dc_def]
  have out: "chain_view m' x = Some b" if "unat x < unat (dc - 8) \<or> unat (reg c RSP) \<le> unat x" "?v x = Some b" for x b
  proof -
    have "patches (frame_writes ctx ?rec) ?v x = Some b" using w(4) [OF that(1)] that(2) by simp
    then show ?thesis using le by (auto simp: map_le_def dom_def)
  qed
  have a: "dc - 8 - 32 + 32 = dc - 8" by simp
  have u: "unat (dc - 8 - 32) + 32 = unat (dc - 8)" using l(7,8) by linarith
  show ?thesis unfolding r a u
    by (intro conjI allI impI refl l shows_at_mono [OF le w(1)] shows_at_mono [OF le w(3)]) (rule out)
qed

text \<open>The fault at the start of the sample function, whose handler is at \<open>0x1100\<close> of the image.\<close>

theorem raise_enters_handler_witness:
  "fst (emu_raise_exception (mem_env chain_provider None) 0x10000 0xC0000005 0x42
      ((initial_cpu (image_at (handler_info 9 0 0 [] 0x1100)))\<lparr>c_rip := 0x11004, c_gpr := (\<lambda>_. 0x20000)\<rparr>)) = St_Ok"
proof -
  let ?info = "handler_info 9 0 0 [] 0x1100"
  let ?c = "(initial_cpu (image_at ?info))\<lparr>c_rip := 0x11004, c_gpr := (\<lambda>_. 0x20000)\<rparr>"
  have "length ?info < 2 ^ 16" by (simp add: handler_info_def info_bytes_def)
  note i = image_at_shows [OF this]
  have "open_chain (new_chain sample_shadow)"
    by (simp add: open_chain_def new_chain_inv sample_shadow_inv) (simp add: sample_shadow_def add_private_region_def new_shadow_def)
  then have op: "open_chain (image_at ?info)"
    unfolding image_at_def code_at_def by (rule open_put) (simp add: sample_image_def handler_info_def info_bytes_def)
  have f: "sample_function \<in> set [sample_function]" by simp
  show ?thesis
    by (rule conjunct1 [OF raise_enters_handler [where c = ?c and lf = 64 and rva = 256 and fs = "[sample_function]" and f = sample_function and flags = 9 and len = 0 and frame = 0 and ops = "[]"]])
      (use i op f in \<open>simp_all add: initial_cpu_def covers_def sample_function_def reg_def\<close>)
qed

end
