(* ===== verification/Pe_Loader.thy ===== *)
theory Pe_Loader
  imports Pe_Image Iat_Stubs
begin

text \<open>
  The image loader \<^verbatim>\<open>src/src/host/pe_loader.cpp\<close>: headers, sections, base relocations, exports and imports of a file, and the
  provider that serves the mapped image.  The file is the list of its bytes.  The code reads and writes through raw pointers into
  the mapped buffer without checking every one of them: an access outside of the buffer is the result \<open>Inl Out_of_bounds\<close>, and the
  loops with no bound of their own are partial functions, whose value is \<open>None\<close> when they do not end.
\<close>

section \<open>Reading a buffer\<close>

datatype access = Out_of_bounds

definition reader_read :: "u8 list \<Rightarrow> u64 \<Rightarrow> nat \<Rightarrow> u8 list option" where
  "reader_read data off n =
     (if length data < unat off \<or> length data - unat off < n then None else Some (take n (drop (unat off) data)))"

definition reader_u32 :: "u8 list \<Rightarrow> u64 \<Rightarrow> u32 option" where
  "reader_u32 data off = map_option (u32_at 0) (reader_read data off 4)"

definition reader_u16 :: "u8 list \<Rightarrow> u64 \<Rightarrow> u16 option" where
  "reader_u16 data off = map_option (u16_at 0) (reader_read data off 2)"

definition reader_u64 :: "u8 list \<Rightarrow> u64 \<Rightarrow> u64 option" where
  "reader_u64 data off = map_option le_value (reader_read data off 8)"

text \<open>The value a failing read leaves in a variable initialised to zero.\<close>

definition or_zero :: "'a::len word option \<Rightarrow> 'a word" where
  "or_zero x = (case x of None \<Rightarrow> 0 | Some v \<Rightarrow> v)"

text \<open>A read through the buffer's pointer, unchecked, and a write of bytes.\<close>

definition peek :: "nat \<Rightarrow> nat \<Rightarrow> u8 list \<Rightarrow> access + u8 list" where
  "peek off n data = (if off + n \<le> length data then Inr (take n (drop off data)) else Inl Out_of_bounds)"

definition poke :: "nat \<Rightarrow> u8 list \<Rightarrow> u8 list \<Rightarrow> access + u8 list" where
  "poke off bs data =
     (if off + length bs \<le> length data then Inr (take off data @ bs @ drop (off + length bs) data) else Inl Out_of_bounds)"

definition on_right :: "'e + 'a \<Rightarrow> ('a \<Rightarrow> 'e + 'b) \<Rightarrow> 'e + 'b" where
  "on_right r k = (case r of Inl e \<Rightarrow> Inl e | Inr x \<Rightarrow> k x)"

definition checked :: "'a option \<Rightarrow> ('a \<Rightarrow> Status + 'b) \<Rightarrow> Status + 'b" where
  "checked r k = (case r of None \<Rightarrow> Inl St_Internal | Some x \<Rightarrow> k x)"

section \<open>Headers\<close>

record pe_headers =
  ph_entry :: u32
  ph_image_base :: u64
  ph_image_size :: u32
  ph_header_size :: u32
  ph_export :: "u32 \<times> u32"
  ph_import :: "u32 \<times> u32"
  ph_reloc :: "u32 \<times> u32"
  ph_sections :: u16
  ph_section_table :: u64

definition parse_optional :: "u8 list \<Rightarrow> u64 \<Rightarrow> u16 \<Rightarrow> u16 \<Rightarrow> Status + pe_headers" where
  "parse_optional raw opt num_sections opt_size =
     (let dd0 = opt + 112 in
      checked (reader_u32 raw (opt + 16)) (\<lambda>entry_rva.
      checked (reader_u64 raw (opt + 24)) (\<lambda>image_base.
      checked (reader_u32 raw (opt + 56)) (\<lambda>size_of_image.
      checked (reader_u32 raw (opt + 60)) (\<lambda>hdr_size.
      checked (reader_u32 raw dd0) (\<lambda>export_rva.
      checked (reader_u32 raw (dd0 + 4)) (\<lambda>export_size.
      checked (reader_u32 raw (dd0 + 8)) (\<lambda>import_rva.
      checked (reader_u32 raw (dd0 + 12)) (\<lambda>import_size.
      checked (reader_u32 raw (dd0 + 40)) (\<lambda>reloc_rva.
      checked (reader_u32 raw (dd0 + 44)) (\<lambda>reloc_size.
      Inr \<lparr>ph_entry = entry_rva, ph_image_base = image_base, ph_image_size = size_of_image, ph_header_size = hdr_size,
           ph_export = (export_rva, export_size), ph_import = (import_rva, import_size), ph_reloc = (reloc_rva, reloc_size),
           ph_sections = num_sections, ph_section_table = opt + ucast opt_size\<rparr>)))))))))))"

definition parse_headers :: "u8 list \<Rightarrow> Status + pe_headers" where
  "parse_headers raw =
     checked (reader_read raw 0 2) (\<lambda>mz.
     if mz ! 0 \<noteq> 0x4D \<or> mz ! 1 \<noteq> 0x5A then Inl St_Internal
     else checked (reader_u32 raw 0x3C) (\<lambda>e_lfanew.
          checked (reader_read raw (ucast e_lfanew) 4) (\<lambda>sig.
          if sig ! 0 \<noteq> 0x50 \<or> sig ! 1 \<noteq> 0x45 then Inl St_Internal
          else (let nt = ucast e_lfanew; opt = nt + 24 in
                checked (reader_u16 raw (nt + 4)) (\<lambda>machine.
                checked (reader_u16 raw (nt + 6)) (\<lambda>num_sections.
                checked (reader_u16 raw (nt + 20)) (\<lambda>opt_size.
                if machine \<noteq> 0x8664 then Inl St_NotImplemented
                else checked (reader_u16 raw opt) (\<lambda>opt_magic.
                     if opt_magic \<noteq> 0x20B then Inl St_NotImplemented
                     else parse_optional raw opt num_sections opt_size))))))))"

section \<open>Sections\<close>

text \<open>One section: the copy of its raw bytes to its address.  The check \<open>raw_ptr + n\<close> is a 32-bit sum.\<close>

definition copy_section :: "u8 list \<Rightarrow> u64 \<Rightarrow> u8 list \<Rightarrow> access + Status + u8 list" where
  "copy_section raw s mapped =
     (case (reader_u32 raw (s + 8), reader_u32 raw (s + 12), reader_u32 raw (s + 16), reader_u32 raw (s + 20)) of
        (Some virt_size, Some virt_addr, Some raw_size, Some raw_ptr) \<Rightarrow>
          if length mapped \<le> unat virt_addr then Inr (Inr mapped)
          else (let copy = (if raw_size < virt_size then raw_size else virt_size);
                    fit = of_nat (length mapped - unat virt_addr);
                    n = (if copy < fit then copy else fit)
                in if length raw < unat (raw_ptr + n) then Inr (Inr mapped)
                   else on_right (on_right (peek (unat raw_ptr) (unat n) raw) (\<lambda>bs. poke (unat virt_addr) bs mapped))
                          (\<lambda>mapped. Inr (Inr mapped)))
      | _ \<Rightarrow> Inr (Inl St_Internal))"

fun copy_sections :: "u8 list \<Rightarrow> u64 \<Rightarrow> nat \<Rightarrow> nat \<Rightarrow> u8 list \<Rightarrow> access + Status + u8 list" where
  "copy_sections raw table i 0 mapped = Inr (Inr mapped)"
| "copy_sections raw table i (Suc k) mapped =
     (case copy_section raw (table + of_nat i * 40) mapped of
        Inl e \<Rightarrow> Inl e
      | Inr (Inl s) \<Rightarrow> Inr (Inl s)
      | Inr (Inr mapped) \<Rightarrow> copy_sections raw table (i + 1) k mapped)"

definition map_headers :: "u8 list \<Rightarrow> pe_headers \<Rightarrow> Status + u8 list" where
  "map_headers raw h =
     (if ph_image_size h < ph_header_size h \<or> 0x40000000 < ph_image_size h then Inl St_Internal
      else (let hdr = unat (ph_header_size h)
            in if length raw < hdr then Inl St_Internal
               else Inr (take hdr raw @ replicate (unat (ph_image_size h) - hdr) 0)))"

section \<open>Base relocations\<close>

definition reloc_entry :: "u64 \<Rightarrow> u32 \<Rightarrow> u16 \<Rightarrow> u8 list \<Rightarrow> access + u8 list" where
  "reloc_entry delta page_rva entry mapped =
     (let type = drop_bit 12 entry; target = page_rva + ucast (entry AND 0xFFF)
      in if length mapped < unat (target + 8) then Inr mapped
         else if type = 10 then
           on_right (peek (unat target) 8 mapped) (\<lambda>v. poke (unat target) (le_bytes 8 (le_value v + delta)) mapped)
         else if type = 3 then
           (if length mapped < unat (target + 4) then Inr mapped
            else on_right (peek (unat target) 4 mapped)
                   (\<lambda>v. poke (unat target) (le_bytes 4 (ucast (u32_at 0 v + ucast delta))) mapped))
         else Inr mapped)"

fun reloc_entries :: "u64 \<Rightarrow> u32 \<Rightarrow> nat \<Rightarrow> nat \<Rightarrow> u8 list \<Rightarrow> access + u8 list" where
  "reloc_entries delta page_rva off 0 mapped = Inr mapped"
| "reloc_entries delta page_rva off (Suc k) mapped =
     on_right (peek off 2 mapped) (\<lambda>e.
     on_right (reloc_entry delta page_rva (u16_at 0 e) mapped) (\<lambda>mapped.
     reloc_entries delta page_rva (off + 2) k mapped))"

partial_function (option) reloc_blocks :: "u64 \<Rightarrow> u32 \<Rightarrow> u32 \<Rightarrow> u8 list \<Rightarrow> (access + u8 list) option" where
  "reloc_blocks delta reloc_end cur mapped =
     (if \<not> cur + 8 \<le> reloc_end then Some (Inr mapped)
      else if length mapped < unat (cur + 4) then Some (Inr mapped)
      else (case (peek (unat cur) 4 mapped, peek (unat cur + 4) 4 mapped) of
              (Inr p, Inr b) \<Rightarrow>
                (let block_size = u32_at 0 b
                 in if block_size < 8 \<or> reloc_end < cur + block_size then Some (Inr mapped)
                    else (case reloc_entries delta (u32_at 0 p) (unat cur + 8) (unat ((block_size - 8) div 2)) mapped of
                            Inl e \<Rightarrow> Some (Inl e)
                          | Inr mapped \<Rightarrow> reloc_blocks delta reloc_end (cur + block_size) mapped))
            | _ \<Rightarrow> Some (Inl Out_of_bounds)))"

declare reloc_blocks.simps [code]

definition relocate :: "pe_headers \<Rightarrow> u64 \<Rightarrow> u8 list \<Rightarrow> (access + u8 list) option" where
  "relocate h chosen_base mapped =
     (let delta = chosen_base - ph_image_base h; (rva, sz) = ph_reloc h
      in if 0 < sz \<and> rva \<noteq> 0 \<and> delta \<noteq> 0 then reloc_blocks delta (rva + sz) rva mapped else Some (Inr mapped))"

section \<open>Exports\<close>

definition read_export_rva :: "u8 list \<Rightarrow> u32 \<Rightarrow> u32 \<Rightarrow> u32 \<Rightarrow> u32" where
  "read_export_rva m dir dir_size eat_index =
     (case (reader_u32 m (ucast (dir + 0x14)), reader_u32 m (ucast (dir + 0x1C))) of
        (Some num_funcs, Some funcs_rva) \<Rightarrow>
          if num_funcs \<le> eat_index then 0
          else (case reader_u32 m (ucast (funcs_rva + 4 * eat_index)) of
                  None \<Rightarrow> 0
                | Some rva \<Rightarrow> if dir \<le> rva \<and> rva < dir + dir_size then 0 else rva)
      | _ \<Rightarrow> 0)"

text \<open>A name of at most \<open>k\<close> characters up to its NUL; a failing read clears it.\<close>

fun read_name :: "nat \<Rightarrow> u8 list \<Rightarrow> u32 \<Rightarrow> string \<Rightarrow> string" where
  "read_name 0 m rva name = name"
| "read_name (Suc k) m rva name =
     (case reader_read m (ucast rva) 1 of
        None \<Rightarrow> []
      | Some c \<Rightarrow> if c ! 0 = 0 then name else read_name k m (rva + 1) (name @ [char_of (unat (c ! 0))]))"

fun read_exports :: "u8 list \<Rightarrow> u32 \<times> u32 \<Rightarrow> u32 \<Rightarrow> u32 \<Rightarrow> u32 \<Rightarrow> nat \<Rightarrow> (string \<rightharpoonup> u32) \<Rightarrow> (string \<rightharpoonup> u32)" where
  "read_exports m dir names_rva ordinals_rva i 0 ex = ex"
| "read_exports m dir names_rva ordinals_rva i (Suc k) ex =
     (case reader_u32 m (ucast (names_rva + 4 * i)) of
        None \<Rightarrow> ex
      | Some name_rva \<Rightarrow>
          (case reader_u16 m (ucast (ordinals_rva + 2 * i)) of
             None \<Rightarrow> ex
           | Some ordinal \<Rightarrow>
               (let name = read_name 256 m name_rva [];
                    fn_rva = read_export_rva m (fst dir) (snd dir) (ucast ordinal)
                in read_exports m dir names_rva ordinals_rva (i + 1) k
                     (if name \<noteq> [] \<and> fn_rva \<noteq> 0 \<and> ex name = None then ex(name \<mapsto> fn_rva) else ex))))"

definition parse_exports :: "u8 list \<Rightarrow> u32 \<times> u32 \<Rightarrow> (string \<rightharpoonup> u32) \<Rightarrow> (string \<rightharpoonup> u32)" where
  "parse_exports m dir ex =
     (if 0 < snd dir \<and> fst dir \<noteq> 0
      then (let num_names = or_zero (reader_u32 m (ucast (fst dir + 0x18)));
                names_rva = or_zero (reader_u32 m (ucast (fst dir + 0x20)));
                ordinals_rva = or_zero (reader_u32 m (ucast (fst dir + 0x24)))
            in read_exports m dir names_rva ordinals_rva 0 (unat num_names) ex)
      else ex)"

section \<open>Imports\<close>

record PeImport =
  imp_dll :: string
  imp_name :: string
  imp_iat_addr :: GuestAddr

fun decimal :: "nat \<Rightarrow> string" where
  "decimal n = (if n < 10 then [char_of (48 + n)] else decimal (n div 10) @ [char_of (48 + n mod 10)])"

declare decimal.simps [simp del]

text \<open>The name of one thunk: by ordinal, or by the name behind its hint.\<close>

definition import_name :: "u8 list \<Rightarrow> u64 \<Rightarrow> string" where
  "import_name m thunk =
     (if bit thunk 63 then CHR ''#'' # decimal (unat (thunk AND 0xFFFF))
      else read_name 128 m (ucast (thunk AND 0x7FFFFFFF) + 2) [])"

partial_function (option) read_thunks ::
  "u8 list \<Rightarrow> u64 \<Rightarrow> u32 \<Rightarrow> u32 \<Rightarrow> string \<Rightarrow> u32 \<Rightarrow> PeImport list \<Rightarrow> PeImport list option" where
  "read_thunks m base names_array iat dll i imports =
     (case reader_u64 m (ucast (names_array + i * 8)) of
        None \<Rightarrow> Some imports
      | Some thunk \<Rightarrow>
          if thunk = 0 then Some imports
          else read_thunks m base names_array iat dll (i + 1)
                 (if import_name m thunk = [] then imports
                  else imports @ [\<lparr>imp_dll = dll, imp_name = import_name m thunk,
                                   imp_iat_addr = base + ucast iat + ucast (i * 8)\<rparr>]))"

declare read_thunks.simps [code]

partial_function (option) read_descriptors ::
  "u8 list \<Rightarrow> u64 \<Rightarrow> u32 \<Rightarrow> u32 \<Rightarrow> PeImport list \<Rightarrow> PeImport list option" where
  "read_descriptors m base import_rva d imports =
     (let desc = import_rva + d * 20
      in case (reader_u32 m (ucast desc), reader_u32 m (ucast (desc + 12)), reader_u32 m (ucast (desc + 16))) of
           (Some ilt, Some name_rva, Some iat) \<Rightarrow>
             if ilt = 0 \<and> name_rva = 0 \<and> iat = 0 then Some imports
             else (let dll = map lower_char (read_name 64 m name_rva [])
                   in case (if dll = [] then Some imports
                            else read_thunks m base (if ilt \<noteq> 0 then ilt else iat) iat dll 0 imports) of
                        None \<Rightarrow> None
                      | Some imports \<Rightarrow> read_descriptors m base import_rva (d + 1) imports)
         | _ \<Rightarrow> Some imports)"

declare read_descriptors.simps [code]

definition parse_imports :: "u8 list \<Rightarrow> u64 \<Rightarrow> u32 \<times> u32 \<Rightarrow> PeImport list \<Rightarrow> PeImport list option" where
  "parse_imports m base dir imports =
     (if 0 < snd dir \<and> fst dir \<noteq> 0 then read_descriptors m base (fst dir) 0 imports else Some imports)"

section \<open>The loader\<close>

record PeLoadedImage =
  pe_base :: GuestAddr
  pe_size :: u64
  pe_entry_rva :: u32
  pe_mapped :: "u8 list"
  pe_exports :: "string \<rightharpoonup> u32"
  pe_imports :: "PeImport list"

definition new_image :: PeLoadedImage where
  "new_image = \<lparr>pe_base = 0, pe_size = 0, pe_entry_rva = 0, pe_mapped = [], pe_exports = Map.empty, pe_imports = []\<rparr>"

definition map_file :: "u8 list \<Rightarrow> pe_headers \<Rightarrow> access + Status + u8 list" where
  "map_file raw h =
     (case map_headers raw h of
        Inl s \<Rightarrow> Inr (Inl s)
      | Inr mapped \<Rightarrow> copy_sections raw (ph_section_table h) 0 (unat (ph_sections h)) mapped)"

definition finish_load :: "pe_headers \<Rightarrow> u64 \<Rightarrow> u8 list \<Rightarrow> PeLoadedImage \<Rightarrow> PeLoadedImage option" where
  "finish_load h chosen_base mapped out =
     map_option (\<lambda>imports. \<lparr>pe_base = chosen_base, pe_size = ucast (ph_image_size h), pe_entry_rva = ph_entry h,
                     pe_mapped = mapped, pe_exports = parse_exports mapped (ph_export h) (pe_exports out), pe_imports = imports\<rparr>)
       (parse_imports mapped chosen_base (ph_import h) (pe_imports out))"

text \<open>The file is what opening and reading it gives: \<open>None\<close> when it cannot be opened, and the bytes or a failure.\<close>

definition pe_load_file ::
  "(unit + u8 list) option \<Rightarrow> GuestAddr \<Rightarrow> PeLoadedImage \<Rightarrow> (access + Status \<times> PeLoadedImage) option" where
  "pe_load_file file forced_base out =
     (case file of
        None \<Rightarrow> Some (Inr (St_ProviderFailure, out))
      | Some (Inl _) \<Rightarrow> Some (Inr (St_ProviderFailure, out))
      | Some (Inr raw) \<Rightarrow>
          if length raw < 0x100 then Some (Inr (St_Internal, out))
          else (case parse_headers raw of
                  Inl s \<Rightarrow> Some (Inr (s, out))
                | Inr h \<Rightarrow>
                    (let chosen_base = (if forced_base \<noteq> 0 then forced_base else ph_image_base h)
                     in case map_file raw h of
                          Inl e \<Rightarrow> Some (Inl e)
                        | Inr (Inl s) \<Rightarrow> Some (Inr (s, out))
                        | Inr (Inr mapped) \<Rightarrow>
                            (case relocate h chosen_base mapped of
                               None \<Rightarrow> None
                             | Some (Inl e) \<Rightarrow> Some (Inl e)
                             | Some (Inr mapped) \<Rightarrow>
                                 map_option (\<lambda>out. Inr (St_Ok, out)) (finish_load h chosen_base mapped out)))))"

definition pe_export_addr :: "PeLoadedImage \<Rightarrow> string \<Rightarrow> GuestAddr" where
  "pe_export_addr img name = (case pe_exports img name of None \<Rightarrow> 0 | Some rva \<Rightarrow> pe_base img + ucast rva)"

section \<open>The provider of an image\<close>

definition image_read :: "PeLoadedImage \<Rightarrow> GuestAddr \<Rightarrow> nat \<Rightarrow> access + Status \<times> u8 list" where
  "image_read img addr n =
     (if addr < pe_base img \<or> pe_base img + pe_size img < addr + of_nat n then Inr (St_UnmappedRead, [])
      else on_right (peek (unat (addr - pe_base img)) n (pe_mapped img)) (\<lambda>bs. Inr (St_Ok, bs)))"

definition image_write :: "PeLoadedImage \<Rightarrow> GuestAddr \<Rightarrow> u8 list \<Rightarrow> Status" where
  "image_write img addr bs = St_ProtectionViolation"

definition image_is_mapped :: "PeLoadedImage \<Rightarrow> GuestAddr \<Rightarrow> bool" where
  "image_is_mapped img addr \<longleftrightarrow> pe_base img \<le> addr \<and> addr < pe_base img + pe_size img"

end
