(* ===== verification/Pe_Loader_Facts.thy ===== *)
theory Pe_Loader_Facts
  imports Pe_Loader
begin

text \<open>What the loader makes of a file: the bytes of the mapped image, its export and import tables, and that it always returns.\<close>

section \<open>Buffers\<close>

lemma peek_Inr: "peek off n data = Inr bs \<longleftrightarrow> off + n \<le> length data \<and> bs = take n (drop off data)"
  by (auto simp: peek_def)

lemma poke_Inr:
  "poke off bs data = Inr data' \<longleftrightarrow> off + length bs \<le> length data \<and> data' = take off data @ bs @ drop (off + length bs) data"
  by (auto simp: poke_def)

lemma poke_length: "poke off bs data = Inr data' \<Longrightarrow> length data' = length data"
  by (auto simp: poke_Inr)

lemma poke_nth:
  assumes "poke off bs data = Inr data'" "p < length data"
  shows "data' ! p = (if off \<le> p \<and> p < off + length bs then bs ! (p - off) else data ! p)"
  using assms by (auto simp: poke_Inr nth_append min_def)

lemma on_right_simps [simp]: "on_right (Inl e) k = Inl e" "on_right (Inr x) k = k x"
  by (simp_all add: on_right_def)

lemma on_right_Inr: "on_right r k = Inr y \<longleftrightarrow> (\<exists>x. r = Inr x \<and> k x = Inr y)"
  by (cases r) simp_all

lemma reader_Some: "reader_read data off n = Some bs \<longleftrightarrow> unat off + n \<le> length data \<and> bs = take n (drop (unat off) data)"
  by (auto simp: reader_read_def)

lemma unat_widen: "unat (ucast (x :: u32) :: u64) = unat x"
  by (simp only: unat_eq_nat_uint) (simp add: uint_up_ucast is_up)

lemma reader_bound:
  "reader_u32 data off = Some v \<Longrightarrow> unat off + 4 \<le> length data"
  "reader_u64 data off = Some w \<Longrightarrow> unat off + 8 \<le> length data"
  by (auto simp: reader_u32_def reader_u64_def reader_Some)

section \<open>Relocations\<close>

lemma reloc_entry_length: "reloc_entry delta page e mapped = Inr mapped' \<Longrightarrow> length mapped' = length mapped"
  by (auto simp: reloc_entry_def Let_def on_right_Inr split: if_splits dest: poke_length)

lemma reloc_entries_ok:
  "reloc_entries delta page off k mapped = Inr mapped' \<Longrightarrow>
     length mapped' = length mapped \<and> (0 < k \<longrightarrow> off + 2 * k \<le> length mapped)"
proof (induction k arbitrary: off mapped)
  case (Suc k)
  then obtain e mid where e: "peek off 2 mapped = Inr e" "reloc_entry delta page (u16_at 0 e) mapped = Inr mid"
    "reloc_entries delta page (off + 2) k mid = Inr mapped'" by (auto simp: on_right_Inr)
  from Suc.IH [OF e(3)] reloc_entry_length [OF e(2)] e(1) show ?case by (cases k) (auto simp: peek_Inr)
qed simp

text \<open>A block whose entries all lie in the image leads to an address further up.\<close>

lemma block_advances:
  assumes "reloc_entries delta page (unat cur + 8) (unat ((n - 8) div 2)) mapped = Inr mapped'"
    and "length mapped \<le> 2 ^ 30" "\<not> n < 8" "unat (cur :: u32) + 8 \<le> length mapped"
  shows "unat cur < unat (cur + n)"
proof -
  let ?k = "unat ((n - 8) div 2)"
  have k: "?k = (unat n - 8) div 2" and n: "8 \<le> unat n"
    using assms(3) by (simp_all add: unat_div unat_sub word_less_nat_alt word_le_nat_alt not_less)
  have "unat cur + 8 + 2 * ?k \<le> length mapped"
    using reloc_entries_ok [OF assms(1)] assms(4) by (cases "0 < ?k") auto
  then have "unat cur + unat n \<le> 2 ^ 30 + 1" using assms(2) k n by linarith
  then have "unat (cur + n) = unat cur + unat n" by (simp add: unat_word_ariths)
  then show ?thesis using n by simp
qed

lemma reloc_blocks_returns:
  assumes "length mapped \<le> 2 ^ 30"
  shows "\<exists>r. reloc_blocks delta reloc_end cur mapped = Some r \<and> (\<forall>m. r = Inr m \<longrightarrow> length m = length mapped)"
  using assms
proof (induction "2 ^ 32 - unat cur" arbitrary: cur mapped rule: less_induct)
  case less
  show ?case
  proof (cases "peek (unat cur) 4 mapped")
    case (Inr p)
    show ?thesis
    proof (cases "peek (unat cur + 4) 4 mapped")
      case b: (Inr b)
      let ?n = "u32_at 0 b"
      show ?thesis
      proof (cases "reloc_entries delta (u32_at 0 p) (unat cur + 8) (unat ((?n - 8) div 2)) mapped")
        case e: (Inr mid)
        have len: "length mid = length mapped" using reloc_entries_ok [OF e] by simp
        show ?thesis
        proof (cases "?n < 8")
          case False
          have "unat cur < unat (cur + ?n)"
            by (rule block_advances [OF e less.prems False]) (use b in \<open>simp add: peek_Inr\<close>)
          moreover have "unat (cur + ?n) < 2 ^ 32" using unsigned_less [of "cur + ?n", where ?'a = nat] by simp
          ultimately have "2 ^ 32 - unat (cur + ?n) < 2 ^ 32 - unat cur" by linarith
          from less.hyps [OF this, of mid] less.prems len show ?thesis
            by (subst reloc_blocks.simps) (simp add: Inr b e Let_def)
        qed (subst reloc_blocks.simps, simp add: Inr b Let_def)
      qed (subst reloc_blocks.simps, simp add: Inr b Let_def)
    qed (subst reloc_blocks.simps, simp add: Inr)
  qed (subst reloc_blocks.simps, simp)
qed

section \<open>Import tables\<close>

lemma next_slot:
  assumes "unat (x :: u32) + k \<le> length m" "length m \<le> 2 ^ 30" "k \<le> 32"
  shows "unat (x + of_nat k) = unat x + k"
  using assms by (simp add: unat_word_ariths unat_of_nat)

text \<open>An import as the loader lists it.\<close>

definition good_import :: "PeImport \<Rightarrow> bool" where
  "good_import x \<longleftrightarrow> imp_name x \<noteq> [] \<and> imp_dll x \<noteq> [] \<and> map lower_char (imp_dll x) = imp_dll x"

lemma lower_lower: "lower_char (lower_char c) = lower_char c"
  by (simp add: lower_char_def Let_def)

lemma read_thunks_returns:
  assumes "length m \<le> 2 ^ 30"
  shows "\<exists>r. read_thunks m base names_array iat dll i acc = Some r \<and>
    (dll \<noteq> [] \<and> map lower_char dll = dll \<and> list_all good_import acc \<longrightarrow> list_all good_import r)"
proof (induction "length m - unat (names_array + i * 8)" arbitrary: i acc rule: less_induct)
  case less
  show ?case
  proof (cases "reader_u64 m (ucast (names_array + i * 8))")
    case (Some thunk)
    have "unat (names_array + i * 8) + 8 \<le> length m" using reader_bound(2) [OF Some] by (simp add: unat_widen)
    moreover from next_slot [OF this assms] have "unat (names_array + (i + 1) * 8) = unat (names_array + i * 8) + 8"
      by (simp add: algebra_simps)
    ultimately have "length m - unat (names_array + (i + 1) * 8) < length m - unat (names_array + i * 8)" by linarith
    note r = less.hyps [OF this]
    show ?thesis
    proof (cases "thunk = 0 \<or> import_name m thunk = []")
      case True
      then show ?thesis using r [of acc] by (subst read_thunks.simps) (auto simp: Some)
    next
      case False
      let ?x = "\<lparr>imp_dll = dll, imp_name = import_name m thunk, imp_iat_addr = base + ucast iat + ucast (i * 8)\<rparr>"
      show ?thesis using r [of "acc @ [?x]"] False by (subst read_thunks.simps) (auto simp: Some good_import_def)
    qed
  qed (subst read_thunks.simps, simp)
qed

lemma read_descriptors_returns:
  assumes "length m \<le> 2 ^ 30"
  shows "\<exists>r. read_descriptors m base import_rva d acc = Some r \<and> (list_all good_import acc \<longrightarrow> list_all good_import r)"
proof (induction "length m - unat (import_rva + d * 20)" arbitrary: d acc rule: less_induct)
  case less
  let ?x = "import_rva + d * 20"
  show ?case
  proof (cases "reader_u32 m (ucast (?x + 16))")
    case None
    then show ?thesis by (subst read_descriptors.simps) (simp add: Let_def split: option.split)
  next
    case (Some iat)
    show ?thesis
    proof (cases "unat ?x + 4 \<le> length m")
      case True
      have "unat (?x + 16) = unat ?x + 16" using True assms by (simp add: unat_word_ariths)
      then have "unat ?x + 20 \<le> length m" using reader_bound(1) [OF Some] by (simp add: unat_widen)
      moreover from next_slot [OF this assms] have "unat (import_rva + (d + 1) * 20) = unat ?x + 20"
        by (simp add: algebra_simps)
      ultimately have "length m - unat (import_rva + (d + 1) * 20) < length m - unat ?x" by linarith
      note r = less.hyps [OF this]
      have thunks: "\<exists>acc'. (if dll = [] then Some acc else read_thunks m base na iat' dll 0 acc) = Some acc' \<and>
          (list_all good_import acc \<longrightarrow> list_all good_import acc')" if "map lower_char dll = dll" for na iat' dll
        using read_thunks_returns [OF assms, of base na iat' dll 0 acc] that by (cases "dll = []") auto
      show ?thesis
      proof (cases "reader_u32 m (ucast ?x)")
        case ilt: (Some ilt)
        show ?thesis
        proof (cases "reader_u32 m (ucast (?x + 12))")
          case name: (Some name_rva)
          define dll where "dll = map lower_char (read_name 64 m name_rva [])"
          have "map lower_char dll = dll" by (simp add: dll_def lower_lower)
          from thunks [OF this] obtain acc' where
            acc': "(if dll = [] then Some acc else read_thunks m base (if ilt \<noteq> 0 then ilt else iat) iat dll 0 acc) = Some acc'"
              "list_all good_import acc \<longrightarrow> list_all good_import acc'" by blast
          from r [of acc'] acc' show ?thesis
            by (subst read_descriptors.simps) (auto simp: Let_def Some ilt name dll_def [symmetric] simp del: map_is_Nil_conv)
        qed (subst read_descriptors.simps, simp add: Let_def ilt)
      qed (subst read_descriptors.simps, simp add: Let_def)
    next
      case False
      then have "reader_u32 m (ucast ?x) = None"
        using reader_bound(1) [of m "ucast ?x"] by (cases "reader_u32 m (ucast ?x)") (auto simp: unat_widen)
      then show ?thesis by (subst read_descriptors.simps) (simp add: Let_def)
    qed
  qed
qed

section \<open>Sections\<close>

text \<open>The bytes a section brings and where, when its raw data lie in the file.\<close>

definition section_part :: "u8 list \<Rightarrow> nat \<Rightarrow> u64 \<Rightarrow> (nat \<times> u8 list) option" where
  "section_part raw img_size s =
     (case (reader_u32 raw (s + 8), reader_u32 raw (s + 12), reader_u32 raw (s + 16), reader_u32 raw (s + 20)) of
        (Some virt_size, Some virt_addr, Some raw_size, Some raw_ptr) \<Rightarrow>
          (let n = min (min (unat raw_size) (unat virt_size)) (img_size - unat virt_addr)
           in if unat virt_addr < img_size \<and> unat raw_ptr + n \<le> length raw
              then Some (unat virt_addr, take n (drop (unat raw_ptr) raw)) else None)
      | _ \<Rightarrow> None)"

fun placed :: "(nat \<times> u8 list) option \<Rightarrow> nat \<Rightarrow> u8 \<Rightarrow> u8" where
  "placed None p b = b"
| "placed (Some (va, bs)) p b = (if va \<le> p \<and> p < va + length bs then bs ! (p - va) else b)"

lemma unat_least: "unat (if a < b then a else b :: 'a::len word) = min (unat a) (unat b)"
  by (simp add: word_less_nat_alt min_def)

lemma word_of_unat: "unat w = n \<Longrightarrow> w = of_nat n"
  by (drule sym) simp

text \<open>A section whose four fields can be read.\<close>

lemma copy_section_fields:
  assumes "reader_u32 raw (s + 8) = Some virt_size" "reader_u32 raw (s + 12) = Some virt_addr"
    "reader_u32 raw (s + 16) = Some raw_size" "reader_u32 raw (s + 20) = Some raw_ptr"
    "unat virt_addr < length mapped" "length mapped \<le> 2 ^ 30"
  defines "n \<equiv> min (min (unat raw_size) (unat virt_size)) (length mapped - unat virt_addr)"
  shows "copy_section raw s mapped =
    (if length raw < unat (raw_ptr + of_nat n) then Inr (Inr mapped)
     else if unat raw_ptr + n \<le> length raw
     then Inr (Inr (take (unat virt_addr) mapped @ take n (drop (unat raw_ptr) raw) @ drop (unat virt_addr + n) mapped))
     else Inl Out_of_bounds)"
proof -
  let ?fit = "of_nat (length mapped - unat virt_addr) :: u32"
  let ?copy = "if raw_size < virt_size then raw_size else virt_size"
  let ?n = "if ?copy < ?fit then ?copy else ?fit"
  have "unat ?fit = length mapped - unat virt_addr" using assms(6) by (simp add: unat_of_nat)
  then have n: "unat ?n = n" unfolding unat_least n_def by simp
  then have w: "?n = of_nat n" by (rule word_of_unat)
  have m: "n + unat virt_addr \<le> length mapped" using assms(5) by (simp add: n_def)
  have "\<not> length mapped \<le> unat virt_addr" using assms(5) by simp
  then have "copy_section raw s mapped =
    (if length raw < unat (raw_ptr + ?n) then Inr (Inr mapped)
     else on_right (on_right (peek (unat raw_ptr) (unat ?n) raw) (\<lambda>bs. poke (unat virt_addr) bs mapped)) (\<lambda>mapped. Inr (Inr mapped)))"
    by (simp only: copy_section_def assms(1-4) Let_def prod.case option.case if_False)
  also have "\<dots> = (if length raw < unat (raw_ptr + of_nat n) then Inr (Inr mapped)
     else on_right (on_right (peek (unat raw_ptr) n raw) (\<lambda>bs. poke (unat virt_addr) bs mapped)) (\<lambda>mapped. Inr (Inr mapped)))"
    unfolding n unfolding w by (rule refl)
  finally have c: "copy_section raw s mapped = \<dots>" .
  show ?thesis
  proof (cases "unat raw_ptr + n \<le> length raw")
    case True
    then have "length (take n (drop (unat raw_ptr) raw)) = n" by simp
    then show ?thesis using m True by (simp add: c peek_def poke_def add.commute del: length_take)
  qed (simp add: c peek_def)
qed

lemma copy_section_ok:
  assumes "copy_section raw s mapped = Inr (Inr mapped')" "length mapped \<le> 2 ^ 30"
  shows "length mapped' = length mapped \<and>
    (\<forall>p < length mapped. mapped' ! p = placed (section_part raw (length mapped) s) p (mapped ! p))"
proof -
  obtain virt_size virt_addr raw_size raw_ptr where r: "reader_u32 raw (s + 8) = Some virt_size"
    "reader_u32 raw (s + 12) = Some virt_addr" "reader_u32 raw (s + 16) = Some raw_size" "reader_u32 raw (s + 20) = Some raw_ptr"
    using assms(1) unfolding copy_section_def by (auto split: option.splits)
  show ?thesis
  proof (cases "unat virt_addr < length mapped")
    case False
    then show ?thesis using assms(1) by (simp add: copy_section_def section_part_def r)
  next
    case True
    define n where "n = min (min (unat raw_size) (unat virt_size)) (length mapped - unat virt_addr)"
    note c = copy_section_fields [OF r True assms(2), folded n_def]
    have m: "unat virt_addr + n \<le> length mapped" using True by (simp add: n_def)
    have part: "section_part raw (length mapped) s =
      (if unat raw_ptr + n \<le> length raw then Some (unat virt_addr, take n (drop (unat raw_ptr) raw)) else None)"
      unfolding n_def by (simp add: section_part_def r True Let_def)
    have wrap: "unat (raw_ptr + of_nat n) \<le> unat raw_ptr + n"
      by (simp add: unat_word_ariths unat_of_nat mod_add_right_eq)
    show ?thesis
    proof (cases "unat raw_ptr + n \<le> length raw")
      case in_file: True
      then have l: "length (take n (drop (unat raw_ptr) raw)) = n" by simp
      have "mapped' = take (unat virt_addr) mapped @ take n (drop (unat raw_ptr) raw) @ drop (unat virt_addr + n) mapped"
        using assms(1) wrap in_file unfolding c by simp
      then have "poke (unat virt_addr) (take n (drop (unat raw_ptr) raw)) mapped = Inr mapped'"
        using m by (simp only: poke_Inr l)
      then show ?thesis unfolding part using in_file by (simp add: poke_length poke_nth)
    next
      case out: False
      then have "mapped' = mapped" using assms(1) unfolding c by (simp split: if_splits)
      then show ?thesis unfolding part using out by simp
    qed
  qed
qed

lemma copy_sections_ok:
  "copy_sections raw table i k mapped = Inr (Inr mapped') \<Longrightarrow> length mapped \<le> 2 ^ 30 \<Longrightarrow>
     length mapped' = length mapped \<and>
     (\<forall>p < length mapped. mapped' ! p =
        fold (\<lambda>j. placed (section_part raw (length mapped) (table + of_nat j * 40)) p) [i..<i + k] (mapped ! p))"
proof (induction k arbitrary: i mapped)
  case (Suc k)
  then obtain mid where c: "copy_section raw (table + of_nat i * 40) mapped = Inr (Inr mid)"
    and r: "copy_sections raw table (i + 1) k mid = Inr (Inr mapped')"
    by (auto split: sum.splits)
  from copy_section_ok [OF c Suc.prems(2)] have mid: "length mid = length mapped"
    "\<forall>p < length mapped. mid ! p = placed (section_part raw (length mapped) (table + of_nat i * 40)) p (mapped ! p)" by auto
  have "[i..<i + Suc k] = i # [i + 1..<i + 1 + k]" by (simp add: upt_rec)
  then show ?case using Suc.IH [OF r] Suc.prems(2) mid by simp
qed simp

lemma map_headers_ok:
  assumes "map_headers raw h = Inr m"
  shows "length m = unat (ph_image_size h)" "length m \<le> 2 ^ 30"
    "p < length m \<Longrightarrow> m ! p = (if p < unat (ph_header_size h) then raw ! p else 0)"
  using assms by (auto simp: map_headers_def Let_def nth_append min_def word_less_nat_alt split: if_splits)

lemma map_file_length:
  assumes "map_file raw h = Inr (Inr m)"
  shows "length m = unat (ph_image_size h)" "length m \<le> 2 ^ 30"
proof -
  obtain m0 where m0: "map_headers raw h = Inr m0" "copy_sections raw (ph_section_table h) 0 (unat (ph_sections h)) m0 = Inr (Inr m)"
    using assms by (auto simp: map_file_def split: sum.splits)
  from copy_sections_ok [OF m0(2)] map_headers_ok(1,2) [OF m0(1)]
  show "length m = unat (ph_image_size h)" "length m \<le> 2 ^ 30" by simp_all
qed

text \<open>A file of PE32+ headers and one section at 0x200 of an image of 0x280 bytes; the section holds an export table with
  one name and an import table with one import by ordinal.  The argument is the section's raw pointer.\<close>

definition sample_section :: "u8 list" where
  "sample_section =
     replicate 20 0 @ le_bytes 4 1 @ le_bytes 4 1 @ le_bytes 4 0x228 @ le_bytes 4 0x22C @ le_bytes 4 0x230 @
     le_bytes 4 0x100 @ le_bytes 4 0x234 @ le_bytes 4 0 @ [0x67, 0x6F, 0, 0] @
     le_bytes 4 0x260 @ replicate 8 0 @ le_bytes 4 0x270 @ le_bytes 4 0x260 @ replicate 20 0 @
     le_bytes 8 0x800000000000000F @ replicate 8 0 @ [0x4B, 0x33] @ replicate 14 0"

definition sample_file :: "u32 \<Rightarrow> u8 list" where
  "sample_file raw_ptr =
     [0x4D, 0x5A] @ replicate 58 0 @ le_bytes 4 0x40 @
     [0x50, 0x45, 0, 0] @ le_bytes 2 0x8664 @ le_bytes 2 1 @ replicate 12 0 @ le_bytes 2 0xA0 @ le_bytes 2 0 @
     le_bytes 2 0x20B @ replicate 14 0 @ le_bytes 4 0x204 @ replicate 4 0 @ le_bytes 8 0x140000000 @ replicate 24 0 @
     le_bytes 4 0x280 @ le_bytes 4 0x120 @ replicate 48 0 @
     le_bytes 4 0x200 @ le_bytes 4 0x28 @ le_bytes 4 0x238 @ le_bytes 4 0x28 @ replicate 32 0 @
     replicate 8 0 @ le_bytes 4 0x80 @ le_bytes 4 0x200 @ le_bytes 4 0x80 @ le_bytes 4 (ucast raw_ptr) @ replicate 16 0 @
     sample_section"


text \<open>C35: The image a file is mapped to, before relocation: it has SizeOfImage bytes, and the byte at a relative address is that
  of the last section that covers the address, otherwise the header byte below SizeOfHeaders, otherwise zero.\<close>

theorem image_layout:
  assumes "map_file raw h = Inr (Inr m)"
  shows "length m = unat (ph_image_size h) \<and> length m \<le> 2 ^ 30 \<and>
    (\<forall>p < length m. m ! p =
       fold (\<lambda>j. placed (section_part raw (length m) (ph_section_table h + of_nat j * 40)) p) [0..<unat (ph_sections h)]
         (if p < unat (ph_header_size h) then raw ! p else 0))"
proof -
  obtain m0 where m0: "map_headers raw h = Inr m0" "copy_sections raw (ph_section_table h) 0 (unat (ph_sections h)) m0 = Inr (Inr m)"
    using assms by (auto simp: map_file_def split: sum.splits)
  from copy_sections_ok [OF m0(2)] map_headers_ok [OF m0(1)] show ?thesis by simp
qed

definition sample_headers :: pe_headers where
  "sample_headers = \<lparr>ph_entry = 0x204, ph_image_base = 0x140000000, ph_image_size = 0x280,
     ph_header_size = 0x120, ph_export = (0x200, 0x28), ph_import = (0x238, 0x28), ph_reloc = (0, 0),
     ph_sections = 1, ph_section_table = 0xF8\<rparr>"


lemmas sample_reads = reader_u32_def reader_u16_def reader_u64_def reader_read_def sample_file_def u32_at_def u16_at_def le_value_le_bytes

lemma low_u32: "ucast (take_bit 32 (ucast v :: u64)) = (v :: u32)"
  by (rule bit_word_eqI) (simp add: bit_simps)

lemma sample_fields:
  "reader_u32 (sample_file raw_ptr) (0xF8 + 8) = Some 0x80" "reader_u32 (sample_file raw_ptr) (0xF8 + 12) = Some 0x200"
  "reader_u32 (sample_file raw_ptr) (0xF8 + 16) = Some 0x80" "reader_u32 (sample_file raw_ptr) (0xF8 + 20) = Some raw_ptr"
  by (simp_all add: sample_reads low_u32)

lemma le_value_zeros: "le_value (replicate n 0) = 0"
  by (induction n) simp_all

lemma sample_parsed: "parse_headers (sample_file raw_ptr) = Inr sample_headers"
  by (simp add: parse_headers_def parse_optional_def checked_def Let_def sample_reads sample_headers_def le_value_zeros)

lemma sample_length: "length (sample_file raw_ptr) = 0x1A0"
  by (simp add: sample_file_def sample_section_def)

lemma sample_header_fields [simp]:
  "ph_section_table sample_headers = 0xF8" "ph_sections sample_headers = 1" "ph_image_size sample_headers = 0x280"
  "ph_header_size sample_headers = 0x120" "ph_reloc sample_headers = (0, 0)" "ph_image_base sample_headers = 0x140000000"
  by (simp_all add: sample_headers_def)

lemma sample_mapped:
  obtains m where "map_file (sample_file 0x120) sample_headers = Inr (Inr m)"
proof -
  obtain m0 where m0: "map_headers (sample_file 0x120) sample_headers = Inr m0"
    by (simp add: map_headers_def sample_length)
  note len = map_headers_ok(1,2) [OF m0]
  have "unat (0x200 :: u32) < length m0" by (simp add: len(1))
  note c = copy_section_fields [OF sample_fields this len(2)]
  show thesis by (rule that) (simp add: map_file_def m0 c sample_length len(1))
qed

theorem image_layout_witness:
  "\<exists>m. map_file (sample_file 0x120) sample_headers = Inr (Inr m) \<and> m ! 0x234 = 0x67 \<and> m ! 0 = 0x4D \<and> m ! 0x130 = 0"
proof -
  obtain m where m: "map_file (sample_file 0x120) sample_headers = Inr (Inr m)" by (rule sample_mapped)
  note lay = image_layout [OF m]
  have len: "length m = 0x280" using lay by simp
  have part: "section_part (sample_file 0x120) 0x280 0xF8 = Some (0x200, take 0x80 (drop 0x120 (sample_file 0x120)))"
    unfolding section_part_def sample_fields by (simp add: sample_length)
  have at: "m ! p = placed (Some (0x200, take 0x80 (drop 0x120 (sample_file 0x120)))) p (if p < 0x120 then sample_file 0x120 ! p else 0)"
    if "p < 0x280" for p :: nat
    using lay that by (simp add: len part)
  show ?thesis using m at [of 564] at [of 0] at [of 304]
    by (simp add: sample_length) (simp add: sample_file_def sample_section_def nth_append)
qed

text \<open>The check \<open>raw_ptr + n \<le> raw.size()\<close> of a section is a 32-bit sum: the copy leaves the file's bytes exactly when the
  section's range wraps around \<open>2 ^ 32\<close> and the wrapped end still lies in the file.  For every other section the copy
  stays inside both buffers.\<close>

theorem section_escapes:
  assumes "reader_u32 raw (s + 8) = Some virt_size" "reader_u32 raw (s + 12) = Some virt_addr"
    "reader_u32 raw (s + 16) = Some raw_size" "reader_u32 raw (s + 20) = Some raw_ptr"
    "unat virt_addr < length mapped" "length mapped \<le> 2 ^ 30" "length raw < 2 ^ 32"
  shows "copy_section raw s mapped = Inl Out_of_bounds \<longleftrightarrow>
    (let n = min (min (unat raw_size) (unat virt_size)) (length mapped - unat virt_addr)
     in 2 ^ 32 \<le> unat raw_ptr + n \<and> unat raw_ptr + n - 2 ^ 32 \<le> length raw)"
proof -
  define n where "n = min (min (unat raw_size) (unat virt_size)) (length mapped - unat virt_addr)"
  have p: "unat raw_ptr < 2 ^ 32" using unsigned_less [of raw_ptr, where ?'a = nat] by simp
  have n: "n \<le> 2 ^ 30" using assms(6) by (simp add: n_def)
  have w: "unat (raw_ptr + of_nat n) = (if unat raw_ptr + n < 2 ^ 32 then unat raw_ptr + n else unat raw_ptr + n - 2 ^ 32)"
    using p n by (simp add: unat_word_ariths unat_of_nat mod_add_right_eq le_mod_geq not_less)
  show ?thesis unfolding copy_section_fields [OF assms(1-6), folded n_def] n_def [symmetric] Let_def w
    using assms(7) by auto
qed

theorem section_escapes_witness:
  "copy_section (sample_file 0xFFFFFFF0) 0xF8 (replicate 0x280 0) = Inl Out_of_bounds"
proof -
  have "unat (0x200 :: u32) < length (replicate 0x280 0 :: u8 list)" "length (replicate 0x280 0 :: u8 list) \<le> 2 ^ 30"
    "length (sample_file 0xFFFFFFF0) < 2 ^ 32" by (simp_all add: sample_length)
  from section_escapes [OF sample_fields this] show ?thesis by (simp add: sample_length)
qed

section \<open>The loader returns\<close>

lemma finish_load_returns:
  "length m \<le> 2 ^ 30 \<Longrightarrow> \<exists>img. finish_load h base m out = Some img"
  using read_descriptors_returns [of m base "fst (ph_import h)" 0 "pe_imports out"]
  by (auto simp: finish_load_def parse_imports_def)

lemma relocate_returns:
  assumes "length m \<le> 2 ^ 30"
  shows "\<exists>r. relocate h base m = Some r \<and> (\<forall>m'. r = Inr m' \<longrightarrow> length m' = length m)"
  using reloc_blocks_returns [OF assms] by (auto simp: relocate_def Let_def split: prod.split)


section \<open>Names, exports and imports\<close>

lemma char_of_nonzero: "c \<noteq> 0 \<Longrightarrow> char_of (unat (c :: u8)) \<noteq> (char_of (0 :: nat) :: char)"
  using unsigned_less [of c, where ?'a = nat] by (simp add: char_of_eq_iff take_bit_nat_eq_self unat_gt_0)

text \<open>What a name read from the image is: short and without NUL.\<close>

definition is_name :: "nat \<Rightarrow> string \<Rightarrow> bool" where
  "is_name k s \<longleftrightarrow> length s \<le> k \<and> char_of (0 :: nat) \<notin> set s"

lemma read_name_is_name: "is_name j name \<Longrightarrow> is_name (j + k) (read_name k m rva name)"
proof (induction k arbitrary: j rva name)
  case (Suc k)
  show ?case
  proof (cases "reader_read m (ucast rva) 1")
    case (Some c)
    show ?thesis
    proof (cases "c ! 0 = 0")
      case False
      then have "is_name (Suc j) (name @ [char_of (unat (c ! 0))])"
        using Suc.prems char_of_nonzero [OF False] by (auto simp: is_name_def)
      from Suc.IH [OF this, of "rva + 1"] show ?thesis by (simp only: read_name.simps Some False option.case if_False add_Suc_right add_Suc)
    next
      case True
      have "read_name (Suc k) m rva name = name" by (simp only: read_name.simps Some True option.case simp_thms if_True)
      then show ?thesis using Suc.prems by (simp add: is_name_def)
    qed
  qed (simp add: is_name_def)
qed (simp add: is_name_def)

lemma name_read: "is_name k (read_name k m rva [])"
  using read_name_is_name [of 0 "[]" k m rva] by (simp add: is_name_def)

text \<open>The \<open>i\<close>-th entry of the name table: the name and the function its ordinal leads to.\<close>

definition export_entry :: "u8 list \<Rightarrow> u32 \<times> u32 \<Rightarrow> u32 \<Rightarrow> u32 \<Rightarrow> u32 \<Rightarrow> (string \<times> u32) option" where
  "export_entry m dir names_rva ordinals_rva i =
     (case (reader_u32 m (ucast (names_rva + 4 * i)), reader_u16 m (ucast (ordinals_rva + 2 * i))) of
        (Some name_rva, Some ordinal) \<Rightarrow> Some (read_name 256 m name_rva [], read_export_rva m (fst dir) (snd dir) (ucast ordinal))
      | _ \<Rightarrow> None)"

lemma read_exports_from:
  "read_exports m dir names ords i k ex name = Some rva \<Longrightarrow>
     ex name = Some rva \<or>
     (name \<noteq> [] \<and> rva \<noteq> 0 \<and> (\<exists>j < k. export_entry m dir names ords (i + of_nat j) = Some (name, rva)))"
proof (induction k arbitrary: i ex)
  case (Suc k)
  have later: "(\<exists>j < k. export_entry m dir names ords (i + 1 + of_nat j) = Some (name, rva)) \<Longrightarrow>
      (\<exists>j < Suc k. export_entry m dir names ords (i + of_nat j) = Some (name, rva))"
    by (metis Suc_less_eq of_nat_Suc add.assoc)
  show ?case
  proof (cases "export_entry m dir names ords i")
    case None
    then show ?thesis using Suc.prems by (auto simp: export_entry_def split: option.splits)
  next
    case (Some e)
    obtain n v where e: "e = (n, v)" by (cases e)
    have "read_exports m dir names ords (i + 1) k (if n \<noteq> [] \<and> v \<noteq> 0 \<and> ex n = None then ex(n \<mapsto> v) else ex) name = Some rva"
      using Suc.prems Some e by (auto simp: export_entry_def Let_def split: option.splits)
    from Suc.IH [OF this] show ?thesis
    proof (elim disjE conjE)
      assume a: "(if n \<noteq> [] \<and> v \<noteq> 0 \<and> ex n = None then ex(n \<mapsto> v) else ex) name = Some rva"
      show ?thesis
      proof (cases "ex name = Some rva")
        case False
        then have "n = name" "v = rva" "n \<noteq> []" "v \<noteq> 0" using a by (auto split: if_splits)
        moreover have "export_entry m dir names ords (i + of_nat 0) = Some (n, v)" using Some e by simp
        ultimately show ?thesis by blast
      qed simp
    qed (use later in blast)
  qed
qed simp

lemma exported_rva:
  assumes "export_entry m dir names ords i = Some (name, rva)" "rva \<noteq> 0"
  shows "is_name 256 name" "\<not> (fst dir \<le> rva \<and> rva < fst dir + snd dir)"
  using assms name_read by (auto simp: export_entry_def read_export_rva_def Let_def split: option.splits if_splits)

lemma parse_exports_name:
  assumes "parse_exports m dir Map.empty name = Some rva"
  shows "name \<noteq> [] \<and> is_name 256 name \<and> rva \<noteq> 0 \<and> \<not> (fst dir \<le> rva \<and> rva < fst dir + snd dir)"
proof -
  obtain names ords k where "read_exports m dir names ords 0 k Map.empty name = Some rva"
    using assms by (auto simp: parse_exports_def Let_def split: if_splits)
  from read_exports_from [OF this] obtain j where "name \<noteq> []" "rva \<noteq> 0" "export_entry m dir names ords (0 + of_nat j) = Some (name, rva)"
    by auto
  then show ?thesis using exported_rva [of m dir names ords "0 + of_nat j" name rva] by simp
qed


text \<open>The failures of the steps of a load.\<close>

lemma checked_fails: "checked r k = Inl s \<longleftrightarrow> (r = None \<and> s = St_Internal) \<or> (\<exists>x. r = Some x \<and> k x = Inl s)"
  by (auto simp: checked_def split: option.split)

lemma parse_headers_fails: "parse_headers raw \<noteq> Inl St_Ok"
  by (auto simp: parse_headers_def parse_optional_def checked_fails Let_def split: if_splits)

lemma copy_sections_fails: "copy_sections raw table i k mapped \<noteq> Inr (Inl St_Ok)"
  by (induction raw table i k mapped rule: copy_sections.induct)
    (auto simp: copy_section_def on_right_def Let_def split: sum.splits option.splits if_splits)

lemma map_file_fails: "map_file raw h \<noteq> Inr (Inl St_Ok)"
  using copy_sections_fails by (auto simp: map_file_def map_headers_def Let_def split: sum.splits if_splits)

lemma load_steps:
  assumes "pe_load_file content forced_base out = Some (Inr (St_Ok, img))"
  obtains raw h m m' where "content = Some (Inr raw)" "0x100 \<le> length raw" "parse_headers raw = Inr h" "map_file raw h = Inr (Inr m)"
    "relocate h (if forced_base \<noteq> 0 then forced_base else ph_image_base h) m = Some (Inr m')"
    "finish_load h (if forced_base \<noteq> 0 then forced_base else ph_image_base h) m' out = Some img"
proof -
  obtain raw where c: "content = Some (Inr raw)" "0x100 \<le> length raw"
    using assms by (auto simp: pe_load_file_def not_less split: option.splits sum.splits if_splits)
  obtain h where h: "parse_headers raw = Inr h"
    using assms c parse_headers_fails [of raw] by (cases "parse_headers raw") (auto simp: pe_load_file_def)
  obtain m where m: "map_file raw h = Inr (Inr m)"
    using assms c h map_file_fails [of raw h] by (auto simp: pe_load_file_def Let_def split: sum.splits)
  show thesis using that [OF c h m] assms c h m by (auto simp: pe_load_file_def Let_def split: option.splits sum.splits)
qed



text \<open>C38: The provider of an image serves exactly the bytes of the range it maps and refuses every other read that does not
  wrap around the end of the address space.  A read that wraps, from an address above the base to an end below the
  image's end, passes the check and leaves the buffer.\<close>

theorem image_read_exact:
  assumes "pe_size img = of_nat (length (pe_mapped img))" "unat (pe_base img) + length (pe_mapped img) < 2 ^ 64" "n < 2 ^ 64"
  shows "image_read img a n =
    (if unat a + n < 2 ^ 64
     then (if pe_base img \<le> a \<and> unat a + n \<le> unat (pe_base img) + length (pe_mapped img)
           then Inr (St_Ok, take n (drop (unat (a - pe_base img)) (pe_mapped img)))
           else Inr (St_UnmappedRead, []))
     else (if pe_base img \<le> a \<and> unat a + n - 2 ^ 64 \<le> unat (pe_base img) + length (pe_mapped img)
           then Inl Out_of_bounds else Inr (St_UnmappedRead, [])))"
proof -
  have e: "unat (pe_base img + pe_size img) = unat (pe_base img) + length (pe_mapped img)"
    using assms(1,2) by (simp add: unat_word_ariths unat_of_nat mod_add_right_eq)
  have u: "unat a < 2 ^ 64" using unsigned_less [of a, where ?'a = nat] by simp
  have w: "unat (a + of_nat n) = (if unat a + n < 2 ^ 64 then unat a + n else unat a + n - 2 ^ 64)"
    using u assms(3) by (simp add: unat_word_ariths unat_of_nat mod_add_right_eq le_mod_geq not_less)
  have d: "unat (a - pe_base img) = unat a - unat (pe_base img)" if "pe_base img \<le> a"
    using that by (rule unat_sub)
  show ?thesis
  proof (cases "a < pe_base img")
    case False
    then have True: "pe_base img \<le> a" by simp
    then have "unat (pe_base img) \<le> unat a" by (simp add: word_le_nat_alt)
    with True False show ?thesis using assms(2)
      by (auto simp: image_read_def word_less_nat_alt [of "pe_base img + pe_size img"] e w d peek_def not_less)
  next
    case True
    moreover from True have "\<not> pe_base img \<le> a" by (simp only: not_le)
    ultimately show ?thesis by (simp add: image_read_def)
  qed
qed

theorem image_read_exact_witness:
  "image_read \<lparr>pe_base = 0x10000, pe_size = 4, pe_entry_rva = 0, pe_mapped = [1, 2, 3, 4], pe_exports = Map.empty, pe_imports = []\<rparr> 0x10001 2 =
     Inr (St_Ok, [2, 3]) \<and>
   image_read \<lparr>pe_base = 0x10000, pe_size = 4, pe_entry_rva = 0, pe_mapped = [1, 2, 3, 4], pe_exports = Map.empty, pe_imports = []\<rparr>
     0xFFFFFFFFFFFFFFF8 16 = Inl Out_of_bounds"
proof -
  let ?i = "\<lparr>pe_base = 0x10000, pe_size = 4, pe_entry_rva = 0, pe_mapped = [1, 2, 3, 4], pe_exports = Map.empty, pe_imports = []\<rparr>"
  have "pe_size ?i = of_nat (length (pe_mapped ?i))" "unat (pe_base ?i) + length (pe_mapped ?i) < 2 ^ 64" by simp_all
  note r = image_read_exact [OF this]
  show ?thesis using r [of 2 "0x10001"] r [of 16 "0xFFFFFFFFFFFFFFF8"] by simp
qed

section \<open>One relocation\<close>

lemma peek_poke:
  assumes "peek off n m = Inr v" "length bs = n"
  obtains m' where "poke off bs m = Inr m'" "peek off n m' = Inr bs" "poke off v m' = Inr m" "length m' = length m"
proof
  let ?m = "take off m @ bs @ drop (off + n) m"
  have v: "off + n \<le> length m" "v = take n (drop off m)" using assms(1) by (simp_all add: peek_Inr)
  show "poke off bs m = Inr ?m" using v(1) by (simp add: poke_Inr assms(2))
  show "peek off n ?m = Inr bs" "length ?m = length m" using v(1) by (simp_all add: peek_Inr assms(2))
  have "m = take off m @ v @ drop (off + n) m"
    by (metis append_take_drop_id drop_drop add.commute v(2))
  moreover have "length v = n" using v by simp
  ultimately show "poke off v ?m = Inr m" using v(1) by (simp add: poke_Inr assms(2))
qed

lemma u32_bytes:
  assumes "length v = 4"
  shows "le_bytes 4 (ucast (u32_at 0 v)) = v"
proof -
  have "ucast (u32_at 0 v) = le_value v"
    by (rule bit_word_eqI) (auto simp: u32_at_def assms bit_simps bit_le_value)
  then show ?thesis using le_bytes_le_value [of v] assms by simp
qed

lemma u32_of_bytes: "u32_at 0 (le_bytes 4 (ucast x)) = x"
  by (simp add: u32_at_def le_value_le_bytes low_u32)

text \<open>Relocating one entry by a distance and then by its negative gives the image back, whatever the entry's type.  An
  entry touches nothing but the eight bytes at its target, and one of type 10 whose target lies in the image adds the
  distance to the 64-bit value there.\<close>

theorem relocation_undone:
  assumes "reloc_entry delta page e m = Inr m'"
  defines "t \<equiv> unat (page + ucast (e AND 0xFFF))"
  shows "reloc_entry (- delta) page e m' = Inr m \<and> length m' = length m \<and>
    (\<forall>p < length m. p < t \<or> t + 8 \<le> p \<longrightarrow> m' ! p = m ! p) \<and>
    (drop_bit 12 e = 10 \<and> t + 8 \<le> length m \<longrightarrow>
       le_value (take 8 (drop t m')) = le_value (take 8 (drop t m)) + delta)"
proof -
  let ?t = "page + ucast (e AND 0xFFF) :: u32"
  have wrap: "unat (?t + 8) \<le> t + 8" by (simp add: t_def unat_word_ariths)
  consider (same) "length m < unat (?t + 8) \<or> (drop_bit 12 e \<noteq> 10 \<and> drop_bit 12 e \<noteq> 3) \<or>
      drop_bit 12 e = 3 \<and> length m < unat (?t + 4)"
    | (dir64) "unat (?t + 8) \<le> length m" "drop_bit 12 e = 10"
    | (highlow) "unat (?t + 8) \<le> length m" "drop_bit 12 e = 3" "unat (?t + 4) \<le> length m"
    by linarith
  then show ?thesis
  proof cases
    case same
    then have "m' = m" using assms(1) by (auto simp: reloc_entry_def Let_def split: if_splits)
    then show ?thesis using same wrap by (auto simp: reloc_entry_def Let_def)
  next
    case dir64
    then obtain v where v: "peek t 8 m = Inr v" "poke t (le_bytes 8 (le_value v + delta)) m = Inr m'"
      using assms(1) by (auto simp: reloc_entry_def Let_def t_def on_right_Inr not_less)
    have l: "length v = 8" using v(1) by (auto simp: peek_Inr)
    obtain n where n: "poke t (le_bytes 8 (le_value v + delta)) m = Inr n" "peek t 8 n = Inr (le_bytes 8 (le_value v + delta))"
      "poke t v n = Inr m" "length n = length m"
      by (rule peek_poke [OF v(1), of "le_bytes 8 (le_value v + delta)"]) simp_all
    have b: "le_value (le_bytes 8 w) = w" for w by (rule bit_word_eqI) (simp add: le_value_le_bytes bit_simps)
    have restored: "le_bytes 8 (le_value v) = v" using le_bytes_le_value [of v] l by simp
    have "reloc_entry (- delta) page e m' = Inr m"
      using dir64 v(2) n by (simp add: reloc_entry_def Let_def t_def [symmetric] b restored)
    moreover have "le_value (take 8 (drop t m')) = le_value (take 8 (drop t m)) + delta"
    proof -
      have "m' = n" using v(2) n(1) by simp
      then have "take 8 (drop t m') = le_bytes 8 (le_value v + delta)" using n(2) by (simp add: peek_Inr)
      moreover have "take 8 (drop t m) = v" using v(1) by (simp add: peek_Inr)
      ultimately show ?thesis by (simp only: b)
    qed
    ultimately show ?thesis using v(2) n(4) n(1) by (auto simp: poke_nth)
  next
    case highlow
    then obtain v where v: "peek t 4 m = Inr v" "poke t (le_bytes 4 (ucast (u32_at 0 v + ucast delta))) m = Inr m'"
      using assms(1) by (auto simp: reloc_entry_def Let_def t_def on_right_Inr not_less)
    let ?bs = "le_bytes 4 (ucast (u32_at 0 v + ucast delta))"
    have l: "length v = 4" using v(1) by (auto simp: peek_Inr)
    obtain n where n: "poke t ?bs m = Inr n" "peek t 4 n = Inr ?bs" "poke t v n = Inr m" "length n = length m"
      by (rule peek_poke [OF v(1), of ?bs]) simp_all
    have neg: "(ucast (- delta) :: u32) = - ucast delta"
    proof -
      have d: "take_bit 32 (- take_bit 64 d) = take_bit 32 (- d)" for d :: int
        using take_bit_minus [of 32 "take_bit 64 d"] by (simp add: take_bit_minus)
      show ?thesis by transfer (simp add: take_bit_minus d)
    qed
    have "reloc_entry (- delta) page e m' = Inr m"
      using highlow v(2) n by (simp add: reloc_entry_def Let_def t_def [symmetric] u32_of_bytes neg u32_bytes l)
    then show ?thesis using v(2) n(4) n(1) highlow by (auto simp: poke_nth)
  qed
qed

theorem relocation_undone_witness:
  "reloc_entry 0x1000 0 0xA002 (replicate 12 0) = Inr ([0, 0, 0, 0x10] @ replicate 8 0) \<and>
   reloc_entry (- 0x1000) 0 0xA002 ([0, 0, 0, 0x10] @ replicate 8 0) = Inr (replicate 12 0)"
proof -
  have "reloc_entry 0x1000 0 0xA002 (replicate 12 0) = Inr ([0, 0, 0, 0x10] @ replicate 8 0)" by code_simp
  from relocation_undone [OF this] this show ?thesis by simp
qed

end
