(* ===== verification/Host_Process.thy ===== *)
theory Host_Process
  imports Memory_Interface
begin

text \<open>
  The access to a process of the host: \<^verbatim>\<open>src/src/host/win_process.cpp\<close> and \<^verbatim>\<open>src/src/host/win_tls.cpp\<close>.  The calls of the
  operating system are the fields of \<open>windows\<close>, functions on a host state \<open>'h\<close>; a null handle is 0.  The model keeps what the code
  does with their results: which call follows which, what is closed, and which status comes out.
\<close>

section \<open>The operating system\<close>

record ProcessRegion =
  pr_base :: GuestAddr
  pr_size :: u64
  pr_protect :: u32
  pr_state :: u32
  pr_type :: u32

text \<open>\<open>w_read\<close> returns whether the call succeeded and the bytes it stored, \<open>w_query\<close> a region and whether it is free,
  \<open>w_modules\<close> the first module and the number of bytes the list needs, \<open>w_snapshot\<close> a handle and the threads with their owners,
  \<open>w_teb\<close> the address of the thread's block or an error.\<close>

record 'h windows =
  w_open_process :: "u32 \<Rightarrow> 'h \<Rightarrow> u64 \<times> 'h"
  w_close :: "u64 \<Rightarrow> 'h \<Rightarrow> 'h"
  w_read :: "u64 \<Rightarrow> GuestAddr \<Rightarrow> nat \<Rightarrow> 'h \<Rightarrow> bool \<times> u8 list"
  w_query :: "u64 \<Rightarrow> GuestAddr \<Rightarrow> 'h \<Rightarrow> (bool \<times> ProcessRegion) option"
  w_modules :: "u64 \<Rightarrow> 'h \<Rightarrow> (GuestAddr \<times> u32) option"
  w_snapshot :: "'h \<Rightarrow> (u64 \<times> (u32 \<times> u32) list) option \<times> 'h"
  w_open_thread :: "bool \<Rightarrow> u32 \<Rightarrow> 'h \<Rightarrow> u64 \<times> 'h"
  w_has_query_thread :: "'h \<Rightarrow> bool"
  w_teb :: "u64 \<Rightarrow> 'h \<Rightarrow> GuestAddr option"

section \<open>A process\<close>

record process =
  proc_handle :: u64
  proc_pid :: u32

definition new_process :: process where
  "new_process = \<lparr>proc_handle = 0, proc_pid = 0\<rparr>"

definition is_open :: "process \<Rightarrow> bool" where
  "is_open p \<longleftrightarrow> proc_handle p \<noteq> 0"

definition process_close :: "'h windows \<Rightarrow> process \<Rightarrow> 'h \<Rightarrow> process \<times> 'h" where
  "process_close w p s = (new_process, if proc_handle p \<noteq> 0 then w_close w (proc_handle p) s else s)"

definition process_open :: "'h windows \<Rightarrow> u32 \<Rightarrow> process \<Rightarrow> 'h \<Rightarrow> Status \<times> process \<times> 'h" where
  "process_open w pid p s =
     (case process_close w p s of
        (p, s) \<Rightarrow>
          (case w_open_process w pid s of
             (h, s) \<Rightarrow> if h = 0 then (St_HostOpenFailed, p, s) else (St_Ok, \<lparr>proc_handle = h, proc_pid = pid\<rparr>, s)))"

text \<open>The move constructor gives the new process and what is left of the other one; the move assignment first closes its
  target, unless both are the same object.\<close>

definition process_move :: "process \<Rightarrow> process \<times> process" where
  "process_move other = (other, new_process)"

definition process_move_assign :: "'h windows \<Rightarrow> process \<Rightarrow> process \<Rightarrow> 'h \<Rightarrow> (process \<times> process) \<times> 'h" where
  "process_move_assign w p other s = (case process_close w p s of (p, s) \<Rightarrow> (process_move other, s))"

text \<open>The loop of \<open>read\<close>: one call per page, up to the first that is not complete.\<close>

definition page_chunk :: "GuestAddr \<Rightarrow> nat \<Rightarrow> nat" where
  "page_chunk cur remaining =
     (let page_end = (cur AND NOT 0xFFF) + 0x1000
      in if unat (page_end - cur) < remaining then unat (page_end - cur) else remaining)"

lemma page_room: "unat ((cur AND NOT 0xFFF) + 0x1000 - cur :: u64) = 4096 - unat cur mod 4096"
proof -
  have "cur AND 0xFFF = take_bit 12 cur" by (simp add: take_bit_eq_mask mask_eq_exp_minus_1)
  then have low: "unat (cur AND 0xFFF) = unat cur mod 4096" by (simp add: unsigned_take_bit_eq take_bit_eq_mod unat_mod)
  have "(cur AND NOT 0xFFF) + (cur AND 0xFFF) = cur"
    by (subst disjunctive_add) (auto simp: bit_simps intro!: bit_word_eqI)
  then have e: "(cur AND NOT 0xFFF) + 0x1000 - cur = 0x1000 - (cur AND 0xFFF)" by (simp add: algebra_simps)
  have "cur AND 0xFFF \<le> 0x1000" using low by (simp add: word_le_nat_alt)
  then show ?thesis unfolding e by (simp add: unat_sub low)
qed

lemma page_chunk_bounds: "0 < n \<Longrightarrow> 0 < page_chunk cur n \<and> page_chunk cur n \<le> n \<and> unat cur mod 4096 + page_chunk cur n \<le> 4096"
  unfolding page_chunk_def Let_def page_room by (auto simp: not_less)

function read_loop :: "'h windows \<Rightarrow> u64 \<Rightarrow> 'h \<Rightarrow> GuestAddr \<Rightarrow> nat \<Rightarrow> u8 list \<Rightarrow> Status \<times> u8 list" where
  "read_loop w h s cur remaining out =
     (if remaining = 0 then (St_Ok, out)
      else (let chunk = page_chunk cur remaining
            in case w_read w h cur chunk s of
                 (ok, bs) \<Rightarrow>
                   if \<not> ok \<or> length bs \<noteq> chunk then (St_HostReadFailed, out @ bs)
                   else read_loop w h s (cur + of_nat chunk) (remaining - chunk) (out @ bs)))"
  by pat_completeness auto

termination
  by (relation "measure (\<lambda>(w, h, s, cur, remaining, out). remaining)") (use page_chunk_bounds in \<open>auto simp: Let_def\<close>)

declare read_loop.simps [simp del]

definition process_read :: "'h windows \<Rightarrow> process \<Rightarrow> 'h \<Rightarrow> GuestAddr \<Rightarrow> nat \<Rightarrow> Status \<times> u8 list" where
  "process_read w p s addr n =
     (if \<not> is_open p then (St_HostOpenFailed, [])
      else if n = 0 then (St_InvalidArgument, [])
      else read_loop w (proc_handle p) s addr n [])"

definition process_query :: "'h windows \<Rightarrow> process \<Rightarrow> 'h \<Rightarrow> GuestAddr \<Rightarrow> Status + ProcessRegion" where
  "process_query w p s addr =
     (if \<not> is_open p then Inl St_HostOpenFailed
      else (case w_query w (proc_handle p) addr s of
              None \<Rightarrow> Inl St_HostQueryFailed
            | Some (free, region) \<Rightarrow> if free then Inl St_UnmappedRead else Inr region))"

definition main_module_base :: "'h windows \<Rightarrow> process \<Rightarrow> 'h \<Rightarrow> Status + GuestAddr" where
  "main_module_base w p s =
     (if \<not> is_open p then Inl St_HostOpenFailed
      else (case w_modules w (proc_handle p) s of
              None \<Rightarrow> Inl St_HostQueryFailed
            | Some (base, needed) \<Rightarrow> if needed < 8 then Inl St_HostQueryFailed else Inr base))"

section \<open>The provider of a process\<close>

definition win_read :: "'h windows \<Rightarrow> process option \<Rightarrow> 'h \<Rightarrow> GuestAddr \<Rightarrow> nat \<Rightarrow> Status \<times> u8 list" where
  "win_read w proc s addr n =
     (case proc of None \<Rightarrow> (St_HostOpenFailed, []) | Some p \<Rightarrow> if \<not> is_open p then (St_HostOpenFailed, []) else process_read w p s addr n)"

definition win_is_mapped :: "'h windows \<Rightarrow> process option \<Rightarrow> 'h \<Rightarrow> GuestAddr \<Rightarrow> bool" where
  "win_is_mapped w proc s addr \<longleftrightarrow>
     (case proc of None \<Rightarrow> False | Some p \<Rightarrow> is_open p \<and> (case process_query w p s addr of Inl _ \<Rightarrow> False | Inr _ \<Rightarrow> True))"

text \<open>The provider as the caches below the chain use it: a write is the one of the base class.\<close>

definition win_provider :: "'h windows \<Rightarrow> (process option \<times> 'h) provider" where
  "win_provider w = \<lparr>prov_read = (\<lambda>a n m. case win_read w (fst m) (snd m) a n of (r, bs) \<Rightarrow> (r, bs, m)), prov_write = default_write\<rparr>"

section \<open>Threads\<close>

definition lower_tid :: "u32 \<Rightarrow> u32 \<times> u32 \<Rightarrow> u32 \<Rightarrow> u32" where
  "lower_tid pid t best = (if fst t = pid \<and> (best = 0 \<or> snd t < best) then snd t else best)"

definition main_thread_of :: "'h windows \<Rightarrow> u32 \<Rightarrow> 'h \<Rightarrow> u32 \<times> 'h" where
  "main_thread_of w pid s =
     (case w_snapshot w s of
        (None, s) \<Rightarrow> (0, s)
      | (Some (snap, threads), s) \<Rightarrow> (fold (lower_tid pid) threads 0, w_close w snap s))"

definition thread_teb :: "'h windows \<Rightarrow> u32 \<Rightarrow> 'h \<Rightarrow> (Status \<times> GuestAddr) \<times> 'h" where
  "thread_teb w tid s =
     (case w_open_thread w True tid s of
        (h, s) \<Rightarrow>
          (case (if h = 0 then w_open_thread w False tid s else (h, s)) of
             (h, s) \<Rightarrow>
               if h = 0 then ((St_HostQueryFailed, 0), s)
               else if \<not> w_has_query_thread w s then ((St_HostQueryFailed, 0), w_close w h s)
               else (let teb = w_teb w h s; s = w_close w h s
                     in case teb of
                          None \<Rightarrow> ((St_HostQueryFailed, 0), s)
                        | Some a \<Rightarrow> if a = 0 then ((St_HostQueryFailed, 0), s) else ((St_Ok, a), s))))"

definition query_thread_teb :: "'h windows \<Rightarrow> u32 \<Rightarrow> u32 \<Rightarrow> 'h \<Rightarrow> (Status \<times> GuestAddr) \<times> 'h" where
  "query_thread_teb w pid tid s =
     (if tid = 0
      then (case main_thread_of w pid s of
              (tid, s) \<Rightarrow> if tid = 0 then ((St_HostQueryFailed, 0), s) else thread_teb w tid s)
      else thread_teb w tid s)"

section \<open>Reads\<close>

text \<open>What \<^verbatim>\<open>ReadProcessMemory\<close> documents for a range inside one page: it stores all bytes, or it fails or stores fewer.\<close>

definition page_reads :: "'h windows \<Rightarrow> u64 \<Rightarrow> 'h \<Rightarrow> (GuestAddr \<Rightarrow> u8 option) \<Rightarrow> bool" where
  "page_reads w h s mem \<longleftrightarrow>
     (\<forall>a n. 0 < n \<longrightarrow> unat a mod 4096 + n \<le> 4096 \<longrightarrow>
        (if \<forall>i < n. mem (a + of_nat i) \<noteq> None
         then w_read w h a n s = (True, map (\<lambda>i. the (mem (a + of_nat i))) [0..<n])
         else \<not> fst (w_read w h a n s) \<or> length (snd (w_read w h a n s)) < n))"

lemma split_span:
  "(\<forall>i < k + n. mem (a + of_nat i) \<noteq> None) \<longleftrightarrow>
     (\<forall>i < k. mem (a + of_nat i) \<noteq> None) \<and> (\<forall>i < n. mem (a + of_nat k + of_nat i :: u64) \<noteq> None)"
proof -
  have "(\<forall>i < k + n. P i) \<longleftrightarrow> (\<forall>i < k. P i) \<and> (\<forall>i < n. P (k + i))" for P
    by (metis add_less_cancel_left less_add_eq_less not_less le_add_diff_inverse nat_add_left_cancel_less trans_less_add1)
  from this [of "\<lambda>i. mem (a + of_nat i) \<noteq> None"] show ?thesis by (simp add: add.assoc)
qed

lemma map_span: "map (\<lambda>i. f (a + of_nat i :: u64)) [0..<k + n] = map (\<lambda>i. f (a + of_nat i)) [0..<k] @ map (\<lambda>i. f (a + of_nat k + of_nat i)) [0..<n]"
  by (rule nth_equalityI) (auto simp: nth_append add.assoc simp flip: of_nat_add)

lemma read_loop_exact:
  assumes "page_reads w h s mem"
  shows "if \<forall>i < n. mem (cur + of_nat i) \<noteq> None
    then read_loop w h s cur n out = (St_Ok, out @ map (\<lambda>i. the (mem (cur + of_nat i))) [0..<n])
    else fst (read_loop w h s cur n out) = St_HostReadFailed"
proof (induction n arbitrary: cur out rule: less_induct)
  case (less n)
  show ?case
  proof (cases "n = 0")
    case True
    then show ?thesis by (simp add: read_loop.simps)
  next
    case False
    define k where "k = page_chunk cur n"
    have k: "0 < k" "k \<le> n" "unat cur mod 4096 + k \<le> 4096" using page_chunk_bounds [of n cur] False by (simp_all add: k_def)
    obtain m where n: "n = k + m" using k(2) le_Suc_ex by blast
    then have minus: "n - k = m" by simp
    obtain ok bs where r: "w_read w h cur k s = (ok, bs)" by (cases "w_read w h cur k s")
    have step: "read_loop w h s cur n out =
      (if \<not> ok \<or> length bs \<noteq> k then (St_HostReadFailed, out @ bs) else read_loop w h s (cur + of_nat k) m (out @ bs))"
      using False minus by (subst read_loop.simps) (simp add: Let_def k_def [symmetric] r)
    show ?thesis
    proof (cases "\<forall>i < k. mem (cur + of_nat i) \<noteq> None")
      case True
      then have "ok" "bs = map (\<lambda>i. the (mem (cur + of_nat i))) [0..<k]"
        using assms k r unfolding page_reads_def by force+
      then have here: "read_loop w h s cur n out = read_loop w h s (cur + of_nat k) m (out @ map (\<lambda>i. the (mem (cur + of_nat i))) [0..<k])"
        using step by simp
      have "m < n" using n k(1) by simp
      from less.IH [OF this, of "cur + of_nat k" "out @ map (\<lambda>i. the (mem (cur + of_nat i))) [0..<k]"]
      show ?thesis unfolding here unfolding n split_span using True map_span [of "\<lambda>x. the (mem x)" cur k m] by simp
    next
      case out: False
      then have "\<not> fst (w_read w h cur k s) \<or> length (snd (w_read w h cur k s)) < k"
        using assms k unfolding page_reads_def by (metis (no_types, lifting))
      then have "\<not> ok \<or> length bs \<noteq> k" using r by auto
      then show ?thesis using out step unfolding n split_span by auto
    qed
  qed
qed

text \<open>C39: A read of another process, cut into calls that stay inside a page, behaves like one read of the whole range: it succeeds
  exactly when every byte of the range can be read, then it returns those bytes, and otherwise it reports a failed
  read.\<close>

theorem process_read_exact:
  assumes "page_reads w (proc_handle p) s mem"
  shows "if \<not> is_open p then process_read w p s a n = (St_HostOpenFailed, [])
    else if n = 0 then fst (process_read w p s a n) = St_InvalidArgument
    else if \<forall>i < n. mem (a + of_nat i) \<noteq> None
    then process_read w p s a n = (St_Ok, map (\<lambda>i. the (mem (a + of_nat i))) [0..<n])
    else fst (process_read w p s a n) = St_HostReadFailed"
  using read_loop_exact [OF assms, of n a "[]"] by (simp add: process_read_def)

section \<open>Handles\<close>

text \<open>What the calls that open and close handles document, for the handles that are live in a host state: an opening call returns
  null or a new handle, and closing a live handle removes it.\<close>

definition handle_laws :: "'h windows \<Rightarrow> ('h \<Rightarrow> u64 set) \<Rightarrow> bool" where
  "handle_laws w live \<longleftrightarrow>
     (\<forall>pid s. case w_open_process w pid s of
        (h, s') \<Rightarrow> if h = 0 then live s' = live s else h \<notin> live s \<and> live s' = insert h (live s)) \<and>
     (\<forall>l tid s. case w_open_thread w l tid s of
        (h, s') \<Rightarrow> if h = 0 then live s' = live s else h \<notin> live s \<and> live s' = insert h (live s)) \<and>
     (\<forall>s. case w_snapshot w s of
        (None, s') \<Rightarrow> live s' = live s
      | (Some (h, _), s') \<Rightarrow> h \<notin> live s \<and> live s' = insert h (live s)) \<and>
     (\<forall>h s. live (w_close w h s) = live s - {h})"

text \<open>The handles of the processes a client holds.\<close>

definition held :: "process \<Rightarrow> u64 set" where
  "held p = (if is_open p then {proc_handle p} else {})"

lemma close_live:
  assumes "handle_laws w live" "process_close w p s = (p', s')"
  shows "p' = new_process" "live s' = live s - held p"
  using assms by (auto simp: process_close_def handle_laws_def held_def is_open_def)

lemma thread_teb_live:
  assumes "handle_laws w live" "thread_teb w tid s = (r, s')"
  shows "live s' = live s"
proof -
  have o: "case w_open_thread w l tid s of (h, s') \<Rightarrow> if h = 0 then live s' = live s else h \<notin> live s \<and> live s' = insert h (live s)" for l s
    using assms(1) by (simp add: handle_laws_def)
  have c: "live (w_close w h s) = live s - {h}" for h s using assms(1) by (simp add: handle_laws_def)
  obtain h1 s1 where 1: "w_open_thread w True tid s = (h1, s1)" by (cases "w_open_thread w True tid s")
  obtain h2 s2 where 2: "(if h1 = 0 then w_open_thread w False tid s1 else (h1, s1)) = (h2, s2)"
    by (cases "if h1 = 0 then w_open_thread w False tid s1 else (h1, s1)")
  have "if h2 = 0 then live s2 = live s else h2 \<notin> live s \<and> live s2 = insert h2 (live s)"
    using o [where l = True and s = s] o [where l = False and s = s1] 1 2 by (auto split: if_splits)
  then show ?thesis using assms(2) 1 2 c by (auto simp: thread_teb_def Let_def split: if_splits option.splits)
qed

lemma open_live:
  assumes "handle_laws w live" "process_open w pid p s = (r, p', s')"
  shows "r = St_Ok \<longleftrightarrow> is_open p'" "live s' = (live s - held p) \<union> held p'" "held p' \<inter> (live s - held p) = {}"
proof -
  from assms(2) obtain s1 h s2 where 1: "process_close w p s = (new_process, s1)" "w_open_process w pid s1 = (h, s2)"
    and 2: "(r, p', s') = (if h = 0 then (St_HostOpenFailed, new_process, s2) else (St_Ok, \<lparr>proc_handle = h, proc_pid = pid\<rparr>, s2))"
    by (auto simp: process_open_def process_close_def split: prod.splits)
  have l1: "live s1 = live s - held p" by (rule close_live [OF assms(1) 1(1)])
  have "case w_open_process w pid s1 of (h, s') \<Rightarrow> if h = 0 then live s' = live s1 else h \<notin> live s1 \<and> live s' = insert h (live s1)"
    using assms(1) by (simp add: handle_laws_def)
  then have "if h = 0 then live s2 = live s1 else h \<notin> live s1 \<and> live s2 = insert h (live s1)" by (simp add: 1(2))
  then show "r = St_Ok \<longleftrightarrow> is_open p'" "live s' = (live s - held p) \<union> held p'" "held p' \<inter> (live s - held p) = {}"
    using 2 l1 by (auto simp: held_def is_open_def new_process_def split: if_splits)
qed

lemma main_thread_live:
  assumes "handle_laws w live" "main_thread_of w pid s = (t1, s1)"
  shows "live s1 = live s"
proof -
  have closed: "live (w_close w h s) = live s - {h}" for h s using assms(1) by (simp add: handle_laws_def)
  have taken: "case w_snapshot w s of (None, s') \<Rightarrow> live s' = live s | (Some (h, _), s') \<Rightarrow> h \<notin> live s \<and> live s' = insert h (live s)"
    using assms(1) by (simp add: handle_laws_def)
  obtain o1 s0 where o1: "w_snapshot w s = (o1, s0)" by (cases "w_snapshot w s")
  show ?thesis
  proof (cases o1)
    case None
    then show ?thesis using taken assms(2) by (simp add: o1 main_thread_of_def)
  next
    case (Some x)
    obtain h ts where "x = (h, ts)" by (cases x)
    then show ?thesis using taken assms(2) closed [of h s0] by (auto simp: o1 Some main_thread_of_def)
  qed
qed

text \<open>C40: No handle is lost.  Closing and reopening a process releases exactly the handle it held,
  opening holds the new handle and no other, a failed open leaves the process closed, moving a process transfers its
  handle, and a lookup of a thread's block leaves the live handles as they were on every path.\<close>

theorem handles_balanced:
  assumes "handle_laws w live"
  shows "(process_close w p s = (p', s') \<longrightarrow> held p' = {} \<and> live s' = live s - held p) \<and>
    (process_open w pid p s = (r, p', s') \<longrightarrow>
       (r = St_Ok \<longleftrightarrow> is_open p') \<and> live s' = (live s - held p) \<union> held p' \<and> held p' \<inter> (live s - held p) = {}) \<and>
    (process_move_assign w p q s = ((p', q'), s') \<longrightarrow> held p' = held q \<and> held q' = {} \<and> live s' = live s - held p) \<and>
    (query_thread_teb w pid tid s = (t, s') \<longrightarrow> live s' = live s)"
proof (intro conjI impI)
  note close = close_live [OF assms]
  assume "process_close w p s = (p', s')"
  from close [OF this] show "held p' = {}" "live s' = live s - held p" by (simp_all add: held_def is_open_def new_process_def)
next
  assume "process_open w pid p s = (r, p', s')"
  from open_live [OF assms this]
  show "r = St_Ok \<longleftrightarrow> is_open p'" "live s' = (live s - held p) \<union> held p'" "held p' \<inter> (live s - held p) = {}" by simp_all
next
  assume "process_move_assign w p q s = ((p', q'), s')"
  then have m: "p' = q" "q' = new_process" "process_close w p s = (new_process, s')"
    by (auto simp: process_move_assign_def process_move_def process_close_def)
  show "held p' = held q" "held q' = {}" "live s' = live s - held p"
    using close_live(2) [OF assms m(3)] by (simp_all add: m(1,2) held_def is_open_def new_process_def)
next
  assume q: "query_thread_teb w pid tid s = (t, s')"
  note snap = main_thread_live [OF assms]
  note teb = thread_teb_live [OF assms]
  show "live s' = live s"
  proof (cases "tid = 0")
    case True
    obtain t1 s1 where m: "main_thread_of w pid s = (t1, s1)" by (cases "main_thread_of w pid s")
    show ?thesis using q snap [OF m] teb [of t1 s1 t s'] by (simp add: True query_thread_teb_def m split: if_splits)
  qed (use q teb [of tid s t s'] in \<open>simp add: query_thread_teb_def\<close>)
qed

text \<open>A host with two handles, 8 and 12, whose state is the list of the live ones.\<close>

definition next_handle :: "u64 list \<Rightarrow> u64 \<times> u64 list" where
  "next_handle s = (if list_all (\<lambda>h. h \<noteq> 8) s then (8, 8 # s) else if list_all (\<lambda>h. h \<noteq> 12) s then (12, 12 # s) else (0, s))"

definition sample_windows :: "(GuestAddr \<Rightarrow> u8 option) \<Rightarrow> u64 list windows" where
  "sample_windows mem =
     \<lparr>w_open_process = (\<lambda>_. next_handle), w_close = (\<lambda>h. filter (\<lambda>x. x \<noteq> h)),
      w_read = (\<lambda>_ a n _. if list_all (\<lambda>i. mem (a + of_nat i) \<noteq> None) [0..<n]
                           then (True, map (\<lambda>i. the (mem (a + of_nat i))) [0..<n]) else (False, [])),
      w_query = (\<lambda>_ _ _. None), w_modules = (\<lambda>_ _. None),
      w_snapshot = (\<lambda>s. case next_handle s of (h, s) \<Rightarrow> if h = 0 then (None, s) else (Some (h, [(7, 5), (7, 3), (9, 1)]), s)),
      w_open_thread = (\<lambda>_ _. next_handle), w_has_query_thread = (\<lambda>_. True), w_teb = (\<lambda>_ _. Some 0x7000)\<rparr>"

lemma sample_handle_laws: "handle_laws (sample_windows mem) set"
  by (auto simp: handle_laws_def sample_windows_def next_handle_def list_all_iff split: prod.splits)

theorem process_read_exact_witness:
  "process_read (sample_windows (\<lambda>a. if a < 0x2000 then Some (ucast a) else None)) \<lparr>proc_handle = 8, proc_pid = 1\<rparr> [8] 0xFFE 4 =
     (St_Ok, [0xFE, 0xFF, 0, 1])"
proof -
  let ?w = "sample_windows (\<lambda>a. if a < 0x2000 then Some (ucast a) else None)"
  have "page_reads ?w (proc_handle \<lparr>proc_handle = 8, proc_pid = 1\<rparr>) [8] (\<lambda>a. if a < 0x2000 then Some (ucast a) else None)"
    by (auto simp: page_reads_def sample_windows_def list_all_iff)
  note r = process_read_exact [OF this, of "0xFFE" 4]
  have up: "[0..<4] = [0, 1, 2, 3 :: nat]" by (simp add: upt_rec)
  have all: "(\<forall>i < 4. P i) \<longleftrightarrow> P 0 \<and> P 1 \<and> P 2 \<and> P (3 :: nat)" for P
    by (simp add: All_less_Suc eval_nat_numeral conj_ac)
  show ?thesis using r unfolding up all by (simp add: is_open_def)
qed

theorem handles_balanced_witness:
  "query_thread_teb (sample_windows (\<lambda>_. None)) 7 0 [] = ((St_Ok, 0x7000), []) \<and>
   set (snd (query_thread_teb (sample_windows (\<lambda>_. None)) 7 0 [])) = set []"
proof -
  have q: "query_thread_teb (sample_windows (\<lambda>_. None)) 7 0 [] = ((St_Ok, 0x7000), [])"
    by (simp add: query_thread_teb_def main_thread_of_def thread_teb_def sample_windows_def next_handle_def lower_tid_def Let_def)
  show ?thesis using handles_balanced [OF sample_handle_laws, of "\<lambda>_. None"] q by auto
qed

end
