(* ===== verification/Spec2Isabelle.thy ===== *)
theory Spec2Isabelle
  imports Lazy_Flags Fake_Provider Guest_Heap Dispatcher Decoder_Runs Misc_Handlers Stub_Heap
    Float80_Functions Sse_Float_Facts X87_Facts Handler_Table Seh Pe_Loader_Facts Host_Process
begin

text \<open>
  A verification development for picoCPU, an x86-64 user-mode emulator in C++.

  \<^bold>\<open>The program.\<close>  The emulator runs guest code without executing it on the host.  A memory provider serves guest memory; in the
  tester it is a stack of a first, a second and a third level cache over copy-on-write pages over a host process or a loaded
  image.  The run loop of the dispatcher takes the block at the instruction pointer from the block cache or decodes it, runs the
  peephole pass over it, and calls the handler of each instruction.  Handlers read and write the CPU record and, through the provider,
  memory; an error is latched as a fault that halts the CPU.  Import stubs take over calls that leave the loaded image.  The host part
  loads PE files, reads other processes, unwinds frames and raises exceptions in the guest.

  \<^bold>\<open>Conventions.\<close>  A C++ integer is a word of its width and wraps as in the code.  A function that changes the CPU or the memory
  takes the state and returns it; a status with an out-parameter is a sum or a tuple; every early return is a branch.  The memory
  state is a type parameter \<open>'m\<close>: an environment \<open>'m env\<close> holds the two providers and the hooks, \<open>'m cpu\<close> the registers and the
  memory.  Definitions carry the names of the code where HOL allows it.

  \<^bold>\<open>Data and CPU state.\<close>
  \<^item> \<open>Emu_Prelude\<close>: word types, generic lemmas on words and lists, collections of simplification rules.
  \<^item> \<open>Status_Fault\<close> (\<^verbatim>\<open>error.h, fault.h, error.cpp, fault.cpp\<close>), \<open>IR\<close>, \<open>Op_Kinds\<close>, \<open>Handler_Names\<close> (\<^verbatim>\<open>ir.h, handlers.h, insn.cpp\<close>): statuses,
    faults, operands, instructions, blocks, mnemonics, and the names of the handlers.  An instruction refers to its handler by a constructor
    for the integer handlers and by name for the others; \<open>Handler_Table\<close> maps the names to the functions.
  \<^item> \<open>Cpu_State\<close>, \<open>Flags\<close>, \<open>Flag_Facts\<close>, \<open>Lazy_Flags\<close> (\<^verbatim>\<open>cpu.h, cpu.cpp, flags.cpp\<close>): registers, debug registers, vector registers and faults; the
    stashed flag operation and its evaluation.  The lemmas compare stashed and eager flags and read the conditions off the operands.
  \<^item> \<open>Hooks\<close> (\<^verbatim>\<open>hooks.h\<close>): the hook manager; a callback is a function on the CPU.

  \<^bold>\<open>Memory.\<close>
  \<^item> \<open>Memory_Interface\<close> (\<^verbatim>\<open>memory.h\<close>): the provider record and its contract, the locales \<open>memory\<close> and \<open>paged_memory\<close>: a view of the state as a
    partial map from addresses to bytes, which successful reads return and successful writes update.
  \<^item> \<open>Memory_Spans\<close>, \<open>Shadow_Pages\<close> (\<^verbatim>\<open>shadow_pages.cpp\<close>), \<open>Line_Caches\<close> (\<^verbatim>\<open>l1_cache.cpp, l2_cache.cpp\<close>), \<open>Region_Cache\<close> (\<^verbatim>\<open>l3_cache.cpp\<close>),
    \<open>Memory_Chain\<close> (their composition in \<^verbatim>\<open>tester.cpp\<close>), \<open>Fake_Provider\<close> (\<^verbatim>\<open>provider.cpp\<close>): each layer interprets the contract; the chain
    refines the pages alone for every sequence of accesses.
  \<^item> \<open>Guest_Heap\<close> (\<^verbatim>\<open>heap.cpp\<close>) and \<open>Stub_Heap\<close> (\<^verbatim>\<open>stub_heap.h\<close>): the allocators, with invariants over all sequences of calls.

  \<^bold>\<open>Handlers.\<close>
  \<^item> \<open>Operand_Access\<close> (\<^verbatim>\<open>handler_util.h\<close>), \<open>Arithmetic\<close>, \<open>Multiply_Divide\<close>, \<open>Shift_Rotate\<close>, \<open>Data_Mov\<close>, \<open>Control_Flow\<close>, \<open>String_Ops\<close>, \<open>Bit_Manip\<close>: the
    files of the same names under \<^verbatim>\<open>src/emu/handlers\<close> (\<^verbatim>\<open>logical.cpp\<close> is in \<open>Arithmetic\<close>, \<^verbatim>\<open>bmi.cpp\<close> in \<open>Bit_Manip\<close>).  \<open>Chain_Handlers\<close> runs PUSH, POP,
    CALL and RET through the caches.
  \<^item> \<open>Vector_Access\<close>, \<open>Packed_Integer\<close>, \<open>Vector_Extended\<close>, \<open>Crypto\<close>, \<open>Gather_Scatter\<close>, \<open>Misc_Handlers\<close>: \<^verbatim>\<open>sse.cpp, avx.cpp, avx512.cpp, sse4_aes.cpp,
    phase10.cpp, gather.cpp, misc.cpp, syscalls.cpp\<close>.
  \<^item> \<open>Host_Float\<close>, \<open>Host_Facts\<close>, \<open>Sse_Float\<close>, \<open>Sse_Float_Facts\<close> (\<^verbatim>\<open>sse_fp.cpp\<close> and the floating-point parts of \<^verbatim>\<open>misc.cpp, sse4_aes.cpp,
    avx512.cpp\<close>), \<open>X87\<close>, \<open>X87_Facts\<close> (\<^verbatim>\<open>x87.cpp\<close>): the arithmetic of float and double is IEEE on bit patterns, computed on the exact values and
    rounded in the current mode.
  \<^item> \<open>Float80\<close>, \<open>Float80_Rounding\<close>, \<open>Float80_Arith\<close>, \<open>Float80_Convert\<close>, \<open>Float80_Functions\<close> (\<^verbatim>\<open>float80.h, float80.cpp\<close>): the 80-bit soft float;
    the four operations are shown to be the exact results rounded to nearest even.

  \<^bold>\<open>Decoder and run loop.\<close>
  \<^item> \<open>Decoder_Source\<close>, \<open>Decoder_Groups\<close>, \<open>Decoder_Vector\<close>, \<open>Decoder\<close> (\<^verbatim>\<open>decoder.cpp, modrm.cpp, decoder_opcodes.cpp\<close>): byte sources, prefixes, operands, every
    opcode map.  \<open>Decoder_Facts\<close> shows that decoding a buffer returns and what a decoded instruction is like; \<open>Decoder_Runs\<close> relates decoding
    from memory to decoding a buffer.
  \<^item> \<open>Peephole\<close>, \<open>Block_Cache\<close>, \<open>Iat_Stubs\<close>, \<open>Dispatcher\<close> (\<^verbatim>\<open>peephole.cpp, block_cache.cpp, branch_target_cache.h, iat_stubs.cpp, dispatcher.cpp\<close>), and
    \<open>Handler_Table\<close>, where an accepted byte sequence is followed to the function that runs.

  \<^bold>\<open>Host.\<close>
  \<^item> \<open>Pe_Image\<close>, \<open>Pe_Image_Facts\<close> (\<^verbatim>\<open>pe_image.cpp\<close>): function table lookup, unwinder, handler search.  \<open>Seh\<close> (\<^verbatim>\<open>seh.cpp\<close>): raising an exception.
  \<^item> \<open>Pe_Loader\<close>, \<open>Pe_Loader_Facts\<close> (\<^verbatim>\<open>pe_loader.cpp\<close>): from the bytes of a file to the mapped image, its exports and imports.  Accesses through unchecked
    pointers have a result of their own, so that leaving a buffer is visible.
  \<^item> \<open>Host_Process\<close> (\<^verbatim>\<open>win_process.cpp, win_tls.cpp\<close>): reading a process page by page, and the life of its handles.

  \<^bold>\<open>Loops.\<close>  Loops with a bound of their own are recursive functions with that bound: sixteen links of an unwind chain, 64 normalising
  shifts of a subnormal mantissa, 128 of a difference (its width), the number of blocks of a heap.  A loop that need not end is a partial
  function with value \<open>None\<close>: the prefix loop of the decoder, the codes of the unwinder, and the tables of the loader, where the lemmas
  say when it returns.  The run loop takes a number of turns; \<open>max_insns + 2\<close> are shown to be enough when no import stubs are set.

  \<^bold>\<open>Parameters.\<close>  Code that is not in the repository is an argument: the memory behind the caches, callbacks of hooks and stubs, the
  NaN the host chooses, its conversions out of range and the functions of the C library (\<open>host_fp\<close>), the bytes that lie behind an index
  buffer of a gather (\<open>junk\<close>), and the calls of the operating system (\<open>windows\<close>).

  \<^bold>\<open>Not modelled.\<close>  The logger and the printing of faults (output only), the timing counters, the drivers and sample programs
  \<^verbatim>\<open>tester.cpp, target.cpp, math_target.cpp\<close> apart from the composition of the caches, and the unit tests.  Threads are not modelled: an
  emulator is used by one thread.  Overflow of signed C++ arithmetic in the loader's relocation distance is taken to wrap.
\<close>

end
